(* ===== verification/Bras_Prelude.thy ===== *)
theory Bras_Prelude
  imports Main "HOL-Library.Word"
begin

text \<open>
  Shared vocabulary of the development: the machine integer types of the C and C++ sources,
  byte order helpers (the \<^verbatim>\<open>GETSHORT\<close>/\<^verbatim>\<open>PUTSHORT\<close> macros of \<^verbatim>\<open>src/src/PPP/pppdef.h\<close>),
  generic lemmas on lists and ring arithmetic, reachability of step relations and the
  contract locale \<open>invariant_of\<close> that every stateful component interprets.
\<close>

unbundle bit_operations_syntax

type_synonym byte = "8 word"
type_synonym u8 = "8 word"
type_synonym u16 = "16 word"
type_synonym u32 = "32 word"
type_synonym u64 = "64 word"

named_theorems bras_defs \<open>definitional equations of the small operations of the model\<close>

section \<open>Step relations, reachable states and invariants\<close>

inductive reachable :: "('s \<Rightarrow> bool) \<Rightarrow> ('s \<Rightarrow> 's \<Rightarrow> bool) \<Rightarrow> 's \<Rightarrow> bool"
  for init :: "'s \<Rightarrow> bool" and step :: "'s \<Rightarrow> 's \<Rightarrow> bool" where
  reach_init: "init s \<Longrightarrow> reachable init step s"
| reach_step: "reachable init step s \<Longrightarrow> step s t \<Longrightarrow> reachable init step t"

text \<open>
  The contract of a stateful component: its initial states satisfy the invariant and every step
  keeps it. The client lemma lifts the invariant to every reachable state.
\<close>

locale invariant_of =
  fixes init :: "'s \<Rightarrow> bool" and step :: "'s \<Rightarrow> 's \<Rightarrow> bool" and inv :: "'s \<Rightarrow> bool"
  assumes inv_init: "init s \<Longrightarrow> inv s"
    and inv_step: "inv s \<Longrightarrow> step s t \<Longrightarrow> inv t"
begin

lemma reachable_inv: "reachable init step s \<Longrightarrow> inv s"
  by (induction rule: reachable.induct) (auto intro: inv_init inv_step)

end

section \<open>Byte order\<close>

definition GETSHORT :: "byte \<Rightarrow> byte \<Rightarrow> nat" where
  "GETSHORT hi lo = unat hi * 256 + unat lo"

definition PUTSHORT :: "nat \<Rightarrow> byte list" where
  "PUTSHORT s = [of_nat (s div 256), of_nat s]"

lemma length_PUTSHORT [simp]: "length (PUTSHORT s) = 2"
  by (simp add: PUTSHORT_def)

lemma unat_of_nat_byte: "unat (of_nat n :: byte) = n mod 256"
  by (simp add: unat_of_nat)

lemma GETSHORT_PUTSHORT:
  assumes "s < 65536"
  shows "GETSHORT (PUTSHORT s ! 0) (PUTSHORT s ! 1) = s"
proof -
  have "s div 256 < 256" using assms by simp
  then show ?thesis
    by (simp add: GETSHORT_def PUTSHORT_def unat_of_nat_byte)
qed

lemma GETSHORT_less [simp]: "GETSHORT hi lo < 65536"
proof -
  have "unat hi < 256" and "unat lo < 256"
    using unsigned_less [of hi] unsigned_less [of lo] by simp_all
  then show ?thesis by (simp add: GETSHORT_def)
qed

section \<open>Unsigned 32-bit arithmetic on natural numbers\<close>

text \<open>
  The C type \<^verbatim>\<open>u32\<close> where the arithmetic is easier to follow on \<open>nat\<close>: values below \<open>2 ^ 32\<close>, with
  the wrap-around of addition and subtraction written out.
\<close>

abbreviation (input) U32 :: nat where "U32 \<equiv> 4294967296"

definition u32_add :: "nat \<Rightarrow> nat \<Rightarrow> nat" where
  "u32_add a b = (a + b) mod U32"

definition u32_sub :: "nat \<Rightarrow> nat \<Rightarrow> nat" where
  "u32_sub a b = (a + (U32 - b mod U32)) mod U32"

lemma u32_add_small [simp]: "a + b < U32 \<Longrightarrow> u32_add a b = a + b"
  by (simp add: u32_add_def)

lemma u32_sub_ge [simp]: "b \<le> a \<Longrightarrow> a < U32 \<Longrightarrow> u32_sub a b = a - b"
proof -
  assume h: "b \<le> a" "a < U32"
  then have "a + (U32 - b mod U32) = (a - b) + U32" by simp
  then have "u32_sub a b = ((a - b) + U32) mod U32" by (simp only: u32_sub_def)
  also have "\<dots> = a - b" using h by (subst mod_add_self2) simp
  finally show ?thesis .
qed

lemma u32_add_less [simp]: "u32_add a b < U32" and u32_sub_less [simp]: "u32_sub a b < U32"
  by (simp_all add: u32_add_def u32_sub_def)

section \<open>Copying into a buffer\<close>

text \<open>\<^verbatim>\<open>clib_memcpy (&data[pos], src, n)\<close> for a copy that stays inside the buffer.\<close>

definition memcpy_at :: "'a list \<Rightarrow> nat \<Rightarrow> 'a list \<Rightarrow> nat \<Rightarrow> 'a list" where
  "memcpy_at buf pos src n = take pos buf @ take n src @ drop (pos + n) buf"

lemma length_memcpy_at [simp]:
  "pos + n \<le> length buf \<Longrightarrow> n \<le> length src \<Longrightarrow> length (memcpy_at buf pos src n) = length buf"
  by (simp add: memcpy_at_def)

lemma nth_memcpy_at:
  "pos + n \<le> length buf \<Longrightarrow> n \<le> length src \<Longrightarrow> i < length buf \<Longrightarrow>
   memcpy_at buf pos src n ! i = (if pos \<le> i \<and> i < pos + n then src ! (i - pos) else buf ! i)"
  by (auto simp: memcpy_at_def nth_append min_def)

end
