(* ===== verification/Ppp_Fsm.thy ===== *)
theory Ppp_Fsm
  imports Bras_Prelude
begin

text \<open>
  The PPP option negotiation automaton of \<^verbatim>\<open>src/src/PPP/CPPPFsm.cpp\<close> (class \<^verbatim>\<open>CPPPFsm\<close>), shared
  by LCP and IPCP. The object is the record \<open>fsm\<close>; the protocol specific half, reached in the
  source through the virtual functions of \<^verbatim>\<open>IFsmSink\<close>, is a record of functions \<open>sink\<close> over the
  state \<open>'k\<close> of that half. Two fields of \<open>fsm\<close> make effects visible: \<open>f_timer\<close> is the timer the
  object has registered with the ACE reactor, \<open>f_log\<close> the packets handed to \<^verbatim>\<open>OutputPacket\<close> and
  the layer callbacks (\<^verbatim>\<open>Up\<close>, \<^verbatim>\<open>Down\<close>, \<^verbatim>\<open>Starting\<close>, \<^verbatim>\<open>Finished\<close>) in the order of the calls.
\<close>

section \<open>Data\<close>

datatype fsm_state =
  INITIAL | STARTING | CLOSED | STOPPED | CLOSING | STOPPING | REQSENT | ACKRCVD | ACKSENT | OPENED

datatype fsm_out = OutPkt "byte list" | CbUp | CbDown | CbStarting | CbFinished

record 'k fsm =
  m_protocol :: nat
  m_state :: fsm_state
  m_flags :: u32
  m_id :: u8
  m_reqid :: u8
  m_seen_ack :: bool
  m_timeouttime :: int
  m_maxconfreqtransmits :: int
  m_retransmits :: int
  m_maxtermtransmits :: int
  m_nakloops :: int
  m_rnakloops :: int
  m_maxnakloops :: int
  m_term_reason :: "byte list"
  m_term_reason_len :: nat
  f_sink :: 'k
  f_timer :: "int option"
  f_log :: "fsm_out list"

record 'k sink =
  cb_Resetci :: "'k fsm \<Rightarrow> 'k fsm"
  cb_Cilen :: "'k fsm \<Rightarrow> nat \<times> 'k fsm"
  cb_Addci :: "'k fsm \<Rightarrow> nat \<Rightarrow> byte list \<times> 'k fsm"
  cb_Ackci :: "'k fsm \<Rightarrow> byte list \<Rightarrow> bool \<times> 'k fsm"
  cb_Nakci :: "'k fsm \<Rightarrow> byte list \<Rightarrow> bool \<Rightarrow> int \<times> 'k fsm"
  cb_Rejci :: "'k fsm \<Rightarrow> byte list \<Rightarrow> int \<times> 'k fsm"
  cb_Reqci :: "'k fsm \<Rightarrow> byte list \<Rightarrow> bool \<Rightarrow> int \<times> byte list \<times> 'k fsm"
  cb_Up :: "'k fsm \<Rightarrow> 'k fsm"
  cb_Down :: "'k fsm \<Rightarrow> 'k fsm"
  cb_Starting :: "'k fsm \<Rightarrow> 'k fsm"
  cb_Finished :: "'k fsm \<Rightarrow> 'k fsm"
  cb_Retransmit :: "'k fsm \<Rightarrow> 'k fsm"
  cb_ExtCode :: "'k fsm \<Rightarrow> u8 \<Rightarrow> u8 \<Rightarrow> byte list \<Rightarrow> bool \<times> 'k fsm"

abbreviation (input) CONFREQ :: u8 where "CONFREQ \<equiv> 1"
abbreviation (input) CONFACK :: u8 where "CONFACK \<equiv> 2"
abbreviation (input) CONFNAK :: u8 where "CONFNAK \<equiv> 3"
abbreviation (input) CONFREJ :: u8 where "CONFREJ \<equiv> 4"
abbreviation (input) TERMREQ :: u8 where "TERMREQ \<equiv> 5"
abbreviation (input) TERMACK :: u8 where "TERMACK \<equiv> 6"
abbreviation (input) CODEREJ :: u8 where "CODEREJ \<equiv> 7"

abbreviation (input) OPT_PASSIVE :: u32 where "OPT_PASSIVE \<equiv> 1"
abbreviation (input) OPT_RESTART :: u32 where "OPT_RESTART \<equiv> 2"
abbreviation (input) OPT_SILENT :: u32 where "OPT_SILENT \<equiv> 4"

abbreviation (input) HEADERLEN :: nat where "HEADERLEN \<equiv> 4"
abbreviation (input) PPP_MRU :: nat where "PPP_MRU \<equiv> 1500"

definition fsm_new :: "'k \<Rightarrow> nat \<Rightarrow> 'k fsm" where
  "fsm_new k protocol =
     \<lparr>m_protocol = protocol, m_state = INITIAL, m_flags = 0, m_id = 0, m_reqid = 0,
      m_seen_ack = False, m_timeouttime = 3, m_maxconfreqtransmits = 10, m_retransmits = 0,
      m_maxtermtransmits = 2, m_nakloops = 0, m_rnakloops = 0, m_maxnakloops = 5,
      m_term_reason = [], m_term_reason_len = 0, f_sink = k, f_timer = None, f_log = []\<rparr>"

definition Init :: "'k fsm \<Rightarrow> 'k fsm" where
  "Init f = f\<lparr>m_state := INITIAL, m_flags := 0, m_id := 0, m_timeouttime := 3,
     m_maxconfreqtransmits := 10, m_maxtermtransmits := 2, m_maxnakloops := 5,
     m_term_reason_len := 0\<rparr>"

section \<open>Timer, output and callbacks\<close>

definition CancelTimer :: "'k fsm \<Rightarrow> 'k fsm" where
  "CancelTimer f = f\<lparr>f_timer := None\<rparr>"

definition StartTime :: "int \<Rightarrow> 'k fsm \<Rightarrow> 'k fsm" where
  "StartTime seconds f = (CancelTimer f)\<lparr>f_timer := Some seconds\<rparr>"

definition Output :: "byte list \<Rightarrow> 'k fsm \<Rightarrow> 'k fsm" where
  "Output pkt f = f\<lparr>f_log := f_log f @ [OutPkt pkt]\<rparr>"

definition Up :: "'k sink \<Rightarrow> 'k fsm \<Rightarrow> 'k fsm" where
  "Up cb f = cb_Up cb (f\<lparr>f_log := f_log f @ [CbUp]\<rparr>)"

definition Down :: "'k sink \<Rightarrow> 'k fsm \<Rightarrow> 'k fsm" where
  "Down cb f = cb_Down cb (f\<lparr>f_log := f_log f @ [CbDown]\<rparr>)"

definition Starting :: "'k sink \<Rightarrow> 'k fsm \<Rightarrow> 'k fsm" where
  "Starting cb f = cb_Starting cb (f\<lparr>f_log := f_log f @ [CbStarting]\<rparr>)"

definition Finished :: "'k sink \<Rightarrow> 'k fsm \<Rightarrow> 'k fsm" where
  "Finished cb f = cb_Finished cb (f\<lparr>f_log := f_log f @ [CbFinished]\<rparr>)"

text \<open>\<^verbatim>\<open>SendData\<close>: the packet is the PPP header, the control header and the (clipped) data.\<close>

definition MAKEHEADER :: "nat \<Rightarrow> byte list" where
  "MAKEHEADER protocol = [0xff, 0x03] @ PUTSHORT protocol"

definition mk_packet :: "nat \<Rightarrow> u8 \<Rightarrow> u8 \<Rightarrow> byte list \<Rightarrow> byte list" where
  "mk_packet protocol code pid data =
     (let data = take (PPP_MRU - HEADERLEN) data; outlen = length data + HEADERLEN
      in MAKEHEADER protocol @ [code, pid] @ PUTSHORT outlen @ data)"

definition SendData :: "u8 \<Rightarrow> u8 \<Rightarrow> byte list \<Rightarrow> 'k fsm \<Rightarrow> 'k fsm" where
  "SendData code pid data f = Output (mk_packet (m_protocol f) code pid data) f"

abbreviation set_state :: "fsm_state \<Rightarrow> 'k fsm \<Rightarrow> 'k fsm" where
  "set_state s f \<equiv> f\<lparr>m_state := s\<rparr>"

definition negotiating :: "fsm_state \<Rightarrow> bool" where
  "negotiating s \<longleftrightarrow> s = REQSENT \<or> s = ACKRCVD \<or> s = ACKSENT"

definition SendConfReq :: "'k sink \<Rightarrow> bool \<Rightarrow> 'k fsm \<Rightarrow> 'k fsm" where
  "SendConfReq cb retransmit f =
     (let f = (if negotiating (m_state f) then f
               else (cb_Resetci cb f)\<lparr>m_nakloops := 0, m_rnakloops := 0\<rparr>);
          f = (if retransmit then f
               else f\<lparr>m_retransmits := m_maxconfreqtransmits f,
                      m_id := m_id f + 1, m_reqid := m_id f + 1\<rparr>);
          f = f\<lparr>m_seen_ack := False\<rparr>;
          (cilen, f) = cb_Cilen cb f;
          (ci, f) = cb_Addci cb f (min cilen (PPP_MRU - HEADERLEN));
          f = SendData CONFREQ (m_reqid f) ci f;
          f = f\<lparr>m_retransmits := m_retransmits f - 1\<rparr>
      in StartTime (m_timeouttime f) f)"

section \<open>Lower layer, open and close events\<close>

definition LowerUp :: "'k sink \<Rightarrow> 'k fsm \<Rightarrow> 'k fsm" where
  "LowerUp cb f =
     (case m_state f of
        INITIAL \<Rightarrow> set_state CLOSED f
      | STARTING \<Rightarrow>
          (if m_flags f AND OPT_SILENT \<noteq> 0 then set_state STOPPED f
           else set_state REQSENT (SendConfReq cb False f))
      | _ \<Rightarrow> f)"

definition LowerDown :: "'k sink \<Rightarrow> 'k fsm \<Rightarrow> 'k fsm" where
  "LowerDown cb f =
     (case m_state f of
        CLOSED \<Rightarrow> set_state INITIAL f
      | STOPPED \<Rightarrow> Starting cb (set_state STARTING f)
      | CLOSING \<Rightarrow> CancelTimer (set_state INITIAL f)
      | STOPPING \<Rightarrow> CancelTimer (set_state STARTING f)
      | REQSENT \<Rightarrow> CancelTimer (set_state STARTING f)
      | ACKRCVD \<Rightarrow> CancelTimer (set_state STARTING f)
      | ACKSENT \<Rightarrow> CancelTimer (set_state STARTING f)
      | OPENED \<Rightarrow> set_state STARTING (Down cb f)
      | _ \<Rightarrow> f)"

definition Open_restart :: "'k sink \<Rightarrow> 'k fsm \<Rightarrow> 'k fsm" where
  "Open_restart cb f =
     (if m_flags f AND OPT_RESTART \<noteq> 0 then LowerUp cb (LowerDown cb f) else f)"

definition Open :: "'k sink \<Rightarrow> 'k fsm \<Rightarrow> 'k fsm" where
  "Open cb f =
     (case m_state f of
        INITIAL \<Rightarrow> Starting cb (set_state STARTING f)
      | CLOSED \<Rightarrow>
          (if m_flags f AND OPT_SILENT \<noteq> 0 then set_state STOPPED f
           else set_state REQSENT (SendConfReq cb False f))
      | CLOSING \<Rightarrow> Open_restart cb (set_state STOPPING f)
      | STOPPED \<Rightarrow> Open_restart cb f
      | OPENED \<Rightarrow> Open_restart cb f
      | _ \<Rightarrow> f)"

definition TerminateLayer :: "'k sink \<Rightarrow> fsm_state \<Rightarrow> 'k fsm \<Rightarrow> 'k fsm" where
  "TerminateLayer cb nextstate f =
     (let f = (if m_state f \<noteq> OPENED then CancelTimer f else f);
          f = Down cb f;
          f = f\<lparr>m_retransmits := m_maxtermtransmits f\<rparr>;
          f = f\<lparr>m_id := m_id f + 1, m_reqid := m_id f + 1\<rparr>;
          f = SendData TERMREQ (m_reqid f) (m_term_reason f) f
      in if m_retransmits f = 0
         then Finished cb (set_state (if nextstate = CLOSING then CLOSED else STOPPED) f)
         else let f = StartTime (m_timeouttime f) f;
                  f = f\<lparr>m_retransmits := m_retransmits f - 1\<rparr>
              in set_state nextstate f)"

text \<open>
  \<^verbatim>\<open>Close\<close> copies \<^verbatim>\<open>strlen(reason)\<close> bytes before it tests \<^verbatim>\<open>reason == NULL\<close>: a null pointer is
  dereferenced, which is the result \<open>None\<close>.
\<close>

definition Close :: "'k sink \<Rightarrow> byte list option \<Rightarrow> 'k fsm \<Rightarrow> 'k fsm option" where
  "Close cb reason f =
     (case reason of
        None \<Rightarrow> None
      | Some r \<Rightarrow>
          let f = f\<lparr>m_term_reason := r, m_term_reason_len := length r\<rparr>
          in Some (case m_state f of
               STARTING \<Rightarrow> set_state INITIAL f
             | STOPPED \<Rightarrow> set_state CLOSED f
             | STOPPING \<Rightarrow> set_state CLOSING f
             | REQSENT \<Rightarrow> TerminateLayer cb CLOSING f
             | ACKRCVD \<Rightarrow> TerminateLayer cb CLOSING f
             | ACKSENT \<Rightarrow> TerminateLayer cb CLOSING f
             | OPENED \<Rightarrow> TerminateLayer cb CLOSING f
             | _ \<Rightarrow> f))"

definition Timeout_term :: "'k sink \<Rightarrow> 'k fsm \<Rightarrow> 'k fsm" where
  "Timeout_term cb f =
     (if m_retransmits f \<le> 0
      then Finished cb (set_state (if m_state f = CLOSING then CLOSED else STOPPED) f)
      else let f = f\<lparr>m_id := m_id f + 1, m_reqid := m_id f + 1\<rparr>;
               f = SendData TERMREQ (m_reqid f) (take (m_term_reason_len f) (m_term_reason f)) f;
               f = StartTime (m_timeouttime f) f
           in f\<lparr>m_retransmits := m_retransmits f - 1\<rparr>)"

definition Timeout_conf :: "'k sink \<Rightarrow> 'k fsm \<Rightarrow> 'k fsm" where
  "Timeout_conf cb f =
     (if m_retransmits f \<le> 0
      then let f = set_state STOPPED f
           in if m_flags f AND OPT_PASSIVE = 0 then Finished cb f else f
      else let f = cb_Retransmit cb f;
               f = SendConfReq cb True f
           in if m_state f = ACKRCVD then set_state REQSENT f else f)"

definition Timeout :: "'k sink \<Rightarrow> 'k fsm \<Rightarrow> 'k fsm" where
  "Timeout cb f =
     (case m_state f of
        CLOSING \<Rightarrow> Timeout_term cb f
      | STOPPING \<Rightarrow> Timeout_term cb f
      | REQSENT \<Rightarrow> Timeout_conf cb f
      | ACKRCVD \<Rightarrow> Timeout_conf cb f
      | ACKSENT \<Rightarrow> Timeout_conf cb f
      | _ \<Rightarrow> f)"

section \<open>Received packets\<close>

text \<open>
  \<^verbatim>\<open>RcvConfReq\<close> in two parts: the switch on the state, which may return (\<open>Inl\<close>), and the check of
  the requested options with its answer.
\<close>

definition RcvConfReq_switch :: "'k sink \<Rightarrow> u8 \<Rightarrow> 'k fsm \<Rightarrow> 'k fsm + 'k fsm" where
  "RcvConfReq_switch cb pid f =
     (case m_state f of
        CLOSED \<Rightarrow> Inl (SendData TERMACK pid [] f)
      | STOPPED \<Rightarrow> Inr (set_state REQSENT (SendConfReq cb False f))
      | CLOSING \<Rightarrow> Inl f
      | STOPPING \<Rightarrow> Inl f
      | OPENED \<Rightarrow> Inr (set_state REQSENT (SendConfReq cb False (Down cb f)))
      | _ \<Rightarrow> Inr f)"

definition Reqci_code :: "'k sink \<Rightarrow> byte list \<Rightarrow> 'k fsm \<Rightarrow> u8 \<times> byte list \<times> 'k fsm" where
  "Reqci_code cb inp f =
     (let reject_if_disagree = (m_nakloops f \<ge> m_maxnakloops f);
          (code, inp, f) = cb_Reqci cb f inp reject_if_disagree;
          code = (if code = -1 then (if inp \<noteq> [] then CONFREJ else CONFACK) else of_int code)
      in (code, inp, f))"

definition RcvConfReq_answer :: "'k sink \<Rightarrow> u8 \<Rightarrow> byte list \<Rightarrow> 'k fsm \<Rightarrow> 'k fsm" where
  "RcvConfReq_answer cb pid inp f =
     (let (code, inp, f) = Reqci_code cb inp f;
          f = SendData code pid inp f
      in if code = CONFACK
         then let f = (if m_state f = ACKRCVD
                       then Up cb (set_state OPENED (CancelTimer f))
                       else set_state ACKSENT f)
              in f\<lparr>m_nakloops := 0\<rparr>
         else let f = (if m_state f \<noteq> ACKRCVD then set_state REQSENT f else f)
              in if code = CONFNAK then f\<lparr>m_nakloops := m_nakloops f + 1\<rparr> else f)"

definition RcvConfReq :: "'k sink \<Rightarrow> u8 \<Rightarrow> byte list \<Rightarrow> 'k fsm \<Rightarrow> 'k fsm" where
  "RcvConfReq cb pid inp f =
     (case RcvConfReq_switch cb pid f of
        Inl f \<Rightarrow> f
      | Inr f \<Rightarrow> RcvConfReq_answer cb pid inp f)"

definition RcvConfAck :: "'k sink \<Rightarrow> u8 \<Rightarrow> byte list \<Rightarrow> 'k fsm \<Rightarrow> 'k fsm" where
  "RcvConfAck cb pid inp f =
     (if pid \<noteq> m_reqid f \<or> m_seen_ack f then f
      else let (ok, f) = cb_Ackci cb f inp
           in if \<not> ok then f
              else let f = f\<lparr>m_seen_ack := True, m_rnakloops := 0\<rparr>
                   in (case m_state f of
                         CLOSED \<Rightarrow> SendData TERMACK pid [] f
                       | STOPPED \<Rightarrow> SendData TERMACK pid [] f
                       | REQSENT \<Rightarrow>
                           f\<lparr>m_state := ACKRCVD, m_retransmits := m_maxconfreqtransmits f\<rparr>
                       | ACKRCVD \<Rightarrow>
                           set_state REQSENT (SendConfReq cb False (CancelTimer f))
                       | ACKSENT \<Rightarrow>
                           Up cb ((CancelTimer f)\<lparr>m_state := OPENED,
                                                  m_retransmits := m_maxconfreqtransmits f\<rparr>)
                       | OPENED \<Rightarrow>
                           set_state REQSENT (SendConfReq cb False (Down cb f))
                       | _ \<Rightarrow> f))"

definition RcvConfNakRej_check :: "'k sink \<Rightarrow> u8 \<Rightarrow> byte list \<Rightarrow> 'k fsm \<Rightarrow> int \<times> 'k fsm" where
  "RcvConfNakRej_check cb code inp f =
     (if code = CONFNAK
      then let f = f\<lparr>m_rnakloops := m_rnakloops f + 1\<rparr>
           in cb_Nakci cb f inp (m_rnakloops f \<ge> m_maxnakloops f)
      else cb_Rejci cb (f\<lparr>m_rnakloops := 0\<rparr>) inp)"

definition RcvConfNakRej :: "'k sink \<Rightarrow> u8 \<Rightarrow> u8 \<Rightarrow> byte list \<Rightarrow> 'k fsm \<Rightarrow> 'k fsm" where
  "RcvConfNakRej cb code pid inp f =
     (if pid \<noteq> m_reqid f \<or> m_seen_ack f then f
      else let (ret, f) = RcvConfNakRej_check cb code inp f
           in if ret = 0 then f
              else let f = f\<lparr>m_seen_ack := True\<rparr>;
                       again = (\<lambda>f. let f = CancelTimer f
                                    in if ret < 0 then set_state STOPPED f
                                       else SendConfReq cb False f)
                   in (case m_state f of
                         CLOSED \<Rightarrow> SendData TERMACK pid [] f
                       | STOPPED \<Rightarrow> SendData TERMACK pid [] f
                       | REQSENT \<Rightarrow> again f
                       | ACKSENT \<Rightarrow> again f
                       | ACKRCVD \<Rightarrow>
                           set_state REQSENT (SendConfReq cb False (CancelTimer f))
                       | OPENED \<Rightarrow>
                           set_state REQSENT (SendConfReq cb False (Down cb f))
                       | _ \<Rightarrow> f))"

definition RcvTermReq :: "'k sink \<Rightarrow> u8 \<Rightarrow> 'k fsm \<Rightarrow> 'k fsm" where
  "RcvTermReq cb pid f =
     (case m_state f of
        ACKRCVD \<Rightarrow> SendData TERMACK pid [] (set_state REQSENT f)
      | ACKSENT \<Rightarrow> SendData TERMACK pid [] (set_state REQSENT f)
      | OPENED \<Rightarrow>
          (let f = f\<lparr>m_retransmits := 0, m_state := STOPPING\<rparr>;
               f = SendData TERMACK pid [] f;
               f = Down cb f
           in StartTime (m_timeouttime f) f)
      | _ \<Rightarrow> SendData TERMACK pid [] f)"

definition RcvTermack :: "'k sink \<Rightarrow> 'k fsm \<Rightarrow> 'k fsm" where
  "RcvTermack cb f =
     (case m_state f of
        CLOSING \<Rightarrow> Finished cb (set_state CLOSED (CancelTimer f))
      | STOPPING \<Rightarrow> Finished cb (set_state STOPPED (CancelTimer f))
      | ACKRCVD \<Rightarrow> set_state REQSENT f
      | OPENED \<Rightarrow> set_state REQSENT (SendConfReq cb False (Down cb f))
      | _ \<Rightarrow> f)"

definition RcvCodeReject :: "byte list \<Rightarrow> 'k fsm \<Rightarrow> 'k fsm" where
  "RcvCodeReject inp f =
     (if length inp < HEADERLEN then f
      else if m_state f = ACKRCVD then set_state REQSENT f else f)"

definition ProtReject :: "'k sink \<Rightarrow> 'k fsm \<Rightarrow> 'k fsm" where
  "ProtReject cb f =
     (case m_state f of
        CLOSING \<Rightarrow> Finished cb (set_state CLOSED (CancelTimer f))
      | CLOSED \<Rightarrow> Finished cb (set_state CLOSED f)
      | STOPPING \<Rightarrow> Finished cb (set_state STOPPED (CancelTimer f))
      | REQSENT \<Rightarrow> Finished cb (set_state STOPPED (CancelTimer f))
      | ACKRCVD \<Rightarrow> Finished cb (set_state STOPPED (CancelTimer f))
      | ACKSENT \<Rightarrow> Finished cb (set_state STOPPED (CancelTimer f))
      | STOPPED \<Rightarrow> Finished cb (set_state STOPPED f)
      | OPENED \<Rightarrow> TerminateLayer cb STOPPING f
      | _ \<Rightarrow> f)"

text \<open>
  The header check of \<^verbatim>\<open>Input\<close>: code, identifier and the data the length field covers, or
  nothing when the packet is shorter than its header or than its length field says.
\<close>

definition parse_packet :: "byte list \<Rightarrow> (u8 \<times> u8 \<times> byte list) option" where
  "parse_packet pkt =
     (if length pkt < HEADERLEN then None
      else let code = pkt ! 0; pid = pkt ! 1; len = GETSHORT (pkt ! 2) (pkt ! 3)
           in if len < HEADERLEN then None
              else if len > length pkt then None
              else Some (code, pid, take (len - HEADERLEN) (drop HEADERLEN pkt)))"

definition Input_code :: "'k sink \<Rightarrow> byte list \<Rightarrow> u8 \<Rightarrow> u8 \<Rightarrow> byte list \<Rightarrow> 'k fsm \<Rightarrow> 'k fsm" where
  "Input_code cb pkt code pid inp f =
     (if code = CONFREQ then RcvConfReq cb pid inp f
      else if code = CONFACK then RcvConfAck cb pid inp f
      else if code = CONFNAK \<or> code = CONFREJ then RcvConfNakRej cb code pid inp f
      else if code = TERMREQ then RcvTermReq cb pid f
      else if code = TERMACK then RcvTermack cb f
      else if code = CODEREJ then RcvCodeReject inp f
      else let (handled, f) = cb_ExtCode cb f code pid inp
           in if handled then f
              else let f = f\<lparr>m_id := m_id f + 1\<rparr>
                   in SendData CODEREJ (m_id f) (take (length inp + HEADERLEN) pkt) f)"

definition Input :: "'k sink \<Rightarrow> byte list \<Rightarrow> 'k fsm \<Rightarrow> 'k fsm" where
  "Input cb pkt f =
     (case parse_packet pkt of
        None \<Rightarrow> f
      | Some (code, pid, inp) \<Rightarrow>
          if m_state f = INITIAL \<or> m_state f = STARTING then f
          else Input_code cb pkt code pid inp f)"

definition EnableFlag :: "u32 \<Rightarrow> 'k fsm \<Rightarrow> 'k fsm" where
  "EnableFlag flag f = f\<lparr>m_flags := m_flags f OR flag\<rparr>"

definition DisableFlag :: "u32 \<Rightarrow> 'k fsm \<Rightarrow> 'k fsm" where
  "DisableFlag flag f = f\<lparr>m_flags := m_flags f AND NOT flag\<rparr>"

definition GetId :: "'k fsm \<Rightarrow> u8 \<times> 'k fsm" where
  "GetId f = (m_id f + 1, f\<lparr>m_id := m_id f + 1\<rparr>)"

end
