(* ===== verification/Ppp_Options.thy ===== *)
theory Ppp_Options
  imports Bras_Prelude "HOL-Library.Sublist"
begin

text \<open>
  What the option negotiations of LCP and IPCP share: 32-bit fields in network byte order, the
  split of a packet body into options, and the bookkeeping of \<^verbatim>\<open>Reqci\<close> that merges the verdicts on
  the single options into one answer.
\<close>

section \<open>The GETLONG and PUTLONG macros\<close>

definition PUTLONG :: "u32 \<Rightarrow> byte list" where
  "PUTLONG l = [ucast (drop_bit 24 l), ucast (drop_bit 16 l), ucast (drop_bit 8 l), ucast l]"

definition GETLONG :: "byte list \<Rightarrow> u32" where
  "GETLONG p = push_bit 24 (ucast (p ! 0)) OR push_bit 16 (ucast (p ! 1)) OR
     push_bit 8 (ucast (p ! 2)) OR ucast (p ! 3)"

lemma length_PUTLONG [simp]: "length (PUTLONG l) = 4"
  by (simp add: PUTLONG_def)

lemma GETLONG_PUTLONG [simp]: "GETLONG (PUTLONG l @ xs) = l"
proof (rule bit_word_eqI)
  fix n
  assume "n < LENGTH(32)"
  then show "bit (GETLONG (PUTLONG l @ xs)) n = bit l n"
    by (cases "n < 8"; cases "n < 16"; cases "n < 24")
      (auto simp: GETLONG_def PUTLONG_def bit_simps not_less)
qed

lemma byte_high_bits: "8 \<le> n \<Longrightarrow> \<not> bit (b :: byte) n"
  using bit_imp_le_length [of b n] by auto

lemma PUTLONG_GETLONG4: "PUTLONG (GETLONG [a, b, c, d]) = [a, b, c, d]"
  by (auto simp: GETLONG_def PUTLONG_def bit_simps not_less byte_high_bits intro!: bit_word_eqI)

lemma PUTLONG_GETLONG: "length p = 4 \<Longrightarrow> PUTLONG (GETLONG p) = p"
  by (auto simp: PUTLONG_GETLONG4 length_Suc_conv numeral_eq_Suc)

lemma PUTLONG_GETLONG_take: "4 \<le> length p \<Longrightarrow> PUTLONG (GETLONG p) = take 4 p"
  using PUTLONG_GETLONG [of "take 4 p"] by (simp add: GETLONG_def)

lemma GETLONG_eq_iff: "4 \<le> length p \<Longrightarrow> GETLONG p = l \<longleftrightarrow> take 4 p = PUTLONG l"
  by (metis GETLONG_PUTLONG PUTLONG_GETLONG_take append_Nil2)

lemma PUTLONG_inject [simp]: "PUTLONG a = PUTLONG b \<longleftrightarrow> a = b"
  by (metis GETLONG_PUTLONG append_Nil2)

section \<open>Bytes and 16-bit fields of an option\<close>

lemma byte_unat_of_nat: "n < 256 \<Longrightarrow> unat (of_nat n :: byte) = n"
  by (simp add: unat_of_nat_byte)

lemma list_split2: "2 \<le> length p \<Longrightarrow> p = [p ! 0, p ! 1] @ drop 2 p"
  by (cases p; cases "tl p") auto

lemma GETSHORT_eq_iff: "v < 65536 \<Longrightarrow> GETSHORT a b = v \<longleftrightarrow> [a, b] = PUTSHORT v"
proof
  assume "v < 65536" and g: "GETSHORT a b = v"
  have "unat b < 256" using unsigned_less [of b] by simp
  then have "v div 256 = unat a" "v mod 256 = unat b" using g by (auto simp: GETSHORT_def)
  then show "[a, b] = PUTSHORT v"
    by (simp add: PUTSHORT_def word_unat_eq_iff unat_of_nat_byte)
next
  assume "v < 65536" and "[a, b] = PUTSHORT v"
  then show "GETSHORT a b = v" using GETSHORT_PUTSHORT [of v] by (metis nth_Cons_0 nth_Cons_Suc One_nat_def)
qed

lemma list_split4: "4 \<le> length p \<Longrightarrow> p = [p ! 0, p ! 1] @ [p ! 2, p ! 3] @ drop 4 p"
  using list_split2 [of p] list_split2 [of "drop 2 p"] by (simp add: numeral_eq_Suc)

lemma byte_eq_of_nat: "n < 256 \<Longrightarrow> (b :: byte) = of_nat n \<longleftrightarrow> unat b = n"
  by (auto simp: word_unat_eq_iff unat_of_nat_byte)

section \<open>The loop of Reqci\<close>

text \<open>The verdicts on an option and on the request, the codes CONFACK, CONFNAK and CONFREJ.\<close>

abbreviation (input) CI_ACK :: int where "CI_ACK \<equiv> 2"
abbreviation (input) CI_NAK :: int where "CI_NAK \<equiv> 3"
abbreviation (input) CI_REJ :: int where "CI_REJ \<equiv> 4"

text \<open>
  The code after \<^verbatim>\<open>endswitch\<close>: \<open>rc\<close> is the code of the answer so far, \<open>out\<close> what lies between \<^verbatim>\<open>inp\<close>
  and \<^verbatim>\<open>ucp\<close>, \<open>ci\<close> the current option as it stands in the buffer. The answer is built in place, but
  \<^verbatim>\<open>ucp\<close> never passes the start of the current option, so no option is overwritten before it is read.
\<close>

definition merge_ci :: "bool \<Rightarrow> int \<Rightarrow> byte list \<Rightarrow> int \<times> byte list \<Rightarrow> int \<times> byte list" where
  "merge_ci reject_if_disagree orc ci acc =
     (let (rc, out) = acc
      in if orc = CI_ACK \<and> rc \<noteq> CI_ACK then (rc, out)
         else if orc = CI_NAK \<and> \<not> reject_if_disagree
         then if rc = CI_REJ then (rc, out)
              else if rc = CI_ACK then (CI_NAK, ci)
              else (rc, out @ ci)
         else let orc = (if orc = CI_NAK then CI_REJ else orc)
              in if orc = CI_REJ \<and> rc \<noteq> CI_REJ then (CI_REJ, ci) else (rc, out @ ci))"

text \<open>An option header that is cut short or has an impossible length.\<close>

definition bad_ci :: "byte list \<Rightarrow> bool" where
  "bad_ci p \<longleftrightarrow> length p < 2 \<or> unat (p ! 1) < 2 \<or> unat (p ! 1) > length p"

text \<open>
  The \<^verbatim>\<open>while (l)\<close> loop: \<open>chk\<close> is the \<^verbatim>\<open>switch (citype)\<close> of the protocol, which returns the verdict,
  the option (with the value it suggests written over it) and its updated state.
\<close>

function reqci_loop :: "('s \<Rightarrow> byte list \<Rightarrow> int \<times> byte list \<times> 's) \<Rightarrow> bool \<Rightarrow> byte list \<Rightarrow>
    int \<times> byte list \<Rightarrow> 's \<Rightarrow> (int \<times> byte list) \<times> 's" where
  "reqci_loop chk rej p acc st =
     (if p = [] then (acc, st)
      else if bad_ci p then (merge_ci rej CI_REJ p acc, st)
      else let n = unat (p ! 1); (orc, ci, st) = chk st (take n p)
           in reqci_loop chk rej (drop n p) (merge_ci rej orc ci acc) st)"
  by pat_completeness auto
termination
  by (relation "measure (\<lambda>(chk, rej, p, acc, st). length p)") (auto simp: bad_ci_def)

declare reqci_loop.simps [simp del]

text \<open>The options of a packet body; the last one may be the malformed rest.\<close>

function cis :: "byte list \<Rightarrow> byte list list" where
  "cis p = (if p = [] then [] else if bad_ci p then [p]
     else take (unat (p ! 1)) p # cis (drop (unat (p ! 1)) p))"
  by pat_completeness auto
termination
  by (relation "measure length") (auto simp: bad_ci_def)

declare cis.simps [simp del]

lemma concat_cis [simp]: "concat (cis p) = p"
proof (induction p rule: cis.induct)
  case (1 p)
  then show ?case by (subst cis.simps) simp
qed

lemma cis_good: "ci \<in> set (cis p) \<Longrightarrow> bad_ci ci \<or> 2 \<le> length ci \<and> unat (ci ! 1) = length ci"
proof (induction p rule: cis.induct)
  case (1 p)
  show ?case
  proof (cases "p = [] \<or> bad_ci p")
    case True
    then show ?thesis using 1(2) by (subst (asm) cis.simps) (auto split: if_splits)
  next
    case False
    then have "ci = take (unat (p ! 1)) p \<or> ci \<in> set (cis (drop (unat (p ! 1)) p))"
      using 1(2) by (subst (asm) cis.simps) auto
    then show ?thesis using 1(1) False by (auto simp: bad_ci_def min_def)
  qed
qed

text \<open>The loop as a fold over the options.\<close>

definition ci_step :: "('s \<Rightarrow> byte list \<Rightarrow> int \<times> byte list \<times> 's) \<Rightarrow> bool \<Rightarrow> byte list \<Rightarrow>
    (int \<times> byte list) \<times> 's \<Rightarrow> (int \<times> byte list) \<times> 's" where
  "ci_step chk rej ci s =
     (if bad_ci ci then (merge_ci rej CI_REJ ci (fst s), snd s)
      else let (orc, ci', st) = chk (snd s) ci in (merge_ci rej orc ci' (fst s), st))"

lemma good_ci_take: "\<not> bad_ci p \<Longrightarrow> \<not> bad_ci (take (unat (p ! 1)) p)"
  by (auto simp: bad_ci_def min_def)

lemma reqci_loop_fold: "reqci_loop chk rej p acc st = fold (ci_step chk rej) (cis p) (acc, st)"
proof (induction p arbitrary: acc st rule: cis.induct)
  case (1 p)
  show ?case
  proof (cases "p = [] \<or> bad_ci p")
    case True
    then show ?thesis by (subst reqci_loop.simps, subst cis.simps) (auto simp: ci_step_def)
  next
    case False
    let ?n = "unat (p ! 1)"
    obtain orc ci st' where c: "chk st (take ?n p) = (orc, ci, st')" by (cases "chk st (take ?n p)")
    have "reqci_loop chk rej p acc st = reqci_loop chk rej (drop ?n p) (merge_ci rej orc ci acc) st'"
      using False c by (subst reqci_loop.simps) simp
    also have "\<dots> = fold (ci_step chk rej) (cis (drop ?n p)) (merge_ci rej orc ci acc, st')"
      using 1 False by blast
    also have "\<dots> = fold (ci_step chk rej) (cis p) (acc, st)"
      using False c good_ci_take [of p] by (subst (2) cis.simps) (simp add: ci_step_def)
    finally show ?thesis .
  qed
qed

section \<open>The contract of an option checker\<close>

text \<open>
  What the loop needs of a protocol's \<^verbatim>\<open>switch\<close>: one of the three verdicts, and an option that is
  accepted or rejected left as it was sent. The client lemmas: the code of the answer, that an
  acknowledged request is echoed unchanged, and that a rejection lists options of the request.
\<close>

lemmas merge_simps = merge_ci_def Let_def case_prod_beta

locale option_checker =
  fixes chk :: "'s \<Rightarrow> byte list \<Rightarrow> int \<times> byte list \<times> 's"
  assumes verdict: "fst (chk st ci) \<in> {CI_ACK, CI_NAK, CI_REJ}"
    and unchanged: "fst (chk st ci) \<noteq> CI_NAK \<Longrightarrow> fst (snd (chk st ci)) = ci"
begin

lemma step_code:
  "fst (fst s) \<in> {CI_ACK, CI_NAK, CI_REJ} \<Longrightarrow> fst (fst (ci_step chk rej ci s)) \<in> {CI_ACK, CI_NAK, CI_REJ}"
  using verdict [of "snd s" ci] by (auto simp: ci_step_def merge_simps)

lemma step_not_ack: "fst (fst s) \<noteq> CI_ACK \<Longrightarrow> fst (fst (ci_step chk rej ci s)) \<noteq> CI_ACK"
  using verdict [of "snd s" ci] by (auto simp: ci_step_def merge_simps)

lemma step_ack:
  assumes "fst (fst (ci_step chk rej ci s)) = CI_ACK"
  shows "fst (fst s) = CI_ACK" and "\<not> bad_ci ci" and "fst (chk (snd s) ci) = CI_ACK"
    and "snd (fst (ci_step chk rej ci s)) = snd (fst s) @ ci" and "snd (ci_step chk rej ci s) = snd (snd (chk (snd s) ci))"
  using assms verdict [of "snd s" ci] unchanged [of "snd s" ci]
  by (auto simp: ci_step_def merge_simps split: if_splits)

lemma step_rej:
  assumes "subseq (cis0 :: byte list list) before" and "fst (fst s) = CI_REJ \<Longrightarrow> snd (fst s) = concat cis0"
    and "\<not> rej"
  shows "\<exists>cis1. subseq cis1 (before @ [ci]) \<and>
    (fst (fst (ci_step chk rej ci s)) = CI_REJ \<longrightarrow> snd (fst (ci_step chk rej ci s)) = concat cis1)"
proof -
  let ?t = "ci_step chk rej ci s"
  have "fst (fst ?t) = CI_REJ \<Longrightarrow>
      snd (fst ?t) = ci \<or> fst (fst s) = CI_REJ \<and> (snd (fst ?t) = snd (fst s) \<or> snd (fst ?t) = snd (fst s) @ ci)"
    using verdict [of "snd s" ci] unchanged [of "snd s" ci] assms(3)
    by (auto simp: ci_step_def merge_simps split: if_splits)
  moreover have "subseq [ci] (before @ [ci])" "subseq cis0 (before @ [ci])" "subseq (cis0 @ [ci]) (before @ [ci])"
    using assms(1) by (auto intro: subseq_rev_drop_many list_emb_append_mono)
  moreover have "concat [ci] = ci" "concat (cis0 @ [ci]) = concat cis0 @ ci" by simp_all
  ultimately show ?thesis using assms(2) by metis
qed

lemma loop_code: "fst (fst (fold (ci_step chk rej) xs ((CI_ACK, []), st))) \<in> {CI_ACK, CI_NAK, CI_REJ}"
proof -
  have "fst (fst s) \<in> {CI_ACK, CI_NAK, CI_REJ} \<Longrightarrow>
      fst (fst (fold (ci_step chk rej) xs s)) \<in> {CI_ACK, CI_NAK, CI_REJ}" for s
    by (induction xs arbitrary: s) (use step_code in auto)
  then show ?thesis by simp
qed

lemma loop_ack:
  "fst (fst (fold (ci_step chk rej) xs s)) = CI_ACK \<Longrightarrow>
   fst (fst s) = CI_ACK \<and> snd (fst (fold (ci_step chk rej) xs s)) = snd (fst s) @ concat xs"
proof (induction xs arbitrary: s)
  case (Cons ci xs)
  let ?t = "ci_step chk rej ci s"
  have h: "fst (fst (fold (ci_step chk rej) xs ?t)) = CI_ACK" using Cons.prems by simp
  note ih = Cons.IH [OF h]
  then show ?case using step_ack(1,4) [of rej ci s] by simp
qed simp

text \<open>The acknowledged options one by one: each was accepted by the checker in the state it met.\<close>

lemma loop_ack_invariant:
  assumes "fst (fst (fold (ci_step chk rej) xs s)) = CI_ACK"
    and "\<And>st ci. ci \<in> set xs \<Longrightarrow> P st \<Longrightarrow> \<not> bad_ci ci \<Longrightarrow> fst (chk st ci) = CI_ACK \<Longrightarrow> P (snd (snd (chk st ci)))"
    and "P (snd s)"
  shows "P (snd (fold (ci_step chk rej) xs s))"
  using assms
proof (induction xs arbitrary: s)
  case (Cons ci xs)
  let ?t = "ci_step chk rej ci s"
  have h: "fst (fst (fold (ci_step chk rej) xs ?t)) = CI_ACK" using Cons.prems by simp
  then have a: "fst (fst ?t) = CI_ACK" using loop_ack by blast
  have "P (snd ?t)" using step_ack [OF a] Cons.prems(2,3) by simp
  then show ?case using Cons.IH [OF h] Cons.prems(2) by simp
qed simp

lemma loop_ack_each:
  "fst (fst (fold (ci_step chk rej) xs s)) = CI_ACK \<Longrightarrow> ci \<in> set xs \<Longrightarrow>
   \<not> bad_ci ci \<and> (\<exists>st. fst (chk st ci) = CI_ACK)"
proof (induction xs arbitrary: s)
  case (Cons c xs)
  let ?t = "ci_step chk rej c s"
  have h: "fst (fst (fold (ci_step chk rej) xs ?t)) = CI_ACK" using Cons.prems by simp
  then have a: "fst (fst ?t) = CI_ACK" using loop_ack by blast
  show ?case using Cons.IH [OF h] Cons.prems(2) step_ack(2,3) [OF a] by auto
qed simp

lemma loop_rej:
  assumes "\<not> rej" and "fst (fst (fold (ci_step chk rej) xs ((CI_ACK, []), st))) = CI_REJ"
  shows "\<exists>ys. subseq ys xs \<and> snd (fst (fold (ci_step chk rej) xs ((CI_ACK, []), st))) = concat ys"
proof -
  have "\<exists>ys. subseq ys xs \<and> (fst (fst (fold (ci_step chk rej) xs ((CI_ACK, []), st))) = CI_REJ \<longrightarrow>
      snd (fst (fold (ci_step chk rej) xs ((CI_ACK, []), st))) = concat ys)"
  proof (induction xs rule: rev_induct)
    case Nil
    show ?case by (intro exI [of _ "[]"]) simp
  next
    case (snoc ci xs)
    then obtain ys where y: "subseq ys xs" "fst (fst (fold (ci_step chk rej) xs ((CI_ACK, []), st))) = CI_REJ \<longrightarrow>
      snd (fst (fold (ci_step chk rej) xs ((CI_ACK, []), st))) = concat ys" by blast
    then show ?case
      using step_rej [OF y(1) _ assms(1), of "fold (ci_step chk rej) xs ((CI_ACK, []), st)" ci] by simp
  qed
  then show ?thesis using assms(2) by blast
qed

end

end
