(* ===== verification/Ppp_Lcp.thy ===== *)
theory Ppp_Lcp
  imports Ppp_Fsm Ppp_Options "HOL-Library.Monad_Syntax"
begin

text \<open>
  The link control protocol of a subscriber session: \<^verbatim>\<open>src/src/PPP/CPPPLCP.cpp\<close>, the other protocol
  half of a \<^verbatim>\<open>CPPPFsm\<close>, with its echo based supervision of the link. The values the C library's
  \<^verbatim>\<open>rand()\<close> will return to \<^verbatim>\<open>magic()\<close> (\<^verbatim>\<open>src/src/PPP/random.cpp\<close>) are the sequence \<open>lcp_rand\<close>, read from
  position \<open>lcp_rand_pos\<close> on. The timer registered with the reactor is \<open>lcp_echo_timer\<close>, and
  \<open>lcp_notices\<close> are the calls of the owner's \<^verbatim>\<open>OnLCPUp\<close>, \<^verbatim>\<open>OnLCPDown\<close> and \<^verbatim>\<open>OnLCPTerminate\<close>.
\<close>

section \<open>Options and state (pppdef.h, CPPPLCP.h)\<close>

record lcp_options =
  opt_passive :: bool
  opt_silent :: bool
  opt_restart :: bool
  neg_mru :: bool
  neg_asyncmap :: bool
  neg_upap :: bool
  neg_chap :: bool
  neg_eap :: bool
  neg_magicnumber :: bool
  neg_pcompression :: bool
  neg_accompression :: bool
  neg_lqr :: bool
  neg_cbcp :: bool
  neg_mrru :: bool
  neg_ssnhf :: bool
  neg_endpoint :: bool
  mru :: nat
  mrru :: nat
  chap_mdtype :: byte
  asyncmap :: u32
  magicnumber :: u32
  numloops :: int
  lqr_period :: u32

definition lcp_options_zero :: lcp_options where
  "lcp_options_zero = \<lparr>opt_passive = False, opt_silent = False, opt_restart = False, neg_mru = False,
     neg_asyncmap = False, neg_upap = False, neg_chap = False, neg_eap = False, neg_magicnumber = False,
     neg_pcompression = False, neg_accompression = False, neg_lqr = False, neg_cbcp = False,
     neg_mrru = False, neg_ssnhf = False, neg_endpoint = False, mru = 0, mrru = 0, chap_mdtype = 0,
     asyncmap = 0, magicnumber = 0, numloops = 0, lqr_period = 0\<rparr>"

datatype lcp_notice = OnLCPUp | OnLCPDown | OnLCPTerminate

record lcp =
  m_lcp_echos_pending :: int
  m_lcp_echo_number :: int
  m_lcp_echo_timer_running :: bool
  m_magicnumber :: u32
  m_lcp_echo_fails :: int
  m_lcp_echo_interval :: int
  m_lcp_wantoptions :: lcp_options
  m_lcp_gotoptions :: lcp_options
  m_lcp_allowoptions :: lcp_options
  m_lcp_hisoptions :: lcp_options
  m_peer_mru :: nat
  m_authType :: nat
  lcp_echo_timer :: "int option"
  lcp_rand :: "nat \<Rightarrow> u32"
  lcp_rand_pos :: nat
  lcp_notices :: "lcp_notice list"

abbreviation (input) PPP_PAP :: nat where "PPP_PAP \<equiv> 0xc023"
abbreviation (input) PPP_LQR :: nat where "PPP_LQR \<equiv> 0xc025"
abbreviation (input) PPP_CHAP :: nat where "PPP_CHAP \<equiv> 0xc223"
abbreviation (input) PPP_EAP :: nat where "PPP_EAP \<equiv> 0xc227"
abbreviation (input) DEFMRU :: nat where "DEFMRU \<equiv> 1500"
abbreviation (input) MINMRU :: nat where "MINMRU \<equiv> 128"
abbreviation (input) CI_MRU :: u8 where "CI_MRU \<equiv> 1"
abbreviation (input) CI_ASYNCMAP :: u8 where "CI_ASYNCMAP \<equiv> 2"
abbreviation (input) CI_AUTHTYPE :: u8 where "CI_AUTHTYPE \<equiv> 3"
abbreviation (input) CI_QUALITY :: u8 where "CI_QUALITY \<equiv> 4"
abbreviation (input) CI_MAGICNUMBER :: u8 where "CI_MAGICNUMBER \<equiv> 5"
abbreviation (input) CI_PCOMPRESSION :: u8 where "CI_PCOMPRESSION \<equiv> 7"
abbreviation (input) CI_ACCOMPRESSION :: u8 where "CI_ACCOMPRESSION \<equiv> 8"
abbreviation (input) CI_CALLBACK :: u8 where "CI_CALLBACK \<equiv> 13"
abbreviation (input) CI_MRRU :: u8 where "CI_MRRU \<equiv> 17"
abbreviation (input) CI_SSNHF :: u8 where "CI_SSNHF \<equiv> 18"
abbreviation (input) CI_EPDISC :: u8 where "CI_EPDISC \<equiv> 19"
abbreviation (input) CBCP_OPT :: u8 where "CBCP_OPT \<equiv> 6"
abbreviation (input) CILEN_VOID :: nat where "CILEN_VOID \<equiv> 2"
abbreviation (input) CILEN_CHAR :: nat where "CILEN_CHAR \<equiv> 3"
abbreviation (input) CILEN_SHORT :: nat where "CILEN_SHORT \<equiv> 4"
abbreviation (input) CILEN_CHAP :: nat where "CILEN_CHAP \<equiv> 5"
abbreviation (input) CILEN_LONG :: nat where "CILEN_LONG \<equiv> 6"
abbreviation (input) CILEN_LQR :: nat where "CILEN_LQR \<equiv> 8"
abbreviation (input) CILEN_CBCP :: nat where "CILEN_CBCP \<equiv> 3"
abbreviation (input) MDTYPE_MICROSOFT_V2 :: byte where "MDTYPE_MICROSOFT_V2 \<equiv> 1"
abbreviation (input) MDTYPE_MICROSOFT :: byte where "MDTYPE_MICROSOFT \<equiv> 2"
abbreviation (input) MDTYPE_MD5 :: byte where "MDTYPE_MD5 \<equiv> 4"
abbreviation (input) MDTYPE_ALL :: byte where "MDTYPE_ALL \<equiv> 4"
abbreviation (input) CHAP_MD5 :: byte where "CHAP_MD5 \<equiv> 5"
abbreviation (input) CHAP_MICROSOFT :: byte where "CHAP_MICROSOFT \<equiv> 0x80"
abbreviation (input) CHAP_MICROSOFT_V2 :: byte where "CHAP_MICROSOFT_V2 \<equiv> 0x81"

text \<open>The digest macros of pppdef.h.\<close>

definition CHAP_DIGEST :: "byte \<Rightarrow> byte" where
  "CHAP_DIGEST mdtype = (if mdtype AND MDTYPE_MD5 \<noteq> 0 then CHAP_MD5
     else if mdtype AND MDTYPE_MICROSOFT_V2 \<noteq> 0 then CHAP_MICROSOFT_V2
     else if mdtype AND MDTYPE_MICROSOFT \<noteq> 0 then CHAP_MICROSOFT else 0)"

definition CHAP_MDTYPE :: "byte \<Rightarrow> byte" where
  "CHAP_MDTYPE mdtype = (mdtype XOR (mdtype - 1)) AND mdtype"

definition CHAP_MDTYPE_D :: "byte \<Rightarrow> byte" where
  "CHAP_MDTYPE_D digest = (if digest = CHAP_MICROSOFT_V2 then MDTYPE_MICROSOFT_V2
     else if digest = CHAP_MICROSOFT then MDTYPE_MICROSOFT
     else if digest = CHAP_MD5 then MDTYPE_MD5 else 0)"

definition CHAP_CANDIGEST :: "byte \<Rightarrow> byte \<Rightarrow> bool" where
  "CHAP_CANDIGEST mdtype digest = (if digest = CHAP_MICROSOFT_V2 then mdtype AND MDTYPE_MICROSOFT_V2 \<noteq> 0
     else if digest = CHAP_MICROSOFT then mdtype AND MDTYPE_MICROSOFT \<noteq> 0
     else if digest = CHAP_MD5 then mdtype AND MDTYPE_MD5 \<noteq> 0 else False)"

definition magic :: "lcp \<Rightarrow> u32 \<times> lcp" where
  "magic s = (lcp_rand s (lcp_rand_pos s), s\<lparr>lcp_rand_pos := lcp_rand_pos s + 1\<rparr>)"

definition CPPPLCP_new :: "(nat \<Rightarrow> u32) \<Rightarrow> lcp" where
  "CPPPLCP_new rnd = \<lparr>m_lcp_echos_pending = 0, m_lcp_echo_number = 0, m_lcp_echo_timer_running = False,
     m_magicnumber = 0, m_lcp_echo_fails = 5, m_lcp_echo_interval = 20,
     m_lcp_wantoptions = lcp_options_zero, m_lcp_gotoptions = lcp_options_zero,
     m_lcp_allowoptions = lcp_options_zero, m_lcp_hisoptions = lcp_options_zero, m_peer_mru = PPP_MRU,
     m_authType = PPP_PAP, lcp_echo_timer = None, lcp_rand = rnd, lcp_rand_pos = 0, lcp_notices = []\<rparr>"

definition lcp_auth_options :: "nat \<Rightarrow> lcp_options \<Rightarrow> lcp_options" where
  "lcp_auth_options authType t =
     (if authType = PPP_PAP then t\<lparr>neg_upap := True\<rparr>
      else if authType = PPP_CHAP then t\<lparr>neg_chap := True, chap_mdtype := MDTYPE_ALL\<rparr> else t)"

definition lcp_Init :: "lcp fsm \<Rightarrow> lcp fsm" where
  "lcp_Init f =
     (let f = Init f; a = m_authType (f_sink f);
          wo = lcp_options_zero\<lparr>neg_mru := True, mru := 1492, neg_asyncmap := False, neg_magicnumber := True,
                 neg_pcompression := False, neg_accompression := False\<rparr>;
          wo = lcp_auth_options a wo;
          ao = lcp_options_zero\<lparr>neg_mru := True, mru := 1492, neg_asyncmap := True\<rparr>;
          ao = lcp_auth_options a ao;
          ao = ao\<lparr>neg_eap := False, neg_magicnumber := True, neg_pcompression := False, neg_accompression := False\<rparr>
      in f\<lparr>f_sink := (f_sink f)\<lparr>m_lcp_wantoptions := wo, m_lcp_allowoptions := ao\<rparr>\<rparr>)"

section \<open>Our configuration request\<close>

definition lcp_Resetci :: "lcp \<Rightarrow> lcp" where
  "lcp_Resetci s =
     (let (n, s) = magic s;
          wo = (m_lcp_wantoptions s)\<lparr>magicnumber := n, numloops := 0\<rparr>;
          go = wo\<lparr>neg_mrru := False, neg_ssnhf := False, neg_endpoint := False\<rparr>
      in s\<lparr>m_lcp_wantoptions := wo, m_magicnumber := n, m_lcp_gotoptions := go, m_peer_mru := PPP_MRU\<rparr>)"

text \<open>When each option is part of our request.\<close>

definition want_mru :: "lcp_options \<Rightarrow> bool" where
  "want_mru go \<longleftrightarrow> neg_mru go \<and> mru go \<noteq> DEFMRU"

definition want_asyncmap :: "lcp_options \<Rightarrow> bool" where
  "want_asyncmap go \<longleftrightarrow> neg_asyncmap go \<and> asyncmap go \<noteq> 0xFFFFFFFF"

definition want_chap :: "lcp_options \<Rightarrow> bool" where
  "want_chap go \<longleftrightarrow> \<not> neg_eap go \<and> neg_chap go"

definition want_upap :: "lcp_options \<Rightarrow> bool" where
  "want_upap go \<longleftrightarrow> \<not> neg_eap go \<and> \<not> neg_chap go \<and> neg_upap go"

abbreviation len_ci :: "bool \<Rightarrow> nat \<Rightarrow> nat" where
  "len_ci neg n \<equiv> (if neg then n else 0)"

definition lcp_Cilen :: "lcp \<Rightarrow> nat" where
  "lcp_Cilen s =
     (let go = m_lcp_gotoptions s
      in len_ci (want_mru go) CILEN_SHORT + len_ci (want_asyncmap go) CILEN_LONG +
         len_ci (neg_eap go) CILEN_SHORT + len_ci (want_chap go) CILEN_CHAP + len_ci (want_upap go) CILEN_SHORT +
         len_ci (neg_lqr go) CILEN_LQR + len_ci (neg_cbcp go) CILEN_CBCP + len_ci (neg_magicnumber go) CILEN_LONG +
         len_ci (neg_pcompression go) CILEN_VOID + len_ci (neg_accompression go) CILEN_VOID +
         len_ci (neg_mrru go) CILEN_SHORT + len_ci (neg_ssnhf go) CILEN_VOID)"

definition ADDCIVOID :: "u8 \<Rightarrow> bool \<Rightarrow> byte list" where
  "ADDCIVOID opt neg = (if neg then [opt, of_nat CILEN_VOID] else [])"

definition ADDCISHORT :: "u8 \<Rightarrow> bool \<Rightarrow> nat \<Rightarrow> byte list" where
  "ADDCISHORT opt neg val = (if neg then [opt, of_nat CILEN_SHORT] @ PUTSHORT val else [])"

definition ADDCICHAP :: "u8 \<Rightarrow> bool \<Rightarrow> byte \<Rightarrow> byte list" where
  "ADDCICHAP opt neg val = (if neg then [opt, of_nat CILEN_CHAP] @ PUTSHORT PPP_CHAP @ [CHAP_DIGEST val] else [])"

definition ADDCILONG :: "u8 \<Rightarrow> bool \<Rightarrow> u32 \<Rightarrow> byte list" where
  "ADDCILONG opt neg val = (if neg then [opt, of_nat CILEN_LONG] @ PUTLONG val else [])"

definition ADDCILQR :: "u8 \<Rightarrow> bool \<Rightarrow> u32 \<Rightarrow> byte list" where
  "ADDCILQR opt neg val = (if neg then [opt, of_nat CILEN_LQR] @ PUTSHORT PPP_LQR @ PUTLONG val else [])"

definition ADDCICHAR :: "u8 \<Rightarrow> bool \<Rightarrow> byte \<Rightarrow> byte list" where
  "ADDCICHAR opt neg val = (if neg then [opt, of_nat CILEN_CHAR, val] else [])"

text \<open>\<^verbatim>\<open>Addci\<close> compares the length with the one announced, but does nothing about a difference.\<close>

definition lcp_Addci :: "lcp \<Rightarrow> byte list" where
  "lcp_Addci s =
     (let go = m_lcp_gotoptions s
      in ADDCISHORT CI_MRU (want_mru go) (mru go) @
         ADDCILONG CI_ASYNCMAP (want_asyncmap go) (asyncmap go) @
         ADDCISHORT CI_AUTHTYPE (neg_eap go) PPP_EAP @
         ADDCICHAP CI_AUTHTYPE (want_chap go) (chap_mdtype go) @
         ADDCISHORT CI_AUTHTYPE (want_upap go) PPP_PAP @
         ADDCILQR CI_QUALITY (neg_lqr go) (lqr_period go) @
         ADDCICHAR CI_CALLBACK (neg_cbcp go) CBCP_OPT @
         ADDCILONG CI_MAGICNUMBER (neg_magicnumber go) (magicnumber go) @
         ADDCIVOID CI_PCOMPRESSION (neg_pcompression go) @
         ADDCIVOID CI_ACCOMPRESSION (neg_accompression go) @
         ADDCISHORT CI_MRRU (neg_mrru go) (mrru go) @
         ADDCIVOID CI_SSNHF (neg_ssnhf go))"

section \<open>Answers to our request\<close>

text \<open>
  The ACKCI macros: an option of \<open>n\<close> bytes with this type and a value (the bytes after its header) that
  satisfies \<open>ok\<close>; \<open>None\<close> is \<^verbatim>\<open>goto bad\<close>.
\<close>

definition ACKCI :: "nat \<Rightarrow> u8 \<Rightarrow> bool \<Rightarrow> (byte list \<Rightarrow> bool) \<Rightarrow> byte list \<Rightarrow> byte list option" where
  "ACKCI n opt neg ok p =
     (if \<not> neg then Some p
      else if length p < n then None
      else if unat (p ! 1) \<noteq> n \<or> p ! 0 \<noteq> opt then None
      else if ok (drop 2 p) then Some (drop n p) else None)"

definition is_short :: "nat \<Rightarrow> byte list \<Rightarrow> bool" where
  "is_short val v \<longleftrightarrow> GETSHORT (v ! 0) (v ! 1) = val"

definition is_long :: "u32 \<Rightarrow> byte list \<Rightarrow> bool" where
  "is_long val v \<longleftrightarrow> GETLONG v = val"

definition is_chap :: "byte \<Rightarrow> byte list \<Rightarrow> bool" where
  "is_chap val v \<longleftrightarrow> GETSHORT (v ! 0) (v ! 1) = PPP_CHAP \<and> v ! 2 = CHAP_DIGEST val"

definition is_lqr :: "u32 \<Rightarrow> byte list \<Rightarrow> bool" where
  "is_lqr val v \<longleftrightarrow> GETSHORT (v ! 0) (v ! 1) = PPP_LQR \<and> GETLONG (drop 2 v) = val"

definition is_char :: "byte \<Rightarrow> byte list \<Rightarrow> bool" where
  "is_char val v \<longleftrightarrow> v ! 0 = val"

definition lcp_Ackci :: "lcp \<Rightarrow> byte list \<Rightarrow> bool" where
  "lcp_Ackci s p =
     (let go = m_lcp_gotoptions s
      in (case do {
            p \<leftarrow> ACKCI CILEN_SHORT CI_MRU (want_mru go) (is_short (mru go)) p;
            p \<leftarrow> ACKCI CILEN_LONG CI_ASYNCMAP (want_asyncmap go) (is_long (asyncmap go)) p;
            p \<leftarrow> ACKCI CILEN_SHORT CI_AUTHTYPE (neg_eap go) (is_short PPP_EAP) p;
            p \<leftarrow> ACKCI CILEN_CHAP CI_AUTHTYPE (want_chap go) (is_chap (chap_mdtype go)) p;
            p \<leftarrow> ACKCI CILEN_SHORT CI_AUTHTYPE (want_upap go) (is_short PPP_PAP) p;
            p \<leftarrow> ACKCI CILEN_LQR CI_QUALITY (neg_lqr go) (is_lqr (lqr_period go)) p;
            p \<leftarrow> ACKCI CILEN_CHAR CI_CALLBACK (neg_cbcp go) (is_char CBCP_OPT) p;
            p \<leftarrow> ACKCI CILEN_LONG CI_MAGICNUMBER (neg_magicnumber go) (is_long (magicnumber go)) p;
            p \<leftarrow> ACKCI CILEN_VOID CI_PCOMPRESSION (neg_pcompression go) (\<lambda>_. True) p;
            p \<leftarrow> ACKCI CILEN_VOID CI_ACCOMPRESSION (neg_accompression go) (\<lambda>_. True) p;
            p \<leftarrow> ACKCI CILEN_SHORT CI_MRRU (neg_mrru go) (is_short (mrru go)) p;
            ACKCI CILEN_VOID CI_SSNHF (neg_ssnhf go) (\<lambda>_. True) p
          } of Some rest \<Rightarrow> rest = [] | None \<Rightarrow> False))"

text \<open>
  \<^verbatim>\<open>Nakci\<close>: the rest of the packet, the options seen (\<^verbatim>\<open>no\<close>), the options to request next (\<^verbatim>\<open>tryop\<close>),
  whether the magic number was refused, and the protocol with its random numbers.
\<close>

record lcp_nak =
  ln_p :: "byte list"
  ln_no :: lcp_options
  ln_try :: lcp_options
  ln_looped :: bool
  ln_lcp :: lcp

definition NAKCI :: "nat \<Rightarrow> u8 \<Rightarrow> bool \<Rightarrow> (lcp_options \<Rightarrow> lcp_options) \<Rightarrow> (byte list \<Rightarrow> lcp_nak \<Rightarrow> lcp_nak) \<Rightarrow>
    lcp_nak \<Rightarrow> lcp_nak" where
  "NAKCI n opt neg seen code st =
     (let p = ln_p st
      in if neg \<and> length p \<ge> n \<and> unat (p ! 1) = n \<and> p ! 0 = opt
         then code (drop 2 p) (st\<lparr>ln_p := drop n p, ln_no := seen (ln_no st)\<rparr>) else st)"

abbreviation upd_try :: "(lcp_options \<Rightarrow> lcp_options) \<Rightarrow> lcp_nak \<Rightarrow> lcp_nak" where
  "upd_try u st \<equiv> st\<lparr>ln_try := u (ln_try st)\<rparr>"

text \<open>
  The condition \<^verbatim>\<open>cichar != CHAP_DIGEST(go->chap_mdtype)\<close> as the compiler reads it: the macro is not in
  parentheses, so the inequality is the condition of its outermost \<^verbatim>\<open>?:\<close>.
\<close>

definition chap_differs :: "byte \<Rightarrow> byte \<Rightarrow> bool" where
  "chap_differs cichar mdtype \<longleftrightarrow>
     (if cichar \<noteq> mdtype AND MDTYPE_MD5 then CHAP_MD5
      else if mdtype AND MDTYPE_MICROSOFT_V2 \<noteq> 0 then CHAP_MICROSOFT_V2
      else if mdtype AND MDTYPE_MICROSOFT \<noteq> 0 then CHAP_MICROSOFT else 0) \<noteq> 0"

definition nak_auth_try :: "lcp_options \<Rightarrow> nat \<Rightarrow> nat \<Rightarrow> byte \<Rightarrow> lcp_options \<Rightarrow> lcp_options option" where
  "nak_auth_try go cishort cilen cichar t =
     (if cishort = PPP_PAP \<and> cilen = CILEN_SHORT then
        (if neg_eap go then Some (t\<lparr>neg_eap := False\<rparr>)
         else if neg_chap go then Some (t\<lparr>neg_chap := False\<rparr>) else None)
      else if cishort = PPP_CHAP \<and> cilen = CILEN_CHAP then
        (if neg_eap go then
           let t = t\<lparr>neg_eap := False\<rparr>
           in Some (if CHAP_CANDIGEST (chap_mdtype go) cichar then t\<lparr>chap_mdtype := CHAP_MDTYPE_D cichar\<rparr> else t)
         else if neg_chap go then
           (if chap_differs cichar (chap_mdtype go) then
              (if CHAP_CANDIGEST (chap_mdtype go) cichar then Some (t\<lparr>chap_mdtype := CHAP_MDTYPE_D cichar\<rparr>)
               else let t = t\<lparr>chap_mdtype := chap_mdtype t AND NOT (CHAP_MDTYPE (chap_mdtype t))\<rparr>
                    in Some (if chap_mdtype t = 0 then t\<lparr>neg_chap := False\<rparr> else t))
            else None)
         else Some (t\<lparr>neg_upap := False\<rparr>))
      else if neg_eap go then Some (t\<lparr>neg_eap := False\<rparr>)
      else if neg_chap go then Some (t\<lparr>neg_chap := False\<rparr>)
      else Some (t\<lparr>neg_upap := False\<rparr>))"

definition nak_auth :: "lcp_options \<Rightarrow> lcp_nak \<Rightarrow> lcp_nak option" where
  "nak_auth go st =
     (let p = ln_p st; cilen = unat (p ! 1)
      in if (neg_chap go \<or> neg_upap go \<or> neg_eap go) \<and> length p \<ge> CILEN_SHORT \<and> p ! 0 = CI_AUTHTYPE \<and>
            cilen \<ge> CILEN_SHORT \<and> cilen \<le> length p
         then map_option (\<lambda>t. st\<lparr>ln_p := drop cilen p, ln_try := t,
                  ln_no := (ln_no st)\<lparr>neg_chap := neg_chap go, neg_upap := neg_upap go, neg_eap := neg_eap go\<rparr>\<rparr>)
                (nak_auth_try go (GETSHORT (p ! 2) (p ! 3)) cilen (p ! 4) (ln_try st))
         else Some st)"

definition NAKCIENDP :: "lcp_options \<Rightarrow> lcp_nak \<Rightarrow> lcp_nak" where
  "NAKCIENDP go st =
     (let p = ln_p st
      in if neg_endpoint go \<and> length p \<ge> CILEN_CHAR \<and> p ! 0 = CI_EPDISC \<and> unat (p ! 1) \<ge> CILEN_CHAR \<and>
            unat (p ! 1) \<le> length p
         then st\<lparr>ln_p := drop (unat (p ! 1)) p, ln_no := (ln_no st)\<lparr>neg_endpoint := True\<rparr>,
                 ln_try := (ln_try st)\<lparr>neg_endpoint := False\<rparr>\<rparr>
         else st)"

text \<open>One option of the remaining ones: \<open>None\<close> for \<^verbatim>\<open>goto bad\<close>.\<close>

definition lcp_nak_extra :: "lcp_options \<Rightarrow> lcp_options \<Rightarrow> u8 \<Rightarrow> nat \<Rightarrow> byte list \<Rightarrow> lcp_options \<Rightarrow> lcp_options option" where
  "lcp_nak_extra go no citype cilen v t =
     (if citype = CI_MRU then
        (if want_mru go \<or> neg_mru no \<or> cilen \<noteq> CILEN_SHORT then None
         else let cishort = GETSHORT (v ! 0) (v ! 1)
              in Some (if cishort < DEFMRU then t\<lparr>neg_mru := True, mru := cishort\<rparr> else t))
      else if citype = CI_ASYNCMAP then
        (if want_asyncmap go \<or> neg_asyncmap no \<or> cilen \<noteq> CILEN_LONG then None else Some t)
      else if citype = CI_AUTHTYPE then
        (if neg_chap go \<or> neg_chap no \<or> neg_upap go \<or> neg_upap no \<or> neg_eap go \<or> neg_eap no then None else Some t)
      else if citype = CI_MAGICNUMBER then
        (if neg_magicnumber go \<or> neg_magicnumber no \<or> cilen \<noteq> CILEN_LONG then None else Some t)
      else if citype = CI_PCOMPRESSION then
        (if neg_pcompression go \<or> neg_pcompression no \<or> cilen \<noteq> CILEN_VOID then None else Some t)
      else if citype = CI_ACCOMPRESSION then
        (if neg_accompression go \<or> neg_accompression no \<or> cilen \<noteq> CILEN_VOID then None else Some t)
      else if citype = CI_QUALITY then
        (if neg_lqr go \<or> neg_lqr no \<or> cilen \<noteq> CILEN_LQR then None else Some t)
      else if citype = CI_MRRU then
        (if neg_mrru go \<or> neg_mrru no \<or> cilen \<noteq> CILEN_SHORT then None else Some t)
      else if citype = CI_SSNHF then
        (if neg_ssnhf go \<or> neg_ssnhf no \<or> cilen \<noteq> CILEN_VOID then None else Some (t\<lparr>neg_ssnhf := True\<rparr>))
      else if citype = CI_EPDISC then
        (if neg_endpoint go \<or> neg_endpoint no \<or> cilen < CILEN_CHAR then None else Some t)
      else Some t)"

function lcp_nak_rest :: "lcp_options \<Rightarrow> lcp_options \<Rightarrow> byte list \<Rightarrow> lcp_options \<Rightarrow> lcp_options option" where
  "lcp_nak_rest go no p t =
     (if length p < CILEN_VOID then Some t
      else let citype = p ! 0; cilen = unat (p ! 1)
           in if cilen < CILEN_VOID \<or> length p < cilen then None
              else (case lcp_nak_extra go no citype cilen (drop 2 p) t of
                      None \<Rightarrow> None
                    | Some t \<Rightarrow> lcp_nak_rest go no (drop cilen p) t))"
  by pat_completeness auto
termination
  by (relation "measure (\<lambda>(go, no, p, t). length p)") auto

declare lcp_nak_rest.simps [simp del]

text \<open>The options before the authentication type, and those after it.\<close>

definition lcp_nak_first :: "lcp_options \<Rightarrow> lcp_options \<Rightarrow> lcp_nak \<Rightarrow> lcp_nak" where
  "lcp_nak_first go wo st =
     (let st = NAKCI CILEN_SHORT CI_MRU (want_mru go) (\<lambda>no. no\<lparr>neg_mru := True\<rparr>)
                 (\<lambda>v. let cishort = GETSHORT (v ! 0) (v ! 1)
                      in upd_try (\<lambda>t. if cishort \<le> mru wo \<or> cishort \<le> DEFMRU then t\<lparr>mru := cishort\<rparr> else t)) st
      in NAKCI CILEN_LONG CI_ASYNCMAP (want_asyncmap go) (\<lambda>no. no\<lparr>neg_asyncmap := True\<rparr>)
           (\<lambda>v. upd_try (\<lambda>t. t\<lparr>asyncmap := asyncmap go OR GETLONG v\<rparr>)) st)"

definition nak_magic :: "lcp_nak \<Rightarrow> lcp_nak" where
  "nak_magic st =
     (let (n, s) = magic (ln_lcp st)
      in st\<lparr>ln_try := (ln_try st)\<lparr>magicnumber := n\<rparr>, ln_looped := True, ln_lcp := s\<rparr>)"

definition lcp_nak_second :: "lcp_options \<Rightarrow> lcp_options \<Rightarrow> bool \<Rightarrow> lcp_nak \<Rightarrow> lcp_nak" where
  "lcp_nak_second go wo treat_as_reject st =
     (let st = NAKCI CILEN_LQR CI_QUALITY (neg_lqr go) (\<lambda>no. no\<lparr>neg_lqr := True\<rparr>)
                 (\<lambda>v. upd_try (\<lambda>t. if GETSHORT (v ! 0) (v ! 1) \<noteq> PPP_LQR then t\<lparr>neg_lqr := False\<rparr>
                                   else t\<lparr>lqr_period := GETLONG (drop 2 v)\<rparr>)) st;
          st = NAKCI CILEN_CHAR CI_CALLBACK (neg_cbcp go) (\<lambda>no. no\<lparr>neg_cbcp := True\<rparr>)
                 (\<lambda>v. upd_try (\<lambda>t. t\<lparr>neg_cbcp := False\<rparr>)) st;
          st = NAKCI CILEN_LONG CI_MAGICNUMBER (neg_magicnumber go) (\<lambda>no. no\<lparr>neg_magicnumber := True\<rparr>)
                 (\<lambda>v. nak_magic) st;
          st = NAKCI CILEN_VOID CI_PCOMPRESSION (neg_pcompression go) (\<lambda>no. no\<lparr>neg_pcompression := True\<rparr>)
                 (\<lambda>v. upd_try (\<lambda>t. t\<lparr>neg_pcompression := False\<rparr>)) st;
          st = NAKCI CILEN_VOID CI_ACCOMPRESSION (neg_accompression go) (\<lambda>no. no\<lparr>neg_accompression := True\<rparr>)
                 (\<lambda>v. upd_try (\<lambda>t. t\<lparr>neg_accompression := False\<rparr>)) st;
          st = NAKCI CILEN_SHORT CI_MRRU (neg_mrru go) (\<lambda>no. no\<lparr>neg_mrru := True\<rparr>)
                 (\<lambda>v. let cishort = GETSHORT (v ! 0) (v ! 1)
                      in upd_try (\<lambda>t. if treat_as_reject then t\<lparr>neg_mrru := False\<rparr>
                                      else if cishort \<le> mrru wo then t\<lparr>mrru := cishort\<rparr> else t)) st;
          st = NAKCI CILEN_VOID CI_SSNHF (neg_ssnhf go) (\<lambda>no. no\<lparr>neg_ssnhf := True\<rparr>)
                 (\<lambda>v. upd_try (\<lambda>t. t\<lparr>neg_ssnhf := False\<rparr>)) st
      in NAKCIENDP go st)"

text \<open>The checks of \<^verbatim>\<open>Nakci\<close>: the options to request next or \<open>None\<close>, whether the line looks looped back.\<close>

definition lcp_Nakci_check :: "lcp \<Rightarrow> byte list \<Rightarrow> bool \<Rightarrow> lcp_options option \<times> bool \<times> lcp" where
  "lcp_Nakci_check s p treat_as_reject =
     (let go = m_lcp_gotoptions s; wo = m_lcp_wantoptions s;
          st = \<lparr>ln_p = p, ln_no = lcp_options_zero, ln_try = go, ln_looped = False, ln_lcp = s\<rparr>
      in case nak_auth go (lcp_nak_first go wo st) of
           None \<Rightarrow> (None, False, s)
         | Some st \<Rightarrow>
             let st = lcp_nak_second go wo treat_as_reject st
             in (lcp_nak_rest go (ln_no st) (ln_p st) (ln_try st), ln_looped st, ln_lcp st))"

text \<open>\<^verbatim>\<open>Rejci\<close>: the REJCI macros.\<close>

definition REJCI :: "nat \<Rightarrow> u8 \<Rightarrow> bool \<Rightarrow> (byte list \<Rightarrow> bool) \<Rightarrow> (lcp_options \<Rightarrow> lcp_options) \<Rightarrow>
    byte list \<times> lcp_options \<Rightarrow> (byte list \<times> lcp_options) option" where
  "REJCI n opt neg ok upd pt =
     (let (p, t) = pt
      in if neg \<and> length p \<ge> n \<and> unat (p ! 1) = n \<and> p ! 0 = opt
         then if ok (drop 2 p) then Some (drop n p, upd t) else None
         else Some (p, t))"

definition lcp_Rejci_go :: "lcp_options \<Rightarrow> byte list \<Rightarrow> lcp_options option" where
  "lcp_Rejci_go go p =
     do {
       x \<leftarrow> REJCI CILEN_SHORT CI_MRU (neg_mru go) (is_short (mru go)) (\<lambda>t. t\<lparr>neg_mru := False\<rparr>) (p, go);
       x \<leftarrow> REJCI CILEN_LONG CI_ASYNCMAP (neg_asyncmap go) (is_long (asyncmap go)) (\<lambda>t. t\<lparr>neg_asyncmap := False\<rparr>) x;
       x \<leftarrow> REJCI CILEN_SHORT CI_AUTHTYPE (neg_eap go) (is_short PPP_EAP) (\<lambda>t. t\<lparr>neg_eap := False\<rparr>) x;
       x \<leftarrow> REJCI CILEN_CHAP CI_AUTHTYPE (want_chap go) (is_chap (chap_mdtype go))
              (\<lambda>t. t\<lparr>neg_chap := False, neg_eap := False, neg_upap := False\<rparr>) x;
       x \<leftarrow> REJCI CILEN_SHORT CI_AUTHTYPE (want_upap go) (is_short PPP_PAP) (\<lambda>t. t\<lparr>neg_upap := False\<rparr>) x;
       x \<leftarrow> REJCI CILEN_LQR CI_QUALITY (neg_lqr go) (is_lqr (lqr_period go)) (\<lambda>t. t\<lparr>neg_lqr := False\<rparr>) x;
       x \<leftarrow> REJCI CILEN_CBCP CI_CALLBACK (neg_cbcp go) (is_char CBCP_OPT) (\<lambda>t. t\<lparr>neg_cbcp := False\<rparr>) x;
       x \<leftarrow> REJCI CILEN_LONG CI_MAGICNUMBER (neg_magicnumber go) (is_long (magicnumber go))
              (\<lambda>t. t\<lparr>neg_magicnumber := False\<rparr>) x;
       x \<leftarrow> REJCI CILEN_VOID CI_PCOMPRESSION (neg_pcompression go) (\<lambda>_. True) (\<lambda>t. t\<lparr>neg_pcompression := False\<rparr>) x;
       x \<leftarrow> REJCI CILEN_VOID CI_ACCOMPRESSION (neg_accompression go) (\<lambda>_. True) (\<lambda>t. t\<lparr>neg_accompression := False\<rparr>) x;
       x \<leftarrow> REJCI CILEN_SHORT CI_MRRU (neg_mrru go) (is_short (mrru go)) (\<lambda>t. t\<lparr>neg_mrru := False\<rparr>) x;
       x \<leftarrow> REJCI CILEN_VOID CI_SSNHF (neg_ssnhf go) (\<lambda>_. True) (\<lambda>t. t\<lparr>neg_ssnhf := False\<rparr>) x;
       if fst x = [] then Some (snd x) else None
     }"

definition lcp_Rejci :: "fsm_state \<Rightarrow> lcp \<Rightarrow> byte list \<Rightarrow> int \<times> lcp" where
  "lcp_Rejci st s p =
     (case lcp_Rejci_go (m_lcp_gotoptions s) p of
        None \<Rightarrow> (0, s)
      | Some t \<Rightarrow> (1, if st \<noteq> OPENED then s\<lparr>m_lcp_gotoptions := t\<rparr> else s))"

section \<open>The peer's request\<close>

text \<open>
  One option: the verdict, the bytes put into \<^verbatim>\<open>nak_buffer\<close>, the options the peer gets (\<^verbatim>\<open>ho\<close>) and the
  protocol with its random numbers. \<open>nak_chap\<close> and \<open>nak_short\<close> are the suggestions.
\<close>

type_synonym lcp_req = "lcp_options \<times> lcp"

definition nak_short :: "u8 \<Rightarrow> nat \<Rightarrow> byte list" where
  "nak_short citype v = [citype, of_nat CILEN_SHORT] @ PUTSHORT v"

definition nak_chap :: "lcp_options \<Rightarrow> byte list" where
  "nak_chap ao = [CI_AUTHTYPE, of_nat CILEN_CHAP] @ PUTSHORT PPP_CHAP @ [CHAP_DIGEST (chap_mdtype ao)]"

definition req_mru :: "lcp_options \<Rightarrow> lcp_req \<Rightarrow> byte list \<Rightarrow> int \<times> byte list \<times> lcp_req" where
  "req_mru ao st ci =
     (let (ho, s) = st
      in if \<not> neg_mru ao \<or> length ci \<noteq> CILEN_SHORT then (CI_REJ, [], st)
         else let cishort = GETSHORT (ci ! 2) (ci ! 3)
              in if cishort < MINMRU then (CI_NAK, nak_short CI_MRU MINMRU, st)
                 else (CI_ACK, [], (ho\<lparr>neg_mru := True, mru := cishort\<rparr>, s)))"

definition req_asyncmap :: "lcp_options \<Rightarrow> lcp_req \<Rightarrow> byte list \<Rightarrow> int \<times> byte list \<times> lcp_req" where
  "req_asyncmap ao st ci =
     (let (ho, s) = st
      in if \<not> neg_asyncmap ao \<or> length ci \<noteq> CILEN_LONG then (CI_REJ, [], st)
         else let cilong = GETLONG (drop 2 ci)
              in if asyncmap ao AND NOT cilong \<noteq> 0
                 then (CI_NAK, [CI_ASYNCMAP, of_nat CILEN_LONG] @ PUTLONG (asyncmap ao OR cilong), st)
                 else (CI_ACK, [], (ho\<lparr>neg_asyncmap := True, asyncmap := cilong\<rparr>, s)))"

definition req_pap :: "lcp_options \<Rightarrow> lcp_req \<Rightarrow> byte list \<Rightarrow> int \<times> byte list \<times> lcp_req" where
  "req_pap ao st ci =
     (let (ho, s) = st
      in if neg_chap ho \<or> neg_eap ho \<or> length ci \<noteq> CILEN_SHORT then (CI_REJ, [], st)
         else if \<not> neg_upap ao
         then (CI_NAK, if neg_eap ao then nak_short CI_AUTHTYPE PPP_EAP else nak_chap ao, st)
         else (CI_ACK, [], (ho\<lparr>neg_upap := True\<rparr>, s)))"

definition req_chap :: "lcp_options \<Rightarrow> lcp_req \<Rightarrow> byte list \<Rightarrow> int \<times> byte list \<times> lcp_req" where
  "req_chap ao st ci =
     (let (ho, s) = st
      in if neg_upap ho \<or> neg_eap ho \<or> length ci \<noteq> CILEN_CHAP then (CI_REJ, [], st)
         else if \<not> neg_chap ao
         then (CI_NAK, nak_short CI_AUTHTYPE (if neg_eap ao then PPP_EAP else PPP_PAP), st)
         else let cichar = ci ! 4
              in if \<not> CHAP_CANDIGEST (chap_mdtype ao) cichar then (CI_NAK, nak_chap ao, st)
                 else (CI_ACK, [], (ho\<lparr>chap_mdtype := CHAP_MDTYPE_D cichar, neg_chap := True\<rparr>, s)))"

definition req_eap :: "lcp_options \<Rightarrow> lcp_req \<Rightarrow> byte list \<Rightarrow> int \<times> byte list \<times> lcp_req" where
  "req_eap ao st ci =
     (let (ho, s) = st
      in if neg_chap ho \<or> neg_upap ho \<or> length ci \<noteq> CILEN_SHORT then (CI_REJ, [], st)
         else if \<not> neg_eap ao
         then (CI_NAK, if neg_chap ao then nak_chap ao else nak_short CI_AUTHTYPE PPP_PAP, st)
         else (CI_ACK, [], (ho\<lparr>neg_eap := True\<rparr>, s)))"

definition req_authtype :: "lcp_options \<Rightarrow> lcp_req \<Rightarrow> byte list \<Rightarrow> int \<times> byte list \<times> lcp_req" where
  "req_authtype ao st ci =
     (if length ci < CILEN_SHORT \<or> \<not> (neg_upap ao \<or> neg_chap ao \<or> neg_eap ao) then (CI_REJ, [], st)
      else let cishort = GETSHORT (ci ! 2) (ci ! 3)
           in if cishort = PPP_PAP then req_pap ao st ci
              else if cishort = PPP_CHAP then req_chap ao st ci
              else if cishort = PPP_EAP then req_eap ao st ci
              else (CI_NAK, if neg_eap ao then nak_short CI_AUTHTYPE PPP_EAP
                            else if neg_chap ao then nak_chap ao
                            else nak_short CI_AUTHTYPE PPP_PAP, st))"

definition req_quality :: "lcp_options \<Rightarrow> lcp_req \<Rightarrow> byte list \<Rightarrow> int \<times> byte list \<times> lcp_req" where
  "req_quality ao st ci =
     (if \<not> neg_lqr ao \<or> length ci \<noteq> CILEN_LQR then (CI_REJ, [], st)
      else if GETSHORT (ci ! 2) (ci ! 3) \<noteq> PPP_LQR
      then (CI_NAK, [CI_QUALITY, of_nat CILEN_LQR] @ PUTSHORT PPP_LQR @ PUTLONG (lqr_period ao), st)
      else (CI_ACK, [], st))"

definition req_magicnumber :: "lcp_options \<Rightarrow> lcp_options \<Rightarrow> lcp_req \<Rightarrow> byte list \<Rightarrow> int \<times> byte list \<times> lcp_req" where
  "req_magicnumber ao go st ci =
     (let (ho, s) = st
      in if \<not> (neg_magicnumber ao \<or> neg_magicnumber go) \<or> length ci \<noteq> CILEN_LONG then (CI_REJ, [], st)
         else let cilong = GETLONG (drop 2 ci)
              in if neg_magicnumber go \<and> cilong = magicnumber go
                 then let (n, s) = magic s
                      in (CI_NAK, [CI_MAGICNUMBER, of_nat CILEN_LONG] @ PUTLONG n, (ho, s))
                 else (CI_ACK, [], (ho\<lparr>neg_magicnumber := True, magicnumber := cilong\<rparr>, s)))"

definition lcp_req_ci :: "lcp_options \<Rightarrow> lcp_options \<Rightarrow> lcp_req \<Rightarrow> byte list \<Rightarrow> int \<times> byte list \<times> lcp_req" where
  "lcp_req_ci ao go st ci =
     (let citype = ci ! 0; (ho, s) = st
      in if citype = CI_MRU then req_mru ao st ci
         else if citype = CI_ASYNCMAP then req_asyncmap ao st ci
         else if citype = CI_AUTHTYPE then req_authtype ao st ci
         else if citype = CI_QUALITY then req_quality ao st ci
         else if citype = CI_MAGICNUMBER then req_magicnumber ao go st ci
         else if citype = CI_PCOMPRESSION then
           (if \<not> neg_pcompression ao \<or> length ci \<noteq> CILEN_VOID then (CI_REJ, [], st)
            else (CI_ACK, [], (ho\<lparr>neg_pcompression := True\<rparr>, s)))
         else if citype = CI_ACCOMPRESSION then
           (if \<not> neg_accompression ao \<or> length ci \<noteq> CILEN_VOID then (CI_REJ, [], st)
            else (CI_ACK, [], (ho\<lparr>neg_accompression := True\<rparr>, s)))
         else (CI_REJ, [], st))"

text \<open>
  The code after \<^verbatim>\<open>endswitch\<close>. The rejected options are collected at \<^verbatim>\<open>rejp\<close> in the input buffer,
  which never passes the option being read; what was put into \<^verbatim>\<open>nak_buffer\<close> stays there even when
  the option ends up rejected or its Nak is not sent.
\<close>

record lcp_answer =
  la_rc :: int
  la_nak :: "byte list"
  la_rej :: "byte list"

definition lcp_merge :: "bool \<Rightarrow> bool \<Rightarrow> int \<Rightarrow> byte list \<Rightarrow> byte list \<Rightarrow> lcp_answer \<Rightarrow> lcp_answer" where
  "lcp_merge reject_if_disagree is_magic orc nak ci a =
     (let a = a\<lparr>la_nak := la_nak a @ nak\<rparr>
      in if orc = CI_ACK then a
         else if orc = CI_NAK \<and> \<not> (reject_if_disagree \<and> \<not> is_magic)
         then if la_rc a = CI_REJ then a else a\<lparr>la_rc := CI_NAK\<rparr>
         else a\<lparr>la_rc := CI_REJ, la_rej := la_rej a @ ci\<rparr>)"

function lcp_req_loop :: "lcp_options \<Rightarrow> lcp_options \<Rightarrow> bool \<Rightarrow> byte list \<Rightarrow> lcp_answer \<Rightarrow> lcp_req \<Rightarrow>
    lcp_answer \<times> lcp_req" where
  "lcp_req_loop ao go rej p a st =
     (if p = [] then (a, st)
      else if bad_ci p then (lcp_merge rej False CI_REJ [] p a, st)
      else let n = unat (p ! 1); (orc, nak, st) = lcp_req_ci ao go st (take n p)
           in lcp_req_loop ao go rej (drop n p)
                (lcp_merge rej (p ! 0 = CI_MAGICNUMBER) orc nak (take n p) a) st)"
  by pat_completeness auto
termination
  by (relation "measure (\<lambda>(ao, go, rej, p, a, st). length p)") (auto simp: bad_ci_def)

declare lcp_req_loop.simps [simp del]

definition lcp_Reqci :: "lcp \<Rightarrow> byte list \<Rightarrow> bool \<Rightarrow> int \<times> byte list \<times> lcp" where
  "lcp_Reqci s inp reject_if_disagree =
     (let (a, (ho, s)) = lcp_req_loop (m_lcp_allowoptions s) (m_lcp_gotoptions s) reject_if_disagree inp
                           \<lparr>la_rc = CI_ACK, la_nak = [], la_rej = []\<rparr> (lcp_options_zero, s)
      in (la_rc a, if la_rc a = CI_ACK then inp else if la_rc a = CI_NAK then la_nak a else la_rej a,
          s\<lparr>m_lcp_hisoptions := ho\<rparr>))"

section \<open>Supervision of the link and the layer callbacks\<close>

definition CancelEchoTimer :: "lcp \<Rightarrow> lcp" where
  "CancelEchoTimer s = s\<lparr>lcp_echo_timer := None\<rparr>"

definition StartEchoTimer :: "int \<Rightarrow> lcp \<Rightarrow> lcp" where
  "StartEchoTimer interval s = (CancelEchoTimer s)\<lparr>lcp_echo_timer := Some interval\<rparr>"

definition EchoLowerDown :: "lcp \<Rightarrow> lcp" where
  "EchoLowerDown s =
     (if m_lcp_echo_timer_running s then (CancelEchoTimer s)\<lparr>m_lcp_echo_timer_running := False\<rparr> else s)"

abbreviation tell_owner :: "lcp_notice \<Rightarrow> lcp \<Rightarrow> lcp" where
  "tell_owner n s \<equiv> s\<lparr>lcp_notices := lcp_notices s @ [n]\<rparr>"

definition lcp_Down :: "lcp \<Rightarrow> lcp" where
  "lcp_Down s = (tell_owner OnLCPDown (EchoLowerDown s))\<lparr>m_peer_mru := PPP_MRU\<rparr>"

definition lcp_Finished :: "lcp \<Rightarrow> lcp" where
  "lcp_Finished s = tell_owner OnLCPTerminate s"

definition RcvEchoReply :: "byte list \<Rightarrow> lcp \<Rightarrow> lcp" where
  "RcvEchoReply inp s =
     (if length inp < 4 then s
      else if GETLONG inp = m_magicnumber s then s
      else s\<lparr>m_lcp_echos_pending := 0\<rparr>)"

abbreviation (input) PROTREJ :: u8 where "PROTREJ \<equiv> 8"
abbreviation (input) ECHOREQ :: u8 where "ECHOREQ \<equiv> 9"
abbreviation (input) ECHOREP :: u8 where "ECHOREP \<equiv> 10"
abbreviation (input) DISCREQ :: u8 where "DISCREQ \<equiv> 11"
abbreviation (input) IDENTIF :: u8 where "IDENTIF \<equiv> 12"
abbreviation (input) TIMEREM :: u8 where "TIMEREM \<equiv> 13"

text \<open>
  \<^verbatim>\<open>ExtCode\<close>. A received Protocol-Reject (\<^verbatim>\<open>LCPRcvProtRej\<close>) has no effect in any state. The reply to an
  echo request is written over the request: the magic number always takes four bytes, of which the
  length of the request is sent.
\<close>

definition lcp_ExtCode :: "lcp fsm \<Rightarrow> u8 \<Rightarrow> u8 \<Rightarrow> byte list \<Rightarrow> bool \<times> lcp fsm" where
  "lcp_ExtCode f code pid inp =
     (if code = PROTREJ then (True, f)
      else if code = ECHOREQ then
        (True, if m_state f \<noteq> OPENED then f
               else SendData ECHOREP pid (take (length inp) (PUTLONG (m_magicnumber (f_sink f)) @ drop 4 inp)) f)
      else if code = ECHOREP then (True, f\<lparr>f_sink := RcvEchoReply inp (f_sink f)\<rparr>)
      else if code = DISCREQ \<or> code = IDENTIF \<or> code = TIMEREM then (True, f)
      else (False, f))"

text \<open>
  The callbacks that do not call back into the automaton; the nested calls of the other three
  (\<^verbatim>\<open>Up\<close>, \<^verbatim>\<open>Starting\<close>, \<^verbatim>\<open>Nakci\<close>) use only these. \<open>lcp_Nakci_quiet\<close> is \<^verbatim>\<open>Nakci\<close> without its \<^verbatim>\<open>Close\<close>.
\<close>

definition nak_numloops :: "bool \<Rightarrow> lcp_options \<Rightarrow> lcp_options" where
  "nak_numloops looped t = (if looped then t\<lparr>numloops := numloops t + 1\<rparr> else t\<lparr>numloops := 0\<rparr>)"

definition lcp_Nakci_quiet :: "lcp fsm \<Rightarrow> byte list \<Rightarrow> bool \<Rightarrow> int \<times> lcp fsm" where
  "lcp_Nakci_quiet f p treat_as_reject =
     (case lcp_Nakci_check (f_sink f) p treat_as_reject of
        (None, looped, s) \<Rightarrow> (0, f\<lparr>f_sink := s\<rparr>)
      | (Some t, looped, s) \<Rightarrow>
          (1, f\<lparr>f_sink := if m_state f \<noteq> OPENED then s\<lparr>m_lcp_gotoptions := nak_numloops looped t\<rparr> else s\<rparr>))"

definition lcp_base :: "lcp sink" where
  "lcp_base = \<lparr>
     cb_Resetci = (\<lambda>f. f\<lparr>f_sink := lcp_Resetci (f_sink f)\<rparr>),
     cb_Cilen = (\<lambda>f. (lcp_Cilen (f_sink f), f)),
     cb_Addci = (\<lambda>f n. (lcp_Addci (f_sink f), f)),
     cb_Ackci = (\<lambda>f p. (lcp_Ackci (f_sink f) p, f)),
     cb_Nakci = lcp_Nakci_quiet,
     cb_Rejci = (\<lambda>f p. let (r, s) = lcp_Rejci (m_state f) (f_sink f) p in (r, f\<lparr>f_sink := s\<rparr>)),
     cb_Reqci = (\<lambda>f p b. let (r, out, s) = lcp_Reqci (f_sink f) p b in (r, out, f\<lparr>f_sink := s\<rparr>)),
     cb_Up = (\<lambda>f. f),
     cb_Down = (\<lambda>f. f\<lparr>f_sink := lcp_Down (f_sink f)\<rparr>),
     cb_Starting = (\<lambda>f. f),
     cb_Finished = (\<lambda>f. f\<lparr>f_sink := lcp_Finished (f_sink f)\<rparr>),
     cb_Retransmit = (\<lambda>f. f),
     cb_ExtCode = lcp_ExtCode\<rparr>"

definition lcp_reason :: "string \<Rightarrow> byte list" where
  "lcp_reason t = map (\<lambda>c. of_nat (of_char c)) t"

definition LcpLinkFailure :: "lcp fsm \<Rightarrow> lcp fsm" where
  "LcpLinkFailure f =
     (if m_state f = OPENED then the (Close lcp_base (Some (lcp_reason ''Peer not responding'')) f) else f)"

definition SendEchoRequest :: "lcp fsm \<Rightarrow> lcp fsm" where
  "SendEchoRequest f =
     (let fails = m_lcp_echo_fails (f_sink f);
          f = (if fails \<noteq> 0 \<and> m_lcp_echos_pending (f_sink f) \<ge> fails
               then let g = LcpLinkFailure f in g\<lparr>f_sink := (f_sink g)\<lparr>m_lcp_echos_pending := 0\<rparr>\<rparr> else f)
      in if m_state f = OPENED
         then let s = f_sink f;
                  f = SendData ECHOREQ (of_int (m_lcp_echo_number s)) (PUTLONG (m_magicnumber s)) f
              in f\<lparr>f_sink := s\<lparr>m_lcp_echo_number := m_lcp_echo_number s + 1,
                               m_lcp_echos_pending := m_lcp_echos_pending s + 1\<rparr>\<rparr>
         else f)"

definition EchoTimeout :: "lcp fsm \<Rightarrow> lcp fsm" where
  "EchoTimeout f = SendEchoRequest f"

definition LcpEchoCheck :: "lcp fsm \<Rightarrow> lcp fsm" where
  "LcpEchoCheck f =
     (let f = SendEchoRequest f
      in if m_state f \<noteq> OPENED then f
         else f\<lparr>f_sink := (StartEchoTimer (m_lcp_echo_interval (f_sink f)) (f_sink f))\<lparr>m_lcp_echo_timer_running := True\<rparr>\<rparr>)"

definition EchoLowerUp :: "lcp fsm \<Rightarrow> lcp fsm" where
  "EchoLowerUp f =
     (let f = f\<lparr>f_sink := (f_sink f)\<lparr>m_lcp_echos_pending := 0, m_lcp_echo_number := 0,
                m_lcp_echo_timer_running := False\<rparr>\<rparr>
      in if m_lcp_echo_interval (f_sink f) \<noteq> 0 then LcpEchoCheck f else f)"

definition lcp_Up_options :: "lcp \<Rightarrow> lcp" where
  "lcp_Up_options s =
     (let go = m_lcp_gotoptions s; ho = m_lcp_hisoptions s;
          go = (if \<not> neg_magicnumber go then go\<lparr>magicnumber := 0\<rparr> else go);
          ho = (if \<not> neg_magicnumber ho then ho\<lparr>magicnumber := 0\<rparr> else ho)
      in s\<lparr>m_lcp_gotoptions := go, m_lcp_hisoptions := ho,
           m_peer_mru := (if neg_mru ho then mru ho else m_peer_mru s)\<rparr>)"

definition lcp_Up :: "lcp fsm \<Rightarrow> lcp fsm" where
  "lcp_Up f =
     (let f = f\<lparr>f_sink := lcp_Up_options (f_sink f)\<rparr>;
          f = EchoLowerUp f
      in f\<lparr>f_sink := tell_owner OnLCPUp (f_sink f)\<rparr>)"

text \<open>\<^verbatim>\<open>Nakci\<close>: the fourth refused magic number in a row closes the link before the options are stored.\<close>

definition lcp_Nakci :: "lcp fsm \<Rightarrow> byte list \<Rightarrow> bool \<Rightarrow> int \<times> lcp fsm" where
  "lcp_Nakci f p treat_as_reject =
     (case lcp_Nakci_check (f_sink f) p treat_as_reject of
        (None, looped, s) \<Rightarrow> (0, f\<lparr>f_sink := s\<rparr>)
      | (Some t, looped, s) \<Rightarrow>
          let f = f\<lparr>f_sink := s\<rparr>
          in if m_state f \<noteq> OPENED
             then let t = nak_numloops looped t;
                      f = (if looped \<and> numloops t \<ge> 4
                           then the (Close lcp_base (Some (lcp_reason ''Loopback detected'')) f) else f)
                  in (1, f\<lparr>f_sink := (f_sink f)\<lparr>m_lcp_gotoptions := t\<rparr>\<rparr>)
             else (1, f))"

definition lcp_sink :: "lcp sink" where
  "lcp_sink = lcp_base\<lparr>cb_Up := lcp_Up, cb_Starting := LowerUp lcp_base, cb_Nakci := lcp_Nakci\<rparr>"

section \<open>The operations of the protocol\<close>

definition lcp_Input :: "byte list \<Rightarrow> lcp fsm \<Rightarrow> lcp fsm" where
  "lcp_Input packet f = Input lcp_sink packet f"

definition lcp_Protrej :: "lcp fsm \<Rightarrow> lcp fsm" where
  "lcp_Protrej f = ProtReject lcp_sink f"

definition lcp_LowerUp :: "lcp fsm \<Rightarrow> lcp fsm" where
  "lcp_LowerUp f = LowerUp lcp_sink f"

definition lcp_LowerDown :: "lcp fsm \<Rightarrow> lcp fsm" where
  "lcp_LowerDown f = LowerDown lcp_sink f"

definition lcp_Open :: "lcp fsm \<Rightarrow> lcp fsm" where
  "lcp_Open f =
     (let wo = m_lcp_wantoptions (f_sink f);
          f = DisableFlag (OPT_PASSIVE OR OPT_SILENT) f;
          f = (if opt_passive wo then EnableFlag OPT_PASSIVE f else f);
          f = (if opt_silent wo then EnableFlag OPT_SILENT f else f)
      in Open lcp_sink f)"

definition lcp_Close :: "byte list option \<Rightarrow> lcp fsm \<Rightarrow> lcp fsm option" where
  "lcp_Close reason f = Close lcp_sink reason f"

definition SendProtRej :: "byte list \<Rightarrow> lcp fsm \<Rightarrow> lcp fsm" where
  "SendProtRej p f = (let (i, f) = GetId f in SendData PROTREJ i (drop 2 p) f)"

definition lcp_SetAuthType :: "nat \<Rightarrow> lcp \<Rightarrow> lcp" where
  "lcp_SetAuthType authType s = s\<lparr>m_authType := authType\<rparr>"

end
