(* ===== verification/Ppp_Auth.thy ===== *)
theory Ppp_Auth
  imports Ppp_Lcp
begin

text \<open>
  The two authentication servers of a session, \<^verbatim>\<open>src/src/PPP/CPapProtocol.cpp\<close> and
  \<^verbatim>\<open>src/src/PPP/CChapProtocol.cpp\<close>. The calls an operation makes of its owner
  (\<^verbatim>\<open>IAuthenSvrSink\<close>, \<^verbatim>\<open>src/src/PPP/CAuthen.h\<close>) are the list it returns, in the order of the calls;
  none of them calls back into the server. The packet checks of \<^verbatim>\<open>Input\<close> are those of
  \<open>parse_packet\<close>. Timers registered with the reactor are the fields \<open>pap_timer\<close> and \<open>chap_timer\<close>.
  \<open>chap_rand\<close> are the values \<^verbatim>\<open>rand()\<close> returns to the server, and \<open>chap_overrun\<close> records that the
  challenge was written past the end of its array.
\<close>

section \<open>The calls of the owner\<close>

text \<open>The fields of \<^verbatim>\<open>Auth_Request\<close> (\<^verbatim>\<open>src/src/include/aim_ex.h\<close>) the servers set; \<^verbatim>\<open>authtype\<close> is one byte.\<close>

record Auth_Request =
  authtype :: u8
  chapid :: u8
  username :: "byte list"
  userpasswd :: "byte list"
  challenge :: "byte list"

datatype auth_call = SendAuthRequest2AM Auth_Request | OnAuthenOutput "byte list" | OnAuthenResult bool nat

abbreviation (input) AUTHMGR_MAX_USERNAME_SIZE :: nat where "AUTHMGR_MAX_USERNAME_SIZE \<equiv> 32"
abbreviation (input) AUTHMGR_MAX_PASSWD_SIZE :: nat where "AUTHMGR_MAX_PASSWD_SIZE \<equiv> 32"
abbreviation (input) AUTHMGR_MAX_CHALLENGE_SIZE :: nat where "AUTHMGR_MAX_CHALLENGE_SIZE \<equiv> 16"

definition Auth_Request_zero :: Auth_Request where
  "Auth_Request_zero = \<lparr>authtype = 0, chapid = 0, username = replicate AUTHMGR_MAX_USERNAME_SIZE 0,
     userpasswd = replicate AUTHMGR_MAX_PASSWD_SIZE 0, challenge = replicate AUTHMGR_MAX_CHALLENGE_SIZE 0\<rparr>"

text \<open>\<^verbatim>\<open>strncpy\<close> into a larger buffer: up to the first zero byte, then zeros up to \<open>n\<close>.\<close>

definition strncpy :: "byte list \<Rightarrow> byte list \<Rightarrow> nat \<Rightarrow> byte list" where
  "strncpy dst src n =
     (let s = takeWhile (\<lambda>c. c \<noteq> 0) (take n src) in s @ replicate (n - length s) 0 @ drop n dst)"

section \<open>PAP\<close>

record pap =
  m_reqtimeout :: int
  m_username :: "byte list"
  m_usrReqId :: u8
  pap_timer :: "int option"

abbreviation (input) UPAP_AUTHREQ :: u8 where "UPAP_AUTHREQ \<equiv> 1"
abbreviation (input) UPAP_AUTHACK :: u8 where "UPAP_AUTHACK \<equiv> 2"
abbreviation (input) UPAP_AUTHNAK :: u8 where "UPAP_AUTHNAK \<equiv> 3"
abbreviation (input) UPAP_DEFREQTIME :: int where "UPAP_DEFREQTIME \<equiv> 30"
abbreviation (input) UPAP_HEADERLEN :: nat where "UPAP_HEADERLEN \<equiv> 4"

definition CPapProtocolSvr_new :: pap where
  "CPapProtocolSvr_new = \<lparr>m_reqtimeout = 0, m_username = [], m_usrReqId = 0, pap_timer = None\<rparr>"

definition pap_CancelTimer :: "pap \<Rightarrow> pap" where
  "pap_CancelTimer p = p\<lparr>pap_timer := None\<rparr>"

definition pap_StartTimer :: "int \<Rightarrow> pap \<Rightarrow> pap" where
  "pap_StartTimer seconds p = (pap_CancelTimer p)\<lparr>pap_timer := Some seconds\<rparr>"

definition pap_Init :: "pap \<Rightarrow> pap" where
  "pap_Init p = p\<lparr>m_reqtimeout := UPAP_DEFREQTIME\<rparr>"

definition pap_LowerUp :: "pap \<Rightarrow> pap" where
  "pap_LowerUp p = (if m_reqtimeout p > 0 then pap_StartTimer (m_reqtimeout p) p else p)"

definition pap_LowerDown :: "pap \<Rightarrow> pap" where
  "pap_LowerDown p = (if m_reqtimeout p > 0 then pap_CancelTimer p else p)"

definition pap_Protrej :: "pap \<Rightarrow> auth_call list \<times> pap" where
  "pap_Protrej p = ([OnAuthenResult False PPP_PAP], pap_LowerDown p)"

definition pap_handle_timeout :: "pap \<Rightarrow> auth_call list \<times> pap" where
  "pap_handle_timeout p = ([OnAuthenResult False PPP_PAP], pap_CancelTimer p)"

definition upap_rauthreq :: "byte list \<Rightarrow> u8 \<Rightarrow> pap \<Rightarrow> auth_call list \<times> pap" where
  "upap_rauthreq inp pid p =
     (if length inp < 1 then ([], p)
      else let ruserlen = unat (inp ! 0)
           in if length inp < 1 + ruserlen + 1 then ([], p)
              else let len = length inp - (1 + ruserlen + 1);
                       ruser = take ruserlen (drop 1 inp);
                       rpasswdlen = unat (inp ! (1 + ruserlen))
                   in if len < rpasswdlen then ([], p)
                      else let rpasswd = take rpasswdlen (drop (1 + ruserlen + 1) inp);
                               authReq = Auth_Request_zero
                                 \<lparr>authtype := of_nat PPP_PAP,
                                  username := strncpy (username Auth_Request_zero) ruser
                                    (min ruserlen (AUTHMGR_MAX_USERNAME_SIZE - 1)),
                                  userpasswd := strncpy (userpasswd Auth_Request_zero) rpasswd
                                    (min rpasswdlen (AUTHMGR_MAX_PASSWD_SIZE - 1))\<rparr>
                           in ([SendAuthRequest2AM authReq], p\<lparr>m_username := ruser, m_usrReqId := pid\<rparr>))"

definition pap_Input :: "byte list \<Rightarrow> pap \<Rightarrow> auth_call list \<times> pap" where
  "pap_Input pkt p =
     (case parse_packet pkt of
        None \<Rightarrow> ([], p)
      | Some (code, pid, inp) \<Rightarrow> if code = UPAP_AUTHREQ then upap_rauthreq inp pid p else ([], p))"

definition upap_sresp :: "u8 \<Rightarrow> u8 \<Rightarrow> byte list \<Rightarrow> byte list" where
  "upap_sresp code pid msg =
     (let msglen = length msg; outlen = UPAP_HEADERLEN + 1 + msglen
      in MAKEHEADER PPP_PAP @ [code, pid] @ PUTSHORT outlen @ [of_nat msglen] @ msg)"

definition pap_ResponseAuthenResult :: "int \<Rightarrow> byte list \<Rightarrow> pap \<Rightarrow> auth_call list \<times> pap" where
  "pap_ResponseAuthenResult result reason p =
     (let retcode = (if result = 0 then UPAP_AUTHACK else UPAP_AUTHNAK);
          calls = [OnAuthenOutput (upap_sresp retcode (m_usrReqId p) (take 255 reason)),
                   OnAuthenResult (retcode = UPAP_AUTHACK) PPP_PAP]
      in (calls, if m_reqtimeout p > 0 then pap_CancelTimer p else p))"

section \<open>CHAP\<close>

datatype chap_flag = LOWERUP | AUTH_STARTED | AUTH_DONE | AUTH_FAILED | TIMEOUT_PENDING | CHALLENGE_VALID

text \<open>The \<^verbatim>\<open>flags\<close> word is the set of its bits; the struct \<^verbatim>\<open>chap_server_state\<close> is the first six fields.\<close>

record chap =
  c_flags :: "chap_flag set"
  c_id :: int
  c_name :: "byte list"
  c_challenge_xmits :: int
  c_challenge_pktlen :: nat
  c_challenge :: "byte list"
  m_timeout_time :: int
  m_max_transmits :: int
  m_rechallenge_time :: int
  m_chap_username :: "byte list"
  chap_timer :: "int option"
  chap_rand :: "nat \<Rightarrow> u32"
  chap_rand_pos :: nat
  chap_overrun :: bool

abbreviation (input) CHAP_HDRLEN :: nat where "CHAP_HDRLEN \<equiv> 4"
abbreviation (input) PPP_HDRLEN :: nat where "PPP_HDRLEN \<equiv> 4"
abbreviation (input) CHAP_CHALLENGE :: u8 where "CHAP_CHALLENGE \<equiv> 1"
abbreviation (input) CHAP_RESPONSE :: u8 where "CHAP_RESPONSE \<equiv> 2"
abbreviation (input) CHAP_SUCCESS :: u8 where "CHAP_SUCCESS \<equiv> 3"
abbreviation (input) CHAP_FAILURE :: u8 where "CHAP_FAILURE \<equiv> 4"

definition CHAL_MAX_PKTLEN :: nat where
  "CHAL_MAX_PKTLEN = PPP_HDRLEN + CHAP_HDRLEN + 4 + 64 + AUTHMGR_MAX_USERNAME_SIZE"

definition CChapProtocolSvr_new :: "(nat \<Rightarrow> u32) \<Rightarrow> chap" where
  "CChapProtocolSvr_new rnd =
     \<lparr>c_flags = {}, c_id = 0, c_name = [], c_challenge_xmits = 0, c_challenge_pktlen = 0,
      c_challenge = replicate CHAL_MAX_PKTLEN 0, m_timeout_time = 3, m_max_transmits = 10,
      m_rechallenge_time = 0, m_chap_username = [], chap_timer = None, chap_rand = rnd,
      chap_rand_pos = 0, chap_overrun = False\<rparr>"

definition chap_CancelTimer :: "chap \<Rightarrow> chap" where
  "chap_CancelTimer c = c\<lparr>chap_timer := None\<rparr>"

definition chap_StartTimer :: "int \<Rightarrow> chap \<Rightarrow> chap" where
  "chap_StartTimer seconds c = (chap_CancelTimer c)\<lparr>chap_timer := Some seconds\<rparr>"

abbreviation set_flag :: "chap_flag \<Rightarrow> chap \<Rightarrow> chap" where
  "set_flag b c \<equiv> c\<lparr>c_flags := insert b (c_flags c)\<rparr>"

abbreviation clear_flag :: "chap_flag \<Rightarrow> chap \<Rightarrow> chap" where
  "clear_flag b c \<equiv> c\<lparr>c_flags := c_flags c - {b}\<rparr>"

text \<open>\<^verbatim>\<open>random_bytes\<close> keeps the bits 24 and up of each value of \<^verbatim>\<open>rand()\<close>.\<close>

definition random_bytes :: "nat \<Rightarrow> chap \<Rightarrow> byte list \<times> chap" where
  "random_bytes len c =
     (map (\<lambda>i. ucast (drop_bit 24 (chap_rand c (chap_rand_pos c + i)))) [0..<len],
      c\<lparr>chap_rand_pos := chap_rand_pos c + len\<rparr>)"

definition chap_md5_generate_challenge :: "chap \<Rightarrow> byte list \<times> chap" where
  "chap_md5_generate_challenge c =
     (let (bs, c) = random_bytes AUTHMGR_MAX_CHALLENGE_SIZE c
      in (of_nat AUTHMGR_MAX_CHALLENGE_SIZE # bs, c))"

definition chap_generate_challenge :: "chap \<Rightarrow> chap" where
  "chap_generate_challenge c =
     (let p = memcpy_at (c_challenge c) 0 (MAKEHEADER PPP_CHAP) PPP_HDRLEN;
          (chal, c) = chap_md5_generate_challenge c;
          p = memcpy_at p (PPP_HDRLEN + CHAP_HDRLEN) chal (length chal);
          clen = unat (chal ! 0);
          nlen = length (c_name c);
          name_at = PPP_HDRLEN + CHAP_HDRLEN + 1 + clen;
          p = memcpy_at p name_at (c_name c) nlen;
          len = CHAP_HDRLEN + 1 + clen + nlen;
          c = c\<lparr>c_id := c_id c + 1\<rparr>;
          p = memcpy_at p PPP_HDRLEN ([CHAP_CHALLENGE, of_int (c_id c)] @ PUTSHORT len) CHAP_HDRLEN
      in c\<lparr>c_challenge := p, c_challenge_pktlen := PPP_HDRLEN + len,
           chap_overrun := (chap_overrun c \<or> name_at + nlen > CHAL_MAX_PKTLEN)\<rparr>)"

definition chap_handle_timeout :: "chap \<Rightarrow> auth_call list \<times> chap" where
  "chap_handle_timeout c =
     (let c = clear_flag TIMEOUT_PENDING c;
          send = (\<lambda>c. ([OnAuthenOutput (take (c_challenge_pktlen c) (c_challenge c))],
                       set_flag TIMEOUT_PENDING (c\<lparr>c_challenge_xmits := c_challenge_xmits c + 1\<rparr>)))
      in if CHALLENGE_VALID \<notin> c_flags c
         then send (set_flag CHALLENGE_VALID (chap_generate_challenge (c\<lparr>c_challenge_xmits := 0\<rparr>)))
         else if c_challenge_xmits c \<ge> m_max_transmits c
         then ([OnAuthenResult False PPP_CHAP],
               set_flag AUTH_FAILED (set_flag AUTH_DONE (clear_flag CHALLENGE_VALID c)))
         else send c)"

definition chap_Protrej :: "chap \<Rightarrow> auth_call list \<times> chap" where
  "chap_Protrej c =
     (let c = (if TIMEOUT_PENDING \<in> c_flags c then chap_CancelTimer (clear_flag TIMEOUT_PENDING c) else c)
      in if AUTH_STARTED \<in> c_flags c then ([OnAuthenResult False PPP_CHAP], c\<lparr>c_flags := {}\<rparr>) else ([], c))"

definition chap_LowerUp :: "chap \<Rightarrow> auth_call list \<times> chap" where
  "chap_LowerUp c =
     (let c = set_flag LOWERUP c
      in if AUTH_STARTED \<in> c_flags c then chap_handle_timeout c else ([], c))"

definition chap_LowerDown :: "chap \<Rightarrow> chap" where
  "chap_LowerDown c =
     (let c = (if TIMEOUT_PENDING \<in> c_flags c then chap_CancelTimer c else c) in c\<lparr>c_flags := {}\<rparr>)"

text \<open>
  A response to the outstanding challenge is passed on to the authentication manager, with the
  identifier, the name, the digest and the challenge. The source's next branch, for a challenge
  that is no longer valid, only writes to the log.
\<close>

definition chap_authReq :: "u8 \<Rightarrow> byte list \<Rightarrow> chap \<Rightarrow> Auth_Request" where
  "chap_authReq pid pkt c =
     (let response_len = unat (pkt ! 0);
          name = drop (response_len + 1) pkt
      in Auth_Request_zero
           \<lparr>authtype := of_nat PPP_CHAP, chapid := pid,
            username := strncpy (username Auth_Request_zero) name (min (length name) (AUTHMGR_MAX_USERNAME_SIZE - 1)),
            userpasswd := memcpy_at (userpasswd Auth_Request_zero) 0 (drop 1 pkt) (min response_len AUTHMGR_MAX_PASSWD_SIZE),
            challenge := take AUTHMGR_MAX_CHALLENGE_SIZE (drop (PPP_HDRLEN + CHAP_HDRLEN + 1) (c_challenge c))\<rparr>)"

definition chap_handle_response :: "u8 \<Rightarrow> byte list \<Rightarrow> chap \<Rightarrow> auth_call list \<times> chap" where
  "chap_handle_response pid pkt c =
     (if LOWERUP \<notin> c_flags c then ([], c)
      else if pid \<noteq> c_challenge c ! (PPP_HDRLEN + 1) then ([], c)
      else if length pkt < 2 then ([], c)
      else if CHALLENGE_VALID \<in> c_flags c
      then let response_len = unat (pkt ! 0)
           in if length pkt < response_len + 1 then ([], c)
              else let c = (if TIMEOUT_PENDING \<in> c_flags c
                            then chap_CancelTimer (clear_flag TIMEOUT_PENDING c) else c);
                       c = c\<lparr>m_chap_username := drop (response_len + 1) pkt\<rparr>
                   in if unat (c_challenge c ! (PPP_HDRLEN + CHAP_HDRLEN)) \<noteq> AUTHMGR_MAX_CHALLENGE_SIZE
                      then ([], c)
                      else ([SendAuthRequest2AM (chap_authReq pid pkt c)], c)
      else ([], c))"

definition chap_Input :: "byte list \<Rightarrow> chap \<Rightarrow> auth_call list \<times> chap" where
  "chap_Input pkt c =
     (case parse_packet pkt of
        None \<Rightarrow> ([], c)
      | Some (code, pid, inp) \<Rightarrow> if code = CHAP_RESPONSE then chap_handle_response pid inp c else ([], c))"

definition chap_ResponseAuthenResult :: "int \<Rightarrow> byte list \<Rightarrow> chap \<Rightarrow> auth_call list \<times> chap" where
  "chap_ResponseAuthenResult result reason c =
     (let c = (if result \<noteq> 0 then set_flag AUTH_FAILED c else c);
          mlen = min (length reason) (PPP_MRU - CHAP_HDRLEN);
          len = CHAP_HDRLEN + mlen;
          code = (if AUTH_FAILED \<in> c_flags c then CHAP_FAILURE else CHAP_SUCCESS);
          answer = OnAuthenOutput (MAKEHEADER PPP_CHAP @ [code, c_challenge c ! (PPP_HDRLEN + 1)] @
                     PUTSHORT len @ take mlen reason)
      in if CHALLENGE_VALID \<in> c_flags c
         then let c = clear_flag CHALLENGE_VALID c
              in if AUTH_FAILED \<in> c_flags c
                 then ([answer, OnAuthenResult False PPP_CHAP], set_flag AUTH_DONE c)
                 else let calls = (if AUTH_DONE \<notin> c_flags c then [OnAuthenResult True PPP_CHAP] else []);
                          c = (if m_rechallenge_time c \<noteq> 0
                               then chap_StartTimer (m_rechallenge_time c) (set_flag TIMEOUT_PENDING c) else c)
                      in (answer # calls, set_flag AUTH_DONE c)
         else ([answer], c))"

text \<open>
  \<^verbatim>\<open>chap_auth_peer\<close>. The name is copied to a static array of 256 bytes and read as a C string; the
  first identifier is \<^verbatim>\<open>(unsigned char)(drand48() * 256)\<close> with \<^verbatim>\<open>drand48() = rand() / 2147483647\<close>.
\<close>

definition BRAS_CHAP_MAXNAMELEN :: nat where
  "BRAS_CHAP_MAXNAMELEN = 256"

definition chap_auth_peer :: "byte list \<Rightarrow> chap \<Rightarrow> auth_call list \<times> chap" where
  "chap_auth_peer our_name c =
     (if AUTH_STARTED \<in> c_flags c then ([], c)
      else let host_name = takeWhile (\<lambda>b. b \<noteq> 0) (take (BRAS_CHAP_MAXNAMELEN - 1) our_name);
               r = uint (chap_rand c (chap_rand_pos c));
               c = c\<lparr>c_name := host_name, c_id := r * 256 div 0x7fffffff mod 256,
                     chap_rand_pos := chap_rand_pos c + 1\<rparr>;
               c = set_flag AUTH_STARTED c
           in if LOWERUP \<in> c_flags c then chap_handle_timeout c else ([], c))"

end
