(* ===== verification/Ppp_Ipcp.thy ===== *)
theory Ppp_Ipcp
  imports Ppp_Fsm Ppp_Options
begin

text \<open>
  The IP control protocol of a subscriber session: \<^verbatim>\<open>src/src/PPP/CPPPIPCP.cpp\<close>, the protocol half of
  a \<^verbatim>\<open>CPPPFsm\<close>. The addresses are kept in network byte order in the source and written with
  \<^verbatim>\<open>PUTLONG(ntohl(a))\<close>; they are only compared with each other and with 0 in between, so the model
  keeps the number whose bytes go on the wire.
\<close>

section \<open>Options and state (pppdef.h, CPPPIPCP.h)\<close>

record ipcp_options =
  neg_addr :: bool
  old_addrs :: bool
  req_addr :: bool
  default_route :: bool
  proxy_arp :: bool
  neg_vj :: bool
  old_vj :: bool
  accept_local :: bool
  accept_remote :: bool
  req_dns1 :: bool
  req_dns2 :: bool
  vj_protocol :: nat
  maxslotindex :: nat
  cflag :: bool
  ouraddr :: u32
  hisaddr :: u32
  dnsaddr0 :: u32
  dnsaddr1 :: u32
  winsaddr0 :: u32
  winsaddr1 :: u32

datatype ipcp_notice = OnIPCPUp | OnIPCPDown

record ipcp =
  wantoptions :: ipcp_options
  gotoptions :: ipcp_options
  allowoptions :: ipcp_options
  hisoptions :: ipcp_options
  m_busepeerdns :: bool
  m_ask_for_local :: bool
  m_noremoteip :: bool
  m_ipcp_is_open :: bool
  ipcp_notices :: "ipcp_notice list"

definition ipcp_options_zero :: ipcp_options where
  "ipcp_options_zero = \<lparr>neg_addr = False, old_addrs = False, req_addr = False, default_route = False,
     proxy_arp = False, neg_vj = False, old_vj = False, accept_local = False, accept_remote = False,
     req_dns1 = False, req_dns2 = False, vj_protocol = 0, maxslotindex = 0, cflag = False, ouraddr = 0,
     hisaddr = 0, dnsaddr0 = 0, dnsaddr1 = 0, winsaddr0 = 0, winsaddr1 = 0\<rparr>"

definition CPPPIPCP_new :: ipcp where
  "CPPPIPCP_new = \<lparr>wantoptions = ipcp_options_zero, gotoptions = ipcp_options_zero,
     allowoptions = ipcp_options_zero, hisoptions = ipcp_options_zero, m_busepeerdns = False,
     m_ask_for_local = True, m_noremoteip = False, m_ipcp_is_open = False, ipcp_notices = []\<rparr>"

definition ipcp_Init :: "ipcp fsm \<Rightarrow> ipcp fsm" where
  "ipcp_Init f =
     (let f = Init f;
          f = f\<lparr>m_maxnakloops := 100\<rparr>;
          wo = ipcp_options_zero\<lparr>neg_addr := True, old_addrs := True, neg_vj := False, cflag := True\<rparr>;
          ao = ipcp_options_zero\<lparr>neg_addr := True, old_addrs := True, neg_vj := False, cflag := True,
                 proxy_arp := True, default_route := True\<rparr>
      in f\<lparr>f_sink := (f_sink f)\<lparr>wantoptions := wo, allowoptions := ao\<rparr>\<rparr>)"

abbreviation (input) CI_ADDRS :: u8 where "CI_ADDRS \<equiv> 1"
abbreviation (input) CI_COMPRESSTYPE :: u8 where "CI_COMPRESSTYPE \<equiv> 2"
abbreviation (input) CI_ADDR :: u8 where "CI_ADDR \<equiv> 3"
abbreviation (input) CI_MS_DNS1 :: u8 where "CI_MS_DNS1 \<equiv> 129"
abbreviation (input) CI_MS_WINS1 :: u8 where "CI_MS_WINS1 \<equiv> 130"
abbreviation (input) CI_MS_DNS2 :: u8 where "CI_MS_DNS2 \<equiv> 131"
abbreviation (input) CI_MS_WINS2 :: u8 where "CI_MS_WINS2 \<equiv> 132"
abbreviation (input) IPCP_VJ_COMP :: nat where "IPCP_VJ_COMP \<equiv> 0x2d"
abbreviation (input) IPCP_VJ_COMP_OLD :: nat where "IPCP_VJ_COMP_OLD \<equiv> 0x37"
abbreviation (input) MAX_STATES :: nat where "MAX_STATES \<equiv> 16"
abbreviation (input) CILEN_COMPRESS :: nat where "CILEN_COMPRESS \<equiv> 4"
abbreviation (input) CILEN_VJ :: nat where "CILEN_VJ \<equiv> 6"
abbreviation (input) CILEN_ADDR :: nat where "CILEN_ADDR \<equiv> 6"
abbreviation (input) CILEN_ADDRS :: nat where "CILEN_ADDRS \<equiv> 10"

section \<open>Our configuration request\<close>

definition ipcp_Resetci :: "ipcp \<Rightarrow> ipcp" where
  "ipcp_Resetci s =
     (let wo = wantoptions s; ao = allowoptions s;
          wo = wo\<lparr>req_addr := (neg_addr wo \<or> old_addrs wo) \<and> (neg_addr ao \<or> old_addrs ao)\<rparr>;
          wo = (if ouraddr wo = 0 then wo\<lparr>accept_local := True\<rparr> else wo);
          wo = (if hisaddr wo = 0 then wo\<lparr>accept_remote := True\<rparr> else wo);
          wo = wo\<lparr>req_dns1 := m_busepeerdns s, req_dns2 := m_busepeerdns s\<rparr>;
          go = (if \<not> m_ask_for_local s then wo\<lparr>ouraddr := 0\<rparr> else wo)
      in s\<lparr>wantoptions := wo, gotoptions := go, hisoptions := ipcp_options_zero\<rparr>)"

text \<open>The old style address option is sent when only it is left.\<close>

definition use_addrs :: "ipcp_options \<Rightarrow> bool" where
  "use_addrs go \<longleftrightarrow> \<not> neg_addr go \<and> old_addrs go"

definition vj_len :: "ipcp_options \<Rightarrow> nat" where
  "vj_len go = (if old_vj go then CILEN_COMPRESS else CILEN_VJ)"

definition ipcp_Cilen :: "ipcp \<Rightarrow> nat \<times> ipcp" where
  "ipcp_Cilen s =
     (let wo = wantoptions s; go = gotoptions s; ho = hisoptions s;
          go = (if neg_addr go \<and> old_addrs go \<and> \<not> neg_addr ho \<and> old_addrs ho then go\<lparr>neg_addr := False\<rparr> else go);
          go = (if neg_vj wo \<and> \<not> neg_vj go \<and> \<not> old_vj go \<and> neg_vj ho \<and> old_vj ho
                then go\<lparr>neg_vj := True, old_vj := True, vj_protocol := vj_protocol ho\<rparr> else go)
      in ((if use_addrs go then CILEN_ADDRS else 0) +
          (if neg_vj go then vj_len go else 0) +
          (if neg_addr go then CILEN_ADDR else 0) +
          (if req_dns1 go then CILEN_ADDR else 0) +
          (if req_dns2 go then CILEN_ADDR else 0) +
          (if winsaddr0 go \<noteq> 0 then CILEN_ADDR else 0) +
          (if winsaddr1 go \<noteq> 0 then CILEN_ADDR else 0),
          s\<lparr>gotoptions := go\<rparr>))"

text \<open>
  One macro of \<^verbatim>\<open>Addci\<close>: the option if it is wanted and fits, else the option is given up
  (\<open>drop_opt\<close>). The state is the bytes written, the room left and the options.
\<close>

definition addci :: "bool \<Rightarrow> byte list \<Rightarrow> (ipcp_options \<Rightarrow> ipcp_options) \<Rightarrow>
    byte list \<times> nat \<times> ipcp_options \<Rightarrow> byte list \<times> nat \<times> ipcp_options" where
  "addci want opt drop_opt st =
     (let (out, len, go) = st
      in if \<not> want then st
         else if len \<ge> length opt then (out @ opt, len - length opt, go)
         else (out, len, drop_opt go))"

definition addrs_ci :: "u32 \<Rightarrow> u32 \<Rightarrow> byte list" where
  "addrs_ci a b = [CI_ADDRS, of_nat CILEN_ADDRS] @ PUTLONG a @ PUTLONG b"

definition vj_ci :: "ipcp_options \<Rightarrow> byte list" where
  "vj_ci go = [CI_COMPRESSTYPE, of_nat (vj_len go)] @ PUTSHORT (vj_protocol go) @
     (if old_vj go then [] else [of_nat (maxslotindex go), of_bool (cflag go)])"

definition addr_ci :: "u8 \<Rightarrow> u32 \<Rightarrow> byte list" where
  "addr_ci opt a = [opt, of_nat CILEN_ADDR] @ PUTLONG a"

definition ipcp_Addci_go :: "nat \<Rightarrow> ipcp_options \<Rightarrow> byte list \<times> ipcp_options" where
  "ipcp_Addci_go len go =
     (let st = ([], len, go);
          st = addci (use_addrs go) (addrs_ci (ouraddr go) (hisaddr go)) (\<lambda>x. x\<lparr>old_addrs := False\<rparr>) st;
          st = addci (neg_vj go) (vj_ci go) (\<lambda>x. x\<lparr>neg_vj := False\<rparr>) st;
          st = addci (neg_addr go) (addr_ci CI_ADDR (ouraddr go)) (\<lambda>x. x\<lparr>neg_addr := False\<rparr>) st;
          st = addci (req_dns1 go) (addr_ci CI_MS_DNS1 (dnsaddr0 go)) (\<lambda>x. x\<lparr>req_dns1 := False\<rparr>) st;
          st = addci (req_dns2 go) (addr_ci CI_MS_DNS2 (dnsaddr1 go)) (\<lambda>x. x\<lparr>req_dns2 := False\<rparr>) st;
          st = addci (winsaddr0 go \<noteq> 0) (addr_ci CI_MS_WINS1 (winsaddr0 go)) (\<lambda>x. x\<lparr>winsaddr0 := 0\<rparr>) st;
          (out, _, go) =
            addci (winsaddr1 go \<noteq> 0) (addr_ci CI_MS_WINS2 (winsaddr1 go)) (\<lambda>x. x\<lparr>winsaddr1 := 0\<rparr>) st
      in (out, go))"

definition ipcp_Addci :: "ipcp \<Rightarrow> nat \<Rightarrow> byte list \<times> ipcp" where
  "ipcp_Addci s len = (let (out, go) = ipcp_Addci_go len (gotoptions s) in (out, s\<lparr>gotoptions := go\<rparr>))"

text \<open>
  One macro of \<^verbatim>\<open>Ackci\<close>: the rest of the packet after the option, \<open>None\<close> for \<^verbatim>\<open>goto bad\<close>. The fields
  are read in order and each is compared with what was sent.
\<close>

definition ack_addrs :: "ipcp_options \<Rightarrow> byte list \<Rightarrow> byte list option" where
  "ack_addrs go p =
     (if \<not> use_addrs go then Some p
      else if length p < CILEN_ADDRS then None
      else if unat (p ! 1) \<noteq> CILEN_ADDRS \<or> p ! 0 \<noteq> CI_ADDRS then None
      else if ouraddr go \<noteq> GETLONG (drop 2 p) then None
      else if hisaddr go \<noteq> GETLONG (drop 6 p) then None
      else Some (drop CILEN_ADDRS p))"

definition ack_vj :: "ipcp_options \<Rightarrow> byte list \<Rightarrow> byte list option" where
  "ack_vj go p =
     (if \<not> neg_vj go then Some p
      else if length p < vj_len go then None
      else if unat (p ! 1) \<noteq> vj_len go \<or> p ! 0 \<noteq> CI_COMPRESSTYPE then None
      else if GETSHORT (p ! 2) (p ! 3) \<noteq> vj_protocol go then None
      else if \<not> old_vj go \<and> unat (p ! 4) \<noteq> maxslotindex go then None
      else if \<not> old_vj go \<and> p ! 5 \<noteq> of_bool (cflag go) then None
      else Some (drop (vj_len go) p))"

definition ack_addr :: "bool \<Rightarrow> u8 \<Rightarrow> u32 \<Rightarrow> byte list \<Rightarrow> byte list option" where
  "ack_addr neg opt val p =
     (if \<not> neg then Some p
      else if length p < CILEN_ADDR then None
      else if unat (p ! 1) \<noteq> CILEN_ADDR \<or> p ! 0 \<noteq> opt then None
      else if val \<noteq> GETLONG (drop 2 p) then None
      else Some (drop CILEN_ADDR p))"

definition ipcp_Ackci_go :: "ipcp_options \<Rightarrow> byte list \<Rightarrow> bool" where
  "ipcp_Ackci_go go p =
     (case Option.bind (ack_addrs go p) (\<lambda>p.
           Option.bind (ack_vj go p) (\<lambda>p.
           Option.bind (ack_addr (neg_addr go) CI_ADDR (ouraddr go) p) (\<lambda>p.
           Option.bind (ack_addr (req_dns1 go) CI_MS_DNS1 (dnsaddr0 go) p) (\<lambda>p.
           Option.bind (ack_addr (req_dns2 go) CI_MS_DNS2 (dnsaddr1 go) p) (\<lambda>p.
           Option.bind (ack_addr (winsaddr0 go \<noteq> 0) CI_MS_WINS1 (winsaddr0 go) p) (\<lambda>p.
           ack_addr (winsaddr1 go \<noteq> 0) CI_MS_WINS2 (winsaddr1 go) p)))))) of
        None \<Rightarrow> False
      | Some rest \<Rightarrow> rest = [])"

definition ipcp_Ackci :: "ipcp \<Rightarrow> byte list \<Rightarrow> bool" where
  "ipcp_Ackci s p = ipcp_Ackci_go (gotoptions s) p"

section \<open>The peer's Nak and Reject\<close>

text \<open>
  \<^verbatim>\<open>Nakci\<close> keeps the read pointer and the remaining length apart (a compression option treated as a
  reject is not skipped to its end), the options it has seen Naks for, and the options to try next.
\<close>

record nak_state =
  nk_p :: "byte list"
  nk_len :: nat
  nk_no :: ipcp_options
  nk_try :: ipcp_options

definition NAKCIADDRS :: "ipcp_options \<Rightarrow> bool \<Rightarrow> nak_state \<Rightarrow> nak_state" where
  "NAKCIADDRS go treat_as_reject st =
     (let p = nk_p st; t = nk_try st
      in if use_addrs go \<and> nk_len st \<ge> CILEN_ADDRS \<and> unat (p ! 1) = CILEN_ADDRS \<and> p ! 0 = CI_ADDRS
         then let ciaddr1 = GETLONG (drop 2 p); ciaddr2 = GETLONG (drop 6 p);
                  t = (if treat_as_reject then t\<lparr>old_addrs := False\<rparr>
                       else let t = (if accept_local go \<and> ciaddr1 \<noteq> 0 then t\<lparr>ouraddr := ciaddr1\<rparr> else t)
                            in if accept_remote go \<and> ciaddr2 \<noteq> 0 then t\<lparr>hisaddr := ciaddr2\<rparr> else t)
              in st\<lparr>nk_p := drop CILEN_ADDRS p, nk_len := nk_len st - CILEN_ADDRS,
                    nk_no := (nk_no st)\<lparr>old_addrs := True\<rparr>, nk_try := t\<rparr>
         else st)"

definition NAKCIVJ :: "ipcp_options \<Rightarrow> bool \<Rightarrow> nak_state \<Rightarrow> nak_state" where
  "NAKCIVJ go treat_as_reject st =
     (let p = nk_p st; t = nk_try st; cilen = unat (p ! 1)
      in if neg_vj go \<and> nk_len st \<ge> 2 \<and> (cilen = CILEN_COMPRESS \<or> cilen = CILEN_VJ) \<and> nk_len st \<ge> cilen \<and>
            p ! 0 = CI_COMPRESSTYPE
         then let cishort = GETSHORT (p ! 2) (p ! 3);
                  st = st\<lparr>nk_len := nk_len st - cilen, nk_no := (nk_no st)\<lparr>neg_vj := True\<rparr>\<rparr>
              in if treat_as_reject then st\<lparr>nk_p := drop 4 p, nk_try := t\<lparr>neg_vj := False\<rparr>\<rparr>
                 else if cilen = CILEN_VJ
                 then let cimaxslotindex = unat (p ! 4); cicflag = p ! 5;
                          t = (if cishort = IPCP_VJ_COMP
                               then let t = t\<lparr>old_vj := False\<rparr>;
                                        t = (if cimaxslotindex < maxslotindex go
                                             then t\<lparr>maxslotindex := cimaxslotindex\<rparr> else t)
                                    in if cicflag = 0 then t\<lparr>cflag := False\<rparr> else t
                               else t\<lparr>neg_vj := False\<rparr>)
                      in st\<lparr>nk_p := drop 6 p, nk_try := t\<rparr>
                 else let t = (if cishort = IPCP_VJ_COMP \<or> cishort = IPCP_VJ_COMP_OLD
                               then t\<lparr>old_vj := True, vj_protocol := cishort\<rparr>
                               else t\<lparr>neg_vj := False\<rparr>)
                      in st\<lparr>nk_p := drop 4 p, nk_try := t\<rparr>
         else st)"

text \<open>The macros for a single address; \<open>seen\<close> marks the option in \<^verbatim>\<open>no\<close>, \<open>upd\<close> is the code given.\<close>

definition NAKCIADDR :: "bool \<Rightarrow> u8 \<Rightarrow> (ipcp_options \<Rightarrow> ipcp_options) \<Rightarrow>
    (u32 \<Rightarrow> ipcp_options \<Rightarrow> ipcp_options) \<Rightarrow> nak_state \<Rightarrow> nak_state" where
  "NAKCIADDR neg opt seen upd st =
     (let p = nk_p st
      in if neg \<and> nk_len st \<ge> CILEN_ADDR \<and> unat (p ! 1) = CILEN_ADDR \<and> p ! 0 = opt
         then st\<lparr>nk_p := drop CILEN_ADDR p, nk_len := nk_len st - CILEN_ADDR,
                 nk_no := seen (nk_no st), nk_try := upd (GETLONG (drop 2 p)) (nk_try st)\<rparr>
         else st)"

text \<open>One option of the remaining ones, \<open>None\<close> for \<^verbatim>\<open>goto bad\<close>.\<close>

definition nak_extra :: "ipcp_options \<Rightarrow> u8 \<Rightarrow> nat \<Rightarrow> byte list \<Rightarrow> ipcp_options \<times> ipcp_options \<Rightarrow>
    (ipcp_options \<times> ipcp_options) option" where
  "nak_extra go citype cilen v nt =
     (let (no, t) = nt
      in if citype = CI_COMPRESSTYPE then
           (if neg_vj go \<or> neg_vj no \<or> (cilen \<noteq> CILEN_VJ \<and> cilen \<noteq> CILEN_COMPRESS) then None
            else Some (no\<lparr>neg_vj := True\<rparr>, t))
         else if citype = CI_ADDRS then
           (if use_addrs go \<or> old_addrs no \<or> cilen \<noteq> CILEN_ADDRS then None
            else let t = t\<lparr>neg_addr := False\<rparr>; ciaddr1 = GETLONG v; ciaddr2 = GETLONG (drop 4 v);
                     t = (if ciaddr1 \<noteq> 0 \<and> accept_local go then t\<lparr>ouraddr := ciaddr1\<rparr> else t);
                     t = (if ciaddr2 \<noteq> 0 \<and> accept_remote go then t\<lparr>hisaddr := ciaddr2\<rparr> else t)
                 in Some (no\<lparr>old_addrs := True\<rparr>, t))
         else if citype = CI_ADDR then
           (if neg_addr go \<or> neg_addr no \<or> cilen \<noteq> CILEN_ADDR then None
            else let t = t\<lparr>old_addrs := False\<rparr>; ciaddr1 = GETLONG v;
                     t = (if ciaddr1 \<noteq> 0 \<and> accept_local go then t\<lparr>ouraddr := ciaddr1\<rparr> else t);
                     t = (if ouraddr t \<noteq> 0 then t\<lparr>neg_addr := True\<rparr> else t)
                 in Some (no\<lparr>neg_addr := True\<rparr>, t))
         else if citype = CI_MS_DNS1 then
           (if req_dns1 go \<or> req_dns1 no \<or> cilen \<noteq> CILEN_ADDR then None
            else Some (no\<lparr>req_dns1 := True\<rparr>, t\<lparr>dnsaddr0 := GETLONG v, req_dns1 := True\<rparr>))
         else if citype = CI_MS_DNS2 then
           (if req_dns2 go \<or> req_dns2 no \<or> cilen \<noteq> CILEN_ADDR then None
            else Some (no\<lparr>req_dns2 := True\<rparr>, t\<lparr>dnsaddr1 := GETLONG v, req_dns2 := True\<rparr>))
         else if citype = CI_MS_WINS1 \<or> citype = CI_MS_WINS2 then
           (if cilen \<noteq> CILEN_ADDR then None
            else let ciaddr1 = GETLONG v
                 in Some (no, if ciaddr1 = 0 then t
                              else if citype = CI_MS_WINS2 then t\<lparr>winsaddr1 := ciaddr1\<rparr>
                              else t\<lparr>winsaddr0 := ciaddr1\<rparr>))
         else Some (no, t))"

function nak_rest :: "ipcp_options \<Rightarrow> byte list \<Rightarrow> nat \<Rightarrow> ipcp_options \<times> ipcp_options \<Rightarrow>
    (ipcp_options \<times> ipcp_options) option" where
  "nak_rest go p len nt =
     (if len < 2 then Some nt
      else let citype = p ! 0; cilen = unat (p ! 1)
           in if cilen < 2 \<or> len < cilen then None
              else (case nak_extra go citype cilen (drop 2 p) nt of
                      None \<Rightarrow> None
                    | Some nt \<Rightarrow> nak_rest go (drop cilen p) (len - cilen) nt))"
  by pat_completeness auto
termination
  by (relation "measure (\<lambda>(go, p, len, nt). len)") auto

declare nak_rest.simps [simp del]

definition ipcp_Nakci_go :: "ipcp_options \<Rightarrow> byte list \<Rightarrow> bool \<Rightarrow> ipcp_options option" where
  "ipcp_Nakci_go go p treat_as_reject =
     (let st = \<lparr>nk_p = p, nk_len = length p, nk_no = ipcp_options_zero, nk_try = go\<rparr>;
          st = NAKCIADDRS go treat_as_reject st;
          st = NAKCIVJ go treat_as_reject st;
          st = NAKCIADDR (neg_addr go) CI_ADDR (\<lambda>no. no\<lparr>neg_addr := True\<rparr>)
                 (\<lambda>a t. if treat_as_reject then t\<lparr>neg_addr := False, old_addrs := False\<rparr>
                        else if accept_local go \<and> a \<noteq> 0 then t\<lparr>ouraddr := a\<rparr> else t) st;
          st = NAKCIADDR (req_dns1 go) CI_MS_DNS1 (\<lambda>no. no\<lparr>req_dns1 := True\<rparr>)
                 (\<lambda>a t. if treat_as_reject then t\<lparr>req_dns1 := False\<rparr> else t\<lparr>dnsaddr0 := a\<rparr>) st;
          st = NAKCIADDR (req_dns2 go) CI_MS_DNS2 (\<lambda>no. no\<lparr>req_dns2 := True\<rparr>)
                 (\<lambda>a t. if treat_as_reject then t\<lparr>req_dns2 := False\<rparr> else t\<lparr>dnsaddr1 := a\<rparr>) st
      in map_option snd (nak_rest go (nk_p st) (nk_len st) (nk_no st, nk_try st)))"

definition ipcp_Nakci :: "fsm_state \<Rightarrow> ipcp \<Rightarrow> byte list \<Rightarrow> bool \<Rightarrow> int \<times> ipcp" where
  "ipcp_Nakci state s p treat_as_reject =
     (case ipcp_Nakci_go (gotoptions s) p treat_as_reject of
        None \<Rightarrow> (0, s)
      | Some tryop \<Rightarrow> (1, if state \<noteq> OPENED then s\<lparr>gotoptions := tryop\<rparr> else s))"

text \<open>
  One macro of \<^verbatim>\<open>Rejci\<close>: an option that is not the one expected here is left for the next macro; the
  expected one must carry the value we sent.
\<close>

definition REJCIADDRS :: "ipcp_options \<Rightarrow> byte list \<times> ipcp_options \<Rightarrow> (byte list \<times> ipcp_options) option" where
  "REJCIADDRS go pt =
     (let (p, t) = pt
      in if use_addrs go \<and> length p \<ge> CILEN_ADDRS \<and> unat (p ! 1) = CILEN_ADDRS \<and> p ! 0 = CI_ADDRS
         then if GETLONG (drop 2 p) \<noteq> ouraddr go then None
              else if GETLONG (drop 6 p) \<noteq> hisaddr go then None
              else Some (drop CILEN_ADDRS p, t\<lparr>old_addrs := False\<rparr>)
         else Some pt)"

definition REJCIVJ :: "ipcp_options \<Rightarrow> byte list \<times> ipcp_options \<Rightarrow> (byte list \<times> ipcp_options) option" where
  "REJCIVJ go pt =
     (let (p, t) = pt
      in if neg_vj go \<and> length p \<ge> vj_len go \<and> unat (p ! 1) = vj_len go \<and> p ! 0 = CI_COMPRESSTYPE
         then if GETSHORT (p ! 2) (p ! 3) \<noteq> vj_protocol go then None
              else if \<not> old_vj go \<and> unat (p ! 4) \<noteq> maxslotindex go then None
              else if \<not> old_vj go \<and> p ! 5 \<noteq> of_bool (cflag go) then None
              else Some (drop (vj_len go) p, t\<lparr>neg_vj := False\<rparr>)
         else Some pt)"

definition REJCIADDR :: "bool \<Rightarrow> u8 \<Rightarrow> u32 \<Rightarrow> (ipcp_options \<Rightarrow> ipcp_options) \<Rightarrow>
    byte list \<times> ipcp_options \<Rightarrow> (byte list \<times> ipcp_options) option" where
  "REJCIADDR neg opt val give_up pt =
     (let (p, t) = pt
      in if neg \<and> length p \<ge> CILEN_ADDR \<and> unat (p ! 1) = CILEN_ADDR \<and> p ! 0 = opt
         then if GETLONG (drop 2 p) \<noteq> val then None else Some (drop CILEN_ADDR p, give_up t)
         else Some pt)"

definition ipcp_Rejci_go :: "ipcp_options \<Rightarrow> byte list \<Rightarrow> ipcp_options option" where
  "ipcp_Rejci_go go p =
     (case Option.bind (REJCIADDRS go (p, go)) (\<lambda>pt.
           Option.bind (REJCIVJ go pt) (\<lambda>pt.
           Option.bind (REJCIADDR (neg_addr go) CI_ADDR (ouraddr go) (\<lambda>t. t\<lparr>neg_addr := False\<rparr>) pt) (\<lambda>pt.
           Option.bind (REJCIADDR (req_dns1 go) CI_MS_DNS1 (dnsaddr0 go) (\<lambda>t. t\<lparr>req_dns1 := False\<rparr>) pt) (\<lambda>pt.
           Option.bind (REJCIADDR (req_dns2 go) CI_MS_DNS2 (dnsaddr1 go) (\<lambda>t. t\<lparr>req_dns2 := False\<rparr>) pt) (\<lambda>pt.
           Option.bind (REJCIADDR (winsaddr0 go \<noteq> 0) CI_MS_WINS1 (winsaddr0 go) (\<lambda>t. t\<lparr>winsaddr0 := 0\<rparr>) pt) (\<lambda>pt.
           REJCIADDR (winsaddr1 go \<noteq> 0) CI_MS_WINS2 (winsaddr1 go) (\<lambda>t. t\<lparr>winsaddr1 := 0\<rparr>) pt)))))) of
        None \<Rightarrow> None
      | Some (rest, t) \<Rightarrow> if rest = [] then Some t else None)"

definition ipcp_Rejci :: "fsm_state \<Rightarrow> ipcp \<Rightarrow> byte list \<Rightarrow> int \<times> ipcp" where
  "ipcp_Rejci state s p =
     (case ipcp_Rejci_go (gotoptions s) p of
        None \<Rightarrow> (0, s)
      | Some tryop \<Rightarrow> (1, if state \<noteq> OPENED then s\<lparr>gotoptions := tryop\<rparr> else s))"

section \<open>The peer's configuration request\<close>

text \<open>
  The \<^verbatim>\<open>switch (citype)\<close> of \<^verbatim>\<open>Reqci\<close>, one case per definition: the verdict, the option as the code
  leaves it in the buffer, and our and the peer's options. \<open>ao\<close> are the options we allow.
\<close>

type_synonym req_state = "ipcp_options \<times> ipcp_options"

definition req_addrs :: "ipcp_options \<Rightarrow> bool \<Rightarrow> req_state \<Rightarrow> byte list \<Rightarrow> int \<times> byte list \<times> req_state" where
  "req_addrs ao rej st ci =
     (let (wo, ho) = st
      in if \<not> old_addrs ao \<or> neg_addr ho \<or> length ci \<noteq> CILEN_ADDRS then (CI_REJ, ci, st)
         else let ciaddr1 = GETLONG (drop 2 ci); ciaddr2 = GETLONG (drop 6 ci);
                  nak1 = (ciaddr1 \<noteq> hisaddr wo \<and> (ciaddr1 = 0 \<or> \<not> accept_remote wo))
              in if \<not> nak1 \<and> ciaddr1 = 0 \<and> hisaddr wo = 0
                 then (CI_REJ, ci, (wo\<lparr>req_addr := False\<rparr>, ho))
                 else let ci = (if nak1 \<and> \<not> rej then memcpy_at ci 2 (PUTLONG (hisaddr wo)) 4 else ci);
                          differ = (ciaddr2 \<noteq> ouraddr wo);
                          nak2 = (differ \<and> (ciaddr2 = 0 \<or> \<not> accept_local wo));
                          ci = (if nak2 \<and> \<not> rej then memcpy_at ci 6 (PUTLONG (ouraddr wo)) 4 else ci);
                          wo = (if differ \<and> \<not> nak2 then wo\<lparr>ouraddr := ciaddr2\<rparr> else wo)
                      in (if nak1 \<or> nak2 then CI_NAK else CI_ACK, ci,
                          (wo, ho\<lparr>old_addrs := True, hisaddr := ciaddr1, ouraddr := ciaddr2\<rparr>)))"

definition req_addr_ci :: "ipcp_options \<Rightarrow> bool \<Rightarrow> req_state \<Rightarrow> byte list \<Rightarrow> int \<times> byte list \<times> req_state" where
  "req_addr_ci ao rej st ci =
     (let (wo, ho) = st
      in if \<not> neg_addr ao \<or> old_addrs ho \<or> length ci \<noteq> CILEN_ADDR then (CI_REJ, ci, st)
         else let ciaddr1 = GETLONG (drop 2 ci);
                  ho' = ho\<lparr>neg_addr := True, hisaddr := ciaddr1\<rparr>
              in if ciaddr1 \<noteq> hisaddr wo \<and> (ciaddr1 = 0 \<or> \<not> accept_remote wo)
                 then (CI_NAK, if rej then ci else memcpy_at ci 2 (PUTLONG (hisaddr wo)) 4, (wo, ho'))
                 else if ciaddr1 = 0 \<and> hisaddr wo = 0 then (CI_REJ, ci, (wo\<lparr>req_addr := False\<rparr>, ho))
                 else (CI_ACK, ci, (wo, ho')))"

text \<open>A DNS or WINS request; \<open>a\<close> is the address we offer. The value is overwritten in any case.\<close>

definition req_server :: "u32 \<Rightarrow> req_state \<Rightarrow> byte list \<Rightarrow> int \<times> byte list \<times> req_state" where
  "req_server a st ci =
     (if a = 0 \<or> length ci \<noteq> CILEN_ADDR then (CI_REJ, ci, st)
      else if GETLONG (drop 2 ci) \<noteq> a then (CI_NAK, memcpy_at ci 2 (PUTLONG a) 4, st)
      else (CI_ACK, ci, st))"

definition req_vj :: "ipcp_options \<Rightarrow> bool \<Rightarrow> req_state \<Rightarrow> byte list \<Rightarrow> int \<times> byte list \<times> req_state" where
  "req_vj ao rej st ci =
     (let (wo, ho) = st; cilen = length ci
      in if \<not> neg_vj ao \<or> (cilen \<noteq> CILEN_VJ \<and> cilen \<noteq> CILEN_COMPRESS) then (CI_REJ, ci, st)
         else let cishort = GETSHORT (ci ! 2) (ci ! 3)
              in if \<not> (cishort = IPCP_VJ_COMP \<or> cishort = IPCP_VJ_COMP_OLD \<and> cilen = CILEN_COMPRESS)
                 then (CI_REJ, ci, st)
                 else let ho = ho\<lparr>neg_vj := True, vj_protocol := cishort\<rparr>
                      in if cilen = CILEN_VJ
                         then let slots = unat (ci ! 4); cf = ci ! 5;
                                  nak1 = (slots > maxslotindex ao);
                                  ci = (if nak1 \<and> \<not> rej then ci[4 := of_nat (maxslotindex ao)] else ci);
                                  nak2 = (cf \<noteq> 0 \<and> \<not> cflag ao);
                                  ci = (if nak2 \<and> \<not> rej then ci[5 := of_bool (cflag wo)] else ci)
                              in (if nak1 \<or> nak2 then CI_NAK else CI_ACK, ci,
                                  (wo, ho\<lparr>maxslotindex := slots, cflag := (cf \<noteq> 0)\<rparr>))
                         else (CI_ACK, ci,
                               (wo, ho\<lparr>old_vj := True, maxslotindex := MAX_STATES - 1, cflag := True\<rparr>)))"

definition ipcp_req_ci :: "ipcp_options \<Rightarrow> bool \<Rightarrow> req_state \<Rightarrow> byte list \<Rightarrow> int \<times> byte list \<times> req_state" where
  "ipcp_req_ci ao rej st ci =
     (let citype = ci ! 0
      in if citype = CI_ADDRS then req_addrs ao rej st ci
         else if citype = CI_ADDR then req_addr_ci ao rej st ci
         else if citype = CI_MS_DNS1 then req_server (dnsaddr0 ao) st ci
         else if citype = CI_MS_DNS2 then req_server (dnsaddr1 ao) st ci
         else if citype = CI_MS_WINS1 then req_server (winsaddr0 ao) st ci
         else if citype = CI_MS_WINS2 then req_server (winsaddr1 ao) st ci
         else if citype = CI_COMPRESSTYPE then req_vj ao rej st ci
         else (CI_REJ, ci, st))"

text \<open>After the loop: ask for the address the peer did not send.\<close>

definition ipcp_req_end :: "bool \<Rightarrow> bool \<Rightarrow> (int \<times> byte list) \<times> req_state \<Rightarrow> (int \<times> byte list) \<times> req_state" where
  "ipcp_req_end noremoteip rej r =
     (let ((rc, out), (wo, ho)) = r
      in if rc \<noteq> CI_REJ \<and> \<not> neg_addr ho \<and> \<not> old_addrs ho \<and> req_addr wo \<and> \<not> rej \<and> \<not> noremoteip
         then let (rc, out, wo) = (if rc = CI_ACK then (CI_NAK, [], wo\<lparr>req_addr := False\<rparr>) else (rc, out, wo))
              in ((rc, out @ addr_ci CI_ADDR (hisaddr wo)), (wo, ho))
         else r)"

definition ipcp_Reqci :: "ipcp \<Rightarrow> byte list \<Rightarrow> bool \<Rightarrow> int \<times> byte list \<times> ipcp" where
  "ipcp_Reqci s inp reject_if_disagree =
     (let r = reqci_loop (ipcp_req_ci (allowoptions s) reject_if_disagree) reject_if_disagree inp
                (CI_ACK, []) (wantoptions s, ipcp_options_zero);
          ((rc, out), (wo, ho)) = ipcp_req_end (m_noremoteip s) reject_if_disagree r
      in (rc, out, s\<lparr>wantoptions := wo, hisoptions := ho\<rparr>))"

section \<open>The protocol as a sink of the automaton\<close>

abbreviation upd_sink :: "('k \<Rightarrow> 'k) \<Rightarrow> 'k fsm \<Rightarrow> 'k fsm" where
  "upd_sink u f \<equiv> f\<lparr>f_sink := u (f_sink f)\<rparr>"

definition ipcp_OnDown :: "ipcp \<Rightarrow> ipcp" where
  "ipcp_OnDown s = s\<lparr>ipcp_notices := ipcp_notices s @ [OnIPCPDown]\<rparr>"

definition ipcp_Finished :: "ipcp \<Rightarrow> ipcp" where
  "ipcp_Finished s = s\<lparr>m_ipcp_is_open := False\<rparr>"

text \<open>
  \<^verbatim>\<open>Up\<close> and \<^verbatim>\<open>Starting\<close> call back into the automaton (\<^verbatim>\<open>Close\<close>, \<^verbatim>\<open>LowerUp\<close>), which then uses the other
  callbacks only; \<open>ipcp_base\<close> is the sink those nested calls see.
\<close>

definition ipcp_base :: "ipcp sink" where
  "ipcp_base = \<lparr>
     cb_Resetci = upd_sink ipcp_Resetci,
     cb_Cilen = (\<lambda>f. let (n, s) = ipcp_Cilen (f_sink f) in (n, f\<lparr>f_sink := s\<rparr>)),
     cb_Addci = (\<lambda>f n. let (out, s) = ipcp_Addci (f_sink f) n in (out, f\<lparr>f_sink := s\<rparr>)),
     cb_Ackci = (\<lambda>f p. (ipcp_Ackci (f_sink f) p, f)),
     cb_Nakci = (\<lambda>f p b. let (r, s) = ipcp_Nakci (m_state f) (f_sink f) p b in (r, f\<lparr>f_sink := s\<rparr>)),
     cb_Rejci = (\<lambda>f p. let (r, s) = ipcp_Rejci (m_state f) (f_sink f) p in (r, f\<lparr>f_sink := s\<rparr>)),
     cb_Reqci = (\<lambda>f p b. let (r, out, s) = ipcp_Reqci (f_sink f) p b in (r, out, f\<lparr>f_sink := s\<rparr>)),
     cb_Up = (\<lambda>f. f),
     cb_Down = upd_sink ipcp_OnDown,
     cb_Starting = (\<lambda>f. f),
     cb_Finished = upd_sink ipcp_Finished,
     cb_Retransmit = (\<lambda>f. f),
     cb_ExtCode = (\<lambda>f code pid inp. (False, f))\<rparr>"

definition ipcp_Up_options :: "ipcp \<Rightarrow> ipcp" where
  "ipcp_Up_options s =
     (let ho = hisoptions s
      in if \<not> neg_addr ho \<and> \<not> old_addrs ho
         then s\<lparr>hisoptions := ho\<lparr>hisaddr := hisaddr (wantoptions s)\<rparr>\<rparr> else s)"

text \<open>The reasons \<^verbatim>\<open>Up\<close> closes with, and whether it does.\<close>

definition ascii :: "string \<Rightarrow> byte list" where
  "ascii t = map (\<lambda>c. of_nat (of_char c)) t"

definition ipcp_Up_refuses :: "ipcp \<Rightarrow> byte list option" where
  "ipcp_Up_refuses s =
     (let go = gotoptions s; wo = wantoptions s
      in if \<not> (neg_addr go \<or> old_addrs go) \<and> (neg_addr wo \<or> old_addrs wo) \<and> ouraddr wo \<noteq> 0
         then Some (ascii ''Refused our IP address'')
         else if ouraddr go = 0 then Some (ascii ''Could not determine local IP address'')
         else None)"

definition ipcp_Up :: "ipcp fsm \<Rightarrow> ipcp fsm" where
  "ipcp_Up f =
     (let f = upd_sink ipcp_Up_options f
      in case ipcp_Up_refuses (f_sink f) of
           Some reason \<Rightarrow> the (Close ipcp_base (Some reason) f)
         | None \<Rightarrow> upd_sink (\<lambda>s. s\<lparr>ipcp_notices := ipcp_notices s @ [OnIPCPUp]\<rparr>) f)"

definition ipcp_sink :: "ipcp sink" where
  "ipcp_sink = ipcp_base\<lparr>cb_Up := ipcp_Up, cb_Starting := LowerUp ipcp_base\<rparr>"

section \<open>The operations of the protocol\<close>

definition ipcp_Input :: "byte list \<Rightarrow> ipcp fsm \<Rightarrow> ipcp fsm" where
  "ipcp_Input packet f = Input ipcp_sink packet f"

definition ipcp_Protrej :: "ipcp fsm \<Rightarrow> ipcp fsm" where
  "ipcp_Protrej f = LowerDown ipcp_sink f"

definition ipcp_LowerUp :: "ipcp fsm \<Rightarrow> ipcp fsm" where
  "ipcp_LowerUp f = LowerUp ipcp_sink f"

definition ipcp_LowerDown :: "ipcp fsm \<Rightarrow> ipcp fsm" where
  "ipcp_LowerDown f = LowerDown ipcp_sink f"

definition ipcp_Open :: "ipcp fsm \<Rightarrow> ipcp fsm" where
  "ipcp_Open f = Open ipcp_sink (upd_sink (\<lambda>s. s\<lparr>m_ipcp_is_open := True\<rparr>) f)"

definition ipcp_Close :: "byte list option \<Rightarrow> ipcp fsm \<Rightarrow> ipcp fsm option" where
  "ipcp_Close reason f = Close ipcp_sink reason f"

definition ipcp_SetMyIP :: "u32 \<Rightarrow> ipcp \<Rightarrow> ipcp" where
  "ipcp_SetMyIP a s = s\<lparr>wantoptions := (wantoptions s)\<lparr>ouraddr := a\<rparr>\<rparr>"

definition ipcp_SetSubscriberIP :: "u32 \<Rightarrow> ipcp \<Rightarrow> ipcp" where
  "ipcp_SetSubscriberIP a s = s\<lparr>wantoptions := (wantoptions s)\<lparr>hisaddr := a\<rparr>\<rparr>"

definition ipcp_SetPrimaryDNS :: "u32 \<Rightarrow> ipcp \<Rightarrow> ipcp" where
  "ipcp_SetPrimaryDNS a s = s\<lparr>allowoptions := (allowoptions s)\<lparr>dnsaddr0 := a\<rparr>\<rparr>"

definition ipcp_SetSecondaryDNS :: "u32 \<Rightarrow> ipcp \<Rightarrow> ipcp" where
  "ipcp_SetSecondaryDNS a s = s\<lparr>allowoptions := (allowoptions s)\<lparr>dnsaddr1 := a\<rparr>\<rparr>"

definition ipcp_GetSubscriberIP :: "ipcp \<Rightarrow> u32" where
  "ipcp_GetSubscriberIP s = hisaddr (wantoptions s)"

end
