(* ===== verification/Ppp_Session.thy ===== *)
theory Ppp_Session
  imports Ppp_Auth Ppp_Ipcp
begin

text \<open>
  One PPP session: \<^verbatim>\<open>src/src/PPP/CPPP.cpp\<close>, which owns LCP, the authentication servers and IPCP,
  dispatches the packets to them and takes the session through its phases. The calls it makes of
  its own owner (\<^verbatim>\<open>IPPPSink\<close>) are collected in \<open>ppp_calls\<close>, in their order.

  An operation of a protocol is run first and the calls it made of the session are handled
  after it, in their order (\<open>lcp_run\<close>, \<open>ipcp_run\<close>, \<open>auth_run\<close>). The handlers see what the
  source's see: \<^verbatim>\<open>OnLCPUp\<close>, \<^verbatim>\<open>OnLCPTerminate\<close> and \<^verbatim>\<open>OnIPCPUp\<close> are the last thing the automaton does in an
  event, \<^verbatim>\<open>OnLCPDown\<close> and \<^verbatim>\<open>OnIPCPDown\<close> neither read nor change the protocol that calls them, and no
  call of the authentication servers leads back to them. Addresses are their numbers, as in IPCP.
\<close>

section \<open>State (CPPP.h)\<close>

datatype PPPPhase =
  PHASE_DEAD | PHASE_INITIALIZE | PHASE_ESTABLISH | PHASE_AUTHENTICATE | PHASE_NETWORK | PHASE_TERMINATE

primrec phase_number :: "PPPPhase \<Rightarrow> nat" where
  "phase_number PHASE_DEAD = 0"
| "phase_number PHASE_INITIALIZE = 1"
| "phase_number PHASE_ESTABLISH = 2"
| "phase_number PHASE_AUTHENTICATE = 3"
| "phase_number PHASE_NETWORK = 4"
| "phase_number PHASE_TERMINATE = 5"

lemma phase_number_inject: "phase_number p = phase_number q \<Longrightarrow> p = q"
  by (cases p; cases q) simp_all

instantiation PPPPhase :: linorder
begin

definition less_eq_PPPPhase :: "PPPPhase \<Rightarrow> PPPPhase \<Rightarrow> bool" where
  "less_eq_PPPPhase p q \<longleftrightarrow> phase_number p \<le> phase_number q"

definition less_PPPPhase :: "PPPPhase \<Rightarrow> PPPPhase \<Rightarrow> bool" where
  "less_PPPPhase p q \<longleftrightarrow> phase_number p < phase_number q"

instance
  by standard (auto simp: less_eq_PPPPhase_def less_PPPPhase_def phase_number_inject)

end

record Session_User_Ex =
  auth_type :: u8
  user_name :: "byte list"
  user_ip :: u32
  primary_dns :: u32
  secondary_dns :: u32

datatype sink_call =
    SinkLCPDown "byte list" | OnPPPOutput "byte list" | OnPPPPayload "byte list"
  | OnAuthRequest Auth_Request | OnAddSubscriber Session_User_Ex | OnDelSubscriber

record cppp =
  m_lcp :: "lcp fsm"
  m_pap :: pap
  m_chap :: chap
  m_ipcp :: "ipcp fsm"
  m_bLinkOk :: bool
  m_phase :: PPPPhase
  m_hostName :: "byte list"
  ppp_calls :: "sink_call list"

abbreviation (input) PPP_LCP :: nat where "PPP_LCP \<equiv> 0xc021"
abbreviation (input) PPP_IPCP :: nat where "PPP_IPCP \<equiv> 0x8021"
abbreviation (input) PPP_IP :: nat where "PPP_IP \<equiv> 0x21"
abbreviation (input) SESSION_MGR_MAX_USERNAME_SIZE :: nat where "SESSION_MGR_MAX_USERNAME_SIZE \<equiv> 32"

definition CPPP_new :: "(nat \<Rightarrow> u32) \<Rightarrow> (nat \<Rightarrow> u32) \<Rightarrow> cppp" where
  "CPPP_new lcp_rnd chap_rnd =
     \<lparr>m_lcp = fsm_new (CPPPLCP_new lcp_rnd) PPP_LCP, m_pap = CPapProtocolSvr_new,
      m_chap = CChapProtocolSvr_new chap_rnd, m_ipcp = fsm_new CPPPIPCP_new PPP_IPCP,
      m_bLinkOk = False, m_phase = PHASE_DEAD, m_hostName = ascii ''WFNEX'', ppp_calls = []\<rparr>"

definition ppp_GetAuthType :: "cppp \<Rightarrow> nat" where
  "ppp_GetAuthType s = m_authType (f_sink (m_lcp s))"

definition ppp_SetAuthType :: "nat \<Rightarrow> cppp \<Rightarrow> cppp" where
  "ppp_SetAuthType t s = s\<lparr>m_lcp := upd_sink (lcp_SetAuthType t) (m_lcp s)\<rparr>"

definition ppp_SetHostName :: "byte list \<Rightarrow> cppp \<Rightarrow> cppp" where
  "ppp_SetHostName n s = s\<lparr>m_hostName := n\<rparr>"

definition ppp_Init :: "cppp \<Rightarrow> cppp" where
  "ppp_Init s =
     (let s = s\<lparr>m_lcp := lcp_Init (m_lcp s)\<rparr>;
          s = (if ppp_GetAuthType s = PPP_PAP then s\<lparr>m_pap := pap_Init (m_pap s)\<rparr> else s)
      in s\<lparr>m_ipcp := ipcp_Init (m_ipcp s)\<rparr>)"

definition NewPhase :: "PPPPhase \<Rightarrow> cppp \<Rightarrow> cppp" where
  "NewPhase ph s = s\<lparr>m_phase := ph\<rparr>"

abbreviation call_sink :: "sink_call \<Rightarrow> cppp \<Rightarrow> cppp" where
  "call_sink c s \<equiv> s\<lparr>ppp_calls := ppp_calls s @ [c]\<rparr>"

section \<open>The calls of IPCP\<close>

datatype ipcp_call = IpcpOutput "byte list" | IpcpUp | IpcpDown

text \<open>
  The calls an operation made, from what it added to the log of the automaton: packets, \<^verbatim>\<open>OnIPCPDown\<close>
  with every \<^verbatim>\<open>Down\<close>, and \<^verbatim>\<open>OnIPCPUp\<close> at the end when \<^verbatim>\<open>Up\<close> did not close the layer again.
\<close>

definition ipcp_calls :: "ipcp fsm \<Rightarrow> ipcp fsm \<Rightarrow> ipcp_call list" where
  "ipcp_calls f g =
     concat (map (\<lambda>e. case e of OutPkt p \<Rightarrow> [IpcpOutput p] | CbDown \<Rightarrow> [IpcpDown] | _ \<Rightarrow> [])
       (drop (length (f_log f)) (f_log g))) @
     (if OnIPCPUp \<in> set (drop (length (ipcp_notices (f_sink f))) (ipcp_notices (f_sink g))) then [IpcpUp] else [])"

definition ppp_OnIPCPUp :: "cppp \<Rightarrow> cppp" where
  "ppp_OnIPCPUp s =
     (if ppp_GetAuthType s = PPP_PAP \<or> ppp_GetAuthType s = PPP_CHAP
      then let name = (if ppp_GetAuthType s = PPP_PAP then m_username (m_pap s) else m_chap_username (m_chap s));
               sInfo = \<lparr>auth_type = of_nat (ppp_GetAuthType s),
                        user_name = strncpy (replicate SESSION_MGR_MAX_USERNAME_SIZE 0) name
                          (min (length name) (SESSION_MGR_MAX_USERNAME_SIZE - 1)),
                        user_ip = ipcp_GetSubscriberIP (f_sink (m_ipcp s)),
                        primary_dns = dnsaddr0 (allowoptions (f_sink (m_ipcp s))),
                        secondary_dns = dnsaddr1 (allowoptions (f_sink (m_ipcp s)))\<rparr>
           in call_sink (OnAddSubscriber sInfo) s
      else s)"

definition ppp_OnIPCPDown :: "cppp \<Rightarrow> cppp" where
  "ppp_OnIPCPDown s = call_sink (SinkLCPDown (ascii ''IPCP Down'')) (call_sink OnDelSubscriber s)"

definition ppp_ipcp_call :: "ipcp_call \<Rightarrow> cppp \<Rightarrow> cppp" where
  "ppp_ipcp_call c s =
     (case c of
        IpcpOutput p \<Rightarrow> call_sink (OnPPPOutput p) s
      | IpcpUp \<Rightarrow> ppp_OnIPCPUp s
      | IpcpDown \<Rightarrow> ppp_OnIPCPDown s)"

definition ipcp_run :: "(ipcp fsm \<Rightarrow> ipcp fsm) \<Rightarrow> cppp \<Rightarrow> cppp" where
  "ipcp_run g s =
     fold ppp_ipcp_call (ipcp_calls (m_ipcp s) (g (m_ipcp s))) (s\<lparr>m_ipcp := g (m_ipcp s)\<rparr>)"

section \<open>The calls of LCP and of the authentication servers\<close>

datatype lcp_call = LcpOutput "byte list" | LcpUp | LcpDown | LcpTerminate

definition lcp_calls :: "lcp fsm \<Rightarrow> lcp fsm \<Rightarrow> lcp_call list" where
  "lcp_calls f g =
     concat (map (\<lambda>e. case e of OutPkt p \<Rightarrow> [LcpOutput p] | CbDown \<Rightarrow> [LcpDown] | CbFinished \<Rightarrow> [LcpTerminate] | _ \<Rightarrow> [])
       (drop (length (f_log f)) (f_log g))) @
     (if OnLCPUp \<in> set (drop (length (lcp_notices (f_sink f))) (lcp_notices (f_sink g))) then [LcpUp] else [])"

definition ppp_OnLCPDown :: "cppp \<Rightarrow> cppp" where
  "ppp_OnLCPDown s =
     (let s = ipcp_run ipcp_LowerDown s;
          s = ipcp_run (\<lambda>f. the (ipcp_Close (Some (ascii ''LCP down'')) f)) s;
          s = (if m_phase s \<noteq> PHASE_DEAD then NewPhase PHASE_ESTABLISH s else s)
      in call_sink (SinkLCPDown (ascii ''LCP Down'')) s)"

text \<open>
  The handlers below that call LCP take the function that runs an operation of LCP as an argument;
  \<open>lcp_run\<close> ties the knot. An operation called by a handler makes calls of its own (\<^verbatim>\<open>Close\<close> takes the
  layer down), so \<open>lcp_run\<close> carries how deep calls may still nest: \<open>lcp_depth\<close>, which is enough since
  an operation called by a handler never calls \<^verbatim>\<open>OnLCPUp\<close> or \<^verbatim>\<open>OnLCPTerminate\<close> (\<open>lcp_run_depth\<close>).
\<close>

type_synonym lcp_runner = "(lcp fsm \<Rightarrow> lcp fsm) \<Rightarrow> cppp \<Rightarrow> cppp"

abbreviation close_lcp :: "byte list \<Rightarrow> lcp fsm \<Rightarrow> lcp fsm" where
  "close_lcp reason f \<equiv> the (lcp_Close (Some reason) f)"

definition ppp_OnAuthenResult :: "lcp_runner \<Rightarrow> bool \<Rightarrow> nat \<Rightarrow> cppp \<Rightarrow> cppp" where
  "ppp_OnAuthenResult run result protocol s =
     (if result then ipcp_run ipcp_Open (NewPhase PHASE_NETWORK s)
      else let reason = (if protocol = PPP_PAP then ascii ''Pap '' else if protocol = PPP_CHAP then ascii ''Chap ''
                         else ascii ''Unkown Protocol '') @ ascii ''authentication failed''
           in run (close_lcp reason) (NewPhase PHASE_TERMINATE s))"

definition ppp_auth_call :: "lcp_runner \<Rightarrow> auth_call \<Rightarrow> cppp \<Rightarrow> cppp" where
  "ppp_auth_call run c s =
     (case c of
        SendAuthRequest2AM r \<Rightarrow> call_sink (OnAuthRequest r) s
      | OnAuthenOutput p \<Rightarrow> call_sink (OnPPPOutput p) s
      | OnAuthenResult result protocol \<Rightarrow> ppp_OnAuthenResult run result protocol s)"

definition pap_run :: "lcp_runner \<Rightarrow> (pap \<Rightarrow> auth_call list \<times> pap) \<Rightarrow> cppp \<Rightarrow> cppp" where
  "pap_run run g s = (let (calls, p) = g (m_pap s) in fold (ppp_auth_call run) calls (s\<lparr>m_pap := p\<rparr>))"

definition chap_run :: "lcp_runner \<Rightarrow> (chap \<Rightarrow> auth_call list \<times> chap) \<Rightarrow> cppp \<Rightarrow> cppp" where
  "chap_run run g s = (let (calls, c) = g (m_chap s) in fold (ppp_auth_call run) calls (s\<lparr>m_chap := c\<rparr>))"

definition ppp_OnLCPUp :: "lcp_runner \<Rightarrow> cppp \<Rightarrow> cppp" where
  "ppp_OnLCPUp run s =
     (let s = (if ppp_GetAuthType s = PPP_CHAP then chap_run run chap_LowerUp s
               else if ppp_GetAuthType s = PPP_PAP then s\<lparr>m_pap := pap_LowerUp (m_pap s)\<rparr> else s);
          go = m_lcp_gotoptions (f_sink (m_lcp s))
      in if \<not> (neg_upap go \<or> neg_chap go) then run (close_lcp (ascii ''peer refused to authenticate'')) s
         else let s = NewPhase PHASE_AUTHENTICATE s
              in if neg_chap go then chap_run run (chap_auth_peer (m_hostName s)) s else s)"

definition ppp_OnLCPTerminate :: "lcp_runner \<Rightarrow> cppp \<Rightarrow> cppp" where
  "ppp_OnLCPTerminate run s =
     (if m_phase s = PHASE_DEAD then s
      else call_sink (SinkLCPDown (ascii ''LCP Terminate'')) (NewPhase PHASE_DEAD (run lcp_LowerDown s)))"

definition ppp_lcp_call :: "lcp_runner \<Rightarrow> lcp_call \<Rightarrow> cppp \<Rightarrow> cppp" where
  "ppp_lcp_call run c s =
     (case c of
        LcpOutput p \<Rightarrow> call_sink (OnPPPOutput p) s
      | LcpUp \<Rightarrow> ppp_OnLCPUp run s
      | LcpDown \<Rightarrow> ppp_OnLCPDown s
      | LcpTerminate \<Rightarrow> ppp_OnLCPTerminate run s)"

primrec lcp_run :: "nat \<Rightarrow> (lcp fsm \<Rightarrow> lcp fsm) \<Rightarrow> cppp \<Rightarrow> cppp" where
  "lcp_run 0 g s = s\<lparr>m_lcp := g (m_lcp s)\<rparr>"
| "lcp_run (Suc n) g s =
     fold (ppp_lcp_call (lcp_run n)) (lcp_calls (m_lcp s) (g (m_lcp s))) (s\<lparr>m_lcp := g (m_lcp s)\<rparr>)"

definition lcp_depth :: nat where
  "lcp_depth = 2"

section \<open>The operations of the session\<close>

definition ppp_StartFms :: "cppp \<Rightarrow> cppp" where
  "ppp_StartFms s = lcp_run lcp_depth lcp_Open s"

definition ppp_OnAuthResponse :: "int \<Rightarrow> byte list \<Rightarrow> cppp \<Rightarrow> cppp" where
  "ppp_OnAuthResponse result reason s =
     (if ppp_GetAuthType s = PPP_CHAP
      then chap_run (lcp_run lcp_depth) (chap_ResponseAuthenResult result reason) s
      else if ppp_GetAuthType s = PPP_PAP
      then pap_run (lcp_run lcp_depth) (pap_ResponseAuthenResult result reason) s
      else s)"

text \<open>The protocol a packet is for, and what follows its header.\<close>

definition ppp_header :: "byte list \<Rightarrow> nat \<times> byte list" where
  "ppp_header packet =
     (if packet ! 0 = 0xff \<and> packet ! 1 = 0x03 then (GETSHORT (packet ! 2) (packet ! 3), drop 4 packet)
      else (GETSHORT (packet ! 0) (packet ! 1), drop 2 packet))"

text \<open>
  \<^verbatim>\<open>Input\<close>. A packet of an unknown protocol is returned in a Protocol-Reject, from \<^verbatim>\<open>PPP_HDRLEN\<close> before
  its data; the branch without address and control field, which would begin before the packet,
  is not entered since \<^verbatim>\<open>CSession::ProcessSessData\<close> puts these two bytes in front of every packet.
\<close>

definition ppp_Input :: "byte list \<Rightarrow> cppp \<Rightarrow> cppp" where
  "ppp_Input packet s =
     (if length packet < PPP_HDRLEN then s
      else let (protocol, p) = ppp_header packet
           in if protocol \<noteq> PPP_LCP \<and> m_state (m_lcp s) \<noteq> OPENED then s
              else if m_phase s \<le> PHASE_AUTHENTICATE \<and>
                \<not> (protocol = PPP_LCP \<or> protocol = PPP_LQR \<or> protocol = PPP_PAP \<or> protocol = PPP_CHAP \<or>
                   protocol = PPP_EAP) then s
              else if protocol = PPP_LCP then lcp_run lcp_depth (lcp_Input p) s
              else if protocol = PPP_IPCP then ipcp_run (ipcp_Input p) s
              else if protocol = PPP_PAP then pap_run (lcp_run lcp_depth) (pap_Input p) s
              else if protocol = PPP_CHAP then chap_run (lcp_run lcp_depth) (chap_Input p) s
              else if protocol = PPP_IP then call_sink (OnPPPPayload p) s
              else lcp_run lcp_depth (SendProtRej packet) s)"

end
