(* ===== verification/Ppp_Lcp_Spec.thy ===== *)
theory Ppp_Lcp_Spec
  imports Ppp_Lcp "HOL-Library.Sublist"
begin

text \<open>
  Correctness of the LCP option negotiation: our request and its acknowledgement, and the answers to
  the peer's request, with the bounds of the buffer the Nak is built in.
\<close>

section \<open>Our request and its acknowledgement\<close>

definition lcp_opts_wf :: "lcp_options \<Rightarrow> bool" where
  "lcp_opts_wf go \<longleftrightarrow> mru go < 65536 \<and> mrru go < 65536"

lemma ACKCI_iff:
  assumes "length v + 2 = n" and "n < 256"
    and ok: "\<And>q. length v \<le> length q \<Longrightarrow> ok q \<longleftrightarrow> take (length v) q = v"
  shows "ACKCI n opt neg ok p = Some r \<longleftrightarrow> p = (if neg then [opt, of_nat n] @ v else []) @ r"
proof (cases "neg \<and> n \<le> length p")
  case True
  have p: "p = [p ! 0, p ! 1] @ drop 2 p"
    using True assms(1) by (cases p; cases "tl p") auto
  have "unat (p ! 1) = n \<longleftrightarrow> p ! 1 = of_nat n"
    using assms(2) by (metis byte_eq_of_nat)
  moreover have "drop n p = drop (length v) (drop 2 p)" using assms(1) by (simp add: add.commute)
  moreover have "drop 2 p = v @ r \<longleftrightarrow> take (length v) (drop 2 p) = v \<and> drop (length v) (drop 2 p) = r"
    by (metis append_eq_conv_conj append_take_drop_id)
  moreover have "ok (drop 2 p) \<longleftrightarrow> take (length v) (drop 2 p) = v" using True assms(1) by (intro ok) auto
  moreover have "p = [opt, of_nat n] @ v @ r \<longleftrightarrow> p ! 0 = opt \<and> p ! 1 = of_nat n \<and> drop 2 p = v @ r"
    by (subst p) auto
  moreover have "ACKCI n opt neg ok p = Some r \<longleftrightarrow> unat (p ! 1) = n \<and> p ! 0 = opt \<and> ok (drop 2 p) \<and> drop n p = r"
    using True by (auto simp: ACKCI_def)
  moreover have "(if neg then [opt, of_nat n] @ v else []) @ r = [opt, of_nat n] @ v @ r" using True by simp
  ultimately show ?thesis by metis
next
  case False
  have "p = [opt, of_nat n] @ v @ r \<Longrightarrow> n \<le> length p" using assms(1) by (auto dest: arg_cong [of _ _ length])
  then show ?thesis using False by (cases neg) (auto simp: ACKCI_def)
qed

lemma take2_nth: "2 \<le> length q \<Longrightarrow> take 2 q = [q ! 0, q ! 1]"
  by (cases q; cases "tl q") auto

lemma is_short_iff: "val < 65536 \<Longrightarrow> 2 \<le> length q \<Longrightarrow> is_short val q \<longleftrightarrow> take (length (PUTSHORT val)) q = PUTSHORT val"
  using GETSHORT_eq_iff [of val "q ! 0" "q ! 1"] by (simp add: is_short_def take2_nth)

lemma is_long_iff: "4 \<le> length q \<Longrightarrow> is_long val q \<longleftrightarrow> take (length (PUTLONG val)) q = PUTLONG val"
  by (simp add: is_long_def GETLONG_eq_iff)

lemma is_chap_iff:
  assumes "3 \<le> length q"
  shows "is_chap val q \<longleftrightarrow> take (length (PUTSHORT PPP_CHAP @ [CHAP_DIGEST val])) q = PUTSHORT PPP_CHAP @ [CHAP_DIGEST val]"
proof -
  have "take 3 q = take 2 q @ [q ! 2]" using assms take_Suc_conv_app_nth [of 2 q] by (simp add: numeral_eq_Suc)
  then show ?thesis
    using is_short_iff [of PPP_CHAP q] assms by (simp add: is_chap_def is_short_def)
qed

lemma is_lqr_iff:
  assumes "6 \<le> length q"
  shows "is_lqr val q \<longleftrightarrow> take (length (PUTSHORT PPP_LQR @ PUTLONG val)) q = PUTSHORT PPP_LQR @ PUTLONG val"
proof -
  have "take 6 q = take 2 q @ take 4 (drop 2 q)" using take_add [of 2 4 q] by simp
  then show ?thesis
    using is_short_iff [of PPP_LQR q] is_long_iff [of "drop 2 q" val] assms by (simp add: is_lqr_def is_short_def is_long_def)
qed

lemma is_char_iff: "1 \<le> length q \<Longrightarrow> is_char val q \<longleftrightarrow> take (length [val]) q = [val]"
  by (cases q) (auto simp: is_char_def)

lemma ACK_options:
  "val < 65536 \<Longrightarrow> ACKCI CILEN_SHORT opt neg (is_short val) p = Some r \<longleftrightarrow> p = ADDCISHORT opt neg val @ r"
  "ACKCI CILEN_LONG opt neg (is_long lval) p = Some r \<longleftrightarrow> p = ADDCILONG opt neg lval @ r"
  "ACKCI CILEN_CHAP opt neg (is_chap bval) p = Some r \<longleftrightarrow> p = ADDCICHAP opt neg bval @ r"
  "ACKCI CILEN_LQR opt neg (is_lqr lval) p = Some r \<longleftrightarrow> p = ADDCILQR opt neg lval @ r"
  "ACKCI CILEN_CHAR opt neg (is_char bval) p = Some r \<longleftrightarrow> p = ADDCICHAR opt neg bval @ r"
  "ACKCI CILEN_VOID opt neg (\<lambda>_. True) p = Some r \<longleftrightarrow> p = ADDCIVOID opt neg @ r"
proof -
  show "val < 65536 \<Longrightarrow> ACKCI CILEN_SHORT opt neg (is_short val) p = Some r \<longleftrightarrow> p = ADDCISHORT opt neg val @ r"
    using ACKCI_iff [of "PUTSHORT val" 4 "is_short val"] is_short_iff [of val] by (simp add: ADDCISHORT_def)
  show "ACKCI CILEN_LONG opt neg (is_long lval) p = Some r \<longleftrightarrow> p = ADDCILONG opt neg lval @ r"
    using ACKCI_iff [of "PUTLONG lval" 6 "is_long lval"] is_long_iff [of _ lval] by (simp add: ADDCILONG_def)
  show "ACKCI CILEN_CHAP opt neg (is_chap bval) p = Some r \<longleftrightarrow> p = ADDCICHAP opt neg bval @ r"
    using ACKCI_iff [of "PUTSHORT PPP_CHAP @ [CHAP_DIGEST bval]" 5 "is_chap bval"] is_chap_iff [of _ bval]
    by (simp add: ADDCICHAP_def)
  show "ACKCI CILEN_LQR opt neg (is_lqr lval) p = Some r \<longleftrightarrow> p = ADDCILQR opt neg lval @ r"
    using ACKCI_iff [of "PUTSHORT PPP_LQR @ PUTLONG lval" 8 "is_lqr lval"] is_lqr_iff [of _ lval]
    by (simp add: ADDCILQR_def)
  show "ACKCI CILEN_CHAR opt neg (is_char bval) p = Some r \<longleftrightarrow> p = ADDCICHAR opt neg bval @ r"
    using ACKCI_iff [of "[bval]" 3 "is_char bval"] is_char_iff [of _ bval] by (simp add: ADDCICHAR_def)
  show "ACKCI CILEN_VOID opt neg (\<lambda>_. True) p = Some r \<longleftrightarrow> p = ADDCIVOID opt neg @ r"
    using ACKCI_iff [of "[]" 2 "\<lambda>_. True"] by (simp add: ADDCIVOID_def)
qed

text \<open>
  The request LCP sends has exactly the length \<^verbatim>\<open>Cilen\<close> announces, and \<^verbatim>\<open>Ackci\<close> accepts a
  Configure-Ack exactly when it repeats that request byte by byte.
\<close>

theorem lcp_request_ack:
  assumes "lcp_opts_wf (m_lcp_gotoptions s)"
  shows "length (lcp_Addci s) = lcp_Cilen s \<and> (\<forall>ack. lcp_Ackci s ack \<longleftrightarrow> ack = lcp_Addci s)"
proof -
  let ?go = "m_lcp_gotoptions s"
  have l: "length (lcp_Addci s) = lcp_Cilen s"
    by (simp add: lcp_Addci_def lcp_Cilen_def Let_def ADDCISHORT_def ADDCILONG_def ADDCICHAP_def ADDCILQR_def
        ADDCICHAR_def ADDCIVOID_def)
  have w: "mru ?go < 65536" "mrru ?go < 65536" using assms by (simp_all add: lcp_opts_wf_def)
  note a = ACK_options(1) [OF w(1)] ACK_options(1) [OF w(2)] ACK_options(1) [of PPP_EAP, simplified]
    ACK_options(1) [of PPP_PAP, simplified] ACK_options(2-6)
  have split: "(case x of None \<Rightarrow> False | Some r \<Rightarrow> r = []) \<longleftrightarrow> x = Some []" for x :: "byte list option"
    by (cases x) auto
  have "lcp_Ackci s ack \<longleftrightarrow> ack = lcp_Addci s" for ack
    unfolding lcp_Ackci_def lcp_Addci_def Let_def split Option.bind_eq_Some_conv a by auto
  with l show ?thesis by blast
qed

definition demo_lcp :: lcp where
  "demo_lcp = lcp_Resetci (f_sink (lcp_Init (fsm_new (CPPPLCP_new (\<lambda>_. 0x11223344)) 0xC021)))"

lemmas demo_lcp_defs = demo_lcp_def lcp_Resetci_def lcp_Init_def Init_def fsm_new_def CPPPLCP_new_def
  lcp_auth_options_def lcp_options_zero_def magic_def Let_def

lemma demo_lcp_options:
  "m_lcp_allowoptions demo_lcp = lcp_options_zero\<lparr>neg_mru := True, mru := 1492, neg_asyncmap := True, neg_upap := True,
     neg_magicnumber := True\<rparr>"
  "m_lcp_gotoptions demo_lcp = lcp_options_zero\<lparr>neg_mru := True, mru := 1492, neg_upap := True, neg_magicnumber := True,
     magicnumber := 0x11223344\<rparr>"
  by (simp_all add: demo_lcp_defs)

lemmas demo_req_simps = lcp_Reqci_def lcp_req_loop.simps bad_ci_def lcp_req_ci_def req_mru_def req_magicnumber_def
  lcp_merge_def demo_lcp_options lcp_options_zero_def GETSHORT_def GETLONG_def nak_short_def PUTSHORT_def

lemma demo_lcp_request: "lcp_Addci demo_lcp = [1, 4, 5, 212, 3, 4, 0xc0, 0x23, 5, 6, 0x11, 0x22, 0x33, 0x44]"
  by (simp add: lcp_Addci_def demo_lcp_defs ADDCISHORT_def ADDCILONG_def ADDCICHAP_def ADDCILQR_def ADDCICHAR_def
      ADDCIVOID_def want_mru_def want_asyncmap_def want_chap_def want_upap_def PUTSHORT_def PUTLONG_def)

theorem lcp_request_ack_witness:
  "lcp_Addci demo_lcp = [1, 4, 5, 212, 3, 4, 0xc0, 0x23, 5, 6, 0x11, 0x22, 0x33, 0x44] \<and> lcp_Cilen demo_lcp = 14 \<and>
   lcp_Ackci demo_lcp [1, 4, 5, 212, 3, 4, 0xc0, 0x23, 5, 6, 0x11, 0x22, 0x33, 0x44]"
proof -
  have wf: "lcp_opts_wf (m_lcp_gotoptions demo_lcp)" by (simp add: lcp_opts_wf_def demo_lcp_defs)
  show ?thesis using lcp_request_ack [OF wf] demo_lcp_request by simp
qed

section \<open>The peer's request, option by option\<close>

definition lcp_step :: "lcp_options \<Rightarrow> lcp_options \<Rightarrow> bool \<Rightarrow> byte list \<Rightarrow> lcp_answer \<times> lcp_req \<Rightarrow> lcp_answer \<times> lcp_req" where
  "lcp_step ao go rej ci x =
     (if bad_ci ci then (lcp_merge rej False CI_REJ [] ci (fst x), snd x)
      else let (orc, nak, st) = lcp_req_ci ao go (snd x) ci
           in (lcp_merge rej (ci ! 0 = CI_MAGICNUMBER) orc nak ci (fst x), st))"

lemma lcp_req_loop_fold: "lcp_req_loop ao go rej p a st = fold (lcp_step ao go rej) (cis p) (a, st)"
proof (induction p arbitrary: a st rule: cis.induct)
  case (1 p)
  show ?case
  proof (cases "p = [] \<or> bad_ci p")
    case True
    then show ?thesis by (subst lcp_req_loop.simps, subst cis.simps) (auto simp: lcp_step_def)
  next
    case False
    let ?n = "unat (p ! 1)"
    have g: "\<not> bad_ci (take ?n p)" using False good_ci_take by blast
    have z: "take ?n p ! 0 = p ! 0" using False by (simp add: bad_ci_def)
    obtain orc nak st' where c: "lcp_req_ci ao go st (take ?n p) = (orc, nak, st')"
      by (cases "lcp_req_ci ao go st (take ?n p)")
    let ?a = "lcp_merge rej (p ! 0 = CI_MAGICNUMBER) orc nak (take ?n p) a"
    have "lcp_req_loop ao go rej p a st = lcp_req_loop ao go rej (drop ?n p) ?a st'"
      using False c by (subst lcp_req_loop.simps) (simp add: Let_def)
    also have "\<dots> = fold (lcp_step ao go rej) (cis (drop ?n p)) (?a, st')" using 1 False by blast
    also have "(?a, st') = lcp_step ao go rej (take ?n p) (a, st)" using c g z by (simp add: lcp_step_def)
    also have "fold (lcp_step ao go rej) (cis (drop ?n p)) \<dots> = fold (lcp_step ao go rej) (cis p) (a, st)"
      using False by (subst (2) cis.simps) simp
    finally show ?thesis .
  qed
qed

text \<open>A verdict other than Nak puts nothing into the Nak buffer.\<close>

definition legal_verdict :: "int \<times> byte list \<times> lcp_req \<Rightarrow> bool" where
  "legal_verdict r \<longleftrightarrow> (case r of (orc, nak, st) \<Rightarrow> orc = CI_NAK \<or> (orc = CI_ACK \<or> orc = CI_REJ) \<and> nak = [])"

lemma lcp_verdicts:
  "legal_verdict (req_mru ao st ci)" "legal_verdict (req_asyncmap ao st ci)" "legal_verdict (req_pap ao st ci)"
  "legal_verdict (req_chap ao st ci)" "legal_verdict (req_eap ao st ci)" "legal_verdict (req_quality ao st ci)"
  "legal_verdict (req_magicnumber ao go st ci)"
  by (simp_all add: legal_verdict_def req_mru_def req_asyncmap_def req_pap_def req_chap_def req_eap_def
      req_quality_def req_magicnumber_def Let_def case_prod_beta)

lemma lcp_req_ci_verdict: "legal_verdict (lcp_req_ci ao go st ci)"
proof -
  have "legal_verdict (req_authtype ao st ci)"
    by (auto simp: req_authtype_def lcp_verdicts Let_def) (simp_all add: legal_verdict_def)
  moreover have "legal_verdict (CI_REJ, [], x)" "legal_verdict (CI_ACK, [], x)" for x by (simp_all add: legal_verdict_def)
  ultimately show ?thesis by (auto simp: lcp_req_ci_def lcp_verdicts Let_def split: prod.split)
qed

lemma lcp_req_ci_cases:
  "fst (lcp_req_ci ao go st ci) = CI_NAK \<or>
   (fst (lcp_req_ci ao go st ci) = CI_ACK \<or> fst (lcp_req_ci ao go st ci) = CI_REJ) \<and> fst (snd (lcp_req_ci ao go st ci)) = []"
  using lcp_req_ci_verdict [of ao go st ci] by (simp add: legal_verdict_def case_prod_beta)

lemma lcp_step_ack:
  assumes "la_rc (fst (lcp_step ao go rej ci x)) = CI_ACK"
  shows "la_rc (fst x) = CI_ACK" "\<not> bad_ci ci" "fst (lcp_req_ci ao go (snd x) ci) = CI_ACK"
    "snd (lcp_step ao go rej ci x) = snd (snd (lcp_req_ci ao go (snd x) ci))"
  using assms lcp_req_ci_cases [of ao go "snd x" ci]
  by (auto simp: lcp_step_def lcp_merge_def Let_def case_prod_beta split: if_splits)

lemma lcp_fold_rc: "la_rc (fst (fold (lcp_step ao go rej) xs x)) = CI_ACK \<Longrightarrow> la_rc (fst x) = CI_ACK"
proof (induction xs arbitrary: x)
  case (Cons ci xs)
  then show ?case using lcp_step_ack(1) [of ao go rej ci x] by simp
qed simp

text \<open>What the peer was granted stays within what is allowed, and differs from our magic number.\<close>

definition lcp_granted :: "lcp_options \<Rightarrow> lcp_options \<Rightarrow> lcp_options \<Rightarrow> bool" where
  "lcp_granted ao go ho \<longleftrightarrow>
     (neg_mru ho \<longrightarrow> neg_mru ao \<and> MINMRU \<le> mru ho) \<and>
     (neg_asyncmap ho \<longrightarrow> neg_asyncmap ao \<and> asyncmap ao AND NOT (asyncmap ho) = 0) \<and>
     (neg_upap ho \<longrightarrow> neg_upap ao \<and> \<not> neg_chap ho \<and> \<not> neg_eap ho) \<and>
     (neg_chap ho \<longrightarrow> neg_chap ao \<and> \<not> neg_eap ho \<and> chap_mdtype ho AND chap_mdtype ao \<noteq> 0) \<and>
     (neg_eap ho \<longrightarrow> neg_eap ao) \<and>
     (neg_magicnumber ho \<and> neg_magicnumber go \<longrightarrow> magicnumber ho \<noteq> magicnumber go) \<and>
     (neg_pcompression ho \<longrightarrow> neg_pcompression ao) \<and> (neg_accompression ho \<longrightarrow> neg_accompression ao)"

definition lcp_recorded :: "lcp_options \<Rightarrow> byte list \<Rightarrow> bool" where
  "lcp_recorded ho ci \<longleftrightarrow> ci ! 0 \<in> {1, 2, 3, 4, 5, 7, 8} \<and>
     (ci ! 0 = CI_MRU \<longrightarrow> neg_mru ho) \<and> (ci ! 0 = CI_ASYNCMAP \<longrightarrow> neg_asyncmap ho) \<and>
     (ci ! 0 = CI_AUTHTYPE \<longrightarrow> neg_upap ho \<or> neg_chap ho \<or> neg_eap ho) \<and>
     (ci ! 0 = CI_MAGICNUMBER \<longrightarrow> neg_magicnumber ho) \<and> (ci ! 0 = CI_PCOMPRESSION \<longrightarrow> neg_pcompression ho) \<and>
     (ci ! 0 = CI_ACCOMPRESSION \<longrightarrow> neg_accompression ho)"

lemma CHAP_digest_common: "CHAP_CANDIGEST m d \<Longrightarrow> CHAP_MDTYPE_D d AND m \<noteq> 0"
  by (auto simp: CHAP_CANDIGEST_def CHAP_MDTYPE_D_def and.commute split: if_splits)

definition ack_keeps :: "lcp_options \<Rightarrow> lcp_options \<Rightarrow> lcp_req \<Rightarrow> byte list \<Rightarrow> int \<times> byte list \<times> lcp_req \<Rightarrow> bool" where
  "ack_keeps ao go st ci r \<longleftrightarrow> (fst r = CI_ACK \<longrightarrow>
     (let (ho, s) = st; (ho', s') = snd (snd r)
      in s' = s \<and> (lcp_granted ao go ho \<longrightarrow> lcp_granted ao go ho') \<and> lcp_recorded ho' ci \<and>
         (\<forall>c. lcp_recorded ho c \<longrightarrow> lcp_recorded ho' c)))"

lemmas keeps_simps = ack_keeps_def lcp_granted_def lcp_recorded_def Let_def case_prod_beta

lemma ack_keeps_mru: "ci ! 0 = CI_MRU \<Longrightarrow> ack_keeps ao go st ci (req_mru ao st ci)"
  by (simp add: keeps_simps req_mru_def)

lemma ack_keeps_asyncmap: "ci ! 0 = CI_ASYNCMAP \<Longrightarrow> ack_keeps ao go st ci (req_asyncmap ao st ci)"
  by (simp add: keeps_simps req_asyncmap_def)

lemma ack_keeps_pap: "ci ! 0 = CI_AUTHTYPE \<Longrightarrow> ack_keeps ao go st ci (req_pap ao st ci)"
  by (simp add: keeps_simps req_pap_def)

lemma ack_keeps_chap: "ci ! 0 = CI_AUTHTYPE \<Longrightarrow> ack_keeps ao go st ci (req_chap ao st ci)"
  by (simp add: keeps_simps req_chap_def CHAP_digest_common)

lemma ack_keeps_eap: "ci ! 0 = CI_AUTHTYPE \<Longrightarrow> ack_keeps ao go st ci (req_eap ao st ci)"
  by (simp add: keeps_simps req_eap_def)

lemma ack_keeps_quality: "ci ! 0 = CI_QUALITY \<Longrightarrow> ack_keeps ao go st ci (req_quality ao st ci)"
  by (simp add: keeps_simps req_quality_def)

lemma ack_keeps_magic: "ci ! 0 = CI_MAGICNUMBER \<Longrightarrow> ack_keeps ao go st ci (req_magicnumber ao go st ci)"
  by (simp add: keeps_simps req_magicnumber_def)

lemma ack_keeps_other: "fst r \<noteq> CI_ACK \<Longrightarrow> ack_keeps ao go st ci r"
  by (simp add: ack_keeps_def)

lemma ack_keeps_authtype: "ci ! 0 = CI_AUTHTYPE \<Longrightarrow> ack_keeps ao go st ci (req_authtype ao st ci)"
  by (simp add: req_authtype_def ack_keeps_pap ack_keeps_chap ack_keeps_eap ack_keeps_other Let_def)

lemma ack_keeps_void:
  "ci ! 0 = CI_PCOMPRESSION \<Longrightarrow> neg_pcompression ao \<Longrightarrow>
     ack_keeps ao go (ho, s) ci (CI_ACK, [], (ho\<lparr>neg_pcompression := True\<rparr>, s))"
  "ci ! 0 = CI_ACCOMPRESSION \<Longrightarrow> neg_accompression ao \<Longrightarrow>
     ack_keeps ao go (ho, s) ci (CI_ACK, [], (ho\<lparr>neg_accompression := True\<rparr>, s))"
  by (simp_all add: keeps_simps)

lemma lcp_req_ci_keeps: "ack_keeps ao go st ci (lcp_req_ci ao go st ci)"
  by (cases st) (simp add: lcp_req_ci_def ack_keeps_mru ack_keeps_asyncmap ack_keeps_authtype ack_keeps_quality
      ack_keeps_magic ack_keeps_other ack_keeps_void Let_def)

lemma lcp_fold_ack:
  assumes "la_rc (fst (fold (lcp_step ao go rej) xs (a, (ho, s)))) = CI_ACK" and "lcp_granted ao go ho"
  shows "\<exists>ho'. snd (fold (lcp_step ao go rej) xs (a, (ho, s))) = (ho', s) \<and> lcp_granted ao go ho' \<and>
    (\<forall>ci \<in> set xs. \<not> bad_ci ci \<and> lcp_recorded ho' ci) \<and> (\<forall>c. lcp_recorded ho c \<longrightarrow> lcp_recorded ho' c)"
  using assms
proof (induction xs arbitrary: a ho)
  case (Cons ci xs)
  let ?y = "lcp_step ao go rej ci (a, (ho, s))"
  have h: "la_rc (fst (fold (lcp_step ao go rej) xs ?y)) = CI_ACK" using Cons.prems(1) by simp
  note y = lcp_step_ack [OF lcp_fold_rc [OF h], simplified]
  obtain ho1 s1 where st: "snd ?y = (ho1, s1)" by (cases "snd ?y")
  have k: "s1 = s" "lcp_granted ao go ho1" "lcp_recorded ho1 ci" "\<forall>c. lcp_recorded ho c \<longrightarrow> lcp_recorded ho1 c"
    using lcp_req_ci_keeps [of ao go "(ho, s)" ci] y(3,4) st Cons.prems(2) by (auto simp: ack_keeps_def)
  have e: "?y = (fst ?y, (ho1, s))" using st k(1) by (simp add: prod_eq_iff)
  obtain ho2 where "snd (fold (lcp_step ao go rej) xs ?y) = (ho2, s)" "lcp_granted ao go ho2"
      "\<forall>ci \<in> set xs. \<not> bad_ci ci \<and> lcp_recorded ho2 ci" "\<forall>c. lcp_recorded ho1 c \<longrightarrow> lcp_recorded ho2 c"
    using Cons.IH [of "fst ?y" ho1] h e k(2) by metis
  then show ?case using k y(2) by auto
qed simp

lemma lcp_Reqci_fold:
  assumes "lcp_Reqci s inp rej = (rc, out, s')"
  obtains a ho t where "fold (lcp_step (m_lcp_allowoptions s) (m_lcp_gotoptions s) rej) (cis inp)
      (\<lparr>la_rc = CI_ACK, la_nak = [], la_rej = []\<rparr>, (lcp_options_zero, s)) = (a, (ho, t))"
    "rc = la_rc a" "out = (if rc = CI_ACK then inp else if rc = CI_NAK then la_nak a else la_rej a)"
    "s' = t\<lparr>m_lcp_hisoptions := ho\<rparr>"
  using assms by (auto simp: lcp_Reqci_def lcp_req_loop_fold Let_def split: prod.splits)



text \<open>A rejection lists options of the request; so does what was collected at \<^verbatim>\<open>rejp\<close> before.\<close>

lemma lcp_fold_rej: "\<exists>ys. subseq ys xs \<and>
  la_rej (fst (fold (lcp_step ao go rej) xs x)) = la_rej (fst x) @ concat ys"
proof (induction xs arbitrary: x)
  case Nil
  show ?case by (intro exI [of _ "[]"]) simp
next
  case (Cons ci xs)
  obtain ys where y: "subseq ys xs" "la_rej (fst (fold (lcp_step ao go rej) xs (lcp_step ao go rej ci x))) =
      la_rej (fst (lcp_step ao go rej ci x)) @ concat ys" using Cons by blast
  have "la_rej (fst (lcp_step ao go rej ci x)) = la_rej (fst x) \<or>
      la_rej (fst (lcp_step ao go rej ci x)) = la_rej (fst x) @ ci"
    by (auto simp: lcp_step_def lcp_merge_def Let_def case_prod_beta)
  then show ?case
  proof
    assume "la_rej (fst (lcp_step ao go rej ci x)) = la_rej (fst x)"
    then show ?thesis using y by (intro exI [of _ ys]) auto
  next
    assume "la_rej (fst (lcp_step ao go rej ci x)) = la_rej (fst x) @ ci"
    then show ?thesis using y by (intro exI [of _ "ci # ys"]) auto
  qed
qed

text \<open>
  A Configure-Reject of LCP lists options of the peer's request, in their order and unchanged,
  whether or not the peer has exhausted the patience of the automaton.
\<close>

theorem lcp_reject_sound:
  assumes "lcp_Reqci s inp rej = (CI_REJ, out, s')"
  shows "\<exists>ys. subseq ys (cis inp) \<and> out = concat ys"
proof -
  let ?f = "fold (lcp_step (m_lcp_allowoptions s) (m_lcp_gotoptions s) rej) (cis inp)
      (\<lparr>la_rc = CI_ACK, la_nak = [], la_rej = []\<rparr>, (lcp_options_zero, s))"
  obtain a ho t where "?f = (a, (ho, t))" "out = la_rej a"
    using assms by (elim lcp_Reqci_fold) simp
  moreover obtain ys where "subseq ys (cis inp)" "la_rej (fst ?f) = [] @ concat ys"
    using lcp_fold_rej [of "cis inp" "m_lcp_allowoptions s" "m_lcp_gotoptions s" rej
        "(\<lparr>la_rc = CI_ACK, la_nak = [], la_rej = []\<rparr>, (lcp_options_zero, s))"] by auto
  ultimately show ?thesis by (intro exI [of _ ys]) simp
qed

theorem lcp_reject_sound_witness:
  "\<exists>s'. lcp_Reqci demo_lcp [1, 4, 5, 212, 9, 3, 7] True = (CI_REJ, [9, 3, 7], s') \<and>
     (\<exists>ys. subseq ys (cis [1, 4, 5, 212, 9, 3, 7]) \<and> [9, 3, 7] = concat ys)"
proof -
  obtain s' where r: "lcp_Reqci demo_lcp [1, 4, 5, 212, 9, 3, 7] True = (CI_REJ, [9, 3, 7], s')"
    by (simp add: demo_req_simps)
  show ?thesis using lcp_reject_sound [OF r] r by blast
qed

section \<open>The size of the Nak\<close>

text \<open>No suggestion is longer than the option it answers, but for the five bytes that ask for CHAP.\<close>

definition nak_fits :: "lcp_options \<Rightarrow> byte list \<Rightarrow> int \<times> byte list \<times> lcp_req \<Rightarrow> bool" where
  "nak_fits ao ci r \<longleftrightarrow> length (fst (snd r)) \<le> length ci \<or>
     neg_chap ao \<and> 4 \<le> length ci \<and> length (fst (snd r)) = 5"

lemma nak_fits_options:
  "nak_fits ao ci (req_mru ao st ci)" "nak_fits ao ci (req_asyncmap ao st ci)" "nak_fits ao ci (req_quality ao st ci)"
  "nak_fits ao ci (req_magicnumber ao go st ci)" "neg_chap ao \<or> neg_upap ao \<Longrightarrow> nak_fits ao ci (req_pap ao st ci)"
  "nak_fits ao ci (req_chap ao st ci)" "nak_fits ao ci (req_eap ao st ci)"
  by (auto simp: nak_fits_def req_mru_def req_asyncmap_def req_quality_def req_magicnumber_def req_pap_def
      req_chap_def req_eap_def nak_short_def nak_chap_def magic_def Let_def case_prod_beta)

lemma nak_fits_authtype: "neg_chap ao \<or> neg_upap ao \<Longrightarrow> nak_fits ao ci (req_authtype ao st ci)"
  by (simp add: req_authtype_def nak_fits_options Let_def)
    (simp add: nak_fits_def nak_short_def nak_chap_def)

lemma lcp_req_ci_fits:
  assumes "neg_chap ao \<or> neg_upap ao"
  shows "nak_fits ao ci (lcp_req_ci ao go st ci)"
  using nak_fits_options nak_fits_authtype [OF assms]
  by (cases st) (simp add: lcp_req_ci_def Let_def nak_fits_def)

lemma lcp_step_nak:
  assumes "neg_chap ao \<or> neg_upap ao"
  shows "4 * length (la_nak (fst (lcp_step ao go rej ci x))) \<le> 4 * length (la_nak (fst x)) + 5 * length ci"
    and "\<not> neg_chap ao \<Longrightarrow> length (la_nak (fst (lcp_step ao go rej ci x))) \<le> length (la_nak (fst x)) + length ci"
  using lcp_req_ci_fits [OF assms, of ci go "snd x"]
  by (auto simp: lcp_step_def lcp_merge_def nak_fits_def Let_def case_prod_beta)

lemma lcp_fold_nak:
  assumes "neg_chap ao \<or> neg_upap ao"
  shows "4 * length (la_nak (fst (fold (lcp_step ao go rej) xs x))) \<le> 4 * length (la_nak (fst x)) + 5 * length (concat xs) \<and>
    (\<not> neg_chap ao \<longrightarrow> length (la_nak (fst (fold (lcp_step ao go rej) xs x))) \<le> length (la_nak (fst x)) + length (concat xs))"
proof (induction xs arbitrary: x)
  case (Cons ci xs)
  show ?case using Cons [of "lcp_step ao go rej ci x"] lcp_step_nak [OF assms, of go rej ci x] by fastforce
qed simp

text \<open>
  The Nak is built in \<^verbatim>\<open>nak_buffer\<close>, of 1500 bytes. It has at most five bytes for every four of the
  request, and no more bytes than the request when CHAP is not on offer, so that it then fits.
\<close>

theorem lcp_nak_size:
  assumes "neg_chap (m_lcp_allowoptions s) \<or> neg_upap (m_lcp_allowoptions s)"
    and "lcp_Reqci s inp rej = (CI_NAK, out, s')"
  shows "4 * length out \<le> 5 * length inp \<and> (\<not> neg_chap (m_lcp_allowoptions s) \<longrightarrow> length out \<le> length inp)"
proof -
  obtain a ho t where "fold (lcp_step (m_lcp_allowoptions s) (m_lcp_gotoptions s) rej) (cis inp)
      (\<lparr>la_rc = CI_ACK, la_nak = [], la_rej = []\<rparr>, (lcp_options_zero, s)) = (a, (ho, t))" "out = la_nak a"
    using assms(2) by (elim lcp_Reqci_fold) simp
  then show ?thesis
    using lcp_fold_nak [OF assms(1), of "m_lcp_gotoptions s" rej "cis inp"
        "(\<lparr>la_rc = CI_ACK, la_nak = [], la_rej = []\<rparr>, (lcp_options_zero, s))"] by simp
qed

theorem lcp_nak_size_witness:
  "\<exists>s'. lcp_Reqci demo_lcp [1, 4, 0, 64] False = (CI_NAK, [1, 4, 0, 128], s') \<and>
     length [1, 4, 0, 128 :: byte] \<le> length [1, 4, 0, 64 :: byte]"
proof -
  obtain s' where r: "lcp_Reqci demo_lcp [1, 4, 0, 64] False = (CI_NAK, [1, 4, 0, 128], s')"
    by (simp add: demo_req_simps)
  have "neg_upap (m_lcp_allowoptions demo_lcp)" "\<not> neg_chap (m_lcp_allowoptions demo_lcp)"
    by (simp_all add: demo_lcp_options lcp_options_zero_def)
  then show ?thesis using lcp_nak_size [OF _ r] r by blast
qed

definition pap_option :: "byte list" where
  "pap_option = [CI_AUTHTYPE, 4, 0xc0, 0x23]"

lemma cis_paps: "cis (concat (replicate n pap_option)) = replicate n pap_option"
proof (induction n)
  case 0
  show ?case by (subst cis.simps) simp
next
  case (Suc n)
  show ?case
    by (subst cis.simps) (use Suc in \<open>simp add: pap_option_def bad_ci_def\<close>)
qed

lemma paps_step:
  assumes "neg_chap ao" "\<not> neg_upap ao" "\<not> neg_eap ao"
  shows "fold (lcp_step ao go False) (replicate n pap_option)
    (\<lparr>la_rc = rc, la_nak = nak, la_rej = []\<rparr>, (lcp_options_zero, s)) =
    (\<lparr>la_rc = (if rc = CI_REJ \<or> n = 0 then rc else CI_NAK), la_nak = nak @ concat (replicate n (nak_chap ao)),
      la_rej = []\<rparr>, (lcp_options_zero, s))"
proof (induction n arbitrary: rc nak)
  case (Suc n)
  have v: "lcp_req_ci ao go (lcp_options_zero, s) pap_option = (CI_NAK, nak_chap ao, (lcp_options_zero, s))"
    using assms by (simp add: lcp_req_ci_def req_authtype_def req_pap_def pap_option_def GETSHORT_def lcp_options_zero_def)
  have "\<not> bad_ci pap_option" by (simp add: bad_ci_def pap_option_def)
  then have "lcp_step ao go False pap_option (\<lparr>la_rc = rc, la_nak = nak, la_rej = []\<rparr>, (lcp_options_zero, s)) =
      (\<lparr>la_rc = (if rc = CI_REJ then rc else CI_NAK), la_nak = nak @ nak_chap ao, la_rej = []\<rparr>, (lcp_options_zero, s))"
    by (simp add: lcp_step_def v lcp_merge_def)
  then show ?case using Suc by simp
qed simp

text \<open>
  With CHAP configured the bound is reached: a request of \<open>n\<close> options that ask for PAP is answered
  with a Nak of \<open>n\<close> options of five bytes. More than 300 of them (1204 bytes, which fit a packet) run
  past the end of \<^verbatim>\<open>nak_buffer\<close>.
\<close>

theorem lcp_nak_overrun:
  assumes "neg_chap (m_lcp_allowoptions s)" "\<not> neg_upap (m_lcp_allowoptions s)" "\<not> neg_eap (m_lcp_allowoptions s)"
    and "300 < n"
  shows "length (concat (replicate n pap_option)) = 4 * n \<and>
    fst (lcp_Reqci s (concat (replicate n pap_option)) False) = CI_NAK \<and>
    length (fst (snd (lcp_Reqci s (concat (replicate n pap_option)) False))) = 5 * n \<and>
    PPP_MRU < length (fst (snd (lcp_Reqci s (concat (replicate n pap_option)) False)))"
proof -
  have l: "length (concat (replicate k x)) = k * length x" for k and x :: "byte list"
    by (induction k) simp_all
  have "length (nak_chap (m_lcp_allowoptions s)) = 5" "length pap_option = 4"
    by (simp_all add: nak_chap_def pap_option_def)
  then show ?thesis
    using assms(4) by (simp add: lcp_Reqci_def lcp_req_loop_fold cis_paps paps_step [OF assms(1-3)] l
        del: fold_replicate)
qed

definition demo_chap_lcp :: lcp where
  "demo_chap_lcp = lcp_Resetci (f_sink (lcp_Init (fsm_new (lcp_SetAuthType PPP_CHAP (CPPPLCP_new (\<lambda>_. 0x11223344))) 0xC021)))"

theorem lcp_nak_overrun_witness:
  "length (concat (replicate 374 pap_option)) = PPP_MRU - HEADERLEN \<and>
   length (fst (snd (lcp_Reqci demo_chap_lcp (concat (replicate 374 pap_option)) False))) = 1870"
proof -
  have "neg_chap (m_lcp_allowoptions demo_chap_lcp)" "\<not> neg_upap (m_lcp_allowoptions demo_chap_lcp)"
      "\<not> neg_eap (m_lcp_allowoptions demo_chap_lcp)"
    by (simp_all add: demo_chap_lcp_def lcp_SetAuthType_def demo_lcp_defs)
  from lcp_nak_overrun [OF this, of 374] show ?thesis by simp
qed

end
