(* ===== verification/Ppp_Fsm_Spec.thy ===== *)
theory Ppp_Fsm_Spec
  imports Ppp_Fsm
begin

text \<open>
  The contract between the automaton of \<open>Ppp_Fsm\<close> and its protocol half, the RFC 1661 transition
  table as an abstract specification, and the properties of the automaton: it implements the
  table, keeps the timer and counter invariant, gives up after the configured number of
  retransmissions, emits well-formed packets and ignores malformed ones.
\<close>

section \<open>Events, the sink contract and the RFC 1661 table\<close>

datatype fsm_event =
  EvLowerUp | EvLowerDown | EvOpen | EvClose "byte list" | EvTimeout | EvInput "byte list" | EvProtReject

fun fsm_do :: "'k sink \<Rightarrow> fsm_event \<Rightarrow> 'k fsm \<Rightarrow> 'k fsm" where
  "fsm_do cb EvLowerUp f = LowerUp cb f"
| "fsm_do cb EvLowerDown f = LowerDown cb f"
| "fsm_do cb EvOpen f = Open cb f"
| "fsm_do cb (EvClose reason) f = the (Close cb (Some reason) f)"
| "fsm_do cb EvTimeout f = Timeout cb f"
| "fsm_do cb (EvInput pkt) f = Input cb pkt f"
| "fsm_do cb EvProtReject f = ProtReject cb f"

text \<open>The reactor calls \<^verbatim>\<open>handle_timeout\<close> only while a timer is registered.\<close>

inductive fsm_step :: "'k sink \<Rightarrow> 'k fsm \<Rightarrow> 'k fsm \<Rightarrow> bool" for cb where
  step_event: "ev \<noteq> EvTimeout \<Longrightarrow> fsm_step cb f (fsm_do cb ev f)"
| step_handle_timeout: "f_timer f \<noteq> None \<Longrightarrow> fsm_step cb f (fsm_do cb EvTimeout f)"

text \<open>
  What the automaton relies on: a callback changes the state of the protocol half only; the
  callback for unknown codes may also send packets; \<^verbatim>\<open>Reqci\<close> answers with an Ack, Nak or Reject
  code (or -1); \<^verbatim>\<open>Nakci\<close> and \<^verbatim>\<open>Rejci\<close> return no negative value, the value the source calls a
  kludge for CCP.
\<close>

definition only_sink :: "'k fsm \<Rightarrow> 'k fsm \<Rightarrow> bool" where
  "only_sink f g \<longleftrightarrow> g = f\<lparr>f_sink := f_sink g\<rparr>"

definition sink_ok :: "'k sink \<Rightarrow> bool" where
  "sink_ok cb \<longleftrightarrow>
     (\<forall>f. only_sink f (cb_Resetci cb f)) \<and> (\<forall>f. only_sink f (snd (cb_Cilen cb f))) \<and>
     (\<forall>f n. only_sink f (snd (cb_Addci cb f n))) \<and>
     (\<forall>f p. only_sink f (snd (cb_Ackci cb f p))) \<and>
     (\<forall>f p b. only_sink f (snd (cb_Nakci cb f p b)) \<and> 0 \<le> fst (cb_Nakci cb f p b)) \<and>
     (\<forall>f p. only_sink f (snd (cb_Rejci cb f p)) \<and> 0 \<le> fst (cb_Rejci cb f p)) \<and>
     (\<forall>f p b. only_sink f (snd (snd (cb_Reqci cb f p b))) \<and>
        fst (cb_Reqci cb f p b) \<in> {-1, 2, 3, 4}) \<and>
     (\<forall>f. only_sink f (cb_Up cb f)) \<and> (\<forall>f. only_sink f (cb_Down cb f)) \<and>
     (\<forall>f. only_sink f (cb_Starting cb f)) \<and> (\<forall>f. only_sink f (cb_Finished cb f)) \<and>
     (\<forall>f. only_sink f (cb_Retransmit cb f)) \<and>
     (\<forall>f c i p. \<exists>k pkts. snd (cb_ExtCode cb f c i p) =
        f\<lparr>f_sink := k, f_log := f_log f @ map OutPkt pkts\<rparr>)"

datatype rfc_event =
  RUp | RDown | ROpen | RClose | TOp | TOm | RCRp | RCRm | RCA | RCN | RTR | RTA | RUC | RXJp | RXJm

datatype layer_act = TLU | TLD | TLS | TLF

definition rfc1661 :: "rfc_event \<Rightarrow> fsm_state \<Rightarrow> fsm_state \<times> layer_act list" where
  "rfc1661 e s = (case e of
     RUp \<Rightarrow> (case s of INITIAL \<Rightarrow> (CLOSED, []) | STARTING \<Rightarrow> (REQSENT, []) | _ \<Rightarrow> (s, []))
   | RDown \<Rightarrow> (case s of CLOSED \<Rightarrow> (INITIAL, []) | STOPPED \<Rightarrow> (STARTING, [TLS])
       | CLOSING \<Rightarrow> (INITIAL, []) | STOPPING \<Rightarrow> (STARTING, []) | REQSENT \<Rightarrow> (STARTING, [])
       | ACKRCVD \<Rightarrow> (STARTING, []) | ACKSENT \<Rightarrow> (STARTING, []) | OPENED \<Rightarrow> (STARTING, [TLD])
       | _ \<Rightarrow> (s, []))
   | ROpen \<Rightarrow> (case s of INITIAL \<Rightarrow> (STARTING, [TLS]) | CLOSED \<Rightarrow> (REQSENT, [])
       | CLOSING \<Rightarrow> (STOPPING, []) | _ \<Rightarrow> (s, []))
   | RClose \<Rightarrow> (case s of STARTING \<Rightarrow> (INITIAL, [TLF]) | STOPPED \<Rightarrow> (CLOSED, [])
       | STOPPING \<Rightarrow> (CLOSING, []) | REQSENT \<Rightarrow> (CLOSING, []) | ACKRCVD \<Rightarrow> (CLOSING, [])
       | ACKSENT \<Rightarrow> (CLOSING, []) | OPENED \<Rightarrow> (CLOSING, [TLD]) | _ \<Rightarrow> (s, []))
   | TOp \<Rightarrow> (case s of ACKRCVD \<Rightarrow> (REQSENT, []) | _ \<Rightarrow> (s, []))
   | TOm \<Rightarrow> (case s of CLOSING \<Rightarrow> (CLOSED, [TLF]) | STOPPING \<Rightarrow> (STOPPED, [TLF])
       | REQSENT \<Rightarrow> (STOPPED, [TLF]) | ACKRCVD \<Rightarrow> (STOPPED, [TLF]) | ACKSENT \<Rightarrow> (STOPPED, [TLF])
       | _ \<Rightarrow> (s, []))
   | RCRp \<Rightarrow> (case s of STOPPED \<Rightarrow> (ACKSENT, []) | REQSENT \<Rightarrow> (ACKSENT, [])
       | ACKRCVD \<Rightarrow> (OPENED, [TLU]) | OPENED \<Rightarrow> (ACKSENT, [TLD]) | _ \<Rightarrow> (s, []))
   | RCRm \<Rightarrow> (case s of STOPPED \<Rightarrow> (REQSENT, []) | ACKSENT \<Rightarrow> (REQSENT, [])
       | OPENED \<Rightarrow> (REQSENT, [TLD]) | _ \<Rightarrow> (s, []))
   | RCA \<Rightarrow> (case s of REQSENT \<Rightarrow> (ACKRCVD, []) | ACKRCVD \<Rightarrow> (REQSENT, [])
       | ACKSENT \<Rightarrow> (OPENED, [TLU]) | OPENED \<Rightarrow> (REQSENT, [TLD]) | _ \<Rightarrow> (s, []))
   | RCN \<Rightarrow> (case s of ACKRCVD \<Rightarrow> (REQSENT, []) | OPENED \<Rightarrow> (REQSENT, [TLD]) | _ \<Rightarrow> (s, []))
   | RTR \<Rightarrow> (case s of ACKRCVD \<Rightarrow> (REQSENT, []) | ACKSENT \<Rightarrow> (REQSENT, [])
       | OPENED \<Rightarrow> (STOPPING, [TLD]) | _ \<Rightarrow> (s, []))
   | RTA \<Rightarrow> (case s of CLOSING \<Rightarrow> (CLOSED, [TLF]) | STOPPING \<Rightarrow> (STOPPED, [TLF])
       | ACKRCVD \<Rightarrow> (REQSENT, []) | OPENED \<Rightarrow> (REQSENT, [TLD]) | _ \<Rightarrow> (s, []))
   | RUC \<Rightarrow> (s, [])
   | RXJp \<Rightarrow> (case s of ACKRCVD \<Rightarrow> (REQSENT, []) | _ \<Rightarrow> (s, []))
   | RXJm \<Rightarrow> (case s of CLOSED \<Rightarrow> (CLOSED, [TLF]) | STOPPED \<Rightarrow> (STOPPED, [TLF])
       | CLOSING \<Rightarrow> (CLOSED, [TLF]) | STOPPING \<Rightarrow> (STOPPED, [TLF]) | REQSENT \<Rightarrow> (STOPPED, [TLF])
       | ACKRCVD \<Rightarrow> (STOPPED, [TLF]) | ACKSENT \<Rightarrow> (STOPPED, [TLF]) | OPENED \<Rightarrow> (STOPPING, [TLD])
       | _ \<Rightarrow> (s, [])))"

text \<open>Which event of the table a packet, a timeout or a call is; \<open>None\<close> for what is discarded.\<close>

definition req_event :: "'k sink \<Rightarrow> u8 \<Rightarrow> byte list \<Rightarrow> 'k fsm \<Rightarrow> rfc_event" where
  "req_event cb pid inp f =
     (case RcvConfReq_switch cb pid f of
        Inl _ \<Rightarrow> RCRp
      | Inr g \<Rightarrow> if fst (Reqci_code cb inp g) = CONFACK then RCRp else RCRm)"

definition packet_event :: "'k sink \<Rightarrow> byte list \<Rightarrow> 'k fsm \<Rightarrow> rfc_event option" where
  "packet_event cb pkt f =
     (case parse_packet pkt of
        None \<Rightarrow> None
      | Some (code, pid, inp) \<Rightarrow>
          if m_state f = INITIAL \<or> m_state f = STARTING then None
          else if code = CONFREQ then Some (req_event cb pid inp f)
          else if code = CONFACK then
            (if pid \<noteq> m_reqid f \<or> m_seen_ack f \<or> \<not> fst (cb_Ackci cb f inp) then None else Some RCA)
          else if code = CONFNAK \<or> code = CONFREJ then
            (if pid \<noteq> m_reqid f \<or> m_seen_ack f \<or> fst (RcvConfNakRej_check cb code inp f) = 0
             then None else Some RCN)
          else if code = TERMREQ then Some RTR
          else if code = TERMACK then Some RTA
          else if code = CODEREJ then (if length inp < HEADERLEN then None else Some RXJp)
          else if fst (cb_ExtCode cb f code pid inp) then None else Some RUC)"

fun abs_event :: "'k sink \<Rightarrow> fsm_event \<Rightarrow> 'k fsm \<Rightarrow> rfc_event option" where
  "abs_event cb EvLowerUp f = Some RUp"
| "abs_event cb EvLowerDown f = Some RDown"
| "abs_event cb EvOpen f = Some ROpen"
| "abs_event cb (EvClose reason) f = Some RClose"
| "abs_event cb EvTimeout f = Some (if 0 < m_retransmits f then TOp else TOm)"
| "abs_event cb (EvInput pkt) f = packet_event cb pkt f"
| "abs_event cb EvProtReject f = Some RXJm"

fun layer_acts :: "fsm_out list \<Rightarrow> layer_act list" where
  "layer_acts [] = []"
| "layer_acts (CbUp # xs) = TLU # layer_acts xs"
| "layer_acts (CbDown # xs) = TLD # layer_acts xs"
| "layer_acts (CbStarting # xs) = TLS # layer_acts xs"
| "layer_acts (CbFinished # xs) = TLF # layer_acts xs"
| "layer_acts (OutPkt p # xs) = layer_acts xs"

abbreviation acts :: "'k fsm \<Rightarrow> layer_act list" where
  "acts f \<equiv> layer_acts (f_log f)"

text \<open>
  The invariant between events: a state that waits for the peer has a timer running, an opened
  layer has none, and the counters are in range.
\<close>

definition terminating :: "fsm_state \<Rightarrow> bool" where
  "terminating s \<longleftrightarrow> s = CLOSING \<or> s = STOPPING"

definition timer_inv :: "'k fsm \<Rightarrow> bool" where
  "timer_inv f \<longleftrightarrow>
     (negotiating (m_state f) \<or> terminating (m_state f) \<longrightarrow> f_timer f \<noteq> None) \<and>
     (m_state f = OPENED \<longrightarrow> f_timer f = None) \<and>
     0 < m_maxtermtransmits f \<and> 0 < m_maxconfreqtransmits f \<and>
     (negotiating (m_state f) \<or> terminating (m_state f) \<longrightarrow> 0 \<le> m_retransmits f)"

definition waiting :: "'k fsm \<Rightarrow> bool" where
  "waiting f \<longleftrightarrow> negotiating (m_state f) \<or> terminating (m_state f)"

text \<open>
  Whether the layer is up after a list of layer actions, or \<open>None\<close> when it is brought up twice
  without coming down in between.
\<close>

fun up_after :: "bool \<Rightarrow> layer_act list \<Rightarrow> bool option" where
  "up_after b [] = Some b"
| "up_after b (TLU # xs) = (if b then None else up_after True xs)"
| "up_after b (TLD # xs) = up_after False xs"
| "up_after b (TLS # xs) = up_after b xs"
| "up_after b (TLF # xs) = up_after b xs"

definition up_inv :: "'k fsm \<Rightarrow> bool" where
  "up_inv f \<longleftrightarrow> up_after False (acts f) = Some (m_state f = OPENED)"

definition fsm_init :: "'k fsm \<Rightarrow> bool" where
  "fsm_init f \<longleftrightarrow> (\<exists>k protocol. f = fsm_new k protocol)"

text \<open>The number of packets handed to the lower layer.\<close>

fun packets :: "fsm_out list \<Rightarrow> nat" where
  "packets [] = 0"
| "packets (OutPkt p # xs) = Suc (packets xs)"
| "packets (x # xs) = packets xs"

fun timeouts :: "'k sink \<Rightarrow> nat \<Rightarrow> 'k fsm \<Rightarrow> 'k fsm" where
  "timeouts cb 0 f = f"
| "timeouts cb (Suc n) f = timeouts cb n (Timeout cb f)"

text \<open>A protocol half that accepts every option, used by the witnesses.\<close>

definition accept_sink :: "unit sink" where
  "accept_sink = \<lparr>cb_Resetci = (\<lambda>f. f), cb_Cilen = (\<lambda>f. (4, f)),
     cb_Addci = (\<lambda>f n. ([1, 4, 5, 212], f)), cb_Ackci = (\<lambda>f p. (True, f)),
     cb_Nakci = (\<lambda>f p b. (1, f)), cb_Rejci = (\<lambda>f p. (1, f)),
     cb_Reqci = (\<lambda>f p b. (2, p, f)), cb_Up = (\<lambda>f. f), cb_Down = (\<lambda>f. f),
     cb_Starting = (\<lambda>f. f), cb_Finished = (\<lambda>f. f), cb_Retransmit = (\<lambda>f. f),
     cb_ExtCode = (\<lambda>f c i p. (False, f))\<rparr>"

section \<open>Library: what callbacks and senders leave alone\<close>

lemma layer_acts_append [simp]: "layer_acts (xs @ ys) = layer_acts xs @ layer_acts ys"
  by (induction xs rule: layer_acts.induct) auto

lemma layer_acts_packets [simp]: "layer_acts (map OutPkt ps) = []"
  by (induction ps) auto

lemma only_sink_fields:
  assumes "only_sink f g"
  shows "m_state g = m_state f" "f_timer g = f_timer f" "f_log g = f_log f"
    "m_retransmits g = m_retransmits f" "m_flags g = m_flags f" "m_id g = m_id f"
    "m_reqid g = m_reqid f" "m_seen_ack g = m_seen_ack f" "m_protocol g = m_protocol f"
    "m_timeouttime g = m_timeouttime f" "m_maxtermtransmits g = m_maxtermtransmits f"
    "m_maxconfreqtransmits g = m_maxconfreqtransmits f"
  by (subst assms [unfolded only_sink_def], simp)+

lemma sink_okD:
  assumes "sink_ok cb"
  shows "only_sink f (cb_Resetci cb f)" "only_sink f (snd (cb_Addci cb f n))"
    "only_sink f (snd (cb_Ackci cb f p))" "only_sink f (snd (cb_Nakci cb f p b))"
    "only_sink f (snd (cb_Rejci cb f p))" "only_sink f (snd (snd (cb_Reqci cb f p b)))"
    "only_sink f (cb_Up cb f)" "only_sink f (cb_Down cb f)" "only_sink f (cb_Starting cb f)"
    "only_sink f (cb_Finished cb f)" "only_sink f (cb_Retransmit cb f)"
    "only_sink f (snd (cb_Cilen cb f))"
  using assms by (simp_all add: sink_ok_def)

lemma sink_ok_codes:
  assumes "sink_ok cb"
  shows "0 \<le> fst (cb_Nakci cb f p b)" "0 \<le> fst (cb_Rejci cb f p)"
    "fst (cb_Reqci cb f p b) \<in> {-1, 2, 3, 4}"
  using assms unfolding sink_ok_def by blast+

lemmas Resetci_fields [simp] = only_sink_fields [OF sink_okD(1)]
lemmas Addci_fields [simp] = only_sink_fields [OF sink_okD(2)]
lemmas Ackci_fields [simp] = only_sink_fields [OF sink_okD(3)]
lemmas Nakci_fields [simp] = only_sink_fields [OF sink_okD(4)]
lemmas Rejci_fields [simp] = only_sink_fields [OF sink_okD(5)]
lemmas Reqci_fields [simp] = only_sink_fields [OF sink_okD(6)]
lemmas cb_Up_fields [simp] = only_sink_fields [OF sink_okD(7)]
lemmas cb_Down_fields [simp] = only_sink_fields [OF sink_okD(8)]
lemmas cb_Starting_fields [simp] = only_sink_fields [OF sink_okD(9)]
lemmas cb_Finished_fields [simp] = only_sink_fields [OF sink_okD(10)]
lemmas cb_Retransmit_fields [simp] = only_sink_fields [OF sink_okD(11)]
lemmas Cilen_fields [simp] = only_sink_fields [OF sink_okD(12)]

lemma no_packets: "\<exists>k pkts. f = f\<lparr>f_sink := k, f_log := f_log f @ map OutPkt pkts\<rparr>"
  by (intro exI [of _ "f_sink f"] exI [of _ "[]"]) simp

lemma ExtCode_fields [simp]:
  assumes "sink_ok cb"
  shows "m_state (snd (cb_ExtCode cb f c i p)) = m_state f"
    "f_timer (snd (cb_ExtCode cb f c i p)) = f_timer f"
    "acts (snd (cb_ExtCode cb f c i p)) = acts f"
    "m_retransmits (snd (cb_ExtCode cb f c i p)) = m_retransmits f"
    "m_maxtermtransmits (snd (cb_ExtCode cb f c i p)) = m_maxtermtransmits f"
    "m_maxconfreqtransmits (snd (cb_ExtCode cb f c i p)) = m_maxconfreqtransmits f"
proof -
  have "\<exists>k pkts. snd (cb_ExtCode cb f c i p) =
      f\<lparr>f_sink := k, f_log := f_log f @ map OutPkt pkts\<rparr>"
    using assms by (simp add: sink_ok_def)
  then obtain k pkts where e: "snd (cb_ExtCode cb f c i p) =
      f\<lparr>f_sink := k, f_log := f_log f @ map OutPkt pkts\<rparr>"
    by blast
  show "m_state (snd (cb_ExtCode cb f c i p)) = m_state f"
    "f_timer (snd (cb_ExtCode cb f c i p)) = f_timer f"
    "acts (snd (cb_ExtCode cb f c i p)) = acts f"
    "m_retransmits (snd (cb_ExtCode cb f c i p)) = m_retransmits f"
    "m_maxtermtransmits (snd (cb_ExtCode cb f c i p)) = m_maxtermtransmits f"
    "m_maxconfreqtransmits (snd (cb_ExtCode cb f c i p)) = m_maxconfreqtransmits f"
    unfolding e by simp_all
qed

lemmas fsm_small_defs [bras_defs] =
  CancelTimer_def StartTime_def Output_def SendData_def Up_def Down_def Starting_def Finished_def

lemma SendConfReq_fields [simp]:
  assumes "sink_ok cb"
  shows "m_state (SendConfReq cb r f) = m_state f"
    "acts (SendConfReq cb r f) = acts f"
    "f_timer (SendConfReq cb r f) = Some (m_timeouttime f)"
    "m_maxtermtransmits (SendConfReq cb r f) = m_maxtermtransmits f"
    "m_maxconfreqtransmits (SendConfReq cb r f) = m_maxconfreqtransmits f"
    "m_timeouttime (SendConfReq cb r f) = m_timeouttime f"
    "m_flags (SendConfReq cb r f) = m_flags f"
    "m_retransmits (SendConfReq cb r f) =
       (if r then m_retransmits f else m_maxconfreqtransmits f) - 1"
  using assms by (simp_all add: SendConfReq_def Let_def case_prod_beta bras_defs)

section \<open>Operation by operation: next state, layer actions, timer\<close>

lemma Reqci_code_fields [simp]:
  assumes "sink_ok cb"
  shows "m_state (snd (snd (Reqci_code cb inp f))) = m_state f"
    "acts (snd (snd (Reqci_code cb inp f))) = acts f"
    "f_timer (snd (snd (Reqci_code cb inp f))) = f_timer f"
    "m_retransmits (snd (snd (Reqci_code cb inp f))) = m_retransmits f"
    "m_maxtermtransmits (snd (snd (Reqci_code cb inp f))) = m_maxtermtransmits f"
    "m_maxconfreqtransmits (snd (snd (Reqci_code cb inp f))) = m_maxconfreqtransmits f"
  using assms by (simp_all add: Reqci_code_def Let_def case_prod_beta)

lemma NakRej_check_fields [simp]:
  assumes "sink_ok cb"
  shows "m_state (snd (RcvConfNakRej_check cb c inp f)) = m_state f"
    "acts (snd (RcvConfNakRej_check cb c inp f)) = acts f"
    "f_timer (snd (RcvConfNakRej_check cb c inp f)) = f_timer f"
    "m_retransmits (snd (RcvConfNakRej_check cb c inp f)) = m_retransmits f"
    "m_maxtermtransmits (snd (RcvConfNakRej_check cb c inp f)) = m_maxtermtransmits f"
    "m_maxconfreqtransmits (snd (RcvConfNakRej_check cb c inp f)) = m_maxconfreqtransmits f"
    "0 \<le> fst (RcvConfNakRej_check cb c inp f)"
  using assms by (simp_all add: RcvConfNakRej_check_def Let_def sink_ok_codes)

lemma TerminateLayer_fields [simp]:
  assumes "sink_ok cb" and "m_maxtermtransmits f \<noteq> 0"
  shows "m_state (TerminateLayer cb s f) = s"
    "acts (TerminateLayer cb s f) = acts f @ [TLD]"
    "f_timer (TerminateLayer cb s f) = Some (m_timeouttime f)"
    "m_retransmits (TerminateLayer cb s f) = m_maxtermtransmits f - 1"
    "m_maxtermtransmits (TerminateLayer cb s f) = m_maxtermtransmits f"
    "m_maxconfreqtransmits (TerminateLayer cb s f) = m_maxconfreqtransmits f"
  using assms by (simp_all add: TerminateLayer_def Let_def bras_defs)

text \<open>The event of a packet drives the state and the layer actions as the table says.\<close>

lemma RcvConfReq_rfc:
  assumes "sink_ok cb" and "m_state f \<noteq> INITIAL" and "m_state f \<noteq> STARTING"
  shows "m_state (RcvConfReq cb pid inp f) = fst (rfc1661 (req_event cb pid inp f) (m_state f))"
    "acts (RcvConfReq cb pid inp f) = acts f @ snd (rfc1661 (req_event cb pid inp f) (m_state f))"
  using assms
  by (cases "m_state f"; simp add: RcvConfReq_def RcvConfReq_switch_def RcvConfReq_answer_def
      req_event_def rfc1661_def Let_def case_prod_beta bras_defs)+

lemma RcvConfAck_rfc:
  assumes "sink_ok cb" and "pid = m_reqid f" and "\<not> m_seen_ack f" and "fst (cb_Ackci cb f inp)"
    and "m_state f \<noteq> INITIAL" and "m_state f \<noteq> STARTING"
  shows "m_state (RcvConfAck cb pid inp f) = fst (rfc1661 RCA (m_state f))"
    "acts (RcvConfAck cb pid inp f) = acts f @ snd (rfc1661 RCA (m_state f))"
  using assms
  by (cases "m_state f"; simp add: RcvConfAck_def rfc1661_def Let_def case_prod_beta bras_defs)+

lemma RcvConfNakRej_rfc:
  assumes "sink_ok cb" and "pid = m_reqid f" and "\<not> m_seen_ack f"
    and ret: "fst (RcvConfNakRej_check cb c inp f) \<noteq> 0"
    and "m_state f \<noteq> INITIAL" and "m_state f \<noteq> STARTING"
  shows "m_state (RcvConfNakRej cb c pid inp f) = fst (rfc1661 RCN (m_state f))"
    "acts (RcvConfNakRej cb c pid inp f) = acts f @ snd (rfc1661 RCN (m_state f))"
proof -
  have "\<not> fst (RcvConfNakRej_check cb c inp f) < 0"
    using NakRej_check_fields(7) [OF assms(1), of c inp f] by simp
  then show "m_state (RcvConfNakRej cb c pid inp f) = fst (rfc1661 RCN (m_state f))"
    "acts (RcvConfNakRej cb c pid inp f) = acts f @ snd (rfc1661 RCN (m_state f))"
    using assms
    by (cases "m_state f"; simp add: RcvConfNakRej_def rfc1661_def Let_def case_prod_beta bras_defs)+
qed

lemma Rcv_rest_rfc:
  assumes "sink_ok cb"
  shows "m_state (RcvTermReq cb pid f) = fst (rfc1661 RTR (m_state f))"
    "acts (RcvTermReq cb pid f) = acts f @ snd (rfc1661 RTR (m_state f))"
    "m_state (RcvTermack cb f) = fst (rfc1661 RTA (m_state f))"
    "acts (RcvTermack cb f) = acts f @ snd (rfc1661 RTA (m_state f))"
    "HEADERLEN \<le> length inp \<Longrightarrow> m_state (RcvCodeReject inp f) = fst (rfc1661 RXJp (m_state f))"
    "HEADERLEN \<le> length inp \<Longrightarrow> acts (RcvCodeReject inp f) = acts f @ snd (rfc1661 RXJp (m_state f))"
  using assms
  by (cases "m_state f"; simp add: RcvTermReq_def RcvTermack_def RcvCodeReject_def rfc1661_def
      Let_def bras_defs)+

lemma discard_rules:
  assumes "sink_ok cb"
  shows "pid \<noteq> m_reqid f \<or> m_seen_ack f \<or> \<not> fst (cb_Ackci cb f inp) \<Longrightarrow>
      m_state (RcvConfAck cb pid inp f) = m_state f \<and> acts (RcvConfAck cb pid inp f) = acts f"
    "pid \<noteq> m_reqid f \<or> m_seen_ack f \<or> fst (RcvConfNakRej_check cb c inp f) = 0 \<Longrightarrow>
      m_state (RcvConfNakRej cb c pid inp f) = m_state f \<and>
      acts (RcvConfNakRej cb c pid inp f) = acts f"
  using assms
  by (cases "pid \<noteq> m_reqid f \<or> m_seen_ack f";
      simp add: RcvConfAck_def RcvConfNakRej_def Let_def case_prod_beta)+

lemma discarded_packet:
  assumes ok: "sink_ok cb" and ev: "packet_event cb pkt f = None"
  shows "m_state (Input cb pkt f) = m_state f \<and> acts (Input cb pkt f) = acts f"
proof (cases "parse_packet pkt")
  case None
  then show ?thesis by (simp add: Input_def)
next
  case (Some a)
  obtain c pid inp where a: "a = (c, pid, inp)" by (cases a)
  show ?thesis
  proof (cases "m_state f = INITIAL \<or> m_state f = STARTING")
    case True
    then show ?thesis using Some by (auto simp: a Input_def)
  next
    case False
    have "m_state (Input_code cb pkt c pid inp f) = m_state f \<and>
        acts (Input_code cb pkt c pid inp f) = acts f"
      using ev Some False discard_rules(1) [OF ok, of pid f inp]
        discard_rules(2) [OF ok, of pid f c inp] ok
      by (cases "c = CONFNAK"; cases "c = CONFREJ"; simp add: a packet_event_def Input_code_def
          RcvCodeReject_def case_prod_beta split: if_split_asm)
    with False Some show ?thesis by (simp add: a Input_def)
  qed
qed

lemma Input_rfc:
  assumes ok: "sink_ok cb" and ev: "packet_event cb pkt f = Some e"
  shows "m_state (Input cb pkt f) = fst (rfc1661 e (m_state f)) \<and>
    acts (Input cb pkt f) = acts f @ snd (rfc1661 e (m_state f))"
proof -
  obtain c pid inp where p: "parse_packet pkt = Some (c, pid, inp)"
    using ev by (auto simp: packet_event_def split: option.splits)
  have s: "m_state f \<noteq> INITIAL" "m_state f \<noteq> STARTING"
    using ev p by (auto simp: packet_event_def split: if_splits)
  have i: "Input cb pkt f = Input_code cb pkt c pid inp f"
    using p s by (simp add: Input_def)
  have ruc: "rfc1661 RUC (m_state f) = (m_state f, [])" by (simp add: rfc1661_def)
  show ?thesis
    using ev p s ok unfolding i
    by (auto simp: packet_event_def Input_code_def RcvConfReq_rfc RcvConfAck_rfc RcvConfNakRej_rfc
        Rcv_rest_rfc ruc Let_def case_prod_beta SendData_def Output_def split: if_splits)
qed

lemma Timeout_rfc:
  assumes "sink_ok cb" and "m_flags f = 0"
  shows "m_state (Timeout cb f) = fst (rfc1661 (if 0 < m_retransmits f then TOp else TOm) (m_state f))"
    "acts (Timeout cb f) = acts f @ snd (rfc1661 (if 0 < m_retransmits f then TOp else TOm) (m_state f))"
  using assms
  by (cases "m_state f"; simp add: Timeout_def Timeout_term_def Timeout_conf_def rfc1661_def
      Let_def bras_defs)+

lemma admin_rfc:
  assumes "sink_ok cb" and "m_flags f = 0" and "m_maxtermtransmits f \<noteq> 0"
  shows "m_state (LowerUp cb f) = fst (rfc1661 RUp (m_state f))"
    "acts (LowerUp cb f) = acts f @ snd (rfc1661 RUp (m_state f))"
    "m_state (LowerDown cb f) = fst (rfc1661 RDown (m_state f))"
    "acts (LowerDown cb f) = acts f @ snd (rfc1661 RDown (m_state f))"
    "m_state (Open cb f) = fst (rfc1661 ROpen (m_state f))"
    "acts (Open cb f) = acts f @ snd (rfc1661 ROpen (m_state f))"
    "m_state (ProtReject cb f) = fst (rfc1661 RXJm (m_state f))"
    "acts (ProtReject cb f) = acts f @ snd (rfc1661 RXJm (m_state f))"
  using assms
  by (cases "m_state f"; simp add: LowerUp_def LowerDown_def Open_def Open_restart_def
      ProtReject_def rfc1661_def Let_def bras_defs)+

lemma Close_rfc:
  assumes "sink_ok cb" and "m_maxtermtransmits f \<noteq> 0"
  shows "m_state (the (Close cb (Some r) f)) = fst (rfc1661 RClose (m_state f))"
    "acts (the (Close cb (Some r) f)) =
       acts f @ (if m_state f = OPENED \<or> negotiating (m_state f) then [TLD] else [])"
  using assms
  by (cases "m_state f"; simp add: Close_def rfc1661_def negotiating_def Let_def)+

section \<open>The timer and counter invariant\<close>

lemmas timer_simps = timer_inv_def negotiating_def terminating_def

lemma timer_inv_SendConfReq:
  assumes "sink_ok cb" and "0 < m_maxtermtransmits f" and "0 < m_maxconfreqtransmits f"
    and "s \<noteq> OPENED"
  shows "timer_inv (set_state s (SendConfReq cb False f))"
  using assms by (simp add: timer_simps)

lemma timer_inv_quiet:
  assumes "timer_inv f" and "s \<in> {INITIAL, STARTING, CLOSED, STOPPED}"
  shows "timer_inv (set_state s f)" "timer_inv (set_state s (CancelTimer f))"
    "timer_inv (CancelTimer (set_state s f))"
  using assms by (auto simp: timer_simps CancelTimer_def)

lemma timer_inv_out [simp]:
  assumes "sink_ok cb"
  shows "timer_inv (Up cb f) = timer_inv f" "timer_inv (Down cb f) = timer_inv f"
    "timer_inv (Starting cb f) = timer_inv f" "timer_inv (Finished cb f) = timer_inv f"
    "timer_inv (SendData c i d f) = timer_inv f"
  using assms by (simp_all add: timer_simps bras_defs)

lemma out_fields [simp]:
  assumes "sink_ok cb"
  shows "m_maxtermtransmits (Down cb f) = m_maxtermtransmits f"
    "m_maxconfreqtransmits (Down cb f) = m_maxconfreqtransmits f"
    "m_state (Down cb f) = m_state f" "f_timer (Down cb f) = f_timer f"
  using assms by (simp_all add: bras_defs)

lemma CancelTimer_fields [simp]:
  "m_maxtermtransmits (CancelTimer f) = m_maxtermtransmits f"
  "m_maxconfreqtransmits (CancelTimer f) = m_maxconfreqtransmits f"
  "m_state (CancelTimer f) = m_state f" "f_timer (CancelTimer f) = None"
  by (simp_all add: CancelTimer_def)

lemma timer_inv_TerminateLayer:
  assumes "sink_ok cb" and "timer_inv f" and "s = CLOSING \<or> s = STOPPING"
  shows "timer_inv (TerminateLayer cb s f)"
  using assms by (auto simp: timer_simps)

lemma timer_inv_LowerUp:
  assumes "sink_ok cb" and "timer_inv f"
  shows "timer_inv (LowerUp cb f)"
  using assms
  by (cases "m_state f"; simp add: LowerUp_def timer_inv_quiet timer_inv_SendConfReq;
      simp add: timer_simps)

lemma timer_inv_LowerDown:
  assumes "sink_ok cb" and "timer_inv f"
  shows "timer_inv (LowerDown cb f)"
  using assms
  by (cases "m_state f"; simp add: LowerDown_def timer_inv_quiet)

lemma timer_inv_Open:
  assumes "sink_ok cb" and "timer_inv f"
  shows "timer_inv (Open cb f)"
proof -
  have closing: "m_state f = CLOSING \<Longrightarrow> timer_inv (set_state STOPPING f)"
    using assms(2) by (simp add: timer_simps)
  have "0 < m_maxtermtransmits f" "0 < m_maxconfreqtransmits f"
    using assms(2) by (simp_all add: timer_inv_def)
  then show ?thesis
    using assms closing
    by (cases "m_state f"; simp add: Open_def Open_restart_def timer_inv_quiet
        timer_inv_SendConfReq timer_inv_LowerUp timer_inv_LowerDown)
qed

lemma timer_inv_Close:
  assumes "sink_ok cb" and "timer_inv f"
  shows "timer_inv (the (Close cb (Some r) f))"
proof -
  define g where "g = f\<lparr>m_term_reason := r, m_term_reason_len := length r\<rparr>"
  have g: "timer_inv g" "m_state g = m_state f" using assms(2) by (simp_all add: g_def timer_simps)
  have "m_state g = STOPPING \<Longrightarrow> timer_inv (set_state CLOSING g)"
    using g(1) by (simp add: timer_simps)
  then show ?thesis
    using assms(1) g
    by (cases "m_state f"; simp add: Close_def g_def [symmetric] timer_inv_quiet
        timer_inv_TerminateLayer)
qed

lemma timer_inv_Timeout:
  assumes "sink_ok cb" and "timer_inv f"
  shows "timer_inv (Timeout cb f)"
  using assms
  by (cases "m_state f"; simp add: Timeout_def Timeout_term_def Timeout_conf_def timer_simps
      Let_def bras_defs)

lemma timer_inv_RcvConfReq:
  assumes "sink_ok cb" and "timer_inv f" and "m_state f \<noteq> INITIAL" and "m_state f \<noteq> STARTING"
  shows "timer_inv (RcvConfReq cb pid inp f)"
  using assms
  by (cases "m_state f"; simp add: RcvConfReq_def RcvConfReq_switch_def RcvConfReq_answer_def
      timer_simps Let_def case_prod_beta bras_defs)

lemma timer_inv_RcvConfAck:
  assumes "sink_ok cb" and "timer_inv f"
  shows "timer_inv (RcvConfAck cb pid inp f)"
  using assms
  by (cases "m_state f"; simp add: RcvConfAck_def timer_simps Let_def case_prod_beta bras_defs)

lemma timer_inv_RcvConfNakRej:
  assumes "sink_ok cb" and "timer_inv f"
  shows "timer_inv (RcvConfNakRej cb c pid inp f)"
  using assms
  by (cases "m_state f"; simp add: RcvConfNakRej_def timer_simps Let_def case_prod_beta bras_defs)

lemma timer_inv_Rcv_rest:
  assumes "sink_ok cb" and "timer_inv f"
  shows "timer_inv (RcvTermReq cb pid f)" "timer_inv (RcvTermack cb f)"
    "timer_inv (RcvCodeReject inp f)" "timer_inv (ProtReject cb f)"
    "timer_inv (snd (cb_ExtCode cb f c pid inp))"
    "timer_inv ((snd (cb_ExtCode cb f c pid inp))\<lparr>m_id := y\<rparr>)"
  using assms
  by (cases "m_state f"; simp add: RcvTermReq_def RcvTermack_def RcvCodeReject_def ProtReject_def
      timer_inv_TerminateLayer timer_simps Let_def bras_defs)+

lemma timer_inv_Input:
  assumes "sink_ok cb" and "timer_inv f"
  shows "timer_inv (Input cb pkt f)"
  using assms
  by (auto simp: Input_def Input_code_def timer_inv_RcvConfReq timer_inv_RcvConfAck
      timer_inv_RcvConfNakRej timer_inv_Rcv_rest case_prod_beta Let_def split: option.split)

lemma timer_inv_do:
  assumes "sink_ok cb" and "timer_inv f"
  shows "timer_inv (fsm_do cb ev f)"
  using assms
  by (cases ev) (simp_all add: timer_inv_LowerUp timer_inv_LowerDown timer_inv_Open
      timer_inv_Close timer_inv_Timeout timer_inv_Input timer_inv_Rcv_rest)

section \<open>Layer up and layer down alternate\<close>

lemma up_after_append: "up_after b (xs @ ys) = Option.bind (up_after b xs) (\<lambda>c. up_after c ys)"
  by (induction b xs rule: up_after.induct) auto

lemma up_after_rfc1661:
  "up_after (s = OPENED) (snd (rfc1661 e s)) = Some (fst (rfc1661 e s) = OPENED)"
  by (cases e; cases s; simp add: rfc1661_def)

lemma up_inv_extend:
  assumes "up_inv f" and "acts g = acts f @ xs"
    and "up_after (m_state f = OPENED) xs = Some (m_state g = OPENED)"
  shows "up_inv g"
  using assms by (simp add: up_inv_def up_after_append)

lemma up_inv_Input:
  assumes "sink_ok cb" and "up_inv f"
  shows "up_inv (Input cb pkt f)"
proof (cases "packet_event cb pkt f")
  case None
  then show ?thesis
    using discarded_packet [OF assms(1)] assms(2) by (simp add: up_inv_def)
next
  case (Some e)
  then show ?thesis
    using Input_rfc [OF assms(1) Some] up_after_rfc1661 [of "m_state f" e]
    by (auto intro: up_inv_extend [OF assms(2)])
qed

lemma up_inv_admin:
  assumes "sink_ok cb" and "up_inv f"
  shows "up_inv (LowerUp cb f)" "up_inv (LowerDown cb f)" "up_inv (Timeout cb f)"
    "up_inv (TerminateLayer cb s f) \<or> s = OPENED"
    "up_inv (ProtReject cb f)" "up_inv (the (Close cb (Some r) f))"
  using assms
  by (cases "m_state f"; simp add: LowerUp_def LowerDown_def Timeout_def Timeout_term_def
      Timeout_conf_def TerminateLayer_def ProtReject_def Close_def up_inv_def up_after_append
      Let_def bras_defs)+

lemma up_inv_Open:
  assumes "sink_ok cb" and "up_inv f"
  shows "up_inv (Open cb f)"
proof -
  have "m_state f = CLOSING \<Longrightarrow> up_inv (set_state STOPPING f)"
    using assms(2) by (simp add: up_inv_def)
  then show ?thesis
    using assms up_inv_admin(1) [OF assms(1)] up_inv_admin(2) [OF assms(1)]
    by (cases "m_state f"; simp add: Open_def Open_restart_def;
        simp add: up_inv_def up_after_append bras_defs)
qed

lemma up_inv_do:
  assumes "sink_ok cb" and "up_inv f"
  shows "up_inv (fsm_do cb ev f)"
  using assms by (cases ev) (simp_all add: up_inv_admin up_inv_Open up_inv_Input)

text \<open>Both invariants as one instance of the component contract, for every protocol half that
  meets its own.\<close>

definition fsm_inv :: "'k sink \<times> 'k fsm \<Rightarrow> bool" where
  "fsm_inv = (\<lambda>(cb, f). sink_ok cb \<and> timer_inv f \<and> up_inv f)"

definition fsm_sys_init :: "'k sink \<times> 'k fsm \<Rightarrow> bool" where
  "fsm_sys_init = (\<lambda>(cb, f). sink_ok cb \<and> fsm_init f)"

definition fsm_sys_step :: "'k sink \<times> 'k fsm \<Rightarrow> 'k sink \<times> 'k fsm \<Rightarrow> bool" where
  "fsm_sys_step = (\<lambda>(cb, f) (cb', f'). cb' = cb \<and> fsm_step cb f f')"

interpretation fsm_machine: invariant_of fsm_sys_init fsm_sys_step fsm_inv
proof unfold_locales
  fix s :: "'k sink \<times> 'k fsm"
  assume "fsm_sys_init s"
  then show "fsm_inv s"
    by (auto simp: fsm_sys_init_def fsm_inv_def fsm_init_def fsm_new_def timer_simps up_inv_def)
next
  fix s t :: "'k sink \<times> 'k fsm"
  assume "fsm_inv s" and "fsm_sys_step s t"
  then show "fsm_inv t"
    by (auto simp: fsm_sys_step_def fsm_inv_def elim!: fsm_step.cases
        intro: timer_inv_do up_inv_do)
qed

section \<open>Retransmission\<close>

lemma Timeout_last:
  assumes "sink_ok cb" and "waiting f" and "m_retransmits f \<le> 0"
  shows "m_state (Timeout cb f) = (if m_state f = CLOSING then CLOSED else STOPPED) \<and>
    packets (f_log (Timeout cb f)) = packets (f_log f)"
proof -
  have p: "packets (xs @ [CbFinished]) = packets xs" for xs
    by (induction xs rule: packets.induct) auto
  show ?thesis
    using assms
    by (cases "m_state f"; simp add: Timeout_def Timeout_term_def Timeout_conf_def waiting_def
        negotiating_def terminating_def Let_def bras_defs p)
qed

lemma packets_snoc: "packets (xs @ [OutPkt p]) = Suc (packets xs)"
  by (induction xs rule: packets.induct) auto

lemma SendConfReq_packets:
  assumes "sink_ok cb"
  shows "packets (f_log (SendConfReq cb r f)) = Suc (packets (f_log f))"
  using assms by (simp add: SendConfReq_def Let_def case_prod_beta bras_defs packets_snoc)

lemma Timeout_retry:
  assumes "sink_ok cb" and "waiting f" and "0 < m_retransmits f"
  shows "waiting (Timeout cb f)" "m_retransmits (Timeout cb f) = m_retransmits f - 1"
    "m_state (Timeout cb f) = CLOSING \<longleftrightarrow> m_state f = CLOSING"
    "packets (f_log (Timeout cb f)) = Suc (packets (f_log f))"
  using assms
  by (cases "m_state f"; simp add: Timeout_def Timeout_term_def Timeout_conf_def waiting_def
      negotiating_def terminating_def Let_def SendConfReq_packets;
      simp add: bras_defs packets_snoc)+

lemma accept_sink_ok: "sink_ok accept_sink"
  by (auto simp: sink_ok_def accept_sink_def only_sink_def intro!: exI [of _ "[]"])

section \<open>Properties\<close>



text \<open>
  In every state the automaton can reach, whatever options are set and whatever the peer
  sends: while it waits for the peer (negotiating or terminating) a timer is registered and the
  retransmission counter is not negative, so the wait ends; in the opened state no timer is left.
\<close>

theorem fsm_reachable_timer:
  assumes "reachable fsm_sys_init fsm_sys_step (cb, f)"
  shows "(waiting f \<longrightarrow> f_timer f \<noteq> None \<and> 0 \<le> m_retransmits f) \<and>
    (m_state f = OPENED \<longrightarrow> f_timer f = None)"
  using fsm_machine.reachable_inv [OF assms]
  by (auto simp: fsm_inv_def timer_inv_def waiting_def)

lemma fsm_run_reachable:
  assumes "sink_ok cb" and "\<forall>ev \<in> set evs. ev \<noteq> EvTimeout"
  shows "reachable fsm_sys_init fsm_sys_step (cb, foldl (\<lambda>f ev. fsm_do cb ev f) (fsm_new k p) evs)"
  using assms(2)
proof (induction evs rule: rev_induct)
  case Nil
  then show ?case
    using assms(1) by (auto simp: fsm_sys_init_def fsm_init_def intro: reachable.reach_init)
next
  case (snoc ev evs)
  let ?f = "foldl (\<lambda>f ev. fsm_do cb ev f) (fsm_new k p) evs"
  have "fsm_sys_step (cb, ?f) (cb, fsm_do cb ev ?f)"
    using snoc.prems by (simp add: fsm_sys_step_def fsm_step.step_event)
  with snoc.IH snoc.prems show ?case
    by (auto intro: reachable.reach_step)
qed

theorem fsm_reachable_timer_witness:
  "waiting (fsm_do accept_sink EvLowerUp (fsm_do accept_sink EvOpen (fsm_new () 0xC021))) \<and>
   f_timer (fsm_do accept_sink EvLowerUp (fsm_do accept_sink EvOpen (fsm_new () 0xC021))) \<noteq> None"
proof -
  have r: "reachable fsm_sys_init fsm_sys_step
      (accept_sink, fsm_do accept_sink EvLowerUp (fsm_do accept_sink EvOpen (fsm_new () 0xC021)))"
    using fsm_run_reachable [OF accept_sink_ok, of "[EvOpen, EvLowerUp]" "()" "0xC021"] by simp
  have w: "waiting (fsm_do accept_sink EvLowerUp (fsm_do accept_sink EvOpen (fsm_new () 0xC021)))"
    by (simp add: waiting_def negotiating_def fsm_new_def Open_def LowerUp_def Starting_def
        accept_sink_ok; simp add: accept_sink_def)
  show ?thesis using fsm_reachable_timer [OF r] w by blast
qed

text \<open>
  Layer up and layer down alternate: in every reachable state the layer callbacks issued so
  far never bring the layer up twice in a row, and the layer has been reported up and not down
  since exactly when the automaton is in the opened state.
\<close>

theorem fsm_layer_up_iff_opened:
  assumes "reachable fsm_sys_init fsm_sys_step (cb, f)"
  shows "up_after False (acts f) = Some (m_state f = OPENED)"
  using fsm_machine.reachable_inv [OF assms] by (simp add: fsm_inv_def up_inv_def)

theorem fsm_layer_up_iff_opened_witness:
  "up_after False (acts (foldl (\<lambda>f ev. fsm_do accept_sink ev f) (fsm_new () 0xC021)
     [EvOpen, EvLowerUp, EvInput [1, 9, 0, 4], EvInput [2, 1, 0, 4]])) = Some True"
proof -
  let ?f = "foldl (\<lambda>f ev. fsm_do accept_sink ev f) (fsm_new () 0xC021)
     [EvOpen, EvLowerUp, EvInput [1, 9, 0, 4], EvInput [2, 1, 0, 4]]"
  have r: "reachable fsm_sys_init fsm_sys_step (accept_sink, ?f)"
    by (rule fsm_run_reachable [OF accept_sink_ok]) simp
  have "m_state ?f = OPENED"
    by (simp add: fsm_new_def Open_def LowerUp_def Input_def Input_code_def parse_packet_def
        GETSHORT_def RcvConfReq_def RcvConfReq_switch_def RcvConfReq_answer_def Reqci_code_def
        RcvConfAck_def SendConfReq_def negotiating_def accept_sink_def bras_defs)
  with fsm_layer_up_iff_opened [OF r] show ?thesis by simp
qed

text \<open>
  A peer that stays silent is given up: after as many timeouts as there are retransmissions
  left and one more, the automaton is closed (when it was closing) or stopped, and it has sent
  exactly that many further packets.
\<close>

theorem fsm_gives_up:
  assumes "sink_ok cb" and "waiting f" and "0 \<le> m_retransmits f"
  shows "m_state (timeouts cb (Suc (nat (m_retransmits f))) f) =
      (if m_state f = CLOSING then CLOSED else STOPPED) \<and>
    packets (f_log (timeouts cb (Suc (nat (m_retransmits f))) f)) =
      packets (f_log f) + nat (m_retransmits f)"
  using assms
proof (induction "nat (m_retransmits f)" arbitrary: f)
  case 0
  then show ?case using Timeout_last [of cb f] by simp
next
  case (Suc n)
  let ?g = "Timeout cb f"
  have pos: "0 < m_retransmits f" using Suc.hyps(2) by linarith
  note retry = Timeout_retry [OF Suc.prems(1,2) pos]
  have n: "n = nat (m_retransmits ?g)" using Suc.hyps(2) retry(2) by linarith
  have "0 \<le> m_retransmits ?g" using pos retry(2) by simp
  note IH = Suc.hyps(1) [OF n Suc.prems(1) retry(1) this]
  have "timeouts cb (Suc (nat (m_retransmits f))) f = timeouts cb (Suc (nat (m_retransmits ?g))) ?g"
    using Suc.hyps(2) n by (metis timeouts.simps(2))
  with IH retry(3,4) n Suc.hyps(2) show ?case by (simp del: timeouts.simps)
qed

theorem fsm_gives_up_witness:
  "m_state (timeouts accept_sink 4 ((fsm_new () 0xC021)\<lparr>m_state := ACKSENT, m_retransmits := 3\<rparr>))
     = STOPPED"
  using fsm_gives_up [OF accept_sink_ok, of "(fsm_new () 0xC021)\<lparr>m_state := ACKSENT, m_retransmits := 3\<rparr>"]
  by (simp add: waiting_def negotiating_def del: timeouts.simps)

text \<open>
  A packet the automaton builds is read back by its own header check: for any code,
  identifier and data the parser returns the code, the identifier and the data clipped to what
  fits the default MRU, and the packet never exceeds the output buffer (MRU plus PPP header).
\<close>

theorem packet_roundtrip:
  "parse_packet (drop 4 (mk_packet protocol code pid data)) =
     Some (code, pid, take (PPP_MRU - HEADERLEN) data) \<and>
   length (mk_packet protocol code pid data) \<le> PPP_MRU + 4 \<and>
   take 4 (mk_packet protocol code pid data) = [0xff, 0x03] @ PUTSHORT protocol"
proof -
  let ?d = "take (PPP_MRU - HEADERLEN) data"
  let ?n = "length ?d + HEADERLEN"
  have pkt: "mk_packet protocol code pid data =
      ([0xff, 0x03] @ PUTSHORT protocol) @ (code # pid # (PUTSHORT ?n @ ?d))"
    by (simp add: mk_packet_def MAKEHEADER_def Let_def)
  have d4: "drop 4 (mk_packet protocol code pid data) = code # pid # (PUTSHORT ?n @ ?d)"
    unfolding pkt by simp
  have "?n < 65536" by simp
  then have len: "GETSHORT (PUTSHORT ?n ! 0) (PUTSHORT ?n ! 1) = ?n"
    by (rule GETSHORT_PUTSHORT)
  obtain a b where ab: "PUTSHORT ?n = [a, b]" by (simp add: PUTSHORT_def)
  have "parse_packet (code # pid # (PUTSHORT ?n @ ?d)) = Some (code, pid, ?d)"
    using len unfolding ab by (simp add: parse_packet_def min_def)
  then show ?thesis
    unfolding d4 by (simp add: pkt)
qed

text \<open>
  A malformed packet is ignored completely: when it is shorter than its header, when its
  length field is smaller than the header, or when its length field exceeds what was received,
  nothing of the automaton changes, no packet is sent and no callback is made.
\<close>

theorem Input_malformed:
  assumes "length pkt < HEADERLEN \<or> GETSHORT (pkt ! 2) (pkt ! 3) < HEADERLEN \<or>
    length pkt < GETSHORT (pkt ! 2) (pkt ! 3)"
  shows "Input cb pkt f = f"
  using assms by (auto simp: Input_def parse_packet_def Let_def)

theorem Input_malformed_witness:
  "Input accept_sink [1, 1, 0, 9, 0] (fsm_new () 0xC021) = fsm_new () 0xC021"
  by (rule Input_malformed) (simp add: GETSHORT_def)

end
