(* ===== verification/Ppp_Fsm_Reentrant.thy ===== *)
theory Ppp_Fsm_Reentrant
  imports Ppp_Fsm_Spec
begin

text \<open>
  Protocols whose \<^verbatim>\<open>Up\<close>, \<^verbatim>\<open>Starting\<close> or \<^verbatim>\<open>Nakci\<close> callback calls back into the automaton (IPCP closes the
  layer again when an address is missing, LCP when the line is looped back). The contract
  \<open>reentrant_sink\<close> separates the plain callbacks (\<open>base\<close>) from these; an event of the whole protocol is
  the event of the plain automaton followed by the callback, because \<^verbatim>\<open>Up\<close> and \<^verbatim>\<open>Starting\<close> are the last
  thing an event does, and after a \<^verbatim>\<open>Nakci\<close> that closed the layer nothing but the state is looked at.
\<close>

definition reentrant :: "'k sink \<Rightarrow> ('k fsm \<Rightarrow> 'k fsm) \<Rightarrow> ('k fsm \<Rightarrow> 'k fsm) \<Rightarrow>
    ('k fsm \<Rightarrow> byte list \<Rightarrow> bool \<Rightarrow> int \<times> 'k fsm) \<Rightarrow> 'k sink" where
  "reentrant base up start nak = base\<lparr>cb_Up := up, cb_Starting := start, cb_Nakci := nak\<rparr>"

lemma reentrant_fields [simp]:
  "cb_Resetci (reentrant base up start nak) = cb_Resetci base" "cb_Cilen (reentrant base up start nak) = cb_Cilen base"
  "cb_Addci (reentrant base up start nak) = cb_Addci base" "cb_Ackci (reentrant base up start nak) = cb_Ackci base"
  "cb_Nakci (reentrant base up start nak) = nak" "cb_Rejci (reentrant base up start nak) = cb_Rejci base"
  "cb_Reqci (reentrant base up start nak) = cb_Reqci base" "cb_Up (reentrant base up start nak) = up"
  "cb_Down (reentrant base up start nak) = cb_Down base" "cb_Starting (reentrant base up start nak) = start"
  "cb_Finished (reentrant base up start nak) = cb_Finished base"
  "cb_Retransmit (reentrant base up start nak) = cb_Retransmit base"
  "cb_ExtCode (reentrant base up start nak) = cb_ExtCode base"
  by (simp_all add: reentrant_def)

locale reentrant_sink =
  fixes base :: "'k sink" and up start :: "'k fsm \<Rightarrow> 'k fsm"
    and nak :: "'k fsm \<Rightarrow> byte list \<Rightarrow> bool \<Rightarrow> int \<times> 'k fsm" and inv :: "'k fsm \<Rightarrow> bool"
  assumes base_ok: "sink_ok base"
    and base_up: "cb_Up base f = f" and base_start: "cb_Starting base f = f"
    and up_nakloops: "m_state f = OPENED \<Longrightarrow> up (f\<lparr>m_nakloops := n\<rparr>) = (up f)\<lparr>m_nakloops := n\<rparr>"
    and no_flags: "inv f \<Longrightarrow> m_flags f = 0"
    and inv_same: "inv f \<Longrightarrow> m_state f = OPENED \<or> m_state (fsm_do base ev f) \<noteq> OPENED \<Longrightarrow> inv (fsm_do base ev f)"
    and inv_open: "inv f \<Longrightarrow> m_state f \<noteq> OPENED \<Longrightarrow> m_state (fsm_do base ev f) = OPENED \<Longrightarrow>
      inv (up (fsm_do base ev f))"
    and inv_start: "inv f \<Longrightarrow> m_state f = STARTING \<Longrightarrow> inv (start f)"
    and nak_closes: "nak f p b = cb_Nakci base f p b \<or>
      fst (nak f p b) = 1 \<and> m_state (snd (nak f p b)) \<in> {INITIAL, CLOSED, CLOSING}"
    and inv_nak: "inv f \<Longrightarrow> nak (f\<lparr>m_rnakloops := n\<rparr>) p b \<noteq> cb_Nakci base (f\<lparr>m_rnakloops := n\<rparr>) p b \<Longrightarrow>
      inv ((snd (nak (f\<lparr>m_rnakloops := n\<rparr>) p b))\<lparr>m_seen_ack := True\<rparr>)"
    and inv_send: "inv f \<Longrightarrow> inv (SendData c i d f)"
begin

abbreviation whole :: "'k sink" where "whole \<equiv> reentrant base up start nak"

lemma whole_same:
  "SendConfReq whole = SendConfReq base" "Down whole = Down base" "Finished whole = Finished base"
  "TerminateLayer whole = TerminateLayer base" "LowerUp whole = LowerUp base" "Close whole = Close base"
  "Timeout whole = Timeout base" "ProtReject whole = ProtReject base" "RcvTermReq whole = RcvTermReq base"
  "RcvTermack whole = RcvTermack base" "RcvConfReq_switch whole = RcvConfReq_switch base" "Reqci_code whole = Reqci_code base"
proof -
  show s: "SendConfReq whole = SendConfReq base" "Down whole = Down base" "Finished whole = Finished base"
    by (simp_all add: fun_eq_iff SendConfReq_def Down_def Finished_def)
  show t: "TerminateLayer whole = TerminateLayer base" by (simp add: fun_eq_iff TerminateLayer_def s Let_def)
  show "LowerUp whole = LowerUp base" "Close whole = Close base" "Timeout whole = Timeout base"
      "ProtReject whole = ProtReject base" "RcvTermReq whole = RcvTermReq base"
      "RcvTermack whole = RcvTermack base" "RcvConfReq_switch whole = RcvConfReq_switch base" "Reqci_code whole = Reqci_code base"
    unfolding LowerUp_def Close_def Timeout_def Timeout_term_def Timeout_conf_def
        ProtReject_def RcvTermReq_def RcvTermack_def RcvConfReq_switch_def Reqci_code_def reentrant_fields s t by (rule refl)+
qed

lemma Up_whole: "Up whole f = up (Up base f)"
  by (simp add: Up_def base_up)

lemma Starting_whole: "Starting whole f = start (Starting base f)"
  by (simp add: Starting_def base_start)

lemma Starting_state: "m_state (Starting base f) = m_state f"
  by (simp add: Starting_def base_start)

lemma LowerDown_whole:
  "LowerDown whole f = (if m_state f = STOPPED then start (LowerDown base f) else LowerDown base f)"
  by (cases "m_state f") (simp_all add: LowerDown_def whole_same Starting_whole)

lemma Open_whole:
  "m_flags f = 0 \<Longrightarrow> Open whole f = (if m_state f = INITIAL then start (Open base f) else Open base f)"
  by (cases "m_state f") (simp_all add: Open_def Open_restart_def whole_same Starting_whole)

lemma RcvConfReq_whole:
  "RcvConfReq whole pid inp f =
     (let g = RcvConfReq base pid inp f
      in if m_state f \<noteq> OPENED \<and> m_state g = OPENED then up g else g)"
proof (cases "RcvConfReq_switch base pid f")
  case (Inl g)
  then have "m_state g = m_state f" using base_ok
    by (cases "m_state f") (auto simp: RcvConfReq_switch_def SendData_def Output_def)
  then show ?thesis using Inl by (simp add: RcvConfReq_def whole_same)
next
  case (Inr h)
  then have h: "m_state h \<noteq> OPENED"
    using base_ok by (cases "m_state f") (auto simp: RcvConfReq_switch_def)
  obtain code out k where r: "Reqci_code base inp h = (code, out, k)" by (cases "Reqci_code base inp h")
  have k: "m_state k = m_state h" using Reqci_code_fields(1) [OF base_ok, of inp h] r by simp
  have o: "m_state f = OPENED \<Longrightarrow> m_state h = REQSENT"
    using Inr base_ok by (auto simp: RcvConfReq_switch_def)
  show ?thesis
    using Inr h k o
    by (auto simp: RcvConfReq_def RcvConfReq_answer_def whole_same r Up_whole Let_def Up_def base_up
        SendData_def Output_def up_nakloops)
qed

lemma RcvConfAck_whole:
  "RcvConfAck whole pid inp f =
     (let g = RcvConfAck base pid inp f
      in if m_state f \<noteq> OPENED \<and> m_state g = OPENED then up g else g)"
  using base_ok
  by (cases "m_state f")
    (auto simp: RcvConfAck_def whole_same Up_whole Let_def Up_def base_up SendData_def Output_def case_prod_beta)

lemma Input_state_rest:
  assumes "m_state f \<noteq> OPENED"
  shows "m_state (RcvConfNakRej base c pid inp f) \<noteq> OPENED" "m_state (RcvTermReq base pid f) \<noteq> OPENED"
    "m_state (RcvTermack base f) \<noteq> OPENED" "m_state (RcvCodeReject inp f) \<noteq> OPENED"
  using assms base_ok
  by (cases "m_state f"; simp add: RcvConfNakRej_def RcvTermReq_def RcvTermack_def RcvCodeReject_def Let_def
      case_prod_beta bras_defs)+

lemma RcvConfNakRej_same:
  assumes "RcvConfNakRej_check whole c inp f = RcvConfNakRej_check base c inp f"
  shows "RcvConfNakRej whole c pid inp f = RcvConfNakRej base c pid inp f"
  using assms unfolding RcvConfNakRej_def whole_same by (simp only:)

text \<open>A Nak after which the layer was closed: the answer of the automaton only depends on the state.\<close>

lemma RcvConfNakRej_closed:
  assumes "RcvConfNakRej_check whole c inp f = (1, g)" and "m_state g \<in> {INITIAL, CLOSED, CLOSING}"
    and "pid = m_reqid f" and "\<not> m_seen_ack f"
  shows "RcvConfNakRej whole c pid inp f =
    (if m_state g = CLOSED then SendData TERMACK pid [] (g\<lparr>m_seen_ack := True\<rparr>) else g\<lparr>m_seen_ack := True\<rparr>)"
  using assms by (auto simp: RcvConfNakRej_def)

lemma inv_RcvConfNakRej:
  assumes "inv f"
  shows "RcvConfNakRej whole c pid inp f = RcvConfNakRej base c pid inp f \<or> inv (RcvConfNakRej whole c pid inp f)"
proof (cases "RcvConfNakRej_check whole c inp f = RcvConfNakRej_check base c inp f \<or> pid \<noteq> m_reqid f \<or> m_seen_ack f")
  case True
  then show ?thesis by (auto simp: RcvConfNakRej_same) (auto simp: RcvConfNakRej_def)
next
  case False
  let ?f = "f\<lparr>m_rnakloops := m_rnakloops f + 1\<rparr>" and ?b = "m_rnakloops f + 1 \<ge> m_maxnakloops f"
  have c: "c = CONFNAK" and n: "nak ?f inp ?b \<noteq> cb_Nakci base ?f inp ?b"
    using False by (auto simp: RcvConfNakRej_check_def split: if_splits)
  obtain g where g: "nak ?f inp ?b = (1, g)" using n nak_closes [of ?f inp ?b] by (cases "nak ?f inp ?b") auto
  have k: "RcvConfNakRej_check whole c inp f = (1, g)" using c g by (simp add: RcvConfNakRej_check_def)
  have st: "m_state g \<in> {INITIAL, CLOSED, CLOSING}" using n g nak_closes [of ?f inp ?b] by auto
  have "inv (g\<lparr>m_seen_ack := True\<rparr>)" using inv_nak [OF assms n] g by simp
  then show ?thesis using RcvConfNakRej_closed [OF k st] False inv_send by simp
qed

lemma Input_whole:
  assumes "inv f"
  shows "Input whole pkt f =
     (let g = Input base pkt f in if m_state f \<noteq> OPENED \<and> m_state g = OPENED then up g else g) \<or>
   inv (Input whole pkt f)"
proof (cases "parse_packet pkt = None \<or> m_state f = INITIAL \<or> m_state f = STARTING")
  case True
  then show ?thesis by (auto simp: Input_def Let_def split: option.split)
next
  case False
  then obtain c pid inp where a: "parse_packet pkt = Some (c, pid, inp)" by auto
  have i: "Input cb pkt f = Input_code cb pkt c pid inp f" for cb :: "'k sink"
    using False by (simp add: Input_def a)
  show ?thesis
  proof (cases "RcvConfNakRej whole c pid inp f = RcvConfNakRej base c pid inp f")
    case True
    have "Input_code whole pkt c pid inp f =
       (let g = Input_code base pkt c pid inp f in if m_state f \<noteq> OPENED \<and> m_state g = OPENED then up g else g)"
      using Input_state_rest base_ok True
      by (auto simp: Input_code_def RcvConfReq_whole RcvConfAck_whole whole_same Let_def case_prod_beta
          SendData_def Output_def)
    then show ?thesis by (simp add: i)
  next
    case False
    then have n: "inv (RcvConfNakRej whole c pid inp f)" using inv_RcvConfNakRej [OF assms, of c pid inp] by blast
    show ?thesis
    proof (cases "c = CONFNAK \<or> c = CONFREJ")
      case True
      then show ?thesis using n by (auto simp: i Input_code_def)
    next
      case False
      then have "Input_code whole pkt c pid inp f =
         (let g = Input_code base pkt c pid inp f in if m_state f \<noteq> OPENED \<and> m_state g = OPENED then up g else g)"
        using Input_state_rest base_ok
        by (auto simp: Input_code_def RcvConfReq_whole RcvConfAck_whole whole_same Let_def case_prod_beta
            SendData_def Output_def)
      then show ?thesis by (simp add: i)
    qed
  qed
qed

lemma TerminateLayer_not_open: "n \<noteq> OPENED \<Longrightarrow> m_state (TerminateLayer base n f) \<noteq> OPENED"
  using base_ok by (simp add: TerminateLayer_def Let_def bras_defs)

lemma admin_not_open:
  assumes "m_state f \<noteq> OPENED"
  shows "m_state (LowerUp base f) \<noteq> OPENED" "m_state (LowerDown base f) \<noteq> OPENED" "m_state (Timeout base f) \<noteq> OPENED"
    "m_state (ProtReject base f) \<noteq> OPENED" "m_state (the (Close base (Some r) f)) \<noteq> OPENED"
    "m_flags f = 0 \<Longrightarrow> m_state (Open base f) \<noteq> OPENED"
proof -
  show "m_state (LowerUp base f) \<noteq> OPENED" "m_state (LowerDown base f) \<noteq> OPENED"
    using assms base_ok by (cases "m_state f"; simp add: LowerUp_def LowerDown_def bras_defs)+
  show "m_state (Timeout base f) \<noteq> OPENED"
    using assms base_ok
    by (cases "m_state f"; simp add: Timeout_def Timeout_term_def Timeout_conf_def Let_def bras_defs)
  show "m_state (ProtReject base f) \<noteq> OPENED"
    using assms base_ok by (cases "m_state f"; simp add: ProtReject_def bras_defs)
  show "m_state (the (Close base (Some r) f)) \<noteq> OPENED"
    using assms by (cases "m_state f"; simp add: Close_def TerminateLayer_not_open Let_def)
  show "m_flags f = 0 \<Longrightarrow> m_state (Open base f) \<noteq> OPENED"
    using assms base_ok by (cases "m_state f"; simp add: Open_def Open_restart_def bras_defs)
qed

theorem inv_whole: "inv f \<Longrightarrow> inv (fsm_do whole ev f)"
proof -
  assume i: "inv f"
  have same: "m_state f = OPENED \<or> m_state (fsm_do base e f) \<noteq> OPENED \<Longrightarrow> inv (fsm_do base e f)" for e
    using inv_same [OF i] .
  have adm: "m_state f = OPENED \<or> m_state (fsm_do base e f) \<noteq> OPENED" if "\<forall>p. e \<noteq> EvInput p" for e
  proof (cases "m_state f = OPENED")
    case False
    then show ?thesis using that no_flags [OF i] by (cases e) (simp_all add: admin_not_open)
  qed simp
  show ?thesis
  proof (cases ev)
    case EvLowerDown
    have "inv (LowerDown base f)" using same [of EvLowerDown] adm [of EvLowerDown] by simp
    moreover have "m_state f = STOPPED \<Longrightarrow> m_state (LowerDown base f) = STARTING"
      by (simp add: LowerDown_def Starting_state)
    ultimately show ?thesis using EvLowerDown inv_start by (simp add: LowerDown_whole)
  next
    case EvOpen
    have "inv (Open base f)" using same [of EvOpen] adm [of EvOpen] by simp
    moreover have "m_state f = INITIAL \<Longrightarrow> m_state (Open base f) = STARTING"
      by (simp add: Open_def Starting_state)
    ultimately show ?thesis using EvOpen inv_start no_flags [OF i] by (simp add: Open_whole)
  next
    case (EvInput pkt)
    show ?thesis using same [of "EvInput pkt"] inv_open [OF i, of "EvInput pkt"] Input_whole [OF i, of pkt]
      by (auto simp: EvInput Let_def split: if_splits)
  qed (use same [of ev] adm [of ev] in \<open>simp_all add: whole_same\<close>)
qed

end

section \<open>What a change of the protocol half or a packet sent leaves alone\<close>

lemma upd_sink_inv [simp]: "timer_inv (f\<lparr>f_sink := k\<rparr>) = timer_inv f" "up_inv (f\<lparr>f_sink := k\<rparr>) = up_inv f"
  by (simp_all add: timer_inv_def up_inv_def)

lemma SendData_inv [simp]:
  "timer_inv (SendData c i d f) = timer_inv f" "up_inv (SendData c i d f) = up_inv f" "m_flags (SendData c i d f) = m_flags f"
  "f_sink (SendData c i d f) = f_sink f" "m_state (SendData c i d f) = m_state f"
  by (simp_all add: SendData_def Output_def timer_inv_def up_inv_def)

section \<open>No event changes the flags\<close>

lemma ExtCode_flags [simp]: "sink_ok cb \<Longrightarrow> m_flags (snd (cb_ExtCode cb f c i p)) = m_flags f"
proof -
  assume "sink_ok cb"
  then have "\<exists>k pkts. snd (cb_ExtCode cb f c i p) = f\<lparr>f_sink := k, f_log := f_log f @ map OutPkt pkts\<rparr>"
    by (simp add: sink_ok_def)
  then show ?thesis by auto
qed

lemma flags_TerminateLayer [simp]: "sink_ok cb \<Longrightarrow> m_flags (TerminateLayer cb n f) = m_flags f"
  by (simp add: TerminateLayer_def Let_def bras_defs)

lemma flags_admin:
  assumes "sink_ok cb"
  shows "m_flags (LowerUp cb f) = m_flags f" "m_flags (LowerDown cb f) = m_flags f" "m_flags (Timeout cb f) = m_flags f"
    "m_flags (ProtReject cb f) = m_flags f" "m_flags (the (Close cb (Some r) f)) = m_flags f"
  using assms
  by (cases "m_state f"; simp add: LowerUp_def LowerDown_def Timeout_def Timeout_term_def Timeout_conf_def
      ProtReject_def Close_def Let_def bras_defs)+

lemma flags_Rcv:
  assumes "sink_ok cb"
  shows "m_flags (RcvConfReq cb pid inp f) = m_flags f" "m_flags (RcvConfAck cb pid inp f) = m_flags f"
    "m_flags (RcvConfNakRej cb c pid inp f) = m_flags f" "m_flags (RcvTermReq cb pid f) = m_flags f"
    "m_flags (RcvTermack cb f) = m_flags f" "m_flags (RcvCodeReject inp f) = m_flags f"
  using assms
  by (cases "m_state f"; simp add: RcvConfReq_def RcvConfReq_switch_def RcvConfReq_answer_def Reqci_code_def
      RcvConfAck_def RcvConfNakRej_def RcvConfNakRej_check_def RcvTermReq_def RcvTermack_def RcvCodeReject_def
      Let_def case_prod_beta bras_defs)+

lemma flags_do:
  assumes "sink_ok cb"
  shows "m_flags (fsm_do cb ev f) = m_flags f"
proof (cases ev)
  case EvOpen
  then show ?thesis using assms
    by (cases "m_state f") (simp_all add: Open_def Open_restart_def flags_admin bras_defs)
next
  case (EvInput pkt)
  have "m_flags (Input_code cb pkt c pid inp f) = m_flags f" for c pid inp
    using assms by (simp add: Input_code_def flags_Rcv Let_def case_prod_beta SendData_def Output_def)
  then show ?thesis by (simp add: EvInput Input_def split: option.split)
qed (use assms in \<open>simp_all add: flags_admin\<close>)

section \<open>Protocols that notify their owner\<close>

text \<open>
  A protocol half that passes \<^verbatim>\<open>Up\<close> and \<^verbatim>\<open>Down\<close> on to its owner: \<open>told\<close> says that the owner was last told
  the layer is up, \<open>good\<close> is what holds of the negotiated options while it is, \<open>keep\<close> what all
  callbacks keep. Only \<^verbatim>\<open>Down\<close> changes what the owner was told; a rejected answer of the peer leaves the options of an opened layer alone.
\<close>

locale telling_sink =
  fixes base :: "'k sink" and told good keep :: "'k \<Rightarrow> bool"
  assumes telling_ok: "sink_ok base"
    and told_keep: "told (f_sink (cb_Resetci base f)) = told (f_sink f)"
      "told (f_sink (snd (cb_Cilen base f))) = told (f_sink f)"
      "told (f_sink (snd (cb_Addci base f n))) = told (f_sink f)"
      "told (f_sink (snd (cb_Ackci base f p))) = told (f_sink f)"
      "told (f_sink (snd (cb_Nakci base f p b))) = told (f_sink f)"
      "told (f_sink (snd (cb_Rejci base f p))) = told (f_sink f)"
      "told (f_sink (snd (snd (cb_Reqci base f p b)))) = told (f_sink f)"
      "told (f_sink (cb_Starting base f)) = told (f_sink f)"
      "told (f_sink (cb_Finished base f)) = told (f_sink f)"
      "told (f_sink (cb_Retransmit base f)) = told (f_sink f)"
      "told (f_sink (snd (cb_ExtCode base f c i p))) = told (f_sink f)"
    and told_down: "keep (f_sink f) \<Longrightarrow> \<not> told (f_sink (cb_Down base f))"
    and keep_keep: "keep (f_sink f) \<Longrightarrow> keep (f_sink (cb_Resetci base f))"
      "keep (f_sink f) \<Longrightarrow> keep (f_sink (snd (cb_Cilen base f)))"
      "keep (f_sink f) \<Longrightarrow> keep (f_sink (snd (cb_Addci base f n)))"
      "keep (f_sink f) \<Longrightarrow> keep (f_sink (snd (cb_Ackci base f p)))"
      "keep (f_sink f) \<Longrightarrow> keep (f_sink (snd (cb_Nakci base f p b)))"
      "keep (f_sink f) \<Longrightarrow> keep (f_sink (snd (cb_Rejci base f p)))"
      "keep (f_sink f) \<Longrightarrow> keep (f_sink (snd (snd (cb_Reqci base f p b))))"
      "keep (f_sink f) \<Longrightarrow> keep (f_sink (cb_Down base f))"
      "keep (f_sink f) \<Longrightarrow> keep (f_sink (cb_Up base f))"
      "keep (f_sink f) \<Longrightarrow> keep (f_sink (cb_Starting base f))"
      "keep (f_sink f) \<Longrightarrow> keep (f_sink (cb_Finished base f))"
      "keep (f_sink f) \<Longrightarrow> keep (f_sink (cb_Retransmit base f))"
      "keep (f_sink f) \<Longrightarrow> keep (f_sink (snd (cb_ExtCode base f c i p)))"
    and good_keep: "good (f_sink (snd (cb_Ackci base f p))) = good (f_sink f)"
      "m_state f = OPENED \<Longrightarrow> fst (cb_Nakci base f p b) = 0 \<Longrightarrow>
        good (f_sink (snd (cb_Nakci base f p b))) = good (f_sink f)"
      "m_state f = OPENED \<Longrightarrow> fst (cb_Rejci base f p) = 0 \<Longrightarrow>
        good (f_sink (snd (cb_Rejci base f p))) = good (f_sink f)"
      "good (f_sink (snd (cb_ExtCode base f c i p))) = good (f_sink f)"
begin

definition tell :: "'k fsm \<Rightarrow> bool" where
  "tell f \<longleftrightarrow> keep (f_sink f) \<and>
     (if m_state f = OPENED then told (f_sink f) \<and> good (f_sink f) else \<not> told (f_sink f))"

lemmas tell_simps = tell_def told_keep told_down keep_keep bras_defs Let_def case_prod_beta

lemma told_SendConfReq [simp]: "told (f_sink (SendConfReq base r f)) = told (f_sink f)"
  by (simp add: SendConfReq_def tell_simps)

lemma keep_SendConfReq [simp]: "keep (f_sink f) \<Longrightarrow> keep (f_sink (SendConfReq base r f))"
  by (simp add: SendConfReq_def tell_simps)

lemma told_TerminateLayer [simp]:
  "keep (f_sink f) \<Longrightarrow> \<not> told (f_sink (TerminateLayer base n f))"
  "keep (f_sink f) \<Longrightarrow> keep (f_sink (TerminateLayer base n f))"
  by (simp_all add: TerminateLayer_def tell_simps)

lemma state_TerminateLayer [simp]: "n \<noteq> OPENED \<Longrightarrow> m_state (TerminateLayer base n f) \<noteq> OPENED"
  using telling_ok by (simp add: TerminateLayer_def Let_def bras_defs)

lemma tell_admin:
  assumes "tell f"
  shows "tell (LowerUp base f)" "tell (LowerDown base f)" "tell (Timeout base f)" "tell (ProtReject base f)"
    "tell (the (Close base (Some r) f))" "m_flags f = 0 \<Longrightarrow> tell (Open base f)"
proof -
  show "tell (LowerUp base f)" "tell (LowerDown base f)"
    using assms telling_ok by (cases "m_state f"; simp add: LowerUp_def LowerDown_def tell_simps)+
  show "tell (Timeout base f)"
    using assms telling_ok
    by (cases "m_state f"; simp add: Timeout_def Timeout_term_def Timeout_conf_def tell_simps)
  show "tell (ProtReject base f)"
    using assms telling_ok by (cases "m_state f"; simp add: ProtReject_def tell_simps)
  show "tell (the (Close base (Some r) f))"
    using assms by (cases "m_state f"; simp add: Close_def tell_def Let_def)
  show "m_flags f = 0 \<Longrightarrow> tell (Open base f)"
    using assms telling_ok by (cases "m_state f"; simp add: Open_def Open_restart_def tell_simps)
qed

lemma tell_RcvConfReq:
  assumes "tell f" and "m_state f = OPENED \<or> m_state (RcvConfReq base pid inp f) \<noteq> OPENED"
  shows "tell (RcvConfReq base pid inp f)"
proof -
  have "keep (f_sink (RcvConfReq base pid inp f)) \<or> m_state (RcvConfReq base pid inp f) = OPENED"
      "\<not> told (f_sink (RcvConfReq base pid inp f)) \<or> m_state (RcvConfReq base pid inp f) = OPENED"
    using assms(1) telling_ok
    by (cases "m_state f"; simp add: RcvConfReq_def RcvConfReq_switch_def RcvConfReq_answer_def Reqci_code_def
        tell_simps)+
  moreover have "m_state f = OPENED \<Longrightarrow> m_state (RcvConfReq base pid inp f) \<noteq> OPENED"
    using telling_ok
    by (simp add: RcvConfReq_def RcvConfReq_switch_def RcvConfReq_answer_def Let_def case_prod_beta bras_defs)
  ultimately show ?thesis using assms(2) by (auto simp: tell_def)
qed

lemma tell_RcvConfAck:
  assumes "tell f" and "m_state f = OPENED \<or> m_state (RcvConfAck base pid inp f) \<noteq> OPENED"
  shows "tell (RcvConfAck base pid inp f)"
  using assms telling_ok
  by (cases "m_state f"; auto simp: RcvConfAck_def tell_simps good_keep split: if_splits)

lemma tell_RcvConfNakRej:
  assumes "tell f"
  shows "tell (RcvConfNakRej base c pid inp f)"
  using assms telling_ok
  by (cases "m_state f"; simp add: RcvConfNakRej_def RcvConfNakRej_check_def tell_simps good_keep)

lemma tell_Rcv_rest:
  assumes "tell f"
  shows "tell (RcvTermReq base pid f)" "tell (RcvTermack base f)" "tell (RcvCodeReject inp f)"
  using assms telling_ok
  by (cases "m_state f"; simp add: RcvTermReq_def RcvTermack_def RcvCodeReject_def tell_simps)+

lemma tell_do:
  assumes t: "tell f" and flags: "m_flags f = 0" and o: "m_state f = OPENED \<or> m_state (fsm_do base ev f) \<noteq> OPENED"
  shows "tell (fsm_do base ev f)"
proof (cases "\<exists>pkt. ev = EvInput pkt")
  case True
  then obtain pkt where ev: "ev = EvInput pkt" by blast
  show ?thesis
  proof (cases "parse_packet pkt = None \<or> m_state f = INITIAL \<or> m_state f = STARTING")
    case True
    then show ?thesis using t by (auto simp: ev Input_def split: option.split)
  next
    case False
    then obtain c pid inp where p: "parse_packet pkt = Some (c, pid, inp)" by auto
    have i: "Input base pkt f = Input_code base pkt c pid inp f" using False by (simp add: Input_def p)
    have x: "tell (SendData code k d (g\<lparr>m_id := j\<rparr>))" if "tell g" for code k d g j
      using that by (simp add: tell_def SendData_def Output_def)
    have "tell (snd (cb_ExtCode base f c pid inp))"
      using t telling_ok by (simp add: tell_def told_keep good_keep keep_keep)
    then show ?thesis using o t
      by (auto simp: ev i Input_code_def tell_RcvConfReq tell_RcvConfAck tell_RcvConfNakRej tell_Rcv_rest x Let_def
          case_prod_beta split: if_splits)
  qed
next
  case False
  then show ?thesis using t flags by (cases ev) (simp_all add: tell_admin)
qed

lemma keep_admin:
  assumes "keep (f_sink f)"
  shows "keep (f_sink (LowerUp base f))" "keep (f_sink (LowerDown base f))" "keep (f_sink (Timeout base f))"
    "keep (f_sink (ProtReject base f))" "keep (f_sink (the (Close base (Some r) f)))"
  using assms
  by (cases "m_state f"; simp add: LowerUp_def LowerDown_def Timeout_def Timeout_term_def Timeout_conf_def
      ProtReject_def Close_def tell_simps)+

lemma keep_Rcv:
  assumes "keep (f_sink f)"
  shows "keep (f_sink (RcvConfReq base pid inp f))" "keep (f_sink (RcvConfAck base pid inp f))"
    "keep (f_sink (RcvConfNakRej base c pid inp f))" "keep (f_sink (RcvTermReq base pid f))"
    "keep (f_sink (RcvTermack base f))" "keep (f_sink (RcvCodeReject inp f))"
proof -
  show "keep (f_sink (RcvConfReq base pid inp f))"
    using assms telling_ok
    by (cases "m_state f"; simp add: RcvConfReq_def RcvConfReq_switch_def RcvConfReq_answer_def Reqci_code_def tell_simps)
  show "keep (f_sink (RcvConfAck base pid inp f))"
    using assms telling_ok by (cases "m_state f"; simp add: RcvConfAck_def tell_simps)
  show "keep (f_sink (RcvConfNakRej base c pid inp f))"
    using assms telling_ok by (cases "m_state f"; simp add: RcvConfNakRej_def RcvConfNakRej_check_def tell_simps)
  show "keep (f_sink (RcvTermReq base pid f))" "keep (f_sink (RcvTermack base f))" "keep (f_sink (RcvCodeReject inp f))"
    using assms telling_ok
    by (cases "m_state f"; simp add: RcvTermReq_def RcvTermack_def RcvCodeReject_def tell_simps)+
qed

lemma keep_do:
  assumes "keep (f_sink f)"
  shows "keep (f_sink (fsm_do base ev f))"
proof (cases ev)
  case EvOpen
  then show ?thesis using assms
    by (cases "m_state f") (simp_all add: Open_def Open_restart_def keep_admin tell_simps)
next
  case (EvInput pkt)
  have "keep (f_sink (Input_code base pkt c pid inp f))" for c pid inp
    using assms by (simp add: Input_code_def keep_Rcv keep_keep Let_def case_prod_beta SendData_def Output_def)
  then show ?thesis using assms by (simp add: EvInput Input_def split: option.split)
qed (use assms in \<open>simp_all add: keep_admin\<close>)

end

end
