(* ===== verification/Ppp_Lcp_Machine.thy ===== *)
theory Ppp_Lcp_Machine
  imports Ppp_Lcp_Spec Ppp_Fsm_Reentrant "HOL-Library.Sublist"
begin

text \<open>
  LCP composed with the automaton: the events, the restart timer, the echo timer and the calls of the
  session as steps of one machine, and what holds in all of its states; and the supervision of the
  link by echo requests.
\<close>

section \<open>The machine\<close>

lemma lcp_sink_reentrant: "lcp_sink = reentrant lcp_base lcp_Up (LowerUp lcp_base) lcp_Nakci"
  by (simp add: lcp_sink_def reentrant_def)

inductive lcp_trans :: "lcp fsm \<Rightarrow> lcp fsm \<Rightarrow> bool" where
  lcp_event: "ev \<noteq> EvTimeout \<Longrightarrow> lcp_trans f (fsm_do lcp_sink ev f)"
| lcp_timeout: "f_timer f \<noteq> None \<Longrightarrow> lcp_trans f (fsm_do lcp_sink EvTimeout f)"
| lcp_echo_timeout: "lcp_echo_timer (f_sink f) \<noteq> None \<Longrightarrow> lcp_trans f (EchoTimeout f)"
| lcp_opened: "lcp_trans f (lcp_Open f)"
| lcp_protrej: "lcp_trans f (SendProtRej p f)"

definition lcp_start :: "lcp fsm \<Rightarrow> bool" where
  "lcp_start f \<longleftrightarrow> (\<exists>authType rnd. f = lcp_Init (fsm_new (lcp_SetAuthType authType (CPPPLCP_new rnd)) 0xC021))"

text \<open>The session was last told that LCP is up.\<close>

definition lcp_told :: "lcp \<Rightarrow> bool" where
  "lcp_told s \<longleftrightarrow> (let ns = filter (\<lambda>n. n \<noteq> OnLCPTerminate) (lcp_notices s) in ns \<noteq> [] \<and> last ns = OnLCPUp)"

text \<open>
  The echo timer is registered exactly while the session believes LCP to be up; and the calls of the
  session so far are still those of \<open>xs\<close> and later ones.
\<close>

definition lcp_keep :: "lcp_notice list \<Rightarrow> lcp \<Rightarrow> bool" where
  "lcp_keep xs s \<longleftrightarrow> (lcp_echo_timer s \<noteq> None \<longleftrightarrow> m_lcp_echo_timer_running s) \<and>
     (m_lcp_echo_timer_running s \<longleftrightarrow> lcp_told s) \<and> m_lcp_echo_interval s \<noteq> 0 \<and> 0 < m_lcp_echo_fails s \<and>
     \<not> opt_passive (m_lcp_wantoptions s) \<and> \<not> opt_silent (m_lcp_wantoptions s) \<and> prefix xs (lcp_notices s)"

section \<open>The callbacks of LCP keep both contracts\<close>

text \<open>Checking options changes nothing of the protocol but its position in the random numbers.\<close>

definition rand_only :: "lcp \<Rightarrow> lcp \<Rightarrow> bool" where
  "rand_only s t \<longleftrightarrow> (\<exists>n. t = s\<lparr>lcp_rand_pos := n\<rparr>)"

lemma rand_only_refl [simp]: "rand_only s s"
  unfolding rand_only_def by (rule exI [of _ "lcp_rand_pos s"]) simp

lemma rand_only_trans: "rand_only s t \<Longrightarrow> rand_only t u \<Longrightarrow> rand_only s u"
  by (auto simp: rand_only_def)

lemma rand_only_magic [simp]: "rand_only s (snd (magic s))"
  by (auto simp: rand_only_def magic_def)

lemma req_rand:
  "snd (snd (snd (req_mru ao st ci))) = snd st" "snd (snd (snd (req_asyncmap ao st ci))) = snd st"
  "snd (snd (snd (req_pap ao st ci))) = snd st" "snd (snd (snd (req_chap ao st ci))) = snd st"
  "snd (snd (snd (req_eap ao st ci))) = snd st" "snd (snd (snd (req_quality ao st ci))) = snd st"
  "rand_only (snd st) (snd (snd (snd (req_magicnumber ao go st ci))))"
  by (simp_all add: req_mru_def req_asyncmap_def req_pap_def req_chap_def req_eap_def req_quality_def
      req_magicnumber_def Let_def case_prod_beta)

lemma req_ci_rand: "rand_only (snd st) (snd (snd (snd (lcp_req_ci ao go st ci))))"
proof -
  have "snd (snd (snd (req_authtype ao st ci))) = snd st" by (simp add: req_authtype_def req_rand Let_def)
  then show ?thesis by (cases st) (simp add: lcp_req_ci_def req_rand Let_def, use req_rand(7) in force)
qed

lemma lcp_fold_rand: "rand_only (snd (snd x)) (snd (snd (fold (lcp_step ao go rej) xs x)))"
proof (induction xs arbitrary: x)
  case (Cons ci xs)
  have "rand_only (snd (snd x)) (snd (snd (lcp_step ao go rej ci x)))"
    using req_ci_rand [of "snd x" ao go ci] by (simp add: lcp_step_def Let_def case_prod_beta)
  then show ?case using Cons [of "lcp_step ao go rej ci x"] rand_only_trans by simp
qed simp

lemma lcp_Reqci_rand: "\<exists>ho n. snd (snd (lcp_Reqci s inp rej)) = s\<lparr>m_lcp_hisoptions := ho, lcp_rand_pos := n\<rparr>"
proof -
  let ?x = "(\<lparr>la_rc = CI_ACK, la_nak = [], la_rej = []\<rparr>, (lcp_options_zero, s))"
  have "rand_only s (snd (snd (fold (lcp_step (m_lcp_allowoptions s) (m_lcp_gotoptions s) rej) (cis inp) ?x)))"
    using lcp_fold_rand [of ?x] by simp
  then obtain n where n: "snd (snd (fold (lcp_step (m_lcp_allowoptions s) (m_lcp_gotoptions s) rej) (cis inp) ?x)) =
      s\<lparr>lcp_rand_pos := n\<rparr>" by (auto simp: rand_only_def)
  obtain ho where ho: "snd (snd (lcp_Reqci s inp rej)) = s\<lparr>lcp_rand_pos := n, m_lcp_hisoptions := ho\<rparr>"
    using n by (simp add: lcp_Reqci_def lcp_req_loop_fold Let_def case_prod_beta)
  show ?thesis unfolding ho by (intro exI [of _ ho] exI [of _ n]) simp
qed

lemma ln_lcp_NAKCI:
  "(\<And>v st. ln_lcp (code v st) = ln_lcp st) \<Longrightarrow> ln_lcp (NAKCI n opt neg seen code st) = ln_lcp st"
  by (simp add: NAKCI_def Let_def)

lemma ln_lcp_magic:
  "(\<And>v st. rand_only (ln_lcp st) (ln_lcp (code v st))) \<Longrightarrow> rand_only (ln_lcp st) (ln_lcp (NAKCI n opt neg seen code st))"
  by (simp add: NAKCI_def Let_def) (metis lcp_nak.select_convs(5) lcp_nak.surjective lcp_nak.update_convs(1,2))

lemma lcp_Nakci_rand: "rand_only s (snd (snd (lcp_Nakci_check s p b)))"
proof -
  have 1: "ln_lcp (lcp_nak_first go wo st) = ln_lcp st" for go wo st
    by (simp add: lcp_nak_first_def ln_lcp_NAKCI Let_def)
  have 2: "ln_lcp st' = ln_lcp st" if "nak_auth go st = Some st'" for go st st'
    using that by (auto simp: nak_auth_def Let_def split: if_splits)
  have 3: "rand_only (ln_lcp st) (ln_lcp (lcp_nak_second go wo b st))" for go wo st
  proof -
    have e: "ln_lcp (NAKCIENDP go st) = ln_lcp st" for st by (simp add: NAKCIENDP_def Let_def)
    have m: "ln_lcp x = l \<Longrightarrow> rand_only l (ln_lcp (NAKCI n opt neg seen (\<lambda>v. nak_magic) x))" for x l n opt neg seen
      by (auto simp: nak_magic_def case_prod_beta Let_def intro!: ln_lcp_magic)
    show ?thesis unfolding lcp_nak_second_def Let_def e
      by (simp add: ln_lcp_NAKCI m)
  qed
  show ?thesis using 1 2 3 by (fastforce simp: lcp_Nakci_check_def Let_def split: option.split)
qed

lemma lcp_Reqci_code: "fst (lcp_Reqci s inp rej) \<in> {CI_ACK, CI_NAK, CI_REJ}"
proof -
  have "la_rc (fst x) \<in> {CI_ACK, CI_NAK, CI_REJ} \<Longrightarrow>
      la_rc (fst (fold (lcp_step ao go rej) xs x)) \<in> {CI_ACK, CI_NAK, CI_REJ}" for ao go xs x
  proof (induction xs arbitrary: x)
    case (Cons ci xs)
    have "la_rc (fst (lcp_step ao go rej ci x)) \<in> {CI_ACK, CI_NAK, CI_REJ}"
      using Cons.prems lcp_req_ci_cases [of ao go "snd x" ci]
      by (simp add: lcp_step_def lcp_merge_def Let_def case_prod_beta)
    then show ?case using Cons.IH [of "lcp_step ao go rej ci x"] by simp
  qed simp
  then show ?thesis by (simp add: lcp_Reqci_def lcp_req_loop_fold Let_def case_prod_beta)
qed

lemma lcp_base_ok: "sink_ok lcp_base"
proof -
  have "\<exists>k pkts. snd (lcp_ExtCode f c i p) = f\<lparr>f_sink := k, f_log := f_log f @ map OutPkt pkts\<rparr>" for f c i p
  proof -
    have a: "\<exists>k pkts. f = f\<lparr>f_sink := k, f_log := f_log f @ map OutPkt pkts\<rparr>" by (rule no_packets)
    have b: "\<exists>k pkts. SendData code j d f = f\<lparr>f_sink := k, f_log := f_log f @ map OutPkt pkts\<rparr>" for code j d
      by (intro exI [of _ "f_sink f"] exI [of _ "[mk_packet (m_protocol f) code j d]"]) (simp add: SendData_def Output_def)
    have c: "\<exists>k pkts. f\<lparr>f_sink := k0\<rparr> = f\<lparr>f_sink := k, f_log := f_log f @ map OutPkt pkts\<rparr>" for k0
      by (intro exI [of _ k0] exI [of _ "[]"]) simp
    show ?thesis unfolding lcp_ExtCode_def by (simp only: snd_conv split: if_split) (use a b c in blast)
  qed
  moreover have "only_sink f (snd (lcp_Nakci_quiet f p b)) \<and> 0 \<le> fst (lcp_Nakci_quiet f p b)" for f p b
    by (simp add: lcp_Nakci_quiet_def only_sink_def split: prod.split option.split)
  moreover have "0 \<le> fst (lcp_Rejci st s p)" for st s p by (simp add: lcp_Rejci_def split: option.split)
  ultimately show ?thesis
    using lcp_Reqci_code by (auto simp: sink_ok_def lcp_base_def only_sink_def Let_def case_prod_beta)
qed

text \<open>The parts of the protocol that \<open>lcp_keep\<close> and \<open>lcp_told\<close> speak of.\<close>

definition lcp_core :: "lcp \<Rightarrow> int option \<times> bool \<times> int \<times> int \<times> lcp_notice list \<times> bool \<times> bool" where
  "lcp_core s = (lcp_echo_timer s, m_lcp_echo_timer_running s, m_lcp_echo_interval s, m_lcp_echo_fails s, lcp_notices s,
     opt_passive (m_lcp_wantoptions s), opt_silent (m_lcp_wantoptions s))"

lemma lcp_core_eq: "lcp_core s = lcp_core t \<Longrightarrow> lcp_keep xs s = lcp_keep xs t \<and> lcp_told s = lcp_told t"
  by (simp add: lcp_core_def lcp_keep_def lcp_told_def)

lemma lcp_core_rand: "rand_only s t \<Longrightarrow> lcp_core t = lcp_core s"
  by (auto simp: rand_only_def lcp_core_def)

lemma lcp_core_callbacks:
  "lcp_core (lcp_Resetci s) = lcp_core s"
  "lcp_core (snd (lcp_Rejci st s p)) = lcp_core s" "lcp_core (snd (snd (lcp_Reqci s p b))) = lcp_core s"
  "lcp_core (RcvEchoReply p s) = lcp_core s" "lcp_core (f_sink (snd (lcp_Nakci_quiet f p b))) = lcp_core (f_sink f)"
  "lcp_core (f_sink (snd (lcp_ExtCode f c i p))) = lcp_core (f_sink f)"
proof -
  show "lcp_core (lcp_Resetci s) = lcp_core s" by (simp add: lcp_core_def lcp_Resetci_def magic_def Let_def)
  show "lcp_core (snd (lcp_Rejci st s p)) = lcp_core s" by (simp add: lcp_core_def lcp_Rejci_def split: option.split)
  show "lcp_core (snd (snd (lcp_Reqci s p b))) = lcp_core s" using lcp_Reqci_rand [of s p b] by (auto simp: lcp_core_def)
  show r: "lcp_core (RcvEchoReply p s) = lcp_core s" for p s by (simp add: lcp_core_def RcvEchoReply_def)
  obtain t l s' where c: "lcp_Nakci_check (f_sink f) p b = (t, l, s')" by (cases "lcp_Nakci_check (f_sink f) p b")
  have "lcp_core s' = lcp_core (f_sink f)" using lcp_Nakci_rand [of "f_sink f" p b] c lcp_core_rand by simp
  then show "lcp_core (f_sink (snd (lcp_Nakci_quiet f p b))) = lcp_core (f_sink f)"
    by (cases t) (simp_all add: lcp_Nakci_quiet_def c, simp_all add: lcp_core_def)
  show "lcp_core (f_sink (snd (lcp_ExtCode f c i p))) = lcp_core (f_sink f)"
    by (simp add: lcp_ExtCode_def r SendData_def Output_def)
qed

lemma lcp_told_other: "lcp_notices t = lcp_notices s @ [OnLCPTerminate] \<Longrightarrow> lcp_told t = lcp_told s"
  "lcp_notices t = lcp_notices s @ [OnLCPDown] \<Longrightarrow> \<not> lcp_told t" "lcp_notices t = lcp_notices s @ [OnLCPUp] \<Longrightarrow> lcp_told t"
  by (simp_all add: lcp_told_def Let_def)

lemma lcp_Down_told: "lcp_keep xs s \<Longrightarrow> \<not> lcp_told (lcp_Down s)" "lcp_keep xs s \<Longrightarrow> lcp_keep xs (lcp_Down s)"
proof -
  have n: "\<not> lcp_told (lcp_Down s)"
    by (rule lcp_told_other(2) [of _ s]) (simp add: lcp_Down_def EchoLowerDown_def CancelEchoTimer_def)
  then show "lcp_keep xs s \<Longrightarrow> \<not> lcp_told (lcp_Down s)" .
  from n show "lcp_keep xs s \<Longrightarrow> lcp_keep xs (lcp_Down s)"
    by (auto simp: lcp_keep_def) (simp_all add: lcp_Down_def EchoLowerDown_def CancelEchoTimer_def split: if_splits)
qed

lemma lcp_Finished_told: "lcp_told (lcp_Finished s) = lcp_told s" "lcp_keep xs s \<Longrightarrow> lcp_keep xs (lcp_Finished s)"
proof -
  show t: "lcp_told (lcp_Finished s) = lcp_told s" by (rule lcp_told_other(1)) (simp add: lcp_Finished_def)
  show "lcp_keep xs s \<Longrightarrow> lcp_keep xs (lcp_Finished s)" using t by (simp add: lcp_keep_def) (simp add: lcp_Finished_def)
qed

interpretation lcp_telling: telling_sink lcp_base lcp_told "\<lambda>_. True" "lcp_keep xs" for xs
  by unfold_locales
    (simp_all add: lcp_base_ok, simp_all add: lcp_base_def Let_def case_prod_beta lcp_Down_told lcp_Finished_told
      lcp_core_eq [OF lcp_core_callbacks(1)] lcp_core_eq [OF lcp_core_callbacks(2)] lcp_core_eq [OF lcp_core_callbacks(3)]
      lcp_core_eq [OF lcp_core_callbacks(5)] lcp_core_eq [OF lcp_core_callbacks(6)])

section \<open>The callbacks that call back\<close>

lemma lcp_Close_nakloops:
  assumes "m_state f = OPENED"
  shows "the (Close lcp_base (Some r) (f\<lparr>m_nakloops := n\<rparr>)) = (the (Close lcp_base (Some r) f))\<lparr>m_nakloops := n\<rparr>"
  using assms
  by (cases "m_maxtermtransmits f = 0")
    (simp_all add: Close_def TerminateLayer_def lcp_base_def bras_defs)

lemma SendEchoRequest_nakloops:
  assumes "m_state f = OPENED"
  shows "SendEchoRequest (f\<lparr>m_nakloops := n\<rparr>) = (SendEchoRequest f)\<lparr>m_nakloops := n\<rparr>"
  using assms lcp_Close_nakloops [OF assms]
  by (simp add: SendEchoRequest_def LcpLinkFailure_def SendData_def Output_def Let_def)

lemma lcp_Up_nakloops:
  assumes "m_state f = OPENED"
  shows "lcp_Up (f\<lparr>m_nakloops := n\<rparr>) = (lcp_Up f)\<lparr>m_nakloops := n\<rparr>"
proof -
  have "SendEchoRequest (f\<lparr>m_nakloops := n, f_sink := k\<rparr>) = (SendEchoRequest (f\<lparr>f_sink := k\<rparr>))\<lparr>m_nakloops := n\<rparr>" for k
  proof -
    have e: "f\<lparr>m_nakloops := n, f_sink := k\<rparr> = (f\<lparr>f_sink := k\<rparr>)\<lparr>m_nakloops := n\<rparr>" by simp
    show ?thesis unfolding e by (rule SendEchoRequest_nakloops) (simp add: assms)
  qed
  then show ?thesis
    by (simp add: lcp_Up_def EchoLowerUp_def LcpEchoCheck_def Let_def)
qed

lemma lcp_Up_eq:
  assumes "m_state f = OPENED" and "lcp_keep xs (f_sink f)"
  shows "\<exists>k d. lcp_Up f = (SendData ECHOREQ 0 d f)\<lparr>f_sink := k\<rparr> \<and> lcp_echo_timer k \<noteq> None \<and> m_lcp_echo_timer_running k \<and>
    lcp_notices k = lcp_notices (f_sink f) @ [OnLCPUp] \<and> m_lcp_echo_interval k = m_lcp_echo_interval (f_sink f) \<and>
    m_lcp_echo_fails k = m_lcp_echo_fails (f_sink f) \<and> m_lcp_wantoptions k = m_lcp_wantoptions (f_sink f)"
proof -
  have "m_lcp_echo_interval (f_sink f) \<noteq> 0" "0 < m_lcp_echo_fails (f_sink f)" using assms(2) by (simp_all add: lcp_keep_def)
  then show ?thesis using assms(1)
    by (simp add: lcp_Up_def EchoLowerUp_def LcpEchoCheck_def SendEchoRequest_def lcp_Up_options_def StartEchoTimer_def
        CancelEchoTimer_def SendData_def Output_def Let_def) (auto simp: fsm.equality)
qed

definition lcp_inv :: "lcp_notice list \<Rightarrow> lcp fsm \<Rightarrow> bool" where
  "lcp_inv xs f \<longleftrightarrow> timer_inv f \<and> up_inv f \<and> m_flags f = 0 \<and> lcp_telling.tell xs f"

lemma lcp_inv_Up:
  assumes "timer_inv f" "up_inv f" "m_flags f = 0" "m_state f = OPENED" "lcp_keep xs (f_sink f)"
  shows "lcp_inv xs (lcp_Up f)"
proof -
  obtain k d where u: "lcp_Up f = (SendData ECHOREQ 0 d f)\<lparr>f_sink := k\<rparr>" "lcp_echo_timer k \<noteq> None"
    "m_lcp_echo_timer_running k" "lcp_notices k = lcp_notices (f_sink f) @ [OnLCPUp]"
    "m_lcp_echo_interval k = m_lcp_echo_interval (f_sink f)" "m_lcp_echo_fails k = m_lcp_echo_fails (f_sink f)"
    "m_lcp_wantoptions k = m_lcp_wantoptions (f_sink f)"
    using lcp_Up_eq [OF assms(4,5)] by blast
  have t: "lcp_told k" using u(4) by (rule lcp_told_other(3))
  have "lcp_keep xs k" using assms(5) u t by (simp add: lcp_keep_def)
  then show ?thesis using assms t by (simp add: u(1) lcp_inv_def lcp_telling.tell_def)
qed

text \<open>\<^verbatim>\<open>Nakci\<close> differs from its plain half only when it closes a layer that is not open.\<close>

lemma Close_state: "sink_ok cb \<Longrightarrow> m_state (the (Close cb (Some r) f)) \<in> {INITIAL, CLOSED, CLOSING}"
  by (cases "m_state f") (simp_all add: Close_def TerminateLayer_def Let_def bras_defs)

lemma lcp_Nakci_cases:
  "lcp_Nakci f p b = lcp_Nakci_quiet f p b \<or>
   (\<exists>s t r. rand_only (f_sink f) s \<and> m_state f \<noteq> OPENED \<and>
     lcp_Nakci f p b = (1, (let g = the (Close lcp_base (Some r) (f\<lparr>f_sink := s\<rparr>))
                            in g\<lparr>f_sink := (f_sink g)\<lparr>m_lcp_gotoptions := t\<rparr>\<rparr>)))"
proof -
  obtain t l s where c: "lcp_Nakci_check (f_sink f) p b = (t, l, s)" by (cases "lcp_Nakci_check (f_sink f) p b")
  have r: "rand_only (f_sink f) s" using lcp_Nakci_rand [of "f_sink f" p b] c by simp
  show ?thesis
  proof (cases "\<exists>u. t = Some u \<and> m_state f \<noteq> OPENED \<and> l \<and> numloops (nak_numloops l u) \<ge> 4")
    case True
    then obtain u where "t = Some u" "m_state f \<noteq> OPENED" "l" "numloops (nak_numloops l u) \<ge> 4" by blast
    then show ?thesis using r c
      by (intro disjI2 exI [of _ s] exI [of _ "nak_numloops l u"] exI [of _ "lcp_reason ''Loopback detected''"])
        (simp add: lcp_Nakci_def Let_def)
  next
    case False
    then show ?thesis
      by (intro disjI1) (cases t; cases l; cases "m_state f = OPENED"; simp add: lcp_Nakci_def lcp_Nakci_quiet_def c Let_def)
  qed
qed

lemma lcp_inv_core:
  assumes "lcp_inv xs f" and "lcp_core k = lcp_core (f_sink f)"
  shows "lcp_inv xs (f\<lparr>f_sink := k\<rparr>)"
  using assms lcp_core_eq [OF assms(2)] by (simp add: lcp_inv_def lcp_telling.tell_def)

lemma lcp_inv_Close:
  assumes "lcp_inv xs f"
  shows "lcp_inv xs (the (Close lcp_base (Some r) f))"
  using assms timer_inv_do [OF lcp_base_ok, of f "EvClose r"] up_inv_do [OF lcp_base_ok, of f "EvClose r"]
  by (simp add: lcp_inv_def flags_admin lcp_base_ok lcp_telling.tell_admin)

lemma lcp_inv_quiet: "lcp_inv xs f \<Longrightarrow> lcp_inv xs (f\<lparr>m_rnakloops := n\<rparr>)" "lcp_inv xs f \<Longrightarrow> lcp_inv xs (f\<lparr>m_seen_ack := b\<rparr>)"
  by (simp_all add: lcp_inv_def lcp_telling.tell_def timer_inv_def up_inv_def)

interpretation lcp_reentrant: reentrant_sink lcp_base lcp_Up "LowerUp lcp_base" lcp_Nakci "lcp_inv xs" for xs
proof unfold_locales
  show "sink_ok lcp_base" by (rule lcp_base_ok)
  show "cb_Up lcp_base f = f" "cb_Starting lcp_base f = f" for f by (simp_all add: lcp_base_def)
  show "lcp_Up (f\<lparr>m_nakloops := n\<rparr>) = (lcp_Up f)\<lparr>m_nakloops := n\<rparr>" if "m_state f = OPENED" for f n
    using that by (rule lcp_Up_nakloops)
  show "lcp_inv xs f \<Longrightarrow> m_flags f = 0" for f by (simp add: lcp_inv_def)
next
  fix f ev
  assume i: "lcp_inv xs f" and o: "m_state f = OPENED \<or> m_state (fsm_do lcp_base ev f) \<noteq> OPENED"
  then show "lcp_inv xs (fsm_do lcp_base ev f)"
    by (simp add: lcp_inv_def timer_inv_do up_inv_do lcp_base_ok flags_do lcp_telling.tell_do)
next
  fix f ev
  assume i: "lcp_inv xs f" and o: "m_state (fsm_do lcp_base ev f) = OPENED"
  have "lcp_keep xs (f_sink f)" using i by (simp add: lcp_inv_def lcp_telling.tell_def)
  then show "lcp_inv xs (lcp_Up (fsm_do lcp_base ev f))"
    using i o by (intro lcp_inv_Up lcp_telling.keep_do) (simp_all add: lcp_inv_def timer_inv_do up_inv_do lcp_base_ok flags_do)
next
  fix f
  assume "lcp_inv xs f"
  then show "lcp_inv xs (LowerUp lcp_base f)"
    using timer_inv_do [OF lcp_base_ok, of f EvLowerUp] up_inv_do [OF lcp_base_ok, of f EvLowerUp]
    by (simp add: lcp_inv_def flags_admin lcp_base_ok lcp_telling.tell_admin)
next
  fix f p b
  show "lcp_Nakci f p b = cb_Nakci lcp_base f p b \<or>
      fst (lcp_Nakci f p b) = 1 \<and> m_state (snd (lcp_Nakci f p b)) \<in> {INITIAL, CLOSED, CLOSING}"
  proof -
    have q: "cb_Nakci lcp_base = lcp_Nakci_quiet" by (simp add: lcp_base_def)
    from lcp_Nakci_cases [of f p b] show ?thesis unfolding q
    proof (elim disjE exE conjE)
      fix s t r
      assume e: "lcp_Nakci f p b = (1, (let g = the (Close lcp_base (Some r) (f\<lparr>f_sink := s\<rparr>))
          in g\<lparr>f_sink := (f_sink g)\<lparr>m_lcp_gotoptions := t\<rparr>\<rparr>))"
      show "lcp_Nakci f p b = lcp_Nakci_quiet f p b \<or>
          fst (lcp_Nakci f p b) = 1 \<and> m_state (snd (lcp_Nakci f p b)) \<in> {INITIAL, CLOSED, CLOSING}"
        using Close_state [OF lcp_base_ok, of r "f\<lparr>f_sink := s\<rparr>"] by (simp add: e Let_def)
    qed simp
  qed
next
  fix f n p b
  assume i: "lcp_inv xs f" and d: "lcp_Nakci (f\<lparr>m_rnakloops := n\<rparr>) p b \<noteq> cb_Nakci lcp_base (f\<lparr>m_rnakloops := n\<rparr>) p b"
  let ?f = "f\<lparr>m_rnakloops := n\<rparr>"
  have "lcp_Nakci ?f p b \<noteq> lcp_Nakci_quiet ?f p b" using d by (simp add: lcp_base_def)
  then obtain s t r where s: "rand_only (f_sink ?f) s" and
      e: "snd (lcp_Nakci ?f p b) = (let g = the (Close lcp_base (Some r) (?f\<lparr>f_sink := s\<rparr>))
            in g\<lparr>f_sink := (f_sink g)\<lparr>m_lcp_gotoptions := t\<rparr>\<rparr>)"
    using lcp_Nakci_cases [of ?f p b] by auto
  have "lcp_inv xs (?f\<lparr>f_sink := s\<rparr>)" using lcp_inv_quiet(1) [OF i] lcp_core_rand [OF s] by (rule lcp_inv_core)
  then have c: "lcp_inv xs (the (Close lcp_base (Some r) (?f\<lparr>f_sink := s\<rparr>)))" by (rule lcp_inv_Close)
  have "lcp_inv xs (snd (lcp_Nakci ?f p b))"
    unfolding e Let_def by (rule lcp_inv_core [OF c]) (simp add: lcp_core_def)
  then show "lcp_inv xs ((snd (lcp_Nakci ?f p b))\<lparr>m_seen_ack := True\<rparr>)" by (rule lcp_inv_quiet(2))
next
  fix f c i d
  assume "lcp_inv xs f"
  then show "lcp_inv xs (SendData c i d f)" by (simp add: lcp_inv_def lcp_telling.tell_def)
qed

lemma lcp_inv_echo:
  assumes i: "lcp_inv xs f"
  shows "lcp_inv xs (SendEchoRequest f)"
proof -
  let ?g = "LcpLinkFailure f"
  have "lcp_inv xs ?g" using i lcp_inv_Close by (simp add: LcpLinkFailure_def)
  then have 1: "lcp_inv xs (?g\<lparr>f_sink := (f_sink ?g)\<lparr>m_lcp_echos_pending := 0\<rparr>\<rparr>)"
    by (rule lcp_inv_core) (simp add: lcp_core_def)
  have 2: "lcp_inv xs (SendData c j d g)" if "lcp_inv xs g" for c j d g
    using that by (simp add: lcp_inv_def lcp_telling.tell_def)
  have 3: "lcp_inv xs ((SendData c j d g)\<lparr>f_sink := (f_sink g)\<lparr>m_lcp_echo_number := n, m_lcp_echos_pending := k\<rparr>\<rparr>)"
    if "lcp_inv xs g" for c j d g n k
    using 2 [OF that] by (rule lcp_inv_core) (simp add: lcp_core_def)
  show ?thesis using i 1 3 unfolding SendEchoRequest_def Let_def by presburger
qed

lemma lcp_auth_flags [simp]:
  "opt_passive (lcp_auth_options a t) = opt_passive t" "opt_silent (lcp_auth_options a t) = opt_silent t"
  by (simp_all add: lcp_auth_options_def)

lemma lcp_inv_trans:
  assumes i: "lcp_inv xs f" and t: "lcp_trans f g"
  shows "lcp_inv xs g"
proof -
  from t show ?thesis
  proof cases
    case (lcp_event ev)
    then show ?thesis using lcp_reentrant.inv_whole [OF i, of ev] by (simp add: lcp_sink_reentrant)
  next
    case lcp_timeout
    then show ?thesis using lcp_reentrant.inv_whole [OF i, of EvTimeout] by (simp add: lcp_sink_reentrant)
  next
    case lcp_echo_timeout
    then show ?thesis using lcp_inv_echo [OF i] by (simp add: EchoTimeout_def)
  next
    case lcp_opened
    have "\<not> opt_passive (m_lcp_wantoptions (f_sink f))" "\<not> opt_silent (m_lcp_wantoptions (f_sink f))" "m_flags f = 0"
      using i by (simp_all add: lcp_inv_def lcp_telling.tell_def lcp_keep_def)
    then have "lcp_Open f = Open lcp_sink (f\<lparr>m_flags := 0\<rparr>)" by (simp add: lcp_Open_def DisableFlag_def Let_def)
    also have "f\<lparr>m_flags := 0\<rparr> = f" using \<open>m_flags f = 0\<close> by (cases f) simp
    also have "Open lcp_sink f = fsm_do lcp_sink EvOpen f" by simp
    finally have "lcp_Open f = fsm_do lcp_sink EvOpen f" .
    then show ?thesis using lcp_reentrant.inv_whole [OF i, of EvOpen] lcp_opened by (simp add: lcp_sink_reentrant)
  next
    case (lcp_protrej p)
    have "lcp_inv xs (f\<lparr>m_id := n\<rparr>)" for n using i by (simp add: lcp_inv_def lcp_telling.tell_def timer_inv_def up_inv_def)
    then show ?thesis by (simp add: lcp_protrej SendProtRej_def GetId_def lcp_reentrant.inv_send)
  qed
qed

lemma lcp_inv_start: "lcp_start f \<Longrightarrow> lcp_inv [] f"
  by (auto simp: lcp_start_def lcp_inv_def lcp_Init_def Init_def fsm_new_def CPPPLCP_new_def lcp_SetAuthType_def
      lcp_options_zero_def timer_simps up_inv_def lcp_telling.tell_def lcp_keep_def lcp_told_def Let_def)

interpretation lcp_machine: invariant_of lcp_start lcp_trans "lcp_inv []"
  by unfold_locales (rule lcp_inv_start, assumption, rule lcp_inv_trans)

text \<open>A step adds to the calls of the session, and a link that comes up tells it so.\<close>

lemma lcp_inv_now: "lcp_inv xs f \<Longrightarrow> lcp_inv (lcp_notices (f_sink f)) f"
  by (simp add: lcp_inv_def lcp_telling.tell_def lcp_keep_def)

lemma lcp_trans_up:
  assumes i: "lcp_inv xs f" and t: "lcp_trans f g" and o: "m_state f \<noteq> OPENED" "m_state g = OPENED"
  shows "OnLCPUp \<in> set (drop (length (lcp_notices (f_sink f))) (lcp_notices (f_sink g)))"
proof -
  have "lcp_inv (lcp_notices (f_sink f)) g" using lcp_inv_now [OF i] t by (rule lcp_inv_trans)
  then obtain ns where ns: "lcp_notices (f_sink g) = lcp_notices (f_sink f) @ ns" and told: "lcp_told (f_sink g)"
    using o(2) by (auto simp: lcp_inv_def lcp_telling.tell_def lcp_keep_def prefix_def)
  have not_told: "\<not> lcp_told (f_sink f)" using i o(1) by (simp add: lcp_inv_def lcp_telling.tell_def)
  have "filter (\<lambda>n. n \<noteq> OnLCPTerminate) ns \<noteq> []"
  proof
    assume "filter (\<lambda>n. n \<noteq> OnLCPTerminate) ns = []"
    then have "lcp_told (f_sink g) = lcp_told (f_sink f)" by (simp add: lcp_told_def ns Let_def)
    then show False using told not_told by simp
  qed
  moreover have "last (filter (\<lambda>n. n \<noteq> OnLCPTerminate) ns) = OnLCPUp"
    using told calculation by (simp add: lcp_told_def ns Let_def)
  ultimately have "OnLCPUp \<in> set (filter (\<lambda>n. n \<noteq> OnLCPTerminate) ns)" by (metis last_in_set)
  then show ?thesis by (simp add: ns)
qed

section \<open>Keep-alive\<close>

text \<open>One timeout of the echo timer: another request, or the end of a link that has missed too many replies.\<close>

lemma echo_again:
  assumes "m_state f = OPENED" and "m_lcp_echos_pending (f_sink f) < m_lcp_echo_fails (f_sink f)"
  shows "m_state (EchoTimeout f) = OPENED"
    "m_lcp_echos_pending (f_sink (EchoTimeout f)) = m_lcp_echos_pending (f_sink f) + 1"
    "m_lcp_echo_fails (f_sink (EchoTimeout f)) = m_lcp_echo_fails (f_sink f)"
  using assms by (simp_all add: EchoTimeout_def SendEchoRequest_def SendData_def Output_def Let_def)

lemma echo_gives_up:
  assumes "lcp_inv xs f" and "m_state f = OPENED" and "m_lcp_echo_fails (f_sink f) \<le> m_lcp_echos_pending (f_sink f)"
  shows "m_state (EchoTimeout f) = CLOSING"
proof -
  have "m_maxtermtransmits f \<noteq> 0" "0 < m_lcp_echo_fails (f_sink f)"
    using assms(1,2) by (simp_all add: lcp_inv_def timer_inv_def lcp_telling.tell_def lcp_keep_def)
  then have "m_state (LcpLinkFailure f) = CLOSING" "m_lcp_echo_fails (f_sink f) \<noteq> 0"
    using assms(2) Close_rfc(1) [OF lcp_base_ok, of f] by (simp_all add: LcpLinkFailure_def rfc1661_def)
  then show ?thesis using assms(3) by (simp add: EchoTimeout_def SendEchoRequest_def Let_def)
qed

lemma echo_run:
  assumes "lcp_inv xs f" and "m_state f = OPENED"
    and "m_lcp_echo_fails (f_sink f) = m_lcp_echos_pending (f_sink f) + int k"
  shows "\<forall>j \<le> k. m_state ((EchoTimeout ^^ j) f) = OPENED" "m_state ((EchoTimeout ^^ Suc k) f) = CLOSING"
    "lcp_inv xs ((EchoTimeout ^^ Suc k) f)"
proof -
  have inv: "lcp_inv xs g \<Longrightarrow> lcp_inv xs (EchoTimeout g)" for g by (simp add: EchoTimeout_def lcp_inv_echo)
  have r: "lcp_inv xs ((EchoTimeout ^^ j) f) \<and> m_state ((EchoTimeout ^^ j) f) = OPENED \<and>
      m_lcp_echo_fails (f_sink ((EchoTimeout ^^ j) f)) = m_lcp_echo_fails (f_sink f) \<and>
      m_lcp_echos_pending (f_sink ((EchoTimeout ^^ j) f)) = m_lcp_echos_pending (f_sink f) + int j" if "j \<le> k" for j
    using that
  proof (induction j)
    case (Suc j)
    then show ?case using assms(3) echo_again [of "(EchoTimeout ^^ j) f"] by (simp add: inv)
  qed (use assms in simp)
  then show "\<forall>j \<le> k. m_state ((EchoTimeout ^^ j) f) = OPENED" by blast
  show "m_state ((EchoTimeout ^^ Suc k) f) = CLOSING" "lcp_inv xs ((EchoTimeout ^^ Suc k) f)"
    using r [of k] assms(3) echo_gives_up [of xs "(EchoTimeout ^^ k) f"] by (simp_all add: inv)
qed

section \<open>A negotiation, step by step\<close>

definition demo_lcp0 :: "lcp fsm" where
  "demo_lcp0 = lcp_Init (fsm_new (lcp_SetAuthType PPP_PAP (CPPPLCP_new (\<lambda>_. 0x11223344))) 0xC021)"

lemma demo_lcp0_fields:
  "m_state demo_lcp0 = INITIAL" "m_id demo_lcp0 = 0" "m_maxnakloops demo_lcp0 = 5" "m_flags demo_lcp0 = 0"
  "\<not> opt_passive (m_lcp_wantoptions (f_sink demo_lcp0))" "\<not> opt_silent (m_lcp_wantoptions (f_sink demo_lcp0))"
  "lcp_Resetci (f_sink demo_lcp0) = demo_lcp"
  by (simp_all add: demo_lcp0_def lcp_SetAuthType_def demo_lcp_defs)

definition demo_lcp_granted :: lcp where
  "demo_lcp_granted = demo_lcp\<lparr>m_lcp_hisoptions := lcp_options_zero\<rparr>"

lemma demo_lcp_callbacks:
  "lcp_Cilen demo_lcp = 14" "lcp_Reqci demo_lcp [] False = (2, [], demo_lcp_granted)"
  "lcp_Ackci demo_lcp_granted [1, 4, 5, 212, 3, 4, 0xc0, 0x23, 5, 6, 0x11, 0x22, 0x33, 0x44]"
  by (simp_all add: lcp_Cilen_def lcp_Reqci_def lcp_req_loop.simps lcp_Ackci_def demo_lcp_granted_def demo_lcp_options
      lcp_options_zero_def want_mru_def want_asyncmap_def want_chap_def want_upap_def ACKCI_def is_short_def is_long_def
      GETSHORT_def GETLONG_def)

lemma demo_lcp_opened:
  "m_state (lcp_Open demo_lcp0) = REQSENT" "f_sink (lcp_Open demo_lcp0) = demo_lcp" "m_reqid (lcp_Open demo_lcp0) = 1"
  "\<not> m_seen_ack (lcp_Open demo_lcp0)" "m_nakloops (lcp_Open demo_lcp0) = 0" "m_maxnakloops (lcp_Open demo_lcp0) = 5"
  by (simp_all add: lcp_Open_def DisableFlag_def demo_lcp0_fields Open_def Starting_def lcp_sink_def LowerUp_def
      SendConfReq_def negotiating_def lcp_base_def SendData_def Output_def StartTime_def CancelTimer_def Let_def)

abbreviation demo_lcp_ack :: "byte list" where
  "demo_lcp_ack \<equiv> [2, 1, 0, 18, 1, 4, 5, 212, 3, 4, 0xc0, 0x23, 5, 6, 0x11, 0x22, 0x33, 0x44]"

lemma demo_lcp_packets:
  "parse_packet [1, 9, 0, 4] = Some (1, 9, [])"
  "parse_packet demo_lcp_ack = Some (2, 1, [1, 4, 5, 212, 3, 4, 0xc0, 0x23, 5, 6, 0x11, 0x22, 0x33, 0x44])"
  by (simp_all add: parse_packet_def GETSHORT_def)

lemma demo_lcp_asks:
  fixes f :: "lcp fsm"
  assumes "m_state f = REQSENT" "f_sink f = demo_lcp" "m_reqid f = 1" "\<not> m_seen_ack f" "m_nakloops f = 0"
    "m_maxnakloops f = 5"
  shows "m_state (Input lcp_sink [1, 9, 0, 4] f) = ACKSENT" "f_sink (Input lcp_sink [1, 9, 0, 4] f) = demo_lcp_granted"
    "m_reqid (Input lcp_sink [1, 9, 0, 4] f) = 1" "\<not> m_seen_ack (Input lcp_sink [1, 9, 0, 4] f)"
  using assms
  by (simp_all add: Input_def demo_lcp_packets Input_code_def RcvConfReq_def RcvConfReq_switch_def RcvConfReq_answer_def
      Reqci_code_def lcp_sink_def lcp_base_def demo_lcp_callbacks Let_def, simp_all add: SendData_def Output_def)

lemma demo_lcp_acks:
  fixes f :: "lcp fsm"
  assumes "m_state f = ACKSENT" "f_sink f = demo_lcp_granted" "m_reqid f = 1" "\<not> m_seen_ack f"
  shows "m_state (Input lcp_sink demo_lcp_ack f) = OPENED"
    "m_lcp_echo_fails (f_sink (Input lcp_sink demo_lcp_ack f)) = m_lcp_echos_pending (f_sink (Input lcp_sink demo_lcp_ack f)) + 4"
proof -
  have k: "m_lcp_echo_fails demo_lcp_granted = 5" "m_lcp_echo_interval demo_lcp_granted = 20"
    by (simp_all add: demo_lcp_granted_def demo_lcp_defs)
  show "m_state (Input lcp_sink demo_lcp_ack f) = OPENED"
    "m_lcp_echo_fails (f_sink (Input lcp_sink demo_lcp_ack f)) = m_lcp_echos_pending (f_sink (Input lcp_sink demo_lcp_ack f)) + 4"
    using assms
    by (simp_all add: Input_def demo_lcp_packets Input_code_def RcvConfAck_def lcp_sink_def lcp_base_def
        demo_lcp_callbacks CancelTimer_def Up_def lcp_Up_def EchoLowerUp_def LcpEchoCheck_def SendEchoRequest_def
        lcp_Up_options_def StartEchoTimer_def CancelEchoTimer_def k Let_def)
qed

definition demo_lcp_up :: "lcp fsm" where
  "demo_lcp_up = fsm_do lcp_sink (EvInput demo_lcp_ack) (fsm_do lcp_sink (EvInput [1, 9, 0, 4]) (lcp_Open demo_lcp0))"

lemma demo_lcp_up:
  "reachable lcp_start lcp_trans demo_lcp_up" "m_state demo_lcp_up = OPENED"
  "m_lcp_echo_fails (f_sink demo_lcp_up) = m_lcp_echos_pending (f_sink demo_lcp_up) + 4"
proof -
  note reach = reachable.reach_step [where init = lcp_start and step = lcp_trans]
  have "lcp_start demo_lcp0" unfolding lcp_start_def demo_lcp0_def by blast
  then show "reachable lcp_start lcp_trans demo_lcp_up"
    unfolding demo_lcp_up_def
    by (intro reach [OF _ lcp_event] reach [OF _ lcp_opened] reachable.reach_init) simp_all
  show "m_state demo_lcp_up = OPENED" "m_lcp_echo_fails (f_sink demo_lcp_up) = m_lcp_echos_pending (f_sink demo_lcp_up) + 4"
    using demo_lcp_acks [OF demo_lcp_asks [OF demo_lcp_opened]] by (simp_all add: demo_lcp_up_def)
qed

section \<open>Properties\<close>

text \<open>
  C10. LCP and the automaton together, in every state the session and the peer can bring them to: the
  session was last told \<^verbatim>\<open>OnLCPUp\<close> exactly when the automaton is opened; the echo timer that
  supervises the link is registered exactly then; the layer callbacks alternate; and the restart
  timer runs whenever an answer of the peer is awaited. A looped-back line, whose fourth refused
  magic number closes the link in the middle of the handling of a Nak, is one of the events covered.
\<close>

theorem lcp_reachable:
  assumes "reachable lcp_start lcp_trans f"
  shows "(m_state f = OPENED \<longleftrightarrow> lcp_told (f_sink f)) \<and> (m_state f = OPENED \<longleftrightarrow> lcp_echo_timer (f_sink f) \<noteq> None) \<and>
    up_after False (acts f) = Some (m_state f = OPENED) \<and> (waiting f \<longrightarrow> f_timer f \<noteq> None)"
  using lcp_machine.reachable_inv [OF assms]
  by (auto simp: lcp_inv_def lcp_telling.tell_def lcp_keep_def up_inv_def timer_inv_def waiting_def split: if_splits)

theorem lcp_reachable_witness:
  "m_state demo_lcp_up = OPENED \<and> lcp_told (f_sink demo_lcp_up) \<and> lcp_echo_timer (f_sink demo_lcp_up) \<noteq> None"
  using lcp_reachable [OF demo_lcp_up(1)] demo_lcp_up(2) by blast

text \<open>
  A peer that stops answering is noticed: an opened link on which \<open>k\<close> more echo requests may stay
  unanswered survives \<open>k\<close> timeouts of the echo timer and is closed by the next one; then the session
  has been told, the echo timer is cancelled and the termination of the link is under way.
\<close>

theorem lcp_keepalive:
  assumes "reachable lcp_start lcp_trans f" and "m_state f = OPENED"
    and "m_lcp_echo_fails (f_sink f) = m_lcp_echos_pending (f_sink f) + int k"
  shows "(\<forall>j \<le> k. m_state ((EchoTimeout ^^ j) f) = OPENED) \<and> m_state ((EchoTimeout ^^ Suc k) f) = CLOSING \<and>
    \<not> lcp_told (f_sink ((EchoTimeout ^^ Suc k) f)) \<and> lcp_echo_timer (f_sink ((EchoTimeout ^^ Suc k) f)) = None \<and>
    f_timer ((EchoTimeout ^^ Suc k) f) \<noteq> None"
proof -
  note r = echo_run [OF lcp_machine.reachable_inv [OF assms(1)] assms(2,3)]
  have "lcp_inv [] ((EchoTimeout ^^ Suc k) f)" by (rule r(3))
  then show ?thesis using r(1,2)
    by (auto simp: lcp_inv_def lcp_telling.tell_def lcp_keep_def timer_simps simp del: funpow.simps)
qed

theorem lcp_keepalive_witness:
  "m_state ((EchoTimeout ^^ 4) demo_lcp_up) = OPENED \<and> m_state ((EchoTimeout ^^ 5) demo_lcp_up) = CLOSING \<and>
   \<not> lcp_told (f_sink ((EchoTimeout ^^ 5) demo_lcp_up))"
proof -
  have s: "Suc 4 = 5" by simp
  show ?thesis using lcp_keepalive [OF demo_lcp_up(1,2), of 4, unfolded s] demo_lcp_up(3) by (simp del: funpow.simps)
qed

end
