(* ===== verification/Ppp_Ipcp_Spec.thy ===== *)
theory Ppp_Ipcp_Spec
  imports Ppp_Ipcp Ppp_Fsm_Spec "HOL-Library.Sublist"
begin

text \<open>
  Correctness of IPCP: our request and its acknowledgement, the answers to the peer's request, the
  assignment of the subscriber's address, and the protocol composed with the automaton.
\<close>

section \<open>The protocol is a legal sink\<close>

lemma ipcp_verdicts:
  "fst (req_addrs ao rej st ci) \<in> {CI_ACK, CI_NAK, CI_REJ}" "fst (req_addr_ci ao rej st ci) \<in> {CI_ACK, CI_NAK, CI_REJ}"
  "fst (req_server a st ci) \<in> {CI_ACK, CI_NAK, CI_REJ}" "fst (req_vj ao rej st ci) \<in> {CI_ACK, CI_NAK, CI_REJ}"
  by (simp_all add: req_addrs_def req_addr_ci_def req_server_def req_vj_def Let_def case_prod_beta)

lemma ipcp_unchanged:
  "fst (req_addrs ao rej st ci) \<noteq> CI_NAK \<Longrightarrow> fst (snd (req_addrs ao rej st ci)) = ci"
  "fst (req_addr_ci ao rej st ci) \<noteq> CI_NAK \<Longrightarrow> fst (snd (req_addr_ci ao rej st ci)) = ci"
  "fst (req_server a st ci) \<noteq> CI_NAK \<Longrightarrow> fst (snd (req_server a st ci)) = ci"
  "fst (req_vj ao rej st ci) \<noteq> CI_NAK \<Longrightarrow> fst (snd (req_vj ao rej st ci)) = ci"
  by (auto simp: req_addrs_def req_addr_ci_def req_server_def req_vj_def Let_def case_prod_beta split: if_splits)

interpretation ipcp_req: option_checker "ipcp_req_ci ao rej" for ao rej
  by unfold_locales
    (use ipcp_verdicts ipcp_unchanged in \<open>auto simp: ipcp_req_ci_def Let_def split: if_splits\<close>)

lemma ipcp_Reqci_code: "fst (ipcp_Reqci s inp rej) \<in> {CI_ACK, CI_NAK, CI_REJ}"
proof -
  let ?r = "reqci_loop (ipcp_req_ci (allowoptions s) rej) rej inp (CI_ACK, []) (wantoptions s, ipcp_options_zero)"
  have "fst (fst ?r) \<in> {CI_ACK, CI_NAK, CI_REJ}" unfolding reqci_loop_fold by (rule ipcp_req.loop_code)
  then show ?thesis
    by (auto simp: ipcp_Reqci_def ipcp_req_end_def Let_def case_prod_beta)
qed

lemma ipcp_base_ok: "sink_ok ipcp_base"
  using ipcp_Reqci_code
  by (auto simp: sink_ok_def ipcp_base_def only_sink_def Let_def case_prod_beta ipcp_Nakci_def ipcp_Rejci_def
      no_packets split: option.split)

section \<open>Our request\<close>

definition opt_bytes :: "bool \<Rightarrow> byte list \<Rightarrow> byte list" where
  "opt_bytes b ci = (if b then ci else [])"

definition ipcp_ci :: "ipcp_options \<Rightarrow> byte list" where
  "ipcp_ci go = opt_bytes (use_addrs go) (addrs_ci (ouraddr go) (hisaddr go)) @
     opt_bytes (neg_vj go) (vj_ci go) @
     opt_bytes (neg_addr go) (addr_ci CI_ADDR (ouraddr go)) @
     opt_bytes (req_dns1 go) (addr_ci CI_MS_DNS1 (dnsaddr0 go)) @
     opt_bytes (req_dns2 go) (addr_ci CI_MS_DNS2 (dnsaddr1 go)) @
     opt_bytes (winsaddr0 go \<noteq> 0) (addr_ci CI_MS_WINS1 (winsaddr0 go)) @
     opt_bytes (winsaddr1 go \<noteq> 0) (addr_ci CI_MS_WINS2 (winsaddr1 go))"

lemma length_cis [simp]:
  "length (addrs_ci a b) = 10" "length (addr_ci opt a) = 6" "length (vj_ci go) = vj_len go"
  by (simp_all add: addrs_ci_def addr_ci_def vj_ci_def vj_len_def)

lemma addci_fits:
  "length (opt_bytes b opt) \<le> len \<Longrightarrow>
   addci b opt d (out, len, go) = (out @ opt_bytes b opt, len - length (opt_bytes b opt), go)"
  by (cases b) (simp_all add: addci_def opt_bytes_def)

lemma Addci_go_fits:
  assumes "length (ipcp_ci go) \<le> len"
  shows "ipcp_Addci_go len go = (ipcp_ci go, go)"
  using assms by (simp add: ipcp_Addci_go_def ipcp_ci_def addci_fits Let_def)

lemma Cilen_length: "fst (ipcp_Cilen s) = length (ipcp_ci (gotoptions (snd (ipcp_Cilen s))))"
  by (simp add: ipcp_Cilen_def Let_def ipcp_ci_def opt_bytes_def)

text \<open>The values of our options that fit the fields they are sent in.\<close>

definition ipcp_opts_wf :: "ipcp_options \<Rightarrow> bool" where
  "ipcp_opts_wf go \<longleftrightarrow> vj_protocol go < 65536 \<and> maxslotindex go < 256"

lemma ack_addr_iff: "ack_addr neg opt v p = Some r \<longleftrightarrow> p = opt_bytes neg (addr_ci opt v) @ r"
proof (cases neg)
  case True
  show ?thesis
  proof
    assume "ack_addr neg opt v p = Some r"
    then have h: "6 \<le> length p" "unat (p ! 1) = 6" "p ! 0 = opt" "GETLONG (drop 2 p) = v" "r = drop 6 p"
      using True by (auto simp: ack_addr_def split: if_splits)
    have "p = [p ! 0, p ! 1] @ take 4 (drop 2 p) @ drop 4 (drop 2 p)"
      using h(1) list_split2 [of p] by (simp only: append_take_drop_id)
    also have "take 4 (drop 2 p) = PUTLONG v" using h by (simp add: GETLONG_eq_iff)
    also have "p ! 1 = 6" using h(2) by (simp add: word_unat_eq_iff)
    finally show "p = opt_bytes neg (addr_ci opt v) @ r" using h True by (simp add: opt_bytes_def addr_ci_def)
  next
    assume "p = opt_bytes neg (addr_ci opt v) @ r"
    then show "ack_addr neg opt v p = Some r" using True by (simp add: ack_addr_def opt_bytes_def addr_ci_def)
  qed
qed (auto simp: ack_addr_def opt_bytes_def)

lemma ack_addrs_iff:
  "ack_addrs go p = Some r \<longleftrightarrow> p = opt_bytes (use_addrs go) (addrs_ci (ouraddr go) (hisaddr go)) @ r"
proof (cases "use_addrs go")
  case True
  show ?thesis
  proof
    assume "ack_addrs go p = Some r"
    then have h: "10 \<le> length p" "unat (p ! 1) = 10" "p ! 0 = CI_ADDRS" "GETLONG (drop 2 p) = ouraddr go"
        "GETLONG (drop 6 p) = hisaddr go" "r = drop 10 p"
      using True by (auto simp: ack_addrs_def split: if_splits)
    have "p = [p ! 0, p ! 1] @ take 4 (drop 2 p) @ take 4 (drop 4 (drop 2 p)) @ drop 4 (drop 4 (drop 2 p))"
      using h(1) list_split2 [of p] by (simp only: append_take_drop_id)
    also have "take 4 (drop 2 p) = PUTLONG (ouraddr go)" using h by (simp add: GETLONG_eq_iff)
    also have "take 4 (drop 4 (drop 2 p)) = PUTLONG (hisaddr go)" using h by (simp add: GETLONG_eq_iff)
    also have "p ! 1 = 10" using h(2) by (simp add: word_unat_eq_iff)
    finally show "p = opt_bytes (use_addrs go) (addrs_ci (ouraddr go) (hisaddr go)) @ r"
      using h True by (simp add: opt_bytes_def addrs_ci_def)
  next
    assume "p = opt_bytes (use_addrs go) (addrs_ci (ouraddr go) (hisaddr go)) @ r"
    then show "ack_addrs go p = Some r" using True by (simp add: ack_addrs_def opt_bytes_def addrs_ci_def)
  qed
qed (auto simp: ack_addrs_def opt_bytes_def)

lemma ack_vj_iff:
  assumes "ipcp_opts_wf go"
  shows "ack_vj go p = Some r \<longleftrightarrow> p = opt_bytes (neg_vj go) (vj_ci go) @ r"
proof (cases "neg_vj go")
  case True
  have wf: "vj_protocol go < 65536" "maxslotindex go < 256" using assms by (simp_all add: ipcp_opts_wf_def)
  have vl: "vj_len go < 256" "4 \<le> vj_len go" by (simp_all add: vj_len_def)
  show ?thesis
  proof
    assume "ack_vj go p = Some r"
    then have h: "vj_len go \<le> length p" "unat (p ! 1) = vj_len go" "p ! 0 = CI_COMPRESSTYPE"
        "GETSHORT (p ! 2) (p ! 3) = vj_protocol go" "\<not> old_vj go \<longrightarrow> unat (p ! 4) = maxslotindex go"
        "\<not> old_vj go \<longrightarrow> p ! 5 = of_bool (cflag go)" "r = drop (vj_len go) p"
      using True by (auto simp: ack_vj_def split: if_splits)
    have "4 \<le> length p" using h(1) vl by simp
    then have "p = [p ! 0, p ! 1] @ [p ! 2, p ! 3] @ drop 4 p" by (rule list_split4)
    also have "[p ! 2, p ! 3] = PUTSHORT (vj_protocol go)" using h(4) wf(1) GETSHORT_eq_iff by blast
    also have "p ! 1 = of_nat (vj_len go)" using h(2) vl byte_eq_of_nat by blast
    also have "drop 4 p = (if old_vj go then [] else [of_nat (maxslotindex go), of_bool (cflag go)]) @ r"
    proof (cases "old_vj go")
      case False
      have "drop 4 p = [p ! 4, p ! 5] @ drop 6 p"
        using list_split2 [of "drop 4 p"] h(1) False by (simp add: vj_len_def numeral_eq_Suc)
      moreover have "p ! 4 = of_nat (maxslotindex go)" using h(5) False wf(2) byte_eq_of_nat by blast
      ultimately show ?thesis using h(6,7) False by (simp add: vj_len_def)
    qed (use h(7) in \<open>simp add: vj_len_def\<close>)
    finally show "p = opt_bytes (neg_vj go) (vj_ci go) @ r"
      using h(3) True by (simp add: opt_bytes_def vj_ci_def)
  next
    assume p: "p = opt_bytes (neg_vj go) (vj_ci go) @ r"
    have g: "GETSHORT (PUTSHORT (vj_protocol go) ! 0) (PUTSHORT (vj_protocol go) ! 1) = vj_protocol go"
      using wf(1) by (rule GETSHORT_PUTSHORT)
    show "ack_vj go p = Some r"
      using True wf g
      by (cases "old_vj go") (simp_all add: p ack_vj_def opt_bytes_def vj_ci_def vj_len_def nth_append PUTSHORT_def
          byte_unat_of_nat)
  qed
qed (auto simp: ack_vj_def opt_bytes_def)

text \<open>
  Our configuration request. The bytes \<^verbatim>\<open>Cilen\<close> announces are exactly those \<^verbatim>\<open>Addci\<close> writes, none of
  our options is given up for lack of room, and \<^verbatim>\<open>Ackci\<close> accepts an acknowledgement if and only if it
  repeats that request byte for byte.
\<close>

theorem ipcp_request_ack:
  "ipcp_opts_wf (gotoptions (snd (ipcp_Cilen s))) \<Longrightarrow>
   (let (len, s') = ipcp_Cilen s; (req, s'') = ipcp_Addci s' len
    in length req = len \<and> s'' = s' \<and> (\<forall>ack. ipcp_Ackci s'' ack \<longleftrightarrow> ack = req))"
proof -
  assume wf: "ipcp_opts_wf (gotoptions (snd (ipcp_Cilen s)))"
  obtain len s' where c: "ipcp_Cilen s = (len, s')" by (cases "ipcp_Cilen s")
  let ?go = "gotoptions s'"
  have len: "len = length (ipcp_ci ?go)" using Cilen_length [of s] c by simp
  have add: "ipcp_Addci s' len = (ipcp_ci ?go, s')" using Addci_go_fits [of ?go len] len by (simp add: ipcp_Addci_def)
  have "ipcp_Ackci s' ack \<longleftrightarrow> ack = ipcp_ci ?go" for ack
  proof
    assume "ipcp_Ackci s' ack"
    then show "ack = ipcp_ci ?go"
      using wf c
      by (auto simp: ipcp_Ackci_def ipcp_Ackci_go_def bind_eq_Some_conv ack_addrs_iff ack_vj_iff ack_addr_iff
          ipcp_ci_def split: option.splits)
  next
    assume a: "ack = ipcp_ci ?go"
    have "Option.bind (ack_addrs ?go ack) (\<lambda>p. Option.bind (ack_vj ?go p) (\<lambda>p.
           Option.bind (ack_addr (neg_addr ?go) CI_ADDR (ouraddr ?go) p) (\<lambda>p.
           Option.bind (ack_addr (req_dns1 ?go) CI_MS_DNS1 (dnsaddr0 ?go) p) (\<lambda>p.
           Option.bind (ack_addr (req_dns2 ?go) CI_MS_DNS2 (dnsaddr1 ?go) p) (\<lambda>p.
           Option.bind (ack_addr (winsaddr0 ?go \<noteq> 0) CI_MS_WINS1 (winsaddr0 ?go) p) (\<lambda>p.
           ack_addr (winsaddr1 ?go \<noteq> 0) CI_MS_WINS2 (winsaddr1 ?go) p)))))) = Some []"
      using wf c by (auto simp: bind_eq_Some_conv ack_addrs_iff ack_vj_iff ack_addr_iff a ipcp_ci_def)
    then show "ipcp_Ackci s' ack" by (simp add: ipcp_Ackci_def ipcp_Ackci_go_def)
  qed
  then show ?thesis using len add by (simp add: c)
qed

definition demo_ipcp :: ipcp where
  "demo_ipcp = ipcp_SetSecondaryDNS 0x08080404 (ipcp_SetPrimaryDNS 0x08080808
     (ipcp_SetSubscriberIP 0x0A000002 (ipcp_SetMyIP 0x0A000001 (f_sink (ipcp_Init (fsm_new CPPPIPCP_new 0x8021))))))"

lemmas demo_ipcp_defs = demo_ipcp_def ipcp_SetSecondaryDNS_def ipcp_SetPrimaryDNS_def ipcp_SetSubscriberIP_def
  ipcp_SetMyIP_def ipcp_Init_def Init_def fsm_new_def CPPPIPCP_new_def ipcp_options_zero_def Let_def

theorem ipcp_request_ack_witness:
  "let (len, s') = ipcp_Cilen (ipcp_Resetci demo_ipcp); (req, s'') = ipcp_Addci s' len
   in req = [3, 6, 10, 0, 0, 1] \<and> ipcp_Ackci s'' [3, 6, 10, 0, 0, 1] \<and> \<not> ipcp_Ackci s'' [3, 6, 10, 0, 0, 2]"
proof -
  let ?s = "ipcp_Resetci demo_ipcp"
  obtain len s' where c: "ipcp_Cilen ?s = (len, s')" by (cases "ipcp_Cilen ?s")
  obtain req s'' where a: "ipcp_Addci s' len = (req, s'')" by (cases "ipcp_Addci s' len")
  have wf: "ipcp_opts_wf (gotoptions (snd (ipcp_Cilen ?s)))"
    by (simp add: demo_ipcp_defs ipcp_Resetci_def ipcp_Cilen_def ipcp_opts_wf_def)
  have g: "gotoptions (snd (ipcp_Cilen ?s)) = ipcp_options_zero\<lparr>neg_addr := True, old_addrs := True, req_addr := True,
      cflag := True, ouraddr := 0x0A000001, hisaddr := 0x0A000002\<rparr>"
    by (simp add: demo_ipcp_defs ipcp_Resetci_def ipcp_Cilen_def)
  have "ipcp_ci (gotoptions s') = addr_ci CI_ADDR 0x0A000001"
    using g by (simp add: c ipcp_ci_def opt_bytes_def use_addrs_def ipcp_options_zero_def)
  also have "\<dots> = [3, 6, 10, 0, 0, 1]" by (simp add: addr_ci_def PUTLONG_def)
  finally have "req = [3, 6, 10, 0, 0, 1]"
    using a Addci_go_fits [of "gotoptions s'" len] Cilen_length [of ?s] by (simp add: c ipcp_Addci_def)
  moreover have "\<forall>ack. ipcp_Ackci s'' ack \<longleftrightarrow> ack = req" using ipcp_request_ack [OF wf]
    by (simp only: c a Let_def prod.case) blast
  ultimately show ?thesis by (simp add: c a)
qed

section \<open>The peer's request\<close>

lemma Reqci_unfold:
  "ipcp_Reqci s inp rej =
     (let r = fold (ci_step (ipcp_req_ci (allowoptions s) rej) rej) (cis inp) ((CI_ACK, []), (wantoptions s, ipcp_options_zero));
          ((rc, out), (wo, ho)) = ipcp_req_end (m_noremoteip s) rej r
      in (rc, out, s\<lparr>wantoptions := wo, hisoptions := ho\<rparr>))"
  by (simp add: ipcp_Reqci_def reqci_loop_fold)

lemma req_end_code:
  "fst (fst (ipcp_req_end n rej r)) = CI_ACK \<Longrightarrow> ipcp_req_end n rej r = r"
  "fst (fst r) \<in> {CI_ACK, CI_NAK, CI_REJ} \<Longrightarrow> fst (fst (ipcp_req_end n rej r)) = CI_REJ \<Longrightarrow> ipcp_req_end n rej r = r"
  by (auto simp: ipcp_req_end_def Let_def case_prod_beta split: if_splits)

text \<open>An address is granted if it is ours to give or ours to accept, and never 0.0.0.0.\<close>

definition granted :: "ipcp_options \<Rightarrow> req_state \<Rightarrow> bool" where
  "granted wo0 st \<longleftrightarrow> hisaddr (fst st) = hisaddr wo0 \<and> accept_remote (fst st) = accept_remote wo0 \<and>
     (neg_addr (snd st) \<or> old_addrs (snd st) \<longrightarrow>
        hisaddr (snd st) \<noteq> 0 \<and> (hisaddr (snd st) = hisaddr wo0 \<or> accept_remote wo0))"

lemma granted_init: "granted wo (wo, ipcp_options_zero)"
  by (simp add: granted_def ipcp_options_zero_def)

lemma granted_addrs:
  "granted wo0 (wo, ho) \<Longrightarrow> fst (req_addrs ao rej (wo, ho) ci) = CI_ACK \<Longrightarrow>
   granted wo0 (snd (snd (req_addrs ao rej (wo, ho) ci)))"
  by (auto simp: granted_def req_addrs_def Let_def split: if_splits)

lemma granted_addr:
  "granted wo0 (wo, ho) \<Longrightarrow> fst (req_addr_ci ao rej (wo, ho) ci) = CI_ACK \<Longrightarrow>
   granted wo0 (snd (snd (req_addr_ci ao rej (wo, ho) ci)))"
  by (auto simp: granted_def req_addr_ci_def Let_def split: if_splits)

lemma granted_server: "granted wo0 st \<Longrightarrow> granted wo0 (snd (snd (req_server a st ci)))"
  by (simp add: req_server_def)

lemma granted_vj: "granted wo0 (wo, ho) \<Longrightarrow> granted wo0 (snd (snd (req_vj ao rej (wo, ho) ci)))"
  by (simp add: granted_def req_vj_def Let_def)

lemma granted_step:
  assumes "granted wo0 st" and "fst (ipcp_req_ci ao rej st ci) = CI_ACK"
  shows "granted wo0 (snd (snd (ipcp_req_ci ao rej st ci)))"
proof (cases st)
  case (Pair wo ho)
  show ?thesis
    using assms granted_addrs granted_addr granted_server granted_vj
    by (simp add: ipcp_req_ci_def Let_def Pair split: if_splits)
qed

lemma server_acked:
  assumes "fst (req_server a st ci) = CI_ACK" and "unat (ci ! 1) = length ci"
  shows "ci = addr_ci (ci ! 0) a"
proof -
  have h: "length ci = 6" "GETLONG (drop 2 ci) = a"
    using assms(1) by (auto simp: req_server_def split: if_splits)
  have "ack_addr True (ci ! 0) a ci = Some []" using h assms(2) by (simp add: ack_addr_def)
  then show ?thesis by (simp add: ack_addr_iff opt_bytes_def)
qed


lemma cis_one:
  assumes "2 \<le> length ci" and "unat (ci ! 1) = length ci"
  shows "cis (ci @ xs) = ci # cis xs"
proof -
  have "\<not> bad_ci (ci @ xs)" using assms by (auto simp: bad_ci_def nth_append)
  moreover have "(ci @ xs) ! 1 = ci ! 1" using assms by (simp add: nth_append)
  ultimately show ?thesis using assms by (subst cis.simps) auto
qed

lemma cis_Nil [simp]: "cis [] = []"
  by (subst cis.simps) simp

lemma addr_ci_shape: "unat (addr_ci opt a ! 1) = length (addr_ci opt a)" "addr_ci opt a ! 0 = opt"
    "GETLONG (drop 2 (addr_ci opt a)) = a" "\<not> bad_ci (addr_ci opt a)"
  using GETLONG_PUTLONG [of a "[]"] by (simp_all add: addr_ci_def bad_ci_def)

lemma cis_addr_ci [simp]: "cis (addr_ci opt a @ xs) = addr_ci opt a # cis xs"
  by (rule cis_one [OF _ addr_ci_shape(1)]) simp

lemma cis_addr_ci1 [simp]: "cis (addr_ci opt a) = [addr_ci opt a]"
  using cis_addr_ci [of opt a "[]"] by simp

lemma memcpy_addr_ci [simp]: "memcpy_at (addr_ci opt a) 2 (PUTLONG b) 4 = addr_ci opt b"
  by (simp add: memcpy_at_def addr_ci_def)

lemma req_server_addr_ci:
  "req_server d st (addr_ci opt x) =
     (if d = 0 then CI_REJ else if x \<noteq> d then CI_NAK else CI_ACK, if d = 0 \<or> x = d then addr_ci opt x else addr_ci opt d, st)"
  by (simp add: req_server_def addr_ci_shape)

lemma req_addr_addr_ci:
  assumes "neg_addr ao" "\<not> old_addrs ho" "hisaddr wo \<noteq> 0" "\<not> accept_remote wo"
  shows "req_addr_ci ao False (wo, ho) (addr_ci opt a) =
     (if a = hisaddr wo then CI_ACK else CI_NAK, addr_ci opt (hisaddr wo), (wo, ho\<lparr>neg_addr := True, hisaddr := a\<rparr>))"
  using assms by (auto simp: req_addr_ci_def addr_ci_shape Let_def)

text \<open>The request of a client that asks for an address and two name servers.\<close>

definition client_req :: "u32 \<Rightarrow> u32 \<Rightarrow> u32 \<Rightarrow> byte list" where
  "client_req a x y = addr_ci CI_ADDR a @ addr_ci CI_MS_DNS1 x @ addr_ci CI_MS_DNS2 y"

text \<open>
  The subscriber gets the configured values. A client that asks for an address and two name
  servers is told, by a Configure-Nak, exactly the values it has wrong, each with the value configured
  for the session, and gets a Configure-Ack once it asks for them; its address is then recorded.
\<close>

theorem ipcp_assigns:
  assumes "neg_addr (allowoptions s)" and "hisaddr (wantoptions s) \<noteq> 0" and "\<not> accept_remote (wantoptions s)"
    and "dnsaddr0 (allowoptions s) \<noteq> 0" and "dnsaddr1 (allowoptions s) \<noteq> 0"
  shows "let h = hisaddr (wantoptions s); d1 = dnsaddr0 (allowoptions s); d2 = dnsaddr1 (allowoptions s);
      (code, out, s') = ipcp_Reqci s (client_req a x y) False;
      (code', out', s'') = ipcp_Reqci s' (client_req h d1 d2) False
    in (if a = h \<and> x = d1 \<and> y = d2 then code = CI_ACK \<and> out = client_req a x y
        else code = CI_NAK \<and> out = opt_bytes (a \<noteq> h) (addr_ci CI_ADDR h) @
          opt_bytes (x \<noteq> d1) (addr_ci CI_MS_DNS1 d1) @ opt_bytes (y \<noteq> d2) (addr_ci CI_MS_DNS2 d2)) \<and>
       code' = CI_ACK \<and> out' = client_req h d1 d2 \<and> hisaddr (hisoptions s'') = h \<and> neg_addr (hisoptions s'')"
proof -
  have one: "ipcp_Reqci t (client_req a x y) False =
      (let h = hisaddr (wantoptions t); d1 = dnsaddr0 (allowoptions t); d2 = dnsaddr1 (allowoptions t);
           ho = ipcp_options_zero\<lparr>neg_addr := True, hisaddr := a\<rparr>; t' = t\<lparr>hisoptions := ho\<rparr>
       in if a = h \<and> x = d1 \<and> y = d2 then (CI_ACK, client_req a x y, t')
          else (CI_NAK, opt_bytes (a \<noteq> h) (addr_ci CI_ADDR h) @
            opt_bytes (x \<noteq> d1) (addr_ci CI_MS_DNS1 d1) @ opt_bytes (y \<noteq> d2) (addr_ci CI_MS_DNS2 d2), t'))"
    if h: "neg_addr (allowoptions t)" "hisaddr (wantoptions t) \<noteq> 0" "\<not> accept_remote (wantoptions t)"
      "dnsaddr0 (allowoptions t) \<noteq> 0" "dnsaddr1 (allowoptions t) \<noteq> 0" for t a x y
  proof -
    have z: "\<not> old_addrs ipcp_options_zero" "\<not> neg_addr ipcp_options_zero" by (simp_all add: ipcp_options_zero_def)
    show ?thesis
      using h z
      by (simp add: Reqci_unfold client_req_def ci_step_def ipcp_req_ci_def addr_ci_shape req_addr_addr_ci
          req_server_addr_ci ipcp_req_end_def merge_simps opt_bytes_def)
  qed
  have two: "ipcp_Reqci (s\<lparr>hisoptions := k\<rparr>) (client_req (hisaddr (wantoptions s)) (dnsaddr0 (allowoptions s))
        (dnsaddr1 (allowoptions s))) False =
      (CI_ACK, client_req (hisaddr (wantoptions s)) (dnsaddr0 (allowoptions s)) (dnsaddr1 (allowoptions s)),
       s\<lparr>hisoptions := ipcp_options_zero\<lparr>neg_addr := True, hisaddr := hisaddr (wantoptions s)\<rparr>\<rparr>)" for k
    using one [of "s\<lparr>hisoptions := k\<rparr>"] assms by (simp add: Let_def)
  show ?thesis by (simp add: one [OF assms] two Let_def)
qed

theorem ipcp_assigns_witness:
  "let (code, out, s') = ipcp_Reqci demo_ipcp (client_req 0 0 0x08080404) False
   in code = CI_NAK \<and> out = addr_ci CI_ADDR 0x0A000002 @ addr_ci CI_MS_DNS1 0x08080808"
  using ipcp_assigns [of demo_ipcp 0 0 "0x08080404"]
  by (simp add: demo_ipcp_defs opt_bytes_def case_prod_beta)


text \<open>
  What a rejection means. While the peer's values are still answered with Naks, a Configure-Reject
  lists options of the request, in their order and unchanged; a malformed option ends the request and
  is rejected with everything after it.
\<close>

theorem ipcp_reject_sound:
  "ipcp_Reqci s inp False = (CI_REJ, out, s') \<Longrightarrow> \<exists>rejected. subseq rejected (cis inp) \<and> out = concat rejected"
proof -
  assume a: "ipcp_Reqci s inp False = (CI_REJ, out, s')"
  let ?chk = "ipcp_req_ci (allowoptions s) False"
  define r where "r = fold (ci_step ?chk False) (cis inp) ((CI_ACK, []), (wantoptions s, ipcp_options_zero))"
  have eq: "ipcp_Reqci s inp False = (let ((rc, out), (wo, ho)) = ipcp_req_end (m_noremoteip s) False r
      in (rc, out, s\<lparr>wantoptions := wo, hisoptions := ho\<rparr>))"
    unfolding Reqci_unfold Let_def r_def ..
  have "fst (fst r) \<in> {CI_ACK, CI_NAK, CI_REJ}" unfolding r_def by (rule ipcp_req.loop_code)
  moreover have "fst (fst (ipcp_req_end (m_noremoteip s) False r)) = CI_REJ"
    using eq a by (simp add: case_prod_beta Let_def)
  ultimately have "ipcp_req_end (m_noremoteip s) False r = r" by (rule req_end_code(2))
  then have r: "fst (fst r) = CI_REJ" "snd (fst r) = out" using eq a by (auto simp: Let_def case_prod_beta)
  show ?thesis using ipcp_req.loop_rej [of False "allowoptions s" False "cis inp"] r unfolding r_def by blast
qed

theorem ipcp_reject_sound_witness:
  "\<exists>rejected. subseq rejected (cis ([0x99, 2] @ addr_ci CI_ADDR 5)) \<and> concat rejected = [0x99, 2]"
proof -
  have c: "cis ([0x99, 2] @ addr_ci CI_ADDR 5) = [0x99, 2] # cis (addr_ci CI_ADDR 5)"
    by (rule cis_one) simp_all
  have b: "\<not> bad_ci [0x99, 2]" by (simp add: bad_ci_def)
  have "\<exists>s'. ipcp_Reqci demo_ipcp ([0x99, 2] @ addr_ci CI_ADDR 5) False = (CI_REJ, [0x99, 2], s')"
    by (simp add: Reqci_unfold c [simplified] b ci_step_def ipcp_req_ci_def addr_ci_shape req_addr_addr_ci
        ipcp_req_end_def merge_simps demo_ipcp_defs)
  then show ?thesis using ipcp_reject_sound by metis
qed

end
