(* ===== verification/Ppp_Ipcp_Machine.thy ===== *)
theory Ppp_Ipcp_Machine
  imports Ppp_Ipcp_Spec Ppp_Fsm_Reentrant
begin

text \<open>
  IPCP composed with the automaton: every call the session makes (the events of the automaton, the
  timer, \<^verbatim>\<open>Open\<close> and the address setters) as a step of one machine, and what holds in all of its
  states: the subscriber is told that IPCP is up exactly while the automaton is opened, and then the
  local address is known.
\<close>

section \<open>The machine\<close>

lemma ipcp_sink_reentrant: "ipcp_sink = reentrant ipcp_base ipcp_Up (LowerUp ipcp_base) (cb_Nakci ipcp_base)"
  by (simp add: ipcp_sink_def reentrant_def)

inductive ipcp_step :: "ipcp fsm \<Rightarrow> ipcp fsm \<Rightarrow> bool" where
  ipcp_event: "ev \<noteq> EvTimeout \<Longrightarrow> ipcp_step f (fsm_do ipcp_sink ev f)"
| ipcp_timeout: "f_timer f \<noteq> None \<Longrightarrow> ipcp_step f (fsm_do ipcp_sink EvTimeout f)"
| ipcp_opened: "ipcp_step f (ipcp_Open f)"
| ipcp_my_ip: "ipcp_step f (upd_sink (ipcp_SetMyIP a) f)"
| ipcp_subscriber_ip: "ipcp_step f (upd_sink (ipcp_SetSubscriberIP a) f)"
| ipcp_dns1: "ipcp_step f (upd_sink (ipcp_SetPrimaryDNS a) f)"
| ipcp_dns2: "ipcp_step f (upd_sink (ipcp_SetSecondaryDNS a) f)"

definition ipcp_start :: "ipcp fsm \<Rightarrow> bool" where
  "ipcp_start f \<longleftrightarrow> f = ipcp_Init (fsm_new CPPPIPCP_new 0x8021)"

text \<open>The subscriber was last told that IPCP is up; the local address is known.\<close>

definition ipcp_told :: "ipcp \<Rightarrow> bool" where
  "ipcp_told s \<longleftrightarrow> ipcp_notices s \<noteq> [] \<and> last (ipcp_notices s) = OnIPCPUp"

definition ipcp_addressed :: "ipcp \<Rightarrow> bool" where
  "ipcp_addressed s \<longleftrightarrow> ouraddr (gotoptions s) \<noteq> 0"

section \<open>The callbacks of IPCP keep both contracts\<close>

lemma ipcp_notices_keep [simp]:
  "ipcp_notices (ipcp_Resetci s) = ipcp_notices s" "ipcp_notices (snd (ipcp_Cilen s)) = ipcp_notices s"
  "ipcp_notices (snd (ipcp_Addci s n)) = ipcp_notices s" "ipcp_notices (snd (ipcp_Nakci st s p b)) = ipcp_notices s"
  "ipcp_notices (snd (ipcp_Rejci st s p)) = ipcp_notices s"
  "ipcp_notices (snd (snd (ipcp_Reqci s p b))) = ipcp_notices s" "ipcp_notices (ipcp_Finished s) = ipcp_notices s"
  by (simp_all add: ipcp_Resetci_def ipcp_Cilen_def ipcp_Addci_def ipcp_Nakci_def ipcp_Rejci_def ipcp_Reqci_def
      ipcp_Finished_def Let_def case_prod_beta split: option.split)

lemma ipcp_bad_answer:
  "fst (ipcp_Nakci st s p b) = 0 \<Longrightarrow> snd (ipcp_Nakci st s p b) = s"
  "fst (ipcp_Rejci st s p) = 0 \<Longrightarrow> snd (ipcp_Rejci st s p) = s"
  by (simp_all add: ipcp_Nakci_def ipcp_Rejci_def Let_def split: option.splits)

interpretation ipcp_telling: telling_sink ipcp_base ipcp_told ipcp_addressed "\<lambda>_. True"
  by unfold_locales
    (use ipcp_bad_answer in \<open>simp_all add: ipcp_base_ok, simp_all add: ipcp_base_def ipcp_told_def ipcp_OnDown_def
      Let_def case_prod_beta\<close>)

definition ipcp_inv :: "ipcp fsm \<Rightarrow> bool" where
  "ipcp_inv f \<longleftrightarrow> timer_inv f \<and> up_inv f \<and> m_flags f = 0 \<and> ipcp_telling.tell f"

lemma ipcp_Close_nakloops:
  assumes "m_state f = OPENED"
  shows "the (Close ipcp_base (Some r) (f\<lparr>m_nakloops := n\<rparr>)) = (the (Close ipcp_base (Some r) f))\<lparr>m_nakloops := n\<rparr>"
  using assms
  by (cases "m_maxtermtransmits f = 0")
    (simp_all add: Close_def TerminateLayer_def ipcp_base_def bras_defs)

lemma ipcp_Up_nakloops:
  assumes "m_state f = OPENED"
  shows "ipcp_Up (f\<lparr>m_nakloops := n\<rparr>) = (ipcp_Up f)\<lparr>m_nakloops := n\<rparr>"
proof -
  have u: "upd_sink ipcp_Up_options (f\<lparr>m_nakloops := n\<rparr>) = (upd_sink ipcp_Up_options f)\<lparr>m_nakloops := n\<rparr>" by simp
  have "m_state (upd_sink ipcp_Up_options f) = OPENED" using assms by simp
  note c = ipcp_Close_nakloops [OF this]
  show ?thesis
    unfolding ipcp_Up_def Let_def u
    by (cases "ipcp_Up_refuses (f_sink (upd_sink ipcp_Up_options f))") (simp_all add: c)
qed

text \<open>\<^verbatim>\<open>Up\<close> either reports the layer to the subscriber or closes it at once.\<close>

lemma ipcp_inv_Up:
  assumes t: "timer_inv f" and u: "up_inv f" and fl: "m_flags f = 0" and o: "m_state f = OPENED"
  shows "ipcp_inv (ipcp_Up f)"
proof -
  let ?g = "upd_sink ipcp_Up_options f"
  have g: "timer_inv ?g" "up_inv ?g" "m_flags ?g = 0" "m_state ?g = OPENED"
    using t u fl o by simp_all
  show ?thesis
  proof (cases "ipcp_Up_refuses (f_sink ?g)")
    case None
    then have "ipcp_addressed (f_sink ?g)"
      by (auto simp: ipcp_Up_refuses_def ipcp_addressed_def Let_def split: if_splits)
    then show ?thesis using t u fl o None
      by (simp add: ipcp_inv_def ipcp_Up_def ipcp_telling.tell_def ipcp_told_def ipcp_addressed_def)
  next
    case (Some r)
    let ?h = "the (Close ipcp_base (Some r) ?g)"
    have "timer_inv ?h" "up_inv ?h" "m_flags ?h = 0"
      using timer_inv_do [OF ipcp_base_ok g(1), of "EvClose r"] up_inv_do [OF ipcp_base_ok g(2), of "EvClose r"]
        flags_do [OF ipcp_base_ok, of "EvClose r" ?g] g(3) by simp_all
    moreover have "ipcp_telling.tell ?h" using g(4) by (simp add: Close_def ipcp_telling.tell_def Let_def)
    ultimately show ?thesis using Some by (simp add: ipcp_inv_def ipcp_Up_def)
  qed
qed

interpretation ipcp_reentrant: reentrant_sink ipcp_base ipcp_Up "LowerUp ipcp_base" "cb_Nakci ipcp_base" ipcp_inv
proof unfold_locales
  show "sink_ok ipcp_base" by (rule ipcp_base_ok)
  show "cb_Up ipcp_base f = f" "cb_Starting ipcp_base f = f" for f by (simp_all add: ipcp_base_def)
  show "ipcp_Up (f\<lparr>m_nakloops := n\<rparr>) = (ipcp_Up f)\<lparr>m_nakloops := n\<rparr>" if "m_state f = OPENED" for f n
    using that by (rule ipcp_Up_nakloops)
  show "ipcp_inv f \<Longrightarrow> m_flags f = 0" for f by (simp add: ipcp_inv_def)
next
  fix f ev
  assume i: "ipcp_inv f" and o: "m_state f = OPENED \<or> m_state (fsm_do ipcp_base ev f) \<noteq> OPENED"
  then show "ipcp_inv (fsm_do ipcp_base ev f)"
    by (simp add: ipcp_inv_def timer_inv_do up_inv_do ipcp_base_ok flags_do ipcp_telling.tell_do)
next
  fix f ev
  assume i: "ipcp_inv f" and o: "m_state (fsm_do ipcp_base ev f) = OPENED"
  then show "ipcp_inv (ipcp_Up (fsm_do ipcp_base ev f))"
    by (intro ipcp_inv_Up) (simp_all add: ipcp_inv_def timer_inv_do up_inv_do ipcp_base_ok flags_do)
next
  fix f
  assume "ipcp_inv f"
  then show "ipcp_inv (LowerUp ipcp_base f)"
    using timer_inv_do [OF ipcp_base_ok, of f EvLowerUp] up_inv_do [OF ipcp_base_ok, of f EvLowerUp]
    by (simp add: ipcp_inv_def flags_admin ipcp_base_ok ipcp_telling.tell_admin)
next
  fix f c i d
  assume "ipcp_inv f"
  then show "ipcp_inv (SendData c i d f)"
    by (simp add: ipcp_inv_def ipcp_telling.tell_def)
qed simp_all

lemma ipcp_inv_sink:
  assumes "ipcp_inv f" and "ipcp_notices (u (f_sink f)) = ipcp_notices (f_sink f)"
    and "gotoptions (u (f_sink f)) = gotoptions (f_sink f)"
  shows "ipcp_inv (upd_sink u f)"
  using assms
  by (auto simp: ipcp_inv_def ipcp_telling.tell_def ipcp_told_def ipcp_addressed_def split: if_splits)

interpretation ipcp_machine: invariant_of ipcp_start ipcp_step ipcp_inv
proof unfold_locales
  fix f
  assume "ipcp_start f"
  then show "ipcp_inv f"
    by (simp add: ipcp_start_def ipcp_inv_def ipcp_Init_def Init_def fsm_new_def CPPPIPCP_new_def timer_simps
        up_inv_def ipcp_telling.tell_def ipcp_told_def Let_def)
next
  fix f g
  assume i: "ipcp_inv f" and "ipcp_step f g"
  from this(2) show "ipcp_inv g"
  proof cases
    case ipcp_opened
    have "ipcp_inv (fsm_do ipcp_sink EvOpen (upd_sink (\<lambda>s. s\<lparr>m_ipcp_is_open := True\<rparr>) f))"
      unfolding ipcp_sink_reentrant by (rule ipcp_reentrant.inv_whole, rule ipcp_inv_sink [OF i]) simp_all
    then show ?thesis by (simp add: ipcp_opened ipcp_Open_def)
  next
    case ipcp_timeout
    then show ?thesis using ipcp_reentrant.inv_whole [OF i, of EvTimeout] by (simp add: ipcp_sink_reentrant)
  qed (use ipcp_reentrant.inv_whole [OF i, folded ipcp_sink_reentrant] ipcp_inv_sink [OF i] in
    \<open>simp_all add: ipcp_SetMyIP_def ipcp_SetSubscriberIP_def ipcp_SetPrimaryDNS_def ipcp_SetSecondaryDNS_def\<close>)
qed

section \<open>A negotiation, step by step\<close>

text \<open>The session gives us 10.0.0.1 and the subscriber 10.0.0.2 and opens IPCP.\<close>

definition demo_link :: "ipcp fsm" where
  "demo_link = ipcp_Open (upd_sink (ipcp_SetSubscriberIP 0x0A000002) (upd_sink (ipcp_SetMyIP 0x0A000001)
     (ipcp_Init (fsm_new CPPPIPCP_new 0x8021))))"

definition demo_options :: ipcp_options where
  "demo_options = ipcp_options_zero\<lparr>neg_addr := True, old_addrs := True, req_addr := True, cflag := True,
     ouraddr := 0x0A000001, hisaddr := 0x0A000002\<rparr>"

definition demo_asked :: ipcp where
  "demo_asked = (f_sink (ipcp_Init (fsm_new CPPPIPCP_new 0x8021)))
     \<lparr>wantoptions := demo_options, gotoptions := demo_options, m_ipcp_is_open := True\<rparr>"

definition demo_granted :: ipcp where
  "demo_granted = demo_asked\<lparr>hisoptions := ipcp_options_zero\<lparr>neg_addr := True, hisaddr := 0x0A000002\<rparr>\<rparr>"

lemmas demo_defs = demo_granted_def demo_asked_def demo_options_def ipcp_Init_def Init_def fsm_new_def
  CPPPIPCP_new_def ipcp_SetSubscriberIP_def ipcp_SetMyIP_def ipcp_options_zero_def Let_def

lemma demo_callbacks:
  "ipcp_Cilen demo_asked = (6, demo_asked)" "ipcp_Addci demo_asked 6 = ([3, 6, 10, 0, 0, 1], demo_asked)"
  "ipcp_Reqci demo_asked [3, 6, 10, 0, 0, 2] False = (2, [3, 6, 10, 0, 0, 2], demo_granted)"
  "ipcp_Ackci demo_granted [3, 6, 10, 0, 0, 1]"
  by (simp_all add: demo_defs ipcp_Cilen_def ipcp_Addci_def ipcp_Addci_go_def addci_def use_addrs_def addr_ci_def
      PUTLONG_def GETLONG_def ipcp_Reqci_def ipcp_req_end_def reqci_loop.simps ipcp_req_ci_def req_addr_ci_def
      merge_ci_def bad_ci_def ipcp_Ackci_def ipcp_Ackci_go_def ack_addrs_def ack_addr_def ack_vj_def)

lemma demo_opened:
  "m_state demo_link = REQSENT" "f_sink demo_link = demo_asked" "m_reqid demo_link = 1" "\<not> m_seen_ack demo_link"
  "m_nakloops demo_link = 0" "m_maxnakloops demo_link = 100"
proof -
  have r: "ipcp_Resetci (ipcp_SetSubscriberIP 0x0A000002 (ipcp_SetMyIP 0x0A000001
      (f_sink (ipcp_Init (fsm_new CPPPIPCP_new 0x8021)))) \<lparr>m_ipcp_is_open := True\<rparr>) = demo_asked"
    by (simp add: ipcp_Resetci_def demo_defs)
  have i: "m_state (ipcp_Init (fsm_new CPPPIPCP_new 0x8021)) = INITIAL" "m_id (ipcp_Init (fsm_new CPPPIPCP_new 0x8021)) = 0"
      "m_maxnakloops (ipcp_Init (fsm_new CPPPIPCP_new 0x8021)) = 100" "m_flags (ipcp_Init (fsm_new CPPPIPCP_new 0x8021)) = 0"
    by (simp_all add: ipcp_Init_def Init_def fsm_new_def Let_def)
  show "m_state demo_link = REQSENT" "f_sink demo_link = demo_asked" "m_reqid demo_link = 1" "\<not> m_seen_ack demo_link"
    "m_nakloops demo_link = 0" "m_maxnakloops demo_link = 100"
    by (simp_all add: demo_link_def ipcp_Open_def Open_def Starting_def ipcp_sink_def LowerUp_def SendConfReq_def
        negotiating_def ipcp_base_def SendData_def Output_def StartTime_def CancelTimer_def i r demo_callbacks Let_def)
qed

lemma demo_packets:
  "parse_packet [1, 9, 0, 10, 3, 6, 10, 0, 0, 2] = Some (1, 9, [3, 6, 10, 0, 0, 2])"
  "parse_packet [2, 1, 0, 10, 3, 6, 10, 0, 0, 1] = Some (2, 1, [3, 6, 10, 0, 0, 1])"
  by (simp_all add: parse_packet_def GETSHORT_def)

lemma demo_asks:
  fixes f :: "ipcp fsm"
  assumes "m_state f = REQSENT" "f_sink f = demo_asked" "m_reqid f = 1" "\<not> m_seen_ack f" "m_nakloops f = 0"
    "m_maxnakloops f = 100"
  shows "m_state (Input ipcp_sink [1, 9, 0, 10, 3, 6, 10, 0, 0, 2] f) = ACKSENT"
    "f_sink (Input ipcp_sink [1, 9, 0, 10, 3, 6, 10, 0, 0, 2] f) = demo_granted"
    "m_reqid (Input ipcp_sink [1, 9, 0, 10, 3, 6, 10, 0, 0, 2] f) = 1"
    "\<not> m_seen_ack (Input ipcp_sink [1, 9, 0, 10, 3, 6, 10, 0, 0, 2] f)"
  using assms
  by (simp_all add: Input_def demo_packets Input_code_def RcvConfReq_def RcvConfReq_switch_def RcvConfReq_answer_def
      Reqci_code_def ipcp_sink_def ipcp_base_def demo_callbacks SendData_def Output_def Let_def)

lemma demo_acks:
  fixes f :: "ipcp fsm"
  assumes "m_state f = ACKSENT" "f_sink f = demo_granted" "m_reqid f = 1" "\<not> m_seen_ack f"
  shows "m_state (Input ipcp_sink [2, 1, 0, 10, 3, 6, 10, 0, 0, 1] f) = OPENED"
proof -
  have r: "ipcp_Up_options demo_granted = demo_granted" "ipcp_Up_refuses demo_granted = None"
    by (simp_all add: ipcp_Up_options_def ipcp_Up_refuses_def demo_defs)
  show ?thesis using assms
    by (simp add: Input_def demo_packets Input_code_def RcvConfAck_def ipcp_sink_def ipcp_base_def demo_callbacks
        CancelTimer_def Up_def ipcp_Up_def r Let_def)
qed

section \<open>Properties\<close>

text \<open>
  C9. IPCP and the automaton together, in every state the session can bring them to: the subscriber
  was last told \<^verbatim>\<open>OnIPCPUp\<close> exactly when the automaton is opened; an opened link has a local address;
  the layer callbacks alternate; and the restart timer runs whenever an answer of the peer is awaited.
\<close>

theorem ipcp_reachable:
  assumes "reachable ipcp_start ipcp_step f"
  shows "(m_state f = OPENED \<longleftrightarrow> ipcp_told (f_sink f)) \<and>
    (m_state f = OPENED \<longrightarrow> ouraddr (gotoptions (f_sink f)) \<noteq> 0) \<and>
    up_after False (acts f) = Some (m_state f = OPENED) \<and> (waiting f \<longrightarrow> f_timer f \<noteq> None)"
  using ipcp_machine.reachable_inv [OF assms]
  by (auto simp: ipcp_inv_def ipcp_telling.tell_def ipcp_addressed_def up_inv_def timer_inv_def waiting_def
      split: if_splits)

theorem ipcp_reachable_witness:
  "\<exists>f. reachable ipcp_start ipcp_step f \<and> m_state f = OPENED \<and> ipcp_told (f_sink f) \<and>
     ouraddr (gotoptions (f_sink f)) \<noteq> 0"
proof -
  let ?f = "fsm_do ipcp_sink (EvInput [2, 1, 0, 10, 3, 6, 10, 0, 0, 1])
    (fsm_do ipcp_sink (EvInput [1, 9, 0, 10, 3, 6, 10, 0, 0, 2]) demo_link)"
  note reach = reachable.reach_step [where init = ipcp_start and step = ipcp_step]
  have "reachable ipcp_start ipcp_step demo_link"
    unfolding demo_link_def
    by (intro reach [OF _ ipcp_opened] reach [OF _ ipcp_subscriber_ip] reach [OF _ ipcp_my_ip]
        reachable.reach_init) (simp add: ipcp_start_def)
  then have r: "reachable ipcp_start ipcp_step ?f"
    by (intro reach [OF _ ipcp_event]) simp_all
  have "m_state ?f = OPENED" using demo_acks [OF demo_asks [OF demo_opened]] by simp
  then show ?thesis using ipcp_reachable [OF r] r by blast
qed

end
