(* ===== verification/Ppp_Auth_Spec.thy ===== *)
theory Ppp_Auth_Spec
  imports Ppp_Auth
begin

text \<open>
  What the CHAP server promises the session: its challenge is a well-formed packet (and when it
  fits its array), every request it makes of the authentication manager is about the challenge
  that is outstanding, and a verdict ends that challenge. The server is a machine whose state is
  the object together with the calls it has made so far.
\<close>

section \<open>The challenge packet\<close>

definition challenge_bytes :: "chap \<Rightarrow> byte list" where
  "challenge_bytes c = fst (random_bytes AUTHMGR_MAX_CHALLENGE_SIZE c)"

lemma length_challenge_bytes [simp]: "length (challenge_bytes c) = 16"
  by (simp add: challenge_bytes_def random_bytes_def)

text \<open>What \<open>chap_generate_challenge\<close> leaves in the array: the packet, then what was there before.\<close>

lemma chap_generate_challenge_eq:
  assumes "108 \<le> length (c_challenge c)"
  shows "c_challenge (chap_generate_challenge c) =
      MAKEHEADER PPP_CHAP @ [CHAP_CHALLENGE, of_int (c_id c + 1)] @ PUTSHORT (21 + length (c_name c)) @
      [16] @ challenge_bytes c @ c_name c @ drop (25 + length (c_name c)) (c_challenge c)"
    and "c_challenge_pktlen (chap_generate_challenge c) = 25 + length (c_name c)"
    and "c_flags (chap_generate_challenge c) = c_flags c" "c_id (chap_generate_challenge c) = c_id c + 1"
    and "c_name (chap_generate_challenge c) = c_name c"
    and "chap_timer (chap_generate_challenge c) = chap_timer c"
    and "m_rechallenge_time (chap_generate_challenge c) = m_rechallenge_time c"
    and "chap_overrun (chap_generate_challenge c) \<longleftrightarrow> chap_overrun c \<or> 83 < length (c_name c)"
proof -
  obtain bs c' where b: "random_bytes 16 c = (bs, c')" by (cases "random_bytes 16 c")
  have c': "c' = c\<lparr>chap_rand_pos := chap_rand_pos c + 16\<rparr>" and l: "length bs = 16" and bs: "challenge_bytes c = bs"
    using b by (auto simp: random_bytes_def challenge_bytes_def)
  have h: "length (MAKEHEADER PPP_CHAP) = 4" by (simp add: MAKEHEADER_def)
  show "c_challenge (chap_generate_challenge c) =
      MAKEHEADER PPP_CHAP @ [CHAP_CHALLENGE, of_int (c_id c + 1)] @ PUTSHORT (21 + length (c_name c)) @
      [16] @ challenge_bytes c @ c_name c @ drop (25 + length (c_name c)) (c_challenge c)"
    using assms l h
    by (simp add: chap_generate_challenge_def chap_md5_generate_challenge_def b c' bs memcpy_at_def Let_def
        min_absorb2 del: drop_drop, simp add: add.commute)
  show "c_challenge_pktlen (chap_generate_challenge c) = 25 + length (c_name c)"
    "c_flags (chap_generate_challenge c) = c_flags c" "c_id (chap_generate_challenge c) = c_id c + 1"
    "c_name (chap_generate_challenge c) = c_name c" "chap_timer (chap_generate_challenge c) = chap_timer c"
    "m_rechallenge_time (chap_generate_challenge c) = m_rechallenge_time c"
    "chap_overrun (chap_generate_challenge c) \<longleftrightarrow> chap_overrun c \<or> 83 < length (c_name c)"
    by (auto simp: chap_generate_challenge_def chap_md5_generate_challenge_def b c' Let_def CHAL_MAX_PKTLEN_def)
qed

lemma parse_challenge:
  assumes "length nm \<le> 255" and "length ch = 16"
  shows "parse_packet ([CHAP_CHALLENGE, pid] @ PUTSHORT (21 + length nm) @ [16] @ ch @ nm) =
    Some (CHAP_CHALLENGE, pid, [16] @ ch @ nm)"
proof -
  have "GETSHORT (PUTSHORT (21 + length nm) ! 0) (PUTSHORT (21 + length nm) ! 1) = 21 + length nm"
    using assms by (intro GETSHORT_PUTSHORT) simp
  then show ?thesis using assms by (simp add: parse_packet_def PUTSHORT_def)
qed

section \<open>The server as a machine\<close>

datatype chap_event =
    ChapLowerUp | ChapLowerDown | ChapAuthPeer "byte list" | ChapTimer | ChapPacket "byte list"
  | ChapVerdict int "byte list" | ChapProtrej

definition chap_do :: "chap_event \<Rightarrow> chap \<Rightarrow> auth_call list \<times> chap" where
  "chap_do ev c =
     (case ev of
        ChapLowerUp \<Rightarrow> chap_LowerUp c
      | ChapLowerDown \<Rightarrow> ([], chap_LowerDown c)
      | ChapAuthPeer nm \<Rightarrow> chap_auth_peer nm c
      | ChapTimer \<Rightarrow> if chap_timer c = None then ([], c) else chap_handle_timeout c
      | ChapPacket pkt \<Rightarrow> chap_Input pkt c
      | ChapVerdict result reason \<Rightarrow> chap_ResponseAuthenResult result reason c
      | ChapProtrej \<Rightarrow> chap_Protrej c)"

inductive chap_step :: "chap \<times> auth_call list \<Rightarrow> chap \<times> auth_call list \<Rightarrow> bool" where
  chap_event: "chap_step (c, tr) (snd (chap_do ev c), tr @ fst (chap_do ev c))"

inductive_cases chap_stepE: "chap_step x y"

definition chap_start :: "chap \<times> auth_call list \<Rightarrow> bool" where
  "chap_start x \<longleftrightarrow> (\<exists>rnd. x = (CChapProtocolSvr_new rnd, []))"

text \<open>
  The challenge outstanding after a sequence of calls, and that every request to the authentication
  manager in it was about the one outstanding at that moment.
\<close>

definition sent_challenge :: "byte list \<Rightarrow> (u8 \<times> byte list) option" where
  "sent_challenge pkt =
     (case parse_packet (drop PPP_HDRLEN pkt) of
        Some (code, pid, x) \<Rightarrow> if code = CHAP_CHALLENGE then Some (pid, take 16 (drop 1 x)) else None
      | None \<Rightarrow> None)"

fun outstanding :: "(u8 \<times> byte list) option \<Rightarrow> auth_call list \<Rightarrow> (u8 \<times> byte list) option" where
  "outstanding cur [] = cur"
| "outstanding cur (OnAuthenOutput p # tr) =
     outstanding (case sent_challenge p of None \<Rightarrow> cur | Some x \<Rightarrow> Some x) tr"
| "outstanding cur (OnAuthenResult r p # tr) = outstanding None tr"
| "outstanding cur (SendAuthRequest2AM r # tr) = outstanding cur tr"

fun answers :: "(u8 \<times> byte list) option \<Rightarrow> auth_call list \<Rightarrow> bool" where
  "answers cur [] = True"
| "answers cur (SendAuthRequest2AM r # tr) \<longleftrightarrow> cur = Some (chapid r, challenge r) \<and> answers cur tr"
| "answers cur (c # tr) \<longleftrightarrow> answers (outstanding cur [c]) tr"

lemma outstanding_append: "outstanding cur (xs @ ys) = outstanding (outstanding cur xs) ys"
  by (induction cur xs rule: outstanding.induct) simp_all

lemma answers_append: "answers cur (xs @ ys) \<longleftrightarrow> answers cur xs \<and> answers (outstanding cur xs) ys"
  by (induction cur xs rule: answers.induct) simp_all

text \<open>The array holds a challenge packet with this identifier and value.\<close>

definition challenge_in :: "chap \<Rightarrow> u8 \<Rightarrow> byte list \<Rightarrow> bool" where
  "challenge_in c pid ch \<longleftrightarrow> length ch = 16 \<and> (\<exists>nm rest. length nm \<le> 255 \<and> c_challenge_pktlen c = 25 + length nm \<and>
     c_challenge c = MAKEHEADER PPP_CHAP @ [CHAP_CHALLENGE, pid] @ PUTSHORT (21 + length nm) @ [16] @ ch @ nm @ rest)"

lemma challenge_in_facts:
  assumes "challenge_in c pid ch"
  shows "c_challenge c ! 5 = pid" "take 16 (drop 9 (c_challenge c)) = ch" "unat (c_challenge c ! 8) = 16"
    "sent_challenge (take (c_challenge_pktlen c) (c_challenge c)) = Some (pid, ch)"
proof -
  obtain nm rest where nm: "length nm \<le> 255" "c_challenge_pktlen c = 25 + length nm" and l: "length ch = 16"
    and c: "c_challenge c = MAKEHEADER PPP_CHAP @ [CHAP_CHALLENGE, pid] @ PUTSHORT (21 + length nm) @ [16] @ ch @ nm @ rest"
    using assms by (auto simp: challenge_in_def)
  show "c_challenge c ! 5 = pid" "take 16 (drop 9 (c_challenge c)) = ch" "unat (c_challenge c ! 8) = 16"
    unfolding c using l by (simp_all add: MAKEHEADER_def PUTSHORT_def nth_append)
  let ?x = "MAKEHEADER PPP_CHAP @ [CHAP_CHALLENGE, pid] @ PUTSHORT (21 + length nm) @ [16] @ ch @ nm"
  have "length ?x = c_challenge_pktlen c" using l nm(2) by (simp add: MAKEHEADER_def)
  moreover have "c_challenge c = ?x @ rest" using c by simp
  ultimately have "take (c_challenge_pktlen c) (c_challenge c) = ?x" by (metis append_eq_conv_conj)
  moreover have "drop 4 ?x = [CHAP_CHALLENGE, pid] @ PUTSHORT (21 + length nm) @ [16] @ ch @ nm"
    by (simp add: MAKEHEADER_def PUTSHORT_def)
  ultimately show "sent_challenge (take (c_challenge_pktlen c) (c_challenge c)) = Some (pid, ch)"
    using parse_challenge [OF nm(1) l, of pid] l by (simp add: sent_challenge_def)
qed

lemma generated_challenge:
  assumes "108 \<le> length (c_challenge c)" and "length (c_name c) \<le> 255"
  shows "challenge_in (chap_generate_challenge c) (of_int (c_id c + 1)) (challenge_bytes c)"
  using chap_generate_challenge_eq(1,2) [OF assms(1)] assms(2) by (auto simp: challenge_in_def)

lemma verdict_no_challenge:
  "code \<noteq> CHAP_CHALLENGE \<Longrightarrow> sent_challenge (MAKEHEADER proto @ [code, i] @ x) = None"
  by (simp add: sent_challenge_def parse_packet_def MAKEHEADER_def PUTSHORT_def Let_def split: option.split)

text \<open>The outstanding challenge is the one in the array, for as long as it is valid; no timer is ever started.\<close>

definition chap_inv :: "chap \<times> auth_call list \<Rightarrow> bool" where
  "chap_inv x \<longleftrightarrow> (case x of (c, tr) \<Rightarrow>
     answers None tr \<and> chap_timer c = None \<and> m_rechallenge_time c = 0 \<and> length (c_name c) \<le> 255 \<and>
     108 \<le> length (c_challenge c) \<and>
     (CHALLENGE_VALID \<in> c_flags c \<longrightarrow> (\<exists>pid ch. challenge_in c pid ch \<and> outstanding None tr = Some (pid, ch))))"

lemma challenge_in_cong:
  "c_challenge d = c_challenge c \<Longrightarrow> c_challenge_pktlen d = c_challenge_pktlen c \<Longrightarrow>
   challenge_in d pid ch = challenge_in c pid ch"
  by (simp add: challenge_in_def)

text \<open>An operation that makes no call and keeps the array keeps the invariant.\<close>

lemma chap_inv_quiet:
  assumes "chap_inv (c, tr)" and "c_challenge d = c_challenge c" "c_challenge_pktlen d = c_challenge_pktlen c"
    "length (c_name d) \<le> 255" "chap_timer d = None" "m_rechallenge_time d = 0"
    "CHALLENGE_VALID \<in> c_flags d \<Longrightarrow> CHALLENGE_VALID \<in> c_flags c"
  shows "chap_inv (d, tr)"
  using assms challenge_in_cong [of d c] by (auto simp: chap_inv_def)

lemma chap_inv_timeout:
  assumes i: "chap_inv (c, tr)"
  shows "chap_inv (snd (chap_handle_timeout c), tr @ fst (chap_handle_timeout c))"
proof -
  let ?c = "clear_flag TIMEOUT_PENDING c"
  have j: "chap_inv (?c, tr)" using i by (rule chap_inv_quiet) (use i in \<open>auto simp: chap_inv_def\<close>)
  have sent: "chap_inv (set_flag TIMEOUT_PENDING (d\<lparr>c_challenge_xmits := n\<rparr>),
      tr @ [OnAuthenOutput (take (c_challenge_pktlen d) (c_challenge d))])"
    if "challenge_in d pid ch" "chap_timer d = None" "m_rechallenge_time d = 0" "length (c_name d) \<le> 255"
      "108 \<le> length (c_challenge d)" for d pid ch n
  proof -
    have "challenge_in (set_flag TIMEOUT_PENDING (d\<lparr>c_challenge_xmits := n\<rparr>)) pid ch"
      using that(1) by (simp add: challenge_in_def)
    then show ?thesis
      using that(2-) i challenge_in_facts(4) [OF that(1)] by (simp add: chap_inv_def answers_append outstanding_append)
  qed
  show ?thesis
  proof (cases "CHALLENGE_VALID \<in> c_flags c")
    case False
    let ?g = "chap_generate_challenge (?c\<lparr>c_challenge_xmits := 0\<rparr>)" and ?d = "?c\<lparr>c_challenge_xmits := 0\<rparr>"
    have l: "108 \<le> length (c_challenge ?d)" "length (c_name ?d) \<le> 255" using i by (simp_all add: chap_inv_def)
    note g = generated_challenge [OF l] chap_generate_challenge_eq [OF l(1)]
    have "108 \<le> length (c_challenge ?g)" using l(1) by (subst g(2)) (simp add: MAKEHEADER_def)
    moreover have "chap_timer ?g = None" "m_rechallenge_time ?g = 0" "length (c_name ?g) \<le> 255"
      unfolding g(6-8) using i by (simp_all add: chap_inv_def)
    ultimately show ?thesis
      using False sent [of "set_flag CHALLENGE_VALID ?g"] challenge_in_cong [of "set_flag CHALLENGE_VALID ?g" ?g] g(1)
      by (simp add: chap_handle_timeout_def Let_def)
  next
    case True
    then obtain pid ch where ch: "challenge_in c pid ch" using i by (auto simp: chap_inv_def)
    show ?thesis
    proof (cases "m_max_transmits c \<le> c_challenge_xmits c")
      case t: True
      show ?thesis using True t i by (auto simp: chap_handle_timeout_def chap_inv_def answers_append)
    next
      case f: False
      then show ?thesis
        using True sent [of ?c pid ch "c_challenge_xmits c + 1"] ch challenge_in_cong [of ?c c] i
        by (simp add: chap_handle_timeout_def chap_inv_def)
    qed
  qed
qed

lemma chap_inv_Input:
  assumes i: "chap_inv (c, tr)"
  shows "chap_inv (snd (chap_Input pkt c), tr @ fst (chap_Input pkt c))"
proof -
  have r: "chap_inv (snd (chap_handle_response pid inp c), tr @ fst (chap_handle_response pid inp c))" for pid inp
  proof (cases "LOWERUP \<in> c_flags c \<and> pid = c_challenge c ! 5 \<and> 2 \<le> length inp \<and> CHALLENGE_VALID \<in> c_flags c \<and>
      unat (inp ! 0) + 1 \<le> length inp")
    case False
    then have "chap_handle_response pid inp c = ([], c)" by (auto simp: chap_handle_response_def Let_def)
    then show ?thesis using i by simp
  next
    case True
    define d where "d = (if TIMEOUT_PENDING \<in> c_flags c then chap_CancelTimer (clear_flag TIMEOUT_PENDING c) else c)
      \<lparr>m_chap_username := drop (unat (inp ! 0) + 1) inp\<rparr>"
    have d: "chap_inv (d, tr)"
      using i by (rule chap_inv_quiet) (use i in \<open>auto simp: d_def chap_CancelTimer_def chap_inv_def split: if_splits\<close>)
    obtain pid' ch where ch': "challenge_in c pid' ch" "outstanding None tr = Some (pid', ch)"
      using i True by (auto simp: chap_inv_def)
    then have ch: "challenge_in c pid ch" "outstanding None tr = Some (pid, ch)"
      using True challenge_in_facts(1) [OF ch'(1)] by simp_all
    have same: "c_challenge d = c_challenge c" by (simp add: d_def chap_CancelTimer_def)
    define req where "req = chap_authReq pid inp d"
    have "chap_handle_response pid inp c = (if unat (c_challenge d ! 8) \<noteq> 16 then ([], d) else ([SendAuthRequest2AM req], d))"
      using True unfolding chap_handle_response_def Let_def d_def req_def by (simp split del: if_split)
    then have eq: "chap_handle_response pid inp c = ([SendAuthRequest2AM req], d)" "chapid req = pid"
        "challenge req = take 16 (drop 9 (c_challenge c))"
      using challenge_in_facts(3) [OF ch(1)] same by (simp_all add: req_def chap_authReq_def Let_def)
    have "challenge req = ch" using eq(3) challenge_in_facts(2) [OF ch(1)] by simp
    then show ?thesis using d ch(2) eq by (simp add: chap_inv_def answers_append outstanding_append)
  qed
  show ?thesis using r i by (simp add: chap_Input_def split: option.split)
qed

text \<open>A verdict of the authentication manager: an answer to the peer, perhaps a result, and no valid challenge.\<close>

lemma verdict_shape:
  "\<exists>code j x rest. fst (chap_ResponseAuthenResult result reason c) = OnAuthenOutput (MAKEHEADER PPP_CHAP @ [code, j] @ x) # rest \<and>
     (code = CHAP_FAILURE \<or> code = CHAP_SUCCESS) \<and> (rest = [] \<or> (\<exists>r p. rest = [OnAuthenResult r p]))"
  by (simp add: chap_ResponseAuthenResult_def Let_def) blast

lemma verdict_state:
  "CHALLENGE_VALID \<notin> c_flags (snd (chap_ResponseAuthenResult result reason c))"
  "c_challenge (snd (chap_ResponseAuthenResult result reason c)) = c_challenge c"
  "c_name (snd (chap_ResponseAuthenResult result reason c)) = c_name c"
  "m_rechallenge_time (snd (chap_ResponseAuthenResult result reason c)) = m_rechallenge_time c"
  "m_rechallenge_time c = 0 \<Longrightarrow> chap_timer (snd (chap_ResponseAuthenResult result reason c)) = chap_timer c"
  by (simp_all add: chap_ResponseAuthenResult_def chap_StartTimer_def chap_CancelTimer_def Let_def)

lemma chap_inv_verdict:
  assumes i: "chap_inv (c, tr)"
  shows "chap_inv (snd (chap_ResponseAuthenResult result reason c), tr @ fst (chap_ResponseAuthenResult result reason c))"
proof -
  obtain code j x rest where f: "fst (chap_ResponseAuthenResult result reason c) =
      OnAuthenOutput (MAKEHEADER PPP_CHAP @ [code, j] @ x) # rest" and code: "code = CHAP_FAILURE \<or> code = CHAP_SUCCESS"
    and rest: "rest = [] \<or> (\<exists>r p. rest = [OnAuthenResult r p])"
    using verdict_shape [where result = result and reason = reason and c = c] by blast
  have "sent_challenge (MAKEHEADER PPP_CHAP @ [code, j] @ x) = None"
    using code by (intro verdict_no_challenge) auto
  then have "answers (outstanding None tr) (fst (chap_ResponseAuthenResult result reason c))"
    unfolding f using rest by (elim disjE exE) simp_all
  then show ?thesis using i verdict_state [where result = result and reason = reason and c = c] by (simp add: chap_inv_def answers_append)
qed

interpretation chap_machine: invariant_of chap_start chap_step chap_inv
proof unfold_locales
  fix x
  assume "chap_start x"
  then show "chap_inv x" by (auto simp: chap_start_def chap_inv_def CChapProtocolSvr_new_def CHAL_MAX_PKTLEN_def)
next
  fix x y
  assume i: "chap_inv x" and "chap_step x y"
  from this(2) obtain c tr ev where x: "x = (c, tr)" and y: "y = (snd (chap_do ev c), tr @ fst (chap_do ev c))"
    by (auto elim: chap_stepE)
  have k: "chap_inv (d, tr @ [])" if "c_challenge d = c_challenge c" "c_challenge_pktlen d = c_challenge_pktlen c"
      "length (c_name d) \<le> 255" "chap_timer d = None" "m_rechallenge_time d = 0"
      "CHALLENGE_VALID \<in> c_flags d \<Longrightarrow> CHALLENGE_VALID \<in> c_flags c" for d
    using chap_inv_quiet [OF i [unfolded x] that] by simp
  have t: "chap_timer c = None" "m_rechallenge_time c = 0" "length (c_name c) \<le> 255" using i by (simp_all add: x chap_inv_def)
  have q: "chap_inv (d, tr)" if "d = c\<lparr>c_flags := insert LOWERUP (c_flags c)\<rparr>" for d
    using k [of d] t that by simp
  show "chap_inv y"
  proof (cases ev)
    case ChapLowerUp
    then show ?thesis using q chap_inv_timeout [OF q [OF refl]] by (simp add: y chap_do_def chap_LowerUp_def Let_def)
  next
    case ChapLowerDown
    then show ?thesis using k [of "chap_LowerDown c"] t
      by (simp add: y chap_do_def chap_LowerDown_def chap_CancelTimer_def Let_def)
  next
    case (ChapAuthPeer nm)
    define d where "d = set_flag AUTH_STARTED (c\<lparr>c_name := takeWhile (\<lambda>b. b \<noteq> 0) (take (BRAS_CHAP_MAXNAMELEN - 1) nm),
      c_id := uint (chap_rand c (chap_rand_pos c)) * 256 div 0x7fffffff mod 256, chap_rand_pos := chap_rand_pos c + 1\<rparr>)"
    have "length (takeWhile (\<lambda>b. b \<noteq> 0) (take 255 nm)) \<le> length (take 255 nm)" by (rule length_takeWhile_le)
    then have "length (c_name d) \<le> 255" by (simp add: d_def BRAS_CHAP_MAXNAMELEN_def)
    then have d: "chap_inv (d, tr)" using k [of d] t by (simp add: d_def)
    have e: "chap_do ev c = (if AUTH_STARTED \<in> c_flags c then ([], c) else if LOWERUP \<in> c_flags c
        then chap_handle_timeout d else ([], d))"
      by (simp add: ChapAuthPeer chap_do_def chap_auth_peer_def d_def Let_def)
    show ?thesis using i d chap_inv_timeout [OF d] by (simp add: y e x)
  next
    case ChapProtrej
    define d where "d = (if TIMEOUT_PENDING \<in> c_flags c then chap_CancelTimer (clear_flag TIMEOUT_PENDING c) else c)"
    have "chap_inv (d, tr @ [])" by (rule k) (use t in \<open>auto simp: d_def chap_CancelTimer_def split: if_splits\<close>)
    then have d: "chap_inv (d, tr)" "answers None tr" by (simp_all add: chap_inv_def)
    have e: "chap_do ev c = (if AUTH_STARTED \<in> c_flags d then ([OnAuthenResult False PPP_CHAP], d\<lparr>c_flags := {}\<rparr>) else ([], d))"
      by (simp add: ChapProtrej chap_do_def chap_Protrej_def d_def Let_def)
    show ?thesis using d by (simp add: y e chap_inv_def answers_append)
  qed (use i x chap_inv_Input chap_inv_verdict t in \<open>simp_all add: y chap_do_def\<close>)
qed

section \<open>An exchange, step by step\<close>

lemma fresh_timeout:
  assumes "CHALLENGE_VALID \<notin> c_flags c" "108 \<le> length (c_challenge c)" "length (c_name c) \<le> 255"
  shows "c_flags (snd (chap_handle_timeout c)) = insert TIMEOUT_PENDING (insert CHALLENGE_VALID (c_flags c))"
    "challenge_in (snd (chap_handle_timeout c)) (of_int (c_id c + 1)) (challenge_bytes c)"
    "fst (chap_handle_timeout c) \<noteq> []"
proof -
  let ?d = "(clear_flag TIMEOUT_PENDING c)\<lparr>c_challenge_xmits := 0\<rparr>"
  have g: "challenge_in (chap_generate_challenge ?d) (of_int (c_id ?d + 1)) (challenge_bytes ?d)"
    using assms by (intro generated_challenge) simp_all
  have b: "challenge_bytes ?d = challenge_bytes c" by (simp add: challenge_bytes_def random_bytes_def)
  have f: "c_flags (chap_generate_challenge ?d) = c_flags c - {TIMEOUT_PENDING}"
    using assms by (subst chap_generate_challenge_eq(3)) simp_all
  show "c_flags (snd (chap_handle_timeout c)) = insert TIMEOUT_PENDING (insert CHALLENGE_VALID (c_flags c))"
    "challenge_in (snd (chap_handle_timeout c)) (of_int (c_id c + 1)) (challenge_bytes c)"
    "fst (chap_handle_timeout c) \<noteq> []"
    using assms(1) g f b by (auto simp: chap_handle_timeout_def Let_def challenge_in_def)
qed

definition demo_chap0 :: chap where
  "demo_chap0 = snd (chap_do ChapLowerUp (CChapProtocolSvr_new (\<lambda>_. 0x41000000)))"

definition demo_chap1 :: chap where
  "demo_chap1 = snd (chap_do (ChapAuthPeer [0x57, 0x46]) demo_chap0)"

definition demo_response :: "byte list" where
  "demo_response = [2, 131, 0, 23, 16] @ replicate 16 0x55 @ [0x62, 0x6f]"

lemma demo_chap1:
  "c_flags demo_chap1 = {TIMEOUT_PENDING, CHALLENGE_VALID, AUTH_STARTED, LOWERUP}"
  "\<exists>ch. challenge_in demo_chap1 131 ch"
proof -
  define d where "d = demo_chap0\<lparr>c_name := [0x57, 0x46], c_id := 130, chap_rand_pos := 1, c_flags := {AUTH_STARTED, LOWERUP}\<rparr>"
  have e: "demo_chap1 = snd (chap_handle_timeout d)"
    by (simp add: demo_chap1_def d_def demo_chap0_def chap_do_def chap_LowerUp_def CChapProtocolSvr_new_def
        chap_auth_peer_def BRAS_CHAP_MAXNAMELEN_def Let_def)
  have d: "CHALLENGE_VALID \<notin> c_flags d" "108 \<le> length (c_challenge d)" "length (c_name d) \<le> 255" "c_id d = 130"
      "c_flags d = {AUTH_STARTED, LOWERUP}"
    by (simp_all add: d_def demo_chap0_def chap_do_def chap_LowerUp_def CChapProtocolSvr_new_def CHAL_MAX_PKTLEN_def Let_def)
  show "c_flags demo_chap1 = {TIMEOUT_PENDING, CHALLENGE_VALID, AUTH_STARTED, LOWERUP}" "\<exists>ch. challenge_in demo_chap1 131 ch"
    using fresh_timeout [OF d(1-3)] d(4,5) by (auto simp: e)
qed

lemma demo_answer: "\<exists>r. fst (chap_do (ChapPacket demo_response) demo_chap1) = [SendAuthRequest2AM r]"
proof -
  obtain ch where c: "challenge_in demo_chap1 131 ch" using demo_chap1(2) by blast
  have u: "unat (16 :: byte) = 16" by simp
  have "parse_packet demo_response = Some (2, 131, [16] @ replicate 16 0x55 @ [0x62, 0x6f])"
    by (simp add: demo_response_def parse_packet_def GETSHORT_def)
  then show ?thesis
    using challenge_in_facts(1,3) [OF c]
    by (simp add: chap_do_def chap_Input_def chap_handle_response_def demo_chap1(1) chap_CancelTimer_def u Let_def)
qed

lemma demo_chap_reachable:
  "\<exists>tr. reachable chap_start chap_step (demo_chap1, tr)"
proof -
  note reach = reachable.reach_step [where init = chap_start and step = chap_step]
  let ?n = "CChapProtocolSvr_new (\<lambda>_. 0x41000000)"
  have "reachable chap_start chap_step (?n, [])" by (intro reachable.reach_init) (auto simp: chap_start_def)
  then have "reachable chap_start chap_step (demo_chap0, [] @ fst (chap_do ChapLowerUp ?n))"
    unfolding demo_chap0_def by (rule reach [OF _ chap_event])
  then have "reachable chap_start chap_step (demo_chap1, ([] @ fst (chap_do ChapLowerUp ?n)) @
      fst (chap_do (ChapAuthPeer [0x57, 0x46]) demo_chap0))"
    unfolding demo_chap1_def by (rule reach [OF _ chap_event])
  then show ?thesis by blast
qed

section \<open>Properties\<close>

text \<open>
  C12. Whatever the peer sends and whenever the session and the authentication manager call, every
  request the CHAP server makes carries the identifier and the value of the challenge it sent last,
  with no result reported since: an answer to an older challenge, or to one that has been decided,
  never reaches the authentication manager.
\<close>

theorem chap_answers_challenge:
  assumes "reachable chap_start chap_step (c, tr)"
  shows "answers None tr \<and> (CHALLENGE_VALID \<in> c_flags c \<longrightarrow>
    outstanding None tr = Some (c_challenge c ! 5, take 16 (drop 9 (c_challenge c))))"
  using chap_machine.reachable_inv [OF assms] challenge_in_facts(1,2) by (fastforce simp: chap_inv_def)

theorem chap_answers_challenge_witness:
  "\<exists>c tr r. reachable chap_start chap_step (c, tr) \<and> SendAuthRequest2AM r \<in> set tr \<and> answers None tr"
proof -
  obtain tr where t: "reachable chap_start chap_step (demo_chap1, tr)" using demo_chap_reachable by blast
  obtain r where r: "fst (chap_do (ChapPacket demo_response) demo_chap1) = [SendAuthRequest2AM r]" using demo_answer by blast
  have "reachable chap_start chap_step (snd (chap_do (ChapPacket demo_response) demo_chap1), tr @ [SendAuthRequest2AM r])"
    using reachable.reach_step [OF t chap_event [of demo_chap1 tr "ChapPacket demo_response"]] r by simp
  then show ?thesis using chap_answers_challenge by fastforce
qed

text \<open>
  The challenge is a well-formed packet: the identifier is the next one, the value has 16 bytes,
  the name is ours, and the length field says so. It is written past the end of its array exactly
  when our name is longer than 83 bytes, although names of up to 255 bytes are accepted.
\<close>

theorem chap_challenge_packet:
  assumes "108 \<le> length (c_challenge c)" and "length (c_name c) \<le> 255" and "\<not> chap_overrun c"
  defines "d \<equiv> chap_generate_challenge c"
  shows "(\<exists>ch. length ch = 16 \<and> take 4 (c_challenge d) = MAKEHEADER PPP_CHAP \<and>
      parse_packet (drop 4 (take (c_challenge_pktlen d) (c_challenge d))) =
        Some (CHAP_CHALLENGE, of_int (c_id c + 1), [16] @ ch @ c_name c)) \<and>
    (chap_overrun d \<longleftrightarrow> 83 < length (c_name c))"
proof -
  let ?x = "MAKEHEADER PPP_CHAP @ [CHAP_CHALLENGE, of_int (c_id c + 1)] @ PUTSHORT (21 + length (c_name c)) @
      [16] @ challenge_bytes c @ c_name c"
  note g = chap_generate_challenge_eq [OF assms(1)]
  have h: "length (MAKEHEADER PPP_CHAP) = 4" by (simp add: MAKEHEADER_def)
  have x: "c_challenge d = ?x @ drop (25 + length (c_name c)) (c_challenge c)" using g(1) by (simp add: d_def)
  have l: "length ?x = c_challenge_pktlen d" unfolding d_def g(2) by (simp add: h)
  have "take 4 (c_challenge d) = MAKEHEADER PPP_CHAP" unfolding x using h by simp
  moreover have "take (c_challenge_pktlen d) (c_challenge d) = ?x" unfolding x using l by (metis append_eq_conv_conj)
  moreover have "drop 4 ?x = [CHAP_CHALLENGE, of_int (c_id c + 1)] @ PUTSHORT (21 + length (c_name c)) @
      [16] @ challenge_bytes c @ c_name c" using h by simp
  ultimately show ?thesis
    using parse_challenge [OF assms(2) length_challenge_bytes, of "of_int (c_id c + 1)"] g(8) assms(3)
    by (simp add: d_def)
qed

theorem chap_challenge_packet_witness:
  "chap_overrun (chap_generate_challenge ((CChapProtocolSvr_new (\<lambda>_. 0))\<lparr>c_name := replicate 84 0x41\<rparr>))"
  using chap_challenge_packet [of "(CChapProtocolSvr_new (\<lambda>_. 0))\<lparr>c_name := replicate 84 0x41\<rparr>"]
  by (simp add: CChapProtocolSvr_new_def CHAL_MAX_PKTLEN_def)

text \<open>
  The CHAP server never repeats a challenge: after sending one it marks a timeout as pending, but
  no timer is registered in any state it reaches, so a lost challenge or response is not noticed.
\<close>

theorem chap_never_retransmits:
  assumes "reachable chap_start chap_step (c, tr)"
  shows "chap_timer c = None \<and> chap_do ChapTimer c = ([], c)"
  using chap_machine.reachable_inv [OF assms] by (simp add: chap_inv_def chap_do_def)

theorem chap_never_retransmits_witness:
  "TIMEOUT_PENDING \<in> c_flags demo_chap1 \<and> chap_timer demo_chap1 = None"
  using demo_chap_reachable chap_never_retransmits [of demo_chap1] demo_chap1(1) by auto

end
