(* ===== verification/Ppp_Session_Spec.thy ===== *)
theory Ppp_Session_Spec
  imports Ppp_Session Ppp_Lcp_Machine Ppp_Ipcp_Machine Ppp_Auth_Spec
begin

text \<open>
  The session as a whole: LCP, the authentication servers and IPCP under \<^verbatim>\<open>CPPP\<close>, driven by the packets
  of the subscriber, the timers and the answers of the authentication manager. Until the manager
  accepts, no service is given; nested calls stay within \<open>lcp_depth\<close>; and what the composition lets
  through although it should not.
\<close>

section \<open>Runs of a session\<close>

datatype ppp_event =
    PppStart | PppPacket "byte list" | PppLcpTimer | PppEchoTimer | PppIpcpTimer | PppPapTimer | PppChapTimer
  | PppAddresses u32 u32 u32 u32 | PppAuthResponse int "byte list"

text \<open>
  One event. The addresses are those \<^verbatim>\<open>CPPPOE::HandleAuthResponse\<close> sets before it passes the answer on;
  a timer fires only while it is registered.
\<close>

definition ppp_do :: "ppp_event \<Rightarrow> cppp \<Rightarrow> cppp" where
  "ppp_do ev s =
     (case ev of
        PppStart \<Rightarrow> ppp_StartFms s
      | PppPacket p \<Rightarrow> ppp_Input p s
      | PppLcpTimer \<Rightarrow> if f_timer (m_lcp s) = None then s else lcp_run lcp_depth (Timeout lcp_sink) s
      | PppEchoTimer \<Rightarrow> if lcp_echo_timer (f_sink (m_lcp s)) = None then s else lcp_run lcp_depth EchoTimeout s
      | PppIpcpTimer \<Rightarrow> if f_timer (m_ipcp s) = None then s else ipcp_run (Timeout ipcp_sink) s
      | PppPapTimer \<Rightarrow> if pap_timer (m_pap s) = None then s else pap_run (lcp_run lcp_depth) pap_handle_timeout s
      | PppChapTimer \<Rightarrow> if chap_timer (m_chap s) = None then s else chap_run (lcp_run lcp_depth) chap_handle_timeout s
      | PppAddresses my sub dns1 dns2 \<Rightarrow> s\<lparr>m_ipcp := upd_sink (ipcp_SetSecondaryDNS dns2)
          (upd_sink (ipcp_SetPrimaryDNS dns1) (upd_sink (ipcp_SetSubscriberIP sub) (upd_sink (ipcp_SetMyIP my) (m_ipcp s))))\<rparr>
      | PppAuthResponse result reason \<Rightarrow> ppp_OnAuthResponse result reason s)"

text \<open>The session as \<^verbatim>\<open>CPPPOE::CreateSession\<close> and \<^verbatim>\<open>CSession::Init\<close> make it.\<close>

definition ppp_new :: "nat \<Rightarrow> byte list \<Rightarrow> (nat \<Rightarrow> u32) \<Rightarrow> (nat \<Rightarrow> u32) \<Rightarrow> cppp" where
  "ppp_new authType host lcp_rnd chap_rnd =
     ppp_Init (ppp_SetHostName host (ppp_SetAuthType authType (CPPP_new lcp_rnd chap_rnd)))"

section \<open>No service\<close>

fun serves :: "sink_call \<Rightarrow> bool" where
  "serves (OnAddSubscriber u) = True"
| "serves (OnPPPPayload p) = True"
| "serves _ = False"

text \<open>
  IPCP has not been started and no service has been given; LCP is in a state of its machine. \<open>held\<close>
  is what keeps IP packets out: an opened link is not past the authentication phase.
\<close>

definition unserved :: "cppp \<Rightarrow> bool" where
  "unserved s \<longleftrightarrow> lcp_inv [] (m_lcp s) \<and> m_state (m_ipcp s) = INITIAL \<and> list_all (\<lambda>c. \<not> serves c) (ppp_calls s)"

definition held :: "cppp \<Rightarrow> bool" where
  "held s \<longleftrightarrow> (m_state (m_lcp s) = OPENED \<longrightarrow> m_phase s \<le> PHASE_AUTHENTICATE)"

lemma held_phases [simp]:
  "PHASE_DEAD \<le> PHASE_AUTHENTICATE" "PHASE_ESTABLISH \<le> PHASE_AUTHENTICATE" "PHASE_AUTHENTICATE \<le> PHASE_AUTHENTICATE"
  by (simp_all add: less_eq_PPPPhase_def)

lemma ipcp_calls_none:
  "f_log g = f_log f \<Longrightarrow> ipcp_notices (f_sink g) = ipcp_notices (f_sink f) \<Longrightarrow> ipcp_calls f g = []"
  by (simp add: ipcp_calls_def)

text \<open>An IPCP that was never opened ignores the lower layer, the peer and its timer.\<close>

lemma ipcp_idle:
  assumes "m_state f = INITIAL"
  shows "ipcp_LowerDown f = f" "ipcp_Input p f = f" "Timeout ipcp_sink f = f"
    "the (ipcp_Close (Some r) f) = f\<lparr>m_term_reason := r, m_term_reason_len := length r\<rparr>"
  using assms by (simp_all add: ipcp_LowerDown_def ipcp_Input_def ipcp_Close_def LowerDown_def Input_def Timeout_def
      Close_def split: option.split)

lemma ipcp_run_idle:
  assumes "m_state (m_ipcp s) = INITIAL"
  shows "ipcp_run ipcp_LowerDown s = s" "ipcp_run (ipcp_Input p) s = s" "ipcp_run (Timeout ipcp_sink) s = s"
    "ipcp_run (\<lambda>f. the (ipcp_Close (Some r) f)) s =
       s\<lparr>m_ipcp := (m_ipcp s)\<lparr>m_term_reason := r, m_term_reason_len := length r\<rparr>\<rparr>"
  using assms by (simp_all add: ipcp_run_def ipcp_idle ipcp_calls_none)

lemma OnLCPDown_idle:
  assumes "unserved s"
  shows "unserved (ppp_OnLCPDown s)" "m_lcp (ppp_OnLCPDown s) = m_lcp s" "m_phase (ppp_OnLCPDown s) \<le> PHASE_AUTHENTICATE"
  using assms by (simp_all add: ppp_OnLCPDown_def ipcp_run_idle unserved_def NewPhase_def Let_def)

section \<open>The handlers that call LCP\<close>

definition accepting :: "auth_call \<Rightarrow> bool" where
  "accepting c \<longleftrightarrow> (\<exists>p. c = OnAuthenResult True p)"

lemma not_accepting:
  "\<forall>c \<in> set (fst (chap_handle_timeout h)). \<not> accepting c" "\<forall>c \<in> set (fst (chap_LowerUp h)). \<not> accepting c"
  "\<forall>c \<in> set (fst (chap_auth_peer nm h)). \<not> accepting c" "\<forall>c \<in> set (fst (chap_Input p h)). \<not> accepting c"
  "result \<noteq> 0 \<Longrightarrow> \<forall>c \<in> set (fst (chap_ResponseAuthenResult result reason h)). \<not> accepting c"
  "\<forall>c \<in> set (fst (pap_Input p q)). \<not> accepting c" "\<forall>c \<in> set (fst (pap_handle_timeout q)). \<not> accepting c"
  "result \<noteq> 0 \<Longrightarrow> \<forall>c \<in> set (fst (pap_ResponseAuthenResult result reason q)). \<not> accepting c"
proof -
  show t: "\<forall>c \<in> set (fst (chap_handle_timeout h)). \<not> accepting c" for h
    by (simp add: chap_handle_timeout_def accepting_def Let_def)
  then show "\<forall>c \<in> set (fst (chap_LowerUp h)). \<not> accepting c" "\<forall>c \<in> set (fst (chap_auth_peer nm h)). \<not> accepting c"
    by (simp_all add: chap_LowerUp_def chap_auth_peer_def Let_def)
  show "\<forall>c \<in> set (fst (chap_Input p h)). \<not> accepting c"
    by (simp add: chap_Input_def chap_handle_response_def accepting_def Let_def split: option.split)
  show "result \<noteq> 0 \<Longrightarrow> \<forall>c \<in> set (fst (chap_ResponseAuthenResult result reason h)). \<not> accepting c"
    by (simp add: chap_ResponseAuthenResult_def accepting_def Let_def)
  show "\<forall>c \<in> set (fst (pap_Input p q)). \<not> accepting c"
    by (simp add: pap_Input_def upap_rauthreq_def accepting_def Let_def split: option.split)
  show "\<forall>c \<in> set (fst (pap_handle_timeout q)). \<not> accepting c" by (simp add: pap_handle_timeout_def accepting_def)
  show "result \<noteq> 0 \<Longrightarrow> \<forall>c \<in> set (fst (pap_ResponseAuthenResult result reason q)). \<not> accepting c"
    by (simp add: pap_ResponseAuthenResult_def accepting_def Let_def)
qed

text \<open>What the handlers rely on: an operation of LCP they run closes the link and gives no service.\<close>

locale quiet_runner =
  fixes run :: lcp_runner
  assumes run_close: "unserved s \<Longrightarrow> unserved (run (close_lcp r) s) \<and> m_state (m_lcp (run (close_lcp r) s)) \<noteq> OPENED"
    and run_down: "unserved s \<Longrightarrow> unserved (run lcp_LowerDown s) \<and> m_state (m_lcp (run lcp_LowerDown s)) \<noteq> OPENED"
begin

lemma auth_call_unserved:
  assumes "unserved s" and "\<not> accepting c"
  shows "unserved (ppp_auth_call run c s)" "held s \<Longrightarrow> held (ppp_auth_call run c s)"
    "m_state (m_lcp s) \<noteq> OPENED \<Longrightarrow> m_state (m_lcp (ppp_auth_call run c s)) \<noteq> OPENED"
proof -
  have p: "unserved (NewPhase ph s)" for ph using assms(1) by (simp add: unserved_def NewPhase_def)
  have "unserved (ppp_auth_call run c s) \<and> (held s \<longrightarrow> held (ppp_auth_call run c s)) \<and>
      (m_state (m_lcp s) \<noteq> OPENED \<longrightarrow> m_state (m_lcp (ppp_auth_call run c s)) \<noteq> OPENED)"
  proof (cases c)
    case (OnAuthenResult result proto)
    then have "\<not> result" using assms(2) by (auto simp: accepting_def)
    then show ?thesis using OnAuthenResult run_close [OF p]
      by (simp add: ppp_auth_call_def ppp_OnAuthenResult_def held_def Let_def)
  qed (use assms(1) in \<open>simp_all add: ppp_auth_call_def unserved_def held_def\<close>)
  then show "unserved (ppp_auth_call run c s)" "held s \<Longrightarrow> held (ppp_auth_call run c s)"
    "m_state (m_lcp s) \<noteq> OPENED \<Longrightarrow> m_state (m_lcp (ppp_auth_call run c s)) \<noteq> OPENED" by simp_all
qed

lemma auth_calls_unserved:
  assumes "unserved s" and "\<forall>c \<in> set cs. \<not> accepting c"
  shows "unserved (fold (ppp_auth_call run) cs s)" "held s \<Longrightarrow> held (fold (ppp_auth_call run) cs s)"
    "m_state (m_lcp s) \<noteq> OPENED \<Longrightarrow> m_state (m_lcp (fold (ppp_auth_call run) cs s)) \<noteq> OPENED"
  using assms by (induction cs arbitrary: s) (simp_all add: auth_call_unserved)

lemma chap_run_unserved:
  assumes "unserved s" and "\<forall>c \<in> set (fst (g (m_chap s))). \<not> accepting c"
  shows "unserved (chap_run run g s)" "held s \<Longrightarrow> held (chap_run run g s)"
    "m_state (m_lcp s) \<noteq> OPENED \<Longrightarrow> m_state (m_lcp (chap_run run g s)) \<noteq> OPENED"
proof -
  let ?s = "s\<lparr>m_chap := snd (g (m_chap s))\<rparr>"
  have "unserved ?s" "held ?s = held s" "m_lcp ?s = m_lcp s" using assms(1) by (simp_all add: unserved_def held_def)
  then show "unserved (chap_run run g s)" "held s \<Longrightarrow> held (chap_run run g s)"
    "m_state (m_lcp s) \<noteq> OPENED \<Longrightarrow> m_state (m_lcp (chap_run run g s)) \<noteq> OPENED"
    using auth_calls_unserved [OF _ assms(2), of ?s] by (simp_all add: chap_run_def case_prod_beta)
qed

lemma pap_run_unserved:
  assumes "unserved s" and "\<forall>c \<in> set (fst (g (m_pap s))). \<not> accepting c"
  shows "unserved (pap_run run g s)" "held s \<Longrightarrow> held (pap_run run g s)"
proof -
  let ?s = "s\<lparr>m_pap := snd (g (m_pap s))\<rparr>"
  have "unserved ?s" "held ?s = held s" using assms(1) by (simp_all add: unserved_def held_def)
  then show "unserved (pap_run run g s)" "held s \<Longrightarrow> held (pap_run run g s)"
    using auth_calls_unserved [OF _ assms(2), of ?s] by (simp_all add: pap_run_def case_prod_beta)
qed

lemma OnLCPUp_unserved:
  assumes "unserved s"
  shows "unserved (ppp_OnLCPUp run s)" "held (ppp_OnLCPUp run s)"
    "m_state (m_lcp s) \<noteq> OPENED \<Longrightarrow> m_state (m_lcp (ppp_OnLCPUp run s)) \<noteq> OPENED"
proof -
  define t where "t = (if ppp_GetAuthType s = PPP_CHAP then chap_run run chap_LowerUp s
    else if ppp_GetAuthType s = PPP_PAP then s\<lparr>m_pap := pap_LowerUp (m_pap s)\<rparr> else s)"
  have t: "unserved t" "m_state (m_lcp s) \<noteq> OPENED \<Longrightarrow> m_state (m_lcp t) \<noteq> OPENED"
    using assms chap_run_unserved [OF assms not_accepting(2)] by (simp_all add: t_def, simp_all add: unserved_def)
  define u where "u = NewPhase PHASE_AUTHENTICATE t"
  have u: "unserved u" "held u" "m_lcp u = m_lcp t" using t(1) by (simp_all add: u_def unserved_def held_def NewPhase_def)
  note c = chap_run_unserved [OF u(1) not_accepting(3)]
  have e: "ppp_OnLCPUp run s = (if \<not> (neg_upap (m_lcp_gotoptions (f_sink (m_lcp t))) \<or> neg_chap (m_lcp_gotoptions (f_sink (m_lcp t))))
      then run (close_lcp (ascii ''peer refused to authenticate'')) t
      else if neg_chap (m_lcp_gotoptions (f_sink (m_lcp t))) then chap_run run (chap_auth_peer (m_hostName u)) u else u)"
    by (simp add: ppp_OnLCPUp_def t_def u_def Let_def)
  show "unserved (ppp_OnLCPUp run s)" "held (ppp_OnLCPUp run s)"
    "m_state (m_lcp s) \<noteq> OPENED \<Longrightarrow> m_state (m_lcp (ppp_OnLCPUp run s)) \<noteq> OPENED"
    using run_close [OF t(1)] t(2) c u by (simp_all add: e, simp_all add: held_def)
qed

lemma OnLCPTerminate_unserved:
  assumes "unserved s"
  shows "unserved (ppp_OnLCPTerminate run s)" "m_phase (ppp_OnLCPTerminate run s) = PHASE_DEAD"
    "m_state (m_lcp s) \<noteq> OPENED \<Longrightarrow> m_state (m_lcp (ppp_OnLCPTerminate run s)) \<noteq> OPENED"
  using assms run_down [OF assms] by (simp_all add: ppp_OnLCPTerminate_def unserved_def NewPhase_def)

lemma lcp_call_unserved:
  assumes "unserved s"
  shows "unserved (ppp_lcp_call run c s)" "held s \<or> c = LcpUp \<Longrightarrow> held (ppp_lcp_call run c s)"
    "m_state (m_lcp s) \<noteq> OPENED \<Longrightarrow> m_state (m_lcp (ppp_lcp_call run c s)) \<noteq> OPENED"
  using assms OnLCPUp_unserved [OF assms] OnLCPTerminate_unserved [OF assms] OnLCPDown_idle [OF assms]
  by (cases c; simp add: ppp_lcp_call_def; simp add: unserved_def held_def)+

lemma lcp_calls_unserved:
  assumes u: "unserved s"
  shows "unserved (fold (ppp_lcp_call run) cs s)" "held s \<or> (cs \<noteq> [] \<and> last cs = LcpUp) \<Longrightarrow> held (fold (ppp_lcp_call run) cs s)"
    "m_state (m_lcp s) \<noteq> OPENED \<Longrightarrow> m_state (m_lcp (fold (ppp_lcp_call run) cs s)) \<noteq> OPENED"
proof -
  have "unserved (fold (ppp_lcp_call run) cs s) \<and> (held s \<or> (cs \<noteq> [] \<and> last cs = LcpUp) \<longrightarrow> held (fold (ppp_lcp_call run) cs s)) \<and>
      (m_state (m_lcp s) \<noteq> OPENED \<longrightarrow> m_state (m_lcp (fold (ppp_lcp_call run) cs s)) \<noteq> OPENED)"
  proof (induction cs rule: rev_induct)
    case (snoc c cs)
    then have i: "unserved (fold (ppp_lcp_call run) cs s)" by simp
    show ?case using snoc lcp_call_unserved [OF i] by auto
  qed (use u in simp)
  then show "unserved (fold (ppp_lcp_call run) cs s)" "held s \<or> (cs \<noteq> [] \<and> last cs = LcpUp) \<Longrightarrow> held (fold (ppp_lcp_call run) cs s)"
    "m_state (m_lcp s) \<noteq> OPENED \<Longrightarrow> m_state (m_lcp (fold (ppp_lcp_call run) cs s)) \<noteq> OPENED" by simp_all
qed

end

section \<open>Every depth of nested calls keeps the contract\<close>

lemma lcp_ops_trans:
  "lcp_trans f (close_lcp r f)" "lcp_trans f (lcp_LowerDown f)" "lcp_trans f (lcp_Input p f)"
  "lcp_trans f (lcp_Open f)" "lcp_trans f (SendProtRej p f)" "f_timer f \<noteq> None \<Longrightarrow> lcp_trans f (Timeout lcp_sink f)"
  "lcp_echo_timer (f_sink f) \<noteq> None \<Longrightarrow> lcp_trans f (EchoTimeout f)"
  using lcp_event [of "EvClose r" f] lcp_event [of EvLowerDown f] lcp_event [of "EvInput p" f] lcp_timeout [of f]
  by (simp_all add: lcp_Close_def lcp_LowerDown_def lcp_Input_def lcp_trans.intros)

lemma close_lcp_state: "m_state (close_lcp r f) \<noteq> OPENED"
  using Close_state [OF lcp_base_ok, of r f] lcp_reentrant.whole_same(6)
  by (auto simp: lcp_Close_def lcp_sink_reentrant)

lemma LowerDown_lcp_state: "m_state (lcp_LowerDown f) \<noteq> OPENED"
proof (cases "m_state f = OPENED")
  case True
  then show ?thesis by (simp add: lcp_LowerDown_def LowerDown_def)
next
  case False
  then have d: "m_state (LowerDown lcp_base f) \<noteq> OPENED" by (rule lcp_reentrant.admin_not_open)
  then have "m_state (LowerUp lcp_base (LowerDown lcp_base f)) \<noteq> OPENED" by (rule lcp_reentrant.admin_not_open)
  then show ?thesis using d by (simp add: lcp_LowerDown_def lcp_sink_reentrant lcp_reentrant.LowerDown_whole)
qed

lemma quiet_run:
  assumes r: "n = 0 \<or> quiet_runner (lcp_run (n - 1))" and u: "unserved s" and t: "lcp_trans (m_lcp s) (g (m_lcp s))"
  shows "unserved (lcp_run n g s)" "n \<noteq> 0 \<Longrightarrow> held s \<Longrightarrow> held (lcp_run n g s)"
    "m_state (g (m_lcp s)) \<noteq> OPENED \<Longrightarrow> m_state (m_lcp (lcp_run n g s)) \<noteq> OPENED"
proof -
  let ?s = "s\<lparr>m_lcp := g (m_lcp s)\<rparr>"
  have v: "unserved ?s" using u lcp_inv_trans [OF _ t] by (simp add: unserved_def)
  have "unserved (lcp_run n g s) \<and> (n \<noteq> 0 \<longrightarrow> held s \<longrightarrow> held (lcp_run n g s)) \<and>
    (m_state (g (m_lcp s)) \<noteq> OPENED \<longrightarrow> m_state (m_lcp (lcp_run n g s)) \<noteq> OPENED)"
  proof (cases n)
    case 0
    then show ?thesis using v by simp
  next
    case (Suc k)
    let ?cs = "lcp_calls (m_lcp s) (g (m_lcp s))"
    have q: "quiet_runner (lcp_run k)" using r Suc by simp
    have "held ?s \<or> (?cs \<noteq> [] \<and> last ?cs = LcpUp)" if h: "held s"
    proof (cases "m_state (g (m_lcp s)) = OPENED \<and> m_state (m_lcp s) \<noteq> OPENED")
      case True
      then have "OnLCPUp \<in> set (drop (length (lcp_notices (f_sink (m_lcp s)))) (lcp_notices (f_sink (g (m_lcp s)))))"
        using u t by (intro lcp_trans_up) (auto simp: unserved_def)
      then show ?thesis by (simp add: lcp_calls_def)
    qed (use h in \<open>auto simp: held_def\<close>)
    then show ?thesis
      using quiet_runner.lcp_calls_unserved [OF q v, of ?cs] by (simp add: Suc)
  qed
  then show "unserved (lcp_run n g s)" "n \<noteq> 0 \<Longrightarrow> held s \<Longrightarrow> held (lcp_run n g s)"
    "m_state (g (m_lcp s)) \<noteq> OPENED \<Longrightarrow> m_state (m_lcp (lcp_run n g s)) \<noteq> OPENED" by simp_all
qed

lemma quiet_runner_step:
  assumes r: "n = 0 \<or> quiet_runner (lcp_run (n - 1))"
  shows "quiet_runner (lcp_run n)"
proof
  fix s r
  assume u: "unserved s"
  show "unserved (lcp_run n (close_lcp r) s) \<and> m_state (m_lcp (lcp_run n (close_lcp r) s)) \<noteq> OPENED"
    using quiet_run [where g = "close_lcp r", OF assms u lcp_ops_trans(1)] close_lcp_state by blast
  show "unserved (lcp_run n lcp_LowerDown s) \<and> m_state (m_lcp (lcp_run n lcp_LowerDown s)) \<noteq> OPENED"
    using quiet_run [where g = lcp_LowerDown, OF assms u lcp_ops_trans(2)] LowerDown_lcp_state by blast
qed

interpretation quiet_lcp: quiet_runner "lcp_run n" for n
proof (induction n)
  case 0
  show ?case by (rule quiet_runner_step) simp
next
  case (Suc n)
  then show ?case by (intro quiet_runner_step) simp
qed

lemma lcp_run_unserved:
  assumes "unserved s" and "lcp_trans (m_lcp s) (g (m_lcp s))"
  shows "unserved (lcp_run n g s)" "n \<noteq> 0 \<Longrightarrow> held s \<Longrightarrow> held (lcp_run n g s)"
  using quiet_run(1,2) [where g = g and n = n, OF disjI2 assms] quiet_lcp.quiet_runner_axioms by blast+

section \<open>Runs without an acceptance\<close>

lemma ppp_do_unserved:
  assumes u: "unserved s" and h: "held s" and ev: "\<And>reason. ev \<noteq> PppAuthResponse 0 reason"
  shows "unserved (ppp_do ev s) \<and> held (ppp_do ev s)"
proof -
  have i: "m_state (m_ipcp s) = INITIAL" using u by (simp add: unserved_def)
  have lcp: "unserved (lcp_run lcp_depth g s) \<and> held (lcp_run lcp_depth g s)" if "lcp_trans (m_lcp s) (g (m_lcp s))" for g
    using lcp_run_unserved [where g = g and n = lcp_depth, OF u that] h by (simp add: lcp_depth_def)
  have chap: "unserved (chap_run (lcp_run lcp_depth) g s) \<and> held (chap_run (lcp_run lcp_depth) g s)"
    if "\<forall>c \<in> set (fst (g (m_chap s))). \<not> accepting c" for g
    using quiet_lcp.chap_run_unserved [where g = g, OF u that] h by blast
  have pap: "unserved (pap_run (lcp_run lcp_depth) g s) \<and> held (pap_run (lcp_run lcp_depth) g s)"
    if "\<forall>c \<in> set (fst (g (m_pap s))). \<not> accepting c" for g
    using quiet_lcp.pap_run_unserved [where g = g, OF u that] h by blast
  show ?thesis
  proof (cases ev)
    case (PppPacket p)
    obtain protocol q where q: "ppp_header p = (protocol, q)" by (cases "ppp_header p")
    have "m_state (m_lcp s) = OPENED \<Longrightarrow> m_phase s \<le> PHASE_AUTHENTICATE" using h by (simp add: held_def)
    then show ?thesis
      using u h lcp [where g = "lcp_Input q", OF lcp_ops_trans(3)] lcp [where g = "SendProtRej p", OF lcp_ops_trans(5)]
        chap [where g = "chap_Input q", OF not_accepting(4)] pap [where g = "pap_Input q", OF not_accepting(6)]
      by (auto simp: PppPacket ppp_do_def ppp_Input_def q ipcp_run_idle [OF i])
  next
    case (PppAddresses a b c d)
    then show ?thesis using u h by (simp add: ppp_do_def unserved_def held_def)
  next
    case (PppAuthResponse result reason)
    then have "result \<noteq> 0" using ev by blast
    then show ?thesis using u h chap [where g = "chap_ResponseAuthenResult result reason", OF not_accepting(5)]
        pap [where g = "pap_ResponseAuthenResult result reason", OF not_accepting(8)]
      by (simp add: PppAuthResponse ppp_do_def ppp_OnAuthResponse_def)
  qed (use u h lcp [where g = lcp_Open, OF lcp_ops_trans(4)] lcp [where g = "Timeout lcp_sink", OF lcp_ops_trans(6)]
      lcp [where g = EchoTimeout, OF lcp_ops_trans(7)] chap [where g = chap_handle_timeout, OF not_accepting(1)]
      pap [where g = pap_handle_timeout, OF not_accepting(7)] in \<open>simp_all add: ppp_do_def ppp_StartFms_def ipcp_run_idle [OF i]\<close>)
qed

lemma ppp_new_unserved: "unserved (ppp_new t host r1 r2) \<and> held (ppp_new t host r1 r2)"
proof -
  have "lcp_start (m_lcp (ppp_new t host r1 r2))"
    unfolding lcp_start_def
    by (intro exI [of _ t] exI [of _ r1])
      (simp add: ppp_new_def ppp_Init_def ppp_SetHostName_def ppp_SetAuthType_def CPPP_new_def fsm_new_def Let_def)
  then have "lcp_inv [] (m_lcp (ppp_new t host r1 r2))" by (rule lcp_inv_start)
  moreover have "m_state (m_lcp (ppp_new t host r1 r2)) = INITIAL" "m_state (m_ipcp (ppp_new t host r1 r2)) = INITIAL"
      "ppp_calls (ppp_new t host r1 r2) = []"
    by (simp_all add: ppp_new_def ppp_Init_def ppp_SetHostName_def ppp_SetAuthType_def CPPP_new_def fsm_new_def
        lcp_Init_def ipcp_Init_def Init_def Let_def)
  ultimately show ?thesis by (simp add: unserved_def held_def)
qed

lemma ppp_run_unserved:
  assumes "\<forall>reason. PppAuthResponse 0 reason \<notin> set evs"
  shows "unserved (fold ppp_do evs (ppp_new t host r1 r2)) \<and> held (fold ppp_do evs (ppp_new t host r1 r2))"
  using assms
proof (induction evs rule: rev_induct)
  case Nil
  then show ?case using ppp_new_unserved by simp
next
  case (snoc ev evs)
  then show ?case using ppp_do_unserved [of "fold ppp_do evs (ppp_new t host r1 r2)" ev] by auto
qed

section \<open>Nested calls\<close>

definition plain_call :: "lcp_call \<Rightarrow> bool" where
  "plain_call c \<longleftrightarrow> c \<noteq> LcpUp \<and> c \<noteq> LcpTerminate"

lemma plain_close:
  assumes "lcp_inv xs f"
  shows "list_all plain_call (lcp_calls f (close_lcp r f))"
proof -
  have "m_maxtermtransmits f \<noteq> 0" using assms by (simp add: lcp_inv_def timer_inv_def)
  then show ?thesis
    by (cases "m_state f") (simp_all add: lcp_Close_def Close_def TerminateLayer_def Down_def SendData_def Output_def
        CancelTimer_def StartTime_def lcp_sink_def lcp_base_def lcp_Down_def EchoLowerDown_def CancelEchoTimer_def
        lcp_calls_def plain_call_def Let_def)
qed

lemma plain_LowerDown: "list_all plain_call (lcp_calls f (lcp_LowerDown f))"
  by (cases "m_state f") (simp_all add: lcp_LowerDown_def LowerDown_def LowerUp_def Starting_def SendConfReq_def Down_def
      SendData_def Output_def CancelTimer_def StartTime_def lcp_sink_def lcp_base_def lcp_Down_def EchoLowerDown_def
      CancelEchoTimer_def lcp_Resetci_def magic_def negotiating_def lcp_calls_def plain_call_def Let_def)

lemma plain_calls_eq:
  "list_all plain_call cs \<Longrightarrow> fold (ppp_lcp_call run) cs s = fold (ppp_lcp_call run') cs s"
  by (induction cs arbitrary: s) (auto simp: ppp_lcp_call_def plain_call_def split: lcp_call.split)

lemma run_once:
  assumes "lcp_inv [] (m_lcp s)"
  shows "lcp_run (Suc n) (close_lcp r) s = lcp_run (Suc 0) (close_lcp r) s"
    "lcp_run (Suc n) lcp_LowerDown s = lcp_run (Suc 0) lcp_LowerDown s"
  using plain_calls_eq [OF plain_close [OF assms]] plain_calls_eq [OF plain_LowerDown] by simp_all

lemma ipcp_run_lcp [simp]: "m_lcp (ipcp_run g s) = m_lcp s"
proof -
  have "m_lcp (fold ppp_ipcp_call cs t) = m_lcp t" for cs t
    by (induction cs arbitrary: t) (simp_all add: ppp_ipcp_call_def ppp_OnIPCPUp_def ppp_OnIPCPDown_def Let_def split: ipcp_call.split)
  then show ?thesis by (simp add: ipcp_run_def)
qed

text \<open>Runners that agree on the two operations, in states of LCP's machine, are interchangeable.\<close>

locale agreeing_runners =
  fixes run run' :: lcp_runner
  assumes close_same: "lcp_inv [] (m_lcp s) \<Longrightarrow> run (close_lcp r) s = run' (close_lcp r) s"
    and down_same: "lcp_inv [] (m_lcp s) \<Longrightarrow> run lcp_LowerDown s = run' lcp_LowerDown s"
    and close_inv: "lcp_inv [] (m_lcp s) \<Longrightarrow> lcp_inv [] (m_lcp (run (close_lcp r) s))"
    and down_inv: "lcp_inv [] (m_lcp s) \<Longrightarrow> lcp_inv [] (m_lcp (run lcp_LowerDown s))"
begin

lemma auth_call_same:
  assumes "lcp_inv [] (m_lcp s)"
  shows "ppp_auth_call run c s = ppp_auth_call run' c s" "lcp_inv [] (m_lcp (ppp_auth_call run c s))"
proof -
  have p: "lcp_inv [] (m_lcp (NewPhase ph s))" for ph using assms by (simp add: NewPhase_def)
  show "ppp_auth_call run c s = ppp_auth_call run' c s" "lcp_inv [] (m_lcp (ppp_auth_call run c s))"
    using assms p close_same [OF p] close_inv [OF p]
    by (simp_all add: ppp_auth_call_def ppp_OnAuthenResult_def Let_def split: auth_call.split)
qed

lemma auth_calls_same:
  "lcp_inv [] (m_lcp s) \<Longrightarrow> fold (ppp_auth_call run) cs s = fold (ppp_auth_call run') cs s \<and>
    lcp_inv [] (m_lcp (fold (ppp_auth_call run) cs s))"
proof (induction cs arbitrary: s)
  case (Cons c cs)
  note e = auth_call_same [OF Cons.prems, of c]
  show ?case using Cons.IH [OF e(2)] e(1) by auto
qed simp

lemma chap_run_same:
  assumes "lcp_inv [] (m_lcp s)"
  shows "chap_run run g s = chap_run run' g s" "lcp_inv [] (m_lcp (chap_run run g s))"
  using auth_calls_same [of "s\<lparr>m_chap := snd (g (m_chap s))\<rparr>" "fst (g (m_chap s))"] assms
  by (auto simp: chap_run_def case_prod_beta)

lemma pap_run_same:
  assumes "lcp_inv [] (m_lcp s)"
  shows "pap_run run g s = pap_run run' g s" "lcp_inv [] (m_lcp (pap_run run g s))"
  using auth_calls_same [of "s\<lparr>m_pap := snd (g (m_pap s))\<rparr>" "fst (g (m_pap s))"] assms
  by (auto simp: pap_run_def case_prod_beta)

lemma OnLCPUp_same:
  assumes "lcp_inv [] (m_lcp s)"
  shows "ppp_OnLCPUp run s = ppp_OnLCPUp run' s" "lcp_inv [] (m_lcp (ppp_OnLCPUp run s))"
proof -
  define t where "t = (if ppp_GetAuthType s = PPP_CHAP then chap_run run chap_LowerUp s
    else if ppp_GetAuthType s = PPP_PAP then s\<lparr>m_pap := pap_LowerUp (m_pap s)\<rparr> else s)"
  have t: "lcp_inv [] (m_lcp t)" using assms chap_run_same [OF assms] by (simp add: t_def)
  have u: "lcp_inv [] (m_lcp (NewPhase PHASE_AUTHENTICATE t))" using t by (simp add: NewPhase_def)
  have e: "ppp_OnLCPUp rn s = (if \<not> (neg_upap (m_lcp_gotoptions (f_sink (m_lcp t))) \<or> neg_chap (m_lcp_gotoptions (f_sink (m_lcp t))))
      then rn (close_lcp (ascii ''peer refused to authenticate'')) t
      else if neg_chap (m_lcp_gotoptions (f_sink (m_lcp t)))
      then chap_run rn (chap_auth_peer (m_hostName (NewPhase PHASE_AUTHENTICATE t))) (NewPhase PHASE_AUTHENTICATE t)
      else NewPhase PHASE_AUTHENTICATE t)" if "rn = run \<or> rn = run'" for rn
    using that chap_run_same(1) [OF assms, of chap_LowerUp] by (auto simp: ppp_OnLCPUp_def t_def Let_def)
  show "ppp_OnLCPUp run s = ppp_OnLCPUp run' s" "lcp_inv [] (m_lcp (ppp_OnLCPUp run s))"
    using close_same [OF t] close_inv [OF t] chap_run_same [OF u] u by (simp_all add: e)
qed

lemma lcp_call_same:
  assumes "lcp_inv [] (m_lcp s)"
  shows "ppp_lcp_call run c s = ppp_lcp_call run' c s" "lcp_inv [] (m_lcp (ppp_lcp_call run c s))"
  using assms OnLCPUp_same [OF assms] down_same [OF assms] down_inv [OF assms]
  by (simp_all add: ppp_lcp_call_def ppp_OnLCPTerminate_def ppp_OnLCPDown_def NewPhase_def Let_def split: lcp_call.split)

lemma lcp_calls_same:
  "lcp_inv [] (m_lcp s) \<Longrightarrow> fold (ppp_lcp_call run) cs s = fold (ppp_lcp_call run') cs s \<and>
    lcp_inv [] (m_lcp (fold (ppp_lcp_call run) cs s))"
proof (induction cs arbitrary: s)
  case (Cons c cs)
  note e = lcp_call_same [OF Cons.prems, of c]
  show ?case using Cons.IH [OF e(2)] e(1) by auto
qed simp

end

lemma plain_calls_lcp: "list_all plain_call cs \<Longrightarrow> m_lcp (fold (ppp_lcp_call run) cs s) = m_lcp s"
proof (induction cs arbitrary: s)
  case (Cons c cs)
  have "m_lcp (ppp_OnLCPDown s) = m_lcp s" by (simp add: ppp_OnLCPDown_def NewPhase_def Let_def)
  then have "m_lcp (ppp_lcp_call run c s) = m_lcp s"
    using Cons.prems by (cases c) (simp_all add: ppp_lcp_call_def plain_call_def)
  then show ?case using Cons by simp
qed simp

interpretation deep_runners: agreeing_runners "lcp_run (Suc 0)" "lcp_run (Suc n)" for n
proof
  fix s :: cppp and r
  assume i: "lcp_inv [] (m_lcp s)"
  show "lcp_run (Suc 0) (close_lcp r) s = lcp_run (Suc n) (close_lcp r) s"
    "lcp_run (Suc 0) lcp_LowerDown s = lcp_run (Suc n) lcp_LowerDown s"
    using run_once [OF i, of n] by simp_all
  show "lcp_inv [] (m_lcp (lcp_run (Suc 0) (close_lcp r) s))"
    using lcp_inv_trans [OF i lcp_ops_trans(1)] by (simp add: plain_calls_lcp plain_close [OF i])
  show "lcp_inv [] (m_lcp (lcp_run (Suc 0) lcp_LowerDown s))"
    using lcp_inv_trans [OF i lcp_ops_trans(2)] by (simp add: plain_calls_lcp plain_LowerDown)
qed

lemma lcp_run_depth:
  assumes i: "lcp_inv [] (m_lcp s)" and t: "lcp_trans (m_lcp s) (g (m_lcp s))"
  shows "lcp_run (Suc (Suc n)) g s = lcp_run lcp_depth g s"
proof -
  let ?s = "s\<lparr>m_lcp := g (m_lcp s)\<rparr>"
  have "lcp_inv [] (m_lcp ?s)" using lcp_inv_trans [OF i t] by simp
  from deep_runners.lcp_calls_same [OF this, of "lcp_calls (m_lcp s) (g (m_lcp s))" n] show ?thesis
    by (auto simp: lcp_depth_def numeral_2_eq_2)
qed

text \<open>LCP stays in its machine, whatever happens to the session.\<close>

lemma ppp_do_lcp_inv:
  assumes i: "lcp_inv [] (m_lcp s)"
  shows "lcp_inv [] (m_lcp (ppp_do ev s))"
proof -
  have lcp: "lcp_inv [] (m_lcp (lcp_run lcp_depth g s))" if "lcp_trans (m_lcp s) (g (m_lcp s))" for g
    using deep_runners.lcp_calls_same [of "s\<lparr>m_lcp := g (m_lcp s)\<rparr>" "lcp_calls (m_lcp s) (g (m_lcp s))" 0]
      lcp_inv_trans [OF i that] by (simp add: lcp_depth_def numeral_2_eq_2)
  have chap: "lcp_inv [] (m_lcp (chap_run (lcp_run lcp_depth) g s))" for g
    using deep_runners.chap_run_same(1) [OF i, of g "Suc 0"] deep_runners.chap_run_same(2) [OF i, of g] by (simp add: lcp_depth_def numeral_2_eq_2)
  have pap: "lcp_inv [] (m_lcp (pap_run (lcp_run lcp_depth) g s))" for g
    using deep_runners.pap_run_same(1) [OF i, of g "Suc 0"] deep_runners.pap_run_same(2) [OF i, of g] by (simp add: lcp_depth_def numeral_2_eq_2)
  show ?thesis
  proof (cases ev)
    case (PppPacket p)
    then show ?thesis using i chap pap lcp [where g = "lcp_Input q" for q, OF lcp_ops_trans(3)]
        lcp [where g = "SendProtRej p", OF lcp_ops_trans(5)]
      by (simp add: ppp_do_def ppp_Input_def split: prod.split)
  qed (use i chap pap lcp [where g = lcp_Open, OF lcp_ops_trans(4)] lcp [where g = "Timeout lcp_sink", OF lcp_ops_trans(6)]
      lcp [where g = EchoTimeout, OF lcp_ops_trans(7)] in \<open>simp_all add: ppp_do_def ppp_StartFms_def ppp_OnAuthResponse_def\<close>)
qed

lemma ppp_run_lcp_inv: "lcp_inv [] (m_lcp (fold ppp_do evs (ppp_new t host r1 r2)))"
  by (induction evs rule: rev_induct) (use ppp_new_unserved in \<open>simp_all add: unserved_def ppp_do_lcp_inv\<close>)

end
