(* ===== verification/Pppoe_Discovery.thy ===== *)
theory Pppoe_Discovery
  imports Ppp_Session_Spec
begin

text \<open>
  The packets of the PPPoE discovery stage (RFC 2516): their layout
  (\<^verbatim>\<open>src/src/PPPOE/pppoe.h\<close>), the scan for tags, the cookie, and the tags the answers carry
  (\<^verbatim>\<open>src/src/PPPOE/CPPPOEDiscoveryHandler.cpp\<close>). Sessions and the dispatch of packets are in
  \<open>Pppoe_Server\<close>.

  A frame is the list of the bytes received. 16-bit fields are natural numbers; \<^verbatim>\<open>htons\<close> and
  \<^verbatim>\<open>ntohs\<close> appear where a field is put into or taken out of a frame. \<^verbatim>\<open>MD5\<close> is a function of the
  library \<^verbatim>\<open>openssl\<close> and stays a parameter (\<open>pppoe_env\<close>), as do the process id and the random numbers.
\<close>

section \<open>Frames (pppoe.h)\<close>

abbreviation (input) ETH_ALEN :: nat where "ETH_ALEN \<equiv> 6"
abbreviation (input) ETH_DATA_LEN :: nat where "ETH_DATA_LEN \<equiv> 1500"
abbreviation (input) ETH_JUMBO_LEN :: nat where "ETH_JUMBO_LEN \<equiv> 1508"
abbreviation (input) PPPOE_OVERHEAD :: nat where "PPPOE_OVERHEAD \<equiv> 6"
abbreviation (input) HDR_SIZE :: nat where "HDR_SIZE \<equiv> 20"
abbreviation (input) MAX_PPPOE_PAYLOAD :: nat where "MAX_PPPOE_PAYLOAD \<equiv> 1502"
abbreviation (input) TOTAL_OVERHEAD :: nat where "TOTAL_OVERHEAD \<equiv> 8"
abbreviation (input) ETH_PPPOE_MTU :: nat where "ETH_PPPOE_MTU \<equiv> 1492"
abbreviation (input) TAG_HDR_SIZE :: nat where "TAG_HDR_SIZE \<equiv> 4"
abbreviation (input) COOKIE_LEN :: nat where "COOKIE_LEN \<equiv> 20"
abbreviation (input) MD5_LEN :: nat where "MD5_LEN \<equiv> 16"

abbreviation (input) ETH_PPPOE_DISCOVERY :: nat where "ETH_PPPOE_DISCOVERY \<equiv> 0x8863"
abbreviation (input) ETH_PPPOE_SESSION :: nat where "ETH_PPPOE_SESSION \<equiv> 0x8864"

abbreviation (input) CODE_PADI :: byte where "CODE_PADI \<equiv> 0x09"
abbreviation (input) CODE_PADO :: byte where "CODE_PADO \<equiv> 0x07"
abbreviation (input) CODE_PADR :: byte where "CODE_PADR \<equiv> 0x19"
abbreviation (input) CODE_PADS :: byte where "CODE_PADS \<equiv> 0x65"
abbreviation (input) CODE_PADT :: byte where "CODE_PADT \<equiv> 0xA7"
abbreviation (input) CODE_SESS :: byte where "CODE_SESS \<equiv> 0"

abbreviation (input) TAG_END_OF_LIST :: nat where "TAG_END_OF_LIST \<equiv> 0"
abbreviation (input) TAG_SERVICE_NAME :: nat where "TAG_SERVICE_NAME \<equiv> 0x0101"
abbreviation (input) TAG_AC_NAME :: nat where "TAG_AC_NAME \<equiv> 0x0102"
abbreviation (input) TAG_HOST_UNIQ :: nat where "TAG_HOST_UNIQ \<equiv> 0x0103"
abbreviation (input) TAG_AC_COOKIE :: nat where "TAG_AC_COOKIE \<equiv> 0x0104"
abbreviation (input) TAG_RELAY_SESSION_ID :: nat where "TAG_RELAY_SESSION_ID \<equiv> 0x0110"
abbreviation (input) TAG_PPP_MAX_PAYLOAD :: nat where "TAG_PPP_MAX_PAYLOAD \<equiv> 0x0120"
abbreviation (input) TAG_SERVICE_NAME_ERROR :: nat where "TAG_SERVICE_NAME_ERROR \<equiv> 0x0201"
abbreviation (input) TAG_GENERIC_ERROR :: nat where "TAG_GENERIC_ERROR \<equiv> 0x0203"

text \<open>The fields of \<^verbatim>\<open>PPPoEPacket\<close>; version and type are the two halves of byte 14.\<close>

definition h_dest :: "byte list \<Rightarrow> byte list" where
  "h_dest pkt = take ETH_ALEN pkt"

definition h_source :: "byte list \<Rightarrow> byte list" where
  "h_source pkt = take ETH_ALEN (drop ETH_ALEN pkt)"

definition ver_type_ok :: "byte list \<Rightarrow> bool" where
  "ver_type_ok pkt \<longleftrightarrow> pkt ! 14 = 0x11"

definition pkt_code :: "byte list \<Rightarrow> byte" where
  "pkt_code pkt = pkt ! 15"

definition pkt_session :: "byte list \<Rightarrow> nat" where
  "pkt_session pkt = GETSHORT (pkt ! 16) (pkt ! 17)"

definition pkt_length :: "byte list \<Rightarrow> nat" where
  "pkt_length pkt = GETSHORT (pkt ! 18) (pkt ! 19)"

definition pkt_payload :: "byte list \<Rightarrow> byte list" where
  "pkt_payload pkt = drop HDR_SIZE pkt"

definition NOT_UNICAST :: "byte list \<Rightarrow> bool" where
  "NOT_UNICAST e \<longleftrightarrow> e ! 0 AND 1 \<noteq> 0"

text \<open>The frame the handlers fill in and send, with \<open>payload\<close> behind its header.\<close>

definition mk_frame :: "byte list \<Rightarrow> byte list \<Rightarrow> nat \<Rightarrow> byte \<Rightarrow> nat \<Rightarrow> byte list \<Rightarrow> byte list" where
  "mk_frame dest source proto code session payload =
     dest @ source @ PUTSHORT proto @ [0x11, code] @ PUTSHORT session @ PUTSHORT (length payload) @ payload"

record PPPoETag =
  t_type :: nat
  t_length :: nat
  t_payload :: "byte list"

definition PPPoETag_new :: PPPoETag where
  "PPPoETag_new = \<lparr>t_type = 0, t_length = 0, t_payload = replicate ETH_JUMBO_LEN 0\<rparr>"

text \<open>What \<^verbatim>\<open>memcpy (cursor, &tag, length + TAG_HDR_SIZE)\<close> copies, and a tag made in place.\<close>

definition tag_bytes :: "PPPoETag \<Rightarrow> byte list" where
  "tag_bytes t = PUTSHORT (t_type t) @ PUTSHORT (t_length t) @ take (t_length t) (t_payload t)"

definition mk_tag :: "nat \<Rightarrow> byte list \<Rightarrow> byte list" where
  "mk_tag ty v = PUTSHORT ty @ PUTSHORT (length v) @ v"

section \<open>The tags of a packet (parsePacket)\<close>

text \<open>
  The static members the tags of the packet in hand are kept in. They live on from one packet to
  the next; only the types of some are reset.
\<close>

record discovery =
  hostUniq :: PPPoETag
  relayId :: PPPoETag
  receivedCookie :: PPPoETag
  requestedService :: PPPoETag
  max_ppp_payload :: nat

definition discovery_new :: discovery where
  "discovery_new = \<lparr>hostUniq = PPPoETag_new, relayId = PPPoETag_new, receivedCookie = PPPoETag_new,
     requestedService = PPPoETag_new, max_ppp_payload = 0\<rparr>"

text \<open>
  The loop over the tags; \<open>rest\<close> is what is left of the declared length. The source reads the four
  bytes of a tag header also when fewer are left, and whatever it finds there it stops without
  calling \<^verbatim>\<open>func\<close>: the type ends the list, or the length passes the end. Every caller ignores the
  result, so the scan is its effect only.
\<close>

function parse_tags :: "(nat \<Rightarrow> byte list \<Rightarrow> 's \<Rightarrow> 's) \<Rightarrow> byte list \<Rightarrow> 's \<Rightarrow> 's" where
  "parse_tags func rest s =
     (if length rest < TAG_HDR_SIZE then s
      else let tagType = GETSHORT (rest ! 0) (rest ! 1);
               tagLen = GETSHORT (rest ! 2) (rest ! 3)
           in if tagType = TAG_END_OF_LIST then s
              else if tagLen + TAG_HDR_SIZE > length rest then s
              else parse_tags func (drop (TAG_HDR_SIZE + tagLen) rest)
                     (func tagType (take tagLen (drop TAG_HDR_SIZE rest)) s))"
  by pat_completeness auto
termination by (relation "measure (\<lambda>(_, rest, _). length rest)") auto

declare parse_tags.simps [simp del]

definition parsePacket :: "(nat \<Rightarrow> byte list \<Rightarrow> 's \<Rightarrow> 's) \<Rightarrow> byte list \<Rightarrow> 's \<Rightarrow> 's" where
  "parsePacket func pkt s =
     (if \<not> ver_type_ok pkt then s
      else if pkt_length pkt > ETH_JUMBO_LEN - PPPOE_OVERHEAD then s
      else parse_tags func (take (pkt_length pkt) (pkt_payload pkt)) s)"

text \<open>A tag is copied over the first bytes of the static one.\<close>

definition copy_tag :: "nat \<Rightarrow> byte list \<Rightarrow> PPPoETag \<Rightarrow> PPPoETag" where
  "copy_tag ty v t = \<lparr>t_type = ty, t_length = length v, t_payload = memcpy_at (t_payload t) 0 v (length v)\<rparr>"

definition max_payload_of :: "byte list \<Rightarrow> nat \<Rightarrow> nat" where
  "max_payload_of v old =
     (if length v = 2
      then let m = GETSHORT (v ! 0) (v ! 1) in if m \<le> ETH_PPPOE_MTU then 0 else m
      else old)"

definition parsePADITags :: "nat \<Rightarrow> byte list \<Rightarrow> discovery \<Rightarrow> discovery" where
  "parsePADITags ty v d =
     (if ty = TAG_PPP_MAX_PAYLOAD then d\<lparr>max_ppp_payload := max_payload_of v (max_ppp_payload d)\<rparr>
      else if ty = TAG_SERVICE_NAME then d\<lparr>requestedService := copy_tag ty v (requestedService d)\<rparr>
      else if ty = TAG_RELAY_SESSION_ID then d\<lparr>relayId := copy_tag ty v (relayId d)\<rparr>
      else if ty = TAG_HOST_UNIQ then d\<lparr>hostUniq := copy_tag ty v (hostUniq d)\<rparr>
      else d)"

definition parsePADRTags :: "nat \<Rightarrow> byte list \<Rightarrow> discovery \<Rightarrow> discovery" where
  "parsePADRTags ty v d =
     (if ty = TAG_PPP_MAX_PAYLOAD then d\<lparr>max_ppp_payload := max_payload_of v (max_ppp_payload d)\<rparr>
      else if ty = TAG_RELAY_SESSION_ID then d\<lparr>relayId := copy_tag ty v (relayId d)\<rparr>
      else if ty = TAG_HOST_UNIQ then d\<lparr>hostUniq := copy_tag ty v (hostUniq d)\<rparr>
      else if ty = TAG_AC_COOKIE then d\<lparr>receivedCookie := copy_tag ty v (receivedCookie d)\<rparr>
      else if ty = TAG_SERVICE_NAME then d\<lparr>requestedService := copy_tag ty v (requestedService d)\<rparr>
      else d)"

definition reset_type :: "PPPoETag \<Rightarrow> PPPoETag" where
  "reset_type t = t\<lparr>t_type := 0\<rparr>"

section \<open>The cookie\<close>

text \<open>
  The environment: \<^verbatim>\<open>MD5\<close> of the bytes given to it, the four bytes of the process id as they lie in
  memory, the values the random number generators give the n-th session, and the addresses
  \<^verbatim>\<open>IAuthManager::AllocIp\<close> returns.
\<close>

record pppoe_env =
  md5 :: "byte list \<Rightarrow> byte list"
  pid_bytes :: "byte list"
  lcp_random :: "nat \<Rightarrow> nat \<Rightarrow> u32"
  chap_random :: "nat \<Rightarrow> nat \<Rightarrow> u32"
  alloc_ip :: "nat \<Rightarrow> u32"

text \<open>\<^verbatim>\<open>MD5_Final\<close> writes \<^verbatim>\<open>MD5_LEN\<close> bytes into the zeroed buffer, the process id goes behind them.\<close>

definition genCookie :: "pppoe_env \<Rightarrow> byte list \<Rightarrow> byte list \<Rightarrow> byte list \<Rightarrow> byte list" where
  "genCookie E peerEthAddr myEthAddr seed =
     take MD5_LEN (md5 E (peerEthAddr @ myEthAddr @ seed) @ replicate MD5_LEN 0) @
     take 4 (pid_bytes E @ replicate 4 0)"

lemma length_genCookie [simp]: "length (genCookie E p m seed) = COOKIE_LEN"
  by (simp add: genCookie_def)

section \<open>Filling a packet\<close>

text \<open>\<^verbatim>\<open>CHECK_ROOM\<close>: the handler returns without sending when a tag does not fit.\<close>

definition add_checked :: "byte list \<Rightarrow> byte list option \<Rightarrow> byte list option" where
  "add_checked xs cursor =
     (case cursor of None \<Rightarrow> None
      | Some cur \<Rightarrow> if length cur + length xs > MAX_PPPOE_PAYLOAD then None else Some (cur @ xs))"

definition opt_tag :: "PPPoETag \<Rightarrow> byte list" where
  "opt_tag t = (if t_type t \<noteq> 0 then tag_bytes t else [])"

definition add_opt_checked :: "PPPoETag \<Rightarrow> byte list option \<Rightarrow> byte list option" where
  "add_opt_checked t cursor = (if t_type t \<noteq> 0 then add_checked (tag_bytes t) cursor else cursor)"

text \<open>
  The payload size that is granted, for the size asked for: \<^verbatim>\<open>intfMtu - TOTAL_OVERHEAD\<close> is computed as
  an \<^verbatim>\<open>int\<close> and assigned to the 16-bit variable.
\<close>

definition shrink_payload :: "nat \<Rightarrow> nat \<Rightarrow> nat" where
  "shrink_payload intfMtu m =
     (let m = (if int m > int intfMtu - int TOTAL_OVERHEAD
               then nat ((int intfMtu - int TOTAL_OVERHEAD) mod 65536) else m)
      in if m > ETH_JUMBO_LEN - TOTAL_OVERHEAD then ETH_JUMBO_LEN - TOTAL_OVERHEAD else m)"

definition grants :: "nat \<Rightarrow> nat \<Rightarrow> bool" where
  "grants intfMtu m \<longleftrightarrow> m > ETH_PPPOE_MTU \<and> intfMtu > 0 \<and> shrink_payload intfMtu m > ETH_PPPOE_MTU"

end
