(* ===== verification/Pppoe_Server.thy ===== *)
theory Pppoe_Server
  imports Pppoe_Discovery
begin

text \<open>
  The PPPoE server: the session identifiers (\<^verbatim>\<open>src/src/PPPOE/CAddSessionId.cpp\<close>), one PPPoE session
  around its PPP session (\<^verbatim>\<open>CSession.cpp\<close>), the table of sessions and the calls of the authentication
  and session managers (\<^verbatim>\<open>CPPPOE.cpp\<close>), the discovery stage (\<^verbatim>\<open>CPPPOEDiscoveryHandler.cpp\<close>) and the
  dispatch of session packets (\<^verbatim>\<open>CPPPOESessionHandler.cpp\<close>).

  Everything a call of \<^verbatim>\<open>CPPPOE\<close> sends or asks of another component is appended to \<open>pppoe_out\<close>. The
  calls a PPP session makes of its \<^verbatim>\<open>CSession\<close> are handled after the operation that made them, in
  their order (\<open>session_run\<close>): none of the handlers calls back into the PPP session. \<open>pppoe_fault\<close>
  is set where the source has no defined behaviour (a null pointer is followed, an array is overrun).
\<close>

section \<open>Session identifiers (CAddSessionId)\<close>

record session_ids =
  m_SessionId :: "nat list"
  m_startid :: nat
  m_endid :: nat

definition ids_InIt :: "nat \<Rightarrow> nat \<Rightarrow> session_ids \<Rightarrow> session_ids" where
  "ids_InIt startid endid s =
     \<lparr>m_SessionId = m_SessionId s @ [startid ..< Suc endid], m_startid = startid, m_endid = endid\<rparr>"

text \<open>The identifier, 0 when there is none left.\<close>

definition ids_GetId :: "session_ids \<Rightarrow> nat \<times> session_ids" where
  "ids_GetId s = (case m_SessionId s of [] \<Rightarrow> (0, s) | i # rest \<Rightarrow> (i, s\<lparr>m_SessionId := rest\<rparr>))"

definition ids_FreeId :: "nat \<Rightarrow> session_ids \<Rightarrow> session_ids" where
  "ids_FreeId i s =
     (if m_startid s \<le> i \<and> i \<le> m_endid s then s\<lparr>m_SessionId := m_SessionId s @ [i]\<rparr> else s)"

section \<open>State\<close>

record csession =
  m_ppp :: cppp
  m_sessionid :: nat
  m_requestedMtu :: nat
  m_clientEth :: "byte list"
  m_sessionToBeDeleted :: bool
  session_timer :: "nat option"

text \<open>The requests to the managers, with the fields \<^verbatim>\<open>CSession\<close> and \<^verbatim>\<open>CPPPOE\<close> fill in.\<close>

record pppoe_auth = Auth_Request +
  ar_user_type :: u8
  ar_aaaRequestType :: u8
  ar_nasPortType :: u8
  ar_session :: nat
  ar_mac :: "byte list"
  ar_framedProtocol :: u32
  ar_serviceType :: u32

record pppoe_user = Session_User_Ex +
  su_session :: nat
  su_mac :: "byte list"
  su_user_type :: u8

record Session_Offline =
  so_user_type :: u8
  so_session :: nat
  so_mac :: "byte list"

datatype pppoe_call =
    SentDiscovery "byte list" | SentSession "byte list" | AuthRequest pppoe_auth
  | AddUserRequest pppoe_user | DeleteUserRequest Session_Offline

datatype pppoe_error = NullDereference | BufferOverrun

record pppoe =
  m_sessionMgr :: "nat \<rightharpoonup> csession"
  m_psessionid :: session_ids
  m_disc :: discovery
  m_cookieSeed :: "byte list"
  m_acName :: "byte list"
  m_svcName :: "byte list"
  pppoe_authType :: nat
  pppoe_hostName :: "byte list"
  m_mac :: "byte list"
  m_mtu :: nat
  m_ip :: u32
  pppoe_made :: nat
  pppoe_allocs :: nat
  pppoe_out :: "pppoe_call list"
  pppoe_fault :: "pppoe_error option"

abbreviation (input) USER_TYPE_PPPOE :: u8 where "USER_TYPE_PPPOE \<equiv> 3"

text \<open>
  The server after \<^verbatim>\<open>CPPPOE::CPPPOE\<close>, \<^verbatim>\<open>Init\<close> and \<^verbatim>\<open>Start\<close>, for the address of its interface and the
  random seed read at the start.
\<close>

definition CPPPOE_new :: "byte list \<Rightarrow> u32 \<Rightarrow> byte list \<Rightarrow> pppoe" where
  "CPPPOE_new mac ip seed =
     \<lparr>m_sessionMgr = Map.empty,
      m_psessionid = ids_InIt 1 60000 \<lparr>m_SessionId = [], m_startid = 0, m_endid = 0\<rparr>,
      m_disc = discovery_new, m_cookieSeed = seed,
      m_acName = ascii ''JSNJ-WFNEX-BRAS'', m_svcName = ascii ''JSNJ-BROADBAND-ACCESS'',
      pppoe_authType = PPP_PAP, pppoe_hostName = ascii ''WFNEX'',
      m_mac = mac, m_mtu = ETH_DATA_LEN, m_ip = ip,
      pppoe_made = 0, pppoe_allocs = 0, pppoe_out = [], pppoe_fault = None\<rparr>"

abbreviation pppoe_call :: "pppoe_call \<Rightarrow> pppoe \<Rightarrow> pppoe" where
  "pppoe_call c P \<equiv> P\<lparr>pppoe_out := pppoe_out P @ [c]\<rparr>"

abbreviation pppoe_fail :: "pppoe_error \<Rightarrow> pppoe \<Rightarrow> pppoe" where
  "pppoe_fail e P \<equiv> P\<lparr>pppoe_fault := Some e\<rparr>"

section \<open>The table of sessions (CPPPOE)\<close>

definition FindSession :: "nat \<Rightarrow> pppoe \<Rightarrow> csession option" where
  "FindSession sid P = m_sessionMgr P sid"

definition upd_session :: "nat \<Rightarrow> (csession \<Rightarrow> csession) \<Rightarrow> pppoe \<Rightarrow> pppoe" where
  "upd_session sid f P = P\<lparr>m_sessionMgr := (m_sessionMgr P)(sid := map_option f (m_sessionMgr P sid))\<rparr>"

definition AllocId :: "pppoe \<Rightarrow> nat \<times> pppoe" where
  "AllocId P = (let (i, s) = ids_GetId (m_psessionid P) in (i, P\<lparr>m_psessionid := s\<rparr>))"

definition FreeId :: "nat \<Rightarrow> pppoe \<Rightarrow> pppoe" where
  "FreeId i P = P\<lparr>m_psessionid := ids_FreeId i (m_psessionid P)\<rparr>"

definition CSession_new :: "pppoe_env \<Rightarrow> nat \<Rightarrow> nat \<Rightarrow> csession" where
  "CSession_new E n sid =
     \<lparr>m_ppp = CPPP_new (lcp_random E n) (chap_random E n), m_sessionid = sid, m_requestedMtu = ETH_PPPOE_MTU,
      m_clientEth = replicate ETH_ALEN 0, m_sessionToBeDeleted = False, session_timer = None\<rparr>"

text \<open>The destructor of a session: its identifier is free again. The timer goes with the object.\<close>

definition CSession_delete :: "csession \<Rightarrow> pppoe \<Rightarrow> pppoe" where
  "CSession_delete s P = FreeId (m_sessionid s) P"

definition AddSession :: "nat \<Rightarrow> csession \<Rightarrow> pppoe \<Rightarrow> bool \<times> pppoe" where
  "AddSession sid s P =
     (case m_sessionMgr P sid of
        None \<Rightarrow> (True, P\<lparr>m_sessionMgr := (m_sessionMgr P)(sid \<mapsto> s)\<rparr>)
      | Some _ \<Rightarrow> (False, P))"

definition RemoveSession :: "nat \<Rightarrow> pppoe \<Rightarrow> pppoe" where
  "RemoveSession sid P =
     (case m_sessionMgr P sid of
        None \<Rightarrow> P
      | Some s \<Rightarrow> CSession_delete s (P\<lparr>m_sessionMgr := (m_sessionMgr P)(sid := None)\<rparr>))"

text \<open>The identifier of the new session; \<open>None\<close> when the result stays a null pointer.\<close>

definition CreateSession :: "pppoe_env \<Rightarrow> pppoe \<Rightarrow> nat option \<times> pppoe" where
  "CreateSession E P =
     (let (sid, P) = AllocId P
      in if sid = 0 then (None, P)
         else let s = CSession_new E (pppoe_made P) sid;
                  s = s\<lparr>m_ppp := ppp_SetHostName (pppoe_hostName P) (ppp_SetAuthType (pppoe_authType P) (m_ppp s))\<rparr>;
                  (added, P) = AddSession sid s (P\<lparr>pppoe_made := Suc (pppoe_made P)\<rparr>)
              in if added then (Some sid, P) else (None, CSession_delete s P))"

section \<open>Termination of a session (sendPADT)\<close>

definition StartOneOffTimer :: "csession \<Rightarrow> csession" where
  "StartOneOffTimer s = s\<lparr>session_timer := Some 5\<rparr>"

definition SetDeleteFlag :: "csession \<Rightarrow> csession" where
  "SetDeleteFlag s = s\<lparr>m_sessionToBeDeleted := True\<rparr>"

text \<open>The cookie of a PADT is made from our own address on both sides.\<close>

definition padt_payload :: "pppoe_env \<Rightarrow> byte list \<Rightarrow> pppoe \<Rightarrow> byte list" where
  "padt_payload E msg P =
     mk_tag TAG_GENERIC_ERROR msg @ mk_tag TAG_AC_COOKIE (genCookie E (m_mac P) (m_mac P) (m_cookieSeed P))"

definition sendPADT :: "pppoe_env \<Rightarrow> nat \<Rightarrow> byte list \<Rightarrow> pppoe \<Rightarrow> pppoe" where
  "sendPADT E sid msg P =
     (case FindSession sid P of
        None \<Rightarrow> P
      | Some s \<Rightarrow>
          if m_sessionToBeDeleted s then P
          else if length msg + TAG_HDR_SIZE > ETH_JUMBO_LEN then pppoe_fail BufferOverrun P
          else if length (padt_payload E msg P) > MAX_PPPOE_PAYLOAD then P
          else upd_session sid (StartOneOffTimer \<circ> SetDeleteFlag)
                 (pppoe_call (SentDiscovery (mk_frame (m_clientEth s) (m_mac P) ETH_PPPOE_DISCOVERY CODE_PADT
                    (m_sessionid s) (padt_payload E msg P))) P))"

definition pppoe_OnLCPDown :: "pppoe_env \<Rightarrow> nat \<Rightarrow> byte list \<Rightarrow> pppoe \<Rightarrow> pppoe" where
  "pppoe_OnLCPDown E sid reason P =
     (case FindSession sid P of None \<Rightarrow> P | Some _ \<Rightarrow> sendPADT E sid reason P)"

section \<open>The calls of the PPP session (CSession)\<close>

definition control_protocol :: "nat \<Rightarrow> bool" where
  "control_protocol p \<longleftrightarrow> p = PPP_LCP \<or> p = PPP_IPCP \<or> p = PPP_PAP \<or> p = PPP_CHAP"

definition session_OnPPPOutput :: "csession \<Rightarrow> byte list \<Rightarrow> pppoe \<Rightarrow> pppoe" where
  "session_OnPPPOutput s packet P =
     (if length packet < PPP_HDRLEN then P
      else if m_sessionToBeDeleted s \<and> control_protocol (GETSHORT (packet ! 2) (packet ! 3)) then P
      else if length packet - 2 > ETH_JUMBO_LEN then P
      else pppoe_call (SentSession (mk_frame (m_clientEth s) (m_mac P) ETH_PPPOE_SESSION CODE_SESS
             (m_sessionid s) (drop 2 packet))) P)"

definition OnPPPOEAuthRequest :: "pppoe_auth \<Rightarrow> pppoe \<Rightarrow> pppoe" where
  "OnPPPOEAuthRequest r P =
     (case FindSession (ar_session r) P of
        None \<Rightarrow> P
      | Some s \<Rightarrow> pppoe_call (AuthRequest (r\<lparr>ar_user_type := USER_TYPE_PPPOE, ar_aaaRequestType := 0, ar_nasPortType := 15,
                    ar_mac := m_clientEth s, ar_framedProtocol := 1, ar_serviceType := 1\<rparr>)) P)"

definition session_OnAuthRequest :: "csession \<Rightarrow> Auth_Request \<Rightarrow> pppoe \<Rightarrow> pppoe" where
  "session_OnAuthRequest s r P =
     OnPPPOEAuthRequest (Auth_Request.extend r
       (pppoe_auth.fields 0 0 0 (m_sessionid s) (replicate ETH_ALEN 0) 0 0)) P"

text \<open>
  The subscriber is registered with the next address of the authentication manager; the one CPPP
  has put there, which IPCP negotiated, is overwritten.
\<close>

definition session_OnAddSubscriber :: "pppoe_env \<Rightarrow> csession \<Rightarrow> Session_User_Ex \<Rightarrow> pppoe \<Rightarrow> pppoe" where
  "session_OnAddSubscriber E s u P =
     pppoe_call (AddUserRequest (Session_User_Ex.extend (u\<lparr>user_ip := alloc_ip E (pppoe_allocs P)\<rparr>)
       (pppoe_user.fields (m_sessionid s) (m_clientEth s) USER_TYPE_PPPOE)))
       (P\<lparr>pppoe_allocs := Suc (pppoe_allocs P)\<rparr>)"

definition session_OnDelSubscriber :: "csession \<Rightarrow> pppoe \<Rightarrow> pppoe" where
  "session_OnDelSubscriber s P =
     pppoe_call (DeleteUserRequest \<lparr>so_user_type = USER_TYPE_PPPOE, so_session = m_sessionid s, so_mac = m_clientEth s\<rparr>) P"

text \<open>One call of the PPP session of \<open>sid\<close>; the object is alive while its PPP session runs.\<close>

definition session_call :: "pppoe_env \<Rightarrow> nat \<Rightarrow> sink_call \<Rightarrow> pppoe \<Rightarrow> pppoe" where
  "session_call E sid c P =
     (case FindSession sid P of
        None \<Rightarrow> P
      | Some s \<Rightarrow>
          (case c of
             SinkLCPDown reason \<Rightarrow> pppoe_OnLCPDown E (m_sessionid s) reason P
           | OnPPPOutput packet \<Rightarrow> session_OnPPPOutput s packet P
           | OnPPPPayload packet \<Rightarrow> P
           | OnAuthRequest r \<Rightarrow> session_OnAuthRequest s r P
           | OnAddSubscriber u \<Rightarrow> session_OnAddSubscriber E s u P
           | OnDelSubscriber \<Rightarrow> session_OnDelSubscriber s P))"

definition session_run :: "pppoe_env \<Rightarrow> nat \<Rightarrow> (cppp \<Rightarrow> cppp) \<Rightarrow> pppoe \<Rightarrow> pppoe" where
  "session_run E sid g P =
     (case FindSession sid P of
        None \<Rightarrow> P
      | Some s \<Rightarrow>
          fold (session_call E sid) (drop (length (ppp_calls (m_ppp s))) (ppp_calls (g (m_ppp s))))
            (upd_session sid (\<lambda>s. s\<lparr>m_ppp := g (m_ppp s)\<rparr>) P))"

definition session_Init :: "pppoe_env \<Rightarrow> nat \<Rightarrow> pppoe \<Rightarrow> pppoe" where
  "session_Init E sid P = session_run E sid ppp_StartFms (session_run E sid ppp_Init P)"

text \<open>The first two bytes of a packet as the 16-bit number they are in the memory of a little-endian host.\<close>

definition host_short :: "byte list \<Rightarrow> nat" where
  "host_short p = GETSHORT (p ! 1) (p ! 0)"

definition ProcessSessData :: "pppoe_env \<Rightarrow> nat \<Rightarrow> byte list \<Rightarrow> pppoe \<Rightarrow> pppoe" where
  "ProcessSessData E sid pkt P =
     (case FindSession sid P of
        None \<Rightarrow> P
      | Some s \<Rightarrow>
          if h_dest pkt \<noteq> m_mac P then P
          else if h_source pkt \<noteq> m_clientEth s then P
          else if m_sessionToBeDeleted s \<and> pkt_length pkt < 2 then P
          else if m_sessionToBeDeleted s \<and> control_protocol (host_short (pkt_payload pkt)) then P
          else if pkt_length pkt > 4096 - 2 then P
          else session_run E sid (ppp_Input ([0xff, 0x03] @ take (pkt_length pkt) (pkt_payload pkt))) P)"

definition session_handle_timeout :: "nat \<Rightarrow> pppoe \<Rightarrow> pppoe" where
  "session_handle_timeout sid P = RemoveSession sid P"

section \<open>The session stage (CPPPOESessionHandler)\<close>

definition session_ProcessPacket :: "pppoe_env \<Rightarrow> byte list \<Rightarrow> pppoe \<Rightarrow> pppoe" where
  "session_ProcessPacket E pkt P =
     (if length pkt < HDR_SIZE then P
      else if \<not> ver_type_ok pkt then P
      else if pkt_code pkt \<noteq> CODE_SESS then P
      else if pkt_length pkt + HDR_SIZE > length pkt then P
      else case FindSession (pkt_session pkt) P of
             None \<Rightarrow> P
           | Some _ \<Rightarrow> ProcessSessData E (pkt_session pkt) pkt P)"

section \<open>The discovery stage (CPPPOEDiscoveryHandler)\<close>

definition service_ok :: "byte list \<Rightarrow> PPPoETag \<Rightarrow> bool" where
  "service_ok svc t \<longleftrightarrow> t_length t = length svc \<and> take (t_length t) (t_payload t) = svc"

text \<open>The tags of a PADO, \<open>None\<close> when one does not fit; the service name is an array, never \<^verbatim>\<open>NULL\<close>.\<close>

definition pado_payload :: "pppoe_env \<Rightarrow> byte list \<Rightarrow> pppoe \<Rightarrow> byte list option" where
  "pado_payload E peer P =
     (let d = m_disc P;
          cur = add_checked (mk_tag TAG_AC_NAME (m_acName P)) (Some []);
          cur = (if cur \<noteq> None \<and> grants (m_mtu P) (max_ppp_payload d)
                 then add_checked (mk_tag TAG_PPP_MAX_PAYLOAD (PUTSHORT (shrink_payload (m_mtu P) (max_ppp_payload d)))) cur
                 else cur);
          cur = add_checked (mk_tag TAG_SERVICE_NAME (m_svcName P)) cur;
          cur = add_checked (mk_tag TAG_AC_COOKIE (genCookie E peer (m_mac P) (m_cookieSeed P))) cur;
          cur = add_opt_checked (relayId d) cur
      in add_opt_checked (hostUniq d) cur)"

definition shrink_static :: "pppoe \<Rightarrow> pppoe" where
  "shrink_static P =
     (let m = max_ppp_payload (m_disc P)
      in if m > ETH_PPPOE_MTU \<and> m_mtu P > 0
         then P\<lparr>m_disc := (m_disc P)\<lparr>max_ppp_payload := shrink_payload (m_mtu P) m\<rparr>\<rparr> else P)"

definition processPADI :: "pppoe_env \<Rightarrow> byte list \<Rightarrow> pppoe \<Rightarrow> pppoe" where
  "processPADI E pkt P =
     (if NOT_UNICAST (h_source pkt) then P
      else let d = m_disc P;
               d = d\<lparr>relayId := reset_type (relayId d), hostUniq := reset_type (hostUniq d),
                     requestedService := reset_type (requestedService d), max_ppp_payload := 0\<rparr>;
               d = parsePacket parsePADITags pkt d;
               P = P\<lparr>m_disc := d\<rparr>
           in if t_type (requestedService d) \<noteq> 0 \<and> t_length (requestedService d) > 0 \<and>
                 \<not> service_ok (m_svcName P) (requestedService d) then P
              else case pado_payload E (h_source pkt) P of
                     None \<Rightarrow> shrink_static P
                   | Some payload \<Rightarrow> shrink_static (pppoe_call (SentDiscovery (mk_frame (h_source pkt) (m_mac P)
                       ETH_PPPOE_DISCOVERY CODE_PADO 0 payload)) P))"

text \<open>The answer to a PADR that asks for no service or one we do not have; nothing checks that its tags fit.\<close>

definition sendErrorPADS :: "byte list \<Rightarrow> nat \<Rightarrow> byte list \<Rightarrow> pppoe \<Rightarrow> pppoe" where
  "sendErrorPADS dest errorTag errorMsg P =
     (let payload = mk_tag errorTag errorMsg @ opt_tag (relayId (m_disc P)) @ opt_tag (hostUniq (m_disc P))
      in if length payload > ETH_JUMBO_LEN then pppoe_fail BufferOverrun P
         else pppoe_call (SentDiscovery (mk_frame dest (m_mac P) ETH_PPPOE_DISCOVERY CODE_PADS 0 payload)) P)"

text \<open>
  The part of \<^verbatim>\<open>processPADR\<close> behind \<^verbatim>\<open>CreateSession\<close>: the PADS and the start of the PPP negotiation.
  The default service is copied over the static tag.
\<close>

definition default_service :: "pppoe \<Rightarrow> pppoe" where
  "default_service P =
     (let t = requestedService (m_disc P)
      in if t_length t = 0 \<and> m_svcName P \<noteq> []
         then P\<lparr>m_disc := (m_disc P)\<lparr>requestedService := t\<lparr>t_length := length (m_svcName P),
                t_payload := memcpy_at (t_payload t) 0 (m_svcName P) (length (m_svcName P))\<rparr>\<rparr>\<rparr>
         else P)"

definition padr_session :: "pppoe_env \<Rightarrow> byte list \<Rightarrow> nat \<Rightarrow> pppoe \<Rightarrow> pppoe" where
  "padr_session E peer sid P =
     (let P = upd_session sid (\<lambda>s. s\<lparr>m_clientEth := peer\<rparr>) P;
          P = default_service P;
          d = m_disc P;
          cur = tag_bytes (requestedService d);
          m = shrink_payload (m_mtu P) (max_ppp_payload d);
          granted = grants (m_mtu P) (max_ppp_payload d);
          mru = (if granted then mk_tag TAG_PPP_MAX_PAYLOAD (PUTSHORT m) else []);
          P = shrink_static P
      in if granted \<and> length cur + length mru > MAX_PPPOE_PAYLOAD then P
         else let P = (if granted then upd_session sid (\<lambda>s. s\<lparr>m_requestedMtu := m\<rparr>) P else P);
                  payload = cur @ mru @ opt_tag (relayId d) @ opt_tag (hostUniq d)
              in if length payload > ETH_JUMBO_LEN then pppoe_fail BufferOverrun P
                 else session_Init E sid (pppoe_call (SentDiscovery (mk_frame peer (m_mac P)
                        ETH_PPPOE_DISCOVERY CODE_PADS sid payload)) P))"

definition no_service_msg :: "byte list" where
  "no_service_msg = ascii ''WFNEX-PPPoE: Server: No service name tag''"

definition bad_service_msg :: "byte list" where
  "bad_service_msg = ascii ''WFNEX-PPPoE: Server: Invalid service name tag''"

definition cookie_ok :: "pppoe_env \<Rightarrow> byte list \<Rightarrow> pppoe \<Rightarrow> bool" where
  "cookie_ok E peer P \<longleftrightarrow>
     t_type (receivedCookie (m_disc P)) \<noteq> 0 \<and>
     t_length (receivedCookie (m_disc P)) = COOKIE_LEN \<and>
     take COOKIE_LEN (t_payload (receivedCookie (m_disc P))) = genCookie E peer (m_mac P) (m_cookieSeed P)"

definition padr_reset :: "pppoe \<Rightarrow> pppoe" where
  "padr_reset P =
     (let d = m_disc P
      in P\<lparr>m_disc := d\<lparr>relayId := reset_type (relayId d), hostUniq := reset_type (hostUniq d),
             receivedCookie := reset_type (receivedCookie d), requestedService := reset_type (requestedService d)\<rparr>\<rparr>)"

definition padr_parse :: "byte list \<Rightarrow> pppoe \<Rightarrow> pppoe" where
  "padr_parse pkt P = P\<lparr>m_disc := parsePacket parsePADRTags pkt ((m_disc P)\<lparr>max_ppp_payload := 0\<rparr>)\<rparr>"

definition processPADR :: "pppoe_env \<Rightarrow> byte list \<Rightarrow> pppoe \<Rightarrow> pppoe" where
  "processPADR E pkt P =
     (let P = padr_reset P;
          peer = h_source pkt
      in if h_dest pkt \<noteq> m_mac P then P
         else if NOT_UNICAST peer then P
         else let P = padr_parse pkt P;
                  t = requestedService (m_disc P)
              in if \<not> cookie_ok E peer P then P
                 else if t_type t = 0 then sendErrorPADS peer TAG_SERVICE_NAME_ERROR no_service_msg P
                 else if t_length t \<noteq> 0 \<and> \<not> service_ok (m_svcName P) t
                 then sendErrorPADS peer TAG_SERVICE_NAME_ERROR bad_service_msg P
                 else case CreateSession E P of
                        (None, P) \<Rightarrow> pppoe_fail NullDereference P
                      | (Some sid, P) \<Rightarrow> padr_session E peer sid P)"

definition processPADT :: "pppoe_env \<Rightarrow> byte list \<Rightarrow> pppoe \<Rightarrow> pppoe" where
  "processPADT E pkt P =
     (if h_dest pkt \<noteq> m_mac P then P
      else case FindSession (pkt_session pkt) P of
             None \<Rightarrow> P
           | Some s \<Rightarrow>
               if h_source pkt \<noteq> m_clientEth s then P
               else if m_sessionToBeDeleted s then RemoveSession (pkt_session pkt) P
               else sendPADT E (pkt_session pkt) (ascii ''Received PADT'') P)"

definition discovery_ProcessPacket :: "pppoe_env \<Rightarrow> byte list \<Rightarrow> pppoe \<Rightarrow> pppoe" where
  "discovery_ProcessPacket E pkt P =
     (if length pkt < HDR_SIZE then P
      else if \<not> ver_type_ok pkt then P
      else if pkt_length pkt + HDR_SIZE > length pkt then P
      else if pkt_code pkt = CODE_PADI then processPADI E pkt P
      else if pkt_code pkt = CODE_PADR then processPADR E pkt P
      else if pkt_code pkt = CODE_PADT then processPADT E pkt P
      else P)"

section \<open>The managers\<close>

record Auth_Response =
  resp_session :: nat
  resp_mac :: "byte list"
  authResult :: u32
  authResultDesc :: "byte list"
  subscriberIP :: u32
  primaryDNS :: u32
  secondaryDNS :: u32

record Sm_Kick_User =
  kick_session :: nat
  kick_mac :: "byte list"

text \<open>The answer of the authentication manager; the address of the subscriber is not compared.\<close>

definition HandleAuthResponse :: "pppoe_env \<Rightarrow> Auth_Response \<Rightarrow> pppoe \<Rightarrow> pppoe" where
  "HandleAuthResponse E r P =
     (case FindSession (resp_session r) P of
        None \<Rightarrow> P
      | Some _ \<Rightarrow>
          session_run E (resp_session r)
            (ppp_OnAuthResponse (sint (authResult r)) (takeWhile (\<lambda>c. c \<noteq> 0) (authResultDesc r)))
            (session_run E (resp_session r)
              (ppp_do (PppAddresses (m_ip P) (subscriberIP r) (primaryDNS r) (secondaryDNS r))) P))"

definition HandleKickUserNotify :: "pppoe_env \<Rightarrow> Sm_Kick_User \<Rightarrow> pppoe \<Rightarrow> pppoe" where
  "HandleKickUserNotify E k P =
     (case FindSession (kick_session k) P of
        None \<Rightarrow> P
      | Some s \<Rightarrow> if m_clientEth s \<noteq> kick_mac k then P else sendPADT E (kick_session k) (ascii ''Kick User'') P)"

text \<open>The configuration; the names are the C strings in their arrays of 200 bytes.\<close>

definition name_string :: "byte list \<Rightarrow> byte list" where
  "name_string n = takeWhile (\<lambda>c. c \<noteq> 0) (take 199 n)"

definition SetACName :: "byte list \<Rightarrow> pppoe \<Rightarrow> pppoe" where
  "SetACName n P = P\<lparr>m_acName := name_string n\<rparr>"

definition SetSvcName :: "byte list \<Rightarrow> pppoe \<Rightarrow> pppoe" where
  "SetSvcName n P = P\<lparr>m_svcName := name_string n\<rparr>"

definition pppoe_SetAuthType :: "nat \<Rightarrow> pppoe \<Rightarrow> pppoe" where
  "pppoe_SetAuthType t P = P\<lparr>pppoe_authType := t\<rparr>"

definition pppoe_SetHostName :: "byte list \<Rightarrow> pppoe \<Rightarrow> pppoe" where
  "pppoe_SetHostName n P = P\<lparr>pppoe_hostName := n\<rparr>"

section \<open>The server as a whole\<close>

text \<open>
  The events of the reactor: a frame of either stage, a timer, an answer of a manager, a change of
  the configuration (\<^verbatim>\<open>IPPPOECfgInterface\<close>). A timer fires
  only while it is registered. A server that has failed does nothing more.
\<close>

datatype ppp_timer = LcpTimer | EchoTimer | IpcpTimer | PapTimer | ChapTimer

primrec timer_event :: "ppp_timer \<Rightarrow> ppp_event" where
  "timer_event LcpTimer = PppLcpTimer"
| "timer_event EchoTimer = PppEchoTimer"
| "timer_event IpcpTimer = PppIpcpTimer"
| "timer_event PapTimer = PppPapTimer"
| "timer_event ChapTimer = PppChapTimer"

datatype pppoe_event =
    DiscoveryFrame "byte list" | SessionFrame "byte list" | PppTimer nat ppp_timer | PadtTimer nat
  | AuthAnswer Auth_Response | KickUser Sm_Kick_User
  | ConfigureACName "byte list" | ConfigureSvcName "byte list" | ConfigureAuthType nat | ConfigureHostName "byte list"

definition pppoe_do :: "pppoe_env \<Rightarrow> pppoe_event \<Rightarrow> pppoe \<Rightarrow> pppoe" where
  "pppoe_do E ev P =
     (if pppoe_fault P \<noteq> None then P
      else case ev of
        DiscoveryFrame pkt \<Rightarrow> discovery_ProcessPacket E pkt P
      | SessionFrame pkt \<Rightarrow> session_ProcessPacket E pkt P
      | PppTimer sid t \<Rightarrow> session_run E sid (ppp_do (timer_event t)) P
      | PadtTimer sid \<Rightarrow>
          (case FindSession sid P of
             None \<Rightarrow> P
           | Some s \<Rightarrow> if session_timer s = None then P else session_handle_timeout sid P)
      | AuthAnswer r \<Rightarrow> HandleAuthResponse E r P
      | KickUser k \<Rightarrow> HandleKickUserNotify E k P
      | ConfigureACName n \<Rightarrow> SetACName n P
      | ConfigureSvcName n \<Rightarrow> SetSvcName n P
      | ConfigureAuthType t \<Rightarrow> pppoe_SetAuthType t P
      | ConfigureHostName n \<Rightarrow> pppoe_SetHostName n P)"

end
