(* ===== verification/Pppoe_Spec.thy ===== *)
theory Pppoe_Spec
  imports Pppoe_Server
begin

text \<open>
  What the PPPoE server keeps: the identifiers of its sessions, the owner of each session and the
  separation of sessions from each other. \<open>kept\<close> is what the handling of one session leaves alone;
  the lemmas below show it of every operation, and the invariants of the server follow from it.
\<close>

section \<open>Frames and tags\<close>

lemma take_drop_pre: "length a = n \<Longrightarrow> take n (a @ b) = a" "length a = n \<Longrightarrow> drop n (a @ b) = b"
  by simp_all

lemma frame_fields [simp]:
  assumes "length dest = 6" "length source = 6"
  shows "h_dest (mk_frame dest source proto code session payload) = dest"
    "h_source (mk_frame dest source proto code session payload) = source"
    "ver_type_ok (mk_frame dest source proto code session payload)"
    "pkt_code (mk_frame dest source proto code session payload) = code"
    "pkt_payload (mk_frame dest source proto code session payload) = payload"
    "length (mk_frame dest source proto code session payload) = 20 + length payload"
  using assms
  by (simp_all add: mk_frame_def h_dest_def h_source_def ver_type_ok_def pkt_code_def pkt_payload_def nth_append PUTSHORT_def)

lemma frame_numbers [simp]:
  assumes "length dest = 6" "length source = 6"
  shows "session < 65536 \<Longrightarrow> pkt_session (mk_frame dest source proto code session payload) = session"
    "length payload < 65536 \<Longrightarrow> pkt_length (mk_frame dest source proto code session payload) = length payload"
proof -
  show "pkt_session (mk_frame dest source proto code session payload) = session" if "session < 65536"
    using GETSHORT_PUTSHORT [OF that] assms by (simp add: mk_frame_def pkt_session_def nth_append PUTSHORT_def)
  show "pkt_length (mk_frame dest source proto code session payload) = length payload" if "length payload < 65536"
    using GETSHORT_PUTSHORT [OF that] assms by (simp add: mk_frame_def pkt_length_def nth_append PUTSHORT_def)
qed

lemma length_mk_tag [simp]: "length (mk_tag ty v) = 4 + length v"
  by (simp add: mk_tag_def)

lemma parse_tags_Nil [simp]: "parse_tags func [] s = s"
  by (subst parse_tags.simps) simp

lemma parse_tags_tag [simp]:
  assumes "0 < ty" "ty < 65536" "length v < 65536"
  shows "parse_tags func (mk_tag ty v @ rest) s = parse_tags func rest (func ty v s)"
proof -
  let ?r = "mk_tag ty v @ rest"
  have "GETSHORT (?r ! 0) (?r ! 1) = ty" using GETSHORT_PUTSHORT [OF assms(2)] by (simp add: mk_tag_def PUTSHORT_def)
  moreover have "GETSHORT (?r ! 2) (?r ! 3) = length v"
    using GETSHORT_PUTSHORT [OF assms(3)] by (simp add: mk_tag_def PUTSHORT_def nth_append)
  moreover have "take (length v) (drop 4 ?r) = v" "drop (4 + length v) ?r = rest"
    by (simp_all add: mk_tag_def)
  ultimately show ?thesis using assms(1) by (subst parse_tags.simps) (simp add: Let_def)
qed

lemma parse_tags_last [simp]:
  assumes "0 < ty" "ty < 65536" "length v < 65536"
  shows "parse_tags func (mk_tag ty v) s = func ty v s"
  using parse_tags_tag [OF assms, of func "[]" s] by simp

text \<open>A property of the static tags that every tag keeps is kept by the scan.\<close>

lemma parse_tags_inv:
  assumes "\<And>ty v s. I s \<Longrightarrow> I (func ty v s)" and "I s"
  shows "I (parse_tags func rest s)"
  using assms
proof (induction func rest s rule: parse_tags.induct)
  case (1 func rest s)
  note IH = 1(1) [OF _ refl refl _ _ 1(2) 1(2) [OF 1(3)]]
  show ?case using IH 1(3) by (subst parse_tags.simps) (simp add: Let_def)
qed

lemma parsePacket_inv:
  assumes "\<And>ty v s. I s \<Longrightarrow> I (func ty v s)" and "I s"
  shows "I (parsePacket func pkt s)"
  using assms parse_tags_inv [where I = I and func = func] by (simp add: parsePacket_def)

section \<open>What the handling of a session leaves alone\<close>

text \<open>The owner of a session: its identifier and the address of its client.\<close>

definition owners :: "pppoe \<Rightarrow> nat \<Rightarrow> (nat \<times> byte list) option" where
  "owners P sid = map_option (\<lambda>s. (m_sessionid s, m_clientEth s)) (m_sessionMgr P sid)"

definition config :: "pppoe \<Rightarrow> byte list \<times> byte list \<times> byte list \<times> byte list \<times> nat \<times> u32" where
  "config P = (m_mac P, m_cookieSeed P, m_acName P, m_svcName P, m_mtu P, m_ip P)"

definition kept :: "pppoe \<Rightarrow> pppoe \<Rightarrow> bool" where
  "kept P Q \<longleftrightarrow> owners Q = owners P \<and> m_psessionid Q = m_psessionid P \<and> config Q = config P"

lemma kept_refl [simp]: "kept P P"
  by (simp add: kept_def)

lemma kept_trans: "kept P Q \<Longrightarrow> kept Q R \<Longrightarrow> kept P R"
  by (simp add: kept_def)

lemma kept_call [simp]: "kept P (pppoe_call c P)" "kept P (pppoe_fail e P)"
  by (simp_all add: kept_def owners_def config_def fun_eq_iff)

lemma kept_upd:
  assumes "\<And>s. m_sessionid (f s) = m_sessionid s" "\<And>s. m_clientEth (f s) = m_clientEth s"
  shows "kept P (upd_session sid f P)"
  using assms by (simp add: kept_def owners_def config_def upd_session_def fun_eq_iff option.map_comp comp_def)

lemma kept_sendPADT [simp]: "kept P (sendPADT E sid msg P)"
proof -
  have u: "kept Q (upd_session sid (StartOneOffTimer \<circ> SetDeleteFlag) Q)" for Q
    by (rule kept_upd) (simp_all add: StartOneOffTimer_def SetDeleteFlag_def)
  show ?thesis by (simp add: sendPADT_def kept_trans [OF kept_call(1) u] split: option.split)
qed

lemma kept_alloc [simp]: "kept P (P\<lparr>pppoe_allocs := n, pppoe_out := out\<rparr>)"
  by (simp add: kept_def owners_def config_def fun_eq_iff)

lemma kept_session_call [simp]: "kept P (session_call E sid c P)"
  by (simp add: session_call_def pppoe_OnLCPDown_def session_OnPPPOutput_def session_OnAuthRequest_def OnPPPOEAuthRequest_def
      session_OnAddSubscriber_def session_OnDelSubscriber_def
      split: option.split sink_call.split)

lemma kept_session_calls: "kept P (fold (session_call E sid) cs P)"
proof (induction cs arbitrary: P)
  case (Cons c cs)
  show ?case using kept_trans [OF kept_session_call Cons] by simp
qed simp

lemma kept_session_run [simp]: "kept P (session_run E sid g P)"
  using kept_trans [OF kept_upd [where f = "\<lambda>s. s\<lparr>m_ppp := g (m_ppp s)\<rparr>"] kept_session_calls]
  by (simp add: session_run_def split: option.split)

lemma kept_session_Init [simp]: "kept P (session_Init E sid P)"
  by (simp add: session_Init_def kept_trans [OF kept_session_run kept_session_run])

lemma kept_session_ops [simp]:
  "kept P (session_ProcessPacket E pkt P)" "kept P (HandleAuthResponse E r P)" "kept P (HandleKickUserNotify E k P)"
  by (simp_all add: session_ProcessPacket_def ProcessSessData_def HandleAuthResponse_def HandleKickUserNotify_def
      kept_trans [OF kept_session_run kept_session_run] split: option.split)

section \<open>Session identifiers\<close>

definition ids_ok :: "pppoe \<Rightarrow> bool" where
  "ids_ok P \<longleftrightarrow> m_startid (m_psessionid P) = 1 \<and> m_endid (m_psessionid P) = 60000 \<and>
     distinct (m_SessionId (m_psessionid P)) \<and>
     dom (m_sessionMgr P) \<inter> set (m_SessionId (m_psessionid P)) = {} \<and>
     dom (m_sessionMgr P) \<union> set (m_SessionId (m_psessionid P)) = {1..60000} \<and>
     (\<forall>sid s. m_sessionMgr P sid = Some s \<longrightarrow> m_sessionid s = sid)"

lemma dom_owners: "dom (m_sessionMgr P) = dom (owners P)"
  by (auto simp: owners_def dom_def)

lemma owners_id: "(\<forall>sid s. m_sessionMgr P sid = Some s \<longrightarrow> m_sessionid s = sid) \<longleftrightarrow>
    (\<forall>sid i m. owners P sid = Some (i, m) \<longrightarrow> i = sid)"
  by (auto simp: owners_def)

lemma ids_ok_kept: "kept P Q \<Longrightarrow> ids_ok Q = ids_ok P"
  by (simp add: ids_ok_def kept_def dom_owners owners_id)

lemma ids_ok_disc [simp]: "ids_ok (P\<lparr>m_disc := d\<rparr>) = ids_ok P"
  by (simp add: ids_ok_def)

lemma ids_ok_new: "ids_ok (CPPPOE_new mac ip seed)"
proof -
  have "set [1..<Suc 60000] = {1..60000}" by (simp only: set_upt atLeastLessThanSuc_atLeastAtMost)
  then show ?thesis by (simp add: ids_ok_def CPPPOE_new_def ids_InIt_def del: upt_Suc)
qed

lemma RemoveSession_ids:
  assumes "ids_ok P"
  shows "ids_ok (RemoveSession sid P)"
proof (cases "m_sessionMgr P sid")
  case (Some s)
  then have "m_sessionid s = sid" "sid \<in> {1..60000}" "sid \<notin> set (m_SessionId (m_psessionid P))"
    using assms by (auto simp: ids_ok_def)
  moreover from Some have "insert sid (dom (m_sessionMgr P)) = dom (m_sessionMgr P)" by auto
  ultimately show ?thesis using assms Some
    by (auto simp: RemoveSession_def CSession_delete_def FreeId_def ids_FreeId_def ids_ok_def)
qed (use assms in \<open>simp add: RemoveSession_def\<close>)

text \<open>What \<^verbatim>\<open>CreateSession\<close> does: it fails exactly when no identifier is free.\<close>

definition new_session :: "pppoe_env \<Rightarrow> nat \<Rightarrow> pppoe \<Rightarrow> csession" where
  "new_session E sid P = (CSession_new E (pppoe_made P) sid)\<lparr>m_ppp := ppp_SetHostName (pppoe_hostName P)
     (ppp_SetAuthType (pppoe_authType P) (m_ppp (CSession_new E (pppoe_made P) sid)))\<rparr>"

lemma CreateSession_none:
  assumes "m_SessionId (m_psessionid P) = []"
  shows "CreateSession E P = (None, P)"
  using assms by (simp add: CreateSession_def AllocId_def ids_GetId_def)

lemma CreateSession_some:
  assumes "ids_ok P" and "m_SessionId (m_psessionid P) = sid # rest"
  shows "CreateSession E P = (Some sid, P\<lparr>m_sessionMgr := (m_sessionMgr P)(sid \<mapsto> new_session E sid P),
    m_psessionid := (m_psessionid P)\<lparr>m_SessionId := rest\<rparr>, pppoe_made := Suc (pppoe_made P)\<rparr>)"
proof -
  have "sid \<in> {1..60000}" "m_sessionMgr P sid = None"
    using assms by (auto simp: ids_ok_def)
  then show ?thesis
    using assms(2) by (simp add: CreateSession_def AllocId_def ids_GetId_def AddSession_def new_session_def Let_def)
qed

lemma create_ids:
  assumes "ids_ok P" and "m_SessionId (m_psessionid P) = sid # rest"
  shows "ids_ok (P\<lparr>m_sessionMgr := (m_sessionMgr P)(sid \<mapsto> new_session E sid P),
    m_psessionid := (m_psessionid P)\<lparr>m_SessionId := rest\<rparr>, pppoe_made := n\<rparr>)"
  using assms by (auto simp: ids_ok_def new_session_def CSession_new_def)

section \<open>The discovery stage\<close>

lemma kept_disc [simp]: "kept P (P\<lparr>m_disc := d\<rparr>)"
  by (simp add: kept_def owners_def config_def fun_eq_iff)

lemma kept_statics [simp]: "kept P (default_service P)" "kept P (shrink_static P)"
  by (simp_all add: default_service_def shrink_static_def Let_def)

lemma kept_error_PADS [simp]: "kept P (sendErrorPADS dest ty msg P)"
  by (simp add: sendErrorPADS_def Let_def)

lemma kept_shrink: "kept P Q \<Longrightarrow> kept P (shrink_static Q)"
  by (erule kept_trans) simp

lemma kept_processPADI [simp]: "kept P (processPADI E pkt P)"
proof -
  define d where "d = parsePacket parsePADITags pkt ((m_disc P)\<lparr>relayId := reset_type (relayId (m_disc P)),
    hostUniq := reset_type (hostUniq (m_disc P)), requestedService := reset_type (requestedService (m_disc P)),
    max_ppp_payload := 0\<rparr>)"
  have k: "kept P (P\<lparr>m_disc := d\<rparr>)" by (rule kept_disc)
  then have "kept P (pppoe_call c (P\<lparr>m_disc := d\<rparr>))" for c by (rule kept_trans [OF _ kept_call(1)])
  then show ?thesis using k kept_shrink [OF k] unfolding processPADI_def Let_def d_def [symmetric]
    by (auto simp del: pppoe.simps split: option.split intro!: kept_shrink)
qed

text \<open>A PADR creates at most one session: for a valid cookie, with the next identifier, for its sender.\<close>

lemma kept_padr_session: "kept (upd_session sid (\<lambda>s. s\<lparr>m_clientEth := peer\<rparr>) P) (padr_session E peer sid P)"
proof -
  define Q where "Q = default_service (upd_session sid (\<lambda>s. s\<lparr>m_clientEth := peer\<rparr>) P)"
  define R where "R = shrink_static Q"
  have r: "kept (upd_session sid (\<lambda>s. s\<lparr>m_clientEth := peer\<rparr>) P) R"
    unfolding R_def Q_def by (rule kept_shrink) simp
  have u: "kept R (upd_session sid (\<lambda>s. s\<lparr>m_requestedMtu := m\<rparr>) R)" for m by (rule kept_upd) simp_all
  have i: "kept S (session_Init E sid (pppoe_call c S))" for S c by (rule kept_trans [OF kept_call(1) kept_session_Init])
  have f: "kept S (pppoe_fail e S)" for S e by simp
  note k = kept_trans [OF r] kept_trans [OF r kept_trans [OF u]]
  show ?thesis unfolding padr_session_def Let_def Q_def [symmetric] R_def [symmetric]
    using r k(1) [OF i] k(2) [OF i] k(1) [OF f] k(2) [OF f] by (simp del: kept_call)
qed

lemma kept_padr [simp]: "kept P (padr_reset P)" "kept P (padr_parse pkt P)"
  by (simp_all add: padr_reset_def padr_parse_def Let_def)

lemma padr_parts_kept:
  "ids_ok (padr_reset P) = ids_ok P" "ids_ok (padr_parse pkt P) = ids_ok P"
  "owners (padr_reset P) = owners P" "owners (padr_parse pkt P) = owners P"
  "config (padr_reset P) = config P" "config (padr_parse pkt P) = config P"
  using ids_ok_kept [OF kept_padr(1)] ids_ok_kept [OF kept_padr(2)]
    kept_padr(1) [of P, unfolded kept_def] kept_padr(2) [of P pkt, unfolded kept_def] by simp_all

lemma processPADR_cases:
  defines "R pkt P \<equiv> padr_parse pkt (padr_reset P)"
  shows "kept P (processPADR E pkt P) \<or>
    fst (CreateSession E (R pkt P)) = None \<and>
      processPADR E pkt P = pppoe_fail NullDereference (snd (CreateSession E (R pkt P))) \<or>
    (\<exists>sid. h_dest pkt = m_mac P \<and> \<not> NOT_UNICAST (h_source pkt) \<and> cookie_ok E (h_source pkt) (R pkt P) \<and>
      (t_length (requestedService (m_disc (R pkt P))) = 0 \<or>
         service_ok (m_svcName (R pkt P)) (requestedService (m_disc (R pkt P)))) \<and>
      fst (CreateSession E (R pkt P)) = Some sid \<and>
      processPADR E pkt P = padr_session E (h_source pkt) sid (snd (CreateSession E (R pkt P))))"
proof -
  have m: "m_mac (padr_reset P) = m_mac P" by (simp add: padr_reset_def Let_def)
  have k: "kept P (R pkt P)" unfolding R_def by (rule kept_trans [OF kept_padr])
  obtain r S where c: "CreateSession E (R pkt P) = (r, S)" by (cases "CreateSession E (R pkt P)")
  show ?thesis unfolding processPADR_def Let_def m R_def [symmetric]
    using k kept_trans [OF k kept_error_PADS] by (cases r) (auto simp: c)
qed

lemma processPADR_ids:
  assumes "ids_ok P"
  shows "ids_ok (processPADR E pkt P)"
proof -
  define R where "R = padr_parse pkt (padr_reset P)"
  have "kept P R" unfolding R_def by (rule kept_trans [OF kept_padr])
  then have r: "ids_ok R" using assms by (simp add: ids_ok_kept)
  consider "kept P (processPADR E pkt P)"
    | "fst (CreateSession E R) = None" "processPADR E pkt P = pppoe_fail NullDereference (snd (CreateSession E R))"
    | sid where "fst (CreateSession E R) = Some sid"
        "processPADR E pkt P = padr_session E (h_source pkt) sid (snd (CreateSession E R))"
    using processPADR_cases [of P E pkt] by (auto simp: R_def)
  then show ?thesis
  proof cases
    case 1
    then show ?thesis using assms by (simp add: ids_ok_kept)
  next
    case 2
    then have "m_SessionId (m_psessionid R) = []"
      using CreateSession_some [OF r] by (cases "m_SessionId (m_psessionid R)") (simp_all del: fun_upd_apply)
    then show ?thesis using 2 r ids_ok_kept [OF kept_call(2)] by (simp add: CreateSession_none)
  next
    case (3 sid)
    obtain i rest where f: "m_SessionId (m_psessionid R) = i # rest"
      using 3(1) CreateSession_none [of R E] by (cases "m_SessionId (m_psessionid R)") auto
    have s: "i = sid" using 3(1) CreateSession_some [OF r f, of E] by simp
    have "ids_ok (snd (CreateSession E R))" using create_ids [OF r f] by (simp add: CreateSession_some [OF r f])
    then have "ids_ok (upd_session sid (\<lambda>s. s\<lparr>m_clientEth := h_source pkt\<rparr>) (snd (CreateSession E R)))"
      by (auto simp: ids_ok_def upd_session_def)
    then show ?thesis using ids_ok_kept [OF kept_padr_session] 3(2) by simp
  qed
qed

lemma pppoe_do_ids:
  assumes "ids_ok P"
  shows "ids_ok (pppoe_do E ev P)"
proof -
  have k: "kept P Q \<Longrightarrow> ids_ok Q" for Q using assms by (simp add: ids_ok_kept)
  have d: "ids_ok (discovery_ProcessPacket E pkt P)" for pkt
    using assms processPADR_ids [OF assms] RemoveSession_ids [OF assms] k [OF kept_processPADI] k [OF kept_sendPADT]
    by (simp add: discovery_ProcessPacket_def processPADT_def split: option.split)
  show ?thesis
    using assms d k [OF kept_session_ops(1)] k [OF kept_session_ops(2)] k [OF kept_session_ops(3)] k [OF kept_session_run]
      RemoveSession_ids [OF assms]
    by (simp add: pppoe_do_def session_handle_timeout_def SetACName_def SetSvcName_def pppoe_SetAuthType_def
        pppoe_SetHostName_def split: pppoe_event.split option.split) (simp add: ids_ok_def)
qed

end
