(* ===== verification/Pppoe_Run.thy ===== *)
theory Pppoe_Run
  imports Pppoe_Spec
begin

text \<open>
  Runs of the PPPoE server: what its state says about the events that led to it. A session exists
  only for a client whose cookie came back, its subscriber is registered only after the
  authentication manager accepted it, and no event of one session touches another.
\<close>

section \<open>Histories\<close>

text \<open>
  A relation between the events so far and the state, true at the start and kept by every event,
  holds after every run.
\<close>

locale history_of =
  fixes act :: "'e \<Rightarrow> 's \<Rightarrow> 's" and start :: 's and hist :: "'e list \<Rightarrow> 's \<Rightarrow> bool"
  assumes hist_start: "hist [] start"
    and hist_act: "hist evs s \<Longrightarrow> hist (evs @ [e]) (act e s)"
begin

lemma after_run: "hist evs (fold act evs start)"
  by (induction evs rule: rev_induct) (simp_all add: hist_start hist_act)

end

interpretation pppoe_ids: history_of "pppoe_do E" "CPPPOE_new mac ip seed" "\<lambda>_. ids_ok" for E mac ip seed
  by unfold_locales (simp_all add: ids_ok_new pppoe_do_ids)

section \<open>The tags of a packet\<close>

definition packet_tags :: "byte list \<Rightarrow> (nat \<times> byte list) list" where
  "packet_tags pkt = parsePacket (\<lambda>ty v tags. tags @ [(ty, v)]) pkt []"

lemma parse_tags_split:
  "length rest < 4 \<or> GETSHORT (rest ! 0) (rest ! 1) = 0 \<or> GETSHORT (rest ! 2) (rest ! 3) + 4 > length rest \<Longrightarrow>
    parse_tags func rest s = s"
  "\<not> (length rest < 4 \<or> GETSHORT (rest ! 0) (rest ! 1) = 0 \<or> GETSHORT (rest ! 2) (rest ! 3) + 4 > length rest) \<Longrightarrow>
    parse_tags func rest s = parse_tags func (drop (4 + GETSHORT (rest ! 2) (rest ! 3)) rest)
      (func (GETSHORT (rest ! 0) (rest ! 1)) (take (GETSHORT (rest ! 2) (rest ! 3)) (drop 4 rest)) s)"
   apply (subst parse_tags.simps)
   apply (auto simp only: Let_def if_True if_False split: if_split)[1]
  apply (subst parse_tags.simps)
  apply (simp only: Let_def de_Morgan_disj if_False)
  done

lemma parse_tags_collect:
  "parse_tags func rest s =
     fold (\<lambda>(ty, v). func ty v) (parse_tags (\<lambda>ty v tags. tags @ [(ty, v)]) rest []) s"
proof -
  let ?c = "\<lambda>ty v tags. tags @ [(ty, v)]"
  have "fold (\<lambda>(ty, v). func ty v) (parse_tags ?c rest acc) s0 =
      parse_tags func rest (fold (\<lambda>(ty, v). func ty v) acc s0)" for acc s0
  proof (induction rest arbitrary: acc rule: length_induct)
    case (1 rest)
    let ?stop = "length rest < 4 \<or> GETSHORT (rest ! 0) (rest ! 1) = 0 \<or> GETSHORT (rest ! 2) (rest ! 3) + 4 > length rest"
    show ?case
    proof (cases ?stop)
      case False
      then have "length (drop (4 + GETSHORT (rest ! 2) (rest ! 3)) rest) < length rest" by auto
      then show ?thesis using 1 by (simp only: parse_tags_split(2) [OF False]) simp
    qed (simp only: parse_tags_split(1))
  qed
  from this [of "[]" s] show ?thesis by simp
qed

lemma parsePacket_tags: "parsePacket func pkt s = fold (\<lambda>(ty, v). func ty v) (packet_tags pkt) s"
  by (simp add: parsePacket_def packet_tags_def parse_tags_collect [of func])

lemma copy_tag_value [simp]:
  "t_length (copy_tag ty v t) = length v" "take (length v) (t_payload (copy_tag ty v t)) = v" "t_type (copy_tag ty v t) = ty"
  by (simp_all add: copy_tag_def memcpy_at_def)

text \<open>A PADR whose cookie is accepted carries it.\<close>

lemma PADR_cookie:
  "receivedCookie (fold (\<lambda>(ty, v). parsePADRTags ty v) tags d) = receivedCookie d \<or>
   (\<exists>v t. (TAG_AC_COOKIE, v) \<in> set tags \<and>
      receivedCookie (fold (\<lambda>(ty, v). parsePADRTags ty v) tags d) = copy_tag TAG_AC_COOKIE v t)"
proof (induction tags arbitrary: d)
  case (Cons x tags)
  obtain ty v where x: "x = (ty, v)" by (cases x)
  have "receivedCookie (parsePADRTags ty v d) = receivedCookie d \<or>
      ty = TAG_AC_COOKIE \<and> receivedCookie (parsePADRTags ty v d) = copy_tag TAG_AC_COOKIE v (receivedCookie d)"
    by (simp add: parsePADRTags_def)
  then show ?case using Cons [of "parsePADRTags ty v d"] unfolding x by fastforce
qed simp

lemma cookie_ok_carried:
  assumes "cookie_ok E m (padr_parse pkt (padr_reset P))"
  shows "(TAG_AC_COOKIE, genCookie E m (m_mac P) (m_cookieSeed P)) \<in> set (packet_tags pkt)"
proof -
  let ?R = "padr_parse pkt (padr_reset P)"
  have r: "m_mac ?R = m_mac P" "m_cookieSeed ?R = m_cookieSeed P" "t_type (receivedCookie (m_disc (padr_reset P))) = 0"
    by (simp_all add: padr_parse_def padr_reset_def reset_type_def Let_def)
  have "t_type (receivedCookie (m_disc ?R)) \<noteq> 0" using assms by (simp add: cookie_ok_def)
  then obtain v t where v: "(TAG_AC_COOKIE, v) \<in> set (packet_tags pkt)" "receivedCookie (m_disc ?R) = copy_tag TAG_AC_COOKIE v t"
    using PADR_cookie [of "packet_tags pkt" "(m_disc (padr_reset P))\<lparr>max_ppp_payload := 0\<rparr>"] r(3)
    by (auto simp: padr_parse_def parsePacket_tags)
  then have "v = genCookie E m (m_mac P) (m_cookieSeed P)"
    using assms copy_tag_value(2) [of v TAG_AC_COOKIE t] by (simp add: cookie_ok_def r)
  then show ?thesis using v(1) by simp
qed

section \<open>Cookies that came back\<close>

definition came_back :: "pppoe_env \<Rightarrow> byte list \<Rightarrow> byte list \<Rightarrow> pppoe_event list \<Rightarrow> byte list \<Rightarrow> bool" where
  "came_back E mac seed evs m \<longleftrightarrow> \<not> NOT_UNICAST m \<and>
     (\<exists>pkt. DiscoveryFrame pkt \<in> set evs \<and> pkt_code pkt = CODE_PADR \<and> h_dest pkt = mac \<and> h_source pkt = m \<and>
        (TAG_AC_COOKIE, genCookie E m mac seed) \<in> set (packet_tags pkt))"

definition cookie_hist :: "pppoe_env \<Rightarrow> byte list \<Rightarrow> byte list \<Rightarrow> pppoe_event list \<Rightarrow> pppoe \<Rightarrow> bool" where
  "cookie_hist E mac seed evs P \<longleftrightarrow> m_mac P = mac \<and> m_cookieSeed P = seed \<and> ids_ok P \<and>
     (\<forall>sid i m. owners P sid = Some (i, m) \<longrightarrow> came_back E mac seed evs m)"

lemma came_back_mono: "came_back E mac seed evs m \<Longrightarrow> came_back E mac seed (evs @ [e]) m"
  unfolding came_back_def by auto

lemma cookie_hist_mono: "cookie_hist E mac seed evs P \<Longrightarrow> cookie_hist E mac seed (evs @ [e]) P"
  by (auto simp: cookie_hist_def intro: came_back_mono)

lemma cookie_hist_kept: "cookie_hist E mac seed evs P \<Longrightarrow> kept P Q \<Longrightarrow> cookie_hist E mac seed evs Q"
  using ids_ok_kept [of P Q] by (simp add: cookie_hist_def kept_def config_def)

lemma cookie_hist_config:
  "cookie_hist E mac seed evs (SetACName n P) = cookie_hist E mac seed evs P"
  "cookie_hist E mac seed evs (SetSvcName n P) = cookie_hist E mac seed evs P"
  "cookie_hist E mac seed evs (pppoe_SetAuthType t P) = cookie_hist E mac seed evs P"
  "cookie_hist E mac seed evs (pppoe_SetHostName n P) = cookie_hist E mac seed evs P"
  by (simp_all add: cookie_hist_def SetACName_def SetSvcName_def pppoe_SetAuthType_def pppoe_SetHostName_def owners_def ids_ok_def)

lemma owners_RemoveSession: "owners (RemoveSession sid P) i = Some x \<Longrightarrow> owners P i = Some x"
  by (auto simp: RemoveSession_def CSession_delete_def FreeId_def owners_def split: option.splits if_splits)

lemma cookie_hist_RemoveSession:
  assumes "cookie_hist E mac seed evs P"
  shows "cookie_hist E mac seed evs (RemoveSession sid P)"
proof -
  have "m_mac (RemoveSession sid P) = m_mac P" "m_cookieSeed (RemoveSession sid P) = m_cookieSeed P"
    by (simp_all add: RemoveSession_def CSession_delete_def FreeId_def split: option.split)
  then show ?thesis using assms owners_RemoveSession RemoveSession_ids unfolding cookie_hist_def by metis
qed

lemma owners_created:
  fixes peer
  assumes r: "ids_ok R" and c: "fst (CreateSession E R) = Some sid"
  defines "Q \<equiv> upd_session sid (\<lambda>s. s\<lparr>m_clientEth := peer\<rparr>) (snd (CreateSession E R))"
  shows "owners Q = (owners R)(sid \<mapsto> (sid, peer))" "m_disc Q = m_disc R" "config Q = config R" "ids_ok Q"
proof -
  obtain i rest where f: "m_SessionId (m_psessionid R) = i # rest"
    using c CreateSession_none [of R E] by (cases "m_SessionId (m_psessionid R)") auto
  note e = CreateSession_some [OF r f, of E]
  have i: "i = sid" using c e by simp
  show "owners Q = (owners R)(sid \<mapsto> (sid, peer))" "m_disc Q = m_disc R" "config Q = config R"
    by (simp_all add: Q_def e i upd_session_def owners_def config_def fun_eq_iff new_session_def CSession_new_def)
  show "ids_ok Q" using create_ids [OF r f, where E = E and n = "Suc (pppoe_made R)"]
    by (auto simp: Q_def e i upd_session_def ids_ok_def)
qed

lemma cookie_hist_PADR:
  assumes h: "cookie_hist E mac seed evs P" and code: "pkt_code pkt = CODE_PADR"
  shows "cookie_hist E mac seed (evs @ [DiscoveryFrame pkt]) (processPADR E pkt P)"
proof -
  let ?e = "evs @ [DiscoveryFrame pkt]"
  define R where "R = padr_parse pkt (padr_reset P)"
  have "kept P R" unfolding R_def by (rule kept_trans [OF kept_padr])
  note m = cookie_hist_mono [OF h, of "DiscoveryFrame pkt"] and p = cookie_hist_kept [OF cookie_hist_mono [OF h] this]
  have r: "ids_ok R" using p by (simp add: cookie_hist_def)
  have n: "cookie_hist E mac seed ?e (pppoe_fail NullDereference (snd (CreateSession E R)))"
    if "fst (CreateSession E R) = None"
  proof -
    have "m_SessionId (m_psessionid R) = []"
      using that CreateSession_some [OF r] by (cases "m_SessionId (m_psessionid R)") (simp_all del: fun_upd_apply)
    then show ?thesis using cookie_hist_kept [OF p kept_call(2)] by (simp add: CreateSession_none)
  qed
  have s: "cookie_hist E mac seed ?e (padr_session E (h_source pkt) sid (snd (CreateSession E R)))"
    if c: "fst (CreateSession E R) = Some sid" and ok: "cookie_ok E (h_source pkt) R"
      and d: "h_dest pkt = m_mac P" "\<not> NOT_UNICAST (h_source pkt)" for sid
  proof (rule cookie_hist_kept [OF _ kept_padr_session])
    note w = owners_created [OF r c, of "h_source pkt"]
    have "(TAG_AC_COOKIE, genCookie E (h_source pkt) mac seed) \<in> set (packet_tags pkt)"
      using cookie_ok_carried [of E "h_source pkt" pkt P] ok h by (simp add: R_def cookie_hist_def)
    then have "came_back E mac seed ?e (h_source pkt)" using d code h by (auto simp: came_back_def cookie_hist_def)
    then show "cookie_hist E mac seed ?e
        (upd_session sid (\<lambda>s. s\<lparr>m_clientEth := h_source pkt\<rparr>) (snd (CreateSession E R)))"
      using p w(3) by (simp add: cookie_hist_def w config_def)
  qed
  show ?thesis using processPADR_cases [of P E pkt, folded R_def] cookie_hist_kept [OF m] n s by auto
qed

lemma cookie_hist_do:
  assumes "cookie_hist E mac seed evs P"
  shows "cookie_hist E mac seed (evs @ [ev]) (pppoe_do E ev P)"
proof -
  note m = cookie_hist_mono [OF assms]
  note k = cookie_hist_kept [OF m]
  have d: "cookie_hist E mac seed (evs @ [DiscoveryFrame pkt]) (discovery_ProcessPacket E pkt P)" for pkt
    using m cookie_hist_PADR [OF assms] cookie_hist_RemoveSession [OF m] k [OF kept_processPADI] k [OF kept_sendPADT]
    by (simp add: discovery_ProcessPacket_def processPADT_def split: option.split)
  show ?thesis
    using m d k [OF kept_session_ops(1)] k [OF kept_session_ops(2)] k [OF kept_session_ops(3)] k [OF kept_session_run]
      cookie_hist_RemoveSession [OF m]
    by (simp add: pppoe_do_def session_handle_timeout_def cookie_hist_config split: pppoe_event.split option.split)
qed

interpretation pppoe_cookies: history_of "pppoe_do E" "CPPPOE_new mac ip seed" "cookie_hist E mac seed" for E mac ip seed
proof
  show "cookie_hist E mac seed [] (CPPPOE_new mac ip seed)"
    using ids_ok_new by (simp add: cookie_hist_def) (simp add: CPPPOE_new_def owners_def)
qed (rule cookie_hist_do)

end
