(* ===== verification/Pppoe_Service.thy ===== *)
theory Pppoe_Service
  imports Pppoe_Run
begin

text \<open>
  Sessions are separate, and service is given only to accepted subscribers: the promise of the PPP
  session (\<open>Ppp_Session_Spec\<close>) carried over to the server that owns many of them.
\<close>

section \<open>One session at a time\<close>

text \<open>\<open>only sid P Q\<close>: nothing changed but session \<open>sid\<close>, and not its PPP session.\<close>

definition only :: "nat \<Rightarrow> pppoe \<Rightarrow> pppoe \<Rightarrow> bool" where
  "only sid P Q \<longleftrightarrow> (\<forall>j. j \<noteq> sid \<longrightarrow> m_sessionMgr Q j = m_sessionMgr P j) \<and>
     map_option m_ppp (m_sessionMgr Q sid) = map_option m_ppp (m_sessionMgr P sid)"

definition registered :: "pppoe \<Rightarrow> pppoe_user set" where
  "registered P = {u. AddUserRequest u \<in> set (pppoe_out P)}"

lemma only_refl [simp]: "only sid P P"
  by (simp add: only_def)

lemma only_trans: "only sid P Q \<Longrightarrow> only sid Q R \<Longrightarrow> only sid P R"
  by (simp add: only_def)

lemma only_table [simp]: "m_sessionMgr Q = m_sessionMgr P \<Longrightarrow> only sid P Q"
  by (simp add: only_def)

lemma only_sendPADT: "only sid P (sendPADT E sid msg P)" "registered (sendPADT E sid msg P) = registered P"
  by (simp_all add: sendPADT_def only_def registered_def upd_session_def FindSession_def SetDeleteFlag_def StartOneOffTimer_def
      split: option.split)

lemma only_session_call:
  assumes "ids_ok P"
  shows "only sid P (session_call E sid c P)"
    "registered (session_call E sid c P) \<subseteq> registered P \<union> {u. su_session u = sid \<and> serves c}"
proof -
  have i: "m_sessionid s = sid" if "m_sessionMgr P sid = Some s" for s using assms that by (simp add: ids_ok_def)
  show "only sid P (session_call E sid c P)"
    by (simp add: session_call_def FindSession_def i pppoe_OnLCPDown_def session_OnPPPOutput_def session_OnAuthRequest_def
        OnPPPOEAuthRequest_def session_OnAddSubscriber_def session_OnDelSubscriber_def only_sendPADT
        split: option.split sink_call.split)
  show "registered (session_call E sid c P) \<subseteq> registered P \<union> {u. su_session u = sid \<and> serves c}"
  proof (cases "m_sessionMgr P sid")
    case (Some s)
    then show ?thesis using i [OF Some] only_sendPADT(2)
      by (cases c) (auto simp: session_call_def FindSession_def pppoe_OnLCPDown_def session_OnPPPOutput_def
          session_OnAuthRequest_def OnPPPOEAuthRequest_def session_OnAddSubscriber_def session_OnDelSubscriber_def registered_def
          Session_User_Ex.extend_def pppoe_user.fields_def split: option.split)
  qed (simp add: session_call_def FindSession_def)
qed

lemma only_session_calls:
  assumes "ids_ok P"
  shows "only sid P (fold (session_call E sid) cs P) \<and>
    registered (fold (session_call E sid) cs P) \<subseteq> registered P \<union> {u. su_session u = sid \<and> (\<exists>c \<in> set cs. serves c)}"
  using assms
proof (induction cs arbitrary: P)
  case (Cons c cs)
  have i: "ids_ok (session_call E sid c P)" using Cons.prems ids_ok_kept [OF kept_session_call] by simp
  note s = only_session_call [OF Cons.prems, where sid = sid and E = E and c = c]
  show ?case using only_trans [OF s(1)] s(2) Cons.IH [OF i] by auto
qed simp

lemma session_run_facts:
  assumes "ids_ok P" and "m_sessionMgr P sid = Some s"
  shows "\<And>j. j \<noteq> sid \<Longrightarrow> m_sessionMgr (session_run E sid g P) j = m_sessionMgr P j"
    "map_option m_ppp (m_sessionMgr (session_run E sid g P) sid) = Some (g (m_ppp s))"
    "registered (session_run E sid g P) \<subseteq> registered P \<union>
       {u. su_session u = sid \<and> (\<exists>c \<in> set (drop (length (ppp_calls (m_ppp s))) (ppp_calls (g (m_ppp s)))). serves c)}"
proof -
  define U where "U = upd_session sid (\<lambda>s. s\<lparr>m_ppp := g (m_ppp s)\<rparr>) P"
  define cs where "cs = drop (length (ppp_calls (m_ppp s))) (ppp_calls (g (m_ppp s)))"
  have e: "session_run E sid g P = fold (session_call E sid) cs U"
    using assms(2) by (simp add: session_run_def FindSession_def U_def cs_def)
  have "kept P U" unfolding U_def by (rule kept_upd) simp_all
  then have i: "ids_ok U" using assms(1) by (simp add: ids_ok_kept)
  have u: "m_sessionMgr U sid = Some (s\<lparr>m_ppp := g (m_ppp s)\<rparr>)" "\<And>j. j \<noteq> sid \<Longrightarrow> m_sessionMgr U j = m_sessionMgr P j"
      "registered U = registered P"
    using assms(2) by (simp_all add: U_def upd_session_def registered_def)
  note c = only_session_calls [OF i, where sid = sid and E = E and cs = cs, THEN conjunct1]
    only_session_calls [OF i, where sid = sid and E = E and cs = cs, THEN conjunct2]
  show "\<And>j. j \<noteq> sid \<Longrightarrow> m_sessionMgr (session_run E sid g P) j = m_sessionMgr P j"
      "map_option m_ppp (m_sessionMgr (session_run E sid g P) sid) = Some (g (m_ppp s))"
    using c(1) u by (simp_all add: e only_def)
  show "registered (session_run E sid g P) \<subseteq> registered P \<union>
       {u. su_session u = sid \<and> (\<exists>c \<in> set (drop (length (ppp_calls (m_ppp s))) (ppp_calls (g (m_ppp s)))). serves c)}"
    using c(2) u(3) by (simp add: e cs_def)
qed

lemma session_run_none: "m_sessionMgr P sid = None \<Longrightarrow> session_run E sid g P = P"
  by (simp add: session_run_def FindSession_def)

section \<open>Accepted subscribers\<close>

definition accepted :: "pppoe_event list \<Rightarrow> nat \<Rightarrow> bool" where
  "accepted evs sid \<longleftrightarrow> (\<exists>r. AuthAnswer r \<in> set evs \<and> resp_session r = sid \<and> authResult r = 0)"

text \<open>
  Every subscriber that was registered has been accepted, and every session whose client has not been
  accepted yet has given no service, those in \<open>X\<close> apart.
\<close>

definition service_hist :: "nat set \<Rightarrow> pppoe_event list \<Rightarrow> pppoe \<Rightarrow> bool" where
  "service_hist X evs P \<longleftrightarrow> ids_ok P \<and> length (m_svcName P) \<le> 199 \<and>
     (\<forall>u \<in> registered P. accepted evs (su_session u)) \<and>
     (pppoe_fault P = None \<longrightarrow> (\<forall>sid s. sid \<notin> X \<longrightarrow> m_sessionMgr P sid = Some s \<longrightarrow>
        accepted evs sid \<or> unserved (m_ppp s) \<and> held (m_ppp s)))"

lemma accepted_mono: "accepted evs sid \<Longrightarrow> accepted (evs @ [e]) sid"
  by (auto simp: accepted_def)

lemma service_hist_mono: "service_hist X evs P \<Longrightarrow> service_hist X (evs @ [e]) P"
  unfolding service_hist_def using accepted_mono by blast

lemma session_run_service:
  assumes h: "service_hist X evs P" and x: "X \<subseteq> {sid}" and f: "pppoe_fault P = None"
    and g: "\<And>s. m_sessionMgr P sid = Some s \<Longrightarrow> accepted evs sid \<or> unserved (g (m_ppp s)) \<and> held (g (m_ppp s))"
  shows "service_hist {} evs (session_run E sid g P)"
proof (cases "m_sessionMgr P sid")
  case None
  then have "m_sessionMgr P j = Some s \<Longrightarrow> j \<notin> X" for j s using x by auto
  then show ?thesis using h None by (simp add: session_run_none service_hist_def)
next
  case (Some s)
  have i: "ids_ok P" using h by (simp add: service_hist_def)
  note r = session_run_facts [OF i Some, where E = E and g = g]
  let ?Q = "session_run E sid g P"
  have k: "ids_ok ?Q" "m_svcName ?Q = m_svcName P"
    using i ids_ok_kept [OF kept_session_run] kept_session_run [of P E sid g] by (simp_all add: kept_def config_def)
  have n: "list_all (\<lambda>c. \<not> serves c) (drop n (ppp_calls s'))" if "unserved s'" for n s'
    using that by (auto simp: unserved_def list_all_iff dest: in_set_dropD)
  have "registered ?Q \<subseteq> registered P \<union> {u. su_session u = sid \<and> accepted evs sid}"
    using r(3) g [OF Some] n by (fastforce simp: list_all_iff)
  moreover have "accepted evs j \<or> unserved (m_ppp t) \<and> held (m_ppp t)" if "m_sessionMgr ?Q j = Some t" for j t
  proof (cases "j = sid")
    case True
    then show ?thesis using that r(2) g [OF Some] by auto
  next
    case False
    then show ?thesis using that r(1) h f x by (auto simp: service_hist_def)
  qed
  ultimately show ?thesis using h k by (auto simp: service_hist_def)
qed

lemma service_hist_out:
  assumes "m_sessionMgr Q = m_sessionMgr P" "m_psessionid Q = m_psessionid P" "m_svcName Q = m_svcName P"
    "registered Q = registered P" "pppoe_fault Q = pppoe_fault P \<or> pppoe_fault Q \<noteq> None"
  shows "service_hist X evs P \<Longrightarrow> service_hist X evs Q"
  using assms by (auto simp: service_hist_def ids_ok_def)

lemma service_hist_subset: "service_hist {} evs P \<Longrightarrow> service_hist X evs P"
  by (simp add: service_hist_def)

lemma service_hist_upd:
  assumes "service_hist X evs P" and "\<And>s. m_ppp (f s) = m_ppp s" "\<And>s. m_sessionid (f s) = m_sessionid s"
  shows "service_hist X evs (upd_session sid f P)"
proof -
  have "registered (upd_session sid f P) = registered P" by (simp add: registered_def upd_session_def)
  then show ?thesis using assms by (auto simp: service_hist_def ids_ok_def upd_session_def dom_def)
qed

lemma service_hist_RemoveSession:
  assumes "service_hist {} evs P"
  shows "service_hist {} evs (RemoveSession sid P)"
proof -
  have "m_sessionMgr (RemoveSession sid P) j = Some s \<Longrightarrow> m_sessionMgr P j = Some s" for j s
    by (auto simp: RemoveSession_def CSession_delete_def FreeId_def split: option.splits if_splits)
  moreover have "registered (RemoveSession sid P) = registered P" "m_svcName (RemoveSession sid P) = m_svcName P"
      "pppoe_fault (RemoveSession sid P) = pppoe_fault P"
    by (simp_all add: RemoveSession_def CSession_delete_def FreeId_def registered_def split: option.split)
  ultimately show ?thesis using assms RemoveSession_ids unfolding service_hist_def by metis
qed

lemma service_hist_sendPADT:
  assumes "service_hist {} evs P"
  shows "service_hist {} evs (sendPADT E sid msg P)"
proof -
  have "service_hist {} evs (upd_session sid (StartOneOffTimer \<circ> SetDeleteFlag) (pppoe_call (SentDiscovery p) P))" for p
    by (intro service_hist_upd service_hist_out [OF _ _ _ _ _ assms])
      (simp_all add: registered_def StartOneOffTimer_def SetDeleteFlag_def)
  moreover have "service_hist {} evs (pppoe_fail BufferOverrun P)"
    by (intro service_hist_out [OF _ _ _ _ _ assms]) (simp_all add: registered_def)
  ultimately show ?thesis using assms by (simp add: sendPADT_def split: option.split)
qed

section \<open>A new session\<close>

lemma ppp_Init_calls: "ppp_calls (ppp_Init s) = ppp_calls s"
  by (simp add: ppp_Init_def Let_def)

lemma session_Init_service:
  assumes h: "service_hist {sid} evs P" and f: "pppoe_fault P = None"
    and s: "m_sessionMgr P sid = Some s" "ppp_Init (m_ppp s) = ppp_new t host r1 r2"
  shows "service_hist {} evs (session_Init E sid P)"
proof -
  let ?Q = "session_run E sid ppp_Init P"
  have q: "service_hist {} evs ?Q"
    using session_run_service [OF h _ f, of sid ppp_Init E] s ppp_new_unserved by simp
  have "?Q = upd_session sid (\<lambda>s. s\<lparr>m_ppp := ppp_Init (m_ppp s)\<rparr>) P"
    using s(1) by (simp add: session_run_def FindSession_def ppp_Init_calls)
  then have fq: "pppoe_fault ?Q = None" and sq: "m_sessionMgr ?Q sid = Some (s\<lparr>m_ppp := ppp_new t host r1 r2\<rparr>)"
    using f s by (simp_all add: upd_session_def)
  have "unserved (ppp_StartFms (ppp_new t host r1 r2)) \<and> held (ppp_StartFms (ppp_new t host r1 r2))"
    using ppp_do_unserved [of "ppp_new t host r1 r2" PppStart] ppp_new_unserved by (simp add: ppp_do_def)
  then show ?thesis unfolding session_Init_def
    using session_run_service [OF q _ fq, of sid ppp_StartFms E] sq by simp
qed

lemma length_tag_bytes: "length (tag_bytes t) \<le> 4 + t_length t"
  by (simp add: tag_bytes_def)

lemma default_service_length:
  assumes "t_length (requestedService (m_disc P)) = 0 \<or> service_ok (m_svcName P) (requestedService (m_disc P))"
  shows "t_length (requestedService (m_disc (default_service P))) \<le> length (m_svcName P)"
  using assms by (auto simp: default_service_def service_ok_def Let_def)

lemma default_service_fields [simp]:
  "m_sessionMgr (default_service P) = m_sessionMgr P" "m_psessionid (default_service P) = m_psessionid P"
  "m_svcName (default_service P) = m_svcName P" "pppoe_out (default_service P) = pppoe_out P"
  "pppoe_fault (default_service P) = pppoe_fault P"
  by (simp_all add: default_service_def Let_def)

lemma shrink_static_fields [simp]:
  "m_sessionMgr (shrink_static P) = m_sessionMgr P" "m_psessionid (shrink_static P) = m_psessionid P"
  "m_svcName (shrink_static P) = m_svcName P" "pppoe_out (shrink_static P) = pppoe_out P"
  "pppoe_fault (shrink_static P) = pppoe_fault P"
  by (simp_all add: shrink_static_def Let_def)

lemma padr_session_service:
  assumes h: "service_hist {sid} evs P" and f: "pppoe_fault P = None"
    and s: "m_sessionMgr P sid = Some s" "ppp_Init (m_ppp s) = ppp_new t host r1 r2"
    and svc: "t_length (requestedService (m_disc P)) = 0 \<or> service_ok (m_svcName P) (requestedService (m_disc P))"
  shows "service_hist {} evs (padr_session E peer sid P)"
proof -
  define A where "A = upd_session sid (\<lambda>s. s\<lparr>m_clientEth := peer\<rparr>) P"
  define B where "B = default_service A"
  define C where "C = shrink_static B"
  define D where "D m = upd_session sid (\<lambda>s. s\<lparr>m_requestedMtu := m\<rparr>) C" for m
  have a: "service_hist {sid} evs A" unfolding A_def by (rule service_hist_upd [OF h]) simp_all
  have c: "service_hist {sid} evs C"
    by (rule service_hist_out [OF _ _ _ _ _ a]) (simp_all add: C_def B_def registered_def)
  have d: "service_hist {sid} evs (D m)" for m unfolding D_def by (rule service_hist_upd [OF c]) simp_all
  have fc: "pppoe_fault C = None" "pppoe_fault (D m) = None" for m
    using f by (simp_all add: C_def B_def A_def D_def upd_session_def)
  have sc: "\<exists>s. m_sessionMgr Q sid = Some s \<and> ppp_Init (m_ppp s) = ppp_new t host r1 r2" if "Q = C \<or> Q = D m" for Q m
    using that s by (auto simp: C_def B_def A_def D_def upd_session_def)
  have len: "length (tag_bytes (requestedService (m_disc B))) \<le> 203"
  proof -
    have "t_length (requestedService (m_disc B)) \<le> length (m_svcName P)"
      using default_service_length [of A] svc by (simp add: B_def A_def upd_session_def)
    then show ?thesis using length_tag_bytes [of "requestedService (m_disc B)"] h by (simp add: service_hist_def)
  qed
  have i: "service_hist {} evs (session_Init E sid (pppoe_call (SentDiscovery p) Q))" if "Q = C \<or> Q = D m" for Q m p
  proof -
    have q: "service_hist {sid} evs Q" "pppoe_fault Q = None" using that c d fc by auto
    from sc [OF that] obtain s' where "m_sessionMgr Q sid = Some s'" "ppp_Init (m_ppp s') = ppp_new t host r1 r2" by blast
    then show ?thesis
      using q by (intro session_Init_service service_hist_out [OF _ _ _ _ _ q(1)]) (simp_all add: registered_def)
  qed
  have o: "service_hist {} evs (pppoe_fail BufferOverrun Q)" if "Q = C \<or> Q = D m" for Q m
  proof -
    have "service_hist {sid} evs Q" using that c d by auto
    then have "service_hist {sid} evs (pppoe_fail BufferOverrun Q)"
      by (rule service_hist_out [rotated -1]) (simp_all add: registered_def)
    then show ?thesis by (simp add: service_hist_def)
  qed
  show ?thesis unfolding padr_session_def Let_def A_def [symmetric] B_def [symmetric] C_def [symmetric] D_def [symmetric]
    using len i [OF disjI1 [OF refl]] i [OF disjI2 [OF refl]] o [OF disjI1 [OF refl]] o [OF disjI2 [OF refl]] by simp
qed

text \<open>The PPP session of a new session is, once initialised, the one \<open>Ppp_Session_Spec\<close> starts from.\<close>

lemma new_session_ppp:
  "ppp_Init (m_ppp (new_session E sid P)) =
     ppp_new (pppoe_authType P) (pppoe_hostName P) (lcp_random E (pppoe_made P)) (chap_random E (pppoe_made P))"
  by (simp add: new_session_def CSession_new_def ppp_new_def)

lemma service_hist_PADR:
  assumes h: "service_hist {} evs P" and f: "pppoe_fault P = None"
  shows "service_hist {} evs (processPADR E pkt P)"
proof -
  define R where "R = padr_parse pkt (padr_reset P)"
  have rest: "service_hist {} evs Q" if "m_sessionMgr Q = m_sessionMgr P" "m_psessionid Q = m_psessionid P"
      "m_svcName Q = m_svcName P" "registered Q = registered P" "pppoe_fault Q = pppoe_fault P \<or> pppoe_fault Q \<noteq> None" for Q
    by (rule service_hist_out [OF that h])
  have R: "m_sessionMgr R = m_sessionMgr P" "m_psessionid R = m_psessionid P" "m_svcName R = m_svcName P"
      "registered R = registered P" "pppoe_fault R = None"
    using f by (simp_all add: R_def padr_parse_def padr_reset_def registered_def Let_def)
  have r: "service_hist {} evs R" by (rule rest) (use R f in simp_all)
  then have i: "ids_ok R" by (simp add: service_hist_def)
  have e: "service_hist {} evs (sendErrorPADS d ty msg R)" for d ty msg
    by (rule rest) (use R f in \<open>simp_all add: sendErrorPADS_def registered_def Let_def\<close>)
  have reset: "service_hist {} evs (padr_reset P)"
    by (rule rest) (simp_all add: padr_reset_def registered_def Let_def)
  have new: "service_hist {} evs (case CreateSession E R of (None, S) \<Rightarrow> pppoe_fail NullDereference S
      | (Some sid, S) \<Rightarrow> padr_session E (h_source pkt) sid S)"
    if svc: "t_length (requestedService (m_disc R)) = 0 \<or> service_ok (m_svcName R) (requestedService (m_disc R))"
  proof (cases "m_SessionId (m_psessionid R)")
    case Nil
    then show ?thesis using rest [of "pppoe_fail NullDereference R"] R by (simp add: CreateSession_none registered_def)
  next
    case (Cons sid ids)
    note c = CreateSession_some [OF i Cons, of E]
    let ?S = "snd (CreateSession E R)"
    have s: "m_sessionMgr ?S = (m_sessionMgr R)(sid \<mapsto> new_session E sid R)" "m_svcName ?S = m_svcName R"
        "registered ?S = registered R" "pppoe_fault ?S = None" "m_disc ?S = m_disc R"
      using R(5) by (simp_all add: c registered_def)
    have "service_hist {sid} evs ?S"
      using r create_ids [OF i Cons, where E = E and n = "Suc (pppoe_made R)"] s R(5)
      by (simp add: service_hist_def) (simp add: c)
    then have "service_hist {} evs (padr_session E (h_source pkt) sid ?S)"
      using padr_session_service [OF _ s(4), of sid evs "new_session E sid R", OF _ _ new_session_ppp] s svc by simp
    then show ?thesis by (simp add: c del: fun_upd_apply)
  qed
  show ?thesis unfolding processPADR_def Let_def R_def [symmetric] using reset r e new by (auto split: option.split)
qed

section \<open>Every event\<close>

lemma service_hist_PADI:
  assumes "service_hist {} evs P"
  shows "service_hist {} evs (processPADI E pkt P)"
  by (rule service_hist_out [OF _ _ _ _ _ assms])
    (simp_all add: processPADI_def registered_def Let_def split: option.split)

text \<open>An event of the PPP session that is no acceptance.\<close>

lemma session_event_service:
  assumes h: "service_hist {} evs P" and f: "pppoe_fault P = None" and ev: "\<And>reason. ev \<noteq> PppAuthResponse 0 reason"
  shows "service_hist {} evs (session_run E sid (ppp_do ev) P)"
proof (rule session_run_service [OF h _ f])
  fix s
  assume "m_sessionMgr P sid = Some s"
  then have "accepted evs sid \<or> unserved (m_ppp s) \<and> held (m_ppp s)" using h f by (simp add: service_hist_def)
  then show "accepted evs sid \<or> unserved (ppp_do ev (m_ppp s)) \<and> held (ppp_do ev (m_ppp s))"
    using ppp_do_unserved ev by blast
qed simp

lemma ppp_do_eqs: "ppp_do (PppPacket p) = ppp_Input p" "ppp_do (PppAuthResponse result reason) = ppp_OnAuthResponse result reason"
  by (simp_all add: fun_eq_iff ppp_do_def)

lemma addresses_quiet:
  assumes "m_sessionMgr P sid = Some s"
  shows "session_run E sid (ppp_do (PppAddresses a b c d)) P = upd_session sid (\<lambda>s. s\<lparr>m_ppp := ppp_do (PppAddresses a b c d) (m_ppp s)\<rparr>) P"
  using assms by (simp add: session_run_def FindSession_def ppp_do_def)

lemma service_hist_auth:
  assumes h: "service_hist {} evs P" and f: "pppoe_fault P = None"
  shows "service_hist {} (evs @ [AuthAnswer r]) (HandleAuthResponse E r P)"
proof (cases "m_sessionMgr P (resp_session r)")
  case None
  then show ?thesis using service_hist_mono [OF h] by (simp add: HandleAuthResponse_def FindSession_def)
next
  case (Some s)
  let ?sid = "resp_session r" and ?e = "evs @ [AuthAnswer r]"
  let ?Q = "session_run E ?sid (ppp_do (PppAddresses (m_ip P) (subscriberIP r) (primaryDNS r) (secondaryDNS r))) P"
  let ?reason = "takeWhile (\<lambda>c. c \<noteq> 0) (authResultDesc r)"
  have q: "service_hist {} ?e ?Q" using session_event_service [OF service_hist_mono [OF h] f] by simp
  have fq: "pppoe_fault ?Q = None" using f by (simp add: addresses_quiet [OF Some] upd_session_def)
  have "service_hist {} ?e (session_run E ?sid (ppp_do (PppAuthResponse (sint (authResult r)) ?reason)) ?Q)"
  proof (cases "authResult r = 0")
    case True
    then have "accepted ?e ?sid" by (auto simp: accepted_def)
    then show ?thesis by (intro session_run_service [OF q _ fq]) simp_all
  next
    case False
    then have "sint (authResult r) \<noteq> 0" using signed_word_eqI [of "authResult r" 0] by auto
    then show ?thesis by (intro session_event_service [OF q fq]) simp
  qed
  then show ?thesis using Some by (simp add: HandleAuthResponse_def FindSession_def ppp_do_eqs)
qed

lemma service_hist_session_frame:
  assumes h: "service_hist {} evs P" and f: "pppoe_fault P = None"
  shows "service_hist {} evs (session_ProcessPacket E pkt P)"
proof -
  have "service_hist {} evs (session_run E sid (ppp_Input p) P)" for sid p
    using session_event_service [OF h f, of "PppPacket p" E sid] by (simp add: ppp_do_eqs)
  then show ?thesis using h by (simp add: session_ProcessPacket_def ProcessSessData_def split: option.split)
qed

lemma service_hist_do:
  assumes h: "service_hist {} evs P"
  shows "service_hist {} (evs @ [ev]) (pppoe_do E ev P)"
proof (cases "pppoe_fault P")
  case None
  note m = service_hist_mono [OF h]
  have c: "service_hist {} (evs @ [e]) (SetACName n P)" "service_hist {} (evs @ [e]) (pppoe_SetAuthType t P)"
      "service_hist {} (evs @ [e]) (pppoe_SetHostName n P)" for e n t
    by (rule service_hist_out [OF _ _ _ _ _ m], simp_all add: SetACName_def pppoe_SetAuthType_def pppoe_SetHostName_def registered_def)+
  have "length (name_string n) \<le> 199" for n
    using length_takeWhile_le [of "\<lambda>c. c \<noteq> 0" "take 199 n"] by (simp add: name_string_def del: length_takeWhile_le)
  then have n: "service_hist {} (evs @ [e]) (SetSvcName n P)" for e n
    using m by (simp add: service_hist_def SetSvcName_def registered_def ids_ok_def)
  have t: "service_hist {} (evs @ [e]) (session_run E sid (ppp_do (timer_event t)) P)" for e sid t
    by (rule session_event_service [OF m None]) (cases t; simp)
  have d: "service_hist {} (evs @ [e]) (discovery_ProcessPacket E pkt P)" for e pkt
    using m service_hist_PADR [OF m None] service_hist_RemoveSession [OF m] service_hist_PADI [OF m] service_hist_sendPADT [OF m]
    by (simp add: discovery_ProcessPacket_def processPADT_def split: option.split)
  have k: "service_hist {} (evs @ [e]) (HandleKickUserNotify E k P)" for e k
    using m service_hist_sendPADT [OF m] by (simp add: HandleKickUserNotify_def split: option.split)
  show ?thesis
    using None m c n t d k service_hist_auth [OF h None] service_hist_session_frame [OF m None] service_hist_RemoveSession [OF m]
    by (simp add: pppoe_do_def session_handle_timeout_def split: pppoe_event.split option.split)
qed (use service_hist_mono [OF h] in \<open>simp add: pppoe_do_def\<close>)

interpretation pppoe_service: history_of "pppoe_do E" "CPPPOE_new mac ip seed" "service_hist {}" for E mac ip seed
proof
  have "length (ascii ''JSNJ-BROADBAND-ACCESS'') = 21" by (simp add: ascii_def)
  then show "service_hist {} [] (CPPPOE_new mac ip seed)"
    using ids_ok_new by (simp add: service_hist_def) (simp add: CPPPOE_new_def registered_def)
qed (rule service_hist_do)

end
