(* ===== verification/Ppp_Session_Calls.thy ===== *)
theory Ppp_Session_Calls
  imports Ppp_Session_Spec
begin

text \<open>
  What the owner of a PPP session may rely on about the calls it gets: they are only ever added to,
  and the reasons given with \<^verbatim>\<open>OnLCPDown\<close> are short texts, so that the PADT built from one fits.
\<close>

fun short_call :: "sink_call \<Rightarrow> bool" where
  "short_call (SinkLCPDown reason) \<longleftrightarrow> length reason \<le> 20"
| "short_call _ \<longleftrightarrow> True"

definition grows :: "cppp \<Rightarrow> cppp \<Rightarrow> bool" where
  "grows s t \<longleftrightarrow> (\<exists>cs. ppp_calls t = ppp_calls s @ cs \<and> list_all short_call cs)"

lemma grows_same [simp]: "ppp_calls t = ppp_calls s \<Longrightarrow> grows s t"
  by (simp add: grows_def)

lemma grows_trans: "grows s t \<Longrightarrow> grows t u \<Longrightarrow> grows s u"
  by (auto simp: grows_def)

lemma grows_call: "short_call c \<Longrightarrow> ppp_calls t = ppp_calls s @ [c] \<Longrightarrow> grows s t"
  by (simp add: grows_def)

lemma grows_sink [simp]: "short_call c \<Longrightarrow> grows s (call_sink c s)"
  by (rule grows_call) simp_all

lemma grows_fold: "(\<And>c s. grows s (f c s)) \<Longrightarrow> grows s (fold f cs s)"
proof (induction cs arbitrary: s)
  case (Cons c cs)
  then show ?case using grows_trans [of s "f c s" "fold f cs (f c s)"] by simp
qed simp

lemma grows_from: "ppp_calls s' = ppp_calls s \<Longrightarrow> grows s' t \<Longrightarrow> grows s t"
  by (simp add: grows_def)

lemma grows_ipcp_call: "grows s (ppp_ipcp_call c s)"
proof (cases c)
  case IpcpDown
  have "ppp_calls (ppp_ipcp_call c s) = ppp_calls s @ [OnDelSubscriber, SinkLCPDown (ascii ''IPCP Down'')]"
    by (simp add: IpcpDown ppp_ipcp_call_def ppp_OnIPCPDown_def)
  then show ?thesis by (simp add: grows_def ascii_def)
qed (simp_all add: ppp_ipcp_call_def ppp_OnIPCPUp_def Let_def)

lemma grows_ipcp_run [simp]: "grows s (ipcp_run g s)"
  unfolding ipcp_run_def by (rule grows_from [OF _ grows_fold [OF grows_ipcp_call]]) simp

lemma grows_OnLCPDown: "grows s (ppp_OnLCPDown s)"
proof -
  let ?u = "ipcp_run (\<lambda>f. the (ipcp_Close (Some (ascii ''LCP down'')) f)) (ipcp_run ipcp_LowerDown s)"
  have "grows s ?u" by (rule grows_trans [OF grows_ipcp_run grows_ipcp_run])
  moreover have "grows ?u (ppp_OnLCPDown s)"
    by (rule grows_call [of "SinkLCPDown (ascii ''LCP Down'')"]) (simp_all add: ppp_OnLCPDown_def NewPhase_def ascii_def Let_def)
  ultimately show ?thesis by (rule grows_trans)
qed

text \<open>The handlers that run operations of LCP, for every way of running them that adds calls only.\<close>

locale growing_runner =
  fixes run :: lcp_runner
  assumes run_grows: "grows s (run g s)"
begin

lemma auth_call_grows: "grows s (ppp_auth_call run c s)"
proof -
  have "grows s (run (close_lcp r) (NewPhase ph s))" for r ph
    by (rule grows_from [OF _ run_grows]) (simp add: NewPhase_def)
  moreover have "grows s (ipcp_run ipcp_Open (NewPhase ph s))" for ph
    by (rule grows_from [OF _ grows_ipcp_run]) (simp add: NewPhase_def)
  ultimately show ?thesis by (simp add: ppp_auth_call_def ppp_OnAuthenResult_def Let_def split: auth_call.split)
qed

lemma auth_run_grows: "grows s (pap_run run g s)" "grows s (chap_run run h s)"
  using grows_from [OF _ grows_fold [OF auth_call_grows], of "s\<lparr>m_pap := x\<rparr>" s for x]
    grows_from [OF _ grows_fold [OF auth_call_grows], of "s\<lparr>m_chap := x\<rparr>" s for x]
  by (simp_all add: pap_run_def chap_run_def case_prod_beta)

lemma OnLCPUp_grows: "grows s (ppp_OnLCPUp run s)"
proof -
  define t where "t = (if ppp_GetAuthType s = PPP_CHAP then chap_run run chap_LowerUp s
    else if ppp_GetAuthType s = PPP_PAP then s\<lparr>m_pap := pap_LowerUp (m_pap s)\<rparr> else s)"
  have t: "grows s t" using auth_run_grows by (simp add: t_def)
  have "grows t (chap_run run g (NewPhase ph t))" for g ph
    by (rule grows_from [OF _ auth_run_grows(2)]) (simp add: NewPhase_def)
  then show ?thesis unfolding ppp_OnLCPUp_def Let_def t_def [symmetric]
    using t run_grows by (auto simp: NewPhase_def intro: grows_trans)
qed

lemma lcp_call_grows: "grows s (ppp_lcp_call run c s)"
proof (cases c)
  case LcpTerminate
  have "grows s (ppp_OnLCPTerminate run s)"
  proof -
    have "grows (run lcp_LowerDown s) (call_sink (SinkLCPDown (ascii ''LCP Terminate'')) (NewPhase PHASE_DEAD (run lcp_LowerDown s)))"
      by (rule grows_call [of "SinkLCPDown (ascii ''LCP Terminate'')"]) (simp_all add: NewPhase_def ascii_def)
    then show ?thesis using grows_trans [OF run_grows] by (simp add: ppp_OnLCPTerminate_def)
  qed
  then show ?thesis by (simp add: LcpTerminate ppp_lcp_call_def)
qed (simp_all add: ppp_lcp_call_def OnLCPUp_grows grows_OnLCPDown)

end

interpretation growing_lcp: growing_runner "lcp_run n" for n
proof (induction n)
  case 0
  show ?case by unfold_locales simp
next
  case (Suc n)
  show ?case
  proof
    show "grows s (lcp_run (Suc n) g s)" for g s
      using grows_from [OF _ grows_fold [OF growing_runner.lcp_call_grows [OF Suc]], of "s\<lparr>m_lcp := g (m_lcp s)\<rparr>" s] by simp
  qed
qed

lemma ppp_Input_grows: "grows s (ppp_Input p s)"
  using growing_lcp.run_grows growing_lcp.auth_run_grows
  by (simp add: ppp_Input_def case_prod_beta Let_def)

lemma ppp_do_grows: "grows s (ppp_do ev s)"
  using growing_lcp.run_grows growing_lcp.auth_run_grows ppp_Input_grows
  by (simp add: ppp_do_def ppp_StartFms_def ppp_OnAuthResponse_def split: ppp_event.split)

end
