(* ===== verification/Pppoe_Fault.thy ===== *)
theory Pppoe_Fault
  imports Pppoe_Service Ppp_Session_Calls
begin

text \<open>
  When the server fails: only on a PADR with a valid cookie, and then only when no session identifier
  is left or the tags it returns fill the packet.
\<close>

section \<open>Handling a session does not fail\<close>

lemma sendPADT_fault: "length msg \<le> 20 \<Longrightarrow> pppoe_fault (sendPADT E sid msg P) = pppoe_fault P"
  by (simp add: sendPADT_def upd_session_def split: option.split)

lemma session_call_fault: "short_call c \<Longrightarrow> pppoe_fault (session_call E sid c P) = pppoe_fault P"
  by (cases c) (simp_all add: session_call_def pppoe_OnLCPDown_def sendPADT_fault session_OnPPPOutput_def session_OnAuthRequest_def
      OnPPPOEAuthRequest_def session_OnAddSubscriber_def session_OnDelSubscriber_def split: option.split)

lemma session_calls_fault: "list_all short_call cs \<Longrightarrow> pppoe_fault (fold (session_call E sid) cs P) = pppoe_fault P"
  by (induction cs arbitrary: P) (simp_all add: session_call_fault)

lemma session_run_fault:
  assumes "\<And>s. grows s (g s)"
  shows "pppoe_fault (session_run E sid g P) = pppoe_fault P"
proof (cases "m_sessionMgr P sid")
  case (Some s)
  obtain cs where "ppp_calls (g (m_ppp s)) = ppp_calls (m_ppp s) @ cs" "list_all short_call cs"
    using assms [of "m_ppp s"] by (auto simp: grows_def)
  then show ?thesis
    using Some by (simp add: session_run_def FindSession_def session_calls_fault) (simp add: upd_session_def)
qed (simp add: session_run_none)

lemma session_Init_fault: "pppoe_fault (session_Init E sid P) = pppoe_fault P"
proof -
  have "grows s (ppp_Init s)" "grows s (ppp_StartFms s)" for s
    using ppp_do_grows [of s PppStart] by (simp_all add: ppp_Init_calls ppp_do_def)
  then show ?thesis by (simp add: session_Init_def session_run_fault)
qed

lemma ascii_length [simp]: "length (ascii t) = length t"
  by (simp add: ascii_def)

lemma session_ops_fault:
  "pppoe_fault (session_ProcessPacket E pkt P) = pppoe_fault P"
  "pppoe_fault (HandleAuthResponse E r P) = pppoe_fault P"
  "pppoe_fault (HandleKickUserNotify E k P) = pppoe_fault P"
  "pppoe_fault (session_run E sid (ppp_do ev) P) = pppoe_fault P"
  "pppoe_fault (processPADT E pkt P) = pppoe_fault P"
  "pppoe_fault (processPADI E pkt P) = pppoe_fault P"
proof -
  have r: "pppoe_fault (session_run E sid (ppp_OnAuthResponse result reason) P) = pppoe_fault P" for sid result reason P
    using session_run_fault [of "ppp_do (PppAuthResponse result reason)" E sid P, OF ppp_do_grows] by (simp add: ppp_do_eqs)
  show "pppoe_fault (session_run E sid (ppp_do ev) P) = pppoe_fault P" for sid ev P
    by (rule session_run_fault [OF ppp_do_grows])
  then show "pppoe_fault (HandleAuthResponse E r P) = pppoe_fault P"
    by (simp add: HandleAuthResponse_def r split: option.split)
  show "pppoe_fault (session_ProcessPacket E pkt P) = pppoe_fault P"
    by (simp add: session_ProcessPacket_def ProcessSessData_def session_run_fault [OF ppp_Input_grows] split: option.split)
  show "pppoe_fault (HandleKickUserNotify E k P) = pppoe_fault P" "pppoe_fault (processPADT E pkt P) = pppoe_fault P"
    by (simp_all add: HandleKickUserNotify_def processPADT_def sendPADT_fault RemoveSession_def CSession_delete_def FreeId_def
        split: option.split)
  show "pppoe_fault (processPADI E pkt P) = pppoe_fault P"
    by (simp add: processPADI_def Let_def split: option.split)
qed

section \<open>The tags a PADR gets back\<close>

definition tags_size :: "(nat \<times> byte list) list \<Rightarrow> nat" where
  "tags_size tags = (\<Sum>(ty, v) \<leftarrow> tags. 4 + length v)"

lemma tags_size_le: "tags_size (parse_tags (\<lambda>ty v tags. tags @ [(ty, v)]) rest acc) \<le> tags_size acc + length rest"
proof (induction rest arbitrary: acc rule: length_induct)
  case (1 rest)
  let ?stop = "length rest < 4 \<or> GETSHORT (rest ! 0) (rest ! 1) = 0 \<or> GETSHORT (rest ! 2) (rest ! 3) + 4 > length rest"
  show ?case
  proof (cases ?stop)
    case False
    let ?n = "GETSHORT (rest ! 2) (rest ! 3)"
    have n: "length (drop (4 + ?n) rest) < length rest" using False by auto
    show ?thesis
      using 1 [rule_format, OF n, of "acc @ [(GETSHORT (rest ! 0) (rest ! 1), take ?n (drop 4 rest))]"] False
      by (simp only: parse_tags_split(2) [OF False]) (simp add: tags_size_def)
  qed (simp only: parse_tags_split(1) le_add1)
qed

lemma packet_tags_size: "tags_size (packet_tags pkt) \<le> pkt_length pkt"
proof -
  have "tags_size (parse_tags (\<lambda>ty v tags. tags @ [(ty, v)]) (take (pkt_length pkt) (pkt_payload pkt)) []) \<le>
      length (take (pkt_length pkt) (pkt_payload pkt))"
    using tags_size_le [of "take (pkt_length pkt) (pkt_payload pkt)" "[]"] by (simp add: tags_size_def)
  then show ?thesis by (simp add: packet_tags_def parsePacket_def) (simp add: tags_size_def)
qed

definition returned :: "discovery \<Rightarrow> nat" where
  "returned d = length (opt_tag (relayId d)) + length (opt_tag (hostUniq d))"

lemma opt_copy: "length (opt_tag (copy_tag ty v t)) \<le> 4 + length v"
  by (simp add: opt_tag_def tag_bytes_def)

lemma returned_le: "returned (fold (\<lambda>(ty, v). parsePADRTags ty v) tags d) \<le> returned d + tags_size tags"
proof (induction tags arbitrary: d)
  case (Cons x tags)
  obtain ty v where x: "x = (ty, v)" by (cases x)
  have "returned (parsePADRTags ty v d) \<le> returned d + (4 + length v)"
    using opt_copy [of 272 v "relayId d"] opt_copy [of 259 v "hostUniq d"] by (auto simp: parsePADRTags_def returned_def)
  then show ?case using Cons [of "parsePADRTags ty v d"] by (simp add: x tags_size_def)
qed (simp add: tags_size_def)

lemma padr_returned: "returned (m_disc (padr_parse pkt (padr_reset P))) \<le> pkt_length pkt"
proof -
  have "returned ((m_disc (padr_reset P))\<lparr>max_ppp_payload := 0\<rparr>) = 0"
    by (simp add: returned_def padr_reset_def reset_type_def opt_tag_def Let_def)
  then show ?thesis
    using returned_le [of "packet_tags pkt" "(m_disc (padr_reset P))\<lparr>max_ppp_payload := 0\<rparr>"] packet_tags_size [of pkt]
    by (simp add: padr_parse_def parsePacket_tags)
qed

section \<open>When a PADR fails the server\<close>

lemma msg_lengths: "length no_service_msg = 40" "length bad_service_msg = 45"
  by (simp_all add: no_service_msg_def bad_service_msg_def)

lemma default_service_returned [simp]: "returned (m_disc (default_service P)) = returned (m_disc P)"
  by (simp add: default_service_def returned_def Let_def)

lemma padr_session_fault:
  assumes "pppoe_fault P = None" "pppoe_fault (padr_session E peer sid P) \<noteq> None" "length (m_svcName P) \<le> 199"
    and svc: "t_length (requestedService (m_disc P)) = 0 \<or> service_ok (m_svcName P) (requestedService (m_disc P))"
  shows "returned (m_disc P) > 1299"
proof -
  define A where "A = upd_session sid (\<lambda>s. s\<lparr>m_clientEth := peer\<rparr>) P"
  have A: "m_disc A = m_disc P" "m_svcName A = m_svcName P" "pppoe_fault A = None"
    using assms(1) by (simp_all add: A_def upd_session_def)
  define B where "B = default_service A"
  define C where "C = shrink_static B"
  define D where "D m = upd_session sid (\<lambda>s. s\<lparr>m_requestedMtu := m\<rparr>) C" for m
  have f: "pppoe_fault C = None" "pppoe_fault (D m) = None" for m
    using A by (simp_all add: C_def B_def D_def upd_session_def)
  let ?g = "grants (m_mtu B) (max_ppp_payload (m_disc B))"
  let ?m = "if ?g then mk_tag TAG_PPP_MAX_PAYLOAD (PUTSHORT (shrink_payload (m_mtu B) (max_ppp_payload (m_disc B)))) else []"
  let ?n = "length (tag_bytes (requestedService (m_disc B)) @ ?m @ opt_tag (relayId (m_disc B)) @ opt_tag (hostUniq (m_disc B)))"
  have "?n > ETH_JUMBO_LEN"
    using assms(2) f unfolding padr_session_def Let_def A_def [symmetric] B_def [symmetric] C_def [symmetric] D_def [symmetric]
    by (auto simp: session_Init_fault split: if_splits)
  moreover have "length ?m \<le> 6" by simp
  moreover have "length (tag_bytes (requestedService (m_disc B))) \<le> 203"
    using length_tag_bytes [of "requestedService (m_disc B)"] default_service_length [of A] svc A assms(3) by (simp add: B_def)
  moreover have "returned (m_disc B) = returned (m_disc P)" by (simp add: B_def A)
  ultimately show ?thesis by (simp add: returned_def)
qed

lemma sendErrorPADS_fault:
  assumes "pppoe_fault P = None" "pppoe_fault (sendErrorPADS dest ty msg P) \<noteq> None"
  shows "4 + length msg + returned (m_disc P) > ETH_JUMBO_LEN"
  using assms by (simp add: sendErrorPADS_def returned_def Let_def split: if_splits)

lemma CreateSession_fields:
  assumes "ids_ok R"
  shows "m_disc (snd (CreateSession E R)) = m_disc R" "m_svcName (snd (CreateSession E R)) = m_svcName R"
    "pppoe_fault (snd (CreateSession E R)) = pppoe_fault R"
    "fst (CreateSession E R) = None \<longleftrightarrow> m_SessionId (m_psessionid R) = []"
  using CreateSession_none [of R E] CreateSession_some [OF assms, of _ _ E]
  by (cases "m_SessionId (m_psessionid R)"; simp)+

lemma processPADR_fault:
  assumes i: "ids_ok P" and f: "pppoe_fault P = None" and b: "pppoe_fault (processPADR E pkt P) \<noteq> None"
    and svc: "length (m_svcName P) \<le> 199"
  shows "h_dest pkt = m_mac P \<and> \<not> NOT_UNICAST (h_source pkt) \<and> cookie_ok E (h_source pkt) (padr_parse pkt (padr_reset P)) \<and>
    (m_SessionId (m_psessionid P) = [] \<or> pkt_length pkt > 1299)"
proof -
  define R where "R = padr_parse pkt (padr_reset P)"
  have m: "m_mac (padr_reset P) = m_mac P" by (simp add: padr_reset_def Let_def)
  have R: "ids_ok R" "pppoe_fault R = None" "m_svcName R = m_svcName P" "m_psessionid R = m_psessionid P"
      "returned (m_disc R) \<le> pkt_length pkt" "pppoe_fault (padr_reset P) = None"
    using i f padr_returned [of pkt P] by (simp_all add: R_def padr_parts_kept)
      (simp_all add: padr_parse_def padr_reset_def Let_def)
  note c = CreateSession_fields [OF R(1), of E]
  have e: "1299 < pkt_length pkt" if "pppoe_fault (sendErrorPADS (h_source pkt) ty msg R) \<noteq> None" "length msg \<le> 45" for ty msg
    using sendErrorPADS_fault [OF R(2) that(1)] that(2) R(5) by simp
  have s: "1299 < pkt_length pkt" if "pppoe_fault (padr_session E (h_source pkt) sid (snd (CreateSession E R))) \<noteq> None"
      "t_length (requestedService (m_disc R)) = 0 \<or> service_ok (m_svcName R) (requestedService (m_disc R))" for sid
    using padr_session_fault [OF _ that(1)] that(2) c R svc by simp
  show ?thesis using b unfolding processPADR_def Let_def m R_def [symmetric]
    using R c e s msg_lengths by (cases "CreateSession E R") (auto split: if_splits option.splits)
qed

lemma pppoe_do_fault:
  assumes i: "ids_ok P" "length (m_svcName P) \<le> 199" and f: "pppoe_fault P = None" "pppoe_fault (pppoe_do E ev P) \<noteq> None"
  shows "\<exists>pkt. ev = DiscoveryFrame pkt \<and> pkt_code pkt = CODE_PADR \<and> h_dest pkt = m_mac P \<and> \<not> NOT_UNICAST (h_source pkt) \<and>
    cookie_ok E (h_source pkt) (padr_parse pkt (padr_reset P)) \<and>
    (m_SessionId (m_psessionid P) = [] \<or> pkt_length pkt > 1299)"
proof -
  obtain pkt where "ev = DiscoveryFrame pkt" "pppoe_fault (discovery_ProcessPacket E pkt P) \<noteq> None"
    using f by (cases ev) (simp_all add: pppoe_do_def session_ops_fault session_handle_timeout_def RemoveSession_def
        CSession_delete_def FreeId_def SetACName_def SetSvcName_def pppoe_SetAuthType_def pppoe_SetHostName_def split: option.splits if_splits)
  then show ?thesis
    using f(1) processPADR_fault [OF i(1) f(1) _ i(2), of E pkt]
    by (auto simp: discovery_ProcessPacket_def session_ops_fault split: if_splits)
qed

end
