(* ===== verification/Pppoe_Handshake.thy ===== *)
theory Pppoe_Handshake
  imports Pppoe_Fault
begin

text \<open>
  The discovery stage from the client's side: what the server makes of a well-behaved client's PADI
  and PADR, and how the frames of a session drive its PPP session.
\<close>

section \<open>The frames of a client\<close>

definition client_PADI :: "byte list \<Rightarrow> byte list \<Rightarrow> byte list" where
  "client_PADI m hu = mk_frame (replicate 6 0xff) m ETH_PPPOE_DISCOVERY CODE_PADI 0
     (mk_tag TAG_SERVICE_NAME [] @ mk_tag TAG_HOST_UNIQ hu)"

definition client_PADR :: "byte list \<Rightarrow> byte list \<Rightarrow> byte list \<Rightarrow> byte list \<Rightarrow> byte list" where
  "client_PADR mac m cookie hu = mk_frame mac m ETH_PPPOE_DISCOVERY CODE_PADR 0
     (mk_tag TAG_SERVICE_NAME [] @ mk_tag TAG_AC_COOKIE cookie @ mk_tag TAG_HOST_UNIQ hu)"

lemma parsePacket_frame:
  assumes "length dest = 6" "length source = 6" "length payload \<le> MAX_PPPOE_PAYLOAD"
  shows "parsePacket func (mk_frame dest source proto code session payload) s = parse_tags func payload s"
  using assms by (simp add: parsePacket_def)

lemma tag_bytes_copy [simp]: "tag_bytes (copy_tag ty v t) = mk_tag ty v"
  by (simp add: tag_bytes_def mk_tag_def)

lemma opt_tag_copy [simp]: "0 < ty \<Longrightarrow> opt_tag (copy_tag ty v t) = mk_tag ty v"
  by (simp add: opt_tag_def)

lemma opt_tag_reset [simp]: "opt_tag (reset_type t) = []" "t_type (reset_type t) = 0"
  by (simp_all add: opt_tag_def reset_type_def)

lemma grants_none [simp]: "\<not> grants mtu 0"
  by (simp add: grants_def)

section \<open>PADI and PADO\<close>

definition pado_of :: "pppoe_env \<Rightarrow> byte list \<Rightarrow> byte list \<Rightarrow> pppoe \<Rightarrow> byte list" where
  "pado_of E m hu P = mk_frame m (m_mac P) ETH_PPPOE_DISCOVERY CODE_PADO 0
     (mk_tag TAG_AC_NAME (m_acName P) @ mk_tag TAG_SERVICE_NAME (m_svcName P) @
      mk_tag TAG_AC_COOKIE (genCookie E m (m_mac P) (m_cookieSeed P)) @ mk_tag TAG_HOST_UNIQ hu)"

lemma PADI_answer:
  assumes "length m = 6" "\<not> NOT_UNICAST m" "length hu \<le> 1000" "pppoe_fault P = None"
    and "length (m_acName P) \<le> 199" "length (m_svcName P) \<le> 199"
  shows "\<exists>d. pppoe_do E (DiscoveryFrame (client_PADI m hu)) P = pppoe_call (SentDiscovery (pado_of E m hu P)) (P\<lparr>m_disc := d\<rparr>)"
proof -
  let ?pkt = "client_PADI m hu"
  define d0 where "d0 = (m_disc P)\<lparr>relayId := reset_type (relayId (m_disc P)), hostUniq := reset_type (hostUniq (m_disc P)),
    requestedService := reset_type (requestedService (m_disc P)), max_ppp_payload := 0\<rparr>"
  define d where "d = d0\<lparr>requestedService := copy_tag TAG_SERVICE_NAME [] (requestedService d0),
    hostUniq := copy_tag TAG_HOST_UNIQ hu (hostUniq d0)\<rparr>"
  have p: "parsePacket parsePADITags ?pkt d0 = d"
    using assms by (simp add: client_PADI_def parsePacket_frame parsePADITags_def d_def)
  have f: "h_source ?pkt = m" "pkt_code ?pkt = CODE_PADI" "ver_type_ok ?pkt" "pkt_length ?pkt + HDR_SIZE = length ?pkt"
      "\<not> length ?pkt < HDR_SIZE"
    using assms by (simp_all add: client_PADI_def)
  have r: "t_type (relayId d) = 0" "t_length (requestedService d) = 0" "max_ppp_payload d = 0"
      "hostUniq d = copy_tag TAG_HOST_UNIQ hu (hostUniq d0)"
    by (simp_all add: d_def d0_def)
  have pado: "pado_payload E m (P\<lparr>m_disc := d\<rparr>) = Some (mk_tag TAG_AC_NAME (m_acName P) @
      mk_tag TAG_SERVICE_NAME (m_svcName P) @ mk_tag TAG_AC_COOKIE (genCookie E m (m_mac P) (m_cookieSeed P)) @
      mk_tag TAG_HOST_UNIQ hu)"
    using assms by (simp add: pado_payload_def add_checked_def add_opt_checked_def r)
  have "processPADI E ?pkt P = pppoe_call (SentDiscovery (pado_of E m hu P)) (P\<lparr>m_disc := d\<rparr>)"
    unfolding processPADI_def Let_def d0_def [symmetric] p
    using assms(2) pado by (simp add: f r pado_of_def) (simp add: shrink_static_def r Let_def)
  then show ?thesis using assms f by (intro exI [of _ d]) (simp add: pppoe_do_def discovery_ProcessPacket_def)
qed

lemma pado_tags:
  assumes "length m = 6" "length (m_mac P) = 6" "length hu \<le> 1000" "length (m_acName P) \<le> 199" "length (m_svcName P) \<le> 199"
  shows "packet_tags (pado_of E m hu P) = [(TAG_AC_NAME, m_acName P), (TAG_SERVICE_NAME, m_svcName P),
    (TAG_AC_COOKIE, genCookie E m (m_mac P) (m_cookieSeed P)), (TAG_HOST_UNIQ, hu)]"
  using assms by (simp add: packet_tags_def pado_of_def parsePacket_frame)

section \<open>PADR and PADS\<close>

lemma pppoe_out_mono:
  "set (pppoe_out P) \<subseteq> set (pppoe_out (session_call E sid c P))"
  "set (pppoe_out P) \<subseteq> set (pppoe_out (session_run E sid g P))"
  "set (pppoe_out P) \<subseteq> set (pppoe_out (session_Init E sid P))"
proof -
  have p: "set (pppoe_out P) \<subseteq> set (pppoe_out (sendPADT E sid msg P))" for sid msg P
    by (auto simp: sendPADT_def upd_session_def split: option.split)
  show c: "set (pppoe_out P) \<subseteq> set (pppoe_out (session_call E sid c P))" for c P
    using p by (cases c) (auto simp: session_call_def pppoe_OnLCPDown_def session_OnPPPOutput_def session_OnAuthRequest_def
        OnPPPOEAuthRequest_def session_OnAddSubscriber_def session_OnDelSubscriber_def split: option.split)
  have "set (pppoe_out P) \<subseteq> set (pppoe_out (fold (session_call E sid) cs P))" for cs P
  proof (induction cs arbitrary: P)
    case (Cons x cs)
    then show ?case using c [where c = x and P = P] by fastforce
  qed simp
  from this [of "upd_session sid (\<lambda>s. s\<lparr>m_ppp := g (m_ppp s)\<rparr>) P" for g P]
  show r: "set (pppoe_out P) \<subseteq> set (pppoe_out (session_run E sid g P))" for g P
    by (simp add: session_run_def upd_session_def split: option.split)
  show "set (pppoe_out P) \<subseteq> set (pppoe_out (session_Init E sid P))"
    unfolding session_Init_def using r by blast
qed

lemma PADR_scan:
  assumes "length mac = 6" "length m = 6" "length c = COOKIE_LEN" "length hu \<le> 1000"
  shows "padr_parse (client_PADR mac m c hu) Q = Q\<lparr>m_disc := (m_disc Q)\<lparr>max_ppp_payload := 0,
    requestedService := copy_tag TAG_SERVICE_NAME [] (requestedService (m_disc Q)),
    receivedCookie := copy_tag TAG_AC_COOKIE c (receivedCookie (m_disc Q)),
    hostUniq := copy_tag TAG_HOST_UNIQ hu (hostUniq (m_disc Q))\<rparr>\<rparr>"
  using assms by (simp add: padr_parse_def client_PADR_def parsePacket_frame parsePADRTags_def)

lemma default_service_tag:
  assumes "requestedService (m_disc P) = copy_tag TAG_SERVICE_NAME [] t"
  shows "tag_bytes (requestedService (m_disc (default_service P))) = mk_tag TAG_SERVICE_NAME (m_svcName P)"
  using assms by (simp add: default_service_def tag_bytes_def mk_tag_def memcpy_at_def Let_def)

lemma default_service_rest [simp]:
  "relayId (m_disc (default_service P)) = relayId (m_disc P)" "hostUniq (m_disc (default_service P)) = hostUniq (m_disc P)"
  "max_ppp_payload (m_disc (default_service P)) = max_ppp_payload (m_disc P)" "m_mtu (default_service P) = m_mtu P"
  "m_mac (default_service P) = m_mac P"
  by (simp_all add: default_service_def Let_def)

text \<open>A PADR that returns the cookie gets the next identifier, and a PADS with it.\<close>

lemma PADR_answer:
  fixes E
  assumes m: "length m = 6" "\<not> NOT_UNICAST m" "length (m_mac P) = 6" "length hu \<le> 1000"
    and p: "ids_ok P" "pppoe_fault P = None" "m_SessionId (m_psessionid P) = sid # rest" "length (m_svcName P) \<le> 199"
  defines "Q \<equiv> pppoe_do E (DiscoveryFrame (client_PADR (m_mac P) m (genCookie E m (m_mac P) (m_cookieSeed P)) hu)) P"
  shows "owners Q = (owners P)(sid \<mapsto> (sid, m))"
    "SentDiscovery (mk_frame m (m_mac P) ETH_PPPOE_DISCOVERY CODE_PADS sid
       (mk_tag TAG_SERVICE_NAME (m_svcName P) @ mk_tag TAG_HOST_UNIQ hu)) \<in> set (pppoe_out Q)"
    "pppoe_fault Q = None"
    "map_option m_ppp (m_sessionMgr Q sid) = Some (ppp_do PppStart (ppp_new (pppoe_authType P) (pppoe_hostName P)
       (lcp_random E (pppoe_made P)) (chap_random E (pppoe_made P))))"
    "config Q = config P"
proof -
  let ?c = "genCookie E m (m_mac P) (m_cookieSeed P)"
  let ?pkt = "client_PADR (m_mac P) m ?c hu"
  define R where "R = padr_parse ?pkt (padr_reset P)"
  have f: "h_source ?pkt = m" "h_dest ?pkt = m_mac P" "pkt_code ?pkt = CODE_PADR" "ver_type_ok ?pkt"
      "pkt_length ?pkt + HDR_SIZE = length ?pkt" "\<not> length ?pkt < HDR_SIZE"
    using m by (simp_all add: client_PADR_def)
  note scan = PADR_scan [OF m(3) m(1) _ m(4), of ?c "padr_reset P", folded R_def]
  have R: "m_sessionMgr R = m_sessionMgr P" "m_psessionid R = m_psessionid P" "m_svcName R = m_svcName P" "m_mac R = m_mac P"
      "m_cookieSeed R = m_cookieSeed P" "pppoe_fault R = None" "pppoe_made R = pppoe_made P" "pppoe_authType R = pppoe_authType P"
      "pppoe_hostName R = pppoe_hostName P" "m_mtu R = m_mtu P" "ids_ok R" "owners R = owners P"
    using p unfolding R_def by (simp_all add: padr_parts_kept) (simp_all add: padr_parse_def padr_reset_def Let_def)
  obtain t1 t2 t3 where d: "requestedService (m_disc R) = copy_tag TAG_SERVICE_NAME [] t1"
      "receivedCookie (m_disc R) = copy_tag TAG_AC_COOKIE ?c t2" "hostUniq (m_disc R) = copy_tag TAG_HOST_UNIQ hu t3"
      "max_ppp_payload (m_disc R) = 0" "opt_tag (relayId (m_disc R)) = []"
    using scan by (simp add: padr_reset_def Let_def)
  have ok: "cookie_ok E m R" using copy_tag_value(2) [of ?c TAG_AC_COOKIE t2] by (simp add: cookie_ok_def d R)
  have ids: "m_SessionId (m_psessionid R) = sid # rest" using p(3) R by simp
  note c = CreateSession_some [OF R(11) ids, of E]
  define S where "S = snd (CreateSession E R)"
  define A where "A = upd_session sid (\<lambda>s. s\<lparr>m_clientEth := m\<rparr>) S"
  have q: "Q = padr_session E m sid S"
  proof -
    have mac: "m_mac (padr_reset P) = m_mac P" by (simp add: padr_reset_def Let_def)
    have "processPADR E ?pkt P = padr_session E m sid S"
      unfolding processPADR_def Let_def mac f R_def [symmetric] using m ok d by (simp add: c S_def)
    then show ?thesis using f p by (simp add: Q_def pppoe_do_def discovery_ProcessPacket_def)
  qed
  have oA: "owners A = (owners P)(sid \<mapsto> (sid, m))"
    using owners_created(1) [OF R(11), of E sid m] R(12) by (simp add: A_def S_def c)
  have A: "m_disc A = m_disc R" "m_svcName A = m_svcName P" "m_mac A = m_mac P" "pppoe_fault A = None" "m_mtu A = m_mtu P"
      "m_sessionMgr A sid = Some ((new_session E sid R)\<lparr>m_clientEth := m\<rparr>)"
    using R by (simp_all add: A_def S_def c upd_session_def)
  define B where "B = default_service A"
  have B: "tag_bytes (requestedService (m_disc B)) = mk_tag TAG_SERVICE_NAME (m_svcName P)" "max_ppp_payload (m_disc B) = 0"
      "opt_tag (relayId (m_disc B)) = []" "hostUniq (m_disc B) = copy_tag TAG_HOST_UNIQ hu t3" "m_mac B = m_mac P"
      "pppoe_fault B = None" "m_sessionMgr B = m_sessionMgr A"
    using default_service_tag [of A] A d by (simp_all add: B_def)
  let ?pads = "mk_frame m (m_mac P) ETH_PPPOE_DISCOVERY CODE_PADS sid
      (mk_tag TAG_SERVICE_NAME (m_svcName P) @ mk_tag TAG_HOST_UNIQ hu)"
  have sh: "shrink_static B = B" by (simp add: shrink_static_def B Let_def)
  have fin: "Q = session_Init E sid (pppoe_call (SentDiscovery ?pads) B)"
    unfolding q padr_session_def Let_def A_def [symmetric] B_def [symmetric] sh using B m p(4) by simp
  have "kept A Q" unfolding fin B_def
    by (rule kept_trans [OF kept_statics(1) kept_trans [OF kept_call(1) kept_session_Init]])
  moreover have "config A = config R" using owners_created(3) [OF R(11), of E sid m] by (simp add: A_def S_def c)
  moreover have "config R = config P" by (simp add: R_def padr_parts_kept)
  ultimately show "owners Q = (owners P)(sid \<mapsto> (sid, m))" "config Q = config P" using oA by (simp_all add: kept_def)
  show "SentDiscovery ?pads \<in> set (pppoe_out Q)" using pppoe_out_mono(3) [of "pppoe_call (SentDiscovery ?pads) B" E sid]
    by (auto simp: fin)
  show "pppoe_fault Q = None" by (simp add: fin session_Init_fault B)
  have iA: "ids_ok A" using owners_created(4) [OF R(11), of E sid m] by (simp add: A_def S_def c)
  let ?B = "pppoe_call (SentDiscovery ?pads) B"
  have i: "ids_ok ?B" using iA ids_ok_kept [OF kept_trans [OF kept_statics(1) kept_call(1)], of A] by (simp add: B_def)
  have s: "m_sessionMgr ?B sid = Some ((new_session E sid R)\<lparr>m_clientEth := m\<rparr>)" using A B by simp
  let ?C = "session_run E sid ppp_Init ?B"
  note r1 = session_run_facts(2) [OF i s, where E = E and g = ppp_Init]
  then obtain s' where s': "m_sessionMgr ?C sid = Some s'" "m_ppp s' = ppp_Init (m_ppp (new_session E sid R))" by auto
  have "ids_ok ?C" using i ids_ok_kept [OF kept_session_run] by simp
  from session_run_facts(2) [OF this s'(1), where E = E and g = ppp_StartFms]
  show "map_option m_ppp (m_sessionMgr Q sid) = Some (ppp_do PppStart (ppp_new (pppoe_authType P) (pppoe_hostName P)
       (lcp_random E (pppoe_made P)) (chap_random E (pppoe_made P))))"
    by (simp add: fin session_Init_def s'(2) new_session_ppp R ppp_do_def)
qed

end
