(* ===== verification/Ppp_Session_Run.thy ===== *)
theory Ppp_Session_Run
  imports Ppp_Session_Spec
begin

text \<open>
  A session from its start to the registration of the subscriber, step by step, and the
  properties of sessions.
\<close>

section \<open>A session, step by step\<close>

lemma ipcp_run_fields:
  "m_ipcp (ipcp_run g s) = g (m_ipcp s)" "m_phase (ipcp_run g s) = m_phase s" "m_pap (ipcp_run g s) = m_pap s"
  "m_chap (ipcp_run g s) = m_chap s"
proof -
  have "m_ipcp (fold ppp_ipcp_call cs t) = m_ipcp t \<and> m_phase (fold ppp_ipcp_call cs t) = m_phase t \<and>
      m_pap (fold ppp_ipcp_call cs t) = m_pap t \<and> m_chap (fold ppp_ipcp_call cs t) = m_chap t" for cs t
    by (induction cs arbitrary: t) (simp_all add: ppp_ipcp_call_def ppp_OnIPCPUp_def ppp_OnIPCPDown_def Let_def split: ipcp_call.split)
  then show "m_ipcp (ipcp_run g s) = g (m_ipcp s)" "m_phase (ipcp_run g s) = m_phase s" "m_pap (ipcp_run g s) = m_pap s"
    "m_chap (ipcp_run g s) = m_chap s" by (simp_all add: ipcp_run_def)
qed

lemma outputs_only:
  "fold (ppp_lcp_call run) (map LcpOutput ps) s = s\<lparr>ppp_calls := ppp_calls s @ map OnPPPOutput ps\<rparr>"
  by (induction ps arbitrary: s) (simp_all add: ppp_lcp_call_def)

definition demo_new :: cppp where
  "demo_new = ppp_new PPP_PAP (ascii ''WFNEX'') (\<lambda>_. 0x11223344) (\<lambda>_. 0)"

lemma demo_new:
  "m_lcp demo_new = demo_lcp0" "m_ipcp demo_new = ipcp_Init (fsm_new CPPPIPCP_new 0x8021)" "m_phase demo_new = PHASE_DEAD"
  "m_pap demo_new = pap_Init CPapProtocolSvr_new"
  by (simp_all add: demo_new_def demo_lcp0_def ppp_new_def ppp_Init_def ppp_SetHostName_def ppp_SetAuthType_def
      ppp_GetAuthType_def CPPP_new_def fsm_new_def lcp_SetAuthType_def lcp_Init_def Init_def Let_def)

text \<open>The calls of LCP in its negotiation.\<close>

lemma demo_lcp0_log: "f_log demo_lcp0 = []" "lcp_notices (f_sink demo_lcp0) = []" "lcp_notices demo_lcp = []"
  "lcp_notices demo_lcp_granted = []" "m_authType demo_lcp_granted = PPP_PAP"
  by (simp_all add: demo_lcp0_def lcp_SetAuthType_def demo_lcp_defs demo_lcp_granted_def)

lemma demo_open_calls: "\<exists>ps. lcp_calls demo_lcp0 (lcp_Open demo_lcp0) = map LcpOutput ps"
  by (intro exI [of _ "[mk_packet (m_protocol demo_lcp0) 1 1 (lcp_Addci demo_lcp)]"])
    (simp add: lcp_calls_def lcp_Open_def DisableFlag_def demo_lcp0_fields demo_lcp0_log Open_def Starting_def lcp_sink_def
      LowerUp_def SendConfReq_def negotiating_def lcp_base_def SendData_def Output_def StartTime_def CancelTimer_def Let_def)

lemma demo_asks_calls:
  fixes f :: "lcp fsm"
  assumes "m_state f = REQSENT" "f_sink f = demo_lcp" "m_reqid f = 1" "\<not> m_seen_ack f" "m_nakloops f = 0" "m_maxnakloops f = 5"
  shows "\<exists>ps. lcp_calls f (lcp_Input [1, 9, 0, 4] f) = map LcpOutput ps"
  using assms
  by (intro exI [of _ "[mk_packet (m_protocol f) 2 9 []]"])
    (simp add: lcp_calls_def lcp_Input_def Input_def demo_lcp_packets Input_code_def RcvConfReq_def RcvConfReq_switch_def
      RcvConfReq_answer_def Reqci_code_def lcp_sink_def lcp_base_def demo_lcp_callbacks demo_lcp0_log Let_def, simp add: SendData_def Output_def demo_lcp0_log)

lemma demo_acks_calls:
  fixes f :: "lcp fsm"
  assumes "m_state f = ACKSENT" "f_sink f = demo_lcp_granted" "m_reqid f = 1" "\<not> m_seen_ack f"
  shows "\<exists>ps. lcp_calls f (lcp_Input demo_lcp_ack f) = map LcpOutput ps @ [LcpUp]"
    "m_authType (f_sink (lcp_Input demo_lcp_ack f)) = PPP_PAP"
    "neg_upap (m_lcp_gotoptions (f_sink (lcp_Input demo_lcp_ack f)))"
    "\<not> neg_chap (m_lcp_gotoptions (f_sink (lcp_Input demo_lcp_ack f)))"
proof -
  have k: "m_lcp_echo_fails demo_lcp_granted = 5" "m_lcp_echo_interval demo_lcp_granted = 20"
      "neg_upap (m_lcp_gotoptions demo_lcp_granted)" "\<not> neg_chap (m_lcp_gotoptions demo_lcp_granted)"
    by (simp_all add: demo_lcp_granted_def demo_lcp_defs)
  note d = Input_def demo_lcp_packets Input_code_def RcvConfAck_def lcp_sink_def lcp_base_def
    demo_lcp_callbacks CancelTimer_def Up_def lcp_Up_def EchoLowerUp_def LcpEchoCheck_def SendEchoRequest_def
    lcp_Up_options_def StartEchoTimer_def CancelEchoTimer_def k Let_def
  show "m_authType (f_sink (lcp_Input demo_lcp_ack f)) = PPP_PAP"
    "neg_upap (m_lcp_gotoptions (f_sink (lcp_Input demo_lcp_ack f)))"
    "\<not> neg_chap (m_lcp_gotoptions (f_sink (lcp_Input demo_lcp_ack f)))"
    using assms by (simp_all add: lcp_Input_def d demo_lcp0_log)
  have "\<exists>p. f_log (lcp_Input demo_lcp_ack f) = f_log f @ [CbUp, OutPkt p]"
    "lcp_notices (f_sink (lcp_Input demo_lcp_ack f)) = [OnLCPUp]"
    using assms by (simp_all add: lcp_Input_def d demo_lcp0_log SendData_def Output_def)
  then obtain p where "f_log (lcp_Input demo_lcp_ack f) = f_log f @ [CbUp, OutPkt p]"
    "lcp_notices (f_sink (lcp_Input demo_lcp_ack f)) = [OnLCPUp]" by blast
  then show "\<exists>ps. lcp_calls f (lcp_Input demo_lcp_ack f) = map LcpOutput ps @ [LcpUp]"
    using assms by (intro exI [of _ "[p]"]) (simp add: lcp_calls_def demo_lcp0_log)
qed

lemma ppp_header_simps:
  "ppp_header (0xff # 0x03 # 0xc0 # 0x21 # p) = (PPP_LCP, p)" "ppp_header (0xff # 0x03 # 0xc0 # 0x23 # p) = (PPP_PAP, p)"
  "ppp_header (0xff # 0x03 # 0x80 # 0x21 # p) = (PPP_IPCP, p)"
  by (simp_all add: ppp_header_def GETSHORT_def)

lemma lcp_run_outputs:
  assumes "lcp_calls (m_lcp s) (g (m_lcp s)) = map LcpOutput ps"
  shows "lcp_run lcp_depth g s = s\<lparr>m_lcp := g (m_lcp s), ppp_calls := ppp_calls s @ map OnPPPOutput ps\<rparr>"
  using assms by (simp add: lcp_depth_def numeral_2_eq_2 outputs_only)

abbreviation demo_lcp_events :: "ppp_event list" where
  "demo_lcp_events \<equiv> [PppStart, PppPacket (0xff # 0x03 # 0xc0 # 0x21 # [1, 9, 0, 4]),
     PppPacket (0xff # 0x03 # 0xc0 # 0x21 # demo_lcp_ack)]"

lemma demo_first_steps:
  defines "s1 \<equiv> ppp_do PppStart demo_new"
  defines "s2 \<equiv> ppp_do (PppPacket (0xff # 0x03 # 0xc0 # 0x21 # [1, 9, 0, 4])) s1"
  shows "m_lcp s1 = lcp_Open demo_lcp0" "m_lcp s2 = lcp_Input [1, 9, 0, 4] (lcp_Open demo_lcp0)" "m_ipcp s2 = m_ipcp demo_new"
proof -
  obtain ps1 where c1: "lcp_calls demo_lcp0 (lcp_Open demo_lcp0) = map LcpOutput ps1" using demo_open_calls by blast
  have s1: "m_lcp s1 = lcp_Open demo_lcp0" "m_ipcp s1 = m_ipcp demo_new"
    using c1 by (simp_all add: s1_def ppp_do_def ppp_StartFms_def lcp_run_outputs demo_new(1))
  obtain ps2 where c2: "lcp_calls (m_lcp s1) (lcp_Input [1, 9, 0, 4] (m_lcp s1)) = map LcpOutput ps2"
    using demo_asks_calls [OF demo_lcp_opened] s1(1) by auto
  show "m_lcp s1 = lcp_Open demo_lcp0" by (rule s1(1))
  show "m_lcp s2 = lcp_Input [1, 9, 0, 4] (lcp_Open demo_lcp0)" "m_ipcp s2 = m_ipcp demo_new"
    using c2 s1 by (simp_all add: s2_def ppp_do_def ppp_Input_def ppp_header_simps lcp_run_outputs)
qed

lemma demo_link_up:
  defines "s \<equiv> fold ppp_do demo_lcp_events demo_new"
  shows "m_state (m_lcp s) = OPENED" "ppp_GetAuthType s = PPP_PAP" "m_phase s = PHASE_AUTHENTICATE" "m_ipcp s = m_ipcp demo_new"
proof -
  define s2 where "s2 = ppp_do (PppPacket (0xff # 0x03 # 0xc0 # 0x21 # [1, 9, 0, 4])) (ppp_do PppStart demo_new)"
  note s2 = demo_first_steps(2,3) [folded s2_def]
  note l2 = demo_lcp_asks [OF demo_lcp_opened, folded lcp_Input_def, folded s2(1)]
  let ?g = "lcp_Input demo_lcp_ack"
  obtain ps3 where c3: "lcp_calls (m_lcp s2) (?g (m_lcp s2)) = map LcpOutput ps3 @ [LcpUp]"
    using demo_acks_calls(1) [OF l2] by blast
  have s: "s = lcp_run lcp_depth ?g s2"
    by (simp add: s_def s2_def ppp_do_def [of "PppPacket (0xff # 0x03 # 0xc0 # 0x21 # demo_lcp_ack)"]
        ppp_Input_def [of "0xff # 0x03 # 0xc0 # 0x21 # demo_lcp_ack"] ppp_header_simps)
  define t where "t = s2\<lparr>m_lcp := ?g (m_lcp s2), ppp_calls := ppp_calls s2 @ map OnPPPOutput ps3\<rparr>"
  have "s = ppp_OnLCPUp (lcp_run (Suc 0)) t"
    using c3 by (simp add: s lcp_depth_def numeral_2_eq_2 outputs_only t_def) (simp add: ppp_lcp_call_def)
  then have e: "s = NewPhase PHASE_AUTHENTICATE (t\<lparr>m_pap := pap_LowerUp (m_pap t)\<rparr>)"
    using demo_acks_calls(2-4) [OF l2] by (simp add: ppp_OnLCPUp_def ppp_GetAuthType_def t_def)
  show "m_state (m_lcp s) = OPENED" "ppp_GetAuthType s = PPP_PAP" "m_phase s = PHASE_AUTHENTICATE" "m_ipcp s = m_ipcp demo_new"
    using demo_lcp_acks(1) [OF l2] demo_acks_calls(2) [OF l2] s2(2)
    by (simp_all add: e NewPhase_def ppp_GetAuthType_def t_def lcp_Input_def)
qed

text \<open>The subscriber \<^verbatim>\<open>bo\<close> authenticates, is accepted, and negotiates the address 10.0.0.2.\<close>

abbreviation demo_pap_request :: "byte list" where
  "demo_pap_request \<equiv> 0xff # 0x03 # 0xc0 # 0x23 # [1, 7, 0, 10, 2, 0x62, 0x6f, 2, 0x70, 0x77]"

abbreviation demo_ncp_events :: "ppp_event list" where
  "demo_ncp_events \<equiv> [PppPacket demo_pap_request, PppAddresses 0x0A000001 0x0A000002 0 0, PppAuthResponse 0 [],
     PppPacket (0xff # 0x03 # 0x80 # 0x21 # [1, 9, 0, 10, 3, 6, 10, 0, 0, 2]),
     PppPacket (0xff # 0x03 # 0x80 # 0x21 # [2, 1, 0, 10, 3, 6, 10, 0, 0, 1])]"

lemma demo_pap_asks:
  assumes "m_state (m_lcp s) = OPENED"
  shows "m_username (m_pap (ppp_do (PppPacket demo_pap_request) s)) = [0x62, 0x6f]"
    "m_lcp (ppp_do (PppPacket demo_pap_request) s) = m_lcp s" "m_ipcp (ppp_do (PppPacket demo_pap_request) s) = m_ipcp s"
proof -
  have "parse_packet [1, 7, 0, 10, 2, 0x62, 0x6f, 2, 0x70, 0x77] = Some (1, 7, [2, 0x62, 0x6f, 2, 0x70, 0x77])"
    by (simp add: parse_packet_def GETSHORT_def)
  then have "\<exists>r. pap_Input [1, 7, 0, 10, 2, 0x62, 0x6f, 2, 0x70, 0x77] (m_pap s) =
      ([SendAuthRequest2AM r], (m_pap s)\<lparr>m_username := [0x62, 0x6f], m_usrReqId := 7\<rparr>)"
    by (simp add: pap_Input_def upap_rauthreq_def Let_def)
  then show "m_username (m_pap (ppp_do (PppPacket demo_pap_request) s)) = [0x62, 0x6f]"
    "m_lcp (ppp_do (PppPacket demo_pap_request) s) = m_lcp s" "m_ipcp (ppp_do (PppPacket demo_pap_request) s) = m_ipcp s"
    using assms by (auto simp: ppp_do_def ppp_Input_def ppp_header_simps pap_run_def ppp_auth_call_def)
qed

lemma demo_accepted:
  assumes "ppp_GetAuthType s = PPP_PAP"
  shows "m_phase (ppp_do (PppAuthResponse 0 r) s) = PHASE_NETWORK" "m_lcp (ppp_do (PppAuthResponse 0 r) s) = m_lcp s"
    "m_ipcp (ppp_do (PppAuthResponse 0 r) s) = ipcp_Open (m_ipcp s)"
    "m_username (m_pap (ppp_do (PppAuthResponse 0 r) s)) = m_username (m_pap s)"
  using assms by (simp_all add: ppp_do_def ppp_OnAuthResponse_def pap_run_def pap_ResponseAuthenResult_def ppp_auth_call_def
      ppp_OnAuthenResult_def ipcp_run_fields NewPhase_def pap_CancelTimer_def Let_def)

lemma demo_ipcp_input:
  assumes "m_state (m_lcp s) = OPENED" "m_phase s = PHASE_NETWORK"
  shows "ppp_do (PppPacket (0xff # 0x03 # 0x80 # 0x21 # p)) s = ipcp_run (ipcp_Input p) s"
  using assms by (simp add: ppp_do_def ppp_Input_def ppp_header_simps less_eq_PPPPhase_def)

lemma demo_acks_up:
  fixes f :: "ipcp fsm"
  assumes "m_state f = ACKSENT" "f_sink f = demo_granted" "m_reqid f = 1" "\<not> m_seen_ack f"
  shows "ipcp_calls f (ipcp_Input [2, 1, 0, 10, 3, 6, 10, 0, 0, 1] f) = [IpcpUp]"
    "hisaddr (wantoptions (f_sink (ipcp_Input [2, 1, 0, 10, 3, 6, 10, 0, 0, 1] f))) = 0x0A000002"
proof -
  have r: "ipcp_Up_options demo_granted = demo_granted" "ipcp_Up_refuses demo_granted = None" "ipcp_notices demo_granted = []"
      "hisaddr (wantoptions demo_granted) = 0x0A000002"
    by (simp_all add: ipcp_Up_options_def ipcp_Up_refuses_def demo_defs)
  show "ipcp_calls f (ipcp_Input [2, 1, 0, 10, 3, 6, 10, 0, 0, 1] f) = [IpcpUp]"
    "hisaddr (wantoptions (f_sink (ipcp_Input [2, 1, 0, 10, 3, 6, 10, 0, 0, 1] f))) = 0x0A000002"
    using assms
    by (simp_all add: ipcp_calls_def ipcp_Input_def Input_def demo_packets Input_code_def RcvConfAck_def ipcp_sink_def
        ipcp_base_def demo_callbacks CancelTimer_def Up_def ipcp_Up_def r Let_def)
qed

lemma demo_registered:
  "\<exists>u. OnAddSubscriber u \<in> set (ppp_calls (fold ppp_do (demo_lcp_events @ demo_ncp_events) demo_new)) \<and>
     user_name u = [0x62, 0x6f] @ replicate 30 0 \<and> user_ip u = 0x0A000002"
proof -
  define s where "s = fold ppp_do demo_lcp_events demo_new"
  note s = demo_link_up [folded s_def]
  define a where "a = ppp_do (PppPacket demo_pap_request) s"
  note a = demo_pap_asks [OF s(1), folded a_def]
  define b where "b = ppp_do (PppAddresses 0x0A000001 0x0A000002 0 0) a"
  have b: "m_ipcp b = upd_sink (ipcp_SetSubscriberIP 0x0A000002) (upd_sink (ipcp_SetMyIP 0x0A000001) (m_ipcp demo_new))"
      "m_lcp b = m_lcp s" "m_username (m_pap b) = [0x62, 0x6f]" "ppp_GetAuthType b = PPP_PAP"
    using a s by (simp_all add: b_def ppp_do_def ppp_GetAuthType_def demo_new ipcp_SetPrimaryDNS_def
        ipcp_SetSecondaryDNS_def demo_defs)
  define c where "c = ppp_do (PppAuthResponse 0 []) b"
  note c = demo_accepted [OF b(4), where r = "[]", folded c_def]
  have link: "m_ipcp c = demo_link" using b(1) c(3) by (simp add: demo_link_def demo_new)
  have c': "m_state (m_lcp c) = OPENED" "m_phase c = PHASE_NETWORK" using c b(2) s(1) by simp_all
  define d where "d = ipcp_run (ipcp_Input [1, 9, 0, 10, 3, 6, 10, 0, 0, 2]) c"
  have d: "m_ipcp d = ipcp_Input [1, 9, 0, 10, 3, 6, 10, 0, 0, 2] demo_link" "m_lcp d = m_lcp c" "m_phase d = m_phase c"
      "m_pap d = m_pap c"
    by (simp_all add: d_def ipcp_run_fields link)
  note f = demo_acks_up [OF demo_asks [OF demo_opened], folded ipcp_Input_def, folded d(1)]
  have auth: "ppp_GetAuthType d = PPP_PAP" using d(2) c(2) b(4) by (simp add: ppp_GetAuthType_def)
  have "fold ppp_do (demo_lcp_events @ demo_ncp_events) demo_new = ipcp_run (ipcp_Input [2, 1, 0, 10, 3, 6, 10, 0, 0, 1]) d"
    using demo_ipcp_input [OF c'] demo_ipcp_input [of d] c' d
    by (simp add: s_def a_def b_def c_def d_def)
  then have run: "ppp_calls (fold ppp_do (demo_lcp_events @ demo_ncp_events) demo_new) =
      ppp_calls (ipcp_run (ipcp_Input [2, 1, 0, 10, 3, 6, 10, 0, 0, 1]) d)" by (rule arg_cong)
  define e where "e = d\<lparr>m_ipcp := ipcp_Input [2, 1, 0, 10, 3, 6, 10, 0, 0, 1] (m_ipcp d)\<rparr>"
  have up: "ipcp_run (ipcp_Input [2, 1, 0, 10, 3, 6, 10, 0, 0, 1]) d = ppp_OnIPCPUp e"
    using f(1) by (simp add: ipcp_run_def ppp_ipcp_call_def e_def)
  have "ppp_GetAuthType e = PPP_PAP" using auth by (simp add: e_def ppp_GetAuthType_def)
  moreover have "m_username (m_pap e) = [0x62, 0x6f]" using d(4) c(4) b(3) by (simp add: e_def)
  moreover have "ipcp_GetSubscriberIP (f_sink (m_ipcp e)) = 0x0A000002" using f(2) by (simp add: e_def ipcp_GetSubscriberIP_def)
  moreover have "strncpy (replicate 32 0) [0x62, 0x6f] (Suc (Suc 0)) = [0x62, 0x6f] @ replicate 30 0" by (simp add: strncpy_def)
  ultimately have "\<exists>u. ppp_calls (ppp_OnIPCPUp e) = ppp_calls e @ [OnAddSubscriber u] \<and>
      user_name u = [0x62, 0x6f] @ replicate 30 0 \<and> user_ip u = 0x0A000002"
    by (simp add: ppp_OnIPCPUp_def Let_def)
  then obtain u where "ppp_calls (ppp_OnIPCPUp e) = ppp_calls e @ [OnAddSubscriber u]"
      "user_name u = [0x62, 0x6f] @ replicate 30 0" "user_ip u = 0x0A000002" by blast
  then show ?thesis unfolding run up by (intro exI [of _ u]) simp
qed

section \<open>An authentication request of the wrong protocol\<close>

definition pap_request :: "u8 \<Rightarrow> byte list \<Rightarrow> byte list \<Rightarrow> byte list" where
  "pap_request pid nm pw = [UPAP_AUTHREQ, pid] @ PUTSHORT (6 + length nm + length pw) @
     [of_nat (length nm)] @ nm @ [of_nat (length pw)] @ pw"

lemma pap_request_input:
  assumes "length nm < 256" "length pw < 256"
  shows "pap_Input (pap_request pid nm pw) q =
    ([SendAuthRequest2AM (Auth_Request_zero\<lparr>authtype := of_nat PPP_PAP,
        username := strncpy (replicate 32 0) nm (min (length nm) 31),
        userpasswd := strncpy (replicate 32 0) pw (min (length pw) 31)\<rparr>)],
     q\<lparr>m_username := nm, m_usrReqId := pid\<rparr>)"
proof -
  let ?n = "6 + length nm + length pw" and ?x = "[of_nat (length nm)] @ nm @ [of_nat (length pw)] @ pw"
  have "GETSHORT (PUTSHORT ?n ! 0) (PUTSHORT ?n ! 1) = ?n" using assms by (intro GETSHORT_PUTSHORT) simp
  then have p: "parse_packet (pap_request pid nm pw) = Some (UPAP_AUTHREQ, pid, ?x)"
    by (simp add: parse_packet_def pap_request_def PUTSHORT_def)
  have l: "unat (of_nat (length nm) :: byte) = length nm" "unat (of_nat (length pw) :: byte) = length pw"
    using assms by (simp_all add: unat_of_nat_byte)
  have "(nm @ [of_nat (length pw)] @ pw) ! length nm = of_nat (length pw)" by (simp add: nth_append)
  then show ?thesis
    by (simp add: pap_Input_def p upap_rauthreq_def l Auth_Request_zero_def Let_def)
qed

lemma ipcp_Open_starts: "m_state f = INITIAL \<Longrightarrow> m_flags f = 0 \<Longrightarrow> m_state (ipcp_Open f) = REQSENT"
  by (simp add: ipcp_Open_def Open_def Starting_def ipcp_sink_def LowerUp_def)

lemma chap_accepts:
  assumes "CHALLENGE_VALID \<in> c_flags c" "AUTH_FAILED \<notin> c_flags c" "AUTH_DONE \<notin> c_flags c"
  shows "\<exists>p. fst (chap_ResponseAuthenResult 0 reason c) = [OnAuthenOutput p, OnAuthenResult True PPP_CHAP]"
    "m_chap_username (snd (chap_ResponseAuthenResult 0 reason c)) = m_chap_username c"
  using assms by (simp_all add: chap_ResponseAuthenResult_def chap_StartTimer_def chap_CancelTimer_def Let_def)

section \<open>Properties\<close>

text \<open>
  C3. No service before the subscriber is accepted. Whatever packets the subscriber sends, whenever the
  timers fire and however often the link is renegotiated: if the session registers a subscriber or
  passes an IP packet on, then the authentication manager has answered with the result 0 before.
  Without such an answer IPCP has not even been opened.
\<close>

theorem session_needs_acceptance:
  fixes evs t host r1 r2
  defines "s \<equiv> fold ppp_do evs (ppp_new t host r1 r2)"
  assumes "(\<exists>c \<in> set (ppp_calls s). serves c) \<or> m_state (m_ipcp s) \<noteq> INITIAL"
  shows "\<exists>reason. PppAuthResponse 0 reason \<in> set evs"
proof (rule ccontr)
  assume "\<not> ?thesis"
  then have "unserved s" using ppp_run_unserved [of evs t host r1 r2] by (simp add: s_def)
  then show False using assms(2) by (auto simp: unserved_def list_all_iff)
qed

theorem session_needs_acceptance_witness:
  "(\<exists>c \<in> set (ppp_calls (fold ppp_do (demo_lcp_events @ demo_ncp_events) demo_new)). serves c) \<and>
   (\<exists>reason. PppAuthResponse 0 reason \<in> set (demo_lcp_events @ demo_ncp_events))"
proof -
  have "\<exists>c \<in> set (ppp_calls (fold ppp_do (demo_lcp_events @ demo_ncp_events) demo_new)). serves c"
  proof -
    obtain u where u: "OnAddSubscriber u \<in> set (ppp_calls (fold ppp_do (demo_lcp_events @ demo_ncp_events) demo_new))"
      using demo_registered by (elim exE conjE) (rule that)
    show ?thesis by (rule bexI [OF _ u]) simp
  qed
  then show ?thesis
    using session_needs_acceptance [of "demo_lcp_events @ demo_ncp_events" PPP_PAP "ascii ''WFNEX''"
      "\<lambda>_. 0x11223344" "\<lambda>_. 0", folded demo_new_def] by blast
qed

text \<open>
  C11. The calls LCP and its owner make of each other end: in every state a session reaches, an
  operation of LCP whose handlers may nest any number of calls deeper gives the same session as with
  the two levels of \<open>lcp_depth\<close>. Taking the link down from within \<^verbatim>\<open>OnLCPUp\<close> or \<^verbatim>\<open>OnLCPTerminate\<close> never
  comes back to one of them.
\<close>

theorem session_nesting_bounded:
  fixes evs t host r1 r2
  defines "s \<equiv> fold ppp_do evs (ppp_new t host r1 r2)"
  assumes "lcp_trans (m_lcp s) (g (m_lcp s))"
  shows "lcp_run (Suc (Suc n)) g s = lcp_run lcp_depth g s"
  using lcp_run_depth [where g = g and n = n, OF _ assms(2)] ppp_run_lcp_inv [of evs t host r1 r2] by (simp add: s_def)

theorem session_nesting_bounded_witness:
  "lcp_run 7 (lcp_Input demo_lcp_ack) demo_new = lcp_run lcp_depth (lcp_Input demo_lcp_ack) demo_new"
  using session_nesting_bounded [of "[]" PPP_PAP "ascii ''WFNEX''" "\<lambda>_. 0x11223344" "\<lambda>_. 0" "lcp_Input demo_lcp_ack" 5,
      folded demo_new_def] lcp_ops_trans(3) by (simp add: eval_nat_numeral)

text \<open>
  C40. A session configured for CHAP can be authenticated by PAP. While the challenge is outstanding, a
  PAP request with any name and password is passed on to the authentication manager, although CHAP
  was negotiated; when the manager accepts it, the CHAP server takes the answer for its own, the
  session enters the network phase and IPCP starts, without any response to the challenge. The
  subscriber is then registered under the name the CHAP server has seen last, not under the name
  that was accepted.
\<close>

theorem session_pap_bypasses_chap:
  fixes s nm pw pid reason
  defines "s1 \<equiv> ppp_Input (MAKEHEADER PPP_PAP @ pap_request pid nm pw) s"
  defines "s2 \<equiv> ppp_OnAuthResponse 0 reason s1"
  assumes "ppp_GetAuthType s = PPP_CHAP" and "m_state (m_lcp s) = OPENED"
    and "CHALLENGE_VALID \<in> c_flags (m_chap s)" "AUTH_FAILED \<notin> c_flags (m_chap s)" "AUTH_DONE \<notin> c_flags (m_chap s)"
    and "m_state (m_ipcp s) = INITIAL" "m_flags (m_ipcp s) = 0" and "length nm < 256" "length pw < 256"
  shows "(\<exists>r. ppp_calls s1 = ppp_calls s @ [OnAuthRequest r] \<and> username r = strncpy (replicate 32 0) nm (min (length nm) 31)) \<and>
    m_chap s1 = m_chap s \<and> m_phase s2 = PHASE_NETWORK \<and> m_state (m_ipcp s2) = REQSENT \<and>
    m_chap_username (m_chap s2) = m_chap_username (m_chap s)"
proof -
  have l: "m_state (m_lcp s) = OPENED" by fact
  have h: "MAKEHEADER PPP_PAP = [0xff, 0x03, 0xc0, 0x23]" by (simp add: MAKEHEADER_def PUTSHORT_def)
  obtain r q where r: "pap_Input (pap_request pid nm pw) (m_pap s) = ([SendAuthRequest2AM r], q)"
      "username r = strncpy (replicate 32 0) nm (min (length nm) 31)"
    using pap_request_input [of nm pw pid "m_pap s"] assms(10,11) by simp
  have s1: "s1 = call_sink (OnAuthRequest r) (s\<lparr>m_pap := q\<rparr>)"
    unfolding s1_def h using l r(1)
    by (simp add: ppp_Input_def ppp_header_simps pap_run_def ppp_auth_call_def)
  note c = chap_accepts [OF assms(5-7), of reason]
  obtain p where p: "fst (chap_ResponseAuthenResult 0 reason (m_chap s)) = [OnAuthenOutput p, OnAuthenResult True PPP_CHAP]"
    using c(1) by blast
  have "ppp_GetAuthType s1 = PPP_CHAP" using assms(3) by (simp add: s1 ppp_GetAuthType_def)
  then have "m_phase s2 = PHASE_NETWORK \<and> m_ipcp s2 = ipcp_Open (m_ipcp s) \<and>
      m_chap s2 = snd (chap_ResponseAuthenResult 0 reason (m_chap s))"
    using p by (simp add: s2_def ppp_OnAuthResponse_def s1 chap_run_def case_prod_beta ppp_auth_call_def
        ppp_OnAuthenResult_def ipcp_run_fields NewPhase_def)
  then show ?thesis using ipcp_Open_starts [OF assms(8,9)] c(2) r(2) by (simp add: s1)
qed

definition demo_challenged :: cppp where
  "demo_challenged = (let s = ppp_new PPP_CHAP (ascii ''WFNEX'') (\<lambda>_. 0) (\<lambda>_. 0)
     in s\<lparr>m_lcp := (m_lcp s)\<lparr>m_state := OPENED\<rparr>, m_chap := demo_chap1, m_phase := PHASE_AUTHENTICATE\<rparr>)"

theorem session_pap_bypasses_chap_witness:
  "m_phase (ppp_OnAuthResponse 0 [] (ppp_Input (MAKEHEADER PPP_PAP @ pap_request 1 [0x62, 0x6f] [0x70]) demo_challenged)) =
     PHASE_NETWORK"
proof -
  have "ppp_GetAuthType demo_challenged = PPP_CHAP" "m_state (m_lcp demo_challenged) = OPENED"
      "m_chap demo_challenged = demo_chap1" "m_state (m_ipcp demo_challenged) = INITIAL" "m_flags (m_ipcp demo_challenged) = 0"
    by (simp_all add: demo_challenged_def ppp_new_def ppp_Init_def ppp_SetHostName_def ppp_SetAuthType_def ppp_GetAuthType_def
        CPPP_new_def fsm_new_def lcp_SetAuthType_def lcp_Init_def ipcp_Init_def Init_def Let_def)
  then show ?thesis
    using session_pap_bypasses_chap [of demo_challenged "[0x62, 0x6f]" "[0x70]" 1 "[]"] by (simp add: demo_chap1(1))
qed

end
