(* ===== verification/Pppoe_Demo.thy ===== *)
theory Pppoe_Demo
  imports Pppoe_Handshake Ppp_Session_Run
begin

text \<open>
  Frames that drive one session of the server, the other sessions they leave alone, and a subscriber
  taken from the PADI to its registration.
\<close>

section \<open>One session of the server\<close>

text \<open>
  Session \<open>sid\<close> of client \<open>m\<close> is alive in a server that works, its PPP session is in state \<open>s\<close>, and
  what that session has registered has reached the session manager.
\<close>

definition live :: "byte list \<Rightarrow> u32 \<Rightarrow> nat \<Rightarrow> byte list \<Rightarrow> cppp \<Rightarrow> pppoe \<Rightarrow> bool" where
  "live mac ip sid m s P \<longleftrightarrow> ids_ok P \<and> pppoe_fault P = None \<and> m_mac P = mac \<and> m_ip P = ip \<and>
     owners P sid = Some (sid, m) \<and> map_option m_ppp (m_sessionMgr P sid) = Some s \<and>
     (\<forall>u. OnAddSubscriber u \<in> set (ppp_calls s) \<longrightarrow> registered P \<noteq> {})"

lemma call_registers:
  assumes "m_sessionMgr P sid \<noteq> None" "OnAddSubscriber u \<in> set cs"
  shows "registered (fold (session_call E sid) cs P) \<noteq> {}"
  using assms
proof (induction cs arbitrary: P)
  case (Cons c cs)
  have mono: "registered P \<subseteq> registered (fold (session_call E sid) cs P)" for P cs
  proof (induction cs arbitrary: P)
    case (Cons c cs)
    then show ?case using pppoe_out_mono(1) [of P E sid c] by (fastforce simp: registered_def)
  qed simp
  have "m_sessionMgr (session_call E sid c P) sid \<noteq> None"
    using kept_session_call [of P E sid c] Cons.prems(1) dom_owners [of P] dom_owners [of "session_call E sid c P"]
    by (auto simp: kept_def dom_def set_eq_iff)
  moreover have "registered (session_call E sid c P) \<noteq> {}" if "c = OnAddSubscriber u"
    using Cons.prems(1) that by (auto simp: session_call_def FindSession_def session_OnAddSubscriber_def registered_def)
  ultimately show ?case using Cons.IH [of "session_call E sid c P"] Cons.prems(2) mono [of "session_call E sid c P" cs] by auto
qed simp

lemma live_run:
  assumes l: "live mac ip sid m s P" and g: "\<And>s. grows s (g s)"
  shows "live mac ip sid m (g s) (session_run E sid g P)"
proof -
  let ?Q = "session_run E sid g P"
  have k: "kept P ?Q" by simp
  obtain x where x: "m_sessionMgr P sid = Some x" "m_ppp x = s" using l by (auto simp: live_def)
  have i: "ids_ok P" using l by (simp add: live_def)
  obtain cs where cs: "ppp_calls (g s) = ppp_calls s @ cs" using g [of s] by (auto simp: grows_def)
  let ?U = "upd_session sid (\<lambda>s. s\<lparr>m_ppp := g (m_ppp s)\<rparr>) P"
  have e: "?Q = fold (session_call E sid) cs ?U" using x cs by (simp add: session_run_def FindSession_def)
  have "registered ?Q \<noteq> {}" if "OnAddSubscriber u \<in> set (ppp_calls (g s))" for u
  proof (cases "OnAddSubscriber u \<in> set cs")
    case True
    then show ?thesis using x unfolding e by (intro call_registers) (simp_all add: upd_session_def)
  next
    case False
    then have "registered P \<noteq> {}" using that l cs by (auto simp: live_def)
    then show ?thesis using pppoe_out_mono(2) [of P E sid g] by (auto simp: registered_def)
  qed
  then show ?thesis
    using l k i session_run_facts(2) [OF i x(1), where E = E and g = g] x(2) session_run_fault [OF g]
    by (simp add: live_def kept_def config_def ids_ok_kept [OF k])
qed

lemma live_frame:
  assumes l: "live mac ip sid m s P" and "length mac = 6" "length m = 6" "sid < 65536"
    and "2 \<le> length p" "length p \<le> ETH_DATA_LEN" "\<not> control_protocol (host_short p)"
  shows "live mac ip sid m (ppp_Input (0xff # 0x03 # p) s)
    (pppoe_do E (SessionFrame (mk_frame mac m ETH_PPPOE_SESSION CODE_SESS sid p)) P)"
proof -
  obtain x where x: "m_sessionMgr P sid = Some x" "m_clientEth x = m" using l by (auto simp: live_def owners_def)
  have "pppoe_do E (SessionFrame (mk_frame mac m ETH_PPPOE_SESSION CODE_SESS sid p)) P =
      session_run E sid (ppp_Input (0xff # 0x03 # p)) P"
    using l x assms by (simp add: pppoe_do_def session_ProcessPacket_def ProcessSessData_def FindSession_def live_def)
  then show ?thesis using live_run [OF l ppp_Input_grows] by simp
qed

lemma live_answer:
  assumes l: "live mac ip (resp_session r) m s P"
  shows "live mac ip (resp_session r) m (fold ppp_do [PppAddresses ip (subscriberIP r) (primaryDNS r) (secondaryDNS r),
    PppAuthResponse (sint (authResult r)) (takeWhile (\<lambda>c. c \<noteq> 0) (authResultDesc r))] s) (pppoe_do E (AuthAnswer r) P)"
proof -
  obtain x where "m_sessionMgr P (resp_session r) = Some x" using l by (auto simp: live_def)
  then have "pppoe_do E (AuthAnswer r) P = session_run E (resp_session r)
      (ppp_do (PppAuthResponse (sint (authResult r)) (takeWhile (\<lambda>c. c \<noteq> 0) (authResultDesc r))))
      (session_run E (resp_session r) (ppp_do (PppAddresses ip (subscriberIP r) (primaryDNS r) (secondaryDNS r))) P)"
    using l by (simp add: pppoe_do_def HandleAuthResponse_def FindSession_def ppp_do_eqs live_def)
  then show ?thesis using live_run [OF live_run [OF l ppp_do_grows] ppp_do_grows] by simp
qed

section \<open>A subscriber\<close>

definition demo_env :: pppoe_env where
  "demo_env = \<lparr>md5 = \<lambda>_. [], pid_bytes = [], lcp_random = \<lambda>_ _. 0x11223344, chap_random = \<lambda>_ _. 0, alloc_ip = \<lambda>_. 0x64010101\<rparr>"

definition demo_mac :: "byte list" where
  "demo_mac = [2, 0, 0, 0, 0, 1]"

definition demo_client :: "byte list" where
  "demo_client = [2, 0, 0, 0, 0, 2]"

lemma demo_addresses: "length demo_mac = 6" "length demo_client = 6" "\<not> NOT_UNICAST demo_client"
  by (simp_all add: demo_mac_def demo_client_def NOT_UNICAST_def)

definition demo_pppoe :: pppoe where
  "demo_pppoe = CPPPOE_new demo_mac 0x0A000001 []"

abbreviation demo_hello :: "pppoe_event list" where
  "demo_hello \<equiv> [DiscoveryFrame (client_PADI demo_client [7]),
     DiscoveryFrame (client_PADR demo_mac demo_client (genCookie demo_env demo_client demo_mac []) [7])]"

lemma demo_ids: "\<exists>rest. m_SessionId (m_psessionid demo_pppoe) = 1 # rest"
proof -
  have "[1 ..< Suc 60000] = 1 # [Suc 1 ..< Suc 60000]" by (rule upt_conv_Cons) simp
  then show ?thesis unfolding demo_pppoe_def CPPPOE_new_def ids_InIt_def pppoe.select_convs session_ids.select_convs append_Nil
    by (rule exI)
qed

lemma demo_live:
  "live demo_mac 0x0A000001 1 demo_client (ppp_do PppStart demo_new) (fold (pppoe_do demo_env) demo_hello demo_pppoe)"
proof -
  have p: "ids_ok demo_pppoe" "pppoe_fault demo_pppoe = None" "m_mac demo_pppoe = demo_mac" "m_ip demo_pppoe = 0x0A000001"
      "m_cookieSeed demo_pppoe = []" "length (m_acName demo_pppoe) \<le> 199" "length (m_svcName demo_pppoe) \<le> 199"
      "pppoe_made demo_pppoe = 0" "pppoe_authType demo_pppoe = PPP_PAP" "pppoe_hostName demo_pppoe = ascii ''WFNEX''"
    using ids_ok_new by (simp_all add: demo_pppoe_def) (simp_all add: CPPPOE_new_def)
  obtain d where d: "pppoe_do demo_env (DiscoveryFrame (client_PADI demo_client [7])) demo_pppoe =
      pppoe_call (SentDiscovery (pado_of demo_env demo_client [7] demo_pppoe)) (demo_pppoe\<lparr>m_disc := d\<rparr>)"
    using PADI_answer [of demo_client "[7]" demo_pppoe demo_env] p demo_addresses by auto
  define P where "P = pppoe_call (SentDiscovery (pado_of demo_env demo_client [7] demo_pppoe)) (demo_pppoe\<lparr>m_disc := d\<rparr>)"
  obtain rest where rest: "m_SessionId (m_psessionid P) = 1 # rest" using demo_ids by (auto simp: P_def)
  have P: "ids_ok P" "m_mac P = demo_mac" "m_cookieSeed P = []" "pppoe_fault P = None" "length (m_svcName P) \<le> 199" "m_ip P = 0x0A000001"
      "pppoe_made P = 0" "pppoe_authType P = PPP_PAP" "pppoe_hostName P = ascii ''WFNEX''"
    using p ids_ok_kept [OF kept_call(1)] by (simp_all add: P_def del: kept_call) (simp add: ids_ok_def)
  note a = PADR_answer [of demo_client P "[7]" 1 rest demo_env, unfolded P(2,3,7-9)]
  define Q where "Q = pppoe_do demo_env
    (DiscoveryFrame (client_PADR demo_mac demo_client (genCookie demo_env demo_client demo_mac []) [7])) P"
  have q: "owners Q 1 = Some (1, demo_client)" "pppoe_fault Q = None"
      "map_option m_ppp (m_sessionMgr Q 1) = Some (ppp_do PppStart demo_new)"
    using a(1,3,4) demo_addresses P rest by (simp_all add: Q_def demo_new_def demo_env_def)
  have "config Q = config P" using a(5) demo_addresses P rest by (simp add: Q_def)
  then have c: "m_ip Q = m_ip P" "m_mac Q = m_mac P" by (simp_all add: config_def)
  have "unserved (ppp_do PppStart demo_new)"
    using ppp_do_unserved [of demo_new PppStart] ppp_new_unserved by (simp add: demo_new_def)
  then have "\<forall>u. OnAddSubscriber u \<notin> set (ppp_calls (ppp_do PppStart demo_new))"
    by (auto simp: unserved_def list_all_iff)
  then show ?thesis using q c P pppoe_do_ids [OF P(1)] d by (simp add: live_def Q_def P_def)
qed

abbreviation demo_frame :: "byte list \<Rightarrow> pppoe_event" where
  "demo_frame p \<equiv> SessionFrame (mk_frame demo_mac demo_client ETH_PPPOE_SESSION CODE_SESS 1 p)"

definition demo_grant :: Auth_Response where
  "demo_grant = \<lparr>resp_session = 1, resp_mac = demo_client, authResult = 0, authResultDesc = [], subscriberIP = 0x0A000002,
     primaryDNS = 0, secondaryDNS = 0\<rparr>"

abbreviation demo_talk :: "pppoe_event list" where
  "demo_talk \<equiv> [demo_frame (0xc0 # 0x21 # [1, 9, 0, 4]), demo_frame (0xc0 # 0x21 # demo_lcp_ack),
     demo_frame (0xc0 # 0x23 # [1, 7, 0, 10, 2, 0x62, 0x6f, 2, 0x70, 0x77]), AuthAnswer demo_grant,
     demo_frame (0x80 # 0x21 # [1, 9, 0, 10, 3, 6, 10, 0, 0, 2]), demo_frame (0x80 # 0x21 # [2, 1, 0, 10, 3, 6, 10, 0, 0, 1])]"

text \<open>The two bytes of a protocol number are never in the order in which they are compared.\<close>

lemma swapped_protocols:
  "\<not> control_protocol (host_short (0xc0 # 0x21 # p))" "\<not> control_protocol (host_short (0xc0 # 0x23 # p))"
  "\<not> control_protocol (host_short (0x80 # 0x21 # p))" "\<not> control_protocol (host_short (0xc2 # 0x23 # p))"
  by (simp_all add: control_protocol_def host_short_def GETSHORT_def)

lemma demo_frame_live:
  assumes "live demo_mac ip 1 demo_client s P" "\<not> control_protocol (host_short p)" "2 \<le> length p" "length p \<le> 1500"
  shows "live demo_mac ip 1 demo_client (ppp_do (PppPacket (0xff # 0x03 # p)) s) (pppoe_do demo_env (demo_frame p) P)"
  using live_frame [OF assms(1) demo_addresses(1,2) _ assms(3,4,2), of demo_env] by (simp add: ppp_do_eqs)

lemma demo_talk_live:
  "live demo_mac 0x0A000001 1 demo_client (fold ppp_do (demo_lcp_events @ demo_ncp_events) demo_new)
     (fold (pppoe_do demo_env) (demo_hello @ demo_talk) demo_pppoe)"
proof -
  note s = demo_frame_live [OF demo_live swapped_protocols(1) [of "[1, 9, 0, 4]"]]
  note s = demo_frame_live [OF s swapped_protocols(1) [of demo_lcp_ack]]
  note s = demo_frame_live [OF s swapped_protocols(2) [of "[1, 7, 0, 10, 2, 0x62, 0x6f, 2, 0x70, 0x77]"]]
  have r: "resp_session demo_grant = 1" "subscriberIP demo_grant = 0x0A000002" "primaryDNS demo_grant = 0"
      "secondaryDNS demo_grant = 0" "authResult demo_grant = 0" "authResultDesc demo_grant = []"
    by (simp_all add: demo_grant_def)
  note s = live_answer [of _ _ demo_grant _ _ _ demo_env, unfolded r, OF s]
  note s = demo_frame_live [OF s swapped_protocols(3) [of "[1, 9, 0, 10, 3, 6, 10, 0, 0, 2]"]]
  note s = demo_frame_live [OF s swapped_protocols(3) [of "[2, 1, 0, 10, 3, 6, 10, 0, 0, 1]"]]
  show ?thesis using s by simp
qed

lemma demo_subscriber: "\<exists>u. AddUserRequest u \<in> set (pppoe_out (fold (pppoe_do demo_env) (demo_hello @ demo_talk) demo_pppoe))"
  using demo_talk_live demo_registered by (auto simp: live_def registered_def simp del: fold_append)

end
