(* ===== verification/Pppoe_Correct.thy ===== *)
theory Pppoe_Correct
  imports Pppoe_Demo
begin

text \<open>The properties of the PPPoE server.\<close>

section \<open>Sessions are separate\<close>

lemma session_run_other:
  assumes "ids_ok P" "j \<noteq> sid"
  shows "m_sessionMgr (session_run E sid g P) j = m_sessionMgr P j"
  using session_run_facts(1) [OF assms(1) _ assms(2)] by (cases "m_sessionMgr P sid") (auto simp: session_run_none)

lemma session_Init_other:
  assumes "ids_ok P" "j \<noteq> sid"
  shows "m_sessionMgr (session_Init E sid P) j = m_sessionMgr P j"
  using assms session_run_other ids_ok_kept [OF kept_session_run] by (simp add: session_Init_def)

lemma padr_session_other:
  assumes "ids_ok P" "j \<noteq> sid"
  shows "m_sessionMgr (padr_session E peer sid P) j = m_sessionMgr P j"
proof -
  define A where "A = upd_session sid (\<lambda>s. s\<lparr>m_clientEth := peer\<rparr>) P"
  define C where "C = shrink_static (default_service A)"
  have "m_sessionMgr C j = m_sessionMgr P j" "ids_ok C"
    using assms by (auto simp: C_def A_def upd_session_def ids_ok_def)
  moreover define D where "D m = upd_session sid (\<lambda>s. s\<lparr>m_requestedMtu := m\<rparr>) C" for m
  ultimately have "m_sessionMgr (D m) j = m_sessionMgr P j" "ids_ok (D m)" for m
    using assms(2) by (auto simp: D_def upd_session_def ids_ok_def)
  moreover have "m_sessionMgr (session_Init E sid (pppoe_call c Q)) j = m_sessionMgr Q j" if "ids_ok Q" for c Q
    using session_Init_other [of "pppoe_call c Q" j sid E] that assms(2) by (simp add: ids_ok_def)
  ultimately show ?thesis
    using \<open>m_sessionMgr C j = m_sessionMgr P j\<close> \<open>ids_ok C\<close>
    unfolding padr_session_def Let_def A_def [symmetric] C_def [symmetric] D_def [symmetric] by (simp split: if_split)
qed

lemma processPADR_other:
  assumes i: "ids_ok P" and s: "m_sessionMgr P j = Some s"
  shows "m_sessionMgr (processPADR E pkt P) j = Some s"
proof -
  define R where "R = padr_parse pkt (padr_reset P)"
  have R: "ids_ok R" "m_sessionMgr R j = Some s" "m_sessionMgr (padr_reset P) j = Some s"
    using i s by (simp_all add: R_def padr_parts_kept) (simp_all add: padr_parse_def padr_reset_def Let_def)
  have e: "m_sessionMgr (sendErrorPADS d ty msg R) j = Some s" for d ty msg
    using R(2) by (simp add: sendErrorPADS_def Let_def)
  have c: "m_sessionMgr (case CreateSession E R of (None, S) \<Rightarrow> pppoe_fail NullDereference S
      | (Some sid, S) \<Rightarrow> padr_session E (h_source pkt) sid S) j = Some s"
  proof (cases "m_SessionId (m_psessionid R)")
    case Nil
    then show ?thesis using R by (simp add: CreateSession_none)
  next
    case (Cons sid ids)
    note n = CreateSession_some [OF R(1) Cons, of E]
    have "j \<noteq> sid" using R Cons by (auto simp: ids_ok_def)
    then show ?thesis
      using padr_session_other [of "snd (CreateSession E R)" j sid E "h_source pkt"] R(2)
        create_ids [OF R(1) Cons, where E = E and n = "Suc (pppoe_made R)"] by (simp add: n)
  qed
  show ?thesis unfolding processPADR_def Let_def R_def [symmetric] using R e c by simp
qed

text \<open>The events that may change session \<open>j\<close>, whose state is \<open>s\<close>, of a server with address \<open>mac\<close>.\<close>

fun concerns :: "nat \<Rightarrow> csession \<Rightarrow> byte list \<Rightarrow> pppoe_event \<Rightarrow> bool" where
  "concerns j s mac (DiscoveryFrame pkt) \<longleftrightarrow> pkt_code pkt = CODE_PADT \<and> pkt_session pkt = j \<and>
     h_source pkt = m_clientEth s \<and> h_dest pkt = mac"
| "concerns j s mac (SessionFrame pkt) \<longleftrightarrow> pkt_session pkt = j \<and> h_source pkt = m_clientEth s \<and> h_dest pkt = mac"
| "concerns j s mac (PppTimer sid t) \<longleftrightarrow> sid = j"
| "concerns j s mac (PadtTimer sid) \<longleftrightarrow> sid = j \<and> session_timer s \<noteq> None"
| "concerns j s mac (AuthAnswer r) \<longleftrightarrow> resp_session r = j"
| "concerns j s mac (KickUser k) \<longleftrightarrow> kick_session k = j \<and> kick_mac k = m_clientEth s"
| "concerns j s mac _ \<longleftrightarrow> False"

lemma RemoveSession_other: "j \<noteq> sid \<Longrightarrow> m_sessionMgr (RemoveSession sid P) j = m_sessionMgr P j"
  by (simp add: RemoveSession_def CSession_delete_def FreeId_def split: option.split)

lemma sendPADT_other: "j \<noteq> sid \<Longrightarrow> m_sessionMgr (sendPADT E sid msg P) j = m_sessionMgr P j"
  using only_sendPADT(1) [of sid P E msg] by (simp add: only_def)

lemma unconcerned:
  assumes i: "ids_ok P" and s: "m_sessionMgr P j = Some s" and c: "\<not> concerns j s (m_mac P) ev"
  shows "m_sessionMgr (pppoe_do E ev P) j = Some s"
proof -
  note r = session_run_other [OF i, of j]
  have rr: "m_sessionMgr (session_run E sid g (session_run E sid h P)) j = m_sessionMgr P j" if "j \<noteq> sid" for sid g h
    using r [OF that] session_run_other [of "session_run E sid h P" j sid E g] that i ids_ok_kept [OF kept_session_run] by simp
  have padi: "m_sessionMgr (processPADI E pkt P) j = Some s" for pkt
    using s by (simp add: processPADI_def Let_def split: option.split)
  show ?thesis
  proof (cases ev)
    case (DiscoveryFrame pkt)
    have "m_sessionMgr (processPADT E pkt P) j = Some s" if "pkt_code pkt = CODE_PADT"
      using c s that DiscoveryFrame RemoveSession_other sendPADT_other
      by (cases "pkt_session pkt = j") (auto simp: processPADT_def FindSession_def split: option.split)
    then show ?thesis using s processPADR_other [OF i s] padi by (simp add: DiscoveryFrame pppoe_do_def discovery_ProcessPacket_def)
  next
    case (SessionFrame pkt)
    then show ?thesis using c s r
      by (cases "pkt_session pkt = j")
        (auto simp: pppoe_do_def session_ProcessPacket_def ProcessSessData_def FindSession_def split: option.split)
  next
    case (KickUser k)
    then show ?thesis using c s sendPADT_other
      by (cases "kick_session k = j") (auto simp: pppoe_do_def HandleKickUserNotify_def FindSession_def split: option.split)
  next
    case (PadtTimer sid)
    then show ?thesis using c s RemoveSession_other
      by (cases "sid = j") (auto simp: pppoe_do_def session_handle_timeout_def FindSession_def split: option.split)
  qed (use c s r rr in \<open>auto simp: pppoe_do_def HandleAuthResponse_def FindSession_def SetACName_def SetSvcName_def
      pppoe_SetAuthType_def pppoe_SetHostName_def split: option.split\<close>)
qed

section \<open>Properties\<close>



text \<open>
  C5. A session exists only for a client that can be reached under its address: after every run, for
  every session, a PADR has come from its client, addressed to us, with the very cookie the server
  makes for that address and sends in the PADO to that address.
\<close>

theorem pppoe_cookie_returned:
  fixes E evs mac ip seed
  defines "P \<equiv> fold (pppoe_do E) evs (CPPPOE_new mac ip seed)"
  assumes "m_sessionMgr P sid = Some s"
  shows "\<not> NOT_UNICAST (m_clientEth s) \<and>
    (\<exists>pkt. DiscoveryFrame pkt \<in> set evs \<and> pkt_code pkt = CODE_PADR \<and> h_dest pkt = mac \<and> h_source pkt = m_clientEth s \<and>
       (TAG_AC_COOKIE, genCookie E (m_clientEth s) mac seed) \<in> set (packet_tags pkt))"
proof -
  have "owners P sid = Some (m_sessionid s, m_clientEth s)" using assms(2) by (simp add: owners_def)
  then have "came_back E mac seed evs (m_clientEth s)"
    using pppoe_cookies.after_run [where E = E and mac = mac and ip = ip and seed = seed and evs = evs]
    by (auto simp: P_def cookie_hist_def)
  then show ?thesis by (simp add: came_back_def)
qed

theorem pppoe_cookie_returned_witness:
  "\<exists>s. m_sessionMgr (fold (pppoe_do demo_env) demo_hello demo_pppoe) 1 = Some s \<and> \<not> NOT_UNICAST (m_clientEth s) \<and>
     (\<exists>pkt. DiscoveryFrame pkt \<in> set demo_hello \<and> pkt_code pkt = CODE_PADR \<and> h_source pkt = m_clientEth s \<and>
        (TAG_AC_COOKIE, genCookie demo_env (m_clientEth s) demo_mac []) \<in> set (packet_tags pkt))"
proof -
  obtain s where s: "m_sessionMgr (fold (pppoe_do demo_env) demo_hello demo_pppoe) 1 = Some s"
    using demo_live by (auto simp: live_def)
  show ?thesis using s pppoe_cookie_returned [OF s [unfolded demo_pppoe_def]] by blast
qed

text \<open>
  C6. The identifiers of sessions: after every run each of 1 to 60000 is either free or the key of
  exactly one session, never both, none is free twice, and a session carries the identifier it is
  found under.
\<close>

theorem pppoe_session_ids:
  fixes E evs mac ip seed
  defines "P \<equiv> fold (pppoe_do E) evs (CPPPOE_new mac ip seed)"
  shows "distinct (m_SessionId (m_psessionid P)) \<and>
    dom (m_sessionMgr P) \<inter> set (m_SessionId (m_psessionid P)) = {} \<and>
    dom (m_sessionMgr P) \<union> set (m_SessionId (m_psessionid P)) = {1..60000} \<and>
    (\<forall>sid s. m_sessionMgr P sid = Some s \<longrightarrow> m_sessionid s = sid)"
  using pppoe_ids.after_run [where E = E and mac = mac and ip = ip and seed = seed and evs = evs] by (simp add: P_def ids_ok_def)

theorem pppoe_session_ids_witness:
  "m_sessionMgr (fold (pppoe_do demo_env) demo_hello demo_pppoe) 1 \<noteq> None \<and>
   1 \<notin> set (m_SessionId (m_psessionid (fold (pppoe_do demo_env) demo_hello demo_pppoe)))"
proof -
  have "m_sessionMgr (fold (pppoe_do demo_env) demo_hello demo_pppoe) 1 \<noteq> None" using demo_live by (auto simp: live_def)
  then show ?thesis
    using pppoe_session_ids [where E = demo_env and evs = demo_hello and mac = demo_mac and ip = "0x0A000001" and seed = "[]",
        folded demo_pppoe_def] by blast
qed



text \<open>
  C16. The discovery stage completes: while an identifier is free, the PADI of a client is answered by a
  PADO to its address with its Host-Uniq, and a PADR that returns any cookie of that PADO gives the
  client the next identifier, a PADS that names it, and a session whose PPP negotiation has started.
\<close>

theorem pppoe_handshake:
  fixes E P m hu
  defines "P1 \<equiv> pppoe_do E (DiscoveryFrame (client_PADI m hu)) P"
  assumes "length m = 6" "\<not> NOT_UNICAST m" "length (m_mac P) = 6" "length hu \<le> 1000"
    and "ids_ok P" "pppoe_fault P = None" "m_SessionId (m_psessionid P) = sid # rest"
    and "length (m_acName P) \<le> 199" "length (m_svcName P) \<le> 199"
  shows "\<exists>pado. pppoe_out P1 = pppoe_out P @ [SentDiscovery pado] \<and> h_dest pado = m \<and>
    (TAG_HOST_UNIQ, hu) \<in> set (packet_tags pado) \<and> (\<exists>c. (TAG_AC_COOKIE, c) \<in> set (packet_tags pado)) \<and>
    (\<forall>c P2. (TAG_AC_COOKIE, c) \<in> set (packet_tags pado) \<longrightarrow>
       P2 = pppoe_do E (DiscoveryFrame (client_PADR (m_mac P) m c hu)) P1 \<longrightarrow>
       owners P2 = (owners P)(sid \<mapsto> (sid, m)) \<and> pppoe_fault P2 = None \<and>
       SentDiscovery (mk_frame m (m_mac P) ETH_PPPOE_DISCOVERY CODE_PADS sid
         (mk_tag TAG_SERVICE_NAME (m_svcName P) @ mk_tag TAG_HOST_UNIQ hu)) \<in> set (pppoe_out P2) \<and>
       map_option m_ppp (m_sessionMgr P2 sid) = Some (ppp_do PppStart (ppp_new (pppoe_authType P) (pppoe_hostName P)
         (lcp_random E (pppoe_made P)) (chap_random E (pppoe_made P)))))"
proof -
  obtain d where d: "P1 = pppoe_call (SentDiscovery (pado_of E m hu P)) (P\<lparr>m_disc := d\<rparr>)"
    using PADI_answer [of m hu P E] assms by (auto simp: P1_def)
  have i: "ids_ok P1" "owners P1 = owners P" using assms(6) by (simp_all add: d ids_ok_def owners_def fun_eq_iff)
  have P1: "m_mac P1 = m_mac P" "m_cookieSeed P1 = m_cookieSeed P" "m_svcName P1 = m_svcName P" "pppoe_fault P1 = None"
      "m_psessionid P1 = m_psessionid P" "pppoe_authType P1 = pppoe_authType P" "pppoe_hostName P1 = pppoe_hostName P"
      "pppoe_made P1 = pppoe_made P" "pppoe_out P1 = pppoe_out P @ [SentDiscovery (pado_of E m hu P)]"
    using assms(7) by (simp_all add: d)
  let ?c = "genCookie E m (m_mac P) (m_cookieSeed P)"
  define P2 where "P2 = pppoe_do E (DiscoveryFrame (client_PADR (m_mac P) m ?c hu)) P1"
  have p2: "owners P2 = (owners P)(sid \<mapsto> (sid, m)) \<and> pppoe_fault P2 = None \<and>
       SentDiscovery (mk_frame m (m_mac P) ETH_PPPOE_DISCOVERY CODE_PADS sid
         (mk_tag TAG_SERVICE_NAME (m_svcName P) @ mk_tag TAG_HOST_UNIQ hu)) \<in> set (pppoe_out P2) \<and>
       map_option m_ppp (m_sessionMgr P2 sid) = Some (ppp_do PppStart (ppp_new (pppoe_authType P) (pppoe_hostName P)
         (lcp_random E (pppoe_made P)) (chap_random E (pppoe_made P))))"
    using PADR_answer [of m P1 hu sid rest E] assms(2-10) by (simp add: P1 i P2_def)
  have t: "packet_tags (pado_of E m hu P) = [(TAG_AC_NAME, m_acName P), (TAG_SERVICE_NAME, m_svcName P), (TAG_AC_COOKIE, ?c),
      (TAG_HOST_UNIQ, hu)]"
    using assms by (intro pado_tags) simp_all
  have h: "h_dest (pado_of E m hu P) = m" using assms by (simp add: pado_of_def)
  show ?thesis using p2 P1(9) h by (intro exI [of _ "pado_of E m hu P"]) (simp add: t P2_def)
qed

theorem pppoe_handshake_witness:
  "\<exists>pado. pppoe_out (pppoe_do demo_env (DiscoveryFrame (client_PADI demo_client [7])) demo_pppoe) = [SentDiscovery pado] \<and>
     h_dest pado = demo_client"
proof -
  obtain rest where "m_SessionId (m_psessionid demo_pppoe) = 1 # rest" using demo_ids by blast
  moreover have "m_mac demo_pppoe = demo_mac" "ids_ok demo_pppoe" "pppoe_fault demo_pppoe = None" "pppoe_out demo_pppoe = []"
      "length (m_acName demo_pppoe) \<le> 199" "length (m_svcName demo_pppoe) \<le> 199"
    using ids_ok_new by (simp_all add: demo_pppoe_def) (simp_all add: CPPPOE_new_def)
  ultimately show ?thesis
    using pppoe_handshake [of demo_client demo_pppoe "[7]" 1 rest demo_env] demo_addresses by auto
qed


text \<open>A PADR without a service name that returns the cookie and a long Host-Uniq.\<close>

definition long_PADR :: "byte list \<Rightarrow> byte list \<Rightarrow> byte list \<Rightarrow> byte list \<Rightarrow> byte list" where
  "long_PADR mac m cookie hu = mk_frame mac m ETH_PPPOE_DISCOVERY CODE_PADR 0
     (mk_tag TAG_AC_COOKIE cookie @ mk_tag TAG_HOST_UNIQ hu)"

lemma long_PADR_fails:
  assumes "length m = 6" "\<not> NOT_UNICAST m" "length (m_mac P) = 6" "1460 < length hu" "length hu \<le> 1474" "pppoe_fault P = None"
  shows "pppoe_fault (pppoe_do E (DiscoveryFrame (long_PADR (m_mac P) m (genCookie E m (m_mac P) (m_cookieSeed P)) hu)) P) =
    Some BufferOverrun"
proof -
  let ?c = "genCookie E m (m_mac P) (m_cookieSeed P)"
  let ?pkt = "long_PADR (m_mac P) m ?c hu"
  define R where "R = padr_parse ?pkt (padr_reset P)"
  have f: "h_source ?pkt = m" "h_dest ?pkt = m_mac P" "pkt_code ?pkt = CODE_PADR" "ver_type_ok ?pkt"
      "pkt_length ?pkt + HDR_SIZE = length ?pkt" "\<not> length ?pkt < HDR_SIZE"
    using assms by (simp_all add: long_PADR_def)
  have R: "m_disc R = (m_disc (padr_reset P))\<lparr>max_ppp_payload := 0,
      receivedCookie := copy_tag TAG_AC_COOKIE ?c (receivedCookie (m_disc (padr_reset P))),
      hostUniq := copy_tag TAG_HOST_UNIQ hu (hostUniq (m_disc (padr_reset P)))\<rparr>"
    using assms by (simp add: R_def padr_parse_def long_PADR_def parsePacket_frame parsePADRTags_def)
  have m: "m_mac (padr_reset P) = m_mac P" "m_mac R = m_mac P" "m_cookieSeed R = m_cookieSeed P"
    by (simp_all add: R_def padr_parse_def padr_reset_def Let_def)
  have ok: "cookie_ok E m R"
    using copy_tag_value(2) [of ?c TAG_AC_COOKIE "receivedCookie (m_disc (padr_reset P))"] by (simp add: cookie_ok_def R m)
  have "t_type (requestedService (m_disc R)) = 0" by (simp add: R padr_reset_def Let_def)
  then have "processPADR E ?pkt P = sendErrorPADS m TAG_SERVICE_NAME_ERROR no_service_msg R"
    unfolding processPADR_def Let_def m(1) f R_def [symmetric] using assms ok by simp
  moreover have "length (mk_tag TAG_SERVICE_NAME_ERROR no_service_msg @ opt_tag (relayId (m_disc R)) @ opt_tag (hostUniq (m_disc R))) > 1508"
    using assms by (simp add: R msg_lengths)
  ultimately have "pppoe_fault (processPADR E ?pkt P) = Some BufferOverrun" by (simp add: sendErrorPADS_def Let_def)
  then show ?thesis using f assms by (simp add: pppoe_do_def discovery_ProcessPacket_def)
qed

definition demo_long_PADR :: "byte list" where
  "demo_long_PADR = long_PADR demo_mac demo_client (genCookie demo_env demo_client demo_mac []) (replicate 1470 0)"


text \<open>
  The error PADS has no room for what it returns: a PADR with a valid cookie, no service name and a
  Host-Uniq of 1461 to 1474 bytes, which fits a frame, is answered by writing past the end of the
  packet's payload, in every state of the server.
\<close>

theorem pppoe_error_pads_overrun:
  assumes "length m = 6" "\<not> NOT_UNICAST m" "length (m_mac P) = 6" "1460 < length hu" "length hu \<le> 1474" "pppoe_fault P = None"
  shows "pppoe_fault (pppoe_do E (DiscoveryFrame (long_PADR (m_mac P) m (genCookie E m (m_mac P) (m_cookieSeed P)) hu)) P) =
    Some BufferOverrun"
  using assms by (rule long_PADR_fails)

theorem pppoe_error_pads_overrun_witness:
  "pppoe_fault (pppoe_do demo_env (DiscoveryFrame (long_PADR demo_mac demo_client (genCookie demo_env demo_client demo_mac [])
     (replicate 1470 0))) demo_pppoe) = Some BufferOverrun"
proof -
  have "m_mac demo_pppoe = demo_mac" "m_cookieSeed demo_pppoe = []" "pppoe_fault demo_pppoe = None"
    by (simp_all add: demo_pppoe_def CPPPOE_new_def)
  then show ?thesis
    using pppoe_error_pads_overrun [of demo_client demo_pppoe "replicate 1470 0" demo_env] demo_addresses by simp
qed

end
