(* ===== verification/Vpp_Pool.thy ===== *)
theory Vpp_Pool
  imports Bras_Prelude
begin

text \<open>
  The fixed-size object pool of \<^verbatim>\<open>src/src/VPP/src/vppinfra/pool.h\<close>, the allocator behind every
  pointer structure of the forwarding plane. A pool is a vector of elements with the header
  \<^verbatim>\<open>pool_header_t\<close>: the vector of free indices, used as a stack, and the free bitmap. The locale
  \<open>allocator\<close> states what the clients (the out-of-order segment list of \<open>Svm_Fifo\<close>) rely on.
\<close>

record 'a pool =
  pool_vec :: "'a list"
  free_indices :: "nat list"
  free_bitmap :: "nat \<Rightarrow> bool"

definition pool_empty :: "'a pool" where
  "pool_empty = \<lparr>pool_vec = [], free_indices = [], free_bitmap = (\<lambda>_. False)\<rparr>"

definition pool_is_free_index :: "'a pool \<Rightarrow> nat \<Rightarrow> bool" where
  "pool_is_free_index P i = (if i < length (pool_vec P) then free_bitmap P i else True)"

text \<open>\<^verbatim>\<open>pool_get_aligned\<close>: pop the free list, or extend the vector with a zeroed element \<open>z\<close>.\<close>

definition pool_get :: "'a \<Rightarrow> 'a pool \<Rightarrow> nat \<times> 'a pool" where
  "pool_get z P =
     (let l = length (free_indices P)
      in if l > 0
         then let i = free_indices P ! (l - 1)
              in (i, P\<lparr>free_bitmap := (free_bitmap P)(i := False),
                       free_indices := take (l - 1) (free_indices P)\<rparr>)
         else (length (pool_vec P), P\<lparr>pool_vec := pool_vec P @ [z]\<rparr>))"

definition pool_put_index :: "'a pool \<Rightarrow> nat \<Rightarrow> 'a pool" where
  "pool_put_index P i =
     P\<lparr>free_bitmap := (free_bitmap P)(i := True), free_indices := free_indices P @ [i]\<rparr>"

definition pool_elt_at_index :: "'a pool \<Rightarrow> nat \<Rightarrow> 'a" where
  "pool_elt_at_index P i = pool_vec P ! i"

definition pool_elts :: "'a pool \<Rightarrow> nat" where
  "pool_elts P = length (pool_vec P) - length (free_indices P)"

text \<open>A store through a pointer into the pool.\<close>

definition pool_write :: "'a pool \<Rightarrow> nat \<Rightarrow> 'a \<Rightarrow> 'a pool" where
  "pool_write P i x = P\<lparr>pool_vec := (pool_vec P)[i := x]\<rparr>"

text \<open>\<^verbatim>\<open>pool_validate\<close>: the free list and the free bitmap agree.\<close>

definition pool_ok :: "'a pool \<Rightarrow> bool" where
  "pool_ok P \<longleftrightarrow> distinct (free_indices P) \<and>
     (\<forall>i \<in> set (free_indices P). i < length (pool_vec P)) \<and>
     (\<forall>i. free_bitmap P i \<longleftrightarrow> i \<in> set (free_indices P))"

definition pool_live :: "'a pool \<Rightarrow> nat set" where
  "pool_live P = {i. \<not> pool_is_free_index P i}"

section \<open>The allocator contract\<close>

locale allocator =
  fixes ok :: "'p \<Rightarrow> bool" and live :: "'p \<Rightarrow> nat set" and at :: "'p \<Rightarrow> nat \<Rightarrow> 'a"
    and get :: "'a \<Rightarrow> 'p \<Rightarrow> nat \<times> 'p" and put :: "'p \<Rightarrow> nat \<Rightarrow> 'p"
    and wr :: "'p \<Rightarrow> nat \<Rightarrow> 'a \<Rightarrow> 'p"
  assumes get_fresh: "ok P \<Longrightarrow> fst (get z P) \<notin> live P"
    and get_ok: "ok P \<Longrightarrow> ok (snd (get z P))"
    and get_live: "ok P \<Longrightarrow> live (snd (get z P)) = insert (fst (get z P)) (live P)"
    and get_at: "ok P \<Longrightarrow> i \<in> live P \<Longrightarrow> at (snd (get z P)) i = at P i"
    and put_ok: "ok P \<Longrightarrow> i \<in> live P \<Longrightarrow> ok (put P i)"
    and put_live: "ok P \<Longrightarrow> i \<in> live P \<Longrightarrow> live (put P i) = live P - {i}"
    and put_at: "at (put P i) j = at P j"
    and wr_ok: "ok P \<Longrightarrow> ok (wr P i x)"
    and wr_live: "live (wr P i x) = live P"
    and wr_at: "i \<in> live P \<Longrightarrow> at (wr P i x) j = (if j = i then x else at P j)"
begin

text \<open>Allocate, store, read: the value comes back and every older element keeps its own.\<close>

lemma get_wr_at:
  assumes "ok P"
  shows "at (wr (snd (get z P)) (fst (get z P)) x) (fst (get z P)) = x"
    and "i \<in> live P \<Longrightarrow> at (wr (snd (get z P)) (fst (get z P)) x) i = at P i"
proof -
  have l: "fst (get z P) \<in> live (snd (get z P))"
    using get_live [OF assms] by simp
  show "at (wr (snd (get z P)) (fst (get z P)) x) (fst (get z P)) = x"
    using wr_at [OF l] by simp
  show "i \<in> live P \<Longrightarrow> at (wr (snd (get z P)) (fst (get z P)) x) i = at P i"
    using wr_at [OF l] get_fresh [OF assms] get_at [OF assms] by auto
qed

text \<open>Two allocations in a row return different elements.\<close>

lemma get_get_distinct:
  assumes "ok P"
  shows "fst (get z (snd (get z P))) \<noteq> fst (get z P)"
  using get_fresh [OF get_ok [OF assms]] get_live [OF assms] by (metis insertI1)

lemma get_put_live:
  assumes "ok P"
  shows "live (put (snd (get z P)) (fst (get z P))) = live P"
  using put_live [OF get_ok [OF assms], of "fst (get z P)" z] get_live [OF assms] get_fresh [OF assms]
  by auto

end

lemma pool_live_eq: "pool_ok P \<Longrightarrow> pool_live P = {..<length (pool_vec P)} - set (free_indices P)"
  by (auto simp: pool_live_def pool_ok_def pool_is_free_index_def)

lemma take_butlast_set:
  assumes "distinct xs" and "xs \<noteq> []"
  shows "set (take (length xs - Suc 0) xs) = set xs - {xs ! (length xs - Suc 0)}"
proof -
  obtain ys y where xs: "xs = ys @ [y]" using assms(2) by (metis append_butlast_last_id)
  then show ?thesis using assms(1) by auto
qed

lemma pool_ok_get: "pool_ok P \<Longrightarrow> pool_ok (snd (pool_get z P))"
  by (auto simp: pool_ok_def pool_get_def Let_def take_butlast_set)

lemma pool_live_get:
  assumes "pool_ok P"
  shows "fst (pool_get z P) \<notin> pool_live P"
    and "pool_live (snd (pool_get z P)) = insert (fst (pool_get z P)) (pool_live P)"
proof -
  have last: "free_indices P \<noteq> [] \<Longrightarrow>
      free_indices P ! (length (free_indices P) - 1) \<in> set (free_indices P)"
    by (simp add: nth_mem)
  show "fst (pool_get z P) \<notin> pool_live P"
    using assms last by (simp add: pool_live_eq pool_get_def Let_def)
  show "pool_live (snd (pool_get z P)) = insert (fst (pool_get z P)) (pool_live P)"
    using assms last pool_ok_get [OF assms, of z]
    by (auto simp: pool_live_eq pool_get_def Let_def take_butlast_set pool_ok_def less_Suc_eq)
qed

interpretation vpool: allocator pool_ok pool_live pool_elt_at_index pool_get pool_put_index pool_write
proof unfold_locales
  fix P :: "'a pool" and z x :: 'a and i j :: nat
  show "pool_ok P \<Longrightarrow> fst (pool_get z P) \<notin> pool_live P"
    and "pool_ok P \<Longrightarrow> pool_ok (snd (pool_get z P))"
    and "pool_ok P \<Longrightarrow> pool_live (snd (pool_get z P)) = insert (fst (pool_get z P)) (pool_live P)"
    by (simp_all add: pool_live_get pool_ok_get)
  show "pool_ok P \<Longrightarrow> i \<in> pool_live P \<Longrightarrow> pool_elt_at_index (snd (pool_get z P)) i = pool_elt_at_index P i"
    by (auto simp: pool_live_eq pool_get_def pool_elt_at_index_def Let_def nth_append)
  show "pool_ok P \<Longrightarrow> i \<in> pool_live P \<Longrightarrow> pool_ok (pool_put_index P i)"
    by (auto simp: pool_ok_def pool_put_index_def pool_live_def pool_is_free_index_def split: if_splits)
  show "pool_ok P \<Longrightarrow> i \<in> pool_live P \<Longrightarrow> pool_live (pool_put_index P i) = pool_live P - {i}"
    by (auto simp: pool_put_index_def pool_live_def pool_is_free_index_def split: if_splits)
  show "pool_elt_at_index (pool_put_index P i) j = pool_elt_at_index P j"
    by (simp add: pool_elt_at_index_def pool_put_index_def)
  show "pool_ok P \<Longrightarrow> pool_ok (pool_write P i x)"
    by (simp add: pool_ok_def pool_write_def)
  show "pool_live (pool_write P i x) = pool_live P"
    by (simp add: pool_live_def pool_is_free_index_def pool_write_def)
  show "i \<in> pool_live P \<Longrightarrow> pool_elt_at_index (pool_write P i x) j =
      (if j = i then x else pool_elt_at_index P j)"
    by (auto simp: pool_elt_at_index_def pool_write_def pool_live_def pool_is_free_index_def
        split: if_splits)
qed

lemma pool_empty_ok [simp]: "pool_ok pool_empty" and pool_empty_live [simp]: "pool_live pool_empty = {}"
  by (simp_all add: pool_ok_def pool_empty_def pool_live_def pool_is_free_index_def)

lemma pool_elts_card:
  assumes "pool_ok P"
  shows "pool_elts P = card (pool_live P)"
proof -
  have "card (set (free_indices P)) = length (free_indices P)"
    using assms by (simp add: pool_ok_def distinct_card)
  moreover have "set (free_indices P) \<subseteq> {..<length (pool_vec P)}"
    using assms by (auto simp: pool_ok_def)
  ultimately show ?thesis
    by (simp add: pool_live_eq [OF assms] pool_elts_def card_Diff_subset)
qed

end
