(* ===== verification/Svm_Fifo.thy ===== *)
theory Svm_Fifo
  imports Vpp_Pool
begin

text \<open>
  The shared-memory byte FIFO of \<^verbatim>\<open>src/src/VPP/src/svm/svm_fifo.c\<close>: a ring of \<^verbatim>\<open>nitems\<close> bytes with
  in-order enqueue and dequeue, and out-of-order segments (data received ahead of the tail) kept
  in a doubly linked list threaded through a pool by index. Pointers into the pool are pool
  indices, the null pointer the invalid index. Reads and writes of \<^verbatim>\<open>u32\<close> fields are on natural
  numbers with the 32-bit wrap-around written out (\<open>u32_add\<close>, \<open>u32_sub\<close>). The release build is
  modelled: \<^verbatim>\<open>ASSERT\<close> expands to nothing. The three loops over the list are partial functions,
  \<open>None\<close> meaning that the loop does not end. The session back pointers of the structure, which no
  function of the file touches, are left out.
\<close>

section \<open>Data\<close>

record ooo_segment =
  seg_next :: nat
  seg_prev :: nat
  seg_start :: nat
  seg_length :: nat

record svm_fifo =
  cursize :: nat
  nitems :: nat
  has_event :: nat
  head :: nat
  tail :: nat
  ooo_segments :: "ooo_segment pool"
  ooos_list_head :: nat
  ooos_newest :: nat
  f_data :: "byte list"

abbreviation (input) OOO_SEGMENT_INVALID_INDEX :: nat where
  "OOO_SEGMENT_INVALID_INDEX \<equiv> 4294967295"

abbreviation seg_at :: "svm_fifo \<Rightarrow> nat \<Rightarrow> ooo_segment" where
  "seg_at f i \<equiv> pool_elt_at_index (ooo_segments f) i"

definition seg_write :: "svm_fifo \<Rightarrow> nat \<Rightarrow> ooo_segment \<Rightarrow> svm_fifo" where
  "seg_write f i s = f\<lparr>ooo_segments := pool_write (ooo_segments f) i s\<rparr>"

text \<open>\<open>mem\<close> is what the allocator returns for the ring: nothing, or a block of the size asked for.\<close>

definition svm_fifo_create :: "nat \<Rightarrow> byte list option \<Rightarrow> svm_fifo option" where
  "svm_fifo_create data_size_in_bytes mem =
     (case mem of
        None \<Rightarrow> None
      | Some m \<Rightarrow> Some \<lparr>cursize = 0, nitems = data_size_in_bytes, has_event = 0, head = 0, tail = 0,
          ooo_segments = pool_empty, ooos_list_head = OOO_SEGMENT_INVALID_INDEX,
          ooos_newest = 0, f_data = m\<rparr>)"

section \<open>Positions\<close>

definition svm_fifo_max_dequeue :: "svm_fifo \<Rightarrow> nat" where
  "svm_fifo_max_dequeue f = cursize f"

definition svm_fifo_max_enqueue :: "svm_fifo \<Rightarrow> nat" where
  "svm_fifo_max_enqueue f = u32_sub (nitems f) (svm_fifo_max_dequeue f)"

definition svm_fifo_has_ooo_data :: "svm_fifo \<Rightarrow> bool" where
  "svm_fifo_has_ooo_data f \<longleftrightarrow> ooos_list_head f \<noteq> OOO_SEGMENT_INVALID_INDEX"

definition svm_fifo_set_event :: "svm_fifo \<Rightarrow> bool \<times> svm_fifo" where
  "svm_fifo_set_event f = (has_event f = 0, f\<lparr>has_event := 1\<rparr>)"

definition svm_fifo_unset_event :: "svm_fifo \<Rightarrow> svm_fifo" where
  "svm_fifo_unset_event f = f\<lparr>has_event := 0\<rparr>"

definition svm_fifo_newest_ooo_segment :: "svm_fifo \<Rightarrow> nat option" where
  "svm_fifo_newest_ooo_segment f =
     (if ooos_newest f = OOO_SEGMENT_INVALID_INDEX then None else Some (ooos_newest f))"

definition svm_fifo_newest_ooo_segment_reset :: "svm_fifo \<Rightarrow> svm_fifo" where
  "svm_fifo_newest_ooo_segment_reset f = f\<lparr>ooos_newest := OOO_SEGMENT_INVALID_INDEX\<rparr>"

definition ooo_segment_distance_from_tail :: "svm_fifo \<Rightarrow> nat \<Rightarrow> nat" where
  "ooo_segment_distance_from_tail f pos =
     (if pos = tail f \<and> tail f = head f then nitems f
      else u32_sub (u32_add (nitems f) pos) (tail f) mod nitems f)"

definition ooo_segment_distance_to_tail :: "svm_fifo \<Rightarrow> nat \<Rightarrow> nat" where
  "ooo_segment_distance_to_tail f pos = u32_sub (u32_add (nitems f) (tail f)) pos mod nitems f"

definition ooo_segment_offset :: "svm_fifo \<Rightarrow> nat \<Rightarrow> nat" where
  "ooo_segment_offset f s = ooo_segment_distance_from_tail f (seg_start (seg_at f s))"

definition ooo_segment_end_offset :: "svm_fifo \<Rightarrow> nat \<Rightarrow> nat" where
  "ooo_segment_end_offset f s =
     u32_add (ooo_segment_distance_from_tail f (seg_start (seg_at f s))) (seg_length (seg_at f s))"

definition position_lt :: "svm_fifo \<Rightarrow> nat \<Rightarrow> nat \<Rightarrow> bool" where
  "position_lt f a b \<longleftrightarrow> ooo_segment_distance_from_tail f a < ooo_segment_distance_from_tail f b"

definition position_leq :: "svm_fifo \<Rightarrow> nat \<Rightarrow> nat \<Rightarrow> bool" where
  "position_leq f a b \<longleftrightarrow> ooo_segment_distance_from_tail f a \<le> ooo_segment_distance_from_tail f b"

definition position_gt :: "svm_fifo \<Rightarrow> nat \<Rightarrow> nat \<Rightarrow> bool" where
  "position_gt f a b \<longleftrightarrow> ooo_segment_distance_from_tail f a > ooo_segment_distance_from_tail f b"

definition position_diff :: "svm_fifo \<Rightarrow> nat \<Rightarrow> nat \<Rightarrow> nat" where
  "position_diff f posa posb =
     u32_sub (ooo_segment_distance_from_tail f posa) (ooo_segment_distance_from_tail f posb)"

definition ooo_segment_end_pos :: "svm_fifo \<Rightarrow> nat \<Rightarrow> nat" where
  "ooo_segment_end_pos f s = u32_add (seg_start (seg_at f s)) (seg_length (seg_at f s)) mod nitems f"

section \<open>The out-of-order segment list\<close>

definition zero_segment :: ooo_segment where
  "zero_segment = \<lparr>seg_next = 0, seg_prev = 0, seg_start = 0, seg_length = 0\<rparr>"

definition ooo_segment_new :: "svm_fifo \<Rightarrow> nat \<Rightarrow> nat \<Rightarrow> nat \<times> svm_fifo" where
  "ooo_segment_new f start len =
     (let (i, P) = pool_get zero_segment (ooo_segments f)
      in (i, seg_write (f\<lparr>ooo_segments := P\<rparr>) i
            \<lparr>seg_next = OOO_SEGMENT_INVALID_INDEX, seg_prev = OOO_SEGMENT_INVALID_INDEX,
             seg_start = start, seg_length = len\<rparr>))"

definition ooo_segment_del :: "svm_fifo \<Rightarrow> nat \<Rightarrow> svm_fifo" where
  "ooo_segment_del f index =
     (let cur = seg_at f index;
          f = (if seg_next cur \<noteq> OOO_SEGMENT_INVALID_INDEX
               then seg_write f (seg_next cur)
                      ((seg_at f (seg_next cur))\<lparr>seg_prev := seg_prev cur\<rparr>)
               else f);
          f = (if seg_prev cur \<noteq> OOO_SEGMENT_INVALID_INDEX
               then seg_write f (seg_prev cur)
                      ((seg_at f (seg_prev cur))\<lparr>seg_next := seg_next cur\<rparr>)
               else f\<lparr>ooos_list_head := seg_next cur\<rparr>)
      in f\<lparr>ooo_segments := pool_put_index (ooo_segments f) index\<rparr>)"

text \<open>The loop ``find first segment that starts after new segment''.\<close>

partial_function (option) ooo_find_start :: "svm_fifo \<Rightarrow> nat \<Rightarrow> nat \<Rightarrow> nat option" where
  "ooo_find_start f normalized_position s =
     (if seg_next (seg_at f s) \<noteq> OOO_SEGMENT_INVALID_INDEX \<and>
         position_lt f (seg_start (seg_at f s)) normalized_position
      then ooo_find_start f normalized_position (seg_next (seg_at f s))
      else Some s)"

text \<open>The loop that removes the completely overlapped segments in the tail.\<close>

partial_function (option) ooo_drop_covered ::
    "svm_fifo \<Rightarrow> nat \<Rightarrow> nat \<Rightarrow> (nat \<times> svm_fifo) option" where
  "ooo_drop_covered f it normalized_end_position =
     (if it \<noteq> OOO_SEGMENT_INVALID_INDEX \<and>
         position_leq f (ooo_segment_end_pos f it) normalized_end_position
      then ooo_drop_covered (ooo_segment_del f it) (seg_next (seg_at f it)) normalized_end_position
      else Some (it, f))"

text \<open>The code from the label \<^verbatim>\<open>check_tail\<close> to the end of \<^verbatim>\<open>ooo_segment_add\<close>.\<close>

definition ooo_check_tail :: "svm_fifo \<Rightarrow> nat \<Rightarrow> nat \<Rightarrow> nat \<Rightarrow> svm_fifo option" where
  "ooo_check_tail f s s_end_pos normalized_end_position =
     (if position_gt f normalized_end_position s_end_pos
      then let f = seg_write f s ((seg_at f s)\<lparr>seg_length :=
                     position_diff f normalized_end_position (seg_start (seg_at f s))\<rparr>)
           in (case ooo_drop_covered f (seg_next (seg_at f s)) normalized_end_position of
                 None \<Rightarrow> None
               | Some (it, f) \<Rightarrow>
                   let f = (if it \<noteq> OOO_SEGMENT_INVALID_INDEX \<and>
                               position_leq f (seg_start (seg_at f it)) normalized_end_position
                            then ooo_segment_del
                                   (seg_write f s ((seg_at f s)\<lparr>seg_length :=
                                      position_diff f (ooo_segment_end_pos f it)
                                        (seg_start (seg_at f s))\<rparr>)) it
                            else f)
                   in Some (f\<lparr>ooos_newest := s\<rparr>))
      else Some f)"

text \<open>The two branches ``No overlap'': link a new segment before or after \<open>s\<close>.\<close>

definition ooo_link_before :: "svm_fifo \<Rightarrow> nat \<Rightarrow> nat \<Rightarrow> nat \<Rightarrow> svm_fifo" where
  "ooo_link_before f s start len =
     (let (new_index, f) = ooo_segment_new f start len;
          sp = seg_prev (seg_at f s);
          f = (if sp \<noteq> OOO_SEGMENT_INVALID_INDEX
               then let f = seg_write f new_index ((seg_at f new_index)\<lparr>seg_prev := sp\<rparr>)
                    in seg_write f sp ((seg_at f sp)\<lparr>seg_next := new_index\<rparr>)
               else f\<lparr>ooos_list_head := new_index\<rparr>);
          f = seg_write f new_index ((seg_at f new_index)\<lparr>seg_next := s\<rparr>);
          f = seg_write f s ((seg_at f s)\<lparr>seg_prev := new_index\<rparr>)
      in f\<lparr>ooos_newest := new_index\<rparr>)"

definition ooo_link_after :: "svm_fifo \<Rightarrow> nat \<Rightarrow> nat \<Rightarrow> nat \<Rightarrow> svm_fifo" where
  "ooo_link_after f s start len =
     (let (new_index, f) = ooo_segment_new f start len;
          f = seg_write f new_index ((seg_at f new_index)\<lparr>seg_prev := s\<rparr>);
          f = seg_write f s ((seg_at f s)\<lparr>seg_next := new_index\<rparr>)
      in f\<lparr>ooos_newest := new_index\<rparr>)"

text \<open>What is done once the loop has found the segment \<open>s\<close>.\<close>

definition ooo_segment_place :: "svm_fifo \<Rightarrow> nat \<Rightarrow> nat \<Rightarrow> nat \<Rightarrow> nat \<Rightarrow> svm_fifo option" where
  "ooo_segment_place f s normalized_position normalized_end_position len =
     (let prev = seg_prev (seg_at f s)
      in if prev \<noteq> OOO_SEGMENT_INVALID_INDEX \<and>
            position_leq f normalized_position (ooo_segment_end_pos f prev)
         then ooo_check_tail f prev (ooo_segment_end_pos f prev) normalized_end_position
         else let s_end_pos = ooo_segment_end_pos f s
              in if position_lt f normalized_end_position (seg_start (seg_at f s))
                 then Some (ooo_link_before f s normalized_position len)
                 else if position_gt f normalized_position s_end_pos
                 then Some (ooo_link_after f s normalized_position len)
                 else let f = (if position_lt f normalized_position (seg_start (seg_at f s))
                               then (seg_write f s ((seg_at f s)\<lparr>
                                      seg_start := normalized_position,
                                      seg_length := position_diff f s_end_pos
                                        normalized_position\<rparr>))\<lparr>ooos_newest := s\<rparr>
                               else f)
                      in ooo_check_tail f s s_end_pos normalized_end_position)"

definition ooo_segment_add :: "svm_fifo \<Rightarrow> nat \<Rightarrow> nat \<Rightarrow> svm_fifo option" where
  "ooo_segment_add f offset len =
     (let normalized_position = u32_add (tail f) offset mod nitems f;
          normalized_end_position = u32_add (u32_add (tail f) offset) len mod nitems f;
          f = f\<lparr>ooos_newest := OOO_SEGMENT_INVALID_INDEX\<rparr>
      in if ooos_list_head f = OOO_SEGMENT_INVALID_INDEX
         then let (s, f) = ooo_segment_new f normalized_position len
              in Some (f\<lparr>ooos_list_head := s, ooos_newest := s\<rparr>)
         else (case ooo_find_start f normalized_position (ooos_list_head f) of
             None \<Rightarrow> None
           | Some s \<Rightarrow> ooo_segment_place f s normalized_position normalized_end_position len))"

text \<open>
  \<^verbatim>\<open>ooo_segment_try_collect\<close>: the loop removes the segments the tail has passed and moves the tail
  over the rest of the one it landed in. The loop's variables are the segment, its distance to
  the tail and the fifo.
\<close>

partial_function (option) ooo_collect_loop ::
    "svm_fifo \<Rightarrow> nat \<Rightarrow> nat \<Rightarrow> nat \<Rightarrow> (nat \<times> svm_fifo) option" where
  "ooo_collect_loop f s diff n_bytes_enqueued =
     (if diff < 2147483648 \<and> diff < n_bytes_enqueued
      then if seg_length (seg_at f s) > diff
           then let bytes = u32_sub (seg_length (seg_at f s)) diff
                in Some (bytes, ooo_segment_del
                     (f\<lparr>tail := u32_add (tail f) bytes mod nitems f\<rparr>) s)
           else if seg_next (seg_at f s) \<noteq> OOO_SEGMENT_INVALID_INDEX
           then ooo_collect_loop (ooo_segment_del f s) (seg_next (seg_at f s))
                  (ooo_segment_distance_to_tail f (seg_start (seg_at f (seg_next (seg_at f s)))))
                  n_bytes_enqueued
           else Some (0, ooo_segment_del f s)
      else Some (0, f))"

definition ooo_segment_try_collect :: "svm_fifo \<Rightarrow> nat \<Rightarrow> (nat \<times> svm_fifo) option" where
  "ooo_segment_try_collect f n_bytes_enqueued =
     (let s = ooos_list_head f;
          diff = ooo_segment_distance_to_tail f (seg_start (seg_at f s))
      in if diff > n_bytes_enqueued then Some (0, f)
         else ooo_collect_loop f s diff n_bytes_enqueued)"

section \<open>Enqueue, dequeue, peek and drop\<close>

text \<open>
  \<^verbatim>\<open>svm_fifo_enqueue_internal\<close>. The source buffer is \<open>Some src\<close> with at least \<open>max_bytes\<close> bytes, or
  the null pointer, which accounts for a copy done elsewhere.
\<close>

definition svm_fifo_copy_in :: "svm_fifo \<Rightarrow> nat \<Rightarrow> byte list \<Rightarrow> svm_fifo" where
  "svm_fifo_copy_in f total_bytes src =
     (let ni = nitems f;
          first = (if u32_sub ni (tail f) < total_bytes then u32_sub ni (tail f) else total_bytes);
          f = f\<lparr>f_data := memcpy_at (f_data f) (tail f) src first, tail := u32_add (tail f) first\<rparr>;
          f = f\<lparr>tail := (if tail f = ni then 0 else tail f)\<rparr>;
          second = u32_sub total_bytes first
      in if second \<noteq> 0
         then let f = f\<lparr>f_data := memcpy_at (f_data f) (tail f) (drop first src) second,
                        tail := u32_add (tail f) second\<rparr>
              in f\<lparr>tail := (if tail f = ni then 0 else tail f)\<rparr>
         else f)"

definition svm_fifo_enqueue_internal ::
    "svm_fifo \<Rightarrow> nat \<Rightarrow> byte list option \<Rightarrow> (int \<times> svm_fifo) option" where
  "svm_fifo_enqueue_internal f max_bytes copy_from_here =
     (let cs = svm_fifo_max_dequeue f;
          f = f\<lparr>ooos_newest := OOO_SEGMENT_INVALID_INDEX\<rparr>
      in if cs = nitems f then Some (-2, f)
         else let ni = nitems f;
                  total = (if u32_sub ni cs < max_bytes then u32_sub ni cs else max_bytes);
                  (total, f) =
                    (case copy_from_here of
                       Some src \<Rightarrow> (total, svm_fifo_copy_in f total src)
                     | None \<Rightarrow> (max_bytes, f\<lparr>tail := u32_add (tail f) max_bytes mod ni\<rparr>))
              in (case (if ooos_list_head f \<noteq> OOO_SEGMENT_INVALID_INDEX
                        then ooo_segment_try_collect f total else Some (0, f)) of
                    None \<Rightarrow> None
                  | Some (bytes, f) \<Rightarrow>
                      let total = u32_add total bytes
                      in Some (int total, f\<lparr>cursize := u32_add (cursize f) total\<rparr>)))"

definition svm_fifo_enqueue_nowait ::
    "svm_fifo \<Rightarrow> nat \<Rightarrow> byte list option \<Rightarrow> (int \<times> svm_fifo) option" where
  "svm_fifo_enqueue_nowait f max_bytes copy_from_here =
     svm_fifo_enqueue_internal f max_bytes copy_from_here"

definition svm_fifo_copy_at :: "svm_fifo \<Rightarrow> nat \<Rightarrow> nat \<Rightarrow> byte list \<Rightarrow> svm_fifo" where
  "svm_fifo_copy_at f normalized_offset total_bytes src =
     (let ni = nitems f;
          first = (if u32_sub ni normalized_offset < total_bytes
                   then u32_sub ni normalized_offset else total_bytes);
          f = f\<lparr>f_data := memcpy_at (f_data f) normalized_offset src first\<rparr>;
          second = u32_sub total_bytes first
      in if second \<noteq> 0
         then f\<lparr>f_data := memcpy_at (f_data f) (u32_add normalized_offset first mod ni)
                             (drop first src) second\<rparr>
         else f)"

definition svm_fifo_enqueue_with_offset ::
    "svm_fifo \<Rightarrow> nat \<Rightarrow> nat \<Rightarrow> byte list \<Rightarrow> (int \<times> svm_fifo) option" where
  "svm_fifo_enqueue_with_offset f offset required_bytes copy_from_here =
     (let f = f\<lparr>ooos_newest := OOO_SEGMENT_INVALID_INDEX\<rparr>;
          cs = svm_fifo_max_dequeue f;
          ni = nitems f;
          normalized_offset = u32_add (tail f) offset mod ni;
          offset_from_tail = u32_sub (u32_add ni normalized_offset) (tail f) mod ni
      in if u32_add required_bytes offset_from_tail > u32_sub ni cs then Some (-1, f)
         else (case ooo_segment_add f offset required_bytes of
             None \<Rightarrow> None
           | Some f \<Rightarrow> Some (0, svm_fifo_copy_at f normalized_offset required_bytes copy_from_here)))"

definition svm_fifo_dequeue_internal ::
    "svm_fifo \<Rightarrow> nat \<Rightarrow> bool \<Rightarrow> int \<times> byte list \<times> svm_fifo" where
  "svm_fifo_dequeue_internal f max_bytes copy_here =
     (let cs = svm_fifo_max_dequeue f
      in if cs = 0 then (-2, [], f)
         else let ni = nitems f;
                  total = (if cs < max_bytes then cs else max_bytes);
                  (total, out, f) =
                    (if copy_here
                     then let first = (if u32_sub ni (head f) < total
                                       then u32_sub ni (head f) else total);
                              out = take first (drop (head f) (f_data f));
                              f = f\<lparr>head := u32_add (head f) first\<rparr>;
                              f = f\<lparr>head := (if head f = ni then 0 else head f)\<rparr>;
                              second = u32_sub total first
                          in if second \<noteq> 0
                             then let out = out @ take second (drop (head f) (f_data f));
                                      f = f\<lparr>head := u32_add (head f) second\<rparr>;
                                      f = f\<lparr>head := (if head f = ni then 0 else head f)\<rparr>
                                  in (total, out, f)
                             else (total, out, f)
                     else (max_bytes, [], f\<lparr>head := u32_add (head f) max_bytes mod ni\<rparr>))
              in (int total, out, f\<lparr>cursize := u32_sub (cursize f) total\<rparr>))"

definition svm_fifo_dequeue_nowait :: "svm_fifo \<Rightarrow> nat \<Rightarrow> bool \<Rightarrow> int \<times> byte list \<times> svm_fifo" where
  "svm_fifo_dequeue_nowait f max_bytes copy_here = svm_fifo_dequeue_internal f max_bytes copy_here"

definition svm_fifo_peek :: "svm_fifo \<Rightarrow> nat \<Rightarrow> nat \<Rightarrow> int \<times> byte list" where
  "svm_fifo_peek f relative_offset max_bytes =
     (let cs = svm_fifo_max_dequeue f
      in if cs < relative_offset then (-2, [])
         else let ni = nitems f;
                  real_head = u32_add (head f) relative_offset;
                  real_head = (if real_head \<ge> ni then u32_sub real_head ni else real_head);
                  total = (if u32_sub cs relative_offset < max_bytes
                           then u32_sub cs relative_offset else max_bytes);
                  first = (if u32_sub ni real_head < total then u32_sub ni real_head else total);
                  out = take first (drop real_head (f_data f));
                  second = u32_sub total first;
                  out = (if second \<noteq> 0 then out @ take second (f_data f) else out)
              in (int total, out))"

definition svm_fifo_dequeue_drop :: "svm_fifo \<Rightarrow> nat \<Rightarrow> int \<times> svm_fifo" where
  "svm_fifo_dequeue_drop f max_bytes =
     (let cs = svm_fifo_max_dequeue f
      in if cs = 0 then (-2, f)
         else let ni = nitems f;
                  total = (if cs < max_bytes then cs else max_bytes);
                  first = (if u32_sub ni (head f) < total then u32_sub ni (head f) else total);
                  f = f\<lparr>head := u32_add (head f) first\<rparr>;
                  f = f\<lparr>head := (if head f = ni then 0 else head f)\<rparr>;
                  second = u32_sub total first;
                  f = (if second \<noteq> 0
                       then let f = f\<lparr>head := u32_add (head f) second\<rparr>
                            in f\<lparr>head := (if head f = ni then 0 else head f)\<rparr>
                       else f)
              in (int total, f\<lparr>cursize := u32_sub (cursize f) total\<rparr>))"

definition svm_fifo_number_ooo_segments :: "svm_fifo \<Rightarrow> nat" where
  "svm_fifo_number_ooo_segments f = pool_elts (ooo_segments f)"

definition svm_fifo_first_ooo_segment :: "svm_fifo \<Rightarrow> ooo_segment" where
  "svm_fifo_first_ooo_segment f = seg_at f (ooos_list_head f)"

definition svm_fifo_init_pointers :: "svm_fifo \<Rightarrow> nat \<Rightarrow> svm_fifo" where
  "svm_fifo_init_pointers f pointer = f\<lparr>head := pointer mod nitems f, tail := pointer mod nitems f\<rparr>"

end
