(* ===== verification/Svm_Fifo_Spec.thy ===== *)
theory Svm_Fifo_Spec
  imports Svm_Fifo
begin

text \<open>
  Correctness of the shared-memory FIFO: the representation invariant (the ring, the linked list
  of out-of-order segments and the ordered intervals it stands for), the abstract FIFO it
  implements (a byte stream and the bytes received ahead of it) and the refinement of every
  operation. The locale \<open>byte_stream\<close> is the contract the transport code relies on.
\<close>

section \<open>Ordered intervals\<close>

text \<open>Half-open intervals of offsets from the tail, in order and neither overlapping nor adjacent.\<close>

fun ordered :: "nat \<Rightarrow> nat \<Rightarrow> (nat \<times> nat) list \<Rightarrow> bool" where
  "ordered lo R [] \<longleftrightarrow> lo \<le> R"
| "ordered lo R ((a, e) # os) \<longleftrightarrow> lo < a \<and> a < e \<and> e \<le> R \<and> ordered e R os"

definition cov :: "(nat \<times> nat) list \<Rightarrow> nat set" where
  "cov os = (\<Union>(a, e) \<in> set os. {a..<e})"

fun last_end :: "nat \<Rightarrow> (nat \<times> nat) list \<Rightarrow> nat" where
  "last_end lo [] = lo"
| "last_end lo ((a, e) # os) = last_end e os"

lemma cov_simps [simp]:
  "cov [] = {}" "cov ((a, e) # os) = {a..<e} \<union> cov os" "cov (xs @ ys) = cov xs \<union> cov ys"
  by (auto simp: cov_def)

lemma ordered_bound: "ordered lo R os \<Longrightarrow> lo \<le> R"
  by (induction os arbitrary: lo) auto

lemma ordered_append [simp]:
  "ordered lo R (xs @ ys) \<longleftrightarrow> ordered lo R xs \<and> ordered (last_end lo xs) R ys"
  by (induction xs arbitrary: lo) (auto dest: ordered_bound)

lemma last_end_append [simp]: "last_end lo (xs @ ys) = last_end (last_end lo xs) ys"
  by (induction xs arbitrary: lo) auto

lemma ordered_mem:
  "ordered lo R os \<Longrightarrow> (a, e) \<in> set os \<Longrightarrow> lo < a \<and> a < e \<and> e \<le> R"
  by (induction os arbitrary: lo) fastforce+

lemma ordered_mono: "ordered lo R os \<Longrightarrow> lo' \<le> lo \<Longrightarrow> ordered lo' R os"
  by (cases os) auto

lemma cov_bounds: "ordered lo R os \<Longrightarrow> x \<in> cov os \<Longrightarrow> lo < x \<and> x < R"
  by (auto simp: cov_def dest!: ordered_mem)

lemma last_end_le: "ordered lo R os \<Longrightarrow> lo \<le> last_end lo os \<and> last_end lo os \<le> R"
  by (induction os arbitrary: lo) (auto dest: ordered_bound, fastforce)

lemma ordered_length: "ordered lo R os \<Longrightarrow> lo + 2 * length os \<le> R"
  by (induction os arbitrary: lo) (auto, fastforce)

text \<open>What is left of the list once an interval that ends at \<open>e\<close> has swallowed what it reaches.\<close>

fun absorb :: "nat \<Rightarrow> (nat \<times> nat) list \<Rightarrow> nat \<times> (nat \<times> nat) list" where
  "absorb e [] = (e, [])"
| "absorb e ((b, c) # os) =
     (if c \<le> e then absorb e os else if b \<le> e then (c, os) else (e, (b, c) # os))"

lemma absorb_ok:
  assumes "ordered lo R os" and "absorb e os = (e', os')" and "e \<le> R" and "lo \<le> e"
  shows "ordered e' R os' \<and> e \<le> e' \<and> e' \<le> R \<and> cov os \<union> {lo..<e} = cov os' \<union> {lo..<e'}"
  using assms
proof (induction os arbitrary: lo)
  case Nil then show ?case by auto
next
  case (Cons p os)
  obtain b c where p: "p = (b, c)" by fastforce
  show ?case
  proof (cases "c \<le> e")
    case True
    then have "ordered e' R os' \<and> e \<le> e' \<and> e' \<le> R \<and> cov os \<union> {c..<e} = cov os' \<union> {c..<e'}"
      using Cons.IH [of c] Cons.prems p by auto
    moreover have "{lo..<e} = {lo..<c} \<union> {c..<e}" and "e \<le> e' \<Longrightarrow> {lo..<e'} = {lo..<c} \<union> {c..<e'}"
      using True Cons.prems p by auto
    ultimately show ?thesis using True Cons.prems p by auto
  next
    case False
    then show ?thesis using Cons.prems p by (auto split: if_splits)
  qed
qed

section \<open>The doubly linked list\<close>

definition hd_or :: "'a \<Rightarrow> 'a list \<Rightarrow> 'a" where
  "hd_or d xs = (case xs of [] \<Rightarrow> d | x # _ \<Rightarrow> x)"

definition last_or :: "'a \<Rightarrow> 'a list \<Rightarrow> 'a" where
  "last_or d xs = (if xs = [] then d else last xs)"

lemma hd_or_simps [simp]:
  "hd_or d [] = d" "hd_or d (x # xs) = x" "hd_or d (xs @ ys) = hd_or (hd_or d ys) xs"
  by (simp_all add: hd_or_def split: list.split)

lemma last_or_simps [simp]:
  "last_or d [] = d" "last_or d (x # xs) = last_or x xs" "last_or d (xs @ ys) = last_or (last_or d xs) ys"
  by (simp_all add: last_or_def)

fun dll :: "(nat \<Rightarrow> ooo_segment) \<Rightarrow> nat \<Rightarrow> nat list \<Rightarrow> nat \<Rightarrow> bool" where
  "dll h p [] n \<longleftrightarrow> True"
| "dll h p (i # is) n \<longleftrightarrow> seg_prev (h i) = p \<and> seg_next (h i) = hd_or n is \<and> dll h i is n"

lemma dll_append [simp]:
  "dll h p (xs @ ys) n \<longleftrightarrow> dll h p xs (hd_or n ys) \<and> dll h (last_or p xs) ys n"
  by (induction xs arbitrary: p) auto

lemma dll_cong:
  "(\<And>i. i \<in> set is \<Longrightarrow> seg_prev (h' i) = seg_prev (h i) \<and> seg_next (h' i) = seg_next (h i)) \<Longrightarrow>
   dll h' p is n = dll h p is n"
  by (induction "is" arbitrary: p) auto

text \<open>Redirecting the two ends of a piece of the list.\<close>

lemma dll_set_prev:
  assumes "dll h p ys n" and "distinct ys"
    and "\<And>i. i \<in> set ys \<Longrightarrow> h' i = (if i = hd_or d ys then (h i)\<lparr>seg_prev := p'\<rparr> else h i)"
  shows "dll h' p' ys n"
proof (cases ys)
  case (Cons y zs)
  then have "dll h' y zs n = dll h y zs n" using assms(2,3) by (intro dll_cong) auto
  then show ?thesis using assms Cons by auto
qed simp

lemma dll_set_next:
  assumes "dll h p xs n" and "distinct xs"
    and "\<And>i. i \<in> set xs \<Longrightarrow> h' i = (if i = last_or d xs then (h i)\<lparr>seg_next := n'\<rparr> else h i)"
  shows "dll h' p xs n'"
proof (cases xs rule: rev_cases)
  case (snoc zs z)
  then have "dll h' p zs z = dll h p zs z" using assms(2,3) by (intro dll_cong) auto
  then show ?thesis using assms snoc by auto
qed simp

section \<open>The linked list in the pool\<close>

abbreviation (input) INV :: nat where "INV \<equiv> 4294967295"

definition links :: "svm_fifo \<Rightarrow> nat list \<Rightarrow> bool" where
  "links f is \<longleftrightarrow> pool_ok (ooo_segments f) \<and> distinct is \<and> set is = pool_live (ooo_segments f) \<and>
     length (pool_vec (ooo_segments f)) < INV \<and>
     ooos_list_head f = hd_or INV is \<and> dll (seg_at f) INV is INV"

abbreviation seg_data :: "svm_fifo \<Rightarrow> nat \<Rightarrow> nat \<times> nat" where
  "seg_data f i \<equiv> (seg_start (seg_at f i), seg_length (seg_at f i))"

lemma links_bound: "links f is \<Longrightarrow> i \<in> set is \<Longrightarrow> i < length (pool_vec (ooo_segments f))"
  by (auto simp: links_def pool_live_def pool_is_free_index_def split: if_splits)

lemma links_not_INV: "links f is \<Longrightarrow> INV \<notin> set is"
  using links_bound [of f "is" INV] by (auto simp: links_def)

lemma links_head:
  assumes "links f is"
  shows "ooos_list_head f = INV \<longleftrightarrow> is = []"
proof (cases "is")
  case (Cons i js)
  then have "i \<noteq> INV" using links_not_INV [OF assms] by auto
  moreover have "ooos_list_head f = i" using assms Cons by (simp add: links_def)
  ultimately show ?thesis using Cons by simp
qed (use assms in \<open>simp add: links_def\<close>)

lemma seg_write_simps [simp]:
  "cursize (seg_write f i s) = cursize f" "nitems (seg_write f i s) = nitems f"
  "head (seg_write f i s) = head f" "tail (seg_write f i s) = tail f"
  "f_data (seg_write f i s) = f_data f" "has_event (seg_write f i s) = has_event f"
  "ooos_list_head (seg_write f i s) = ooos_list_head f" "ooos_newest (seg_write f i s) = ooos_newest f"
  "pool_live (ooo_segments (seg_write f i s)) = pool_live (ooo_segments f)"
  "length (pool_vec (ooo_segments (seg_write f i s))) = length (pool_vec (ooo_segments f))"
  by (simp_all add: seg_write_def vpool.wr_live) (simp add: pool_write_def)

lemma seg_write_ok [simp]: "pool_ok (ooo_segments f) \<Longrightarrow> pool_ok (ooo_segments (seg_write f i s))"
  by (simp add: seg_write_def vpool.wr_ok)

lemma seg_at_write [simp]:
  "i \<in> pool_live (ooo_segments f) \<Longrightarrow> seg_at (seg_write f i s) j = (if j = i then s else seg_at f j)"
  by (simp add: seg_write_def vpool.wr_at)

text \<open>The fields the list code leaves alone.\<close>

definition same_ring :: "svm_fifo \<Rightarrow> svm_fifo \<Rightarrow> bool" where
  "same_ring f g \<longleftrightarrow> cursize g = cursize f \<and> nitems g = nitems f \<and> has_event g = has_event f \<and>
     head g = head f \<and> tail g = tail f \<and> f_data g = f_data f"

lemma same_ring_refl [simp]: "same_ring f f" and
  same_ring_trans: "same_ring f g \<Longrightarrow> same_ring g h \<Longrightarrow> same_ring f h"
  by (simp_all add: same_ring_def)

lemma pool_put_vec [simp]: "pool_vec (pool_put_index P i) = pool_vec P"
  by (simp add: pool_put_index_def)

lemma last_or_mem: "xs \<noteq> [] \<Longrightarrow> last_or d xs \<in> set xs"
  by (simp add: last_or_def)

lemma hd_or_mem: "xs \<noteq> [] \<Longrightarrow> hd_or d xs \<in> set xs"
  by (cases xs) simp_all

lemma last_or_cong: "xs \<noteq> [] \<Longrightarrow> last_or d xs = last_or d' xs"
  by (simp add: last_or_def)

text \<open>\<^verbatim>\<open>ooo_segment_del\<close> unlinks one node and frees it.\<close>

lemma ooo_segment_del_links:
  assumes "links f (xs @ i # ys)"
  shows "links (ooo_segment_del f i) (xs @ ys)"
    and "j \<in> set (xs @ ys) \<Longrightarrow> seg_data (ooo_segment_del f i) j = seg_data f j"
    and "same_ring f (ooo_segment_del f i)"
    and "length (pool_vec (ooo_segments (ooo_segment_del f i))) = length (pool_vec (ooo_segments f))"
    and "ooos_newest (ooo_segment_del f i) = ooos_newest f"
proof -
  let ?P = "ooo_segments f" and ?L = "pool_live (ooo_segments f)"
  have ok: "pool_ok ?P" and dist: "distinct (xs @ i # ys)" and live: "set (xs @ i # ys) = ?L"
    and hd: "ooos_list_head f = hd_or INV (xs @ i # ys)"
    and dx: "dll (seg_at f) INV xs i" and dy: "dll (seg_at f) i ys INV"
    and pv: "seg_prev (seg_at f i) = last_or INV xs" and nx: "seg_next (seg_at f i) = hd_or INV ys"
    using assms by (auto simp: links_def)
  have ninv: "INV \<notin> set (xs @ i # ys)" using links_not_INV [OF assms] .
  have xe: "last_or INV xs = INV \<longleftrightarrow> xs = []"
    using ninv last_or_mem [of xs INV] by (cases "xs = []") auto
  have ye: "hd_or INV ys = INV \<longleftrightarrow> ys = []"
    using ninv hd_or_mem [of ys INV] by (cases "ys = []") auto
  have xl: "xs \<noteq> [] \<Longrightarrow> last_or INV xs \<in> ?L \<and> last_or INV xs \<in> set xs \<and> last_or INV xs \<notin> set ys \<and> last_or INV xs \<noteq> i"
    using live last_or_mem [of xs INV] dist by auto
  have yl: "ys \<noteq> [] \<Longrightarrow> hd_or INV ys \<in> ?L \<and> hd_or INV ys \<in> set ys \<and> hd_or INV ys \<notin> set xs \<and> hd_or INV ys \<noteq> i"
    using live hd_or_mem [of ys INV] dist by auto
  have il: "i \<in> ?L" using live by auto
  let ?g = "ooo_segment_del f i"
  have at: "j \<in> set (xs @ ys) \<Longrightarrow> seg_at ?g j =
      (if j = hd_or INV ys then (seg_at f j)\<lparr>seg_prev := last_or INV xs\<rparr>
       else if j = last_or INV xs then (seg_at f j)\<lparr>seg_next := hd_or INV ys\<rparr> else seg_at f j)" for j
    using xe ye xl yl ninv pv nx
    by (cases "xs = []"; cases "ys = []") (auto simp: ooo_segment_del_def Let_def vpool.put_at)
  have plive: "pool_live (ooo_segments ?g) = ?L - {i}" and pok: "pool_ok (ooo_segments ?g)"
    using xe ye xl yl ok il
    by (auto simp: ooo_segment_del_def Let_def pv nx vpool.put_live vpool.put_ok)
  show data: "j \<in> set (xs @ ys) \<Longrightarrow> seg_data ?g j = seg_data f j" for j
    using at by simp
  show "same_ring f ?g"
    and len: "length (pool_vec (ooo_segments ?g)) = length (pool_vec ?P)"
    and "ooos_newest ?g = ooos_newest f"
    by (simp_all add: ooo_segment_del_def Let_def same_ring_def)
  have "dll (seg_at ?g) INV xs (hd_or INV ys)"
  proof (rule dll_set_next [OF dx])
    show "seg_at ?g k = (if k = last_or INV xs then (seg_at f k)\<lparr>seg_next := hd_or INV ys\<rparr> else seg_at f k)"
      if "k \<in> set xs" for k
      using at [of k] that yl ye ninv by (cases "ys = []") auto
  qed (use dist in auto)
  moreover have "dll (seg_at ?g) (last_or INV xs) ys INV"
  proof (rule dll_set_prev [OF dy])
    show "seg_at ?g k = (if k = hd_or INV ys then (seg_at f k)\<lparr>seg_prev := last_or INV xs\<rparr> else seg_at f k)"
      if "k \<in> set ys" for k
      using at [of k] that xl xe ninv by (cases "xs = []") auto
  qed (use dist in auto)
  moreover have "ooos_list_head ?g = hd_or INV (xs @ ys)"
    using xe pv nx hd by (cases xs) (auto simp: ooo_segment_del_def Let_def)
  ultimately show "links ?g (xs @ ys)"
    using plive pok dist live len assms by (auto simp: links_def)
qed

text \<open>\<^verbatim>\<open>ooo_segment_new\<close> allocates a node that is not linked yet.\<close>

lemma pool_get_bound:
  "length (pool_vec P) \<le> length (pool_vec (snd (pool_get z P)))"
  "length (pool_vec (snd (pool_get z P))) \<le> max (length (pool_vec P)) (pool_elts P + 1)"
  by (auto simp: pool_get_def pool_elts_def Let_def)

lemma ooo_segment_new_facts:
  assumes "pool_ok (ooo_segments f)" and "ooo_segment_new f st ln = (k, g)"
  shows "k \<notin> pool_live (ooo_segments f)" and "pool_ok (ooo_segments g)"
    and "pool_live (ooo_segments g) = insert k (pool_live (ooo_segments f))"
    and "seg_at g k = \<lparr>seg_next = INV, seg_prev = INV, seg_start = st, seg_length = ln\<rparr>"
    and "i \<in> pool_live (ooo_segments f) \<Longrightarrow> seg_at g i = seg_at f i"
    and "same_ring f g" and "ooos_list_head g = ooos_list_head f" and "ooos_newest g = ooos_newest f"
    and "length (pool_vec (ooo_segments g)) \<le>
           max (length (pool_vec (ooo_segments f))) (card (pool_live (ooo_segments f)) + 1)"
proof -
  obtain P where P: "pool_get zero_segment (ooo_segments f) = (k, P)"
    and g: "g = seg_write (f\<lparr>ooo_segments := P\<rparr>) k
              \<lparr>seg_next = INV, seg_prev = INV, seg_start = st, seg_length = ln\<rparr>"
    using assms(2) by (auto simp: ooo_segment_new_def split: prod.splits)
  show fresh: "k \<notin> pool_live (ooo_segments f)" and pok: "pool_ok (ooo_segments g)"
    and "pool_live (ooo_segments g) = insert k (pool_live (ooo_segments f))"
    using vpool.get_fresh [OF assms(1), of zero_segment] vpool.get_ok [OF assms(1), of zero_segment]
      vpool.get_live [OF assms(1), of zero_segment] by (simp_all add: P g)
  have kl: "k \<in> pool_live P"
    using vpool.get_live [OF assms(1), of zero_segment] by (simp add: P)
  show "seg_at g k = \<lparr>seg_next = INV, seg_prev = INV, seg_start = st, seg_length = ln\<rparr>"
    and "i \<in> pool_live (ooo_segments f) \<Longrightarrow> seg_at g i = seg_at f i"
    using kl vpool.get_at [OF assms(1), of i zero_segment] fresh by (auto simp: P g)
  show "same_ring f g" and "ooos_list_head g = ooos_list_head f" and "ooos_newest g = ooos_newest f"
    by (simp_all add: g same_ring_def)
  show "length (pool_vec (ooo_segments g)) \<le>
           max (length (pool_vec (ooo_segments f))) (card (pool_live (ooo_segments f)) + 1)"
    using pool_get_bound(2) [of zero_segment "ooo_segments f"] pool_elts_card [OF assms(1)]
    by (simp add: P g)
qed

lemma ooo_link_before_links:
  assumes l: "links f (xs @ s # ys)" and room: "length (xs @ s # ys) + 1 < INV"
    and g: "ooo_link_before f s st ln = g"
  shows "\<exists>k. k \<notin> set (xs @ s # ys) \<and> links g (xs @ k # s # ys) \<and> seg_data g k = (st, ln) \<and>
     (\<forall>j \<in> set (xs @ s # ys). seg_data g j = seg_data f j) \<and> same_ring f g \<and> ooos_newest g = k \<and>
     length (pool_vec (ooo_segments g)) \<le> max (length (pool_vec (ooo_segments f))) (length (xs @ s # ys) + 1)"
proof -
  have ok: "pool_ok (ooo_segments f)" and dist: "distinct (xs @ s # ys)"
    and live: "set (xs @ s # ys) = pool_live (ooo_segments f)"
    and hd: "ooos_list_head f = hd_or INV (xs @ s # ys)"
    and dx: "dll (seg_at f) INV xs s" and dy: "dll (seg_at f) s ys INV"
    and pv: "seg_prev (seg_at f s) = last_or INV xs" and nx: "seg_next (seg_at f s) = hd_or INV ys"
    using l by (auto simp: links_def)
  obtain k h where k: "ooo_segment_new f st ln = (k, h)" by fastforce
  note n = ooo_segment_new_facts [OF ok k]
  have cardl: "card (pool_live (ooo_segments f)) = length (xs @ s # ys)"
    using live distinct_card [OF dist] by simp
  have ninv: "INV \<notin> set (xs @ s # ys)" using links_not_INV [OF l] .
  have xe: "last_or INV xs = INV \<longleftrightarrow> xs = []"
    using ninv last_or_mem [of xs INV] by (cases "xs = []") auto
  have xl: "xs \<noteq> [] \<Longrightarrow> last_or INV xs \<in> pool_live (ooo_segments f) \<and> last_or INV xs \<in> set xs \<and>
      last_or INV xs \<noteq> s \<and> last_or INV xs \<noteq> k \<and> last_or INV xs \<notin> set ys"
    using live last_or_mem [of xs INV] dist n(1) by auto
  have sl: "s \<in> pool_live (ooo_segments f)" "s \<noteq> k" using live n(1) by auto
  have kn: "k \<notin> set xs" "k \<notin> set ys" using live n(1) by auto
  have at: "seg_at g j = (if j = k then \<lparr>seg_next = s, seg_prev = last_or INV xs, seg_start = st, seg_length = ln\<rparr>
      else if j = s then (seg_at f s)\<lparr>seg_prev := k\<rparr>
      else if j = last_or INV xs then (seg_at f j)\<lparr>seg_next := k\<rparr> else seg_at f j)"
    if "j \<in> insert k (pool_live (ooo_segments f))" for j
    using g k n xe xl sl that pv ninv [unfolded live]
    by (cases "xs = []") (auto simp: ooo_link_before_def Let_def)
  have rest: "same_ring f g" "ooos_newest g = k" "pool_ok (ooo_segments g)"
      "pool_live (ooo_segments g) = insert k (pool_live (ooo_segments f))"
      "length (pool_vec (ooo_segments g)) = length (pool_vec (ooo_segments h))"
      "ooos_list_head g = hd_or k xs"
    using g k n xe xl sl pv hd
    by (cases xs; auto simp: ooo_link_before_def Let_def same_ring_def)+
  have "dll (seg_at g) INV xs k"
    by (rule dll_set_next [OF dx, of _ INV])
       (use dist kn in \<open>auto simp: at live [symmetric]\<close>)
  moreover have "dll (seg_at g) s ys INV"
  proof -
    have "dll (seg_at g) s ys INV = dll (seg_at f) s ys INV"
    proof (rule dll_cong)
      fix j assume j: "j \<in> set ys"
      then have "j \<noteq> last_or INV xs" using xl xe ninv by (cases "xs = []") auto
      then show "seg_prev (seg_at g j) = seg_prev (seg_at f j) \<and> seg_next (seg_at g j) = seg_next (seg_at f j)"
        using j kn dist by (auto simp: at live [symmetric])
    qed
    then show ?thesis using dy by simp
  qed
  ultimately have "links g (xs @ k # s # ys)"
    using rest(3-6) n(9) room cardl l sl kn nx dist
    by (auto simp: links_def at live [symmetric])
  moreover have "seg_data g j = seg_data f j" if "j \<in> set (xs @ s # ys)" for j
    using that n(1) by (auto simp: at live [symmetric])
  moreover have "k \<notin> set (xs @ s # ys)" and "seg_data g k = (st, ln)" using sl(2) kn by (auto simp: at)
  ultimately show ?thesis using rest(1,2,5) n(9) cardl by (metis Suc_eq_plus1)
qed

lemma ooo_link_after_links:
  assumes l: "links f (xs @ [s])" and room: "length (xs @ [s]) + 1 < INV"
    and g: "ooo_link_after f s st ln = g"
  shows "\<exists>k. k \<notin> set (xs @ [s]) \<and> links g (xs @ [s, k]) \<and> seg_data g k = (st, ln) \<and>
     (\<forall>j \<in> set (xs @ [s]). seg_data g j = seg_data f j) \<and> same_ring f g \<and> ooos_newest g = k \<and>
     length (pool_vec (ooo_segments g)) \<le> max (length (pool_vec (ooo_segments f))) (length (xs @ [s]) + 1)"
proof -
  have ok: "pool_ok (ooo_segments f)" and dist: "distinct (xs @ [s])"
    and live: "set (xs @ [s]) = pool_live (ooo_segments f)"
    and hd: "ooos_list_head f = hd_or INV (xs @ [s])"
    and dx: "dll (seg_at f) INV (xs @ [s]) INV"
    using l by (auto simp: links_def)
  obtain k h where k: "ooo_segment_new f st ln = (k, h)" by fastforce
  note n = ooo_segment_new_facts [OF ok k]
  have cardl: "card (pool_live (ooo_segments f)) = length (xs @ [s])"
    using live distinct_card [OF dist] by simp
  have sl: "s \<in> pool_live (ooo_segments f)" "s \<noteq> k" and kn: "k \<notin> set xs" using live n(1) by auto
  have at: "seg_at g j = (if j = k then \<lparr>seg_next = INV, seg_prev = s, seg_start = st, seg_length = ln\<rparr>
      else if j = s then (seg_at f s)\<lparr>seg_next := k\<rparr> else seg_at f j)"
    if "j \<in> insert k (pool_live (ooo_segments f))" for j
    using g k n sl that by (auto simp: ooo_link_after_def Let_def)
  have rest: "same_ring f g" "ooos_newest g = k" "pool_ok (ooo_segments g)"
      "pool_live (ooo_segments g) = insert k (pool_live (ooo_segments f))"
      "length (pool_vec (ooo_segments g)) = length (pool_vec (ooo_segments h))"
      "ooos_list_head g = hd_or INV (xs @ [s])"
    using g k n sl hd by (auto simp: ooo_link_after_def Let_def same_ring_def)
  have "dll (seg_at g) INV (xs @ [s]) k"
    by (rule dll_set_next [OF dx, of _ INV])
       (use dist kn sl(2) in \<open>auto simp: at live [symmetric]\<close>)
  then have "links g (xs @ [s, k])"
    using rest(3-6) n(9) room cardl l sl kn dist
    by (auto simp: links_def at live [symmetric])
  moreover have "seg_data g j = seg_data f j" if "j \<in> set (xs @ [s])" for j
    using that n(1) by (auto simp: at live [symmetric])
  moreover have "k \<notin> set (xs @ [s])" and "seg_data g k = (st, ln)" using sl(2) kn by (auto simp: at)
  ultimately show ?thesis using rest(1,2,5) n(9) cardl by (metis Suc_eq_plus1)
qed

text \<open>Changing the interval of a node in place.\<close>

lemma seg_write_links:
  assumes "links f is" and "i \<in> set is"
    and "seg_prev s = seg_prev (seg_at f i)" and "seg_next s = seg_next (seg_at f i)"
  shows "links (seg_write f i s) is"
proof -
  have "dll (seg_at (seg_write f i s)) INV is INV = dll (seg_at f) INV is INV"
    using assms by (intro dll_cong) (auto simp: links_def)
  then show ?thesis using assms by (auto simp: links_def)
qed

section \<open>The representation invariant\<close>

definition room :: "svm_fifo \<Rightarrow> nat" where
  "room f = nitems f - cursize f"

definition ring_ok :: "svm_fifo \<Rightarrow> bool" where
  "ring_ok f \<longleftrightarrow> 0 < nitems f \<and> nitems f < 2147483648 \<and> cursize f \<le> nitems f \<and>
     head f < nitems f \<and> tail f = (head f + cursize f) mod nitems f \<and>
     length (f_data f) = nitems f \<and> length (pool_vec (ooo_segments f)) \<le> nitems f"

text \<open>Node \<open>i\<close> holds the interval of offsets \<open>(a, e)\<close> from the tail position \<open>t\<close>.\<close>

definition holds :: "svm_fifo \<Rightarrow> nat \<Rightarrow> nat \<Rightarrow> nat \<times> nat \<Rightarrow> bool" where
  "holds f t i p \<longleftrightarrow> seg_data f i = ((t + fst p) mod nitems f, snd p - fst p)"

definition rep :: "svm_fifo \<Rightarrow> nat list \<Rightarrow> (nat \<times> nat) list \<Rightarrow> bool" where
  "rep f is os \<longleftrightarrow> ring_ok f \<and> links f is \<and> list_all2 (holds f (tail f)) is os \<and> ordered 0 (room f) os"

definition fifo_inv :: "svm_fifo \<Rightarrow> bool" where
  "fifo_inv f \<longleftrightarrow> (\<exists>is os. rep f is os)"

lemma ring_tail: "ring_ok f \<Longrightarrow> tail f < nitems f"
  by (simp add: ring_ok_def)

lemma tail_eq_head: "ring_ok f \<Longrightarrow> tail f = head f \<longleftrightarrow> cursize f = 0 \<or> cursize f = nitems f"
  by (auto simp: ring_ok_def mod_if split: if_splits)

lemma ring_offset_mod:
  assumes "t < n" and "x \<le> (n::nat)"
  shows "(t + x) mod n = (if t + x < n then t + x else t + x - n)"
proof (cases "t + x < n")
  case False
  then have "(t + x) mod n = (t + x - n) mod n" by (simp add: mod_if)
  also have "\<dots> = t + x - n" using assms by simp
  finally show ?thesis using False by simp
qed simp

text \<open>
  The distance from the tail is the offset again, the full ring included: the only ambiguous
  position is the tail itself, which \<^verbatim>\<open>ooo_segment_distance_from_tail\<close> reads as \<^verbatim>\<open>nitems\<close> on an empty
  ring.
\<close>

lemma distance_from_tail:
  assumes "ring_ok f" and "0 < x" and "x \<le> room f"
  shows "ooo_segment_distance_from_tail f ((tail f + x) mod nitems f) = x"
proof -
  let ?n = "nitems f" and ?t = "tail f"
  have t: "?t < ?n" and n: "?n < 2147483648" and x: "x \<le> ?n"
    using assms by (auto simp: ring_ok_def room_def)
  show ?thesis
  proof (cases "x = ?n")
    case True
    then have "cursize f = 0" using assms by (auto simp: room_def ring_ok_def)
    then show ?thesis
      using True t tail_eq_head [OF assms(1)] by (simp add: ooo_segment_distance_from_tail_def)
  next
    case False
    let ?p = "(?t + x) mod ?n"
    have p: "?p = (if ?t + x < ?n then ?t + x else ?t + x - ?n)" using ring_offset_mod [OF t x] .
    have "?p \<noteq> ?t" using p False x assms(2) by (simp split: if_splits)
    moreover have "?p < ?n" using t by simp
    moreover have "(?n + ?p - ?t) mod ?n = x"
    proof (cases "?t + x < ?n")
      case True
      then have "?n + ?p - ?t = ?n + x" using p t by simp
      then show ?thesis using False x by simp
    next
      case c: False
      then have "?n + ?p - ?t = x" using p t by simp
      then show ?thesis using False x by simp
    qed
    moreover have "u32_add ?n ?p = ?n + ?p" "u32_sub (?n + ?p) ?t = ?n + ?p - ?t"
      using t n \<open>?p < ?n\<close> by (auto intro!: u32_add_small u32_sub_ge simp del: mod_less_divisor)
    ultimately show ?thesis using t n by (simp add: ooo_segment_distance_from_tail_def)
  qed
qed

section \<open>Positions as offsets\<close>

abbreviation pos :: "svm_fifo \<Rightarrow> nat \<Rightarrow> nat" where
  "pos f x \<equiv> (tail f + x) mod nitems f"

lemma room_bound: "ring_ok f \<Longrightarrow> room f \<le> nitems f" "ring_ok f \<Longrightarrow> nitems f < 2147483648"
  "ring_ok f \<Longrightarrow> pos f x < nitems f"
  by (simp_all add: ring_ok_def room_def)

lemma position_simps:
  assumes "ring_ok f" and "0 < x" "x \<le> room f" "0 < y" "y \<le> room f"
  shows "position_lt f (pos f x) (pos f y) \<longleftrightarrow> x < y" "position_leq f (pos f x) (pos f y) \<longleftrightarrow> x \<le> y"
    "position_gt f (pos f x) (pos f y) \<longleftrightarrow> x > y"
    "y \<le> x \<Longrightarrow> position_diff f (pos f x) (pos f y) = x - y"
proof -
  have "x < U32" using assms(3) room_bound [OF assms(1)] by linarith
  then show "y \<le> x \<Longrightarrow> position_diff f (pos f x) (pos f y) = x - y"
    using assms by (simp add: position_diff_def distance_from_tail)
qed (use assms in \<open>simp_all add: position_lt_def position_leq_def position_gt_def distance_from_tail\<close>)

lemma holds_start: "holds f (tail f) i (a, e) \<Longrightarrow> seg_start (seg_at f i) = pos f a"
  by (simp add: holds_def)

lemma holds_end:
  assumes "ring_ok f" and "holds f (tail f) i (a, e)" and "a < e" and "e \<le> room f"
  shows "ooo_segment_end_pos f i = pos f e"
proof -
  have s: "seg_start (seg_at f i) = pos f a" and l: "seg_length (seg_at f i) = e - a"
    using assms(2) by (simp_all add: holds_def)
  have "pos f a + (e - a) < U32" using assms(4) room_bound [OF assms(1)] room_bound(3) [OF assms(1), of a] by linarith
  then have "ooo_segment_end_pos f i = (pos f a + (e - a)) mod nitems f"
    unfolding ooo_segment_end_pos_def s l by simp
  also have "\<dots> = (tail f + a + (e - a)) mod nitems f" by (simp only: mod_add_left_eq)
  also have "\<dots> = pos f e" using assms(3) by simp
  finally show ?thesis .
qed

lemma same_ring_simps:
  assumes "same_ring f g"
  shows "tail g = tail f" "nitems g = nitems f" "room g = room f"
    "ooo_segment_distance_from_tail g x = ooo_segment_distance_from_tail f x"
  using assms by (simp_all add: same_ring_def room_def ooo_segment_distance_from_tail_def)

lemma same_ring_ok:
  "ring_ok f \<Longrightarrow> same_ring f g \<Longrightarrow> length (pool_vec (ooo_segments g)) \<le> nitems f \<Longrightarrow> ring_ok g"
  by (simp add: ring_ok_def same_ring_def)

lemma holds_cong:
  "same_ring f g \<Longrightarrow> seg_data g i = seg_data f i \<Longrightarrow> holds g (tail g) i p = holds f (tail f) i p"
  by (simp add: holds_def same_ring_def)

lemma all_holds_cong:
  assumes "same_ring f g" and "\<And>i. i \<in> set is \<Longrightarrow> seg_data g i = seg_data f i"
  shows "list_all2 (holds g (tail g)) is os = list_all2 (holds f (tail f)) is os"
proof -
  have "holds g (tail g) i p = holds f (tail f) i p" if "i \<in> set is" for i p
    using assms that by (intro holds_cong) auto
  then show ?thesis by (auto simp: list_all2_conv_all_nth)
qed

section \<open>The loops\<close>

lemma ooo_find_start_ok:
  assumes "ring_ok f" and "links f (ps @ s # qs)" and "list_all2 (holds f (tail f)) (ps @ s # qs) os"
    and "ordered 0 (room f) os" and "0 < x" "x \<le> room f"
    and "\<forall>p \<in> set (take (length ps) os). fst p < x"
  shows "\<exists>xs s' ys oxs a e oys. ooo_find_start f (pos f x) s = Some s' \<and> ps @ s # qs = xs @ s' # ys \<and>
     os = oxs @ (a, e) # oys \<and> length oxs = length xs \<and> (\<forall>p \<in> set oxs. fst p < x) \<and> (ys = [] \<or> x \<le> a)"
  using assms(2,3,7)
proof (induction qs arbitrary: ps s)
  case Nil
  obtain oxs a e where os: "os = oxs @ [(a, e)]" "length oxs = length ps"
    using Nil.prems(2) by (auto simp: list_all2_append1 list_all2_Cons1 dest: list_all2_lengthD)
  have "seg_next (seg_at f s) = INV" using Nil.prems(1) by (simp add: links_def)
  then have "ooo_find_start f (pos f x) s = Some s" by (simp add: ooo_find_start.simps [of f _ s])
  then show ?case using os Nil.prems(3) by (intro exI [of _ ps] exI [of _ s] exI [of _ "[]"] exI) auto
next
  case (Cons q qs)
  obtain oxs a e oys where os: "os = oxs @ (a, e) # oys" "length oxs = length ps"
    and h: "holds f (tail f) s (a, e)"
    using Cons.prems(2) by (auto simp: list_all2_append1 list_all2_Cons1 dest: list_all2_lengthD)
  have nx: "seg_next (seg_at f s) = q" "q \<noteq> INV"
    using Cons.prems(1) links_not_INV [OF Cons.prems(1)] by (auto simp: links_def)
  have "0 < a" "a \<le> room f" using ordered_mem [OF assms(4), of a e] os by auto
  then have lt: "position_lt f (seg_start (seg_at f s)) (pos f x) \<longleftrightarrow> a < x"
    using position_simps(1) [OF assms(1)] assms(5,6) holds_start [OF h] by simp
  show ?case
  proof (cases "a < x")
    case True
    then have step: "ooo_find_start f (pos f x) s = ooo_find_start f (pos f x) q"
      using nx lt by (simp add: ooo_find_start.simps [of f _ s])
    have "\<forall>p \<in> set (take (length (ps @ [s])) os). fst p < x"
      using Cons.prems(3) os True by auto
    then show ?thesis using Cons.IH [of "ps @ [s]" q] Cons.prems(1,2) step by simp
  next
    case False
    then have "ooo_find_start f (pos f x) s = Some s"
      using lt by (simp add: ooo_find_start.simps [of f _ s])
    then show ?thesis using os Cons.prems(3) False by (intro exI [of _ ps] exI [of _ s] exI [of _ "q # qs"] exI) auto
  qed
qed

lemma ooo_drop_covered_ok:
  assumes "ring_ok f" and "links f (us @ ys)" and "list_all2 (holds f (tail f)) ys oys"
    and "ordered lo (room f) oys" and "0 < e" "e \<le> room f"
  shows "\<exists>g zs. ooo_drop_covered f (hd_or INV ys) (pos f e) = Some (hd_or INV zs, g) \<and>
     same_ring f g \<and> links g (us @ zs) \<and> list_all2 (holds g (tail g)) zs (dropWhile (\<lambda>p. snd p \<le> e) oys) \<and>
     (\<forall>j \<in> set us. seg_data g j = seg_data f j) \<and> ring_ok g"
  using assms
proof (induction ys arbitrary: f oys lo)
  case Nil
  then show ?case by (intro exI [of _ f] exI [of _ "[]"]) (auto simp: ooo_drop_covered.simps)
next
  case (Cons y ys)
  obtain b c oys' where oys: "oys = (b, c) # oys'" and h: "holds f (tail f) y (b, c)"
    and hs: "list_all2 (holds f (tail f)) ys oys'"
    using Cons.prems(3) by (auto simp: list_all2_Cons1)
  have bc: "0 < b" "b < c" "c \<le> room f" "ordered c (room f) oys'" using Cons.prems(4) oys by auto
  have y: "y \<noteq> INV" using links_not_INV [OF Cons.prems(2)] by auto
  have leq: "position_leq f (ooo_segment_end_pos f y) (pos f e) \<longleftrightarrow> c \<le> e"
    using position_simps(2) [OF Cons.prems(1)] bc Cons.prems(5,6) holds_end [OF Cons.prems(1) h] by simp
  show ?case
  proof (cases "c \<le> e")
    case True
    let ?f = "ooo_segment_del f y"
    note d = ooo_segment_del_links [OF Cons.prems(2)]
    have nx: "seg_next (seg_at f y) = hd_or INV ys" using Cons.prems(2) by (simp add: links_def)
    have step: "ooo_drop_covered f y (pos f e) = ooo_drop_covered ?f (hd_or INV ys) (pos f e)"
      using True leq y nx by (simp add: ooo_drop_covered.simps [of f y])
    have ok: "ring_ok ?f" using same_ring_ok [OF Cons.prems(1) d(3)] d(4) Cons.prems(1) by (simp add: ring_ok_def)
    have hs': "list_all2 (holds ?f (tail ?f)) ys oys'"
      using all_holds_cong [OF d(3), of ys] d(2) hs by simp
    note s = same_ring_simps [OF d(3)]
    obtain g zs where g: "ooo_drop_covered ?f (hd_or INV ys) (pos f e) = Some (hd_or INV zs, g)"
      "same_ring ?f g" "links g (us @ zs)" "list_all2 (holds g (tail g)) zs (dropWhile (\<lambda>p. snd p \<le> e) oys')"
      "\<forall>j \<in> set us. seg_data g j = seg_data ?f j" "ring_ok g"
      using Cons.IH [OF ok d(1) hs', of c] bc Cons.prems(5,6) s by auto
    then show ?thesis
      using step True oys same_ring_trans [OF d(3) g(2)] d(2)
      by (intro exI [of _ g] exI [of _ zs]) auto
  next
    case False
    then have "ooo_drop_covered f y (pos f e) = Some (y, f)"
      using leq by (simp add: ooo_drop_covered.simps [of f y])
    then show ?thesis using False oys Cons.prems
      by (intro exI [of _ f] exI [of _ "y # ys"]) auto
  qed
qed

text \<open>What \<^verbatim>\<open>ooo_drop_covered\<close> and the last merge leave is \<open>absorb\<close>.\<close>

lemma absorb_dropWhile:
  "absorb e os = (case dropWhile (\<lambda>p. snd p \<le> e) os of
     [] \<Rightarrow> (e, []) | (b, c) # os' \<Rightarrow> if b \<le> e then (c, os') else (e, (b, c) # os'))"
  by (induction os) auto

lemma ordered_dropWhile: "ordered lo R os \<Longrightarrow> ordered lo R (dropWhile P os)"
proof (induction os arbitrary: lo)
  case (Cons p os)
  then show ?case by (cases p) (auto intro: ordered_mono [OF Cons.IH])
qed simp

text \<open>Writing a new interval into one node of the list.\<close>

lemma rep_write:
  assumes ok: "ring_ok f" and l: "links f (xs @ s # ys)"
    and hx: "list_all2 (holds f (tail f)) xs oxs" and hy: "list_all2 (holds f (tail f)) ys oys"
    and g: "g = seg_write f s ((seg_at f s)\<lparr>seg_start := pos f a, seg_length := c - a\<rparr>)"
  shows "ring_ok g" and "links g (xs @ s # ys)" and "same_ring f g"
    and "list_all2 (holds g (tail g)) (xs @ s # ys) (oxs @ (a, c) # oys)"
proof -
  have sl: "s \<in> pool_live (ooo_segments f)" and dist: "distinct (xs @ s # ys)" using l by (auto simp: links_def)
  show r: "same_ring f g" by (simp add: g same_ring_def)
  show "ring_ok g" using ok by (simp add: g ring_ok_def)
  show "links g (xs @ s # ys)" unfolding g by (rule seg_write_links [OF l]) simp_all
  have same: "seg_data g i = seg_data f i" if "i \<in> set (xs @ ys)" for i using sl dist that by (auto simp: g)
  have "list_all2 (holds g (tail g)) xs oxs" "list_all2 (holds g (tail g)) ys oys"
    using all_holds_cong [OF r same, of xs oxs] all_holds_cong [OF r same, of ys oys] hx hy by simp_all
  moreover have "holds g (tail g) s (a, c)" using sl by (simp add: holds_def g)
  ultimately show "list_all2 (holds g (tail g)) (xs @ s # ys) (oxs @ (a, c) # oys)"
    by (simp add: list_all2_appendI)
qed

lemma seg_length_write: "seg_start s = st \<Longrightarrow> s\<lparr>seg_length := n\<rparr> = s\<lparr>seg_start := st, seg_length := n\<rparr>"
  by simp

lemma newest_simps [simp]:
  "links (f\<lparr>ooos_newest := k\<rparr>) is = links f is" "ring_ok (f\<lparr>ooos_newest := k\<rparr>) = ring_ok f"
  "holds (f\<lparr>ooos_newest := k\<rparr>) = holds f" "room (f\<lparr>ooos_newest := k\<rparr>) = room f"
  "same_ring f (g\<lparr>ooos_newest := k\<rparr>) = same_ring f g" "same_ring (f\<lparr>ooos_newest := k\<rparr>) g = same_ring f g"
  "rep (f\<lparr>ooos_newest := k\<rparr>) is os = rep f is os"
proof -
  show "holds (f\<lparr>ooos_newest := k\<rparr>) = holds f" by (intro ext) (simp add: holds_def)
  then show "rep (f\<lparr>ooos_newest := k\<rparr>) is os = rep f is os"
    by (simp add: rep_def links_def ring_ok_def room_def)
qed (simp_all add: links_def ring_ok_def room_def same_ring_def)

text \<open>The last merge: the segment after \<open>s\<close> is swallowed together with its end.\<close>

lemma ooo_merge_next:
  assumes ok: "ring_ok f" and l: "links f (xs @ s # z # zs)"
    and h: "list_all2 (holds f (tail f)) (xs @ s # z # zs) (oxs @ (a, e) # (b, c) # oys)"
    and len: "length oxs = length xs" and a: "0 < a" "a < c" "b < c" "c \<le> room f"
    and g: "g = ooo_segment_del (seg_write f s ((seg_at f s)\<lparr>seg_length :=
                 position_diff f (ooo_segment_end_pos f z) (seg_start (seg_at f s))\<rparr>)) z"
  shows "ring_ok g" and "links g (xs @ s # zs)" and "same_ring f g"
    and "list_all2 (holds g (tail g)) (xs @ s # zs) (oxs @ (a, c) # oys)"
proof -
  have hx: "list_all2 (holds f (tail f)) xs oxs" and hs: "holds f (tail f) s (a, e)"
    and hz: "holds f (tail f) z (b, c)" and hy: "list_all2 (holds f (tail f)) (z # zs) ((b, c) # oys)"
    using h len by (auto simp: list_all2_append)
  have pd: "position_diff f (pos f c) (pos f a) = c - a"
    using position_simps(4) [OF ok, of c a] a by simp
  define f1 where "f1 = seg_write f s ((seg_at f s)\<lparr>seg_length := c - a\<rparr>)"
  have f1: "f1 = seg_write f s ((seg_at f s)\<lparr>seg_start := pos f a, seg_length := c - a\<rparr>)"
    unfolding f1_def seg_length_write [OF holds_start [OF hs]] ..
  note w = rep_write [OF ok l hx hy f1]
  have g1: "g = ooo_segment_del f1 z"
    unfolding g holds_start [OF hs] holds_end [OF ok hz a(3,4)] pd f1_def ..
  have l1: "links f1 ((xs @ [s]) @ z # zs)" using w(2) by simp
  note d = ooo_segment_del_links [OF l1, folded g1]
  show "same_ring f g" using same_ring_trans [OF w(3) d(3)] .
  show "ring_ok g" using same_ring_ok [OF w(1) d(3)] d(4) w(1) by (simp add: ring_ok_def)
  show "links g (xs @ s # zs)" using d(1) by simp
  have "list_all2 (holds f1 (tail f1)) ((xs @ [s]) @ zs) ((oxs @ [(a, c)]) @ oys)"
    using w(4) len by (auto simp: list_all2_append)
  then show "list_all2 (holds g (tail g)) (xs @ s # zs) (oxs @ (a, c) # oys)"
    using all_holds_cong [OF d(3,2), of "(xs @ [s]) @ zs" "(oxs @ [(a, c)]) @ oys"] by simp
qed

definition ooo_tail_merge :: "svm_fifo \<Rightarrow> nat \<Rightarrow> nat \<Rightarrow> nat \<Rightarrow> svm_fifo" where
  "ooo_tail_merge f s it p =
     (if it \<noteq> INV \<and> position_leq f (seg_start (seg_at f it)) p
      then ooo_segment_del (seg_write f s ((seg_at f s)\<lparr>seg_length :=
             position_diff f (ooo_segment_end_pos f it) (seg_start (seg_at f s))\<rparr>)) it
      else f)"

lemma ooo_tail_merge_ok:
  assumes ok: "ring_ok f" and l: "links f ((xs @ [s]) @ zs)"
    and hx: "list_all2 (holds f (tail f)) (xs @ [s]) (oxs @ [(a, e)])" and len: "length oxs = length xs"
    and hz: "list_all2 (holds f (tail f)) zs (dropWhile (\<lambda>p. snd p \<le> e) oys)"
    and ab: "absorb e oys = (e', os')" and ord: "ordered lo (room f) oys"
    and ord': "ordered 0 (room f) (oxs @ (a, e') # os')" and e: "0 < a" "a < e" "e \<le> room f"
    and g: "g = ooo_tail_merge f s (hd_or INV zs) (pos f e)"
  shows "\<exists>is'. rep g is' (oxs @ (a, e') # os')" and "same_ring f g"
proof -
  have "(\<exists>is'. rep g is' (oxs @ (a, e') # os')) \<and> same_ring f g"
  proof (cases zs)
    case Nil
    then have "e' = e" "os' = []" using hz ab by (simp_all add: absorb_dropWhile del: dropWhile_eq_Nil_conv)
    then have "rep g (xs @ [s]) (oxs @ (a, e') # os') \<and> same_ring f g"
      using Nil ok l hx ord' g by (simp add: rep_def ooo_tail_merge_def)
    then show ?thesis by auto
  next
    case (Cons z zs')
    then obtain b c oz where dw: "dropWhile (\<lambda>p. snd p \<le> e) oys = (b, c) # oz"
      and hz1: "holds f (tail f) z (b, c)" and hzs: "list_all2 (holds f (tail f)) zs' oz"
      using hz by (auto simp: list_all2_Cons1)
    have bc: "0 < b" "b < c" "c \<le> room f" "e < c"
      using ordered_dropWhile [OF ord, of "\<lambda>p. snd p \<le> e"] dw hd_dropWhile [of "\<lambda>p. snd p \<le> e" oys]
      by (simp_all add: dw)
    have z: "z \<noteq> INV" using links_not_INV [OF l] Cons by auto
    have leq: "position_leq f (seg_start (seg_at f z)) (pos f e) \<longleftrightarrow> b \<le> e"
      using position_simps(2) [OF ok, of b e] bc e by (simp add: holds_start [OF hz1])
    have l2: "links f (xs @ s # z # zs')" using l Cons by simp
    have h2: "list_all2 (holds f (tail f)) (xs @ s # z # zs') (oxs @ (a, e) # (b, c) # oz)"
      using hx hz1 hzs len by (auto simp: list_all2_append)
    show ?thesis
    proof (cases "b \<le> e")
      case True
      then have eq: "e' = c" "os' = oz" using ab dw by (simp_all add: absorb_dropWhile)
      have "a < c" using e bc by simp
      note m = ooo_merge_next [OF ok l2 h2 len e(1) this bc(2,3) refl]
      have "g = ooo_segment_del (seg_write f s ((seg_at f s)\<lparr>seg_length :=
             position_diff f (ooo_segment_end_pos f z) (seg_start (seg_at f s))\<rparr>)) z"
        using g True leq z Cons by (simp add: ooo_tail_merge_def)
      then have "rep g (xs @ s # zs') (oxs @ (a, e') # os') \<and> same_ring f g"
        using m ord' eq same_ring_simps(3) [OF m(3)] by (simp add: rep_def)
      then show ?thesis by auto
    next
      case False
      then have "e' = e" "os' = (b, c) # oz" using ab dw by (simp_all add: absorb_dropWhile)
      then have "rep f (xs @ s # z # zs') (oxs @ (a, e') # os')"
        using ok l2 h2 ord' by (simp add: rep_def)
      then show ?thesis using g False leq z Cons by (auto simp: ooo_tail_merge_def)
    qed
  qed
  then show "\<exists>is'. rep g is' (oxs @ (a, e') # os')" and "same_ring f g" by simp_all
qed

lemma ooo_check_tail_extend:
  assumes ok: "ring_ok f" and l: "links f (xs @ s # ys)"
    and h: "list_all2 (holds f (tail f)) (xs @ s # ys) (oxs @ (a, c) # oys)" and len: "length oxs = length xs"
    and ord: "ordered 0 (room f) (oxs @ (a, c) # oys)" and e: "c < e" "e \<le> room f"
    and ab: "absorb e oys = (e', os')" and ord': "ordered 0 (room f) (oxs @ (a, e') # os')"
  shows "\<exists>g is'. ooo_check_tail f s (pos f c) (pos f e) = Some g \<and>
     rep g is' (oxs @ (a, e') # os') \<and> same_ring f g"
proof -
  have hx: "list_all2 (holds f (tail f)) xs oxs" and hs: "holds f (tail f) s (a, c)"
    and hy: "list_all2 (holds f (tail f)) ys oys" using h len by (auto simp: list_all2_append)
  have ac: "0 < a" "a < c" "c \<le> room f" "ordered c (room f) oys" "a < e" using ord e by auto
  define f1 where "f1 = seg_write f s ((seg_at f s)\<lparr>seg_length := position_diff f (pos f e) (seg_start (seg_at f s))\<rparr>)"
  have pd: "position_diff f (pos f e) (pos f a) = e - a"
    using position_simps(4) [OF ok, of e a] ac e by simp
  have f1: "f1 = seg_write f s ((seg_at f s)\<lparr>seg_start := pos f a, seg_length := e - a\<rparr>)"
    unfolding f1_def holds_start [OF hs] pd seg_length_write [OF holds_start [OF hs]] ..
  note w = rep_write [OF ok l hx hy f1]
  note r1 = same_ring_simps [OF w(3)]
  have hy1: "list_all2 (holds f1 (tail f1)) ys oys" using w(4) len by (auto simp: list_all2_append)
  have nx: "seg_next (seg_at f1 s) = hd_or INV ys" using w(2) by (simp add: links_def)
  obtain f2 zs where d: "ooo_drop_covered f1 (hd_or INV ys) (pos f1 e) = Some (hd_or INV zs, f2)"
    "same_ring f1 f2" "links f2 ((xs @ [s]) @ zs)"
    "list_all2 (holds f2 (tail f2)) zs (dropWhile (\<lambda>p. snd p \<le> e) oys)"
    "\<forall>j \<in> set (xs @ [s]). seg_data f2 j = seg_data f1 j" "ring_ok f2"
    using ooo_drop_covered_ok [OF w(1), of "xs @ [s]" ys oys c e] w(2) hy1 ac e r1 by auto
  have hx2: "list_all2 (holds f2 (tail f2)) (xs @ [s]) (oxs @ [(a, e)])"
    using all_holds_cong [OF d(2), of "xs @ [s]" "oxs @ [(a, e)]"] d(5) w(4) len
    by (auto simp: list_all2_append)
  note r2 = same_ring_simps [OF same_ring_trans [OF w(3) d(2)]]
  have "position_gt f (pos f e) (pos f c)" using position_simps(3) [OF ok, of e c] ac e by simp
  then have step: "ooo_check_tail f s (pos f c) (pos f e) =
      Some ((ooo_tail_merge f2 s (hd_or INV zs) (pos f2 e))\<lparr>ooos_newest := s\<rparr>)"
    using d(1) nx r1 r2 by (simp add: ooo_check_tail_def f1_def [symmetric] Let_def ooo_tail_merge_def)
  note m = ooo_tail_merge_ok [OF d(6,3) hx2 len d(4) ab _ _ ac(1,5) _ refl, unfolded r2(3), OF ac(4) ord' e(2)]
  show ?thesis using step m same_ring_trans [OF same_ring_trans [OF w(3) d(2)] m(2)] by auto
qed

lemma ooo_check_tail_ok:
  assumes ok: "ring_ok f" and l: "links f (xs @ s # ys)"
    and h: "list_all2 (holds f (tail f)) (xs @ s # ys) (oxs @ (a, c) # oys)" and len: "length oxs = length xs"
    and ord: "ordered 0 (room f) (oxs @ (a, c) # oys)" and e: "a < e" "e \<le> room f"
  shows "\<exists>g is' os'. ooo_check_tail f s (pos f c) (pos f e) = Some g \<and> rep g is' os' \<and> same_ring f g \<and>
     cov os' = cov (oxs @ (a, c) # oys) \<union> {a..<e}"
proof (cases "c < e")
  case False
  have "0 < a" "a < c" "c \<le> room f" using ord by auto
  then have "\<not> position_gt f (pos f e) (pos f c)"
    using position_simps(3) [OF ok, of e c] False e by simp
  then have "ooo_check_tail f s (pos f c) (pos f e) = Some f" by (simp add: ooo_check_tail_def)
  moreover have "rep f (xs @ s # ys) (oxs @ (a, c) # oys)" using ok l h ord by (simp add: rep_def)
  ultimately show ?thesis using False by (intro exI [of _ f] exI) auto
next
  case True
  have ac: "a < c" "ordered c (room f) oys" "ordered 0 (room f) oxs" "last_end 0 oxs < a" using ord by auto
  obtain e' os' where ab: "absorb e oys = (e', os')" by fastforce
  have abs: "ordered e' (room f) os'" "e \<le> e'" "e' \<le> room f" "cov oys \<union> {c..<e} = cov os' \<union> {c..<e'}"
    using absorb_ok [OF ac(2) ab e(2)] True by simp_all
  have "{a..<e} = {a..<c} \<union> {c..<e}" and "{a..<e'} = {a..<c} \<union> {c..<e'}"
    using ac True abs(2) by auto
  then have cov: "cov (oxs @ (a, e') # os') = cov (oxs @ (a, c) # oys) \<union> {a..<e}"
    using abs(4) by auto
  have ord': "ordered 0 (room f) (oxs @ (a, e') # os')" using ac abs e by simp
  show ?thesis using ooo_check_tail_extend [OF ok l h len ord True e(2) ab ord'] cov by blast
qed

section \<open>Adding a segment\<close>

lemma rep_room:
  assumes "rep f is os"
  shows "ring_ok f" and "length os = length is" and "2 * length is \<le> nitems f" and "nitems f < 2147483648"
proof -
  show "ring_ok f" and len: "length os = length is"
    using assms by (auto simp: rep_def dest: list_all2_lengthD)
  then show "2 * length is \<le> nitems f" and "nitems f < 2147483648"
    using assms ordered_length [of 0 "room f" os] room_bound(1) [of f] by (auto simp: rep_def ring_ok_def)
qed

text \<open>A list with one more node: the invariant follows from what the link functions promise.\<close>

lemma rep_linked:
  assumes ok: "ring_ok f" and g: "same_ring f g" and l: "links g (xs @ k # ys)"
    and old: "\<And>j. j \<in> set (xs @ ys) \<Longrightarrow> seg_data g j = seg_data f j"
    and new: "seg_data g k = (pos f x, len)" and h: "list_all2 (holds f (tail f)) (xs @ ys) (oxs @ oys)"
    and lens: "length oxs = length xs" and vec: "length (pool_vec (ooo_segments g)) \<le> nitems f"
    and ord: "ordered 0 (room f) (oxs @ (x, x + len) # oys)"
  shows "rep g (xs @ k # ys) (oxs @ (x, x + len) # oys)"
proof -
  have "list_all2 (holds g (tail g)) (xs @ ys) (oxs @ oys)"
    using all_holds_cong [OF g old, of "xs @ ys" "oxs @ oys"] h by simp
  moreover have "holds g (tail g) k (x, x + len)"
    using new same_ring_simps [OF g] by (simp add: holds_def)
  ultimately have "list_all2 (holds g (tail g)) (xs @ k # ys) (oxs @ (x, x + len) # oys)"
    using lens by (auto simp: list_all2_append)
  then show ?thesis
    using same_ring_ok [OF ok g vec] l ord same_ring_simps(3) [OF g] by (simp add: rep_def)
qed

lemma ooo_link_before_ok:
  assumes r: "rep f (xs @ s # ys) (oxs @ (a, e) # oys)" and len: "length oxs = length xs"
    and x: "last_end 0 oxs < x" "0 < n" "x + n < a"
  shows "rep (ooo_link_before f s (pos f x) n) (xs @ ooos_newest (ooo_link_before f s (pos f x) n) # s # ys)
           (oxs @ (x, x + n) # (a, e) # oys)"
    and "same_ring f (ooo_link_before f s (pos f x) n)"
proof -
  let ?g = "ooo_link_before f s (pos f x) n"
  note b = rep_room [OF r]
  have l: "links f (xs @ s # ys)" and h: "list_all2 (holds f (tail f)) (xs @ s # ys) (oxs @ (a, e) # oys)"
    and ord: "ordered 0 (room f) (oxs @ (a, e) # oys)" using r by (simp_all add: rep_def)
  have "length (xs @ s # ys) + 1 < INV" using b(3,4) by simp
  from ooo_link_before_links [OF l this refl, of "pos f x" n]
  obtain k where k: "links ?g (xs @ k # s # ys)" "seg_data ?g k = (pos f x, n)"
    "\<forall>j \<in> set (xs @ s # ys). seg_data ?g j = seg_data f j" "same_ring f ?g" "ooos_newest ?g = k"
    "length (pool_vec (ooo_segments ?g)) \<le> max (length (pool_vec (ooo_segments f))) (length (xs @ s # ys) + 1)"
    by auto
  have "length (pool_vec (ooo_segments ?g)) \<le> nitems f" using k(6) b(1,3) by (auto simp: ring_ok_def)
  moreover have "ordered 0 (room f) (oxs @ (x, x + n) # (a, e) # oys)" using ord x by auto
  ultimately show "rep ?g (xs @ ooos_newest ?g # s # ys) (oxs @ (x, x + n) # (a, e) # oys)"
    using rep_linked [OF b(1) k(4,1) _ k(2) h len] k(3,5) by simp
  show "same_ring f ?g" by (rule k(4))
qed

lemma ooo_link_after_ok:
  assumes r: "rep f (xs @ [s]) (oxs @ [(a, e)])" and len: "length oxs = length xs"
    and x: "e < x" "0 < n" "x + n \<le> room f"
  shows "rep (ooo_link_after f s (pos f x) n) (xs @ [s, ooos_newest (ooo_link_after f s (pos f x) n)])
           (oxs @ [(a, e), (x, x + n)])"
    and "same_ring f (ooo_link_after f s (pos f x) n)"
proof -
  let ?g = "ooo_link_after f s (pos f x) n"
  note b = rep_room [OF r]
  have l: "links f (xs @ [s])" and h: "list_all2 (holds f (tail f)) ((xs @ [s]) @ []) ((oxs @ [(a, e)]) @ [])"
    and ord: "ordered 0 (room f) (oxs @ [(a, e)])" using r by (simp_all add: rep_def)
  have "length (xs @ [s]) + 1 < INV" using b(3,4) by simp
  from ooo_link_after_links [OF l this refl, of "pos f x" n]
  obtain k where k: "links ?g ((xs @ [s]) @ k # [])" "seg_data ?g k = (pos f x, n)"
    "\<forall>j \<in> set (xs @ [s]). seg_data ?g j = seg_data f j" "same_ring f ?g" "ooos_newest ?g = k"
    "length (pool_vec (ooo_segments ?g)) \<le> max (length (pool_vec (ooo_segments f))) (length (xs @ [s]) + 1)"
    by auto
  have "length (pool_vec (ooo_segments ?g)) \<le> nitems f" using k(6) b(1,3) by (auto simp: ring_ok_def)
  moreover have "ordered 0 (room f) ((oxs @ [(a, e)]) @ (x, x + n) # [])" using ord x by auto
  ultimately show "rep ?g (xs @ [s, ooos_newest ?g]) (oxs @ [(a, e), (x, x + n)])"
    using rep_linked [OF b(1) k(4,1) _ k(2) h] k(3,5) len by simp
  show "same_ring f ?g" by (rule k(4))
qed

lemma ooo_segment_new_ok:
  assumes r: "rep f [] []" and k: "ooo_segment_new f (pos f x) n = (k, g)"
    and x: "0 < x" "0 < n" "x + n \<le> room f"
  shows "rep (g\<lparr>ooos_list_head := k\<rparr>) [k] [(x, x + n)]" and "same_ring f (g\<lparr>ooos_list_head := k\<rparr>)"
proof -
  note b = rep_room [OF r]
  have live: "pool_live (ooo_segments f) = {}" and ok: "pool_ok (ooo_segments f)"
    using r by (auto simp: rep_def links_def)
  note n = ooo_segment_new_facts [OF ok k]
  let ?g = "g\<lparr>ooos_list_head := k\<rparr>"
  show sr: "same_ring f ?g" using n(6) by (simp add: same_ring_def)
  have vec: "length (pool_vec (ooo_segments ?g)) \<le> nitems f"
    using n(9) b(1) live by (auto simp: ring_ok_def)
  then have "links ?g ([] @ k # [])" using n live b(4) by (simp add: links_def)
  then show "rep ?g [k] [(x, x + n)]"
    using rep_linked [OF b(1) sr, of "[]" k "[]" x n "[]" "[]"] vec n(4) x by simp
qed

text \<open>
  The two ways a segment is reached: the one before the place found (it starts earlier and ends at
  or after the new data), or the one found, when the new data start after everything before it.
\<close>

lemma ooo_add_overlap:
  assumes r: "rep f (xs @ s # ys) (oxs @ (a, e) # oys)" and len: "length oxs = length xs"
    and x: "last_end 0 oxs < x" "x \<le> e" "a \<le> x + n" "0 < n" "x + n \<le> room f"
    and g: "f' = (if x < a then (seg_write f s ((seg_at f s)\<lparr>seg_start := pos f x,
                seg_length := position_diff f (pos f e) (pos f x)\<rparr>))\<lparr>ooos_newest := s\<rparr> else f)"
  shows "\<exists>g is' os'. ooo_check_tail f' s (pos f e) (pos f (x + n)) = Some g \<and> rep g is' os' \<and>
     same_ring f g \<and> cov os' = cov (oxs @ (a, e) # oys) \<union> {x..<x + n}"
proof (cases "x < a")
  case True
  have ok: "ring_ok f" and l: "links f (xs @ s # ys)"
    and h: "list_all2 (holds f (tail f)) (xs @ s # ys) (oxs @ (a, e) # oys)"
    and ord: "ordered 0 (room f) (oxs @ (a, e) # oys)" using r by (simp_all add: rep_def)
  define f1 where "f1 = seg_write f s ((seg_at f s)\<lparr>seg_start := pos f x, seg_length := e - x\<rparr>)"
  have hx: "list_all2 (holds f (tail f)) xs oxs" "list_all2 (holds f (tail f)) ys oys"
    using h len by (auto simp: list_all2_append)
  note w = rep_write [OF ok l hx f1_def]
  note q = same_ring_simps [OF w(3)]
  have xe: "0 < x" "x < e" "e \<le> room f" using x True ord by auto
  have f': "f' = f1\<lparr>ooos_newest := s\<rparr>"
    using position_simps(4) [OF ok, of e x] xe True g by (simp add: f1_def)
  have ord1: "ordered 0 (room f1) (oxs @ (x, e) # oys)" using ord x True xe q(3) by auto
  obtain g is' os' where "ooo_check_tail f' s (pos f' e) (pos f' (x + n)) = Some g" "rep g is' os'"
     "same_ring f' g" "cov os' = cov (oxs @ (x, e) # oys) \<union> {x..<x + n}"
    using ooo_check_tail_ok [of f' xs s ys oxs x e oys "x + n"] w(1,2,4) len ord1 x q(3) f' by auto
  moreover have "cov (oxs @ (x, e) # oys) \<union> {x..<x + n} = cov (oxs @ (a, e) # oys) \<union> {x..<x + n}"
    using True x by auto
  ultimately show ?thesis using same_ring_trans [OF w(3), of g] q f'
    by (intro exI [of _ g] exI [of _ is'] exI [of _ os']) simp
next
  case False
  have "a < x + n" using False x by simp
  then have "\<exists>g is' os'. ooo_check_tail f s (pos f e) (pos f (x + n)) = Some g \<and> rep g is' os' \<and>
     same_ring f g \<and> cov os' = cov (oxs @ (a, e) # oys) \<union> {a..<x + n}"
    using ooo_check_tail_ok [of f xs s ys oxs a e oys "x + n"] r len x by (simp add: rep_def)
  moreover have "cov (oxs @ (a, e) # oys) \<union> {a..<x + n} = cov (oxs @ (a, e) # oys) \<union> {x..<x + n}"
    using False x by auto
  ultimately show ?thesis using False g by simp
qed

lemma rep_prev:
  assumes "rep f (xs @ zs) (oxs @ ozs)" and "length oxs = length xs" and "xs \<noteq> []"
  obtains us p ous b c where "xs = us @ [p]" "oxs = ous @ [(b, c)]" "length ous = length us" "p \<noteq> INV"
    "ooo_segment_end_pos f p = pos f c" "0 < b" "b < c" "c \<le> room f"
proof -
  obtain us p where xs: "xs = us @ [p]" using assms(3) by (metis append_butlast_last_id)
  then obtain ous b c where oxs: "oxs = ous @ [(b, c)]" "length ous = length us"
    using assms(2) by (cases oxs rule: rev_cases) auto
  have bc: "0 < b" "b < c" "c \<le> room f" using assms(1) oxs by (auto simp: rep_def)
  have "holds f (tail f) p (b, c)" using assms(1) xs oxs by (auto simp: rep_def list_all2_append)
  then have "ooo_segment_end_pos f p = pos f c"
    using holds_end [of f p b c] assms(1) bc by (simp add: rep_def)
  moreover have "p \<noteq> INV" using assms(1) links_not_INV [of f "xs @ zs"] xs by (auto simp: rep_def)
  ultimately show ?thesis using that xs oxs bc by blast
qed

lemma ooo_segment_place_ok:
  assumes r: "rep f (xs @ s # ys) (oxs @ (a, e) # oys)" and len: "length oxs = length xs"
    and before: "\<forall>p \<in> set oxs. fst p < x" and after: "ys = [] \<or> x \<le> a"
    and x: "0 < x" "0 < n" "x + n \<le> room f"
  shows "\<exists>g is' os'. ooo_segment_place f s (pos f x) (pos f (x + n)) n = Some g \<and> rep g is' os' \<and>
     same_ring f g \<and> cov os' = cov (oxs @ (a, e) # oys) \<union> {x..<x + n}"
proof -
  have ok: "ring_ok f" and l: "links f (xs @ s # ys)"
    and h: "list_all2 (holds f (tail f)) (xs @ s # ys) (oxs @ (a, e) # oys)"
    and ord: "ordered 0 (room f) (oxs @ (a, e) # oys)" using r by (simp_all add: rep_def)
  have hs: "holds f (tail f) s (a, e)" using h len by (auto simp: list_all2_append)
  have ae: "0 < a" "a < e" "e \<le> room f" using ord by auto
  note st = holds_start [OF hs] and en = holds_end [OF ok hs ae(2,3)]
  have prev: "seg_prev (seg_at f s) = last_or INV xs" using l by (simp add: links_def)
  show ?thesis
  proof (cases "xs \<noteq> [] \<and> x \<le> last_end 0 oxs")
    case True
    then obtain us p ous b c where xs: "xs = us @ [p]" and oxs: "oxs = ous @ [(b, c)]" "length ous = length us"
      and pe: "p \<noteq> INV" "ooo_segment_end_pos f p = pos f c" and bc: "0 < b" "b < c" "c \<le> room f"
      using rep_prev [OF r len] by metis
    have bx: "b < x" "x \<le> c" using oxs before True by auto
    have step: "ooo_segment_place f s (pos f x) (pos f (x + n)) n =
        ooo_check_tail f p (pos f c) (pos f (x + n))"
      using prev xs pe position_simps(2) [OF ok, of x c] bc bx x by (simp add: ooo_segment_place_def)
    have "b < x + n" using bx by simp
    then have "\<exists>g is' os'. ooo_check_tail f p (pos f c) (pos f (x + n)) = Some g \<and> rep g is' os' \<and>
        same_ring f g \<and> cov os' = cov (ous @ (b, c) # (a, e) # oys) \<union> {b..<x + n}"
      using ooo_check_tail_ok [OF ok, of us p "s # ys" ous b c "(a, e) # oys" "x + n"] l h ord xs oxs x by simp
    moreover have "cov (ous @ (b, c) # (a, e) # oys) \<union> {b..<x + n} = cov (oxs @ (a, e) # oys) \<union> {x..<x + n}"
      using bc bx oxs by auto
    ultimately show ?thesis using step by simp
  next
    case False
    then have lx: "last_end 0 oxs < x" using x len by (cases "xs = []") auto
    have np: "\<not> (last_or INV xs \<noteq> INV \<and> position_leq f (pos f x) (ooo_segment_end_pos f (last_or INV xs)))"
    proof (cases "xs = []")
      case False
      then obtain us p ous b c where "xs = us @ [p]" "oxs = ous @ [(b, c)]"
        "ooo_segment_end_pos f p = pos f c" "0 < b" "b < c" "c \<le> room f"
        using rep_prev [OF r len] by metis
      then show ?thesis using position_simps(2) [OF ok, of x c] x lx by simp
    qed simp
    have lt: "position_lt f (pos f (x + n)) (pos f a) \<longleftrightarrow> x + n < a"
      and lt2: "position_lt f (pos f x) (pos f a) \<longleftrightarrow> x < a"
      and gt: "position_gt f (pos f x) (pos f e) \<longleftrightarrow> e < x"
      using position_simps [OF ok] ae x by auto
    consider "x + n < a" | "e < x" | "a \<le> x + n" "x \<le> e" by linarith
    then show ?thesis
    proof cases
      case 1
      then have "ooo_segment_place f s (pos f x) (pos f (x + n)) n = Some (ooo_link_before f s (pos f x) n)"
        using lt unfolding ooo_segment_place_def Let_def prev st en if_not_P [OF np] by simp
      then show ?thesis using ooo_link_before_ok [OF r len lx x(2) 1] by (intro exI conjI) auto
    next
      case 2
      then have ys: "ys = []" "oys = []" using after ae h len by (auto simp: list_all2_append)
      have "ooo_segment_place f s (pos f x) (pos f (x + n)) n = Some (ooo_link_after f s (pos f x) n)"
        using lt gt 2 ae unfolding ooo_segment_place_def Let_def prev st en if_not_P [OF np] by simp
      then show ?thesis using ooo_link_after_ok [of f xs s oxs a e x n] r len ys 2 x by (intro exI conjI) auto
    next
      case 3
      then show ?thesis
        using ooo_add_overlap [OF r len lx 3(2,1) x(2,3) refl] lt lt2 gt
        unfolding ooo_segment_place_def Let_def prev st en if_not_P [OF np] by simp
    qed
  qed
qed

lemma ooo_segment_add_ok:
  assumes r: "rep f is os" and x: "0 < x" "0 < n" "x + n \<le> room f"
  shows "\<exists>g is' os'. ooo_segment_add f x n = Some g \<and> rep g is' os' \<and> same_ring f g \<and>
     cov os' = cov os \<union> {x..<x + n}"
proof -
  define f0 where "f0 = f\<lparr>ooos_newest := INV\<rparr>"
  have r0: "rep f0 is os" and s0: "same_ring f f0" using r by (simp_all add: f0_def)
  have ok: "ring_ok f0" and l: "links f0 is" and h: "list_all2 (holds f0 (tail f0)) is os"
    and ord: "ordered 0 (room f0) os" using r0 by (simp_all add: rep_def)
  note q = same_ring_simps [OF s0]
  have bnd: "tail f < nitems f" "nitems f < 2147483648" "x + n \<le> nitems f"
    using ring_tail [OF ok] room_bound(1,2) [OF ok] x q by auto
  have np: "u32_add (tail f) x mod nitems f = pos f0 x"
    and nep: "u32_add (u32_add (tail f) x) n mod nitems f = pos f0 (x + n)"
    using bnd q by (simp_all add: add.assoc)
  have xr: "x + n \<le> room f0" "x \<le> room f0" using x q by simp_all
  have "\<exists>g is' os'. ooo_segment_add f x n = Some g \<and> rep g is' os' \<and> same_ring f0 g \<and>
     cov os' = cov os \<union> {x..<x + n}"
  proof (cases "is")
    case Nil
    then have os: "os = []" using h by simp
    obtain k g where k: "ooo_segment_new f0 (pos f0 x) n = (k, g)" by fastforce
    have "ooo_segment_add f x n = Some (g\<lparr>ooos_list_head := k, ooos_newest := k\<rparr>)"
      using l Nil k by (simp add: ooo_segment_add_def np Let_def links_def flip: f0_def)
    then show ?thesis using ooo_segment_new_ok [of f0 x n k g] r0 Nil os k x(1,2) xr
      by (intro exI [of _ "g\<lparr>ooos_list_head := k, ooos_newest := k\<rparr>"] exI [of _ "[k]"] exI [of _ "[(x, x + n)]"]) auto
  next
    case (Cons i js)
    have hd: "ooos_list_head f0 = i" using l Cons by (simp add: links_def)
    have "i \<noteq> INV" using links_not_INV [OF l] unfolding Cons by auto
    obtain xs s ys oxs a e oys where fs: "ooo_find_start f0 (pos f0 x) i = Some s" "is = xs @ s # ys"
      "os = oxs @ (a, e) # oys" "length oxs = length xs" "\<forall>p \<in> set oxs. fst p < x" "ys = [] \<or> x \<le> a"
      using ooo_find_start_ok [OF ok _ _ ord x(1) xr(2), of "[]" i js] l h unfolding Cons append_Nil
      by (metis empty_iff list.size(3) set_empty take0)
    have "ooo_segment_add f x n = ooo_segment_place f0 s (pos f0 x) (pos f0 (x + n)) n"
      using hd \<open>i \<noteq> INV\<close> fs(1) by (simp add: ooo_segment_add_def np nep Let_def flip: f0_def)
    then show ?thesis
      using ooo_segment_place_ok [OF r0 [unfolded fs(2,3)] fs(4-6) x(1,2) xr(1)] fs(3) by simp
  qed
  then show ?thesis using same_ring_trans [OF s0] by blast
qed

section \<open>Collecting the segments the tail has reached\<close>

fun collect :: "nat \<Rightarrow> (nat \<times> nat) list \<Rightarrow> nat \<times> (nat \<times> nat) list" where
  "collect m [] = (0, [])"
| "collect m ((a, c) # os) =
     (if a \<le> m then if m < c then (c - m, os) else collect m os else (0, (a, c) # os))"

lemma collect_ok:
  assumes "ordered lo R os" and "collect m os = (b, os')" and "m \<le> R"
  shows "ordered (m + b) R os' \<and> {m..<m + b} \<subseteq> cov os \<and> m + b \<notin> cov os \<and>
    cov os' = {x \<in> cov os. m + b \<le> x}"
  using assms
proof (induction os arbitrary: lo)
  case (Cons p os)
  obtain a c where p: "p = (a, c)" by fastforce
  have o: "lo < a" "a < c" "c \<le> R" "ordered c R os" using Cons.prems p by auto
  show ?case
  proof (cases "a \<le> m \<and> c \<le> m")
    case True
    then have "collect m os = (b, os')" using Cons.prems p by simp
    from Cons.IH [OF o(4) this Cons.prems(3)] show ?thesis using True p by auto
  next
    case False
    have far: "\<forall>x \<in> cov os. c < x" using cov_bounds [OF o(4)] by simp
    show ?thesis
    proof (cases "a \<le> m")
      case True
      then have "b = c - m" "os' = os" "m < c" using False Cons.prems p by auto
      then show ?thesis using True p o far by force
    next
      case c: False
      then have "b = 0" "os' = (a, c) # os" using Cons.prems p by auto
      then show ?thesis using c p o far by force
    qed
  qed
qed auto

lemma distance_to_tail:
  assumes n: "n < 2147483648" and a: "0 < a" "a < n" and m: "m \<le> n" and t: "t < n"
    and f: "tail f = (t + m) mod n" "nitems f = n"
  shows "ooo_segment_distance_to_tail f ((t + a) mod n) = (if a \<le> m then m - a else n + m - a)"
proof -
  let ?T = "(t + m) mod n" and ?p = "(t + a) mod n"
  have T: "?T = (if t + m < n then t + m else t + m - n)" and p: "?p = (if t + a < n then t + a else t + a - n)"
    using ring_offset_mod t a m by auto
  have lt: "?T < n" "?p < n" using t by simp_all
  then have "u32_add n ?T = n + ?T" "u32_sub (n + ?T) ?p = n + ?T - ?p"
    using n by (auto intro!: u32_add_small u32_sub_ge simp del: mod_less_divisor)
  then have "ooo_segment_distance_to_tail f ?p = (n + ?T - ?p) mod n"
    using f by (simp add: ooo_segment_distance_to_tail_def)
  also have "\<dots> = (if a \<le> m then m - a else n + m - a)"
  proof (cases "a \<le> m")
    case True
    then have "n + ?T - ?p = (m - a) + n \<or> n + ?T - ?p = m - a" using T p lt a m t by (auto split: if_splits)
    moreover have "m - a < n" using a m by simp
    ultimately show ?thesis using True by (metis mod_add_self2 mod_less)
  next
    case False
    then have "n + ?T - ?p = (n + m - a) + n \<or> n + ?T - ?p = n + m - a" using T p lt a m t by (auto split: if_splits)
    moreover have "n + m - a < n" using False a by simp
    ultimately show ?thesis using False by (metis mod_add_self2 mod_less)
  qed
  finally show ?thesis .
qed

text \<open>
  The state while the loop runs: the intervals are still counted from the position \<open>t\<close> of the tail
  before the \<open>m\<close> bytes were copied in.
\<close>

definition collecting :: "nat \<Rightarrow> nat \<Rightarrow> nat \<Rightarrow> svm_fifo \<Rightarrow> nat list \<Rightarrow> (nat \<times> nat) list \<Rightarrow> bool" where
  "collecting t m lo f is os \<longleftrightarrow> 0 < nitems f \<and> nitems f < 2147483648 \<and> t < nitems f \<and>
     m \<le> room f \<and> room f \<le> nitems f \<and> tail f = (t + m) mod nitems f \<and> links f is \<and>
     list_all2 (holds f t) is os \<and> ordered lo (room f) os"

lemma collecting_del:
  assumes "collecting t m lo f (i # is) ((a, c) # os)"
  shows "collecting t m c (ooo_segment_del f i) is os" and "same_ring f (ooo_segment_del f i)"
    and "length (pool_vec (ooo_segments (ooo_segment_del f i))) = length (pool_vec (ooo_segments f))"
proof -
  have l: "links f ([] @ i # is)" using assms by (simp add: collecting_def)
  note d = ooo_segment_del_links [OF l]
  show sr: "same_ring f (ooo_segment_del f i)" using d(3) .
  show "length (pool_vec (ooo_segments (ooo_segment_del f i))) = length (pool_vec (ooo_segments f))" using d(4) .
  have "holds (ooo_segment_del f i) t j p = holds f t j p" if "j \<in> set is" for j p
    using d(2) [of j] that same_ring_simps(2) [OF sr] by (simp add: holds_def)
  moreover have "list_all2 (holds f t) is os" using assms by (simp add: collecting_def)
  ultimately have "list_all2 (holds (ooo_segment_del f i) t) is os"
    by (metis (mono_tags) list.rel_mono_strong)
  then show "collecting t m c (ooo_segment_del f i) is os"
    using assms d(1) same_ring_simps [OF sr] by (simp add: collecting_def)
qed

lemma collecting_seg:
  assumes "collecting t m lo f (i # is) ((a, c) # os)"
  shows "ooo_segment_distance_to_tail f (seg_start (seg_at f i)) = (if a \<le> m then m - a else nitems f + m - a)"
    and "seg_length (seg_at f i) = c - a" and "seg_next (seg_at f i) = hd_or INV is" and "i \<noteq> INV"
    and "lo < a" "a < c" "c \<le> room f" "ordered c (room f) os"
proof -
  show o: "lo < a" "a < c" "c \<le> room f" "ordered c (room f) os" using assms by (auto simp: collecting_def)
  have h: "seg_data f i = ((t + a) mod nitems f, c - a)" using assms by (simp add: collecting_def holds_def)
  show "ooo_segment_distance_to_tail f (seg_start (seg_at f i)) = (if a \<le> m then m - a else nitems f + m - a)"
    using h assms o distance_to_tail [of "nitems f" a m t f] by (simp add: collecting_def)
  show "seg_length (seg_at f i) = c - a" using h by simp
  show "seg_next (seg_at f i) = hd_or INV is" using assms by (simp add: collecting_def links_def)
  show "i \<noteq> INV" using assms links_not_INV [of f "i # is"] by (auto simp: collecting_def)
qed

definition collected :: "nat \<Rightarrow> nat \<Rightarrow> svm_fifo \<Rightarrow> svm_fifo \<Rightarrow> nat list \<Rightarrow> (nat \<times> nat) list \<Rightarrow> bool" where
  "collected t k f g is os \<longleftrightarrow> links g is \<and> list_all2 (holds g t) is os \<and>
     same_ring (f\<lparr>tail := (t + k) mod nitems f\<rparr>) g \<and>
     length (pool_vec (ooo_segments g)) = length (pool_vec (ooo_segments f))"

lemma del_tail: "ooo_segment_del (f\<lparr>tail := x\<rparr>) i = (ooo_segment_del f i)\<lparr>tail := x\<rparr>"
  by (simp add: ooo_segment_del_def seg_write_def Let_def)

lemma ooo_collect_stop:
  assumes c: "collecting t m lo f (i # is) ((a, c) # os)" and "\<not> (a \<le> m \<and> c \<le> m)"
    and b: "collect m ((a, c) # os) = (b, os')"
  shows "\<exists>g is'. ooo_collect_loop f i (if a \<le> m then m - a else nitems f + m - a) m = Some (b, g) \<and>
     collected t (m + b) f g is' os'"
proof (cases "a \<le> m")
  case False
  have "room f \<le> nitems f" using c by (simp add: collecting_def)
  then have "\<not> nitems f + m - a < m" using False collecting_seg(6,7) [OF c] by linarith
  then have "ooo_collect_loop f i (nitems f + m - a) m = Some (0, f)"
    by (simp add: ooo_collect_loop.simps [of f i])
  moreover have "collected t m f f (i # is) ((a, c) # os)"
    using c by (simp add: collected_def collecting_def same_ring_def)
  ultimately show ?thesis using False b by auto
next
  case True
  note s = collecting_seg [OF c] and d = collecting_del [OF c]
  have mc: "m < c" "0 < a" "b = c - m" "os' = os" using True assms(2) b s(5) by auto
  have n: "m \<le> nitems f" "c \<le> nitems f" "nitems f < 2147483648" "tail f = (t + m) mod nitems f" "tail f < nitems f"
    using c s by (auto simp: collecting_def)
  then have "(tail f + (c - m)) mod nitems f = (t + m + (c - m)) mod nitems f"
    by (simp only: mod_add_left_eq)
  moreover have "u32_add (tail f) (c - m) = tail f + (c - m)"
    by (rule u32_add_small) (use n in linarith)
  ultimately have tl: "u32_add (tail f) (c - m) mod nitems f = (t + c) mod nitems f" using mc by simp
  have u: "u32_sub (c - a) (m - a) = c - m" using n mc True by simp
  let ?g = "(ooo_segment_del f i)\<lparr>tail := (t + c) mod nitems f\<rparr>"
  have "ooo_collect_loop f i (m - a) m = Some (c - m, ?g)"
  proof -
    have "m - a < m" "m - a < 2147483648" "m - a < c - a" using True mc n by auto
    then show ?thesis using s(2) by (simp add: ooo_collect_loop.simps [of f i] u tl del_tail Let_def)
  qed
  moreover have "collected t c f ?g is os"
  proof -
    have "links ?g is" using d(1) by (simp add: collecting_def links_def)
    moreover have "list_all2 (holds ?g t) is os"
      using d(1) by (simp add: collecting_def holds_def [abs_def])
    ultimately show ?thesis using d(2,3) by (simp add: collected_def same_ring_def)
  qed
  ultimately show ?thesis using True mc by auto
qed

lemma ooo_collect_loop_ok:
  assumes "collecting t m lo f (i # is) ((a, c) # os)" and "collect m ((a, c) # os) = (b, os')"
  shows "\<exists>g is'. ooo_collect_loop f i (if a \<le> m then m - a else nitems f + m - a) m = Some (b, g) \<and>
     collected t (m + b) f g is' os'"
  using assms
proof (induction "is" arbitrary: f lo i a c os)
  case Nil
  note s = collecting_seg [OF Nil.prems(1)] and d = collecting_del [OF Nil.prems(1)]
  show ?case
  proof (cases "a \<le> m \<and> c \<le> m")
    case True
    have os: "os = []" using Nil.prems(1) by (simp add: collecting_def)
    have "m - a < m" "m - a < 2147483648" "\<not> m - a < c - a"
      using True s(5) Nil.prems(1) by (auto simp: collecting_def)
    then have "ooo_collect_loop f i (m - a) m = Some (0, ooo_segment_del f i)"
      using True s(2,3) by (simp add: ooo_collect_loop.simps [of f i])
    moreover have "collected t m f (ooo_segment_del f i) [] []"
      using d Nil.prems(1) os by (simp add: collected_def collecting_def same_ring_def)
    ultimately show ?thesis using True Nil.prems(2) os by auto
  qed (rule ooo_collect_stop [OF Nil.prems(1) _ Nil.prems(2)])
next
  case (Cons j js)
  note s = collecting_seg [OF Cons.prems(1)] and d = collecting_del [OF Cons.prems(1)]
  show ?case
  proof (cases "a \<le> m \<and> c \<le> m")
    case True
    obtain a' c' os2 where os: "os = (a', c') # os2"
      using Cons.prems(1) by (auto simp: collecting_def list_all2_Cons1)
    let ?f = "ooo_segment_del f i"
    note s2 = collecting_seg [OF d(1) [unfolded os]]
    have "m - a < m" "m - a < 2147483648" "\<not> m - a < c - a"
      using True s(5) Cons.prems(1) by (auto simp: collecting_def)
    moreover have "ooo_segment_distance_to_tail f (seg_start (seg_at f j)) = (if a' \<le> m then m - a' else nitems f + m - a')"
    proof -
      have "seg_data f j = seg_data ?f j"
        using ooo_segment_del_links(2) [of f "[]" i "j # js" j] Cons.prems(1) by (simp add: collecting_def)
      then show ?thesis using s2(1) d(2) by (simp add: same_ring_def ooo_segment_distance_to_tail_def)
    qed
    ultimately have "ooo_collect_loop f i (m - a) m =
        ooo_collect_loop ?f j (if a' \<le> m then m - a' else nitems f + m - a') m"
      using True s(2,3) s2(4) by (subst ooo_collect_loop.simps) simp
    moreover obtain g is' where g: "ooo_collect_loop ?f j (if a' \<le> m then m - a' else nitems ?f + m - a') m = Some (b, g)"
        "collected t (m + b) ?f g is' os'"
      using Cons.IH [OF d(1) [unfolded os]] Cons.prems(2) True os by auto
    moreover have "collected t (m + b) f g is' os'"
      using g(2) d(2,3) by (simp add: collected_def same_ring_def)
    ultimately show ?thesis using True same_ring_simps(2) [OF d(2)] by auto
  qed (rule ooo_collect_stop [OF Cons.prems(1) _ Cons.prems(2)])
qed

lemma ooo_segment_try_collect_ok:
  assumes c: "collecting t m 0 f is os" and "is \<noteq> []" and b: "collect m os = (b, os')"
  shows "\<exists>g is'. ooo_segment_try_collect f m = Some (b, g) \<and> collected t (m + b) f g is' os'"
proof -
  obtain i js a c os2 where eq: "is = i # js" "os = (a, c) # os2"
    using c assms(2) by (cases "is") (auto simp: collecting_def list_all2_Cons1)
  note c' = c [unfolded eq] and b' = b [unfolded eq]
  note s = collecting_seg [OF c']
  have hd: "ooos_list_head f = i" using c' by (simp add: collecting_def links_def)
  show ?thesis
  proof (cases "a \<le> m")
    case True
    then have "\<not> m < m - a" by simp
    then show ?thesis using True ooo_collect_loop_ok [OF c' b'] hd s(1)
      by (simp add: ooo_segment_try_collect_def Let_def)
  next
    case False
    moreover have "room f \<le> nitems f" using c by (simp add: collecting_def)
    ultimately have "nitems f + m - a > m" using s(6,7) by linarith
    then have "ooo_segment_try_collect f m = Some (0, f)"
      using False hd s(1) by (simp add: ooo_segment_try_collect_def)
    moreover have "collected t m f f is os"
      using c by (simp add: collected_def collecting_def same_ring_def)
    ultimately show ?thesis using False b' eq by auto
  qed
qed

section \<open>Copies around the ring\<close>

lemma ring_index: "i < n \<Longrightarrow> p < n \<Longrightarrow> \<exists>x < n. i = (p + x) mod (n::nat)"
  by (rule exI [of _ "if p \<le> i then i - p else n + i - p"]) auto

text \<open>Two copies, up to the end of the buffer and on from its start.\<close>

definition ring_put :: "'a list \<Rightarrow> nat \<Rightarrow> 'a list \<Rightarrow> nat \<Rightarrow> 'a list" where
  "ring_put d p src k =
     memcpy_at (memcpy_at d p src (min (length d - p) k)) 0
       (drop (min (length d - p) k) src) (k - min (length d - p) k)"

definition ring_get :: "'a list \<Rightarrow> nat \<Rightarrow> nat \<Rightarrow> 'a list" where
  "ring_get d p k = take (min (length d - p) k) (drop p d) @ take (k - min (length d - p) k) d"

lemma memcpy_at_0 [simp]: "memcpy_at d p src 0 = d"
  by (simp add: memcpy_at_def)

lemma length_ring_put [simp]:
  "p < length d \<Longrightarrow> k \<le> length d \<Longrightarrow> k \<le> length src \<Longrightarrow> length (ring_put d p src k) = length d"
  by (simp add: ring_put_def)

lemma nth_ring_put:
  assumes "p < length d" and "k \<le> length d" and "k \<le> length src" and "x < length d"
  shows "ring_put d p src k ! ((p + x) mod length d) =
    (if x < k then src ! x else d ! ((p + x) mod length d))"
proof -
  have i: "(p + x) mod length d = (if p + x < length d then p + x else p + x - length d)"
    using ring_offset_mod [of p "length d" x] assms by simp
  show ?thesis using assms unfolding i
    by (auto simp: ring_put_def nth_memcpy_at min_def)
qed

lemma ring_get_eq:
  assumes "p < length d" and "k \<le> length d"
  shows "ring_get d p k = map (\<lambda>x. d ! ((p + x) mod length d)) [0..<k]"
proof (rule nth_equalityI)
  show "length (ring_get d p k) = length (map (\<lambda>x. d ! ((p + x) mod length d)) [0..<k])"
    using assms by (simp add: ring_get_def)
  fix x assume "x < length (ring_get d p k)"
  then have x: "x < k" using assms by (simp add: ring_get_def)
  then have i: "(p + x) mod length d = (if p + x < length d then p + x else p + x - length d)"
    using ring_offset_mod [of p "length d" x] assms by simp
  show "ring_get d p k ! x = map (\<lambda>x. d ! ((p + x) mod length d)) [0..<k] ! x"
    using x assms by (auto simp: ring_get_def nth_append i min_def add.commute)
qed

section \<open>The abstract FIFO\<close>

text \<open>
  A capacity, the bytes ready to be read, in order, and the bytes received ahead of them: \<open>a_ahead x\<close>
  is the byte \<open>x\<close> positions after the end of the stream, when it is there already.
\<close>

record afifo =
  a_cap :: nat
  a_stream :: "byte list"
  a_ahead :: "nat \<Rightarrow> byte option"

definition a_free :: "afifo \<Rightarrow> nat" where
  "a_free A = a_cap A - length (a_stream A)"

text \<open>The bytes of \<open>a_ahead\<close> that follow without a gap from position \<open>m\<close> on.\<close>

definition pending_run :: "afifo \<Rightarrow> nat \<Rightarrow> byte list" where
  "pending_run A m = map the (takeWhile (\<lambda>b. b \<noteq> None) (map (a_ahead A) [m..<a_free A]))"

definition spec_enqueue :: "byte list \<Rightarrow> afifo \<Rightarrow> nat \<times> afifo" where
  "spec_enqueue bs A =
     (let m = min (a_free A) (length bs);
          r = pending_run A m
      in (m + length r, A\<lparr>a_stream := a_stream A @ take m bs @ r,
            a_ahead := (\<lambda>x. a_ahead A (m + length r + x))\<rparr>))"

definition spec_enqueue_at :: "nat \<Rightarrow> byte list \<Rightarrow> afifo \<Rightarrow> afifo" where
  "spec_enqueue_at off bs A =
     A\<lparr>a_ahead := (\<lambda>x. if off \<le> x \<and> x < off + length bs then Some (bs ! (x - off)) else a_ahead A x)\<rparr>"

definition spec_dequeue :: "nat \<Rightarrow> afifo \<Rightarrow> byte list \<times> afifo" where
  "spec_dequeue k A = (take k (a_stream A), A\<lparr>a_stream := drop k (a_stream A)\<rparr>)"

definition stream :: "svm_fifo \<Rightarrow> byte list" where
  "stream f = map (\<lambda>k. f_data f ! ((head f + k) mod nitems f)) [0..<cursize f]"

definition pending :: "svm_fifo \<Rightarrow> nat set" where
  "pending f = (\<Union>i \<in> pool_live (ooo_segments f). {ooo_segment_offset f i ..< ooo_segment_end_offset f i})"

definition fifo_abs :: "svm_fifo \<Rightarrow> afifo" where
  "fifo_abs f = \<lparr>a_cap = nitems f, a_stream = stream f,
     a_ahead = (\<lambda>x. if x \<in> pending f then Some (f_data f ! pos f x) else None)\<rparr>"

lemma length_stream [simp]: "length (stream f) = cursize f"
  by (simp add: stream_def)

lemma fifo_abs_simps [simp]:
  "a_cap (fifo_abs f) = nitems f" "a_stream (fifo_abs f) = stream f" "a_free (fifo_abs f) = room f"
  "a_ahead (fifo_abs f) x = (if x \<in> pending f then Some (f_data f ! pos f x) else None)"
  by (simp_all add: fifo_abs_def a_free_def room_def)

lemma pending_cov:
  assumes "rep f is os"
  shows "pending f = cov os"
proof -
  have ok: "ring_ok f" and h: "list_all2 (holds f (tail f)) is os" and o: "ordered 0 (room f) os"
    and live: "pool_live (ooo_segments f) = set is" using assms by (auto simp: rep_def links_def)
  have one: "{ooo_segment_offset f (is ! k) ..< ooo_segment_end_offset f (is ! k)} = (case os ! k of (a, e) \<Rightarrow> {a..<e})"
    if k: "k < length is" for k
  proof -
    obtain a e where ae: "os ! k = (a, e)" by fastforce
    have hk: "holds f (tail f) (is ! k) (a, e)" using list_all2_nthD [OF h k] ae by simp
    have b: "0 < a" "a < e" "e \<le> room f"
      using ordered_mem [OF o, of a e] ae k list_all2_lengthD [OF h] by (metis nth_mem)+
    have "ooo_segment_offset f (is ! k) = a"
      using distance_from_tail [OF ok b(1)] b holds_start [OF hk] by (simp add: ooo_segment_offset_def)
    moreover have "a + (e - a) < U32" using b room_bound [OF ok] by linarith
    ultimately show ?thesis
      using hk b ae by (simp add: ooo_segment_end_offset_def ooo_segment_offset_def holds_def)
  qed
  have "pending f = (\<Union>k < length is. {ooo_segment_offset f (is ! k) ..< ooo_segment_end_offset f (is ! k)})"
    unfolding pending_def live by (auto simp: set_conv_nth)
  also have "\<dots> = (\<Union>k < length os. case os ! k of (a, e) \<Rightarrow> {a..<e})"
    using one list_all2_lengthD [OF h] by simp
  also have "\<dots> = (\<Union>p \<in> (!) os ` {..<length os}. case p of (a, e) \<Rightarrow> {a..<e})" by simp
  also have "(!) os ` {..<length os} = set os" by (auto simp: set_conv_nth)
  also have "(\<Union>p \<in> set os. case p of (a, e) \<Rightarrow> {a..<e}) = cov os" by (simp add: cov_def)
  finally show ?thesis .
qed

lemma pending_run_eq:
  assumes "\<And>x. m \<le> x \<Longrightarrow> x < m + b \<Longrightarrow> a_ahead A x \<noteq> None" and "a_ahead A (m + b) = None" and "m + b \<le> a_free A"
  shows "pending_run A m = map (the \<circ> a_ahead A) [m..<m + b]"
proof -
  let ?P = "\<lambda>b. b \<noteq> None" and ?l = "map (a_ahead A) [m..<m + b]" and ?r = "map (a_ahead A) [m + b..<a_free A]"
  have split: "map (a_ahead A) [m..<a_free A] = ?l @ ?r"
    using upt_add_eq_append [of m "m + b" "a_free A - (m + b)"] assms(3) by simp
  have "takeWhile ?P ?r = []"
    using assms(2) by (cases "m + b < a_free A") (auto simp: upt_conv_Cons)
  moreover have "takeWhile ?P (?l @ ?r) = ?l @ takeWhile ?P ?r"
    using assms(1) by (intro takeWhile_append2) auto
  ultimately have "takeWhile ?P (map (a_ahead A) [m..<a_free A]) = ?l" unfolding split by simp
  then show ?thesis by (simp add: pending_run_def)
qed

section \<open>In-order enqueue\<close>

lemma copy_in_eq:
  assumes ok: "ring_ok f" and m: "m \<le> nitems f"
  shows "svm_fifo_copy_in f m src = f\<lparr>f_data := ring_put (f_data f) (tail f) src m, tail := pos f m\<rparr>"
proof -
  let ?n = "nitems f" and ?t = "tail f"
  have n: "?n < 2147483648" "?t < ?n" "length (f_data f) = ?n" using ok by (auto simp: ring_ok_def)
  have pm: "pos f m = (if ?t + m < ?n then ?t + m else ?t + m - ?n)" using ring_offset_mod n m by simp
  show ?thesis
  proof (cases "?n - ?t < m")
    case True
    then show ?thesis using n m pm by (simp add: svm_fifo_copy_in_def Let_def ring_put_def)
  next
    case False
    then show ?thesis using n m pm by (auto simp: svm_fifo_copy_in_def Let_def ring_put_def min_def)
  qed
qed

lemma enqueue_copy:
  assumes ok: "ring_ok f" and r: "0 < room f" and m: "m = min (room f) mx"
    and f1: "f1 = f\<lparr>ooos_newest := INV, f_data := ring_put (f_data f) (tail f) src m, tail := pos f m\<rparr>"
  shows "svm_fifo_enqueue_internal f mx (Some src) =
     (case (if ooos_list_head f \<noteq> INV then ooo_segment_try_collect f1 m else Some (0, f1)) of
        None \<Rightarrow> None
      | Some (b, g) \<Rightarrow> Some (int (u32_add m b), g\<lparr>cursize := u32_add (cursize g) (u32_add m b)\<rparr>))"
proof -
  have n: "cursize f \<noteq> nitems f" "m \<le> nitems f" "u32_sub (nitems f) (cursize f) = room f"
    using ok r m by (auto simp: ring_ok_def room_def)
  have c: "svm_fifo_copy_in (f\<lparr>ooos_newest := INV\<rparr>) m src = f1"
    using copy_in_eq [of "f\<lparr>ooos_newest := INV\<rparr>" m src] ok n by (simp add: f1)
  have head: "ooos_list_head f1 = ooos_list_head f" by (simp add: f1)
  show ?thesis using n(1) unfolding svm_fifo_enqueue_internal_def svm_fifo_max_dequeue_def
    by (cases "room f < mx") (use m c head n(3) in \<open>simp_all add: Let_def del: u32_sub_ge split: option.splits\<close>)
qed

lemma enqueue_full:
  assumes "ring_ok f" and "room f = 0"
  shows "svm_fifo_enqueue_internal f mx src = Some (-2, f\<lparr>ooos_newest := INV\<rparr>)"
  using assms by (simp add: svm_fifo_enqueue_internal_def svm_fifo_max_dequeue_def room_def ring_ok_def)

text \<open>What a state with a moved tail reads back: the stream grows by the bytes between the tails.\<close>

lemma stream_extend:
  assumes "cursize g = cursize f + k" and "head g = head f" and "nitems g = nitems f" and "0 < nitems f"
    and "tail f = (head f + cursize f) mod nitems f"
    and "\<And>x. x < cursize f \<Longrightarrow> f_data g ! ((head f + x) mod nitems f) = f_data f ! ((head f + x) mod nitems f)"
  shows "stream g = stream f @ map (\<lambda>x. f_data g ! pos f x) [0..<k]"
proof -
  have "stream g = map (\<lambda>x. f_data g ! ((head f + x) mod nitems f)) [0..<cursize f] @
      map (\<lambda>x. f_data g ! ((head f + x) mod nitems f)) [cursize f..<cursize f + k]"
    unfolding stream_def assms(1-3) by (simp only: upt_add_eq_append [of 0, simplified] map_append)
  also have "map (\<lambda>x. f_data g ! ((head f + x) mod nitems f)) [0..<cursize f] = stream f"
    unfolding stream_def by (rule map_cong [OF refl]) (use assms(6) in simp)
  also have "map (\<lambda>x. f_data g ! ((head f + x) mod nitems f)) [cursize f..<cursize f + k] =
      map (\<lambda>x. f_data g ! pos f x) [0..<k]"
  proof (rule nth_equalityI)
    have "(head f + (cursize f + x)) mod nitems f = pos f x" for x
      unfolding assms(5) by (simp only: mod_add_left_eq add.assoc)
    then show "map (\<lambda>x. f_data g ! ((head f + x) mod nitems f)) [cursize f..<cursize f + k] ! i =
        map (\<lambda>x. f_data g ! pos f x) [0..<k] ! i"
      if "i < length (map (\<lambda>x. f_data g ! ((head f + x) mod nitems f)) [cursize f..<cursize f + k])" for i
      using that by simp
  qed simp
  finally show ?thesis .
qed

text \<open>A position of the ring holds a byte of the stream or a free byte after the tail.\<close>

lemma stream_pos:
  assumes "ring_ok f" and "x < cursize f"
  shows "(head f + x) mod nitems f = pos f (room f + x)" and "room f + x < nitems f"
proof -
  have t: "tail f = (head f + cursize f) mod nitems f" and c: "cursize f \<le> nitems f" using assms by (simp_all add: ring_ok_def)
  have "pos f (room f + x) = (head f + cursize f + (room f + x)) mod nitems f" unfolding t by (simp only: mod_add_left_eq)
  also have "\<dots> = (head f + x + nitems f) mod nitems f" using c by (simp add: room_def ac_simps)
  finally show "(head f + x) mod nitems f = pos f (room f + x)" by simp
  show "room f + x < nitems f" using assms(2) c by (simp add: room_def)
qed

lemma put_keeps_stream:
  assumes ok: "ring_ok f" and m: "m \<le> room f" "m \<le> length src" and x: "x < cursize f"
  shows "ring_put (f_data f) (tail f) src m ! ((head f + x) mod nitems f) = f_data f ! ((head f + x) mod nitems f)"
proof -
  note sp = stream_pos [OF ok x]
  have "length (f_data f) = nitems f" "m \<le> nitems f" "tail f < nitems f"
    using ok m room_bound(1) [OF ok] by (auto simp: ring_ok_def)
  then show ?thesis using sp m nth_ring_put [of "tail f" "f_data f" m src "room f + x"] by simp
qed

lemma shift_mod:
  assumes "k \<le> a" and "t' = (t + k) mod n"
  shows "(t' + (a - k)) mod n = (t + a) mod (n::nat)"
proof -
  have "(t' + (a - k)) mod n = (t + k + (a - k)) mod n" unfolding assms(2) by (simp only: mod_add_left_eq)
  then show ?thesis using assms(1) by simp
qed

lemma ordered_shift:
  "ordered lo R os \<Longrightarrow> k \<le> lo \<Longrightarrow> ordered (lo - k) (R - k) (map (\<lambda>(a, e). (a - k, e - k)) os)"
  by (induction os arbitrary: lo) auto

lemma cov_shift:
  "ordered lo R os \<Longrightarrow> k \<le> lo \<Longrightarrow> x \<in> cov (map (\<lambda>(a, e). (a - k, e - k)) os) \<longleftrightarrow> k + x \<in> cov os"
proof (induction os arbitrary: lo)
  case (Cons p os)
  obtain a e where p: "p = (a, e)" by fastforce
  have "x \<in> cov (map (\<lambda>(a, e). (a - k, e - k)) os) \<longleftrightarrow> k + x \<in> cov os"
    using Cons.IH [of e] Cons.prems p by simp
  moreover have "x \<in> {a - k..<e - k} \<longleftrightarrow> k + x \<in> {a..<e}" using Cons.prems p by auto
  ultimately show ?case by (simp only: p list.map case_prod_conv cov_simps Un_iff)
qed simp

text \<open>The state after the collection, with the intervals counted from the new tail.\<close>

lemma collected_rep:
  assumes c: "collected t k f g is os" and ok: "ring_ok f0" and t: "t = tail f0"
    and f: "nitems f = nitems f0" "head f = head f0" "cursize f = cursize f0" "length (f_data f) = nitems f0"
      "length (pool_vec (ooo_segments f)) \<le> nitems f0"
    and k: "k \<le> room f0" and o: "ordered k (room f0) os" and h: "h = g\<lparr>cursize := cursize f0 + k\<rparr>"
  shows "rep h is (map (\<lambda>(a, e). (a - k, e - k)) os)"
proof -
  have g: "nitems g = nitems f0" "head g = head f0" "tail g = (tail f0 + k) mod nitems f0"
    "f_data g = f_data f" "length (pool_vec (ooo_segments g)) \<le> nitems f0"
    using c f t by (auto simp: collected_def same_ring_def)
  have "tail g = (head f0 + (cursize f0 + k)) mod nitems f0"
    using ok g(3) by (simp add: ring_ok_def mod_add_left_eq add.assoc)
  moreover have "cursize f0 + k \<le> nitems f0" using k ok by (auto simp: room_def ring_ok_def)
  ultimately have ring: "ring_ok h" using ok g f k by (simp add: ring_ok_def h room_def)
  have room: "room h = room f0 - k" using g by (simp add: h room_def)
  have "holds h (tail h) i (a - k, e - k)" if "holds g t i (a, e)" "(a, e) \<in> set os" for i a e
  proof -
    have "k < a" using ordered_mem [OF o that(2)] by simp
    then show ?thesis using that(1) g t shift_mod [of k a "tail g" "tail f0" "nitems f0"] by (simp add: holds_def h)
  qed
  moreover have "list_all2 (holds g t) is os" using c by (simp add: collected_def)
  ultimately have "list_all2 (\<lambda>i p. holds h (tail h) i (case p of (a, e) \<Rightarrow> (a - k, e - k))) is os"
    by (auto elim!: list.rel_mono_strong)
  then have "list_all2 (holds h (tail h)) is (map (\<lambda>(a, e). (a - k, e - k)) os)"
    by (simp add: list.rel_map)
  moreover have "links h is" using c by (simp add: collected_def links_def h)
  ultimately show ?thesis using ring room ordered_shift [OF o, of k] by (simp add: rep_def)
qed

text \<open>The whole of \<^verbatim>\<open>svm_fifo_enqueue_internal\<close>, on a ring with room.\<close>

lemma enqueue_rep:
  assumes r: "rep f is os" and room: "0 < room f" and src: "mx \<le> length src"
    and m: "m = min (room f) mx" and b: "collect m os = (b, os')"
  shows "\<exists>g is'. svm_fifo_enqueue_internal f mx (Some src) = Some (int (m + b), g) \<and>
     rep g is' (map (\<lambda>(a, e). (a - (m + b), e - (m + b))) os') \<and>
     nitems g = nitems f \<and> head g = head f \<and> cursize g = cursize f + (m + b) \<and>
     tail g = pos f (m + b) \<and> f_data g = ring_put (f_data f) (tail f) src m"
proof -
  note ok = rep_room(1) [OF r]
  define f1 where "f1 = f\<lparr>ooos_newest := INV, f_data := ring_put (f_data f) (tail f) src m, tail := pos f m\<rparr>"
  have bnd: "m \<le> room f" "m \<le> length src" "room f \<le> nitems f" "nitems f < 2147483648" "tail f < nitems f"
    "length (f_data f) = nitems f"
    using ok src m room_bound [OF ok] by (auto simp: ring_ok_def)
  have c: "collecting (tail f) m 0 f1 is os"
  proof -
    have "list_all2 (holds f1 (tail f)) is os"
      using r by (simp add: rep_def f1_def holds_def [abs_def])
    moreover have "links f1 is" and "ordered 0 (room f1) os" and "room f1 = room f"
      using r by (simp_all add: rep_def f1_def links_def room_def)
    ultimately show ?thesis using bnd ok by (simp add: collecting_def) (simp add: f1_def)
  qed
  note co = collect_ok [OF _ b bnd(1), of 0]
  have ord: "ordered 0 (room f) os" using r by (simp add: rep_def)
  have o: "ordered (m + b) (room f) os'" using co ord by simp
  have mb: "m + b \<le> room f" using ordered_bound [OF o] .
  have "\<exists>g is'. (if ooos_list_head f \<noteq> INV then ooo_segment_try_collect f1 m else Some (0, f1)) = Some (b, g) \<and>
      collected (tail f) (m + b) f1 g is' os'"
  proof (cases "is")
    case Nil
    then have "ooos_list_head f = INV" "os = []" using r by (auto simp: rep_def links_def)
    then show ?thesis using b c Nil
      by (intro exI [of _ f1] exI [of _ "[]"]) (auto simp: collected_def collecting_def same_ring_def)
  next
    case (Cons i js)
    then have "ooos_list_head f \<noteq> INV" using r links_head [of f "is"] by (simp add: rep_def)
    then show ?thesis using ooo_segment_try_collect_ok [OF c _ b] Cons by simp
  qed
  then obtain g is' where g: "(if ooos_list_head f \<noteq> INV then ooo_segment_try_collect f1 m else Some (0, f1)) = Some (b, g)"
    and cg: "collected (tail f) (m + b) f1 g is' os'" by blast
  define h where "h = g\<lparr>cursize := cursize f + (m + b)\<rparr>"
  have gf: "cursize g = cursize f" "nitems g = nitems f" "head g = head f" "tail g = pos f (m + b)"
      "f_data g = ring_put (f_data f) (tail f) src m"
    using cg by (simp_all add: collected_def same_ring_def f1_def)
  have "m + b < U32" "cursize f + (m + b) < U32" using mb bnd ok by (auto simp: room_def ring_ok_def)
  then have "svm_fifo_enqueue_internal f mx (Some src) = Some (int (m + b), h)"
    using enqueue_copy [OF ok room m f1_def] g gf by (simp add: h_def)
  moreover have "rep h is' (map (\<lambda>(a, e). (a - (m + b), e - (m + b))) os')"
    by (rule collected_rep [OF cg ok refl _ _ _ _ _ mb o h_def])
       (use bnd ok in \<open>simp_all add: f1_def ring_ok_def\<close>)
  ultimately show ?thesis using gf by (intro exI [of _ h] exI [of _ is']) (simp add: h_def)
qed

end
