(* ===== verification/Svm_Fifo_Stream.thy ===== *)
theory Svm_Fifo_Stream
  imports Svm_Fifo_Spec
begin

text \<open>
  The operations of the shared-memory FIFO refine the abstract FIFO of \<open>Svm_Fifo_Spec\<close>, and the
  contract \<open>byte_stream\<close> that the receive path of the transport code relies on: whatever order the
  segments of a byte stream arrive in, what is read is that stream, byte for byte.
\<close>

section \<open>Enqueue\<close>

lemma enqueue_abs:
  assumes r: "rep f is os" and room: "0 < room f" and src: "mx \<le> length src"
  shows "\<exists>g. svm_fifo_enqueue_internal f mx (Some src) =
       Some (int (fst (spec_enqueue (take mx src) (fifo_abs f))), g) \<and> fifo_inv g \<and>
     fifo_abs g = snd (spec_enqueue (take mx src) (fifo_abs f))"
proof -
  note ok = rep_room(1) [OF r]
  define m where "m = min (room f) mx"
  obtain b os' where b: "collect m os = (b, os')" by fastforce
  have m: "m \<le> room f" "m \<le> length src" using src by (auto simp: m_def)
  have ord: "ordered 0 (room f) os" using r by (simp add: rep_def)
  have co: "ordered (m + b) (room f) os'" "{m..<m + b} \<subseteq> cov os" "m + b \<notin> cov os"
      "cov os' = {x \<in> cov os. m + b \<le> x}"
    using collect_ok [OF ord b m(1)] by simp_all
  have mb: "m + b \<le> room f" "room f \<le> nitems f" using ordered_bound [OF co(1)] room_bound(1) [OF ok] by auto
  obtain g is' where g: "svm_fifo_enqueue_internal f mx (Some src) = Some (int (m + b), g)"
    and rg: "rep g is' (map (\<lambda>(a, e). (a - (m + b), e - (m + b))) os')"
    and gf: "nitems g = nitems f" "head g = head f" "cursize g = cursize f + (m + b)"
      "tail g = pos f (m + b)" "f_data g = ring_put (f_data f) (tail f) src m"
    using enqueue_rep [OF r room src m_def b] by blast
  have len: "length (f_data f) = nitems f" "tail f < nitems f" "0 < nitems f" "tail f = (head f + cursize f) mod nitems f"
    using ok by (auto simp: ring_ok_def)
  have put: "f_data g ! pos f x = (if x < m then src ! x else f_data f ! pos f x)" if "x < nitems f" for x
    using nth_ring_put [of "tail f" "f_data f" m src x] len m mb that by (simp add: gf(5))
  have pf: "pending f = cov os" and pg: "\<And>x. x \<in> pending g \<longleftrightarrow> m + b + x \<in> cov os"
    using pending_cov [OF r] pending_cov [OF rg] cov_shift [OF co(1)] co(4) by auto
  have run: "pending_run (fifo_abs f) m = map (\<lambda>x. f_data f ! pos f x) [m..<m + b]"
  proof -
    have "pending_run (fifo_abs f) m = map (the \<circ> a_ahead (fifo_abs f)) [m..<m + b]"
      using co mb pf by (intro pending_run_eq) auto
    also have "\<dots> = map (\<lambda>x. f_data f ! pos f x) [m..<m + b]"
      using co(2) pf by (intro map_cong) auto
    finally show ?thesis .
  qed
  have "stream g = stream f @ map (\<lambda>x. f_data g ! pos f x) [0..<m + b]"
    using put_keeps_stream [OF ok m] by (intro stream_extend [OF gf(3,2,1) len(3,4)]) (simp add: gf(5))
  also have "map (\<lambda>x. f_data g ! pos f x) [0..<m + b] = take m src @ map (\<lambda>x. f_data f ! pos f x) [m..<m + b]"
    using mb m by (intro nth_equalityI) (auto simp: put nth_append)
  finally have stream: "stream g = stream f @ take m src @ pending_run (fifo_abs f) m" by (simp only: run)
  have "a_ahead (fifo_abs g) x = a_ahead (fifo_abs f) (m + b + x)" for x
  proof (cases "m + b + x \<in> cov os")
    case True
    then have "m + b + x < nitems f" using cov_bounds [OF ord] mb by fastforce
    moreover have "pos g x = pos f (m + b + x)" unfolding gf by (simp only: mod_add_left_eq add.assoc)
    ultimately show ?thesis using True put [of "m + b + x"] pg pf by simp
  qed (simp add: pg pf)
  then have "fifo_abs g = snd (spec_enqueue (take mx src) (fifo_abs f))"
    using stream run gf(1) src
    by (intro afifo.equality) (auto simp: spec_enqueue_def Let_def m_def min_def)
  moreover have "m + b = fst (spec_enqueue (take mx src) (fifo_abs f))"
    using run src by (simp add: spec_enqueue_def Let_def m_def)
  ultimately show ?thesis using g rg by (auto simp: fifo_inv_def)
qed

section \<open>Enqueue ahead of the tail\<close>

lemma copy_at_eq:
  assumes "p < nitems f" "nitems f < 2147483648" "k \<le> nitems f" "length (f_data f) = nitems f"
  shows "svm_fifo_copy_at f p k src = f\<lparr>f_data := ring_put (f_data f) p src k\<rparr>"
proof (cases "nitems f - p < k")
  case True
  then show ?thesis using assms by (simp add: svm_fifo_copy_at_def ring_put_def Let_def)
next
  case False
  then show ?thesis using assms by (simp add: svm_fifo_copy_at_def ring_put_def Let_def min_def)
qed

lemma rep_data:
  "length d = length (f_data f) \<Longrightarrow> rep (f\<lparr>f_data := d\<rparr>) is os = rep f is os"
  by (simp add: rep_def ring_ok_def links_def holds_def [abs_def] room_def)

lemma fifo_abs_newest [simp]: "fifo_abs (f\<lparr>ooos_newest := k\<rparr>) = fifo_abs f"
proof -
  have "ooo_segment_distance_from_tail (f\<lparr>ooos_newest := k\<rparr>) = ooo_segment_distance_from_tail f"
    by (intro ext) (simp add: ooo_segment_distance_from_tail_def cong: if_cong)
  then have "pending (f\<lparr>ooos_newest := k\<rparr>) = pending f"
    by (simp add: pending_def ooo_segment_offset_def ooo_segment_end_offset_def)
  then show ?thesis by (simp add: fifo_abs_def stream_def cong: if_cong)
qed

text \<open>A copy at offset \<open>x\<close> from the tail, read back by offsets from the tail.\<close>

lemma nth_put_offset:
  assumes ok: "ring_ok f" and k: "x + k \<le> nitems f" "k \<le> length src" and y: "y < nitems f"
  shows "ring_put (f_data f) (pos f x) src k ! pos f y =
     (if x \<le> y \<and> y < x + k then src ! (y - x) else f_data f ! pos f y)"
proof -
  let ?n = "nitems f"
  define z where "z = (if x \<le> y then y - x else ?n + y - x)"
  have z: "z < ?n" using y k by (auto simp: z_def)
  have "(pos f x + z) mod ?n = (tail f + (x + z)) mod ?n" by (simp only: mod_add_left_eq add.assoc)
  also have "\<dots> = pos f y" using k by (auto simp: z_def add.left_commute [of "tail f"])
  finally have py: "(pos f x + z) mod ?n = pos f y" .
  have d: "length (f_data f) = ?n" "pos f x < ?n" using ok by (simp_all add: ring_ok_def)
  have "ring_put (f_data f) (pos f x) src k ! pos f y = (if z < k then src ! z else f_data f ! pos f y)"
    using nth_ring_put [of "pos f x" "f_data f" k src z] d k z py by simp
  moreover have "z < k \<longleftrightarrow> x \<le> y \<and> y < x + k" using k y by (auto simp: z_def)
  moreover have "x \<le> y \<Longrightarrow> z = y - x" by (simp add: z_def)
  ultimately show ?thesis by auto
qed

lemma enqueue_at_abs:
  assumes r: "rep f is os" and x: "0 < x" "x < nitems f" and k: "0 < k" "k < 2147483648" "k \<le> length src"
  shows "\<exists>g. svm_fifo_enqueue_with_offset f x k src = Some (if x + k \<le> room f then 0 else -1, g) \<and> fifo_inv g \<and>
     fifo_abs g = (if x + k \<le> room f then spec_enqueue_at x (take k src) (fifo_abs f) else fifo_abs f)"
proof -
  note ok = rep_room(1) [OF r]
  let ?n = "nitems f" and ?f0 = "f\<lparr>ooos_newest := INV\<rparr>"
  have n: "?n < 2147483648" "tail f < ?n" "length (f_data f) = ?n" "cursize f \<le> ?n" using ok by (auto simp: ring_ok_def)
  have p: "u32_add (tail f) x mod ?n = pos f x" using n x by simp
  have pn: "pos f x = (if tail f + x < ?n then tail f + x else tail f + x - ?n)"
    using ring_offset_mod n x by simp
  have off: "u32_sub (u32_add ?n (pos f x)) (tail f) mod ?n = x"
  proof -
    have "pos f x < ?n" using n by simp
    then have "u32_sub (u32_add ?n (pos f x)) (tail f) = ?n + pos f x - tail f"
      using n by (auto intro!: u32_add_small u32_sub_ge simp del: mod_less_divisor)
    also have "\<dots> mod ?n = x" using pn n x by (cases "tail f + x < ?n") auto
    finally show ?thesis by simp
  qed
  have rm: "u32_sub ?n (cursize f) = room f" and kx: "u32_add k x = k + x" using n x k by (auto simp: room_def)
  show ?thesis
  proof (cases "x + k \<le> room f")
    case False
    then have "svm_fifo_enqueue_with_offset f x k src = Some (-1, ?f0)"
      by (simp add: svm_fifo_enqueue_with_offset_def svm_fifo_max_dequeue_def Let_def p off rm kx)
    moreover have "rep ?f0 is os" using r by simp
    then have "fifo_inv ?f0" unfolding fifo_inv_def by blast
    ultimately show ?thesis using False by auto
  next
    case True
    obtain g is' os' where g: "ooo_segment_add ?f0 x k = Some g" "rep g is' os'" "same_ring ?f0 g"
        "cov os' = cov os \<union> {x..<x + k}"
      using ooo_segment_add_ok [of ?f0 "is" os x k] r x k True by auto
    have gf: "f_data g = f_data f" "nitems g = ?n" "tail g = tail f" "head g = head f" "cursize g = cursize f"
      using g(3) by (simp_all add: same_ring_def)
    have kn: "k \<le> ?n" "x + k \<le> ?n" using True room_bound(1) [OF ok] by auto
    let ?h = "g\<lparr>f_data := ring_put (f_data f) (pos f x) src k\<rparr>"
    have pl: "pos f x < ?n" using n by simp
    have code: "svm_fifo_enqueue_with_offset f x k src = Some (0, ?h)"
      using True copy_at_eq [of "pos f x" g k src] g(1) n(1,3) kn(1) pl gf
      by (simp add: svm_fifo_enqueue_with_offset_def svm_fifo_max_dequeue_def p off rm kx Let_def
          del: u32_add_small u32_sub_ge)
    have rh: "rep ?h is' os'"
      using rep_data [of "ring_put (f_data f) (pos f x) src k" g] g(2) gf(1) n kn k pl by simp
    have put: "f_data ?h ! pos f y = (if x \<le> y \<and> y < x + k then src ! (y - x) else f_data f ! pos f y)"
      if "y < ?n" for y
      using nth_put_offset [OF ok kn(2) k(3) that] by simp
    have "stream ?h = stream f"
      unfolding stream_def using gf
    proof (simp, intro ballI)
      fix z assume "z \<in> {0..<cursize f}"
      then have "z < cursize f" by simp
      note sp = stream_pos [OF ok this]
      show "ring_put (f_data f) (pos f x) src k ! ((head f + z) mod nitems f) = f_data f ! ((head f + z) mod nitems f)"
        using put [OF sp(2)] True unfolding sp(1) by simp
    qed
    moreover have "a_ahead (fifo_abs ?h) y = a_ahead (spec_enqueue_at x (take k src) (fifo_abs f)) y" for y
    proof -
      have "pending ?h = pending f \<union> {x..<x + k}" using pending_cov [OF rh] pending_cov [OF r] g(4) by simp
      moreover have "y < ?n" if "y \<in> pending f \<union> {x..<x + k}"
        using that pending_cov [OF r] cov_bounds [of 0 "room f" os y] r kn room_bound(1) [OF ok] by (auto simp: rep_def)
      ultimately show ?thesis
        using put [of y] gf k(3) by (auto simp: spec_enqueue_at_def)
    qed
    ultimately have "fifo_abs ?h = spec_enqueue_at x (take k src) (fifo_abs f)"
      by (intro afifo.equality ext) (auto simp: spec_enqueue_at_def gf)
    then show ?thesis using code rh True by (auto simp: fifo_inv_def)
  qed
qed

section \<open>Dequeue, drop and peek\<close>

lemma get_stream:
  assumes ok: "ring_ok f" and k: "o1 + k \<le> cursize f" and p: "p = (head f + o1) mod nitems f"
  shows "ring_get (f_data f) p k = take k (drop o1 (stream f))"
proof -
  have len: "length (f_data f) = nitems f" "p < nitems f" "k \<le> nitems f" using ok k p by (auto simp: ring_ok_def)
  then have "ring_get (f_data f) p k = map (\<lambda>x. f_data f ! ((p + x) mod nitems f)) [0..<k]"
    using ring_get_eq [of p "f_data f" k] by simp
  also have "\<dots> = take k (drop o1 (stream f))"
  proof (rule nth_equalityI)
    fix i assume "i < length (map (\<lambda>x. f_data f ! ((p + x) mod nitems f)) [0..<k])"
    moreover have "(p + i) mod nitems f = (head f + (o1 + i)) mod nitems f"
      unfolding p by (simp only: mod_add_left_eq add.assoc)
    ultimately show "map (\<lambda>x. f_data f ! ((p + x) mod nitems f)) [0..<k] ! i = take k (drop o1 (stream f)) ! i"
      using k by (simp add: stream_def)
  qed (use k in simp)
  finally show ?thesis .
qed

text \<open>Moving the head by \<open>k\<close> bytes drops them from the stream and keeps the bytes ahead.\<close>

lemma advance_head:
  assumes r: "rep f is os" and k: "k \<le> cursize f"
    and g: "g = f\<lparr>head := (head f + k) mod nitems f, cursize := cursize f - k\<rparr>"
  shows "fifo_inv g" and "fifo_abs g = snd (spec_dequeue k (fifo_abs f))"
proof -
  note ok = rep_room(1) [OF r]
  have n: "0 < nitems f" "cursize f \<le> nitems f" using ok by (auto simp: ring_ok_def)
  have "((head f + k) mod nitems f + (cursize f - k)) mod nitems f = (head f + cursize f) mod nitems f"
    using k by (simp only: mod_add_left_eq) simp
  moreover have "cursize f - k \<le> nitems f" using n by simp
  ultimately have ring: "ring_ok g" using ok by (simp add: ring_ok_def g)
  have o: "ordered lo R os \<Longrightarrow> R \<le> R' \<Longrightarrow> ordered lo R' os" for lo R R'
    by (induction os arbitrary: lo) auto
  have "room f \<le> room g" by (simp add: g room_def)
  then have rg: "rep g is os"
    using r ring o [of 0 "room f" "room g"] by (simp add: rep_def g links_def holds_def [abs_def])
  then show "fifo_inv g" by (auto simp: fifo_inv_def)
  have gf: "nitems g = nitems f" "tail g = tail f" "f_data g = f_data f" by (simp_all add: g)
  have pend: "pending g = pending f" using pending_cov [OF rg] pending_cov [OF r] by simp
  have "stream g = drop k (stream f)"
  proof (rule nth_equalityI)
    fix i assume "i < length (stream g)"
    moreover have "((head f + k) mod nitems f + i) mod nitems f = (head f + (k + i)) mod nitems f"
      by (simp only: mod_add_left_eq add.assoc)
    moreover have "[0..<cursize f] ! (k + i) = k + i" if "i < cursize f - k" using that by simp
    ultimately show "stream g ! i = drop k (stream f) ! i" using k by (simp add: stream_def g)
  qed (simp add: g)
  then show "fifo_abs g = snd (spec_dequeue k (fifo_abs f))"
    using gf by (intro afifo.equality ext) (auto simp: spec_dequeue_def pend)
qed

lemma dequeue_abs:
  assumes r: "rep f is os" and c: "0 < cursize f" and k: "k = min (cursize f) mx"
    and g: "g = f\<lparr>head := (head f + k) mod nitems f, cursize := cursize f - k\<rparr>"
  shows "svm_fifo_dequeue_internal f mx True = (int k, take k (stream f), g)"
    and "svm_fifo_dequeue_drop f mx = (int k, g)"
proof -
  note ok = rep_room(1) [OF r]
  let ?n = "nitems f" and ?h = "head f"
  have n: "?n < 2147483648" "?h < ?n" "length (f_data f) = ?n" "cursize f \<le> ?n" "k \<le> cursize f"
    using ok k by (auto simp: ring_ok_def)
  have get: "ring_get (f_data f) ?h k = take k (stream f)"
    using get_stream [OF ok, of 0 k ?h] n by simp
  have tot: "(if cursize f < mx then cursize f else mx) = k" using k by (simp add: min_def)
  have pm: "(?h + k) mod ?n = (if ?h + k < ?n then ?h + k else ?h + k - ?n)" using ring_offset_mod n by simp
  have "svm_fifo_dequeue_internal f mx True = (int k, ring_get (f_data f) ?h k, g) \<and>
      svm_fifo_dequeue_drop f mx = (int k, g)"
  proof (cases "?n - ?h < k")
    case True
    then show ?thesis using c n pm unfolding svm_fifo_dequeue_internal_def svm_fifo_dequeue_drop_def
      by (simp add: svm_fifo_max_dequeue_def Let_def tot ring_get_def g)
  next
    case False
    then show ?thesis using c n pm unfolding svm_fifo_dequeue_internal_def svm_fifo_dequeue_drop_def
      by (auto simp: svm_fifo_max_dequeue_def Let_def tot ring_get_def g min_def)
  qed
  then show "svm_fifo_dequeue_internal f mx True = (int k, take k (stream f), g)"
    and "svm_fifo_dequeue_drop f mx = (int k, g)" using get by simp_all
qed

lemma peek_abs:
  assumes ok: "ring_ok f" and o: "o1 \<le> cursize f" and k: "k = min (cursize f - o1) mx"
  shows "svm_fifo_peek f o1 mx = (int k, take k (drop o1 (stream f)))"
proof -
  let ?n = "nitems f"
  have n: "?n < 2147483648" "head f < ?n" "length (f_data f) = ?n" "cursize f \<le> ?n" "o1 + k \<le> cursize f"
    using ok o k by (auto simp: ring_ok_def)
  define p where "p = (head f + o1) mod ?n"
  have p: "p = (if head f + o1 < ?n then head f + o1 else head f + o1 - ?n)" "p < ?n"
    unfolding p_def using ring_offset_mod [of "head f" ?n o1] n o by auto
  have rh: "(if u32_add (head f) o1 \<ge> ?n then u32_sub (u32_add (head f) o1) ?n else u32_add (head f) o1) = p"
    using n o p(1) by simp
  have tot: "(if u32_sub (cursize f) o1 < mx then u32_sub (cursize f) o1 else mx) = k"
    using n o k by (simp add: min_def)
  have u: "u32_sub ?n p = ?n - p" "k \<le> ?n" using n p by auto
  have "svm_fifo_peek f o1 mx = (int k, ring_get (f_data f) p k)"
    unfolding svm_fifo_peek_def Let_def svm_fifo_max_dequeue_def rh tot u
    using o n u by (cases "?n - p < k") (auto simp: ring_get_def min_def)
  then show ?thesis using get_stream [OF ok n(5) p_def] by simp
qed

section \<open>The properties of the operations\<close>

lemma create_inv:
  assumes "0 < n" "n < 2147483648" "length mem = n" and f: "svm_fifo_create n (Some mem) = Some f"
  shows "fifo_inv f" and "fifo_abs f = \<lparr>a_cap = n, a_stream = [], a_ahead = (\<lambda>x. None)\<rparr>"
proof -
  have r: "rep f [] []"
    using assms by (auto simp: svm_fifo_create_def rep_def ring_ok_def links_def room_def)
      (simp_all add: pool_empty_def)
  then show "fifo_inv f" by (auto simp: fifo_inv_def)
  show "fifo_abs f = \<lparr>a_cap = n, a_stream = [], a_ahead = (\<lambda>x. None)\<rparr>"
    using f pending_cov [OF r] by (auto simp: svm_fifo_create_def fifo_abs_def stream_def)
qed

text \<open>
  \<^verbatim>\<open>svm_fifo_enqueue_nowait\<close> on a ring in its invariant always returns. On a full ring it returns
  \<open>-2\<close> and changes nothing; otherwise it appends as many of the given bytes as there is room for,
  followed by the bytes received earlier that now follow without a gap, returns the number of
  bytes the stream grew by, and keeps the invariant.
\<close>

theorem svm_fifo_enqueue_refines:
  assumes "fifo_inv f" and "mx \<le> length src"
  shows "\<exists>g. svm_fifo_enqueue_nowait f mx (Some src) =
       Some (if room f = 0 then -2 else int (fst (spec_enqueue (take mx src) (fifo_abs f))), g) \<and> fifo_inv g \<and>
     fifo_abs g = (if room f = 0 then fifo_abs f else snd (spec_enqueue (take mx src) (fifo_abs f)))"
proof -
  obtain "is" os where r: "rep f is os" using assms(1) by (auto simp: fifo_inv_def)
  show ?thesis
  proof (cases "room f = 0")
    case True
    have "rep (f\<lparr>ooos_newest := INV\<rparr>) is os" using r by simp
    then have "fifo_inv (f\<lparr>ooos_newest := INV\<rparr>)" unfolding fifo_inv_def by blast
    then show ?thesis using True enqueue_full [OF rep_room(1) [OF r] True]
      by (simp add: svm_fifo_enqueue_nowait_def)
  next
    case False
    then show ?thesis using enqueue_abs [OF r _ assms(2)] by (simp add: svm_fifo_enqueue_nowait_def)
  qed
qed

text \<open>A ring of four bytes, empty: the concrete input of the examples below.\<close>

definition ring4 :: svm_fifo where
  "ring4 = the (svm_fifo_create 4 (Some [0, 0, 0, 0]))"

lemma ring4_inv: "fifo_inv ring4" "fifo_abs ring4 = \<lparr>a_cap = 4, a_stream = [], a_ahead = (\<lambda>x. None)\<rparr>" "room ring4 = 4" "nitems ring4 = 4"
proof -
  have c: "svm_fifo_create 4 (Some [0, 0, 0, 0]) = Some ring4" by (simp add: ring4_def svm_fifo_create_def)
  show "fifo_inv ring4" "fifo_abs ring4 = \<lparr>a_cap = 4, a_stream = [], a_ahead = (\<lambda>x. None)\<rparr>"
    using create_inv [OF _ _ _ c] by simp_all
  show "room ring4 = 4" "nitems ring4 = 4" by (simp_all add: ring4_def svm_fifo_create_def room_def)
qed

theorem svm_fifo_enqueue_refines_witness:
  "\<exists>g. svm_fifo_enqueue_nowait ring4 5 (Some [1, 2, 3, 4, 5]) = Some (4, g) \<and> fifo_inv g \<and>
     fifo_abs g = \<lparr>a_cap = 4, a_stream = [1, 2, 3, 4], a_ahead = (\<lambda>x. None)\<rparr>"
  using svm_fifo_enqueue_refines [OF ring4_inv(1), of 5 "[1, 2, 3, 4, 5]"]
  by (simp add: ring4_inv spec_enqueue_def a_free_def pending_run_def Let_def)

text \<open>
  \<^verbatim>\<open>svm_fifo_enqueue_with_offset\<close> with a positive offset inside the ring and a positive number of
  bytes always returns: \<open>-1\<close>, with nothing changed, when the bytes do not fit behind the tail, and
  \<open>0\<close> otherwise, with exactly the given bytes recorded ahead of the stream; every other byte that
  was recorded, and the stream itself, are kept.
\<close>

theorem svm_fifo_enqueue_with_offset_refines:
  assumes "fifo_inv f" and "0 < x" and "x < nitems f" and "0 < k" and "k < 2147483648" and "k \<le> length src"
  shows "\<exists>g. svm_fifo_enqueue_with_offset f x k src = Some (if x + k \<le> room f then 0 else -1, g) \<and> fifo_inv g \<and>
     fifo_abs g = (if x + k \<le> room f then spec_enqueue_at x (take k src) (fifo_abs f) else fifo_abs f)"
proof -
  obtain "is" os where "rep f is os" using assms(1) by (auto simp: fifo_inv_def)
  then show ?thesis using enqueue_at_abs [OF _ assms(2-6)] by blast
qed

theorem svm_fifo_enqueue_with_offset_refines_witness:
  "\<exists>g. svm_fifo_enqueue_with_offset ring4 2 2 [7, 8] = Some (0, g) \<and> fifo_inv g \<and>
     fifo_abs g = \<lparr>a_cap = 4, a_stream = [], a_ahead = (\<lambda>x. if 2 \<le> x \<and> x < 4 then Some ([7, 8] ! (x - 2)) else None)\<rparr>"
  using svm_fifo_enqueue_with_offset_refines [OF ring4_inv(1), of 2 2 "[7, 8]"]
  by (simp add: ring4_inv spec_enqueue_at_def cong: if_cong)

text \<open>
  \<^verbatim>\<open>svm_fifo_dequeue_nowait\<close> and \<^verbatim>\<open>svm_fifo_dequeue_drop\<close> on an empty ring return \<open>-2\<close>; otherwise
  they take the first bytes of the stream off it (at most \<open>mx\<close>), the first of the two hands them to
  the caller, and both keep the invariant and what was received ahead of the stream.
\<close>

theorem svm_fifo_dequeue_refines:
  assumes "fifo_inv f"
  shows "\<exists>g. svm_fifo_dequeue_nowait f mx True =
       (if cursize f = 0 then -2 else int (min (cursize f) mx), fst (spec_dequeue mx (fifo_abs f)), g) \<and>
     svm_fifo_dequeue_drop f mx = (if cursize f = 0 then -2 else int (min (cursize f) mx), g) \<and>
     fifo_inv g \<and> fifo_abs g = snd (spec_dequeue mx (fifo_abs f))"
proof -
  obtain "is" os where r: "rep f is os" using assms by (auto simp: fifo_inv_def)
  show ?thesis
  proof (cases "cursize f = 0")
    case True
    then have "stream f = []" by (simp add: stream_def)
    then have "spec_dequeue mx (fifo_abs f) = ([], fifo_abs f)" by (simp add: spec_dequeue_def fifo_abs_def)
    then show ?thesis using True assms
      by (intro exI [of _ f]) (simp add: svm_fifo_dequeue_nowait_def svm_fifo_dequeue_internal_def
          svm_fifo_dequeue_drop_def svm_fifo_max_dequeue_def)
  next
    case False
    define k where "k = min (cursize f) mx"
    have sp: "spec_dequeue mx (fifo_abs f) = spec_dequeue k (fifo_abs f)"
      by (auto simp: spec_dequeue_def k_def min_def)
    have "k \<le> cursize f" by (simp add: k_def)
    from advance_head [OF r this refl] dequeue_abs [OF r _ k_def refl] False sp show ?thesis
      by (intro exI [of _ "f\<lparr>head := (head f + k) mod nitems f, cursize := cursize f - k\<rparr>"])
        (simp add: svm_fifo_dequeue_nowait_def flip: k_def, simp add: spec_dequeue_def)
  qed
qed

theorem svm_fifo_dequeue_refines_witness:
  "\<exists>g. svm_fifo_dequeue_nowait ring4 3 True = (-2, [], g) \<and> fifo_inv g"
  using svm_fifo_dequeue_refines [OF ring4_inv(1), of 3]
  by (auto simp: ring4_inv spec_dequeue_def) (simp add: ring4_def svm_fifo_create_def)

text \<open>
  \<^verbatim>\<open>svm_fifo_peek\<close> reads without changing the ring: an offset past the end of the stream gives
  \<open>-2\<close>, any other the (at most \<open>mx\<close>) bytes of the stream from that offset on.
\<close>

theorem svm_fifo_peek_reads:
  assumes "fifo_inv f"
  shows "svm_fifo_peek f off mx =
     (if cursize f < off then (-2, [])
      else (int (min (cursize f - off) mx), take mx (drop off (stream f))))"
proof (cases "cursize f < off")
  case True
  then show ?thesis by (simp add: svm_fifo_peek_def svm_fifo_max_dequeue_def)
next
  case False
  obtain "is" os where r: "rep f is os" using assms by (auto simp: fifo_inv_def)
  have "take (min (cursize f - off) mx) (drop off (stream f)) = take mx (drop off (stream f))"
    by (auto simp: min_def)
  then show ?thesis using False peek_abs [OF rep_room(1) [OF r] _ refl, of off mx] by simp
qed

theorem svm_fifo_peek_reads_witness:
  "svm_fifo_peek ring4 0 2 = (0, []) \<and> svm_fifo_peek ring4 1 2 = (-2, [])"
  using svm_fifo_peek_reads [OF ring4_inv(1), of 0 2] svm_fifo_peek_reads [OF ring4_inv(1), of 1 2]
  by (simp add: ring4_def svm_fifo_create_def stream_def)

section \<open>Reassembly\<close>

text \<open>
  What the receive side of a transport does with the ring, for a sender whose byte at position \<open>p\<close> of
  the stream is \<open>T p\<close>: the next \<open>k\<close> bytes arrive in order, \<open>k\<close> bytes arrive \<open>off\<close> positions ahead of the
  end of the stream, or the application reads. The state is the ring and what the application has
  read; \<open>None\<close> is an operation that does not return.
\<close>

datatype rx_event = In_order nat | Ahead nat nat | Read nat

definition rx_do ::
    "('s \<Rightarrow> byte list \<Rightarrow> 's option) \<Rightarrow> ('s \<Rightarrow> nat \<Rightarrow> byte list \<Rightarrow> 's option) \<Rightarrow>
     ('s \<Rightarrow> nat \<Rightarrow> byte list \<times> 's) \<Rightarrow> ('s \<Rightarrow> nat) \<Rightarrow> (nat \<Rightarrow> byte) \<Rightarrow>
     rx_event \<Rightarrow> 's \<times> byte list \<Rightarrow> ('s \<times> byte list) option" where
  "rx_do enq enq_at deq fill T ev so =
     (let (s, out) = so; p = length out + fill s
      in case ev of
           In_order k \<Rightarrow> map_option (\<lambda>s'. (s', out)) (enq s (map T [p..<p + k]))
         | Ahead off k \<Rightarrow> map_option (\<lambda>s'. (s', out)) (enq_at s off (map T [p + off..<p + off + k]))
         | Read k \<Rightarrow> (let (bs, s') = deq s k in Some (s', out @ bs)))"

fun rx_run ::
    "('s \<Rightarrow> byte list \<Rightarrow> 's option) \<Rightarrow> ('s \<Rightarrow> nat \<Rightarrow> byte list \<Rightarrow> 's option) \<Rightarrow>
     ('s \<Rightarrow> nat \<Rightarrow> byte list \<times> 's) \<Rightarrow> ('s \<Rightarrow> nat) \<Rightarrow> (nat \<Rightarrow> byte) \<Rightarrow>
     rx_event list \<Rightarrow> 's \<times> byte list \<Rightarrow> ('s \<times> byte list) option" where
  "rx_run enq enq_at deq fill T [] so = Some so"
| "rx_run enq enq_at deq fill T (ev # evs) so =
     (case rx_do enq enq_at deq fill T ev so of
        None \<Rightarrow> None | Some so' \<Rightarrow> rx_run enq enq_at deq fill T evs so')"

text \<open>An event the transport may produce: data ahead of the tail lie inside the ring.\<close>

fun rx_ok :: "nat \<Rightarrow> rx_event \<Rightarrow> bool" where
  "rx_ok cap (Ahead off k) \<longleftrightarrow> 0 < off \<and> off < cap \<and> 0 < k \<and> k < 2147483648"
| "rx_ok cap _ \<longleftrightarrow> True"

text \<open>The ring agrees with the sent stream: \<open>base\<close> bytes have been read.\<close>

definition agrees :: "(nat \<Rightarrow> byte) \<Rightarrow> nat \<Rightarrow> afifo \<Rightarrow> bool" where
  "agrees T base A \<longleftrightarrow> (\<forall>i < length (a_stream A). a_stream A ! i = T (base + i)) \<and>
     (\<forall>x b. a_ahead A x = Some b \<longrightarrow> b = T (base + length (a_stream A) + x))"

lemma pending_run_nth:
  assumes "i < length (pending_run A m)"
  shows "a_ahead A (m + i) = Some (pending_run A m ! i)"
proof -
  let ?l = "takeWhile (\<lambda>b. b \<noteq> None) (map (a_ahead A) [m..<a_free A])"
  have i: "i < length ?l" using assms by (simp add: pending_run_def)
  then have "i < length (map (a_ahead A) [m..<a_free A])" using length_takeWhile_le [of "\<lambda>b. b \<noteq> None" "map (a_ahead A) [m..<a_free A]"] by linarith
  then have "?l ! i = a_ahead A (m + i)" using takeWhile_nth [OF i] by simp
  moreover have "?l ! i \<noteq> None" using set_takeWhileD [OF nth_mem [OF i]] by blast
  ultimately show ?thesis using i by (auto simp: pending_run_def)
qed

lemma agrees_enqueue:
  assumes a: "agrees T base A"
  shows "agrees T base (snd (spec_enqueue (map T [base + length (a_stream A)..<base + length (a_stream A) + k]) A))"
proof -
  let ?n = "length (a_stream A)"
  define m where "m = min (a_free A) k"
  define r where "r = pending_run A m"
  define bs where "bs = take m (map T [base + ?n..<base + ?n + k])"
  have lb: "length bs = m" and nb: "i < m \<Longrightarrow> bs ! i = T (base + ?n + i)" for i
    by (simp_all add: bs_def m_def)
  have nr: "i < length r \<Longrightarrow> r ! i = T (base + ?n + (m + i))" for i
    using a pending_run_nth [of i A m] by (simp add: r_def agrees_def)
  have "(a_stream A @ bs @ r) ! i = T (base + i)" if i: "i < ?n + m + length r" for i
  proof -
    consider "i < ?n" | "?n \<le> i" "i < ?n + m" | "?n + m \<le> i" by linarith
    then show ?thesis
    proof cases
      case 1 then show ?thesis using a by (simp add: agrees_def nth_append)
    next
      case 2
      then have "i - ?n < m" by linarith
      then show ?thesis using 2 nb [of "i - ?n"] lb by (simp add: nth_append)
    next
      case 3
      then have "i - ?n - m < length r" "\<not> i - ?n < m" using i by linarith+
      then show ?thesis using 3 nr [of "i - ?n - m"] lb by (simp add: nth_append)
    qed
  qed
  moreover have "snd (spec_enqueue (map T [base + ?n..<base + ?n + k]) A) =
      A\<lparr>a_stream := a_stream A @ bs @ r, a_ahead := (\<lambda>x. a_ahead A (m + length r + x))\<rparr>"
    by (simp add: spec_enqueue_def Let_def m_def r_def bs_def)
  ultimately show ?thesis using a lb by (simp add: agrees_def add.assoc)
qed

lemma agrees_enqueue_at:
  "agrees T base A \<Longrightarrow> agrees T base (spec_enqueue_at off
     (map T [base + length (a_stream A) + off..<base + length (a_stream A) + off + k]) A)"
  by (auto simp: agrees_def spec_enqueue_at_def add.assoc split: if_splits)

lemma agrees_dequeue:
  assumes "agrees T base A" and "spec_dequeue k A = (bs, A')"
  shows "bs = map T [base..<base + length bs]" and "agrees T (base + length bs) A'"
proof -
  have eq: "bs = take k (a_stream A)" "A' = A\<lparr>a_stream := drop k (a_stream A)\<rparr>"
    using assms(2) by (auto simp: spec_dequeue_def)
  show "bs = map T [base..<base + length bs]"
    using assms(1) by (intro nth_equalityI) (auto simp: eq agrees_def)
  show "agrees T (base + length bs) A'"
    using assms(1) by (auto simp: eq agrees_def min_def add.assoc)
qed

text \<open>The contract of a reassembling byte FIFO and what a receiver gets from it.\<close>

locale byte_stream =
  fixes ok :: "'s \<Rightarrow> bool" and abs :: "'s \<Rightarrow> afifo" and fill :: "'s \<Rightarrow> nat"
    and enq :: "'s \<Rightarrow> byte list \<Rightarrow> 's option" and enq_at :: "'s \<Rightarrow> nat \<Rightarrow> byte list \<Rightarrow> 's option"
    and deq :: "'s \<Rightarrow> nat \<Rightarrow> byte list \<times> 's"
  assumes fill_abs: "fill s = length (a_stream (abs s))"
    and enq_law: "ok s \<Longrightarrow> \<exists>s'. enq s bs = Some s' \<and> ok s' \<and> abs s' = snd (spec_enqueue bs (abs s))"
    and enq_at_law: "ok s \<Longrightarrow> rx_ok (a_cap (abs s)) (Ahead off (length bs)) \<Longrightarrow>
      \<exists>s'. enq_at s off bs = Some s' \<and> ok s' \<and> (abs s' = spec_enqueue_at off bs (abs s) \<or> abs s' = abs s)"
    and deq_law: "ok s \<Longrightarrow> \<exists>s'. deq s k = (fst (spec_dequeue k (abs s)), s') \<and> ok s' \<and> abs s' = snd (spec_dequeue k (abs s))"
begin

definition delivering :: "(nat \<Rightarrow> byte) \<Rightarrow> nat \<Rightarrow> 's \<times> byte list \<Rightarrow> bool" where
  "delivering T cap so \<longleftrightarrow> (case so of (s, out) \<Rightarrow> ok s \<and> a_cap (abs s) = cap \<and>
     out = map T [0..<length out] \<and> agrees T (length out) (abs s))"

lemma rx_do_delivering:
  assumes d: "delivering T cap so" and ev: "rx_ok cap ev"
  shows "\<exists>so'. rx_do enq enq_at deq fill T ev so = Some so' \<and> delivering T cap so'"
proof -
  obtain s out where so: "so = (s, out)" by fastforce
  have s: "ok s" "a_cap (abs s) = cap" "out = map T [0..<length out]" "agrees T (length out) (abs s)"
    using d by (simp_all add: delivering_def so)
  show ?thesis
  proof (cases ev)
    case (In_order k)
    then show ?thesis
      using enq_law [OF s(1)] agrees_enqueue [OF s(4), of k] s
      by (fastforce simp: rx_do_def so delivering_def fill_abs spec_enqueue_def Let_def)
  next
    case (Ahead off k)
    let ?bs = "map T [length out + fill s + off..<length out + fill s + off + k]"
    obtain s' where "enq_at s off ?bs = Some s'" "ok s'" "abs s' = spec_enqueue_at off ?bs (abs s) \<or> abs s' = abs s"
      using enq_at_law [OF s(1), of off ?bs] ev Ahead s(2) by auto
    then show ?thesis using Ahead agrees_enqueue_at [OF s(4), of off k] s
      by (auto simp: rx_do_def so delivering_def fill_abs spec_enqueue_at_def)
  next
    case (Read k)
    obtain bs A' where sd: "spec_dequeue k (abs s) = (bs, A')" by fastforce
    then obtain s' where s': "deq s k = (bs, s')" "ok s'" "abs s' = A'" using deq_law [OF s(1), of k] by auto
    note ag = agrees_dequeue [OF s(4) sd]
    have "out @ bs = map T [0..<length out] @ map T [length out..<length out + length bs]"
      using s(3) ag(1) by simp
    also have "\<dots> = map T [0..<length out + length bs]"
      using upt_add_eq_append [of 0 "length out" "length bs"] by simp
    finally have "out @ bs = map T [0..<length (out @ bs)]" by simp
    moreover have "a_cap A' = cap" using sd s(2) by (auto simp: spec_dequeue_def)
    ultimately show ?thesis using Read s' ag(2) by (simp add: rx_do_def so delivering_def)
  qed
qed

lemma rx_run_delivering:
  "delivering T cap so \<Longrightarrow> (\<And>ev. ev \<in> set evs \<Longrightarrow> rx_ok cap ev) \<Longrightarrow>
   \<exists>so'. rx_run enq enq_at deq fill T evs so = Some so' \<and> delivering T cap so'"
proof (induction evs arbitrary: so)
  case (Cons ev evs)
  obtain so1 where "rx_do enq enq_at deq fill T ev so = Some so1" "delivering T cap so1"
    using rx_do_delivering [OF Cons.prems(1), of ev] Cons.prems(2) by auto
  then show ?case using Cons.IH [of so1] Cons.prems(2) by simp
qed simp

end

text \<open>The ring as a reassembling FIFO: the calls the receive path makes.\<close>

definition fifo_rx :: "svm_fifo \<Rightarrow> byte list \<Rightarrow> svm_fifo option" where
  "fifo_rx f bs = map_option snd (svm_fifo_enqueue_nowait f (length bs) (Some bs))"

definition fifo_rx_at :: "svm_fifo \<Rightarrow> nat \<Rightarrow> byte list \<Rightarrow> svm_fifo option" where
  "fifo_rx_at f off bs = map_option snd (svm_fifo_enqueue_with_offset f off (length bs) bs)"

definition fifo_read :: "svm_fifo \<Rightarrow> nat \<Rightarrow> byte list \<times> svm_fifo" where
  "fifo_read f k = snd (svm_fifo_dequeue_nowait f k True)"

lemma spec_enqueue_full: "a_free A = 0 \<Longrightarrow> snd (spec_enqueue bs A) = A"
  by (simp add: spec_enqueue_def pending_run_def Let_def)

lemma fifo_rx_law:
  assumes "fifo_inv f"
  shows "\<exists>g. fifo_rx f bs = Some g \<and> fifo_inv g \<and> fifo_abs g = snd (spec_enqueue bs (fifo_abs f))"
proof -
  obtain "is" os where r: "rep f is os" using assms by (auto simp: fifo_inv_def)
  show ?thesis
  proof (cases "room f = 0")
    case True
    have "rep (f\<lparr>ooos_newest := INV\<rparr>) is os" using r by simp
    then have "fifo_inv (f\<lparr>ooos_newest := INV\<rparr>)" unfolding fifo_inv_def by blast
    then show ?thesis using True enqueue_full [OF rep_room(1) [OF r] True]
      by (simp add: fifo_rx_def svm_fifo_enqueue_nowait_def spec_enqueue_full)
  next
    case False
    then obtain g where "svm_fifo_enqueue_internal f (length bs) (Some bs) =
        Some (int (fst (spec_enqueue bs (fifo_abs f))), g)" "fifo_inv g" "fifo_abs g = snd (spec_enqueue bs (fifo_abs f))"
      using enqueue_abs [OF r _ order_refl, of bs] by auto
    then show ?thesis by (auto simp: fifo_rx_def svm_fifo_enqueue_nowait_def)
  qed
qed

lemma fifo_read_law:
  assumes "fifo_inv f"
  shows "\<exists>g. fifo_read f k = (fst (spec_dequeue k (fifo_abs f)), g) \<and> fifo_inv g \<and>
     fifo_abs g = snd (spec_dequeue k (fifo_abs f))"
proof -
  obtain "is" os where r: "rep f is os" using assms by (auto simp: fifo_inv_def)
  show ?thesis
  proof (cases "cursize f = 0")
    case True
    then have "stream f = []" by (simp add: stream_def)
    then have "spec_dequeue k (fifo_abs f) = ([], fifo_abs f)" by (simp add: spec_dequeue_def fifo_abs_def)
    then show ?thesis using True assms
      by (simp add: fifo_read_def svm_fifo_dequeue_nowait_def svm_fifo_dequeue_internal_def svm_fifo_max_dequeue_def)
  next
    case False
    have k: "min (cursize f) k \<le> cursize f" and "spec_dequeue k (fifo_abs f) = spec_dequeue (min (cursize f) k) (fifo_abs f)"
      by (auto simp: spec_dequeue_def min_def)
    then show ?thesis using False advance_head [OF r k refl] dequeue_abs(1) [OF r _ refl refl, of k]
      by (simp add: fifo_read_def svm_fifo_dequeue_nowait_def) (simp add: spec_dequeue_def)
  qed
qed

interpretation fifo_stream: byte_stream fifo_inv fifo_abs cursize fifo_rx fifo_rx_at fifo_read
proof unfold_locales
  fix f :: svm_fifo and bs :: "byte list" and off k :: nat
  show "cursize f = length (a_stream (fifo_abs f))" by simp
  show "fifo_inv f \<Longrightarrow> \<exists>g. fifo_rx f bs = Some g \<and> fifo_inv g \<and> fifo_abs g = snd (spec_enqueue bs (fifo_abs f))"
    by (rule fifo_rx_law)
  show "fifo_inv f \<Longrightarrow> rx_ok (a_cap (fifo_abs f)) (Ahead off (length bs)) \<Longrightarrow>
      \<exists>g. fifo_rx_at f off bs = Some g \<and> fifo_inv g \<and>
        (fifo_abs g = spec_enqueue_at off bs (fifo_abs f) \<or> fifo_abs g = fifo_abs f)"
    using enqueue_at_abs [of f _ _ off "length bs" bs] by (fastforce simp: fifo_inv_def fifo_rx_at_def)
  show "fifo_inv f \<Longrightarrow> \<exists>g. fifo_read f k = (fst (spec_dequeue k (fifo_abs f)), g) \<and> fifo_inv g \<and>
      fifo_abs g = snd (spec_dequeue k (fifo_abs f))"
    by (rule fifo_read_law)
qed

text \<open>
  C2. Reassembly. Take a ring of \<open>n\<close> bytes and a sender whose byte at position \<open>p\<close> is \<open>T p\<close>. In whatever
  order its bytes arrive (in order, or ahead of the end of the stream at any offset inside the
  ring, overlapping and repeated), in whatever pieces the application reads, and however often
  the ring is full, every operation returns and the bytes the application has read, followed by
  those still in the ring, are exactly the first bytes the sender sent.
\<close>

theorem svm_fifo_reassembly:
  assumes "0 < n" and "n < 2147483648" and "length mem = n" and "svm_fifo_create n (Some mem) = Some f"
    and "\<And>ev. ev \<in> set evs \<Longrightarrow> rx_ok n ev"
  shows "\<exists>g out. rx_run fifo_rx fifo_rx_at fifo_read cursize T evs (f, []) = Some (g, out) \<and>
     out @ stream g = map T [0..<length out + cursize g]"
proof -
  note c = create_inv [OF assms(1-4)]
  have "fifo_stream.delivering T n (f, [])"
    using c(1) unfolding fifo_stream.delivering_def agrees_def prod.case c(2) by simp
  from fifo_stream.rx_run_delivering [OF this, of evs] assms(5)
  obtain g out where g: "rx_run fifo_rx fifo_rx_at fifo_read cursize T evs (f, []) = Some (g, out)"
    and d: "fifo_stream.delivering T n (g, out)" by auto
  have "out = map T [0..<length out]" "agrees T (length out) (fifo_abs g)"
    using d by (simp_all add: fifo_stream.delivering_def)
  moreover from this(2) have "stream g = map T [length out..<length out + cursize g]"
    by (intro nth_equalityI) (auto simp: agrees_def)
  ultimately have "out @ stream g = map T [0..<length out] @ map T [length out..<length out + cursize g]" by simp
  also have "\<dots> = map T [0..<length out + cursize g]"
    using upt_add_eq_append [of 0 "length out" "cursize g"] by simp
  finally show ?thesis using g by auto
qed

theorem svm_fifo_reassembly_witness:
  "\<exists>g out. rx_run fifo_rx fifo_rx_at fifo_read cursize of_nat [Ahead 2 1, In_order 1, Ahead 1 2, In_order 1, Read 2]
      (ring4, []) = Some (g, out) \<and> out @ stream g = map of_nat [0..<length out + cursize g]"
  by (rule svm_fifo_reassembly [of 4 "[0, 0, 0, 0]"]) (auto simp: ring4_def svm_fifo_create_def)

end
