(* ===== verification/Ip4_Mtrie.thy ===== *)
theory Ip4_Mtrie
  imports Bras_Prelude
begin

text \<open>
  The IPv4 forwarding table of \<^verbatim>\<open>src/src/VPP/src/vnet/ip/ip4_mtrie.c\<close>: a 16-8-8 stride trie whose
  slots hold a terminal leaf (a load-balance index) or another ply, together with the prefix length
  of the route that owns the slot. A slot that holds the index of a ply in \<^verbatim>\<open>ip4_ply_pool\<close> holds the
  ply itself here (no ply is shared and no operation of the file reads one through two slots), so
  \<^verbatim>\<open>pool_get\<close> is the construction of a ply and \<^verbatim>\<open>pool_put\<close> the result \<open>None\<close>. Terminal leaves keep
  their stored 32-bit value. The arrays are functions of the slot number. An address is its number
  in host byte order; the root array is indexed, as in the code, by the two address bytes in
  memory order read by a little-endian machine.
\<close>

section \<open>Data\<close>

datatype mtrie_leaf = Terminal u32 | NextPly mtrie_ply
  and mtrie_ply = Ply (leaves: "nat \<Rightarrow> mtrie_leaf") (dst_address_bits_of_leaves: "nat \<Rightarrow> nat")
    (n_non_empty_leafs: int) (dst_address_bits_base: nat)

record ip4_fib_mtrie =
  root_leaves :: "nat \<Rightarrow> mtrie_leaf"
  root_bits :: "nat \<Rightarrow> nat"

record set_unset_leaf_args =
  dst_address :: nat
  dst_address_length :: nat
  adj_index :: u32
  cover_address_length :: nat
  cover_adj_index :: u32

definition leaf_set_adj_index :: "u32 \<Rightarrow> u32" where
  "leaf_set_adj_index adj = 1 + 2 * adj"

definition leaf_get_adj_index :: "u32 \<Rightarrow> u32" where
  "leaf_get_adj_index n = drop_bit 1 n"

definition IP4_FIB_MTRIE_LEAF_EMPTY :: mtrie_leaf where
  "IP4_FIB_MTRIE_LEAF_EMPTY = Terminal (1 + 2 * 0)"

definition as_u8 :: "nat \<Rightarrow> nat \<Rightarrow> nat" where
  "as_u8 addr i = addr div 256 ^ (3 - i) mod 256"

definition bswap16 :: "nat \<Rightarrow> nat" where
  "bswap16 v = v mod 256 * 256 + v div 256"

text \<open>\<^verbatim>\<open>as_u16[0]\<close>: the upper two bytes of the address in memory order.\<close>

definition as_u16_0 :: "nat \<Rightarrow> nat" where
  "as_u16_0 addr = bswap16 (addr div 65536)"

section \<open>Plies\<close>

definition leaf_is_non_empty :: "mtrie_ply \<Rightarrow> nat \<Rightarrow> int" where
  "leaf_is_non_empty p dst_byte =
     (if dst_address_bits_of_leaves p dst_byte > dst_address_bits_base p then 1 else 0)"

definition ply_8_init :: "mtrie_leaf \<Rightarrow> nat \<Rightarrow> nat \<Rightarrow> mtrie_ply" where
  "ply_8_init init prefix_len ply_base_len =
     Ply (\<lambda>_. init) (\<lambda>_. prefix_len) (if prefix_len > ply_base_len then 256 else 0) ply_base_len"

definition ply_16_init :: "mtrie_leaf \<Rightarrow> nat \<Rightarrow> ip4_fib_mtrie" where
  "ply_16_init init prefix_len = \<lparr>root_leaves = (\<lambda>_. init), root_bits = (\<lambda>_. prefix_len)\<rparr>"

definition ply_create :: "mtrie_leaf \<Rightarrow> nat \<Rightarrow> nat \<Rightarrow> mtrie_leaf" where
  "ply_create init_leaf leaf_prefix_len ply_base_len =
     NextPly (ply_8_init init_leaf leaf_prefix_len ply_base_len)"

definition ip4_mtrie_init :: ip4_fib_mtrie where
  "ip4_mtrie_init = ply_16_init IP4_FIB_MTRIE_LEAF_EMPTY 0"

text \<open>Stores into one slot: the leaf, its length, and the count of non-empty leaves.\<close>

definition ply_set_leaf :: "nat \<Rightarrow> mtrie_leaf \<Rightarrow> mtrie_ply \<Rightarrow> mtrie_ply" where
  "ply_set_leaf i l p = Ply ((leaves p)(i := l)) (dst_address_bits_of_leaves p) (n_non_empty_leafs p)
     (dst_address_bits_base p)"

definition ply_set_bits :: "nat \<Rightarrow> nat \<Rightarrow> mtrie_ply \<Rightarrow> mtrie_ply" where
  "ply_set_bits i n p = Ply (leaves p) ((dst_address_bits_of_leaves p)(i := n)) (n_non_empty_leafs p)
     (dst_address_bits_base p)"

definition ply_add_count :: "int \<Rightarrow> mtrie_ply \<Rightarrow> mtrie_ply" where
  "ply_add_count k p = Ply (leaves p) (dst_address_bits_of_leaves p) (n_non_empty_leafs p + k)
     (dst_address_bits_base p)"

text \<open>One pass of the loop of \<^verbatim>\<open>set_ply_with_more_specific_leaf\<close>; \<open>sub i\<close> is the result of the recursive call.\<close>

definition more_specific_step ::
    "u32 \<Rightarrow> nat \<Rightarrow> (nat \<Rightarrow> mtrie_leaf) \<Rightarrow> nat \<Rightarrow> mtrie_ply \<Rightarrow> mtrie_ply" where
  "more_specific_step new_leaf new_bits sub i ply =
     (case leaves ply i of
        NextPly _ \<Rightarrow> ply_set_leaf i (sub i) ply
      | Terminal _ \<Rightarrow>
          if new_bits \<ge> dst_address_bits_of_leaves ply i
          then let ply = ply_set_bits i new_bits (ply_set_leaf i (Terminal new_leaf) ply)
               in ply_add_count (leaf_is_non_empty ply i) ply
          else ply)"

primrec set_leaf_with_more_specific_leaf :: "u32 \<Rightarrow> nat \<Rightarrow> mtrie_leaf \<Rightarrow> mtrie_leaf"
  and set_ply_with_more_specific_leaf :: "u32 \<Rightarrow> nat \<Rightarrow> mtrie_ply \<Rightarrow> mtrie_ply" where
  "set_leaf_with_more_specific_leaf new_leaf new_bits (Terminal l) = Terminal l"
| "set_leaf_with_more_specific_leaf new_leaf new_bits (NextPly p) =
     NextPly (set_ply_with_more_specific_leaf new_leaf new_bits p)"
| "set_ply_with_more_specific_leaf new_leaf new_bits (Ply lv bt n b) =
     fold (more_specific_step new_leaf new_bits (\<lambda>i. set_leaf_with_more_specific_leaf new_leaf new_bits (lv i)))
       [0..<256] (Ply lv bt n b)"

section \<open>Adding a route\<close>

text \<open>One pass of the loop of \<^verbatim>\<open>set_leaf\<close>; \<open>rec\<close> is the recursion on a sub-ply.\<close>

definition set_leaf_slot ::
    "set_unset_leaf_args \<Rightarrow> (mtrie_ply \<Rightarrow> mtrie_ply) \<Rightarrow> nat \<Rightarrow> mtrie_ply \<Rightarrow> mtrie_ply" where
  "set_leaf_slot a rec i old_ply =
     (let old_leaf = leaves old_ply i
      in if dst_address_length a \<ge> dst_address_bits_of_leaves old_ply i
         then let new_leaf = leaf_set_adj_index (adj_index a)
              in (case old_leaf of
                    Terminal _ \<Rightarrow>
                      let p = ply_add_count (- leaf_is_non_empty old_ply i) old_ply;
                          p = ply_set_leaf i (Terminal new_leaf) (ply_set_bits i (dst_address_length a) p)
                      in ply_add_count (leaf_is_non_empty p i) p
                  | NextPly new_ply \<Rightarrow>
                      ply_set_leaf i (NextPly (set_ply_with_more_specific_leaf new_leaf
                        (dst_address_length a) new_ply)) old_ply)
         else (case old_leaf of
                 Terminal _ \<Rightarrow> old_ply
               | NextPly new_ply \<Rightarrow> ply_set_leaf i (NextPly (rec new_ply)) old_ply))"

text \<open>The branch that replaces a terminal leaf by a new ply.\<close>

definition set_leaf_descend :: "nat \<Rightarrow> nat \<Rightarrow> mtrie_ply \<Rightarrow> mtrie_ply" where
  "set_leaf_descend ply_base_len i old_ply =
     (case leaves old_ply i of
        Terminal l \<Rightarrow>
          let p = ply_add_count (- leaf_is_non_empty old_ply i) old_ply;
              new_leaf = ply_create (Terminal l)
                (max (dst_address_bits_of_leaves old_ply i) ply_base_len) ply_base_len;
              p = ply_set_bits i ply_base_len (ply_set_leaf i new_leaf p)
          in ply_add_count (leaf_is_non_empty p i) p
      | NextPly _ \<Rightarrow> old_ply)"

text \<open>
  \<^verbatim>\<open>set_leaf\<close>: the byte index is below 4 whenever it is called (the code asserts it); the model leaves
  the ply alone there.
\<close>

function set_leaf :: "set_unset_leaf_args \<Rightarrow> nat \<Rightarrow> mtrie_ply \<Rightarrow> mtrie_ply" where
  "set_leaf a byte_index old_ply =
     (if byte_index \<ge> 4 then old_ply
      else let n_dst_bits_next_plies = int (dst_address_length a) - int (8 * (byte_index + 1));
               dst_byte = as_u8 (dst_address a) byte_index
           in if n_dst_bits_next_plies \<le> 0
              then let n_dst_bits_this_ply = min 8 (nat (- n_dst_bits_next_plies))
                   in fold (set_leaf_slot a (\<lambda>p. set_leaf a (byte_index + 1) p))
                        [dst_byte..<dst_byte + 2 ^ n_dst_bits_this_ply] old_ply
              else let p = set_leaf_descend (8 * (byte_index + 1)) dst_byte old_ply
                   in (case leaves p dst_byte of
                         NextPly new_ply \<Rightarrow>
                           ply_set_leaf dst_byte (NextPly (set_leaf a (byte_index + 1) new_ply)) p
                       | Terminal _ \<Rightarrow> p))"
  by pat_completeness auto
termination
  by (relation "measure (\<lambda>(a, byte_index, p). 4 - byte_index)") auto

declare set_leaf.simps [simp del]

text \<open>The same two branches on the root ply, which keeps no count.\<close>

definition root_set :: "nat \<Rightarrow> mtrie_leaf \<Rightarrow> nat \<Rightarrow> ip4_fib_mtrie \<Rightarrow> ip4_fib_mtrie" where
  "root_set i l n m = m\<lparr>root_leaves := (root_leaves m)(i := l), root_bits := (root_bits m)(i := n)\<rparr>"

definition set_root_slot :: "set_unset_leaf_args \<Rightarrow> nat \<Rightarrow> ip4_fib_mtrie \<Rightarrow> ip4_fib_mtrie" where
  "set_root_slot a i m =
     (let slot = bswap16 ((bswap16 (as_u16_0 (dst_address a)) + i) mod 65536);
          old_leaf = root_leaves m slot
      in if dst_address_length a \<ge> root_bits m slot
         then let new_leaf = leaf_set_adj_index (adj_index a)
              in (case old_leaf of
                    Terminal _ \<Rightarrow> root_set slot (Terminal new_leaf) (dst_address_length a) m
                  | NextPly new_ply \<Rightarrow>
                      root_set slot (NextPly (set_ply_with_more_specific_leaf new_leaf
                        (dst_address_length a) new_ply)) (root_bits m slot) m)
         else (case old_leaf of
                 Terminal _ \<Rightarrow> m
               | NextPly new_ply \<Rightarrow> root_set slot (NextPly (set_leaf a 2 new_ply)) (root_bits m slot) m))"

definition set_root_leaf :: "set_unset_leaf_args \<Rightarrow> ip4_fib_mtrie \<Rightarrow> ip4_fib_mtrie" where
  "set_root_leaf a m =
     (let dst_byte = as_u16_0 (dst_address a)
      in if int (dst_address_length a) - 16 \<le> 0
         then fold (set_root_slot a) [0..<2 ^ (16 - dst_address_length a)] m
         else let ply_base_len = 16;
                  m = (case root_leaves m dst_byte of
                         Terminal l \<Rightarrow>
                           root_set dst_byte
                             (ply_create (Terminal l) (max (root_bits m dst_byte) ply_base_len) ply_base_len)
                             ply_base_len m
                       | NextPly _ \<Rightarrow> m)
              in (case root_leaves m dst_byte of
                    NextPly new_ply \<Rightarrow>
                      root_set dst_byte (NextPly (set_leaf a 2 new_ply)) (root_bits m dst_byte) m
                  | Terminal _ \<Rightarrow> m))"

section \<open>Deleting a route\<close>

text \<open>
  One pass of the loop of \<^verbatim>\<open>unset_leaf\<close>: \<open>None\<close> once the ply has been given back to the pool. Only plies
  below the root are passed to it, so the test on the byte index is always true.
\<close>

definition unset_leaf_slot ::
    "set_unset_leaf_args \<Rightarrow> (mtrie_ply \<Rightarrow> mtrie_ply option) \<Rightarrow> nat \<Rightarrow> nat \<Rightarrow> mtrie_ply option \<Rightarrow> mtrie_ply option" where
  "unset_leaf_slot a rec byte_index i st =
     (case st of
        None \<Rightarrow> None
      | Some old_ply \<Rightarrow>
          let del_leaf = leaf_set_adj_index (adj_index a);
              cover = Terminal (leaf_set_adj_index (cover_adj_index a));
              clear = (\<lambda>old_ply.
                let p = ply_add_count (- leaf_is_non_empty old_ply i) old_ply;
                    p = ply_set_bits i (max (dst_address_bits_base p) (cover_address_length a))
                          (ply_set_leaf i cover p);
                    p = ply_add_count (leaf_is_non_empty p i) p
                in if n_non_empty_leafs p = 0 \<and> byte_index > 0 then None else Some p)
          in (case leaves old_ply i of
                Terminal l \<Rightarrow> if l = del_leaf then clear old_ply else Some old_ply
              | NextPly q \<Rightarrow>
                  (case rec q of
                     None \<Rightarrow> clear old_ply
                   | Some q' \<Rightarrow> Some (ply_set_leaf i (NextPly q') old_ply))))"

function unset_leaf :: "set_unset_leaf_args \<Rightarrow> nat \<Rightarrow> mtrie_ply \<Rightarrow> mtrie_ply option" where
  "unset_leaf a byte_index old_ply =
     (if byte_index \<ge> 4 then Some old_ply
      else let n_dst_bits_next_plies = int (dst_address_length a) - int (8 * (byte_index + 1));
               dst_byte = as_u8 (dst_address a) byte_index;
               dst_byte = (if n_dst_bits_next_plies < 0
                           then dst_byte - dst_byte mod 2 ^ min 8 (nat (- n_dst_bits_next_plies))
                           else dst_byte);
               n_dst_bits_this_ply =
                 min 8 (if n_dst_bits_next_plies \<le> 0 then nat (- n_dst_bits_next_plies) else 0)
           in fold (unset_leaf_slot a (\<lambda>p. unset_leaf a (byte_index + 1) p) byte_index)
                [dst_byte..<dst_byte + 2 ^ n_dst_bits_this_ply] (Some old_ply))"
  by pat_completeness auto
termination
  by (relation "measure (\<lambda>(a, byte_index, p). 4 - byte_index)") auto

declare unset_leaf.simps [simp del]

definition unset_root_slot :: "set_unset_leaf_args \<Rightarrow> nat \<Rightarrow> ip4_fib_mtrie \<Rightarrow> ip4_fib_mtrie" where
  "unset_root_slot a i m =
     (let slot = bswap16 ((bswap16 (as_u16_0 (dst_address a)) + i) mod 65536);
          del_leaf = leaf_set_adj_index (adj_index a);
          cover = Terminal (leaf_set_adj_index (cover_adj_index a))
      in (case root_leaves m slot of
            Terminal l \<Rightarrow> if l = del_leaf then root_set slot cover (cover_address_length a) m else m
          | NextPly q \<Rightarrow>
              (case unset_leaf a 2 q of
                 None \<Rightarrow> root_set slot cover (cover_address_length a) m
               | Some q' \<Rightarrow> root_set slot (NextPly q') (root_bits m slot) m)))"

definition unset_root_leaf :: "set_unset_leaf_args \<Rightarrow> ip4_fib_mtrie \<Rightarrow> ip4_fib_mtrie" where
  "unset_root_leaf a m =
     (let n_dst_bits_this_ply =
            (if int (dst_address_length a) - 16 \<le> 0 then 16 - dst_address_length a else 0)
      in fold (unset_root_slot a) [0..<2 ^ n_dst_bits_this_ply] m)"

section \<open>The interface\<close>

text \<open>The mask of \<^verbatim>\<open>ip4_main.fib_masks\<close>: the upper \<open>len\<close> bits.\<close>

definition honor_length :: "nat \<Rightarrow> nat \<Rightarrow> nat" where
  "honor_length addr len = addr - addr mod 2 ^ (32 - len)"

definition ip4_fib_mtrie_route_add :: "ip4_fib_mtrie \<Rightarrow> nat \<Rightarrow> nat \<Rightarrow> u32 \<Rightarrow> ip4_fib_mtrie" where
  "ip4_fib_mtrie_route_add m addr len adj =
     set_root_leaf \<lparr>dst_address = honor_length addr len, dst_address_length = len, adj_index = adj,
       cover_address_length = 0, cover_adj_index = 0\<rparr> m"

definition ip4_fib_mtrie_route_del ::
    "ip4_fib_mtrie \<Rightarrow> nat \<Rightarrow> nat \<Rightarrow> u32 \<Rightarrow> nat \<Rightarrow> u32 \<Rightarrow> ip4_fib_mtrie" where
  "ip4_fib_mtrie_route_del m addr len adj cover_len cover_adj =
     unset_root_leaf \<lparr>dst_address = honor_length addr len, dst_address_length = len, adj_index = adj,
       cover_address_length = cover_len, cover_adj_index = cover_adj\<rparr> m"

definition ip4_fib_mtrie_lookup_step :: "mtrie_leaf \<Rightarrow> nat \<Rightarrow> nat \<Rightarrow> mtrie_leaf" where
  "ip4_fib_mtrie_lookup_step current_leaf dst byte_index =
     (case current_leaf of
        Terminal l \<Rightarrow> Terminal l
      | NextPly ply \<Rightarrow> leaves ply (as_u8 dst byte_index))"

definition ip4_fib_mtrie_lookup_step_one :: "ip4_fib_mtrie \<Rightarrow> nat \<Rightarrow> mtrie_leaf" where
  "ip4_fib_mtrie_lookup_step_one m dst = root_leaves m (as_u16_0 dst)"

text \<open>The forwarding path runs step one and then the steps for bytes 2 and 3.\<close>

definition mtrie_lookup :: "ip4_fib_mtrie \<Rightarrow> nat \<Rightarrow> mtrie_leaf" where
  "mtrie_lookup m dst =
     ip4_fib_mtrie_lookup_step
       (ip4_fib_mtrie_lookup_step (ip4_fib_mtrie_lookup_step_one m dst) dst 2) dst 3"

text \<open>The load-balance index the packet gets; \<open>None\<close> would be a ply index read as one.\<close>

definition mtrie_lookup_adj :: "ip4_fib_mtrie \<Rightarrow> nat \<Rightarrow> u32 option" where
  "mtrie_lookup_adj m dst =
     (case mtrie_lookup m dst of Terminal l \<Rightarrow> Some (leaf_get_adj_index l) | NextPly _ \<Rightarrow> None)"

end
