(* ===== verification/Ip4_Mtrie_Spec.thy ===== *)
theory Ip4_Mtrie_Spec
  imports Ip4_Mtrie
begin

text \<open>
  Correctness of the IPv4 trie: the shape invariant of plies (their base lengths, the lengths of
  their slots and the exact count of non-empty leaves), what adding a route does to every lookup,
  longest-prefix match for routes added from the least to the most specific, the round trip of
  adding and deleting a route, and the order of additions for which the trie is wrong.
\<close>

section \<open>Loops over slots\<close>

text \<open>A loop whose pass number \<open>i\<close> reads and writes slot \<open>i\<close> only acts on every slot of its range at once.\<close>

lemma fold_slots:
  assumes "\<And>i p. lo \<le> i \<Longrightarrow> i < hi \<Longrightarrow> dst_address_bits_base p = b \<Longrightarrow> step i p =
      Ply ((leaves p)(i := L i (leaves p i) (dst_address_bits_of_leaves p i)))
        ((dst_address_bits_of_leaves p)(i := B i (leaves p i) (dst_address_bits_of_leaves p i)))
        (n_non_empty_leafs p + N i (leaves p i) (dst_address_bits_of_leaves p i)) b"
  shows "fold step [lo..<hi] (Ply lv bt n b) =
    Ply (\<lambda>j. if lo \<le> j \<and> j < hi then L j (lv j) (bt j) else lv j)
      (\<lambda>j. if lo \<le> j \<and> j < hi then B j (lv j) (bt j) else bt j)
      (n + (\<Sum>j = lo..<hi. N j (lv j) (bt j))) b"
  using assms
proof (induction hi)
  case (Suc hi)
  show ?case
  proof (cases "lo \<le> hi")
    case True
    have "fold step [lo..<hi] (Ply lv bt n b) =
      Ply (\<lambda>j. if lo \<le> j \<and> j < hi then L j (lv j) (bt j) else lv j)
        (\<lambda>j. if lo \<le> j \<and> j < hi then B j (lv j) (bt j) else bt j)
        (n + (\<Sum>j = lo..<hi. N j (lv j) (bt j))) b"
      using Suc by simp
    then show ?thesis using True Suc.prems [of hi] by (auto simp: fun_eq_iff less_Suc_eq)
  next
    case False
    then show ?thesis by (auto simp: fun_eq_iff)
  qed
qed auto

section \<open>The shape of a ply\<close>

definition ne :: "nat \<Rightarrow> nat \<Rightarrow> int" where
  "ne b n = (if n > b then 1 else 0)"

primrec wf_leaf :: "mtrie_leaf \<Rightarrow> nat \<Rightarrow> nat \<Rightarrow> bool"
  and wf_ply :: "mtrie_ply \<Rightarrow> nat \<Rightarrow> bool" where
  "wf_leaf (Terminal l) b n \<longleftrightarrow> b \<le> n \<and> n \<le> b + 8"
| "wf_leaf (NextPly p) b n \<longleftrightarrow> n = b + 8 \<and> wf_ply p (b + 8)"
| "wf_ply (Ply lv bt n base) b \<longleftrightarrow> base = b \<and> b \<le> 24 \<and> n = (\<Sum>i<256. ne b (bt i)) \<and>
     (\<exists>i<256. b < bt i) \<and> (\<forall>i<256. wf_leaf (lv i) b (bt i))"

text \<open>The terminal leaf an address ends at below a leaf or a ply, and the length kept with it.\<close>

primrec at_leaf :: "mtrie_leaf \<Rightarrow> nat \<Rightarrow> nat \<Rightarrow> nat \<Rightarrow> u32 \<times> nat"
  and at_ply :: "mtrie_ply \<Rightarrow> nat \<Rightarrow> nat \<Rightarrow> u32 \<times> nat" where
  "at_leaf (Terminal l) n byte_index x = (l, n)"
| "at_leaf (NextPly p) n byte_index x = at_ply p byte_index x"
| "at_ply (Ply lv bt n b) byte_index x =
     at_leaf (lv (as_u8 x byte_index)) (bt (as_u8 x byte_index)) (byte_index + 1) x"

lemma as_u8_less [simp]: "as_u8 x i < 256"
  by (simp add: as_u8_def)

lemma wf_leaf_bits: "wf_leaf l b n \<Longrightarrow> b \<le> n \<and> n \<le> b + 8"
  by (cases l) auto

lemma at_bits_base:
  "wf_leaf l b n \<Longrightarrow> b \<le> snd (at_leaf l n i x)" "wf_ply p b \<Longrightarrow> b \<le> snd (at_ply p i x)"
proof (induction l and p arbitrary: b n i and b i)
  case (NextPly p)
  then have "b + 8 \<le> snd (at_ply p i x)" using NextPly.IH [of "b + 8" i] by simp
  then show ?case by simp
qed auto

section \<open>Filling the empty leaves of a ply\<close>

definition more_leaf :: "u32 \<Rightarrow> nat \<Rightarrow> mtrie_leaf \<Rightarrow> nat \<Rightarrow> mtrie_leaf" where
  "more_leaf new len l n =
     (case l of Terminal k \<Rightarrow> if n \<le> len then Terminal new else l
      | NextPly p \<Rightarrow> set_leaf_with_more_specific_leaf new len l)"

lemma more_ply_eq:
  assumes "len \<le> b" and "\<forall>i<256. b \<le> bt i"
  shows "set_ply_with_more_specific_leaf new len (Ply lv bt n b) =
    Ply (\<lambda>j. if j < 256 then more_leaf new len (lv j) (bt j) else lv j) bt n b"
proof -
  have step: "more_specific_step new len (\<lambda>i. set_leaf_with_more_specific_leaf new len (lv i)) i p =
      Ply ((leaves p)(i := (case leaves p i of
             Terminal k \<Rightarrow> if dst_address_bits_of_leaves p i \<le> len then Terminal new else leaves p i
           | NextPly _ \<Rightarrow> set_leaf_with_more_specific_leaf new len (lv i))))
        ((dst_address_bits_of_leaves p)(i := (case leaves p i of
             Terminal k \<Rightarrow> if dst_address_bits_of_leaves p i \<le> len then len else dst_address_bits_of_leaves p i
           | NextPly _ \<Rightarrow> dst_address_bits_of_leaves p i)))
        (n_non_empty_leafs p + 0) b"
    if "dst_address_bits_base p = b" for i p
    using assms(1) that
    by (cases p) (auto simp: more_specific_step_def ply_set_leaf_def ply_set_bits_def ply_add_count_def
        leaf_is_non_empty_def Let_def split: mtrie_leaf.split)
  have "set_ply_with_more_specific_leaf new len (Ply lv bt n b) =
    Ply (\<lambda>j. if 0 \<le> j \<and> j < 256 then (case lv j of
             Terminal k \<Rightarrow> if bt j \<le> len then Terminal new else lv j
           | NextPly _ \<Rightarrow> set_leaf_with_more_specific_leaf new len (lv j)) else lv j)
      (\<lambda>j. if 0 \<le> j \<and> j < 256 then (case lv j of
             Terminal k \<Rightarrow> if bt j \<le> len then len else bt j
           | NextPly _ \<Rightarrow> bt j) else bt j)
      (n + (\<Sum>j = 0..<256. 0)) b"
    unfolding set_ply_with_more_specific_leaf.simps
    by (subst fold_slots [where L = "\<lambda>i l k. case l of
             Terminal _ \<Rightarrow> if k \<le> len then Terminal new else l
           | NextPly _ \<Rightarrow> set_leaf_with_more_specific_leaf new len (lv i)"
        and B = "\<lambda>i l k. case l of Terminal _ \<Rightarrow> if k \<le> len then len else k | NextPly _ \<Rightarrow> k"
        and N = "\<lambda>_ _ _. 0"]) (use step in auto)
  moreover have "bt j \<le> len \<Longrightarrow> j < 256 \<Longrightarrow> bt j = len" for j using assms by (meson le_antisym order_trans)
  ultimately show ?thesis by (auto simp: more_leaf_def fun_eq_iff split: mtrie_leaf.split)
qed

text \<open>
  Filling keeps the shape and every length; an address below gets the new leaf exactly when the
  length kept with its old one is not longer.
\<close>

lemma more_ok:
  "wf_leaf l b n \<Longrightarrow> len \<le> b \<Longrightarrow> wf_leaf (more_leaf new len l n) b n \<and>
     at_leaf (more_leaf new len l n) n i x =
       (if snd (at_leaf l n i x) \<le> len then new else fst (at_leaf l n i x), snd (at_leaf l n i x))"
  "wf_ply p b \<Longrightarrow> len \<le> b \<Longrightarrow> wf_ply (set_ply_with_more_specific_leaf new len p) b \<and>
     at_ply (set_ply_with_more_specific_leaf new len p) i x =
       (if snd (at_ply p i x) \<le> len then new else fst (at_ply p i x), snd (at_ply p i x))"
proof (induction l and p arbitrary: b n i and b i)
  case (NextPly p)
  then show ?case using NextPly.IH [of "b + 8" i] by (simp add: more_leaf_def)
next
  case (Ply lv bt m b0)
  have eq: "set_ply_with_more_specific_leaf new len (Ply lv bt m b) =
      Ply (\<lambda>j. if j < 256 then more_leaf new len (lv j) (bt j) else lv j) bt m b"
    using Ply.prems by (intro more_ply_eq) (auto dest: wf_leaf_bits)
  have IH: "j < 256 \<Longrightarrow> wf_leaf (more_leaf new len (lv j) (bt j)) b (bt j) \<and>
      at_leaf (more_leaf new len (lv j) (bt j)) (bt j) k x =
       (if snd (at_leaf (lv j) (bt j) k x) \<le> len then new else fst (at_leaf (lv j) (bt j) k x),
        snd (at_leaf (lv j) (bt j) k x))" for j k
    using Ply.IH [of "lv j" b "bt j" k] Ply.prems by simp
  have "b0 = b" using Ply.prems by simp
  then show ?case using Ply.prems IH eq by simp
qed (auto simp: more_leaf_def)

section \<open>Prefixes and slots\<close>

text \<open>The addresses of a prefix whose host bits are zero.\<close>

definition matches :: "set_unset_leaf_args \<Rightarrow> nat \<Rightarrow> bool" where
  "matches a x \<longleftrightarrow> dst_address a \<le> x \<and> x < dst_address a + 2 ^ (32 - dst_address_length a)"

definition args_ok :: "set_unset_leaf_args \<Rightarrow> bool" where
  "args_ok a \<longleftrightarrow> dst_address_length a \<le> 32 \<and> dst_address a < 2 ^ 32 \<and>
     2 ^ (32 - dst_address_length a) dvd dst_address a"

text \<open>An aligned block seen in units of \<open>2 ^ j\<close>.\<close>

lemma block_units:
  assumes "(2::nat) ^ k dvd P" and "j \<le> k"
  shows "P \<le> x \<and> x < P + 2 ^ k \<longleftrightarrow> P div 2 ^ j \<le> x div 2 ^ j \<and> x div 2 ^ j < P div 2 ^ j + 2 ^ (k - j)"
proof -
  have k: "(2::nat) ^ k = 2 ^ j * 2 ^ (k - j)" using assms(2) by (simp flip: power_add)
  obtain q where "P = 2 ^ k * q" using assms(1) by (elim dvdE)
  then have P: "P = 2 ^ j * (2 ^ (k - j) * q)" by (simp add: k)
  let ?u = "(2::nat) ^ j" and ?p = "2 ^ (k - j) * q"
  have "P \<le> x \<longleftrightarrow> ?p \<le> x div ?u"
    unfolding P by (simp add: less_eq_div_iff_mult_less_eq mult.commute)
  moreover have "x < P + 2 ^ k \<longleftrightarrow> x div ?u < ?p + 2 ^ (k - j)"
    unfolding P k by (simp add: div_less_iff_less_mult algebra_simps)
  moreover have "P div ?u = ?p" by (simp add: P)
  ultimately show ?thesis by simp
qed

text \<open>
  The addresses an operation meets in the ply of byte \<open>i\<close>: those that share the bytes before \<open>i\<close> with a
  longer prefix, or those of a prefix that ends before this ply.
\<close>

definition in_reach :: "set_unset_leaf_args \<Rightarrow> nat \<Rightarrow> nat \<Rightarrow> bool" where
  "in_reach a i x \<longleftrightarrow>
     (if 8 * i < dst_address_length a then x div 2 ^ (32 - 8 * i) = dst_address a div 2 ^ (32 - 8 * i)
      else matches a x)"

definition slot_count :: "set_unset_leaf_args \<Rightarrow> nat \<Rightarrow> nat" where
  "slot_count a i = 2 ^ min 8 (8 * (i + 1) - dst_address_length a)"

lemma as_u8_shift: "i < 4 \<Longrightarrow> as_u8 x i = x div 2 ^ (24 - 8 * i) mod 256"
proof -
  assume "i < 4"
  have "(256::nat) ^ (3 - i) = (2 ^ 8) ^ (3 - i)" by simp
  also have "\<dots> = 2 ^ (8 * (3 - i))" by (simp only: power_mult)
  also have "8 * (3 - i) = 24 - 8 * i" using \<open>i < 4\<close> by simp
  finally show ?thesis by (simp add: as_u8_def)
qed

lemma div_shift: "i < 4 \<Longrightarrow> x div 2 ^ (32 - 8 * i) = x div 2 ^ (24 - 8 * i) div (256::nat)"
proof -
  assume "i < 4"
  then have "32 - 8 * i = 24 - 8 * i + 8" by simp
  then have "(2::nat) ^ (32 - 8 * i) = 2 ^ (24 - 8 * i) * 2 ^ 8" by (simp only: power_add)
  then show ?thesis by (simp add: div_mult2_eq)
qed

lemma aligned_byte:
  assumes "(2::nat) ^ t dvd D" and "t \<le> 8"
  shows "D mod 256 + 2 ^ t \<le> 256"
proof -
  have dv: "(2::nat) ^ t dvd 256" using assms(2) le_imp_power_dvd [of t 8 "2::nat"] by simp
  then obtain q where q: "(256::nat) = 2 ^ t * q" by (elim dvdE)
  obtain r where r: "D mod 256 = 2 ^ t * r" using assms(1) dv by (meson dvdE dvd_mod)
  have "2 ^ t * r < 2 ^ t * q" using r q by (metis mod_less_divisor zero_less_numeral)
  then have "r + 1 \<le> q" by simp
  then have "2 ^ t * (r + 1) \<le> 2 ^ t * q" by (rule mult_le_mono2)
  then show ?thesis using r q by simp
qed

lemma slot_in:
  assumes ok: "args_ok a" and i: "i < 4" and reach: "in_reach a i x" and len: "dst_address_length a \<le> 8 * (i + 1)"
  shows "as_u8 (dst_address a) i \<le> as_u8 x i \<and> as_u8 x i < as_u8 (dst_address a) i + slot_count a i \<longleftrightarrow> matches a x"
    and "as_u8 (dst_address a) i + slot_count a i \<le> 256"
proof -
  let ?len = "dst_address_length a" and ?dst = "dst_address a" and ?s = "24 - 8 * i"
  define D X t where "D = ?dst div 2 ^ ?s" and "X = x div 2 ^ ?s" and "t = 8 * (i + 1) - ?len"
  have k: "32 - ?len = ?s + t" using i len ok by (auto simp: t_def args_ok_def)
  have dv: "2 ^ (?s + t) dvd ?dst" using ok by (simp add: args_ok_def flip: k)
  then obtain q where "?dst = 2 ^ (?s + t) * q" by (elim dvdE)
  then have "?dst = 2 ^ ?s * (2 ^ t * q)" by (simp add: power_add)
  then have Dt: "2 ^ t dvd D" by (simp add: D_def)
  have m: "matches a x \<longleftrightarrow> D \<le> X \<and> X < D + 2 ^ t"
    using block_units [OF dv, of ?s x] by (simp add: matches_def k D_def X_def)
  have bytes: "as_u8 ?dst i = D mod 256" "as_u8 x i = X mod 256" using i by (simp_all add: as_u8_shift D_def X_def)
  have "(as_u8 ?dst i \<le> as_u8 x i \<and> as_u8 x i < as_u8 ?dst i + slot_count a i \<longleftrightarrow> matches a x) \<and>
     as_u8 ?dst i + slot_count a i \<le> 256"
  proof (cases "8 * i < ?len")
    case True
    then have t8: "t \<le> 8" and sc: "slot_count a i = 2 ^ t" using len by (auto simp: t_def slot_count_def)
    have up: "X div 256 = D div 256"
      using reach True i by (simp add: in_reach_def div_shift D_def X_def)
    have "D = 256 * (D div 256) + D mod 256" "X = 256 * (D div 256) + X mod 256"
      using up mult_div_mod_eq [of 256 D] mult_div_mod_eq [of 256 X] by simp_all
    then have "D \<le> X \<and> X < D + 2 ^ t \<longleftrightarrow> D mod 256 \<le> X mod 256 \<and> X mod 256 < D mod 256 + 2 ^ t"
      by linarith
    then show ?thesis using aligned_byte [OF Dt t8] m bytes sc by simp
  next
    case False
    then have t8: "8 \<le> t" and sc: "slot_count a i = 256" by (auto simp: t_def slot_count_def min_def)
    have "(256::nat) dvd 2 ^ t" using le_imp_power_dvd [OF t8, of "2::nat"] by simp
    then have "D mod 256 = 0" using Dt by (meson dvd_trans mod_eq_0_iff_dvd)
    then show ?thesis using reach False bytes sc by (simp add: in_reach_def)
  qed
  then show "as_u8 ?dst i \<le> as_u8 x i \<and> as_u8 x i < as_u8 ?dst i + slot_count a i \<longleftrightarrow> matches a x"
    and "as_u8 ?dst i + slot_count a i \<le> 256" by simp_all
qed

lemma slot_path:
  assumes ok: "args_ok a" and i: "i < 3" and reach: "in_reach a i x" and len: "8 * (i + 1) < dst_address_length a"
  shows "as_u8 x i = as_u8 (dst_address a) i \<longleftrightarrow> in_reach a (i + 1) x"
    and "matches a x \<Longrightarrow> in_reach a (i + 1) x"
proof -
  let ?dst = "dst_address a" and ?s = "24 - 8 * i" and ?k = "32 - dst_address_length a"
  have r1: "in_reach a (i + 1) x \<longleftrightarrow> x div 2 ^ ?s = ?dst div 2 ^ ?s"
    using len by (simp add: in_reach_def)
  have "x div 2 ^ ?s div 256 = ?dst div 2 ^ ?s div 256"
    using reach len i by (simp add: in_reach_def div_shift)
  then have "x div 2 ^ ?s = ?dst div 2 ^ ?s \<longleftrightarrow> x div 2 ^ ?s mod 256 = ?dst div 2 ^ ?s mod 256"
    by (metis mult_div_mod_eq)
  then show "as_u8 x i = as_u8 ?dst i \<longleftrightarrow> in_reach a (i + 1) x"
    using r1 i by (simp add: as_u8_shift)
  assume "matches a x"
  then have "x div 2 ^ ?k = ?dst div 2 ^ ?k"
    using block_units [of ?k ?dst ?k x] ok by (auto simp: matches_def args_ok_def)
  moreover have "?s = ?k + (?s - ?k)" using len i by simp
  ultimately show "in_reach a (i + 1) x" unfolding r1 by (metis div_mult2_eq power_add)
qed

section \<open>Adding a route below the root\<close>

text \<open>What the loop of \<^verbatim>\<open>set_leaf\<close> puts into a slot.\<close>

definition set_slot_leaf :: "set_unset_leaf_args \<Rightarrow> (mtrie_ply \<Rightarrow> mtrie_ply) \<Rightarrow> mtrie_leaf \<Rightarrow> nat \<Rightarrow> mtrie_leaf" where
  "set_slot_leaf a rec l n =
     (if n \<le> dst_address_length a
      then more_leaf (leaf_set_adj_index (adj_index a)) (dst_address_length a) l n
      else case l of Terminal _ \<Rightarrow> l | NextPly q \<Rightarrow> NextPly (rec q))"

definition set_slot_bits :: "set_unset_leaf_args \<Rightarrow> mtrie_leaf \<Rightarrow> nat \<Rightarrow> nat" where
  "set_slot_bits a l n =
     (case l of Terminal _ \<Rightarrow> max n (dst_address_length a) | NextPly _ \<Rightarrow> n)"

lemma set_leaf_slot_eq:
  "set_leaf_slot a rec i p =
     Ply ((leaves p)(i := set_slot_leaf a rec (leaves p i) (dst_address_bits_of_leaves p i)))
       ((dst_address_bits_of_leaves p)(i := set_slot_bits a (leaves p i) (dst_address_bits_of_leaves p i)))
       (n_non_empty_leafs p + (ne (dst_address_bits_base p) (set_slot_bits a (leaves p i) (dst_address_bits_of_leaves p i)) -
          ne (dst_address_bits_base p) (dst_address_bits_of_leaves p i))) (dst_address_bits_base p)"
  by (cases p; cases "leaves p i")
     (auto simp: set_leaf_slot_def set_slot_leaf_def set_slot_bits_def more_leaf_def ply_set_leaf_def
       ply_set_bits_def ply_add_count_def leaf_is_non_empty_def ne_def Let_def max_def)

lemma set_leaf_fill_eq:
  assumes "i < 4" and "dst_address_length a \<le> 8 * (i + 1)"
  shows "set_leaf a i (Ply lv bt n b) =
    (let lo = as_u8 (dst_address a) i; hi = lo + slot_count a i
     in Ply (\<lambda>j. if lo \<le> j \<and> j < hi then set_slot_leaf a (set_leaf a (i + 1)) (lv j) (bt j) else lv j)
          (\<lambda>j. if lo \<le> j \<and> j < hi then set_slot_bits a (lv j) (bt j) else bt j)
          (n + (\<Sum>j = lo..<hi. ne b (set_slot_bits a (lv j) (bt j)) - ne b (bt j))) b)"
proof -
  have "nat (- (int (dst_address_length a) - int (8 * (i + 1)))) = 8 * (i + 1) - dst_address_length a"
    using assms by simp
  then have "set_leaf a i (Ply lv bt n b) =
      fold (set_leaf_slot a (\<lambda>p. set_leaf a (i + 1) p))
        [as_u8 (dst_address a) i..<as_u8 (dst_address a) i + slot_count a i] (Ply lv bt n b)"
    using assms by (subst set_leaf.simps) (simp add: Let_def slot_count_def)
  then show ?thesis
    unfolding Let_def
    by (simp only: fold_slots [where L = "\<lambda>_. set_slot_leaf a (set_leaf a (i + 1))" and B = "\<lambda>_. set_slot_bits a"
          and N = "\<lambda>_ l k. ne b (set_slot_bits a l k) - ne b k", OF set_leaf_slot_eq [THEN trans]]
        set_leaf_slot_eq)
qed

lemma sum_slots:
  fixes f :: "nat \<Rightarrow> int" and lo hi :: nat
  assumes "hi \<le> 256"
  shows "(\<Sum>i<256. f (if lo \<le> i \<and> i < hi then B i else bt i)) =
     (\<Sum>i<256. f (bt i)) + (\<Sum>i = lo..<hi. f (B i) - f (bt i))"
proof -
  have "(\<Sum>i<256. f (if lo \<le> i \<and> i < hi then B i else bt i)) =
      (\<Sum>i<256. f (bt i) + (if i \<in> {lo..<hi} then f (B i) - f (bt i) else 0))"
    by (rule sum.cong) auto
  also have "\<dots> = (\<Sum>i<256. f (bt i)) + (\<Sum>i \<in> {..<256} \<inter> {lo..<hi}. f (B i) - f (bt i))"
    by (simp add: sum.distrib sum.inter_restrict)
  also have "{..<256} \<inter> {lo..<hi} = {lo..<hi}" using assms by auto
  finally show ?thesis .
qed

text \<open>A ply as it is while it is being filled: everything but the presence of a non-empty leaf.\<close>

definition sh_ply :: "mtrie_ply \<Rightarrow> nat \<Rightarrow> bool" where
  "sh_ply p b \<longleftrightarrow> dst_address_bits_base p = b \<and> b \<le> 24 \<and>
     n_non_empty_leafs p = (\<Sum>i<256. ne b (dst_address_bits_of_leaves p i)) \<and>
     (\<forall>i<256. wf_leaf (leaves p i) b (dst_address_bits_of_leaves p i))"

lemma wf_ply_sh: "wf_ply p b \<longleftrightarrow> sh_ply p b \<and> (\<exists>i<256. b < dst_address_bits_of_leaves p i)"
  by (cases p) (auto simp: sh_ply_def)

text \<open>
  What adding the route does to an address: the leaf changes exactly when the prefix matches and
  the length kept with the old leaf is not longer; the length never shrinks and never exceeds the
  longer of the two.
\<close>

definition updated :: "set_unset_leaf_args \<Rightarrow> nat \<Rightarrow> u32 \<times> nat \<Rightarrow> u32 \<times> nat \<Rightarrow> bool" where
  "updated a x s s' \<longleftrightarrow>
     fst s' = (if matches a x \<and> snd s \<le> dst_address_length a then leaf_set_adj_index (adj_index a) else fst s) \<and>
     snd s \<le> snd s' \<and> snd s' \<le> max (snd s) (dst_address_length a)"

definition set_ok :: "set_unset_leaf_args \<Rightarrow> nat \<Rightarrow> bool" where
  "set_ok a i \<longleftrightarrow> (\<forall>p. sh_ply p (8 * i) \<longrightarrow> 8 * i < dst_address_length a \<or> wf_ply p (8 * i) \<longrightarrow>
     wf_ply (set_leaf a i p) (8 * i) \<and>
     (\<forall>x. in_reach a i x \<longrightarrow> updated a x (at_ply p i x) (at_ply (set_leaf a i p) i x)))"

lemma set_slot_ok:
  assumes IH: "set_ok a (i + 1)" and len: "dst_address_length a \<le> 8 * (i + 1)" and l: "wf_leaf l (8 * i) n"
  shows "wf_leaf (set_slot_leaf a (set_leaf a (i + 1)) l n) (8 * i) (set_slot_bits a l n)"
    and "matches a x \<Longrightarrow> updated a x (at_leaf l n (i + 1) x)
       (at_leaf (set_slot_leaf a (set_leaf a (i + 1)) l n) (set_slot_bits a l n) (i + 1) x)"
proof -
  have "wf_leaf (set_slot_leaf a (set_leaf a (i + 1)) l n) (8 * i) (set_slot_bits a l n) \<and>
    (matches a x \<longrightarrow> updated a x (at_leaf l n (i + 1) x)
       (at_leaf (set_slot_leaf a (set_leaf a (i + 1)) l n) (set_slot_bits a l n) (i + 1) x))"
  proof (cases l)
    case (Terminal k)
    then show ?thesis using l len
      by (auto simp: set_slot_leaf_def set_slot_bits_def more_leaf_def updated_def max_def)
  next
    case (NextPly q)
    then have n: "n = 8 * (i + 1)" and q: "wf_ply q (8 * (i + 1))" using l by (simp_all add: algebra_simps)
    show ?thesis
    proof (cases "n \<le> dst_address_length a")
      case True
      then have "dst_address_length a \<le> 8 * (i + 1)" using len by simp
      from more_ok(2) [OF q this, of "leaf_set_adj_index (adj_index a)" "i + 1" x] show ?thesis
        using True n NextPly by (auto simp: set_slot_leaf_def set_slot_bits_def more_leaf_def updated_def algebra_simps)
    next
      case False
      then have "in_reach a (i + 1) x \<longleftrightarrow> matches a x" using n len by (auto simp: in_reach_def)
      moreover have "wf_ply (set_leaf a (i + 1) q) (8 * (i + 1)) \<and>
        (in_reach a (i + 1) x \<longrightarrow> updated a x (at_ply q (i + 1) x) (at_ply (set_leaf a (i + 1) q) (i + 1) x))"
        using IH q wf_ply_sh unfolding set_ok_def by blast
      ultimately show ?thesis using False n NextPly
        by (auto simp: set_slot_leaf_def set_slot_bits_def algebra_simps)
    qed
  qed
  then show "wf_leaf (set_slot_leaf a (set_leaf a (i + 1)) l n) (8 * i) (set_slot_bits a l n)"
    and "matches a x \<Longrightarrow> updated a x (at_leaf l n (i + 1) x)
       (at_leaf (set_slot_leaf a (set_leaf a (i + 1)) l n) (set_slot_bits a l n) (i + 1) x)" by simp_all
qed

lemma in_reach_self: "args_ok a \<Longrightarrow> in_reach a i (dst_address a)"
  by (simp add: in_reach_def matches_def)

lemma at_ply_alt:
  "at_ply p i x = at_leaf (leaves p (as_u8 x i)) (dst_address_bits_of_leaves p (as_u8 x i)) (i + 1) x"
  by (cases p) simp

lemma updated_refl: "\<not> matches a x \<Longrightarrow> updated a x s s"
  by (simp add: updated_def)

lemma set_leaf_fill_ok:
  assumes ok: "args_ok a" and i: "i < 4" and len: "dst_address_length a \<le> 8 * (i + 1)" and IH: "set_ok a (i + 1)"
    and p: "sh_ply p (8 * i)" "8 * i < dst_address_length a \<or> wf_ply p (8 * i)"
  shows "wf_ply (set_leaf a i p) (8 * i)"
    and "in_reach a i x \<Longrightarrow> updated a x (at_ply p i x) (at_ply (set_leaf a i p) i x)"
proof -
  obtain lv bt n where pe: "p = Ply lv bt n (8 * i)" using p(1) by (cases p) (simp add: sh_ply_def)
  define lo hi where "lo = as_u8 (dst_address a) i" and "hi = lo + slot_count a i"
  note eq = set_leaf_fill_eq [OF i len, of lv bt n "8 * i", folded lo_def, unfolded Let_def, folded hi_def pe]
  have hi: "hi \<le> 256" and lohi: "lo < hi"
    using slot_in(2) [OF ok i in_reach_self [OF ok] len] by (simp_all add: lo_def hi_def slot_count_def)
  have sh: "n = (\<Sum>j<256. ne (8 * i) (bt j))" "\<And>j. j < 256 \<Longrightarrow> wf_leaf (lv j) (8 * i) (bt j)" "8 * i \<le> 24"
    using p(1) by (simp_all add: pe sh_ply_def)
  note slot = set_slot_ok [OF IH len sh(2)]
  have "\<exists>j<256. 8 * i < (if lo \<le> j \<and> j < hi then set_slot_bits a (lv j) (bt j) else bt j)"
  proof (cases "8 * i < dst_address_length a")
    case True
    then have "8 * i < set_slot_bits a (lv lo) (bt lo)"
      using sh(2) [of lo] by (cases "lv lo") (auto simp: set_slot_bits_def lo_def)
    then show ?thesis using lohi by (intro exI [of _ lo]) (simp add: lo_def)
  next
    case False
    then obtain j where "j < 256" "8 * i < bt j" using p(2) by (auto simp: pe)
    moreover have "bt j \<le> set_slot_bits a (lv j) (bt j)" by (simp add: set_slot_bits_def split: mtrie_leaf.split)
    ultimately show ?thesis by (intro exI [of _ j]) auto
  qed
  moreover have "n + (\<Sum>j = lo..<hi. ne (8 * i) (set_slot_bits a (lv j) (bt j)) - ne (8 * i) (bt j)) =
      (\<Sum>j<256. ne (8 * i) (if lo \<le> j \<and> j < hi then set_slot_bits a (lv j) (bt j) else bt j))"
    using sum_slots [OF hi, of "ne (8 * i)" lo "\<lambda>j. set_slot_bits a (lv j) (bt j)" bt] sh(1) by simp
  ultimately show "wf_ply (set_leaf a i p) (8 * i)" using slot(1) sh by (simp add: eq)
  assume r: "in_reach a i x"
  have m: "lo \<le> as_u8 x i \<and> as_u8 x i < hi \<longleftrightarrow> matches a x"
    using slot_in(1) [OF ok i r len] by (simp add: lo_def hi_def)
  show "updated a x (at_ply p i x) (at_ply (set_leaf a i p) i x)"
    unfolding eq using slot(2) [of "as_u8 x i" x] m by (cases "matches a x") (auto simp: pe updated_refl)
qed

lemma set_leaf_descend_ok:
  assumes p: "sh_ply p b" "b \<le> 16" and i: "i < 256"
    and q: "p' = set_leaf_descend (b + 8) i p"
  shows "\<exists>q. leaves p' i = NextPly q \<and> sh_ply q (b + 8) \<and> dst_address_bits_of_leaves p' i = b + 8 \<and>
     dst_address_bits_base p' = b \<and> (wf_ply q (b + 8) \<or> (\<exists>l. q = ply_8_init (Terminal l) (b + 8) (b + 8))) \<and>
     n_non_empty_leafs p' = (\<Sum>j<256. ne b (dst_address_bits_of_leaves p' j)) \<and>
     (\<forall>j. j \<noteq> i \<longrightarrow> leaves p' j = leaves p j \<and> dst_address_bits_of_leaves p' j = dst_address_bits_of_leaves p j) \<and>
     (\<forall>k x. fst (at_leaf (leaves p' i) (b + 8) k x) = fst (at_leaf (leaves p i) (dst_address_bits_of_leaves p i) k x) \<and>
        snd (at_leaf (leaves p i) (dst_address_bits_of_leaves p i) k x) \<le> snd (at_leaf (leaves p' i) (b + 8) k x) \<and>
        snd (at_leaf (leaves p' i) (b + 8) k x) \<le>
          max (b + 8) (snd (at_leaf (leaves p i) (dst_address_bits_of_leaves p i) k x)))"
proof -
  obtain lv bt n where pe: "p = Ply lv bt n b" using p(1) by (cases p) (simp add: sh_ply_def)
  have sh: "n = (\<Sum>j<256. ne b (bt j))" "wf_leaf (lv i) b (bt i)" using p(1) i by (simp_all add: pe sh_ply_def)
  have cnt: "(\<Sum>j<256. ne b ((bt(i := m)) j)) = n - ne b (bt i) + ne b m" for m
    using i sum.remove [of "{..<256}" i "\<lambda>j. ne b ((bt(i := m)) j)"] sum.remove [of "{..<256}" i "\<lambda>j. ne b (bt j)"] sh(1)
    by simp
  show ?thesis
  proof (cases "lv i")
    case (Terminal l)
    then have "max (bt i) (b + 8) = b + 8" using sh(2) by simp
    then have p': "p' = Ply (lv(i := NextPly (ply_8_init (Terminal l) (b + 8) (b + 8)))) (bt(i := b + 8))
        (n - ne b (bt i) + ne b (b + 8)) b"
      using Terminal by (simp add: q pe set_leaf_descend_def ply_create_def ply_set_leaf_def ply_set_bits_def
          ply_add_count_def leaf_is_non_empty_def ne_def)
    have "sh_ply (ply_8_init (Terminal l) (b + 8) (b + 8)) (b + 8)"
      using p(2) by (simp add: sh_ply_def ply_8_init_def ne_def)
    then show ?thesis using Terminal sh(2) cnt [of "b + 8"] by (auto simp: p' pe ply_8_init_def)
  next
    case (NextPly r)
    then have "p' = p" by (simp add: q pe set_leaf_descend_def)
    then show ?thesis using NextPly sh pe by (auto simp: wf_ply_sh)
  qed
qed

lemma set_leaf_descend_eq:
  assumes "i < 4" and "8 * (i + 1) < dst_address_length a" and "d = as_u8 (dst_address a) i"
    and "p' = set_leaf_descend (8 * (i + 1)) d p" and "leaves p' d = NextPly q"
  shows "set_leaf a i p = Ply ((leaves p')(d := NextPly (set_leaf a (i + 1) q))) (dst_address_bits_of_leaves p')
     (n_non_empty_leafs p') (dst_address_bits_base p')"
  using assms by (subst set_leaf.simps) (simp add: Let_def ply_set_leaf_def)

lemma set_leaf_down_ok:
  assumes ok: "args_ok a" and i: "i < 3" and len: "8 * (i + 1) < dst_address_length a" and IH: "set_ok a (i + 1)"
    and p: "sh_ply p (8 * i)"
  shows "wf_ply (set_leaf a i p) (8 * i)"
    and "in_reach a i x \<Longrightarrow> updated a x (at_ply p i x) (at_ply (set_leaf a i p) i x)"
proof -
  define d where "d = as_u8 (dst_address a) i"
  define p' where "p' = set_leaf_descend (8 * (i + 1)) d p"
  have b8: "8 * i + 8 = 8 * (i + 1)" "8 * i \<le> 16" using i by simp_all
  have d256: "d < 256" by (simp add: d_def)
  obtain q where q: "leaves p' d = NextPly q" "sh_ply q (8 * (i + 1))" "dst_address_bits_of_leaves p' d = 8 * (i + 1)"
    "dst_address_bits_base p' = 8 * i" "n_non_empty_leafs p' = (\<Sum>j<256. ne (8 * i) (dst_address_bits_of_leaves p' j))"
    "\<And>j. j \<noteq> d \<Longrightarrow> leaves p' j = leaves p j \<and> dst_address_bits_of_leaves p' j = dst_address_bits_of_leaves p j"
    and qa: "fst (at_ply q (i + 1) x) = fst (at_leaf (leaves p d) (dst_address_bits_of_leaves p d) (i + 1) x)"
      "snd (at_leaf (leaves p d) (dst_address_bits_of_leaves p d) (i + 1) x) \<le> snd (at_ply q (i + 1) x)"
      "snd (at_ply q (i + 1) x) \<le> max (8 * (i + 1)) (snd (at_leaf (leaves p d) (dst_address_bits_of_leaves p d) (i + 1) x))"
    using set_leaf_descend_ok [OF p b8(2) d256, unfolded b8(1), OF p'_def] by fastforce
  have sq: "wf_ply (set_leaf a (i + 1) q) (8 * (i + 1))"
    "in_reach a (i + 1) x \<Longrightarrow> updated a x (at_ply q (i + 1) x) (at_ply (set_leaf a (i + 1) q) (i + 1) x)"
    using IH q(2) len unfolding set_ok_def by blast+
  have i4: "i < 4" using i by simp
  note eq = set_leaf_descend_eq [OF i4 len d_def p'_def q(1)]
  have sh: "8 * i \<le> 24" "\<And>j. j < 256 \<Longrightarrow> wf_leaf (leaves p j) (8 * i) (dst_address_bits_of_leaves p j)"
    using p by (simp_all add: sh_ply_def)
  have "wf_leaf (((leaves p')(d := NextPly (set_leaf a (i + 1) q))) j) (8 * i) (dst_address_bits_of_leaves p' j)" if "j < 256" for j
    using that sh(2) q(3,6) sq(1) b8(1) by (cases "j = d") (simp_all add: add.commute)
  moreover have "\<exists>j<256. 8 * i < dst_address_bits_of_leaves p' j" using q(3) d256 by (intro exI [of _ d]) simp
  ultimately show "wf_ply (set_leaf a i p) (8 * i)" unfolding eq using q(4,5) sh(1) by simp
  assume r: "in_reach a i x"
  note sp = slot_path [OF ok i r len]
  show "updated a x (at_ply p i x) (at_ply (set_leaf a i p) i x)"
  proof (cases "as_u8 x i = d")
    case True
    then have "in_reach a (i + 1) x" using sp(1) by (simp add: d_def)
    from sq(2) [OF this] show ?thesis
      using True qa len unfolding eq at_ply_alt [of p] by (auto simp: updated_def)
  next
    case False
    then have "\<not> matches a x" using sp by (auto simp: d_def)
    then show ?thesis using False q(6) [of "as_u8 x i"] unfolding eq at_ply_alt [of p] by (simp add: updated_refl)
  qed
qed

lemma set_ok_step: "args_ok a \<Longrightarrow> i < 4 \<Longrightarrow> set_ok a (i + 1) \<Longrightarrow> set_ok a i"
proof (cases "dst_address_length a \<le> 8 * (i + 1)")
  case False
  assume a: "args_ok a" "i < 4" "set_ok a (i + 1)"
  then have "i < 3" using False by (auto simp: args_ok_def)
  then show "set_ok a i" using a False set_leaf_down_ok [of a i] unfolding set_ok_def [of a i] by auto
qed (use set_leaf_fill_ok in \<open>auto simp: set_ok_def [of a i]\<close>)

lemma set_leaf_ok: "args_ok a \<Longrightarrow> set_ok a 2"
proof -
  assume a: "args_ok a"
  have "set_ok a 4" by (simp add: set_ok_def sh_ply_def)
  then have "set_ok a 3" using set_ok_step [OF a, of 3] by simp
  then show ?thesis using set_ok_step [OF a, of 2] by simp
qed

section \<open>The root\<close>

lemma bswap16_less [simp]: "v < 65536 \<Longrightarrow> bswap16 v < 65536"
proof -
  assume "v < 65536"
  then have "v div 256 < 256" by simp
  moreover have "v mod 256 < 256" by simp
  ultimately show ?thesis unfolding bswap16_def by linarith
qed

lemma bswap16_bswap16 [simp]: "v < 65536 \<Longrightarrow> bswap16 (bswap16 v) = v"
proof -
  assume "v < 65536"
  then have "v div 256 < 256" by simp
  then show ?thesis by (simp add: bswap16_def)
qed

definition wf_root_slot :: "mtrie_leaf \<Rightarrow> nat \<Rightarrow> bool" where
  "wf_root_slot l n \<longleftrightarrow> (case l of Terminal _ \<Rightarrow> n \<le> 16 | NextPly q \<Rightarrow> n = 16 \<and> wf_ply q 16)"

definition wf_mtrie :: "ip4_fib_mtrie \<Rightarrow> bool" where
  "wf_mtrie m \<longleftrightarrow> (\<forall>s<65536. wf_root_slot (root_leaves m s) (root_bits m s))"

text \<open>The terminal leaf an address ends at, with the length kept beside it.\<close>

definition at_root :: "ip4_fib_mtrie \<Rightarrow> nat \<Rightarrow> u32 \<times> nat" where
  "at_root m x = at_leaf (root_leaves m (as_u16_0 x)) (root_bits m (as_u16_0 x)) 2 x"

lemma as_u16_0_less [simp]: "x < 4294967296 \<Longrightarrow> as_u16_0 x < 65536"
  by (simp add: as_u16_0_def less_mult_imp_div_less)

lemma mtrie_lookup_at:
  assumes "wf_mtrie m" and "x < 4294967296"
  shows "mtrie_lookup m x = Terminal (fst (at_root m x))"
proof (cases "root_leaves m (as_u16_0 x)")
  case (Terminal l)
  then show ?thesis
    by (simp add: mtrie_lookup_def ip4_fib_mtrie_lookup_step_one_def ip4_fib_mtrie_lookup_step_def at_root_def)
next
  case (NextPly q)
  have "wf_root_slot (root_leaves m (as_u16_0 x)) (root_bits m (as_u16_0 x))"
    using assms by (simp add: wf_mtrie_def)
  then have q: "wf_ply q 16" using NextPly by (simp add: wf_root_slot_def)
  then have w: "wf_leaf (leaves q (as_u8 x 2)) 16 (dst_address_bits_of_leaves q (as_u8 x 2))"
    by (simp add: wf_ply_sh sh_ply_def)
  show ?thesis
  proof (cases "leaves q (as_u8 x 2)")
    case (NextPly r)
    then have "wf_ply r 24" using w by simp
    then have "wf_leaf (leaves r (as_u8 x 3)) 24 (dst_address_bits_of_leaves r (as_u8 x 3))"
      by (simp add: wf_ply_sh sh_ply_def)
    then show ?thesis using \<open>root_leaves m (as_u16_0 x) = NextPly q\<close> NextPly
      by (cases "leaves r (as_u8 x 3)") (auto simp: mtrie_lookup_def ip4_fib_mtrie_lookup_step_one_def
          ip4_fib_mtrie_lookup_step_def at_root_def at_ply_alt wf_ply_sh sh_ply_def)
  qed (use \<open>root_leaves m (as_u16_0 x) = NextPly q\<close> in \<open>simp add: mtrie_lookup_def ip4_fib_mtrie_lookup_step_one_def
      ip4_fib_mtrie_lookup_step_def at_root_def at_ply_alt\<close>)
qed

text \<open>A loop over different root slots.\<close>

lemma fold_root:
  assumes "\<And>i j. i < n \<Longrightarrow> j < n \<Longrightarrow> slot i = slot j \<Longrightarrow> i = j"
    and "\<And>i m. i < n \<Longrightarrow> step i m = root_set (slot i) (L (root_leaves m (slot i)) (root_bits m (slot i)))
       (B (root_leaves m (slot i)) (root_bits m (slot i))) m"
  shows "fold step [0..<n] m =
    \<lparr>root_leaves = (\<lambda>s. if s \<in> slot ` {..<n} then L (root_leaves m s) (root_bits m s) else root_leaves m s),
     root_bits = (\<lambda>s. if s \<in> slot ` {..<n} then B (root_leaves m s) (root_bits m s) else root_bits m s)\<rparr>"
  using assms
proof (induction n)
  case (Suc n)
  have "slot n \<notin> slot ` {..<n}"
  proof
    assume "slot n \<in> slot ` {..<n}"
    then obtain i where "i < n" "slot n = slot i" by auto
    then show False using Suc.prems(1) [of i n] by simp
  qed
  then show ?case using Suc by (auto simp: root_set_def lessThan_Suc fun_eq_iff)
qed simp

lemma set_root_slot_eq:
  assumes "slot = bswap16 ((bswap16 (as_u16_0 (dst_address a)) + i) mod 65536)"
  shows "set_root_slot a i m = root_set slot (set_slot_leaf a (set_leaf a 2) (root_leaves m slot) (root_bits m slot))
     (set_slot_bits a (root_leaves m slot) (root_bits m slot)) m"
  unfolding set_root_slot_def Let_def assms [symmetric]
  by (cases "root_leaves m slot")
     (auto simp: root_set_def set_slot_leaf_def set_slot_bits_def more_leaf_def max_def fun_upd_idem)

lemma set_root_slot_ok:
  assumes ok: "args_ok a" and len: "dst_address_length a \<le> 16" and w: "wf_root_slot l n"
  shows "wf_root_slot (set_slot_leaf a (set_leaf a 2) l n) (set_slot_bits a l n)"
    and "matches a x \<Longrightarrow> updated a x (at_leaf l n 2 x)
       (at_leaf (set_slot_leaf a (set_leaf a 2) l n) (set_slot_bits a l n) 2 x)"
proof -
  have "wf_root_slot (set_slot_leaf a (set_leaf a 2) l n) (set_slot_bits a l n) \<and>
    (matches a x \<longrightarrow> updated a x (at_leaf l n 2 x)
       (at_leaf (set_slot_leaf a (set_leaf a 2) l n) (set_slot_bits a l n) 2 x))"
  proof (cases l)
    case (Terminal k)
    then show ?thesis using w len
      by (auto simp: wf_root_slot_def set_slot_leaf_def set_slot_bits_def more_leaf_def updated_def max_def)
  next
    case (NextPly q)
    then have l: "wf_leaf l (8 * 1) n" using w by (simp add: wf_root_slot_def)
    have "set_ok a (1 + 1)" using set_leaf_ok [OF ok] by (simp add: numeral_2_eq_2)
    note s = set_slot_ok [OF this _ l, simplified]
    show ?thesis using s len NextPly
      by (auto simp: wf_root_slot_def numeral_2_eq_2 set_slot_leaf_def set_slot_bits_def more_leaf_def)
  qed
  then show "wf_root_slot (set_slot_leaf a (set_leaf a 2) l n) (set_slot_bits a l n)"
    and "matches a x \<Longrightarrow> updated a x (at_leaf l n 2 x)
       (at_leaf (set_slot_leaf a (set_leaf a 2) l n) (set_slot_bits a l n) 2 x)" by simp_all
qed

lemma root_slot_in:
  assumes ok: "args_ok a" and len: "dst_address_length a \<le> 16" and D: "D = dst_address a div 65536"
    and n: "n = 2 ^ (16 - dst_address_length a)"
  shows "i < n \<Longrightarrow> D + i < 65536" and "matches a x \<longleftrightarrow> D \<le> x div 65536 \<and> x div 65536 < D + n"
proof -
  let ?k = "32 - dst_address_length a"
  have dv: "2 ^ ?k dvd dst_address a" and lt: "dst_address a < 2 ^ 32" using ok by (simp_all add: args_ok_def)
  have k: "?k - 16 = 16 - dst_address_length a" "16 \<le> ?k" using len by auto
  show "matches a x \<longleftrightarrow> D \<le> x div 65536 \<and> x div 65536 < D + n"
    using block_units [OF dv k(2), of x] k(1) by (simp add: matches_def D n)
  have "(2::nat) ^ ?k dvd 2 ^ 32" by (rule le_imp_power_dvd) simp
  then obtain q where q: "(2::nat) ^ 32 = 2 ^ ?k * q" by (elim dvdE)
  obtain r where r: "dst_address a = 2 ^ ?k * r" using dv by (elim dvdE)
  have "2 ^ ?k * r < 2 ^ ?k * q" using r q lt by simp
  then have "r + 1 \<le> q" by simp
  then have "2 ^ ?k * (r + 1) \<le> 2 ^ ?k * q" by (rule mult_le_mono2)
  then have "dst_address a + 2 ^ ?k \<le> 65536 * 65536" using r q by simp
  moreover have "(2::nat) ^ ?k = 65536 * n"
  proof -
    have "?k = 16 + (16 - dst_address_length a)" using len by simp
    then have "(2::nat) ^ ?k = 2 ^ 16 * 2 ^ (16 - dst_address_length a)" by (simp only: power_add)
    then show ?thesis by (simp add: n)
  qed
  moreover have "65536 * D \<le> dst_address a" by (simp add: D)
  ultimately have "65536 * (D + n) \<le> 65536 * 65536" by (simp add: distrib_left)
  then show "i < n \<Longrightarrow> D + i < 65536" by simp
qed

lemma set_root_fill_ok:
  assumes ok: "args_ok a" and len: "dst_address_length a \<le> 16" and w: "wf_mtrie m"
  shows "wf_mtrie (set_root_leaf a m)"
    and "x < 4294967296 \<Longrightarrow> updated a x (at_root m x) (at_root (set_root_leaf a m) x)"
proof -
  define D n where "D = dst_address a div 65536" and "n = (2::nat) ^ (16 - dst_address_length a)"
  note rs = root_slot_in [OF ok len D_def n_def]
  have D: "D < 65536" using rs(1) [of 0] by (simp add: n_def)
  have slot: "bswap16 ((bswap16 (as_u16_0 (dst_address a)) + i) mod 65536) = bswap16 (D + i)" if "i < n" for i
    using D rs(1) [OF that] by (simp add: as_u16_0_def D_def)
  have inj: "i < n \<Longrightarrow> j < n \<Longrightarrow> bswap16 (D + i) = bswap16 (D + j) \<Longrightarrow> i = j" for i j
    using rs(1) by (metis add_left_cancel bswap16_bswap16)
  let ?S = "(\<lambda>i. bswap16 (D + i)) ` {..<n}"
  have eq: "set_root_leaf a m =
    \<lparr>root_leaves = (\<lambda>s. if s \<in> ?S then set_slot_leaf a (set_leaf a 2) (root_leaves m s) (root_bits m s) else root_leaves m s),
     root_bits = (\<lambda>s. if s \<in> ?S then set_slot_bits a (root_leaves m s) (root_bits m s) else root_bits m s)\<rparr>"
  proof -
    have "set_root_leaf a m = fold (set_root_slot a) [0..<n] m"
      using len by (simp add: set_root_leaf_def n_def Let_def)
    also have "\<dots> = \<lparr>root_leaves = (\<lambda>s. if s \<in> ?S then set_slot_leaf a (set_leaf a 2) (root_leaves m s) (root_bits m s) else root_leaves m s),
     root_bits = (\<lambda>s. if s \<in> ?S then set_slot_bits a (root_leaves m s) (root_bits m s) else root_bits m s)\<rparr>"
      by (rule fold_root [OF inj]) (simp_all add: set_root_slot_eq [OF refl] slot)
    finally show ?thesis .
  qed
  have slots: "wf_root_slot (root_leaves m s) (root_bits m s)" if "s < 65536" for s using w that by (simp add: wf_mtrie_def)
  show "wf_mtrie (set_root_leaf a m)"
    using slots set_root_slot_ok(1) [OF ok len] by (simp add: wf_mtrie_def eq)
  assume x: "x < 4294967296"
  have "as_u16_0 x \<in> ?S \<longleftrightarrow> matches a x"
  proof -
    have xd: "x div 65536 < 65536" using x by (simp add: less_mult_imp_div_less)
    have "as_u16_0 x \<in> ?S \<longleftrightarrow> (\<exists>i<n. x div 65536 = D + i)"
      using xd rs(1) unfolding as_u16_0_def image_iff by (metis bswap16_bswap16 lessThan_iff)
    also have "\<dots> \<longleftrightarrow> D \<le> x div 65536 \<and> x div 65536 < D + n"
      by (auto intro: exI [of _ "x div 65536 - D"])
    finally show ?thesis using rs(2) by simp
  qed
  then show "updated a x (at_root m x) (at_root (set_root_leaf a m) x)"
    using set_root_slot_ok(2) [OF ok len slots [OF as_u16_0_less [OF x]], of x] updated_refl [of a x]
    by (auto simp: at_root_def eq)
qed

lemma set_root_down_eq:
  assumes len: "16 < dst_address_length a" and w: "wf_root_slot (root_leaves m d) (root_bits m d)"
    and d: "d = as_u16_0 (dst_address a)"
    and q: "q = (case root_leaves m d of Terminal l \<Rightarrow> ply_8_init (Terminal l) 16 16 | NextPly q \<Rightarrow> q)"
  shows "set_root_leaf a m = root_set d (NextPly (set_leaf a 2 q)) 16 m \<and> sh_ply q 16 \<and>
    fst (at_ply q 2 x) = fst (at_leaf (root_leaves m d) (root_bits m d) 2 x) \<and>
    snd (at_leaf (root_leaves m d) (root_bits m d) 2 x) \<le> snd (at_ply q 2 x) \<and>
    snd (at_ply q 2 x) \<le> max 16 (snd (at_leaf (root_leaves m d) (root_bits m d) 2 x))"
proof (cases "root_leaves m d")
  case (Terminal l)
  then have "max (root_bits m d) 16 = 16" using w by (simp add: wf_root_slot_def)
  then show ?thesis
    using Terminal len w
    by (simp add: set_root_leaf_def d [symmetric] q Let_def ply_create_def root_set_def sh_ply_def ply_8_init_def
        ne_def wf_root_slot_def)
next
  case (NextPly r)
  then show ?thesis
    using len w by (simp add: set_root_leaf_def d [symmetric] q Let_def wf_root_slot_def wf_ply_sh)
qed

lemma set_root_down_ok:
  assumes ok: "args_ok a" and len: "16 < dst_address_length a" and w: "wf_mtrie m"
  shows "wf_mtrie (set_root_leaf a m)"
    and "x < 4294967296 \<Longrightarrow> updated a x (at_root m x) (at_root (set_root_leaf a m) x)"
    and "x < 4294967296 \<Longrightarrow> x div 65536 = dst_address a div 65536 \<Longrightarrow> 16 \<le> snd (at_root (set_root_leaf a m) x)"
proof -
  define d where "d = as_u16_0 (dst_address a)"
  have dst: "dst_address a < 4294967296" using ok by (simp add: args_ok_def)
  then have d: "d < 65536" by (simp add: d_def)
  then have wd: "wf_root_slot (root_leaves m d) (root_bits m d)" using w by (simp add: wf_mtrie_def)
  let ?q = "case root_leaves m d of Terminal l \<Rightarrow> ply_8_init (Terminal l) 16 16 | NextPly q \<Rightarrow> q"
  have e: "set_root_leaf a m = root_set d (NextPly (set_leaf a 2 ?q)) 16 m" "sh_ply ?q 16"
    "fst (at_ply ?q 2 x) = fst (at_leaf (root_leaves m d) (root_bits m d) 2 x)"
    "snd (at_leaf (root_leaves m d) (root_bits m d) 2 x) \<le> snd (at_ply ?q 2 x)"
    "snd (at_ply ?q 2 x) \<le> max 16 (snd (at_leaf (root_leaves m d) (root_bits m d) 2 x))"
    using set_root_down_eq [OF len wd d_def refl, of x] by auto
  have s: "wf_ply (set_leaf a 2 ?q) 16"
    and sx: "in_reach a 2 x \<Longrightarrow> updated a x (at_ply ?q 2 x) (at_ply (set_leaf a 2 ?q) 2 x)"
    using set_leaf_ok [OF ok] e(2) len unfolding set_ok_def by auto
  show "wf_mtrie (set_root_leaf a m)"
    using w s unfolding e(1) by (auto simp: wf_mtrie_def root_set_def wf_root_slot_def)
  assume x: "x < 4294967296"
  have r: "in_reach a 2 x \<longleftrightarrow> x div 65536 = dst_address a div 65536" using len by (simp add: in_reach_def)
  have xd: "as_u16_0 x = d \<longleftrightarrow> x div 65536 = dst_address a div 65536"
  proof -
    have "x div 65536 < 65536" "dst_address a div 65536 < 65536"
      using x dst by (simp_all add: less_mult_imp_div_less)
    then show ?thesis unfolding d_def as_u16_0_def by (metis bswap16_bswap16)
  qed
  show "16 \<le> snd (at_root (set_root_leaf a m) x)" if "x div 65536 = dst_address a div 65536"
    using that xd at_bits_base(2) [OF s] unfolding e(1) by (simp add: at_root_def root_set_def)
  show "updated a x (at_root m x) (at_root (set_root_leaf a m) x)"
  proof (cases "as_u16_0 x = d")
    case True
    then have "updated a x (at_ply ?q 2 x) (at_ply (set_leaf a 2 ?q) 2 x)" using sx r xd by simp
    then show ?thesis using True e(3-5) len unfolding e(1) at_root_def
      by (auto simp: updated_def root_set_def)
  next
    case False
    have "\<not> matches a x"
    proof
      assume "matches a x"
      let ?k = "32 - dst_address_length a"
      have "x div 2 ^ ?k = dst_address a div 2 ^ ?k"
        using block_units [of ?k "dst_address a" ?k x] ok \<open>matches a x\<close> by (auto simp: matches_def args_ok_def)
      moreover have "(65536::nat) = 2 ^ ?k * 2 ^ (16 - ?k)"
        using len by (simp flip: power_add)
      ultimately have "x div 65536 = dst_address a div 65536" by (metis div_mult2_eq)
      then show False using False xd by simp
    qed
    then show ?thesis using False unfolding e(1) at_root_def by (simp add: root_set_def updated_refl)
  qed
qed

lemma set_root_leaf_ok:
  assumes "args_ok a" and "wf_mtrie m"
  shows "wf_mtrie (set_root_leaf a m)"
    and "x < 4294967296 \<Longrightarrow> updated a x (at_root m x) (at_root (set_root_leaf a m) x)"
  using set_root_fill_ok [of a m] set_root_down_ok(1,2) [of a m] assms
  by (cases "dst_address_length a \<le> 16"; simp)+

section \<open>Routes and lookups\<close>

definition prefix_match :: "nat \<Rightarrow> nat \<Rightarrow> nat \<Rightarrow> bool" where
  "prefix_match addr len x \<longleftrightarrow> x div 2 ^ (32 - len) = addr div 2 ^ (32 - len)"

definition add_args :: "nat \<Rightarrow> nat \<Rightarrow> u32 \<Rightarrow> set_unset_leaf_args" where
  "add_args addr len adj = \<lparr>dst_address = honor_length addr len, dst_address_length = len, adj_index = adj,
     cover_address_length = 0, cover_adj_index = 0\<rparr>"

lemma honor_length_div: "honor_length addr len = 2 ^ (32 - len) * (addr div 2 ^ (32 - len))"
  by (simp add: honor_length_def minus_mod_eq_mult_div)

lemma honor_args:
  assumes "addr < 4294967296" and "len \<le> 32" and "dst_address a = honor_length addr len" and "dst_address_length a = len"
  shows "args_ok a" and "matches a x \<longleftrightarrow> prefix_match addr len x"
    and "honor_length addr len div 65536 = addr div 65536 \<or> len < 16"
proof -
  have le: "honor_length addr len \<le> addr" by (simp add: honor_length_def)
  then have "honor_length addr len < 2 ^ 32" using assms(1) by simp
  moreover have "2 ^ (32 - len) dvd honor_length addr len" by (simp add: honor_length_div)
  ultimately show "args_ok a" using assms by (simp add: args_ok_def)
  have "2 ^ (32 - len) dvd honor_length addr len" by (simp add: honor_length_div)
  from block_units [OF this order_refl, of x] show "matches a x \<longleftrightarrow> prefix_match addr len x"
    using assms by (auto simp: matches_def prefix_match_def honor_length_div)
  show "honor_length addr len div 65536 = addr div 65536 \<or> len < 16"
  proof (cases "len < 16")
    case False
    then have "(65536::nat) = 2 ^ (32 - len) * 2 ^ (16 - (32 - len))" using assms(2) by (simp flip: power_add)
    then have "y div 65536 = y div 2 ^ (32 - len) div 2 ^ (16 - (32 - len))" for y :: nat by (metis div_mult2_eq)
    then show ?thesis by (simp add: honor_length_div)
  qed simp
qed

lemma leaf_get_set: "adj < 2147483648 \<Longrightarrow> leaf_get_adj_index (leaf_set_adj_index adj) = adj"
proof -
  assume "adj < 2147483648"
  then have "unat adj < 2147483648" by (simp add: word_less_nat_alt)
  then have "unat (1 + 2 * adj) = 1 + 2 * unat adj" by (simp add: unat_word_ariths)
  then have "unat (drop_bit 1 (1 + 2 * adj)) = unat adj"
    by (subst unat_drop_bit_eq) (simp add: drop_bit_eq_div)
  then show ?thesis by (simp only: leaf_get_adj_index_def leaf_set_adj_index_def word_unat_eq_iff)
qed

lemma route_add_ok:
  assumes "wf_mtrie m" and "addr < 4294967296" and "len \<le> 32"
  shows "wf_mtrie (ip4_fib_mtrie_route_add m addr len adj)"
    and "x < 4294967296 \<Longrightarrow> updated (add_args addr len adj) x (at_root m x)
       (at_root (ip4_fib_mtrie_route_add m addr len adj) x)"
    and "matches (add_args addr len adj) x \<longleftrightarrow> prefix_match addr len x"
  using set_root_leaf_ok [of "add_args addr len adj" m] honor_args [OF assms(2,3), of "add_args addr len adj"] assms(1)
  by (auto simp: ip4_fib_mtrie_route_add_def add_args_def)

lemma wf_mtrie_init: "wf_mtrie ip4_mtrie_init"
  by (simp add: wf_mtrie_def ip4_mtrie_init_def ply_16_init_def wf_root_slot_def IP4_FIB_MTRIE_LEAF_EMPTY_def)

lemma at_root_init: "at_root ip4_mtrie_init x = (1, 0)"
  by (simp add: at_root_def ip4_mtrie_init_def ply_16_init_def IP4_FIB_MTRIE_LEAF_EMPTY_def)

text \<open>
  Adding a route to a well-formed trie keeps it well formed (base lengths, slot lengths and the
  exact count of non-empty leaves of every ply) and changes the lookup of exactly the addresses
  inside the prefix whose current leaf carries a length that is not longer: these get the new
  route, every other address keeps the result it had.
\<close>

theorem mtrie_route_add_lookup:
  assumes "wf_mtrie m" and "addr < 4294967296" and "len \<le> 32" and "x < 4294967296"
  shows "wf_mtrie (ip4_fib_mtrie_route_add m addr len adj) \<and>
    mtrie_lookup (ip4_fib_mtrie_route_add m addr len adj) x =
      (if prefix_match addr len x \<and> snd (at_root m x) \<le> len then Terminal (leaf_set_adj_index adj)
       else mtrie_lookup m x)"
proof -
  note r = route_add_ok(1) [OF assms(1-3), where adj = adj] route_add_ok(2,3) [OF assms(1-3), where adj = adj and x = x]
  show ?thesis using r assms(4) mtrie_lookup_at [OF r(1) assms(4)] mtrie_lookup_at [OF assms(1,4)]
    by (simp add: updated_def add_args_def)
qed

theorem mtrie_route_add_lookup_witness:
  "mtrie_lookup (ip4_fib_mtrie_route_add ip4_mtrie_init 167837952 24 5) 167837953 = Terminal 11"
  using mtrie_route_add_lookup [OF wf_mtrie_init, of 167837952 24 167837953 5]
  by (simp add: prefix_match_def at_root_init leaf_set_adj_index_def)

text \<open>A table built by adding routes (address, length, load-balance index) one after the other.\<close>

definition build :: "(nat \<times> nat \<times> u32) list \<Rightarrow> ip4_fib_mtrie" where
  "build rs = fold (\<lambda>(addr, len, adj) m. ip4_fib_mtrie_route_add m addr len adj) rs ip4_mtrie_init"

definition route_ok :: "nat \<times> nat \<times> u32 \<Rightarrow> bool" where
  "route_ok r \<longleftrightarrow> (case r of (addr, len, adj) \<Rightarrow> addr < 4294967296 \<and> len \<le> 32 \<and> adj < 2147483648)"

definition route_match :: "nat \<times> nat \<times> u32 \<Rightarrow> nat \<Rightarrow> bool" where
  "route_match r x \<longleftrightarrow> (case r of (addr, len, adj) \<Rightarrow> prefix_match addr len x)"

lemma build_last_match:
  assumes "sorted (map (fst \<circ> snd) rs)" and "\<And>r. r \<in> set rs \<Longrightarrow> route_ok r" and "x < 4294967296"
  shows "wf_mtrie (build rs) \<and> (\<forall>r \<in> set rs. snd (at_root (build rs) x) \<le> fst (snd (last rs))) \<and>
    (rs = [] \<longrightarrow> snd (at_root (build rs) x) = 0) \<and>
    fst (at_root (build rs) x) = (case rev (filter (\<lambda>r. route_match r x) rs) of
        [] \<Rightarrow> 1 | (addr, len, adj) # _ \<Rightarrow> leaf_set_adj_index adj)"
  using assms
proof (induction rs rule: rev_induct)
  case Nil
  then show ?case by (simp add: build_def wf_mtrie_init at_root_init)
next
  case (snoc r rs)
  obtain addr len adj where r: "r = (addr, len, adj)" by (cases r)
  have IH: "wf_mtrie (build rs)" "\<forall>r \<in> set rs. snd (at_root (build rs) x) \<le> fst (snd (last rs))"
    "rs = [] \<longrightarrow> snd (at_root (build rs) x) = 0"
    "fst (at_root (build rs) x) = (case rev (filter (\<lambda>r. route_match r x) rs) of
        [] \<Rightarrow> 1 | (addr, len, adj) # _ \<Rightarrow> leaf_set_adj_index adj)"
    using snoc by (simp_all add: sorted_append)
  have b: "build (rs @ [r]) = ip4_fib_mtrie_route_add (build rs) addr len adj" by (simp add: build_def r)
  have ok: "addr < 4294967296" "len \<le> 32" using snoc.prems(2) [of r] by (simp_all add: r route_ok_def)
  have le: "snd (at_root (build rs) x) \<le> len"
  proof (cases "rs = []")
    case False
    then have "fst (snd (last rs)) \<le> len" using snoc.prems(1) r by (simp add: sorted_append)
    then show ?thesis using IH(2) False by (meson last_in_set order_trans)
  qed (use IH(3) in simp)
  note ra = route_add_ok(1) [OF IH(1) ok, where adj = adj] route_add_ok(2,3) [OF IH(1) ok, where adj = adj and x = x]
  from ra(2) [OF snoc.prems(3)] ra(1,3) le IH(4) show ?case unfolding b
    by (auto simp: updated_def add_args_def r route_match_def)
qed

text \<open>
  C7. Longest-prefix match. In a table built by adding routes from the least to the most specific,
  a packet gets the index of the longest route that matches its destination, and index 0 (the miss
  adjacency) when none does.
\<close>

theorem mtrie_longest_prefix_match:
  assumes "sorted (map (fst \<circ> snd) rs)" and "\<forall>r \<in> set rs. route_ok r" and "x < 4294967296"
  shows "((\<forall>r \<in> set rs. \<not> route_match r x) \<longrightarrow> mtrie_lookup_adj (build rs) x = Some 0) \<and>
    (\<forall>r \<in> set rs. route_match r x \<longrightarrow>
      (\<forall>r' \<in> set rs. route_match r' x \<longrightarrow> r' = r \<or> fst (snd r') < fst (snd r)) \<longrightarrow>
      mtrie_lookup_adj (build rs) x = Some (snd (snd r)))"
proof -
  let ?ms = "filter (\<lambda>r. route_match r x) rs"
  have b: "wf_mtrie (build rs)" and l: "fst (at_root (build rs) x) = (case rev ?ms of
        [] \<Rightarrow> 1 | (addr, len, adj) # _ \<Rightarrow> leaf_set_adj_index adj)"
    using build_last_match [OF assms(1) _ assms(3)] assms(2) by simp_all
  have look: "mtrie_lookup_adj (build rs) x = Some (leaf_get_adj_index (fst (at_root (build rs) x)))"
    using mtrie_lookup_at [OF b assms(3)] by (simp add: mtrie_lookup_adj_def)
  have "mtrie_lookup_adj (build rs) x = Some 0" if "\<forall>r \<in> set rs. \<not> route_match r x"
  proof -
    have "rev ?ms = []" using that by (simp add: filter_empty_conv)
    then show ?thesis using look l by (simp add: leaf_get_adj_index_def)
  qed
  moreover have "mtrie_lookup_adj (build rs) x = Some (snd (snd r))"
    if r: "r \<in> set rs" "route_match r x"
      and best: "\<forall>r' \<in> set rs. route_match r' x \<longrightarrow> r' = r \<or> fst (snd r') < fst (snd r)" for r
  proof -
    have "r \<in> set ?ms" using r by simp
    then obtain ys L where ms: "?ms = ys @ [L]" by (metis append_butlast_last_id empty_iff set_empty)
    have "sorted (map (fst \<circ> snd) ?ms)" using assms(1) by (rule sorted_filter)
    then have "fst (snd r) \<le> fst (snd L)" using \<open>r \<in> set ?ms\<close> unfolding ms by (auto simp: sorted_append)
    moreover have "L \<in> set ?ms" by (simp add: ms)
    ultimately have "L = r" using best by fastforce
    then have "rev ?ms = r # rev ys" by (simp add: ms)
    moreover have "snd (snd r) < 2147483648" using assms(2) r(1) by (auto simp: route_ok_def)
    ultimately show ?thesis using look l by (auto simp: leaf_get_set split: prod.splits)
  qed
  ultimately show ?thesis by blast
qed

theorem mtrie_longest_prefix_match_witness:
  "mtrie_lookup_adj (build [(167772160, 8, 7), (167837952, 24, 5)]) 167837953 = Some 5 \<and>
   mtrie_lookup_adj (build [(167772160, 8, 7), (167837952, 24, 5)]) 167838209 = Some 7 \<and>
   mtrie_lookup_adj (build [(167772160, 8, 7), (167837952, 24, 5)]) 1 = Some 0"
  using mtrie_longest_prefix_match [of "[(167772160, 8, 7), (167837952, 24, 5)]" 167837953]
    mtrie_longest_prefix_match [of "[(167772160, 8, 7), (167837952, 24, 5)]" 167838209]
    mtrie_longest_prefix_match [of "[(167772160, 8, 7), (167837952, 24, 5)]" 1]
  by (auto simp: route_ok_def route_match_def prefix_match_def)

text \<open>
  The order of additions matters. Once a route longer than 16 bits has been added, adding a
  route shorter than 16 bits changes the lookup of no address in the same block of 16 bits: the
  slots of the ply that block has got carry at least the length 16 (\<^verbatim>\<open>clib_max\<close> with the base length
  of the ply), so the shorter route is taken for the less specific one, although the slots hold no
  more than what covered the block before.
\<close>

theorem mtrie_short_route_after_long:
  assumes "wf_mtrie m" and "p1 < 4294967296" and "16 < l1" and "l1 \<le> 32"
    and "p2 < 4294967296" and "l2 < 16" and "x < 4294967296" and "x div 65536 = p1 div 65536"
  shows "mtrie_lookup (ip4_fib_mtrie_route_add (ip4_fib_mtrie_route_add m p1 l1 a1) p2 l2 a2) x =
    mtrie_lookup (ip4_fib_mtrie_route_add m p1 l1 a1) x"
proof -
  let ?m1 = "ip4_fib_mtrie_route_add m p1 l1 a1" and ?a = "add_args p1 l1 a1"
  note r1 = route_add_ok(1) [OF assms(1,2,4), where adj = a1]
  have ha: "args_ok ?a" and hd: "honor_length p1 l1 div 65536 = p1 div 65536"
    using honor_args [OF assms(2,4), of ?a] assms(3) by (auto simp: add_args_def)
  have "16 \<le> snd (at_root ?m1 x)"
    using set_root_down_ok(3) [OF ha _ assms(1,7)] assms(3,8) hd
    by (simp add: add_args_def ip4_fib_mtrie_route_add_def)
  then have n: "\<not> snd (at_root ?m1 x) \<le> l2" using assms(6) by simp
  have l2: "l2 \<le> 32" using assms(6) by simp
  note r2 = route_add_ok(1) [OF r1(1) assms(5) l2, where adj = a2] route_add_ok(2,3) [OF r1(1) assms(5) l2, where adj = a2 and x = x]
  show ?thesis
    using r2 n assms(7) mtrie_lookup_at [OF r1(1) assms(7)] mtrie_lookup_at [OF r2(1) assms(7)]
    by (simp add: updated_def add_args_def)
qed

text \<open>10.1.1.0/24 and then 10.0.0.0/15: the address 10.1.2.1, which the second route covers, misses.\<close>

theorem mtrie_short_route_after_long_witness:
  "prefix_match 167772160 15 167838209 \<and>
   mtrie_lookup (ip4_fib_mtrie_route_add (ip4_fib_mtrie_route_add ip4_mtrie_init 167837952 24 5) 167772160 15 7)
     167838209 = IP4_FIB_MTRIE_LEAF_EMPTY"
proof -
  have "mtrie_lookup (ip4_fib_mtrie_route_add (ip4_fib_mtrie_route_add ip4_mtrie_init 167837952 24 5) 167772160 15 7)
     167838209 = mtrie_lookup (ip4_fib_mtrie_route_add ip4_mtrie_init 167837952 24 5) 167838209"
    by (rule mtrie_short_route_after_long [OF wf_mtrie_init]) simp_all
  also have "\<dots> = IP4_FIB_MTRIE_LEAF_EMPTY"
    using route_add_ok(1) [OF wf_mtrie_init, where addr = 167837952 and len = 24 and adj = 5] route_add_ok(2,3) [OF wf_mtrie_init, where addr = 167837952 and len = 24 and adj = 5 and x = 167838209]
      mtrie_lookup_at [of "ip4_fib_mtrie_route_add ip4_mtrie_init 167837952 24 5" 167838209]
    by (simp add: updated_def add_args_def prefix_match_def at_root_init IP4_FIB_MTRIE_LEAF_EMPTY_def)
  finally show ?thesis by (simp add: prefix_match_def)
qed

end
