(* ===== verification/Ip4_Mtrie_Del.thy ===== *)
theory Ip4_Mtrie_Del
  imports Ip4_Mtrie_Spec
begin

text \<open>
  Deleting a route from the IPv4 trie: a route that was added over its cover is taken out without
  a trace, down to the counts of the plies, and the plies that were made for it are given back.
\<close>

section \<open>One loop for both ways of filling a ply\<close>

lemma set_leaf_cover:
  assumes "dst_address a' = dst_address a" "dst_address_length a' = dst_address_length a" "adj_index a' = adj_index a"
  shows "set_leaf a' 2 = set_leaf a 2"
proof -
  have step: "set_leaf a' i = set_leaf a i" if IH: "set_leaf a' (i + 1) = set_leaf a (i + 1)" for i
  proof
    fix p
    have "set_leaf_slot a' (set_leaf a (i + 1)) = set_leaf_slot a (set_leaf a (i + 1))"
      using assms by (intro ext) (simp add: set_leaf_slot_def Let_def split: mtrie_leaf.split)
    then show "set_leaf a' i p = set_leaf a i p"
      using assms IH by (subst (1 2) set_leaf.simps) (simp add: Let_def split: mtrie_leaf.split)
  qed
  have "set_leaf a' 4 = set_leaf a 4" by (intro ext) (simp add: set_leaf.simps)
  then have "set_leaf a' 3 = set_leaf a 3" using step [of 3] by simp
  then show ?thesis using step [of 2] by simp
qed

text \<open>
  On a ply whose base is at least the length of the route, \<^verbatim>\<open>set_ply_with_more_specific_leaf\<close> is
  \<^verbatim>\<open>set_leaf\<close>.
\<close>

lemma more_is_set_step:
  assumes ok: "args_ok a" and i: "i < 4" and len: "dst_address_length a \<le> 8 * i" and p: "wf_ply p (8 * i)"
    and IH: "\<And>q. wf_ply q (8 * (i + 1)) \<Longrightarrow>
      set_ply_with_more_specific_leaf (leaf_set_adj_index (adj_index a)) (dst_address_length a) q = set_leaf a (i + 1) q"
  shows "set_ply_with_more_specific_leaf (leaf_set_adj_index (adj_index a)) (dst_address_length a) p = set_leaf a i p"
proof -
  let ?len = "dst_address_length a" and ?new = "leaf_set_adj_index (adj_index a)"
  obtain lv bt n where pe: "p = Ply lv bt n (8 * i)" using p by (cases p) simp
  have w: "wf_leaf (lv j) (8 * i) (bt j)" if "j < 256" for j using p that by (simp add: pe)
  have lo: "as_u8 (dst_address a) i = 0" and sc: "slot_count a i = 256"
  proof -
    show sc: "slot_count a i = 256" using len by (simp add: slot_count_def min_def)
    have "?len \<le> 8 * (i + 1)" using len by simp
    then show "as_u8 (dst_address a) i = 0"
      using slot_in(2) [OF ok i in_reach_self [OF ok]] sc by simp
  qed
  have bits: "set_slot_bits a (lv j) (bt j) = bt j" and leaf: "set_slot_leaf a (set_leaf a (i + 1)) (lv j) (bt j) =
      more_leaf ?new ?len (lv j) (bt j)" if "j < 256" for j
  proof -
    have b: "8 * i \<le> bt j" using wf_leaf_bits [OF w [OF that]] by simp
    then show "set_slot_bits a (lv j) (bt j) = bt j" using len by (simp add: set_slot_bits_def split: mtrie_leaf.split)
    show "set_slot_leaf a (set_leaf a (i + 1)) (lv j) (bt j) = more_leaf ?new ?len (lv j) (bt j)"
      using w [OF that] IH by (cases "lv j") (auto simp: set_slot_leaf_def more_leaf_def algebra_simps)
  qed
  have "set_leaf a i p = Ply (\<lambda>j. if j < 256 then more_leaf ?new ?len (lv j) (bt j) else lv j) bt n (8 * i)"
    using set_leaf_fill_eq [OF i, of a lv bt n "8 * i"] len bits leaf
    by (auto simp: pe Let_def lo sc fun_eq_iff)
  moreover have "\<forall>j<256. 8 * i \<le> bt j" using w wf_leaf_bits by blast
  ultimately show ?thesis using more_ply_eq [OF len, of bt ?new lv n] by (simp add: pe)
qed

lemma more_is_set:
  assumes ok: "args_ok a" and i: "i = 2 \<or> i = 3" and len: "dst_address_length a \<le> 8 * i" and p: "wf_ply p (8 * i)"
  shows "set_ply_with_more_specific_leaf (leaf_set_adj_index (adj_index a)) (dst_address_length a) p = set_leaf a i p"
proof -
  have no: "\<not> wf_ply q 32" for q by (cases q) simp
  have three: "set_ply_with_more_specific_leaf (leaf_set_adj_index (adj_index a)) (dst_address_length a) q = set_leaf a 3 q"
    if "wf_ply q 24" "dst_address_length a \<le> 24" for q
    using more_is_set_step [OF ok, of 3 q] that no by simp
  show ?thesis
  proof (cases "i = 3")
    case False
    then have "i = 2" using i by simp
    then show ?thesis using more_is_set_step [OF ok, of 2 p] len p three by simp
  qed (use three p len in simp)
qed

section \<open>What deleting needs to know\<close>

text \<open>
  The slots a route would take over hold the cover of the route, or a longer route, and none of
  them holds the route already.
\<close>

definition slot_covered :: "set_unset_leaf_args \<Rightarrow> (mtrie_ply \<Rightarrow> bool) \<Rightarrow> mtrie_leaf \<Rightarrow> nat \<Rightarrow> nat \<Rightarrow> bool" where
  "slot_covered a rec l n cover_len \<longleftrightarrow>
     (case l of
        Terminal k \<Rightarrow> k \<noteq> leaf_set_adj_index (adj_index a) \<and>
          (n \<le> dst_address_length a \<longrightarrow> k = leaf_set_adj_index (cover_adj_index a) \<and> n = cover_len)
      | NextPly q \<Rightarrow> rec q)"

function covered :: "set_unset_leaf_args \<Rightarrow> nat \<Rightarrow> mtrie_ply \<Rightarrow> bool" where
  "covered a i p \<longleftrightarrow>
     (if i \<ge> 4 then True
      else let lo = as_u8 (dst_address a) i;
               hi = lo + (if dst_address_length a \<le> 8 * (i + 1) then slot_count a i else 1)
           in \<forall>j \<in> set [lo..<hi]. slot_covered a (\<lambda>q. covered a (i + 1) q) (leaves p j)
                (dst_address_bits_of_leaves p j) (max (dst_address_bits_base p) (cover_address_length a)))"
  by pat_completeness auto
termination
  by (relation "measure (\<lambda>(a, i, p). 4 - i)") auto

declare covered.simps [simp del]

lemma covered_slot:
  assumes "covered a i p" and "i < 4"
    and "as_u8 (dst_address a) i \<le> j" and "j < as_u8 (dst_address a) i + (if dst_address_length a \<le> 8 * (i + 1) then slot_count a i else 1)"
  shows "slot_covered a (covered a (i + 1)) (leaves p j) (dst_address_bits_of_leaves p j)
     (max (dst_address_bits_base p) (cover_address_length a))"
  using assms by (subst (asm) covered.simps) (auto simp: Let_def)

section \<open>The loop of \<open>unset_leaf\<close>\<close>

definition cleared :: "set_unset_leaf_args \<Rightarrow> (mtrie_ply \<Rightarrow> mtrie_ply option) \<Rightarrow> mtrie_leaf \<Rightarrow> bool" where
  "cleared a rec l \<longleftrightarrow> (case l of Terminal k \<Rightarrow> k = leaf_set_adj_index (adj_index a) | NextPly q \<Rightarrow> rec q = None)"

abbreviation cover_leaf :: "set_unset_leaf_args \<Rightarrow> mtrie_leaf" where
  "cover_leaf a \<equiv> Terminal (leaf_set_adj_index (cover_adj_index a))"

lemma unset_leaf_slot_eq:
  assumes "0 < i"
  shows "unset_leaf_slot a rec i j (Some (Ply lv bt n b)) =
    (if cleared a rec (lv j)
     then (let n' = n - ne b (bt j) + ne b (max b (cover_address_length a))
           in if n' = 0 then None
              else Some (Ply (lv(j := cover_leaf a)) (bt(j := max b (cover_address_length a))) n' b))
     else Some (Ply (lv(j := (case lv j of Terminal k \<Rightarrow> Terminal k | NextPly q \<Rightarrow> NextPly (the (rec q))))) bt n b))"
  using assms
  by (auto simp: unset_leaf_slot_def cleared_def ply_add_count_def ply_set_bits_def ply_set_leaf_def
      leaf_is_non_empty_def ne_def Let_def fun_upd_idem split: mtrie_leaf.splits option.splits)

text \<open>A slot \<open>(l', n')\<close> that the pass turns back into \<open>(l, n)\<close>.\<close>

definition undoes :: "set_unset_leaf_args \<Rightarrow> (mtrie_ply \<Rightarrow> mtrie_ply option) \<Rightarrow> nat \<Rightarrow> mtrie_leaf \<Rightarrow> nat \<Rightarrow> mtrie_leaf \<Rightarrow> nat \<Rightarrow> bool" where
  "undoes a rec b l' n' l n \<longleftrightarrow>
     (if cleared a rec l' then l = cover_leaf a \<and> n = max b (cover_address_length a)
      else n' = n \<and> (case l' of Terminal k \<Rightarrow> l = Terminal k | NextPly q' \<Rightarrow> l = NextPly (the (rec q'))))"

lemma unset_fold:
  assumes i: "0 < i" and u: "\<And>j. lo \<le> j \<Longrightarrow> j < hi \<Longrightarrow> undoes a rec b (lv' j) (bt' j) (lv j) (bt j)"
    and out: "\<And>j. \<not> (lo \<le> j \<and> j < hi) \<Longrightarrow> lv' j = lv j \<and> bt' j = bt j"
    and c: "\<And>j. lo \<le> j \<Longrightarrow> j < k \<Longrightarrow> n + (\<Sum>m = j + 1..<hi. ne b (bt' m) - ne b (bt m)) \<noteq> 0"
    and k: "lo \<le> k" "k \<le> hi"
  shows "fold (unset_leaf_slot a rec i) [lo..<k] (Some (Ply lv' bt' (n + (\<Sum>m = lo..<hi. ne b (bt' m) - ne b (bt m))) b)) =
    Some (Ply (\<lambda>j. if j < k then lv j else lv' j) (\<lambda>j. if j < k then bt j else bt' j)
      (n + (\<Sum>m = k..<hi. ne b (bt' m) - ne b (bt m))) b)"
  using k c
proof (induction k)
  case 0
  then show ?case using out by (simp add: fun_eq_iff)
next
  case (Suc k)
  show ?case
  proof (cases "lo = Suc k")
    case True
    have "(\<lambda>j. if j < Suc k then lv j else lv' j) = lv'" "(\<lambda>j. if j < Suc k then bt j else bt' j) = bt'"
      using out True by (auto simp: fun_eq_iff)
    then show ?thesis using True by simp
  next
    case False
    then have lk: "lo \<le> k" "k < hi" using Suc.prems by auto
    let ?f = "\<lambda>m. ne b (bt' m) - ne b (bt m)"
    let ?lv = "\<lambda>j. if j < k then lv j else lv' j" and ?bt = "\<lambda>j. if j < k then bt j else bt' j"
    have IH: "fold (unset_leaf_slot a rec i) [lo..<k] (Some (Ply lv' bt' (n + (\<Sum>m = lo..<hi. ?f m)) b)) =
      Some (Ply ?lv ?bt (n + (\<Sum>m = k..<hi. ?f m)) b)"
      using Suc.IH Suc.prems lk by simp
    have sum: "(\<Sum>m = k..<hi. ?f m) = ?f k + (\<Sum>m = Suc k..<hi. ?f m)"
      using lk(2) by (simp add: sum.atLeast_Suc_lessThan)
    have uk: "undoes a rec b (lv' k) (bt' k) (lv k) (bt k)" using u lk by simp
    have ext: "(?lv)(k := lv k) = (\<lambda>j. if j < Suc k then lv j else lv' j)"
      "(?bt)(k := bt k) = (\<lambda>j. if j < Suc k then bt j else bt' j)"
      by (auto simp: fun_eq_iff less_Suc_eq)
    have nz: "n + (\<Sum>m = Suc k..<hi. ?f m) \<noteq> 0" using Suc.prems(3) [of k] lk by simp
    have "unset_leaf_slot a rec i k (Some (Ply ?lv ?bt (n + (\<Sum>m = k..<hi. ?f m)) b)) =
      Some (Ply ((?lv)(k := lv k)) ((?bt)(k := bt k)) (n + (\<Sum>m = Suc k..<hi. ?f m)) b)"
    proof (cases "cleared a rec (lv' k)")
      case True
      then show ?thesis using uk nz sum by (simp add: unset_leaf_slot_eq [OF i] undoes_def Let_def)
    next
      case False
      then have "bt' k = bt k" "lv k = (case lv' k of Terminal l \<Rightarrow> Terminal l | NextPly q \<Rightarrow> NextPly (the (rec q)))"
        using uk by (auto simp: undoes_def split: mtrie_leaf.splits)
      then show ?thesis using False sum by (simp add: unset_leaf_slot_eq [OF i] fun_upd_idem)
    qed
    then show ?thesis using IH lk ext by simp
  qed
qed

text \<open>The addition below the root, seen from the slot that is undone.\<close>

lemma undoes_set_slot:
  assumes ok: "args_ok a" and i: "i = 1 \<or> i = 2 \<or> i = 3" and len: "dst_address_length a \<le> 8 * (i + 1)"
    and w: "wf_leaf l (8 * i) n" and c: "slot_covered a C l n (max (8 * i) (cover_address_length a))"
    and IH: "\<And>q. wf_ply q (8 * (i + 1)) \<Longrightarrow> C q \<Longrightarrow> rec (set_leaf a (i + 1) q) = Some q"
  shows "undoes a rec (8 * i) (set_slot_leaf a (set_leaf a (i + 1)) l n) (set_slot_bits a l n) l n"
proof (cases l)
  case (Terminal k)
  then show ?thesis using c
    by (auto simp: undoes_def cleared_def set_slot_leaf_def set_slot_bits_def more_leaf_def slot_covered_def)
next
  case (NextPly q)
  then have q: "wf_ply q (8 * (i + 1))" "C q" "n = 8 * (i + 1)"
    using w c by (simp_all add: slot_covered_def algebra_simps)
  have "i \<noteq> 3" using q(1) by (cases q) auto
  then have "set_slot_leaf a (set_leaf a (i + 1)) l n = NextPly (set_leaf a (i + 1) q)"
    using NextPly q more_is_set [OF ok _ len, of q] i by (auto simp: set_slot_leaf_def more_leaf_def)
  then show ?thesis using IH [OF q(1,2)] NextPly by (simp add: undoes_def cleared_def set_slot_bits_def)
qed

lemma slot_count_dvd:
  assumes ok: "args_ok a" and i: "i < 4" and len: "dst_address_length a \<le> 8 * (i + 1)"
  shows "slot_count a i dvd as_u8 (dst_address a) i"
proof -
  let ?t = "8 * (i + 1) - dst_address_length a" and ?s = "24 - 8 * i"
  have k: "32 - dst_address_length a = ?s + ?t" using i len ok by (auto simp: args_ok_def)
  then have "2 ^ (?s + ?t) dvd dst_address a" using ok by (simp add: args_ok_def)
  then obtain q where "dst_address a = 2 ^ (?s + ?t) * q" by (elim dvdE)
  then have "dst_address a = 2 ^ ?s * (2 ^ ?t * q)" by (simp add: power_add)
  then have "2 ^ ?t dvd dst_address a div 2 ^ ?s" by simp
  moreover have "(2::nat) ^ min 8 ?t dvd 2 ^ ?t" by (simp add: le_imp_power_dvd)
  moreover have "(2::nat) ^ min 8 ?t dvd 256" using le_imp_power_dvd [of "min 8 ?t" 8 "2::nat"] by simp
  ultimately have "2 ^ min 8 ?t dvd dst_address a div 2 ^ ?s mod 256" by (meson dvd_mod dvd_trans)
  then show ?thesis using i by (simp add: slot_count_def as_u8_shift)
qed

lemma unset_leaf_fill_eq:
  assumes ok: "args_ok a" and i: "i < 4" and len: "dst_address_length a \<le> 8 * (i + 1)"
  shows "unset_leaf a i p = fold (unset_leaf_slot a (unset_leaf a (i + 1)) i)
     [as_u8 (dst_address a) i..<as_u8 (dst_address a) i + slot_count a i] (Some p)"
proof -
  have n: "nat (- (int (dst_address_length a) - int (8 * (i + 1)))) = 8 * (i + 1) - dst_address_length a"
    using len by simp
  have "as_u8 (dst_address a) i mod 2 ^ min 8 (8 * (i + 1) - dst_address_length a) = 0"
    using slot_count_dvd [OF ok i len] by (simp add: slot_count_def)
  then show ?thesis using i len n by (subst unset_leaf.simps) (auto simp: Let_def slot_count_def)
qed

lemma unset_leaf_down_eq:
  assumes "i < 4" and "8 * (i + 1) < dst_address_length a"
  shows "unset_leaf a i p = unset_leaf_slot a (unset_leaf a (i + 1)) i (as_u8 (dst_address a) i) (Some p)"
  using assms by (subst unset_leaf.simps) (simp add: Let_def)

lemma count_pos: "j < (256::nat) \<Longrightarrow> b < bt j \<Longrightarrow> 0 < (\<Sum>i<256. ne b (bt i))"
  by (rule sum_pos2 [of _ j]) (auto simp: ne_def)

lemma ne_mono: "n \<le> n' \<Longrightarrow> ne b n \<le> ne b n'"
  by (auto simp: ne_def)

definition undo_ok :: "set_unset_leaf_args \<Rightarrow> nat \<Rightarrow> bool" where
  "undo_ok a i \<longleftrightarrow>
     (\<forall>p. wf_ply p (8 * i) \<longrightarrow> covered a i p \<longrightarrow> unset_leaf a i (set_leaf a i p) = Some p) \<and>
     (8 * i < dst_address_length a \<longrightarrow> cover_address_length a \<le> 8 * i \<longrightarrow>
      leaf_set_adj_index (cover_adj_index a) \<noteq> leaf_set_adj_index (adj_index a) \<longrightarrow>
      unset_leaf a i (set_leaf a i (ply_8_init (cover_leaf a) (8 * i) (8 * i))) = None)"

lemma undo_fill:
  assumes ok: "args_ok a" and i: "i = 2 \<or> i = 3" and len: "dst_address_length a \<le> 8 * (i + 1)" and IH: "undo_ok a (i + 1)"
    and w: "wf_ply p (8 * i)" and c: "covered a i p"
  shows "unset_leaf a i (set_leaf a i p) = Some p"
proof -
  have i4: "i < 4" "0 < i" using i by auto
  obtain lv bt n where pe: "p = Ply lv bt n (8 * i)" using w by (cases p) simp
  define lo hi where "lo = as_u8 (dst_address a) i" and "hi = lo + slot_count a i"
  define lv' bt' where "lv' = (\<lambda>j. if lo \<le> j \<and> j < hi then set_slot_leaf a (set_leaf a (i + 1)) (lv j) (bt j) else lv j)"
    and "bt' = (\<lambda>j. if lo \<le> j \<and> j < hi then set_slot_bits a (lv j) (bt j) else bt j)"
  have hi: "hi \<le> 256" using slot_in(2) [OF ok i4(1) in_reach_self [OF ok] len] by (simp add: lo_def hi_def)
  have eq: "set_leaf a i p = Ply lv' bt' (n + (\<Sum>m = lo..<hi. ne (8 * i) (bt' m) - ne (8 * i) (bt m))) (8 * i)"
    using set_leaf_fill_eq [OF i4(1) len, of lv bt n "8 * i"]
    by (simp add: pe lv'_def bt'_def lo_def hi_def Let_def)
  have u: "undoes a (unset_leaf a (i + 1)) (8 * i) (lv' j) (bt' j) (lv j) (bt j)" if j: "lo \<le> j" "j < hi" for j
  proof -
    have "wf_leaf (lv j) (8 * i) (bt j)" using w j hi by (simp add: pe)
    moreover have "slot_covered a (covered a (i + 1)) (lv j) (bt j) (max (8 * i) (cover_address_length a))"
      using covered_slot [OF c i4(1), of j] j len by (simp add: pe lo_def hi_def)
    moreover have "wf_ply q (8 * (i + 1)) \<Longrightarrow> covered a (i + 1) q \<Longrightarrow> unset_leaf a (i + 1) (set_leaf a (i + 1) q) = Some q" for q
      using IH by (simp add: undo_ok_def)
    ultimately have "undoes a (unset_leaf a (i + 1)) (8 * i) (set_slot_leaf a (set_leaf a (i + 1)) (lv j) (bt j))
        (set_slot_bits a (lv j) (bt j)) (lv j) (bt j)"
      using undoes_set_slot [OF ok _ len] i by blast
    then show ?thesis using j by (simp add: lv'_def bt'_def)
  qed
  have mono: "0 \<le> (\<Sum>m = k..<hi. ne (8 * i) (bt' m) - ne (8 * i) (bt m))" for k
    by (rule sum_nonneg) (auto simp: bt'_def set_slot_bits_def intro!: ne_mono split: mtrie_leaf.split)
  have n: "0 < n" using w count_pos by (auto simp: pe)
  have nz: "n + (\<Sum>m = j + 1..<hi. ne (8 * i) (bt' m) - ne (8 * i) (bt m)) \<noteq> 0" for j
    using mono [of "j + 1"] n by linarith
  have out: "\<not> (lo \<le> j \<and> j < hi) \<Longrightarrow> lv' j = lv j \<and> bt' j = bt j" for j by (auto simp: lv'_def bt'_def)
  have "unset_leaf a i (set_leaf a i p) = Some (Ply (\<lambda>j. if j < hi then lv j else lv' j) (\<lambda>j. if j < hi then bt j else bt' j) n (8 * i))"
    unfolding unset_leaf_fill_eq [OF ok i4(1) len] eq lo_def [symmetric] hi_def [symmetric]
    using unset_fold [OF i4(2) u out nz _ order_refl] by (simp add: hi_def)
  moreover have "(\<lambda>j. if j < hi then lv j else lv' j) = lv" "(\<lambda>j. if j < hi then bt j else bt' j) = bt"
    using out by (auto simp: fun_eq_iff)
  ultimately show ?thesis by (simp add: pe)
qed

lemma undo_fill_fresh:
  assumes ok: "args_ok a" and i: "i = 2 \<or> i = 3" and len: "8 * i < dst_address_length a" "dst_address_length a \<le> 8 * (i + 1)"
    and c: "cover_address_length a \<le> 8 * i" "leaf_set_adj_index (cover_adj_index a) \<noteq> leaf_set_adj_index (adj_index a)"
  shows "unset_leaf a i (set_leaf a i (ply_8_init (cover_leaf a) (8 * i) (8 * i))) = None"
proof -
  have i4: "i < 4" "0 < i" using i by auto
  define lo hi where "lo = as_u8 (dst_address a) i" and "hi = lo + slot_count a i"
  let ?lv = "\<lambda>_::nat. cover_leaf a" and ?bt = "\<lambda>_::nat. 8 * i"
  define lv' bt' where "lv' = (\<lambda>j. if lo \<le> j \<and> j < hi then Terminal (leaf_set_adj_index (adj_index a)) else cover_leaf a)"
    and "bt' = (\<lambda>j. if lo \<le> j \<and> j < hi then dst_address_length a else 8 * i)"
  have lohi: "lo < hi" by (simp add: hi_def slot_count_def)
  have slot: "set_slot_leaf a r (cover_leaf a) (8 * i) = Terminal (leaf_set_adj_index (adj_index a))"
    "set_slot_bits a (cover_leaf a) (8 * i) = dst_address_length a" for r
    using len by (simp_all add: set_slot_leaf_def set_slot_bits_def more_leaf_def)
  have eq: "set_leaf a i (ply_8_init (cover_leaf a) (8 * i) (8 * i)) =
      Ply lv' bt' (0 + (\<Sum>m = lo..<hi. ne (8 * i) (bt' m) - ne (8 * i) (?bt m))) (8 * i)"
    using set_leaf_fill_eq [OF i4(1) len(2), of ?lv ?bt 0 "8 * i"]
    by (simp add: ply_8_init_def slot lv'_def bt'_def lo_def hi_def Let_def cong: if_cong)
  have u: "undoes a (unset_leaf a (i + 1)) (8 * i) (lv' j) (bt' j) (?lv j) (?bt j)" if "lo \<le> j" "j < hi" for j
    using that c by (simp add: undoes_def cleared_def lv'_def max_def)
  have out: "\<not> (lo \<le> j \<and> j < hi) \<Longrightarrow> lv' j = ?lv j \<and> bt' j = ?bt j" for j by (auto simp: lv'_def bt'_def)
  have sum: "(\<Sum>m = k..<hi. ne (8 * i) (bt' m) - ne (8 * i) (?bt m)) = int (hi - k)" if "lo \<le> k" for k
  proof -
    have "(\<Sum>m = k..<hi. ne (8 * i) (bt' m) - ne (8 * i) (?bt m)) = (\<Sum>m = k..<hi. 1)"
      using that len(1) by (intro sum.cong) (auto simp: bt'_def ne_def)
    then show ?thesis by simp
  qed
  have nz: "0 + (\<Sum>m = j + 1..<hi. ne (8 * i) (bt' m) - ne (8 * i) (?bt m)) \<noteq> 0" if "lo \<le> j" "j < hi - 1" for j
    using sum [of "j + 1"] that by simp
  have step: "fold (unset_leaf_slot a (unset_leaf a (i + 1)) i) [lo..<hi - 1] (Some (set_leaf a i (ply_8_init (cover_leaf a) (8 * i) (8 * i)))) =
    Some (Ply (\<lambda>j. if j < hi - 1 then ?lv j else lv' j) (\<lambda>j. if j < hi - 1 then ?bt j else bt' j)
      (0 + (\<Sum>m = hi - 1..<hi. ne (8 * i) (bt' m) - ne (8 * i) (?bt m))) (8 * i))"
    unfolding eq using lohi by (intro unset_fold [OF i4(2) u out nz]) auto
  have last: "unset_leaf_slot a (unset_leaf a (i + 1)) i (hi - 1)
      (Some (Ply (\<lambda>j. if j < hi - 1 then ?lv j else lv' j) (\<lambda>j. if j < hi - 1 then ?bt j else bt' j)
      (0 + (\<Sum>m = hi - 1..<hi. ne (8 * i) (bt' m) - ne (8 * i) (?bt m))) (8 * i))) = None"
    using lohi sum [of "hi - 1"] len c
    by (simp add: unset_leaf_slot_eq [OF i4(2)] cleared_def lv'_def bt'_def ne_def Let_def)
  have "[lo..<hi] = [lo..<hi - 1] @ [hi - 1]" using lohi upt_Suc_append [of lo "hi - 1"] by simp
  then show ?thesis
    unfolding unset_leaf_fill_eq [OF ok i4(1) len(2)] lo_def [symmetric] hi_def [symmetric] using step last by simp
qed

text \<open>The branch that goes down one ply.\<close>

lemma undo_down:
  assumes ok: "args_ok a" and len: "24 < dst_address_length a" and IH: "undo_ok a 3"
  shows "undo_ok a 2"
proof -
  define d where "d = as_u8 (dst_address a) 2"
  have d: "d < 256" by (simp add: d_def)
  have unset: "unset_leaf a 2 p = unset_leaf_slot a (unset_leaf a 3) 2 d (Some p)" for p
    using unset_leaf_down_eq [of 2 a p] len by (simp add: d_def)
  have set: "set_leaf a 2 p = Ply ((leaves p')(d := NextPly (set_leaf a 3 q))) (dst_address_bits_of_leaves p')
     (n_non_empty_leafs p') (dst_address_bits_base p')"
    if "p' = set_leaf_descend 24 d p" "leaves p' d = NextPly q" for p p' q
    using set_leaf_descend_eq [of 2 a d p' p q] len that by (simp add: d_def)
  have leaf_case: "unset_leaf a 2 (set_leaf a 2 (Ply lv bt n 16)) = (if n = 0 then None else Some (Ply lv bt n 16))"
    if l: "lv d = cover_leaf a" "bt d = max 16 (cover_address_length a)" "bt d \<le> 24"
      and ne: "leaf_set_adj_index (cover_adj_index a) \<noteq> leaf_set_adj_index (adj_index a)" for lv bt n
  proof -
    let ?q = "ply_8_init (cover_leaf a) 24 24"
    define p' where "p' = set_leaf_descend 24 d (Ply lv bt n 16)"
    have p': "p' = Ply (lv(d := NextPly ?q)) (bt(d := 24)) (n - ne 16 (bt d) + 1) 16"
      using l by (simp add: p'_def set_leaf_descend_def ply_create_def ply_add_count_def ply_set_leaf_def ply_set_bits_def
          leaf_is_non_empty_def ne_def)
    have "set_leaf a 2 (Ply lv bt n 16) = Ply (lv(d := NextPly (set_leaf a 3 ?q))) (bt(d := 24)) (n - ne 16 (bt d) + 1) 16"
      using set [OF p'_def, of ?q] by (simp add: p')
    moreover have "unset_leaf a 3 (set_leaf a 3 ?q) = None" using IH l ne len by (simp add: undo_ok_def)
    ultimately show ?thesis using l(1)
      by (simp add: unset unset_leaf_slot_eq cleared_def Let_def fun_upd_idem ne_def flip: l(2))
  qed
  have "unset_leaf a 2 (set_leaf a 2 p) = Some p" if w: "wf_ply p 16" and c: "covered a 2 p" for p
  proof -
    obtain lv bt n where pe: "p = Ply lv bt n 16" using w by (cases p) simp
    have sc: "slot_covered a (covered a 3) (lv d) (bt d) (max 16 (cover_address_length a))"
      using covered_slot [OF c, of d] len by (simp add: pe d_def)
    have wl: "wf_leaf (lv d) 16 (bt d)" using w d by (simp add: pe)
    have n: "n \<noteq> 0" using w count_pos [of _ 16 bt] by (auto simp: pe)
    show ?thesis
    proof (cases "lv d")
      case (Terminal k)
      then have le: "bt d \<le> 24" using wl by simp
      then have "bt d \<le> dst_address_length a" using len by simp
      then have "lv d = cover_leaf a" "bt d = max 16 (cover_address_length a)"
        "leaf_set_adj_index (cover_adj_index a) \<noteq> leaf_set_adj_index (adj_index a)"
        using sc Terminal by (auto simp: slot_covered_def)
      then show ?thesis using leaf_case [of lv bt n] le n by (simp add: pe)
    next
      case (NextPly q)
      then have q: "wf_ply q 24" "covered a 3 q" using sc wl by (simp_all add: slot_covered_def)
      have "set_leaf_descend 24 d p = p" using NextPly by (simp add: pe set_leaf_descend_def)
      then have "set_leaf a 2 p = Ply (lv(d := NextPly (set_leaf a 3 q))) bt n 16" using set [of p p q] NextPly by (simp add: pe)
      moreover have "unset_leaf a 3 (set_leaf a 3 q) = Some q" using IH q by (simp add: undo_ok_def)
      ultimately show ?thesis using NextPly by (simp add: unset unset_leaf_slot_eq cleared_def pe fun_upd_idem)
    qed
  qed
  moreover have "unset_leaf a 2 (set_leaf a 2 (ply_8_init (cover_leaf a) 16 16)) = None"
    if "cover_address_length a \<le> 16" "leaf_set_adj_index (cover_adj_index a) \<noteq> leaf_set_adj_index (adj_index a)"
    using leaf_case [of "\<lambda>_. cover_leaf a" "\<lambda>_. 16" 0] that by (simp add: ply_8_init_def max_def)
  ultimately show ?thesis by (simp add: undo_ok_def)
qed

lemma undo_ok_all: "args_ok a \<Longrightarrow> undo_ok a 2"
proof -
  assume ok: "args_ok a"
  have no: "\<not> wf_ply q 32" for q by (cases q) simp
  have "undo_ok a 4" using ok no by (simp add: undo_ok_def args_ok_def)
  then have three: "undo_ok a 3"
    using undo_fill [OF ok, of 3] undo_fill_fresh [OF ok, of 3] ok by (simp add: undo_ok_def [of a 3] args_ok_def)
  show ?thesis
  proof (cases "dst_address_length a \<le> 24")
    case True
    then show ?thesis using undo_fill [OF ok, of 2] undo_fill_fresh [OF ok, of 2] three by (simp add: undo_ok_def [of a 2])
  qed (use undo_down [OF ok _ three] in simp)
qed

section \<open>The round trip at the root\<close>

definition root_covered :: "set_unset_leaf_args \<Rightarrow> ip4_fib_mtrie \<Rightarrow> bool" where
  "root_covered a m \<longleftrightarrow>
     (let n = (if dst_address_length a \<le> 16 then 2 ^ (16 - dst_address_length a) else 1)
      in \<forall>i \<in> set [0..<n]. let s = bswap16 (dst_address a div 65536 + i)
           in slot_covered a (covered a 2) (root_leaves m s) (root_bits m s) (cover_address_length a))"

definition root_undo :: "set_unset_leaf_args \<Rightarrow> mtrie_leaf \<Rightarrow> nat \<Rightarrow> mtrie_leaf \<times> nat" where
  "root_undo a l n =
     (if cleared a (unset_leaf a 2) l then (cover_leaf a, cover_address_length a)
      else (case l of Terminal k \<Rightarrow> Terminal k | NextPly q \<Rightarrow> NextPly (the (unset_leaf a 2 q)), n))"

lemma unset_root_slot_eq:
  assumes "slot = bswap16 ((bswap16 (as_u16_0 (dst_address a)) + i) mod 65536)"
  shows "unset_root_slot a i m = root_set slot (fst (root_undo a (root_leaves m slot) (root_bits m slot)))
     (snd (root_undo a (root_leaves m slot) (root_bits m slot))) m"
  unfolding unset_root_slot_def Let_def assms [symmetric]
  by (auto simp: root_undo_def cleared_def root_set_def fun_upd_idem split: mtrie_leaf.splits option.splits)

text \<open>What one root slot holds after the addition and the deletion.\<close>

lemma root_undo_fill:
  assumes ok: "args_ok a" and len: "dst_address_length a \<le> 16" and w: "wf_root_slot l n"
    and c: "slot_covered a (covered a 2) l n (cover_address_length a)"
  shows "root_undo a (set_slot_leaf a (set_leaf a 2) l n) (set_slot_bits a l n) = (l, n)"
proof (cases l)
  case (Terminal k)
  then show ?thesis using c
    by (auto simp: root_undo_def cleared_def set_slot_leaf_def set_slot_bits_def more_leaf_def slot_covered_def)
next
  case (NextPly q)
  then have q: "wf_ply q 16" "n = 16" "covered a 2 q" using w c by (simp_all add: wf_root_slot_def slot_covered_def)
  have "set_slot_leaf a (set_leaf a 2) l n = NextPly (set_leaf a 2 q)"
    using NextPly q more_is_set [OF ok, of 2 q] len by (auto simp: set_slot_leaf_def more_leaf_def)
  moreover have "unset_leaf a 2 (set_leaf a 2 q) = Some q" using undo_ok_all [OF ok] q by (simp add: undo_ok_def)
  ultimately show ?thesis using NextPly by (simp add: root_undo_def cleared_def set_slot_bits_def)
qed

lemma root_round_trip_fill:
  assumes ok: "args_ok a" and len: "dst_address_length a \<le> 16" and w: "wf_mtrie m" and c: "root_covered a m"
  shows "unset_root_leaf a (set_root_leaf a m) = m"
proof -
  define D n where "D = dst_address a div 65536" and "n = (2::nat) ^ (16 - dst_address_length a)"
  note rs = root_slot_in [OF ok len D_def n_def]
  have D: "D < 65536" using rs(1) [of 0] by (simp add: n_def)
  have slot: "bswap16 ((bswap16 (as_u16_0 (dst_address a)) + i) mod 65536) = bswap16 (D + i)" if "i < n" for i
    using D rs(1) [OF that] by (simp add: as_u16_0_def D_def)
  have inj: "i < n \<Longrightarrow> j < n \<Longrightarrow> bswap16 (D + i) = bswap16 (D + j) \<Longrightarrow> i = j" for i j
    using rs(1) by (metis add_left_cancel bswap16_bswap16)
  let ?S = "(\<lambda>i. bswap16 (D + i)) ` {..<n}"
  have set: "set_root_leaf a m =
    \<lparr>root_leaves = (\<lambda>s. if s \<in> ?S then set_slot_leaf a (set_leaf a 2) (root_leaves m s) (root_bits m s) else root_leaves m s),
     root_bits = (\<lambda>s. if s \<in> ?S then set_slot_bits a (root_leaves m s) (root_bits m s) else root_bits m s)\<rparr>" (is "_ = ?m'")
  proof -
    have "set_root_leaf a m = fold (set_root_slot a) [0..<n] m"
      using len by (simp add: set_root_leaf_def n_def Let_def)
    also have "\<dots> = ?m'"
      by (rule fold_root [OF inj]) (simp_all add: set_root_slot_eq [OF refl] slot)
    finally show ?thesis .
  qed
  have unset: "unset_root_leaf a m' =
    \<lparr>root_leaves = (\<lambda>s. if s \<in> ?S then fst (root_undo a (root_leaves m' s) (root_bits m' s)) else root_leaves m' s),
     root_bits = (\<lambda>s. if s \<in> ?S then snd (root_undo a (root_leaves m' s) (root_bits m' s)) else root_bits m' s)\<rparr>" for m'
  proof -
    have "unset_root_leaf a m' = fold (unset_root_slot a) [0..<n] m'"
      using len by (simp add: unset_root_leaf_def n_def Let_def)
    also have "\<dots> = \<lparr>root_leaves = (\<lambda>s. if s \<in> ?S then fst (root_undo a (root_leaves m' s) (root_bits m' s)) else root_leaves m' s),
     root_bits = (\<lambda>s. if s \<in> ?S then snd (root_undo a (root_leaves m' s) (root_bits m' s)) else root_bits m' s)\<rparr>"
      by (rule fold_root [OF inj]) (simp_all add: unset_root_slot_eq [OF refl] slot)
    finally show ?thesis .
  qed
  have restored: "root_undo a (set_slot_leaf a (set_leaf a 2) (root_leaves m s) (root_bits m s)) (set_slot_bits a (root_leaves m s) (root_bits m s)) =
      (root_leaves m s, root_bits m s)" if "s \<in> ?S" for s
  proof -
    obtain i where i: "i < n" "s = bswap16 (D + i)" using \<open>s \<in> ?S\<close> by auto
    then have "wf_root_slot (root_leaves m s) (root_bits m s)" using w rs(1) by (simp add: wf_mtrie_def)
    moreover have "slot_covered a (covered a 2) (root_leaves m s) (root_bits m s) (cover_address_length a)"
      using c i len by (auto simp: root_covered_def Let_def D_def n_def)
    ultimately show ?thesis using root_undo_fill [OF ok len] by blast
  qed
  show ?thesis
    by (rule ip4_fib_mtrie.equality) (auto simp: set unset restored fun_eq_iff)
qed

lemma root_round_trip_down:
  assumes ok: "args_ok a" and len: "16 < dst_address_length a" and w: "wf_mtrie m" and c: "root_covered a m"
  shows "unset_root_leaf a (set_root_leaf a m) = m"
proof -
  define d where "d = as_u16_0 (dst_address a)"
  have dst: "dst_address a div 65536 < 65536" using ok by (simp add: args_ok_def less_mult_imp_div_less)
  have d: "d < 65536" using dst by (simp add: d_def as_u16_0_def)
  have slot: "bswap16 ((bswap16 (as_u16_0 (dst_address a)) + 0) mod 65536) = d"
    using dst by (simp add: d_def as_u16_0_def)
  have wd: "wf_root_slot (root_leaves m d) (root_bits m d)" using w d by (simp add: wf_mtrie_def)
  have sc: "slot_covered a (covered a 2) (root_leaves m d) (root_bits m d) (cover_address_length a)"
    using c len by (simp add: root_covered_def Let_def d_def as_u16_0_def)
  define q where "q = (case root_leaves m d of Terminal l \<Rightarrow> ply_8_init (Terminal l) 16 16 | NextPly q \<Rightarrow> q)"
  have set: "set_root_leaf a m = root_set d (NextPly (set_leaf a 2 q)) 16 m"
    using set_root_down_eq [OF len wd d_def q_def, of 0] by simp
  have unset: "unset_root_leaf a m' = root_set d (fst (root_undo a (root_leaves m' d) (root_bits m' d)))
     (snd (root_undo a (root_leaves m' d) (root_bits m' d))) m'" for m'
    using len unset_root_slot_eq [OF slot [symmetric], of m'] by (simp add: unset_root_leaf_def)
  have "root_undo a (NextPly (set_leaf a 2 q)) 16 = (root_leaves m d, root_bits m d)"
  proof (cases "root_leaves m d")
    case (Terminal k)
    then have n: "root_bits m d \<le> 16" using wd by (simp add: wf_root_slot_def)
    then have k: "k = leaf_set_adj_index (cover_adj_index a)" "k \<noteq> leaf_set_adj_index (adj_index a)"
      "root_bits m d = cover_address_length a"
      using sc Terminal len by (auto simp: slot_covered_def)
    then have "unset_leaf a 2 (set_leaf a 2 q) = None"
      using undo_ok_all [OF ok] n len Terminal by (simp add: undo_ok_def q_def)
    then show ?thesis using Terminal k by (simp add: root_undo_def cleared_def)
  next
    case (NextPly r)
    then have "wf_ply r 16" "covered a 2 r" "root_bits m d = 16" "q = r"
      using wd sc by (simp_all add: wf_root_slot_def slot_covered_def q_def)
    moreover from this have "unset_leaf a 2 (set_leaf a 2 r) = Some r" using undo_ok_all [OF ok] by (simp add: undo_ok_def)
    ultimately show ?thesis using NextPly by (simp add: root_undo_def cleared_def)
  qed
  then show ?thesis unfolding set unset by (simp add: root_set_def fun_upd_idem)
qed

text \<open>
  Adding a route and deleting it again, with the cover the table holds for it, gives back the
  table as it was: every leaf, every length and every count of every ply, with the plies that were
  made for the route given back to the pool.
\<close>

theorem mtrie_add_del_round_trip:
  assumes "wf_mtrie m" and "addr < 4294967296" and "len \<le> 32"
    and "root_covered \<lparr>dst_address = honor_length addr len, dst_address_length = len, adj_index = adj,
       cover_address_length = cover_len, cover_adj_index = cover_adj\<rparr> m"
  shows "ip4_fib_mtrie_route_del (ip4_fib_mtrie_route_add m addr len adj) addr len adj cover_len cover_adj = m"
proof -
  let ?a = "\<lparr>dst_address = honor_length addr len, dst_address_length = len, adj_index = adj,
       cover_address_length = cover_len, cover_adj_index = cover_adj\<rparr>"
  have ok: "args_ok ?a" using honor_args(1) [OF assms(2,3), of ?a] by simp
  have "set_root_slot (add_args addr len adj) = set_root_slot ?a"
    using set_leaf_cover [of "add_args addr len adj" ?a]
    by (intro ext) (simp add: set_root_slot_def add_args_def Let_def split: mtrie_leaf.split)
  then have "ip4_fib_mtrie_route_add m addr len adj = set_root_leaf ?a m"
    using set_leaf_cover [of "add_args addr len adj" ?a]
    by (simp add: ip4_fib_mtrie_route_add_def set_root_leaf_def add_args_def Let_def split: mtrie_leaf.split)
  then show ?thesis
    using root_round_trip_fill [OF ok _ assms(1,4)] root_round_trip_down [OF ok _ assms(1,4)]
    by (cases "len \<le> 16") (simp_all add: ip4_fib_mtrie_route_del_def)
qed

theorem mtrie_add_del_round_trip_witness:
  "ip4_fib_mtrie_route_del (ip4_fib_mtrie_route_add ip4_mtrie_init 167837952 24 5) 167837952 24 5 0 0 = ip4_mtrie_init"
  by (rule mtrie_add_del_round_trip [OF wf_mtrie_init])
     (simp_all add: root_covered_def slot_covered_def ip4_mtrie_init_def ply_16_init_def
       IP4_FIB_MTRIE_LEAF_EMPTY_def leaf_set_adj_index_def)

end
