(* ===== verification/Policer.thy ===== *)
theory Policer
  imports Bras_Prelude Complex_Main "HOL-Library.Log_Nat"
begin

text \<open>
  The traffic policer of the data plane: the token bucket update of
  \<^verbatim>\<open>src/src/VPP/src/vnet/policer/police.h\<close> and the translation of configured rates and bursts into its
  parameters, \<^verbatim>\<open>src/src/VPP/src/vnet/policer/xlate.c\<close>. Unsigned integers are \<open>nat\<close> with every
  wrap-around and every narrowing cast written out (\<open>mod\<close>); the \<^verbatim>\<open>double\<close> computations are rationals
  rounded by \<open>f64_fl\<close>. The compile-time switch \<^verbatim>\<open>INTERNAL_SS\<close> of xlate.c is set, as in the source.
\<close>

abbreviation (input) U64 :: nat where "U64 \<equiv> 18446744073709551616"

definition u64_add :: "nat \<Rightarrow> nat \<Rightarrow> nat" where
  "u64_add a b = (a + b) mod U64"

definition u64_mul :: "nat \<Rightarrow> nat \<Rightarrow> nat" where
  "u64_mul a b = (a * b) mod U64"

definition u64_sub :: "nat \<Rightarrow> nat \<Rightarrow> nat" where
  "u64_sub a b = (a + (U64 - b mod U64)) mod U64"

definition u32_shl :: "nat \<Rightarrow> nat \<Rightarrow> nat" where
  "u32_shl a n = (a * 2 ^ n) mod U32"

definition u64_shl :: "nat \<Rightarrow> nat \<Rightarrow> nat" where
  "u64_shl a n = (a * 2 ^ n) mod U64"

section \<open>The policer of the data plane (police.h)\<close>

datatype policer_result_e = POLICE_CONFORM | POLICE_EXCEED | POLICE_VIOLATE

record policer_read_response_type_st =
  lock :: nat
  single_rate :: nat
  color_aware :: nat
  scale :: nat
  action :: "nat list"
  mark_dscp :: "nat list"
  cir_tokens_per_period :: nat
  pir_tokens_per_period :: nat
  current_limit :: nat
  current_bucket :: nat
  extended_limit :: nat
  extended_bucket :: nat
  last_update_time :: nat

text \<open>\<open>refill b n rate l\<close> is the token computation the code repeats for each bucket: the 64-bit sum
  capped at the limit.\<close>

definition refill :: "nat \<Rightarrow> nat \<Rightarrow> nat \<Rightarrow> nat \<Rightarrow> nat" where
  "refill bucket n_periods rate bkt_limit =
     (let tokens = u64_add bucket (u64_mul n_periods rate)
      in if tokens > bkt_limit then bkt_limit else tokens)"

definition set_buckets :: "nat \<Rightarrow> nat \<Rightarrow> policer_read_response_type_st \<Rightarrow> policer_read_response_type_st" where
  "set_buckets c e p = p\<lparr>current_bucket := c mod U32, extended_bucket := e mod U32\<rparr>"

definition police_single_rate ::
  "policer_read_response_type_st \<Rightarrow> nat \<Rightarrow> policer_result_e \<Rightarrow> nat \<Rightarrow> policer_result_e \<times> policer_read_response_type_st" where
  "police_single_rate p packet_length packet_color n_periods =
     (let current_tokens = refill (current_bucket p) n_periods (cir_tokens_per_period p) (current_limit p);
          extended_tokens = refill (extended_bucket p) n_periods (cir_tokens_per_period p) (extended_limit p)
      in if (color_aware p = 0 \<or> packet_color = POLICE_CONFORM) \<and> current_tokens \<ge> packet_length
         then (POLICE_CONFORM,
               set_buckets (u64_sub current_tokens packet_length) (u64_sub extended_tokens packet_length) p)
         else if (color_aware p = 0 \<or> packet_color \<noteq> POLICE_VIOLATE) \<and> extended_tokens \<ge> packet_length
         then (POLICE_EXCEED, set_buckets current_tokens (u64_sub extended_tokens packet_length) p)
         else (POLICE_VIOLATE, set_buckets current_tokens extended_tokens p))"

definition police_two_rate ::
  "policer_read_response_type_st \<Rightarrow> nat \<Rightarrow> policer_result_e \<Rightarrow> nat \<Rightarrow> policer_result_e \<times> policer_read_response_type_st" where
  "police_two_rate p packet_length packet_color n_periods =
     (let current_tokens = refill (current_bucket p) n_periods (cir_tokens_per_period p) (current_limit p);
          extended_tokens = refill (extended_bucket p) n_periods (pir_tokens_per_period p) (extended_limit p)
      in if (color_aware p \<noteq> 0 \<and> packet_color = POLICE_VIOLATE) \<or> extended_tokens < packet_length
         then (POLICE_VIOLATE, set_buckets current_tokens extended_tokens p)
         else if (color_aware p \<noteq> 0 \<and> packet_color = POLICE_EXCEED) \<or> current_tokens < packet_length
         then (POLICE_EXCEED, set_buckets current_tokens (u64_sub extended_tokens packet_length) p)
         else (POLICE_CONFORM,
               set_buckets (u64_sub current_tokens packet_length) (u64_sub extended_tokens packet_length) p))"

definition vnet_police_packet ::
  "policer_read_response_type_st \<Rightarrow> nat \<Rightarrow> policer_result_e \<Rightarrow> nat \<Rightarrow> policer_result_e \<times> policer_read_response_type_st" where
  "vnet_police_packet p packet_length packet_color time =
     (let len = u32_shl packet_length (scale p);
          n_periods = u64_sub time (last_update_time p);
          p = p\<lparr>last_update_time := time\<rparr>
      in if single_rate p \<noteq> 0 then police_single_rate p len packet_color n_periods
         else police_two_rate p len packet_color n_periods)"

section \<open>Configured parameters (xlate.h)\<close>

datatype sse2_qos_round_type_en =
  SSE2_QOS_ROUND_TO_CLOSEST | SSE2_QOS_ROUND_TO_UP | SSE2_QOS_ROUND_TO_DOWN | SSE2_QOS_ROUND_INVALID

datatype sse2_qos_rate_type_en = SSE2_QOS_RATE_KBPS | SSE2_QOS_RATE_PPS | SSE2_QOS_RATE_INVALID

text \<open>The policer type is stored in a \<^verbatim>\<open>u8\<close> and compared by order in the code; it stays a number.\<close>

definition SSE2_QOS_POLICER_TYPE_1R2C :: nat where [simp]: "SSE2_QOS_POLICER_TYPE_1R2C = 0"
definition SSE2_QOS_POLICER_TYPE_1R3C_RFC_2697 :: nat where [simp]: "SSE2_QOS_POLICER_TYPE_1R3C_RFC_2697 = 1"
definition SSE2_QOS_POLICER_TYPE_2R3C_RFC_2698 :: nat where [simp]: "SSE2_QOS_POLICER_TYPE_2R3C_RFC_2698 = 2"
definition SSE2_QOS_POLICER_TYPE_2R3C_RFC_4115 :: nat where [simp]: "SSE2_QOS_POLICER_TYPE_2R3C_RFC_4115 = 3"
definition SSE2_QOS_POLICER_TYPE_2R3C_RFC_MEF5CF1 :: nat where [simp]: "SSE2_QOS_POLICER_TYPE_2R3C_RFC_MEF5CF1 = 4"

record sse2_qos_pol_action_params_st =
  action_type :: nat
  dscp :: nat

text \<open>
  The union of the configuration overlays the kbps/bytes fields with the pps/ms fields of the same
  widths: one set of four fields, read as kbps and bytes or as pps and ms by \<open>rate_type\<close>.
\<close>

record sse2_qos_pol_cfg_params_st =
  cir_kbps :: nat
  eir_kbps :: nat
  cb_bytes :: nat
  eb_bytes :: nat
  rate_type :: sse2_qos_rate_type_en
  rnd_type :: sse2_qos_round_type_en
  rfc :: nat
  cfg_color_aware :: nat
  overwrite_bucket :: nat
  cfg_current_bucket :: nat
  cfg_extended_bucket :: nat
  conform_action :: sse2_qos_pol_action_params_st
  exceed_action :: sse2_qos_pol_action_params_st
  violate_action :: sse2_qos_pol_action_params_st

record sse2_qos_pol_hw_params_st =
  hw_rfc :: nat
  allow_negative :: nat
  rate_exp :: nat
  avg_rate_man :: nat
  peak_rate_man :: nat
  comm_bkt_limit_exp :: nat
  comm_bkt_limit_man :: nat
  extd_bkt_limit_exp :: nat
  extd_bkt_limit_man :: nat
  comm_bkt :: nat
  extd_bkt :: nat

datatype qos_error = EINVAL | EFAIL

definition IPE_RFC_RFC2697 :: nat where [simp]: "IPE_RFC_RFC2697 = 0"
definition IPE_RFC_RFC2698 :: nat where [simp]: "IPE_RFC_RFC2698 = 1"
definition IPE_RFC_RFC4115 :: nat where [simp]: "IPE_RFC_RFC4115 = 2"
definition IPE_RFC_MEF5CF1 :: nat where [simp]: "IPE_RFC_MEF5CF1 = 3"

definition SSE2_QOS_POLICER_FIXED_PKT_SIZE :: nat where "SSE2_QOS_POLICER_FIXED_PKT_SIZE = 256"
definition SSE2_QOS_POL_TICKS_PER_SEC :: nat where "SSE2_QOS_POL_TICKS_PER_SEC = 1000"
definition SSE2_QOS_POL_DEF_BURST_BYTE :: nat where "SSE2_QOS_POL_DEF_BURST_BYTE = 100"
definition SSE2_QOS_POL_MIN_BURST_BYTE :: nat where "SSE2_QOS_POL_MIN_BURST_BYTE = 9 * 1024"
definition SSE2_QOS_POL_COMM_BKT_MAX :: nat where "SSE2_QOS_POL_COMM_BKT_MAX = 2 ^ 31"
definition SSE2_QOS_POL_EXTD_BKT_MAX :: nat where "SSE2_QOS_POL_EXTD_BKT_MAX = 2 ^ 31"
definition SSE2_QOS_POL_RATE_EXP_MAX :: nat where "SSE2_QOS_POL_RATE_EXP_MAX = 2 ^ 4 - 1"
definition SSE2_QOS_POL_AVG_RATE_MANT_MAX :: nat where "SSE2_QOS_POL_AVG_RATE_MANT_MAX = 2 ^ 11 - 1"
definition SSE2_QOS_POL_AVG_RATE_MAX :: nat where
  "SSE2_QOS_POL_AVG_RATE_MAX = SSE2_QOS_POL_AVG_RATE_MANT_MAX * 2 ^ SSE2_QOS_POL_RATE_EXP_MAX"
definition SSE2_QOS_POL_PEAK_RATE_MANT_MAX :: nat where "SSE2_QOS_POL_PEAK_RATE_MANT_MAX = 2 ^ 11 - 1"
definition SSE2_QOS_POL_PEAK_RATE_MAX :: nat where
  "SSE2_QOS_POL_PEAK_RATE_MAX = SSE2_QOS_POL_PEAK_RATE_MANT_MAX * 2 ^ SSE2_QOS_POL_RATE_EXP_MAX"
definition SSE2_QOS_POL_COMM_BKT_LIMIT_MANT_MAX :: nat where "SSE2_QOS_POL_COMM_BKT_LIMIT_MANT_MAX = 2 ^ 7 - 1"
definition SSE2_QOS_POL_COMM_BKT_LIMIT_EXP_MAX :: nat where "SSE2_QOS_POL_COMM_BKT_LIMIT_EXP_MAX = 2 ^ 5 - 1"
definition SSE2_QOS_POL_EXTD_BKT_LIMIT_MANT_MAX :: nat where "SSE2_QOS_POL_EXTD_BKT_LIMIT_MANT_MAX = 2 ^ 7 - 1"
definition SSE2_QOS_POL_EXTD_BKT_LIMIT_EXP_MAX :: nat where "SSE2_QOS_POL_EXTD_BKT_LIMIT_EXP_MAX = 2 ^ 5 - 1"
definition RATE256 :: nat where "RATE256 = 256114688000 div 8 div SSE2_QOS_POL_TICKS_PER_SEC"
definition RATE128 :: nat where "RATE128 = 128057344000 div 8 div SSE2_QOS_POL_TICKS_PER_SEC"
definition RATE64 :: nat where "RATE64 = 64028672000 div 8 div SSE2_QOS_POL_TICKS_PER_SEC"

section \<open>Rounding and the exponent and mantissa format (xlate.c)\<close>

definition sse2_qos_pol_round :: "nat \<Rightarrow> nat \<Rightarrow> sse2_qos_round_type_en \<Rightarrow> qos_error + nat" where
  "sse2_qos_pol_round numerator denominator round_type =
     (if denominator = 0 then Inl EINVAL
      else case round_type of
        SSE2_QOS_ROUND_TO_CLOSEST \<Rightarrow> Inr (u64_add numerator (denominator div 2) div denominator)
      | SSE2_QOS_ROUND_TO_UP \<Rightarrow>
          (let v = numerator div denominator
           in if u64_mul v denominator < numerator then Inr (u64_add v 1) else Inr v)
      | SSE2_QOS_ROUND_TO_DOWN \<Rightarrow> Inr (numerator div denominator)
      | SSE2_QOS_ROUND_INVALID \<Rightarrow> Inl EINVAL)"

text \<open>A call that ignores the return code and reads a variable initialised to 0.\<close>

definition rounded_or_0 :: "qos_error + nat \<Rightarrow> nat" where
  "rounded_or_0 r = (case r of Inl _ \<Rightarrow> 0 | Inr v \<Rightarrow> v)"

definition sse2_pol_validate_cfg_params :: "sse2_qos_pol_cfg_params_st \<Rightarrow> qos_error option" where
  "sse2_pol_validate_cfg_params cfg =
     (if rfc cfg = SSE2_QOS_POLICER_TYPE_2R3C_RFC_2698 \<and> eir_kbps cfg < cir_kbps cfg then Some EINVAL
      else
        let denom = (8 * SSE2_QOS_POL_TICKS_PER_SEC) div 1000
        in case sse2_qos_pol_round (cir_kbps cfg) denom (rnd_type cfg) of
             Inl rc \<Rightarrow> Some rc
           | Inr rnd_value \<Rightarrow>
               (let cir_hw = rnd_value mod U32
                in case sse2_qos_pol_round (eir_kbps cfg) denom (rnd_type cfg) of
                     Inl rc \<Rightarrow> Some rc
                   | Inr rnd_value \<Rightarrow>
                       (let eir_hw = rnd_value mod U32
                        in if cir_hw > SSE2_QOS_POL_AVG_RATE_MAX then Some EINVAL
                           else if eir_hw > SSE2_QOS_POL_PEAK_RATE_MAX then Some EINVAL
                           else if cir_kbps cfg = 0 \<and> cb_bytes cfg \<noteq> 0 then Some EINVAL
                           else if eir_kbps cfg = 0 \<and> rfc cfg > SSE2_QOS_POLICER_TYPE_1R3C_RFC_2697
                             then Some EINVAL
                           else if eir_kbps cfg \<noteq> 0 \<and> rfc cfg < SSE2_QOS_POLICER_TYPE_2R3C_RFC_2698
                             then Some EINVAL
                           else if rfc cfg = SSE2_QOS_POLICER_TYPE_1R2C \<and> eb_bytes cfg \<noteq> 0
                             then Some EINVAL
                           else None)))"

text \<open>
  \<^verbatim>\<open>(u64) (1 << n)\<close>: the shift is done in \<^verbatim>\<open>int\<close>, so bit 31 is the sign and is extended; the shift
  count is taken modulo the width, as the processor does.
\<close>

definition int_1_shl :: "nat \<Rightarrow> nat" where
  "int_1_shl n = (let k = n mod 32 in if k = 31 then U64 - 2 ^ 31 else 2 ^ k)"

text \<open>The loop: the callers' \<open>max_exp_value\<close> (15 and 31) keeps the \<^verbatim>\<open>u8\<close> counter from wrapping.\<close>

function exp_mant_loop :: "nat \<Rightarrow> nat \<Rightarrow> nat \<Rightarrow> sse2_qos_round_type_en \<Rightarrow> nat \<Rightarrow> nat \<Rightarrow> nat \<times> nat" where
  "exp_mant_loop value max_exp_value max_mant_value type temp_exp temp_mant =
     (if temp_exp \<le> max_exp_value
      then if temp_mant \<le> max_mant_value then (temp_exp, temp_mant)
           else exp_mant_loop value max_exp_value max_mant_value type (temp_exp + 1)
                  (rounded_or_0 (sse2_qos_pol_round value (int_1_shl (temp_exp + 1)) type))
      else (temp_exp, temp_mant))"
  by pat_completeness auto

termination
  by (relation "measure (\<lambda>(value, max_exp_value, max_mant_value, type, temp_exp, temp_mant).
        max_exp_value + 1 - temp_exp)") auto

declare exp_mant_loop.simps [simp del]

definition sse2_qos_convert_value_to_exp_mant_fmt ::
  "nat \<Rightarrow> nat \<Rightarrow> nat \<Rightarrow> sse2_qos_round_type_en \<Rightarrow> nat \<times> nat" where
  "sse2_qos_convert_value_to_exp_mant_fmt value max_exp_value max_mant_value type =
     (let (temp_exp, temp_mant) = exp_mant_loop value max_exp_value max_mant_value type 0 value
      in if temp_exp > max_exp_value then (temp_exp - 1, max_mant_value mod U32)
         else (temp_exp, temp_mant mod U32))"


section \<open>From the configuration to the mantissa and exponent parameters (xlate.c)\<close>

definition cfg_eir_kbps :: "sse2_qos_pol_cfg_params_st \<Rightarrow> nat" where
  "cfg_eir_kbps cfg =
     (if rfc cfg = SSE2_QOS_POLICER_TYPE_1R2C then 0
      else if rfc cfg = SSE2_QOS_POLICER_TYPE_1R3C_RFC_2697 then cir_kbps cfg
      else if rfc cfg = SSE2_QOS_POLICER_TYPE_2R3C_RFC_4115 then u32_sub (eir_kbps cfg) (cir_kbps cfg)
      else eir_kbps cfg)"

definition bump_up :: "nat \<Rightarrow> nat \<Rightarrow> nat" where
  "bump_up rate_kbps rate_hw = (if rate_kbps \<noteq> 0 \<and> rate_hw = 0 then 1 else rate_hw)"

definition sse2_pol_convert_cfg_rates_to_hw ::
  "sse2_qos_pol_cfg_params_st \<Rightarrow> sse2_qos_pol_hw_params_st \<Rightarrow> qos_error + sse2_qos_pol_hw_params_st" where
  "sse2_pol_convert_cfg_rates_to_hw cfg hw =
     (let denom = (SSE2_QOS_POL_TICKS_PER_SEC * 8) div 1000
      in case sse2_qos_pol_round (cir_kbps cfg) denom (rnd_type cfg) of
           Inl rc \<Rightarrow> Inl rc
         | Inr rnd_value \<Rightarrow>
             (let cir_hw = bump_up (cir_kbps cfg) (rnd_value mod U32);
                  eir = cfg_eir_kbps cfg
              in case sse2_qos_pol_round eir denom (rnd_type cfg) of
                   Inl rc \<Rightarrow> Inl rc
                 | Inr rnd_value \<Rightarrow>
                     (let eir_hw = bump_up eir (rnd_value mod U32);
                          hi_rate = (if cir_hw > eir_hw then cir_hw else eir_hw);
                          (exp, hi_mant) =
                            (if cir_hw = 0 \<and> eir_hw = 0 then (SSE2_QOS_POL_RATE_EXP_MAX, 0)
                             else sse2_qos_convert_value_to_exp_mant_fmt hi_rate SSE2_QOS_POL_RATE_EXP_MAX
                                    SSE2_QOS_POL_AVG_RATE_MANT_MAX (rnd_type cfg));
                          hw = (if cir_hw = 0 \<and> eir_hw = 0
                                then hw\<lparr>hw_rfc := IPE_RFC_RFC4115, allow_negative := 0\<rparr> else hw);
                          low_rate = (if hi_rate = eir_hw then cir_hw else eir_hw)
                      in case sse2_qos_pol_round low_rate (u64_shl 1 exp) (rnd_type cfg) of
                           Inl rc \<Rightarrow> Inl rc
                         | Inr rnd_value \<Rightarrow>
                             (let peak = (if hi_rate = eir_hw then hi_mant else rnd_value) mod 65536;
                                  avg = (if hi_rate = eir_hw then rnd_value else hi_mant) mod 65536
                              in Inr (hw\<lparr>rate_exp := exp,
                                        avg_rate_man := bump_up (cir_kbps cfg) avg,
                                        peak_rate_man := bump_up eir peak\<rparr>)))))"

definition sse2_pol_get_bkt_max :: "nat \<Rightarrow> nat \<Rightarrow> nat" where
  "sse2_pol_get_bkt_max rate_hw bkt_max =
     (if rate_hw \<le> RATE64 then u64_sub bkt_max 1
      else if rate_hw \<le> RATE128 then u64_sub (u64_mul bkt_max 2) 2
      else if rate_hw \<le> RATE256 then u64_sub (u64_mul bkt_max 4) 4
      else u64_sub (u64_mul bkt_max 8) 8)"

definition sse2_pol_get_bkt_value :: "nat \<Rightarrow> nat \<Rightarrow> nat" where
  "sse2_pol_get_bkt_value rate_hw byte_value =
     (if rate_hw \<le> RATE64 then byte_value
      else if rate_hw \<le> RATE128 then byte_value div 2
      else if rate_hw \<le> RATE256 then byte_value div 4
      else byte_value div 8)"

definition sse2_pol_rnd_burst_byte_fmt ::
  "nat \<Rightarrow> nat \<Rightarrow> nat \<Rightarrow> nat \<Rightarrow> nat \<Rightarrow> nat \<times> nat \<times> nat" where
  "sse2_pol_rnd_burst_byte_fmt cfg_burst max_exp_value max_mant_value max_bkt_value rate_hw =
     (let bkt_limit_max = u64_shl max_mant_value max_exp_value;
          bkt_max = min (sse2_pol_get_bkt_max rate_hw max_bkt_value) bkt_limit_max;
          cfg_burst = (if cfg_burst = 0 then u64_mul rate_hw SSE2_QOS_POL_DEF_BURST_BYTE else cfg_burst);
          cfg_burst = (if cfg_burst > bkt_max then bkt_max else cfg_burst);
          cfg_burst = (if cfg_burst < SSE2_QOS_POL_MIN_BURST_BYTE then SSE2_QOS_POL_MIN_BURST_BYTE
                       else cfg_burst);
          (exp, mant) = sse2_qos_convert_value_to_exp_mant_fmt cfg_burst max_exp_value max_mant_value
                          SSE2_QOS_ROUND_TO_DOWN;
          rnd_burst = u64_shl mant exp
      in (exp, mant, sse2_pol_get_bkt_value rate_hw rnd_burst mod U32))"

definition sse2_pol_convert_cfg_burst_to_hw ::
  "sse2_qos_pol_cfg_params_st \<Rightarrow> sse2_qos_pol_hw_params_st \<Rightarrow> sse2_qos_pol_hw_params_st" where
  "sse2_pol_convert_cfg_burst_to_hw cfg hw =
     (let rate_hw = u32_shl (avg_rate_man hw) (rate_exp hw);
          (temp_exp, temp_mant, bkt_value) =
            sse2_pol_rnd_burst_byte_fmt (cb_bytes cfg) SSE2_QOS_POL_COMM_BKT_LIMIT_EXP_MAX
              SSE2_QOS_POL_COMM_BKT_LIMIT_MANT_MAX SSE2_QOS_POL_COMM_BKT_MAX rate_hw;
          hw = hw\<lparr>comm_bkt_limit_exp := temp_exp, comm_bkt_limit_man := temp_mant mod 256,
                  comm_bkt := bkt_value\<rparr>
      in if rfc cfg = SSE2_QOS_POLICER_TYPE_1R2C
         then hw\<lparr>extd_bkt_limit_exp := SSE2_QOS_POL_EXTD_BKT_LIMIT_EXP_MAX, extd_bkt_limit_man := 0\<rparr>
         else
           let eb = (if rfc cfg = SSE2_QOS_POLICER_TYPE_1R3C_RFC_2697
                     then u64_add (cb_bytes cfg) (eb_bytes cfg)
                     else if rfc cfg = SSE2_QOS_POLICER_TYPE_2R3C_RFC_4115
                     then u64_sub (eb_bytes cfg) (cb_bytes cfg)
                     else eb_bytes cfg);
               rate_hw = u32_shl (peak_rate_man hw) (rate_exp hw);
               (temp_exp, temp_mant, bkt_value) =
                 sse2_pol_rnd_burst_byte_fmt eb SSE2_QOS_POL_EXTD_BKT_LIMIT_EXP_MAX
                   SSE2_QOS_POL_EXTD_BKT_LIMIT_MANT_MAX SSE2_QOS_POL_EXTD_BKT_MAX rate_hw
           in hw\<lparr>extd_bkt_limit_exp := temp_exp, extd_bkt_limit_man := temp_mant mod 256,
                 extd_bkt := bkt_value\<rparr>)"

definition hw_params_zero :: sse2_qos_pol_hw_params_st where
  "hw_params_zero = \<lparr>hw_rfc = 0, allow_negative = 0, rate_exp = 0, avg_rate_man = 0, peak_rate_man = 0,
     comm_bkt_limit_exp = 0, comm_bkt_limit_man = 0, extd_bkt_limit_exp = 0, extd_bkt_limit_man = 0,
     comm_bkt = 0, extd_bkt = 0\<rparr>"

definition cfg_hw_rfc :: "nat \<Rightarrow> nat option" where
  "cfg_hw_rfc r =
     (if r = SSE2_QOS_POLICER_TYPE_1R2C \<or> r = SSE2_QOS_POLICER_TYPE_2R3C_RFC_4115 then Some IPE_RFC_RFC4115
      else if r = SSE2_QOS_POLICER_TYPE_1R3C_RFC_2697 then Some IPE_RFC_RFC2697
      else if r = SSE2_QOS_POLICER_TYPE_2R3C_RFC_2698 then Some IPE_RFC_RFC2698
      else if r = SSE2_QOS_POLICER_TYPE_2R3C_RFC_MEF5CF1 then Some IPE_RFC_MEF5CF1
      else None)"

definition sse2_pol_convert_cfg_to_hw_params ::
  "sse2_qos_pol_cfg_params_st \<Rightarrow> qos_error + sse2_qos_pol_hw_params_st" where
  "sse2_pol_convert_cfg_to_hw_params cfg =
     (case cfg_hw_rfc (rfc cfg) of
        None \<Rightarrow> Inl EINVAL
      | Some r \<Rightarrow>
          (case sse2_pol_convert_cfg_rates_to_hw cfg (hw_params_zero\<lparr>allow_negative := 1, hw_rfc := r\<rparr>) of
             Inl rc \<Rightarrow> Inl rc
           | Inr hw \<Rightarrow> Inr (sse2_pol_convert_cfg_burst_to_hw cfg hw)))"

definition sse2_qos_convert_pps_to_kbps :: "nat \<Rightarrow> nat" where
  "sse2_qos_convert_pps_to_kbps rate_pps =
     rounded_or_0 (sse2_qos_pol_round (u64_mul (u64_mul rate_pps SSE2_QOS_POLICER_FIXED_PKT_SIZE) 8) 1000
       SSE2_QOS_ROUND_TO_CLOSEST) mod U32"

definition sse2_qos_convert_burst_ms_to_bytes :: "nat \<Rightarrow> nat \<Rightarrow> nat" where
  "sse2_qos_convert_burst_ms_to_bytes burst_ms rate_kbps =
     rounded_or_0 (sse2_qos_pol_round (u64_mul burst_ms rate_kbps) 8 SSE2_QOS_ROUND_TO_CLOSEST) mod U32"

definition sse2_pol_compute_hw_params ::
  "sse2_qos_pol_cfg_params_st option \<Rightarrow> qos_error + sse2_qos_pol_hw_params_st" where
  "sse2_pol_compute_hw_params cfg_ptr =
     (case cfg_ptr of
        None \<Rightarrow> Inl EFAIL
      | Some cfg \<Rightarrow>
          (case sse2_pol_validate_cfg_params cfg of
             Some _ \<Rightarrow> Inl EFAIL
           | None \<Rightarrow>
               (case sse2_pol_convert_cfg_to_hw_params cfg of
                  Inl _ \<Rightarrow> Inl EFAIL
                | Inr hw \<Rightarrow> Inr hw)))"

section \<open>Double arithmetic\<close>

text \<open>
  IEEE 754 binary64 with rounding to nearest even, for the non-negative values in the normal range
  that the policer computes (between \<open>2 ^ (-64)\<close> and \<open>2 ^ 100\<close>): the significand has 53 bits.
\<close>

definition round_half_even :: "rat \<Rightarrow> int" where
  "round_half_even x =
     (let f = \<lfloor>x\<rfloor>; r = x - of_int f
      in if r < 1 / 2 then f else if r > 1 / 2 then f + 1 else if even f then f else f + 1)"

definition pow2 :: "int \<Rightarrow> rat" where
  "pow2 e = (if e \<ge> 0 then 2 ^ nat e else 1 / 2 ^ nat (- e))"

definition f64_exponent :: "rat \<Rightarrow> int" where
  "f64_exponent x =
     (let (n, d) = quotient_of x;
          e = int (floorlog 2 (nat n)) - int (floorlog 2 (nat d)) - 53
      in if x < pow2 (e + 53) then e else e + 1)"

definition f64_fl :: "rat \<Rightarrow> rat" where
  "f64_fl x = (if x \<le> 0 then 0
     else let e = f64_exponent x in of_int (round_half_even (x / pow2 e)) * pow2 e)"

definition f64_of_u64 :: "nat \<Rightarrow> rat" where
  "f64_of_u64 n = f64_fl (of_nat n)"

definition u32_of_f64 :: "rat \<Rightarrow> nat" where
  "u32_of_f64 x = nat \<lfloor>x\<rfloor> mod U32"

section \<open>From the configuration to the data plane policer (xlate.c)\<close>

text \<open>
  \<^verbatim>\<open>__builtin_clz\<close>: leading zero bits of a non-zero 32-bit value. The \<^verbatim>\<open>u32\<close> outputs of
  \<^verbatim>\<open>compute_policer_params\<close> are written into the policer. \<open>hz\<close> is \<^verbatim>\<open>os_cpu_clock_frequency\<close>.
\<close>

definition clz32 :: "nat \<Rightarrow> nat" where
  "clz32 x = 32 - floorlog 2 x"

definition POLICER_TICKS_PER_PERIOD :: nat where "POLICER_TICKS_PER_PERIOD = 2 ^ 17"
definition MAX_RATE_SHIFT :: nat where "MAX_RATE_SHIFT = 10"

definition bytes_per_period :: "nat \<Rightarrow> nat \<Rightarrow> rat" where
  "bytes_per_period hz rate =
     (let period = f64_fl (f64_of_u64 hz / f64_of_u64 POLICER_TICKS_PER_PERIOD)
      in f64_fl (f64_of_u64 rate / period))"

definition scale_shift_of :: "nat \<Rightarrow> nat \<Rightarrow> rat \<Rightarrow> rat \<Rightarrow> nat" where
  "scale_shift_of cur ext cir pir =
     (let m = max cur ext;
          m = max m (u32_shl (u32_of_f64 cir) MAX_RATE_SHIFT);
          m = max m (u32_shl (u32_of_f64 pir) MAX_RATE_SHIFT)
      in clz32 m)"

definition scaled_rate :: "rat \<Rightarrow> nat \<Rightarrow> nat" where
  "scaled_rate bpp scale_shift =
     (let scale_amount = u32_shl 1 scale_shift;
          r = f64_fl (bpp * f64_of_u64 scale_amount);
          r = (if r < 1 then 1 else r)
      in u32_of_f64 r)"

definition compute_policer_params ::
  "nat \<Rightarrow> nat \<Rightarrow> nat \<Rightarrow> policer_read_response_type_st \<Rightarrow> policer_read_response_type_st" where
  "compute_policer_params hz cir_rate pir_rate hw =
     (let internal_cir_bytes_per_period = bytes_per_period hz cir_rate;
          internal_pir_bytes_per_period = bytes_per_period hz pir_rate;
          scale_shift = scale_shift_of (current_limit hw) (extended_limit hw)
                          internal_cir_bytes_per_period internal_pir_bytes_per_period
      in hw\<lparr>scale := scale_shift,
            current_limit := u32_shl (current_limit hw) scale_shift,
            extended_limit := u32_shl (extended_limit hw) scale_shift,
            cir_tokens_per_period := scaled_rate internal_cir_bytes_per_period scale_shift,
            pir_tokens_per_period := scaled_rate internal_pir_bytes_per_period scale_shift\<rparr>)"

definition cap_u32 :: "nat \<Rightarrow> nat" where
  "cap_u32 x = (if x > 4294967295 then 4294967295 else x)"

definition fill_buckets :: "policer_read_response_type_st \<Rightarrow> policer_read_response_type_st" where
  "fill_buckets hw = hw\<lparr>current_bucket := current_limit hw, extended_bucket := extended_limit hw\<rparr>"

text \<open>The result is the return code and the policer, which is written also on the error paths.\<close>

definition x86_pol_compute_hw_params ::
  "nat \<Rightarrow> sse2_qos_pol_cfg_params_st \<Rightarrow> policer_read_response_type_st \<Rightarrow> int \<times> policer_read_response_type_st" where
  "x86_pol_compute_hw_params hz cfg hw =
     (let hw = hw\<lparr>last_update_time := 0, current_limit := cap_u32 (cb_bytes cfg),
                  extended_limit := cap_u32 (eb_bytes cfg)\<rparr>
      in if cir_kbps cfg = 0 \<and> cb_bytes cfg = 0 \<and> eb_bytes cfg = 0
         then (0, hw\<lparr>single_rate := 1, cir_tokens_per_period := 0\<rparr>)
         else if rfc cfg = SSE2_QOS_POLICER_TYPE_1R2C \<or> rfc cfg = SSE2_QOS_POLICER_TYPE_1R3C_RFC_2697
         then (let hw = hw\<lparr>single_rate := 1\<rparr>
               in if rfc cfg = SSE2_QOS_POLICER_TYPE_1R2C \<and> eb_bytes cfg \<noteq> 0 then (- 1, hw)
                  else if cir_kbps cfg = 0 \<or> eir_kbps cfg \<noteq> 0 \<or> (cb_bytes cfg = 0 \<and> eb_bytes cfg = 0)
                  then (- 1, hw)
                  else (0, fill_buckets (compute_policer_params hz (u64_mul (cir_kbps cfg) 125) 0 hw)))
         else if rfc cfg = SSE2_QOS_POLICER_TYPE_2R3C_RFC_2698 \<or> rfc cfg = SSE2_QOS_POLICER_TYPE_2R3C_RFC_4115
         then if cir_kbps cfg = 0 \<or> eir_kbps cfg = 0 \<or> eir_kbps cfg < cir_kbps cfg \<or>
                 cb_bytes cfg = 0 \<or> eb_bytes cfg = 0
              then (- 1, hw)
              else (0, fill_buckets (compute_policer_params hz (u64_mul (cir_kbps cfg) 125)
                         (u64_mul (eir_kbps cfg) 125) hw))
         else (- 1, hw))"

definition policer_zero :: policer_read_response_type_st where
  "policer_zero = \<lparr>lock = 0, single_rate = 0, color_aware = 0, scale = 0, action = [0, 0, 0],
     mark_dscp = [0, 0, 0], cir_tokens_per_period = 0, pir_tokens_per_period = 0, current_limit = 0,
     current_bucket = 0, extended_limit = 0, extended_bucket = 0, last_update_time = 0\<rparr>"

definition action_zero :: sse2_qos_pol_action_params_st where
  "action_zero = \<lparr>action_type = 0, dscp = 0\<rparr>"

definition cfg_zero :: sse2_qos_pol_cfg_params_st where
  "cfg_zero = \<lparr>cir_kbps = 0, eir_kbps = 0, cb_bytes = 0, eb_bytes = 0, rate_type = SSE2_QOS_RATE_KBPS,
     rnd_type = SSE2_QOS_ROUND_TO_CLOSEST, rfc = 0, cfg_color_aware = 0, overwrite_bucket = 0,
     cfg_current_bucket = 0, cfg_extended_bucket = 0, conform_action = action_zero,
     exceed_action = action_zero, violate_action = action_zero\<rparr>"

text \<open>The \<^verbatim>\<open>switch (cfg->rate_type)\<close> of \<^verbatim>\<open>sse2_pol_logical_2_physical\<close>.\<close>

definition cfg_to_kbps :: "sse2_qos_pol_cfg_params_st \<Rightarrow> sse2_qos_pol_cfg_params_st option" where
  "cfg_to_kbps cfg =
     (case rate_type cfg of
        SSE2_QOS_RATE_KBPS \<Rightarrow>
          Some (cfg_zero\<lparr>cir_kbps := cir_kbps cfg, eir_kbps := eir_kbps cfg,
                         cb_bytes := cb_bytes cfg, eb_bytes := eb_bytes cfg\<rparr>)
      | SSE2_QOS_RATE_PPS \<Rightarrow>
          (let cir = sse2_qos_convert_pps_to_kbps (cir_kbps cfg);
               eir = sse2_qos_convert_pps_to_kbps (eir_kbps cfg)
           in Some (cfg_zero\<lparr>cir_kbps := cir, eir_kbps := eir,
                         cb_bytes := sse2_qos_convert_burst_ms_to_bytes (cb_bytes cfg mod U32) cir,
                         eb_bytes := sse2_qos_convert_burst_ms_to_bytes (eb_bytes cfg mod U32) eir\<rparr>))
      | SSE2_QOS_RATE_INVALID \<Rightarrow> None)"

definition sse2_pol_logical_2_physical ::
  "nat \<Rightarrow> sse2_qos_pol_cfg_params_st option \<Rightarrow> int \<times> policer_read_response_type_st" where
  "sse2_pol_logical_2_physical hz cfg_ptr =
     (case cfg_ptr of
        None \<Rightarrow> (- 1, policer_zero)
      | Some cfg \<Rightarrow>
          (case cfg_to_kbps cfg of
             None \<Rightarrow> (- 1, policer_zero)
           | Some kbps_cfg \<Rightarrow>
               (let kbps_cfg = kbps_cfg\<lparr>rate_type := SSE2_QOS_RATE_KBPS, rnd_type := rnd_type cfg,
                                        rfc := rfc cfg\<rparr>;
                    phys = policer_zero\<lparr>
                      action := [action_type (conform_action cfg), action_type (exceed_action cfg),
                                 action_type (violate_action cfg)],
                      mark_dscp := [dscp (conform_action cfg), dscp (exceed_action cfg),
                                    dscp (violate_action cfg)],
                      color_aware := cfg_color_aware cfg\<rparr>;
                    (rc, phys) = x86_pol_compute_hw_params hz kbps_cfg phys
                in if rc = - 1 then (rc, phys)
                   else if overwrite_bucket cfg \<noteq> 0
                   then (0, phys\<lparr>current_bucket := cfg_current_bucket cfg,
                                 extended_bucket := cfg_extended_bucket cfg\<rparr>)
                   else (0, phys))))"

section \<open>Back to the configuration (xlate.c)\<close>

definition sse2_qos_convert_pol_bucket_to_hw_fmt ::
  "policer_read_response_type_st \<Rightarrow> sse2_qos_pol_hw_params_st" where
  "sse2_qos_convert_pol_bucket_to_hw_fmt bkt = hw_params_zero"

definition hw_cfg_rfc :: "sse2_qos_pol_hw_params_st \<Rightarrow> nat option" where
  "hw_cfg_rfc hw =
     (if hw_rfc hw = IPE_RFC_RFC4115 \<and> u32_shl (peak_rate_man hw) (rate_exp hw) = 0 \<and>
         extd_bkt_limit_man hw = 0
      then Some SSE2_QOS_POLICER_TYPE_1R2C
      else if hw_rfc hw = IPE_RFC_RFC2697 then Some SSE2_QOS_POLICER_TYPE_1R3C_RFC_2697
      else if hw_rfc hw = IPE_RFC_RFC2698 then Some SSE2_QOS_POLICER_TYPE_2R3C_RFC_2698
      else if hw_rfc hw = IPE_RFC_RFC4115 then Some SSE2_QOS_POLICER_TYPE_2R3C_RFC_4115
      else if hw_rfc hw = IPE_RFC_MEF5CF1 then Some SSE2_QOS_POLICER_TYPE_2R3C_RFC_MEF5CF1
      else None)"

definition man_exp_to_kbps :: "nat \<Rightarrow> nat \<Rightarrow> nat" where
  "man_exp_to_kbps man rexp =
     (u64_mul (u64_mul (u64_shl man rexp) 8) SSE2_QOS_POL_TICKS_PER_SEC div 1000) mod U32"

definition sse2_pol_convert_hw_to_cfg_params ::
  "sse2_qos_pol_hw_params_st \<Rightarrow> sse2_qos_pol_cfg_params_st \<Rightarrow> qos_error + sse2_qos_pol_cfg_params_st" where
  "sse2_pol_convert_hw_to_cfg_params hw cfg =
     (case hw_cfg_rfc hw of
        None \<Rightarrow> Inl EINVAL
      | Some r \<Rightarrow>
          (let cir = man_exp_to_kbps (avg_rate_man hw) (rate_exp hw);
               eir = man_exp_to_kbps (peak_rate_man hw) (rate_exp hw);
               cb = u64_shl (comm_bkt_limit_man hw) (comm_bkt_limit_exp hw);
               eb = u64_shl (extd_bkt_limit_man hw) (extd_bkt_limit_exp hw);
               (eir, eb) =
                 (if r = SSE2_QOS_POLICER_TYPE_1R3C_RFC_2697 then (0, u64_sub eb cb)
                  else if r = SSE2_QOS_POLICER_TYPE_2R3C_RFC_4115 then (u32_add eir cir, u64_add eb cb)
                  else (eir, eb))
           in Inr (cfg\<lparr>rfc := r, cir_kbps := cir, eir_kbps := eir, cb_bytes := cb, eb_bytes := eb,
                      rate_type := SSE2_QOS_RATE_KBPS, overwrite_bucket := 0,
                      cfg_current_bucket := comm_bkt hw, cfg_extended_bucket := extd_bkt hw\<rparr>)))"

definition sse2_qos_convert_kbps_to_pps :: "nat \<Rightarrow> nat" where
  "sse2_qos_convert_kbps_to_pps rate_kbps =
     rounded_or_0 (sse2_qos_pol_round (u64_mul rate_kbps 1000) (SSE2_QOS_POLICER_FIXED_PKT_SIZE * 8)
       SSE2_QOS_ROUND_TO_CLOSEST) mod U32"

definition sse2_qos_convert_burst_bytes_to_ms :: "nat \<Rightarrow> nat \<Rightarrow> nat" where
  "sse2_qos_convert_burst_bytes_to_ms burst_bytes rate_kbps =
     rounded_or_0 (sse2_qos_pol_round (u64_mul burst_bytes 8) rate_kbps SSE2_QOS_ROUND_TO_CLOSEST) mod U32"

definition sse2_pol_physical_2_logical ::
  "policer_read_response_type_st option \<Rightarrow> sse2_qos_pol_cfg_params_st \<Rightarrow> int \<times> sse2_qos_pol_cfg_params_st" where
  "sse2_pol_physical_2_logical phys_ptr cfg =
     (case phys_ptr of
        None \<Rightarrow> (- 1, cfg)
      | Some phys \<Rightarrow>
          (case sse2_pol_convert_hw_to_cfg_params (sse2_qos_convert_pol_bucket_to_hw_fmt phys) cfg_zero of
             Inl _ \<Rightarrow> (- 1, cfg)
           | Inr k \<Rightarrow>
               (let rest = (\<lambda>c. c\<lparr>rnd_type := rnd_type k, rfc := rfc k,
                      overwrite_bucket := overwrite_bucket k,
                      cfg_current_bucket := cfg_current_bucket k,
                      cfg_extended_bucket := cfg_extended_bucket k\<rparr>)
                in case rate_type cfg of
                     SSE2_QOS_RATE_KBPS \<Rightarrow>
                       (0, rest (cfg\<lparr>cir_kbps := cir_kbps k, eir_kbps := eir_kbps k,
                                     cb_bytes := cb_bytes k, eb_bytes := eb_bytes k\<rparr>))
                   | SSE2_QOS_RATE_PPS \<Rightarrow>
                       (0, rest (cfg\<lparr>cir_kbps := sse2_qos_convert_kbps_to_pps (cir_kbps k),
                              eir_kbps := sse2_qos_convert_kbps_to_pps (eir_kbps k),
                              cb_bytes := sse2_qos_convert_burst_bytes_to_ms (cb_bytes k) (cir_kbps k),
                              eb_bytes := sse2_qos_convert_burst_bytes_to_ms (eb_bytes k) (eir_kbps k)\<rparr>))
                   | SSE2_QOS_RATE_INVALID \<Rightarrow> (- 1, cfg))))"

end
