(* ===== verification/Policer_Params.thy ===== *)
theory Policer_Params
  imports Policer_Spec
begin

text \<open>
  The configuration side of the policer: rounding of doubles, the scaling of
  \<^verbatim>\<open>compute_policer_params\<close>, the exponent and mantissa format, the unit conversions and the
  acceptance of configurations.
\<close>

section \<open>Doubles\<close>

lemma pow2_powi: "pow2 e = 2 powi e"
  by (simp add: pow2_def power_int_def power_divide field_simps)

lemma pow2_pos [simp]: "0 < pow2 e"
  by (simp add: pow2_def)

lemma pow2_ne [simp]: "pow2 e \<noteq> 0"
  by (simp add: pow2_def)

lemma pow2_add: "pow2 (a + b) = pow2 a * pow2 b"
  by (simp add: pow2_powi power_int_add)

lemma pow2_nat: "pow2 (int n) = 2 ^ n"
  by (simp add: pow2_def)

lemma pow2_less_iff: "pow2 a < pow2 b \<longleftrightarrow> a < b"
  by (metis (no_types, opaque_lifting) leD le_less_linear one_less_numeral_iff pow2_powi power_int_increasing
      power_int_strict_increasing semiring_norm(76) less_imp_le)

lemma floorlog2_bounds: "0 < n \<Longrightarrow> pow2 (int (floorlog 2 n) - 1) \<le> of_nat n \<and> of_nat n < pow2 (int (floorlog 2 n))"
proof -
  assume n: "0 < n"
  let ?l = "floorlog 2 n"
  have b: "2 ^ (?l - 1) \<le> n" "n < 2 ^ ?l" using floorlog_bounds [of n 2] n by auto
  have "0 < ?l" using n b(2) by (cases ?l) auto
  then have l: "int ?l - 1 = int (?l - 1)" by simp
  have "(of_nat (2 ^ (?l - 1)) :: rat) \<le> of_nat n" "(of_nat n :: rat) < of_nat (2 ^ ?l)"
    using b by (simp_all only: of_nat_le_iff of_nat_less_iff)
  then show ?thesis unfolding l pow2_nat by simp
qed

lemma f64_exponent_bounds:
  assumes "0 < x"
  shows "pow2 (f64_exponent x + 52) \<le> x" and "x < pow2 (f64_exponent x + 53)"
proof -
  obtain n d where q: "quotient_of x = (n, d)" by (cases "quotient_of x")
  have d: "0 < d" using quotient_of_denom_pos [OF q] .
  have x: "x = of_int n / of_int d" using quotient_of_div [OF q] .
  have n: "0 < n" using assms d by (simp add: x zero_less_divide_iff)
  let ?ln = "int (floorlog 2 (nat n))" and ?ld = "int (floorlog 2 (nat d))"
  have N: "pow2 (?ln - 1) \<le> of_int n" "of_int n < pow2 ?ln"
    using floorlog2_bounds [of "nat n"] n by (simp_all add: of_nat_nat)
  have D: "pow2 (?ld - 1) \<le> of_int d" "of_int d < pow2 ?ld"
    using floorlog2_bounds [of "nat d"] d by (simp_all add: of_nat_nat)
  let ?e = "?ln - ?ld - 53"
  have "pow2 (?e + 52) * of_int d \<le> pow2 (?e + 52) * pow2 ?ld" using D by simp
  also have "\<dots> = pow2 (?ln - 1)" by (simp flip: pow2_add)
  also have "\<dots> \<le> of_int n" by (rule N)
  finally have lo: "pow2 (?e + 52) \<le> x" using d by (simp add: x field_simps)
  have "of_int n < pow2 ?ln" by (rule N)
  also have "\<dots> = pow2 (?e + 54) * pow2 (?ld - 1)" by (simp flip: pow2_add)
  also have "\<dots> \<le> pow2 (?e + 54) * of_int d" using D by simp
  finally have hi: "x < pow2 (?e + 54)" using d by (simp add: x field_simps)
  have "f64_exponent x = (if x < pow2 (?e + 53) then ?e else ?e + 1)"
    by (simp add: f64_exponent_def q)
  then show "pow2 (f64_exponent x + 52) \<le> x" and "x < pow2 (f64_exponent x + 53)"
    using lo hi by (auto simp: add.commute add.left_commute)
qed

lemma round_half_even_err: "\<bar>of_int (round_half_even y) - y\<bar> \<le> 1 / 2"
proof -
  have f: "of_int \<lfloor>y\<rfloor> \<le> y" "y < of_int \<lfloor>y\<rfloor> + 1" by linarith+
  consider "y - of_int \<lfloor>y\<rfloor> < 1 / 2" | "y - of_int \<lfloor>y\<rfloor> > 1 / 2" | "y - of_int \<lfloor>y\<rfloor> = 1 / 2" by linarith
  then show ?thesis
    by cases (use f in \<open>auto simp: round_half_even_def Let_def abs_le_iff\<close>)
qed

lemma round_half_even_int [simp]: "round_half_even (of_int k) = k"
  by (simp add: round_half_even_def)

lemma f64_fl_err:
  assumes "0 \<le> x"
  shows "\<bar>f64_fl x - x\<bar> \<le> x / 2 ^ 53"
proof (cases "x = 0")
  case False
  then have x: "0 < x" using assms by simp
  let ?e = "f64_exponent x"
  have "f64_fl x - x = (of_int (round_half_even (x / pow2 ?e)) - x / pow2 ?e) * pow2 ?e"
    using x pow2_pos [of ?e] by (simp add: f64_fl_def Let_def left_diff_distrib)
  then have "\<bar>f64_fl x - x\<bar> = \<bar>of_int (round_half_even (x / pow2 ?e)) - x / pow2 ?e\<bar> * pow2 ?e"
    by (simp add: abs_mult abs_of_pos)
  also have "\<dots> \<le> 1 / 2 * pow2 ?e"
    by (rule mult_right_mono [OF round_half_even_err]) (simp add: less_imp_le)
  also have "\<dots> = pow2 (?e + 52) / 2 ^ 53" by (simp add: pow2_add pow2_nat [of 52, simplified])
  also have "\<dots> \<le> x / 2 ^ 53" using f64_exponent_bounds(1) [OF x] by (simp add: divide_right_mono)
  finally show ?thesis .
qed (simp add: f64_fl_def)

lemma f64_fl_exact:
  assumes x: "x = of_int m * pow2 k" and m: "0 \<le> m" "m < 2 ^ 53"
  shows "f64_fl x = x"
proof (cases "m = 0")
  case True
  then show ?thesis by (simp add: x f64_fl_def)
next
  case False
  then have pos: "0 < x" using m by (simp add: x)
  let ?e = "f64_exponent x"
  have "pow2 (?e + 52) \<le> x" by (rule f64_exponent_bounds(1) [OF pos])
  also have "x < pow2 53 * pow2 k"
  proof -
    have "(of_int m :: rat) < of_int (2 ^ 53)" using m by (simp only: of_int_less_iff)
    then show ?thesis by (simp add: x pow2_nat [of 53, simplified])
  qed
  finally have "?e + 52 < 53 + k" by (simp add: pow2_less_iff flip: pow2_add)
  then have k: "k = ?e + int (nat (k - ?e))" by simp
  have "x / pow2 ?e = of_int m * 2 ^ nat (k - ?e)"
  proof -
    have "pow2 k = pow2 ?e * 2 ^ nat (k - ?e)" by (subst k) (simp only: pow2_add pow2_nat)
    then have "of_int m * pow2 k / pow2 ?e = of_int m * 2 ^ nat (k - ?e)" by simp
    then show ?thesis by (simp only: x)
  qed
  also have "\<dots> = of_int (m * 2 ^ nat (k - ?e))" by simp
  finally have q: "x / pow2 ?e = of_int (m * 2 ^ nat (k - ?e))" .
  then have "round_half_even (x / pow2 ?e) = m * 2 ^ nat (k - ?e)" by (simp only: round_half_even_int)
  moreover have "of_int (m * 2 ^ nat (k - ?e)) * pow2 ?e = x"
    by (subst q [symmetric]) simp
  ultimately show ?thesis using pos by (simp add: f64_fl_def Let_def)
qed

lemma f64_of_u64_exact: "n < 2 ^ 53 \<Longrightarrow> f64_of_u64 n = of_nat n"
  unfolding f64_of_u64_def
  by (rule f64_fl_exact [of _ "int n" 0]) (simp_all add: pow2_def)

lemma f64_fl_form: "\<exists>m k. f64_fl x = of_int m * pow2 k \<and> 0 \<le> m \<and> m \<le> 2 ^ 53"
proof (cases "x \<le> 0")
  case True
  then have "f64_fl x = of_int 0 * pow2 0" by (simp add: f64_fl_def)
  then show ?thesis by (metis order_refl zero_le_numeral zero_le_power)
next
  case False
  let ?e = "f64_exponent x"
  let ?m = "round_half_even (x / pow2 ?e)"
  have "0 < x / pow2 ?e" using False by simp
  moreover have "x / pow2 ?e < 2 ^ 53"
    using f64_exponent_bounds(2) [of x] False pow2_pos [of ?e]
    by (simp add: pow2_add pow2_nat [of 53, simplified] field_simps)
  ultimately have "(- 1 :: rat) < of_int ?m" "(of_int ?m :: rat) < 2 ^ 53 + 1"
    using round_half_even_err [of "x / pow2 ?e", unfolded abs_le_iff] by linarith+
  then have "- 1 < ?m" "(of_int ?m :: rat) < of_int (2 ^ 53 + 1)" by simp_all
  then have "- 1 < ?m" "?m < 2 ^ 53 + 1" by (simp_all only: of_int_less_iff)
  then show ?thesis using False by (intro exI [of _ ?m] exI [of _ ?e]) (auto simp: f64_fl_def Let_def)
qed

lemma f64_fl_scale: "f64_fl (f64_fl x * 2 ^ s) = f64_fl x * 2 ^ s"
proof -
  obtain m k where f: "f64_fl x = of_int m * pow2 k" "0 \<le> m" "m \<le> 2 ^ 53" using f64_fl_form by blast
  show ?thesis
  proof (cases "m = 2 ^ 53")
    case True
    then have "f64_fl x * 2 ^ s = of_int 1 * pow2 (k + 53 + int s)"
      by (simp add: f pow2_add pow2_nat pow2_nat [of 53, simplified])
    then show ?thesis by (rule f64_fl_exact) auto
  next
    case False
    then have "f64_fl x * 2 ^ s = of_int m * pow2 (k + int s)" by (simp add: f pow2_add pow2_nat)
    then show ?thesis using f False by (intro f64_fl_exact) auto
  qed
qed

lemma f64_fl_nonneg: "0 \<le> f64_fl x"
  using f64_fl_form [of x] by (auto simp: less_imp_le)

section \<open>Scaling\<close>

lemma bytes_per_period_fl:
  assumes "0 < hz" "hz < 2 ^ 53" "r < 2 ^ 53"
  shows "bytes_per_period hz r = f64_fl (of_nat r * 2 ^ 17 / of_nat hz)"
proof -
  have t: "f64_of_u64 POLICER_TICKS_PER_PERIOD = 2 ^ 17"
    by (subst f64_of_u64_exact) (simp_all add: POLICER_TICKS_PER_PERIOD_def)
  have "f64_fl (of_nat hz / 2 ^ 17) = of_nat hz / 2 ^ 17"
    by (rule f64_fl_exact [of _ "int hz" "- 17"]) (use assms in \<open>simp_all add: pow2_def\<close>)
  then have "bytes_per_period hz r = f64_fl (of_nat r / (of_nat hz / 2 ^ 17))"
    unfolding bytes_per_period_def Let_def f64_of_u64_exact [OF assms(2)] f64_of_u64_exact [OF assms(3)] t
    by (simp only:)
  then show ?thesis by (simp only: divide_divide_eq_right)
qed

lemma clz32_bounds:
  assumes "0 < m" "m < U32"
  shows "m * 2 ^ clz32 m < U32" and "clz32 m \<le> 31"
proof -
  let ?l = "floorlog 2 m"
  have b: "2 ^ (?l - 1) \<le> m" "m < 2 ^ ?l" using floorlog_bounds [of m 2] assms by auto
  have l0: "0 < ?l" using b assms by (cases ?l) auto
  have "(2::nat) ^ (?l - 1) < 2 ^ 32" using b assms by simp
  then have "?l - 1 < 32" by (rule power_less_imp_less_exp [rotated]) simp
  then have l: "?l \<le> 32" by simp
  have "m * 2 ^ (32 - ?l) < 2 ^ ?l * 2 ^ (32 - ?l)" using b(2) by simp
  also have "\<dots> = U32" using l by (simp flip: power_add)
  finally show "m * 2 ^ clz32 m < U32" by (simp add: clz32_def)
  show "clz32 m \<le> 31" using l0 by (simp add: clz32_def)
qed

lemma scaled_rate_fl:
  assumes "s \<le> 31"
  shows "scaled_rate (f64_fl x) s = nat \<lfloor>max 1 (f64_fl x * 2 ^ s)\<rfloor> mod U32"
proof -
  have "(2::nat) ^ s \<le> 2 ^ 31" using assms by (rule power_increasing) simp
  then have a: "u32_shl 1 s = 2 ^ s" by (simp add: u32_shl_def)
  have "f64_of_u64 (2 ^ s) = 2 ^ s"
    using \<open>(2::nat) ^ s \<le> 2 ^ 31\<close> by (subst f64_of_u64_exact) auto
  then have "f64_fl (f64_fl x * f64_of_u64 (u32_shl 1 s)) = f64_fl x * 2 ^ s"
    by (simp only: a f64_fl_scale)
  then show ?thesis unfolding scaled_rate_def Let_def u32_of_f64_def by (simp add: max_def not_less)
qed

text \<open>
  The rate of one bucket: the scale leaves the scaled rate within its 32 bits, below \<open>2 ^ 22\<close> unless
  the rate is below a byte per period, and the truncation loses less than one token.
\<close>

lemma scaled_rate_ok:
  assumes b: "b = f64_fl x" and small: "b < 2 ^ 22"
    and s: "s \<le> 31" and fits: "u32_shl (u32_of_f64 b) MAX_RATE_SHIFT * 2 ^ s < U32"
  shows "1 \<le> scaled_rate b s" and "of_nat (scaled_rate b s) \<le> max 1 (b * 2 ^ s)"
    and "b * 2 ^ s < of_nat (scaled_rate b s) + 1" and "1 \<le> b \<Longrightarrow> scaled_rate b s < 2 ^ 22"
proof -
  let ?t = "nat \<lfloor>b\<rfloor>"
  have b0: "0 \<le> b" using b f64_fl_nonneg by simp
  have t22: "?t < 2 ^ 22" using small b0 by (simp add: nat_less_iff floor_less_iff)
  have tb: "of_nat ?t \<le> b" "b < of_nat ?t + 1" using b0 floor_correct [of b] by (simp_all add: of_nat_nat)
  have sh: "u32_shl (u32_of_f64 b) MAX_RATE_SHIFT = ?t * 2 ^ 10"
    using t22 by (simp add: u32_of_f64_def u32_shl_def MAX_RATE_SHIFT_def)
  have big: "b * 2 ^ s < 2 ^ 22" if "1 \<le> b"
  proof -
    have t1: "1 \<le> ?t" using that by (simp add: le_nat_iff le_floor_iff)
    have "2 ^ 10 * 2 ^ s \<le> ?t * 2 ^ 10 * 2 ^ s" using t1 by simp
    also have "\<dots> < U32" using fits sh by simp
    finally have "(2::nat) ^ (10 + s) < 2 ^ 32" by (simp add: power_add)
    then have "10 + s < 32" by (rule power_less_imp_less_exp [rotated]) simp
    then have s22: "s < 22" by simp
    have u: "(U32::nat) = 2 ^ (22 - s) * (2 ^ 10 * 2 ^ s)" using s22 by (simp flip: power_add)
    have "?t * (2 ^ 10 * 2 ^ s) < 2 ^ (22 - s) * (2 ^ 10 * 2 ^ s)"
      using fits unfolding sh u [symmetric] by (simp add: mult.assoc)
    then have "?t < 2 ^ (22 - s)" by simp
    then have "?t + 1 \<le> 2 ^ (22 - s)" by linarith
    then have "(of_nat (?t + 1) :: rat) \<le> of_nat (2 ^ (22 - s))" by (simp only: of_nat_le_iff)
    then have "b < 2 ^ (22 - s)" using tb by simp
    then have "b * 2 ^ s < 2 ^ (22 - s) * 2 ^ s" by simp
    also have "\<dots> = (2 ^ 22 :: rat)" using s22 by (simp flip: power_add)
    finally show ?thesis .
  qed
  have "b * 2 ^ s < 2 ^ 32"
  proof (cases "1 \<le> b")
    case False
    then have "b * 2 ^ s \<le> 1 * 2 ^ s" by (intro mult_right_mono) auto
    also have "\<dots> \<le> (2 ^ 31 :: rat)" using s power_increasing [of s 31 "2 :: rat"] by simp
    finally show ?thesis by simp
  qed (use big in simp)
  let ?r = "max 1 (b * 2 ^ s)"
  have r: "0 \<le> ?r" "?r < 2 ^ 32" using \<open>b * 2 ^ s < 2 ^ 32\<close> by auto
  then have "nat \<lfloor>?r\<rfloor> < U32" by (simp add: nat_less_iff floor_less_iff)
  then have e: "scaled_rate b s = nat \<lfloor>?r\<rfloor>" using scaled_rate_fl [OF s, of x] by (simp add: b)
  have f: "of_nat (nat \<lfloor>?r\<rfloor>) \<le> ?r" "?r < of_nat (nat \<lfloor>?r\<rfloor>) + 1"
    using r floor_correct [of ?r] by (simp_all add: of_nat_nat)
  show "1 \<le> scaled_rate b s" unfolding e by (simp add: le_nat_iff le_floor_iff)
  show "of_nat (scaled_rate b s) \<le> max 1 (b * 2 ^ s)" unfolding e by (rule f(1))
  show "b * 2 ^ s < of_nat (scaled_rate b s) + 1" unfolding e using f(2) by simp
  show "scaled_rate b s < 2 ^ 22" if "1 \<le> b"
  proof -
    have "?r < 2 ^ 22" using big [OF that] by simp
    then show ?thesis unfolding e using r by (simp add: nat_less_iff floor_less_iff)
  qed
qed

lemma scale_shift_fits:
  fixes c p :: rat and cur ext :: nat
  assumes "cur < U32" "ext < U32" "0 < max cur ext"
  defines "s \<equiv> scale_shift_of cur ext c p"
  shows "s \<le> 31" and "cur * 2 ^ s < U32" and "ext * 2 ^ s < U32"
    and "u32_shl (u32_of_f64 c) MAX_RATE_SHIFT * 2 ^ s < U32"
    and "u32_shl (u32_of_f64 p) MAX_RATE_SHIFT * 2 ^ s < U32"
proof -
  let ?c = "u32_shl (u32_of_f64 c) MAX_RATE_SHIFT" and ?p = "u32_shl (u32_of_f64 p) MAX_RATE_SHIFT"
  let ?m = "max (max (max cur ext) ?c) ?p"
  have s: "s = clz32 ?m" by (simp add: s_def scale_shift_of_def Let_def)
  have m: "0 < ?m" "?m < U32" using assms(1-3) by (auto simp: less_max_iff_disj)
  have le: "x * 2 ^ s < U32" if "x \<le> ?m" for x
    using mult_le_mono1 [OF that] clz32_bounds(1) [OF m] le_less_trans unfolding s by blast
  show "s \<le> 31" using clz32_bounds(2) [OF m] s by simp
  show "cur * 2 ^ s < U32" and "ext * 2 ^ s < U32" and "?c * 2 ^ s < U32" and "?p * 2 ^ s < U32"
    by (rule le; simp)+
qed

section \<open>Properties of the configuration\<close>

text \<open>
  Scaling keeps the configuration. For rates below \<open>2 ^ 21\<close> bytes per period and a non-zero burst
  the scaled limits are exactly the bursts shifted by the scale and keep their 32 bits; the scaled
  rates are at least one token, exceed the true scaled rate by no more than the rounding of one
  double division, fall short of it by less than one token beyond that rounding, and are below
  \<open>2 ^ 22\<close> whenever the rate is at least one byte per period.
\<close>

theorem policer_scaling_exact:
  assumes hz: "0 < hz" "hz < 2 ^ 53"
    and rates: "cir < 2 ^ 53" "pir < 2 ^ 53" "cir * 2 ^ 17 < 2 ^ 21 * hz" "pir * 2 ^ 17 < 2 ^ 21 * hz"
    and lims: "current_limit hw < U32" "extended_limit hw < U32"
      "0 < max (current_limit hw) (extended_limit hw)"
  shows "let p = compute_policer_params hz cir pir hw;
      scaled = (\<lambda>r. of_nat r * 2 ^ 17 / of_nat hz * 2 ^ scale p :: rat)
    in scale p \<le> 31 \<and> current_limit p = current_limit hw * 2 ^ scale p \<and>
       extended_limit p = extended_limit hw * 2 ^ scale p \<and>
       current_limit p < U32 \<and> extended_limit p < U32 \<and>
       (\<forall>(r, k) \<in> {(cir, cir_tokens_per_period p), (pir, pir_tokens_per_period p)}.
          1 \<le> k \<and> of_nat k \<le> max 1 (scaled r * (1 + 1 / 2 ^ 53)) \<and>
          scaled r * (1 - 1 / 2 ^ 53) < of_nat k + 1 \<and>
          (1 \<le> bytes_per_period hz r \<longrightarrow> k < 2 ^ 22))"
proof -
  let ?b = "bytes_per_period hz"
  define s where "s = scale_shift_of (current_limit hw) (extended_limit hw) (?b cir) (?b pir)"
  note fit = scale_shift_fits [OF lims, where c = "?b cir" and p = "?b pir", folded s_def]
  have rate: "1 \<le> scaled_rate (?b r) s \<and>
      (of_nat (scaled_rate (?b r) s) :: rat) \<le> max 1 (of_nat r * 2 ^ 17 / of_nat hz * 2 ^ s * (1 + 1 / 2 ^ 53)) \<and>
      (of_nat r :: rat) * 2 ^ 17 / of_nat hz * 2 ^ s * (1 - 1 / 2 ^ 53) < of_nat (scaled_rate (?b r) s) + 1 \<and>
      (1 \<le> ?b r \<longrightarrow> scaled_rate (?b r) s < 2 ^ 22)"
    if r: "r < 2 ^ 53" "r * 2 ^ 17 < 2 ^ 21 * hz"
      and f: "u32_shl (u32_of_f64 (?b r)) MAX_RATE_SHIFT * 2 ^ s < U32" for r
  proof -
    define x :: rat where "x = of_nat r * 2 ^ 17 / of_nat hz"
    have b: "?b r = f64_fl x" using bytes_per_period_fl [OF hz r(1)] by (simp add: x_def)
    have x0: "0 \<le> x" by (simp add: x_def)
    have "(of_nat (r * 2 ^ 17) :: rat) < of_nat (2 ^ 21 * hz)" using r(2) by (simp only: of_nat_less_iff)
    then have x21: "x < 2 ^ 21" using hz by (simp add: x_def divide_less_eq)
    have err: "?b r \<le> x * (1 + 1 / 2 ^ 53)" "x * (1 - 1 / 2 ^ 53) \<le> ?b r"
      using f64_fl_err [OF x0] unfolding b abs_le_iff by (simp_all add: algebra_simps)
    have small: "?b r < 2 ^ 22" using err(1) x21 by simp
    note ok = scaled_rate_ok [OF b small fit(1) f]
    have "?b r * 2 ^ s \<le> x * (1 + 1 / 2 ^ 53) * 2 ^ s" "x * (1 - 1 / 2 ^ 53) * 2 ^ s \<le> ?b r * 2 ^ s"
      using err by (intro mult_right_mono; simp)+
    then have e: "?b r * 2 ^ s \<le> x * 2 ^ s * (1 + 1 / 2 ^ 53)" "x * 2 ^ s * (1 - 1 / 2 ^ 53) \<le> ?b r * 2 ^ s"
      by (simp_all only: mult.assoc mult.commute mult.left_commute)
    have "max 1 (?b r * 2 ^ s) \<le> max 1 (x * 2 ^ s * (1 + 1 / 2 ^ 53))" using e(1) by (rule max.mono [OF order_refl])
    then have "of_nat (scaled_rate (?b r) s) \<le> max 1 (x * 2 ^ s * (1 + 1 / 2 ^ 53))"
      using ok(2) by (rule order_trans [rotated])
    moreover have "x * 2 ^ s * (1 - 1 / 2 ^ 53) < of_nat (scaled_rate (?b r) s) + 1"
      using e(2) ok(3) by (rule le_less_trans)
    ultimately show ?thesis using ok(1,4) unfolding x_def by blast
  qed
  have p: "compute_policer_params hz cir pir hw = hw\<lparr>scale := s,
      current_limit := u32_shl (current_limit hw) s, extended_limit := u32_shl (extended_limit hw) s,
      cir_tokens_per_period := scaled_rate (?b cir) s, pir_tokens_per_period := scaled_rate (?b pir) s\<rparr>"
    by (simp add: compute_policer_params_def Let_def s_def)
  show ?thesis
    using fit(1-3) rate [OF rates(1,3) fit(4)] rate [OF rates(2,4) fit(5)]
    unfolding p Let_def by (simp add: u32_shl_small)
qed

text \<open>10 Mbit/s committed, 20 Mbit/s peak, on a 2.4 GHz processor.\<close>

theorem policer_scaling_exact_witness:
  "let hw = policer_zero\<lparr>current_limit := 150000, extended_limit := 300000\<rparr>;
       p = compute_policer_params 2400000000 1250000 2500000 hw
   in scale p \<le> 31 \<and> current_limit p = 150000 * 2 ^ scale p \<and> 1 \<le> cir_tokens_per_period p"
  using policer_scaling_exact [of 2400000000 1250000 2500000 "policer_zero\<lparr>current_limit := 150000, extended_limit := 300000\<rparr>"]
  by (simp add: Let_def policer_zero_def)

text \<open>
  A defect of the scaling. The packet length is shifted in 32 bits, so a packet whose length is a
  multiple of \<open>2 ^ (32 - scale)\<close> costs nothing: it is marked CONFORM whatever the buckets hold, and
  the buckets keep all their tokens. On a slow policer the scale is
  the largest that lets the burst fit, so this length is at most twice the burst: with 128 kbps and a
  burst of 1000 bytes every packet of 1024 bytes passes.
\<close>

theorem police_oversized_free:
  assumes wf: "policer_wf p" and t: "last_update_time p \<le> t" "t < U64"
    and col: "color_aware p = 0 \<or> col = POLICE_CONFORM"
    and len: "len = k * 2 ^ (32 - scale p)"
  shows "\<exists>q. vnet_police_packet p len col t = (POLICE_CONFORM, q) \<and>
    current_bucket q = refill (current_bucket p) (t - last_update_time p) (cir_tokens_per_period p) (current_limit p) \<and>
    extended_bucket q = refill (extended_bucket p) (t - last_update_time p) (ext_rate p) (extended_limit p)"
proof -
  have "len * 2 ^ scale p = k * (2 ^ (32 - scale p) * 2 ^ scale p)" by (simp add: len mult.assoc)
  also have "(2::nat) ^ (32 - scale p) * 2 ^ scale p = U32"
    using wf by (simp add: policer_wf_def flip: power_add)
  finally have c: "u32_shl len (scale p) = 0" by (simp add: u32_shl_def)
  obtain res q where s: "vnet_police_packet p len col t = (res, q)" by (cases "vnet_police_packet p len col t")
  have "res = POLICE_CONFORM"
    using s col c by (auto simp: vnet_police_packet_def police_single_rate_def police_two_rate_def Let_def split: if_splits)
  then show ?thesis using s police_accounting(1,3) [OF wf s t] c by simp
qed

definition small_burst_cfg :: sse2_qos_pol_cfg_params_st where
  "small_burst_cfg = cfg_zero\<lparr>cir_kbps := 128, cb_bytes := 1000, rfc := SSE2_QOS_POLICER_TYPE_1R2C\<rparr>"

text \<open>The policer this configuration yields on a 2.4 GHz processor, its buckets drained.\<close>

definition small_burst_policer :: policer_read_response_type_st where
  "small_burst_policer = (snd (sse2_pol_logical_2_physical 2400000000 (Some small_burst_cfg)))\<lparr>current_bucket := 0\<rparr>"

lemma small_burst_policer_scale:
  "policer_wf small_burst_policer" "last_update_time small_burst_policer = 0"
  "color_aware small_burst_policer = 0" "scale small_burst_policer = 22"
proof -
  let ?b = "bytes_per_period 2400000000 16000"
  have "?b = f64_fl (of_nat 16000 * 2 ^ 17 / of_nat 2400000000)"
    by (rule bytes_per_period_fl) simp_all
  then have "?b < 1"
    using f64_fl_err [of "of_nat 16000 * 2 ^ 17 / of_nat 2400000000", unfolded abs_le_iff] by simp
  moreover have "0 \<le> ?b" by (simp add: \<open>?b = _\<close> f64_fl_nonneg)
  ultimately have c: "u32_of_f64 ?b = 0" by (simp add: u32_of_f64_def floor_eq_iff)
  have p: "bytes_per_period 2400000000 0 = 0"
    by (subst bytes_per_period_fl) (simp_all add: f64_fl_def)
  have z: "clz32 1000 = 22" by code_simp
  have s: "scale_shift_of 1000 0 ?b (bytes_per_period 2400000000 0) = 22"
    by (simp add: scale_shift_of_def Let_def c p u32_shl_def u32_of_f64_def [of 0] z)
  note d = small_burst_policer_def small_burst_cfg_def sse2_pol_logical_2_physical_def cfg_to_kbps_def
    x86_pol_compute_hw_params_def compute_policer_params_def fill_buckets_def cfg_zero_def policer_zero_def
    Let_def cap_u32_def action_zero_def u64_mul_def s u32_shl_def policer_wf_def
  show "policer_wf small_burst_policer" "last_update_time small_burst_policer = 0"
    "color_aware small_burst_policer = 0" "scale small_burst_policer = 22"
    by (simp_all add: d)
qed

theorem police_oversized_free_witness:
  "\<exists>q. vnet_police_packet small_burst_policer 1024 POLICE_CONFORM 0 = (POLICE_CONFORM, q)"
  using police_oversized_free [of small_burst_policer 0 POLICE_CONFORM 1024 1]
  by (auto simp: small_burst_policer_scale)


section \<open>The exponent and mantissa format\<close>

lemma round_down: "0 < d \<Longrightarrow> sse2_qos_pol_round v d SSE2_QOS_ROUND_TO_DOWN = Inr (v div d)"
  by (simp add: sse2_qos_pol_round_def)

lemma int_1_shl_small: "n < 31 \<Longrightarrow> int_1_shl n = 2 ^ n"
  by (simp add: int_1_shl_def Let_def)

lemma exp_mant_loop_down:
  assumes "v div 2 ^ min maxe 30 \<le> maxm" and "e \<le> min maxe 30"
  shows "\<exists>e'. exp_mant_loop v maxe maxm SSE2_QOS_ROUND_TO_DOWN e (v div 2 ^ e) = (e', v div 2 ^ e') \<and>
    e' \<le> min maxe 30 \<and> v div 2 ^ e' \<le> maxm \<and> (\<forall>k. e \<le> k \<and> k < e' \<longrightarrow> maxm < v div 2 ^ k)"
  using assms(2)
proof (induction "min maxe 30 - e" arbitrary: e)
  case 0
  then have "e = min maxe 30" by simp
  then have "v div 2 ^ e \<le> maxm" "e \<le> maxe" using assms(1) by auto
  then show ?case using 0 by (subst exp_mant_loop.simps) auto
next
  case (Suc d)
  show ?case
  proof (cases "v div 2 ^ e \<le> maxm")
    case True
    then show ?thesis using Suc.prems by (subst exp_mant_loop.simps) auto
  next
    case False
    have lt: "e + 1 \<le> min maxe 30" using Suc.hyps(2) by linarith
    have one: "exp_mant_loop v maxe maxm SSE2_QOS_ROUND_TO_DOWN e (v div 2 ^ e)
        = exp_mant_loop v maxe maxm SSE2_QOS_ROUND_TO_DOWN (e + 1) (v div 2 ^ (e + 1))"
      using False lt
      by (subst exp_mant_loop.simps) (simp add: int_1_shl_small round_down rounded_or_0_def)
    have "d = min maxe 30 - (e + 1)" using Suc.hyps(2) by linarith
    then obtain e' where e': "exp_mant_loop v maxe maxm SSE2_QOS_ROUND_TO_DOWN (e + 1) (v div 2 ^ (e + 1)) = (e', v div 2 ^ e')"
        "e' \<le> min maxe 30" "v div 2 ^ e' \<le> maxm" "\<forall>k. e + 1 \<le> k \<and> k < e' \<longrightarrow> maxm < v div 2 ^ k"
      using Suc.hyps(1) lt by blast
    have "\<forall>k. e \<le> k \<and> k < e' \<longrightarrow> maxm < v div 2 ^ k"
    proof (intro allI impI)
      fix k
      assume "e \<le> k \<and> k < e'"
      then show "maxm < v div 2 ^ k" using e'(4) False by (cases "k = e") auto
    qed
    then show ?thesis using one e' by auto
  qed
qed

lemma exp_mant_fmt_down:
  assumes "v div 2 ^ min maxe 30 \<le> maxm" and "maxm < U32"
  obtains e where "sse2_qos_convert_value_to_exp_mant_fmt v maxe maxm SSE2_QOS_ROUND_TO_DOWN = (e, v div 2 ^ e)"
    "e \<le> min maxe 30" "v div 2 ^ e \<le> maxm" "\<forall>k<e. maxm < v div 2 ^ k"
proof -
  obtain e where e: "exp_mant_loop v maxe maxm SSE2_QOS_ROUND_TO_DOWN 0 v = (e, v div 2 ^ e)"
      "e \<le> min maxe 30" "v div 2 ^ e \<le> maxm" "\<forall>k<e. maxm < v div 2 ^ k"
    using exp_mant_loop_down [OF assms(1), of 0] by auto
  have "(v div 2 ^ e) mod U32 = v div 2 ^ e" using e(3) assms(2) by (intro mod_less) simp
  then show ?thesis using e that [of e]
    by (simp add: sse2_qos_convert_value_to_exp_mant_fmt_def del: mod_less)
qed

lemma div_mul_bounds:
  fixes v d :: nat
  assumes "0 < d"
  shows "v div d * d \<le> v" and "v < (v div d + 1) * d"
proof -
  have e: "v = v div d * d + v mod d" "v mod d < d" using assms by simp_all
  show "v div d * d \<le> v" using e by linarith
  show "v < (v div d + 1) * d" unfolding add_mult_distrib mult_1 using e by linarith
qed

text \<open>
  The exponent and mantissa format is the best one: rounding down, the loop ends with an exponent
  within its field, a mantissa within its field, a value below the given one by less than one unit of
  the last place, and no smaller exponent would have held the value.
\<close>

theorem exp_mant_fmt_best:
  "v div 2 ^ min maxe 30 \<le> maxm \<and> maxm < U32 \<longrightarrow>
   (let (e, m) = sse2_qos_convert_value_to_exp_mant_fmt v maxe maxm SSE2_QOS_ROUND_TO_DOWN
    in e \<le> maxe \<and> m \<le> maxm \<and> m * 2 ^ e \<le> v \<and> v < (m + 1) * 2 ^ e \<and>
       (\<forall>k m'. k < e \<and> m' \<le> maxm \<longrightarrow> (m' + 1) * 2 ^ k \<le> v))"
proof
  assume h: "v div 2 ^ min maxe 30 \<le> maxm \<and> maxm < U32"
  then obtain e where e: "sse2_qos_convert_value_to_exp_mant_fmt v maxe maxm SSE2_QOS_ROUND_TO_DOWN = (e, v div 2 ^ e)"
    "e \<le> min maxe 30" "v div 2 ^ e \<le> maxm" "\<forall>k<e. maxm < v div 2 ^ k"
    using exp_mant_fmt_down by blast
  have "(m' + 1) * 2 ^ k \<le> v" if "k < e" "m' \<le> maxm" for k m'
  proof -
    have "m' + 1 \<le> v div 2 ^ k" using e(4) that by fastforce
    then have "(m' + 1) * 2 ^ k \<le> v div 2 ^ k * 2 ^ k" by (rule mult_le_mono1)
    also have "\<dots> \<le> v" by (rule div_mul_bounds(1)) simp
    finally show ?thesis .
  qed
  then show "let (e, m) = sse2_qos_convert_value_to_exp_mant_fmt v maxe maxm SSE2_QOS_ROUND_TO_DOWN
    in e \<le> maxe \<and> m \<le> maxm \<and> m * 2 ^ e \<le> v \<and> v < (m + 1) * 2 ^ e \<and>
       (\<forall>k m'. k < e \<and> m' \<le> maxm \<longrightarrow> (m' + 1) * 2 ^ k \<le> v)"
    using e div_mul_bounds [of "2 ^ e" v] by simp
qed

theorem exp_mant_fmt_best_witness:
  "sse2_qos_convert_value_to_exp_mant_fmt 1000000 15 2047 SSE2_QOS_ROUND_TO_DOWN = (9, 1953) \<and>
   1953 * 2 ^ 9 \<le> (1000000 :: nat) \<and> (1000000 :: nat) < 1954 * 2 ^ 9"
proof -
  have c: "sse2_qos_convert_value_to_exp_mant_fmt 1000000 15 2047 SSE2_QOS_ROUND_TO_DOWN = (9, 1953)" by code_simp
  show ?thesis using exp_mant_fmt_best [of 1000000 15 2047] c by simp
qed

text \<open>
  Units. Converting a packet rate to kbit/s (at the fixed packet size) and back gives the same
  rate, for every rate whose kbit/s value fits in 32 bits.
\<close>

theorem pps_kbps_roundtrip:
  "r < 2097152000 \<Longrightarrow> sse2_qos_convert_kbps_to_pps (sse2_qos_convert_pps_to_kbps r) = r"
proof -
  assume r: "r < 2097152000"
  let ?q = "(r * 2048 + 500) div 1000"
  have q: "1000 * ?q \<le> r * 2048 + 500" "r * 2048 + 500 < 1000 * ?q + 1000"
    using div_mul_bounds [of 1000 "r * 2048 + 500"] by auto
  then have qb: "?q < U32" using r by simp
  have k: "sse2_qos_convert_pps_to_kbps r = ?q"
    using r qb
    by (simp add: sse2_qos_convert_pps_to_kbps_def SSE2_QOS_POLICER_FIXED_PKT_SIZE_def u64_mul_small
        sse2_qos_pol_round_def rounded_or_0_def u64_add_small mult.assoc)
  have "(?q * 1000 + 1024) div 2048 = r" using q by (intro div_nat_eqI) auto
  then show ?thesis
    using qb r
    by (simp add: k sse2_qos_convert_kbps_to_pps_def SSE2_QOS_POLICER_FIXED_PKT_SIZE_def u64_mul_small
        sse2_qos_pol_round_def rounded_or_0_def u64_add_small del: mult_Suc_right)
qed

theorem pps_kbps_roundtrip_witness:
  "sse2_qos_convert_kbps_to_pps (sse2_qos_convert_pps_to_kbps 12345) = 12345"
  using pps_kbps_roundtrip [of 12345] by simp

section \<open>Rates through the exponent and mantissa format\<close>

lemmas qos_consts = SSE2_QOS_POL_TICKS_PER_SEC_def SSE2_QOS_POL_RATE_EXP_MAX_def
  SSE2_QOS_POL_AVG_RATE_MANT_MAX_def SSE2_QOS_POL_PEAK_RATE_MANT_MAX_def
  SSE2_QOS_POL_AVG_RATE_MAX_def SSE2_QOS_POL_PEAK_RATE_MAX_def

text \<open>An accepted two-rate configuration that rounds down has its peak rate within the format.\<close>

lemma validate_2698_down:
  assumes "sse2_pol_validate_cfg_params cfg = None" "rfc cfg = SSE2_QOS_POLICER_TYPE_2R3C_RFC_2698"
    "rnd_type cfg = SSE2_QOS_ROUND_TO_DOWN" "eir_kbps cfg < U32"
  shows "cir_kbps cfg \<le> eir_kbps cfg" and "eir_kbps cfg div 8 \<le> 67076096"
  using assms
  by (auto simp: sse2_pol_validate_cfg_params_def sse2_qos_pol_round_def qos_consts Let_def split: if_splits)

lemma rates_2698_down:
  assumes r: "rfc cfg = SSE2_QOS_POLICER_TYPE_2R3C_RFC_2698" "rnd_type cfg = SSE2_QOS_ROUND_TO_DOWN"
    and cir: "8 \<le> cir_kbps cfg" "cir_kbps cfg \<le> eir_kbps cfg" and eir: "eir_kbps cfg div 8 \<le> 67076096"
  defines "C \<equiv> cir_kbps cfg div 8" and "E \<equiv> eir_kbps cfg div 8"
  obtains e where "sse2_pol_convert_cfg_rates_to_hw cfg hw =
      Inr (hw\<lparr>rate_exp := e, avg_rate_man := max 1 (C div 2 ^ e), peak_rate_man := E div 2 ^ e\<rparr>)"
    "e \<le> 15" "E div 2 ^ e \<le> 2047" "0 < E div 2 ^ e" "0 < e \<longrightarrow> 1024 * 2 ^ e \<le> E"
proof -
  have CE: "1 \<le> C" "C \<le> E" using cir by (simp_all add: C_def E_def div_le_mono)
  have E: "E \<le> 67076096" using eir by (simp add: E_def)
  then have "E div 2 ^ min 15 30 \<le> 2047" by simp
  then obtain e where e: "sse2_qos_convert_value_to_exp_mant_fmt E 15 2047 SSE2_QOS_ROUND_TO_DOWN = (e, E div 2 ^ e)"
      "e \<le> min 15 30" "E div 2 ^ e \<le> 2047" "\<forall>k<e. 2047 < E div 2 ^ k"
    by (rule exp_mant_fmt_down) simp
  have min_e: "1024 * 2 ^ e \<le> E" if e0: "0 < e"
  proof -
    have "2047 < E div 2 ^ (e - 1)" using e(4) e0 by (metis diff_less zero_less_one)
    then have "2048 \<le> E div 2 ^ (e - 1)" by linarith
    then have "2048 * 2 ^ (e - 1) \<le> E div 2 ^ (e - 1) * 2 ^ (e - 1)" by (rule mult_le_mono1)
    also have "\<dots> \<le> E" by (rule div_mul_bounds(1)) simp
    finally show ?thesis using e0 by (cases e) simp_all
  qed
  have pos: "0 < E div 2 ^ e"
  proof (cases "e = 0")
    case False
    then have "2 ^ e \<le> E" using min_e by simp
    then show ?thesis by (simp add: div_greater_zero_iff)
  qed (use CE in simp)
  have sh: "u64_shl 1 e = 2 ^ e"
  proof -
    have "(2::nat) ^ e \<le> 2 ^ 15" using e(2) by (intro power_increasing) auto
    then show ?thesis by (simp add: u64_shl_def)
  qed
  have small: "C mod U32 = C" "E mod U32 = E" using CE E by simp_all
  have avg: "(C div 2 ^ e) mod 65536 = C div 2 ^ e" "(E div 2 ^ e) mod 65536 = E div 2 ^ e"
  proof -
    have "C div 2 ^ e \<le> E div 2 ^ e" using CE by (simp add: div_le_mono)
    then show "(C div 2 ^ e) mod 65536 = C div 2 ^ e" "(E div 2 ^ e) mod 65536 = E div 2 ^ e"
      using e(3) by (auto intro!: mod_less)
  qed
  have nz: "C \<noteq> 0" "E \<noteq> 0" "cir_kbps cfg \<noteq> 0" "\<not> E < C" using CE cir by auto
  have "sse2_pol_convert_cfg_rates_to_hw cfg hw =
      Inr (hw\<lparr>rate_exp := e, avg_rate_man := max 1 (C div 2 ^ e), peak_rate_man := E div 2 ^ e\<rparr>)"
    unfolding sse2_pol_convert_cfg_rates_to_hw_def cfg_eir_kbps_def
    using r nz e(1) pos
    by (simp add: qos_consts round_down Let_def bump_up_def sh [unfolded One_nat_def] avg small C_def [symmetric] E_def [symmetric]
        max_def Suc_le_eq del: mod_less)
  then show ?thesis using that e pos min_e by simp
qed

lemma man_exp_to_kbps_exact:
  assumes "m * 2 ^ e \<le> 67076096"
  shows "man_exp_to_kbps m e = 8 * (m * 2 ^ e)"
  using assms by (simp add: man_exp_to_kbps_def u64_shl_small u64_mul_small qos_consts)

text \<open>
  Rates survive the hardware format. For an accepted two-rate (RFC 2698) configuration that
  rounds down, translating to the exponent and mantissa form and back keeps the policer type, gives a
  peak rate not above the configured one and short of it by less than 8 kbit/s or a 1024th, and a
  committed rate within that same distance.
\<close>

theorem qos_rate_roundtrip:
  assumes ok: "sse2_pol_validate_cfg_params cfg = None" and r: "rfc cfg = SSE2_QOS_POLICER_TYPE_2R3C_RFC_2698"
    and rnd: "rnd_type cfg = SSE2_QOS_ROUND_TO_DOWN" and w: "eir_kbps cfg < U32" and cir: "8 \<le> cir_kbps cfg"
  shows "\<exists>hw cfg'. sse2_pol_compute_hw_params (Some cfg) = Inr hw \<and>
    sse2_pol_convert_hw_to_cfg_params hw cfg_zero = Inr cfg' \<and> rfc cfg' = rfc cfg \<and>
    eir_kbps cfg' \<le> eir_kbps cfg \<and> eir_kbps cfg < eir_kbps cfg' + max 8 (eir_kbps cfg div 1024) \<and>
    cir_kbps cfg' \<le> cir_kbps cfg + max 8 (eir_kbps cfg div 1024) \<and>
    cir_kbps cfg < cir_kbps cfg' + max 8 (eir_kbps cfg div 1024)"
proof -
  note v = validate_2698_down [OF ok r rnd w]
  let ?C = "cir_kbps cfg div 8" and ?E = "eir_kbps cfg div 8"
  let ?hw0 = "hw_params_zero\<lparr>allow_negative := 1, hw_rfc := 1\<rparr>"
  obtain e where e: "sse2_pol_convert_cfg_rates_to_hw cfg ?hw0 =
      Inr (?hw0\<lparr>rate_exp := e, avg_rate_man := max 1 (?C div 2 ^ e), peak_rate_man := ?E div 2 ^ e\<rparr>)"
    "e \<le> 15" "?E div 2 ^ e \<le> 2047" "0 < ?E div 2 ^ e" "0 < e \<longrightarrow> 1024 * 2 ^ e \<le> ?E"
    using rates_2698_down [OF r rnd cir v(1) v(2)] .
  define hw where "hw = sse2_pol_convert_cfg_burst_to_hw cfg (?hw0\<lparr>rate_exp := e,
      avg_rate_man := max 1 (?C div 2 ^ e), peak_rate_man := ?E div 2 ^ e\<rparr>)"
  have hw: "sse2_pol_compute_hw_params (Some cfg) = Inr hw"
    using r by (simp add: sse2_pol_compute_hw_params_def ok sse2_pol_convert_cfg_to_hw_params_def cfg_hw_rfc_def
        e(1) [unfolded One_nat_def] hw_def)
  have f: "hw_rfc hw = 1" "rate_exp hw = e" "avg_rate_man hw = max 1 (?C div 2 ^ e)" "peak_rate_man hw = ?E div 2 ^ e"
    by (simp_all add: hw_def sse2_pol_convert_cfg_burst_to_hw_def Let_def split: prod.split)
  let ?p = "?E div 2 ^ e * 2 ^ e" and ?a = "max 1 (?C div 2 ^ e) * 2 ^ e"
  have p: "?p \<le> ?E" "?E < ?p + 2 ^ e" using div_mul_bounds [of "2 ^ e" ?E] by simp_all
  have c: "?C div 2 ^ e * 2 ^ e \<le> ?C" "?C < ?C div 2 ^ e * 2 ^ e + 2 ^ e"
    using div_mul_bounds [of "2 ^ e" ?C] by simp_all
  have eE: "2 ^ e \<le> ?E" using e(4) by (simp add: div_greater_zero_iff)
  have CE: "?C \<le> ?E" using v(1) by (rule div_le_mono)
  have a: "?a \<le> ?C + 2 ^ e" "?a \<le> ?E" "?C < ?a + 2 ^ e"
  proof -
    have "max 1 (?C div 2 ^ e) = ?C div 2 ^ e \<or> (max 1 (?C div 2 ^ e) = 1 \<and> ?C div 2 ^ e = 0)" by linarith
    then have "?a = ?C div 2 ^ e * 2 ^ e \<or> (?a = 2 ^ e \<and> ?C div 2 ^ e * 2 ^ e = 0)" by (metis mult_1 mult_0)
    then show "?a \<le> ?C + 2 ^ e" "?a \<le> ?E" "?C < ?a + 2 ^ e" using c eE CE by linarith+
  qed
  have E8: "8 * ?E \<le> eir_kbps cfg" "eir_kbps cfg < 8 * ?E + 8" and C8: "8 * ?C \<le> cir_kbps cfg" "cir_kbps cfg < 8 * ?C + 8"
    by linarith+
  have tol: "8 * 2 ^ e \<le> max 8 (eir_kbps cfg div 1024)"
  proof (cases "e = 0")
    case False
    then have "8 * (1024 * 2 ^ e) \<le> eir_kbps cfg" using e(5) E8(1) by linarith
    then have "8 * 2 ^ e * 1024 \<le> eir_kbps cfg" by simp
    then have "8 * 2 ^ e \<le> eir_kbps cfg div 1024" by (subst less_eq_div_iff_mult_less_eq) auto
    then show ?thesis by simp
  qed simp
  have kb: "man_exp_to_kbps (peak_rate_man hw) e = 8 * ?p" "man_exp_to_kbps (avg_rate_man hw) e = 8 * ?a"
    using p a v(2) by (simp_all only: f) (intro man_exp_to_kbps_exact; linarith)+
  obtain cfg' where c': "sse2_pol_convert_hw_to_cfg_params hw cfg_zero = Inr cfg'" "rfc cfg' = 2"
      "eir_kbps cfg' = 8 * ?p" "cir_kbps cfg' = 8 * ?a"
    using kb f by (auto simp: sse2_pol_convert_hw_to_cfg_params_def hw_cfg_rfc_def Let_def)
  show ?thesis
  proof (intro exI conjI)
    show "eir_kbps cfg < eir_kbps cfg' + max 8 (eir_kbps cfg div 1024)"
      unfolding c' using tol p(2) E8(2) by linarith
    show "cir_kbps cfg' \<le> cir_kbps cfg + max 8 (eir_kbps cfg div 1024)"
      unfolding c' using tol a(1) C8(1) by linarith
    show "cir_kbps cfg < cir_kbps cfg' + max 8 (eir_kbps cfg div 1024)"
      unfolding c' using tol a(3) C8(2) by linarith
    show "eir_kbps cfg' \<le> eir_kbps cfg" unfolding c' using p(1) E8(1) by linarith
  qed (use hw c' r in simp_all)
qed

definition two_rate_cfg :: sse2_qos_pol_cfg_params_st where
  "two_rate_cfg = cfg_zero\<lparr>cir_kbps := 10000, eir_kbps := 1000000, cb_bytes := 150000, eb_bytes := 300000,
     rfc := SSE2_QOS_POLICER_TYPE_2R3C_RFC_2698, rnd_type := SSE2_QOS_ROUND_TO_DOWN\<rparr>"

theorem qos_rate_roundtrip_witness:
  "\<exists>hw cfg'. sse2_pol_compute_hw_params (Some two_rate_cfg) = Inr hw \<and>
    sse2_pol_convert_hw_to_cfg_params hw cfg_zero = Inr cfg' \<and> eir_kbps cfg' \<le> 1000000 \<and>
    1000000 < eir_kbps cfg' + 976"
proof -
  have v: "sse2_pol_validate_cfg_params two_rate_cfg = None" by code_simp
  have f: "rfc two_rate_cfg = SSE2_QOS_POLICER_TYPE_2R3C_RFC_2698" "rnd_type two_rate_cfg = SSE2_QOS_ROUND_TO_DOWN"
      "eir_kbps two_rate_cfg = 1000000" "cir_kbps two_rate_cfg = 10000"
    by (simp_all add: two_rate_cfg_def)
  show ?thesis using qos_rate_roundtrip [OF v f(1,2)] by (auto simp: f)
qed

section \<open>Accepting a configuration\<close>

text \<open>The configurations the translation accepts, in kbit/s and bytes.\<close>

definition accepted :: "sse2_qos_pol_cfg_params_st \<Rightarrow> bool" where
  "accepted cfg \<longleftrightarrow>
     cir_kbps cfg = 0 \<and> cb_bytes cfg = 0 \<and> eb_bytes cfg = 0 \<or>
     rfc cfg = SSE2_QOS_POLICER_TYPE_1R2C \<and> cir_kbps cfg \<noteq> 0 \<and> eir_kbps cfg = 0 \<and> cb_bytes cfg \<noteq> 0 \<and> eb_bytes cfg = 0 \<or>
     rfc cfg = SSE2_QOS_POLICER_TYPE_1R3C_RFC_2697 \<and> cir_kbps cfg \<noteq> 0 \<and> eir_kbps cfg = 0 \<and>
       (cb_bytes cfg \<noteq> 0 \<or> eb_bytes cfg \<noteq> 0) \<or>
     rfc cfg \<in> {SSE2_QOS_POLICER_TYPE_2R3C_RFC_2698, SSE2_QOS_POLICER_TYPE_2R3C_RFC_4115} \<and>
       0 < cir_kbps cfg \<and> cir_kbps cfg \<le> eir_kbps cfg \<and> cb_bytes cfg \<noteq> 0 \<and> eb_bytes cfg \<noteq> 0"

lemma cap_u32_less [simp]: "cap_u32 x < U32" and cap_u32_pos: "0 < cap_u32 x \<longleftrightarrow> 0 < x"
  by (simp_all add: cap_u32_def)

lemma compute_policer_params_wf:
  assumes "current_limit hw < U32" "extended_limit hw < U32" "0 < max (current_limit hw) (extended_limit hw)"
    "last_update_time hw < U64"
  shows "policer_wf (fill_buckets (compute_policer_params hz cir pir hw))"
  using scale_shift_fits(1) [OF assms(1-3), THEN le_imp_less_Suc] assms(4)
  by (simp add: policer_wf_def fill_buckets_def compute_policer_params_def Let_def)

lemma x86_pol_compute_hw_params_ok:
  fixes hz :: nat and cfg :: sse2_qos_pol_cfg_params_st and hw0 :: policer_read_response_type_st
  assumes z: "scale hw0 = 0" "current_bucket hw0 = 0" "extended_bucket hw0 = 0"
  defines "r \<equiv> x86_pol_compute_hw_params hz cfg hw0"
  shows "fst r = (if accepted cfg then 0 else - 1)"
    and "accepted cfg \<Longrightarrow> policer_wf (snd r) \<and> current_bucket (snd r) = current_limit (snd r) \<and>
      extended_bucket (snd r) = extended_limit (snd r)"
proof -
  show "fst r = (if accepted cfg then 0 else - 1)"
    by (auto simp: r_def x86_pol_compute_hw_params_def accepted_def Let_def)
  show "policer_wf (snd r) \<and> current_bucket (snd r) = current_limit (snd r) \<and>
      extended_bucket (snd r) = extended_limit (snd r)" if acc: "accepted cfg"
  proof (cases "cir_kbps cfg = 0 \<and> cb_bytes cfg = 0 \<and> eb_bytes cfg = 0")
    case True
    then show ?thesis using z
      by (simp add: r_def x86_pol_compute_hw_params_def Let_def policer_wf_def cap_u32_def)
  next
    case False
    let ?lims = "\<lambda>hw. current_limit hw = cap_u32 (cb_bytes cfg) \<and> extended_limit hw = cap_u32 (eb_bytes cfg) \<and>
      last_update_time hw = 0"
    have nz: "0 < max (cb_bytes cfg) (eb_bytes cfg)" using False acc by (auto simp: accepted_def less_max_iff_disj)
    obtain cir pir hw where "snd r = fill_buckets (compute_policer_params hz cir pir hw)" "?lims hw"
    proof -
      consider "snd r = fill_buckets (compute_policer_params hz (u64_mul (cir_kbps cfg) 125) 0
            (hw0\<lparr>last_update_time := 0, current_limit := cap_u32 (cb_bytes cfg),
                 extended_limit := cap_u32 (eb_bytes cfg), single_rate := 1\<rparr>))"
        | "snd r = fill_buckets (compute_policer_params hz (u64_mul (cir_kbps cfg) 125) (u64_mul (eir_kbps cfg) 125)
            (hw0\<lparr>last_update_time := 0, current_limit := cap_u32 (cb_bytes cfg),
                 extended_limit := cap_u32 (eb_bytes cfg)\<rparr>))"
        using acc False by (auto simp: r_def x86_pol_compute_hw_params_def accepted_def Let_def)
      then show ?thesis by cases (erule that; simp)+
    qed
    moreover have "0 < max (cap_u32 (cb_bytes cfg)) (cap_u32 (eb_bytes cfg))"
      using nz by (simp add: less_max_iff_disj cap_u32_pos)
    ultimately show ?thesis
      using compute_policer_params_wf [of hw hz cir pir] by (simp add: fill_buckets_def)
  qed
qed

text \<open>
  Accepting a policer. The translation of a kbit/s configuration succeeds exactly on the accepted
  ones (and returns -1 on every other, as it does on a null pointer or an unknown rate type); the
  policer it then produces is well-formed with full buckets, so that the rate bound and the absence
  of starvation apply to it from its first packet.
\<close>

theorem logical_2_physical_accepts:
  "rate_type cfg = SSE2_QOS_RATE_KBPS \<and> overwrite_bucket cfg = 0 \<longrightarrow>
   (let (rc, p) = sse2_pol_logical_2_physical hz (Some cfg)
    in rc = (if accepted cfg then 0 else - 1) \<and>
       (accepted cfg \<longrightarrow> policer_wf p \<and> current_bucket p = current_limit p \<and>
          extended_bucket p = extended_limit p \<and> color_aware p = cfg_color_aware cfg)) \<and>
   fst (sse2_pol_logical_2_physical hz None) = - 1 \<and>
   fst (sse2_pol_logical_2_physical hz (Some (cfg\<lparr>rate_type := SSE2_QOS_RATE_INVALID\<rparr>))) = - 1"
proof
  assume h: "rate_type cfg = SSE2_QOS_RATE_KBPS \<and> overwrite_bucket cfg = 0"
  define k where "k = cfg_zero\<lparr>cir_kbps := cir_kbps cfg, eir_kbps := eir_kbps cfg, cb_bytes := cb_bytes cfg,
    eb_bytes := eb_bytes cfg, rate_type := SSE2_QOS_RATE_KBPS, rnd_type := rnd_type cfg, rfc := rfc cfg\<rparr>"
  define p0 where "p0 = policer_zero\<lparr>
    action := [action_type (conform_action cfg), action_type (exceed_action cfg), action_type (violate_action cfg)],
    mark_dscp := [dscp (conform_action cfg), dscp (exceed_action cfg), dscp (violate_action cfg)],
    color_aware := cfg_color_aware cfg\<rparr>"
  have z: "scale p0 = 0" "current_bucket p0 = 0" "extended_bucket p0 = 0" by (simp_all add: p0_def policer_zero_def)
  have acc: "accepted k = accepted cfg" by (simp add: accepted_def k_def)
  have eq: "sse2_pol_logical_2_physical hz (Some cfg) =
      (fst (x86_pol_compute_hw_params hz k p0), snd (x86_pol_compute_hw_params hz k p0))"
    using h x86_pol_compute_hw_params_ok(1) [OF z, where hz = hz and cfg = k]
    by (auto simp: sse2_pol_logical_2_physical_def cfg_to_kbps_def k_def p0_def split: prod.splits if_splits)
  have col: "color_aware (snd (x86_pol_compute_hw_params hz k p0)) = cfg_color_aware cfg"
    by (simp add: x86_pol_compute_hw_params_def Let_def p0_def fill_buckets_def compute_policer_params_def)
  show "(let (rc, p) = sse2_pol_logical_2_physical hz (Some cfg)
    in rc = (if accepted cfg then 0 else - 1) \<and>
       (accepted cfg \<longrightarrow> policer_wf p \<and> current_bucket p = current_limit p \<and>
          extended_bucket p = extended_limit p \<and> color_aware p = cfg_color_aware cfg)) \<and>
   fst (sse2_pol_logical_2_physical hz None) = - 1 \<and>
   fst (sse2_pol_logical_2_physical hz (Some (cfg\<lparr>rate_type := SSE2_QOS_RATE_INVALID\<rparr>))) = - 1"
    using x86_pol_compute_hw_params_ok [OF z, where hz = hz and cfg = k] col
    by (simp add: eq acc) (simp add: sse2_pol_logical_2_physical_def cfg_to_kbps_def)
qed

theorem logical_2_physical_accepts_witness:
  "fst (sse2_pol_logical_2_physical 2400000000 (Some two_rate_cfg)) = 0 \<and>
   policer_wf (snd (sse2_pol_logical_2_physical 2400000000 (Some two_rate_cfg)))"
  using logical_2_physical_accepts [of two_rate_cfg 2400000000]
  by (auto simp: two_rate_cfg_def cfg_zero_def accepted_def Let_def split: prod.splits)

text \<open>
  Reading a policer back loses it. The conversion of the data plane policer to the hardware
  parameters only clears them in this build, so the logical configuration returned is the same for
  every policer: a 2697 policer with zero rates and bursts.
\<close>

theorem physical_2_logical_constant:
  "sse2_pol_physical_2_logical (Some p) (cfg\<lparr>rate_type := SSE2_QOS_RATE_KBPS\<rparr>) =
   (0, cfg\<lparr>cir_kbps := 0, eir_kbps := 0, cb_bytes := 0, eb_bytes := 0, rate_type := SSE2_QOS_RATE_KBPS,
       rnd_type := SSE2_QOS_ROUND_TO_CLOSEST, rfc := SSE2_QOS_POLICER_TYPE_1R3C_RFC_2697, overwrite_bucket := 0,
       cfg_current_bucket := 0, cfg_extended_bucket := 0\<rparr>)"
  by (simp add: sse2_pol_physical_2_logical_def sse2_qos_convert_pol_bucket_to_hw_fmt_def hw_params_zero_def
      sse2_pol_convert_hw_to_cfg_params_def hw_cfg_rfc_def man_exp_to_kbps_def u64_shl_def u64_mul_def
      u64_sub_def cfg_zero_def Let_def)

end
