(* ===== verification/Radius_Message.thy ===== *)
theory Radius_Message
  imports Ppp_Options
begin

text \<open>
  RADIUS attributes and messages (RFC 2865, RFC 2866): \<^verbatim>\<open>src/src/Radius/CRadiusData.h\<close>,
  \<^verbatim>\<open>CRadiusAttribute.cpp\<close> and \<^verbatim>\<open>CRadiusMessage.cpp\<close>. A message keeps its attributes twice, as a list of
  objects and encoded in the packet buffer of 4096 bytes; the operations below update both the way
  the code does.

  A failed \<^verbatim>\<open>assert\<close>, a read through a null pointer or through the end of a list and a write past
  a buffer end the program or are undefined; they are the values of \<open>radius_fault\<close> and stop the
  operation. The iterators of \<^verbatim>\<open>getAll(t).begin()\<close> point into a list that is destroyed at the end of
  the statement; the model reads the attribute they pointed to. \<^verbatim>\<open>MD5\<close> of \<^verbatim>\<open>openssl\<close>, the clock and the
  contents of memory that is not initialised are fields of \<open>radius_env\<close>.
\<close>

section \<open>Constants (radius.h)\<close>

abbreviation (input) RadiusPacketHeaderSize :: nat where "RadiusPacketHeaderSize \<equiv> 20"
abbreviation (input) RadiusMaxPacketSize :: nat where "RadiusMaxPacketSize \<equiv> 4096"
abbreviation (input) RadiusAuthenticatorLength :: nat where "RadiusAuthenticatorLength \<equiv> 16"
abbreviation (input) RadiusMaxAttributeLength :: nat where "RadiusMaxAttributeLength \<equiv> 255"

abbreviation (input) RP_ACCESS_REQUEST :: byte where "RP_ACCESS_REQUEST \<equiv> 1"
abbreviation (input) RP_ACCESS_ACCEPT :: byte where "RP_ACCESS_ACCEPT \<equiv> 2"
abbreviation (input) RP_ACCESS_REJECT :: byte where "RP_ACCESS_REJECT \<equiv> 3"
abbreviation (input) RP_ACCOUNTING_REQUEST :: byte where "RP_ACCOUNTING_REQUEST \<equiv> 4"
abbreviation (input) RP_ACCOUNTING_RESPONSE :: byte where "RP_ACCOUNTING_RESPONSE \<equiv> 5"
abbreviation (input) RP_ACCESS_CHALLENGE :: byte where "RP_ACCESS_CHALLENGE \<equiv> 11"

abbreviation (input) RA_USER_NAME :: byte where "RA_USER_NAME \<equiv> 1"
abbreviation (input) RA_USER_PASSWORD :: byte where "RA_USER_PASSWORD \<equiv> 2"
abbreviation (input) RA_NAS_IP_ADDRESS :: byte where "RA_NAS_IP_ADDRESS \<equiv> 4"
abbreviation (input) RA_SERVICE_TYPE :: byte where "RA_SERVICE_TYPE \<equiv> 6"
abbreviation (input) RA_CLASS :: byte where "RA_CLASS \<equiv> 25"
abbreviation (input) RA_VENDOR_SPECIFIC :: byte where "RA_VENDOR_SPECIFIC \<equiv> 26"
abbreviation (input) RA_CALLED_STATION_ID :: byte where "RA_CALLED_STATION_ID \<equiv> 30"
abbreviation (input) RA_CALLING_STATION_ID :: byte where "RA_CALLING_STATION_ID \<equiv> 31"
abbreviation (input) RA_ACCT_STATUS_TYPE :: byte where "RA_ACCT_STATUS_TYPE \<equiv> 40"
abbreviation (input) RA_ACCT_SESSION_ID :: byte where "RA_ACCT_SESSION_ID \<equiv> 44"
abbreviation (input) RA_NAS_PORT_TYPE :: byte where "RA_NAS_PORT_TYPE \<equiv> 61"

section \<open>Faults and the environment\<close>

datatype radius_fault = AssertFailed | NullRead | EndOfList | RadiusOverrun

definition rbind :: "radius_fault + 'a \<Rightarrow> ('a \<Rightarrow> radius_fault + 'b) \<Rightarrow> radius_fault + 'b" where
  "rbind r f = (case r of Inl e \<Rightarrow> Inl e | Inr x \<Rightarrow> f x)"

lemma rbind_simps [simp]: "rbind (Inl e) f = Inl e" "rbind (Inr x) f = f x"
  by (simp_all add: rbind_def)

definition radius_assert :: "bool \<Rightarrow> radius_fault + unit" where
  "radius_assert b = (if b then Inr () else Inl AssertFailed)"

lemma radius_assert_simps [simp]: "radius_assert True = Inr ()" "radius_assert False = Inl AssertFailed"
  by (simp_all add: radius_assert_def)

text \<open>
  \<open>rad_junk\<close> is what an uninitialised buffer holds, \<open>rad_past\<close> the byte behind the packet buffer (the
  attribute loop reads it when the last byte of a full packet is the type of an attribute), \<open>rad_time\<close>
  the value of \<^verbatim>\<open>time(NULL)\<close>.
\<close>

record radius_env =
  rad_md5 :: "byte list \<Rightarrow> byte list"
  rad_time :: u32
  rad_junk :: "byte list"
  rad_past :: byte

text \<open>\<^verbatim>\<open>MD5_Final\<close> writes 16 bytes.\<close>

definition calcMD5 :: "radius_env \<Rightarrow> byte list \<Rightarrow> byte list" where
  "calcMD5 E buf = take 16 (rad_md5 E buf @ replicate 16 0)"

lemma length_calcMD5 [simp]: "length (calcMD5 E buf) = 16"
  by (simp add: calcMD5_def)

definition uninit :: "radius_env \<Rightarrow> nat \<Rightarrow> byte list" where
  "uninit E n = take n (rad_junk E @ replicate n 0)"

lemma length_uninit [simp]: "length (uninit E n) = n"
  by (simp add: uninit_def)

section \<open>CRadiusData\<close>

text \<open>The bytes in use; the array behind them has 4096 bytes.\<close>

definition CRadiusData :: "byte list \<Rightarrow> nat \<Rightarrow> byte list" where
  "CRadiusData val n = take (if n > RadiusMaxPacketSize then RadiusMaxPacketSize else n) val"

definition rd_append :: "byte list \<Rightarrow> byte list \<Rightarrow> byte list" where
  "rd_append d val = (if length d + length val > RadiusMaxPacketSize then d else d @ val)"

section \<open>CRadiusAttribute\<close>

record CRadiusAttribute =
  myType :: byte
  myValue :: "byte list"
  myVendorId :: u32

text \<open>
  Both constructors. The second takes the value as \<^verbatim>\<open>CRadiusData\<close>, the first as a pointer and a
  length of one byte; a password is padded with zeros to a multiple of 16 in a buffer of 255 bytes.
\<close>

definition attribute_of_data :: "byte \<Rightarrow> byte list \<Rightarrow> u32 \<Rightarrow> radius_fault + CRadiusAttribute" where
  "attribute_of_data type val vendorId =
     rbind (radius_assert ((type \<noteq> RA_VENDOR_SPECIFIC \<and> vendorId = 0) \<or>
                           (type = RA_VENDOR_SPECIFIC \<and> vendorId \<noteq> 0))) (\<lambda>_.
       if type = RA_USER_PASSWORD \<and> length val mod 16 \<noteq> 0 then
         if length val + (16 - length val mod 16) > RadiusMaxAttributeLength then Inl RadiusOverrun
         else Inr \<lparr>myType = type,
                   myValue = CRadiusData (val @ replicate (16 - length val mod 16) 0)
                               ((length val + 16) AND 0xFFF0),
                   myVendorId = vendorId\<rparr>
       else Inr \<lparr>myType = type, myValue = val, myVendorId = vendorId\<rparr>)"

definition attribute_of_bytes :: "byte \<Rightarrow> byte list \<Rightarrow> u8 \<Rightarrow> u32 \<Rightarrow> radius_fault + CRadiusAttribute" where
  "attribute_of_bytes type val len vendorId =
     rbind (radius_assert ((type \<noteq> RA_VENDOR_SPECIFIC \<and> vendorId = 0) \<or>
                           (type = RA_VENDOR_SPECIFIC \<and> vendorId \<noteq> 0))) (\<lambda>_.
       let n = unat len in
       if type = RA_USER_PASSWORD \<and> n mod 16 \<noteq> 0 then
         if n + (16 - n mod 16) > RadiusMaxAttributeLength then Inl RadiusOverrun
         else Inr \<lparr>myType = type,
                   myValue = CRadiusData (take n val @ replicate (16 - n mod 16) 0) ((n + 16) AND 0xFFF0),
                   myVendorId = vendorId\<rparr>
       else Inr \<lparr>myType = type, myValue = CRadiusData val n, myVendorId = vendorId\<rparr>)"

definition isVsa :: "CRadiusAttribute \<Rightarrow> bool" where
  "isVsa a \<longleftrightarrow> myType a = RA_VENDOR_SPECIFIC"

definition attr_length :: "CRadiusAttribute \<Rightarrow> nat" where
  "attr_length a = length (myValue a) + 2 + (if myVendorId a = 0 then 0 else 4)"

definition attr_encode :: "CRadiusAttribute \<Rightarrow> byte list" where
  "attr_encode a =
     (let msgDat = rd_append [] [myType a] in
      if myType a = RA_VENDOR_SPECIFIC then
        let msgDat = rd_append msgDat [of_nat (length (myValue a) + 6)];
            msgDat = rd_append msgDat (PUTLONG (myVendorId a))
        in rd_append msgDat (myValue a)
      else rd_append (rd_append msgDat [of_nat (length (myValue a) + 2)]) (myValue a))"

section \<open>CRadiusMessage\<close>

record CRadiusMessage =
  myRequestAuthenticator :: "byte list"
  myAttributes :: "CRadiusAttribute list"
  myData :: "byte list"

definition msg_code :: "CRadiusMessage \<Rightarrow> byte" where
  "msg_code m = myData m ! 0"

definition getIdentifier :: "CRadiusMessage \<Rightarrow> byte" where
  "getIdentifier m = myData m ! 1"

definition msg_length :: "CRadiusMessage \<Rightarrow> nat" where
  "msg_length m = GETSHORT (myData m ! 2) (myData m ! 3)"

definition msg_authenticator :: "CRadiusMessage \<Rightarrow> byte list" where
  "msg_authenticator m = take 16 (drop 4 (myData m))"

definition set_authenticator :: "byte list \<Rightarrow> CRadiusMessage \<Rightarrow> CRadiusMessage" where
  "set_authenticator auth m = m\<lparr>myData := memcpy_at (myData m) 4 auth 16\<rparr>"

definition setIdentifier :: "byte \<Rightarrow> CRadiusMessage \<Rightarrow> CRadiusMessage" where
  "setIdentifier ident m = m\<lparr>myData := memcpy_at (myData m) 1 [ident] 1\<rparr>"

text \<open>The header the first two constructors write: \<^verbatim>\<open>memset\<close>, code, identifier and length.\<close>

definition new_header :: "radius_env \<Rightarrow> byte \<Rightarrow> byte \<Rightarrow> byte list" where
  "new_header E code ident =
     memcpy_at (memcpy_at (memcpy_at (uninit E RadiusMaxPacketSize) 0 (replicate 20 0) 20)
       0 [code, ident] 2) 2 (PUTSHORT 20) 2"

definition request_message :: "radius_env \<Rightarrow> byte \<Rightarrow> radius_fault + CRadiusMessage" where
  "request_message E code =
     rbind (radius_assert (code = RP_ACCOUNTING_REQUEST \<or> code = RP_ACCESS_REQUEST)) (\<lambda>_.
       Inr \<lparr>myRequestAuthenticator = replicate 16 0, myAttributes = [], myData = new_header E code 0\<rparr>)"

definition response_message ::
  "radius_env \<Rightarrow> byte \<Rightarrow> byte \<Rightarrow> byte list option \<Rightarrow> radius_fault + CRadiusMessage" where
  "response_message E code requestId requestAuth =
     (case requestAuth of None \<Rightarrow> Inl AssertFailed
      | Some auth \<Rightarrow>
        rbind (radius_assert (code = RP_ACCOUNTING_RESPONSE \<or> code = RP_ACCESS_REJECT \<or>
                              code = RP_ACCESS_CHALLENGE \<or> code = RP_ACCESS_ACCEPT)) (\<lambda>_.
          Inr \<lparr>myRequestAuthenticator = take 16 auth, myAttributes = [], myData = new_header E code requestId\<rparr>))"

text \<open>\<^verbatim>\<open>add\<close> copies \<^verbatim>\<open>length()\<close> bytes out of the zeroed array the attribute was encoded into.\<close>

definition msg_add :: "CRadiusAttribute \<Rightarrow> CRadiusMessage \<Rightarrow> bool \<times> CRadiusMessage" where
  "msg_add attr m =
     (let attrLen = attr_length attr; currLen = msg_length m in
      if currLen + attrLen > RadiusMaxPacketSize then (False, m)
      else let buf = memcpy_at (myData m) currLen (attr_encode attr @ replicate attrLen 0) attrLen;
               buf = memcpy_at buf 2 (PUTSHORT (currLen + attrLen)) 2
           in (True, m\<lparr>myData := buf, myAttributes := myAttributes m @ [attr]\<rparr>))"

definition getAll :: "byte \<Rightarrow> CRadiusMessage \<Rightarrow> CRadiusAttribute list" where
  "getAll t m = filter (\<lambda>a. myType a = t) (myAttributes m)"

definition msg_get :: "byte \<Rightarrow> CRadiusMessage \<Rightarrow> CRadiusAttribute option" where
  "msg_get t m = find (\<lambda>a. myType a = t) (myAttributes m)"

definition encodeAttributes :: "CRadiusMessage \<Rightarrow> byte list" where
  "encodeAttributes m = fold (\<lambda>a msg. rd_append msg (attr_encode a)) (myAttributes m) []"

section \<open>The User-Password attribute\<close>

definition xor_block :: "byte list \<Rightarrow> byte list \<Rightarrow> byte list" where
  "xor_block p b = map2 (XOR) p b"

text \<open>The loop of \<^verbatim>\<open>encodeUserPassword\<close>; \<open>p\<close> is the password, \<open>new\<close> the buffer written.\<close>

function encode_password_loop ::
  "radius_env \<Rightarrow> byte list \<Rightarrow> byte list \<Rightarrow> byte list \<Rightarrow> nat \<Rightarrow> byte list \<Rightarrow> byte list" where
  "encode_password_loop E secret auth p i new =
     (if i < length p then
        let hashInput = secret @ (if i \<noteq> 0 then take 16 (drop (i - 16) new) else auth);
            b = calcMD5 E hashInput
        in encode_password_loop E secret auth p (i + 16)
             (memcpy_at new i (xor_block (take 16 (drop i p)) b) 16)
      else new)"
  by pat_completeness auto
termination by (relation "measure (\<lambda>(E, s, a, p, i, new). length p - i)") auto

declare encode_password_loop.simps [simp del]

definition encodeUserPassword ::
  "radius_env \<Rightarrow> byte list \<Rightarrow> byte list \<Rightarrow> CRadiusMessage \<Rightarrow> radius_fault + byte list" where
  "encodeUserPassword E secret oldPassword m =
     rbind (radius_assert (length secret < 256)) (\<lambda>_.
     rbind (radius_assert (length oldPassword mod 16 = 0)) (\<lambda>_.
       if length oldPassword > 256 then Inl RadiusOverrun
       else Inr (encode_password_loop E secret (msg_authenticator m) oldPassword 0 (uninit E 256))))"

text \<open>The loop of \<^verbatim>\<open>decodeUserPassword\<close> runs from the last block to the first; \<open>k\<close> blocks are left.\<close>

fun decode_password_loop ::
  "radius_env \<Rightarrow> byte list \<Rightarrow> byte list \<Rightarrow> byte list \<Rightarrow> nat \<Rightarrow> byte list \<Rightarrow> byte list" where
  "decode_password_loop E secret auth p 0 new = new"
| "decode_password_loop E secret auth p (Suc k) new =
     (let i = k * 16;
          hashInput = secret @ (if i \<noteq> 0 then take 16 (drop (i - 16) p) else auth);
          b = calcMD5 E hashInput
      in decode_password_loop E secret auth p k (memcpy_at new i (xor_block (take 16 (drop i p)) b) 16))"

definition decodeUserPassword ::
  "radius_env \<Rightarrow> byte list \<Rightarrow> byte list \<Rightarrow> CRadiusMessage \<Rightarrow> radius_fault + byte list" where
  "decodeUserPassword E secret oldPassword m =
     rbind (radius_assert (length secret < 256)) (\<lambda>_.
     rbind (radius_assert (length oldPassword mod 16 = 0)) (\<lambda>_.
       if length oldPassword > 256 then Inl RadiusOverrun
       else Inr (decode_password_loop E secret (msg_authenticator m) oldPassword
                   (length oldPassword div 16) (uninit E 256))))"

text \<open>The offset stays on a password once one has been replaced.\<close>

fun hide_loop :: "CRadiusAttribute list \<Rightarrow> nat \<Rightarrow> byte list \<Rightarrow> nat \<Rightarrow> byte list \<Rightarrow> radius_fault + byte list" where
  "hide_loop [] offset hidden n buf = Inr buf"
| "hide_loop (a # as) offset hidden n buf =
     (if myType a = RA_USER_PASSWORD then
        if offset + 2 + n > RadiusMaxPacketSize then Inl RadiusOverrun
        else hide_loop as offset hidden n (memcpy_at buf (offset + 2) hidden n)
      else hide_loop as (offset + attr_length a) hidden n buf)"

definition hideUserPassword :: "radius_env \<Rightarrow> byte list \<Rightarrow> CRadiusMessage \<Rightarrow> radius_fault + CRadiusMessage" where
  "hideUserPassword E secret m =
     rbind (radius_assert (msg_code m = RP_ACCESS_REQUEST)) (\<lambda>_.
       case getAll RA_USER_PASSWORD m of [] \<Rightarrow> Inl EndOfList
       | a # _ \<Rightarrow>
         rbind (encodeUserPassword E secret (myValue a) m) (\<lambda>hiddenPassword.
         rbind (hide_loop (myAttributes m) RadiusPacketHeaderSize hiddenPassword (length (myValue a)) (myData m))
           (\<lambda>buf. Inr (m\<lparr>myData := buf\<rparr>))))"

section \<open>Authenticators\<close>

text \<open>The clock value lies in memory least significant byte first.\<close>

definition calcAccessRequestAuthenticator :: "radius_env \<Rightarrow> CRadiusMessage \<Rightarrow> radius_fault + CRadiusMessage" where
  "calcAccessRequestAuthenticator E m =
     (case getAll RA_NAS_IP_ADDRESS m of [] \<Rightarrow> Inl EndOfList
      | a # _ \<Rightarrow>
        if 4 + length (myValue a) + 1 > 256 then Inl RadiusOverrun
        else let auth = calcMD5 E (rev (PUTLONG (rad_time E)) @ myValue a @ [getIdentifier m])
             in Inr (set_authenticator auth (m\<lparr>myRequestAuthenticator := auth\<rparr>)))"

definition calcResponseAuthenticator ::
  "radius_env \<Rightarrow> byte list \<Rightarrow> CRadiusMessage \<Rightarrow> radius_fault + CRadiusMessage" where
  "calcResponseAuthenticator E secret m =
     (let msgLen = msg_length m in
      rbind (radius_assert (msgLen + length secret \<le> RadiusMaxPacketSize)) (\<lambda>_.
        let m = set_authenticator (myRequestAuthenticator m) m;
            m = m\<lparr>myData := memcpy_at (myData m) msgLen secret (length secret)\<rparr>;
            auth = calcMD5 E (take (msgLen + length secret) (myData m))
        in Inr (set_authenticator auth m)))"

definition calcAccountingRequestAuthenticator ::
  "radius_env \<Rightarrow> byte list \<Rightarrow> CRadiusMessage \<Rightarrow> radius_fault + CRadiusMessage" where
  "calcAccountingRequestAuthenticator E secret m =
     (let msgLen = msg_length m in
      rbind (radius_assert (msgLen + length secret \<le> RadiusMaxPacketSize)) (\<lambda>_.
        let m = set_authenticator (replicate 16 0) m;
            m = m\<lparr>myData := memcpy_at (myData m) msgLen secret (length secret)\<rparr>;
            auth = calcMD5 E (take (msgLen + length secret) (myData m))
        in Inr (set_authenticator auth (m\<lparr>myRequestAuthenticator := auth\<rparr>))))"

definition calcAuthenticator :: "radius_env \<Rightarrow> byte list \<Rightarrow> CRadiusMessage \<Rightarrow> radius_fault + CRadiusMessage" where
  "calcAuthenticator E secret m =
     (if msg_code m = RP_ACCESS_REQUEST then
        rbind (calcAccessRequestAuthenticator E m) (hideUserPassword E secret)
      else if msg_code m \<in> {RP_ACCESS_ACCEPT, RP_ACCESS_REJECT, RP_ACCOUNTING_RESPONSE, RP_ACCESS_CHALLENGE} then
        calcResponseAuthenticator E secret m
      else if msg_code m = RP_ACCOUNTING_REQUEST then calcAccountingRequestAuthenticator E secret m
      else Inl AssertFailed)"

definition verifyAccountingRequestAuthenticator ::
  "radius_env \<Rightarrow> byte list \<Rightarrow> CRadiusMessage \<Rightarrow> radius_fault + bool \<times> CRadiusMessage" where
  "verifyAccountingRequestAuthenticator E secret m =
     rbind (radius_assert (msg_code m = RP_ACCOUNTING_REQUEST)) (\<lambda>_.
       let auth = msg_authenticator m in
       rbind (calcAccountingRequestAuthenticator E secret m) (\<lambda>m. Inr (auth = msg_authenticator m, m)))"

text \<open>\<open>reqAuth\<close> is the pointer to the request's authenticator, \<open>None\<close> the null pointer.\<close>

definition verifyResponseAuthenticator ::
  "radius_env \<Rightarrow> byte list option \<Rightarrow> byte list \<Rightarrow> CRadiusMessage \<Rightarrow> radius_fault + bool \<times> CRadiusMessage" where
  "verifyResponseAuthenticator E reqAuth secret m =
     rbind (radius_assert (msg_code m = RP_ACCESS_ACCEPT \<or> msg_code m = RP_ACCESS_REJECT \<or>
                           msg_code m = RP_ACCOUNTING_RESPONSE)) (\<lambda>_.
       case reqAuth of None \<Rightarrow> Inl NullRead
       | Some a \<Rightarrow>
         let m = m\<lparr>myRequestAuthenticator := take 16 a\<rparr>;
             respAuth = msg_authenticator m
         in rbind (calcResponseAuthenticator E secret m) (\<lambda>m. Inr (respAuth = msg_authenticator m, m)))"

section \<open>Receiving\<close>

text \<open>
  The loop of \<^verbatim>\<open>decodeAttributes\<close>, \<open>parsed\<close> bytes into the packet; it returns 0 or -1 and the attributes
  decoded so far.
\<close>

definition attr_len_at :: "radius_env \<Rightarrow> byte list \<Rightarrow> nat \<Rightarrow> nat" where
  "attr_len_at E buf parsed = unat (if parsed + 1 < length buf then buf ! (parsed + 1) else rad_past E)"

function decode_loop ::
  "radius_env \<Rightarrow> byte list \<Rightarrow> CRadiusMessage \<Rightarrow> nat \<Rightarrow> CRadiusAttribute list \<Rightarrow>
   radius_fault + int \<times> CRadiusAttribute list" where
  "decode_loop E secret m parsed attrs =
     (if parsed < msg_length m then
        let attrPtr = drop (parsed + 2) (myData m);
            attrType = myData m ! parsed;
            attrLen = attr_len_at E (myData m) parsed;
            next = parsed + attrLen
        in if attrLen < 2 \<or> next > msg_length m then Inr (-1, attrs)
           else if attrType = RA_VENDOR_SPECIFIC then
             if attrLen > 8 then
               rbind (attribute_of_data attrType (CRadiusData (drop 4 attrPtr) (attrLen - 6)) (GETLONG attrPtr))
                 (\<lambda>attr. decode_loop E secret m next (attrs @ [attr]))
             else Inr (-1, attrs)
           else if attrType = RA_USER_PASSWORD then
             if msg_code m \<noteq> RP_ACCESS_REQUEST then Inr (-1, attrs)
             else if (attrLen - 2) mod 16 \<noteq> 0 then Inr (-1, attrs)
             else rbind (decodeUserPassword E secret (CRadiusData attrPtr (attrLen - 2)) m) (\<lambda>decodedPassword.
                  rbind (attribute_of_data attrType (CRadiusData decodedPassword (attrLen - 2)) 0)
                    (\<lambda>attr. decode_loop E secret m next (attrs @ [attr])))
           else rbind (attribute_of_data attrType (CRadiusData attrPtr (attrLen - 2)) 0)
                  (\<lambda>attr. decode_loop E secret m next (attrs @ [attr]))
      else Inr (0, attrs))"
  by pat_completeness auto
termination by (relation "measure (\<lambda>(E, s, m, parsed, attrs). msg_length m - parsed)") auto

declare decode_loop.simps [simp del]

definition decodeAttributes ::
  "radius_env \<Rightarrow> byte list \<Rightarrow> CRadiusMessage \<Rightarrow> radius_fault + int \<times> CRadiusMessage" where
  "decodeAttributes E secret m =
     rbind (decode_loop E secret m 20 (myAttributes m)) (\<lambda>(r, attrs). Inr (r, m\<lparr>myAttributes := attrs\<rparr>))"

text \<open>
  The constructor from received data. It returns early on a malformed packet, leaving the members
  as they are, and ignores the results of \<^verbatim>\<open>decodeAttributes\<close> and of the verification.
\<close>

definition received_message :: "radius_env \<Rightarrow> byte list \<Rightarrow> byte list \<Rightarrow> radius_fault + CRadiusMessage" where
  "received_message E rawMsg secret =
     (let m = \<lparr>myRequestAuthenticator = uninit E 16, myAttributes = [], myData = uninit E RadiusMaxPacketSize\<rparr>;
          msgLen = length rawMsg
      in if msgLen < RadiusPacketHeaderSize \<or> msgLen > RadiusMaxPacketSize then Inr m
         else let m = m\<lparr>myData := memcpy_at (myData m) 0 rawMsg msgLen\<rparr> in
              if msgLen \<noteq> msg_length m then Inr m
              else rbind (decodeAttributes E secret m) (\<lambda>(r, m).
                if msg_code m = RP_ACCOUNTING_REQUEST then
                  rbind (verifyAccountingRequestAuthenticator E secret m) (\<lambda>(ok, m). Inr m)
                else Inr m))"

end
