(* ===== verification/Radius_Password.thy ===== *)
theory Radius_Password
  imports Radius_Message
begin

text \<open>
  Hiding and recovering the User-Password. The reference is the chain of RFC 2865, section 5.2, on
  blocks of 16 bytes: \<open>c(1) = p(1) xor MD5(S + RA)\<close>, \<open>c(i) = p(i) xor MD5(S + c(i-1))\<close>. The loops of
  \<^verbatim>\<open>encodeUserPassword\<close> and \<^verbatim>\<open>decodeUserPassword\<close>, which work in place on buffers and in opposite
  directions, compute it and its inverse.
\<close>

section \<open>The chain of RFC 2865\<close>

function rfc_hide :: "radius_env \<Rightarrow> byte list \<Rightarrow> byte list \<Rightarrow> byte list \<Rightarrow> byte list" where
  "rfc_hide E S c p =
     (if p = [] then []
      else let c' = xor_block (take 16 p) (calcMD5 E (S @ c)) in c' @ rfc_hide E S c' (drop 16 p))"
  by pat_completeness auto
termination by (relation "measure (\<lambda>(E, S, c, p). length p)") auto

function rfc_reveal :: "radius_env \<Rightarrow> byte list \<Rightarrow> byte list \<Rightarrow> byte list \<Rightarrow> byte list" where
  "rfc_reveal E S c q =
     (if q = [] then []
      else xor_block (take 16 q) (calcMD5 E (S @ c)) @ rfc_reveal E S (take 16 q) (drop 16 q))"
  by pat_completeness auto
termination by (relation "measure (\<lambda>(E, S, c, q). length q)") auto

declare rfc_hide.simps [simp del] rfc_reveal.simps [simp del]

lemma rfc_Nil [simp]: "rfc_hide E S c [] = []" "rfc_reveal E S c [] = []"
  by (subst rfc_hide.simps, simp) (subst rfc_reveal.simps, simp)

lemma length_xor_block [simp]: "length (xor_block p b) = min (length p) (length b)"
  by (simp add: xor_block_def)

lemma xor_block_twice: "length p \<le> length b \<Longrightarrow> xor_block (xor_block p b) b = p"
  by (rule nth_equalityI) (simp_all add: xor_block_def xor.assoc)

text \<open>A nonempty list of whole blocks starts with one.\<close>

lemma block_cases:
  assumes "length (p :: 'a list) mod 16 = 0"
  obtains "p = []" | "16 \<le> length p" "length (drop 16 p) mod 16 = 0"
proof (cases "p = []")
  case False
  then have "0 < length p" by simp
  then have "16 \<le> length p" using assms by (metis mod_less not_less not_less_zero)
  moreover from this have "length (drop 16 p) mod 16 = 0" using assms by (simp add: le_mod_geq)
  ultimately show ?thesis by (rule that(2))
qed (rule that(1))

lemma length_rfc_hide: "length p mod 16 = 0 \<Longrightarrow> length (rfc_hide E S c p) = length p"
proof (induction E S c p rule: rfc_hide.induct)
  case (1 E S c p)
  from "1.prems" show ?case
  proof (cases rule: block_cases)
    case 2
    then have "p \<noteq> []" by auto
    then show ?thesis using 2 "1.IH" by (subst rfc_hide.simps) (simp add: Let_def)
  qed simp
qed

theorem reveal_hide: "length p mod 16 = 0 \<Longrightarrow> rfc_reveal E S c (rfc_hide E S c p) = p"
proof (induction E S c p rule: rfc_hide.induct)
  case (1 E S c p)
  from "1.prems" show ?case
  proof (cases rule: block_cases)
    case 2
    define c' where "c' = xor_block (take 16 p) (calcMD5 E (S @ c))"
    have l: "length c' = 16" and ne: "p \<noteq> []" using 2 by (auto simp: c'_def)
    have h: "rfc_hide E S c p = c' @ rfc_hide E S c' (drop 16 p)"
      using ne by (subst rfc_hide.simps) (simp add: c'_def Let_def)
    have "rfc_reveal E S c (c' @ rfc_hide E S c' (drop 16 p)) =
        xor_block c' (calcMD5 E (S @ c)) @ rfc_reveal E S c' (rfc_hide E S c' (drop 16 p))"
      using l by (subst rfc_reveal.simps) auto
    also have "\<dots> = take 16 p @ drop 16 p"
      using "1.IH" [OF ne c'_def 2(2)] 2(1) by (simp add: c'_def xor_block_twice)
    finally show ?thesis by (simp add: h)
  qed simp
qed

text \<open>The block before the rest of a list of blocks, the start value when there is none.\<close>

definition prev_block :: "byte list \<Rightarrow> byte list \<Rightarrow> byte list" where
  "prev_block c q = (if q = [] then c else drop (length q - 16) q)"

lemma rfc_reveal_append:
  "length q mod 16 = 0 \<Longrightarrow> rfc_reveal E S c (q @ r) = rfc_reveal E S c q @ rfc_reveal E S (prev_block c q) r"
proof (induction E S c q rule: rfc_reveal.induct)
  case (1 E S c q)
  from "1.prems" show ?case
  proof (cases rule: block_cases)
    case 1
    then show ?thesis by (simp add: prev_block_def)
  next
    case 2
    then have ne: "q \<noteq> []" by auto
    have p: "prev_block (take 16 q) (drop 16 q) = prev_block c q"
    proof (cases "length q = 16")
      case False
      then have "length q - 16 \<ge> 16" using 2
        by (metis block_cases drop_eq_Nil diff_is_0_eq' le_antisym length_drop list.size(3) nat_le_linear)
      then show ?thesis using ne by (auto simp: prev_block_def)
    qed (simp add: prev_block_def ne)
    have "rfc_reveal E S c (q @ r) =
        xor_block (take 16 q) (calcMD5 E (S @ c)) @ rfc_reveal E S (take 16 q) (drop 16 q @ r)"
      using ne 2 by (subst rfc_reveal.simps) auto
    also have "\<dots> = rfc_reveal E S c q @ rfc_reveal E S (prev_block c q) r"
      using "1.IH" [OF ne 2(2)] ne by (subst (2) rfc_reveal.simps) (simp add: p)
    finally show ?thesis .
  qed
qed

lemma rfc_reveal_block:
  "length q = 16 \<Longrightarrow> rfc_reveal E S c q = xor_block q (calcMD5 E (S @ c))"
  by (subst rfc_reveal.simps) auto

section \<open>The loops\<close>

lemma encode_password_loop_spec:
  assumes "length p mod 16 = 0" and "i mod 16 = 0" and "i \<le> length p" and "length p \<le> length new"
  shows "take (length p) (encode_password_loop E S auth p i new) =
           take i new @ rfc_hide E S (if i \<noteq> 0 then take 16 (drop (i - 16) new) else auth) (drop i p)
         \<and> length (encode_password_loop E S auth p i new) = length new"
  using assms
proof (induction E S auth p i new rule: encode_password_loop.induct)
  case (1 E S auth p i new)
  show ?case
  proof (cases "i < length p")
    case False
    then show ?thesis using "1.prems" by (subst (1 2) encode_password_loop.simps) simp
  next
    case True
    define c where "c = (if i \<noteq> 0 then take 16 (drop (i - 16) new) else auth)"
    define x where "x = xor_block (take 16 (drop i p)) (calcMD5 E (S @ c))"
    define new' where "new' = memcpy_at new i x 16"
    have room: "i + 16 \<le> length p"
    proof -
      have "16 dvd length p - i" using "1.prems"(1,2) by (intro dvd_diff_nat) (simp_all add: mod_eq_0_iff_dvd)
      then have "length (drop i p) mod 16 = 0" by simp
      then show ?thesis using True by (cases rule: block_cases) auto
    qed
    have lx: "length x = 16" using room by (simp add: x_def)
    have step: "encode_password_loop E S auth p i new = encode_password_loop E S auth p (i + 16) new'"
      using True by (subst encode_password_loop.simps) (simp add: new'_def x_def c_def Let_def)
    have ln: "length new' = length new" and t: "take (i + 16) new' = take i new @ x"
      and d: "take 16 (drop i new') = x"
      using lx room "1.prems"(4) by (simp_all add: new'_def memcpy_at_def min_def)
    have ih: "take (length p) (encode_password_loop E S auth p (i + 16) new') =
        take (i + 16) new' @ rfc_hide E S (take 16 (drop i new')) (drop (i + 16) p)
        \<and> length (encode_password_loop E S auth p (i + 16) new') = length new'"
      using "1.IH" [OF True refl refl, folded c_def, folded x_def, folded new'_def] "1.prems" room ln by simp
    have "rfc_hide E S c (drop i p) = x @ rfc_hide E S x (drop (i + 16) p)"
      using True by (subst rfc_hide.simps) (simp add: x_def Let_def add.commute)
    then show ?thesis unfolding step c_def [symmetric] using ih ln t d by simp
  qed
qed

lemma decode_password_loop_spec:
  assumes "k * 16 \<le> length p" and "k * 16 \<le> length new"
  shows "decode_password_loop E S auth p k new = rfc_reveal E S auth (take (k * 16) p) @ drop (k * 16) new"
  using assms
proof (induction k arbitrary: new)
  case (Suc k)
  define q where "q = take (k * 16) p"
  define b where "b = take 16 (drop (k * 16) p)"
  define x where "x = xor_block b (calcMD5 E (S @ prev_block auth q))"
  have lq: "length q = k * 16" and lb: "length b = 16" and lx: "length x = 16"
    using Suc.prems by (simp_all add: q_def b_def x_def)
  have c: "(if k * 16 \<noteq> 0 then take 16 (drop (k * 16 - 16) p) else auth) = prev_block auth q"
    using lq Suc.prems by (cases k) (auto simp: prev_block_def q_def drop_take)
  have tp: "take (Suc k * 16) p = q @ b"
    using take_add [of "k * 16" 16 p] by (simp add: q_def b_def add.commute)
  have "decode_password_loop E S auth p (Suc k) new = decode_password_loop E S auth p k (memcpy_at new (k * 16) x 16)"
    unfolding decode_password_loop.simps Let_def c x_def b_def ..
  also have "\<dots> = rfc_reveal E S auth q @ drop (k * 16) (memcpy_at new (k * 16) x 16)"
    using Suc.IH [of "memcpy_at new (k * 16) x 16"] Suc.prems lx by (simp add: q_def)
  also have "drop (k * 16) (memcpy_at new (k * 16) x 16) = x @ drop (Suc k * 16) new"
    using Suc.prems lx by (simp add: memcpy_at_def add.commute)
  also have "x = rfc_reveal E S (prev_block auth q) b"
    using lb by (simp add: rfc_reveal_block x_def)
  also have "rfc_reveal E S auth q @ rfc_reveal E S (prev_block auth q) b @ drop (Suc k * 16) new =
      rfc_reveal E S auth (take (Suc k * 16) p) @ drop (Suc k * 16) new"
    unfolding tp using lq by (simp add: rfc_reveal_append)
  finally show ?case .
qed simp

lemma length_rfc_reveal: "length q mod 16 = 0 \<Longrightarrow> length (rfc_reveal E S c q) = length q"
proof (induction E S c q rule: rfc_reveal.induct)
  case (1 E S c q)
  from "1.prems" show ?case
  proof (cases rule: block_cases)
    case 2
    then have "q \<noteq> []" by auto
    then show ?thesis using 2 "1.IH" by (subst rfc_reveal.simps) simp
  qed simp
qed

text \<open>What the two operations return: enough of the buffer holds the reference's result.\<close>

lemma encodeUserPassword_rfc:
  assumes "length secret < 256" and "length p mod 16 = 0" and "length p \<le> 256"
  obtains hidden where "encodeUserPassword E secret p m = Inr hidden" and "length hidden = 256"
    and "take (length p) hidden = rfc_hide E secret (msg_authenticator m) p"
  using that assms encode_password_loop_spec [of p 0 "uninit E 256" E secret "msg_authenticator m"]
  by (simp add: encodeUserPassword_def)

lemma decodeUserPassword_rfc:
  assumes "length secret < 256" and "length q mod 16 = 0" and "length q \<le> 256"
  obtains plain where "decodeUserPassword E secret q m = Inr plain"
    and "take (length q) plain = rfc_reveal E secret (msg_authenticator m) q"
proof -
  have k: "length q div 16 * 16 = length q" using assms(2) by auto
  show ?thesis
    using that assms decode_password_loop_spec [of "length q div 16" q "uninit E 256" E secret "msg_authenticator m"]
    by (simp add: decodeUserPassword_def k length_rfc_reveal)
qed

text \<open>
  C27. \<^verbatim>\<open>encodeUserPassword\<close> computes the chain of RFC 2865 of every password of whole blocks that fits its
  buffer, and \<^verbatim>\<open>decodeUserPassword\<close>, which runs backwards, recovers the password from the result.
\<close>

theorem radius_password_chain:
  assumes "length secret < 256" and "length p mod 16 = 0" and "length p \<le> 256"
  shows "\<exists>hidden plain. encodeUserPassword E secret p m = Inr hidden \<and>
    take (length p) hidden = rfc_hide E secret (msg_authenticator m) p \<and>
    decodeUserPassword E secret (take (length p) hidden) m = Inr plain \<and> take (length p) plain = p"
proof -
  let ?q = "rfc_hide E secret (msg_authenticator m) p"
  obtain hidden where h: "encodeUserPassword E secret p m = Inr hidden" "length hidden = 256" "take (length p) hidden = ?q"
    using assms by (rule encodeUserPassword_rfc)
  have l: "length ?q = length p" using assms(2) by (rule length_rfc_hide)
  obtain plain where "decodeUserPassword E secret ?q m = Inr plain"
    and "take (length ?q) plain = rfc_reveal E secret (msg_authenticator m) ?q"
    using decodeUserPassword_rfc [OF assms(1), of ?q E m] assms(2,3) l by auto
  then show ?thesis using h l reveal_hide [OF assms(2)] by auto
qed

definition demo_radius :: radius_env where
  "demo_radius = \<lparr>rad_md5 = (\<lambda>x. replicate 16 (of_nat (length x))), rad_time = 1, rad_junk = [], rad_past = 0\<rparr>"

theorem radius_password_chain_witness:
  "\<exists>hidden plain m. msg_authenticator m = replicate 16 9 \<and>
     encodeUserPassword demo_radius [1, 2] (replicate 32 7) m = Inr hidden \<and>
     take 32 hidden = replicate 16 21 @ replicate 16 21 \<and>
     decodeUserPassword demo_radius [1, 2] (take 32 hidden) m = Inr plain \<and> take 32 plain = replicate 32 7"
proof -
  define m where "m = \<lparr>myRequestAuthenticator = [], myAttributes = [], myData = replicate 4 0 @ replicate 16 9\<rparr>"
  have a: "msg_authenticator m = replicate 16 9" by (simp add: m_def msg_authenticator_def)
  have "calcMD5 demo_radius ([1, 2] @ c) = replicate 16 18" if "length c = 16" for c
    using that by (simp add: calcMD5_def demo_radius_def)
  then have "rfc_hide demo_radius [1, 2] (replicate 16 9) (replicate 32 7) = replicate 16 21 @ replicate 16 21"
    by (simp add: rfc_hide.simps [of _ _ _ "replicate _ _"] xor_block_def zip_replicate Let_def)
  then show ?thesis
    using radius_password_chain [of "[1, 2]" "replicate 32 7" demo_radius m] a by auto
qed

end
