(* ===== verification/Radius_Wire.thy ===== *)
theory Radius_Wire
  imports Radius_Password
begin

text \<open>
  What a message puts on the wire and what a receiver makes of it. \<open>radius_packet\<close> is the layout of
  RFC 2865, section 3; \<open>msg_is\<close> relates the packet buffer of a message to it, and every operation of
  \<open>Radius_Message\<close> is described by its effect on that view. The round trips of requests and the
  meaning of the authenticators follow.
\<close>

section \<open>The layout of RFC 2865\<close>

definition radius_packet :: "byte \<Rightarrow> byte \<Rightarrow> byte list \<Rightarrow> byte list \<Rightarrow> byte list" where
  "radius_packet code ident auth body = [code, ident] @ PUTSHORT (20 + length body) @ auth @ body"

definition attr_bytes :: "CRadiusAttribute \<Rightarrow> byte list" where
  "attr_bytes a =
     (if myType a = RA_VENDOR_SPECIFIC
      then [myType a, of_nat (length (myValue a) + 6)] @ PUTLONG (myVendorId a) @ myValue a
      else [myType a, of_nat (length (myValue a) + 2)] @ myValue a)"

abbreviation attrs_bytes :: "CRadiusAttribute list \<Rightarrow> byte list" where
  "attrs_bytes as \<equiv> concat (map attr_bytes as)"

text \<open>The attributes that fit the format and that the receiving side takes.\<close>

definition attr_ok :: "CRadiusAttribute \<Rightarrow> bool" where
  "attr_ok a \<longleftrightarrow>
     (myType a = RA_VENDOR_SPECIFIC \<longleftrightarrow> myVendorId a \<noteq> 0) \<and>
     (if myType a = RA_VENDOR_SPECIFIC then 3 \<le> length (myValue a) \<and> length (myValue a) \<le> 249
      else length (myValue a) \<le> 253) \<and>
     (myType a = RA_USER_PASSWORD \<longrightarrow> length (myValue a) mod 16 = 0)"

lemma attr_ok_length: "attr_ok a \<Longrightarrow> length (attr_bytes a) = attr_length a \<and> attr_length a \<le> 255 \<and> 2 \<le> attr_length a"
  by (auto simp: attr_ok_def attr_bytes_def attr_length_def split: if_splits)

lemma attr_encode_bytes: "attr_ok a \<Longrightarrow> attr_encode a = attr_bytes a"
  by (auto simp: attr_ok_def attr_encode_def attr_bytes_def rd_append_def split: if_splits)

lemma length_radius_packet [simp]: "length auth = 16 \<Longrightarrow> length (radius_packet c i auth b) = 20 + length b"
  by (simp add: radius_packet_def)

lemma drop_radius_packet: "length auth = 16 \<Longrightarrow> drop 20 (radius_packet c i auth b) = b"
  by (simp add: radius_packet_def)

section \<open>A message and its packet\<close>

definition msg_is :: "CRadiusMessage \<Rightarrow> byte \<Rightarrow> byte \<Rightarrow> byte list \<Rightarrow> byte list \<Rightarrow> bool" where
  "msg_is m c i a b \<longleftrightarrow> length a = 16 \<and> length b \<le> 4076 \<and> length (myData m) = RadiusMaxPacketSize \<and>
     take (20 + length b) (myData m) = radius_packet c i a b"

lemma msg_isI:
  assumes "myData m = radius_packet c i a b @ rest" and "length a = 16" and "length b + length rest = 4076"
  shows "msg_is m c i a b"
  using assms by (simp add: msg_is_def)

lemma msg_isE:
  assumes "msg_is m c i a b"
  obtains rest where "myData m = radius_packet c i a b @ rest" and "length a = 16"
    and "length b + length rest = 4076"
proof -
  let ?n = "20 + length b"
  have "myData m = radius_packet c i a b @ drop ?n (myData m)"
    using assms append_take_drop_id [of ?n "myData m"] by (simp add: msg_is_def)
  then show ?thesis using that assms by (simp add: msg_is_def)
qed

lemma msg_is_fields:
  assumes "msg_is m c i a b"
  shows "msg_code m = c" and "getIdentifier m = i" and "msg_length m = 20 + length b"
    and "msg_authenticator m = a" and "length (myData m) = 4096"
proof -
  obtain rest where d: "myData m = radius_packet c i a b @ rest" and l: "length a = 16" "length b + length rest = 4076"
    using assms by (rule msg_isE)
  show "msg_code m = c" "getIdentifier m = i" using d
    by (simp_all add: radius_packet_def msg_code_def getIdentifier_def)
  have "msg_length m = GETSHORT (PUTSHORT (20 + length b) ! 0) (PUTSHORT (20 + length b) ! 1)"
    using d by (simp add: msg_length_def radius_packet_def PUTSHORT_def)
  also have "\<dots> = 20 + length b" using l by (intro GETSHORT_PUTSHORT) simp
  finally show "msg_length m = 20 + length b" .
  show "msg_authenticator m = a"
    using d l by (simp add: msg_authenticator_def radius_packet_def PUTSHORT_def)
  show "length (myData m) = 4096" using d l by simp
qed

lemma memcpy_at_middle:
  "length xs = pos \<Longrightarrow> length ys = n \<Longrightarrow> memcpy_at (xs @ ys @ zs) pos src n = xs @ take n src @ zs"
  by (simp add: memcpy_at_def)

lemma new_header_is:
  assumes "myData m = new_header E c i"
  shows "msg_is m c i (replicate 16 0) []"
proof -
  have z: "replicate 20 (0 :: byte) = [0, 0, 0, 0] @ replicate 16 0"
    using replicate_add [of 4 16 "0 :: byte"] by (simp add: numeral_eq_Suc)
  have "new_header E c i = [c, i] @ PUTSHORT 20 @ replicate 16 0 @ drop 20 (uninit E 4096)"
    unfolding new_header_def z by (simp add: memcpy_at_def)
  then show ?thesis using assms
    by (intro msg_isI [where rest = "drop 20 (uninit E 4096)"]) (simp_all add: radius_packet_def)
qed

lemma setIdentifier_is: "msg_is m c i a b \<Longrightarrow> msg_is (setIdentifier j m) c j a b"
proof (elim msg_isE)
  fix rest
  assume "myData m = radius_packet c i a b @ rest" "length a = 16" "length b + length rest = 4076"
  then show ?thesis
    by (intro msg_isI [where rest = rest]) (simp_all add: setIdentifier_def radius_packet_def memcpy_at_def)
qed

lemma set_authenticator_is:
  assumes "msg_is m c i a b" and "length a' = 16"
  shows "msg_is (set_authenticator a' m) c i a' b"
  using assms(1)
proof (rule msg_isE)
  fix rest
  assume h: "myData m = radius_packet c i a b @ rest" "length a = 16" "length b + length rest = 4076"
  have d: "myData m = ([c, i] @ PUTSHORT (20 + length b)) @ a @ b @ rest"
    using h by (simp add: radius_packet_def)
  have "memcpy_at (myData m) 4 a' 16 = ([c, i] @ PUTSHORT (20 + length b)) @ take 16 a' @ b @ rest"
    unfolding d using h(2) by (intro memcpy_at_middle) simp_all
  then show ?thesis using assms(2) h
    by (intro msg_isI [where rest = rest]) (simp_all add: set_authenticator_def radius_packet_def)
qed

lemma set_authenticator_fields [simp]:
  "myAttributes (set_authenticator a m) = myAttributes m"
  "myRequestAuthenticator (set_authenticator a m) = myRequestAuthenticator m"
  "myAttributes (setIdentifier i m) = myAttributes m"
  by (simp_all add: set_authenticator_def setIdentifier_def)

text \<open>\<^verbatim>\<open>add\<close> appends an attribute to both representations, or leaves the message alone when it does not fit.\<close>

lemma msg_add_is:
  assumes m: "msg_is m c i a b" and a: "attr_ok at" and r: "length b + attr_length at \<le> 4076"
  obtains m' where "msg_add at m = (True, m')" and "msg_is m' c i a (b @ attr_bytes at)"
    and "myAttributes m' = myAttributes m @ [at]" and "myRequestAuthenticator m' = myRequestAuthenticator m"
proof -
  obtain rest where d: "myData m = radius_packet c i a b @ rest" and l: "length a = 16" "length b + length rest = 4076"
    using m by (rule msg_isE)
  let ?n = "attr_length at" and ?t = "20 + length b + attr_length at"
  have n: "length (attr_bytes at) = ?n" and len: "msg_length m = 20 + length b"
    using attr_ok_length [OF a] msg_is_fields [OF m] by simp_all
  define buf where "buf = memcpy_at (myData m) (20 + length b) (attr_encode at @ replicate ?n 0) ?n"
  have "buf = radius_packet c i a b @ attr_bytes at @ drop ?n rest"
    using l r n by (simp add: buf_def d memcpy_at_def attr_encode_bytes [OF a])
  then have buf: "buf = [c, i] @ PUTSHORT (20 + length b) @ a @ b @ attr_bytes at @ drop ?n rest"
    by (simp add: radius_packet_def)
  define m' where "m' = m\<lparr>myData := memcpy_at buf 2 (PUTSHORT ?t) 2, myAttributes := myAttributes m @ [at]\<rparr>"
  have "memcpy_at buf 2 (PUTSHORT ?t) 2 = [c, i] @ take 2 (PUTSHORT ?t) @ a @ b @ attr_bytes at @ drop ?n rest"
    unfolding buf by (rule memcpy_at_middle) simp_all
  then have "msg_is m' c i a (b @ attr_bytes at)"
    using l r n by (intro msg_isI [where rest = "drop ?n rest"])
      (simp_all add: m'_def radius_packet_def add.assoc)
  moreover have "msg_add at m = (True, m')"
    using r by (simp add: msg_add_def len buf_def m'_def Let_def)
  ultimately show ?thesis using that by (simp add: m'_def)
qed

lemma msg_add_full:
  "msg_is m c i a b \<Longrightarrow> 4076 < length b + attr_length at \<Longrightarrow> msg_add at m = (False, m)"
  by (simp add: msg_add_def msg_is_fields(3))

section \<open>Decoding\<close>

definition hide_attr :: "radius_env \<Rightarrow> byte list \<Rightarrow> byte list \<Rightarrow> CRadiusAttribute \<Rightarrow> CRadiusAttribute" where
  "hide_attr E S auth a =
     (if myType a = RA_USER_PASSWORD then a\<lparr>myValue := rfc_hide E S auth (myValue a)\<rparr> else a)"

definition reveal_attr :: "radius_env \<Rightarrow> byte list \<Rightarrow> byte list \<Rightarrow> CRadiusAttribute \<Rightarrow> CRadiusAttribute" where
  "reveal_attr E S auth a =
     (if myType a = RA_USER_PASSWORD then a\<lparr>myValue := rfc_reveal E S auth (myValue a)\<rparr> else a)"

lemma reveal_hide_attr: "attr_ok a \<Longrightarrow> reveal_attr E S auth (hide_attr E S auth a) = a"
  by (simp add: reveal_attr_def hide_attr_def attr_ok_def reveal_hide)

lemma hide_attr_ok: "attr_ok a \<Longrightarrow> attr_ok (hide_attr E S auth a)"
  by (auto simp: attr_ok_def hide_attr_def length_rfc_hide)

lemma hide_attr_type [simp]: "myType (hide_attr E S auth a) = myType a"
  by (simp add: hide_attr_def)

lemma password_length: "attr_ok a \<Longrightarrow> myType a = RA_USER_PASSWORD \<Longrightarrow>
    length (myValue a) mod 16 = 0 \<and> length (myValue a) \<le> 253 \<and> myVendorId a = 0"
  by (auto simp: attr_ok_def)

text \<open>One turn of the loop on a well-formed attribute.\<close>

lemma decode_loop_step:
  assumes d: "drop parsed (myData m) = attr_bytes a @ rest" and l: "length (myData m) = 4096"
    and r: "parsed + attr_length a \<le> msg_length m" and a: "attr_ok a" and S: "length S < 256"
    and p: "myType a = RA_USER_PASSWORD \<Longrightarrow> msg_code m = RP_ACCESS_REQUEST"
  shows "decode_loop E S m parsed acc =
    decode_loop E S m (parsed + attr_length a) (acc @ [reveal_attr E S (msg_authenticator m) a])"
proof -
  note al = attr_ok_length [OF a]
  have "length (drop parsed (myData m)) \<ge> 2" using al by (simp add: d)
  then have b: "parsed + 1 < length (myData m)" "parsed < length (myData m)" by simp_all
  have "myData m ! parsed = drop parsed (myData m) ! 0" and "myData m ! (parsed + 1) = drop parsed (myData m) ! 1"
    using b by simp_all
  then have t: "myData m ! parsed = myType a" and n0: "myData m ! (parsed + 1) = attr_bytes a ! 1"
    unfolding d by (simp_all add: attr_bytes_def)
  have "attr_bytes a ! 1 = of_nat (attr_length a)"
    using a by (auto simp: attr_bytes_def attr_length_def attr_ok_def)
  then have "unat (attr_bytes a ! 1) = attr_length a" using al by (simp add: byte_unat_of_nat)
  then have n: "attr_len_at E (myData m) parsed = attr_length a"
    using b n0 by (simp add: attr_len_at_def)
  have q: "drop (parsed + 2) (myData m) = drop 2 (attr_bytes a) @ rest"
    using d al drop_drop [of 2 parsed "myData m"] by (simp add: add.commute)
  have i: "parsed < msg_length m" using r al by simp
  note step = decode_loop.simps [of E S m parsed acc] Let_def n t q
  consider (vsa) "myType a = RA_VENDOR_SPECIFIC" | (pw) "myType a = RA_USER_PASSWORD"
    | (plain) "myType a \<noteq> RA_VENDOR_SPECIFIC" "myType a \<noteq> RA_USER_PASSWORD" by blast
  then show ?thesis
  proof cases
    case vsa
    then have v: "myVendorId a \<noteq> 0" "attr_length a = length (myValue a) + 6" "8 < attr_length a"
        "drop 2 (attr_bytes a) = PUTLONG (myVendorId a) @ myValue a"
      using a by (auto simp: attr_ok_def attr_length_def attr_bytes_def)
    have "CRadiusData (drop 4 (drop 2 (attr_bytes a) @ rest)) (attr_length a - 6) = myValue a"
      using v al by (simp add: CRadiusData_def)
    moreover have "GETLONG (drop 2 (attr_bytes a) @ rest) = myVendorId a" using v by simp
    moreover have "attribute_of_data (myType a) (myValue a) (myVendorId a) = Inr a"
      using v vsa by (simp add: attribute_of_data_def)
    ultimately show ?thesis unfolding step using vsa v(3) i r by (simp add: reveal_attr_def)
  next
    case plain
    then have v: "myVendorId a = 0" "attr_length a = length (myValue a) + 2" "drop 2 (attr_bytes a) = myValue a"
      using a by (auto simp: attr_ok_def attr_length_def attr_bytes_def)
    have "CRadiusData (drop 2 (attr_bytes a) @ rest) (attr_length a - 2) = myValue a"
      using v al by (simp add: CRadiusData_def)
    moreover have "attribute_of_data (myType a) (myValue a) 0 = Inr a"
      using v plain by (simp add: attribute_of_data_def)
    ultimately show ?thesis unfolding step using plain i r al by (simp add: reveal_attr_def)
  next
    case pw
    note w = password_length [OF a pw]
    have v: "attr_length a = length (myValue a) + 2" "drop 2 (attr_bytes a) = myValue a"
      using pw w by (auto simp: attr_length_def attr_bytes_def)
    obtain plain where e: "decodeUserPassword E S (myValue a) m = Inr plain"
      and tp: "take (length (myValue a)) plain = rfc_reveal E S (msg_authenticator m) (myValue a)"
      using decodeUserPassword_rfc [OF S, of "myValue a"] w by auto
    have "CRadiusData (drop 2 (attr_bytes a) @ rest) (attr_length a - 2) = myValue a"
      using v al by (simp add: CRadiusData_def)
    moreover have "CRadiusData plain (attr_length a - 2) = rfc_reveal E S (msg_authenticator m) (myValue a)"
      using v w tp by (simp add: CRadiusData_def)
    moreover have "attribute_of_data (myType a) (rfc_reveal E S (msg_authenticator m) (myValue a)) 0 =
        Inr (reveal_attr E S (msg_authenticator m) a)"
      using w pw by (simp add: attribute_of_data_def length_rfc_reveal reveal_attr_def)
    ultimately show ?thesis unfolding step using pw p w v(1) i r e by simp
  qed
qed

lemma decode_loop_attrs:
  assumes "drop parsed (take (msg_length m) (myData m)) = attrs_bytes as" and "length (myData m) = 4096"
    and "msg_length m \<le> 4096" and "parsed \<le> msg_length m"
    and "\<And>a. a \<in> set as \<Longrightarrow> attr_ok a \<and> (myType a = RA_USER_PASSWORD \<longrightarrow> msg_code m = RP_ACCESS_REQUEST)"
    and "length S < 256"
  shows "decode_loop E S m parsed acc = Inr (0, acc @ map (reveal_attr E S (msg_authenticator m)) as)"
  using assms
proof (induction as arbitrary: parsed acc)
  case Nil
  then have "msg_length m \<le> parsed" by simp
  then show ?case by (subst decode_loop.simps) simp
next
  case (Cons a as)
  have ok: "attr_ok a" using Cons.prems(5) by simp
  note al = attr_ok_length [OF ok]
  have t: "drop parsed (take (msg_length m) (myData m)) = attr_bytes a @ attrs_bytes as"
    using Cons.prems(1) by simp
  from arg_cong [OF this, of length] have r: "parsed + attr_length a \<le> msg_length m"
    using al Cons.prems(2-4) by simp
  have "drop parsed (myData m) = drop parsed (take (msg_length m) (myData m)) @ drop (msg_length m) (myData m)"
    using Cons.prems(4) by (metis append_take_drop_id drop_append drop_take length_take min.absorb2 Cons.prems(2,3)
        diff_is_0_eq drop0)
  then have d: "drop parsed (myData m) = attr_bytes a @ attrs_bytes as @ drop (msg_length m) (myData m)"
    by (simp add: t)
  have "drop (parsed + attr_length a) (take (msg_length m) (myData m)) =
      drop (attr_length a) (drop parsed (take (msg_length m) (myData m)))"
    by (simp add: drop_drop add.commute)
  then have t': "drop (parsed + attr_length a) (take (msg_length m) (myData m)) = attrs_bytes as"
    using al by (simp add: t)
  have "decode_loop E S m parsed acc =
      decode_loop E S m (parsed + attr_length a) (acc @ [reveal_attr E S (msg_authenticator m) a])"
    using Cons.prems(2,6) Cons.prems(5) [of a] by (intro decode_loop_step [OF d _ r ok]) auto
  also have "\<dots> = Inr (0, (acc @ [reveal_attr E S (msg_authenticator m) a]) @
      map (reveal_attr E S (msg_authenticator m)) as)"
    using Cons.prems(2-4,6) r Cons.prems(5) [OF list.set_intros(2)] by (intro Cons.IH [OF t']) simp_all
  finally show ?case by simp
qed

text \<open>The constructor from received data, up to the verification of an Accounting-Request.\<close>

definition raw_message :: "radius_env \<Rightarrow> byte list \<Rightarrow> CRadiusMessage" where
  "raw_message E raw = \<lparr>myRequestAuthenticator = uninit E 16, myAttributes = [],
     myData = memcpy_at (uninit E RadiusMaxPacketSize) 0 raw (length raw)\<rparr>"

lemma raw_message_is:
  assumes "length a = 16" and "length b \<le> 4076"
  shows "msg_is (raw_message E (radius_packet c i a b)) c i a b"
  using assms by (intro msg_isI [where rest = "drop (20 + length b) (uninit E 4096)"])
    (simp_all add: raw_message_def memcpy_at_def)

lemma received_packet:
  fixes E :: radius_env and i :: byte
  assumes l: "length a = 16" "length (attrs_bytes as) \<le> 4076" and S: "length S < 256"
    and ok: "\<And>x. x \<in> set as \<Longrightarrow> attr_ok x \<and> (myType x = RA_USER_PASSWORD \<longrightarrow> c = RP_ACCESS_REQUEST)"
  defines "m \<equiv> (raw_message E (radius_packet c i a (attrs_bytes as)))\<lparr>myAttributes := map (reveal_attr E S a) as\<rparr>"
  shows "received_message E (radius_packet c i a (attrs_bytes as)) S =
    (if c = RP_ACCOUNTING_REQUEST then
       rbind (verifyAccountingRequestAuthenticator E S m) (\<lambda>(ok, m). Inr m) else Inr m)"
    and "msg_is m c i a (attrs_bytes as)"
proof -
  let ?p = "radius_packet c i a (attrs_bytes as)" and ?r = "raw_message E (radius_packet c i a (attrs_bytes as))"
  have r: "msg_is ?r c i a (attrs_bytes as)" using l by (rule raw_message_is)
  note f = msg_is_fields [OF r]
  show m: "msg_is m c i a (attrs_bytes as)" using r by (simp add: m_def msg_is_def)
  have "drop 20 (take (msg_length ?r) (myData ?r)) = attrs_bytes as"
    using r l by (simp only: f msg_is_def drop_radius_packet)
  then have "decode_loop E S ?r 20 [] = Inr (0, [] @ map (reveal_attr E S (msg_authenticator ?r)) as)"
    using f l S ok by (intro decode_loop_attrs) auto
  then have d: "decodeAttributes E S ?r = Inr (0, m)"
    by (simp add: decodeAttributes_def f m_def) (simp add: raw_message_def)
  have "received_message E ?p S = rbind (decodeAttributes E S ?r) (\<lambda>(r, m).
      if msg_code m = RP_ACCOUNTING_REQUEST then
        rbind (verifyAccountingRequestAuthenticator E S m) (\<lambda>(ok, m). Inr m) else Inr m)"
    using l f(3) by (simp add: received_message_def Let_def raw_message_def)
  then show "received_message E ?p S =
    (if c = RP_ACCOUNTING_REQUEST then
       rbind (verifyAccountingRequestAuthenticator E S m) (\<lambda>(ok, m). Inr m) else Inr m)"
    by (simp add: d msg_is_fields(1) [OF m])
qed

section \<open>Authenticators\<close>

text \<open>Loading the secret behind the message and hashing both.\<close>

lemma load_secret:
  assumes "msg_is m c i a b" and "20 + length b + length S \<le> 4096"
  defines "m' \<equiv> m\<lparr>myData := memcpy_at (myData m) (20 + length b) S (length S)\<rparr>"
  shows "msg_is m' c i a b" and "take (20 + length b + length S) (myData m') = radius_packet c i a b @ S"
  using assms(1)
proof (atomize (full), elim msg_isE)
  fix rest
  assume h: "myData m = radius_packet c i a b @ rest" "length a = 16" "length b + length rest = 4076"
  have d: "myData m' = radius_packet c i a b @ S @ drop (length S) rest"
    using h by (simp add: m'_def memcpy_at_def)
  then have "msg_is m' c i a b" using h assms(2) by (intro msg_isI [where rest = "S @ drop (length S) rest"]) simp_all
  then show "msg_is m' c i a b \<and> take (20 + length b + length S) (myData m') = radius_packet c i a b @ S"
    using d h by simp
qed

lemma calcResponseAuthenticator_is:
  assumes m: "msg_is m c i a b" and r: "20 + length b + length S \<le> 4096" and ra: "length (myRequestAuthenticator m) = 16"
  obtains m' where "calcResponseAuthenticator E S m = Inr m'"
    and "msg_is m' c i (calcMD5 E (radius_packet c i (myRequestAuthenticator m) b @ S)) b"
    and "myAttributes m' = myAttributes m"
proof -
  define m1 where "m1 = set_authenticator (myRequestAuthenticator m) m"
  have m1: "msg_is m1 c i (myRequestAuthenticator m) b" unfolding m1_def by (rule set_authenticator_is [OF m ra])
  define m2 where "m2 = m1\<lparr>myData := memcpy_at (myData m1) (20 + length b) S (length S)\<rparr>"
  note m2 = load_secret [OF m1 r, folded m2_def]
  define auth where "auth = calcMD5 E (radius_packet c i (myRequestAuthenticator m) b @ S)"
  have "calcResponseAuthenticator E S m = Inr (set_authenticator auth m2)"
    unfolding calcResponseAuthenticator_def Let_def msg_is_fields(3) [OF m] m1_def [symmetric] m2_def [symmetric] m2(2)
      auth_def [symmetric] using r by simp
  moreover have "msg_is (set_authenticator auth m2) c i auth b"
    by (rule set_authenticator_is [OF m2(1)]) (simp add: auth_def)
  moreover have "myAttributes m2 = myAttributes m" by (simp add: m2_def m1_def)
  ultimately show ?thesis using that by (simp add: auth_def)
qed

lemma calcAccountingRequestAuthenticator_is:
  assumes m: "msg_is m c i a b" and r: "20 + length b + length S \<le> 4096"
  obtains m' where "calcAccountingRequestAuthenticator E S m = Inr m'"
    and "msg_is m' c i (calcMD5 E (radius_packet c i (replicate 16 0) b @ S)) b"
    and "myAttributes m' = myAttributes m"
    and "myRequestAuthenticator m' = calcMD5 E (radius_packet c i (replicate 16 0) b @ S)"
proof -
  define m1 where "m1 = set_authenticator (replicate 16 0) m"
  have m1: "msg_is m1 c i (replicate 16 0) b" unfolding m1_def by (rule set_authenticator_is [OF m]) simp
  define m2 where "m2 = m1\<lparr>myData := memcpy_at (myData m1) (20 + length b) S (length S)\<rparr>"
  note m2 = load_secret [OF m1 r, folded m2_def]
  define auth where "auth = calcMD5 E (radius_packet c i (replicate 16 0) b @ S)"
  define m3 where "m3 = m2\<lparr>myRequestAuthenticator := auth\<rparr>"
  have "calcAccountingRequestAuthenticator E S m = Inr (set_authenticator auth m3)"
    unfolding calcAccountingRequestAuthenticator_def Let_def msg_is_fields(3) [OF m] m1_def [symmetric]
      m2_def [symmetric] m2(2) auth_def [symmetric] m3_def [symmetric] using r by simp
  moreover have "msg_is m3 c i (replicate 16 0) b" using m2(1) by (simp add: m3_def msg_is_def)
  then have "msg_is (set_authenticator auth m3) c i auth b"
    by (rule set_authenticator_is) (simp add: auth_def)
  moreover have "myAttributes m3 = myAttributes m" by (simp add: m3_def m2_def m1_def)
  ultimately show ?thesis using that by (simp add: auth_def m3_def)
qed

end
