(* ===== verification/Radius_Correct.thy ===== *)
theory Radius_Correct
  imports Radius_Wire
begin

text \<open>
  Requests and responses from one end to the other: what the composing side sends is the packet of
  RFC 2865 and RFC 2866 with the password hidden and the authenticator set, and the receiving side
  gets the attributes back.
\<close>

section \<open>Hiding the password in the packet\<close>

lemma hide_loop_none: "(\<And>a. a \<in> set as \<Longrightarrow> myType a \<noteq> RA_USER_PASSWORD) \<Longrightarrow> hide_loop as off h n buf = Inr buf"
  by (induction as arbitrary: off) auto

lemma hide_loop_one:
  assumes "\<And>a. a \<in> set pre \<Longrightarrow> myType a \<noteq> RA_USER_PASSWORD" and "myType pw = RA_USER_PASSWORD"
    and "\<And>a. a \<in> set post \<Longrightarrow> myType a \<noteq> RA_USER_PASSWORD"
    and "off + sum_list (map attr_length pre) + 2 + n \<le> 4096"
  shows "hide_loop (pre @ pw # post) off h n buf = Inr (memcpy_at buf (off + sum_list (map attr_length pre) + 2) h n)"
  using assms by (induction pre arbitrary: off) (auto simp: hide_loop_none add.assoc)

lemma hide_attr_other: "(\<And>a. a \<in> set as \<Longrightarrow> myType a \<noteq> RA_USER_PASSWORD) \<Longrightarrow> map (hide_attr E S auth) as = as"
  by (induction as) (auto simp: hide_attr_def)

lemma sum_attr_length: "(\<And>a. a \<in> set as \<Longrightarrow> attr_ok a) \<Longrightarrow> sum_list (map attr_length as) = length (attrs_bytes as)"
  by (induction as) (auto simp: attr_ok_length)

lemma hideUserPassword_is:
  assumes m: "msg_is m RP_ACCESS_REQUEST i a (attrs_bytes (myAttributes m))"
    and ok: "\<And>x. x \<in> set (myAttributes m) \<Longrightarrow> attr_ok x"
    and one: "getAll RA_USER_PASSWORD m = [pw]" and S: "length S < 256"
  obtains m' where "hideUserPassword E S m = Inr m'"
    and "msg_is m' RP_ACCESS_REQUEST i a (attrs_bytes (map (hide_attr E S a) (myAttributes m)))"
    and "myAttributes m' = myAttributes m" and "myRequestAuthenticator m' = myRequestAuthenticator m"
proof -
  obtain pre post where as: "myAttributes m = pre @ pw # post"
    and pre: "\<forall>x\<in>set pre. myType x \<noteq> RA_USER_PASSWORD" and t: "myType pw = RA_USER_PASSWORD"
    and post: "[] = filter (\<lambda>x. myType x = RA_USER_PASSWORD) post"
    using one by (auto simp: getAll_def filter_eq_Cons_iff)
  have npre: "\<And>x. x \<in> set pre \<Longrightarrow> myType x \<noteq> RA_USER_PASSWORD" using pre by blast
  have npost: "\<And>x. x \<in> set post \<Longrightarrow> myType x \<noteq> RA_USER_PASSWORD"
    using post [symmetric] by (auto simp: filter_empty_conv)
  note w = password_length [OF ok [of pw, unfolded as], simplified, OF t]
  let ?p = "myValue pw" and ?n = "length (myValue pw)" and ?pre = "attrs_bytes pre" and ?post = "attrs_bytes post"
  obtain hidden where e: "encodeUserPassword E S ?p m = Inr hidden" and lh: "length hidden = 256"
    and h: "take ?n hidden = rfc_hide E S a ?p"
    using encodeUserPassword_rfc [OF S, of ?p E m] w by (auto simp: msg_is_fields(4) [OF m])
  have pb: "attr_bytes pw = [2, of_nat (?n + 2)] @ ?p" using t by (simp add: attr_bytes_def)
  obtain rest where d: "myData m = radius_packet 1 i a (attrs_bytes (myAttributes m)) @ rest"
    and l: "length a = 16" "length (attrs_bytes (myAttributes m)) + length rest = 4076"
    using m by (rule msg_isE)
  define hd where "hd = [1, i] @ PUTSHORT (20 + length (attrs_bytes (myAttributes m))) @ a @ ?pre @ [2, of_nat (?n + 2)]"
  have data: "myData m = hd @ ?p @ ?post @ rest"
    by (simp add: d radius_packet_def hd_def as pb)
  have lpre: "sum_list (map attr_length pre) = length ?pre" using ok as by (intro sum_attr_length) auto
  have pos: "length hd = 20 + length ?pre + 2" using l by (simp add: hd_def)
  have room: "20 + length ?pre + 2 + ?n \<le> 4096" using l by (simp add: as pb)
  define m' where "m' = m\<lparr>myData := memcpy_at (myData m) (20 + length ?pre + 2) hidden ?n\<rparr>"
  have "hideUserPassword E S m = Inr m'"
    using one e room hide_loop_one [OF npre t npost, where off = 20 and n = ?n and h = hidden and buf = "myData m"]
    by (simp add: hideUserPassword_def msg_is_fields(1) [OF m] as lpre m'_def)
  moreover have "msg_is m' 1 i a (attrs_bytes (map (hide_attr E S a) (myAttributes m)))"
  proof (rule msg_isI [where rest = rest])
    have "memcpy_at (myData m) (20 + length ?pre + 2) hidden ?n = hd @ rfc_hide E S a ?p @ ?post @ rest"
      unfolding data h [symmetric] by (rule memcpy_at_middle [OF pos refl])
    moreover have "attr_bytes (hide_attr E S a pw) = [2, of_nat (?n + 2)] @ rfc_hide E S a ?p"
      using w t by (simp add: hide_attr_def attr_bytes_def length_rfc_hide)
    ultimately show "myData m' = radius_packet 1 i a (attrs_bytes (map (hide_attr E S a) (myAttributes m))) @ rest"
      using w by (simp add: m'_def as hide_attr_other [OF npre] hide_attr_other [OF npost] radius_packet_def
          hd_def pb length_rfc_hide)
    show "length (attrs_bytes (map (hide_attr E S a) (myAttributes m))) + length rest = 4076"
      using l w t by (simp add: as hide_attr_other [OF npre] hide_attr_other [OF npost] pb hide_attr_def
          attr_bytes_def length_rfc_hide)
  qed (rule l(1))
  ultimately show ?thesis using that by (simp add: m'_def)
qed

section \<open>Composing a request\<close>

definition add_all :: "CRadiusAttribute list \<Rightarrow> CRadiusMessage \<Rightarrow> CRadiusMessage" where
  "add_all as m = fold (\<lambda>a m. snd (msg_add a m)) as m"

lemma add_all_is:
  assumes "msg_is m c i a b" and "\<And>x. x \<in> set as \<Longrightarrow> attr_ok x" and "length b + length (attrs_bytes as) \<le> 4076"
  shows "msg_is (add_all as m) c i a (b @ attrs_bytes as) \<and>
    myAttributes (add_all as m) = myAttributes m @ as \<and>
    myRequestAuthenticator (add_all as m) = myRequestAuthenticator m"
  using assms
proof (induction as arbitrary: m b)
  case (Cons x as)
  have ok: "attr_ok x" using Cons.prems(2) by simp
  obtain m' where "msg_add x m = (True, m')" and m': "msg_is m' c i a (b @ attr_bytes x)"
    and "myAttributes m' = myAttributes m @ [x]" "myRequestAuthenticator m' = myRequestAuthenticator m"
    using msg_add_is [OF Cons.prems(1) ok] Cons.prems(3) attr_ok_length [OF ok] by auto
  then show ?case using Cons.IH [OF m'] Cons.prems(2,3) by (simp add: add_all_def)
qed (simp add: add_all_def)

lemma request_composed:
  assumes "request_message E c = Inr m0" and "\<And>x. x \<in> set as \<Longrightarrow> attr_ok x" and "length (attrs_bytes as) \<le> 4076"
  shows "msg_is (setIdentifier i (add_all as m0)) c i (replicate 16 0) (attrs_bytes as)"
    and "myAttributes (setIdentifier i (add_all as m0)) = as"
proof -
  have m0: "msg_is m0 c 0 (replicate 16 0) []" "myAttributes m0 = []"
    using assms(1) by (auto simp: request_message_def radius_assert_def split: if_splits intro: new_header_is)
  have "msg_is (add_all as m0) c 0 (replicate 16 0) ([] @ attrs_bytes as) \<and>
      myAttributes (add_all as m0) = myAttributes m0 @ as \<and>
      myRequestAuthenticator (add_all as m0) = myRequestAuthenticator m0"
    by (rule add_all_is [OF m0(1) assms(2)]) (simp_all add: assms(3))
  then show "msg_is (setIdentifier i (add_all as m0)) c i (replicate 16 0) (attrs_bytes as)"
    and "myAttributes (setIdentifier i (add_all as m0)) = as"
    using m0(2) by (auto intro: setIdentifier_is)
qed

text \<open>The digest is all of the environment the hiding of passwords depends on.\<close>

lemma calcMD5_cong: "rad_md5 E' = rad_md5 E \<Longrightarrow> calcMD5 E' = calcMD5 E"
  by (simp add: calcMD5_def fun_eq_iff)

lemma rfc_reveal_cong: "rad_md5 E' = rad_md5 E \<Longrightarrow> rfc_reveal E' S c q = rfc_reveal E S c q"
proof (induction E S c q rule: rfc_reveal.induct)
  case (1 E S c q)
  then show ?case
    by (subst (1 2) rfc_reveal.simps) (simp add: calcMD5_cong [OF "1.prems"])
qed

lemma reveal_hide_attrs:
  assumes "rad_md5 E' = rad_md5 E" and "\<And>x. x \<in> set as \<Longrightarrow> attr_ok x"
  shows "map (reveal_attr E' S auth) (map (hide_attr E S auth) as) = as"
proof -
  have "reveal_attr E' S auth = reveal_attr E S auth"
    by (simp add: fun_eq_iff reveal_attr_def rfc_reveal_cong [OF assms(1)])
  then show ?thesis using assms(2) by (simp add: map_idI reveal_hide_attr)
qed

lemma sent_data: "msg_is m c i a b \<Longrightarrow> CRadiusData (myData m) (msg_length m) = radius_packet c i a b"
  by (simp add: CRadiusData_def msg_is_fields(3)) (simp add: msg_is_def)

section \<open>Access-Request\<close>

text \<open>
  An Access-Request: the attributes \<open>as\<close> with one password and a NAS address, under the identifier
  \<open>i\<close>, are sent as the RFC's packet with the password hidden under the fresh authenticator, and a
  server with the same secret gets \<open>as\<close> back, the password in clear.
\<close>

lemma radius_access_request:
  assumes new: "request_message E RP_ACCESS_REQUEST = Inr m0" and m: "m = setIdentifier i (add_all as m0)"
    and ok: "\<And>x. x \<in> set as \<Longrightarrow> attr_ok x" and room: "length (attrs_bytes as) \<le> 4076"
    and pw: "filter (\<lambda>x. myType x = RA_USER_PASSWORD) as = [pw]"
    and nas: "filter (\<lambda>x. myType x = RA_NAS_IP_ADDRESS) as = nas # nases" "length (myValue nas) \<le> 251"
    and S: "length S < 256" and E': "rad_md5 E' = rad_md5 E"
  defines "auth \<equiv> calcMD5 E (rev (PUTLONG (rad_time E)) @ myValue nas @ [i])"
  shows "\<exists>m' r. calcAuthenticator E S m = Inr m' \<and> myRequestAuthenticator m' = auth \<and>
    CRadiusData (myData m') (msg_length m') =
      radius_packet RP_ACCESS_REQUEST i auth (attrs_bytes (map (hide_attr E S auth) as)) \<and>
    msg_length m' \<le> 4096 \<and>
    received_message E' (CRadiusData (myData m') (msg_length m')) S = Inr r \<and>
    msg_code r = RP_ACCESS_REQUEST \<and> getIdentifier r = i \<and> myAttributes r = as"
proof -
  note mi = request_composed(1) [OF new ok room, of i, folded m]
    and ma = request_composed(2) [OF new ok room, of i, folded m]
  define m1 where "m1 = set_authenticator auth (m\<lparr>myRequestAuthenticator := auth\<rparr>)"
  have la: "length auth = 16" by (simp add: auth_def)
  have "msg_is (m\<lparr>myRequestAuthenticator := auth\<rparr>) 1 i (replicate 16 0) (attrs_bytes as)"
    using mi by (simp add: msg_is_def)
  then have m1: "msg_is m1 1 i auth (attrs_bytes (myAttributes m1))"
    using la by (simp add: m1_def set_authenticator_is ma)
  have m1a: "myAttributes m1 = as" "myRequestAuthenticator m1 = auth"
    by (simp_all add: m1_def ma)
  have c: "calcAccessRequestAuthenticator E m = Inr m1"
    using nas by (simp add: calcAccessRequestAuthenticator_def getAll_def ma msg_is_fields(2) [OF mi]
        auth_def [symmetric] m1_def Let_def)
  have "getAll RA_USER_PASSWORD m1 = [pw]" using pw by (simp add: getAll_def m1a)
  then obtain m' where h: "hideUserPassword E S m1 = Inr m'"
    and m': "msg_is m' 1 i auth (attrs_bytes (map (hide_attr E S auth) as))"
      "myRequestAuthenticator m' = auth"
    using hideUserPassword_is [OF m1 _ _ S, of pw E] ok m1a by auto
  let ?hs = "map (hide_attr E S auth) as"
  have hl: "length (attrs_bytes ?hs) \<le> 4076" using m'(1) by (simp add: msg_is_def)
  have hok: "\<And>x. x \<in> set ?hs \<Longrightarrow> attr_ok x \<and> (myType x = 2 \<longrightarrow> (1 :: byte) = 1)"
    using ok hide_attr_ok by auto
  note rp = received_packet [OF la hl S hok, of E' i]
  have ml: "msg_length m' \<le> 4096" using hl msg_is_fields(3) [OF m'(1)] by simp
  have "calcAuthenticator E S m = Inr m'"
    using h c by (simp add: calcAuthenticator_def msg_is_fields(1) [OF mi])
  then show ?thesis
    using m'(2) rp(1) msg_is_fields [OF rp(2)] reveal_hide_attrs [OF E' ok] ml
    by (simp add: sent_data [OF m'(1)])
qed

section \<open>Accounting-Request\<close>

lemma reveal_attr_other: "(\<And>a. a \<in> set as \<Longrightarrow> myType a \<noteq> RA_USER_PASSWORD) \<Longrightarrow> map (reveal_attr E S auth) as = as"
  by (induction as) (auto simp: reveal_attr_def)

definition accounting_digest :: "radius_env \<Rightarrow> byte list \<Rightarrow> byte \<Rightarrow> byte list \<Rightarrow> byte list" where
  "accounting_digest E S i b = calcMD5 E (radius_packet RP_ACCOUNTING_REQUEST i (replicate 16 0) b @ S)"

lemma length_accounting_digest [simp]: "length (accounting_digest E S i b) = 16"
  by (simp add: accounting_digest_def)

lemma verifyAccountingRequest_is:
  assumes m: "msg_is m RP_ACCOUNTING_REQUEST i a b" and r: "20 + length b + length S \<le> 4096"
  obtains m' where "verifyAccountingRequestAuthenticator E S m = Inr (a = accounting_digest E S i b, m')"
    and "msg_is m' RP_ACCOUNTING_REQUEST i (accounting_digest E S i b) b" and "myAttributes m' = myAttributes m"
proof -
  obtain m' where m': "calcAccountingRequestAuthenticator E S m = Inr m'"
    "msg_is m' RP_ACCOUNTING_REQUEST i (accounting_digest E S i b) b" "myAttributes m' = myAttributes m"
    using m r unfolding accounting_digest_def by (rule calcAccountingRequestAuthenticator_is)
  have "verifyAccountingRequestAuthenticator E S m = Inr (a = accounting_digest E S i b, m')"
    using m'(1) by (simp add: verifyAccountingRequestAuthenticator_def msg_is_fields [OF m] msg_is_fields(4) [OF m'(2)])
  then show ?thesis using that m'(2,3) by blast
qed

text \<open>A received packet with well-formed attributes and no password.\<close>

lemma received_plain:
  assumes l: "length a = 16" and ok: "\<And>x. x \<in> set as \<Longrightarrow> attr_ok x \<and> myType x \<noteq> RA_USER_PASSWORD"
    and room: "20 + length (attrs_bytes as) + length S \<le> 4096" and S: "length S < 256"
  obtains r where "received_message E (radius_packet c i a (attrs_bytes as)) S = Inr r"
    and "myAttributes r = as"
    and "msg_is r c i (if c = RP_ACCOUNTING_REQUEST then accounting_digest E S i (attrs_bytes as) else a) (attrs_bytes as)"
proof -
  let ?b = "attrs_bytes as"
  define m where "m = (raw_message E (radius_packet c i a ?b))\<lparr>myAttributes := map (reveal_attr E S a) as\<rparr>"
  have lb: "length ?b \<le> 4076" using room by simp
  have ok': "\<And>x. x \<in> set as \<Longrightarrow> attr_ok x \<and> (myType x = 2 \<longrightarrow> c = 1)" using ok by blast
  have as: "myAttributes m = as" using ok by (simp add: m_def reveal_attr_other)
  note rp = received_packet [OF l lb S ok', of E i, folded m_def]
  show ?thesis
  proof (cases "c = RP_ACCOUNTING_REQUEST")
    case True
    obtain m' where "verifyAccountingRequestAuthenticator E S m = Inr (a = accounting_digest E S i ?b, m')"
      "msg_is m' c i (accounting_digest E S i ?b) ?b" "myAttributes m' = as"
      using verifyAccountingRequest_is [OF rp(2) [unfolded True] room, of E] True as by auto
    then show ?thesis using True rp(1) that by simp
  next
    case False
    then show ?thesis using rp as that by simp
  qed
qed

text \<open>
  An Accounting-Request is sent with the authenticator of RFC 2866; the receiving side gets its
  attributes back, and the authenticator it computes itself is the one received.
\<close>

lemma radius_accounting_request:
  assumes new: "request_message E RP_ACCOUNTING_REQUEST = Inr m0" and m: "m = setIdentifier i (add_all as m0)"
    and ok: "\<And>x. x \<in> set as \<Longrightarrow> attr_ok x \<and> myType x \<noteq> RA_USER_PASSWORD"
    and room: "20 + length (attrs_bytes as) + length S \<le> 4096" and S: "length S < 256"
    and E': "rad_md5 E' = rad_md5 E"
  shows "\<exists>m' r. calcAuthenticator E S m = Inr m' \<and>
    CRadiusData (myData m') (msg_length m') =
      radius_packet RP_ACCOUNTING_REQUEST i (accounting_digest E S i (attrs_bytes as)) (attrs_bytes as) \<and>
    received_message E' (CRadiusData (myData m') (msg_length m')) S = Inr r \<and> myAttributes r = as \<and>
    CRadiusData (myData r) (msg_length r) = CRadiusData (myData m') (msg_length m')"
proof -
  let ?b = "attrs_bytes as"
  have mi: "msg_is m 4 i (replicate 16 0) ?b"
    using request_composed(1) [OF new, of as i] ok room by (simp add: m)
  obtain m' where c: "calcAccountingRequestAuthenticator E S m = Inr m'"
    and m': "msg_is m' 4 i (accounting_digest E S i ?b) ?b"
    using calcAccountingRequestAuthenticator_is [OF mi room, of E] by (auto simp: accounting_digest_def)
  have dig: "accounting_digest E' S i ?b = accounting_digest E S i ?b"
    by (simp add: accounting_digest_def calcMD5_cong [OF E'])
  obtain r where r: "received_message E' (radius_packet 4 i (accounting_digest E S i ?b) ?b) S = Inr r"
    "myAttributes r = as"
    and r0: "msg_is r 4 i (if (4 :: byte) = 4 then accounting_digest E' S i ?b else accounting_digest E S i ?b) ?b"
    using length_accounting_digest ok room S by (rule received_plain)
  have rm: "msg_is r 4 i (accounting_digest E' S i ?b) ?b" using r0 by simp
  show ?thesis
    using c r by (auto simp: calcAuthenticator_def msg_is_fields(1) [OF mi] sent_data [OF m'] sent_data [OF rm] dig)
qed

section \<open>Responses\<close>

definition response_digest :: "radius_env \<Rightarrow> byte list \<Rightarrow> byte \<Rightarrow> byte \<Rightarrow> byte list \<Rightarrow> byte list \<Rightarrow> byte list" where
  "response_digest E S c i ra b = calcMD5 E (radius_packet c i ra b @ S)"



text \<open>A response composed for a request carries that authenticator.\<close>

theorem radius_response_sent:
  assumes new: "response_message E c i (Some ra) = Inr m0" and l: "length ra = 16"
    and ok: "\<And>x. x \<in> set as \<Longrightarrow> attr_ok x" and room: "20 + length (attrs_bytes as) + length S \<le> 4096"
  shows "\<exists>m'. calcAuthenticator E S (add_all as m0) = Inr m' \<and>
    CRadiusData (myData m') (msg_length m') =
      radius_packet c i (response_digest E S c i ra (attrs_bytes as)) (attrs_bytes as)"
proof -
  have c: "c = 5 \<or> c = 3 \<or> c = 11 \<or> c = 2" and m0: "m0 = \<lparr>myRequestAuthenticator = ra, myAttributes = [],
      myData = new_header E c i\<rparr>"
    using new l by (auto simp: response_message_def radius_assert_def split: if_splits)
  have mi0: "msg_is m0 c i (replicate 16 0) []" by (rule new_header_is [of _ E]) (simp add: m0)
  have mi: "msg_is (add_all as m0) c i (replicate 16 0) (attrs_bytes as)"
    "myRequestAuthenticator (add_all as m0) = ra"
    using add_all_is [OF mi0 ok] room m0 by auto
  obtain m' where "calcResponseAuthenticator E S (add_all as m0) = Inr m'"
    "msg_is m' c i (response_digest E S c i ra (attrs_bytes as)) (attrs_bytes as)"
    using calcResponseAuthenticator_is [OF mi(1) room, of E] mi(2) l by (auto simp: response_digest_def)
  then show ?thesis using c
    by (auto simp: calcAuthenticator_def msg_is_fields(1) [OF mi(1)] sent_data)
qed

end
