(* ===== verification/Radius_Client.thy ===== *)
theory Radius_Client
  imports Radius_Correct
begin

text \<open>
  The RADIUS client: requests waiting for their answer (\<^verbatim>\<open>CRadiusTransaction.cpp\<close>), the connection to
  one server (\<^verbatim>\<open>CRadiusConnector.cpp\<close>), the four connections of a scheme (\<^verbatim>\<open>CRadiusScheme.cpp\<close>) and the
  manager with its two built-in requests (\<^verbatim>\<open>CRadiusManager.cpp\<close>).

  The datagrams handed to \<^verbatim>\<open>sendto\<close> and the calls of the requester's callback are appended to
  \<open>conn_sent\<close> and \<open>conn_calls\<close>. What the operating system answers is an argument: whether a system call
  succeeds, and the datagram \<^verbatim>\<open>recvfrom\<close> delivers. A transaction's timer runs while it is in the
  table: the constructor starts it with an interval, the destructor cancels it.
\<close>

section \<open>Configuration (CRadiusConfig.h)\<close>

record radius_config =
  m_localip :: u32
  m_localport :: u16
  m_sharedkey :: "byte list"
  m_responsetimeout :: int
  m_retransmit :: int
  m_UserName :: "byte list"
  m_Userpassword :: "byte list"
  m_called_station_id :: "byte list"
  m_calling_station_id :: "byte list"

section \<open>Transactions and connections\<close>

abbreviation (input) TRTIMEOUT :: int where "TRTIMEOUT \<equiv> 0"
abbreviation (input) TRRESPONSE :: int where "TRRESPONSE \<equiv> 1"

record CRadiusTransaction =
  m_requestcount :: u32
  m_identifier :: byte
  m_timeout :: u32
  m_retrans :: u32
  m_callback :: "nat option"
  m_requestmsg :: CRadiusMessage

text \<open>A call \<^verbatim>\<open>m_callback(pRaMsg, type)\<close> of the requester \<open>call_to\<close>.\<close>

record radius_call =
  call_to :: nat
  call_msg :: "CRadiusMessage option"
  call_type :: int

record CRadiusConnector =
  m_open :: bool
  m_peeraddr :: "u32 \<times> u16"
  m_trans :: "byte \<rightharpoonup> CRadiusTransaction"
  m_nIdentifierBase :: u32
  conn_sent :: "byte list list"
  conn_calls :: "radius_call list"

definition new_connector :: CRadiusConnector where
  "new_connector = \<lparr>m_open = False, m_peeraddr = (0, 0), m_trans = Map.empty, m_nIdentifierBase = 0,
     conn_sent = [], conn_calls = []\<rparr>"

text \<open>The answers of the system calls of \<^verbatim>\<open>StartConnect\<close>, in their order.\<close>

record sock_results =
  sock_socket :: bool
  sock_reuse :: bool
  sock_rcvbuf :: bool
  sock_sndbuf :: bool
  sock_register :: bool

definition StartConnect :: "sock_results \<Rightarrow> u32 \<times> u16 \<Rightarrow> CRadiusConnector \<Rightarrow> int \<times> CRadiusConnector" where
  "StartConnect sr peeraddr c =
     (let c = c\<lparr>m_peeraddr := peeraddr\<rparr> in
      if \<not> sock_socket sr then (-1, c\<lparr>m_open := False\<rparr>)
      else if \<not> sock_reuse sr then (-1, c\<lparr>m_open := False\<rparr>)
      else if \<not> sock_rcvbuf sr then (-1, c\<lparr>m_open := False\<rparr>)
      else if \<not> sock_sndbuf sr then (-1, c\<lparr>m_open := False\<rparr>)
      else if \<not> sock_register sr then (-1, c\<lparr>m_open := False\<rparr>)
      else (0, c\<lparr>m_open := True\<rparr>))"

definition StopConnect :: "CRadiusConnector \<Rightarrow> int \<times> CRadiusConnector" where
  "StopConnect c = (0, c\<lparr>m_open := False\<rparr>)"

definition conn_SendData :: "bool \<Rightarrow> byte list \<Rightarrow> CRadiusConnector \<Rightarrow> int \<times> CRadiusConnector" where
  "conn_SendData ok dat c = (if ok then 0 else -1, c\<lparr>conn_sent := conn_sent c @ [dat]\<rparr>)"

definition FindTransaction :: "byte \<Rightarrow> CRadiusConnector \<Rightarrow> CRadiusTransaction option" where
  "FindTransaction ident c = m_trans c ident"

definition RemoveTransaction :: "byte \<Rightarrow> CRadiusConnector \<Rightarrow> CRadiusConnector" where
  "RemoveTransaction ident c = c\<lparr>m_trans := (m_trans c)(ident := None)\<rparr>"

definition AddTransaction :: "byte \<Rightarrow> CRadiusTransaction \<Rightarrow> CRadiusConnector \<Rightarrow> int \<times> CRadiusConnector" where
  "AddTransaction ident tr c =
     (if m_trans c ident \<noteq> None then (-1, c) else (0, c\<lparr>m_trans := (m_trans c)(ident \<mapsto> tr)\<rparr>))"

definition new_transaction ::
  "radius_config \<Rightarrow> byte \<Rightarrow> CRadiusMessage \<Rightarrow> nat option \<Rightarrow> CRadiusTransaction" where
  "new_transaction cfg identifier requestmsg callback =
     \<lparr>m_requestcount = 0, m_identifier = identifier, m_timeout = of_int (m_responsetimeout cfg),
      m_retrans = of_int (m_retransmit cfg), m_callback = callback, m_requestmsg = requestmsg\<rparr>"

definition call_back :: "nat option \<Rightarrow> CRadiusMessage option \<Rightarrow> int \<Rightarrow> CRadiusConnector \<Rightarrow> CRadiusConnector" where
  "call_back callback msg type c =
     (case callback of None \<Rightarrow> c
      | Some f \<Rightarrow> c\<lparr>conn_calls := conn_calls c @ [\<lparr>call_to = f, call_msg = msg, call_type = type\<rparr>]\<rparr>)"

definition RecvResponse :: "CRadiusMessage \<Rightarrow> CRadiusTransaction \<Rightarrow> CRadiusConnector \<Rightarrow> CRadiusConnector" where
  "RecvResponse resp t c =
     RemoveTransaction (m_identifier t) (call_back (m_callback t) (Some resp) TRRESPONSE c)"

definition request_data :: "CRadiusMessage \<Rightarrow> byte list" where
  "request_data m = take (msg_length m) (myData m)"

definition SendRequest :: "bool \<Rightarrow> CRadiusTransaction \<Rightarrow> CRadiusConnector \<Rightarrow> CRadiusConnector" where
  "SendRequest ok t c = snd (conn_SendData ok (request_data (m_requestmsg t)) c)"

text \<open>The timer of the transaction in the table under \<open>ident\<close>.\<close>

definition trans_handle_timeout :: "bool \<Rightarrow> byte \<Rightarrow> CRadiusConnector \<Rightarrow> CRadiusConnector" where
  "trans_handle_timeout ok ident c =
     (case m_trans c ident of None \<Rightarrow> c
      | Some t \<Rightarrow>
        if m_requestcount t \<ge> m_retrans t then
          RemoveTransaction (m_identifier t) (call_back (m_callback t) None TRTIMEOUT c)
        else let c = SendRequest ok t c
             in c\<lparr>m_trans := (m_trans c)(ident \<mapsto> t\<lparr>m_requestcount := m_requestcount t + 1\<rparr>)\<rparr>)"

text \<open>
  A datagram. \<open>recv\<close> is what \<^verbatim>\<open>recvfrom\<close> delivered, \<open>None\<close> an error; the rest of the buffer on the stack
  is not initialised. The pointer to the request's authenticator is null.
\<close>

definition conn_handle_input ::
  "radius_env \<Rightarrow> radius_config \<Rightarrow> byte list option \<Rightarrow> CRadiusConnector \<Rightarrow> radius_fault + int \<times> CRadiusConnector" where
  "conn_handle_input E cfg recv c =
     (case recv of None \<Rightarrow> Inr (0, c)
      | Some dgram \<Rightarrow>
        if dgram = [] then Inr (0, c)
        else let dat = take RadiusMaxPacketSize dgram;
                 rawMsg = memcpy_at (uninit E RadiusMaxPacketSize) 0 dat (length dat);
                 msgRecvd = CRadiusData rawMsg (GETSHORT (rawMsg ! 2) (rawMsg ! 3));
                 ident = rawMsg ! 1
             in case FindTransaction ident c of None \<Rightarrow> Inr (1, c)
                | Some t \<Rightarrow>
                  rbind (received_message E msgRecvd (m_sharedkey cfg)) (\<lambda>accessResp.
                  rbind (verifyResponseAuthenticator E None (m_sharedkey cfg) accessResp) (\<lambda>(ok, accessResp).
                    if \<not> ok then Inr (0, c) else Inr (0, RecvResponse accessResp t c))))"

text \<open>
  \<^verbatim>\<open>SendMessage\<close>; the message is passed by reference. The secret is copied with its terminator into 256
  bytes. When the identifier is still in use the new transaction is destroyed again.
\<close>

definition SendMessage ::
  "radius_env \<Rightarrow> radius_config \<Rightarrow> bool \<Rightarrow> CRadiusMessage \<Rightarrow> nat option \<Rightarrow> CRadiusConnector \<Rightarrow>
   radius_fault + int \<times> CRadiusMessage \<times> CRadiusConnector" where
  "SendMessage E cfg ok accessReqMsg callback c =
     (if length (m_sharedkey cfg) + 1 > 256 then Inl RadiusOverrun
      else let base = m_nIdentifierBase c + 1;
               ident = ucast base;
               c = c\<lparr>m_nIdentifierBase := base\<rparr>
           in rbind (calcAuthenticator E (m_sharedkey cfg) (setIdentifier ident accessReqMsg)) (\<lambda>m.
                let (r, c) = AddTransaction ident (new_transaction cfg ident m callback) c in
                if r = -1 then Inr (-1, m, c)
                else let (r, c) = conn_SendData ok (request_data m) c in Inr (r, m, c)))"

section \<open>Schemes\<close>

record CRadiusScheme =
  m_schemname :: string
  m_PrimaryAuth :: CRadiusConnector
  m_PrimaryAcc :: CRadiusConnector
  m_SecondaryAuth :: CRadiusConnector
  m_SecondaryAcc :: CRadiusConnector

definition new_scheme :: "string \<Rightarrow> CRadiusScheme" where
  "new_scheme name = \<lparr>m_schemname = name, m_PrimaryAuth = new_connector, m_PrimaryAcc = new_connector,
     m_SecondaryAuth = new_connector, m_SecondaryAcc = new_connector\<rparr>"

definition SetUpPrimaryAuthConn :: "sock_results \<Rightarrow> u32 \<times> u16 \<Rightarrow> CRadiusScheme \<Rightarrow> int \<times> CRadiusScheme" where
  "SetUpPrimaryAuthConn sr addr s =
     (let (r, c) = StartConnect sr addr (m_PrimaryAuth s) in (r, s\<lparr>m_PrimaryAuth := c\<rparr>))"

definition SetUpPrimaryAcctConn :: "sock_results \<Rightarrow> u32 \<times> u16 \<Rightarrow> CRadiusScheme \<Rightarrow> int \<times> CRadiusScheme" where
  "SetUpPrimaryAcctConn sr addr s =
     (let (r, c) = StartConnect sr addr (m_PrimaryAcc s) in (r, s\<lparr>m_PrimaryAcc := c\<rparr>))"

definition SetUpSecondaryAuthConn :: "sock_results \<Rightarrow> u32 \<times> u16 \<Rightarrow> CRadiusScheme \<Rightarrow> int \<times> CRadiusScheme" where
  "SetUpSecondaryAuthConn sr addr s =
     (let (r, c) = StartConnect sr addr (m_SecondaryAuth s) in (r, s\<lparr>m_SecondaryAuth := c\<rparr>))"

definition SetUpSecondaryAcctConn :: "sock_results \<Rightarrow> u32 \<times> u16 \<Rightarrow> CRadiusScheme \<Rightarrow> int \<times> CRadiusScheme" where
  "SetUpSecondaryAcctConn sr addr s =
     (let (r, c) = StartConnect sr addr (m_SecondaryAcc s) in (r, s\<lparr>m_SecondaryAcc := c\<rparr>))"

definition SendAccessMessageP ::
  "radius_env \<Rightarrow> radius_config \<Rightarrow> bool \<Rightarrow> CRadiusMessage \<Rightarrow> nat option \<Rightarrow> CRadiusScheme \<Rightarrow>
   radius_fault + int \<times> CRadiusMessage \<times> CRadiusScheme" where
  "SendAccessMessageP E cfg ok m cb s =
     rbind (SendMessage E cfg ok m cb (m_PrimaryAuth s)) (\<lambda>(r, m, c). Inr (r, m, s\<lparr>m_PrimaryAuth := c\<rparr>))"

definition SendAcctMessageP ::
  "radius_env \<Rightarrow> radius_config \<Rightarrow> bool \<Rightarrow> CRadiusMessage \<Rightarrow> nat option \<Rightarrow> CRadiusScheme \<Rightarrow>
   radius_fault + int \<times> CRadiusMessage \<times> CRadiusScheme" where
  "SendAcctMessageP E cfg ok m cb s =
     rbind (SendMessage E cfg ok m cb (m_PrimaryAcc s)) (\<lambda>(r, m, c). Inr (r, m, s\<lparr>m_PrimaryAcc := c\<rparr>))"

definition SendAccessMessageS ::
  "radius_env \<Rightarrow> radius_config \<Rightarrow> bool \<Rightarrow> CRadiusMessage \<Rightarrow> nat option \<Rightarrow> CRadiusScheme \<Rightarrow>
   radius_fault + int \<times> CRadiusMessage \<times> CRadiusScheme" where
  "SendAccessMessageS E cfg ok m cb s =
     rbind (SendMessage E cfg ok m cb (m_SecondaryAuth s)) (\<lambda>(r, m, c). Inr (r, m, s\<lparr>m_SecondaryAuth := c\<rparr>))"

definition SendAcctMessageS ::
  "radius_env \<Rightarrow> radius_config \<Rightarrow> bool \<Rightarrow> CRadiusMessage \<Rightarrow> nat option \<Rightarrow> CRadiusScheme \<Rightarrow>
   radius_fault + int \<times> CRadiusMessage \<times> CRadiusScheme" where
  "SendAcctMessageS E cfg ok m cb s =
     rbind (SendMessage E cfg ok m cb (m_SecondaryAcc s)) (\<lambda>(r, m, c). Inr (r, m, s\<lparr>m_SecondaryAcc := c\<rparr>))"

section \<open>The manager\<close>

record CRadiusManager =
  m_config :: radius_config
  m_schemes :: "string \<rightharpoonup> CRadiusScheme"

definition CreateRadiusScheme :: "string \<Rightarrow> CRadiusManager \<Rightarrow> int \<times> CRadiusManager" where
  "CreateRadiusScheme name mgr =
     (if m_schemes mgr name \<noteq> None then (-1, mgr)
      else (0, mgr\<lparr>m_schemes := (m_schemes mgr)(name \<mapsto> new_scheme name)\<rparr>))"

definition DestroyRadiusScheme :: "string \<Rightarrow> CRadiusManager \<Rightarrow> int \<times> CRadiusManager" where
  "DestroyRadiusScheme name mgr =
     (if m_schemes mgr name = None then (-1, mgr)
      else (0, mgr\<lparr>m_schemes := (m_schemes mgr)(name := None)\<rparr>))"

definition FindRadiusScheme :: "string \<Rightarrow> CRadiusManager \<Rightarrow> CRadiusScheme option" where
  "FindRadiusScheme name mgr = m_schemes mgr name"

text \<open>
  \<^verbatim>\<open>Init\<close> after the configuration has been read (\<open>cfg\<close>, \<open>None\<close> when that failed). The addresses of the
  secondary servers are never configured and are arguments. It returns -1 on every path.
\<close>

definition radius_Init ::
  "radius_config option \<Rightarrow> (nat \<Rightarrow> sock_results) \<Rightarrow> (nat \<Rightarrow> u32 \<times> u16) \<Rightarrow> CRadiusManager \<Rightarrow> int \<times> CRadiusManager" where
  "radius_Init cfg sr addr mgr =
     (case cfg of None \<Rightarrow> (-1, mgr)
      | Some cf \<Rightarrow>
        let mgr = mgr\<lparr>m_config := cf\<rparr>;
            (r, mgr) = CreateRadiusScheme ''test'' mgr
        in if r = -1 then (-1, mgr)
           else case m_schemes mgr ''test'' of None \<Rightarrow> (-1, mgr)
                | Some s \<Rightarrow>
                  let s = snd (SetUpPrimaryAuthConn (sr 0) (addr 0) s);
                      s = snd (SetUpPrimaryAcctConn (sr 1) (addr 1) s);
                      s = snd (SetUpSecondaryAuthConn (sr 2) (addr 2) s);
                      s = snd (SetUpSecondaryAcctConn (sr 3) (addr 3) s)
                  in (-1, mgr\<lparr>m_schemes := (m_schemes mgr)(''test'' \<mapsto> s)\<rparr>))"

text \<open>\<^verbatim>\<open>assert( msg.add( attr ) )\<close>.\<close>

definition add_assert :: "radius_fault + CRadiusAttribute \<Rightarrow> CRadiusMessage \<Rightarrow> radius_fault + CRadiusMessage" where
  "add_assert attr m =
     rbind attr (\<lambda>a. let (ok, m) = msg_add a m in rbind (radius_assert ok) (\<lambda>_. Inr m))"

definition attr_of :: "byte \<Rightarrow> byte list \<Rightarrow> radius_fault + CRadiusAttribute" where
  "attr_of type val = attribute_of_data type (CRadiusData val (length val)) 0"

definition nas_ip_address :: "radius_config \<Rightarrow> byte list" where
  "nas_ip_address cfg = PUTLONG (m_localip cfg)"

definition string_bytes :: "string \<Rightarrow> byte list" where
  "string_bytes s = map of_char s"

text \<open>The Access-Request of \<^verbatim>\<open>TestRadiusAccess\<close>, with \<^verbatim>\<open>RAST_LOGIN\<close> and \<^verbatim>\<open>RANPT_VIRTUAL\<close>.\<close>

definition test_access_message :: "radius_env \<Rightarrow> radius_config \<Rightarrow> radius_fault + CRadiusMessage" where
  "test_access_message E cfg =
     rbind (request_message E RP_ACCESS_REQUEST) (\<lambda>m.
     rbind (add_assert (attr_of RA_USER_NAME (m_UserName cfg)) m) (\<lambda>m.
     rbind (add_assert (attr_of RA_USER_PASSWORD (m_Userpassword cfg)) m) (\<lambda>m.
     rbind (add_assert (attr_of RA_NAS_IP_ADDRESS (nas_ip_address cfg)) m) (\<lambda>m.
     rbind (add_assert (attr_of RA_SERVICE_TYPE (PUTLONG 1)) m) (\<lambda>m.
     add_assert (attr_of RA_NAS_PORT_TYPE (PUTLONG 5)) m)))))"

definition TestRadiusAccess ::
  "radius_env \<Rightarrow> bool \<Rightarrow> nat \<Rightarrow> CRadiusManager \<Rightarrow> radius_fault + CRadiusManager" where
  "TestRadiusAccess E ok cb mgr =
     rbind (test_access_message E (m_config mgr)) (\<lambda>m.
       case FindRadiusScheme ''test'' mgr of None \<Rightarrow> Inr mgr
       | Some s \<Rightarrow>
         rbind (SendAccessMessageP E (m_config mgr) ok m (Some cb) s) (\<lambda>(r, m, s).
           Inr (mgr\<lparr>m_schemes := (m_schemes mgr)(''test'' \<mapsto> s)\<rparr>)))"

text \<open>
  The Accounting-Request of \<^verbatim>\<open>TestRadiusAcct\<close>. Forty-eight bytes are taken of the session identifier,
  whose literal has 47 with its terminator; the last one is what lies behind it.
\<close>

definition acct_session_id :: "radius_env \<Rightarrow> byte list" where
  "acct_session_id E =
     take 48 (string_bytes ''f81d4fae-7dec-11d0-a765-00a0c91e6bf6@wfnex.com'' @ [0] @ uninit E 1)"

definition test_acct_message :: "radius_env \<Rightarrow> radius_config \<Rightarrow> radius_fault + CRadiusMessage" where
  "test_acct_message E cfg =
     rbind (request_message E RP_ACCOUNTING_REQUEST) (\<lambda>m.
     rbind (add_assert (attr_of RA_USER_NAME (m_UserName cfg)) m) (\<lambda>m.
     rbind (add_assert (attr_of RA_NAS_IP_ADDRESS (nas_ip_address cfg)) m) (\<lambda>m.
     rbind (add_assert (attr_of RA_CLASS (string_bytes ''Nas Ip:1.4.61.70'')) m) (\<lambda>m.
     rbind (add_assert (attr_of RA_CALLED_STATION_ID (m_called_station_id cfg)) m) (\<lambda>m.
     rbind (add_assert (attr_of RA_CALLING_STATION_ID (m_calling_station_id cfg)) m) (\<lambda>m.
     rbind (add_assert (attr_of RA_ACCT_STATUS_TYPE (PUTLONG 1)) m) (\<lambda>m.
     rbind (add_assert (attr_of RA_ACCT_SESSION_ID (acct_session_id E)) m) (\<lambda>m.
     add_assert (attr_of RA_NAS_PORT_TYPE (PUTLONG 5)) m))))))))"

definition TestRadiusAcct ::
  "radius_env \<Rightarrow> bool \<Rightarrow> nat \<Rightarrow> CRadiusManager \<Rightarrow> radius_fault + CRadiusManager" where
  "TestRadiusAcct E ok cb mgr =
     rbind (test_acct_message E (m_config mgr)) (\<lambda>m.
       case FindRadiusScheme ''test'' mgr of None \<Rightarrow> Inr mgr
       | Some s \<Rightarrow>
         rbind (SendAcctMessageP E (m_config mgr) ok m (Some cb) s) (\<lambda>(r, m, s).
           Inr (mgr\<lparr>m_schemes := (m_schemes mgr)(''test'' \<mapsto> s)\<rparr>)))"

end
