(* ===== verification/Radius_Client_Spec.thy ===== *)
theory Radius_Client_Spec
  imports Radius_Client "HOL-Library.Multiset"
begin

text \<open>
  What a requester can rely on. Over any sequence of requests, timer expiries and datagrams, every
  request the client has taken is either pending or has had its callback called, once; an unanswered
  request is repeated the configured number of times, reported and its identifier freed. The answer
  of a server never arrives: the code compares it with the authenticator at a null pointer.
\<close>

section \<open>Runs of a connection\<close>

datatype conn_event = SendEvent CRadiusMessage nat bool | TimerEvent byte bool | InputEvent "byte list option"

definition conn_do ::
  "radius_config \<Rightarrow> radius_env \<times> conn_event \<Rightarrow> CRadiusConnector \<Rightarrow> radius_fault + CRadiusConnector" where
  "conn_do cfg ev c =
     (case ev of
        (E, SendEvent m cb ok) \<Rightarrow> rbind (SendMessage E cfg ok m (Some cb) c) (\<lambda>(r, m, c). Inr c)
      | (E, TimerEvent ident ok) \<Rightarrow> Inr (trans_handle_timeout ok ident c)
      | (E, InputEvent recv) \<Rightarrow> rbind (conn_handle_input E cfg recv c) (\<lambda>(r, c). Inr c))"

fun conn_run ::
  "radius_config \<Rightarrow> (radius_env \<times> conn_event) list \<Rightarrow> CRadiusConnector \<Rightarrow> radius_fault + CRadiusConnector" where
  "conn_run cfg [] c = Inr c"
| "conn_run cfg (ev # evs) c = rbind (conn_do cfg ev c) (conn_run cfg evs)"

text \<open>The requests taken: those whose identifier was free.\<close>

definition next_ident :: "CRadiusConnector \<Rightarrow> byte" where
  "next_ident c = ucast (m_nIdentifierBase c + 1)"

definition taken :: "radius_env \<times> conn_event \<Rightarrow> CRadiusConnector \<Rightarrow> nat multiset" where
  "taken ev c =
     (case ev of (E, SendEvent m cb ok) \<Rightarrow> if m_trans c (next_ident c) = None then {#cb#} else {#}
      | _ \<Rightarrow> {#})"

fun taken_run :: "radius_config \<Rightarrow> (radius_env \<times> conn_event) list \<Rightarrow> CRadiusConnector \<Rightarrow> nat multiset" where
  "taken_run cfg [] c = {#}"
| "taken_run cfg (ev # evs) c =
     taken ev c + (case conn_do cfg ev c of Inl f \<Rightarrow> {#} | Inr c' \<Rightarrow> taken_run cfg evs c')"

section \<open>The values of a map, with multiplicity\<close>

definition map_values :: "('k :: finite \<rightharpoonup> 'v) \<Rightarrow> 'v multiset" where
  "map_values f = image_mset (the \<circ> f) (mset_set (dom f))"

lemma map_values_new:
  assumes "f k = None"
  shows "map_values (f(k \<mapsto> v)) = add_mset v (map_values f)"
proof -
  have k: "k \<notin> dom f" using assms by blast
  have "image_mset (the \<circ> f(k \<mapsto> v)) (mset_set (dom f)) = image_mset (the \<circ> f) (mset_set (dom f))"
    using k by (intro image_mset_cong) auto
  then show ?thesis using k by (simp add: map_values_def)
qed

lemma map_values_old:
  assumes "f k = Some v"
  shows "map_values f = add_mset v (map_values (f(k := None)))"
proof -
  have "map_values ((f(k := None))(k \<mapsto> v)) = add_mset v (map_values (f(k := None)))"
    by (rule map_values_new) simp
  moreover have "(f(k := None))(k \<mapsto> v) = f" using assms by auto
  ultimately show ?thesis by simp
qed

lemma map_values_empty [simp]: "map_values (\<lambda>_. None) = {#}"
  by (simp add: map_values_def dom_def)

section \<open>Callbacks\<close>

definition conn_inv :: "CRadiusConnector \<Rightarrow> bool" where
  "conn_inv c \<longleftrightarrow> (\<forall>ident t. m_trans c ident = Some t \<longrightarrow> m_identifier t = ident \<and> m_callback t \<noteq> None)"

definition callbacks :: "CRadiusConnector \<Rightarrow> byte \<rightharpoonup> nat" where
  "callbacks c ident = (case m_trans c ident of None \<Rightarrow> None | Some t \<Rightarrow> m_callback t)"

definition called :: "CRadiusConnector \<Rightarrow> nat multiset" where
  "called c = mset (map call_to (conn_calls c))"

definition waiting :: "CRadiusConnector \<Rightarrow> nat multiset" where
  "waiting c = map_values (callbacks c)"

lemma verify_null: "\<exists>f. verifyResponseAuthenticator E None S m = Inl f"
  by (simp add: verifyResponseAuthenticator_def radius_assert_def)

lemma verify_null_bind: "\<exists>f. rbind (verifyResponseAuthenticator E None S m) g = Inl f"
  using verify_null [of E S m] by auto

text \<open>A datagram changes nothing, unless it ends the program.\<close>

lemma conn_handle_input_same: "conn_handle_input E cfg recv c = Inr (r, c') \<Longrightarrow> c' = c"
proof (cases recv)
  case (Some dgram)
  assume h: "conn_handle_input E cfg recv c = Inr (r, c')"
  have n: "rbind x (\<lambda>m. rbind (verifyResponseAuthenticator E None S m) (g m)) \<noteq> Inr y" for x S g y
  proof (cases x)
    case (Inr m)
    obtain f where "rbind (verifyResponseAuthenticator E None S m) (g m) = Inl f"
      using verify_null_bind by blast
    then show ?thesis using Inr by simp
  qed simp
  show ?thesis
    using h by (auto simp: conn_handle_input_def Some Let_def n split: if_splits option.splits)
qed (simp add: conn_handle_input_def)

lemma SendMessage_Inr:
  assumes "SendMessage E cfg ok m cb c = Inr (r, m', c')"
  shows "calcAuthenticator E (m_sharedkey cfg) (setIdentifier (next_ident c) m) = Inr m'"
    and "c' = (if m_trans c (next_ident c) \<noteq> None then c\<lparr>m_nIdentifierBase := m_nIdentifierBase c + 1\<rparr>
       else c\<lparr>m_nIdentifierBase := m_nIdentifierBase c + 1,
              m_trans := (m_trans c)(next_ident c \<mapsto> new_transaction cfg (next_ident c) m' cb),
              conn_sent := conn_sent c @ [request_data m']\<rparr>)"
    and "r = (if m_trans c (next_ident c) = None \<and> ok then 0 else -1)"
proof -
  define m1 where "m1 = calcAuthenticator E (m_sharedkey cfg) (setIdentifier (next_ident c) m)"
  have s: "SendMessage E cfg ok m cb c = rbind m1 (\<lambda>m.
      let (r, c) = AddTransaction (next_ident c) (new_transaction cfg (next_ident c) m cb)
                     (c\<lparr>m_nIdentifierBase := m_nIdentifierBase c + 1\<rparr>) in
      if r = -1 then Inr (-1, m, c)
      else let (r, c) = conn_SendData ok (request_data m) c in Inr (r, m, c))"
    using assms by (auto simp: SendMessage_def next_ident_def m1_def Let_def split: if_splits)
  obtain m2 where m2: "m1 = Inr m2" using assms s by (cases m1) auto
  show "calcAuthenticator E (m_sharedkey cfg) (setIdentifier (next_ident c) m) = Inr m'"
    and "c' = (if m_trans c (next_ident c) \<noteq> None then c\<lparr>m_nIdentifierBase := m_nIdentifierBase c + 1\<rparr>
       else c\<lparr>m_nIdentifierBase := m_nIdentifierBase c + 1,
              m_trans := (m_trans c)(next_ident c \<mapsto> new_transaction cfg (next_ident c) m' cb),
              conn_sent := conn_sent c @ [request_data m']\<rparr>)"
    and "r = (if m_trans c (next_ident c) = None \<and> ok then 0 else -1)"
    using assms m2 unfolding s
    by (auto simp: AddTransaction_def conn_SendData_def m1_def split: if_splits)
qed

lemma trans_handle_timeout_cases:
  assumes "conn_inv c"
  obtains (none) "m_trans c ident = None" "trans_handle_timeout ok ident c = c"
  | (last) t f where "m_trans c ident = Some t" "m_callback t = Some f" "m_requestcount t \<ge> m_retrans t"
      "trans_handle_timeout ok ident c = c\<lparr>conn_calls := conn_calls c @ [\<lparr>call_to = f, call_msg = None, call_type = TRTIMEOUT\<rparr>],
         m_trans := (m_trans c)(ident := None)\<rparr>"
  | (again) t where "m_trans c ident = Some t" "m_requestcount t < m_retrans t"
      "trans_handle_timeout ok ident c = c\<lparr>conn_sent := conn_sent c @ [request_data (m_requestmsg t)],
         m_trans := (m_trans c)(ident \<mapsto> t\<lparr>m_requestcount := m_requestcount t + 1\<rparr>)\<rparr>"
proof (cases "m_trans c ident")
  case None
  then show ?thesis by (intro none) (simp_all add: trans_handle_timeout_def)
next
  case (Some t)
  then obtain f where f: "m_identifier t = ident" "m_callback t = Some f" using assms by (auto simp: conn_inv_def)
  show ?thesis
  proof (cases "m_requestcount t \<ge> m_retrans t")
    case True
    then show ?thesis using Some f
      by (intro last) (simp_all add: trans_handle_timeout_def RemoveTransaction_def call_back_def)
  next
    case False
    then show ?thesis using Some
      by (intro again) (simp_all add: trans_handle_timeout_def SendRequest_def conn_SendData_def Let_def)
  qed
qed

text \<open>The contract of the table, for every reachable state of a connection.\<close>

definition conn_init :: "CRadiusConnector \<Rightarrow> bool" where
  "conn_init c \<longleftrightarrow> c = new_connector"

definition conn_step :: "radius_config \<Rightarrow> CRadiusConnector \<Rightarrow> CRadiusConnector \<Rightarrow> bool" where
  "conn_step cfg c c' \<longleftrightarrow> (\<exists>ev. conn_do cfg ev c = Inr c')"

lemma callbacks_upd:
  "callbacks (c\<lparr>m_trans := (m_trans c)(ident := tr)\<rparr>) =
     (callbacks c)(ident := (case tr of None \<Rightarrow> None | Some t \<Rightarrow> m_callback t))"
  by (auto simp: callbacks_def fun_eq_iff)

lemma callbacks_cong: "m_trans c' = m_trans c \<Longrightarrow> callbacks c' = callbacks c"
  by (simp add: callbacks_def fun_eq_iff)

lemma conn_do_step:
  assumes c: "conn_inv c" and d: "conn_do cfg ev c = Inr c'"
  shows "conn_inv c'" and "called c' + waiting c' = called c + waiting c + taken ev c"
    and "\<exists>cs. conn_calls c' = conn_calls c @ cs \<and> (\<forall>x \<in> set cs. call_msg x = None \<and> call_type x = TRTIMEOUT)"
proof -
  obtain E e where ev: "ev = (E, e)" by fastforce
  have "conn_inv c' \<and> called c' + waiting c' = called c + waiting c + taken ev c \<and>
    (\<exists>cs. conn_calls c' = conn_calls c @ cs \<and> (\<forall>x \<in> set cs. call_msg x = None \<and> call_type x = TRTIMEOUT))"
  proof (cases e)
    case (SendEvent m cb ok)
    then obtain r m' where "SendMessage E cfg ok m (Some cb) c = Inr (r, m', c')"
      using d unfolding ev by (cases "SendMessage E cfg ok m (Some cb) c") (simp_all add: conn_do_def case_prod_beta prod_eq_iff)
    note s = SendMessage_Inr(2) [OF this]
    show ?thesis
    proof (cases "m_trans c (next_ident c)")
      case (Some t)
      then have "callbacks c' = callbacks c" by (intro callbacks_cong) (simp add: s)
      then show ?thesis using c Some
        by (simp add: s ev SendEvent taken_def called_def waiting_def conn_inv_def)
    next
      case None
      have "callbacks c' = (callbacks c)(next_ident c \<mapsto> cb)"
        using None by (auto simp: s callbacks_def new_transaction_def fun_eq_iff)
      moreover have "callbacks c (next_ident c) = None" using None by (simp add: callbacks_def)
      ultimately have "waiting c' = add_mset cb (waiting c)" by (simp add: waiting_def map_values_new)
      then show ?thesis using c None
        by (auto simp: s ev SendEvent taken_def called_def conn_inv_def new_transaction_def)
    qed
  next
    case (TimerEvent ident ok)
    then have c': "c' = trans_handle_timeout ok ident c" and t: "taken ev c = {#}"
      using d ev by (auto simp: conn_do_def taken_def)
    from c show ?thesis
    proof (cases rule: trans_handle_timeout_cases [where ident = ident and ok = ok])
      case none
      then show ?thesis using c t by (simp add: c')
    next
      case (last t f)
      have k: "callbacks c ident = Some f" using last by (simp add: callbacks_def)
      have "callbacks c' = (callbacks c)(ident := None)"
        by (auto simp: c' last(4) callbacks_def fun_eq_iff)
      then have "waiting c = add_mset f (waiting c')" using map_values_old [where f = "callbacks c", OF k] by (simp add: waiting_def)
      then show ?thesis using c t by (auto simp: c' last(4) called_def conn_inv_def)
    next
      case (again t)
      have "callbacks c' = callbacks c" using again(1) by (auto simp: c' again(3) callbacks_def fun_eq_iff)
      then show ?thesis using c t again(1) by (auto simp: c' again(3) called_def conn_inv_def waiting_def)
    qed
  next
    case (InputEvent recv)
    then have "c' = c"
      using d ev conn_handle_input_same by (cases "conn_handle_input E cfg recv c") (auto simp: conn_do_def)
    then show ?thesis using c by (simp add: ev InputEvent taken_def)
  qed
  then show "conn_inv c'" and "called c' + waiting c' = called c + waiting c + taken ev c"
    and "\<exists>cs. conn_calls c' = conn_calls c @ cs \<and> (\<forall>x \<in> set cs. call_msg x = None \<and> call_type x = TRTIMEOUT)"
    by blast+
qed

lemma conn_inv_new [simp]: "conn_inv new_connector"
  by (simp add: conn_inv_def new_connector_def)

lemma nothing_yet: "called new_connector = {#}" "waiting new_connector = {#}" "conn_calls new_connector = []"
proof -
  have "callbacks new_connector = (\<lambda>_. None)" by (simp add: fun_eq_iff callbacks_def new_connector_def)
  then show "waiting new_connector = {#}" by (simp add: waiting_def)
qed (simp_all add: called_def new_connector_def)

interpretation conn: invariant_of conn_init "conn_step cfg" conn_inv for cfg
  by unfold_locales (auto simp: conn_init_def conn_step_def intro: conn_do_step(1))

section \<open>Properties of a connection\<close>

lemma conn_run_accounts:
  "conn_inv c \<Longrightarrow> conn_run cfg evs c = Inr c' \<Longrightarrow>
     called c' + waiting c' = called c + waiting c + taken_run cfg evs c \<and>
     (\<exists>cs. conn_calls c' = conn_calls c @ cs \<and> (\<forall>x \<in> set cs. call_msg x = None \<and> call_type x = TRTIMEOUT))"
proof (induction evs arbitrary: c)
  case (Cons ev evs)
  obtain c1 where d: "conn_do cfg ev c = Inr c1" and r: "conn_run cfg evs c1 = Inr c'"
    using Cons.prems(2) by (cases "conn_do cfg ev c") auto
  note step = conn_do_step [OF Cons.prems(1) d]
  obtain cs where cs: "conn_calls c1 = conn_calls c @ cs" "\<forall>x \<in> set cs. call_msg x = None \<and> call_type x = TRTIMEOUT"
    using step(3) by blast
  from Cons.IH [OF step(1) r] obtain cs' where
    "called c' + waiting c' = called c1 + waiting c1 + taken_run cfg evs c1"
    and cs': "conn_calls c' = conn_calls c1 @ cs'" "\<forall>x \<in> set cs'. call_msg x = None \<and> call_type x = TRTIMEOUT"
    by blast
  then have "called c' + waiting c' = called c + waiting c + taken_run cfg (ev # evs) c"
    using step(2) by (simp add: d add.assoc)
  moreover have "conn_calls c' = conn_calls c @ (cs @ cs')" using cs cs' by simp
  moreover have "\<forall>x \<in> set (cs @ cs'). call_msg x = None \<and> call_type x = TRTIMEOUT" using cs(2) cs'(2) by auto
  ultimately show ?case by blast
qed simp

text \<open>The timer of a fresh request, expiring once more than it may be repeated.\<close>

lemma timer_again:
  "m_trans c ident = Some t \<Longrightarrow> m_requestcount t < m_retrans t \<Longrightarrow>
   trans_handle_timeout ok ident c = c\<lparr>conn_sent := conn_sent c @ [request_data (m_requestmsg t)],
         m_trans := (m_trans c)(ident \<mapsto> t\<lparr>m_requestcount := m_requestcount t + 1\<rparr>)\<rparr>"
  by (simp add: trans_handle_timeout_def SendRequest_def conn_SendData_def Let_def)

lemma timer_last:
  "m_trans c ident = Some t \<Longrightarrow> m_requestcount t \<ge> m_retrans t \<Longrightarrow> m_identifier t = ident \<Longrightarrow> m_callback t = Some f \<Longrightarrow>
   trans_handle_timeout ok ident c =
     c\<lparr>conn_calls := conn_calls c @ [\<lparr>call_to = f, call_msg = None, call_type = TRTIMEOUT\<rparr>],
       m_trans := (m_trans c)(ident := None)\<rparr>"
  by (simp add: trans_handle_timeout_def RemoveTransaction_def call_back_def)

lemma timer_runs_out:
  assumes "m_trans c ident = Some t" and "m_identifier t = ident" and "m_callback t = Some f"
    and "m_requestcount t \<le> m_retrans t" and "length oks = Suc (unat (m_retrans t) - unat (m_requestcount t))"
  shows "fold (\<lambda>ok. trans_handle_timeout ok ident) oks c =
    c\<lparr>conn_sent := conn_sent c @ replicate (length oks - 1) (request_data (m_requestmsg t)),
      conn_calls := conn_calls c @ [\<lparr>call_to = f, call_msg = None, call_type = TRTIMEOUT\<rparr>],
      m_trans := (m_trans c)(ident := None)\<rparr>"
  using assms
proof (induction "unat (m_retrans t) - unat (m_requestcount t)" arbitrary: c t oks)
  case 0
  then obtain ok where oks: "oks = [ok]" by (cases oks) auto
  have "m_requestcount t \<ge> m_retrans t" using 0 by (simp add: word_le_nat_alt)
  then show ?case using 0 by (simp add: oks timer_last fun_upd_def)
next
  case (Suc n)
  obtain ok oks' where oks: "oks = ok # oks'" using Suc.prems(5) by (cases oks) auto
  define t' where "t' = t\<lparr>m_requestcount := m_requestcount t + 1\<rparr>"
  define c1 where "c1 = trans_handle_timeout ok ident c"
  have less: "m_requestcount t < m_retrans t" using Suc.hyps(2) by (simp add: word_less_nat_alt)
  have "unat (m_retrans t) < 2 ^ LENGTH(32)" by (rule unsigned_less)
  then have "unat (m_requestcount t) + 1 < 2 ^ 32"
    using less by (simp add: word_less_nat_alt)
  then have u: "unat (m_requestcount t + 1) = Suc (unat (m_requestcount t))"
    by (simp add: unat_word_ariths)
  have c1: "c1 = c\<lparr>conn_sent := conn_sent c @ [request_data (m_requestmsg t)],
      m_trans := (m_trans c)(ident \<mapsto> t')\<rparr>"
    unfolding c1_def t'_def by (rule timer_again [OF Suc.prems(1) less])
  have len: "length oks' = Suc n" using Suc.prems(5) Suc.hyps(2) by (simp add: oks)
  have "fold (\<lambda>ok. trans_handle_timeout ok ident) oks' c1 =
    c1\<lparr>conn_sent := conn_sent c1 @ replicate (length oks' - 1) (request_data (m_requestmsg t')),
      conn_calls := conn_calls c1 @ [\<lparr>call_to = f, call_msg = None, call_type = TRTIMEOUT\<rparr>],
      m_trans := (m_trans c1)(ident := None)\<rparr>"
  proof (rule Suc.hyps(1))
    show n: "n = unat (m_retrans t') - unat (m_requestcount t')" using Suc.hyps(2) u by (simp add: t'_def)
    show "length oks' = Suc (unat (m_retrans t') - unat (m_requestcount t'))" using len n by simp
    show "m_requestcount t' \<le> m_retrans t'" using less u by (simp add: t'_def word_le_nat_alt word_less_nat_alt)
  qed (use Suc.prems in \<open>simp_all add: c1 t'_def\<close>)
  also have "\<dots> = c\<lparr>conn_sent := conn_sent c @ replicate (length oks - 1) (request_data (m_requestmsg t)),
      conn_calls := conn_calls c @ [\<lparr>call_to = f, call_msg = None, call_type = TRTIMEOUT\<rparr>],
      m_trans := (m_trans c)(ident := None)\<rparr>"
    using len by (simp add: c1 oks t'_def)
  finally show ?case by (simp add: oks c1_def)
qed

text \<open>A connection with one request, which is not repeated.\<close>

definition demo_radius_config :: radius_config where
  "demo_radius_config = \<lparr>m_localip = 0x64010102, m_localport = 21812, m_sharedkey = [115, 104, 104],
     m_responsetimeout = 500, m_retransmit = 0, m_UserName = [119, 102], m_Userpassword = [48, 49, 50],
     m_called_station_id = [], m_calling_station_id = []\<rparr>"

definition demo_request :: CRadiusMessage where
  "demo_request = \<lparr>myRequestAuthenticator = replicate 16 0, myAttributes = [],
     myData = new_header demo_radius RP_ACCOUNTING_REQUEST 0\<rparr>"

lemma demo_radius_fields:
  "m_localip demo_radius_config = 0x64010102" "m_sharedkey demo_radius_config = [115, 104, 104]"
  "m_retransmit demo_radius_config = 0" "m_UserName demo_radius_config = [119, 102]"
  "m_Userpassword demo_radius_config = [48, 49, 50]"
  by (simp_all add: demo_radius_config_def)

lemma new_connector_fields:
  "m_trans new_connector = Map.empty" "m_nIdentifierBase new_connector = 0" "conn_sent new_connector = []"
  "conn_calls new_connector = []" "next_ident new_connector = 1"
  by (simp_all add: new_connector_def next_ident_def)

lemma demo_sent:
  obtains m' where "SendMessage demo_radius demo_radius_config True demo_request (Some 7) new_connector =
    Inr (0, m', new_connector\<lparr>m_nIdentifierBase := 1,
      m_trans := [1 \<mapsto> new_transaction demo_radius_config 1 m' (Some 7)], conn_sent := [request_data m']\<rparr>)"
proof -
  have r: "request_message demo_radius 4 = Inr demo_request" by (simp add: request_message_def demo_request_def)
  obtain m' where "calcAuthenticator demo_radius [115, 104, 104] (setIdentifier 1 demo_request) = Inr m'"
    using radius_accounting_request [OF r refl, of "[]" "[115, 104, 104]" demo_radius 1] by (auto simp: add_all_def)
  then show ?thesis
    by (intro that) (simp add: SendMessage_def demo_radius_config_def new_connector_def AddTransaction_def
        conn_SendData_def Let_def)
qed



text \<open>
  C25. A request whose identifier is free is sent, and when no answer comes its timer repeats the same
  datagram \<^verbatim>\<open>Retransmit\<close> times, then tells the requester and frees the identifier; no other request is
  affected.
\<close>

theorem radius_request_settles:
  assumes "SendMessage E cfg ok m (Some f) c = Inr (r, m', c')" and "m_trans c (next_ident c) = None"
    and "0 \<le> m_retransmit cfg" and "m_retransmit cfg < 2 ^ 32" and "length oks = Suc (nat (m_retransmit cfg))"
  shows "fold (\<lambda>ok. trans_handle_timeout ok (next_ident c)) oks c' =
    c\<lparr>m_nIdentifierBase := m_nIdentifierBase c + 1,
      conn_sent := conn_sent c @ replicate (Suc (nat (m_retransmit cfg))) (request_data m'),
      conn_calls := conn_calls c @ [\<lparr>call_to = f, call_msg = None, call_type = TRTIMEOUT\<rparr>]\<rparr>"
proof -
  let ?i = "next_ident c" and ?t = "new_transaction cfg (next_ident c) m' (Some f)"
  have c': "c' = c\<lparr>m_nIdentifierBase := m_nIdentifierBase c + 1, m_trans := (m_trans c)(?i \<mapsto> ?t),
      conn_sent := conn_sent c @ [request_data m']\<rparr>"
    using SendMessage_Inr(2) [OF assms(1)] assms(2) by simp
  have n: "unat (m_retrans ?t) = nat (m_retransmit cfg)"
    using assms(3,4) by (simp add: new_transaction_def unat_eq_nat_uint unsigned_of_int take_bit_int_eq_self)
  have "fold (\<lambda>ok. trans_handle_timeout ok ?i) oks c' =
    c'\<lparr>conn_sent := conn_sent c' @ replicate (length oks - 1) (request_data (m_requestmsg ?t)),
      conn_calls := conn_calls c' @ [\<lparr>call_to = f, call_msg = None, call_type = TRTIMEOUT\<rparr>],
      m_trans := (m_trans c')(?i := None)\<rparr>"
    using assms(5) by (intro timer_runs_out) (simp_all add: c' n, simp_all add: new_transaction_def)
  also have "\<dots> = c\<lparr>m_nIdentifierBase := m_nIdentifierBase c + 1,
      conn_sent := conn_sent c @ replicate (Suc (nat (m_retransmit cfg))) (request_data m'),
      conn_calls := conn_calls c @ [\<lparr>call_to = f, call_msg = None, call_type = TRTIMEOUT\<rparr>]\<rparr>"
  proof -
    have "(m_trans c)(?i := None) = m_trans c" using assms(2) by auto
    then show ?thesis using assms(5) by (simp add: c' new_transaction_def)
  qed
  finally show ?thesis .
qed

theorem radius_request_settles_witness:
  "\<exists>m' c'. SendMessage demo_radius demo_radius_config True demo_request (Some 7) new_connector = Inr (0, m', c') \<and>
     fold (\<lambda>ok. trans_handle_timeout ok 1) [True] c' =
       new_connector\<lparr>m_nIdentifierBase := 1, conn_sent := [request_data m'],
         conn_calls := [\<lparr>call_to = 7, call_msg = None, call_type = TRTIMEOUT\<rparr>]\<rparr>"
proof -
  obtain m' where s: "SendMessage demo_radius demo_radius_config True demo_request (Some 7) new_connector =
    Inr (0, m', new_connector\<lparr>m_nIdentifierBase := 1,
      m_trans := [1 \<mapsto> new_transaction demo_radius_config 1 m' (Some 7)], conn_sent := [request_data m']\<rparr>)"
    by (rule demo_sent)
  show ?thesis
    using radius_request_settles [OF s, of "[True]"] s
    by (simp add: new_connector_fields demo_radius_fields)
qed

text \<open>
  The answer to a pending request ends the program: whatever the datagram, a response under a
  pending identifier is a fault, and a well-formed acceptance, rejection or accounting response is a
  read through the null pointer, its authenticator unread.
\<close>

theorem radius_answer_faults:
  assumes t: "m_trans c i = Some t" and k: "k \<in> {RP_ACCESS_ACCEPT, RP_ACCESS_REJECT, RP_ACCOUNTING_RESPONSE}"
    and a: "length a = 16" and ok: "\<And>x. x \<in> set as \<Longrightarrow> attr_ok x \<and> myType x \<noteq> RA_USER_PASSWORD"
    and room: "20 + length (attrs_bytes as) + length (m_sharedkey cfg) \<le> 4096" and S: "length (m_sharedkey cfg) < 256"
  shows "conn_handle_input E cfg (Some (radius_packet k i a (attrs_bytes as))) c = Inl NullRead"
proof -
  let ?p = "radius_packet k i a (attrs_bytes as)" and ?S = "m_sharedkey cfg"
  have lp: "length ?p = 20 + length (attrs_bytes as)" using a by simp
  define raw where "raw = memcpy_at (uninit E 4096) 0 (take 4096 ?p) (length (take 4096 ?p))"
  have raw: "raw = ?p @ drop (length ?p) (uninit E 4096)" using room lp by (simp add: raw_def memcpy_at_def)
  have "msg_is (raw_message E ?p) k i a (attrs_bytes as)" using a room by (intro raw_message_is) simp_all
  note f = msg_is_fields [OF this]
  have d: "myData (raw_message E ?p) = raw" using room lp by (simp add: raw_def raw_message_def memcpy_at_def)
  have i: "raw ! 1 = i" and l: "GETSHORT (raw ! 2) (raw ! 3) = length ?p"
    using f(2,3) lp by (simp_all add: d getIdentifier_def msg_length_def)
  have cr: "CRadiusData raw (length ?p) = ?p" using room lp by (simp add: raw CRadiusData_def)
  obtain r where r: "received_message E ?p ?S = Inr r" "myAttributes r = as"
    and r0: "msg_is r k i (if k = RP_ACCOUNTING_REQUEST then accounting_digest E ?S i (attrs_bytes as) else a)
      (attrs_bytes as)"
    using a ok room S by (rule received_plain)
  have "verifyResponseAuthenticator E None ?S r = Inl NullRead"
    using k msg_is_fields(1) [OF r0] by (auto simp: verifyResponseAuthenticator_def)
  moreover have "?p \<noteq> []" using lp by auto
  ultimately show ?thesis
    using t i l cr r(1) unfolding conn_handle_input_def Let_def option.case raw_def [symmetric]
    by (simp add: FindTransaction_def)
qed

theorem radius_answer_faults_witness:
  "conn_handle_input demo_radius demo_radius_config
     (Some (radius_packet RP_ACCESS_ACCEPT 1 (replicate 16 0) (attrs_bytes [])))
     (new_connector\<lparr>m_trans := [1 \<mapsto> new_transaction demo_radius_config 1 demo_request (Some 7)]\<rparr>) = Inl NullRead"
  by (rule radius_answer_faults) (simp_all add: demo_radius_config_def)

end
