(* ===== verification/Radius_Login.thy ===== *)
theory Radius_Login
  imports Radius_Client_Spec
begin

text \<open>
  The manager's own requests from end to end: what \<^verbatim>\<open>TestRadiusAccess\<close> and \<^verbatim>\<open>TestRadiusAcct\<close> send, and what
  a server with the same secret reads.
\<close>

section \<open>Padding a password\<close>

lemma and_FFF0: "n < 65536 \<Longrightarrow> n AND 0xFFF0 = n - n mod (16 :: nat)"
proof -
  assume n: "n < 65536"
  have "(0xFFF0 :: nat) = push_bit 4 (mask 12)" by (simp add: push_bit_eq_mult mask_eq_exp_minus_1)
  moreover have "n AND push_bit 4 (mask 12) = push_bit 4 (take_bit 12 (drop_bit 4 n))"
    by (rule bit_eqI) (auto simp: bit_simps)
  ultimately have "n AND 0xFFF0 = n div 16 mod 4096 * 16"
    by (simp add: push_bit_eq_mult take_bit_eq_mod drop_bit_eq_div)
  also have "\<dots> = n div 16 * 16" using n by (simp add: less_mult_imp_div_less)
  also have "\<dots> = n - n mod 16" by (simp add: minus_mod_eq_div_mult)
  finally show ?thesis .
qed

definition pad16 :: "byte list \<Rightarrow> byte list" where
  "pad16 p = p @ replicate ((16 - length p mod 16) mod 16) 0"

lemma length_pad16:
  assumes "length p \<le> 240"
  shows "length (pad16 p) mod 16 = 0 \<and> length (pad16 p) \<le> 240"
proof (cases "length p mod 16 = 0")
  case False
  define q r where "q = length p div 16" and "r = length p mod 16"
  have l: "length p = 16 * q + r" and r: "0 < r" "r < 16" using False by (simp_all add: q_def r_def)
  then have "(16 - r) mod 16 = 16 - r" by simp
  then have "length (pad16 p) = 16 * (q + 1)" using r by (simp add: pad16_def r_def [symmetric] l)
  moreover have "q \<le> 14" using assms l r by linarith
  ultimately show ?thesis by simp
qed (use assms in \<open>simp add: pad16_def\<close>)

lemma attr_of_password:
  assumes "length p \<le> 240"
  shows "attr_of RA_USER_PASSWORD p = Inr \<lparr>myType = RA_USER_PASSWORD, myValue = pad16 p, myVendorId = 0\<rparr>"
proof (cases "length p mod 16 = 0")
  case True
  then show ?thesis using assms by (simp add: attr_of_def attribute_of_data_def CRadiusData_def pad16_def)
next
  case False
  let ?k = "16 - length p mod 16"
  have k: "0 < ?k" "?k < 16" "length p mod 16 + ?k = 16" using False by (simp_all add: less_imp_le)
  have le: "length p + ?k \<le> 240" using length_pad16 [OF assms] k by (simp add: pad16_def)
  have "(length p + 16) AND 0xFFF0 = length p + 16 - (length p + 16) mod 16" using assms by (intro and_FFF0) simp
  also have "\<dots> = length p + ?k" by simp
  finally show ?thesis using assms False le k
    by (simp add: attr_of_def attribute_of_data_def CRadiusData_def pad16_def)
qed

lemma attr_of_plain:
  "type \<notin> {RA_USER_PASSWORD, RA_VENDOR_SPECIFIC} \<Longrightarrow> length v \<le> 4096 \<Longrightarrow>
   attr_of type v = Inr \<lparr>myType = type, myValue = v, myVendorId = 0\<rparr>"
  by (auto simp: attr_of_def attribute_of_data_def CRadiusData_def)

section \<open>A chain of asserted additions\<close>

fun add_asserts :: "(radius_fault + CRadiusAttribute) list \<Rightarrow> CRadiusMessage \<Rightarrow> radius_fault + CRadiusMessage" where
  "add_asserts [] m = Inr m"
| "add_asserts (a # as) m = rbind (add_assert a m) (add_asserts as)"

lemma add_asserts_fun: "add_asserts [] = Inr" "add_asserts (a # as) = (\<lambda>m. rbind (add_assert a m) (add_asserts as))"
  by (simp_all add: fun_eq_iff)

lemma rbind_Inr [simp]: "rbind x Inr = x"
  by (cases x) simp_all

lemma add_asserts_ok:
  assumes "msg_is m c i a b" and "\<And>x. x \<in> set as \<Longrightarrow> attr_ok x" and "length b + length (attrs_bytes as) \<le> 4076"
  shows "add_asserts (map Inr as) m = Inr (add_all as m)"
  using assms
proof (induction as arbitrary: m b)
  case (Cons x as)
  have ok: "attr_ok x" using Cons.prems(2) by simp
  have r: "length b + attr_length x \<le> 4076" using Cons.prems(3) attr_ok_length [OF ok] by simp
  obtain m' where m': "msg_add x m = (True, m')" "msg_is m' c i a (b @ attr_bytes x)"
    using msg_add_is [OF Cons.prems(1) ok r] by blast
  have "add_asserts (map Inr as) m' = Inr (add_all as m')"
    using Cons.prems(2,3) by (intro Cons.IH [OF m'(2)]) simp_all
  then show ?case using m'(1) by (simp add: add_assert_def add_all_def)
qed (simp add: add_all_def)

section \<open>The Access-Request of the manager\<close>

definition access_attributes :: "radius_config \<Rightarrow> CRadiusAttribute list" where
  "access_attributes cfg =
    [\<lparr>myType = RA_USER_NAME, myValue = m_UserName cfg, myVendorId = 0\<rparr>,
     \<lparr>myType = RA_USER_PASSWORD, myValue = pad16 (m_Userpassword cfg), myVendorId = 0\<rparr>,
     \<lparr>myType = RA_NAS_IP_ADDRESS, myValue = PUTLONG (m_localip cfg), myVendorId = 0\<rparr>,
     \<lparr>myType = RA_SERVICE_TYPE, myValue = PUTLONG 1, myVendorId = 0\<rparr>,
     \<lparr>myType = RA_NAS_PORT_TYPE, myValue = PUTLONG 5, myVendorId = 0\<rparr>]"

lemma access_attributes_ok:
  assumes "length (m_UserName cfg) \<le> 253" and "length (m_Userpassword cfg) \<le> 240"
  shows "x \<in> set (access_attributes cfg) \<Longrightarrow> attr_ok x" and "length (attrs_bytes (access_attributes cfg)) \<le> 4076"
  using assms length_pad16 [OF assms(2)] by (auto simp: access_attributes_def attr_ok_def attr_bytes_def)

lemma test_access_message_ok:
  assumes "length (m_UserName cfg) \<le> 253" and "length (m_Userpassword cfg) \<le> 240"
  obtains m0 where "request_message E RP_ACCESS_REQUEST = Inr m0"
    and "test_access_message E cfg = Inr (add_all (access_attributes cfg) m0)"
proof -
  obtain m0 where m0: "request_message E RP_ACCESS_REQUEST = Inr m0" by (simp add: request_message_def)
  have is0: "msg_is m0 1 0 (replicate 16 0) []"
    using m0 by (auto simp: request_message_def intro: new_header_is)
  have "add_asserts (map Inr (access_attributes cfg)) m0 = Inr (add_all (access_attributes cfg) m0)"
    using access_attributes_ok [OF assms] by (intro add_asserts_ok [OF is0]) simp_all
  moreover have "test_access_message E cfg = rbind (request_message E RP_ACCESS_REQUEST)
      (add_asserts (map Inr (access_attributes cfg)))"
    using assms by (simp add: test_access_message_def access_attributes_def attr_of_password attr_of_plain
        nas_ip_address_def add_asserts_fun)
  ultimately show ?thesis using that m0 by simp
qed



end
