(* ===== verification/Dhcp_Packet.thy ===== *)
theory Dhcp_Packet
  imports Ppp_Options
begin

text \<open>
  DHCP packets (RFC 2131): \<^verbatim>\<open>src/src/IPOE/DHCPPacket.cpp\<close>. A packet is the fixed part of BOOTP and a list of
  options; \<^verbatim>\<open>marshall\<close> reads one out of a receive buffer, \<^verbatim>\<open>serialize\<close> writes one. The \<^verbatim>\<open>length\<close> of an option is
  the length of its value, as every place that creates one makes it; it is a signed \<^verbatim>\<open>char\<close>. The
  member \<^verbatim>\<open>padding\<close> is never read and is left out. A request of memory of ordinary size succeeds, one of
  more than half the address space fails.
\<close>

section \<open>Constants\<close>

abbreviation (input) BOOT_REQUEST :: byte where "BOOT_REQUEST \<equiv> 1"
abbreviation (input) BOOT_REPLY :: byte where "BOOT_REPLY \<equiv> 2"
abbreviation (input) DHCP_DISCOVER :: byte where "DHCP_DISCOVER \<equiv> 1"
abbreviation (input) DHCP_OFFER :: byte where "DHCP_OFFER \<equiv> 2"
abbreviation (input) DHCP_REQUEST :: byte where "DHCP_REQUEST \<equiv> 3"
abbreviation (input) DHCP_DECLINE :: byte where "DHCP_DECLINE \<equiv> 4"
abbreviation (input) DHCP_ACK :: byte where "DHCP_ACK \<equiv> 5"
abbreviation (input) DHCP_NAK :: byte where "DHCP_NAK \<equiv> 6"
abbreviation (input) DHCP_RELEASE :: byte where "DHCP_RELEASE \<equiv> 7"
abbreviation (input) DHCP_INFORM :: byte where "DHCP_INFORM \<equiv> 8"

abbreviation (input) DHO_PAD :: byte where "DHO_PAD \<equiv> 0"
abbreviation (input) DHO_SUBNET :: byte where "DHO_SUBNET \<equiv> 1"
abbreviation (input) DHO_ROUTERS :: byte where "DHO_ROUTERS \<equiv> 3"
abbreviation (input) DHO_DOMAIN_NAME_SERVERS :: byte where "DHO_DOMAIN_NAME_SERVERS \<equiv> 6"
abbreviation (input) DHO_DHCP_REQUESTED_ADDRESS :: byte where "DHO_DHCP_REQUESTED_ADDRESS \<equiv> 50"
abbreviation (input) DHO_DHCP_LEASE_TIME :: byte where "DHO_DHCP_LEASE_TIME \<equiv> 51"
abbreviation (input) DHO_DHCP_MESSAGE_TYPE :: byte where "DHO_DHCP_MESSAGE_TYPE \<equiv> 53"
abbreviation (input) DHO_DHCP_SERVER_IDENTIFIER :: byte where "DHO_DHCP_SERVER_IDENTIFIER \<equiv> 54"
abbreviation (input) DHO_END :: byte where "DHO_END \<equiv> 0xFF"

abbreviation (input) BOOTP_ABSOLUTE_MIN_LEN :: nat where "BOOTP_ABSOLUTE_MIN_LEN \<equiv> 236"
abbreviation (input) DHCP_VEND_SIZE :: nat where "DHCP_VEND_SIZE \<equiv> 64"
abbreviation (input) DHCP_MAX_MTU :: nat where "DHCP_MAX_MTU \<equiv> 1500"

definition DHCP_MAGIC_COOKIE :: "byte list" where
  "DHCP_MAGIC_COOKIE = [0x63, 0x82, 0x53, 0x63]"

section \<open>Packets\<close>

record dhcp_option =
  opt_code :: byte
  opt_value :: "byte list"

record dhcp_packet =
  dhcp_op :: byte
  htype :: byte
  hlen :: byte
  hops :: byte
  xid :: "byte list"
  secs :: "byte list"
  dhcp_flags :: "byte list"
  ciaddr :: "byte list"
  yiaddr :: "byte list"
  siaddr :: "byte list"
  giaddr :: "byte list"
  chaddr :: "byte list"
  sname :: "byte list"
  dhcp_file :: "byte list"
  dhcp_options :: "dhcp_option list"

section \<open>marshall\<close>

text \<open>
  The loop over the options, at \<open>off\<close>. An option has to be followed by another byte of the packet. The
  result \<open>None\<close> is the failure of \<^verbatim>\<open>malloc\<close> for a negative length.
\<close>

function marshall_options ::
  "byte list \<Rightarrow> nat \<Rightarrow> nat \<Rightarrow> dhcp_option list \<Rightarrow> dhcp_option list option" where
  "marshall_options buffer len off acc =
     (if off \<ge> len then Some acc
      else let code = buffer ! off in
        if code = DHO_PAD then marshall_options buffer len (off + 1) acc
        else if code = DHO_END then Some acc
        else let n = sint (buffer ! (off + 1)) in
          if int (off + 2) + n > int len - 1 then Some acc
          else if n < 0 then None
          else marshall_options buffer len (off + 2 + nat n)
                 (acc @ [\<lparr>opt_code = code, opt_value = take (nat n) (drop (off + 2) buffer)\<rparr>]))"
  by pat_completeness auto
termination by (relation "measure (\<lambda>(buffer, len, off, acc). len - off)") auto

declare marshall_options.simps [simp del]

definition field :: "byte list \<Rightarrow> nat \<Rightarrow> nat \<Rightarrow> byte list" where
  "field buffer off n = take n (drop off buffer)"

definition marshall :: "byte list \<Rightarrow> nat \<Rightarrow> dhcp_packet option" where
  "marshall buffer len =
     (if len < BOOTP_ABSOLUTE_MIN_LEN then None
      else if len > DHCP_MAX_MTU then None
      else if field buffer 236 4 \<noteq> DHCP_MAGIC_COOKIE then None
      else case marshall_options buffer len 240 [] of None \<Rightarrow> None
        | Some opts \<Rightarrow>
          Some \<lparr>dhcp_op = buffer ! 0, htype = buffer ! 1, hlen = buffer ! 2, hops = buffer ! 3,
                xid = field buffer 4 4, secs = field buffer 8 2, dhcp_flags = field buffer 10 2,
                ciaddr = field buffer 12 4, yiaddr = field buffer 16 4, siaddr = field buffer 20 4,
                giaddr = field buffer 24 4, chaddr = field buffer 28 16, sname = field buffer 44 64,
                dhcp_file = field buffer 108 128, dhcp_options = opts\<rparr>)"

section \<open>serialize\<close>

definition option_bytes :: "dhcp_option \<Rightarrow> byte list" where
  "option_bytes opt = [opt_code opt, of_nat (length (opt_value opt))] @ opt_value opt"

definition fixed_part :: "dhcp_packet \<Rightarrow> byte list" where
  "fixed_part p = [dhcp_op p, htype p, hlen p, hops p] @ xid p @ secs p @ dhcp_flags p @ ciaddr p @ yiaddr p @
     siaddr p @ giaddr p @ chaddr p @ sname p @ dhcp_file p"

text \<open>The bytes written; none when the packet does not fit into \<open>size\<close>.\<close>

definition serialize :: "dhcp_packet \<Rightarrow> nat \<Rightarrow> byte list" where
  "serialize p bufsize =
     (let packet_len = BOOTP_ABSOLUTE_MIN_LEN + length DHCP_MAGIC_COOKIE +
            sum_list (map (\<lambda>opt. 2 + length (opt_value opt)) (dhcp_options p)) + 1;
          padding_len = (if packet_len < BOOTP_ABSOLUTE_MIN_LEN + DHCP_VEND_SIZE
                         then DHCP_VEND_SIZE + BOOTP_ABSOLUTE_MIN_LEN - packet_len else 0)
      in if packet_len + padding_len > bufsize then []
         else fixed_part p @ DHCP_MAGIC_COOKIE @ concat (map option_bytes (dhcp_options p)) @ [DHO_END] @
           replicate padding_len 0)"

section \<open>Fields of a request\<close>

definition is_broadcast :: "dhcp_packet \<Rightarrow> bool" where
  "is_broadcast request \<longleftrightarrow> GETSHORT (dhcp_flags request ! 0) (dhcp_flags request ! 1) div 0x8000 mod 2 = 1"

definition four_byte_option :: "byte \<Rightarrow> dhcp_packet \<Rightarrow> u32" where
  "four_byte_option code request =
     (case find (\<lambda>opt. opt_code opt = code \<and> length (opt_value opt) = 4) (dhcp_options request) of
        None \<Rightarrow> 0 | Some opt \<Rightarrow> GETLONG (opt_value opt))"

text \<open>The addresses are in network byte order in the packet and numbers here.\<close>

definition get_request_ip :: "dhcp_packet \<Rightarrow> u32" where
  "get_request_ip request = four_byte_option DHO_DHCP_REQUESTED_ADDRESS request"

definition get_server_id :: "dhcp_packet \<Rightarrow> u32" where
  "get_server_id request = four_byte_option DHO_DHCP_SERVER_IDENTIFIER request"

section \<open>Round trip\<close>

definition dhcp_wf :: "dhcp_packet \<Rightarrow> bool" where
  "dhcp_wf p \<longleftrightarrow> length (xid p) = 4 \<and> length (secs p) = 2 \<and> length (dhcp_flags p) = 2 \<and> length (ciaddr p) = 4 \<and>
     length (yiaddr p) = 4 \<and> length (siaddr p) = 4 \<and> length (giaddr p) = 4 \<and> length (chaddr p) = 16 \<and>
     length (sname p) = 64 \<and> length (dhcp_file p) = 128"

definition option_wf :: "dhcp_option \<Rightarrow> bool" where
  "option_wf opt \<longleftrightarrow> opt_code opt \<notin> {DHO_PAD, DHO_END} \<and> length (opt_value opt) < 128"

lemma length_fixed_part: "dhcp_wf p \<Longrightarrow> length (fixed_part p) = 236"
  by (simp add: dhcp_wf_def fixed_part_def)

lemma fixed_fields:
  assumes "dhcp_wf p"
  shows "field (fixed_part p @ t) 4 4 = xid p" "field (fixed_part p @ t) 8 2 = secs p"
    "field (fixed_part p @ t) 10 2 = dhcp_flags p" "field (fixed_part p @ t) 12 4 = ciaddr p"
    "field (fixed_part p @ t) 16 4 = yiaddr p" "field (fixed_part p @ t) 20 4 = siaddr p"
    "field (fixed_part p @ t) 24 4 = giaddr p" "field (fixed_part p @ t) 28 16 = chaddr p"
    "field (fixed_part p @ t) 44 64 = sname p" "field (fixed_part p @ t) 108 128 = dhcp_file p"
    "(fixed_part p @ t) ! 0 = dhcp_op p" "(fixed_part p @ t) ! 1 = htype p" "(fixed_part p @ t) ! 2 = hlen p"
    "(fixed_part p @ t) ! 3 = hops p"
  using assms by (simp_all add: field_def fixed_part_def dhcp_wf_def)

lemma sint_small: "n < 128 \<Longrightarrow> sint (of_nat n :: byte) = int n"
  by (simp add: signed_of_nat signed_take_bit_int_eq_self)

lemma marshall_options_end:
  assumes "off < len" and "buffer ! off = DHO_END"
  shows "marshall_options buffer len off acc = Some acc"
  using assms by (subst marshall_options.simps) simp

lemma marshall_options_concat:
  assumes "drop off buffer = concat (map option_bytes opts) @ [DHO_END] @ rest" and "\<And>x. x \<in> set opts \<Longrightarrow> option_wf x"
    and "off + length (concat (map option_bytes opts)) < len"
  shows "marshall_options buffer len off acc = Some (acc @ opts)"
  using assms
proof (induction opts arbitrary: off acc)
  case Nil
  have "off < length buffer" using Nil.prems(1) by (metis drop_all not_le append_Nil append_Cons concat.simps(1) list.simps(3,8))
  then have "buffer ! off = DHO_END" using Nil.prems(1) by (metis append_Nil concat.simps(1) list.simps(8) nth_append_length_plus
        hd_drop_conv_nth append_Cons list.sel(1))
  then show ?case using Nil.prems(3) by (simp add: marshall_options_end)
next
  case (Cons x xs)
  let ?v = "opt_value x" and ?n = "length (opt_value x)"
  have wf: "option_wf x" using Cons.prems(2) by simp
  have d: "drop off buffer = [opt_code x, of_nat ?n] @ ?v @ concat (map option_bytes xs) @ [DHO_END] @ rest"
    using Cons.prems(1) by (simp add: option_bytes_def [of x])
  from arg_cong [OF d, of length] have l: "off + 2 + ?n < length buffer" by simp
  have code: "buffer ! off = opt_code x" using d l nth_drop [of off buffer 0] by simp
  have len1: "buffer ! (off + 1) = of_nat ?n" using d l nth_drop [of off buffer 1] by simp
  have d2: "drop (off + 2) buffer = ?v @ concat (map option_bytes xs) @ [DHO_END] @ rest"
    using arg_cong [OF d, of "drop 2"] by (simp add: add.commute)
  have val: "take ?n (drop (off + 2) buffer) = ?v" using d2 by simp
  have d3: "drop (off + 2 + ?n) buffer = concat (map option_bytes xs) @ [DHO_END] @ rest"
    using arg_cong [OF d2, of "drop ?n"] by (simp add: add.commute add.left_commute)
  have room: "off + 2 + ?n + length (concat (map option_bytes xs)) < len"
    using Cons.prems(3) by (simp add: option_bytes_def [of x])
  have s: "sint (buffer ! (off + 1)) = int ?n" using wf by (simp only: len1 sint_small option_wf_def)
  have "marshall_options buffer len off acc =
      marshall_options buffer len (off + 2 + ?n) (acc @ [\<lparr>opt_code = opt_code x, opt_value = ?v\<rparr>])"
    unfolding marshall_options.simps [of buffer len off acc] Let_def code s nat_int val
    using wf room by (simp add: option_wf_def)
  also have "\<dots> = Some ((acc @ [\<lparr>opt_code = opt_code x, opt_value = ?v\<rparr>]) @ xs)"
    using Cons.prems(2) room by (intro Cons.IH [OF d3]) simp_all
  finally show ?case by simp
qed

text \<open>
  A packet that has been serialized, with options of at most 127 bytes, is read back unchanged from
  any buffer that starts with it.
\<close>

theorem dhcp_round_trip:
  assumes p: "dhcp_wf p" and opts: "\<And>x. x \<in> set (dhcp_options p) \<Longrightarrow> option_wf x"
    and s: "serialize p bufsize = dgram" "dgram \<noteq> []" and mtu: "length dgram \<le> DHCP_MAX_MTU"
  shows "marshall (dgram @ rest) (length dgram) = Some p"
proof -
  obtain k where dgram: "dgram = fixed_part p @ DHCP_MAGIC_COOKIE @ concat (map option_bytes (dhcp_options p)) @ [DHO_END] @
      replicate k 0"
    using s by (auto simp: serialize_def Let_def split: if_splits)
  have f: "length (fixed_part p) = 236" and m: "length DHCP_MAGIC_COOKIE = 4"
    using length_fixed_part [OF p] by (simp_all add: DHCP_MAGIC_COOKIE_def)
  have "marshall_options (dgram @ rest) (length dgram) 240 [] = Some ([] @ dhcp_options p)"
  proof (rule marshall_options_concat)
    show "drop 240 (dgram @ rest) = concat (map option_bytes (dhcp_options p)) @ [DHO_END] @ (replicate k 0 @ rest)"
      using f m by (simp add: dgram)
    show "240 + length (concat (map option_bytes (dhcp_options p))) < length dgram"
      using f m by (simp add: dgram)
  qed (rule opts)
  moreover have "field (dgram @ rest) 236 4 = DHCP_MAGIC_COOKIE"
    using f m by (simp add: field_def dgram)
  moreover have "236 \<le> length dgram" using f by (simp add: dgram)
  moreover have "dgram @ rest = fixed_part p @ (drop 236 dgram @ rest)" using f by (simp add: dgram)
  then have fields: "field (dgram @ rest) 4 4 = xid p" "field (dgram @ rest) 8 2 = secs p"
    "field (dgram @ rest) 10 2 = dhcp_flags p" "field (dgram @ rest) 12 4 = ciaddr p"
    "field (dgram @ rest) 16 4 = yiaddr p" "field (dgram @ rest) 20 4 = siaddr p"
    "field (dgram @ rest) 24 4 = giaddr p" "field (dgram @ rest) 28 16 = chaddr p"
    "field (dgram @ rest) 44 64 = sname p" "field (dgram @ rest) 108 128 = dhcp_file p"
    "(dgram @ rest) ! 0 = dhcp_op p" "(dgram @ rest) ! 1 = htype p" "(dgram @ rest) ! 2 = hlen p" "(dgram @ rest) ! 3 = hops p"
    using fixed_fields [OF p] by (simp_all only:)
  ultimately show ?thesis
    unfolding marshall_def fields using mtu by simp
qed

end
