(* ===== verification/Dhcp_Server.thy ===== *)
theory Dhcp_Server
  imports Dhcp_Packet
begin

text \<open>
  The DHCP server of IPoE subscribers: the sessions (\<^verbatim>\<open>src/src/IPOE/CDHCPSession.cpp\<close>), the dispatch of
  packets and the session table (\<^verbatim>\<open>CDHCPServer.cpp\<close>) and the events of the managers
  (\<^verbatim>\<open>CIPOEModule.cpp\<close>, \<^verbatim>\<open>CDHCPAuthRespEventHndl.cpp\<close>, \<^verbatim>\<open>CDHCPKickUserEventHndl.cpp\<close>).

  A session is created by a DISCOVER and asks the authentication manager; the answer fills its
  configuration and offers the address; a REQUEST for that address is acknowledged and registers the
  subscriber with the session manager. Packets sent and requests to the managers are appended to
  \<open>dhcp_out\<close>. Addresses of the configuration, which the code keeps in network byte order, are numbers
  here, and \<open>PUTLONG\<close> gives their four bytes.

  \<^verbatim>\<open>m_discovery\<close> is a pointer: null, to a packet, or to a packet that has been freed. Reading or freeing
  the latter is undefined; the model records it in \<open>dhcp_error\<close> and stops.
\<close>

section \<open>Sessions\<close>

record DHCPNetworkConfig =
  hardware_address :: "byte list"
  ip_address :: u32
  router :: u32
  netmask :: u32
  dns1 :: u32
  dns2 :: u32
  leasetime :: u32

definition zeroConfig :: DHCPNetworkConfig where
  "zeroConfig = \<lparr>hardware_address = replicate 6 0, ip_address = 0, router = 0, netmask = 0, dns1 = 0, dns2 = 0,
     leasetime = 0\<rparr>"

datatype dhcp_ptr = NullPacket | LivePacket dhcp_packet | FreedPacket

record dhcp_session =
  m_discovery :: dhcp_ptr
  ds_config :: DHCPNetworkConfig
  m_isAddUser :: bool
  lease_timer :: "int option"

text \<open>The requests to the managers, with the members the code fills in.\<close>

record dhcp_user =
  du_mac :: "byte list"
  du_ip :: u32
  du_dns1 :: u32
  du_dns2 :: u32

datatype dhcp_call =
  SentDHCP "byte list" u32 | DhcpAuthRequest "byte list" | DhcpAddUser dhcp_user | DhcpDeleteUser "byte list"

datatype dhcp_fault = UseAfterFree | DoubleFree

record dhcp_server =
  m_DhcpSessions :: "nat \<rightharpoonup> dhcp_session"
  dhcp_localip :: u32
  dhcp_szBuf :: "byte list"
  dhcp_out :: "dhcp_call list"
  dhcp_error :: "dhcp_fault option"

definition new_dhcp_session :: dhcp_session where
  "new_dhcp_session = \<lparr>m_discovery = NullPacket, ds_config = zeroConfig, m_isAddUser = False, lease_timer = None\<rparr>"

definition dhcp_call :: "dhcp_call \<Rightarrow> dhcp_server \<Rightarrow> dhcp_server" where
  "dhcp_call c S = S\<lparr>dhcp_out := dhcp_out S @ [c]\<rparr>"

definition dhcp_fail :: "dhcp_fault \<Rightarrow> dhcp_server \<Rightarrow> dhcp_server" where
  "dhcp_fail e S = S\<lparr>dhcp_error := Some e\<rparr>"

definition set_session :: "nat \<Rightarrow> dhcp_session \<Rightarrow> dhcp_server \<Rightarrow> dhcp_server" where
  "set_session sid s S = S\<lparr>m_DhcpSessions := (m_DhcpSessions S)(sid \<mapsto> s)\<rparr>"

section \<open>The session table\<close>

text \<open>Six bytes of an Ethernet address as they lie in a 64-bit integer.\<close>

definition GetSessionID :: "byte list \<Rightarrow> nat" where
  "GetSessionID mac = foldr (\<lambda>b n. unat b + 256 * n) (take 6 mac) 0"

definition dhcp_AddSession :: "nat \<Rightarrow> dhcp_session \<Rightarrow> dhcp_server \<Rightarrow> int \<times> dhcp_server" where
  "dhcp_AddSession sid s S = (if m_DhcpSessions S sid \<noteq> None then (-1, S) else (0, set_session sid s S))"

definition dhcp_FindSession :: "nat \<Rightarrow> dhcp_server \<Rightarrow> dhcp_session option" where
  "dhcp_FindSession sid S = m_DhcpSessions S sid"

definition RemoveUser :: "dhcp_session \<Rightarrow> dhcp_server \<Rightarrow> dhcp_server" where
  "RemoveUser s S = dhcp_call (DhcpDeleteUser (hardware_address (ds_config s))) S"

text \<open>The destructor of a session: the discovery is freed, the user removed, the timer stopped.\<close>

definition delete_session :: "dhcp_session \<Rightarrow> dhcp_server \<Rightarrow> dhcp_server" where
  "delete_session s S =
     (if m_discovery s = FreedPacket then dhcp_fail DoubleFree S else RemoveUser s S)"

definition dhcp_RemoveSession :: "nat \<Rightarrow> dhcp_server \<Rightarrow> int \<times> dhcp_server" where
  "dhcp_RemoveSession sid S =
     (case m_DhcpSessions S sid of None \<Rightarrow> (-1, S)
      | Some s \<Rightarrow> (0, delete_session s (S\<lparr>m_DhcpSessions := (m_DhcpSessions S)(sid := None)\<rparr>)))"

text \<open>\<open>order\<close> is the order the hash table iterates over its keys.\<close>

definition ClearAllSession :: "nat list \<Rightarrow> dhcp_server \<Rightarrow> dhcp_server" where
  "ClearAllSession order S = fold (\<lambda>sid S. if dhcp_error S = None then snd (dhcp_RemoveSession sid S) else S) order S"

section \<open>Answers\<close>

definition SendDHCP :: "dhcp_packet \<Rightarrow> u32 \<Rightarrow> dhcp_server \<Rightarrow> dhcp_server" where
  "SendDHCP response clientip S = dhcp_call (SentDHCP (serialize response 2048) clientip) S"

abbreviation (input) INADDR_BROADCAST :: u32 where "INADDR_BROADCAST \<equiv> 0xFFFFFFFF"

definition SendBroadcastReply :: "dhcp_packet \<Rightarrow> dhcp_server \<Rightarrow> dhcp_server" where
  "SendBroadcastReply response S = SendDHCP response INADDR_BROADCAST S"

definition send_reply :: "dhcp_packet \<Rightarrow> dhcp_packet \<Rightarrow> u32 \<Rightarrow> dhcp_server \<Rightarrow> dhcp_server" where
  "send_reply request response clientip S =
     (if is_broadcast request then SendBroadcastReply response S else SendDHCP response clientip S)"

definition dhcp_reply :: "dhcp_packet \<Rightarrow> byte list \<Rightarrow> dhcp_option list \<Rightarrow> dhcp_packet" where
  "dhcp_reply request yi opts =
     \<lparr>dhcp_op = BOOT_REPLY, htype = htype request, hlen = hlen request, hops = 1, xid = xid request,
      secs = replicate 2 0, dhcp_flags = dhcp_flags request, ciaddr = replicate 4 0, yiaddr = yi,
      siaddr = replicate 4 0, giaddr = replicate 4 0, chaddr = chaddr request, sname = replicate 64 0,
      dhcp_file = replicate 128 0, dhcp_options = opts\<rparr>"

definition config_options :: "byte \<Rightarrow> u32 \<Rightarrow> DHCPNetworkConfig \<Rightarrow> dhcp_option list" where
  "config_options type localip config =
     [\<lparr>opt_code = DHO_DHCP_MESSAGE_TYPE, opt_value = [type]\<rparr>,
      \<lparr>opt_code = DHO_DHCP_SERVER_IDENTIFIER, opt_value = PUTLONG localip\<rparr>,
      \<lparr>opt_code = DHO_DHCP_LEASE_TIME, opt_value = PUTLONG (leasetime config)\<rparr>,
      \<lparr>opt_code = DHO_ROUTERS, opt_value = PUTLONG (router config)\<rparr>,
      \<lparr>opt_code = DHO_SUBNET, opt_value = PUTLONG (netmask config)\<rparr>,
      \<lparr>opt_code = DHO_DOMAIN_NAME_SERVERS, opt_value = PUTLONG (dns1 config) @ PUTLONG (dns2 config)\<rparr>]"

text \<open>The timer runs ten seconds longer than the lease, a number of type \<^verbatim>\<open>int\<close>.\<close>

definition StartLeaseTimer :: "u32 \<Rightarrow> dhcp_session \<Rightarrow> dhcp_session" where
  "StartLeaseTimer second s = s\<lparr>lease_timer := Some (sint second + 10)\<rparr>"

section \<open>Session operations\<close>

definition session_HandleDiscover :: "nat \<Rightarrow> DHCPNetworkConfig \<Rightarrow> dhcp_session \<Rightarrow> dhcp_server \<Rightarrow> dhcp_server" where
  "session_HandleDiscover sid config s S =
     (let s = s\<lparr>ds_config := config\<rparr>; S = set_session sid s S in
      case m_discovery s of
        NullPacket \<Rightarrow> S
      | FreedPacket \<Rightarrow> dhcp_fail UseAfterFree S
      | LivePacket d \<Rightarrow>
          let response = dhcp_reply d (PUTLONG (ip_address config)) (config_options DHCP_OFFER (dhcp_localip S) config);
              S = send_reply d response (ip_address config) S
          in set_session sid (StartLeaseTimer (leasetime config) s) S)"

text \<open>\<^verbatim>\<open>SetDiscoverRequest\<close> frees the packet it had.\<close>

definition SetDiscoverRequest :: "dhcp_packet \<Rightarrow> dhcp_session \<Rightarrow> dhcp_fault + dhcp_session" where
  "SetDiscoverRequest request s =
     (if m_discovery s = FreedPacket then Inl DoubleFree else Inr (s\<lparr>m_discovery := LivePacket request\<rparr>))"

definition AddUser :: "nat \<Rightarrow> dhcp_session \<Rightarrow> dhcp_server \<Rightarrow> dhcp_server" where
  "AddUser sid s S =
     (if \<not> m_isAddUser s then
        let c = ds_config s;
            S = dhcp_call (DhcpAddUser \<lparr>du_mac = hardware_address c, du_ip = ip_address c, du_dns1 = dns1 c, du_dns2 = dns2 c\<rparr>) S
        in set_session sid (s\<lparr>m_isAddUser := True\<rparr>) S
      else S)"

definition requested_address :: "dhcp_packet \<Rightarrow> byte list" where
  "requested_address request =
     (if ciaddr request \<noteq> replicate 4 0 then ciaddr request
      else case find (\<lambda>opt. opt_code opt = DHO_DHCP_REQUESTED_ADDRESS \<and> length (opt_value opt) \<ge> 4) (dhcp_options request) of
          None \<Rightarrow> replicate 4 0 | Some opt \<Rightarrow> take 4 (opt_value opt))"

definition session_HandleRequest :: "nat \<Rightarrow> dhcp_packet \<Rightarrow> dhcp_session \<Rightarrow> dhcp_server \<Rightarrow> dhcp_server" where
  "session_HandleRequest sid request s S =
     (let config = ds_config s;
          reqAddr = requested_address request;
          type = (if PUTLONG (ip_address config) \<noteq> reqAddr then DHCP_NAK else DHCP_ACK);
          response = dhcp_reply request reqAddr (config_options type (dhcp_localip S) config);
          S = send_reply request response (GETLONG reqAddr) S
      in if type = DHCP_ACK then
           let s = StartLeaseTimer (leasetime config) s in AddUser sid s (set_session sid s S)
         else S)"

definition session_HandleInform :: "nat \<Rightarrow> dhcp_packet \<Rightarrow> dhcp_session \<Rightarrow> dhcp_server \<Rightarrow> dhcp_server" where
  "session_HandleInform sid request s S =
     (let config = ds_config s;
          response = dhcp_reply request (PUTLONG (ip_address config)) (config_options DHCP_ACK (dhcp_localip S) config);
          S = send_reply request response (ip_address config) S
      in set_session sid (StartLeaseTimer (leasetime config) s) S)"

definition session_HandleDecline :: "nat \<Rightarrow> dhcp_server \<Rightarrow> dhcp_server" where
  "session_HandleDecline sid S = snd (dhcp_RemoveSession sid S)"

definition session_HandleRelease :: "nat \<Rightarrow> dhcp_server \<Rightarrow> dhcp_server" where
  "session_HandleRelease sid S = snd (dhcp_RemoveSession sid S)"

definition LeaseTimeOut :: "nat \<Rightarrow> dhcp_server \<Rightarrow> dhcp_server" where
  "LeaseTimeOut sid S = snd (dhcp_RemoveSession sid S)"

section \<open>Server operations\<close>

definition server_HandleDiscover :: "dhcp_packet \<Rightarrow> dhcp_server \<Rightarrow> dhcp_server" where
  "server_HandleDiscover request S =
     (let sid = GetSessionID (chaddr request) in
      case dhcp_FindSession sid S of
        None \<Rightarrow>
          let (r, S') = dhcp_AddSession sid new_dhcp_session S in
          if r = -1 then S'
          else let S' = set_session sid (new_dhcp_session\<lparr>m_discovery := LivePacket request\<rparr>) S'
               in dhcp_call (DhcpAuthRequest (take 6 (chaddr request))) S'
      | Some s \<Rightarrow>
          (case SetDiscoverRequest request s of
             Inl e \<Rightarrow> dhcp_fail e S
           | Inr s \<Rightarrow>
               if ds_config s = zeroConfig then set_session sid (s\<lparr>m_discovery := FreedPacket\<rparr>) S
               else session_HandleDiscover sid (ds_config s) s (set_session sid s S)))"

definition NakRequest :: "dhcp_packet \<Rightarrow> dhcp_server \<Rightarrow> dhcp_server" where
  "NakRequest request S =
     send_reply request
       (dhcp_reply request (yiaddr request)
          [\<lparr>opt_code = DHO_DHCP_MESSAGE_TYPE, opt_value = [DHCP_NAK]\<rparr>,
           \<lparr>opt_code = DHO_DHCP_SERVER_IDENTIFIER, opt_value = PUTLONG (dhcp_localip S)\<rparr>])
       (get_request_ip request) S"

definition server_HandleRequest :: "dhcp_packet \<Rightarrow> dhcp_server \<Rightarrow> dhcp_server" where
  "server_HandleRequest request S =
     (let sid = GetSessionID (chaddr request) in
      case dhcp_FindSession sid S of None \<Rightarrow> NakRequest request S
      | Some s \<Rightarrow> session_HandleRequest sid request s S)"

definition server_HandleRelease :: "dhcp_packet \<Rightarrow> dhcp_server \<Rightarrow> dhcp_server" where
  "server_HandleRelease request S =
     (let sid = GetSessionID (chaddr request) in
      case dhcp_FindSession sid S of None \<Rightarrow> S | Some s \<Rightarrow> session_HandleRelease sid S)"

definition server_HandleInform :: "dhcp_packet \<Rightarrow> dhcp_server \<Rightarrow> dhcp_server" where
  "server_HandleInform request S =
     (let sid = GetSessionID (chaddr request) in
      case dhcp_FindSession sid S of None \<Rightarrow> S | Some s \<Rightarrow> session_HandleInform sid request s S)"

definition server_HandleDecline :: "dhcp_packet \<Rightarrow> dhcp_server \<Rightarrow> dhcp_server" where
  "server_HandleDecline request S =
     (let sid = GetSessionID (chaddr request) in
      case dhcp_FindSession sid S of None \<Rightarrow> S | Some s \<Rightarrow> session_HandleDecline sid S)"

text \<open>The type is the first byte of the option, of freshly allocated memory (\<open>heap\<close>) when it is empty.\<close>

definition message_type :: "byte \<Rightarrow> dhcp_packet \<Rightarrow> byte" where
  "message_type heap request =
     (case find (\<lambda>opt. opt_code opt = DHO_DHCP_MESSAGE_TYPE) (dhcp_options request) of None \<Rightarrow> 0
      | Some opt \<Rightarrow> if opt_value opt = [] then heap else hd (opt_value opt))"

definition dispatch :: "byte \<Rightarrow> dhcp_packet \<Rightarrow> dhcp_server \<Rightarrow> dhcp_server" where
  "dispatch type request S =
     (if type = DHCP_DISCOVER then server_HandleDiscover request S
      else if type = DHCP_RELEASE then server_HandleRelease request S
      else if type = DHCP_INFORM then server_HandleInform request S
      else if type = DHCP_REQUEST then server_HandleRequest request S
      else if type = DHCP_DECLINE then server_HandleDecline request S
      else S)"

definition HandleDHCP :: "byte \<Rightarrow> byte list \<Rightarrow> nat \<Rightarrow> dhcp_server \<Rightarrow> dhcp_server" where
  "HandleDHCP heap msg msgsize S =
     (case marshall msg msgsize of None \<Rightarrow> S
      | Some request \<Rightarrow>
        if get_server_id request \<noteq> 0 \<and> get_server_id request \<noteq> dhcp_localip S then S
        else if dhcp_op request \<noteq> BOOT_REQUEST then S
        else if message_type heap request = 0 then S
        else dispatch (message_type heap request) request S)"

text \<open>
  A datagram from either socket, \<open>None\<close> an error of \<^verbatim>\<open>recvfrom\<close>. The buffer is static: behind the datagram
  it has what earlier ones left there.
\<close>

definition dhcp_handle_input :: "byte \<Rightarrow> byte list option \<Rightarrow> dhcp_server \<Rightarrow> dhcp_server" where
  "dhcp_handle_input heap recv S =
     (case recv of None \<Rightarrow> S
      | Some dgram \<Rightarrow>
        if dgram = [] then S
        else let dat = take 16384 dgram;
                 S = S\<lparr>dhcp_szBuf := memcpy_at (dhcp_szBuf S) 0 dat (length dat)\<rparr>
             in HandleDHCP heap (dhcp_szBuf S) (length dat) S)"

section \<open>The managers\<close>

record dhcp_auth_response =
  dr_mac :: "byte list"
  dr_authResult :: u32
  dr_subscriberIP :: u32
  dr_subscriberIPMask :: u32
  dr_leaseTime :: u32
  dr_gatewayaddr :: u32
  dr_primaryDNS :: u32
  dr_secondaryDNS :: u32

definition GetConfigFromResponse :: "dhcp_auth_response \<Rightarrow> DHCPNetworkConfig" where
  "GetConfigFromResponse r =
     \<lparr>hardware_address = take 6 (dr_mac r), ip_address = dr_subscriberIP r, router = dr_gatewayaddr r,
      netmask = dr_subscriberIPMask r, dns1 = dr_primaryDNS r, dns2 = dr_secondaryDNS r, leasetime = dr_leaseTime r\<rparr>"

text \<open>The result of the authentication is not looked at.\<close>

definition dhcp_HandleAuthResponse :: "dhcp_auth_response \<Rightarrow> dhcp_server \<Rightarrow> dhcp_server" where
  "dhcp_HandleAuthResponse r S =
     (let sid = GetSessionID (dr_mac r) in
      case dhcp_FindSession sid S of None \<Rightarrow> S
      | Some s \<Rightarrow> session_HandleDiscover sid (GetConfigFromResponse r) s S)"

definition dhcp_KickUser :: "byte list \<Rightarrow> dhcp_server \<Rightarrow> dhcp_server" where
  "dhcp_KickUser mac S = snd (dhcp_RemoveSession (GetSessionID mac) S)"

text \<open>A timer event has an effect while the timer runs.\<close>

definition dhcp_handle_timeout :: "nat \<Rightarrow> dhcp_server \<Rightarrow> dhcp_server" where
  "dhcp_handle_timeout sid S =
     (case m_DhcpSessions S sid of None \<Rightarrow> S
      | Some s \<Rightarrow> if lease_timer s = None then S else LeaseTimeOut sid S)"

datatype dhcp_event =
  DhcpInput byte "byte list option" | DhcpAnswer dhcp_auth_response | DhcpKick "byte list" | DhcpTimer nat
  | DhcpStop "nat list"

definition dhcp_do :: "dhcp_event \<Rightarrow> dhcp_server \<Rightarrow> dhcp_server" where
  "dhcp_do e S =
     (if dhcp_error S \<noteq> None then S
      else case e of
        DhcpInput heap recv \<Rightarrow> dhcp_handle_input heap recv S
      | DhcpAnswer r \<Rightarrow> dhcp_HandleAuthResponse r S
      | DhcpKick mac \<Rightarrow> dhcp_KickUser mac S
      | DhcpTimer sid \<Rightarrow> dhcp_handle_timeout sid S
      | DhcpStop order \<Rightarrow> ClearAllSession order S)"

definition new_dhcp_server :: "u32 \<Rightarrow> dhcp_server" where
  "new_dhcp_server ip = \<lparr>m_DhcpSessions = Map.empty, dhcp_localip = ip, dhcp_szBuf = replicate 16384 0, dhcp_out = [],
     dhcp_error = None\<rparr>"

end
