(* ===== verification/Dhcp_Spec.thy ===== *)
theory Dhcp_Spec
  imports Dhcp_Server
begin

text \<open>
  What holds of the DHCP server whatever it receives: a contract \<open>dhcp_keeps\<close> for relations kept by every
  event, and its instances (the packets sent, the subscribers registered, the sessions).
\<close>

section \<open>Invariants of the server\<close>

definition received :: "byte list \<Rightarrow> dhcp_server \<Rightarrow> dhcp_packet option" where
  "received dgram S =
     (let dat = take 16384 dgram in marshall (memcpy_at (dhcp_szBuf S) 0 dat (length dat)) (length dat))"

lemma marshall_wf: "marshall buffer len = Some p \<Longrightarrow> 236 \<le> length buffer \<Longrightarrow> dhcp_wf p"
  by (auto simp: marshall_def dhcp_wf_def field_def split: if_splits option.splits)

lemma received_wf: "received dgram S = Some p \<Longrightarrow> length (dhcp_szBuf S) = 16384 \<Longrightarrow> dhcp_wf p"
  unfolding received_def Let_def by (erule marshall_wf) (simp add: memcpy_at_def)

lemma ClearAllSession_keeps:
  assumes "K S" and "\<And>sid S. K S \<Longrightarrow> dhcp_error S = None \<Longrightarrow> K (snd (dhcp_RemoveSession sid S))"
  shows "K (ClearAllSession order S)"
  using assms(1) unfolding ClearAllSession_def by (induction order arbitrary: S) (simp_all add: assms(2))

lemma dhcp_handle_input_eq:
  "dhcp_handle_input heap (Some dgram) S =
     (if dgram = [] then S
      else let T = S\<lparr>dhcp_szBuf := memcpy_at (dhcp_szBuf S) 0 (take 16384 dgram) (length (take 16384 dgram))\<rparr> in
        case received dgram S of None \<Rightarrow> T
        | Some request \<Rightarrow>
          if (get_server_id request \<noteq> 0 \<and> get_server_id request \<noteq> dhcp_localip S) \<or> dhcp_op request \<noteq> BOOT_REQUEST \<or>
            message_type heap request = 0
          then T else dispatch (message_type heap request) request T)"
  by (simp add: dhcp_handle_input_def received_def HandleDHCP_def Let_def split: option.split)

lemma length_szBuf [simp]:
  "length (memcpy_at buf 0 (take 16384 dgram) (length (take 16384 dgram))) = 16384" if "length buf = 16384"
  for buf dgram :: "byte list"
  using that by (simp add: memcpy_at_def)

text \<open>
  A predicate \<open>K\<close> on servers, kept by what each handler does, holds after every run in which the
  answers of the authentication manager satisfy \<open>ok\<close>.
\<close>

locale dhcp_keeps =
  fixes ok :: "dhcp_auth_response \<Rightarrow> bool" and K :: "dhcp_server \<Rightarrow> bool"
  assumes K_new: "K (new_dhcp_server ip)"
    and K_buffer: "K (S\<lparr>dhcp_szBuf := b\<rparr>) = K S"
    and K_discover: "K S \<Longrightarrow> dhcp_error S = None \<Longrightarrow> dhcp_wf q \<Longrightarrow> K (server_HandleDiscover q S)"
    and K_request: "K S \<Longrightarrow> dhcp_error S = None \<Longrightarrow> dhcp_wf q \<Longrightarrow> m_DhcpSessions S sid = Some s \<Longrightarrow>
      K (session_HandleRequest sid q s S)"
    and K_inform: "K S \<Longrightarrow> dhcp_error S = None \<Longrightarrow> dhcp_wf q \<Longrightarrow> m_DhcpSessions S sid = Some s \<Longrightarrow>
      K (session_HandleInform sid q s S)"
    and K_nak: "K S \<Longrightarrow> dhcp_error S = None \<Longrightarrow> dhcp_wf q \<Longrightarrow> K (NakRequest q S)"
    and K_answer: "K S \<Longrightarrow> dhcp_error S = None \<Longrightarrow> ok r \<Longrightarrow> m_DhcpSessions S (GetSessionID (dr_mac r)) = Some s \<Longrightarrow>
      K (session_HandleDiscover (GetSessionID (dr_mac r)) (GetConfigFromResponse r) s S)"
    and K_remove: "K S \<Longrightarrow> dhcp_error S = None \<Longrightarrow> K (snd (dhcp_RemoveSession sid S))"
begin

lemma dispatch_keeps: "K S \<Longrightarrow> dhcp_error S = None \<Longrightarrow> dhcp_wf q \<Longrightarrow> K (dispatch type q S)"
  by (auto simp: dispatch_def K_discover server_HandleRelease_def session_HandleRelease_def server_HandleDecline_def
      session_HandleDecline_def server_HandleInform_def server_HandleRequest_def dhcp_FindSession_def K_remove Let_def
      split: option.split intro: K_request K_inform K_nak)

end

lemmas dhcp_handlers = dispatch_def server_HandleDiscover_def server_HandleRelease_def session_HandleRelease_def
  server_HandleDecline_def session_HandleDecline_def server_HandleInform_def server_HandleRequest_def
  session_HandleDiscover_def session_HandleRequest_def session_HandleInform_def NakRequest_def AddUser_def
  dhcp_AddSession_def SetDiscoverRequest_def dhcp_RemoveSession_def delete_session_def RemoveUser_def
  dhcp_FindSession_def send_reply_def SendBroadcastReply_def SendDHCP_def dhcp_call_def dhcp_fail_def set_session_def
  StartLeaseTimer_def new_dhcp_session_def Let_def

lemma dhcp_keeps_buffer_localip:
  "dhcp_szBuf (dispatch type q S) = dhcp_szBuf S" "dhcp_localip (dispatch type q S) = dhcp_localip S"
  "dhcp_szBuf (snd (dhcp_RemoveSession sid S)) = dhcp_szBuf S" "dhcp_localip (snd (dhcp_RemoveSession sid S)) = dhcp_localip S"
  "dhcp_szBuf (session_HandleDiscover sid c s S) = dhcp_szBuf S"
  "dhcp_localip (session_HandleDiscover sid c s S) = dhcp_localip S"
  by (auto simp: dhcp_handlers split: option.split sum.split dhcp_ptr.split)

lemma ClearAllSession_buffer_localip:
  "dhcp_szBuf (ClearAllSession order S) = dhcp_szBuf S" "dhcp_localip (ClearAllSession order S) = dhcp_localip S"
  by (rule ClearAllSession_keeps [where K = "\<lambda>T. dhcp_szBuf T = dhcp_szBuf S"]; simp add: dhcp_keeps_buffer_localip)
    (rule ClearAllSession_keeps [where K = "\<lambda>T. dhcp_localip T = dhcp_localip S"]; simp add: dhcp_keeps_buffer_localip)

lemma dhcp_handle_input_buffer_localip:
  "length (dhcp_szBuf S) = 16384 \<Longrightarrow> length (dhcp_szBuf (dhcp_handle_input heap recv S)) = 16384"
  "dhcp_localip (dhcp_handle_input heap recv S) = dhcp_localip S"
  by (cases recv; simp add: dhcp_handle_input_eq dhcp_handle_input_def [of _ None] dhcp_keeps_buffer_localip Let_def
      split: option.split)+

lemma dhcp_do_buffer: "length (dhcp_szBuf S) = 16384 \<Longrightarrow> length (dhcp_szBuf (dhcp_do e S)) = 16384"
  by (cases e) (simp_all add: dhcp_do_def dhcp_handle_input_buffer_localip dhcp_HandleAuthResponse_def
      dhcp_KickUser_def dhcp_handle_timeout_def LeaseTimeOut_def Let_def ClearAllSession_buffer_localip
      dhcp_keeps_buffer_localip split: option.split)

lemma dhcp_do_localip [simp]: "dhcp_localip (dhcp_do e S) = dhcp_localip S"
  by (cases e) (simp_all add: dhcp_do_def dhcp_handle_input_buffer_localip dhcp_HandleAuthResponse_def
      dhcp_KickUser_def dhcp_handle_timeout_def LeaseTimeOut_def Let_def ClearAllSession_buffer_localip
      dhcp_keeps_buffer_localip split: option.split)

lemma fold_dhcp_do_localip [simp]: "dhcp_localip (fold dhcp_do evs S) = dhcp_localip S"
  by (induction evs arbitrary: S) simp_all

context dhcp_keeps
begin

lemma input_keeps:
  assumes "K S" "dhcp_error S = None" "length (dhcp_szBuf S) = 16384"
  shows "K (dhcp_handle_input heap recv S)"
proof (cases recv)
  case None
  then show ?thesis using assms by (simp add: dhcp_handle_input_def)
next
  case (Some dgram)
  then show ?thesis using assms received_wf [of dgram S]
    by (auto simp: dhcp_handle_input_eq Let_def K_buffer intro!: dispatch_keeps split: option.split)
qed

lemma do_keeps:
  assumes "K S" "length (dhcp_szBuf S) = 16384" "\<And>r. e = DhcpAnswer r \<Longrightarrow> ok r"
  shows "K (dhcp_do e S)"
proof (cases "dhcp_error S")
  case None
  have "K (ClearAllSession order S)" for order
    by (rule ClearAllSession_keeps [where K = K, OF assms(1)]) (rule K_remove)
  with None show ?thesis using assms
    by (cases e) (simp_all add: dhcp_do_def dhcp_HandleAuthResponse_def dhcp_KickUser_def dhcp_handle_timeout_def
        LeaseTimeOut_def dhcp_FindSession_def Let_def input_keeps K_answer K_remove split: option.split)
qed (use assms in \<open>simp add: dhcp_do_def\<close>)

lemma run_keeps:
  assumes "\<And>r. DhcpAnswer r \<in> set evs \<Longrightarrow> ok r"
  shows "K (fold dhcp_do evs (new_dhcp_server ip)) \<and> length (dhcp_szBuf (fold dhcp_do evs (new_dhcp_server ip))) = 16384"
  using assms
proof (induction evs rule: rev_induct)
  case Nil
  show ?case by (simp add: K_new) (simp add: new_dhcp_server_def)
next
  case (snoc e evs)
  then show ?case by (simp add: do_keeps dhcp_do_buffer)
qed

end

section \<open>The packets sent\<close>

definition packets_wf :: "dhcp_server \<Rightarrow> bool" where
  "packets_wf S \<longleftrightarrow> (\<forall>sid s p. m_DhcpSessions S sid = Some s \<longrightarrow> m_discovery s = LivePacket p \<longrightarrow> dhcp_wf p)"

definition reply_ok :: "u32 \<Rightarrow> byte list \<Rightarrow> bool" where
  "reply_ok localip b \<longleftrightarrow> length b = 300 \<and> (\<exists>p type. marshall b 300 = Some p \<and> dhcp_op p = BOOT_REPLY \<and>
     get_server_id p = localip \<and> (\<forall>heap. message_type heap p = type) \<and> type \<in> {DHCP_OFFER, DHCP_ACK, DHCP_NAK})"

lemma length_serialize_small:
  assumes "dhcp_wf p" and "sum_list (map (\<lambda>opt. 2 + length (opt_value opt)) (dhcp_options p)) < 60"
  shows "length (serialize p 2048) = 300"
proof -
  have "length (concat (map option_bytes opts)) = sum_list (map (\<lambda>opt. 2 + length (opt_value opt)) opts)" for opts
    by (induction opts) (simp_all add: option_bytes_def)
  then show ?thesis using assms by (simp add: serialize_def Let_def length_fixed_part DHCP_MAGIC_COOKIE_def)
qed

lemma reply_wf: "dhcp_wf q \<Longrightarrow> length yi = 4 \<Longrightarrow> dhcp_wf (dhcp_reply q yi opts)"
  by (simp add: dhcp_reply_def dhcp_wf_def)

text \<open>The options the server puts into its packets: a type, its identifier and at most the configuration.\<close>

definition nak_options :: "u32 \<Rightarrow> dhcp_option list" where
  "nak_options ip = [\<lparr>opt_code = DHO_DHCP_MESSAGE_TYPE, opt_value = [DHCP_NAK]\<rparr>,
     \<lparr>opt_code = DHO_DHCP_SERVER_IDENTIFIER, opt_value = PUTLONG ip\<rparr>]"

definition reply_options :: "byte \<Rightarrow> u32 \<Rightarrow> dhcp_option list \<Rightarrow> bool" where
  "reply_options type ip opts \<longleftrightarrow> (\<exists>c. opts = config_options type ip c) \<or> type = DHCP_NAK \<and> opts = nak_options ip"

lemma reply_options_small:
  "reply_options type ip opts \<Longrightarrow> sum_list (map (\<lambda>opt. 2 + length (opt_value opt)) opts) < 60"
  "reply_options type ip opts \<Longrightarrow> x \<in> set opts \<Longrightarrow> option_wf x"
  by (auto simp: reply_options_def config_options_def nak_options_def option_wf_def)

lemma reply_bytes:
  assumes "dhcp_wf q" "length yi = 4" "reply_options type ip opts"
  shows "length (serialize (dhcp_reply q yi opts) 2048) = 300"
    "marshall (serialize (dhcp_reply q yi opts) 2048) 300 = Some (dhcp_reply q yi opts)"
proof -
  let ?p = "dhcp_reply q yi opts" and ?b = "serialize (dhcp_reply q yi opts) 2048"
  have opts: "dhcp_options ?p = opts" by (simp add: dhcp_reply_def)
  show l: "length ?b = 300"
    by (rule length_serialize_small [OF reply_wf [OF assms(1,2)]]) (simp only: opts reply_options_small [OF assms(3)])
  have "marshall (?b @ []) (length ?b) = Some ?p"
    by (rule dhcp_round_trip [where bufsize = 2048, OF reply_wf [OF assms(1,2)]])
      (use l in \<open>auto simp: opts intro: reply_options_small [OF assms(3)]\<close>)
  then show "marshall ?b 300 = Some ?p" by (simp add: l)
qed

lemma reply_fields:
  assumes "reply_options type ip opts"
  shows "dhcp_op (dhcp_reply q yi opts) = BOOT_REPLY" "yiaddr (dhcp_reply q yi opts) = yi"
    "get_server_id (dhcp_reply q yi opts) = ip" "message_type heap (dhcp_reply q yi opts) = type"
  using assms GETLONG_PUTLONG [of ip "[]"]
  by (auto simp: dhcp_reply_def get_server_id_def four_byte_option_def message_type_def reply_options_def
      config_options_def nak_options_def)

lemma reply_okI:
  assumes "dhcp_wf q" "length yi = 4" "reply_options type ip opts" "type \<in> {DHCP_OFFER, DHCP_ACK, DHCP_NAK}"
  shows "reply_ok ip (serialize (dhcp_reply q yi opts) 2048)"
  using assms reply_bytes [OF assms(1-3)] reply_fields [OF assms(3)] unfolding reply_ok_def by auto

lemma length_requested_address [simp]: "dhcp_wf q \<Longrightarrow> length (requested_address q) = 4"
  by (auto simp: requested_address_def dhcp_wf_def find_Some_iff split: option.split)

definition sent_ok :: "dhcp_server \<Rightarrow> bool" where
  "sent_ok S \<longleftrightarrow> packets_wf S \<and> (\<forall>b a. SentDHCP b a \<in> set (dhcp_out S) \<longrightarrow> reply_ok (dhcp_localip S) b)"

lemma sent_ok_set_session:
  "sent_ok S \<Longrightarrow> (\<And>p. m_discovery s = LivePacket p \<Longrightarrow> dhcp_wf p) \<Longrightarrow> sent_ok (set_session sid s S)"
  by (auto simp: sent_ok_def packets_wf_def set_session_def)

lemma sent_ok_fail: "sent_ok (dhcp_fail e S) = sent_ok S"
  by (simp add: sent_ok_def packets_wf_def dhcp_fail_def)

lemma sent_ok_call:
  "sent_ok S \<Longrightarrow> (\<And>b a. c = SentDHCP b a \<Longrightarrow> reply_ok (dhcp_localip S) b) \<Longrightarrow> sent_ok (dhcp_call c S)"
  by (auto simp: sent_ok_def packets_wf_def dhcp_call_def)

lemma sent_ok_reply:
  assumes "sent_ok S" "dhcp_wf q" "dhcp_wf q'" "length yi = 4" "reply_options type (dhcp_localip S) opts"
    "type \<in> {DHCP_OFFER, DHCP_ACK, DHCP_NAK}"
  shows "sent_ok (send_reply q (dhcp_reply q' yi opts) a S)"
  using assms by (auto simp: send_reply_def SendBroadcastReply_def SendDHCP_def intro!: sent_ok_call reply_okI)

lemma sent_ok_wf: "sent_ok S \<Longrightarrow> m_DhcpSessions S sid = Some s \<Longrightarrow> m_discovery s = LivePacket p \<Longrightarrow> dhcp_wf p"
  unfolding sent_ok_def packets_wf_def by blast

lemma localip_simps [simp]:
  "dhcp_localip (set_session sid s S) = dhcp_localip S" "dhcp_localip (dhcp_call c S) = dhcp_localip S"
  "dhcp_localip (send_reply q p a S) = dhcp_localip S"
  by (simp_all add: set_session_def dhcp_call_def send_reply_def SendBroadcastReply_def SendDHCP_def)

lemma reply_options_config: "reply_options type ip (config_options type ip c)"
  "reply_options DHCP_NAK ip (nak_options ip)"
  by (auto simp: reply_options_def)

lemma sent_ok_config:
  assumes "sent_ok S" "dhcp_wf q" "dhcp_wf q'" "length yi = 4" "ip = dhcp_localip S" "type \<in> {DHCP_OFFER, DHCP_ACK, DHCP_NAK}"
  shows "sent_ok (send_reply q (dhcp_reply q' yi (config_options type ip c)) a S)"
  using assms(5) by (simp only:) (rule sent_ok_reply [OF assms(1-4) reply_options_config(1) assms(6)])

lemma sent_ok_offer:
  assumes "sent_ok S" "\<And>p. m_discovery s = LivePacket p \<Longrightarrow> dhcp_wf p"
  shows "sent_ok (session_HandleDiscover sid c s S)"
  using assms by (auto simp: session_HandleDiscover_def Let_def StartLeaseTimer_def sent_ok_fail
      intro!: sent_ok_set_session sent_ok_config split: dhcp_ptr.split)

interpretation sent: dhcp_keeps "\<lambda>_. True" sent_ok
proof
  show "sent_ok (new_dhcp_server ip)" for ip by (simp add: sent_ok_def packets_wf_def new_dhcp_server_def)
  show "sent_ok (S\<lparr>dhcp_szBuf := b\<rparr>) = sent_ok S" for S b by (simp add: sent_ok_def packets_wf_def)
next
  fix S :: dhcp_server and q assume K: "sent_ok S" "dhcp_wf q"
  then show "sent_ok (server_HandleDiscover q S)"
    by (auto simp: server_HandleDiscover_def Let_def dhcp_AddSession_def SetDiscoverRequest_def new_dhcp_session_def
        sent_ok_fail intro!: sent_ok_call sent_ok_set_session sent_ok_offer split: option.split sum.split)
  show "sent_ok (NakRequest q S)" unfolding NakRequest_def nak_options_def [symmetric]
    by (rule sent_ok_reply [where type = DHCP_NAK]) (use K in \<open>auto simp: reply_options_config dhcp_wf_def\<close>)
next
  fix S :: dhcp_server and q sid s assume K: "sent_ok S" "dhcp_wf q" "m_DhcpSessions S sid = Some s"
  note wf = sent_ok_wf [OF K(1,3)]
  show "sent_ok (session_HandleRequest sid q s S)"
    using K wf by (auto simp: session_HandleRequest_def Let_def AddUser_def StartLeaseTimer_def
      intro!: sent_ok_call sent_ok_set_session sent_ok_config)
  show "sent_ok (session_HandleInform sid q s S)"
    using K wf by (auto simp: session_HandleInform_def Let_def StartLeaseTimer_def
      intro!: sent_ok_set_session sent_ok_config)
next
  fix S :: dhcp_server and r :: dhcp_auth_response and s
  assume "sent_ok S" "m_DhcpSessions S (GetSessionID (dr_mac r)) = Some s"
  then show "sent_ok (session_HandleDiscover (GetSessionID (dr_mac r)) (GetConfigFromResponse r) s S)"
    by (intro sent_ok_offer) (auto intro: sent_ok_wf)
next
  fix S :: dhcp_server and sid assume "sent_ok S"
  then show "sent_ok (snd (dhcp_RemoveSession sid S))"
    by (auto simp: dhcp_RemoveSession_def delete_session_def RemoveUser_def sent_ok_fail sent_ok_def packets_wf_def dhcp_call_def
        dhcp_fail_def split: option.split)
qed

section \<open>What a client's packet does\<close>

text \<open>A datagram of a client: a request of type \<open>type\<close>, for us or for any server.\<close>

definition client_packet :: "u32 \<Rightarrow> byte \<Rightarrow> dhcp_packet \<Rightarrow> byte list \<Rightarrow> bool" where
  "client_packet ip type q d \<longleftrightarrow> dhcp_wf q \<and> list_all option_wf (dhcp_options q) \<and> dhcp_op q = BOOT_REQUEST \<and>
     get_server_id q \<in> {0, ip} \<and> message_type 0 q = type \<and> type \<noteq> 0 \<and> d = serialize q 2048 \<and> d \<noteq> [] \<and>
     length d \<le> DHCP_MAX_MTU"

definition filled :: "byte list \<Rightarrow> dhcp_server \<Rightarrow> dhcp_server" where
  "filled d S = S\<lparr>dhcp_szBuf := memcpy_at (dhcp_szBuf S) 0 d (length d)\<rparr>"

definition serving :: "dhcp_server \<Rightarrow> bool" where
  "serving S \<longleftrightarrow> dhcp_error S = None \<and> length (dhcp_szBuf S) = 16384"

lemma client_input:
  assumes q: "client_packet (dhcp_localip S) type q d" and S: "serving S"
  shows "dhcp_do (DhcpInput heap (Some d)) S = dispatch type q (filled d S)"
proof -
  from q have d: "take 16384 d = d" "d \<noteq> []" by (auto simp: client_packet_def)
  have "marshall (d @ drop (length d) (dhcp_szBuf S)) (length d) = Some q"
    using q by (intro dhcp_round_trip [where bufsize = 2048]) (auto simp: client_packet_def list_all_iff)
  then have "received d S = Some q" by (simp only: received_def d Let_def memcpy_at_def) simp
  moreover have "message_type heap q = type"
    using q by (auto simp: client_packet_def message_type_def split: option.splits if_splits)
  ultimately show ?thesis
    using q S by (auto simp: dhcp_do_def serving_def dhcp_handle_input_eq d Let_def filled_def client_packet_def)
qed

lemma filled_simps [simp]:
  "m_DhcpSessions (filled d S) = m_DhcpSessions S" "dhcp_out (filled d S) = dhcp_out S"
  "dhcp_error (filled d S) = dhcp_error S" "dhcp_localip (filled d S) = dhcp_localip S"
  by (simp_all add: filled_def)

lemma serving_do: "serving S \<Longrightarrow> dhcp_error (dhcp_do e S) = None \<Longrightarrow> serving (dhcp_do e S)"
  by (simp add: serving_def dhcp_do_buffer)

text \<open>The bytes and the destination of an answer to \<open>q\<close>.\<close>

definition reply_call :: "dhcp_packet \<Rightarrow> byte \<Rightarrow> u32 \<Rightarrow> u32 \<Rightarrow> DHCPNetworkConfig \<Rightarrow> dhcp_call" where
  "reply_call q type ip yi c =
     SentDHCP (serialize (dhcp_reply q (PUTLONG yi) (config_options type ip c)) 2048)
       (if is_broadcast q then INADDR_BROADCAST else yi)"

lemma first_discover:
  assumes "client_packet (dhcp_localip S) DHCP_DISCOVER q d" "serving S"
    and "m_DhcpSessions S (GetSessionID (chaddr q)) = None"
  shows "dhcp_do (DhcpInput heap (Some d)) S =
    (filled d S)\<lparr>m_DhcpSessions := (m_DhcpSessions S)(GetSessionID (chaddr q) \<mapsto> new_dhcp_session\<lparr>m_discovery := LivePacket q\<rparr>),
       dhcp_out := dhcp_out S @ [DhcpAuthRequest (take 6 (chaddr q))]\<rparr>"
  unfolding client_input [OF assms(1,2)] using assms(3) by (simp add: dhcp_handlers)

lemma answered:
  assumes "serving S" "m_DhcpSessions S (GetSessionID (dr_mac r)) = Some s" "m_discovery s = LivePacket q"
  shows "dhcp_do (DhcpAnswer r) S =
    S\<lparr>m_DhcpSessions := (m_DhcpSessions S)(GetSessionID (dr_mac r) \<mapsto>
         s\<lparr>ds_config := GetConfigFromResponse r, lease_timer := Some (sint (dr_leaseTime r) + 10)\<rparr>),
      dhcp_out := dhcp_out S @ [reply_call q DHCP_OFFER (dhcp_localip S) (dr_subscriberIP r) (GetConfigFromResponse r)]\<rparr>"
  using assms by (simp add: dhcp_do_def serving_def dhcp_HandleAuthResponse_def dhcp_handlers reply_call_def
      GetConfigFromResponse_def)

lemma requested:
  fixes S :: dhcp_server and heap :: byte
  assumes "client_packet (dhcp_localip S) DHCP_REQUEST q d" "serving S"
    and "m_DhcpSessions S (GetSessionID (chaddr q)) = Some s" "requested_address q = PUTLONG (ip_address (ds_config s))"
  defines "T \<equiv> dhcp_do (DhcpInput heap (Some d)) S"
  shows "m_DhcpSessions T = (m_DhcpSessions S)(GetSessionID (chaddr q) \<mapsto>
         s\<lparr>lease_timer := Some (sint (leasetime (ds_config s)) + 10), m_isAddUser := True\<rparr>)"
    "dhcp_out T = dhcp_out S @ reply_call q DHCP_ACK (dhcp_localip S) (ip_address (ds_config s)) (ds_config s) #
         (if m_isAddUser s then [] else [DhcpAddUser \<lparr>du_mac = hardware_address (ds_config s), du_ip = ip_address (ds_config s),
           du_dns1 = dns1 (ds_config s), du_dns2 = dns2 (ds_config s)\<rparr>])"
    "dhcp_error T = None"
proof -
  have T: "T = session_HandleRequest (GetSessionID (chaddr q)) q s (filled d S)"
    unfolding T_def client_input [OF assms(1,2)] using assms(3)
    by (simp add: dispatch_def server_HandleRequest_def dhcp_FindSession_def Let_def)
  have ip: "GETLONG (PUTLONG x) = x" for x using GETLONG_PUTLONG [of x "[]"] by simp
  show "m_DhcpSessions T = (m_DhcpSessions S)(GetSessionID (chaddr q) \<mapsto>
         s\<lparr>lease_timer := Some (sint (leasetime (ds_config s)) + 10), m_isAddUser := True\<rparr>)"
    using assms(4) by (cases s) (auto simp: T dhcp_handlers)
  show "dhcp_out T = dhcp_out S @ reply_call q DHCP_ACK (dhcp_localip S) (ip_address (ds_config s)) (ds_config s) #
         (if m_isAddUser s then [] else [DhcpAddUser \<lparr>du_mac = hardware_address (ds_config s), du_ip = ip_address (ds_config s),
           du_dns1 = dns1 (ds_config s), du_dns2 = dns2 (ds_config s)\<rparr>])"
    using assms(4) by (simp add: T dhcp_handlers reply_call_def ip)
  show "dhcp_error T = None"
    using assms(2,4) by (simp add: T dhcp_handlers serving_def)
qed

section \<open>The subscribers registered\<close>

definition user_of :: "DHCPNetworkConfig \<Rightarrow> dhcp_user" where
  "user_of c = \<lparr>du_mac = hardware_address c, du_ip = ip_address c, du_dns1 = dns1 c, du_dns2 = dns2 c\<rparr>"

text \<open>A configuration is all zero or comes from one of the answers \<open>A\<close> for its session.\<close>

definition config_of :: "dhcp_auth_response set \<Rightarrow> nat \<Rightarrow> DHCPNetworkConfig \<Rightarrow> bool" where
  "config_of A sid c \<longleftrightarrow> c = zeroConfig \<or> (\<exists>r\<in>A. GetSessionID (dr_mac r) = sid \<and> c = GetConfigFromResponse r)"

text \<open>Every registration follows an acknowledgment of its address.\<close>

definition ack_before :: "dhcp_auth_response set \<Rightarrow> dhcp_user \<Rightarrow> dhcp_call list \<Rightarrow> bool" where
  "ack_before A u xs \<longleftrightarrow> (\<exists>sid c. config_of A sid c \<and> u = user_of c) \<and>
     (\<exists>ws b a p. xs = ws @ [SentDHCP b a] \<and> marshall b 300 = Some p \<and> message_type 0 p = DHCP_ACK \<and>
        yiaddr p = PUTLONG (du_ip u))"

definition acked :: "dhcp_auth_response set \<Rightarrow> dhcp_call list \<Rightarrow> bool" where
  "acked A out \<longleftrightarrow> (\<forall>xs u ys. out = xs @ DhcpAddUser u # ys \<longrightarrow> ack_before A u xs)"

lemma snoc_eq_append_Cons:
  "out @ [c] = xs @ d # ys \<longleftrightarrow> (ys = [] \<and> out = xs \<and> c = d) \<or> (\<exists>zs. ys = zs @ [c] \<and> out = xs @ d # zs)"
  by (cases ys rule: rev_cases) auto

lemma acked_snoc: "acked A (out @ [c]) \<longleftrightarrow> acked A out \<and> (\<forall>u. c = DhcpAddUser u \<longrightarrow> ack_before A u out)"
  unfolding acked_def snoc_eq_append_Cons by blast

lemma ack_beforeI:
  assumes "config_of A sid c" "marshall b 300 = Some p" "message_type 0 p = DHCP_ACK" "yiaddr p = PUTLONG (ip_address c)"
  shows "ack_before A (user_of c) (ws @ [SentDHCP b a])"
  using assms unfolding ack_before_def by (auto simp: user_of_def)

definition authorised :: "dhcp_auth_response set \<Rightarrow> dhcp_server \<Rightarrow> bool" where
  "authorised A S \<longleftrightarrow> acked A (dhcp_out S) \<and>
     (\<forall>sid s. m_DhcpSessions S sid = Some s \<longrightarrow> config_of A sid (ds_config s))"

lemma authorised_call: "authorised A S \<Longrightarrow> (\<And>u. c \<noteq> DhcpAddUser u) \<Longrightarrow> authorised A (dhcp_call c S)"
  by (simp add: authorised_def dhcp_call_def acked_snoc)

lemma authorised_set_session:
  "authorised A S \<Longrightarrow> config_of A sid (ds_config s) \<Longrightarrow> authorised A (set_session sid s S)"
  by (simp add: authorised_def set_session_def)

lemma authorised_reply: "authorised A S \<Longrightarrow> authorised A (send_reply q p a S)"
  by (simp add: send_reply_def SendBroadcastReply_def SendDHCP_def authorised_call)

lemma authorised_fail: "authorised A (dhcp_fail e S) = authorised A S"
  by (simp add: authorised_def dhcp_fail_def)

lemma authorised_offer:
  assumes "authorised A S" "config_of A sid c"
  shows "authorised A (session_HandleDiscover sid c s S)"
  using assms by (auto simp: session_HandleDiscover_def Let_def StartLeaseTimer_def authorised_fail
      intro!: authorised_set_session authorised_reply split: dhcp_ptr.split)

lemma authorised_request:
  assumes S: "authorised A S" "m_DhcpSessions S sid = Some s" and q: "dhcp_wf q"
  shows "authorised A (session_HandleRequest sid q s S)"
proof -
  let ?c = "ds_config s" and ?a = "requested_address q" and ?ip = "dhcp_localip S"
  have c: "config_of A sid ?c" using S by (simp add: authorised_def)
  let ?p = "dhcp_reply q ?a (config_options DHCP_ACK ?ip ?c)"
  let ?R = "send_reply q ?p (GETLONG ?a) S"
  have R: "authorised A ?R" using S(1) by (rule authorised_reply)
  obtain a where out: "dhcp_out ?R = dhcp_out S @ [SentDHCP (serialize ?p 2048) a]"
    by (cases "is_broadcast q") (simp_all add: send_reply_def SendBroadcastReply_def SendDHCP_def dhcp_call_def)
  have "ack_before A (user_of ?c) (dhcp_out ?R)" if "PUTLONG (ip_address ?c) = ?a"
    unfolding out
    by (rule ack_beforeI [OF c reply_bytes(2) [OF q length_requested_address [OF q] reply_options_config(1)]])
      (simp_all add: that reply_fields [OF reply_options_config(1)])
  then have "authorised A (AddUser sid (StartLeaseTimer n s) (set_session sid (StartLeaseTimer n s) ?R))"
    if "PUTLONG (ip_address ?c) = ?a" for n
    using that R c by (simp add: AddUser_def StartLeaseTimer_def authorised_def set_session_def dhcp_call_def user_of_def Let_def acked_snoc)
  then show ?thesis using S by (simp add: session_HandleRequest_def Let_def authorised_reply)
qed

interpretation authorised: dhcp_keeps "\<lambda>r. r \<in> A" "authorised A" for A
proof
  show "authorised A (new_dhcp_server ip)" for ip by (simp add: authorised_def acked_def new_dhcp_server_def)
  show "authorised A (S\<lparr>dhcp_szBuf := b\<rparr>) = authorised A S" for S b by (simp add: authorised_def)
next
  fix S :: dhcp_server and q assume K: "authorised A S"
  then have c: "m_DhcpSessions S sid = Some s \<Longrightarrow> config_of A sid (ds_config s)" for sid s by (simp add: authorised_def)
  show "authorised A (server_HandleDiscover q S)"
    using K c by (auto simp: server_HandleDiscover_def Let_def dhcp_AddSession_def SetDiscoverRequest_def new_dhcp_session_def
        dhcp_FindSession_def config_of_def [of A _ zeroConfig] authorised_fail
        intro!: authorised_call authorised_set_session authorised_offer split: option.split sum.split)
  show "authorised A (NakRequest q S)" unfolding NakRequest_def by (rule authorised_reply [OF K])
next
  fix S :: dhcp_server and q sid s assume K: "authorised A S" "dhcp_wf q" "m_DhcpSessions S sid = Some s"
  show "authorised A (session_HandleRequest sid q s S)" by (rule authorised_request [OF K(1,3,2)])
  show "authorised A (session_HandleInform sid q s S)"
    using K by (auto simp: session_HandleInform_def Let_def StartLeaseTimer_def authorised_def [of A S]
        intro!: authorised_set_session authorised_reply)
next
  fix S :: dhcp_server and r :: dhcp_auth_response and s
  assume "authorised A S" "r \<in> A"
  then show "authorised A (session_HandleDiscover (GetSessionID (dr_mac r)) (GetConfigFromResponse r) s S)"
    by (intro authorised_offer) (auto simp: config_of_def)
next
  fix S :: dhcp_server and sid assume "authorised A S"
  then show "authorised A (snd (dhcp_RemoveSession sid S))"
    by (auto simp: dhcp_RemoveSession_def delete_session_def RemoveUser_def dhcp_fail_def authorised_def dhcp_call_def
        acked_snoc split: option.split)
qed

end
