(* ===== verification/Dhcp_Correct.thy ===== *)
theory Dhcp_Correct
  imports Dhcp_Spec
begin

text \<open>
  Correctness of the DHCP server: the exchange that gives a client its address, which subscribers are
  user_added and for how long, and what makes the server use memory it has freed.
\<close>

section \<open>Registrations that stand\<close>

text \<open>Whether the last request to the session manager about \<open>mac\<close> was to add it.\<close>

definition user_added :: "byte list \<Rightarrow> dhcp_call list \<Rightarrow> bool" where
  "user_added mac out = fold (\<lambda>c b. case c of
       DhcpAddUser u \<Rightarrow> if du_mac u = mac then True else b
     | DhcpDeleteUser m \<Rightarrow> if m = mac then False else b
     | _ \<Rightarrow> b) out False"

lemma user_added_snoc [simp]:
  "user_added mac [] = False"
  "user_added mac (out @ [DhcpAddUser u]) = (du_mac u = mac \<or> user_added mac out)"
  "user_added mac (out @ [DhcpDeleteUser m]) = (m \<noteq> mac \<and> user_added mac out)"
  "user_added mac (out @ [SentDHCP b a]) = user_added mac out"
  "user_added mac (out @ [DhcpAuthRequest m]) = user_added mac out"
  by (auto simp: user_added_def)

definition own_config :: "nat \<Rightarrow> dhcp_session \<Rightarrow> bool" where
  "own_config sid s \<longleftrightarrow> (ds_config s = zeroConfig \<or>
      m_discovery s \<noteq> FreedPacket \<and> length (hardware_address (ds_config s)) = 6 \<and>
      GetSessionID (hardware_address (ds_config s)) = sid)"

definition users_live :: "dhcp_server \<Rightarrow> bool" where
  "users_live S \<longleftrightarrow> (dhcp_error S = None \<longrightarrow> (\<forall>sid s. m_DhcpSessions S sid = Some s \<longrightarrow> own_config sid s)) \<and>
     (\<forall>mac. mac \<noteq> replicate 6 0 \<longrightarrow> user_added mac (dhcp_out S) \<longrightarrow>
       (\<exists>s. m_DhcpSessions S (GetSessionID mac) = Some s \<and> m_isAddUser s \<and> lease_timer s \<noteq> None \<and>
          hardware_address (ds_config s) = mac))"

lemma digit_split: "a < 256 \<Longrightarrow> b < 256 \<Longrightarrow> a + 256 * m = b + 256 * n \<Longrightarrow> a = b \<and> m = n" for a b m n :: nat
proof -
  assume h: "a < 256" "b < 256" "a + 256 * m = b + 256 * n"
  have "(a + 256 * m) mod 256 = a" "(b + 256 * n) mod 256 = b" using h(1,2) by simp_all
  with h(3) show ?thesis by simp
qed

lemma byte_digits_inj:
  "foldr (\<lambda>b n. unat b + 256 * n) xs (0::nat) = foldr (\<lambda>b n. unat b + 256 * n) ys 0 \<Longrightarrow>
      length xs = length ys \<Longrightarrow> xs = ys" for xs ys :: "byte list"
proof (induction xs ys rule: list_induct2')
  case (4 x xs y ys)
  have "unat b < 2 ^ LENGTH(8)" for b :: byte by (rule unsigned_less)
  then have "unat x < 256" "unat y < 256" by simp_all
  from digit_split [OF this] 4(2) have "unat x = unat y"
    "foldr (\<lambda>b n. unat b + 256 * n) xs (0::nat) = foldr (\<lambda>b n. unat b + 256 * n) ys 0" by simp_all
  with 4(1,3) show ?case by (simp add: word_unat_eq_iff)
qed simp_all

lemma GetSessionID_inj: "length m = 6 \<Longrightarrow> length n = 6 \<Longrightarrow> GetSessionID m = GetSessionID n \<Longrightarrow> m = n"
  by (rule byte_digits_inj) (simp_all add: GetSessionID_def)

lemma users_live_update:
  assumes "users_live S" "dhcp_error S = None" "m_DhcpSessions S sid = Some s" "own_config sid s'"
    and "m_isAddUser s \<Longrightarrow> m_isAddUser s'" and "lease_timer s \<noteq> None \<Longrightarrow> lease_timer s' \<noteq> None"
    and "hardware_address (ds_config s) \<noteq> replicate 6 0 \<Longrightarrow> hardware_address (ds_config s') = hardware_address (ds_config s)"
  shows "users_live (set_session sid s' S)"
  using assms by (simp add: users_live_def set_session_def) (metis option.inject)

lemma users_live_call:
  "users_live S \<Longrightarrow> (\<And>mac. user_added mac (dhcp_out S @ [c]) = user_added mac (dhcp_out S)) \<Longrightarrow> users_live (dhcp_call c S)"
  by (simp add: users_live_def dhcp_call_def)

lemma users_live_reply: "users_live S \<Longrightarrow> users_live (send_reply q p a S)"
  by (simp add: send_reply_def SendBroadcastReply_def SendDHCP_def users_live_call)

lemma send_reply_same [simp]:
  "m_DhcpSessions (send_reply q p a S) = m_DhcpSessions S" "dhcp_error (send_reply q p a S) = dhcp_error S"
  by (simp_all add: send_reply_def SendBroadcastReply_def SendDHCP_def dhcp_call_def)

lemma users_live_fail: "users_live S \<Longrightarrow> users_live (dhcp_fail e S)"
  by (simp add: users_live_def dhcp_fail_def)

lemma users_live_own: "users_live S \<Longrightarrow> dhcp_error S = None \<Longrightarrow> m_DhcpSessions S sid = Some s \<Longrightarrow> own_config sid s"
  by (simp add: users_live_def)

lemma set_session_twice [simp]: "set_session sid s' (set_session sid s S) = set_session sid s' S"
  by (simp add: set_session_def)

lemma send_reply_set_session: "send_reply q p a (set_session sid s S) = set_session sid s (send_reply q p a S)"
  by (simp add: send_reply_def SendBroadcastReply_def SendDHCP_def dhcp_call_def set_session_def)

lemma call_set_session: "dhcp_call c (set_session sid s S) = set_session sid s (dhcp_call c S)"
  by (simp add: dhcp_call_def set_session_def)

text \<open>An offer with a configuration for the session, which is either new or has the address it had.\<close>

lemma users_live_offer:
  assumes S: "users_live S" "dhcp_error S = None" "m_DhcpSessions S sid = Some s"
    and s': "m_isAddUser s' = m_isAddUser s" "lease_timer s' = lease_timer s" "m_discovery s' = FreedPacket \<longleftrightarrow> m_discovery s = FreedPacket"
    and c: "length (hardware_address c) = 6" "GetSessionID (hardware_address c) = sid"
  shows "users_live (session_HandleDiscover sid c s' S)"
proof -
  have own: "own_config sid s" using S by (rule users_live_own)
  have hw: "hardware_address c = hardware_address (ds_config s)" if "hardware_address (ds_config s) \<noteq> replicate 6 0"
    using own that c GetSessionID_inj by (auto simp: own_config_def zeroConfig_def)
  show ?thesis
  proof (cases "m_discovery s = FreedPacket")
    case True
    have "hardware_address (ds_config s) = replicate 6 0" using own True by (auto simp: own_config_def zeroConfig_def)
    then show ?thesis using True s' S
      by (auto simp: session_HandleDiscover_def users_live_def dhcp_fail_def set_session_def)
  next
    case False
    then have "users_live (set_session sid (s'\<lparr>ds_config := c, lease_timer := Some t\<rparr>) (send_reply q p a S))"
      "users_live (set_session sid (s'\<lparr>ds_config := c\<rparr>) S)" for t q p a
      using S s' c hw by (auto intro!: users_live_update users_live_reply simp: own_config_def)
    then show ?thesis using False s'
      by (auto simp: session_HandleDiscover_def Let_def StartLeaseTimer_def send_reply_set_session split: dhcp_ptr.split)
  qed
qed

lemma users_live_request:
  assumes S: "users_live S" "dhcp_error S = None" "m_DhcpSessions S sid = Some s"
  shows "users_live (session_HandleRequest sid q s S)"
proof -
  have own: "own_config sid s" using S by (rule users_live_own)
  let ?s = "\<lambda>n. StartLeaseTimer n s"
  have "users_live (AddUser sid (?s n) (set_session sid (?s n) (send_reply q p a S)))" for n p a
  proof (cases "m_isAddUser s")
    case True
    then show ?thesis using S own
      by (auto simp: AddUser_def StartLeaseTimer_def own_config_def intro!: users_live_update users_live_reply)
  next
    case False
    have "users_live (set_session sid ((?s n)\<lparr>m_isAddUser := True\<rparr>) (send_reply q p a S))" (is "users_live ?T")
      using S own by (auto simp: StartLeaseTimer_def own_config_def intro!: users_live_update users_live_reply)
    moreover have "hardware_address (ds_config s) = replicate 6 0 \<or>
        GetSessionID (hardware_address (ds_config s)) = sid"
      using own by (auto simp: own_config_def zeroConfig_def)
    ultimately have "users_live (dhcp_call (DhcpAddUser (user_of (ds_config s))) ?T)"
      by (auto simp: users_live_def dhcp_call_def user_of_def set_session_def StartLeaseTimer_def)
    then show ?thesis using False
      by (simp add: AddUser_def StartLeaseTimer_def user_of_def call_set_session Let_def)
  qed
  then show ?thesis using S by (simp add: session_HandleRequest_def Let_def users_live_reply)
qed

lemma users_live_remove:
  assumes S: "users_live S" "dhcp_error S = None"
  shows "users_live (snd (dhcp_RemoveSession sid S))"
proof (cases "m_DhcpSessions S sid")
  case (Some s)
  have own: "own_config sid s" using S Some by (rule users_live_own)
  then have "m_discovery s = FreedPacket \<Longrightarrow> hardware_address (ds_config s) = replicate 6 0"
    by (auto simp: own_config_def zeroConfig_def)
  with S Some show ?thesis
    by (auto simp: dhcp_RemoveSession_def delete_session_def RemoveUser_def users_live_def dhcp_fail_def dhcp_call_def)
qed (use S in \<open>simp add: dhcp_RemoveSession_def\<close>)

lemma users_live_discover:
  assumes S: "users_live S" "dhcp_error S = None"
  shows "users_live (server_HandleDiscover q S)"
proof (cases "m_DhcpSessions S (GetSessionID (chaddr q))")
  case None
  with S show ?thesis
    by (auto simp: server_HandleDiscover_def dhcp_FindSession_def dhcp_AddSession_def new_dhcp_session_def Let_def
        users_live_def dhcp_call_def set_session_def own_config_def)
next
  case (Some s)
  let ?sid = "GetSessionID (chaddr q)"
  have own: "own_config ?sid s" using S Some by (rule users_live_own)
  have "users_live (set_session ?sid (s\<lparr>m_discovery := FreedPacket\<rparr>) S)" if "ds_config s = zeroConfig"
    using S Some that by (intro users_live_update) (auto simp: own_config_def)
  moreover have "users_live (session_HandleDiscover ?sid (ds_config s) (s\<lparr>m_discovery := LivePacket q\<rparr>)
      (set_session ?sid (s\<lparr>m_discovery := LivePacket q\<rparr>) S))" if "ds_config s \<noteq> zeroConfig"
  proof (rule users_live_offer)
    show "users_live (set_session ?sid (s\<lparr>m_discovery := LivePacket q\<rparr>) S)"
      using S Some own that by (intro users_live_update) (auto simp: own_config_def)
    show "m_DhcpSessions (set_session ?sid (s\<lparr>m_discovery := LivePacket q\<rparr>) S) ?sid =
        Some (s\<lparr>m_discovery := LivePacket q\<rparr>)" by (simp add: set_session_def)
  qed (use S own that in \<open>auto simp: own_config_def set_session_def\<close>)
  ultimately show ?thesis using S Some
    by (auto simp: server_HandleDiscover_def dhcp_FindSession_def SetDiscoverRequest_def Let_def users_live_fail)
qed

interpretation users: dhcp_keeps "\<lambda>r. length (dr_mac r) = 6" users_live
proof
  show "users_live (new_dhcp_server ip)" for ip by (simp add: users_live_def new_dhcp_server_def)
  show "users_live (S\<lparr>dhcp_szBuf := b\<rparr>) = users_live S" for S b by (simp add: users_live_def)
next
  fix S :: dhcp_server and q sid s
  assume S: "users_live S" "dhcp_error S = None" "m_DhcpSessions S sid = Some s"
  show "users_live (session_HandleInform sid q s S)"
    using S users_live_own [OF S] by (auto simp: session_HandleInform_def Let_def StartLeaseTimer_def own_config_def
        intro!: users_live_update users_live_reply)
next
  fix S :: dhcp_server and r :: dhcp_auth_response and s
  assume "users_live S" "dhcp_error S = None" "length (dr_mac r) = 6" "m_DhcpSessions S (GetSessionID (dr_mac r)) = Some s"
  then show "users_live (session_HandleDiscover (GetSessionID (dr_mac r)) (GetConfigFromResponse r) s S)"
    by (intro users_live_offer) (auto simp: GetConfigFromResponse_def)
next
  show "users_live (NakRequest q S)" if "users_live S" for q S
    unfolding NakRequest_def using that by (rule users_live_reply)
qed (auto intro: users_live_discover users_live_request users_live_remove)

section \<open>Memory\<close>

text \<open>No session has a discovery that has been freed.\<close>

definition sound :: "dhcp_server \<Rightarrow> bool" where
  "sound S \<longleftrightarrow> dhcp_error S = None \<and> (\<forall>sid s. m_DhcpSessions S sid = Some s \<longrightarrow> m_discovery s \<noteq> FreedPacket)"

text \<open>A DISCOVER for a session that has no configuration yet.\<close>

definition early_discover :: "dhcp_event \<Rightarrow> dhcp_server \<Rightarrow> bool" where
  "early_discover e S \<longleftrightarrow> (case e of
     DhcpInput heap (Some dgram) \<Rightarrow>
       (case received dgram S of
          Some q \<Rightarrow> message_type heap q = DHCP_DISCOVER \<and>
            (case m_DhcpSessions S (GetSessionID (chaddr q)) of Some s \<Rightarrow> ds_config s = zeroConfig | None \<Rightarrow> False)
        | None \<Rightarrow> False)
   | _ \<Rightarrow> False)"

lemma sound_simps:
  "sound (S\<lparr>dhcp_szBuf := b\<rparr>) = sound S" "sound (dhcp_call c S) = sound S" "sound (send_reply q p a S) = sound S"
  "sound S \<Longrightarrow> m_discovery s \<noteq> FreedPacket \<Longrightarrow> sound (set_session sid s S)"
  by (auto simp: sound_def dhcp_call_def send_reply_def SendBroadcastReply_def SendDHCP_def set_session_def)

lemma sound_offer: "sound S \<Longrightarrow> m_discovery s \<noteq> FreedPacket \<Longrightarrow> sound (session_HandleDiscover sid c s S)"
  by (auto simp: session_HandleDiscover_def Let_def StartLeaseTimer_def sound_simps split: dhcp_ptr.split)

lemma sound_remove: "sound S \<Longrightarrow> sound (snd (dhcp_RemoveSession sid S))"
  by (auto simp: dhcp_RemoveSession_def delete_session_def RemoveUser_def sound_def dhcp_call_def split: option.split)

lemma sound_discover:
  assumes "sound S" "\<And>s. m_DhcpSessions S (GetSessionID (chaddr q)) = Some s \<Longrightarrow> ds_config s \<noteq> zeroConfig"
  shows "sound (server_HandleDiscover q S)"
  using assms by (auto simp: server_HandleDiscover_def dhcp_FindSession_def dhcp_AddSession_def SetDiscoverRequest_def
      new_dhcp_session_def sound_simps sound_def [of S] Let_def intro!: sound_offer split: option.split)

lemma sound_dispatch:
  assumes S: "sound S"
    and d: "\<And>s. type = DHCP_DISCOVER \<Longrightarrow> m_DhcpSessions S (GetSessionID (chaddr q)) = Some s \<Longrightarrow> ds_config s \<noteq> zeroConfig"
  shows "sound (dispatch type q S)"
proof -
  have live: "m_discovery s \<noteq> FreedPacket" if "m_DhcpSessions S sid = Some s" for sid s using S that by (simp add: sound_def)
  have "sound (server_HandleRequest q S)"
    using S live by (auto simp: server_HandleRequest_def dhcp_FindSession_def NakRequest_def session_HandleRequest_def AddUser_def
        StartLeaseTimer_def sound_simps Let_def split: option.split)
  moreover have "sound (server_HandleInform q S)"
    using S live by (auto simp: server_HandleInform_def dhcp_FindSession_def session_HandleInform_def StartLeaseTimer_def
        sound_simps Let_def split: option.split)
  ultimately show ?thesis using S d
    by (auto simp: dispatch_def sound_discover server_HandleRelease_def session_HandleRelease_def server_HandleDecline_def
        session_HandleDecline_def dhcp_FindSession_def sound_remove Let_def split: option.split)
qed

lemma sound_do:
  assumes S: "sound S" and e: "\<not> early_discover e S"
  shows "sound (dhcp_do e S)"
proof (cases e)
  case (DhcpInput heap recv)
  have "sound (dhcp_handle_input heap recv S)"
  proof (cases recv)
    case None
    then show ?thesis using S by (simp add: dhcp_handle_input_def)
  next
    case (Some dgram)
    then show ?thesis using S e DhcpInput
      by (auto simp: dhcp_handle_input_eq Let_def sound_simps early_discover_def intro!: sound_dispatch split: option.splits)
  qed
  then show ?thesis using S DhcpInput by (simp add: dhcp_do_def sound_def)
next
  case (DhcpAnswer r)
  then show ?thesis using S sound_offer [OF S]
    by (simp add: dhcp_do_def dhcp_HandleAuthResponse_def dhcp_FindSession_def Let_def sound_def [of S] split: option.split)
next
  case (DhcpStop order)
  have "sound (ClearAllSession order S)"
    by (rule ClearAllSession_keeps [where K = sound, OF S]) (rule sound_remove)
  then show ?thesis using S DhcpStop by (simp add: dhcp_do_def sound_def)
qed (use S sound_remove [OF S] in \<open>auto simp: dhcp_do_def dhcp_KickUser_def dhcp_handle_timeout_def LeaseTimeOut_def
    sound_def [of S] split: option.split\<close>)

end
