(* ===== verification/Dhcp_Exchange.thy ===== *)
theory Dhcp_Exchange
  imports Dhcp_Correct
begin

text \<open>
  The exchange of DISCOVER, OFFER, REQUEST and acknowledgment, and the two orders of packets that break
  it: a second DISCOVER and a REQUEST ahead of the authentication manager's answer. The claims on runs
  of the server and their witnesses are at the end.
\<close>

section \<open>The exchange\<close>

text \<open>The states after DISCOVER, the answer and REQUEST.\<close>

lemma exchange:
  fixes S :: dhcp_server and heap :: byte
  assumes S: "serving S" "m_DhcpSessions S (GetSessionID (chaddr disc)) = None"
    and disc: "client_packet (dhcp_localip S) DHCP_DISCOVER disc d1"
    and r: "GetSessionID (dr_mac r) = GetSessionID (chaddr disc)"
    and req: "client_packet (dhcp_localip S) DHCP_REQUEST req d2" "GetSessionID (chaddr req) = GetSessionID (chaddr disc)"
      "requested_address req = PUTLONG (dr_subscriberIP r)"
  defines "T \<equiv> fold dhcp_do [DhcpInput heap (Some d1), DhcpAnswer r, DhcpInput heap (Some d2)] S"
    and "c \<equiv> GetConfigFromResponse r"
  shows "dhcp_out T = dhcp_out S @ [DhcpAuthRequest (take 6 (chaddr disc)),
      reply_call disc DHCP_OFFER (dhcp_localip S) (dr_subscriberIP r) c,
      reply_call req DHCP_ACK (dhcp_localip S) (dr_subscriberIP r) c, DhcpAddUser (user_of c)]"
    and "m_DhcpSessions T = (m_DhcpSessions S)(GetSessionID (chaddr disc) \<mapsto>
      \<lparr>m_discovery = LivePacket disc, ds_config = c, m_isAddUser = True, lease_timer = Some (sint (dr_leaseTime r) + 10)\<rparr>)"
    and "dhcp_error T = None"
proof -
  let ?sid = "GetSessionID (chaddr disc)"
  define S1 where "S1 = dhcp_do (DhcpInput heap (Some d1)) S"
  define S2 where "S2 = dhcp_do (DhcpAnswer r) S1"
  have S1: "m_DhcpSessions S1 = (m_DhcpSessions S)(?sid \<mapsto> new_dhcp_session\<lparr>m_discovery := LivePacket disc\<rparr>)"
    "dhcp_out S1 = dhcp_out S @ [DhcpAuthRequest (take 6 (chaddr disc))]" "dhcp_localip S1 = dhcp_localip S"
    "serving S1"
    using S serving_do [OF S(1), of "DhcpInput heap (Some d1)"]
    unfolding S1_def first_discover [OF disc S] by (simp_all add: serving_def)
  have S2: "m_DhcpSessions S2 = (m_DhcpSessions S)(?sid \<mapsto>
      \<lparr>m_discovery = LivePacket disc, ds_config = c, m_isAddUser = False, lease_timer = Some (sint (dr_leaseTime r) + 10)\<rparr>)"
    "dhcp_out S2 = dhcp_out S1 @ [reply_call disc DHCP_OFFER (dhcp_localip S) (dr_subscriberIP r) c]"
    "dhcp_localip S2 = dhcp_localip S" "serving S2"
    using answered [of S1 r "new_dhcp_session\<lparr>m_discovery := LivePacket disc\<rparr>" disc] S1 r
    unfolding S2_def c_def by (simp_all add: new_dhcp_session_def serving_def)
  have c: "ip_address c = dr_subscriberIP r" "leasetime c = dr_leaseTime r"
    by (simp_all add: c_def GetConfigFromResponse_def)
  have T: "T = dhcp_do (DhcpInput heap (Some d2)) S2" by (simp add: T_def S1_def S2_def)
  have req': "client_packet (dhcp_localip S2) DHCP_REQUEST req d2" using req(1) S2(3) by simp
  note ackd = requested [of S2 req d2 _ heap, OF req' S2(4), folded T]
  show "dhcp_out T = dhcp_out S @ [DhcpAuthRequest (take 6 (chaddr disc)),
      reply_call disc DHCP_OFFER (dhcp_localip S) (dr_subscriberIP r) c,
      reply_call req DHCP_ACK (dhcp_localip S) (dr_subscriberIP r) c, DhcpAddUser (user_of c)]"
    using ackd(2) S1 S2 req(2,3) c by (simp add: user_of_def)
  show "m_DhcpSessions T = (m_DhcpSessions S)(?sid \<mapsto>
      \<lparr>m_discovery = LivePacket disc, ds_config = c, m_isAddUser = True, lease_timer = Some (sint (dr_leaseTime r) + 10)\<rparr>)"
    using ackd(1) S2 req(2,3) c by simp
  show "dhcp_error T = None" using ackd(3) S2 req(2,3) c by simp
qed

lemma reply_call_bytes:
  assumes "client_packet ip t q d"
  shows "\<exists>b. reply_call q type ip yi c = SentDHCP b (if is_broadcast q then INADDR_BROADCAST else yi) \<and>
    marshall b 300 = Some (dhcp_reply q (PUTLONG yi) (config_options type ip c))"
proof -
  have "dhcp_wf q" using assms by (simp add: client_packet_def)
  from reply_bytes(2) [OF this length_PUTLONG reply_options_config(1)] show ?thesis by (simp add: reply_call_def)
qed

section \<open>A client\<close>

definition dhcp_demo_packet :: "byte \<Rightarrow> dhcp_option list \<Rightarrow> dhcp_packet" where
  "dhcp_demo_packet type opts = \<lparr>dhcp_op = BOOT_REQUEST, htype = 1, hlen = 6, hops = 0, xid = [1, 2, 3, 4], secs = [0, 0],
     dhcp_flags = [0x80, 0], ciaddr = replicate 4 0, yiaddr = replicate 4 0, siaddr = replicate 4 0, giaddr = replicate 4 0,
     chaddr = [0, 0x16, 0x3E, 1, 2, 3] @ replicate 10 0, sname = replicate 64 0, dhcp_file = replicate 128 0,
     dhcp_options = \<lparr>opt_code = DHO_DHCP_MESSAGE_TYPE, opt_value = [type]\<rparr> # opts\<rparr>"

definition dhcp_demo_discover :: dhcp_packet where
  "dhcp_demo_discover = dhcp_demo_packet DHCP_DISCOVER []"

definition dhcp_demo_request :: dhcp_packet where
  "dhcp_demo_request = dhcp_demo_packet DHCP_REQUEST [\<lparr>opt_code = DHO_DHCP_REQUESTED_ADDRESS, opt_value = [10, 0, 0, 9]\<rparr>]"

definition dhcp_demo_early_request :: dhcp_packet where
  "dhcp_demo_early_request = dhcp_demo_packet DHCP_REQUEST []"

definition dhcp_demo_response :: dhcp_auth_response where
  "dhcp_demo_response = \<lparr>dr_mac = [0, 0x16, 0x3E, 1, 2, 3], dr_authResult = 0, dr_subscriberIP = 0x0A000009,
     dr_subscriberIPMask = 0xFFFFFF00, dr_leaseTime = 3600, dr_gatewayaddr = 0x0A000001, dr_primaryDNS = 0x08080808,
     dr_secondaryDNS = 0x08080404\<rparr>"

lemma dhcp_demo_client:
  "client_packet 0x0A000001 DHCP_DISCOVER dhcp_demo_discover (serialize dhcp_demo_discover 2048)"
  "client_packet 0x0A000001 DHCP_REQUEST dhcp_demo_request (serialize dhcp_demo_request 2048)"
  "client_packet 0x0A000001 DHCP_REQUEST dhcp_demo_early_request (serialize dhcp_demo_early_request 2048)"
  by code_simp+

lemma dhcp_demo_ids:
  "GetSessionID (dr_mac dhcp_demo_response) = GetSessionID (chaddr dhcp_demo_discover)"
  "GetSessionID (chaddr dhcp_demo_request) = GetSessionID (chaddr dhcp_demo_discover)"
  "GetSessionID (chaddr dhcp_demo_early_request) = GetSessionID (chaddr dhcp_demo_discover)"
  by (simp_all add: dhcp_demo_response_def dhcp_demo_discover_def dhcp_demo_request_def dhcp_demo_early_request_def dhcp_demo_packet_def GetSessionID_def)

lemma dhcp_demo_addresses:
  "requested_address dhcp_demo_request = PUTLONG (dr_subscriberIP dhcp_demo_response)"
  "requested_address dhcp_demo_early_request = replicate 4 0" "length (dr_mac dhcp_demo_response) = 6"
  by code_simp+

definition dhcp_demo_events :: "dhcp_event list" where
  "dhcp_demo_events = [DhcpInput 0 (Some (serialize dhcp_demo_discover 2048)), DhcpAnswer dhcp_demo_response,
     DhcpInput 0 (Some (serialize dhcp_demo_request 2048))]"

lemma new_serving: "serving (new_dhcp_server ip)" "dhcp_localip (new_dhcp_server ip) = ip" "m_DhcpSessions (new_dhcp_server ip) = Map.empty"
  "dhcp_out (new_dhcp_server ip) = []"
  by (simp_all add: serving_def new_dhcp_server_def)

lemma dhcp_demo_run:
  "dhcp_out (fold dhcp_do dhcp_demo_events (new_dhcp_server 0x0A000001)) =
     [DhcpAuthRequest (take 6 (chaddr dhcp_demo_discover)),
      reply_call dhcp_demo_discover DHCP_OFFER 0x0A000001 (dr_subscriberIP dhcp_demo_response) (GetConfigFromResponse dhcp_demo_response),
      reply_call dhcp_demo_request DHCP_ACK 0x0A000001 (dr_subscriberIP dhcp_demo_response) (GetConfigFromResponse dhcp_demo_response),
      DhcpAddUser (user_of (GetConfigFromResponse dhcp_demo_response))]"
  "dhcp_error (fold dhcp_do dhcp_demo_events (new_dhcp_server 0x0A000001)) = None"
  using exchange [of "new_dhcp_server 0x0A000001" dhcp_demo_discover, where heap = 0, OF _ _ _ dhcp_demo_ids(1) _ dhcp_demo_ids(2) dhcp_demo_addresses(1)]
    dhcp_demo_client by (simp_all add: new_serving dhcp_demo_events_def)

section \<open>Claims\<close>

text \<open>
  C19. A client that has no session and sends a DISCOVER is authenticated; the answer of the manager,
  whatever its result says, is turned into an OFFER with the address, mask, gateway, name servers and
  lease it has; the client's REQUEST for that address is acknowledged with the same configuration, the
  subscriber is registered, the lease timer started, and no other session is touched.
\<close>

theorem dhcp_handshake:
  fixes S :: dhcp_server and heap :: byte
  assumes "serving S" "m_DhcpSessions S (GetSessionID (chaddr disc)) = None"
    and disc: "client_packet (dhcp_localip S) DHCP_DISCOVER disc d1"
    and "GetSessionID (dr_mac r) = GetSessionID (chaddr disc)"
    and req: "client_packet (dhcp_localip S) DHCP_REQUEST req d2" "GetSessionID (chaddr req) = GetSessionID (chaddr disc)"
      "requested_address req = PUTLONG (dr_subscriberIP r)"
  shows "let T = fold dhcp_do [DhcpInput heap (Some d1), DhcpAnswer r, DhcpInput heap (Some d2)] S;
             c = GetConfigFromResponse r; yi = dr_subscriberIP r
         in (\<exists>b1 b2. dhcp_out T = dhcp_out S @ [DhcpAuthRequest (take 6 (chaddr disc)),
               SentDHCP b1 (if is_broadcast disc then INADDR_BROADCAST else yi),
               SentDHCP b2 (if is_broadcast req then INADDR_BROADCAST else yi), DhcpAddUser (user_of c)] \<and>
               marshall b1 300 = Some (dhcp_reply disc (PUTLONG yi) (config_options DHCP_OFFER (dhcp_localip S) c)) \<and>
               marshall b2 300 = Some (dhcp_reply req (PUTLONG yi) (config_options DHCP_ACK (dhcp_localip S) c))) \<and>
            m_DhcpSessions T = (m_DhcpSessions S)(GetSessionID (chaddr disc) \<mapsto>
              \<lparr>m_discovery = LivePacket disc, ds_config = c, m_isAddUser = True,
               lease_timer = Some (sint (dr_leaseTime r) + 10)\<rparr>) \<and>
            dhcp_error T = None"
  unfolding Let_def exchange [OF assms, where heap = heap]
  using reply_call_bytes [OF disc, of DHCP_OFFER "dr_subscriberIP r" "GetConfigFromResponse r"]
    reply_call_bytes [OF req(1), of DHCP_ACK "dr_subscriberIP r" "GetConfigFromResponse r"] by auto

theorem dhcp_handshake_witness:
  "\<exists>b1 b2. dhcp_out (fold dhcp_do dhcp_demo_events (new_dhcp_server 0x0A000001)) =
     [DhcpAuthRequest [0, 0x16, 0x3E, 1, 2, 3], SentDHCP b1 0xFFFFFFFF, SentDHCP b2 0xFFFFFFFF,
      DhcpAddUser \<lparr>du_mac = [0, 0x16, 0x3E, 1, 2, 3], du_ip = 0x0A000009, du_dns1 = 0x08080808, du_dns2 = 0x08080404\<rparr>]"
proof -
  have "is_broadcast dhcp_demo_discover" "is_broadcast dhcp_demo_request" "take 6 (chaddr dhcp_demo_discover) = [0, 0x16, 0x3E, 1, 2, 3]"
    "user_of (GetConfigFromResponse dhcp_demo_response) =
      \<lparr>du_mac = [0, 0x16, 0x3E, 1, 2, 3], du_ip = 0x0A000009, du_dns1 = 0x08080808, du_dns2 = 0x08080404\<rparr>"
    by (simp_all add: dhcp_demo_discover_def dhcp_demo_request_def dhcp_demo_packet_def dhcp_demo_response_def is_broadcast_def GETSHORT_def
        user_of_def GetConfigFromResponse_def)
  then show ?thesis
    using dhcp_handshake [of "new_dhcp_server 0x0A000001" dhcp_demo_discover "serialize dhcp_demo_discover 2048" dhcp_demo_response
        dhcp_demo_request "serialize dhcp_demo_request 2048" 0,
        OF _ _ _ dhcp_demo_ids(1) _ dhcp_demo_ids(2) dhcp_demo_addresses(1)] dhcp_demo_client
    by (auto simp: new_serving dhcp_demo_events_def Let_def)
qed

text \<open>
  C18. Over every run of the DHCP server a subscriber is registered only with the Ethernet address, IP
  address and name servers of an answer of the authentication manager, or with none at all; and the
  datagram sent immediately before acknowledges this very address to the client.
\<close>

theorem dhcp_registration:
  assumes "dhcp_out (fold dhcp_do evs (new_dhcp_server ip)) = xs @ DhcpAddUser u # ys"
  shows "(u = user_of zeroConfig \<or> (\<exists>r. DhcpAnswer r \<in> set evs \<and> u = user_of (GetConfigFromResponse r))) \<and>
    (\<exists>ws b a p. xs = ws @ [SentDHCP b a] \<and> marshall b 300 = Some p \<and> message_type 0 p = DHCP_ACK \<and>
       yiaddr p = PUTLONG (du_ip u))"
proof -
  have "authorised {r. DhcpAnswer r \<in> set evs} (fold dhcp_do evs (new_dhcp_server ip))"
    using authorised.run_keeps [of evs "{r. DhcpAnswer r \<in> set evs}" ip] by simp
  then have "ack_before {r. DhcpAnswer r \<in> set evs} u xs"
    unfolding authorised_def acked_def using assms by blast
  then show ?thesis unfolding ack_before_def config_of_def by blast
qed

theorem dhcp_registration_witness:
  "\<exists>b a p. SentDHCP b a \<in> set (dhcp_out (fold dhcp_do dhcp_demo_events (new_dhcp_server 0x0A000001))) \<and>
     marshall b 300 = Some p \<and> yiaddr p = [10, 0, 0, 9]"
proof -
  let ?c = "GetConfigFromResponse dhcp_demo_response" and ?yi = "dr_subscriberIP dhcp_demo_response"
  let ?xs = "[DhcpAuthRequest (take 6 (chaddr dhcp_demo_discover)), reply_call dhcp_demo_discover DHCP_OFFER 0x0A000001 ?yi ?c,
    reply_call dhcp_demo_request DHCP_ACK 0x0A000001 ?yi ?c]"
  have "dhcp_out (fold dhcp_do dhcp_demo_events (new_dhcp_server 0x0A000001)) = ?xs @ DhcpAddUser (user_of ?c) # []"
    by (simp add: dhcp_demo_run)
  from dhcp_registration [OF this] obtain ws b a p where
    x: "?xs = ws @ [SentDHCP b a]" "marshall b 300 = Some p" "yiaddr p = PUTLONG (du_ip (user_of ?c))" by blast
  have "PUTLONG (du_ip (user_of ?c)) = [10, 0, 0, 9]" by code_simp
  moreover have "SentDHCP b a \<in> set ?xs" by (simp only: x(1)) simp
  ultimately show ?thesis using x(2,3) by (auto simp: dhcp_demo_run)
qed


lemma dhcp_demo_registered:
  "user_added [0, 0x16, 0x3E, 1, 2, 3] (dhcp_out (fold dhcp_do dhcp_demo_events (new_dhcp_server 0x0A000001)))"
  by (simp add: dhcp_demo_run user_added_def user_of_def GetConfigFromResponse_def dhcp_demo_response_def)


text \<open>
  C21. Over every run of the DHCP server, whatever is received and whatever the managers answer, every
  datagram sent is 300 bytes long and reads back as a DHCP reply with the server's own identifier that
  offers, acknowledges or refuses an address.
\<close>

theorem dhcp_answers_wellformed:
  assumes "SentDHCP b a \<in> set (dhcp_out (fold dhcp_do evs (new_dhcp_server ip)))"
  shows "length b = 300 \<and> (\<exists>p. marshall b (length b) = Some p \<and> dhcp_op p = BOOT_REPLY \<and> get_server_id p = ip \<and>
    message_type heap p \<in> {DHCP_OFFER, DHCP_ACK, DHCP_NAK})"
proof -
  have "sent_ok (fold dhcp_do evs (new_dhcp_server ip))" using sent.run_keeps [of evs ip] by simp
  then have "reply_ok ip b" using assms by (auto simp: sent_ok_def new_serving)
  then show ?thesis unfolding reply_ok_def by auto
qed

theorem dhcp_answers_wellformed_witness:
  "\<exists>b a. SentDHCP b a \<in> set (dhcp_out (fold dhcp_do dhcp_demo_events (new_dhcp_server 0x0A000001))) \<and> length b = 300"
proof -
  obtain b where "reply_call dhcp_demo_discover DHCP_OFFER 0x0A000001 (dr_subscriberIP dhcp_demo_response)
      (GetConfigFromResponse dhcp_demo_response) = SentDHCP b (if is_broadcast dhcp_demo_discover then INADDR_BROADCAST
      else dr_subscriberIP dhcp_demo_response)"
    using reply_call_bytes [OF dhcp_demo_client(1)] by blast
  then have "SentDHCP b (if is_broadcast dhcp_demo_discover then INADDR_BROADCAST else dr_subscriberIP dhcp_demo_response) \<in>
      set (dhcp_out (fold dhcp_do dhcp_demo_events (new_dhcp_server 0x0A000001)))" by (simp add: dhcp_demo_run)
  from this dhcp_answers_wellformed [OF this, of 0] show ?thesis by blast
qed

text \<open>
  C22. The server uses or frees a packet it has freed only after a DISCOVER for a session whose
  authentication has not been answered yet.
\<close>

theorem dhcp_fails_only:
  assumes "dhcp_error (fold dhcp_do evs (new_dhcp_server ip)) \<noteq> None"
  shows "\<exists>before e after. evs = before @ e # after \<and> early_discover e (fold dhcp_do before (new_dhcp_server ip))"
proof (rule ccontr)
  assume none: "\<not> ?thesis"
  have "sound (fold dhcp_do es (new_dhcp_server ip))" if "evs = es @ rest" for es rest
    using that
  proof (induction es arbitrary: rest rule: rev_induct)
    case Nil
    show ?case by (simp add: sound_def new_dhcp_server_def)
  next
    case (snoc e es)
    with none have "\<not> early_discover e (fold dhcp_do es (new_dhcp_server ip))" by auto
    with snoc show ?case by (simp add: sound_do)
  qed
  from this [of evs "[]"] assms show False by (simp add: sound_def)
qed

lemma second_discover:
  fixes S :: dhcp_server and heap :: byte
  assumes S: "serving S" "m_DhcpSessions S (GetSessionID (chaddr q1)) = None"
    and q: "client_packet (dhcp_localip S) DHCP_DISCOVER q1 d1" "client_packet (dhcp_localip S) DHCP_DISCOVER q2 d2"
      "GetSessionID (chaddr q2) = GetSessionID (chaddr q1)"
  defines "T \<equiv> fold dhcp_do [DhcpInput heap (Some d1), DhcpInput heap (Some d2)] S"
  shows "m_DhcpSessions T (GetSessionID (chaddr q1)) = Some (new_dhcp_session\<lparr>m_discovery := FreedPacket\<rparr>)"
    "dhcp_error T = None" "dhcp_localip T = dhcp_localip S" "serving T"
proof -
  let ?sid = "GetSessionID (chaddr q1)"
  define S1 where "S1 = dhcp_do (DhcpInput heap (Some d1)) S"
  have S1: "m_DhcpSessions S1 = (m_DhcpSessions S)(?sid \<mapsto> new_dhcp_session\<lparr>m_discovery := LivePacket q1\<rparr>)"
    "dhcp_localip S1 = dhcp_localip S" "serving S1"
    using S serving_do [OF S(1), of "DhcpInput heap (Some d1)"]
    unfolding S1_def first_discover [OF q(1) S] by (simp_all add: serving_def)
  have T: "T = dispatch DHCP_DISCOVER q2 (filled d2 S1)"
    using client_input [of S1 DHCP_DISCOVER q2 d2 heap] q(2) S1(2,3) by (simp add: T_def S1_def)
  show "m_DhcpSessions T ?sid = Some (new_dhcp_session\<lparr>m_discovery := FreedPacket\<rparr>)" and e: "dhcp_error T = None"
    using q(3) S1 by (simp_all add: T dhcp_handlers serving_def)
  show "dhcp_localip T = dhcp_localip S" by (simp add: T_def)
  show "serving T" using e S serving_do dhcp_do_buffer by (simp add: T_def serving_def)
qed

lemma freed_fails:
  assumes "serving T" "m_DhcpSessions T sid = Some (new_dhcp_session\<lparr>m_discovery := FreedPacket\<rparr>)"
  shows "GetSessionID (dr_mac r) = sid \<Longrightarrow> dhcp_error (dhcp_do (DhcpAnswer r) T) = Some UseAfterFree"
    "GetSessionID mac = sid \<Longrightarrow> dhcp_error (dhcp_do (DhcpKick mac) T) = Some DoubleFree"
    "GetSessionID (chaddr q) = sid \<Longrightarrow> client_packet (dhcp_localip T) DHCP_DISCOVER q d \<Longrightarrow>
       dhcp_error (dhcp_do (DhcpInput heap (Some d)) T) = Some DoubleFree"
  using assms by (auto simp: dhcp_do_def [of "DhcpAnswer r"] dhcp_do_def [of "DhcpKick mac"] serving_def dhcp_HandleAuthResponse_def dhcp_KickUser_def
      dhcp_handlers client_input [OF _ assms(1)])

theorem dhcp_fails_only_witness:
  "\<exists>before e after. [DhcpInput 0 (Some (serialize dhcp_demo_discover 2048)), DhcpInput 0 (Some (serialize dhcp_demo_discover 2048)),
      DhcpAnswer dhcp_demo_response] = before @ e # after \<and>
     early_discover e (fold dhcp_do before (new_dhcp_server 0x0A000001))"
  using second_discover [of "new_dhcp_server 0x0A000001" dhcp_demo_discover "serialize dhcp_demo_discover 2048" dhcp_demo_discover
      "serialize dhcp_demo_discover 2048" 0] dhcp_demo_client(1)
  by (intro dhcp_fails_only) (simp add: new_serving freed_fails(1) [OF _ _ dhcp_demo_ids(1)])

text \<open>
  A client that sends DISCOVER twice before the authentication manager answers makes the server
  keep a pointer to a packet it has freed: the answer reads it, while a third DISCOVER or the removal
  of the session frees it again.
\<close>

theorem dhcp_second_discover:
  fixes S :: dhcp_server and heap :: byte
  assumes "serving S" "m_DhcpSessions S (GetSessionID (chaddr q1)) = None"
    and q: "client_packet (dhcp_localip S) DHCP_DISCOVER q1 d1" "client_packet (dhcp_localip S) DHCP_DISCOVER q2 d2"
      "GetSessionID (chaddr q2) = GetSessionID (chaddr q1)"
    and "GetSessionID (dr_mac r) = GetSessionID (chaddr q1)"
  shows "let T = fold dhcp_do [DhcpInput heap (Some d1), DhcpInput heap (Some d2)] S in
    dhcp_error T = None \<and> dhcp_error (dhcp_do (DhcpAnswer r) T) = Some UseAfterFree \<and>
    dhcp_error (dhcp_do (DhcpKick (chaddr q1)) T) = Some DoubleFree \<and>
    dhcp_error (dhcp_do (DhcpInput heap (Some d1)) T) = Some DoubleFree"
  using second_discover [OF assms(1-5), where heap = heap] freed_fails assms by (simp only: Let_def)

theorem dhcp_second_discover_witness:
  "dhcp_error (fold dhcp_do [DhcpInput 0 (Some (serialize dhcp_demo_discover 2048)), DhcpInput 0 (Some (serialize dhcp_demo_discover 2048)),
      DhcpAnswer dhcp_demo_response] (new_dhcp_server 0x0A000001)) = Some UseAfterFree"
  using dhcp_second_discover [of "new_dhcp_server 0x0A000001" dhcp_demo_discover "serialize dhcp_demo_discover 2048" dhcp_demo_discover
      "serialize dhcp_demo_discover 2048" dhcp_demo_response 0] dhcp_demo_client(1) dhcp_demo_ids(1)
  by (simp add: new_serving Let_def)

text \<open>
  A client that sends a REQUEST without an address before the authentication manager answers has it
  acknowledged with the address 0.0.0.0, and a subscriber without any address is registered; when the
  client later gets and requests its address, this is acknowledged but the subscriber is not registered.
\<close>

theorem dhcp_early_request:
  fixes S :: dhcp_server and heap :: byte
  assumes S: "serving S" "m_DhcpSessions S (GetSessionID (chaddr disc)) = None"
    and disc: "client_packet (dhcp_localip S) DHCP_DISCOVER disc d1"
    and early: "client_packet (dhcp_localip S) DHCP_REQUEST early d2" "GetSessionID (chaddr early) = GetSessionID (chaddr disc)"
      "requested_address early = replicate 4 0"
    and r: "GetSessionID (dr_mac r) = GetSessionID (chaddr disc)"
    and req: "client_packet (dhcp_localip S) DHCP_REQUEST req d3" "GetSessionID (chaddr req) = GetSessionID (chaddr disc)"
      "requested_address req = PUTLONG (dr_subscriberIP r)"
  shows "dhcp_out (fold dhcp_do [DhcpInput heap (Some d1), DhcpInput heap (Some d2), DhcpAnswer r, DhcpInput heap (Some d3)] S) =
    dhcp_out S @ [DhcpAuthRequest (take 6 (chaddr disc)),
      reply_call early DHCP_ACK (dhcp_localip S) 0 zeroConfig, DhcpAddUser (user_of zeroConfig),
      reply_call disc DHCP_OFFER (dhcp_localip S) (dr_subscriberIP r) (GetConfigFromResponse r),
      reply_call req DHCP_ACK (dhcp_localip S) (dr_subscriberIP r) (GetConfigFromResponse r)]"
proof -
  let ?sid = "GetSessionID (chaddr disc)" and ?c = "GetConfigFromResponse r"
  define S1 where "S1 = dhcp_do (DhcpInput heap (Some d1)) S"
  define S2 where "S2 = dhcp_do (DhcpInput heap (Some d2)) S1"
  define S3 where "S3 = dhcp_do (DhcpAnswer r) S2"
  let ?s1 = "new_dhcp_session\<lparr>m_discovery := LivePacket disc\<rparr>"
  have S1: "m_DhcpSessions S1 = (m_DhcpSessions S)(?sid \<mapsto> ?s1)"
    "dhcp_out S1 = dhcp_out S @ [DhcpAuthRequest (take 6 (chaddr disc))]" "dhcp_localip S1 = dhcp_localip S" "serving S1"
    using S serving_do [OF S(1), of "DhcpInput heap (Some d1)"]
    unfolding S1_def first_discover [OF disc S] by (simp_all add: serving_def)
  have zero: "PUTLONG 0 = replicate 4 0" by code_simp
  have z: "ds_config ?s1 = zeroConfig" "\<not> m_isAddUser ?s1" "ip_address zeroConfig = 0"
    by (simp_all add: new_dhcp_session_def zeroConfig_def)
  have at1: "m_DhcpSessions S1 (GetSessionID (chaddr early)) = Some ?s1" using S1(1) early(2) by simp
  have early1: "client_packet (dhcp_localip S1) DHCP_REQUEST early d2" using early(1) S1(3) by simp
  have addr1: "requested_address early = PUTLONG (ip_address (ds_config ?s1))" using early(3) z zero by simp
  note s2 = requested [OF early1 S1(4) at1 addr1, of heap, folded S2_def]
  let ?s2 = "?s1\<lparr>lease_timer := Some (sint (leasetime (ds_config ?s1)) + 10), m_isAddUser := True\<rparr>"
  have "serving S2" using s2(3) S1(4) unfolding S2_def by (rule serving_do [rotated])
  moreover have at2: "m_DhcpSessions S2 (GetSessionID (dr_mac r)) = Some ?s2" using s2(1) early(2) r by simp
  moreover have "m_discovery ?s2 = LivePacket disc" by simp
  ultimately have s3: "S3 = S2\<lparr>m_DhcpSessions := (m_DhcpSessions S2)(GetSessionID (dr_mac r) \<mapsto>
         ?s2\<lparr>ds_config := ?c, lease_timer := Some (sint (dr_leaseTime r) + 10)\<rparr>),
      dhcp_out := dhcp_out S2 @ [reply_call disc DHCP_OFFER (dhcp_localip S2) (dr_subscriberIP r) ?c]\<rparr>" and "serving S2"
    unfolding S3_def by (simp_all only: answered)
  have S3: "serving S3" using \<open>serving S2\<close> by (simp add: s3 serving_def)
  have "client_packet (dhcp_localip S3) DHCP_REQUEST req d3" using req(1) S1(3) by (simp add: S3_def S2_def)
  moreover have "m_DhcpSessions S3 (GetSessionID (chaddr req)) =
      Some (?s2\<lparr>ds_config := ?c, lease_timer := Some (sint (dr_leaseTime r) + 10)\<rparr>)" using r req(2) by (simp add: s3)
  moreover have c: "ip_address ?c = dr_subscriberIP r" by (simp add: GetConfigFromResponse_def)
  ultimately have "dhcp_out (dhcp_do (DhcpInput heap (Some d3)) S3) =
      dhcp_out S3 @ [reply_call req DHCP_ACK (dhcp_localip S3) (dr_subscriberIP r) ?c]"
    using requested(2) [of S3 req d3 _ heap, OF _ S3] req(3) by simp
  also have "dhcp_localip S3 = dhcp_localip S" using S1(3) by (simp add: S3_def S2_def)
  finally show ?thesis using s2(2) S1(2,3) z
    by (simp add: S1_def [symmetric] S2_def [symmetric] S3_def [symmetric] s3 user_of_def) (simp add: S2_def)
qed

theorem dhcp_early_request_witness:
  "DhcpAddUser (user_of (GetConfigFromResponse dhcp_demo_response)) \<notin> set (dhcp_out (fold dhcp_do
     [DhcpInput 0 (Some (serialize dhcp_demo_discover 2048)), DhcpInput 0 (Some (serialize dhcp_demo_early_request 2048)),
      DhcpAnswer dhcp_demo_response, DhcpInput 0 (Some (serialize dhcp_demo_request 2048))] (new_dhcp_server 0x0A000001)))"
proof -
  have "user_of (GetConfigFromResponse dhcp_demo_response) \<noteq> user_of zeroConfig" by code_simp
  then show ?thesis
    using dhcp_early_request [of "new_dhcp_server 0x0A000001" dhcp_demo_discover "serialize dhcp_demo_discover 2048"
        dhcp_demo_early_request "serialize dhcp_demo_early_request 2048" dhcp_demo_response dhcp_demo_request "serialize dhcp_demo_request 2048" 0,
        OF _ _ _ _ dhcp_demo_ids(3) dhcp_demo_addresses(2) dhcp_demo_ids(1) _ dhcp_demo_ids(2) dhcp_demo_addresses(1)] dhcp_demo_client
    by (simp add: new_serving reply_call_def)
qed

end
