(* ===== verification/L2tp_Message.thy ===== *)
theory L2tp_Message
  imports Ppp_Options
begin

text \<open>
  Messages of the layer two tunnelling protocol (RFC 2661): \<^verbatim>\<open>src/src/l2tp/CL2TPMessage.cpp\<close> and the macros of
  \<^verbatim>\<open>src/src/include/IL2TPInterface.h\<close>.

  A control message that is composed is the list of the bytes of its AVPs: the source keeps a zeroed
  buffer and the number of bytes written, and every \<^verbatim>\<open>add_\<close> function writes at that place. A control
  message that is received is decoded in place: \<^verbatim>\<open>swaps\<close> turns the three 16-bit fields of each AVP's
  header into host order (little endian) in the receive buffer. 16-bit numbers are natural numbers
  below 65536, and masks are written with \<open>div\<close> and \<open>mod\<close>.

  The loop over the AVPs need not end; it is a \<open>partial_function\<close>, and not to return is \<open>None\<close>. A copy past
  the end of an array is a fault.
\<close>

section \<open>Constants and macros\<close>

abbreviation (input) SCCRQ :: nat where "SCCRQ \<equiv> 1"
abbreviation (input) SCCRP :: nat where "SCCRP \<equiv> 2"
abbreviation (input) SCCCN :: nat where "SCCCN \<equiv> 3"
abbreviation (input) StopCCN :: nat where "StopCCN \<equiv> 4"
abbreviation (input) L2TP_Hello :: nat where "L2TP_Hello \<equiv> 6"
abbreviation (input) OCRQ :: nat where "OCRQ \<equiv> 7"
abbreviation (input) OCRP :: nat where "OCRP \<equiv> 8"
abbreviation (input) OCCN :: nat where "OCCN \<equiv> 9"
abbreviation (input) ICRQ :: nat where "ICRQ \<equiv> 10"
abbreviation (input) ICRP :: nat where "ICRP \<equiv> 11"
abbreviation (input) ICCN :: nat where "ICCN \<equiv> 12"
abbreviation (input) CDN :: nat where "CDN \<equiv> 14"

abbreviation (input) AVP_MAX :: nat where "AVP_MAX \<equiv> 39"
abbreviation (input) MAX_RECV_SIZE :: nat where "MAX_RECV_SIZE \<equiv> 4096"
abbreviation (input) MIN_PAYLOAD_HDR_LEN :: nat where "MIN_PAYLOAD_HDR_LEN \<equiv> 6"
abbreviation (input) MAXAVPSIZE :: nat where "MAXAVPSIZE \<equiv> 1023"
abbreviation (input) VER_L2TP :: nat where "VER_L2TP \<equiv> 2"
abbreviation (input) TBIT :: nat where "TBIT \<equiv> 0x8000"
abbreviation (input) LBIT :: nat where "LBIT \<equiv> 0x4000"
abbreviation (input) FBIT :: nat where "FBIT \<equiv> 0x0800"
abbreviation (input) MBIT :: nat where "MBIT \<equiv> 0x8000"

definition AMBIT :: "nat \<Rightarrow> bool" where "AMBIT len \<longleftrightarrow> len div 0x8000 mod 2 = 1"
definition AZBITS :: "nat \<Rightarrow> bool" where "AZBITS len \<longleftrightarrow> len div 0x400 mod 16 \<noteq> 0"
definition ALENGTH :: "nat \<Rightarrow> nat" where "ALENGTH len = len mod 0x400"
definition CTBIT :: "nat \<Rightarrow> bool" where "CTBIT ver \<longleftrightarrow> ver div 0x8000 mod 2 = 1"
definition PLBIT :: "nat \<Rightarrow> bool" where "PLBIT ver \<longleftrightarrow> ver div 0x4000 mod 2 = 1"
definition PFBIT :: "nat \<Rightarrow> bool" where "PFBIT ver \<longleftrightarrow> ver div 0x0800 mod 2 = 1"
definition PSBIT :: "nat \<Rightarrow> bool" where "PSBIT ver \<longleftrightarrow> ver div 0x0200 mod 2 = 1"
definition PVER :: "nat \<Rightarrow> nat" where "PVER ver = ver mod 8"

text \<open>A 16-bit field at byte \<open>i\<close> in network order, and as the little endian host reads it.\<close>

definition net16 :: "byte list \<Rightarrow> nat \<Rightarrow> nat" where
  "net16 buf i = GETSHORT (buf ! i) (buf ! (i + 1))"

definition host16 :: "byte list \<Rightarrow> nat \<Rightarrow> nat" where
  "host16 buf i = GETSHORT (buf ! (i + 1)) (buf ! i)"

definition swap16 :: "nat \<Rightarrow> byte list \<Rightarrow> byte list" where
  "swap16 i buf = buf[i := buf ! (i + 1), i + 1 := buf ! i]"

definition swaps :: "nat \<Rightarrow> byte list \<Rightarrow> byte list" where
  "swaps i buf = swap16 (i + 4) (swap16 (i + 2) (swap16 i buf))"

section \<open>Composing control messages\<close>

type_synonym avps = "byte list"

definition add_nonmandatory_header :: "nat \<Rightarrow> nat \<Rightarrow> byte list" where
  "add_nonmandatory_header len type = PUTSHORT len @ PUTSHORT 0 @ PUTSHORT type"

text \<open>\<^verbatim>\<open>length|MBIT\<close> on the 16 bits of the parameter.\<close>

definition add_header :: "nat \<Rightarrow> nat \<Rightarrow> byte list" where
  "add_header len type = add_nonmandatory_header (MBIT + len mod 0x8000) type"

definition half_words :: "nat \<Rightarrow> byte list" where
  "half_words v = PUTSHORT (v div 0x10000 mod 0x10000) @ PUTSHORT (v mod 0x10000)"

definition add_message_type_avp :: "nat \<Rightarrow> avps \<Rightarrow> avps" where
  "add_message_type_avp type m = m @ add_header 8 0 @ PUTSHORT type"

definition add_protocol_avp :: "nat \<Rightarrow> avps \<Rightarrow> avps" where
  "add_protocol_avp protocol m = m @ add_header 8 2 @ PUTSHORT protocol"

definition add_frame_caps_avp :: "nat \<Rightarrow> avps \<Rightarrow> avps" where
  "add_frame_caps_avp caps m = m @ add_header 0xA 3 @ PUTSHORT 0 @ PUTSHORT caps"

definition add_bearer_caps_avp :: "nat \<Rightarrow> avps \<Rightarrow> avps" where
  "add_bearer_caps_avp caps m = m @ add_header 0xA 4 @ PUTSHORT 0 @ PUTSHORT caps"

definition add_firmware_avp :: "nat \<Rightarrow> avps \<Rightarrow> avps" where
  "add_firmware_avp version m = m @ add_nonmandatory_header 8 6 @ PUTSHORT version"

definition add_hostname_avp :: "byte list \<Rightarrow> avps \<Rightarrow> avps" where
  "add_hostname_avp hostname m =
     (let namelen = (if length hostname > MAXAVPSIZE - 6 then MAXAVPSIZE - 6 else length hostname)
      in m @ add_header (6 + namelen) 7 @ take namelen hostname)"

definition add_vendor_avp :: "byte list \<Rightarrow> avps \<Rightarrow> avps" where
  "add_vendor_avp vendorname m = m @ add_nonmandatory_header (6 + length vendorname) 8 @ vendorname"

definition add_tunnelid_avp :: "nat \<Rightarrow> avps \<Rightarrow> avps" where
  "add_tunnelid_avp tid m = m @ add_header 8 9 @ PUTSHORT tid"

definition add_avp_rws :: "nat \<Rightarrow> avps \<Rightarrow> avps" where
  "add_avp_rws rws m = m @ add_header 8 0xA @ PUTSHORT rws"

text \<open>The AVPs whose value is an array: each of the \<^verbatim>\<open>add_\<close> functions below copies it behind its header.\<close>

definition add_bytes_avp :: "nat \<Rightarrow> byte list \<Rightarrow> avps \<Rightarrow> avps" where
  "add_bytes_avp type c m = m @ add_header (6 + length c) type @ c"

definition add_challenge_avp :: "byte list \<Rightarrow> avps \<Rightarrow> avps" where
  "add_challenge_avp = add_bytes_avp 0xB"

definition add_chalresp_avp :: "byte list \<Rightarrow> avps \<Rightarrow> avps" where
  "add_chalresp_avp = add_bytes_avp 0xD"

definition add_randvect_avp :: "byte list \<Rightarrow> avps \<Rightarrow> avps" where
  "add_randvect_avp = add_bytes_avp 0x24"

definition add_result_code_avp :: "nat \<Rightarrow> nat \<Rightarrow> byte list \<Rightarrow> avps \<Rightarrow> avps" where
  "add_result_code_avp result error msg m =
     m @ add_header (0xA + length msg) 1 @ PUTSHORT result @ PUTSHORT error @ msg"

definition add_callid_avp :: "nat \<Rightarrow> avps \<Rightarrow> avps" where
  "add_callid_avp callid m = m @ add_header 8 0xE @ PUTSHORT callid"

definition add_serno_avp :: "nat \<Rightarrow> avps \<Rightarrow> avps" where
  "add_serno_avp serno m = m @ add_header 0xA 0xF @ half_words serno"

definition add_bearer_avp :: "nat \<Rightarrow> avps \<Rightarrow> avps" where
  "add_bearer_avp bearer m = m @ add_header 0xA 0x12 @ half_words bearer"

definition add_frame_avp :: "nat \<Rightarrow> avps \<Rightarrow> avps" where
  "add_frame_avp frame m = m @ add_header 0xA 0x13 @ half_words frame"

definition add_txspeed_avp :: "nat \<Rightarrow> avps \<Rightarrow> avps" where
  "add_txspeed_avp speed m = m @ add_header 0xA 0x18 @ half_words speed"

definition add_rxspeed_avp :: "nat \<Rightarrow> avps \<Rightarrow> avps" where
  "add_rxspeed_avp speed m = m @ add_nonmandatory_header 0xA 0x26 @ half_words speed"

definition add_physchan_avp :: "nat \<Rightarrow> avps \<Rightarrow> avps" where
  "add_physchan_avp physchan m = m @ add_nonmandatory_header 0xA 0x19 @ half_words physchan"

definition add_ppd_avp :: "nat \<Rightarrow> avps \<Rightarrow> avps" where
  "add_ppd_avp ppd m = m @ add_header 8 0x14 @ PUTSHORT ppd"

definition add_seqreqd_avp :: "avps \<Rightarrow> avps" where
  "add_seqreqd_avp m = m @ add_header 6 0x27"

definition add_minbps_avp :: "nat \<Rightarrow> avps \<Rightarrow> avps" where
  "add_minbps_avp speed m = m @ add_header 0xA 0x10 @ half_words speed"

definition add_maxbps_avp :: "nat \<Rightarrow> avps \<Rightarrow> avps" where
  "add_maxbps_avp speed m = m @ add_header 0xA 0x11 @ half_words speed"

definition add_number_avp :: "byte list \<Rightarrow> avps \<Rightarrow> avps" where
  "add_number_avp = add_bytes_avp 0x15"

definition add_init_lcp_req_avp :: "byte list \<Rightarrow> avps \<Rightarrow> avps" where
  "add_init_lcp_req_avp = add_bytes_avp 26"

definition add_last_lcp_send_avp :: "byte list \<Rightarrow> avps \<Rightarrow> avps" where
  "add_last_lcp_send_avp = add_bytes_avp 27"

definition add_last_lcp_recv_avp :: "byte list \<Rightarrow> avps \<Rightarrow> avps" where
  "add_last_lcp_recv_avp = add_bytes_avp 28"

definition add_proxy_auth_type_avp :: "nat \<Rightarrow> avps \<Rightarrow> avps" where
  "add_proxy_auth_type_avp type m = m @ add_header 8 29 @ PUTSHORT type"

definition add_proxy_auth_name_avp :: "byte list \<Rightarrow> avps \<Rightarrow> avps" where
  "add_proxy_auth_name_avp = add_bytes_avp 30"

definition add_proxy_auth_challenge_avp :: "byte list \<Rightarrow> avps \<Rightarrow> avps" where
  "add_proxy_auth_challenge_avp = add_bytes_avp 31"

definition add_proxy_auth_id_avp :: "nat \<Rightarrow> avps \<Rightarrow> avps" where
  "add_proxy_auth_id_avp ident m = m @ add_header 8 32 @ PUTSHORT ident"

definition add_proxy_auth_response_avp :: "byte list \<Rightarrow> avps \<Rightarrow> avps" where
  "add_proxy_auth_response_avp = add_bytes_avp 33"

text \<open>The message as it is sent.\<close>

definition add_control_hdr :: "nat \<Rightarrow> nat \<Rightarrow> nat \<Rightarrow> nat \<Rightarrow> avps \<Rightarrow> byte list" where
  "add_control_hdr tid cid ns nr m =
     PUTSHORT (TBIT + LBIT + FBIT + VER_L2TP) @ PUTSHORT (12 + length m) @ PUTSHORT tid @ PUTSHORT cid @
     PUTSHORT ns @ PUTSHORT nr @ m"

section \<open>Received control messages\<close>

record L2tpSessionProxy =
  sInitRcvLcpConf :: "byte list"
  wInitRcvLcpConfLen :: nat
  sLastSendLcpConf :: "byte list"
  wLastSendLcpConfLen :: nat
  sLastRcvLcpConf :: "byte list"
  wLastRcvLcpConfLen :: nat
  wAuthenType :: nat
  sAuthenName :: "byte list"
  wAuthenNameLen :: nat
  sAuthenChallenge :: "byte list"
  wAuthenChallengeLen :: nat
  wAuthenID :: nat
  sAuthenResponse :: "byte list"
  wAuthenResponseLen :: nat

definition zero_proxy :: L2tpSessionProxy where
  "zero_proxy = \<lparr>sInitRcvLcpConf = replicate 64 0, wInitRcvLcpConfLen = 0, sLastSendLcpConf = replicate 64 0,
     wLastSendLcpConfLen = 0, sLastRcvLcpConf = replicate 64 0, wLastRcvLcpConfLen = 0, wAuthenType = 0,
     sAuthenName = replicate 73 0, wAuthenNameLen = 0, sAuthenChallenge = replicate 64 0, wAuthenChallengeLen = 0,
     wAuthenID = 0, sAuthenResponse = replicate 16 0, wAuthenResponseLen = 0\<rparr>"

record control_msg =
  c_ver :: nat
  c_length :: nat
  c_tid :: nat
  c_cid :: nat
  c_Ns :: nat
  c_Nr :: nat
  m_messatetype :: nat
  m_assigtunenid :: nat
  m_assigcallid :: nat
  m_bzlb :: bool
  c_proxy :: L2tpSessionProxy

definition Reset :: control_msg where
  "Reset = \<lparr>c_ver = 0, c_length = 0, c_tid = 0, c_cid = 0, c_Ns = 0, c_Nr = 0, m_messatetype = 0, m_assigtunenid = 0,
     m_assigcallid = 0, m_bzlb = False, c_proxy = zero_proxy\<rparr>"

datatype l2tp_fault = AvpHang | ProxyOverrun | BufferOverrun | ProxyOverread

text \<open>
  The \<^verbatim>\<open>SETS_\<close> macros copy the whole AVP, with its header, over an array. The result is the array, or a
  fault when the AVP is longer.
\<close>

definition sets :: "byte list \<Rightarrow> byte list \<Rightarrow> l2tp_fault + byte list" where
  "sets arr avp = (if length avp > length arr then Inl ProxyOverrun else Inr (memcpy_at arr 0 avp (length avp)))"

definition NULL_handlers :: "nat list" where
  "NULL_handlers = [5, 12, 16, 17, 34, 37]"

text \<open>
  The handlers. \<open>avp\<close> are the bytes of the AVP in the buffer, \<open>v\<close> the two bytes behind its header. Those not
  listed do nothing; all of them return 0.
\<close>

definition avp_handler :: "nat \<Rightarrow> byte list \<Rightarrow> nat \<Rightarrow> control_msg \<Rightarrow> l2tp_fault + control_msg" where
  "avp_handler attr avp v m =
     (let p = c_proxy m; n = length avp;
          keep = (\<lambda>r upd. case r of Inl e \<Rightarrow> Inl e | Inr a \<Rightarrow> Inr (m\<lparr>c_proxy := upd a\<rparr>))
      in if attr = 0 then Inr (m\<lparr>m_messatetype := v\<rparr>)
         else if attr = 9 then Inr (m\<lparr>m_assigtunenid := v\<rparr>)
         else if attr = 14 then Inr (m\<lparr>m_assigcallid := v\<rparr>)
         else if attr = 26 then keep (sets (sInitRcvLcpConf p) avp) (\<lambda>a. p\<lparr>sInitRcvLcpConf := a, wInitRcvLcpConfLen := n\<rparr>)
         else if attr = 27 then keep (sets (sLastSendLcpConf p) avp) (\<lambda>a. p\<lparr>sLastSendLcpConf := a, wLastSendLcpConfLen := n\<rparr>)
         else if attr = 28 then keep (sets (sLastRcvLcpConf p) avp) (\<lambda>a. p\<lparr>sLastRcvLcpConf := a, wLastRcvLcpConfLen := n\<rparr>)
         else if attr = 29 then Inr (m\<lparr>c_proxy := p\<lparr>wAuthenType := v\<rparr>\<rparr>)
         else if attr = 30 then keep (sets (sAuthenName p) avp) (\<lambda>a. p\<lparr>sAuthenName := a, wAuthenNameLen := n\<rparr>)
         else if attr = 31 then keep (sets (sAuthenChallenge p) avp) (\<lambda>a. p\<lparr>sAuthenChallenge := a, wAuthenChallengeLen := n\<rparr>)
         else if attr = 32 then Inr (m\<lparr>c_proxy := p\<lparr>wAuthenID := v\<rparr>\<rparr>)
         else if attr = 33 then keep (sets (sAuthenResponse p) avp) (\<lambda>a. p\<lparr>sAuthenResponse := a, wAuthenResponseLen := n\<rparr>)
         else Inr m)"

text \<open>
  The loop of \<^verbatim>\<open>HandleAVPs\<close>: at byte \<open>at\<close> of the buffer with \<open>len\<close> bytes left; \<open>first\<close> before the first AVP.
  It returns 0 or -1, the message and the buffer. Reading or swapping behind the end of the buffer is a
  fault; of the handlers, those of \<open>value_handlers\<close> read two bytes behind the header.
\<close>

definition value_handlers :: "nat list" where
  "value_handlers = [0, 9, 14, 29, 32]"

partial_function (option) avp_loop ::
  "byte list \<Rightarrow> nat \<Rightarrow> int \<Rightarrow> bool \<Rightarrow> control_msg \<Rightarrow> (l2tp_fault + int \<times> control_msg \<times> byte list) option" where
  "avp_loop buf at len first m =
     (if len \<le> 0 then Some (Inr (if len \<noteq> 0 then -1 else 0, m, buf))
      else if at + 6 > length buf then Some (Inl BufferOverrun)
      else let buf = swaps at buf;
               alen = host16 buf at;
               attr = host16 buf (at + 4);
               n = ALENGTH alen
           in if attr > AVP_MAX then
                if AMBIT alen then Some (Inr (-1, m, buf))
                else avp_loop buf (at + n) (len - int n) False m
              else if int n > len then Some (Inr (-1, m, buf))
              else if attr \<noteq> 0 \<and> first then Some (Inr (-1, m, buf))
              else if n < 6 then Some (Inr (-1, m, buf))
              else if AZBITS alen then
                if AMBIT alen then Some (Inr (-1, m, buf))
                else avp_loop buf (at + n) (len - int n) False m
              else if attr \<in> set NULL_handlers then
                if AMBIT alen then Some (Inr (-1, m, buf))
                else avp_loop buf (at + n) (len - int n) False m
              else if attr \<in> set value_handlers \<and> at + 8 > length buf then Some (Inl BufferOverrun)
              else case avp_handler attr (take n (drop at buf)) (net16 buf (at + 6)) m of
                  Inl e \<Rightarrow> Some (Inl e)
                | Inr m \<Rightarrow> avp_loop buf (at + n) (len - int n) False m)"

definition HandleAVPs :: "byte list \<Rightarrow> nat \<Rightarrow> control_msg \<Rightarrow> (l2tp_fault + int \<times> control_msg \<times> byte list) option" where
  "HandleAVPs buf buffersize m = avp_loop buf 12 (int buffersize - 12) True m"

text \<open>\<^verbatim>\<open>Decode\<close> returns 0 whatever \<^verbatim>\<open>HandleAVPs\<close> returns; a loop that does not end is the fault \<open>AvpHang\<close>.\<close>

definition control_Decode :: "byte list \<Rightarrow> nat \<Rightarrow> l2tp_fault + int \<times> control_msg \<times> byte list" where
  "control_Decode buf buffersize =
     (if buffersize < 12 then Inr (-1, Reset, buf)
      else let m = Reset\<lparr>c_ver := net16 buf 0, c_length := net16 buf 2, c_tid := net16 buf 4, c_cid := net16 buf 6,
                    c_Ns := net16 buf 8, c_Nr := net16 buf 10\<rparr>
           in if buffersize = 12 then Inr (0, m\<lparr>m_bzlb := True\<rparr>, buf)
              else case HandleAVPs buf buffersize m of
                  None \<Rightarrow> Inl AvpHang
                | Some (Inl e) \<Rightarrow> Inl e
                | Some (Inr (r, m, buf)) \<Rightarrow> Inr (0, m, buf))"

section \<open>Data messages\<close>

text \<open>\<open>payloadsize\<close> is a \<^verbatim>\<open>size_t\<close> of 64 bits.\<close>

record data_msg =
  d_tid :: nat
  d_cid :: nat
  d_Ns :: nat
  d_Nr :: nat
  d_length :: nat
  d_blf :: nat
  d_bnsf :: nat
  d_payload :: nat
  d_payloadsize :: nat

definition data_header_size :: "nat \<Rightarrow> nat" where
  "data_header_size ver = MIN_PAYLOAD_HDR_LEN + (if PLBIT ver then 2 else 0) + (if PFBIT ver then 4 else 0) +
     (if PSBIT ver then 2 else 0)"

definition data_Decode :: "byte list \<Rightarrow> nat \<Rightarrow> data_msg option" where
  "data_Decode buf buffersize =
     (if buffersize < MIN_PAYLOAD_HDR_LEN then None
      else let ver = net16 buf 0; ehlen = data_header_size ver in
        if CTBIT ver then None
        else if PVER ver \<noteq> VER_L2TP then None
        else if buffersize \<noteq> net16 buf 2 \<and> PLBIT ver then None
        else let (tid, cid, ns, nr) =
               (if PLBIT ver then
                  if PFBIT ver then (net16 buf 4, net16 buf 6, net16 buf 8, net16 buf 10)
                  else (net16 buf 4, net16 buf 6, 0, 0)
                else if PFBIT ver then (net16 buf 2, net16 buf 4, net16 buf 6, net16 buf 8)
                else (0, 0, 0, 0))
             in if buffersize < ehlen \<and> \<not> PLBIT ver then None
                else Some \<lparr>d_tid = tid, d_cid = cid, d_Ns = ns, d_Nr = nr,
                       d_length = (if PLBIT ver then net16 buf 2 else 0), d_blf = (if PLBIT ver then 1 else 0),
                       d_bnsf = (if PFBIT ver then 1 else 0), d_payload = ehlen,
                       d_payloadsize = nat ((int buffersize - int ehlen) mod 2 ^ 64)\<rparr>)"

text \<open>
  A header and the data written into a buffer of \<open>buffersize\<close> bytes; \<open>None\<close> when it does not fit. The length
  field is the size of the buffer.
\<close>

definition AddPayloadHdr :: "bool \<Rightarrow> bool \<Rightarrow> nat \<Rightarrow> nat \<Rightarrow> nat \<Rightarrow> nat \<Rightarrow> byte list \<Rightarrow> nat \<Rightarrow> byte list option" where
  "AddPayloadHdr fbit lbit tid cid ns nr dat buffersize =
     (let hdrsize = 12 - (if fbit then 0 else 4) - (if lbit then 0 else 2) in
      if buffersize < hdrsize + length dat then None
      else Some (PUTSHORT ((if fbit then FBIT else 0) + (if lbit then LBIT else 0) + VER_L2TP) @
        (if lbit then PUTSHORT (buffersize mod 0x10000) else []) @ PUTSHORT tid @ PUTSHORT cid @
        (if fbit then PUTSHORT ns @ PUTSHORT nr else []) @ dat))"

end
