(* ===== verification/L2tp_Tunnel.thy ===== *)
theory L2tp_Tunnel
  imports L2tp_Message Ppp_Ipcp
begin

text \<open>
  The access concentrator's side of L2TP: tunnels and sessions (\<^verbatim>\<open>src/src/l2tp/CL2TPTunnel.cpp\<close>,
  \<^verbatim>\<open>CL2TPSession.cpp\<close>) and the table of tunnels (\<^verbatim>\<open>CL2TPLAC.cpp\<close>).

  A tunnel is known by the address of its server, a session by its tunnel and its own call identifier.
  The sinks are told through \<open>l_out\<close>, which also has the datagrams sent; a call a sink makes of the library
  is an event of its own. A tunnel has a socket of its own, so a datagram arrives at one tunnel; the
  buffer it is read into is shared by all of them (it is \<^verbatim>\<open>static\<close>). After a fault nothing happens any more.
  Members that are written but never read (the window size, the tie breaker, the state of a call) are
  left out, as is the result of \<^verbatim>\<open>sendto\<close>, which no handler looks at.
\<close>

section \<open>State\<close>

type_synonym inet = "u32 \<times> u16"

record l2tp_session =
  m_localcid :: nat
  m_peercid :: nat
  s_proxy :: L2tpSessionProxy
  m_bisProxy :: bool
  m_psink_set :: bool

record l2tp_tunnel =
  m_ourtid :: nat
  m_peertid :: nat
  m_control_seq_num :: nat
  m_control_rec_seq_num :: nat
  m_sessions :: "nat \<rightharpoonup> l2tp_session"
  m_sessionidbase :: nat
  m_isconnected :: bool
  m_helltimeoutcount :: nat
  m_pTunnelSink_set :: bool
  t_requestcount :: nat
  t_timer :: bool

datatype l2tp_call =
  L2tpSent inet "byte list"
  | OnTunnelIndication int "inet option"
  | OnCallIndication int inet nat
  | OnDataRecv inet nat "byte list" nat
  | OnSessionDisconnect int inet nat

record l2tp_lac =
  m_L2tpServers :: "inet \<rightharpoonup> l2tp_tunnel"
  m_tunnelidbase :: nat
  l_buffer :: "byte list"
  l_out :: "l2tp_call list"
  l_fault :: "l2tp_fault option"

definition new_lac :: l2tp_lac where
  "new_lac = \<lparr>m_L2tpServers = Map.empty, m_tunnelidbase = 1, l_buffer = replicate MAX_RECV_SIZE 0, l_out = [], l_fault = None\<rparr>"

definition new_tunnel :: "nat \<Rightarrow> nat \<Rightarrow> l2tp_tunnel" where
  "new_tunnel localtid peertid =
     \<lparr>m_ourtid = localtid, m_peertid = peertid, m_control_seq_num = 0, m_control_rec_seq_num = 0, m_sessions = Map.empty,
      m_sessionidbase = 1, m_isconnected = False, m_helltimeoutcount = 4, m_pTunnelSink_set = False, t_requestcount = 0,
      t_timer = True\<rparr>"

definition new_l2tp_session :: "nat \<Rightarrow> nat \<Rightarrow> L2tpSessionProxy \<Rightarrow> bool \<Rightarrow> l2tp_session" where
  "new_l2tp_session localcid peercid proxy isProxy =
     \<lparr>m_localcid = localcid, m_peercid = peercid, s_proxy = proxy, m_bisProxy = isProxy, m_psink_set = False\<rparr>"

definition l2tp_call :: "l2tp_call \<Rightarrow> l2tp_lac \<Rightarrow> l2tp_lac" where
  "l2tp_call c L = L\<lparr>l_out := l_out L @ [c]\<rparr>"

definition set_tunnel :: "inet \<Rightarrow> l2tp_tunnel \<Rightarrow> l2tp_lac \<Rightarrow> l2tp_lac" where
  "set_tunnel a t L = L\<lparr>m_L2tpServers := (m_L2tpServers L)(a \<mapsto> t)\<rparr>"

definition l2tp_fail :: "l2tp_fault \<Rightarrow> l2tp_lac \<Rightarrow> l2tp_lac" where
  "l2tp_fail e L = L\<lparr>l_fault := Some e\<rparr>"

definition tunnel_SendData :: "inet \<Rightarrow> byte list \<Rightarrow> l2tp_lac \<Rightarrow> l2tp_lac" where
  "tunnel_SendData a dat L = l2tp_call (L2tpSent a dat) L"

section \<open>Tables and counters\<close>

definition AddChannel :: "inet \<Rightarrow> l2tp_tunnel \<Rightarrow> l2tp_lac \<Rightarrow> int \<times> l2tp_lac" where
  "AddChannel a t L = (if m_L2tpServers L a \<noteq> None then (-1, L) else (0, set_tunnel a t L))"

definition FindChannel :: "inet \<Rightarrow> l2tp_lac \<Rightarrow> l2tp_tunnel option" where
  "FindChannel a L = m_L2tpServers L a"

definition RemoveChannel :: "inet \<Rightarrow> l2tp_lac \<Rightarrow> int \<times> l2tp_lac" where
  "RemoveChannel a L =
     (if m_L2tpServers L a = None then (-1, L) else (0, L\<lparr>m_L2tpServers := (m_L2tpServers L)(a := None)\<rparr>))"

definition OnTunnelResult :: "int \<Rightarrow> inet option \<Rightarrow> l2tp_lac \<Rightarrow> l2tp_lac" where
  "OnTunnelResult result a L = l2tp_call (OnTunnelIndication result a) L"

definition l2tp_AddSession :: "nat \<Rightarrow> l2tp_session \<Rightarrow> l2tp_tunnel \<Rightarrow> int \<times> l2tp_tunnel" where
  "l2tp_AddSession callid s t =
     (if m_sessions t callid \<noteq> None then (-1, t) else (0, t\<lparr>m_sessions := (m_sessions t)(callid \<mapsto> s)\<rparr>))"

definition l2tp_FindSession :: "nat \<Rightarrow> l2tp_tunnel \<Rightarrow> l2tp_session option" where
  "l2tp_FindSession callid t = m_sessions t callid"

definition l2tp_RemoveSession :: "nat \<Rightarrow> l2tp_tunnel \<Rightarrow> l2tp_tunnel" where
  "l2tp_RemoveSession callid t = t\<lparr>m_sessions := (m_sessions t)(callid := None)\<rparr>"

definition GetIncreaseCid :: "l2tp_tunnel \<Rightarrow> nat \<times> l2tp_tunnel" where
  "GetIncreaseCid t = (m_sessionidbase t, t\<lparr>m_sessionidbase := (m_sessionidbase t + 1) mod 0x10000\<rparr>)"

definition GetIncreaseNS :: "l2tp_tunnel \<Rightarrow> nat \<times> l2tp_tunnel" where
  "GetIncreaseNS t = (m_control_seq_num t, t\<lparr>m_control_seq_num := (m_control_seq_num t + 1) mod 0x10000\<rparr>)"

definition DeCreaseNS :: "l2tp_tunnel \<Rightarrow> l2tp_tunnel" where
  "DeCreaseNS t = t\<lparr>m_control_seq_num := (m_control_seq_num t + 0xFFFF) mod 0x10000\<rparr>"

definition InCreaseNR :: "l2tp_tunnel \<Rightarrow> l2tp_tunnel" where
  "InCreaseNR t = t\<lparr>m_control_rec_seq_num := (m_control_rec_seq_num t + 1) mod 0x10000\<rparr>"

text \<open>A message with the next sequence number, sent to the server.\<close>

definition send_control :: "inet \<Rightarrow> nat \<Rightarrow> nat \<Rightarrow> avps \<Rightarrow> l2tp_tunnel \<Rightarrow> l2tp_lac \<Rightarrow> l2tp_tunnel \<times> l2tp_lac" where
  "send_control a tid cid m t L =
     (let (ns, t) = GetIncreaseNS t
      in (t, tunnel_SendData a (add_control_hdr tid cid ns (m_control_rec_seq_num t) m) L))"

section \<open>The control connection\<close>

definition StartConnectRequest :: "inet \<Rightarrow> l2tp_tunnel \<Rightarrow> l2tp_lac \<Rightarrow> l2tp_lac" where
  "StartConnectRequest a t L =
     (let m = add_avp_rws 8 (add_tunnelid_avp (m_ourtid t) (add_vendor_avp (ascii ''wfnex.com'')
                (add_hostname_avp (ascii ''wfnex'') (add_firmware_avp 0x0690 (add_bearer_caps_avp 0
                (add_frame_caps_avp 3 (add_protocol_avp 0x100 (add_message_type_avp SCCRQ []))))))));
          (t, L) = send_control a 0 0 m t L
      in set_tunnel a (t\<lparr>t_requestcount := t_requestcount t + 1\<rparr>) L)"

definition l2tp_Disconnect :: "inet \<Rightarrow> l2tp_tunnel \<Rightarrow> l2tp_lac \<Rightarrow> l2tp_lac" where
  "l2tp_Disconnect a t L =
     (let m = add_result_code_avp 2 0 (ascii ''disconnect'') (add_tunnelid_avp (m_ourtid t) (add_message_type_avp StopCCN []));
          (t, L) = send_control a (m_peertid t) 0 m t L
      in set_tunnel a t L)"

definition tunnel_handle_timeout :: "inet \<Rightarrow> l2tp_tunnel \<Rightarrow> l2tp_lac \<Rightarrow> l2tp_lac" where
  "tunnel_handle_timeout a t L =
     (if t_requestcount t > 10 then
        let L = set_tunnel a (t\<lparr>t_requestcount := 0\<rparr>) L;
            L = OnTunnelResult (-1) None L
        in snd (RemoveChannel a L)
      else StartConnectRequest a t L)"

definition ControlZLB :: "inet \<Rightarrow> nat \<Rightarrow> l2tp_tunnel \<Rightarrow> l2tp_lac \<Rightarrow> l2tp_lac" where
  "ControlZLB a cid t L =
     tunnel_SendData a (add_control_hdr (m_peertid t) cid (m_control_seq_num t) (m_control_rec_seq_num t) []) L"

text \<open>Any sequence number is taken for the expected one.\<close>

definition CheckControlMessage :: "control_msg \<Rightarrow> l2tp_tunnel \<Rightarrow> l2tp_tunnel" where
  "CheckControlMessage msg t =
     t\<lparr>m_control_rec_seq_num := (if m_bzlb msg then c_Ns msg else (c_Ns msg + 1) mod 0x10000)\<rparr>"

definition HandleZLB :: "inet \<Rightarrow> l2tp_tunnel \<Rightarrow> l2tp_lac \<Rightarrow> l2tp_lac" where
  "HandleZLB a t L = set_tunnel a (t\<lparr>m_helltimeoutcount := 0\<rparr>) L"

definition HandleStartControlConnectionReply :: "inet \<Rightarrow> control_msg \<Rightarrow> l2tp_tunnel \<Rightarrow> l2tp_lac \<Rightarrow> l2tp_lac" where
  "HandleStartControlConnectionReply a msg t L =
     (let t = t\<lparr>t_timer := False, t_requestcount := 0\<rparr> in
      if c_tid msg \<noteq> m_ourtid t then set_tunnel a t L
      else let t = (CheckControlMessage msg t)\<lparr>m_peertid := m_assigtunenid msg\<rparr>;
               (t, L) = send_control a (m_peertid t) 0 (add_message_type_avp SCCCN []) t L;
               t = t\<lparr>m_isconnected := True\<rparr>
           in OnTunnelResult 0 (Some a) (set_tunnel a t L))"

definition HandleStopControlConnectionNotification :: "inet \<Rightarrow> control_msg \<Rightarrow> l2tp_tunnel \<Rightarrow> l2tp_lac \<Rightarrow> l2tp_lac" where
  "HandleStopControlConnectionNotification a msg t L =
     (if c_tid msg \<noteq> m_ourtid t then L
      else if m_peertid t \<noteq> m_assigtunenid msg then L
      else let t = CheckControlMessage msg t
           in snd (RemoveChannel a (ControlZLB a 0 t (set_tunnel a t L))))"

definition HandleHello :: "inet \<Rightarrow> control_msg \<Rightarrow> l2tp_tunnel \<Rightarrow> l2tp_lac \<Rightarrow> l2tp_lac" where
  "HandleHello a msg t L =
     (if c_tid msg \<noteq> m_ourtid t then L
      else let t = CheckControlMessage msg t in ControlZLB a 0 t (set_tunnel a t L))"

section \<open>Sessions\<close>

text \<open>An array of the proxy information and the length stored with it.\<close>

definition proxy_bytes :: "byte list \<Rightarrow> nat \<Rightarrow> l2tp_fault + byte list" where
  "proxy_bytes arr len = (if len > length arr then Inl ProxyOverread else Inr (take len arr))"

definition proxy_avps :: "L2tpSessionProxy \<Rightarrow> avps \<Rightarrow> l2tp_fault + avps" where
  "proxy_avps p m =
     (case proxy_bytes (sInitRcvLcpConf p) (wInitRcvLcpConfLen p) of Inl e \<Rightarrow> Inl e | Inr initconf \<Rightarrow>
      case proxy_bytes (sLastSendLcpConf p) (wLastSendLcpConfLen p) of Inl e \<Rightarrow> Inl e | Inr sendconf \<Rightarrow>
      case proxy_bytes (sLastRcvLcpConf p) (wLastRcvLcpConfLen p) of Inl e \<Rightarrow> Inl e | Inr recvconf \<Rightarrow>
      case proxy_bytes (sAuthenName p) (wAuthenNameLen p) of Inl e \<Rightarrow> Inl e | Inr name \<Rightarrow>
      case proxy_bytes (sAuthenChallenge p) (wAuthenChallengeLen p) of Inl e \<Rightarrow> Inl e | Inr challenge \<Rightarrow>
        Inr (add_proxy_auth_id_avp (wAuthenID p) (add_proxy_auth_challenge_avp challenge
          (add_proxy_auth_name_avp name (add_proxy_auth_type_avp (wAuthenType p) (add_last_lcp_recv_avp recvconf
          (add_last_lcp_send_avp sendconf (add_init_lcp_req_avp initconf m))))))))"

definition StartCall :: "inet \<Rightarrow> l2tp_session \<Rightarrow> l2tp_tunnel \<Rightarrow> l2tp_lac \<Rightarrow> l2tp_lac" where
  "StartCall a s t L =
     (let m = add_bearer_avp 0 (add_serno_avp 0 (add_callid_avp (m_localcid s) (add_message_type_avp ICRQ [])));
          r = (if m_bisProxy s then proxy_avps (s_proxy s) m else Inr m)
      in case r of Inl e \<Rightarrow> l2tp_fail e L
         | Inr m \<Rightarrow> let (t, L) = send_control a (m_peertid t) 0 m t L in set_tunnel a t L)"

text \<open>The result of \<^verbatim>\<open>AddSession\<close> is not looked at.\<close>

definition MakeIncomingCall :: "inet \<Rightarrow> L2tpSessionProxy \<Rightarrow> bool \<Rightarrow> l2tp_tunnel \<Rightarrow> l2tp_lac \<Rightarrow> l2tp_lac" where
  "MakeIncomingCall a proxy bUserProxy t L =
     (let (localcid, t) = GetIncreaseCid t;
          s = new_l2tp_session localcid 0 proxy bUserProxy;
          (r, t) = l2tp_AddSession localcid s t
      in StartCall a s t (set_tunnel a t L))"

definition HandleIncomingCallReply :: "inet \<Rightarrow> control_msg \<Rightarrow> nat \<Rightarrow> l2tp_session \<Rightarrow> l2tp_tunnel \<Rightarrow> l2tp_lac \<Rightarrow> l2tp_lac" where
  "HandleIncomingCallReply a msg cid s t L =
     (let s = s\<lparr>m_peercid := m_assigcallid msg\<rparr>;
          t = t\<lparr>m_sessions := (m_sessions t)(cid \<mapsto> s)\<rparr>;
          (t, L) = send_control a (m_peertid t) (m_peercid s) (add_txspeed_avp 1000000000 (add_message_type_avp ICCN [])) t L;
          L = set_tunnel a t L
      in if m_pTunnelSink_set t then l2tp_call (OnCallIndication 0 a (m_localcid s)) L else L)"

definition HandleCallDisconnectNotify :: "inet \<Rightarrow> control_msg \<Rightarrow> l2tp_session \<Rightarrow> l2tp_tunnel \<Rightarrow> l2tp_lac \<Rightarrow> l2tp_lac" where
  "HandleCallDisconnectNotify a msg s t L =
     (let L = ControlZLB a (m_peercid s) t L;
          L = (if m_psink_set s then l2tp_call (OnSessionDisconnect 0 a (m_localcid s)) L else L)
      in set_tunnel a (l2tp_RemoveSession (c_cid msg) t) L)"

text \<open>The other messages of a call have handlers that do nothing.\<close>

definition session_HandleControllMessage ::
  "inet \<Rightarrow> control_msg \<Rightarrow> nat \<Rightarrow> l2tp_session \<Rightarrow> l2tp_tunnel \<Rightarrow> l2tp_lac \<Rightarrow> l2tp_lac" where
  "session_HandleControllMessage a msg cid s t L =
     (if m_messatetype msg = ICRP then HandleIncomingCallReply a msg cid s t L
      else if m_messatetype msg = CDN then HandleCallDisconnectNotify a msg s t L
      else L)"

definition HandleSessionControllMessage :: "inet \<Rightarrow> control_msg \<Rightarrow> l2tp_tunnel \<Rightarrow> l2tp_lac \<Rightarrow> l2tp_lac" where
  "HandleSessionControllMessage a msg t L =
     (let t = CheckControlMessage msg t; L = set_tunnel a t L in
      case l2tp_FindSession (c_cid msg) t of None \<Rightarrow> L
      | Some s \<Rightarrow> session_HandleControllMessage a msg (c_cid msg) s t L)"

definition HandlePayLoad :: "inet \<Rightarrow> byte list \<Rightarrow> nat \<Rightarrow> l2tp_session \<Rightarrow> l2tp_lac \<Rightarrow> l2tp_lac" where
  "HandlePayLoad a dat datasize s L =
     (if m_psink_set s then l2tp_call (OnDataRecv a (m_localcid s) dat datasize) L else L)"

text \<open>\<^verbatim>\<open>SendData\<close> of a session: a data message with the length field.\<close>

definition session_SendData :: "inet \<Rightarrow> byte list \<Rightarrow> l2tp_session \<Rightarrow> l2tp_tunnel \<Rightarrow> l2tp_lac \<Rightarrow> int \<times> l2tp_lac" where
  "session_SendData a dat s t L =
     (let totalsize = 8 + length dat in
      if totalsize > MAX_RECV_SIZE then (-1, L)
      else (0, tunnel_SendData a (PUTSHORT (LBIT + VER_L2TP) @ PUTSHORT totalsize @ PUTSHORT (m_peertid t) @
              PUTSHORT (m_peercid s) @ dat) L))"

section \<open>Receiving\<close>

definition HandleControllMessage :: "inet \<Rightarrow> control_msg \<Rightarrow> l2tp_tunnel \<Rightarrow> l2tp_lac \<Rightarrow> l2tp_lac" where
  "HandleControllMessage a msg t L =
     (if m_bzlb msg then HandleZLB a t L
      else if m_messatetype msg = SCCRP then HandleStartControlConnectionReply a msg t L
      else if m_messatetype msg = StopCCN then HandleStopControlConnectionNotification a msg t L
      else if m_messatetype msg = L2TP_Hello then HandleHello a msg t L
      else if m_messatetype msg \<in> {OCRQ, OCRP, OCCN, ICRQ, ICRP, ICCN, CDN} then HandleSessionControllMessage a msg t L
      else L)"

definition HandlePayLoadMessage :: "inet \<Rightarrow> data_msg \<Rightarrow> l2tp_tunnel \<Rightarrow> l2tp_lac \<Rightarrow> l2tp_lac" where
  "HandlePayLoadMessage a d t L =
     (if d_tid d \<noteq> m_ourtid t then L
      else case l2tp_FindSession (d_cid d) t of None \<Rightarrow> L
        | Some s \<Rightarrow> HandlePayLoad a (take (d_payloadsize d) (drop (d_payload d) (l_buffer L))) (d_payloadsize d) s L)"

text \<open>A datagram at the socket of the tunnel, \<open>None\<close> an error of \<^verbatim>\<open>recvfrom\<close>.\<close>

definition tunnel_handle_input :: "inet \<Rightarrow> byte list option \<Rightarrow> l2tp_tunnel \<Rightarrow> l2tp_lac \<Rightarrow> l2tp_lac" where
  "tunnel_handle_input a recv t L =
     (case recv of None \<Rightarrow> L
      | Some dgram \<Rightarrow>
        if dgram = [] then L
        else let dat = take MAX_RECV_SIZE dgram;
                 L = L\<lparr>l_buffer := memcpy_at (l_buffer L) 0 dat (length dat)\<rparr>
             in if CTBIT (net16 (l_buffer L) 0) then
                  case control_Decode (l_buffer L) (length dat) of
                    Inl e \<Rightarrow> l2tp_fail e L
                  | Inr (r, m, buf) \<Rightarrow>
                      let L = L\<lparr>l_buffer := buf\<rparr> in if r = 0 then HandleControllMessage a m t L else L
                else case data_Decode (l_buffer L) (length dat) of
                    None \<Rightarrow> L | Some d \<Rightarrow> HandlePayLoadMessage a d t L)"

section \<open>The access concentrator\<close>

definition MakeTunnel :: "inet \<Rightarrow> l2tp_lac \<Rightarrow> int \<times> l2tp_lac" where
  "MakeTunnel a L =
     (case FindChannel a L of
        None \<Rightarrow>
          let localtid = m_tunnelidbase L;
              L = L\<lparr>m_tunnelidbase := (m_tunnelidbase L + 1) mod 0x10000\<rparr>;
              t = new_tunnel localtid 0;
              (r, L) = AddChannel a t L
          in if r = -1 then (-1, L) else (0, StartConnectRequest a t L)
      | Some t \<Rightarrow> (0, if m_isconnected t then l2tp_call (OnTunnelIndication 0 (Some a)) L else L))"

datatype l2tp_event =
  L2tpMakeTunnel inet
  | L2tpOpen inet
  | L2tpMakeCall inet L2tpSessionProxy bool
  | L2tpOpenSession inet nat
  | L2tpSend inet nat "byte list"
  | L2tpDisconnect inet
  | L2tpTimer inet
  | L2tpInput inet "byte list option"

text \<open>An event for a tunnel or a session that does not exist has no effect: nobody holds a pointer to it.\<close>

definition on_tunnel :: "inet \<Rightarrow> (l2tp_tunnel \<Rightarrow> l2tp_lac \<Rightarrow> l2tp_lac) \<Rightarrow> l2tp_lac \<Rightarrow> l2tp_lac" where
  "on_tunnel a f L = (case m_L2tpServers L a of None \<Rightarrow> L | Some t \<Rightarrow> f t L)"

definition l2tp_do :: "l2tp_event \<Rightarrow> l2tp_lac \<Rightarrow> l2tp_lac" where
  "l2tp_do e L =
     (if l_fault L \<noteq> None then L
      else case e of
        L2tpMakeTunnel a \<Rightarrow> snd (MakeTunnel a L)
      | L2tpOpen a \<Rightarrow> on_tunnel a (\<lambda>t. set_tunnel a (t\<lparr>m_pTunnelSink_set := True\<rparr>)) L
      | L2tpMakeCall a proxy b \<Rightarrow> on_tunnel a (MakeIncomingCall a proxy b) L
      | L2tpOpenSession a cid \<Rightarrow> on_tunnel a (\<lambda>t. case m_sessions t cid of None \<Rightarrow> (\<lambda>L. L)
          | Some s \<Rightarrow> set_tunnel a (t\<lparr>m_sessions := (m_sessions t)(cid \<mapsto> s\<lparr>m_psink_set := True\<rparr>)\<rparr>)) L
      | L2tpSend a cid dat \<Rightarrow> on_tunnel a (\<lambda>t L. case m_sessions t cid of None \<Rightarrow> L
          | Some s \<Rightarrow> snd (session_SendData a dat s t L)) L
      | L2tpDisconnect a \<Rightarrow> on_tunnel a (l2tp_Disconnect a) L
      | L2tpTimer a \<Rightarrow> on_tunnel a (\<lambda>t L. if t_timer t then tunnel_handle_timeout a t L else L) L
      | L2tpInput a recv \<Rightarrow> on_tunnel a (tunnel_handle_input a recv) L)"

end
