(* ===== verification/L2tp_Spec.thy ===== *)
theory L2tp_Spec
  imports L2tp_Tunnel
begin

text \<open>
  What a received control message means: a well-formed list of AVPs is read as it was composed; an AVP
  of length zero makes the loop go on for ever, and a proxy AVP overruns its array.
\<close>

section \<open>Fields\<close>

lemma net16_append:
  "i + 1 < length xs \<Longrightarrow> net16 (xs @ ys) i = net16 xs i"
  "net16 (xs @ ys) (length xs + i) = net16 ys i"
  by (simp_all add: net16_def nth_append)

lemma net16_PUTSHORT: "v < 65536 \<Longrightarrow> net16 (PUTSHORT v @ ys) 0 = v"
  using GETSHORT_PUTSHORT [of v] by (simp add: net16_def nth_append)

lemma net16_drop: "at + i + 1 < length buf \<Longrightarrow> net16 buf (at + i) = net16 (drop at buf) i"
  by (simp add: net16_def add.assoc)

lemma length_swaps [simp]: "length (swaps i buf) = length buf"
  by (simp add: swaps_def swap16_def)

lemma nth_swaps:
  assumes "at + 6 \<le> length buf"
  shows "host16 (swaps at buf) at = net16 buf at" "host16 (swaps at buf) (at + 4) = net16 buf (at + 4)"
    "at + 6 \<le> i \<Longrightarrow> swaps at buf ! i = buf ! i"
  using assms by (simp_all add: swaps_def swap16_def host16_def net16_def)

lemma drop_swaps: "at + 6 \<le> length buf \<Longrightarrow> drop (at + 6) (swaps at buf) = drop (at + 6) buf"
  by (rule nth_equalityI) (simp_all add: nth_swaps)

lemma swaps_header:
  assumes "drop at buf = [a, b, c, d, e, f] @ rest"
  shows "drop at (swaps at buf) = [b, a, d, c, f, e] @ rest"
proof -
  have len: "at + 6 + length rest = length buf" using arg_cong [OF assms, of length] by simp
  have "buf ! (at + i) = ([a, b, c, d, e, f] @ rest) ! i" if "at + i < length buf" for i
    using assms nth_drop [of at buf i] that by simp
  from this [of 0] this [of 1] this [of 2] this [of 3] this [of 4] this [of 5] len
  have n: "buf ! at = a" "buf ! (at + 1) = b" "buf ! (at + 2) = c" "buf ! (at + 3) = d" "buf ! (at + 4) = e" "buf ! (at + 5) = f"
    by simp_all
  have d6: "drop (at + 6) buf = rest" using arg_cong [OF assms, of "drop 6"] by (simp add: add.commute)
  have "drop at (swaps at buf) = take 6 (drop at (swaps at buf)) @ drop 6 (drop at (swaps at buf))"
    by (rule append_take_drop_id [symmetric])
  also have "drop 6 (drop at (swaps at buf)) = rest"
    using drop_swaps [of at buf] d6 len by (simp add: add.commute)
  also have "take 6 (drop at (swaps at buf)) = [b, a, d, c, f, e]"
    using n len by (intro nth_equalityI)
      (auto simp: swaps_def swap16_def less_Suc_eq numeral_eq_Suc nth_list_update)
  finally show ?thesis .
qed

section \<open>Well-formed AVPs\<close>

text \<open>An AVP: whether it is mandatory, its type and its value.\<close>

type_synonym avp = "bool \<times> nat \<times> byte list"

fun avp_bytes :: "avp \<Rightarrow> byte list" where
  "avp_bytes (mandatory, type, v) =
     (if mandatory then add_header (6 + length v) type else add_nonmandatory_header (6 + length v) type) @ v"

fun avp_wf :: "avp \<Rightarrow> bool" where
  "avp_wf (mandatory, type, v) \<longleftrightarrow> type \<le> AVP_MAX \<and> length v \<le> 1017 \<and> type \<notin> {26, 27, 28, 30, 31, 33} \<and>
     (mandatory \<longrightarrow> type \<notin> set NULL_handlers) \<and> (type \<in> set value_handlers \<longrightarrow> 2 \<le> length v)"

fun avp_effect :: "avp \<Rightarrow> control_msg \<Rightarrow> control_msg" where
  "avp_effect (mandatory, type, v) m =
     (if type = 0 then m\<lparr>m_messatetype := net16 v 0\<rparr>
      else if type = 9 then m\<lparr>m_assigtunenid := net16 v 0\<rparr>
      else if type = 14 then m\<lparr>m_assigcallid := net16 v 0\<rparr>
      else if type = 29 then m\<lparr>c_proxy := (c_proxy m)\<lparr>wAuthenType := net16 v 0\<rparr>\<rparr>
      else if type = 32 then m\<lparr>c_proxy := (c_proxy m)\<lparr>wAuthenID := net16 v 0\<rparr>\<rparr>
      else m)"

lemma avp_handler_effect:
  "avp_wf (mandatory, type, v) \<Longrightarrow> avp_handler type avp (net16 v 0) m = Inr (avp_effect (mandatory, type, v) m)"
  by (auto simp: avp_handler_def Let_def)

abbreviation avps_bytes :: "avp list \<Rightarrow> byte list" where
  "avps_bytes avs \<equiv> concat (map avp_bytes avs)"

lemma NULL_not_value: "type \<in> set NULL_handlers \<Longrightarrow> type \<notin> {0, 9, 14, 29, 32}"
  unfolding NULL_handlers_def by auto

lemma NULL_effect: "type \<in> set NULL_handlers \<Longrightarrow> avp_effect (mandatory, type, v) m = m"
  using NULL_not_value [of type] by simp

lemma length_field_bits:
  fixes x :: nat
  assumes "x < 0x400"
  shows "(0x8000 + x) div 0x400 = 32" "(0x8000 + x) div 0x8000 = 1" "(0x8000 + x) mod 0x400 = x"
proof -
  show "(0x8000 + x) div 0x400 = 32" by (rule div_nat_eqI) (use assms in simp_all)
  show "(0x8000 + x) div 0x8000 = 1" by (rule div_nat_eqI) (use assms in simp_all)
  have "0x8000 + x = x + 32 * 0x400" by simp
  then show "(0x8000 + x) mod 0x400 = x" using assms by (simp only: mod_mult_self1 mod_less)
qed

lemma avp_length_field:
  fixes mandatory :: bool
  assumes "length v \<le> 1017"
  defines "L \<equiv> (if mandatory then MBIT + (6 + length v) mod 0x8000 else 6 + length v)"
  shows "L < 65536" "ALENGTH L = 6 + length v" "\<not> AZBITS L" "AMBIT L = mandatory"
proof -
  define x where "x = 6 + length v"
  have x: "x < 0x400" "x mod 0x8000 = x" using assms(1) by (simp_all add: x_def)
  have L: "L = (if mandatory then 0x8000 + x else x)" using x by (simp only: L_def x_def [symmetric])
  have "L < 65536 \<and> ALENGTH L = x \<and> \<not> AZBITS L \<and> AMBIT L = mandatory"
    using length_field_bits [OF x(1)] x(1) by (cases mandatory) (simp_all add: L ALENGTH_def AZBITS_def AMBIT_def)
  then show "L < 65536" "ALENGTH L = 6 + length v" "\<not> AZBITS L" "AMBIT L = mandatory" by (simp_all add: x_def)
qed

lemma avp_header:
  assumes d: "drop at buf = avp_bytes (mandatory, type, v) @ rest" and v: "length v \<le> 1017" "type < 65536"
  defines "L \<equiv> (if mandatory then MBIT + (6 + length v) mod 0x8000 else 6 + length v)"
  shows "at + 6 + length v + length rest = length buf" "net16 buf at = L" "net16 buf (at + 4) = type"
    "2 \<le> length v \<Longrightarrow> net16 buf (at + 6) = net16 v 0" "drop (at + 6) buf = v @ rest"
proof -
  have h: "avp_bytes (mandatory, type, v) = PUTSHORT L @ PUTSHORT 0 @ PUTSHORT type @ v"
    by (simp add: L_def add_header_def add_nonmandatory_header_def)
  show len: "at + 6 + length v + length rest = length buf" using arg_cong [OF d, of length] unfolding h by simp
  have L: "L < 65536" using avp_length_field(1) [OF v(1)] by (simp add: L_def)
  show "net16 buf at = L" using net16_drop [of at 0 buf] len L d unfolding h by (simp add: net16_PUTSHORT)
  show "net16 buf (at + 4) = type"
    using net16_drop [of at 4 buf] len d net16_append(2) [of "PUTSHORT L @ PUTSHORT 0" "PUTSHORT type @ v @ rest" 0]
      net16_PUTSHORT [OF v(2)] unfolding h by simp
  show "net16 buf (at + 6) = net16 v 0" if "2 \<le> length v"
    using that net16_drop [of at 6 buf] len d net16_append(1) [of 0 v rest]
      net16_append(2) [of "PUTSHORT L @ PUTSHORT 0 @ PUTSHORT type" "v @ rest" 0] unfolding h by simp
  show "drop (at + 6) buf = v @ rest" using arg_cong [OF d, of "drop 6"] unfolding h by (simp add: add.commute)
qed

lemma avp_step:
  assumes d: "drop at buf = avp_bytes (mandatory, type, v) @ rest" and wf: "avp_wf (mandatory, type, v)"
    and len: "int (6 + length v) \<le> len" and first: "first \<Longrightarrow> type = 0"
  shows "avp_loop buf at len first m =
    avp_loop (swaps at buf) (at + (6 + length v)) (len - int (6 + length v)) False (avp_effect (mandatory, type, v) m)"
proof -
  have v: "length v \<le> 1017" "type < 65536" "type \<le> 39" using wf by auto
  note h = avp_header [OF d v(1,2)]
  have at6: "at + 6 \<le> length buf" using h(1) by simp
  let ?L = "if mandatory then MBIT + (6 + length v) mod 0x8000 else 6 + length v"
  have fields: "host16 (swaps at buf) at = ?L" "host16 (swaps at buf) (at + 4) = type"
    using nth_swaps(1,2) [OF at6] h(2,3) by simp_all
  note lf = avp_length_field [OF v(1), of mandatory]
  have same: "swaps at buf ! (at + 6) = buf ! (at + 6)" "swaps at buf ! (at + 6 + 1) = buf ! (at + 6 + 1)"
    by (rule nth_swaps(3) [OF at6], simp)+
  have n6: "net16 (swaps at buf) (at + 6) = net16 v 0" if "2 \<le> length v"
    using h(4) [OF that] unfolding net16_def same .
  have val: "type \<in> set value_handlers \<Longrightarrow> at + 8 \<le> length buf" using wf h(1) by auto
  have handler: "avp_handler type avp (net16 (swaps at buf) (at + 6)) m = Inr (avp_effect (mandatory, type, v) m)" for avp
  proof (cases "2 \<le> length v")
    case True
    then show ?thesis using avp_handler_effect [OF wf] n6 by simp
  next
    case False
    then have "type \<notin> set value_handlers" using wf by auto
    then show ?thesis using wf by (auto simp: avp_handler_def Let_def value_handlers_def)
  qed
  have optional: "mandatory = False" if "type \<in> set NULL_handlers" using wf that by simp
  have guards: "(len \<le> 0) = False" "(length buf < at + 6) = False" "(39 < type) = False" "(len < int (6 + length v)) = False"
    "(6 + length v < 6) = False"
    using len at6 v(3) by simp_all
  have guards2: "(type \<noteq> 0 \<and> first) = False" "(type \<in> set value_handlers \<and> length buf < at + 8) = False"
    using first val by (blast, fastforce)
  show ?thesis
    unfolding avp_loop.simps [of buf at len first m] Let_def fields lf(2,4) eq_False [THEN iffD2, OF lf(3)] guards guards2 if_False length_swaps
    by (cases "type \<in> set NULL_handlers") (simp_all only: optional NULL_effect handler if_True if_False sum.case simp_thms)
qed

lemma avps_prefix:
  assumes "drop at buf = avps_bytes avs @ rest" and "list_all avp_wf avs"
    and "int (length (avps_bytes avs)) \<le> len" and "first \<Longrightarrow> avs = [] \<or> fst (snd (hd avs)) = 0"
  shows "\<exists>buf'. avp_loop buf at len first m = avp_loop buf' (at + length (avps_bytes avs))
      (len - int (length (avps_bytes avs))) (first \<and> avs = []) (fold avp_effect avs m) \<and> length buf' = length buf \<and>
      drop (at + length (avps_bytes avs)) buf' = rest"
  using assms
proof (induction avs arbitrary: at buf len first m)
  case Nil
  then show ?case by (intro exI [of _ buf]) simp
next
  case (Cons x xs)
  obtain mandatory type v where x: "x = (mandatory, type, v)" by (cases x)
  have wf: "avp_wf (mandatory, type, v)" "list_all avp_wf xs" using Cons.prems(2) x by simp_all
  have d: "drop at buf = avp_bytes (mandatory, type, v) @ (avps_bytes xs @ rest)" using Cons.prems(1) x by simp
  have v: "length v \<le> 1017" "type < 65536" using wf by auto
  note h = avp_header [OF d v]
  have lx: "length (avp_bytes x) = 6 + length v" unfolding x by (simp add: add_header_def add_nonmandatory_header_def)
  have len: "int (6 + length v) \<le> len" "int (length (avps_bytes xs)) \<le> len - int (6 + length v)"
    using Cons.prems(3) lx by simp_all
  have "drop (length v) (drop (at + 6) (swaps at buf)) = avps_bytes xs @ rest"
    using drop_swaps [of at buf] h(1,5) by simp
  then have next_d: "drop (at + (6 + length v)) (swaps at buf) = avps_bytes xs @ rest"
    by (simp add: ac_simps)
  have "avp_loop buf at len first m =
      avp_loop (swaps at buf) (at + (6 + length v)) (len - int (6 + length v)) False (avp_effect x m)"
    unfolding x by (rule avp_step [OF d wf(1) len(1)]) (use Cons.prems(4) x in auto)
  with Cons.IH [OF next_d wf(2) len(2), of False "avp_effect x m"] show ?case
    by (simp add: lx algebra_simps del: avp_effect.simps)
qed

lemma avps_loop:
  assumes "drop at buf = avps_bytes avs @ rest" and "list_all avp_wf avs"
    and "len = int (length (avps_bytes avs))" and "first \<Longrightarrow> avs = [] \<or> fst (snd (hd avs)) = 0"
  shows "\<exists>buf'. avp_loop buf at len first m = Some (Inr (0, fold avp_effect avs m, buf')) \<and> length buf' = length buf"
proof -
  obtain buf' where "avp_loop buf at len first m = avp_loop buf' (at + length (avps_bytes avs)) 0 (first \<and> avs = [])
      (fold avp_effect avs m)" "length buf' = length buf"
    using avps_prefix [OF assms(1,2), of len first m] assms(3,4) by auto
  then show ?thesis by (subst (asm) avp_loop.simps [of buf']) simp
qed

text \<open>A proxy response longer than the array for it.\<close>

lemma long_response_loop:
  assumes d: "drop at buf = avp_bytes (mandatory, 33, v) @ rest" and v: "10 < length v" "length v \<le> 1017"
    and len: "int (6 + length v) \<le> len" and m: "length (sAuthenResponse (c_proxy m)) = 16"
  shows "avp_loop buf at len False m = Some (Inl ProxyOverrun)"
proof -
  note h = avp_header [OF d v(2), simplified]
  have at6: "at + 6 \<le> length buf" using h(1) by simp
  have fields: "host16 (swaps at buf) at = (if mandatory then MBIT + (6 + length v) mod 0x8000 else 6 + length v)"
    "host16 (swaps at buf) (at + 4) = 33"
    using nth_swaps(1,2) [OF at6] h(2,3) by simp_all
  note lf = avp_length_field [OF v(2), of mandatory]
  have guards: "(len \<le> 0) = False" "(length buf < at + 6) = False" "(len < int (6 + length v)) = False"
    "(6 + length v < 6) = False" using len at6 by simp_all
  have "length (take (6 + length v) (drop at (swaps at buf))) = 6 + length v" using h(1) by simp
  then have "avp_handler 33 (take (6 + length v) (drop at (swaps at buf))) w m = Inl ProxyOverrun" for w
    using v(1) m by (simp add: avp_handler_def sets_def)
  then show ?thesis
    unfolding avp_loop.simps [of buf at len] Let_def fields lf(2,4) eq_False [THEN iffD2, OF lf(3)] guards if_False length_swaps
    by (simp add: NULL_handlers_def value_handlers_def)
qed

section \<open>Composed messages\<close>

definition header_msg :: "nat \<Rightarrow> nat \<Rightarrow> nat \<Rightarrow> nat \<Rightarrow> nat \<Rightarrow> control_msg" where
  "header_msg tid cid ns nr len = Reset\<lparr>c_ver := TBIT + LBIT + FBIT + VER_L2TP, c_length := len, c_tid := tid, c_cid := cid,
     c_Ns := ns, c_Nr := nr\<rparr>"

definition avps_wf :: "avp list \<Rightarrow> bool" where
  "avps_wf avs \<longleftrightarrow> avs \<noteq> [] \<and> list_all avp_wf avs \<and> fst (snd (hd avs)) = 0"

lemma length_add_control_hdr [simp]: "length (add_control_hdr tid cid ns nr m) = 12 + length m"
  by (simp add: add_control_hdr_def)

lemma control_hdr_fields:
  assumes "tid < 65536" "cid < 65536" "ns < 65536" "nr < 65536" "12 + length m < 65536"
  shows "net16 (add_control_hdr tid cid ns nr m @ rest) 0 = TBIT + LBIT + FBIT + VER_L2TP"
    "net16 (add_control_hdr tid cid ns nr m @ rest) 2 = 12 + length m"
    "net16 (add_control_hdr tid cid ns nr m @ rest) 4 = tid" "net16 (add_control_hdr tid cid ns nr m @ rest) 6 = cid"
    "net16 (add_control_hdr tid cid ns nr m @ rest) 8 = ns" "net16 (add_control_hdr tid cid ns nr m @ rest) 10 = nr"
proof -
  have f: "net16 (xs @ PUTSHORT v @ ys) i = v" if "length xs = i" "v < 65536" for xs v ys i
    using net16_append(2) [of xs "PUTSHORT v @ ys" 0] net16_PUTSHORT [OF that(2)] that(1) by simp
  let ?v = "TBIT + LBIT + FBIT + VER_L2TP"
  show "net16 (add_control_hdr tid cid ns nr m @ rest) 0 = ?v"
    using f [of "[]" 0 ?v] unfolding add_control_hdr_def by simp
  show "net16 (add_control_hdr tid cid ns nr m @ rest) 2 = 12 + length m"
    using f [of "PUTSHORT ?v" 2 "12 + length m"] assms unfolding add_control_hdr_def by simp
  show "net16 (add_control_hdr tid cid ns nr m @ rest) 4 = tid"
    using f [of "PUTSHORT ?v @ PUTSHORT (12 + length m)" 4 tid] assms unfolding add_control_hdr_def by simp
  show "net16 (add_control_hdr tid cid ns nr m @ rest) 6 = cid"
    using f [of "PUTSHORT ?v @ PUTSHORT (12 + length m) @ PUTSHORT tid" 6 cid] assms unfolding add_control_hdr_def by simp
  show "net16 (add_control_hdr tid cid ns nr m @ rest) 8 = ns"
    using f [of "PUTSHORT ?v @ PUTSHORT (12 + length m) @ PUTSHORT tid @ PUTSHORT cid" 8 ns] assms
    unfolding add_control_hdr_def by simp
  show "net16 (add_control_hdr tid cid ns nr m @ rest) 10 = nr"
    using f [of "PUTSHORT ?v @ PUTSHORT (12 + length m) @ PUTSHORT tid @ PUTSHORT cid @ PUTSHORT ns" 10 nr] assms
    unfolding add_control_hdr_def by simp
qed

lemma avp_bytes_pos: "avs \<noteq> [] \<Longrightarrow> 6 \<le> length (avps_bytes avs)"
  by (cases avs) (auto simp: add_header_def add_nonmandatory_header_def)

lemma control_decode:
  assumes "tid < 65536" "cid < 65536" "ns < 65536" "nr < 65536" "12 + length (avps_bytes avs) < 65536" and "avps_wf avs"
  defines "bytes \<equiv> add_control_hdr tid cid ns nr (avps_bytes avs)"
  shows "\<exists>buf'. control_Decode (bytes @ rest) (length bytes) =
      Inr (0, fold avp_effect avs (header_msg tid cid ns nr (length bytes)), buf') \<and> length buf' = length (bytes @ rest)"
proof -
  have d: "drop 12 (bytes @ rest) = avps_bytes avs @ rest" by (simp add: bytes_def add_control_hdr_def)
  have wf: "list_all avp_wf avs" "avs \<noteq> []" "fst (snd (hd avs)) = 0" using assms(6) by (simp_all add: avps_wf_def)
  let ?m = "header_msg tid cid ns nr (length bytes)"
  obtain buf' where l: "avp_loop (bytes @ rest) 12 (int (length (avps_bytes avs))) True ?m =
      Some (Inr (0, fold avp_effect avs ?m, buf'))" "length buf' = length (bytes @ rest)"
    using avps_loop [OF d wf(1), of _ True ?m] wf by blast
  have "HandleAVPs (bytes @ rest) (length bytes) ?m = Some (Inr (0, fold avp_effect avs ?m, buf'))"
    using l(1) by (simp add: HandleAVPs_def bytes_def)
  moreover have "avps_bytes avs \<noteq> []" using avp_bytes_pos [OF wf(2)] by (metis list.size(3) not_numeral_le_zero)
  ultimately show ?thesis
    using l(2) control_hdr_fields [OF assms(1-5), of rest]
    by (simp add: control_Decode_def bytes_def header_msg_def Let_def del: concat_eq_Nil_conv)
qed

section \<open>A message that is never decoded\<close>

definition stuck :: "nat \<Rightarrow> int \<Rightarrow> byte list \<Rightarrow> bool" where
  "stuck at len buf \<longleftrightarrow> 0 < len \<and> at + 6 \<le> length buf \<and> buf ! at = 0 \<and> buf ! (at + 1) = 0 \<and>
     AVP_MAX < net16 buf (at + 4) \<and> AVP_MAX < host16 buf (at + 4)"

lemma stuck_swaps: "stuck at len buf \<Longrightarrow> stuck at len (swaps at buf)"
  by (auto simp: stuck_def swaps_def swap16_def net16_def host16_def nth_list_update)

lemma stuck_loop: "avp_loop buf at len first m = Some r \<Longrightarrow> \<not> stuck at len buf"
proof (rule avp_loop.raw_induct [where P = "\<lambda>buf at len first m r. \<not> stuck at len buf"])
  fix loop buf at len first m r
  assume IH: "\<And>buf at len first m r. loop buf at len first m = Some r \<Longrightarrow> \<not> stuck at len buf"
    and body: "(if len \<le> 0 then Some (Inr (if len \<noteq> 0 then -1 else 0, m, buf))
      else if at + 6 > length buf then Some (Inl BufferOverrun)
      else let buf = swaps at buf; alen = host16 buf at; attr = host16 buf (at + 4); n = ALENGTH alen
           in if attr > AVP_MAX then
                if AMBIT alen then Some (Inr (-1, m, buf)) else loop buf (at + n) (len - int n) False m
              else if int n > len then Some (Inr (-1, m, buf))
              else if attr \<noteq> 0 \<and> first then Some (Inr (-1, m, buf))
              else if n < 6 then Some (Inr (-1, m, buf))
              else if AZBITS alen then
                if AMBIT alen then Some (Inr (-1, m, buf)) else loop buf (at + n) (len - int n) False m
              else if attr \<in> set NULL_handlers then
                if AMBIT alen then Some (Inr (-1, m, buf)) else loop buf (at + n) (len - int n) False m
              else if attr \<in> set value_handlers \<and> at + 8 > length buf then Some (Inl BufferOverrun)
              else case avp_handler attr (take n (drop at buf)) (net16 buf (at + 6)) m of
                  Inl e \<Rightarrow> Some (Inl e)
                | Inr m \<Rightarrow> loop buf (at + n) (len - int n) False m) = Some r"
  show "\<not> stuck at len buf"
  proof
    assume s: "stuck at len buf"
    then have h: "at + 6 \<le> length buf" by (simp add: stuck_def)
    have f: "host16 (swaps at buf) at = 0" "39 < host16 (swaps at buf) (at + 4)" "\<not> len \<le> 0"
      using s nth_swaps(1,2) [OF h] by (simp_all add: stuck_def net16_def GETSHORT_def)
    have "loop (swaps at buf) at len False m = Some r"
      using body h f by (simp add: Let_def AMBIT_def ALENGTH_def)
    from IH [OF this] stuck_swaps [OF s] show False by simp
  qed
qed

end
