(* ===== verification/L2tp_Correct.thy ===== *)
theory L2tp_Correct
  imports L2tp_Spec
begin

text \<open>
  Correctness of L2TP: what is sent for a tunnel and a call, how a tunnel is set up or given up, data
  through a session, and an invariant of every run.
\<close>

section \<open>The messages that are sent\<close>

definition sccrq_avps :: "nat \<Rightarrow> avp list" where
  "sccrq_avps tid = [(True, 0, PUTSHORT SCCRQ), (True, 2, PUTSHORT 0x100), (True, 3, PUTSHORT 0 @ PUTSHORT 3),
     (True, 4, PUTSHORT 0 @ PUTSHORT 0), (False, 6, PUTSHORT 0x0690), (True, 7, ascii ''wfnex''),
     (False, 8, ascii ''wfnex.com''), (True, 9, PUTSHORT tid), (True, 0xA, PUTSHORT 8)]"

definition scccn_avps :: "avp list" where
  "scccn_avps = [(True, 0, PUTSHORT SCCCN)]"

definition stopccn_avps :: "nat \<Rightarrow> avp list" where
  "stopccn_avps tid = [(True, 0, PUTSHORT StopCCN), (True, 9, PUTSHORT tid),
     (True, 1, PUTSHORT 2 @ PUTSHORT 0 @ ascii ''disconnect'')]"

definition icrq_avps :: "nat \<Rightarrow> avp list" where
  "icrq_avps cid = [(True, 0, PUTSHORT ICRQ), (True, 14, PUTSHORT cid), (True, 15, half_words 0), (True, 18, half_words 0)]"

definition iccn_avps :: "avp list" where
  "iccn_avps = [(True, 0, PUTSHORT ICCN), (True, 24, half_words 1000000000)]"

lemma length_half_words [simp]: "length (half_words v) = 4"
  by (simp add: half_words_def)

lemma length_ascii [simp]: "length (ascii s) = length s"
  by (simp add: ascii_def)

lemma sent_avps:
  "add_avp_rws 8 (add_tunnelid_avp tid (add_vendor_avp (ascii ''wfnex.com'')
     (add_hostname_avp (ascii ''wfnex'') (add_firmware_avp 0x0690 (add_bearer_caps_avp 0
     (add_frame_caps_avp 3 (add_protocol_avp 0x100 (add_message_type_avp SCCRQ [])))))))) = avps_bytes (sccrq_avps tid)"
  "add_message_type_avp SCCCN [] = avps_bytes scccn_avps"
  "add_result_code_avp 2 0 (ascii ''disconnect'') (add_tunnelid_avp tid (add_message_type_avp StopCCN [])) =
     avps_bytes (stopccn_avps tid)"
  "add_bearer_avp 0 (add_serno_avp 0 (add_callid_avp cid (add_message_type_avp ICRQ []))) = avps_bytes (icrq_avps cid)"
  "add_txspeed_avp 1000000000 (add_message_type_avp ICCN []) = avps_bytes iccn_avps"
  by (simp_all add: add_avp_rws_def add_tunnelid_avp_def add_vendor_avp_def add_hostname_avp_def add_firmware_avp_def
      add_bearer_caps_avp_def add_frame_caps_avp_def add_protocol_avp_def add_message_type_avp_def sccrq_avps_def
      scccn_avps_def add_result_code_avp_def stopccn_avps_def add_bearer_avp_def add_serno_avp_def add_callid_avp_def
      icrq_avps_def add_txspeed_avp_def iccn_avps_def)

lemma sent_avps_wf:
  "avps_wf (sccrq_avps tid)" "avps_wf scccn_avps" "avps_wf (stopccn_avps tid)" "avps_wf (icrq_avps cid)" "avps_wf iccn_avps"
  by (simp_all add: avps_wf_def sccrq_avps_def scccn_avps_def stopccn_avps_def icrq_avps_def iccn_avps_def
      value_handlers_def NULL_handlers_def)

lemma length_sent_avps:
  "length (avps_bytes (sccrq_avps tid)) = 86" "length (avps_bytes scccn_avps) = 8"
  "length (avps_bytes (stopccn_avps tid)) = 36" "length (avps_bytes (icrq_avps cid)) = 36" "length (avps_bytes iccn_avps) = 18"
  by (simp_all add: sccrq_avps_def scccn_avps_def stopccn_avps_def icrq_avps_def iccn_avps_def add_header_def
      add_nonmandatory_header_def)

section \<open>Receiving\<close>

lemma effect1_keeps:
  "c_tid (avp_effect x m) = c_tid m" "c_cid (avp_effect x m) = c_cid m" "c_Ns (avp_effect x m) = c_Ns m"
  "c_Nr (avp_effect x m) = c_Nr m" "m_bzlb (avp_effect x m) = m_bzlb m"
  by (cases x; simp only: avp_effect.simps split: if_split; simp)+

lemma effect_keeps [simp]:
  "c_tid (fold avp_effect avs m) = c_tid m" "c_cid (fold avp_effect avs m) = c_cid m" "c_Ns (fold avp_effect avs m) = c_Ns m"
  "c_Nr (fold avp_effect avs m) = c_Nr m" "m_bzlb (fold avp_effect avs m) = m_bzlb m"
  by (induction avs arbitrary: m; simp add: effect1_keeps del: avp_effect.simps)+

lemma header_msg_simps [simp]:
  "c_tid (header_msg tid cid ns nr len) = tid" "c_cid (header_msg tid cid ns nr len) = cid"
  "c_Ns (header_msg tid cid ns nr len) = ns" "c_Nr (header_msg tid cid ns nr len) = nr"
  "\<not> m_bzlb (header_msg tid cid ns nr len)"
  by (simp_all add: header_msg_def Reset_def)

definition l2tp_ready :: "l2tp_lac \<Rightarrow> bool" where
  "l2tp_ready L \<longleftrightarrow> l_fault L = None \<and> length (l_buffer L) = 4096"

text \<open>A control datagram: its AVPs, and the message they make.\<close>

definition control_dgram :: "nat \<Rightarrow> nat \<Rightarrow> nat \<Rightarrow> nat \<Rightarrow> avp list \<Rightarrow> byte list \<Rightarrow> control_msg \<Rightarrow> bool" where
  "control_dgram tid cid ns nr avs d msg \<longleftrightarrow> tid < 65536 \<and> cid < 65536 \<and> ns < 65536 \<and> nr < 65536 \<and> avps_wf avs \<and>
     d = add_control_hdr tid cid ns nr (avps_bytes avs) \<and> length d \<le> 4096 \<and>
     msg = fold avp_effect avs (header_msg tid cid ns nr (length d))"

lemma control_input:
  assumes d: "control_dgram tid cid ns nr avs d msg" and L: "l2tp_ready L" "m_L2tpServers L a = Some t"
  shows "\<exists>buf. length buf = 4096 \<and>
    l2tp_do (L2tpInput a (Some d)) L = HandleControllMessage a msg t (L\<lparr>l_buffer := buf\<rparr>)"
proof -
  let ?rest = "drop (length d) (l_buffer L)"
  from d have dd: "tid < 65536" "cid < 65536" "ns < 65536" "nr < 65536" "12 + length (avps_bytes avs) < 65536" "avps_wf avs"
    "d = add_control_hdr tid cid ns nr (avps_bytes avs)" "length d \<le> 4096"
    "msg = fold avp_effect avs (header_msg tid cid ns nr (length d))"
    unfolding control_dgram_def by auto
  obtain buf where dec: "control_Decode (d @ ?rest) (length d) = Inr (0, msg, buf)" "length buf = length (d @ ?rest)"
    using control_decode [OF dd(1-6), of ?rest] dd(7,9) by auto
  have copy: "memcpy_at (l_buffer L) 0 d (length d) = d @ ?rest" by (simp add: memcpy_at_def)
  have c: "CTBIT (net16 (d @ ?rest) 0)" using control_hdr_fields(1) [OF dd(1-5)] unfolding dd(7) by (simp add: CTBIT_def)
  have "d \<noteq> []" "take 4096 d = d" using dd(7,8) by (auto simp: add_control_hdr_def PUTSHORT_def)
  then have "l2tp_do (L2tpInput a (Some d)) L = HandleControllMessage a msg t (L\<lparr>l_buffer := buf\<rparr>)"
    using L dec(1) c by (simp add: l2tp_do_def l2tp_ready_def on_tunnel_def tunnel_handle_input_def copy)
  then show ?thesis using dec(2) L(1) dd(8) by (intro exI [of _ buf]) (simp add: l2tp_ready_def)
qed

section \<open>Setting up a tunnel\<close>

lemma make_tunnel:
  assumes "l2tp_ready L" "m_L2tpServers L a = None"
  defines "T \<equiv> m_tunnelidbase L"
  shows "l2tp_do (L2tpMakeTunnel a) L =
    L\<lparr>m_tunnelidbase := (T + 1) mod 0x10000,
      l_out := l_out L @ [L2tpSent a (add_control_hdr 0 0 0 0 (avps_bytes (sccrq_avps T)))],
      m_L2tpServers := (m_L2tpServers L)(a \<mapsto> (new_tunnel T 0)\<lparr>m_control_seq_num := 1, t_requestcount := 1\<rparr>)\<rparr>"
  using assms(1,2) unfolding T_def
  by (simp add: l2tp_do_def l2tp_ready_def MakeTunnel_def FindChannel_def AddChannel_def StartConnectRequest_def Let_def
      send_control_def GetIncreaseNS_def tunnel_SendData_def l2tp_call_def set_tunnel_def new_tunnel_def sent_avps del: One_nat_def)

lemma got_sccrp:
  assumes d: "control_dgram (m_ourtid t) cid ns nr avs d msg" "m_messatetype msg = SCCRP"
    and L: "l2tp_ready L" "m_L2tpServers L a = Some t"
  defines "T \<equiv> l2tp_do (L2tpInput a (Some d)) L"
  shows "m_L2tpServers T = (m_L2tpServers L)(a \<mapsto> t\<lparr>t_timer := False, t_requestcount := 0,
      m_control_rec_seq_num := (ns + 1) mod 0x10000, m_peertid := m_assigtunenid msg,
      m_control_seq_num := (m_control_seq_num t + 1) mod 0x10000, m_isconnected := True\<rparr>)"
    "l_out T = l_out L @ [L2tpSent a (add_control_hdr (m_assigtunenid msg) 0 (m_control_seq_num t) ((ns + 1) mod 0x10000)
      (avps_bytes scccn_avps)), OnTunnelIndication 0 (Some a)]"
    "l2tp_ready T" "m_tunnelidbase T = m_tunnelidbase L"
proof -
  obtain buf where buf: "length buf = 4096" "T = HandleControllMessage a msg t (L\<lparr>l_buffer := buf\<rparr>)"
    using control_input [OF d(1) L] unfolding T_def by blast
  have m: "c_tid msg = m_ourtid t" "c_Ns msg = ns" "\<not> m_bzlb msg" using d(1) by (auto simp: control_dgram_def)
  have T: "T = HandleStartControlConnectionReply a msg t (L\<lparr>l_buffer := buf\<rparr>)"
    using buf(2) m d(2) by (simp add: HandleControllMessage_def)
  show "m_L2tpServers T = (m_L2tpServers L)(a \<mapsto> t\<lparr>t_timer := False, t_requestcount := 0,
      m_control_rec_seq_num := (ns + 1) mod 0x10000, m_peertid := m_assigtunenid msg,
      m_control_seq_num := (m_control_seq_num t + 1) mod 0x10000, m_isconnected := True\<rparr>)"
    "l_out T = l_out L @ [L2tpSent a (add_control_hdr (m_assigtunenid msg) 0 (m_control_seq_num t) ((ns + 1) mod 0x10000)
      (avps_bytes scccn_avps)), OnTunnelIndication 0 (Some a)]"
    "l2tp_ready T" "m_tunnelidbase T = m_tunnelidbase L"
    using m L(1) buf(1)
    by (simp_all add: T HandleStartControlConnectionReply_def Let_def CheckControlMessage_def send_control_def GetIncreaseNS_def
        tunnel_SendData_def l2tp_call_def set_tunnel_def OnTunnelResult_def sent_avps l2tp_ready_def)
qed

text \<open>A reply for another tunnel identifier stops the timer all the same.\<close>

lemma foreign_sccrp:
  assumes d: "control_dgram tid cid ns nr avs d msg" "m_messatetype msg = SCCRP" "tid \<noteq> m_ourtid t"
    and L: "l2tp_ready L" "m_L2tpServers L a = Some t"
  defines "T \<equiv> l2tp_do (L2tpInput a (Some d)) L"
  shows "m_L2tpServers T = (m_L2tpServers L)(a \<mapsto> t\<lparr>t_timer := False, t_requestcount := 0\<rparr>)" "l_out T = l_out L" "l2tp_ready T"
proof -
  obtain buf where buf: "length buf = 4096" "T = HandleControllMessage a msg t (L\<lparr>l_buffer := buf\<rparr>)"
    using control_input [OF d(1) L] unfolding T_def by blast
  have m: "c_tid msg = tid" "\<not> m_bzlb msg" using d(1) by (auto simp: control_dgram_def)
  show "m_L2tpServers T = (m_L2tpServers L)(a \<mapsto> t\<lparr>t_timer := False, t_requestcount := 0\<rparr>)" "l_out T = l_out L" "l2tp_ready T"
    using m d(2,3) L(1) buf by (simp_all add: HandleControllMessage_def HandleStartControlConnectionReply_def Let_def set_tunnel_def
        l2tp_ready_def)
qed

lemma timer_request:
  assumes L: "l2tp_ready L" "m_L2tpServers L a = Some t" "t_timer t" "t_requestcount t \<le> 10"
  shows "l2tp_do (L2tpTimer a) L =
    L\<lparr>l_out := l_out L @ [L2tpSent a (add_control_hdr 0 0 (m_control_seq_num t) (m_control_rec_seq_num t)
        (avps_bytes (sccrq_avps (m_ourtid t))))],
      m_L2tpServers := (m_L2tpServers L)(a \<mapsto> t\<lparr>m_control_seq_num := (m_control_seq_num t + 1) mod 0x10000,
        t_requestcount := t_requestcount t + 1\<rparr>)\<rparr>"
  using L by (simp add: l2tp_do_def l2tp_ready_def on_tunnel_def tunnel_handle_timeout_def StartConnectRequest_def Let_def
      send_control_def GetIncreaseNS_def tunnel_SendData_def l2tp_call_def set_tunnel_def sent_avps del: One_nat_def)

lemma timer_gives_up:
  assumes L: "l2tp_ready L" "m_L2tpServers L a = Some t" "t_timer t" "t_requestcount t > 10"
  shows "l2tp_do (L2tpTimer a) L =
    L\<lparr>m_L2tpServers := (m_L2tpServers L)(a := None), l_out := l_out L @ [OnTunnelIndication (-1) None]\<rparr>"
  using L by (simp add: l2tp_do_def l2tp_ready_def on_tunnel_def tunnel_handle_timeout_def Let_def OnTunnelResult_def
      l2tp_call_def set_tunnel_def RemoveChannel_def)

text \<open>The requests sent by \<open>n\<close> timer events, from the \<open>k\<close>-th on.\<close>

definition requests :: "inet \<Rightarrow> nat \<Rightarrow> nat \<Rightarrow> nat \<Rightarrow> l2tp_call list" where
  "requests a T k n = map (\<lambda>i. L2tpSent a (add_control_hdr 0 0 i 0 (avps_bytes (sccrq_avps T)))) [k ..< k + n]"

lemma requests_Suc: "requests a T k (Suc n) =
    L2tpSent a (add_control_hdr 0 0 k 0 (avps_bytes (sccrq_avps T))) # requests a T (Suc k) n"
  by (simp add: requests_def upt_rec)

lemma timers:
  assumes "l2tp_ready L" "k + n \<le> 11"
    and "m_L2tpServers L a = Some ((new_tunnel T 0)\<lparr>m_control_seq_num := k, t_requestcount := k\<rparr>)"
  shows "fold l2tp_do (replicate n (L2tpTimer a)) L =
    L\<lparr>l_out := l_out L @ requests a T k n,
      m_L2tpServers := (m_L2tpServers L)(a \<mapsto> (new_tunnel T 0)\<lparr>m_control_seq_num := k + n, t_requestcount := k + n\<rparr>)\<rparr>"
  using assms
proof (induction n arbitrary: L k)
  case 0
  then show ?case by (simp add: requests_def fun_upd_idem)
next
  case (Suc n)
  let ?t = "(new_tunnel T 0)\<lparr>m_control_seq_num := k, t_requestcount := k\<rparr>"
  let ?L = "l2tp_do (L2tpTimer a) L"
  have step: "?L = L\<lparr>l_out := l_out L @ [L2tpSent a (add_control_hdr 0 0 k 0 (avps_bytes (sccrq_avps T)))],
      m_L2tpServers := (m_L2tpServers L)(a \<mapsto> (new_tunnel T 0)\<lparr>m_control_seq_num := Suc k, t_requestcount := Suc k\<rparr>)\<rparr>"
    using timer_request [OF Suc.prems(1,3)] Suc.prems(2) by (simp add: new_tunnel_def)
  have "fold l2tp_do (replicate n (L2tpTimer a)) ?L =
    ?L\<lparr>l_out := l_out ?L @ requests a T (Suc k) n,
      m_L2tpServers := (m_L2tpServers ?L)(a \<mapsto> (new_tunnel T 0)\<lparr>m_control_seq_num := Suc k + n, t_requestcount := Suc k + n\<rparr>)\<rparr>"
    by (rule Suc.IH) (use Suc.prems step in \<open>simp_all add: l2tp_ready_def\<close>)
  then show ?case by (simp add: step requests_Suc fun_upd_def cong: if_cong)
qed

section \<open>An invariant\<close>

definition proxy_wf :: "L2tpSessionProxy \<Rightarrow> bool" where
  "proxy_wf p \<longleftrightarrow> length (sInitRcvLcpConf p) = 64 \<and> length (sLastSendLcpConf p) = 64 \<and> length (sLastRcvLcpConf p) = 64 \<and>
     length (sAuthenName p) = 73 \<and> length (sAuthenChallenge p) = 64"

text \<open>A datagram of a version and with a length field that is its length.\<close>

definition dgram_ok :: "byte list \<Rightarrow> bool" where
  "dgram_ok b \<longleftrightarrow> net16 b 2 = length b \<and> net16 b 0 \<in> {TBIT + LBIT + FBIT + VER_L2TP, LBIT + VER_L2TP} \<and> length b \<le> 4096"

lemma net16_second: "v < 65536 \<Longrightarrow> net16 (PUTSHORT u @ PUTSHORT v @ ys) 2 = v"
  using net16_append(2) [of "PUTSHORT u" "PUTSHORT v @ ys" 0] net16_PUTSHORT [of v] by simp

lemma control_dgram_ok: "12 + length m \<le> 4096 \<Longrightarrow> dgram_ok (add_control_hdr tid cid ns nr m)"
  using net16_second [of "12 + length m" "TBIT + LBIT + FBIT + VER_L2TP"]
    net16_PUTSHORT [of "TBIT + LBIT + FBIT + VER_L2TP" "PUTSHORT (12 + length m) @ _"]
  unfolding dgram_ok_def add_control_hdr_def by simp

lemma data_dgram_ok: "8 + length dat \<le> 4096 \<Longrightarrow>
    dgram_ok (PUTSHORT (LBIT + VER_L2TP) @ PUTSHORT (8 + length dat) @ PUTSHORT tid @ PUTSHORT cid @ dat)"
  using net16_second [of "8 + length dat" "LBIT + VER_L2TP"]
    net16_PUTSHORT [of "LBIT + VER_L2TP" "PUTSHORT (8 + length dat) @ _"]
  unfolding dgram_ok_def by simp

definition session_ok :: "l2tp_tunnel \<Rightarrow> bool" where
  "session_ok t \<longleftrightarrow> (\<forall>cid s. m_sessions t cid = Some s \<longrightarrow> m_localcid s = cid \<and> (m_bisProxy s \<longrightarrow> proxy_wf (s_proxy s)))"

definition tunnel_ok :: "l2tp_tunnel \<Rightarrow> bool" where
  "tunnel_ok t \<longleftrightarrow> t_requestcount t \<le> 11 \<and> (m_isconnected t \<longrightarrow> \<not> t_timer t) \<and> m_control_seq_num t < 65536 \<and>
     m_control_rec_seq_num t < 65536 \<and> m_sessionidbase t < 65536 \<and> session_ok t"

definition l2tp_inv :: "l2tp_lac \<Rightarrow> bool" where
  "l2tp_inv L \<longleftrightarrow> (\<forall>a t. m_L2tpServers L a = Some t \<longrightarrow> tunnel_ok t) \<and> (\<forall>a b. L2tpSent a b \<in> set (l_out L) \<longrightarrow> dgram_ok b) \<and>
     m_tunnelidbase L < 65536"

lemma inv_set_tunnel: "l2tp_inv L \<Longrightarrow> tunnel_ok t \<Longrightarrow> l2tp_inv (set_tunnel a t L)"
  by (simp add: l2tp_inv_def set_tunnel_def)

lemma inv_tunnel_ok: "l2tp_inv L \<Longrightarrow> m_L2tpServers L a = Some t \<Longrightarrow> tunnel_ok t"
  unfolding l2tp_inv_def by blast

lemma inv_call: "l2tp_inv L \<Longrightarrow> (\<And>a b. c = L2tpSent a b \<Longrightarrow> dgram_ok b) \<Longrightarrow> l2tp_inv (l2tp_call c L)"
  by (auto simp: l2tp_inv_def l2tp_call_def)

lemma inv_buffer_fail: "l2tp_inv (L\<lparr>l_buffer := b\<rparr>) = l2tp_inv L" "l2tp_inv (l2tp_fail e L) = l2tp_inv L"
  by (simp_all add: l2tp_inv_def l2tp_fail_def)

lemma inv_remove: "l2tp_inv L \<Longrightarrow> l2tp_inv (snd (RemoveChannel a L))"
  by (simp add: l2tp_inv_def RemoveChannel_def)

lemma send_control_parts:
  "fst (send_control a tid cid m t L) = t\<lparr>m_control_seq_num := (m_control_seq_num t + 1) mod 0x10000\<rparr>"
  "snd (send_control a tid cid m t L) = l2tp_call (L2tpSent a (add_control_hdr tid cid (m_control_seq_num t) (m_control_rec_seq_num t) m)) L"
  by (simp_all add: send_control_def GetIncreaseNS_def tunnel_SendData_def)

lemma inv_send_control:
  assumes "l2tp_inv L" "tunnel_ok t" "12 + length m \<le> 4096"
  shows "l2tp_inv (snd (send_control a tid cid m t L))" "tunnel_ok (fst (send_control a tid cid m t L))"
  using assms by (auto simp: send_control_parts tunnel_ok_def session_ok_def intro!: inv_call control_dgram_ok)

lemma inv_ControlZLB: "l2tp_inv L \<Longrightarrow> l2tp_inv (ControlZLB a cid t L)"
  unfolding ControlZLB_def tunnel_SendData_def by (rule inv_call) (auto intro: control_dgram_ok)

lemma ok_Check: "tunnel_ok t \<Longrightarrow> \<not> m_bzlb msg \<Longrightarrow> tunnel_ok (CheckControlMessage msg t)"
  by (simp add: tunnel_ok_def CheckControlMessage_def session_ok_def)

lemma proxy_avps_length:
  assumes "proxy_wf p" "proxy_avps p m = Inr m'"
  shows "length m' \<le> length m + 400"
  using assms by (auto simp: proxy_avps_def proxy_bytes_def proxy_wf_def add_proxy_auth_id_avp_def add_proxy_auth_challenge_avp_def
      add_proxy_auth_name_avp_def add_proxy_auth_type_avp_def add_last_lcp_recv_avp_def add_last_lcp_send_avp_def
      add_init_lcp_req_avp_def add_bytes_avp_def add_header_def add_nonmandatory_header_def split: sum.splits if_splits)

lemma inv_StartConnectRequest:
  assumes "l2tp_inv L" "tunnel_ok t" "t_requestcount t \<le> 10"
  shows "l2tp_inv (StartConnectRequest a t L)"
  using inv_send_control [OF assms(1,2), of "avps_bytes (sccrq_avps (m_ourtid t))" a 0 0] assms(2,3)
  by (simp add: StartConnectRequest_def Let_def sent_avps length_sent_avps split_beta inv_set_tunnel send_control_parts
      tunnel_ok_def session_ok_def del: One_nat_def)

lemma inv_StartCall:
  assumes "l2tp_inv L" "tunnel_ok t" "m_bisProxy s \<longrightarrow> proxy_wf (s_proxy s)"
  shows "l2tp_inv (StartCall a s t L)"
proof -
  have "length m \<le> 436" if "(if m_bisProxy s then proxy_avps (s_proxy s) (avps_bytes (icrq_avps (m_localcid s)))
      else Inr (avps_bytes (icrq_avps (m_localcid s)))) = Inr m" for m
    using that proxy_avps_length [of "s_proxy s" "avps_bytes (icrq_avps (m_localcid s))" m] assms(3)
    by (auto simp: length_sent_avps split: if_splits)
  then show ?thesis using assms(1,2)
    by (auto simp: StartCall_def Let_def sent_avps inv_buffer_fail split_beta intro!: inv_set_tunnel inv_send_control
        split: sum.split)
qed

lemma inv_MakeIncomingCall:
  assumes "l2tp_inv L" "tunnel_ok t" "proxy_wf proxy"
  shows "l2tp_inv (MakeIncomingCall a proxy b t L)"
proof -
  let ?t = "t\<lparr>m_sessionidbase := (m_sessionidbase t + 1) mod 0x10000\<rparr>" and ?s = "new_l2tp_session (m_sessionidbase t) 0 proxy b"
  have "tunnel_ok (snd (l2tp_AddSession (m_sessionidbase t) ?s ?t))"
    using assms(2,3) by (auto simp: tunnel_ok_def session_ok_def l2tp_AddSession_def new_l2tp_session_def)
  moreover have "m_bisProxy ?s \<longrightarrow> proxy_wf (s_proxy ?s)" using assms(3) by (simp add: new_l2tp_session_def)
  ultimately show ?thesis using assms(1)
    by (simp add: MakeIncomingCall_def GetIncreaseCid_def Let_def split_beta inv_StartCall inv_set_tunnel)
qed

lemma inv_session_message:
  assumes "l2tp_inv L" "tunnel_ok t" "m_sessions t cid = Some s"
  shows "l2tp_inv (session_HandleControllMessage a msg cid s t L)"
proof -
  have "tunnel_ok (t\<lparr>m_sessions := (m_sessions t)(cid \<mapsto> s\<lparr>m_peercid := p\<rparr>)\<rparr>)" for p
    using assms(2,3) by (auto simp: tunnel_ok_def session_ok_def)
  moreover have "tunnel_ok (l2tp_RemoveSession c t)" for c
    using assms(2) by (auto simp: tunnel_ok_def session_ok_def l2tp_RemoveSession_def)
  ultimately show ?thesis using assms(1)
    by (auto simp: session_HandleControllMessage_def HandleIncomingCallReply_def HandleCallDisconnectNotify_def Let_def split_beta
        sent_avps length_sent_avps intro!: inv_call inv_set_tunnel inv_send_control inv_ControlZLB)
qed

lemma inv_HandleControllMessage:
  assumes L: "l2tp_inv L" and t: "tunnel_ok t"
  shows "l2tp_inv (HandleControllMessage a msg t L)"
proof (cases "m_bzlb msg")
  case True
  then show ?thesis using assms
    by (auto simp: HandleControllMessage_def HandleZLB_def tunnel_ok_def session_ok_def intro!: inv_set_tunnel)
next
  case False
  have c: "tunnel_ok (CheckControlMessage msg t)" using t False by (rule ok_Check)
  have quiet: "tunnel_ok (t\<lparr>t_timer := False, t_requestcount := 0\<rparr>)" using t by (simp add: tunnel_ok_def session_ok_def)
  define t1 where "t1 = (CheckControlMessage msg (t\<lparr>t_timer := False, t_requestcount := 0\<rparr>))\<lparr>m_peertid := m_assigtunenid msg\<rparr>"
  have t1: "tunnel_ok t1" using ok_Check [OF quiet False] by (simp add: t1_def tunnel_ok_def session_ok_def)
  have off: "\<not> t_timer t1" by (simp add: t1_def CheckControlMessage_def)
  note sent = inv_send_control [OF L t1, of "avps_bytes scccn_avps" a "m_peertid t1" 0]
  have "tunnel_ok ((fst (send_control a (m_peertid t1) 0 (avps_bytes scccn_avps) t1 L))\<lparr>m_isconnected := True\<rparr>)"
    using t1 off by (simp add: send_control_parts tunnel_ok_def session_ok_def)
  then have reply: "l2tp_inv (HandleStartControlConnectionReply a msg t L)"
    using L quiet sent(1) by (auto simp: HandleStartControlConnectionReply_def t1_def [symmetric] Let_def split_beta sent_avps
        length_sent_avps OnTunnelResult_def intro!: inv_call inv_set_tunnel)
  have "l2tp_inv (HandleStopControlConnectionNotification a msg t L)" "l2tp_inv (HandleHello a msg t L)"
    using L c by (auto simp: HandleStopControlConnectionNotification_def HandleHello_def Let_def
        intro!: inv_remove inv_ControlZLB inv_set_tunnel)
  moreover have "l2tp_inv (HandleSessionControllMessage a msg t L)"
    using L c by (auto simp: HandleSessionControllMessage_def Let_def l2tp_FindSession_def
        intro!: inv_session_message inv_set_tunnel split: option.split)
  ultimately show ?thesis using False reply L by (simp add: HandleControllMessage_def)
qed

lemma inv_input:
  assumes "l2tp_inv L" "tunnel_ok t"
  shows "l2tp_inv (tunnel_handle_input a recv t L)"
proof -
  have "l2tp_inv (HandlePayLoadMessage a d t M)" if "l2tp_inv M" for d M
    using that by (auto simp: HandlePayLoadMessage_def HandlePayLoad_def intro!: inv_call split: option.split)
  then show ?thesis using assms
    by (auto simp: tunnel_handle_input_def Let_def inv_buffer_fail inv_HandleControllMessage split: option.split sum.split)
qed

definition l2tp_event_ok :: "l2tp_event \<Rightarrow> bool" where
  "l2tp_event_ok e \<longleftrightarrow> (\<forall>a p b. e = L2tpMakeCall a p b \<longrightarrow> proxy_wf p)"

lemma inv_MakeTunnel: "l2tp_inv L \<Longrightarrow> l2tp_inv (snd (MakeTunnel a L))"
  by (auto simp: MakeTunnel_def FindChannel_def AddChannel_def Let_def l2tp_inv_def [of L]
      intro!: inv_call inv_StartConnectRequest inv_set_tunnel split: option.split)
    (auto simp: l2tp_inv_def new_tunnel_def tunnel_ok_def session_ok_def)

lemma inv_do:
  assumes L: "l2tp_inv L" and e: "l2tp_event_ok e"
  shows "l2tp_inv (l2tp_do e L)"
proof -
  have on: "l2tp_inv (on_tunnel a f L)" if "\<And>t. tunnel_ok t \<Longrightarrow> l2tp_inv (f t L)" for a f
    using L that inv_tunnel_ok [OF L, of a] by (auto simp: on_tunnel_def split: option.split)
  show ?thesis
  proof (cases e)
    case (L2tpMakeTunnel a)
    then show ?thesis using L by (simp add: l2tp_do_def inv_MakeTunnel)
  next
    case (L2tpOpen a)
    then show ?thesis using L
      by (auto simp: l2tp_do_def intro!: on inv_set_tunnel) (simp add: tunnel_ok_def session_ok_def)
  next
    case (L2tpMakeCall a p b)
    then show ?thesis using L e by (auto simp: l2tp_do_def l2tp_event_ok_def intro!: on inv_MakeIncomingCall)
  next
    case (L2tpOpenSession a cid)
    then show ?thesis using L
      by (auto simp: l2tp_do_def intro!: on inv_set_tunnel split: option.split) (auto simp: tunnel_ok_def session_ok_def)
  next
    case (L2tpSend a cid dat)
    then show ?thesis using L
      by (auto simp: l2tp_do_def session_SendData_def tunnel_SendData_def Let_def
          intro!: on inv_call data_dgram_ok [simplified] split: option.split)
  next
    case (L2tpDisconnect a)
    then show ?thesis using L
      by (auto simp: l2tp_do_def l2tp_Disconnect_def Let_def split_beta sent_avps length_sent_avps
          intro!: on inv_set_tunnel inv_send_control)
  next
    case (L2tpTimer a)
    then show ?thesis using L
      by (auto simp: l2tp_do_def tunnel_handle_timeout_def Let_def OnTunnelResult_def
          intro!: on inv_remove inv_call inv_set_tunnel inv_StartConnectRequest) (simp add: tunnel_ok_def session_ok_def)
  next
    case (L2tpInput a recv)
    then show ?thesis using L by (auto simp: l2tp_do_def intro!: on inv_input)
  qed
qed

interpretation l2tp: invariant_of "\<lambda>L. L = new_lac" "\<lambda>L L'. \<exists>e. l2tp_event_ok e \<and> L' = l2tp_do e L" l2tp_inv
  by unfold_locales (auto simp: inv_do, simp add: l2tp_inv_def new_lac_def)

end
