(* ===== verification/L2tp_Exchange.thy ===== *)
theory L2tp_Exchange
  imports L2tp_Correct
begin

text \<open>
  A call through a tunnel, from the request for the tunnel to data in both directions, and the claims on
  L2TP with their witnesses.
\<close>

section \<open>Calls\<close>

lemma made_call:
  fixes p :: L2tpSessionProxy
  assumes L: "l2tp_ready L" "m_L2tpServers L a = Some t" "m_sessions t (m_sessionidbase t) = None"
  defines "T \<equiv> l2tp_do (L2tpMakeCall a p False) L" and "cid \<equiv> m_sessionidbase t"
  shows "m_L2tpServers T = (m_L2tpServers L)(a \<mapsto> t\<lparr>m_sessionidbase := (cid + 1) mod 0x10000,
      m_sessions := (m_sessions t)(cid \<mapsto> new_l2tp_session cid 0 p False), m_control_seq_num := (m_control_seq_num t + 1) mod 0x10000\<rparr>)"
    "l_out T = l_out L @ [L2tpSent a (add_control_hdr (m_peertid t) 0 (m_control_seq_num t) (m_control_rec_seq_num t)
      (avps_bytes (icrq_avps cid)))]"
    "l2tp_ready T"
  using L unfolding T_def cid_def
  by (simp_all add: l2tp_do_def l2tp_ready_def on_tunnel_def MakeIncomingCall_def GetIncreaseCid_def l2tp_AddSession_def Let_def
      StartCall_def new_l2tp_session_def send_control_def GetIncreaseNS_def tunnel_SendData_def l2tp_call_def set_tunnel_def sent_avps
      del: One_nat_def)

lemma got_icrp:
  assumes d: "control_dgram tid cid ns nr avs d msg" "m_messatetype msg = ICRP"
    and L: "l2tp_ready L" "m_L2tpServers L a = Some t" "m_sessions t cid = Some s"
  defines "T \<equiv> l2tp_do (L2tpInput a (Some d)) L"
  shows "m_L2tpServers T = (m_L2tpServers L)(a \<mapsto> t\<lparr>m_control_rec_seq_num := (ns + 1) mod 0x10000,
      m_sessions := (m_sessions t)(cid \<mapsto> s\<lparr>m_peercid := m_assigcallid msg\<rparr>),
      m_control_seq_num := (m_control_seq_num t + 1) mod 0x10000\<rparr>)"
    "l_out T = l_out L @ [L2tpSent a (add_control_hdr (m_peertid t) (m_assigcallid msg) (m_control_seq_num t)
      ((ns + 1) mod 0x10000) (avps_bytes iccn_avps))] @
      (if m_pTunnelSink_set t then [OnCallIndication 0 a (m_localcid s)] else [])"
    "l2tp_ready T"
proof -
  obtain buf where buf: "length buf = 4096" "T = HandleControllMessage a msg t (L\<lparr>l_buffer := buf\<rparr>)"
    using control_input [OF d(1) L(1,2)] unfolding T_def by blast
  have m: "c_cid msg = cid" "c_Ns msg = ns" "\<not> m_bzlb msg" using d(1) by (auto simp: control_dgram_def)
  let ?t = "t\<lparr>m_control_rec_seq_num := (ns + 1) mod 0x10000\<rparr>"
  have T: "T = HandleIncomingCallReply a msg cid s ?t (set_tunnel a ?t (L\<lparr>l_buffer := buf\<rparr>))"
    using buf(2) m d(2) L(3)
    by (simp add: HandleControllMessage_def HandleSessionControllMessage_def Let_def CheckControlMessage_def l2tp_FindSession_def
        session_HandleControllMessage_def)
  show "m_L2tpServers T = (m_L2tpServers L)(a \<mapsto> t\<lparr>m_control_rec_seq_num := (ns + 1) mod 0x10000,
      m_sessions := (m_sessions t)(cid \<mapsto> s\<lparr>m_peercid := m_assigcallid msg\<rparr>),
      m_control_seq_num := (m_control_seq_num t + 1) mod 0x10000\<rparr>)"
    "l_out T = l_out L @ [L2tpSent a (add_control_hdr (m_peertid t) (m_assigcallid msg) (m_control_seq_num t)
      ((ns + 1) mod 0x10000) (avps_bytes iccn_avps))] @
      (if m_pTunnelSink_set t then [OnCallIndication 0 a (m_localcid s)] else [])"
    "l2tp_ready T"
    using L(1) buf(1)
    by (simp_all add: T HandleIncomingCallReply_def Let_def send_control_def GetIncreaseNS_def tunnel_SendData_def l2tp_call_def
        set_tunnel_def sent_avps l2tp_ready_def)
qed

lemma opened:
  assumes "l2tp_ready L" "m_L2tpServers L a = Some t"
  shows "l2tp_do (L2tpOpen a) L = L\<lparr>m_L2tpServers := (m_L2tpServers L)(a \<mapsto> t\<lparr>m_pTunnelSink_set := True\<rparr>)\<rparr>"
  using assms by (simp add: l2tp_do_def l2tp_ready_def on_tunnel_def set_tunnel_def)

lemma tunnel_setup:
  assumes L: "l2tp_ready L" "m_L2tpServers L a = None" "m_tunnelidbase L < 65536"
    and d: "control_dgram (m_tunnelidbase L) cid ns nr avs d msg" "m_messatetype msg = SCCRP"
  defines "T \<equiv> fold l2tp_do [L2tpMakeTunnel a, L2tpInput a (Some d), L2tpOpen a] L"
  obtains t where "m_L2tpServers T = (m_L2tpServers L)(a \<mapsto> t)" "l2tp_ready T"
    "l_out T = l_out L @ [L2tpSent a (add_control_hdr 0 0 0 0 (avps_bytes (sccrq_avps (m_tunnelidbase L)))),
      L2tpSent a (add_control_hdr (m_assigtunenid msg) 0 1 ((ns + 1) mod 0x10000) (avps_bytes scccn_avps)),
      OnTunnelIndication 0 (Some a)]"
    "m_sessions t = Map.empty" "m_sessionidbase t = 1" "m_peertid t = m_assigtunenid msg" "m_control_seq_num t = 2"
    "m_control_rec_seq_num t = (ns + 1) mod 0x10000" "m_isconnected t" "\<not> t_timer t" "m_pTunnelSink_set t"
proof -
  let ?id = "m_tunnelidbase L"
  define L1 where "L1 = l2tp_do (L2tpMakeTunnel a) L"
  define L2 where "L2 = l2tp_do (L2tpInput a (Some d)) L1"
  define t1 where "t1 = (new_tunnel ?id 0)\<lparr>m_control_seq_num := 1, t_requestcount := 1\<rparr>"
  have L1: "m_L2tpServers L1 = (m_L2tpServers L)(a \<mapsto> t1)" "l2tp_ready L1"
    "l_out L1 = l_out L @ [L2tpSent a (add_control_hdr 0 0 0 0 (avps_bytes (sccrq_avps ?id)))]"
    using L(1) by (simp_all add: L1_def make_tunnel [OF L(1,2)] t1_def l2tp_ready_def)
  have t1: "m_ourtid t1 = ?id" "m_control_seq_num t1 = 1" "m_sessions t1 = Map.empty" "m_sessionidbase t1 = 1"
    by (simp_all add: t1_def new_tunnel_def)
  have d': "control_dgram (m_ourtid t1) cid ns nr avs d msg" using d(1) t1(1) by simp
  have at1: "m_L2tpServers L1 a = Some t1" by (simp add: L1)
  note L2 = got_sccrp [OF d' d(2) L1(2) at1, folded L2_def]
  define t2 where "t2 = t1\<lparr>t_timer := False, t_requestcount := 0,
      m_control_rec_seq_num := (ns + 1) mod 0x10000, m_peertid := m_assigtunenid msg,
      m_control_seq_num := (m_control_seq_num t1 + 1) mod 0x10000, m_isconnected := True\<rparr>"
  have at2: "m_L2tpServers L2 a = Some t2" using L2(1) by (simp add: t2_def)
  have T: "T = L2\<lparr>m_L2tpServers := (m_L2tpServers L2)(a \<mapsto> t2\<lparr>m_pTunnelSink_set := True\<rparr>)\<rparr>"
    using opened [OF L2(3) at2] by (simp add: T_def L1_def L2_def)
  show ?thesis
    by (rule that [of "t2\<lparr>m_pTunnelSink_set := True\<rparr>"])
      (use L2 L1 t1 in \<open>simp_all add: T t2_def l2tp_ready_def\<close>)
qed

section \<open>Data\<close>

definition data_dgram :: "nat \<Rightarrow> nat \<Rightarrow> byte list \<Rightarrow> byte list" where
  "data_dgram tid cid dat = PUTSHORT (LBIT + VER_L2TP) @ PUTSHORT (8 + length dat) @ PUTSHORT tid @ PUTSHORT cid @ dat"

lemma session_SendData_dgram:
  "8 + length dat \<le> 4096 \<Longrightarrow>
    session_SendData a dat s t L = (0, l2tp_call (L2tpSent a (data_dgram (m_peertid t) (m_peercid s) dat)) L)"
  by (simp add: session_SendData_def tunnel_SendData_def data_dgram_def)

lemma data_decode:
  assumes "tid < 65536" "cid < 65536" "8 + length dat \<le> 4096"
  shows "data_Decode (data_dgram tid cid dat @ rest) (8 + length dat) =
    Some \<lparr>d_tid = tid, d_cid = cid, d_Ns = 0, d_Nr = 0, d_length = 8 + length dat, d_blf = 1, d_bnsf = 0, d_payload = 8,
      d_payloadsize = length dat\<rparr>"
    and "\<not> CTBIT (net16 (data_dgram tid cid dat @ rest) 0)" "drop 8 (data_dgram tid cid dat @ rest) = dat @ rest"
proof -
  let ?b = "data_dgram tid cid dat @ rest"
  have f: "net16 (xs @ PUTSHORT v @ ys) i = v" if "length xs = i" "v < 65536" for xs v ys i
    using net16_append(2) [of xs "PUTSHORT v @ ys" 0] net16_PUTSHORT [OF that(2)] that(1) by simp
  have n: "net16 ?b 0 = 0x4002" "net16 ?b 2 = 8 + length dat" "net16 ?b 4 = tid" "net16 ?b 6 = cid"
    using f [of "[]" 0 "0x4002"] f [of "PUTSHORT 0x4002" 2 "8 + length dat"]
      f [of "PUTSHORT 0x4002 @ PUTSHORT (8 + length dat)" 4 tid]
      f [of "PUTSHORT 0x4002 @ PUTSHORT (8 + length dat) @ PUTSHORT tid" 6 cid] assms
    by (simp_all add: data_dgram_def)
  have bits: "PLBIT 0x4002" "\<not> PFBIT 0x4002" "\<not> PSBIT 0x4002" "\<not> CTBIT 0x4002" "PVER 0x4002 = 2"
    by (simp_all add: PLBIT_def PFBIT_def PSBIT_def CTBIT_def PVER_def)
  show "\<not> CTBIT (net16 ?b 0)" using n bits by simp
  have size: "nat ((int (8 + length dat) - int 8) mod 2 ^ 64) = length dat" using assms(3) by simp
  have "data_header_size 0x4002 = 8" by (simp add: data_header_size_def bits)
  then show "data_Decode ?b (8 + length dat) =
    Some \<lparr>d_tid = tid, d_cid = cid, d_Ns = 0, d_Nr = 0, d_length = 8 + length dat, d_blf = 1, d_bnsf = 0, d_payload = 8,
      d_payloadsize = length dat\<rparr>"
    unfolding data_Decode_def n Let_def using bits size by simp
  show "drop 8 ?b = dat @ rest" by (simp add: data_dgram_def)
qed

lemma data_input:
  assumes "m_ourtid t < 65536" "cid < 65536" "8 + length dat \<le> 4096"
    and L: "l2tp_ready L" "m_L2tpServers L a = Some t" "m_sessions t cid = Some s" "m_psink_set s"
  shows "l_out (l2tp_do (L2tpInput a (Some (data_dgram (m_ourtid t) cid dat))) L) =
    l_out L @ [OnDataRecv a (m_localcid s) dat (length dat)]"
proof -
  let ?d = "data_dgram (m_ourtid t) cid dat"
  have len: "length ?d = 8 + length dat" by (simp add: data_dgram_def)
  have "?d \<noteq> []" by (simp add: data_dgram_def PUTSHORT_def)
  moreover have "take 4096 ?d = ?d" using len assms(3) by simp
  moreover have "memcpy_at (l_buffer L) 0 ?d (8 + length dat) = ?d @ drop (8 + length dat) (l_buffer L)"
    using len by (simp add: memcpy_at_def)
  ultimately show ?thesis
    using L data_decode [OF assms(1-3), of "drop (8 + length dat) (l_buffer L)"]
    by (simp add: l2tp_do_def l2tp_ready_def on_tunnel_def tunnel_handle_input_def Let_def len HandlePayLoadMessage_def
        l2tp_FindSession_def HandlePayLoad_def l2tp_call_def)
qed

section \<open>A server\<close>

definition l2tp_demo_addr :: inet where
  "l2tp_demo_addr = (0x0A000001, 1701)"

definition demo_sccrp :: "avp list" where
  "demo_sccrp = [(True, 0, PUTSHORT SCCRP), (True, 9, PUTSHORT 7)]"

definition demo_icrp :: "avp list" where
  "demo_icrp = [(True, 0, PUTSHORT ICRP), (True, 14, PUTSHORT 5)]"

definition demo_control :: "nat \<Rightarrow> nat \<Rightarrow> nat \<Rightarrow> avp list \<Rightarrow> byte list" where
  "demo_control tid cid ns avs = add_control_hdr tid cid ns 0 (avps_bytes avs)"

definition demo_msg :: "nat \<Rightarrow> nat \<Rightarrow> nat \<Rightarrow> avp list \<Rightarrow> control_msg" where
  "demo_msg tid cid ns avs = fold avp_effect avs (header_msg tid cid ns 0 (length (demo_control tid cid ns avs)))"

lemma demo_dgram:
  "tid < 65536 \<Longrightarrow> cid < 65536 \<Longrightarrow> ns < 65536 \<Longrightarrow>
    control_dgram tid cid ns 0 demo_sccrp (demo_control tid cid ns demo_sccrp) (demo_msg tid cid ns demo_sccrp)"
  "tid < 65536 \<Longrightarrow> cid < 65536 \<Longrightarrow> ns < 65536 \<Longrightarrow>
    control_dgram tid cid ns 0 demo_icrp (demo_control tid cid ns demo_icrp) (demo_msg tid cid ns demo_icrp)"
  "m_messatetype (demo_msg tid cid ns demo_sccrp) = SCCRP" "m_assigtunenid (demo_msg tid cid ns demo_sccrp) = 7"
  "m_messatetype (demo_msg tid cid ns demo_icrp) = ICRP" "m_assigcallid (demo_msg tid cid ns demo_icrp) = 5"
  using net16_PUTSHORT [of 2 "[]"] net16_PUTSHORT [of 7 "[]"] net16_PUTSHORT [of 11 "[]"] net16_PUTSHORT [of 5 "[]"]
  by (simp_all add: control_dgram_def demo_control_def demo_msg_def demo_sccrp_def demo_icrp_def avps_wf_def value_handlers_def
      NULL_handlers_def add_header_def add_nonmandatory_header_def)

lemma new_lac_ready: "l2tp_ready new_lac" "m_L2tpServers new_lac = Map.empty" "m_tunnelidbase new_lac = 1" "l_out new_lac = []"
  by (simp_all add: l2tp_ready_def new_lac_def)

section \<open>Claims\<close>



text \<open>
  C34. Setting up a tunnel and a call in it. The request for a tunnel is sent with the next tunnel
  identifier; the reply to this identifier is confirmed under the identifier it assigns and whoever
  asked is told; a call is requested in the tunnel, and its reply confirmed under the call identifier
  it assigns. The four messages are numbered from 0 and acknowledge what was received.
\<close>

theorem l2tp_call_setup:
  assumes L: "l2tp_ready L" "m_L2tpServers L a = None" "m_tunnelidbase L < 65536"
    and d1: "control_dgram (m_tunnelidbase L) cid1 ns1 nr1 avs1 d1 msg1" "m_messatetype msg1 = SCCRP"
    and d2: "control_dgram tid2 1 ns2 nr2 avs2 d2 msg2" "m_messatetype msg2 = ICRP"
  defines "T \<equiv> fold l2tp_do [L2tpMakeTunnel a, L2tpInput a (Some d1), L2tpOpen a, L2tpMakeCall a zero_proxy False,
      L2tpInput a (Some d2)] L"
  shows "l_out T = l_out L @
     [L2tpSent a (add_control_hdr 0 0 0 0 (avps_bytes (sccrq_avps (m_tunnelidbase L)))),
      L2tpSent a (add_control_hdr (m_assigtunenid msg1) 0 1 ((ns1 + 1) mod 0x10000) (avps_bytes scccn_avps)),
      OnTunnelIndication 0 (Some a),
      L2tpSent a (add_control_hdr (m_assigtunenid msg1) 0 2 ((ns1 + 1) mod 0x10000) (avps_bytes (icrq_avps 1))),
      L2tpSent a (add_control_hdr (m_assigtunenid msg1) (m_assigcallid msg2) 3 ((ns2 + 1) mod 0x10000) (avps_bytes iccn_avps)),
      OnCallIndication 0 a 1] \<and>
    (\<exists>t s. m_L2tpServers T = (m_L2tpServers L)(a \<mapsto> t) \<and> m_isconnected t \<and> \<not> t_timer t \<and> m_peertid t = m_assigtunenid msg1 \<and>
       m_sessions t = [1 \<mapsto> s] \<and> m_localcid s = 1 \<and> m_peercid s = m_assigcallid msg2) \<and>
    l_fault T = None"
proof -
  define L3 where "L3 = fold l2tp_do [L2tpMakeTunnel a, L2tpInput a (Some d1), L2tpOpen a] L"
  define L4 where "L4 = l2tp_do (L2tpMakeCall a zero_proxy False) L3"
  from tunnel_setup [OF L d1, folded L3_def] obtain t3 where
    L3: "m_L2tpServers L3 = (m_L2tpServers L)(a \<mapsto> t3)" "l2tp_ready L3"
      "l_out L3 = l_out L @ [L2tpSent a (add_control_hdr 0 0 0 0 (avps_bytes (sccrq_avps (m_tunnelidbase L)))),
        L2tpSent a (add_control_hdr (m_assigtunenid msg1) 0 1 ((ns1 + 1) mod 0x10000) (avps_bytes scccn_avps)),
        OnTunnelIndication 0 (Some a)]"
    and t3: "m_sessions t3 = Map.empty" "m_sessionidbase t3 = 1" "m_peertid t3 = m_assigtunenid msg1" "m_control_seq_num t3 = 2"
      "m_control_rec_seq_num t3 = (ns1 + 1) mod 0x10000" "m_isconnected t3" "\<not> t_timer t3" "m_pTunnelSink_set t3" .
  have at3: "m_L2tpServers L3 a = Some t3" using L3(1) by simp
  have free: "m_sessions t3 (m_sessionidbase t3) = None" using t3(1) by simp
  note L4 = made_call [OF L3(2) at3 free, of zero_proxy, folded L4_def]
  define s where "s = new_l2tp_session 1 0 zero_proxy False"
  define t4 where "t4 = t3\<lparr>m_sessionidbase := 2, m_sessions := [1 \<mapsto> s], m_control_seq_num := 3\<rparr>"
  have at4: "m_L2tpServers L4 a = Some t4" "m_sessions t4 1 = Some s"
    using L4(1) t3 by (simp_all add: t4_def s_def)
  note L5 = got_icrp [OF d2 L4(3) at4]
  have T: "T = l2tp_do (L2tpInput a (Some d2)) L4" by (simp add: T_def L3_def L4_def)
  have "m_L2tpServers T = (m_L2tpServers L)(a \<mapsto> t4\<lparr>m_control_rec_seq_num := (ns2 + 1) mod 0x10000,
      m_sessions := [1 \<mapsto> s\<lparr>m_peercid := m_assigcallid msg2\<rparr>], m_control_seq_num := 4\<rparr>)"
    using L5(1) L4(1) L3(1) unfolding T by (simp add: t4_def)
  moreover have "l_out T = l_out L @
     [L2tpSent a (add_control_hdr 0 0 0 0 (avps_bytes (sccrq_avps (m_tunnelidbase L)))),
      L2tpSent a (add_control_hdr (m_assigtunenid msg1) 0 1 ((ns1 + 1) mod 0x10000) (avps_bytes scccn_avps)),
      OnTunnelIndication 0 (Some a),
      L2tpSent a (add_control_hdr (m_assigtunenid msg1) 0 2 ((ns1 + 1) mod 0x10000) (avps_bytes (icrq_avps 1))),
      L2tpSent a (add_control_hdr (m_assigtunenid msg1) (m_assigcallid msg2) 3 ((ns2 + 1) mod 0x10000) (avps_bytes iccn_avps)),
      OnCallIndication 0 a 1]"
    using L5(2) L4(2) L3(3) t3 unfolding T by (simp add: t4_def s_def new_l2tp_session_def)
  moreover have "l_fault T = None" using L5(3) unfolding T by (simp add: l2tp_ready_def)
  ultimately show ?thesis using t3
    by (intro conjI exI [of _ "t4\<lparr>m_control_rec_seq_num := (ns2 + 1) mod 0x10000,
          m_sessions := [1 \<mapsto> s\<lparr>m_peercid := m_assigcallid msg2\<rparr>], m_control_seq_num := 4\<rparr>"]
        exI [of _ "s\<lparr>m_peercid := m_assigcallid msg2\<rparr>"]) (simp_all add: t4_def s_def new_l2tp_session_def)
qed

theorem l2tp_call_setup_witness:
  "l_out (fold l2tp_do [L2tpMakeTunnel l2tp_demo_addr, L2tpInput l2tp_demo_addr (Some (demo_control 1 0 0 demo_sccrp)),
      L2tpOpen l2tp_demo_addr, L2tpMakeCall l2tp_demo_addr zero_proxy False,
      L2tpInput l2tp_demo_addr (Some (demo_control 1 1 1 demo_icrp))] new_lac) =
    [L2tpSent l2tp_demo_addr (add_control_hdr 0 0 0 0 (avps_bytes (sccrq_avps 1))),
     L2tpSent l2tp_demo_addr (add_control_hdr 7 0 1 1 (avps_bytes scccn_avps)), OnTunnelIndication 0 (Some l2tp_demo_addr),
     L2tpSent l2tp_demo_addr (add_control_hdr 7 0 2 1 (avps_bytes (icrq_avps 1))),
     L2tpSent l2tp_demo_addr (add_control_hdr 7 5 3 2 (avps_bytes iccn_avps)), OnCallIndication 0 l2tp_demo_addr 1]"
  using l2tp_call_setup [of new_lac l2tp_demo_addr 0 0 0 demo_sccrp "demo_control 1 0 0 demo_sccrp" "demo_msg 1 0 0 demo_sccrp"
      1 1 0 demo_icrp "demo_control 1 1 1 demo_icrp" "demo_msg 1 1 1 demo_icrp"]
    demo_dgram(1) [of 1 0 0] demo_dgram(2) [of 1 1 1]
  by (simp add: new_lac_ready demo_dgram(3-6) del: One_nat_def)

text \<open>
  C37. What one end of a session sends is what the sink of the session at the other end receives, as far
  as a datagram of 4096 bytes can carry it.
\<close>

theorem l2tp_data_round_trip:
  assumes "m_L2tpServers L a = Some t" "m_sessions t cid = Some s" "l_fault L = None" "8 + length dat \<le> 4096"
    and R: "l2tp_ready R" "m_L2tpServers R a' = Some t'" "m_sessions t' (m_peercid s) = Some s'" "m_psink_set s'"
    and ids: "m_ourtid t' = m_peertid t" "m_peertid t < 65536" "m_peercid s < 65536"
  shows "\<exists>d. l_out (l2tp_do (L2tpSend a cid dat) L) = l_out L @ [L2tpSent a d] \<and>
    l_out (l2tp_do (L2tpInput a' (Some d)) R) = l_out R @ [OnDataRecv a' (m_localcid s') dat (length dat)]"
proof (intro exI conjI)
  show "l_out (l2tp_do (L2tpSend a cid dat) L) = l_out L @ [L2tpSent a (data_dgram (m_peertid t) (m_peercid s) dat)]"
    using assms(1-4) by (simp add: l2tp_do_def on_tunnel_def session_SendData_dgram l2tp_call_def)
  show "l_out (l2tp_do (L2tpInput a' (Some (data_dgram (m_peertid t) (m_peercid s) dat))) R) =
      l_out R @ [OnDataRecv a' (m_localcid s') dat (length dat)]"
    using data_input [of t' "m_peercid s" dat R a' s'] assms(4) R ids by simp
qed

definition demo_end :: "nat \<Rightarrow> nat \<Rightarrow> nat \<Rightarrow> nat \<Rightarrow> l2tp_lac" where
  "demo_end ourtid peertid cid peercid = new_lac\<lparr>m_L2tpServers := [l2tp_demo_addr \<mapsto> (new_tunnel ourtid peertid)\<lparr>m_sessions :=
     [cid \<mapsto> (new_l2tp_session cid peercid zero_proxy False)\<lparr>m_psink_set := True\<rparr>]\<rparr>]\<rparr>"

definition demo_tunnel :: "nat \<Rightarrow> nat \<Rightarrow> nat \<Rightarrow> nat \<Rightarrow> l2tp_tunnel" where
  "demo_tunnel ourtid peertid cid peercid = (new_tunnel ourtid peertid)\<lparr>m_sessions :=
     [cid \<mapsto> (new_l2tp_session cid peercid zero_proxy False)\<lparr>m_psink_set := True\<rparr>]\<rparr>"

lemma demo_end_simps:
  "m_L2tpServers (demo_end i p c q) l2tp_demo_addr = Some (demo_tunnel i p c q)" "l_out (demo_end i p c q) = []"
  "l_fault (demo_end i p c q) = None" "l2tp_ready (demo_end i p c q)"
  "m_sessions (demo_tunnel i p c q) c = Some ((new_l2tp_session c q zero_proxy False)\<lparr>m_psink_set := True\<rparr>)"
  "m_ourtid (demo_tunnel i p c q) = i" "m_peertid (demo_tunnel i p c q) = p"
  "m_peercid ((new_l2tp_session c q zero_proxy False)\<lparr>m_psink_set := True\<rparr>) = q"
  "m_localcid ((new_l2tp_session c q zero_proxy False)\<lparr>m_psink_set := True\<rparr>) = c"
  by (simp_all add: demo_end_def demo_tunnel_def l2tp_ready_def new_lac_def new_tunnel_def new_l2tp_session_def)

theorem l2tp_data_round_trip_witness:
  "\<exists>d. l_out (l2tp_do (L2tpSend l2tp_demo_addr 1 [1, 2, 3]) (demo_end 3 7 1 5)) = [L2tpSent l2tp_demo_addr d] \<and>
     l_out (l2tp_do (L2tpInput l2tp_demo_addr (Some d)) (demo_end 7 3 5 1)) = [OnDataRecv l2tp_demo_addr 5 [1, 2, 3] 3]"
  using l2tp_data_round_trip [of "demo_end 3 7 1 5" l2tp_demo_addr "demo_tunnel 3 7 1 5" 1
      "(new_l2tp_session 1 5 zero_proxy False)\<lparr>m_psink_set := True\<rparr>" "[1, 2, 3]" "demo_end 7 3 5 1" l2tp_demo_addr
      "demo_tunnel 7 3 5 1" "(new_l2tp_session 5 1 zero_proxy False)\<lparr>m_psink_set := True\<rparr>"]
  by (simp add: demo_end_simps numeral_3_eq_3 del: One_nat_def)

text \<open>
  C38. A server that does not answer is sent the request eleven times in all, numbered from 0; then
  whoever asked for the tunnel is told that it failed, and the tunnel is gone.
\<close>

theorem l2tp_gives_up:
  assumes L: "l2tp_ready L" "m_L2tpServers L a = None"
  shows "let T = fold l2tp_do (L2tpMakeTunnel a # replicate 11 (L2tpTimer a)) L in
    m_L2tpServers T = m_L2tpServers L \<and>
    l_out T = l_out L @ requests a (m_tunnelidbase L) 0 11 @ [OnTunnelIndication (-1) None]"
proof -
  let ?id = "m_tunnelidbase L"
  define L1 where "L1 = l2tp_do (L2tpMakeTunnel a) L"
  have L1: "m_L2tpServers L1 = (m_L2tpServers L)(a \<mapsto> (new_tunnel ?id 0)\<lparr>m_control_seq_num := 1, t_requestcount := 1\<rparr>)"
    "l2tp_ready L1" "l_out L1 = l_out L @ requests a ?id 0 1"
    using L(1) by (simp_all add: L1_def make_tunnel [OF L] l2tp_ready_def requests_def)
  define L2 where "L2 = fold l2tp_do (replicate 10 (L2tpTimer a)) L1"
  have L2: "L2 = L1\<lparr>l_out := l_out L1 @ requests a ?id 1 10,
      m_L2tpServers := (m_L2tpServers L1)(a \<mapsto> (new_tunnel ?id 0)\<lparr>m_control_seq_num := 11, t_requestcount := 11\<rparr>)\<rparr>"
    using timers [OF L1(2), of 1 10 a ?id] L1(1) by (simp add: L2_def)
  have ready2: "l2tp_ready L2" using L1(2) by (simp add: L2 l2tp_ready_def)
  have at2: "m_L2tpServers L2 a = Some ((new_tunnel ?id 0)\<lparr>m_control_seq_num := 11, t_requestcount := 11\<rparr>)" by (simp add: L2)
  have last: "l2tp_do (L2tpTimer a) L2 =
      L2\<lparr>m_L2tpServers := (m_L2tpServers L2)(a := None), l_out := l_out L2 @ [OnTunnelIndication (-1) None]\<rparr>"
    by (rule timer_gives_up [OF ready2 at2]) (simp_all add: new_tunnel_def)
  have split: "replicate 11 (L2tpTimer a) = replicate 10 (L2tpTimer a) @ [L2tpTimer a]"
    using replicate_append_same [of 10 "L2tpTimer a"] replicate_Suc [of 10 "L2tpTimer a"] by simp
  have "requests a ?id 0 11 = requests a ?id 0 1 @ requests a ?id 1 10"
    unfolding requests_def using upt_add_eq_append [of 0 1 10] by simp
  moreover have "fold l2tp_do (L2tpMakeTunnel a # replicate 11 (L2tpTimer a)) L = l2tp_do (L2tpTimer a) L2"
    unfolding split by (simp add: L1_def L2_def)
  ultimately show ?thesis unfolding Let_def last using L1 L(2) by (simp add: L2 fun_upd_idem)
qed

theorem l2tp_gives_up_witness:
  "length (l_out (fold l2tp_do (L2tpMakeTunnel l2tp_demo_addr # replicate 11 (L2tpTimer l2tp_demo_addr)) new_lac)) = 12"
  using l2tp_gives_up [of new_lac l2tp_demo_addr] by (simp add: new_lac_ready Let_def requests_def)

text \<open>
  A reply that names another tunnel identifier stops the retransmission of the request although it
  is not taken for an answer: from then on the timer does nothing, nobody is told, and a further request
  for this tunnel is not sent either.
\<close>

theorem l2tp_foreign_reply_stalls:
  assumes d: "control_dgram tid cid ns nr avs d msg" "m_messatetype msg = SCCRP" "tid \<noteq> m_ourtid t"
    and L: "l2tp_ready L" "m_L2tpServers L a = Some t" "\<not> m_isconnected t"
  shows "let T = fold l2tp_do (L2tpInput a (Some d) # replicate n (L2tpTimer a) @ [L2tpMakeTunnel a]) L in
    l_out T = l_out L \<and> (\<exists>t'. m_L2tpServers T a = Some t' \<and> \<not> m_isconnected t' \<and> \<not> t_timer t')"
proof -
  define T where "T = l2tp_do (L2tpInput a (Some d)) L"
  let ?t = "t\<lparr>t_timer := False, t_requestcount := 0\<rparr>"
  note T = foreign_sccrp [OF d L(1,2), folded T_def]
  have at: "m_L2tpServers T a = Some ?t" by (simp add: T)
  have "l2tp_do (L2tpTimer a) T = T" using T(3) at by (simp add: l2tp_do_def l2tp_ready_def on_tunnel_def)
  then have "fold l2tp_do (replicate n (L2tpTimer a)) T = T" by (induction n) simp_all
  moreover have "l2tp_do (L2tpMakeTunnel a) T = T"
    using T(3) at L(3) by (simp add: l2tp_do_def l2tp_ready_def MakeTunnel_def FindChannel_def)
  ultimately have "fold l2tp_do (L2tpInput a (Some d) # replicate n (L2tpTimer a) @ [L2tpMakeTunnel a]) L = T"
    by (simp add: T_def)
  then show ?thesis unfolding Let_def using T(2) at L(3) by simp
qed

theorem l2tp_foreign_reply_stalls_witness:
  "l_out (fold l2tp_do (L2tpInput l2tp_demo_addr (Some (demo_control 9 0 0 demo_sccrp)) #
     replicate 100 (L2tpTimer l2tp_demo_addr) @ [L2tpMakeTunnel l2tp_demo_addr]) (demo_end 3 0 1 0)) = []"
  using l2tp_foreign_reply_stalls [OF demo_dgram(1) [of 9 0 0] demo_dgram(3), of "demo_tunnel 3 0 1 0" "demo_end 3 0 1 0"
      l2tp_demo_addr 100]
  by (simp only: Let_def demo_end_simps) (simp add: demo_tunnel_def new_tunnel_def)



lemma effect_response: "sAuthenResponse (c_proxy (fold avp_effect avs m)) = sAuthenResponse (c_proxy m)"
proof (induction avs arbitrary: m)
  case (Cons x xs)
  have "sAuthenResponse (c_proxy (avp_effect x m)) = sAuthenResponse (c_proxy m)"
    by (cases x; simp only: avp_effect.simps split: if_split; simp)
  with Cons show ?case by (simp del: avp_effect.simps)
qed simp

text \<open>
  A control datagram with a proxy authentication response of more than ten bytes, behind any
  well-formed AVPs, is copied past the end of the array of sixteen.
\<close>

theorem l2tp_proxy_overrun:
  assumes ids: "tid < 65536" "cid < 65536" "ns < 65536" "nr < 65536" and avs: "avps_wf avs"
    and v: "10 < length v" "length v \<le> 1017"
    and m_def: "m = avps_bytes (avs @ [(mandatory, 33, v)])" and len: "12 + length m < 65536"
  shows "control_Decode (add_control_hdr tid cid ns nr m @ rest) (12 + length m) = Inl ProxyOverrun"
proof -
  let ?buf = "add_control_hdr tid cid ns nr m @ rest" and ?n = "length (avps_bytes avs)"
  let ?h = "header_msg tid cid ns nr (12 + length m)"
  have lv: "length (avp_bytes (mandatory, 33, v)) = 6 + length v" by (simp add: add_header_def add_nonmandatory_header_def)
  have m: "m = avps_bytes avs @ avp_bytes (mandatory, 33, v)" by (simp add: m_def)
  have d: "drop 12 ?buf = avps_bytes avs @ avp_bytes (mandatory, 33, v) @ rest" unfolding m by (simp add: add_control_hdr_def)
  have wf: "list_all avp_wf avs" "avs \<noteq> []" "fst (snd (hd avs)) = 0" using avs by (simp_all add: avps_wf_def)
  obtain buf' where "avp_loop ?buf 12 (int (length m)) True ?h =
      avp_loop buf' (12 + ?n) (int (length m) - int ?n) False (fold avp_effect avs ?h)"
      "drop (12 + ?n) buf' = avp_bytes (mandatory, 33, v) @ rest"
    using avps_prefix [OF d wf(1), of "int (length m)" True ?h] wf(2,3) by (auto simp: m)
  moreover have "length (sAuthenResponse (c_proxy (fold avp_effect avs ?h))) = 16"
    by (simp add: effect_response header_msg_def Reset_def zero_proxy_def)
  moreover have "int (6 + length v) \<le> int (length m) - int ?n" using lv unfolding m by simp
  ultimately have "avp_loop ?buf 12 (int (length m)) True ?h = Some (Inl ProxyOverrun)"
    using long_response_loop [OF _ v] by simp
  moreover have "m \<noteq> []" using lv unfolding m by auto
  ultimately show ?thesis
    using control_hdr_fields [OF ids len, of rest] by (simp add: control_Decode_def HandleAVPs_def header_msg_def Let_def)
qed

theorem l2tp_proxy_overrun_witness:
  "control_Decode (add_control_hdr 3 1 0 0 (avps_bytes (demo_icrp @ [(True, 33, replicate 16 0)])) @ [])
     (12 + length (avps_bytes (demo_icrp @ [(True, 33, replicate 16 (0::byte))]))) = Inl ProxyOverrun"
  by (rule l2tp_proxy_overrun [where v = "replicate 16 0" and mandatory = True and avs = demo_icrp])
    (simp_all add: demo_icrp_def avps_wf_def value_handlers_def NULL_handlers_def add_header_def add_nonmandatory_header_def)

text \<open>
  C35. In every state that is reached, every datagram that was sent is a control or a data message of
  version 2 with its own length in its header; a tunnel has sent at most eleven requests and has no
  timer once it is connected; a session is stored under its own call identifier; and all counters are
  within 16 bits.
\<close>

theorem l2tp_invariant:
  assumes "reachable (\<lambda>L. L = new_lac) (\<lambda>L L'. \<exists>e. l2tp_event_ok e \<and> L' = l2tp_do e L) L"
  shows "(\<forall>a b. L2tpSent a b \<in> set (l_out L) \<longrightarrow> net16 b 2 = length b \<and> net16 b 0 \<in> {0xC802, 0x4002} \<and> length b \<le> 4096) \<and>
    (\<forall>a t. m_L2tpServers L a = Some t \<longrightarrow> t_requestcount t \<le> 11 \<and> (m_isconnected t \<longrightarrow> \<not> t_timer t) \<and>
       m_control_seq_num t < 65536 \<and> m_control_rec_seq_num t < 65536 \<and> m_sessionidbase t < 65536 \<and>
       (\<forall>cid s. m_sessions t cid = Some s \<longrightarrow> m_localcid s = cid)) \<and> m_tunnelidbase L < 65536"
  using l2tp.reachable_inv [OF assms] unfolding l2tp_inv_def tunnel_ok_def session_ok_def dgram_ok_def by auto

theorem l2tp_invariant_witness:
  "\<exists>b. l_out (l2tp_do (L2tpMakeTunnel l2tp_demo_addr) new_lac) = [L2tpSent l2tp_demo_addr b] \<and> net16 b 2 = length b"
proof -
  have "reachable (\<lambda>L. L = new_lac) (\<lambda>L L'. \<exists>e. l2tp_event_ok e \<and> L' = l2tp_do e L)
      (l2tp_do (L2tpMakeTunnel l2tp_demo_addr) new_lac)"
    by (rule reachable.intros(2) [OF reachable.intros(1)]) (auto simp: l2tp_event_ok_def intro!: exI [of _ "L2tpMakeTunnel l2tp_demo_addr"])
  from l2tp_invariant [OF this] show ?thesis
    using make_tunnel [of new_lac l2tp_demo_addr] by (simp add: new_lac_ready)
qed

end
