(* ===== verification/Utils_Md5.thy ===== *)
theory Utils_Md5
  imports Bras_Prelude
begin

text \<open>
  The MD5 digest of \<^verbatim>\<open>src/src/Utils/md5.cpp\<close>, which the portal's authenticators use: the context with its
  64 byte input buffer and its bit count in two words, \<^verbatim>\<open>MD5_Init\<close>, \<^verbatim>\<open>MD5_Update\<close> and \<^verbatim>\<open>MD5_Final\<close>. The
  digest of a message handed over in pieces is the one of RFC 1321, which pads the whole message
  first and then works block by block.
\<close>

section \<open>The functions and steps\<close>

definition md5_F :: "u32 \<Rightarrow> u32 \<Rightarrow> u32 \<Rightarrow> u32" where
  "md5_F x y z = (x AND y) OR (NOT x AND z)"

definition md5_G :: "u32 \<Rightarrow> u32 \<Rightarrow> u32 \<Rightarrow> u32" where
  "md5_G x y z = (x AND z) OR (y AND NOT z)"

definition md5_H :: "u32 \<Rightarrow> u32 \<Rightarrow> u32 \<Rightarrow> u32" where
  "md5_H x y z = x XOR y XOR z"

definition md5_I :: "u32 \<Rightarrow> u32 \<Rightarrow> u32 \<Rightarrow> u32" where
  "md5_I x y z = y XOR (x OR NOT z)"

definition ROTATE_LEFT :: "u32 \<Rightarrow> nat \<Rightarrow> u32" where
  "ROTATE_LEFT x n = push_bit n x OR drop_bit (32 - n) x"

type_synonym md5_regs = "u32 \<times> u32 \<times> u32 \<times> u32"

text \<open>The macros \<^verbatim>\<open>FF\<close>, \<^verbatim>\<open>GG\<close>, \<^verbatim>\<open>HH\<close> and \<^verbatim>\<open>II\<close>: they differ in the function only. The call
  after a step on \<^verbatim>\<open>a, b, c, d\<close> is one on \<^verbatim>\<open>d, a, b, c\<close>, so the registers move on by one place.\<close>

definition md5_step :: "(u32 \<Rightarrow> u32 \<Rightarrow> u32 \<Rightarrow> u32) \<Rightarrow> u32 \<Rightarrow> nat \<Rightarrow> u32 \<Rightarrow> md5_regs \<Rightarrow> md5_regs" where
  "md5_step f x s ac = (\<lambda>(a, b, c, d). (d, ROTATE_LEFT (a + (f b c d + x + ac)) s + b, b, c))"

text \<open>The 64 calls of \<^verbatim>\<open>Transform\<close>: the function, the word of the block, the rotation and the constant.\<close>

definition md5_calls :: "((u32 \<Rightarrow> u32 \<Rightarrow> u32 \<Rightarrow> u32) \<times> nat \<times> nat \<times> u32) list" where
  "md5_calls =
  [(md5_F, 0, 7, 3614090360), (md5_F, 1, 12, 3905402710), (md5_F, 2, 17, 606105819), (md5_F, 3, 22, 3250441966),
   (md5_F, 4, 7, 4118548399), (md5_F, 5, 12, 1200080426), (md5_F, 6, 17, 2821735955), (md5_F, 7, 22, 4249261313),
   (md5_F, 8, 7, 1770035416), (md5_F, 9, 12, 2336552879), (md5_F, 10, 17, 4294925233), (md5_F, 11, 22, 2304563134),
   (md5_F, 12, 7, 1804603682), (md5_F, 13, 12, 4254626195), (md5_F, 14, 17, 2792965006), (md5_F, 15, 22, 1236535329),
   (md5_G, 1, 5, 4129170786), (md5_G, 6, 9, 3225465664), (md5_G, 11, 14, 643717713), (md5_G, 0, 20, 3921069994),
   (md5_G, 5, 5, 3593408605), (md5_G, 10, 9, 38016083), (md5_G, 15, 14, 3634488961), (md5_G, 4, 20, 3889429448),
   (md5_G, 9, 5, 568446438), (md5_G, 14, 9, 3275163606), (md5_G, 3, 14, 4107603335), (md5_G, 8, 20, 1163531501),
   (md5_G, 13, 5, 2850285829), (md5_G, 2, 9, 4243563512), (md5_G, 7, 14, 1735328473), (md5_G, 12, 20, 2368359562),
   (md5_H, 5, 4, 4294588738), (md5_H, 8, 11, 2272392833), (md5_H, 11, 16, 1839030562), (md5_H, 14, 23, 4259657740),
   (md5_H, 1, 4, 2763975236), (md5_H, 4, 11, 1272893353), (md5_H, 7, 16, 4139469664), (md5_H, 10, 23, 3200236656),
   (md5_H, 13, 4, 681279174), (md5_H, 0, 11, 3936430074), (md5_H, 3, 16, 3572445317), (md5_H, 6, 23, 76029189),
   (md5_H, 9, 4, 3654602809), (md5_H, 12, 11, 3873151461), (md5_H, 15, 16, 530742520), (md5_H, 2, 23, 3299628645),
   (md5_I, 0, 6, 4096336452), (md5_I, 7, 10, 1126891415), (md5_I, 14, 15, 2878612391), (md5_I, 5, 21, 4237533241),
   (md5_I, 12, 6, 1700485571), (md5_I, 3, 10, 2399980690), (md5_I, 10, 15, 4293915773), (md5_I, 1, 21, 2240044497),
   (md5_I, 8, 6, 1873313359), (md5_I, 15, 10, 4264355552), (md5_I, 6, 15, 2734768916), (md5_I, 13, 21, 1309151649),
   (md5_I, 4, 6, 4149444226), (md5_I, 11, 10, 3174756917), (md5_I, 2, 15, 718787259), (md5_I, 9, 21, 3951481745)]"

definition md5_Transform :: "md5_regs \<Rightarrow> u32 list \<Rightarrow> md5_regs" where
  "md5_Transform buf x =
     (case fold (\<lambda>(f, k, s, ac). md5_step f (x ! k) s ac) md5_calls buf of
        (a, b, c, d) \<Rightarrow> (case buf of (a0, b0, c0, d0) \<Rightarrow> (a0 + a, b0 + b, c0 + c, d0 + d)))"

section \<open>The context\<close>

record MD5_CTX =
  md5_i0 :: u32
  md5_i1 :: u32
  md5_buf :: md5_regs
  md5_in :: "byte list"

text \<open>The input buffer is not initialised by \<^verbatim>\<open>MD5_Init\<close>; its contents are \<open>junk\<close>.\<close>

definition MD5_Init :: "byte list \<Rightarrow> MD5_CTX" where
  "MD5_Init junk = \<lparr>md5_i0 = 0, md5_i1 = 0, md5_buf = (0x67452301, 0xefcdab89, 0x98badcfe, 0x10325476), md5_in = junk\<rparr>"

definition md5_word :: "byte \<Rightarrow> byte \<Rightarrow> byte \<Rightarrow> byte \<Rightarrow> u32" where
  "md5_word b0 b1 b2 b3 = push_bit 24 (ucast b3) OR push_bit 16 (ucast b2) OR push_bit 8 (ucast b1) OR ucast b0"

fun md5_words :: "byte list \<Rightarrow> u32 list" where
  "md5_words (b0 # b1 # b2 # b3 # bs) = md5_word b0 b1 b2 b3 # md5_words bs"
| "md5_words _ = []"

fun md5_feed :: "byte list \<Rightarrow> nat \<Rightarrow> byte list \<Rightarrow> md5_regs \<Rightarrow> byte list \<times> md5_regs" where
  "md5_feed [] mdi inb buf = (inb, buf)"
| "md5_feed (b # bs) mdi inb buf =
     (let inb' = inb[mdi := b]
      in if mdi + 1 = 64 then md5_feed bs 0 inb' (md5_Transform buf (md5_words inb')) else md5_feed bs (mdi + 1) inb' buf)"

definition md5_mdi :: "MD5_CTX \<Rightarrow> nat" where
  "md5_mdi c = unat (drop_bit 3 (md5_i0 c) AND 0x3F)"

definition MD5_Update :: "MD5_CTX \<Rightarrow> byte list \<Rightarrow> MD5_CTX" where
  "MD5_Update c bs =
     (let inLen = of_nat (length bs) :: u32; i0 = md5_i0 c + push_bit 3 inLen;
          i1 = (if i0 < md5_i0 c then md5_i1 c + 1 else md5_i1 c) + drop_bit 29 inLen
      in case md5_feed bs (md5_mdi c) (md5_in c) (md5_buf c) of
           (inb, buf) \<Rightarrow> \<lparr>md5_i0 = i0, md5_i1 = i1, md5_buf = buf, md5_in = inb\<rparr>)"

definition PADDING :: "byte list" where
  "PADDING = 0x80 # replicate 63 0"

definition md5_bytes :: "u32 \<Rightarrow> byte list" where
  "md5_bytes w = [ucast w, ucast (drop_bit 8 w), ucast (drop_bit 16 w), ucast (drop_bit 24 w)]"

definition md5_digest :: "md5_regs \<Rightarrow> byte list" where
  "md5_digest = (\<lambda>(a, b, c, d). md5_bytes a @ md5_bytes b @ md5_bytes c @ md5_bytes d)"

definition MD5_Final :: "MD5_CTX \<Rightarrow> byte list" where
  "MD5_Final c =
     (let mdi = md5_mdi c; padLen = (if mdi < 56 then 56 - mdi else 120 - mdi);
          c' = MD5_Update c (take padLen PADDING)
      in md5_digest (md5_Transform (md5_buf c') (take 14 (md5_words (md5_in c')) @ [md5_i0 c, md5_i1 c])))"

text \<open>The three calls in a row, as the portal makes them.\<close>

definition MD5 :: "byte list \<Rightarrow> byte list \<Rightarrow> byte list" where
  "MD5 junk m = MD5_Final (MD5_Update (MD5_Init junk) m)"

end
