(* ===== verification/Utils_Md5_Spec.thy ===== *)
theory Utils_Md5_Spec
  imports Utils_Md5
begin

text \<open>
  MD5 against RFC 1321: a context stands for the bytes it has been given (\<open>md5_given\<close>), however they
  were split over the calls, and \<^verbatim>\<open>MD5_Final\<close> computes the digest that the RFC defines on the padded
  message. The count of bits is exact modulo \<open>2 ^ 64\<close>, with the carry written out in the code.
\<close>

section \<open>The digest of RFC 1321\<close>

function md5_run :: "md5_regs \<Rightarrow> byte list \<Rightarrow> md5_regs" where
  "md5_run buf m = (if length m < 64 then buf else md5_run (md5_Transform buf (md5_words (take 64 m))) (drop 64 m))"
  by auto
termination
  by (relation "measure (\<lambda>(buf, m). length m)") auto

declare md5_run.simps [simp del]

definition md5_start :: md5_regs where
  "md5_start = (0x67452301, 0xefcdab89, 0x98badcfe, 0x10325476)"

definition md5_count :: "nat \<Rightarrow> byte list" where
  "md5_count n = md5_bytes (of_nat (8 * n)) @ md5_bytes (of_nat (8 * n div 2 ^ 32))"

definition md5_pad :: "byte list \<Rightarrow> byte list" where
  "md5_pad m = m @ 0x80 # replicate ((119 - length m mod 64) mod 64) 0 @ md5_count (length m)"

definition md5_rfc :: "byte list \<Rightarrow> byte list" where
  "md5_rfc m = md5_digest (md5_run md5_start (md5_pad m))"

lemma md5_run_short [simp]: "length m < 64 \<Longrightarrow> md5_run buf m = buf"
  by (simp add: md5_run.simps)

lemma md5_run_block:
  "length x = 64 \<Longrightarrow> md5_run buf (x @ m) = md5_run (md5_Transform buf (md5_words x)) m"
  by (subst md5_run.simps) simp

text \<open>Whole blocks can be taken first, and what is left over has no effect.\<close>

lemma md5_run_append:
  "64 dvd length x \<Longrightarrow> md5_run buf (x @ m) = md5_run (md5_run buf x) m"
proof (induction buf x rule: md5_run.induct)
  case (1 buf x)
  show ?case
  proof (cases "length x < 64")
    case True
    then show ?thesis using 1(2) by (auto dest: dvd_imp_le)
  next
    case False
    then have "64 dvd length (drop 64 x)" using 1(2) by (simp add: dvd_diff_nat)
    then show ?thesis
      using 1(1) [OF False] False by (simp add: md5_run.simps [of buf x] md5_run.simps [of buf "x @ m"])
  qed
qed

section \<open>The bytes a context has been given\<close>

definition md5_given :: "byte list \<Rightarrow> MD5_CTX \<Rightarrow> bool" where
  "md5_given m c \<longleftrightarrow> length (md5_in c) = 64 \<and> md5_buf c = md5_run md5_start m
     \<and> take (length m mod 64) (md5_in c) = drop (length m - length m mod 64) m
     \<and> unat (md5_i0 c) = 8 * length m mod 2 ^ 32 \<and> unat (md5_i1 c) = 8 * length m div 2 ^ 32 mod 2 ^ 32"

lemma md5_given_init: "length junk = 64 \<Longrightarrow> md5_given [] (MD5_Init junk)"
  by (simp add: md5_given_def MD5_Init_def md5_start_def)

lemma md5_mdi_given:
  assumes "md5_given m c"
  shows "md5_mdi c = length m mod 64"
proof -
  have i: "unat (md5_i0 c) = 8 * length m mod 2 ^ 32" using assms by (simp add: md5_given_def)
  have "md5_mdi c = unat (take_bit 6 (drop_bit 3 (md5_i0 c)))"
    by (simp add: md5_mdi_def take_bit_eq_mask mask_eq_exp_minus_1)
  also have "\<dots> = unat (md5_i0 c) div 8 mod 64"
    by (simp add: take_bit_eq_mod drop_bit_eq_div unat_div unat_mod)
  also have "8 * length m mod 2 ^ 32 = 8 * (length m mod 2 ^ 29)" using mod_mult_mult1 [of 8 "length m" "2 ^ 29"] by simp
  then have "unat (md5_i0 c) div 8 mod 64 = length m mod 64" unfolding i by (simp add: mod_mod_cancel)
  finally show ?thesis .
qed

text \<open>The loop of \<^verbatim>\<open>MD5_Update\<close>, with \<open>p\<close> what is in the buffer before it.\<close>

lemma md5_feed_run:
  assumes "length inb = 64" "take (length p) inb = p" "length p < 64"
  shows "\<exists>inb'. md5_feed bs (length p) inb buf = (inb', md5_run buf (p @ bs)) \<and> length inb' = 64
     \<and> take ((length p + length bs) mod 64) inb' = drop (length p + length bs - (length p + length bs) mod 64) (p @ bs)"
  using assms
proof (induction bs arbitrary: p inb buf)
  case Nil
  then show ?case by simp
next
  case (Cons b bs)
  let ?inb = "inb[length p := b]"
  have t: "take (Suc (length p)) ?inb = p @ [b]"
    using Cons.prems by (simp add: take_Suc_conv_app_nth)
  show ?case
  proof (cases "length p + 1 = 64")
    case True
    then have w: "?inb = p @ [b]" using t Cons.prems by simp
    obtain inb' where i: "md5_feed bs 0 ?inb (md5_Transform buf (md5_words ?inb)) =
        (inb', md5_run (md5_Transform buf (md5_words ?inb)) bs)" "length inb' = 64"
        "take (length bs mod 64) inb' = drop (length bs - length bs mod 64) bs"
      using Cons.IH [of ?inb "[]" "md5_Transform buf (md5_words ?inb)"] Cons.prems by auto
    have l: "length p = 63" using True by simp
    have "(64 + length bs) mod 64 = length bs mod 64" by simp
    then show ?thesis
      using i True w Cons.prems md5_run_block [of "p @ [b]" buf bs] by (simp add: Let_def l Suc_diff_le [OF mod_less_eq_dividend])
  next
    case False
    then show ?thesis
      using Cons.IH [of ?inb "p @ [b]" buf] Cons.prems t by (simp add: Let_def)
  qed
qed

lemma div_add_carry:
  fixes a b N :: nat
  assumes "0 < N"
  shows "(a + b) div N = (if (a + b) mod N < a mod N then 1 else 0) + a div N + b div N"
proof -
  let ?x = "a mod N" and ?y = "b mod N"
  have x: "?x < N" "?y < N" using assms by simp_all
  have m: "(a + b) mod N = (?x + ?y) mod N" by (simp add: mod_simps)
  have "(?x + ?y) div N = (if (?x + ?y) mod N < ?x then 1 else 0)"
  proof (cases "?x + ?y < N")
    case False
    then have "?x + ?y - N < N" "?x + ?y - N < ?x" using x by linarith+
    then show ?thesis using False assms by (simp add: le_div_geq le_mod_geq)
  qed simp
  then show ?thesis unfolding m div_add1_eq [of a b] by simp
qed

lemma md5_count_add:
  fixes i0 i1 :: u32
  assumes "n < 2 ^ 32" "unat i0 = L mod 2 ^ 32" "unat i1 = L div 2 ^ 32 mod 2 ^ 32"
  defines "j \<equiv> i0 + push_bit 3 (of_nat n)"
  shows "unat j = (L + 8 * n) mod 2 ^ 32"
    and "unat ((if j < i0 then i1 + 1 else i1) + drop_bit 29 (of_nat n)) = (L + 8 * n) div 2 ^ 32 mod 2 ^ 32"
proof -
  have "push_bit 3 (of_nat n :: u32) = of_nat (8 * n)" by (simp add: push_bit_eq_mult mult.commute)
  then have p: "unat (push_bit 3 (of_nat n :: u32)) = 8 * n mod 2 ^ 32" by (simp only: unat_of_nat) simp
  have d: "unat (drop_bit 29 (of_nat n :: u32)) = 8 * n div 2 ^ 32"
    using assms(1) by (simp add: unat_of_nat drop_bit_eq_div unat_div)
  show j: "unat j = (L + 8 * n) mod 2 ^ 32"
    using assms(2) p by (simp add: j_def unat_word_ariths mod_simps)
  have l: "j < i0 \<longleftrightarrow> (L + 8 * n) mod 2 ^ 32 < L mod 2 ^ 32"
    using j assms(2) by (simp add: word_less_nat_alt)
  have c: "unat ((if j < i0 then i1 + 1 else i1) + drop_bit 29 (of_nat n)) =
      ((if j < i0 then 1 else 0) + L div 2 ^ 32 + 8 * n div 2 ^ 32) mod 2 ^ 32"
    using assms(3) d by (simp add: unat_word_ariths mod_simps)
  have "(L + 8 * n) div 2 ^ 32 = (if j < i0 then 1 else 0) + L div 2 ^ 32 + 8 * n div 2 ^ 32"
    unfolding l by (rule div_add_carry) simp
  then show "unat ((if j < i0 then i1 + 1 else i1) + drop_bit 29 (of_nat n)) = (L + 8 * n) div 2 ^ 32 mod 2 ^ 32"
    using c by simp
qed

lemma md5_given_update:
  assumes "md5_given m c" "length bs < 2 ^ 32"
  shows "md5_given (m @ bs) (MD5_Update c bs)"
proof -
  let ?r = "length m mod 64" and ?k = "length m - length m mod 64"
  let ?p = "drop ?k m"
  have g: "length (md5_in c) = 64" "md5_buf c = md5_run md5_start m" "take ?r (md5_in c) = ?p"
    "unat (md5_i0 c) = 8 * length m mod 2 ^ 32" "unat (md5_i1 c) = 8 * length m div 2 ^ 32 mod 2 ^ 32"
    using assms(1) by (simp_all add: md5_given_def)
  have lp: "length ?p = ?r" by simp
  have dv: "64 dvd length (take ?k m)" by (simp add: min_absorb2 dvd_minus_mod)
  have run: "md5_run md5_start m = md5_run md5_start (take ?k m)"
    using md5_run_append [OF dv, of md5_start ?p] by simp
  have e: "(?r + length bs) mod 64 = length (m @ bs) mod 64" by (simp add: mod_simps)
  have "length (m @ bs) mod 64 \<le> ?r + length bs" unfolding e [symmetric] by (rule mod_less_eq_dividend)
  then have eq: "?r + length bs - (?r + length bs) mod 64 + ?k = length (m @ bs) - length (m @ bs) mod 64"
    unfolding e using mod_less_eq_dividend [of "length m" 64] by simp
  obtain inb where f: "md5_feed bs ?r (md5_in c) (md5_buf c) = (inb, md5_run (md5_buf c) (?p @ bs))" "length inb = 64"
    "take ((?r + length bs) mod 64) inb = drop (?r + length bs - (?r + length bs) mod 64) (?p @ bs)"
    using md5_feed_run [of "md5_in c" ?p bs "md5_buf c"] g(1,3) lp by (metis mod_less_divisor zero_less_numeral)
  have "take ?k m @ ?p @ bs = m @ bs" by (simp flip: append_assoc)
  then have "md5_run (md5_buf c) (?p @ bs) = md5_run md5_start (m @ bs)"
    using md5_run_append [OF dv, of md5_start "?p @ bs"] run g(2) by metis
  moreover have "take (length (m @ bs) mod 64) inb = drop (length (m @ bs) - length (m @ bs) mod 64) (m @ bs)"
  proof -
    have "?p @ bs = drop ?k (m @ bs)" by simp
    then show ?thesis using f(3) unfolding e eq [unfolded e, symmetric] by (simp add: add.commute)
  qed
  ultimately show ?thesis
    using f(1,2) md5_count_add [OF assms(2) g(4,5)] md5_mdi_given [OF assms(1)]
    by (simp add: md5_given_def MD5_Update_def Let_def algebra_simps)
qed

section \<open>The end of a message\<close>

lemma length_md5_bytes [simp]: "length (md5_bytes w) = 4"
  by (simp add: md5_bytes_def)

lemma length_md5_digest [simp]: "length (md5_digest r) = 16"
  by (cases r) (simp add: md5_digest_def)

lemma length_md5_rfc [simp]: "length (md5_rfc m) = 16"
  by (simp add: md5_rfc_def)

lemma md5_word_bytes: "md5_word (ucast w) (ucast (drop_bit 8 w)) (ucast (drop_bit 16 w)) (ucast (drop_bit 24 w)) = w"
proof (rule bit_word_eqI)
  fix n assume "n < LENGTH(32)"
  then show "bit (md5_word (ucast w) (ucast (drop_bit 8 w)) (ucast (drop_bit 16 w)) (ucast (drop_bit 24 w))) n = bit w n"
    by (cases "n < 8"; cases "n < 16"; cases "n < 24") (auto simp: md5_word_def bit_simps)
qed

lemma md5_words_bytes: "md5_words (md5_bytes w @ bs) = w # md5_words bs"
  by (simp add: md5_bytes_def md5_word_bytes)

lemma md5_words_append: "4 dvd length x \<Longrightarrow> md5_words (x @ y) = md5_words x @ md5_words y"
proof (induction x rule: md5_words.induct)
  case (1 b0 b1 b2 b3 bs)
  have "length (b0 # b1 # b2 # b3 # bs) = length bs + 4" by simp
  then have "4 dvd length bs" using 1(2) by presburger
  then show ?case using 1(1) by simp
qed (auto dest!: dvd_imp_le)

lemma length_md5_words: "length (md5_words x) = length x div 4"
  by (induction x rule: md5_words.induct) auto

lemma md5_pad_length:
  fixes r :: nat
  assumes "r < 64" and "n = (if r < 56 then 56 - r else 120 - r)"
  shows "0 < n" "n \<le> 64" "(r + n) mod 64 = 56" "n - 1 = (119 - r) mod 64"
proof -
  have "(119 - r) mod 64 = 55 - r" if "r < 56"
  proof -
    have "119 - r = (55 - r) + 64" using that by simp
    then show ?thesis by (simp only: mod_add_self2) simp
  qed
  then show "0 < n" "n \<le> 64" "(r + n) mod 64 = 56" "n - 1 = (119 - r) mod 64" using assms by auto
qed

lemma u32_eq_of_nat: "unat w = x mod 2 ^ 32 \<Longrightarrow> w = (of_nat x :: u32)"
  by (simp add: word_unat_eq_iff unat_of_nat)

lemma md5_final_rfc:
  assumes "md5_given m c"
  shows "MD5_Final c = md5_rfc m"
proof -
  let ?mdi = "length m mod 64"
  define n where "n = (if ?mdi < 56 then 56 - ?mdi else 120 - ?mdi)"
  define q where "q = take n PADDING"
  let ?c = "MD5_Update c q"
  define M where "M = m @ q"
  have r: "?mdi < 64" by simp
  have n: "0 < n" "n \<le> 64" "(?mdi + n) mod 64 = 56" "n - 1 = (119 - ?mdi) mod 64"
    using md5_pad_length [OF r n_def] by simp_all
  have q: "q = 0x80 # replicate ((119 - ?mdi) mod 64) 0" "length q = n"
    using n by (simp_all add: q_def PADDING_def take_Cons' flip: n(4))
  have g: "md5_given M ?c" unfolding M_def by (rule md5_given_update [OF assms]) (use n q in simp)
  have m56: "length M mod 64 = 56" using n(3) q(2) by (simp add: M_def mod_simps)
  let ?k = "length M - 56"
  have t: "take 56 (md5_in ?c) = drop ?k M" "length (md5_in ?c) = 64" "md5_buf ?c = md5_run md5_start M"
    using g m56 by (simp_all add: md5_given_def)
  have cnt: "md5_i0 c = of_nat (8 * length m)" "md5_i1 c = of_nat (8 * length m div 2 ^ 32)"
    using assms unfolding md5_given_def by (blast intro: u32_eq_of_nat)+
  have w14: "take 14 (md5_words (md5_in ?c)) = md5_words (take 56 (md5_in ?c))"
    using md5_words_append [of "take 56 (md5_in ?c)" "drop 56 (md5_in ?c)"] t(2) by (simp add: length_md5_words)
  have dv: "64 dvd length (take ?k M)" using m56 dvd_minus_mod [of 64 "length M"] by (simp add: min_absorb2)
  have b: "md5_pad m = take ?k M @ (drop ?k M @ md5_count (length m))"
    by (simp add: md5_pad_def q(1) M_def [symmetric] flip: append_assoc) (simp add: M_def q(1))
  have "56 \<le> length M" using m56 mod_less_eq_dividend [of "length M" 64] by simp
  then have "length (drop ?k M) = 56" by simp
  then have "md5_run md5_start (md5_pad m) = md5_Transform (md5_run md5_start (take ?k M))
      (md5_words (drop ?k M @ md5_count (length m)))"
    using md5_run_block [of "drop ?k M @ md5_count (length m)" _ "[]"]
    unfolding b md5_run_append [OF dv] by (simp add: md5_count_def)
  moreover have "md5_words (drop ?k M @ md5_count (length m)) = md5_words (drop ?k M) @ [md5_i0 c, md5_i1 c]"
    using \<open>length (drop ?k M) = 56\<close> md5_words_bytes [of _ "[]"]
    by (simp add: md5_words_append md5_count_def md5_words_bytes cnt)
  moreover have "md5_run md5_start M = md5_run md5_start (take ?k M)"
    using md5_run_append [OF dv, of md5_start "drop ?k M"] \<open>length (drop ?k M) = 56\<close> by simp
  ultimately show ?thesis
    using t w14 by (simp add: MD5_Final_def Let_def md5_mdi_given [OF assms] md5_rfc_def n_def [symmetric] q_def [symmetric])
qed

lemma md5_given_pieces:
  "\<forall>x\<in>set ms. length x < 2 ^ 32 \<Longrightarrow> md5_given m c \<Longrightarrow> md5_given (m @ concat ms) (fold (\<lambda>x c. MD5_Update c x) ms c)"
proof (induction ms arbitrary: m c)
  case (Cons x ms)
  then show ?case using Cons.IH [of "m @ x" "MD5_Update c x"] md5_given_update [of m c x] by simp
qed simp

lemma MD5_rfc: "length junk = 64 \<Longrightarrow> length m < 2 ^ 32 \<Longrightarrow> MD5 junk m = md5_rfc m"
  unfolding MD5_def by (rule md5_final_rfc) (use md5_given_update [OF md5_given_init] in force)

lemma length_MD5 [simp]: "length (MD5 junk m) = 16"
  by (simp add: MD5_def MD5_Final_def Let_def)

section \<open>The digest of a message in pieces\<close>

text \<open>C32. However a message is split over the calls of \<^verbatim>\<open>MD5_Update\<close>, and whatever the buffer of the
  context held before, \<^verbatim>\<open>MD5_Final\<close> returns the digest of RFC 1321 of the whole message: padded to
  a multiple of 64 bytes with its length in bits, then taken block by block.\<close>

theorem md5_pieces:
  assumes "length junk = 64" "\<forall>x\<in>set ms. length x < 2 ^ 32"
  shows "MD5_Final (fold (\<lambda>x c. MD5_Update c x) ms (MD5_Init junk)) = md5_rfc (concat ms)"
  using md5_final_rfc [OF md5_given_pieces [OF assms(2) md5_given_init [OF assms(1)]]] by simp

text \<open>The digest of the three letters that RFC 1321 gives.\<close>

theorem md5_pieces_witness:
  "MD5_Final (fold (\<lambda>x c. MD5_Update c x) [[0x61], [0x62, 0x63]] (MD5_Init (replicate 64 7))) = md5_rfc [0x61, 0x62, 0x63]
   \<and> md5_rfc [0x61, 0x62, 0x63] =
     [0x90, 0x01, 0x50, 0x98, 0x3c, 0xd2, 0x4f, 0xb0, 0xd6, 0x96, 0x3f, 0x7d, 0x28, 0xe1, 0x7f, 0x72]"
proof
  show "MD5_Final (fold (\<lambda>x c. MD5_Update c x) [[0x61], [0x62, 0x63]] (MD5_Init (replicate 64 7))) = md5_rfc [0x61, 0x62, 0x63]"
    using md5_pieces [of "replicate 64 7" "[[0x61], [0x62, 0x63]]"] by simp
  have "MD5 (replicate 64 0) [0x61, 0x62, 0x63] =
     [0x90, 0x01, 0x50, 0x98, 0x3c, 0xd2, 0x4f, 0xb0, 0xd6, 0x96, 0x3f, 0x7d, 0x28, 0xe1, 0x7f, 0x72]"
    by code_simp
  then show "md5_rfc [0x61, 0x62, 0x63] =
     [0x90, 0x01, 0x50, 0x98, 0x3c, 0xd2, 0x4f, 0xb0, 0xd6, 0x96, 0x3f, 0x7d, 0x28, 0xe1, 0x7f, 0x72]"
    using MD5_rfc [of "replicate 64 0" "[0x61, 0x62, 0x63]"] by simp
qed

end
