(* ===== verification/Portal_Packet.thy ===== *)
theory Portal_Packet
  imports Utils_Md5_Spec
begin

text \<open>
  The messages of the portal protocol (\<^verbatim>\<open>src/src/Portal/openportal.h\<close>) and the functions of
  \<^verbatim>\<open>CPortalServerChannel.cpp\<close> that check and complete them. The code lays \<^verbatim>\<open>struct openportal_header\<close> over
  the bytes; here a header is a record, read and written with \<open>header_of\<close> and \<open>header_bytes\<close>. Its 16 and 32
  bit members have the value that \<^verbatim>\<open>ntohs\<close> and \<^verbatim>\<open>ntohl\<close> give, so that a member the code copies is
  copied; a number that the code stores without \<^verbatim>\<open>htons\<close> or \<^verbatim>\<open>htonl\<close> is swapped (\<open>hton16\<close>,
  \<open>hton32\<close>: the host is little-endian). A received message is its bytes followed by what is in the
  memory behind it.
\<close>

abbreviation (input) PORTAL_VERSION_ONE :: u8 where "PORTAL_VERSION_ONE \<equiv> 1"
abbreviation (input) PORTAL_VERSION_TWO :: u8 where "PORTAL_VERSION_TWO \<equiv> 2"
abbreviation (input) PORTAL_CHAP_AUTH :: u8 where "PORTAL_CHAP_AUTH \<equiv> 0"
abbreviation (input) PORTAL_PAP_AUTH :: u8 where "PORTAL_PAP_AUTH \<equiv> 1"
abbreviation (input) PORTAL_REQ_CHALLENGE :: u8 where "PORTAL_REQ_CHALLENGE \<equiv> 1"
abbreviation (input) PORTAL_ACK_CHALLENGE :: u8 where "PORTAL_ACK_CHALLENGE \<equiv> 2"
abbreviation (input) PORTAL_REQ_AUTHEN :: u8 where "PORTAL_REQ_AUTHEN \<equiv> 3"
abbreviation (input) PORTAL_ACK_AUTHEN :: u8 where "PORTAL_ACK_AUTHEN \<equiv> 4"
abbreviation (input) PORTAL_REQ_LOGOUT :: u8 where "PORTAL_REQ_LOGOUT \<equiv> 5"
abbreviation (input) PORTAL_ACK_LOGOUT :: u8 where "PORTAL_ACK_LOGOUT \<equiv> 6"
abbreviation (input) PORTAL_NTF_LOGOUT :: u8 where "PORTAL_NTF_LOGOUT \<equiv> 8"
abbreviation (input) PORTAL_ACK_NTF_LOGOUT :: u8 where "PORTAL_ACK_NTF_LOGOUT \<equiv> 14"
abbreviation (input) PORTAL_AUTH_ACK_OK :: u8 where "PORTAL_AUTH_ACK_OK \<equiv> 0"
abbreviation (input) PORTAL_AUTH_ACK_ONLINE :: u8 where "PORTAL_AUTH_ACK_ONLINE \<equiv> 2"
abbreviation (input) PORTAL_AUTH_ACK_WAITING :: u8 where "PORTAL_AUTH_ACK_WAITING \<equiv> 3"
abbreviation (input) PORTAL_AUTH_ACK_FAIL :: u8 where "PORTAL_AUTH_ACK_FAIL \<equiv> 4"
abbreviation (input) MAX_PORTAL_AUTH_STR_LEN :: nat where "MAX_PORTAL_AUTH_STR_LEN \<equiv> 512"

section \<open>Configuration of a portal server\<close>

text \<open>The members of \<^verbatim>\<open>PortalServerCfg\<close> that are used. \<open>pc_tail\<close> is the memory behind the array
  \<^verbatim>\<open>key\<close>, into which \<^verbatim>\<open>strlen\<close> reads on when the array has no terminator.\<close>

record PortalServerCfg =
  pc_ip_address :: u32
  pc_version :: u8
  pc_server_id :: u8
  pc_port :: u16
  pc_key :: "byte list"
  pc_url :: "byte list"
  pc_tail :: "byte list"

definition cstr :: "byte list \<Rightarrow> byte list" where
  "cstr = takeWhile (\<lambda>b. b \<noteq> 0)"

definition cfg_key :: "PortalServerCfg \<Rightarrow> byte list" where
  "cfg_key c = cstr (pc_key c @ pc_tail c)"

section \<open>Headers\<close>

record openportal_header =
  ph_version :: u8
  ph_code :: u8
  ph_auth_type :: u8
  ph_reserverd :: u8
  ph_serial_no :: u16
  ph_req_id :: u16
  ph_ip_address :: u32
  ph_user_port :: u16
  ph_error_code :: u8
  ph_attr_num :: u8
  ph_authenticator :: "byte list"

definition rd :: "byte list \<Rightarrow> nat \<Rightarrow> byte" where
  "rd mem i = (if i < length mem then mem ! i else 0)"

definition be16 :: "byte list \<Rightarrow> nat \<Rightarrow> u16" where
  "be16 mem i = push_bit 8 (ucast (rd mem i)) OR ucast (rd mem (i + 1))"

definition be32 :: "byte list \<Rightarrow> nat \<Rightarrow> u32" where
  "be32 mem i = push_bit 24 (ucast (rd mem i)) OR push_bit 16 (ucast (rd mem (i + 1)))
     OR push_bit 8 (ucast (rd mem (i + 2))) OR ucast (rd mem (i + 3))"

definition put16 :: "u16 \<Rightarrow> byte list" where
  "put16 w = [ucast (drop_bit 8 w), ucast w]"

definition put32 :: "u32 \<Rightarrow> byte list" where
  "put32 w = [ucast (drop_bit 24 w), ucast (drop_bit 16 w), ucast (drop_bit 8 w), ucast w]"

definition hton16 :: "u16 \<Rightarrow> u16" where
  "hton16 w = be16 (rev (put16 w)) 0"

definition hton32 :: "u32 \<Rightarrow> u32" where
  "hton32 w = be32 (rev (put32 w)) 0"

definition header_of :: "byte list \<Rightarrow> openportal_header" where
  "header_of mem = \<lparr>ph_version = rd mem 0, ph_code = rd mem 1, ph_auth_type = rd mem 2, ph_reserverd = rd mem 3,
     ph_serial_no = be16 mem 4, ph_req_id = be16 mem 6, ph_ip_address = be32 mem 8, ph_user_port = be16 mem 12,
     ph_error_code = rd mem 14, ph_attr_num = rd mem 15, ph_authenticator = map (rd mem) [16..<32]\<rparr>"

definition header_bytes :: "openportal_header \<Rightarrow> byte list" where
  "header_bytes h = [ph_version h, ph_code h, ph_auth_type h, ph_reserverd h] @ put16 (ph_serial_no h) @ put16 (ph_req_id h)
     @ put32 (ph_ip_address h) @ put16 (ph_user_port h) @ [ph_error_code h, ph_attr_num h] @ ph_authenticator h"

text \<open>A header written into the zeroed buffer \<^verbatim>\<open>packet\<close>.\<close>

definition PortalSerializeHeader ::
  "u8 \<Rightarrow> u8 \<Rightarrow> u8 \<Rightarrow> u16 \<Rightarrow> u16 \<Rightarrow> u32 \<Rightarrow> u8 \<Rightarrow> openportal_header" where
  "PortalSerializeHeader code auth_type version_type serial_no req_id sub_ip error_code =
     \<lparr>ph_version = version_type, ph_code = code, ph_auth_type = auth_type, ph_reserverd = 0, ph_serial_no = serial_no,
      ph_req_id = req_id, ph_ip_address = sub_ip, ph_user_port = 0, ph_error_code = error_code, ph_attr_num = 0,
      ph_authenticator = replicate 16 0\<rparr>"

text \<open>The header of a reply as the handlers fill it in, with the number of attributes \<open>n\<close>.\<close>

definition portal_reply :: "openportal_header \<Rightarrow> u8 \<Rightarrow> u8 \<Rightarrow> u8 \<Rightarrow> openportal_header" where
  "portal_reply q code error_code n =
     (PortalSerializeHeader code (ph_auth_type q) (ph_version q) (ph_serial_no q) 0 (ph_ip_address q) error_code)
       \<lparr>ph_attr_num := n\<rparr>"

definition header_size :: "u8 \<Rightarrow> nat" where
  "header_size v = (if v = PORTAL_VERSION_ONE then 16 else if v = PORTAL_VERSION_TWO then 32 else 0)"

section \<open>Attributes\<close>

text \<open>The attributes of a message of \<open>n\<close> bytes: the loop of \<^verbatim>\<open>RcvData\<close>.\<close>

fun attributes_ok :: "nat \<Rightarrow> nat \<Rightarrow> byte list \<Rightarrow> nat \<Rightarrow> bool" where
  "attributes_ok 0 temp_len mem n = True"
| "attributes_ok (Suc k) temp_len mem n =
     (if temp_len = n then False
      else let l = unat (rd mem (temp_len + 1))
           in if temp_len + l > n then False else if l < 2 then False else attributes_ok k (temp_len + l) mem n)"

text \<open>The loop that appends the attributes to \<^verbatim>\<open>auth_str\<close>, in \<^verbatim>\<open>CheckAuthenticator\<close> and
  \<^verbatim>\<open>AddAuthentication\<close>; \<open>None\<close> when they do not fit.\<close>

fun gather :: "nat \<Rightarrow> nat \<Rightarrow> byte list \<Rightarrow> byte list \<Rightarrow> byte list option" where
  "gather 0 temp_len auth_str mem = Some auth_str"
| "gather (Suc k) temp_len auth_str mem =
     (let l = unat (rd mem (temp_len + 1))
      in if length auth_str + l > MAX_PORTAL_AUTH_STR_LEN then None
         else gather k (temp_len + l) (auth_str @ map (rd mem) [temp_len..<temp_len + l]) mem)"

definition with_key :: "PortalServerCfg \<Rightarrow> byte list option \<Rightarrow> byte list option" where
  "with_key c s = (case s of None \<Rightarrow> None | Some auth_str \<Rightarrow>
     if length (cfg_key c) \<noteq> 0
     then if length auth_str + length (cfg_key c) > MAX_PORTAL_AUTH_STR_LEN then None else Some (auth_str @ cfg_key c)
     else Some auth_str)"

text \<open>The context is cleared before use.\<close>

definition portal_md5 :: "byte list \<Rightarrow> byte list" where
  "portal_md5 = MD5 (replicate 64 0)"

definition CheckAuthenticator :: "PortalServerCfg \<Rightarrow> byte list \<Rightarrow> bool" where
  "CheckAuthenticator c mem =
     (if rd mem 0 = PORTAL_VERSION_ONE then True
      else case with_key c (gather (unat (rd mem 15)) 32 (map (rd mem) [0..<16] @ replicate 16 0) mem) of
             None \<Rightarrow> False
           | Some auth_str \<Rightarrow> portal_md5 auth_str = map (rd mem) [16..<32])"

text \<open>The packet is complete but for its authenticator, which is put in place; it is left as it is when the
  string to digest does not fit.\<close>

definition AddAuthentication :: "PortalServerCfg \<Rightarrow> byte list \<Rightarrow> byte list" where
  "AddAuthentication c pkt =
     (case with_key c (gather (unat (rd pkt 15)) 32 (map (rd pkt) [0..<32]) pkt) of
        None \<Rightarrow> pkt
      | Some auth_str \<Rightarrow> take 16 pkt @ portal_md5 auth_str @ drop 32 pkt)"

definition AddAttribute :: "u8 \<Rightarrow> byte list \<Rightarrow> byte list \<Rightarrow> byte list" where
  "AddAttribute tlv_type v pkt = pkt @ [tlv_type, of_nat (length v + 2)] @ v"

end
