(* ===== verification/Portal_Server.thy ===== *)
theory Portal_Server
  imports Portal_Packet
begin

text \<open>
  The portal (\<^verbatim>\<open>src/src/Portal\<close>): the users that have asked to log in (\<^verbatim>\<open>CPortalUserMgr.cpp\<close>), a channel per
  portal server that sends to us (\<^verbatim>\<open>CPortalServerChannel.cpp\<close>), the table of channels
  (\<^verbatim>\<open>CPortalServerManager.cpp\<close>), the configured servers (\<^verbatim>\<open>CPortalConfig.cpp\<close>) and the manager that owns them
  (\<^verbatim>\<open>CPortalManager.cpp\<close>). The whole is the record \<open>portal\<close>; a datagram sent and a request to the
  authentication manager are appended to \<open>p_calls\<close>. The request is the last thing its handler does, so an
  answer that the manager gives at once is an event that follows it. The results of the handlers are
  not used by their callers and left out; a failure to send ends a handler that has nothing left to do.
\<close>

type_synonym inet_addr = "u32 \<times> u16"

section \<open>Users\<close>

record CPortalUser =
  u_userid :: u64
  u_PortalServerAddr :: inet_addr
  u_PortalLocalAddr :: inet_addr
  u_isAuthOk :: bool
  u_packet :: "byte list option"

definition CPortalUser_new :: "u64 \<Rightarrow> CPortalUser" where
  "CPortalUser_new userid = \<lparr>u_userid = userid, u_PortalServerAddr = (0, 0), u_PortalLocalAddr = (0, 0),
     u_isAuthOk = False, u_packet = None\<rparr>"

definition SetAuthInfo :: "byte list \<Rightarrow> CPortalUser \<Rightarrow> CPortalUser" where
  "SetAuthInfo pkt u = (if pkt = [] then u else u\<lparr>u_packet := Some pkt\<rparr>)"

text \<open>The two words are copied one after the other into the eight bytes of the identifier.\<close>

definition portal_GetUserID :: "u32 \<Rightarrow> u32 \<Rightarrow> u64" where
  "portal_GetUserID ipaddr vrf = ucast ipaddr OR push_bit 32 (ucast vrf)"

section \<open>The state\<close>

record CPortalServerChannel =
  ch_local_addr :: inet_addr
  ch_remote_addr :: inet_addr
  ch_reqidbase :: u16
  ch_cfg :: PortalServerCfg

definition CPortalServerChannel_new :: "inet_addr \<Rightarrow> inet_addr \<Rightarrow> PortalServerCfg \<Rightarrow> CPortalServerChannel" where
  "CPortalServerChannel_new local remote cfg = \<lparr>ch_local_addr = local, ch_remote_addr = remote, ch_reqidbase = 0, ch_cfg = cfg\<rparr>"

text \<open>The members of \<^verbatim>\<open>Auth_Request\<close> that the portal sets; \<open>pa_info\<close> is the union \<^verbatim>\<open>auth_info\<close>, in which the
  password of PAP lies over the response (at 0) and the challenge (at 24) of CHAP.\<close>

datatype portal_authtype = AUTH_PAP | AUTH_CHAP

record portal_auth =
  pa_subIp :: u32
  pa_authtype :: portal_authtype
  pa_username :: "byte list"
  pa_info :: "byte list"

datatype portal_call = PortalSent inet_addr "byte list" | PortalAuthRequest portal_auth

record portal =
  p_users :: "u64 \<rightharpoonup> CPortalUser"
  p_PortalServers :: "inet_addr \<times> inet_addr \<rightharpoonup> CPortalServerChannel"
  p_serverlist :: "PortalServerCfg list"
  p_localaddr :: inet_addr
  p_calls :: "portal_call list"

section \<open>User table\<close>

definition portal_FindUser :: "u32 \<Rightarrow> u32 \<Rightarrow> portal \<Rightarrow> CPortalUser option" where
  "portal_FindUser ip vrf P = p_users P (portal_GetUserID ip vrf)"

definition portal_RemoveUser :: "u32 \<Rightarrow> u32 \<Rightarrow> portal \<Rightarrow> portal" where
  "portal_RemoveUser ip vrf P = P\<lparr>p_users := (p_users P)(portal_GetUserID ip vrf := None)\<rparr>"

text \<open>The object that a pointer of the table points to is changed in place.\<close>

definition portal_set_user :: "u64 \<Rightarrow> CPortalUser \<Rightarrow> portal \<Rightarrow> portal" where
  "portal_set_user i u P = P\<lparr>p_users := (p_users P)(i \<mapsto> u)\<rparr>"

definition portal_AddUser :: "CPortalUser \<Rightarrow> portal \<Rightarrow> portal option" where
  "portal_AddUser u P = (case p_users P (u_userid u) of Some _ \<Rightarrow> None | None \<Rightarrow> Some (portal_set_user (u_userid u) u P))"

definition portal_CreateUser :: "u32 \<Rightarrow> u32 \<Rightarrow> portal \<Rightarrow> (CPortalUser \<times> portal) option" where
  "portal_CreateUser ip vrf P =
     (let u = CPortalUser_new (portal_GetUserID ip vrf)
      in case portal_AddUser u P of None \<Rightarrow> None | Some P' \<Rightarrow> Some (u, P'))"

section \<open>Channels\<close>

definition portal_out :: "portal_call \<Rightarrow> portal \<Rightarrow> portal" where
  "portal_out x P = P\<lparr>p_calls := p_calls P @ [x]\<rparr>"

definition channel_SendData :: "CPortalServerChannel \<Rightarrow> byte list \<Rightarrow> portal \<Rightarrow> portal" where
  "channel_SendData ch data = portal_out (PortalSent (ch_remote_addr ch) data)"

definition portal_AddChannel :: "inet_addr \<Rightarrow> inet_addr \<Rightarrow> CPortalServerChannel \<Rightarrow> portal \<Rightarrow> portal" where
  "portal_AddChannel peer local ch P =
     (case p_PortalServers P (local, peer) of
        Some _ \<Rightarrow> P
      | None \<Rightarrow> P\<lparr>p_PortalServers := (p_PortalServers P)((local, peer) \<mapsto> ch)\<rparr>)"

definition portal_FindChannel :: "inet_addr \<Rightarrow> inet_addr \<Rightarrow> portal \<Rightarrow> CPortalServerChannel option" where
  "portal_FindChannel peer local P = p_PortalServers P (local, peer)"

definition portal_RemoveChannel :: "inet_addr \<Rightarrow> inet_addr \<Rightarrow> portal \<Rightarrow> portal" where
  "portal_RemoveChannel peer local P = P\<lparr>p_PortalServers := (p_PortalServers P)((local, peer) := None)\<rparr>"

definition portal_RemoveChannel_of :: "CPortalServerChannel \<Rightarrow> portal \<Rightarrow> portal" where
  "portal_RemoveChannel_of ch = portal_RemoveChannel (ch_remote_addr ch) (ch_local_addr ch)"

text \<open>\<^verbatim>\<open>SetServerCfg\<close> copies from address 0: it never returns. It has no caller.\<close>

definition SetServerCfg :: "PortalServerCfg \<Rightarrow> CPortalServerChannel \<Rightarrow> CPortalServerChannel option" where
  "SetServerCfg cfg ch = None"

text \<open>The answer to an authentication request: the packet of the request is read again for the header.\<close>

definition portal_ack :: "CPortalServerChannel \<Rightarrow> byte list \<Rightarrow> u8 \<Rightarrow> byte list" where
  "portal_ack ch req error_code =
     (let q = header_of req; h = portal_reply q PORTAL_ACK_AUTHEN error_code 0
      in if ph_version q = PORTAL_VERSION_TWO
         then take (header_size (ph_version q))
                (AddAuthentication (ch_cfg ch) (header_bytes (h\<lparr>ph_authenticator := ph_authenticator q\<rparr>)))
         else take (header_size (ph_version q)) (header_bytes h))"

record portal_response =
  pr_user_ip :: u32
  pr_vrf :: u32
  pr_authResult :: u32

definition channel_OnAuthResponse :: "portal_response \<Rightarrow> CPortalServerChannel \<Rightarrow> portal \<Rightarrow> portal" where
  "channel_OnAuthResponse r ch P =
     (case portal_FindUser (pr_user_ip r) (pr_vrf r) P of
        None \<Rightarrow> P
      | Some u \<Rightarrow>
          (case u_packet u of
             None \<Rightarrow> P
           | Some req \<Rightarrow>
               let ok = (pr_authResult r = 0);
                   P1 = portal_set_user (portal_GetUserID (pr_user_ip r) (pr_vrf r)) (u\<lparr>u_isAuthOk := ok\<rparr>) P;
                   P2 = channel_SendData ch (portal_ack ch req (if ok then PORTAL_AUTH_ACK_OK else PORTAL_AUTH_ACK_FAIL)) P1
               in if ok then P2 else portal_RemoveUser (pr_user_ip r) (pr_vrf r) P2))"

text \<open>Random words in the order of the host, then the counter \<open>rdApp\<close> for the bytes left; the number of words is
  one byte.\<close>

definition MakeChallenge :: "(nat \<Rightarrow> u32) \<Rightarrow> nat \<Rightarrow> u8 \<Rightarrow> byte list \<times> u8" where
  "MakeChallenge rand len rdApp =
     (concat (map (\<lambda>i. rev (put32 (rand i))) [0..<len div 4 mod 256]) @ map (\<lambda>j. rdApp + of_nat j) [0..<len mod 4],
      rdApp + of_nat (len mod 4))"

text \<open>The value of the attribute is the 16 bytes at the key of the configuration. The variable
  \<^verbatim>\<open>challenge\<close>, the key again or the random bytes of \<^verbatim>\<open>MakeChallenge\<close>, is not used.\<close>

definition HandleChallengeRequest :: "byte list \<Rightarrow> CPortalServerChannel \<Rightarrow> portal \<Rightarrow> portal" where
  "HandleChallengeRequest mem ch P =
     (if \<not> CheckAuthenticator (ch_cfg ch) mem then P
      else let q = header_of mem; h = portal_reply q PORTAL_ACK_CHALLENGE 0 1;
               body = (\<lambda>h. AddAttribute 3 (take 16 (pc_key (ch_cfg ch))) (take (header_size (ph_version q)) (header_bytes h)))
           in channel_SendData ch
                (if ph_version q = PORTAL_VERSION_TWO
                 then AddAuthentication (ch_cfg ch) (body (h\<lparr>ph_authenticator := ph_authenticator q\<rparr>))
                 else body h) P)"

section \<open>Authentication requests\<close>

definition portal_auth_zero :: portal_auth where
  "portal_auth_zero = \<lparr>pa_subIp = 0, pa_authtype = AUTH_PAP, pa_username = replicate 32 0, pa_info = replicate 100 0\<rparr>"

definition put_field :: "byte list \<Rightarrow> nat \<Rightarrow> nat \<Rightarrow> byte list \<Rightarrow> byte list" where
  "put_field buf pos n v = memcpy_at (memcpy_at buf pos (replicate n 0) n) pos v (length v)"

text \<open>One attribute; \<open>None\<close> is the return of -1 when its value is too long.\<close>

definition read_attribute :: "u8 \<Rightarrow> byte list \<Rightarrow> portal_auth \<Rightarrow> portal_auth option" where
  "read_attribute t v a =
     (if t = 1 then if length v > 31 then None else Some (a\<lparr>pa_username := put_field (pa_username a) 0 32 v\<rparr>)
      else if t = 2 then if length v > 31 then None else Some (a\<lparr>pa_info := put_field (pa_info a) 0 32 v\<rparr>)
      else if t = 3 then if length v > 16 then None else Some (a\<lparr>pa_info := put_field (pa_info a) 24 16 v\<rparr>)
      else if t = 4 then if length v > 20 then None else Some (a\<lparr>pa_info := put_field (pa_info a) 0 20 v\<rparr>)
      else Some a)"

text \<open>The loop over the attributes. The offset \<^verbatim>\<open>sendsize\<close> at which an attribute is read is not advanced
  (\<^verbatim>\<open>length\<close> is, which is not used any more).\<close>

fun read_attributes :: "nat \<Rightarrow> nat \<Rightarrow> byte list \<Rightarrow> portal_auth \<Rightarrow> portal_auth option" where
  "read_attributes 0 sendsize mem a = Some a"
| "read_attributes (Suc k) sendsize mem a =
     (case read_attribute (rd mem sendsize) (map (rd mem) [sendsize + 2..<sendsize + unat (rd mem (sendsize + 1))]) a of
        None \<Rightarrow> None
      | Some a' \<Rightarrow> read_attributes k sendsize mem a')"

definition HandleAuthenRequest :: "byte list \<Rightarrow> nat \<Rightarrow> CPortalServerChannel \<Rightarrow> portal \<Rightarrow> portal" where
  "HandleAuthenRequest mem n ch P =
     (if n = 0 then P
      else if \<not> CheckAuthenticator (ch_cfg ch) mem then P
      else let q = header_of mem; ip = ph_ip_address q
           in case portal_FindUser ip 0 P of
                Some u \<Rightarrow>
                  channel_SendData ch
                    (portal_ack ch mem (if u_isAuthOk u then PORTAL_AUTH_ACK_ONLINE else PORTAL_AUTH_ACK_WAITING)) P
              | None \<Rightarrow>
                  (case portal_CreateUser ip 0 P of
                     None \<Rightarrow> channel_SendData ch (portal_ack ch mem 1) P
                   | Some (u, P1) \<Rightarrow>
                       let P2 = portal_set_user (u_userid u)
                                  ((SetAuthInfo (take n mem) u)\<lparr>u_PortalServerAddr := ch_remote_addr ch,
                                                                u_PortalLocalAddr := ch_local_addr ch\<rparr>) P1;
                           a = portal_auth_zero\<lparr>pa_subIp := ip,
                                 pa_authtype := if ph_auth_type q = PORTAL_CHAP_AUTH then AUTH_CHAP else AUTH_PAP\<rparr>
                       in case read_attributes (unat (ph_attr_num q)) (header_size (ph_version q)) mem a of
                            None \<Rightarrow> P2
                          | Some a' \<Rightarrow> portal_out (PortalAuthRequest a') P2))"

text \<open>The authenticator of the request is not copied into the reply.\<close>

definition HandleLogoutRequest :: "byte list \<Rightarrow> CPortalServerChannel \<Rightarrow> portal \<Rightarrow> portal" where
  "HandleLogoutRequest mem ch P =
     (if \<not> CheckAuthenticator (ch_cfg ch) mem then P
      else let q = header_of mem; pkt = header_bytes (portal_reply q PORTAL_ACK_LOGOUT 0 0);
               P1 = (case portal_FindUser (ph_ip_address q) 0 P of
                       Some _ \<Rightarrow> portal_RemoveUser (ph_ip_address q) 0 P | None \<Rightarrow> P)
           in channel_SendData ch
                (take (header_size (ph_version q)) (if ph_version q = PORTAL_VERSION_TWO then AddAuthentication (ch_cfg ch) pkt else pkt))
                P1)"

text \<open>The handlers of the other codes log and return.\<close>

definition RcvData :: "byte list \<Rightarrow> nat \<Rightarrow> CPortalServerChannel \<Rightarrow> portal \<Rightarrow> portal" where
  "RcvData mem n ch P =
     (let v = rd mem 0
      in if v \<noteq> PORTAL_VERSION_ONE \<and> v \<noteq> PORTAL_VERSION_TWO then P
         else if n < header_size v then P
         else if rd mem 2 \<noteq> PORTAL_CHAP_AUTH \<and> rd mem 2 \<noteq> PORTAL_PAP_AUTH then P
         else if \<not> attributes_ok (unat (rd mem 15)) (header_size v) mem n then P
         else if v \<noteq> pc_version (ch_cfg ch) then P
         else if rd mem 1 = PORTAL_REQ_CHALLENGE then HandleChallengeRequest mem ch P
         else if rd mem 1 = PORTAL_REQ_AUTHEN then HandleAuthenRequest mem n ch P
         else if rd mem 1 = PORTAL_REQ_LOGOUT then HandleLogoutRequest mem ch P
         else P)"

text \<open>The user identifier and the request number are stored in the order of the host, and a header of
  32 bytes is sent for either version.\<close>

definition NotifyLogoutRequest :: "u32 \<Rightarrow> CPortalServerChannel \<Rightarrow> portal \<Rightarrow> portal" where
  "NotifyLogoutRequest userid ch P =
     (let ch' = ch\<lparr>ch_reqidbase := ch_reqidbase ch + 1\<rparr>; v = pc_version (ch_cfg ch);
          pkt = header_bytes (PortalSerializeHeader PORTAL_NTF_LOGOUT PORTAL_CHAP_AUTH v 0 (hton16 (ch_reqidbase ch')) (hton32 userid) 0)
      in channel_SendData ch' (if v = PORTAL_VERSION_TWO then AddAuthentication (ch_cfg ch) pkt else pkt)
           (P\<lparr>p_PortalServers := (p_PortalServers P)((ch_local_addr ch, ch_remote_addr ch) \<mapsto> ch')\<rparr>))"

section \<open>The manager\<close>

definition GetServerCfg :: "u32 \<Rightarrow> PortalServerCfg list \<Rightarrow> PortalServerCfg option" where
  "GetServerCfg serverip = find (\<lambda>c. pc_ip_address c = serverip)"

definition GetRedirectCfg :: "u8 \<Rightarrow> PortalServerCfg list \<Rightarrow> PortalServerCfg option" where
  "GetRedirectCfg serverid = find (\<lambda>c. pc_server_id c = serverid)"

text \<open>A datagram \<open>msg\<close> in the static buffer, with \<open>behind\<close> what the buffer holds after it.\<close>

definition portal_handle_input :: "inet_addr \<Rightarrow> byte list \<Rightarrow> byte list \<Rightarrow> portal \<Rightarrow> portal" where
  "portal_handle_input addrRecv msg behind P =
     (if msg = [] then P
      else case GetServerCfg (fst addrRecv) (p_serverlist P) of
             None \<Rightarrow> P
           | Some cfg \<Rightarrow>
               (case portal_FindChannel addrRecv (p_localaddr P) P of
                  Some ch \<Rightarrow> RcvData (msg @ behind) (length msg) ch P
                | None \<Rightarrow>
                    let ch = CPortalServerChannel_new (p_localaddr P) addrRecv cfg
                    in RcvData (msg @ behind) (length msg) ch (portal_AddChannel addrRecv (p_localaddr P) ch P)))"

definition portal_OnAuthResponse :: "portal_response \<Rightarrow> portal \<Rightarrow> portal" where
  "portal_OnAuthResponse r P =
     (case portal_FindUser (pr_user_ip r) 0 P of
        None \<Rightarrow> P
      | Some u \<Rightarrow>
          (case portal_FindChannel (u_PortalServerAddr u) (u_PortalLocalAddr u) P of
             None \<Rightarrow> P
           | Some ch \<Rightarrow> channel_OnAuthResponse r ch P))"

definition portal_OnKickUserNotify :: "u32 \<Rightarrow> u32 \<Rightarrow> portal \<Rightarrow> portal" where
  "portal_OnKickUserNotify userid vrf P =
     portal_RemoveUser userid vrf
       (case portal_FindUser userid vrf P of
          None \<Rightarrow> P
        | Some u \<Rightarrow>
            (case portal_FindChannel (u_PortalServerAddr u) (u_PortalLocalAddr u) P of
               None \<Rightarrow> P
             | Some ch \<Rightarrow> NotifyLogoutRequest userid ch P))"

text \<open>One server of the configuration file: its address and port, the texts of its URL and key, its version.
  The structure comes from \<^verbatim>\<open>malloc\<close>; \<open>junk\<close> is what its two arrays and the memory behind the key held.\<close>

record portal_entry =
  e_ip :: u32
  e_port :: u16
  e_url :: "byte list option"
  e_key :: "byte list option"
  e_version :: u8

definition cfg_text :: "nat \<Rightarrow> byte list option \<Rightarrow> byte list \<Rightarrow> byte list" where
  "cfg_text n s buf =
     (case s of None \<Rightarrow> buf | Some t \<Rightarrow> memcpy_at buf 0 t (if n + 1 < length t then n else length t))"

definition make_cfg :: "byte list \<times> byte list \<times> byte list \<Rightarrow> nat \<Rightarrow> portal_entry \<Rightarrow> PortalServerCfg" where
  "make_cfg junk i e = (case junk of (jkey, jurl, jtail) \<Rightarrow>
     \<lparr>pc_ip_address = e_ip e, pc_version = e_version e, pc_server_id = of_nat i, pc_port = e_port e,
      pc_key = cfg_text 16 (e_key e) jkey, pc_url = cfg_text 128 (e_url e) jurl, pc_tail = jtail\<rparr>)"

text \<open>At most \<^verbatim>\<open>SERVER_MAX\<close> servers are taken.\<close>

definition CPortalConfig_Init :: "(nat \<Rightarrow> byte list \<times> byte list \<times> byte list) \<Rightarrow> portal_entry list \<Rightarrow> PortalServerCfg list" where
  "CPortalConfig_Init junk es = map (\<lambda>i. make_cfg (junk i) i (es ! i)) [0..<min (length es) 10]"

definition portal_new :: "PortalServerCfg list \<Rightarrow> inet_addr \<Rightarrow> portal" where
  "portal_new cfgs local = \<lparr>p_users = Map.empty, p_PortalServers = Map.empty, p_serverlist = cfgs, p_localaddr = local, p_calls = []\<rparr>"

datatype portal_event =
  PortalInput inet_addr "byte list" "byte list" | PortalAnswer portal_response | PortalKick u32 u32

fun portal_handle :: "portal_event \<Rightarrow> portal \<Rightarrow> portal" where
  "portal_handle (PortalInput a msg behind) P = portal_handle_input a msg behind P"
| "portal_handle (PortalAnswer r) P = portal_OnAuthResponse r P"
| "portal_handle (PortalKick ip vrf) P = portal_OnKickUserNotify ip vrf P"

definition portal_run :: "portal_event list \<Rightarrow> portal \<Rightarrow> portal" where
  "portal_run evs P = fold portal_handle evs P"

end
