(* ===== verification/Portal_Spec.thy ===== *)
theory Portal_Spec
  imports Portal_Server
begin

text \<open>
  The portal as its users see it. Nothing of what the static buffer holds behind a datagram is used
  (\<open>same_upto\<close>). The table of users refines an abstract table that has a status for an address
  (\<open>portal_step\<close>), with the meaning of a datagram (\<open>portal_meaning\<close>) given by its header, its
  attributes and the digest under the key of the server.
\<close>

section \<open>Bytes and headers\<close>

lemma rd_append_less [simp]: "i < length x \<Longrightarrow> rd (x @ y) i = rd x i"
  by (simp add: rd_def nth_append)

lemma rd_append_ge: "length x \<le> i \<Longrightarrow> rd (x @ y) i = rd y (i - length x)"
  by (auto simp: rd_def nth_append)

lemma map_rd_all: "map (rd x) [0..<length x] = x"
  by (rule nth_equalityI) (simp_all add: rd_def)

lemma rd_Cons: "rd (x # xs) n = (if n = 0 then x else rd xs (n - 1))"
  by (cases n) (auto simp: rd_def)

lemma length_put [simp]: "length (put16 a) = 2" "length (put32 b) = 4"
  by (simp_all add: put16_def put32_def)

lemma be16_put16:
  fixes w :: u16
  shows "push_bit 8 (ucast (ucast (drop_bit 8 w) :: byte)) OR ucast (ucast w :: byte) = w"
proof (rule bit_word_eqI)
  fix n assume "n < LENGTH(16)"
  then show "bit (push_bit 8 (ucast (ucast (drop_bit 8 w) :: byte)) OR ucast (ucast w :: byte) :: u16) n = bit w n"
    by (cases "n < 8") (auto simp: bit_simps)
qed

lemma be32_put32:
  "push_bit 24 (ucast (ucast (drop_bit 24 w) :: byte)) OR push_bit 16 (ucast (ucast (drop_bit 16 w) :: byte))
     OR push_bit 8 (ucast (ucast (drop_bit 8 w) :: byte)) OR ucast (ucast w :: byte) = (w :: u32)"
  using md5_word_bytes [of w] by (simp add: md5_word_def)

lemma length_header_bytes [simp]: "length (header_bytes h) = 16 + length (ph_authenticator h)"
  by (simp add: header_bytes_def)

lemma header_of_bytes:
  assumes "length (ph_authenticator h) = 16"
  shows "header_of (header_bytes h @ x) = h"
proof -
  let ?a = "[ph_version h, ph_code h, ph_auth_type h, ph_reserverd h] @ put16 (ph_serial_no h) @ put16 (ph_req_id h)
     @ put32 (ph_ip_address h) @ put16 (ph_user_port h) @ [ph_error_code h, ph_attr_num h]"
  have b: "header_bytes h @ x = ?a @ (ph_authenticator h @ x)" by (simp add: header_bytes_def)
  have "map (rd (header_bytes h @ x)) [16..<32] = map (\<lambda>i. rd (ph_authenticator h @ x) (i - 16)) [16..<32]"
    unfolding b by (rule map_cong [OF refl], subst rd_append_ge) auto
  also have "\<dots> = map (rd (ph_authenticator h @ x)) (map (\<lambda>i. i - 16) [16..<32])" by simp
  also have "map (\<lambda>i. i - 16) [16..<32] = [0..<16::nat]" by (simp add: upt_rec)
  also have "map (rd (ph_authenticator h @ x)) [0..<16] = map (rd (ph_authenticator h)) [0..<16]"
    using assms by (intro map_cong) simp_all
  also have "\<dots> = ph_authenticator h" using map_rd_all [of "ph_authenticator h"] assms by simp
  finally have m: "map (rd (header_bytes h @ x)) [16..<32] = ph_authenticator h" .
  show ?thesis
    unfolding header_of_def m
    by (simp add: header_bytes_def be16_def be32_def put16_def put32_def rd_Cons be16_put16 be32_put32)
qed

section \<open>What is read of a datagram\<close>

definition same_upto :: "nat \<Rightarrow> byte list \<Rightarrow> byte list \<Rightarrow> bool" where
  "same_upto n m m' \<longleftrightarrow> (\<forall>i<n. rd m i = rd m' i)"

lemma same_upto_append: "same_upto (length x) (x @ y) (x @ z)"
  by (simp add: same_upto_def)

lemma same_uptoD: "same_upto n m m' \<Longrightarrow> i < n \<Longrightarrow> rd m i = rd m' i"
  by (simp add: same_upto_def)

lemma map_rd_same: "same_upto n m m' \<Longrightarrow> b \<le> n \<Longrightarrow> map (rd m) [a..<b] = map (rd m') [a..<b]"
  by (auto simp: same_upto_def)

text \<open>When the last byte would be the type of an attribute, the length that is read behind the datagram is
  refused whatever it is.\<close>

lemma attributes_ok_same:
  "same_upto n m m' \<Longrightarrow> off \<le> n \<Longrightarrow> attributes_ok k off m n = attributes_ok k off m' n"
proof (induction k arbitrary: off)
  case (Suc k)
  consider "off = n" | "off + 1 = n" | "off + 1 < n" using Suc.prems(2) by linarith
  then show ?case
  proof cases
    case 2
    then show ?thesis by (auto simp: Let_def)
  next
    case 3
    then have "rd m (off + 1) = rd m' (off + 1)" using Suc.prems(1) by (simp add: same_upto_def)
    then show ?thesis using Suc.IH Suc.prems by (simp add: Let_def)
  qed simp
qed simp

lemma attributes_okD:
  assumes "attributes_ok (Suc k) off m n" "off \<le> n"
  shows "2 \<le> unat (rd m (off + 1))" "off + unat (rd m (off + 1)) \<le> n" "attributes_ok k (off + unat (rd m (off + 1))) m n"
  using assms by (auto simp: Let_def split: if_splits)

lemma gather_same:
  assumes "same_upto n m m'" "attributes_ok k off m n" "off \<le> n"
  shows "gather k off acc m = gather k off acc m'"
  using assms(2,3)
proof (induction k arbitrary: off acc)
  case (Suc k)
  note a = attributes_okD [OF Suc.prems]
  have r: "rd m' (off + 1) = rd m (off + 1)" using same_uptoD [OF assms(1), of "off + 1"] a by simp
  show ?case
    by (simp only: gather.simps Let_def r map_rd_same [OF assms(1) a(2), of off] Suc.IH [OF a(3,2)])
qed simp

lemma read_attributes_same:
  assumes "same_upto n m m'" "attributes_ok k off m n" "off \<le> n"
  shows "read_attributes k off m a = read_attributes k off m' a"
proof (cases k)
  case (Suc j)
  note b = attributes_okD [OF assms(2) [unfolded Suc] assms(3)]
  have e: "rd m' off = rd m off" "rd m' (off + 1) = rd m (off + 1)"
    using same_uptoD [OF assms(1), of off] same_uptoD [OF assms(1), of "off + 1"] b by simp_all
  have "read_attributes i off m c = read_attributes i off m' c" for i c
  proof (induction i arbitrary: c)
    case (Suc i)
    show ?case
      by (simp only: read_attributes.simps e map_rd_same [OF assms(1) b(2), of "off + 2"]) (simp split: option.split add: Suc)
  qed simp
  then show ?thesis .
qed simp

definition valid :: "byte list \<Rightarrow> nat \<Rightarrow> bool" where
  "valid m n \<longleftrightarrow> rd m 0 \<in> {1, 2} \<and> header_size (rd m 0) \<le> n \<and> rd m 2 \<in> {0, 1}
     \<and> attributes_ok (unat (rd m 15)) (header_size (rd m 0)) m n"

lemma header_size_simps [simp]: "header_size 1 = 16" "header_size 2 = 32"
  by (simp_all add: header_size_def)

lemma valid_length: "valid m n \<Longrightarrow> 16 \<le> n"
  by (auto simp: valid_def)

lemma valid_same:
  assumes "same_upto n m m'" "0 < n"
  shows "valid m n = valid m' n"
proof -
  have z: "rd m 0 = rd m' 0" using assms by (simp add: same_upto_def)
  show ?thesis
  proof (cases "rd m' 0 \<in> {1, 2} \<and> header_size (rd m' 0) \<le> n")
    case True
    then have "16 \<le> n" by auto
    then have "rd m 2 = rd m' 2" "rd m 15 = rd m' 15" using assms(1) by (simp_all add: same_upto_def)
    then show ?thesis using attributes_ok_same [OF assms(1)] True z by (auto simp: valid_def)
  qed (auto simp: valid_def z)
qed

lemma CheckAuthenticator_same:
  assumes "same_upto n m m'" "valid m n"
  shows "CheckAuthenticator c m = CheckAuthenticator c m'"
proof -
  have n: "16 \<le> n" by (rule valid_length [OF assms(2)])
  have z: "rd m' 0 = rd m 0" "rd m' 15 = rd m 15" using same_uptoD [OF assms(1)] n by simp_all
  show ?thesis
  proof (cases "rd m 0 = 1")
    case False
    then have v: "rd m 0 = 2" "32 \<le> n" "attributes_ok (unat (rd m 15)) 32 m n" using assms(2) by (auto simp: valid_def)
    show ?thesis
      unfolding CheckAuthenticator_def z
      by (simp only: gather_same [OF assms(1) v(3,2)] map_rd_same [OF assms(1) n] map_rd_same [OF assms(1) v(2)])
  qed (simp add: CheckAuthenticator_def z)
qed

text \<open>The members of the header that a version one message has.\<close>

lemma header_same:
  assumes "same_upto n m m'" "16 \<le> n"
  shows "ph_version (header_of m) = ph_version (header_of m')" "ph_auth_type (header_of m) = ph_auth_type (header_of m')"
    "ph_serial_no (header_of m) = ph_serial_no (header_of m')" "ph_ip_address (header_of m) = ph_ip_address (header_of m')"
    "ph_attr_num (header_of m) = ph_attr_num (header_of m')"
    "32 \<le> n \<Longrightarrow> ph_authenticator (header_of m) = ph_authenticator (header_of m')"
proof -
  have "rd m i = rd m' i" if "i < 16" for i using same_uptoD [OF assms(1), of i] assms(2) that by simp
  then show "ph_version (header_of m) = ph_version (header_of m')" "ph_auth_type (header_of m) = ph_auth_type (header_of m')"
    "ph_serial_no (header_of m) = ph_serial_no (header_of m')" "ph_ip_address (header_of m) = ph_ip_address (header_of m')"
    "ph_attr_num (header_of m) = ph_attr_num (header_of m')"
    by (simp_all add: header_of_def be16_def be32_def)
  show "ph_authenticator (header_of m) = ph_authenticator (header_of m')" if "32 \<le> n"
    using map_rd_same [OF assms(1) that, of 16] by (simp only: header_of_def openportal_header.simps)
qed

lemma portal_reply_same:
  "same_upto n m m' \<Longrightarrow> 16 \<le> n \<Longrightarrow> portal_reply (header_of m) c e k = portal_reply (header_of m') c e k"
  by (simp add: portal_reply_def header_same)

lemma ph_simps [simp]: "ph_version (header_of m) = rd m 0" "ph_code (header_of m) = rd m 1" "ph_attr_num (header_of m) = rd m 15"
  by (simp_all add: header_of_def)

lemma portal_ack_same:
  assumes "same_upto n m m'" "valid m n"
  shows "portal_ack ch m e = portal_ack ch m' e"
proof -
  have n: "16 \<le> n" by (rule valid_length [OF assms(2)])
  have v: "rd m 0 = rd m' 0" using same_uptoD [OF assms(1)] n by simp
  show ?thesis
  proof (cases "rd m 0 = 2")
    case True
    then have "32 \<le> n" using assms(2) by (auto simp: valid_def)
    then show ?thesis
      using v portal_reply_same [OF assms(1) n] header_same(6) [OF assms(1) n] by (simp add: portal_ack_def Let_def)
  qed (use v portal_reply_same [OF assms(1) n] in \<open>simp add: portal_ack_def Let_def\<close>)
qed

lemma handlers_same:
  assumes "same_upto n m m'" "take n m = take n m'" "valid m n"
  shows "HandleChallengeRequest m ch P = HandleChallengeRequest m' ch P"
    and "HandleAuthenRequest m n ch P = HandleAuthenRequest m' n ch P"
    and "HandleLogoutRequest m ch P = HandleLogoutRequest m' ch P"
proof -
  have n: "16 \<le> n" by (rule valid_length [OF assms(3)])
  have v: "rd m' 0 = rd m 0" using same_uptoD [OF assms(1), of 0] n by simp
  have k: "rd m' 15 = rd m 15" using same_uptoD [OF assms(1), of 15] n by simp
  note c = CheckAuthenticator_same [OF assms(1,3)] and h = header_same [OF assms(1) n] and r = portal_reply_same [OF assms(1) n]
  have a: "ph_authenticator (header_of m') = ph_authenticator (header_of m)" if "rd m 0 = 2"
    using that assms(3) h(6) by (auto simp: valid_def)
  show "HandleChallengeRequest m ch P = HandleChallengeRequest m' ch P"
    by (cases "rd m 0 = 2") (simp_all add: HandleChallengeRequest_def Let_def c r v a)
  have o: "attributes_ok (unat (rd m 15)) (header_size (rd m 0)) m n" "header_size (rd m 0) \<le> n"
    using assms(3) by (simp_all add: valid_def)
  show "HandleAuthenRequest m n ch P = HandleAuthenRequest m' n ch P"
    by (simp only: HandleAuthenRequest_def Let_def c h(2,4) ph_simps portal_ack_same [OF assms(1,3)] assms(2) v k
        read_attributes_same [OF assms(1) o])
  show "HandleLogoutRequest m ch P = HandleLogoutRequest m' ch P"
    by (simp only: HandleLogoutRequest_def Let_def c h(4) r v ph_simps)
qed

lemma RcvData_valid:
  "RcvData m n ch P =
     (if valid m n \<and> rd m 0 = pc_version (ch_cfg ch)
      then if rd m 1 = 1 then HandleChallengeRequest m ch P
           else if rd m 1 = 3 then HandleAuthenRequest m n ch P
           else if rd m 1 = 5 then HandleLogoutRequest m ch P else P
      else P)"
  by (auto simp: RcvData_def valid_def Let_def not_less)

lemma RcvData_same:
  assumes "same_upto n m m'" "take n m = take n m'" "0 < n"
  shows "RcvData m n ch P = RcvData m' n ch P"
proof (cases "valid m n")
  case True
  note n = valid_length [OF True]
  have "rd m 0 = rd m' 0" "rd m 1 = rd m' 1" using same_uptoD [OF assms(1)] n by simp_all
  then show ?thesis
    using True valid_same [OF assms(1,3)] by (simp add: RcvData_valid handlers_same [OF assms(1,2) True])
qed (use valid_same [OF assms(1,3)] in \<open>simp add: RcvData_valid\<close>)

lemma RcvData_behind: "msg \<noteq> [] \<Longrightarrow> RcvData (msg @ b) (length msg) ch P = RcvData msg (length msg) ch P"
  by (rule RcvData_same) (use same_upto_append [of msg b "[]"] in simp_all)

lemma portal_input_behind: "portal_handle_input a msg b P = portal_handle_input a msg [] P"
  by (cases "msg = []") (auto simp: portal_handle_input_def RcvData_behind Let_def split: option.split)

section \<open>Identifiers of users\<close>

lemma portal_GetUserID_inject: "portal_GetUserID a v = portal_GetUserID b w \<longleftrightarrow> a = b \<and> v = w"
proof
  assume e: "portal_GetUserID a v = portal_GetUserID b w"
  have "bit a n = bit b n" if "n < 32" for n
    using arg_cong [OF e, of "\<lambda>x. bit x n"] that by (simp add: portal_GetUserID_def bit_simps)
  moreover have "bit v n = bit w n" if "n < 32" for n
    using arg_cong [OF e, of "\<lambda>x. bit x (n + 32)"] that by (simp add: portal_GetUserID_def bit_simps) (auto dest: bit_imp_le_length)
  ultimately show "a = b \<and> v = w" by (auto intro: bit_word_eqI)
qed simp

section \<open>The abstract table\<close>

datatype portal_status = Waiting | Online

datatype portal_op = Login u32 | Logout u32 | Answer u32 bool | NoOp

fun portal_step :: "portal_op \<Rightarrow> (u32 \<rightharpoonup> portal_status) \<Rightarrow> (u32 \<rightharpoonup> portal_status)" where
  "portal_step (Login ip) T = (if T ip = None then T(ip \<mapsto> Waiting) else T)"
| "portal_step (Logout ip) T = T(ip := None)"
| "portal_step (Answer ip ok) T = (if T ip = None then T else if ok then T(ip \<mapsto> Online) else T(ip := None))"
| "portal_step NoOp T = T"

definition portal_abs :: "portal \<Rightarrow> (u32 \<rightharpoonup> portal_status)" where
  "portal_abs P = (\<lambda>ip. map_option (\<lambda>u. if u_isAuthOk u then Online else Waiting) (p_users P (portal_GetUserID ip 0)))"

text \<open>A message that the server with this configuration may send: well-formed, of its version and, in version
  two, with the digest of RFC 1321 over the header with a zero authenticator, the attributes and
  the key, which together have at most 512 bytes.\<close>

fun attributes_end :: "nat \<Rightarrow> nat \<Rightarrow> byte list \<Rightarrow> nat" where
  "attributes_end 0 off m = off"
| "attributes_end (Suc k) off m = attributes_end k (off + unat (rd m (off + 1))) m"

definition genuine :: "PortalServerCfg \<Rightarrow> byte list \<Rightarrow> bool" where
  "genuine cfg msg \<longleftrightarrow> valid msg (length msg) \<and> rd msg 0 = pc_version cfg
     \<and> (rd msg 0 = PORTAL_VERSION_TWO \<longrightarrow>
         (let e = attributes_end (unat (rd msg 15)) 32 msg
          in e + length (cfg_key cfg) \<le> 512
             \<and> map (rd msg) [16..<32] = md5_rfc (map (rd msg) [0..<16] @ replicate 16 0 @ map (rd msg) [32..<e] @ cfg_key cfg)))"

lemma gather_attributes:
  "attributes_ok k off m n \<Longrightarrow> off \<le> n \<Longrightarrow> length acc \<le> 512 \<Longrightarrow> off \<le> attributes_end k off m
     \<and> gather k off acc m = (if length acc + (attributes_end k off m - off) \<le> 512
                             then Some (acc @ map (rd m) [off..<attributes_end k off m]) else None)"
proof (induction k arbitrary: off acc)
  case (Suc k)
  note a = attributes_okD [OF Suc.prems(1,2)]
  let ?l = "unat (rd m (off + 1))"
  let ?e = "attributes_end k (off + ?l) m"
  note i = Suc.IH [OF a(3,2)]
  have le: "off + ?l \<le> ?e" using i [of "[]"] by simp
  have "[off..<off + ?l] @ [off + ?l..<?e] = [off..<?e]"
    using le upt_add_eq_append [of off "off + ?l" "?e - (off + ?l)"] by simp
  then have m: "map (rd m) [off..<off + ?l] @ map (rd m) [off + ?l..<?e] = map (rd m) [off..<?e]"
    by (simp only: map_append [symmetric])
  show ?case
  proof (cases "length acc + ?l \<le> 512")
    case True
    let ?a = "acc @ map (rd m) [off..<off + ?l]"
    have n: "length ?a + (?e - (off + ?l)) = length acc + (?e - off)" using le by simp
    have s: "length ?a \<le> 512" using True by simp
    have "gather (Suc k) off acc m = gather k (off + ?l) ?a m" using True by (simp add: Let_def)
    also have "\<dots> = (if length acc + (?e - off) \<le> 512 then Some (acc @ map (rd m) [off..<?e]) else None)"
      using conjunct2 [OF i [OF s]] unfolding n by (simp only: append_assoc m)
    finally show ?thesis using le by simp
  next
    case False
    then have "\<not> length acc + (?e - off) \<le> 512" using le by linarith
    then show ?thesis using False le by (simp add: Let_def)
  qed
qed simp

lemma genuine_iff: "genuine cfg msg \<longleftrightarrow> valid msg (length msg) \<and> rd msg 0 = pc_version cfg \<and> CheckAuthenticator cfg msg"
proof (cases "valid msg (length msg) \<and> rd msg 0 = 2")
  case True
  let ?e = "attributes_end (unat (rd msg 15)) 32 msg" and ?k = "cfg_key cfg"
  let ?h = "map (rd msg) [0..<16] @ replicate 16 0" and ?b = "map (rd msg) [32..<attributes_end (unat (rd msg 15)) 32 msg]"
  have v: "attributes_ok (unat (rd msg 15)) 32 msg (length msg)" "32 \<le> length msg" using True by (auto simp: valid_def)
  have l: "length ?h = 32" by simp
  have g: "32 \<le> ?e" "gather (unat (rd msg 15)) 32 ?h msg = (if ?e \<le> 512 then Some (?h @ ?b) else None)"
    using gather_attributes [OF v, of ?h] unfolding l by (simp_all, linarith)
  have w: "with_key cfg (gather (unat (rd msg 15)) 32 ?h msg) = (if ?e + length ?k \<le> 512 then Some (?h @ ?b @ ?k) else None)"
    using g l by (auto simp: with_key_def simp del: upt_Suc upt_rec_numeral)
  have "portal_md5 (?h @ ?b @ ?k) = md5_rfc (?h @ ?b @ ?k)" if "?e + length ?k \<le> 512"
    unfolding portal_md5_def by (rule MD5_rfc) (use that l g in \<open>simp_all del: upt_Suc upt_rec_numeral\<close>)
  then have "CheckAuthenticator cfg msg \<longleftrightarrow> ?e + length ?k \<le> 512 \<and> map (rd msg) [16..<32] = md5_rfc (?h @ ?b @ ?k)"
    using True unfolding CheckAuthenticator_def w by (auto simp del: upt_Suc upt_rec_numeral)
  then show ?thesis using True unfolding genuine_def Let_def by (simp only: append_assoc simp_thms)
next
  case False
  then have "rd msg 0 = 1" if "valid msg (length msg)" using that by (auto simp: valid_def)
  then show ?thesis by (auto simp: genuine_def CheckAuthenticator_def)
qed

definition message_op :: "PortalServerCfg \<Rightarrow> byte list \<Rightarrow> portal_op" where
  "message_op cfg msg =
     (if genuine cfg msg
      then if rd msg 1 = PORTAL_REQ_AUTHEN then Login (ph_ip_address (header_of msg))
           else if rd msg 1 = PORTAL_REQ_LOGOUT then Logout (ph_ip_address (header_of msg)) else NoOp
      else NoOp)"

definition portal_meaning :: "PortalServerCfg list \<Rightarrow> inet_addr \<Rightarrow> byte list \<Rightarrow> portal_op" where
  "portal_meaning cfgs a msg = (case GetServerCfg (fst a) cfgs of None \<Rightarrow> NoOp | Some cfg \<Rightarrow> message_op cfg msg)"

fun portal_event_op :: "PortalServerCfg list \<Rightarrow> portal_event \<Rightarrow> portal_op" where
  "portal_event_op cfgs (PortalInput a msg behind) = portal_meaning cfgs a msg"
| "portal_event_op cfgs (PortalAnswer r) = (if pr_vrf r = 0 then Answer (pr_user_ip r) (pr_authResult r = 0) else NoOp)"
| "portal_event_op cfgs (PortalKick ip vrf) = (if vrf = 0 then Logout ip else NoOp)"

section \<open>The invariant\<close>

definition user_ok :: "portal \<Rightarrow> u64 \<Rightarrow> CPortalUser \<Rightarrow> bool" where
  "user_ok P k u \<longleftrightarrow> u_userid u = k \<and>
     (\<exists>ch msg. portal_FindChannel (u_PortalServerAddr u) (u_PortalLocalAddr u) P = Some ch \<and> u_packet u = Some msg
        \<and> genuine (ch_cfg ch) msg \<and> rd msg 1 = PORTAL_REQ_AUTHEN \<and> k = portal_GetUserID (ph_ip_address (header_of msg)) 0)"

definition portal_ok :: "portal \<Rightarrow> bool" where
  "portal_ok P \<longleftrightarrow>
     (\<forall>k ch. p_PortalServers P k = Some ch \<longrightarrow>
        k = (ch_local_addr ch, ch_remote_addr ch) \<and> GetServerCfg (fst (ch_remote_addr ch)) (p_serverlist P) = Some (ch_cfg ch))
     \<and> (\<forall>k u. p_users P k = Some u \<longrightarrow> user_ok P k u)"

lemmas portal_op_defs = portal_out_def channel_SendData_def portal_set_user_def portal_RemoveUser_def portal_FindUser_def
  portal_FindChannel_def portal_AddChannel_def

lemma portal_new_serverlist [simp]: "p_serverlist (portal_new cfgs local) = cfgs"
  by (simp add: portal_new_def)

lemma portal_ok_new: "portal_ok (portal_new cfgs local)"
  by (simp add: portal_ok_def portal_new_def)

lemma portal_okD:
  assumes "portal_ok P"
  shows "p_PortalServers P k = Some ch \<Longrightarrow> k = (ch_local_addr ch, ch_remote_addr ch)"
    and "p_PortalServers P k = Some ch \<Longrightarrow> GetServerCfg (fst (ch_remote_addr ch)) (p_serverlist P) = Some (ch_cfg ch)"
    and "p_users P j = Some u \<Longrightarrow> user_ok P j u"
  using assms unfolding portal_ok_def by blast+

lemma portal_okI:
  assumes "\<And>k ch. p_PortalServers P k = Some ch \<Longrightarrow>
      k = (ch_local_addr ch, ch_remote_addr ch) \<and> GetServerCfg (fst (ch_remote_addr ch)) (p_serverlist P) = Some (ch_cfg ch)"
    and "\<And>k u. p_users P k = Some u \<Longrightarrow> user_ok P k u"
  shows "portal_ok P"
  using assms unfolding portal_ok_def by blast

text \<open>Steps that keep the channels need to be looked at for the users only.\<close>

lemma portal_ok_users:
  assumes "portal_ok P" "p_PortalServers Q = p_PortalServers P" "p_serverlist Q = p_serverlist P"
    and "\<And>k u. p_users Q k = Some u \<Longrightarrow> p_users P k = Some u \<or> user_ok P k u"
  shows "portal_ok Q"
proof -
  have "user_ok Q k u = user_ok P k u" for k u by (simp add: user_ok_def portal_FindChannel_def assms(2))
  then show ?thesis using assms(1,4) unfolding portal_ok_def assms(2,3) by blast
qed

text \<open>The user that a login creates, and the state after it but for the call.\<close>

definition new_user :: "u64 \<Rightarrow> byte list \<Rightarrow> CPortalServerChannel \<Rightarrow> CPortalUser" where
  "new_user k msg ch = \<lparr>u_userid = k, u_PortalServerAddr = ch_remote_addr ch, u_PortalLocalAddr = ch_local_addr ch,
     u_isAuthOk = False, u_packet = Some msg\<rparr>"

definition login_request :: "byte list \<Rightarrow> portal_auth option" where
  "login_request msg = read_attributes (unat (rd msg 15)) (header_size (rd msg 0)) msg
     (portal_auth_zero\<lparr>pa_subIp := ph_ip_address (header_of msg),
        pa_authtype := if ph_auth_type (header_of msg) = 0 then AUTH_CHAP else AUTH_PAP\<rparr>)"

lemma HandleAuthenRequest_new:
  assumes "msg \<noteq> []" "CheckAuthenticator (ch_cfg ch) msg" "p_users P k = None"
    and "k = portal_GetUserID (ph_ip_address (header_of msg)) 0"
  shows "HandleAuthenRequest msg (length msg) ch P =
     (P\<lparr>p_users := (p_users P)(k \<mapsto> new_user k msg ch)\<rparr>)
       \<lparr>p_calls := p_calls P @ (case login_request msg of None \<Rightarrow> [] | Some a \<Rightarrow> [PortalAuthRequest a])\<rparr>"
  using assms
  by (simp add: HandleAuthenRequest_def portal_op_defs portal_CreateUser_def portal_AddUser_def CPortalUser_new_def
      SetAuthInfo_def new_user_def login_request_def Let_def split: option.split)

lemma HandleAuthenRequest_old:
  assumes "msg \<noteq> []" "CheckAuthenticator (ch_cfg ch) msg" "p_users P (portal_GetUserID (ph_ip_address (header_of msg)) 0) = Some u"
  shows "HandleAuthenRequest msg (length msg) ch P =
     channel_SendData ch (portal_ack ch msg (if u_isAuthOk u then 2 else 3)) P"
  using assms by (simp add: HandleAuthenRequest_def portal_op_defs Let_def)

lemma valid_nonempty: "valid msg (length msg) \<Longrightarrow> msg \<noteq> []"
  using valid_length [of msg "length msg"] by auto

lemma portal_abs_upd:
  "portal_abs (P\<lparr>p_users := (p_users P)(portal_GetUserID ip 0 \<mapsto> u)\<rparr>) = (portal_abs P)(ip \<mapsto> if u_isAuthOk u then Online else Waiting)"
  "portal_abs (P\<lparr>p_users := (p_users P)(portal_GetUserID ip 0 := None)\<rparr>) = (portal_abs P)(ip := None)"
  by (auto simp: portal_abs_def portal_GetUserID_inject fun_eq_iff)

lemma portal_abs_cong: "p_users P = p_users Q \<Longrightarrow> portal_abs P = portal_abs Q"
  by (simp add: portal_abs_def)

section \<open>Every event refines the table\<close>

definition refined :: "portal_op \<Rightarrow> portal \<Rightarrow> portal \<Rightarrow> bool" where
  "refined x P Q \<longleftrightarrow> portal_ok Q \<and> p_serverlist Q = p_serverlist P \<and> p_localaddr Q = p_localaddr P
     \<and> portal_abs Q = portal_step x (portal_abs P)"

lemma refined_refl: "portal_ok P \<Longrightarrow> refined NoOp P P"
  by (simp add: refined_def)

text \<open>Sending changes nothing but the calls.\<close>

lemma portal_ok_calls [simp]: "portal_ok (P\<lparr>p_calls := x\<rparr>) = portal_ok P"
  by (simp add: portal_ok_def user_ok_def portal_FindChannel_def)

lemma portal_abs_calls [simp]: "portal_abs (P\<lparr>p_calls := x\<rparr>) = portal_abs P"
  by (simp add: portal_abs_def)

lemma refined_calls [simp]: "refined x P (Q\<lparr>p_calls := y\<rparr>) = refined x P Q"
  by (simp add: refined_def)

lemma refined_out [simp]: "refined x P (portal_out c Q) = refined x P Q" "refined x P (channel_SendData ch d Q) = refined x P Q"
  by (simp_all add: portal_out_def channel_SendData_def)

lemma refined_remove:
  assumes "portal_ok P"
  shows "refined (Logout ip) P (portal_RemoveUser ip 0 P)"
proof -
  have "portal_ok (portal_RemoveUser ip 0 P)"
    by (rule portal_ok_users [OF assms]) (auto simp: portal_RemoveUser_def split: if_splits)
  then show ?thesis by (simp add: refined_def portal_RemoveUser_def portal_abs_upd)
qed

lemma RcvData_refined:
  assumes "portal_ok P" "p_PortalServers P (ch_local_addr ch, ch_remote_addr ch) = Some ch" "msg \<noteq> []"
  shows "refined (message_op (ch_cfg ch) msg) P (RcvData msg (length msg) ch P)"
proof (cases "genuine (ch_cfg ch) msg")
  case True
  then have g: "valid msg (length msg)" "rd msg 0 = pc_version (ch_cfg ch)" "CheckAuthenticator (ch_cfg ch) msg"
    by (simp_all add: genuine_iff)
  let ?ip = "ph_ip_address (header_of msg)"
  let ?k = "portal_GetUserID ?ip 0"
  consider "rd msg 1 = 3" | "rd msg 1 = 5" | "rd msg 1 \<noteq> 3" "rd msg 1 \<noteq> 5" by blast
  then show ?thesis
  proof cases
    case 1
    show ?thesis
    proof (cases "p_users P ?k")
      case None
      let ?Q = "P\<lparr>p_users := (p_users P)(?k \<mapsto> new_user ?k msg ch)\<rparr>"
      have "user_ok P ?k (new_user ?k msg ch)"
        using True 1 assms(2) by (simp add: user_ok_def new_user_def portal_FindChannel_def)
      then have "portal_ok ?Q" by (intro portal_ok_users [OF assms(1)]) (auto split: if_splits)
      moreover have "portal_abs P ?ip = None" using None by (simp add: portal_abs_def)
      ultimately have "refined (Login ?ip) P ?Q" by (simp add: refined_def portal_abs_upd new_user_def)
      then show ?thesis
        using True 1 g HandleAuthenRequest_new [OF assms(3) g(3) None refl] by (simp add: message_op_def RcvData_valid)
    next
      case (Some u)
      then have "refined (Login ?ip) P P" using assms(1) by (auto simp: refined_def portal_abs_def)
      then show ?thesis
        using True 1 g HandleAuthenRequest_old [OF assms(3) g(3) Some] by (simp add: message_op_def RcvData_valid)
    qed
  next
    case 2
    have "portal_RemoveUser ?ip 0 P = P" if "portal_FindUser ?ip 0 P = None"
      using that by (simp add: portal_RemoveUser_def portal_FindUser_def fun_upd_idem)
    then have "refined (Logout ?ip) P (case portal_FindUser ?ip 0 P of Some _ \<Rightarrow> portal_RemoveUser ?ip 0 P | None \<Rightarrow> P)"
      using refined_remove [OF assms(1), of ?ip] by (auto split: option.split)
    then show ?thesis
      using True 2 g by (simp add: message_op_def RcvData_valid HandleLogoutRequest_def Let_def)
  next
    case 3
    then show ?thesis
      using True assms(1) by (simp add: message_op_def RcvData_valid HandleChallengeRequest_def Let_def refined_refl)
  qed
next
  case False
  then show ?thesis
    using assms(1,3) by (auto simp: message_op_def RcvData_valid genuine_iff HandleChallengeRequest_def HandleAuthenRequest_def
        HandleLogoutRequest_def refined_refl)
qed

lemma portal_AddChannel_ok:
  assumes "portal_ok P" "portal_FindChannel a (p_localaddr P) P = None" "GetServerCfg (fst a) (p_serverlist P) = Some cfg"
  defines "Q \<equiv> portal_AddChannel a (p_localaddr P) (CPortalServerChannel_new (p_localaddr P) a cfg) P"
  shows "portal_ok Q" "p_PortalServers Q (p_localaddr P, a) = Some (CPortalServerChannel_new (p_localaddr P) a cfg)"
    "p_serverlist Q = p_serverlist P" "p_localaddr Q = p_localaddr P" "portal_abs Q = portal_abs P"
proof -
  have Q: "Q = P\<lparr>p_PortalServers := (p_PortalServers P)((p_localaddr P, a) \<mapsto> CPortalServerChannel_new (p_localaddr P) a cfg)\<rparr>"
    using assms(2) by (simp add: Q_def portal_AddChannel_def portal_FindChannel_def)
  have u: "user_ok Q k u" if "p_users Q k = Some u" for k u
    using portal_okD(3) [OF assms(1), of k u] that assms(2) unfolding Q by (fastforce simp: user_ok_def portal_FindChannel_def)
  have "k = (ch_local_addr ch, ch_remote_addr ch) \<and> GetServerCfg (fst (ch_remote_addr ch)) (p_serverlist P) = Some (ch_cfg ch)"
    if "p_PortalServers Q k = Some ch" for k ch
    using that portal_okD(1,2) [OF assms(1), of k ch] assms(3) unfolding Q
    by (cases "k = (p_localaddr P, a)") (auto simp: CPortalServerChannel_new_def)
  then show "portal_ok Q" using u unfolding portal_ok_def by (simp add: Q)
  show "p_PortalServers Q (p_localaddr P, a) = Some (CPortalServerChannel_new (p_localaddr P) a cfg)"
    "p_serverlist Q = p_serverlist P" "p_localaddr Q = p_localaddr P" "portal_abs Q = portal_abs P"
    by (simp_all add: Q portal_abs_def)
qed

lemma portal_input_refined:
  assumes "portal_ok P"
  shows "refined (portal_meaning (p_serverlist P) a msg) P (portal_handle_input a msg behind P)"
proof (cases "msg = [] \<or> GetServerCfg (fst a) (p_serverlist P) = None")
  case True
  then show ?thesis
    using assms valid_nonempty [of "[]"]
    by (auto simp: portal_handle_input_def portal_meaning_def message_op_def genuine_iff refined_refl split: option.split)
next
  case False
  then obtain cfg where c: "GetServerCfg (fst a) (p_serverlist P) = Some cfg" and m: "msg \<noteq> []" by auto
  show ?thesis
  proof (cases "portal_FindChannel a (p_localaddr P) P")
    case (Some ch)
    then have t: "p_PortalServers P (p_localaddr P, a) = Some ch" by (simp add: portal_FindChannel_def)
    note k = portal_okD(1,2) [OF assms t]
    then show ?thesis
      using RcvData_refined [OF assms _ m, of ch] t c m Some
      by (auto simp: portal_handle_input_def portal_meaning_def RcvData_behind)
  next
    case None
    let ?ch = "CPortalServerChannel_new (p_localaddr P) a cfg"
    note Q = portal_AddChannel_ok [OF assms None c]
    have "refined (message_op cfg msg) (portal_AddChannel a (p_localaddr P) ?ch P) (RcvData msg (length msg) ?ch (portal_AddChannel a (p_localaddr P) ?ch P))"
      using RcvData_refined [OF Q(1) _ m, of ?ch] Q(2) by (simp add: CPortalServerChannel_new_def)
    then show ?thesis
      using None c m Q(3-5) by (simp add: portal_handle_input_def portal_meaning_def RcvData_behind Let_def refined_def)
  qed
qed

text \<open>No user has a number of a virtual router other than 0, so an answer or a notice for one finds nobody.\<close>

lemma portal_ok_vrf: "portal_ok P \<Longrightarrow> p_users P (portal_GetUserID ip vrf) = Some u \<Longrightarrow> vrf = 0"
  using portal_okD(3) [of P "portal_GetUserID ip vrf" u] by (auto simp: user_ok_def portal_GetUserID_inject)

lemma user_okD:
  assumes "user_ok P k u"
  obtains ch msg where "portal_FindChannel (u_PortalServerAddr u) (u_PortalLocalAddr u) P = Some ch" "u_packet u = Some msg"
    "genuine (ch_cfg ch) msg" "rd msg 1 = PORTAL_REQ_AUTHEN" "k = portal_GetUserID (ph_ip_address (header_of msg)) 0"
  using assms by (auto simp: user_ok_def)

lemma answer_known:
  assumes "portal_ok P" "pr_vrf r = 0" "p_users P k = Some u" "k = portal_GetUserID (pr_user_ip r) 0"
  obtains ch msg where
    "portal_FindChannel (u_PortalServerAddr u) (u_PortalLocalAddr u) P = Some ch" "u_packet u = Some msg"
    "portal_OnAuthResponse r P = (P\<lparr>p_users := (p_users P)(k := if pr_authResult r = 0 then Some (u\<lparr>u_isAuthOk := True\<rparr>) else None)\<rparr>)
       \<lparr>p_calls := p_calls P @ [PortalSent (ch_remote_addr ch) (portal_ack ch msg (if pr_authResult r = 0 then 0 else 4))]\<rparr>"
proof -
  obtain ch msg where c: "portal_FindChannel (u_PortalServerAddr u) (u_PortalLocalAddr u) P = Some ch" "u_packet u = Some msg"
    by (rule user_okD [OF portal_okD(3) [OF assms(1,3)]])
  then have "portal_OnAuthResponse r P = (P\<lparr>p_users := (p_users P)(k := if pr_authResult r = 0 then Some (u\<lparr>u_isAuthOk := True\<rparr>) else None)\<rparr>)
       \<lparr>p_calls := p_calls P @ [PortalSent (ch_remote_addr ch) (portal_ack ch msg (if pr_authResult r = 0 then 0 else 4))]\<rparr>"
    using assms by (simp add: portal_OnAuthResponse_def channel_OnAuthResponse_def portal_op_defs Let_def)
  with c show ?thesis by (rule that)
qed

lemma answer_unknown:
  assumes "portal_ok P" "pr_vrf r \<noteq> 0 \<or> p_users P (portal_GetUserID (pr_user_ip r) 0) = None"
  shows "portal_OnAuthResponse r P = P"
proof -
  have "p_users P (portal_GetUserID (pr_user_ip r) (pr_vrf r)) = None"
    using assms portal_ok_vrf [OF assms(1), of "pr_user_ip r" "pr_vrf r"] by (cases "pr_vrf r = 0") (auto, metis not_None_eq)
  then show ?thesis
    by (auto simp: portal_OnAuthResponse_def channel_OnAuthResponse_def portal_FindUser_def split: option.split)
qed

lemma portal_answer_refined:
  assumes "portal_ok P"
  shows "refined (portal_event_op (p_serverlist P) (PortalAnswer r)) P (portal_OnAuthResponse r P)"
proof (cases "pr_vrf r \<noteq> 0 \<or> p_users P (portal_GetUserID (pr_user_ip r) 0) = None")
  case True
  then show ?thesis
    using assms answer_unknown [OF assms True] by (auto simp: refined_def portal_abs_def)
next
  case False
  define k where "k = portal_GetUserID (pr_user_ip r) 0"
  with False obtain u where u: "p_users P k = Some u" "pr_vrf r = 0" by auto
  obtain ch msg where a: "portal_OnAuthResponse r P = (P\<lparr>p_users := (p_users P)(k := if pr_authResult r = 0 then Some (u\<lparr>u_isAuthOk := True\<rparr>) else None)\<rparr>)
       \<lparr>p_calls := p_calls P @ [PortalSent (ch_remote_addr ch) (portal_ack ch msg (if pr_authResult r = 0 then 0 else 4))]\<rparr>"
    by (rule answer_known [OF assms u(2,1) k_def])
  have "user_ok P k (u\<lparr>u_isAuthOk := True\<rparr>)" using portal_okD(3) [OF assms u(1)] by (simp add: user_ok_def)
  then have "portal_ok (P\<lparr>p_users := (p_users P)(k := if pr_authResult r = 0 then Some (u\<lparr>u_isAuthOk := True\<rparr>) else None)\<rparr>)"
    by (intro portal_ok_users [OF assms]) (auto split: if_splits)
  moreover have "portal_abs P (pr_user_ip r) \<noteq> None" using u by (simp add: portal_abs_def k_def)
  ultimately show ?thesis
    using u(2) by (auto simp: a refined_def k_def portal_abs_upd)
qed

text \<open>A change of a channel's counter is not seen by the invariant.\<close>

lemma NotifyLogoutRequest_ok:
  assumes "portal_ok P" "p_PortalServers P (ch_local_addr ch, ch_remote_addr ch) = Some ch"
  shows "portal_ok (NotifyLogoutRequest ip ch P)" "portal_abs (NotifyLogoutRequest ip ch P) = portal_abs P"
    "p_serverlist (NotifyLogoutRequest ip ch P) = p_serverlist P" "p_localaddr (NotifyLogoutRequest ip ch P) = p_localaddr P"
proof -
  let ?ch = "ch\<lparr>ch_reqidbase := ch_reqidbase ch + 1\<rparr>"
  let ?Q = "P\<lparr>p_PortalServers := (p_PortalServers P)((ch_local_addr ch, ch_remote_addr ch) \<mapsto> ?ch)\<rparr>"
  have u: "user_ok ?Q k u" if k: "p_users P k = Some u" for k u
  proof -
    obtain c msg where "portal_FindChannel (u_PortalServerAddr u) (u_PortalLocalAddr u) P = Some c" "u_packet u = Some msg"
      "genuine (ch_cfg c) msg" "rd msg 1 = 3" "k = portal_GetUserID (ph_ip_address (header_of msg)) 0"
      by (rule user_okD [OF portal_okD(3) [OF assms(1) k]])
    then show ?thesis
      using assms(2) portal_okD(3) [OF assms(1) k] by (auto simp: user_ok_def portal_FindChannel_def)
  qed
  have "k = (ch_local_addr c, ch_remote_addr c) \<and> GetServerCfg (fst (ch_remote_addr c)) (p_serverlist ?Q) = Some (ch_cfg c)"
    if "p_PortalServers ?Q k = Some c" for k c
    using that portal_okD(1,2) [OF assms(1), of k c] portal_okD(2) [OF assms]
    by (cases "k = (ch_local_addr ch, ch_remote_addr ch)") auto
  then have "portal_ok ?Q" by (rule portal_okI) (simp_all add: u)
  then show "portal_ok (NotifyLogoutRequest ip ch P)" "portal_abs (NotifyLogoutRequest ip ch P) = portal_abs P"
    "p_serverlist (NotifyLogoutRequest ip ch P) = p_serverlist P" "p_localaddr (NotifyLogoutRequest ip ch P) = p_localaddr P"
    by (simp_all add: NotifyLogoutRequest_def channel_SendData_def portal_out_def Let_def portal_abs_def)
qed

lemma portal_kick_refined:
  assumes "portal_ok P"
  shows "refined (portal_event_op (p_serverlist P) (PortalKick ip vrf)) P (portal_OnKickUserNotify ip vrf P)"
proof (cases "p_users P (portal_GetUserID ip vrf)")
  case None
  then have "portal_OnKickUserNotify ip vrf P = P"
    by (simp add: portal_OnKickUserNotify_def portal_FindUser_def portal_RemoveUser_def fun_upd_idem)
  then show ?thesis using assms None by (auto simp: refined_def portal_abs_def)
next
  case (Some u)
  have v: "vrf = 0" by (rule portal_ok_vrf [OF assms Some])
  obtain ch where c: "portal_FindChannel (u_PortalServerAddr u) (u_PortalLocalAddr u) P = Some ch"
    by (rule user_okD [OF portal_okD(3) [OF assms Some]])
  let ?Q = "NotifyLogoutRequest ip ch P"
  have t: "p_PortalServers P (u_PortalLocalAddr u, u_PortalServerAddr u) = Some ch" using c by (simp add: portal_FindChannel_def)
  have "p_PortalServers P (ch_local_addr ch, ch_remote_addr ch) = Some ch" using t unfolding portal_okD(1) [OF assms t] .
  note Q = NotifyLogoutRequest_ok [OF assms this, of ip]
  show ?thesis
    using refined_remove [OF Q(1), of ip] Q Some c v
    by (simp add: portal_OnKickUserNotify_def portal_FindUser_def refined_def)
qed

lemma portal_handle_refined:
  "portal_ok P \<Longrightarrow> refined (portal_event_op (p_serverlist P) ev) P (portal_handle ev P)"
  by (cases ev) (simp_all add: portal_input_refined portal_answer_refined portal_kick_refined del: portal_event_op.simps(2,3))

end
