(* ===== verification/Portal_Correct.thy ===== *)
theory Portal_Correct
  imports Portal_Spec
begin

text \<open>
  The properties of the portal: every run refines the abstract table, a user is online only by an accepted
  login, a login is answered to the server it came from, and what is handed to the authentication
  manager and to a server that asks for a challenge.
\<close>

section \<open>Runs\<close>

interpretation portal_inv: invariant_of "\<lambda>P. \<exists>cfgs local. P = portal_new cfgs local" "\<lambda>P Q. \<exists>ev. Q = portal_handle ev P" portal_ok
proof
  show "portal_ok P" if "\<exists>cfgs local. P = portal_new cfgs local" for P using that by (auto simp: portal_ok_new)
  show "portal_ok Q" if "portal_ok P" "\<exists>ev. Q = portal_handle ev P" for P Q
    using that portal_handle_refined by (auto simp: refined_def)
qed

lemma portal_run_refined:
  "portal_ok P \<Longrightarrow> portal_ok (portal_run evs P) \<and> p_serverlist (portal_run evs P) = p_serverlist P
     \<and> portal_abs (portal_run evs P) = fold portal_step (map (portal_event_op (p_serverlist P)) evs) (portal_abs P)"
proof (induction evs arbitrary: P)
  case (Cons ev evs)
  then show ?case
    using portal_handle_refined [OF Cons.prems, of ev] Cons.IH [of "portal_handle ev P"]
    by (simp add: portal_run_def refined_def)
qed (simp add: portal_run_def)

lemma portal_abs_new: "portal_abs (portal_new cfgs local) = Map.empty"
  by (simp add: portal_abs_def portal_new_def)

section \<open>The abstract table\<close>

definition undisturbed :: "u32 \<Rightarrow> portal_op list \<Rightarrow> bool" where
  "undisturbed ip xs \<longleftrightarrow> Logout ip \<notin> set xs \<and> Answer ip False \<notin> set xs"

lemma undisturbed_snoc: "undisturbed ip (xs @ [x]) \<longleftrightarrow> undisturbed ip xs \<and> x \<noteq> Logout ip \<and> x \<noteq> Answer ip False"
  by (auto simp: undisturbed_def)

text \<open>What an entry of the table says about the operations that led to it.\<close>

lemma table_history:
  "(fold portal_step ops Map.empty ip \<noteq> None \<longrightarrow> (\<exists>xs ys. ops = xs @ Login ip # ys \<and> undisturbed ip ys))
   \<and> (fold portal_step ops Map.empty ip = Some Online \<longrightarrow>
        (\<exists>xs ys zs. ops = xs @ Login ip # ys @ Answer ip True # zs \<and> undisturbed ip ys \<and> undisturbed ip zs))"
proof (induction ops rule: rev_induct)
  case (snoc x ops)
  let ?T = "fold portal_step ops Map.empty"
  have keep: "\<exists>xs ys. ops @ [x] = xs @ Login ip # ys \<and> undisturbed ip ys"
    if h: "?T ip \<noteq> None" "x \<noteq> Logout ip" "x \<noteq> Answer ip False"
  proof -
    obtain xs ys where "ops = xs @ Login ip # ys" "undisturbed ip ys" using snoc h(1) by blast
    then show ?thesis using h by (intro exI [of _ xs] exI [of _ "ys @ [x]"]) (simp add: undisturbed_snoc)
  qed
  have online: "\<exists>xs ys zs. ops @ [x] = xs @ Login ip # ys @ Answer ip True # zs \<and> undisturbed ip ys \<and> undisturbed ip zs"
    if h: "?T ip = Some Online" "x \<noteq> Logout ip" "x \<noteq> Answer ip False"
  proof -
    obtain xs ys zs where "ops = xs @ Login ip # ys @ Answer ip True # zs" "undisturbed ip ys" "undisturbed ip zs"
      using snoc h(1) by blast
    then show ?thesis
      using h by (intro exI [of _ xs] exI [of _ ys] exI [of _ "zs @ [x]"]) (simp add: undisturbed_snoc)
  qed
  have e: "undisturbed ip []" by (simp add: undisturbed_def)
  show ?case
  proof (cases x)
    case (Login jp)
    then show ?thesis
      using keep online e by (cases "jp = ip") (auto split: if_splits)
  next
    case (Logout jp)
    then show ?thesis using keep online by (cases "jp = ip") auto
  next
    case (Answer jp ok)
    show ?thesis
    proof (cases "jp = ip \<and> ok \<and> ?T ip \<noteq> None")
      case True
      then obtain xs ys where "ops = xs @ Login ip # ys" "undisturbed ip ys" using snoc by blast
      then have "\<exists>xs ys zs. ops @ [x] = xs @ Login ip # ys @ Answer ip True # zs \<and> undisturbed ip ys \<and> undisturbed ip zs"
        using True Answer e by (intro exI [of _ xs] exI [of _ ys] exI [of _ "[]"]) simp
      then show ?thesis using True Answer keep by simp
    next
      case False
      then show ?thesis using Answer keep online by (cases "jp = ip") (auto split: if_splits)
    qed
  next
    case NoOp
    then show ?thesis using keep online by auto
  qed
qed simp

section \<open>The answer to a login\<close>

text \<open>The answer as the protocol defines it: the header of the request with the code and the result, and in
  version two the digest over it, the authenticator of the request and the key.\<close>

definition answer_header :: "byte list \<Rightarrow> u8 \<Rightarrow> byte list" where
  "answer_header msg e = [rd msg 0, PORTAL_ACK_AUTHEN, rd msg 2, 0] @ map (rd msg) [4..<6] @ [0, 0] @ map (rd msg) [8..<12] @ [0, 0, e, 0]"

definition login_answer :: "PortalServerCfg \<Rightarrow> byte list \<Rightarrow> u8 \<Rightarrow> byte list" where
  "login_answer cfg msg e = answer_header msg e @
     (if rd msg 0 = PORTAL_VERSION_TWO then md5_rfc (answer_header msg e @ map (rd msg) [16..<32] @ cfg_key cfg) else [])"

lemma put_be:
  "put16 (be16 m i) = [rd m i, rd m (i + 1)]" "put32 (be32 m i) = [rd m i, rd m (i + 1), rd m (i + 2), rd m (i + 3)]"
proof -
  have "bit (ucast (drop_bit 8 (be16 m i)) :: byte) n = bit (rd m i) n \<and> bit (ucast (be16 m i) :: byte) n = bit (rd m (i + 1)) n"
    if "n < 8" for n using that by (auto simp: be16_def bit_simps dest: bit_imp_le_length)
  then show "put16 (be16 m i) = [rd m i, rd m (i + 1)]" by (auto simp: put16_def intro: bit_word_eqI)
  have "bit (ucast (drop_bit 24 (be32 m i)) :: byte) n = bit (rd m i) n \<and> bit (ucast (drop_bit 16 (be32 m i)) :: byte) n = bit (rd m (i + 1)) n
      \<and> bit (ucast (drop_bit 8 (be32 m i)) :: byte) n = bit (rd m (i + 2)) n \<and> bit (ucast (be32 m i) :: byte) n = bit (rd m (i + 3)) n"
    if "n < 8" for n using that by (auto simp: be32_def bit_simps dest: bit_imp_le_length)
  then show "put32 (be32 m i) = [rd m i, rd m (i + 1), rd m (i + 2), rd m (i + 3)]" by (auto simp: put32_def intro: bit_word_eqI)
qed

lemma answer_header_bytes:
  "header_bytes ((portal_reply (header_of msg) PORTAL_ACK_AUTHEN e 0)\<lparr>ph_authenticator := x\<rparr>) = answer_header msg e @ x"
  by (simp add: header_bytes_def portal_reply_def PortalSerializeHeader_def header_of_def put_be answer_header_def upt_rec)
    (simp add: put16_def)

lemma length_answer_header [simp]: "length (answer_header msg e) = 16"
  by (simp add: answer_header_def)

lemma portal_ack_answer:
  assumes "valid msg n" "length (cfg_key (ch_cfg ch)) \<le> 480"
  shows "portal_ack ch msg e = login_answer (ch_cfg ch) msg e"
proof (cases "rd msg 0 = 2")
  case True
  let ?p = "answer_header msg e @ map (rd msg) [16..<32]"
  have l: "length ?p = 32" by simp
  have z: "rd ?p 15 = 0" by (simp add: answer_header_def rd_Cons)
  have m: "map (rd ?p) [0..<32] = ?p" using map_rd_all [of ?p] unfolding l .
  have "with_key (ch_cfg ch) (Some ?p) = Some (?p @ cfg_key (ch_cfg ch))"
    unfolding with_key_def using assms(2) l by simp
  then have "AddAuthentication (ch_cfg ch) ?p = answer_header msg e @ portal_md5 (?p @ cfg_key (ch_cfg ch))"
    unfolding AddAuthentication_def z m using l by simp
  moreover have "portal_md5 (?p @ cfg_key (ch_cfg ch)) = md5_rfc (?p @ cfg_key (ch_cfg ch))"
    unfolding portal_md5_def by (rule MD5_rfc) (use assms(2) l in simp_all)
  moreover have "ph_authenticator (header_of msg) = map (rd msg) [16..<32]" by (simp add: header_of_def)
  ultimately show ?thesis
    using True by (simp add: portal_ack_def Let_def answer_header_bytes login_answer_def portal_md5_def)
next
  case False
  then have "rd msg 0 = 1" using assms(1) by (auto simp: valid_def)
  moreover have "header_bytes (portal_reply (header_of msg) PORTAL_ACK_AUTHEN e 0) = answer_header msg e @ replicate 16 0"
    using answer_header_bytes [of "replicate 16 0" msg e] by (simp add: portal_reply_def PortalSerializeHeader_def)
  ultimately show ?thesis
    using False by (simp add: portal_ack_def Let_def login_answer_def)
qed

lemma read_attributes_subIp: "read_attributes k off m a = Some a' \<Longrightarrow> pa_subIp a' = pa_subIp a \<and> pa_authtype a' = pa_authtype a"
proof (induction k arbitrary: a)
  case (Suc k)
  then obtain b where b: "read_attribute (rd m off) (map (rd m) [off + 2..<off + unat (rd m (off + 1))]) a = Some b"
    "read_attributes k off m b = Some a'" by (auto split: option.splits)
  then have "pa_subIp b = pa_subIp a \<and> pa_authtype b = pa_authtype a" by (auto simp: read_attribute_def split: if_splits)
  then show ?case using Suc.IH [OF b(2)] by simp
qed simp

text \<open>A datagram of a configured server is handled by its channel, which is made if there is none.\<close>

lemma input_channel:
  assumes "portal_ok P" "GetServerCfg (fst a) (p_serverlist P) = Some cfg" "msg \<noteq> []"
  obtains ch P' where "portal_handle (PortalInput a msg b) P = RcvData msg (length msg) ch P'" "ch_remote_addr ch = a" "ch_cfg ch = cfg"
    "p_PortalServers P' (ch_local_addr ch, a) = Some ch" "p_users P' = p_users P" "p_calls P' = p_calls P"
proof (cases "portal_FindChannel a (p_localaddr P) P")
  case (Some ch)
  then have t: "p_PortalServers P (p_localaddr P, a) = Some ch" by (simp add: portal_FindChannel_def)
  then have "ch_remote_addr ch = a" "ch_local_addr ch = p_localaddr P" "ch_cfg ch = cfg"
    using portal_okD(1,2) [OF assms(1) t] assms(2) by auto
  then show ?thesis
    using that [of ch P] Some t assms by (simp add: portal_handle_input_def RcvData_behind)
next
  case None
  let ?ch = "CPortalServerChannel_new (p_localaddr P) a cfg"
  let ?Q = "portal_AddChannel a (p_localaddr P) ?ch P"
  have "p_users ?Q = p_users P" "p_calls ?Q = p_calls P" by (simp_all add: portal_AddChannel_def split: option.split)
  then show ?thesis
    using that [of ?ch ?Q] None assms portal_AddChannel_ok(2) [OF assms(1) None assms(2)]
    by (simp add: portal_handle_input_def RcvData_behind Let_def) (simp add: CPortalServerChannel_new_def)
qed

text \<open>A login of an address that is not in the table, from a configured server.\<close>

lemma login_step:
  assumes "portal_ok P" "GetServerCfg (fst a) (p_serverlist P) = Some cfg" "genuine cfg msg" "rd msg 1 = PORTAL_REQ_AUTHEN"
    and "k = portal_GetUserID (ph_ip_address (header_of msg)) 0" "p_users P k = None"
  shows "\<exists>ch. ch_remote_addr ch = a \<and> ch_cfg ch = cfg
      \<and> portal_FindChannel a (ch_local_addr ch) (portal_handle (PortalInput a msg b) P) = Some ch
      \<and> p_users (portal_handle (PortalInput a msg b) P) k = Some (new_user k msg ch)
      \<and> p_calls (portal_handle (PortalInput a msg b) P) =
          p_calls P @ (case login_request msg of None \<Rightarrow> [] | Some q \<Rightarrow> [PortalAuthRequest q])"
proof -
  have g: "valid msg (length msg)" "rd msg 0 = pc_version cfg" "CheckAuthenticator cfg msg" using assms(3) by (simp_all add: genuine_iff)
  note m = valid_nonempty [OF g(1)]
  obtain ch P' where c: "portal_handle (PortalInput a msg b) P = RcvData msg (length msg) ch P'" "ch_remote_addr ch = a" "ch_cfg ch = cfg"
    "p_PortalServers P' (ch_local_addr ch, a) = Some ch" "p_users P' = p_users P" "p_calls P' = p_calls P"
    by (rule input_channel [OF assms(1,2) m])
  then show ?thesis
    using g assms(4,5,6) HandleAuthenRequest_new [OF m _ _ assms(5), of ch P'] unfolding c(1)
    by (intro exI [of _ ch]) (simp add: RcvData_valid portal_FindChannel_def)
qed

section \<open>A login\<close>

text \<open>The number of attributes that are read beyond the first makes no difference to what is read.\<close>

lemma put_field_twice:
  "pos + n \<le> length buf \<Longrightarrow> length v \<le> n \<Longrightarrow> put_field (put_field buf pos n v) pos n v = put_field buf pos n v"
  by (cases n) (auto simp: put_field_def memcpy_at_def min_def drop_take)

definition auth_sizes :: "portal_auth \<Rightarrow> bool" where
  "auth_sizes a \<longleftrightarrow> length (pa_username a) = 32 \<and> length (pa_info a) = 100"

lemma length_put_field: "pos + n \<le> length buf \<Longrightarrow> length v \<le> n \<Longrightarrow> length (put_field buf pos n v) = length buf"
  by (simp add: put_field_def)

lemma read_attribute_twice:
  "auth_sizes a \<Longrightarrow> read_attribute t v a = Some b \<Longrightarrow> auth_sizes b \<and> read_attribute t v b = Some b"
  by (auto simp: read_attribute_def auth_sizes_def put_field_twice length_put_field split: if_splits)

lemma read_attributes_first:
  assumes "auth_sizes a" "read_attribute (rd m off) (map (rd m) [off + 2..<off + unat (rd m (off + 1))]) a = Some b"
  shows "read_attributes (Suc k) off m a = Some b"
  using assms
proof (induction k arbitrary: a)
  case (Suc k)
  then show ?case using Suc.IH [of b] read_attribute_twice [OF Suc.prems] by (subst read_attributes.simps) simp
qed simp

definition first_attribute :: "byte list \<Rightarrow> u8 \<times> byte list" where
  "first_attribute msg = (let off = header_size (rd msg 0)
     in (rd msg off, map (rd msg) [off + 2..<off + unat (rd msg (off + 1))]))"

definition login_blank :: "byte list \<Rightarrow> portal_auth" where
  "login_blank msg = portal_auth_zero\<lparr>pa_subIp := ph_ip_address (header_of msg),
     pa_authtype := if ph_auth_type (header_of msg) = 0 then AUTH_CHAP else AUTH_PAP\<rparr>"

lemma read_attributes_none:
  "read_attribute (rd m off) (map (rd m) [off + 2..<off + unat (rd m (off + 1))]) a = None \<Longrightarrow> read_attributes (Suc k) off m a = None"
  by (subst read_attributes.simps) simp

lemma login_request_first:
  "rd msg 15 \<noteq> 0 \<Longrightarrow> login_request msg = read_attribute (fst (first_attribute msg)) (snd (first_attribute msg)) (login_blank msg)"
proof -
  assume n: "rd msg 15 \<noteq> 0"
  then obtain k where k: "unat (rd msg 15) = Suc k" by (metis not0_implies_Suc unat_eq_zero)
  have z: "auth_sizes (login_blank msg)" by (simp add: auth_sizes_def login_blank_def portal_auth_zero_def)
  show ?thesis
    unfolding login_request_def k login_blank_def [symmetric] first_attribute_def Let_def fst_conv snd_conv
    using read_attributes_first [OF z] read_attributes_none by (metis not_None_eq)
qed

section \<open>Properties\<close>

text \<open>C28. After any sequence of datagrams, answers of the authentication manager and notices of the session
  manager, the users of the portal and their states are those of the abstract table under the meanings
  of the events: a datagram counts only if it comes from a configured server, is well-formed, of that
  server's version and, in version two, has the digest under its key.\<close>

theorem portal_refines:
  "portal_abs (portal_run evs (portal_new cfgs local)) = fold portal_step (map (portal_event_op cfgs) evs) Map.empty"
  using portal_run_refined [OF portal_ok_new [of cfgs local], of evs] by (simp add: portal_abs_new)

text \<open>C31. A datagram is handled the same whatever the static receive buffer held behind it: no byte of an
  earlier datagram is used, although the length of a last attribute of one byte is read there.\<close>

theorem portal_datagram_only:
  "portal_handle (PortalInput a msg behind) P = portal_handle (PortalInput a msg behind') P"
  by (simp add: portal_input_behind [of _ _ behind] portal_input_behind [of _ _ behind'])

text \<open>C29. An address is online only if a genuine login for it was received and accepted by the authentication
  manager after that, and since then it was neither logged out, nor removed, nor refused.\<close>

theorem portal_online_accepted:
  assumes "portal_abs (portal_run evs (portal_new cfgs local)) ip = Some Online"
  shows "\<exists>xs ys zs. map (portal_event_op cfgs) evs = xs @ Login ip # ys @ Answer ip True # zs
           \<and> Logout ip \<notin> set (ys @ zs) \<and> Answer ip False \<notin> set (ys @ zs)"
proof -
  have "fold portal_step (map (portal_event_op cfgs) evs) Map.empty ip = Some Online"
    using assms portal_run_refined [OF portal_ok_new [of cfgs local], of evs] by (simp add: portal_abs_new)
  then obtain xs ys zs where "map (portal_event_op cfgs) evs = xs @ Login ip # ys @ Answer ip True # zs"
    "undisturbed ip ys" "undisturbed ip zs" using table_history by blast
  then show ?thesis by (intro exI [of _ xs] exI [of _ ys] exI [of _ zs]) (auto simp: undisturbed_def)
qed


definition demo_cfg :: PortalServerCfg where
  "demo_cfg = \<lparr>pc_ip_address = 0x64010101, pc_version = 1, pc_server_id = 0, pc_port = 50100,
     pc_key = [0x73, 0x73, 0x73] @ replicate 14 0, pc_url = replicate 129 0, pc_tail = []\<rparr>"

definition demo_login :: "byte list" where
  "demo_login = [1, 3, 1, 0, 0, 7, 0, 0, 100, 1, 1, 9, 0, 0, 0, 2, 1, 5, 0x62, 0x6f, 0x62, 2, 4, 0x70, 0x77]"

abbreviation (input) demo_server :: inet_addr where "demo_server \<equiv> (0x64010101, 50100)"

lemma demo_login_facts:
  "GetServerCfg (fst demo_server) [demo_cfg] = Some demo_cfg" "length (cfg_key demo_cfg) \<le> 480"
  "genuine demo_cfg demo_login" "rd demo_login 1 = PORTAL_REQ_AUTHEN" "ph_ip_address (header_of demo_login) = 0x64010109"
  "login_request demo_login = Some ((login_blank demo_login)\<lparr>pa_username := put_field (replicate 32 0) 0 32 [0x62, 0x6f, 0x62]\<rparr>)"
  unfolding genuine_iff by code_simp+


theorem portal_online_accepted_witness:
  "\<exists>xs ys zs. map (portal_event_op [demo_cfg])
        [PortalInput demo_server demo_login [], PortalAnswer \<lparr>pr_user_ip = 0x64010109, pr_vrf = 0, pr_authResult = 0\<rparr>] =
        xs @ Login 0x64010109 # ys @ Answer 0x64010109 True # zs
      \<and> Logout 0x64010109 \<notin> set (ys @ zs) \<and> Answer 0x64010109 False \<notin> set (ys @ zs)"
proof -
  have "portal_meaning [demo_cfg] demo_server demo_login = Login 0x64010109"
    using demo_login_facts by (simp add: portal_meaning_def message_op_def)
  then have "portal_abs (portal_run [PortalInput demo_server demo_login [],
      PortalAnswer \<lparr>pr_user_ip = 0x64010109, pr_vrf = 0, pr_authResult = 0\<rparr>] (portal_new [demo_cfg] (0x64010102, 2000))) 0x64010109 = Some Online"
    using portal_run_refined [OF portal_ok_new [of "[demo_cfg]" "(0x64010102, 2000)"]] by (simp add: portal_abs_new)
  then show ?thesis by (rule portal_online_accepted)
qed

text \<open>When the user name is the first attribute of a login, the request to the authentication manager
  has neither a password nor a response to a challenge, whatever attributes follow: the offset of the
  loop over the attributes is not advanced, so that the first one is read again each time.\<close>

theorem portal_password_lost:
  assumes "rd msg 15 \<noteq> 0" "fst (first_attribute msg) = 1" "login_request msg = Some q"
  shows "pa_info q = replicate 100 0 \<and> pa_username q = put_field (replicate 32 0) 0 32 (snd (first_attribute msg))"
  using assms(3) unfolding login_request_first [OF assms(1)] assms(2)
  by (auto simp: read_attribute_def login_blank_def portal_auth_zero_def split: if_splits)

theorem portal_password_lost_witness:
  "\<exists>q. login_request demo_login = Some q \<and> pa_info q = replicate 100 0 \<and> rd demo_login 21 = 2"
proof -
  have "rd demo_login 15 \<noteq> 0" "fst (first_attribute demo_login) = 1" "rd demo_login 21 = 2" by code_simp+
  then show ?thesis using portal_password_lost [OF _ _ demo_login_facts(6)] demo_login_facts(6) by auto
qed

text \<open>A user name that does not fit leaves the address in the table, although nothing has been asked of the
  authentication manager: further logins are told to wait.\<close>

theorem portal_long_name_waits:
  assumes "portal_ok P" "GetServerCfg (fst a) (p_serverlist P) = Some cfg" "genuine cfg msg" "rd msg 1 = PORTAL_REQ_AUTHEN"
    and "portal_abs P (ph_ip_address (header_of msg)) = None" "login_request msg = None"
  shows "p_calls (portal_handle (PortalInput a msg b) P) = p_calls P"
    and "portal_abs (portal_handle (PortalInput a msg b) P) (ph_ip_address (header_of msg)) = Some Waiting"
proof -
  have "p_users P (portal_GetUserID (ph_ip_address (header_of msg)) 0) = None" using assms(5) by (simp add: portal_abs_def)
  from login_step [OF assms(1-4) refl this, of b] assms(6)
  show "p_calls (portal_handle (PortalInput a msg b) P) = p_calls P"
    and "portal_abs (portal_handle (PortalInput a msg b) P) (ph_ip_address (header_of msg)) = Some Waiting"
    by (auto simp only: portal_abs_def new_user_def option.simps append_Nil2 CPortalUser.simps if_False)
qed

lemma drop_AddAuthentication: "32 \<le> length pkt \<Longrightarrow> drop 34 (AddAuthentication c pkt) = drop 34 pkt"
  by (simp add: AddAuthentication_def portal_md5_def split: option.split)

text \<open>The challenge that a server gets when it asks for one is the first 16 bytes of the key it shares with
  the access server, in clear; in version one any datagram with the address of a configured server is
  such a question.\<close>

theorem portal_challenge_is_key:
  assumes "P = portal_run evs (portal_new cfgs local)" "GetServerCfg (fst a) cfgs = Some cfg" "length (pc_key cfg) = 17"
    and "genuine cfg msg" "rd msg 1 = PORTAL_REQ_CHALLENGE"
  shows "\<exists>d. p_calls (portal_handle (PortalInput a msg b) P) = p_calls P @ [PortalSent a d]
           \<and> take 16 (drop (header_size (rd msg 0) + 2) d) = take 16 (pc_key cfg)"
proof -
  have P: "portal_ok P" "p_serverlist P = cfgs" using portal_run_refined [OF portal_ok_new [of cfgs local], of evs] assms(1) by simp_all
  have g: "valid msg (length msg)" "rd msg 0 = pc_version cfg" "CheckAuthenticator cfg msg" using assms(4) by (simp_all add: genuine_iff)
  obtain ch P' where c: "portal_handle (PortalInput a msg b) P = RcvData msg (length msg) ch P'" "ch_remote_addr ch = a" "ch_cfg ch = cfg"
    "p_calls P' = p_calls P"
    by (rule input_channel [OF P(1) assms(2) [folded P(2)] valid_nonempty [OF g(1)]])
  have l: "length (ph_authenticator (header_of msg)) = 16" by (simp add: header_of_def)
  show ?thesis
  proof (cases "rd msg 0 = 2")
    case True
    then show ?thesis
      using c g assms(3,5) l
      by (simp add: RcvData_valid HandleChallengeRequest_def channel_SendData_def portal_out_def Let_def
          drop_AddAuthentication AddAttribute_def)
  next
    case False
    then have "rd msg 0 = 1" using g(1) by (auto simp: valid_def)
    then show ?thesis
      using c g assms(3,5)
      by (simp add: RcvData_valid HandleChallengeRequest_def channel_SendData_def portal_out_def Let_def AddAttribute_def
          portal_reply_def PortalSerializeHeader_def)
  qed
qed

definition demo_question :: "byte list" where
  "demo_question = [1, 1, 0, 0, 0, 7, 0, 0, 100, 1, 1, 9, 0, 0, 0, 0]"

theorem portal_challenge_is_key_witness:
  "\<exists>d. p_calls (portal_handle (PortalInput demo_server demo_question []) (portal_run [] (portal_new [demo_cfg] (0x64010102, 2000)))) =
        [PortalSent demo_server d] \<and> take 16 (drop 18 d) = [0x73, 0x73, 0x73] @ replicate 13 0"
proof -
  have "genuine demo_cfg demo_question" "rd demo_question 1 = PORTAL_REQ_CHALLENGE" "length (pc_key demo_cfg) = 17"
    "header_size (rd demo_question 0) + 2 = 18" "take 16 (pc_key demo_cfg) = [0x73, 0x73, 0x73] @ replicate 13 0"
    "p_calls (portal_run [] (portal_new [demo_cfg] (0x64010102, 2000))) = []"
    unfolding genuine_iff by code_simp+
  then show ?thesis
    using portal_challenge_is_key [OF refl demo_login_facts(1),
        where msg = demo_question and evs = "[]" and local = "(0x64010102, 2000)" and b = "[]"]
    by (simp only: append_Nil)
qed

end
