(* ===== verification/Portal_Connector.thy ===== *)
theory Portal_Connector
  imports Portal_Correct
begin

text \<open>
  The supervision of the portal servers: a connector per configured server (\<^verbatim>\<open>CPortalConnector.cpp\<close>) that sends
  a notice from a timer and looks for its acknowledgement, and the list of connectors
  (\<^verbatim>\<open>CPortalClient.cpp\<close>). The constructor leaves the members of the supervision uninitialised; they are
  arguments of \<open>CPortalConnector_new\<close>. Whether the calls on the socket succeed is the argument \<open>ok\<close> of
  \<open>portal_StartConnect\<close>.
\<close>

record CPortalConnector =
  cn_handler :: bool
  cn_peeraddr :: inet_addr
  cn_isDetectedEnable :: bool
  cn_isDead :: bool
  cn_detectcount :: int
  cn_last_detect_req_id :: u16
  cn_cfg :: PortalServerCfg
  cn_timer :: bool
  cn_sent :: "byte list list"

definition CPortalConnector_new :: "bool \<Rightarrow> bool \<Rightarrow> int \<Rightarrow> u16 \<Rightarrow> PortalServerCfg \<Rightarrow> CPortalConnector" where
  "CPortalConnector_new enable dead count req_id cfg = \<lparr>cn_handler = False, cn_peeraddr = (0, 0), cn_isDetectedEnable = enable,
     cn_isDead = dead, cn_detectcount = count, cn_last_detect_req_id = req_id, cn_cfg = cfg, cn_timer = False, cn_sent = []\<rparr>"

definition portal_StartConnect :: "bool \<Rightarrow> inet_addr \<Rightarrow> CPortalConnector \<Rightarrow> bool \<times> CPortalConnector" where
  "portal_StartConnect ok peeraddr c = (ok, c\<lparr>cn_peeraddr := peeraddr, cn_handler := ok\<rparr>)"

definition portal_StopConnect :: "CPortalConnector \<Rightarrow> CPortalConnector" where
  "portal_StopConnect c = c\<lparr>cn_handler := False\<rparr>"

definition StartDetect :: "int \<Rightarrow> CPortalConnector \<Rightarrow> CPortalConnector" where
  "StartDetect second c = (if second > 0 then c\<lparr>cn_timer := True, cn_isDetectedEnable := True\<rparr> else c)"

definition StopDetect :: "CPortalConnector \<Rightarrow> CPortalConnector" where
  "StopDetect c = c\<lparr>cn_timer := False, cn_isDetectedEnable := False\<rparr>"

definition IsChannelAlive :: "CPortalConnector \<Rightarrow> bool" where
  "IsChannelAlive c = (\<not> cn_isDead c)"

text \<open>The request number is stored in the order of the host.\<close>

definition SendDetect :: "CPortalConnector \<Rightarrow> CPortalConnector" where
  "SendDetect c =
     (let i = cn_last_detect_req_id c + 1; v = pc_version (cn_cfg c);
          pkt = header_bytes (PortalSerializeHeader PORTAL_NTF_LOGOUT PORTAL_CHAP_AUTH v 0 (hton16 i) 0 0)
      in c\<lparr>cn_last_detect_req_id := i,
           cn_sent := cn_sent c @ [if v = PORTAL_VERSION_TWO then AddAuthentication (cn_cfg c) pkt else pkt]\<rparr>)"

definition connector_timeout :: "CPortalConnector \<Rightarrow> CPortalConnector" where
  "connector_timeout c =
     (let c1 = (if cn_detectcount c > 5 then c\<lparr>cn_isDead := False\<rparr> else c); c2 = SendDetect c1
      in c2\<lparr>cn_detectcount := cn_detectcount c2 + 1\<rparr>)"

text \<open>The checks are those of \<^verbatim>\<open>RcvData\<close> up to the code; the authenticator is not looked at.\<close>

definition connector_input :: "byte list \<Rightarrow> byte list \<Rightarrow> CPortalConnector \<Rightarrow> CPortalConnector" where
  "connector_input msg behind c =
     (let mem = msg @ behind; n = length msg; v = rd mem 0
      in if n = 0 then c
         else if v \<noteq> PORTAL_VERSION_ONE \<and> v \<noteq> PORTAL_VERSION_TWO then c
         else if n < header_size v then c
         else if rd mem 2 \<noteq> PORTAL_CHAP_AUTH \<and> rd mem 2 \<noteq> PORTAL_PAP_AUTH then c
         else if \<not> attributes_ok (unat (rd mem 15)) (header_size v) mem n then c
         else if v \<noteq> pc_version (cn_cfg c) then c
         else if rd mem 1 \<noteq> PORTAL_ACK_NTF_LOGOUT then c
         else if cn_last_detect_req_id c = ph_req_id (header_of mem) then c\<lparr>cn_isDead := False, cn_detectcount := 0\<rparr>
         else c)"

section \<open>The list of connectors\<close>

definition CreateConnector :: "bool \<Rightarrow> CPortalConnector \<Rightarrow> CPortalConnector list \<Rightarrow> bool \<times> CPortalConnector list" where
  "CreateConnector ok c cs =
     (let r = portal_StartConnect ok (pc_ip_address (cn_cfg c), pc_port (cn_cfg c)) c in (fst r, cs @ [snd r]))"

fun destroy_first :: "(CPortalConnector \<Rightarrow> bool) \<Rightarrow> CPortalConnector list \<Rightarrow> CPortalConnector list" where
  "destroy_first p [] = []"
| "destroy_first p (c # cs) = (if p c then cs else c # destroy_first p cs)"

definition DestroyConnector_id :: "u8 \<Rightarrow> CPortalConnector list \<Rightarrow> CPortalConnector list" where
  "DestroyConnector_id serverid = destroy_first (\<lambda>c. pc_server_id (cn_cfg c) = serverid)"

definition DestroyConnector_addr :: "u32 \<Rightarrow> u16 \<Rightarrow> CPortalConnector list \<Rightarrow> CPortalConnector list" where
  "DestroyConnector_addr peerip peerport =
     destroy_first (\<lambda>c. pc_ip_address (cn_cfg c) = peerip \<and> pc_port (cn_cfg c) = peerport)"

fun FindActiveServer :: "CPortalConnector list \<Rightarrow> CPortalConnector option" where
  "FindActiveServer [] = None"
| "FindActiveServer (c # cs) = (if IsChannelAlive c then Some c else FindActiveServer cs)"

section \<open>Supervision\<close>

datatype connector_event = DetectTimer | DetectInput "byte list" "byte list" | DetectStart int | DetectStop

text \<open>The timer fires only while it is set.\<close>

fun connector_handle :: "connector_event \<Rightarrow> CPortalConnector \<Rightarrow> CPortalConnector" where
  "connector_handle DetectTimer c = (if cn_timer c then connector_timeout c else c)"
| "connector_handle (DetectInput msg behind) c = connector_input msg behind c"
| "connector_handle (DetectStart second) c = StartDetect second c"
| "connector_handle DetectStop c = StopDetect c"

lemma connector_keeps_alive: "IsChannelAlive c \<Longrightarrow> IsChannelAlive (connector_handle ev c)"
  by (cases ev) (auto simp: IsChannelAlive_def connector_timeout_def SendDetect_def connector_input_def StartDetect_def StopDetect_def Let_def)

lemma connector_timeout_simps [simp]:
  "cn_timer (connector_timeout c) = cn_timer c" "cn_detectcount (connector_timeout c) = cn_detectcount c + 1"
  "cn_isDead (connector_timeout c) = (cn_isDead c \<and> cn_detectcount c \<le> 5)" "cn_cfg (connector_timeout c) = cn_cfg c"
  "cn_last_detect_req_id (connector_timeout c) = cn_last_detect_req_id c + 1"
  by (auto simp: connector_timeout_def SendDetect_def Let_def)

lemma connector_timers:
  "cn_timer c \<Longrightarrow> cn_detectcount (fold connector_handle (replicate n DetectTimer) c) = cn_detectcount c + int n
     \<and> cn_timer (fold connector_handle (replicate n DetectTimer) c)"
  by (induction n arbitrary: c) auto

text \<open>Once a server is taken for alive it stays so, and a server that never answers is taken for alive too: after
  the seventh timeout, when its count has passed 5.\<close>

theorem portal_silent_server_alive:
  assumes "cn_timer c" "0 \<le> cn_detectcount c"
  shows "IsChannelAlive (fold connector_handle (replicate 7 DetectTimer @ evs) c)"
proof -
  have keep: "IsChannelAlive c \<Longrightarrow> IsChannelAlive (fold connector_handle evs c)" for c
    by (induction evs arbitrary: c) (simp_all add: connector_keeps_alive)
  have "replicate 7 DetectTimer = replicate 6 DetectTimer @ [DetectTimer]" by (simp add: eval_nat_numeral)
  then have "IsChannelAlive (fold connector_handle (replicate 7 DetectTimer) c)"
    using connector_timers [OF assms(1), of 6] assms(2) by (simp add: IsChannelAlive_def)
  then show ?thesis using keep by simp
qed

text \<open>An acknowledgement that has the request number of the last notice as it was sent counts only if the
  number reads the same in both byte orders.\<close>

definition acknowledgement :: "CPortalConnector \<Rightarrow> openportal_header \<Rightarrow> bool" where
  "acknowledgement c h \<longleftrightarrow> ph_version h = pc_version (cn_cfg c) \<and> ph_version h \<in> {1, 2} \<and> ph_code h = PORTAL_ACK_NTF_LOGOUT
     \<and> ph_auth_type h = 0 \<and> ph_attr_num h = 0 \<and> length (ph_authenticator h) = 16"

theorem portal_detect_byte_order:
  assumes "acknowledgement c h" "ph_req_id h = hton16 (cn_last_detect_req_id c)" "cn_isDead c"
  shows "IsChannelAlive (connector_input (header_bytes h) behind c) \<longleftrightarrow> hton16 (cn_last_detect_req_id c) = cn_last_detect_req_id c"
proof -
  let ?m = "header_bytes h @ behind"
  have h: "header_of ?m = h" using header_of_bytes assms(1) by (simp add: acknowledgement_def)
  have r: "rd ?m 0 = ph_version h" "rd ?m 1 = ph_code h" "rd ?m 2 = ph_auth_type h" "rd ?m 15 = ph_attr_num h"
    using arg_cong [OF h, of ph_version] arg_cong [OF h, of ph_code] arg_cong [OF h, of ph_auth_type] arg_cong [OF h, of ph_attr_num]
    by (simp_all add: header_of_def)
  show ?thesis
    unfolding connector_input_def Let_def r h using assms by (auto simp: acknowledgement_def IsChannelAlive_def)
qed

end
