(* ===== verification/Portal_Transport.thy ===== *)
theory Portal_Transport
  imports Portal_Server
begin

text \<open>
  The web redirection: the buffered TCP connection (\<^verbatim>\<open>CTCPTransport.cpp\<close>) and the channel that answers every
  request of a host that has not logged in with the address of the portal
  (\<^verbatim>\<open>CPortalFakeServer.cpp\<close>). A chain of message blocks is the list of their contents, empty for a null
  pointer. The results of \<^verbatim>\<open>writev\<close> are given in order by a function; what it has taken is
  appended to \<open>t_written\<close>.
\<close>

section \<open>The connection\<close>

text \<open>\<^verbatim>\<open>writev\<close> takes at most what it is given; a result of 0 is an error for the code.\<close>

datatype write_result = WouldBlock | WriteError | Written nat

record CTCPTransport =
  t_sndbuf :: "byte list list"
  t_rcvbuf :: "byte list list"
  t_results :: "nat \<Rightarrow> write_result"
  t_count :: nat
  t_written :: "byte list"

abbreviation (input) ACE_IOV_MAX :: nat where "ACE_IOV_MAX \<equiv> 1024"

definition FillIov :: "byte list list \<Rightarrow> byte list list" where
  "FillIov = take ACE_IOV_MAX"

text \<open>The blocks that are used up are released, and the rest of the next one is kept.\<close>

fun consume :: "nat \<Rightarrow> byte list list \<Rightarrow> byte list list" where
  "consume totalsize [] = []"
| "consume totalsize (b # bs) = (if length b \<le> totalsize then consume (totalsize - length b) bs else drop totalsize b # bs)"

definition SendBuffedMsg :: "CTCPTransport \<Rightarrow> CTCPTransport" where
  "SendBuffedMsg t =
     (if t_sndbuf t = [] then t
      else let iov = concat (FillIov (t_sndbuf t)); t1 = t\<lparr>t_count := t_count t + 1\<rparr>
           in case t_results t (t_count t) of
                WouldBlock \<Rightarrow> t1
              | WriteError \<Rightarrow> t1
              | Written n \<Rightarrow>
                  let k = min n (length iov)
                  in if k = 0 then t1
                     else t1\<lparr>t_written := t_written t @ take k iov, t_sndbuf := consume k (t_sndbuf t)\<rparr>)"

definition tcp_SendMessage :: "byte list \<Rightarrow> CTCPTransport \<Rightarrow> CTCPTransport" where
  "tcp_SendMessage data t = SendBuffedMsg (t\<lparr>t_sndbuf := t_sndbuf t @ [data]\<rparr>)"

text \<open>The loop that hands the buffered data to \<^verbatim>\<open>OnHandleMessage\<close>, which is virtual: \<open>h\<close> gives how many bytes
  it has used and the state after it. The loop need not end; not returning is \<open>None\<close>.\<close>

partial_function (option) recv_loop ::
  "('s \<Rightarrow> byte list list \<Rightarrow> nat \<times> 's) \<Rightarrow> byte list list \<Rightarrow> 's \<Rightarrow> (byte list list \<times> 's) option" where
  "recv_loop h buf s =
     (if buf = [] then Some ([], s)
      else case h s buf of (totalsize, s') \<Rightarrow> if totalsize = 0 then Some (buf, s') else recv_loop h (consume totalsize buf) s')"

section \<open>The redirection\<close>

definition text_bytes :: "string \<Rightarrow> byte list" where
  "text_bytes s = map (\<lambda>c. of_nat (of_char c)) s"

fun decimal :: "nat \<Rightarrow> byte list" where
  "decimal n = (if n < 10 then [of_nat (48 + n)] else decimal (n div 10) @ [of_nat (48 + n mod 10)])"

declare decimal.simps [simp del]

definition dotted :: "u32 \<Rightarrow> byte list" where
  "dotted ip = decimal (unat (drop_bit 24 ip)) @ text_bytes ''.'' @ decimal (unat (drop_bit 16 ip AND 0xFF)) @ text_bytes ''.''
     @ decimal (unat (drop_bit 8 ip AND 0xFF)) @ text_bytes ''.'' @ decimal (unat (ip AND 0xFF))"

definition crlf :: "byte list" where
  "crlf = [13, 10]"

definition redirect :: "PortalServerCfg \<Rightarrow> u32 \<Rightarrow> byte list" where
  "redirect cfg host =
     text_bytes ''HTTP/1.1 302 Moved Temporarily'' @ crlf @ text_bytes ''Content-Type: text/html'' @ crlf
     @ text_bytes ''Cache-Control: no-cache'' @ crlf @ text_bytes ''Location: ''
     @ cstr (pc_url cfg) @ text_bytes ''?wlanuserip='' @ dotted host @ crlf
     @ text_bytes ''Content-Type: text/html'' @ crlf @ text_bytes ''Content-Length: 0'' @ crlf @ crlf"

text \<open>A channel is made by the server that owns it, so its pointer to the server is not null.\<close>

definition OnHandleMessage :: "PortalServerCfg list \<Rightarrow> u32 \<Rightarrow> CTCPTransport \<Rightarrow> byte list list \<Rightarrow> nat \<times> CTCPTransport" where
  "OnHandleMessage cfgs host t aData =
     (length (hd aData),
      case GetRedirectCfg 0 cfgs of None \<Rightarrow> t | Some cfg \<Rightarrow> tcp_SendMessage (redirect cfg host) t)"

text \<open>\<^verbatim>\<open>OnReceive_I\<close>; \<open>Inl\<close> is the result -1 when the buffer overflows, which makes the caller close the
  connection.\<close>

definition OnReceive_I ::
  "PortalServerCfg list \<Rightarrow> u32 \<Rightarrow> byte list \<Rightarrow> CTCPTransport \<Rightarrow> (CTCPTransport + CTCPTransport) option" where
  "OnReceive_I cfgs host aData t =
     (let buf = t_rcvbuf t @ [aData]
      in if length (concat buf) > 1024 * 32 then Some (Inl (t\<lparr>t_rcvbuf := buf\<rparr>))
         else case recv_loop (OnHandleMessage cfgs host) buf t of
                None \<Rightarrow> None
              | Some (rest, t') \<Rightarrow> Some (Inr (t'\<lparr>t_rcvbuf := rest\<rparr>)))"

text \<open>The chunks that \<^verbatim>\<open>recv\<close> returns, each of up to 16 kbytes, until it would block.\<close>

fun transport_input ::
  "PortalServerCfg list \<Rightarrow> u32 \<Rightarrow> byte list list \<Rightarrow> CTCPTransport \<Rightarrow> (CTCPTransport + CTCPTransport) option" where
  "transport_input cfgs host [] t = Some (Inr t)"
| "transport_input cfgs host (c # cs) t =
     (case OnReceive_I cfgs host c t of
        None \<Rightarrow> None
      | Some (Inl t') \<Rightarrow> Some (Inl t')
      | Some (Inr t') \<Rightarrow> transport_input cfgs host cs t')"

section \<open>The table of channels\<close>

text \<open>Channels by identifier, with a null pointer as \<open>None\<close> inside; a channel is given by its identifier. The
  operator of the map that \<^verbatim>\<open>FindChannel\<close> uses inserts a null pointer for an identifier it does not know. Only
  \<^verbatim>\<open>make_svc_handler\<close> and \<^verbatim>\<open>StopListen\<close> have callers.\<close>

type_synonym http_table = "u32 \<rightharpoonup> u32 option"

definition http_make_svc_handler :: "u32 \<Rightarrow> u32 \<times> u32" where
  "http_make_svc_handler base = (base, base + 1)"

definition http_AddChannel :: "u32 option \<Rightarrow> http_table \<Rightarrow> http_table" where
  "http_AddChannel pvs T = (case pvs of None \<Rightarrow> T | Some i \<Rightarrow> T(i \<mapsto> Some i))"

definition http_RemoveChannel :: "u32 \<Rightarrow> http_table \<Rightarrow> http_table" where
  "http_RemoveChannel i T = T(i := None)"

definition http_FindChannel :: "int \<Rightarrow> http_table \<Rightarrow> u32 option \<times> http_table" where
  "http_FindChannel handler T =
     (if handler \<le> 0 then (None, T)
      else case T (of_int handler) of None \<Rightarrow> (None, T(of_int handler \<mapsto> None)) | Some c \<Rightarrow> (c, T))"

definition http_StopListen :: "http_table \<Rightarrow> http_table" where
  "http_StopListen T = Map.empty"

lemma http_find_add: "0 < i \<Longrightarrow> fst (http_FindChannel i (http_AddChannel (Some (of_int i)) T)) = Some (of_int i)"
  by (simp add: http_FindChannel_def http_AddChannel_def)

section \<open>The stream\<close>

definition tcp_stream :: "CTCPTransport \<Rightarrow> byte list" where
  "tcp_stream t = t_written t @ concat (t_sndbuf t)"

lemma concat_consume: "concat (consume k bs) = drop k (concat bs)"
  by (induction k bs rule: consume.induct) auto

text \<open>The blocks handed to \<^verbatim>\<open>writev\<close> come first in the chain.\<close>

lemma take_FillIov: "k \<le> length (concat (FillIov bs)) \<Longrightarrow> take k (concat (FillIov bs)) = take k (concat bs)"
  unfolding FillIov_def by (metis append_take_drop_id concat_append take_append diff_is_0_eq take_0 append_Nil2)

lemma SendBuffedMsg_stream [simp]: "tcp_stream (SendBuffedMsg t) = tcp_stream t" "t_rcvbuf (SendBuffedMsg t) = t_rcvbuf t"
  by (auto simp: SendBuffedMsg_def tcp_stream_def Let_def concat_consume take_FillIov split: write_result.split)

lemma SendMessage_stream [simp]: "tcp_stream (tcp_SendMessage d t) = tcp_stream t @ d" "t_rcvbuf (tcp_SendMessage d t) = t_rcvbuf t"
  by (simp_all add: tcp_SendMessage_def) (simp add: tcp_stream_def)

text \<open>Whatever \<^verbatim>\<open>writev\<close> returns, now and when the connection becomes writable again, the bytes
  written and the bytes still buffered are the messages in the order they were sent.\<close>

theorem transport_stream:
  "tcp_stream (fold (\<lambda>m t. case m of None \<Rightarrow> SendBuffedMsg t | Some d \<Rightarrow> tcp_SendMessage d t) ms t) =
     tcp_stream t @ concat (map (case_option [] (\<lambda>d. d)) ms)"
  by (induction ms arbitrary: t) (auto split: option.split)

lemma OnReceive_I_redirects:
  assumes "t_rcvbuf t = []" "c \<noteq> []" "length c \<le> 16384"
  shows "\<exists>t'. OnReceive_I cfgs host c t = Some (Inr t') \<and> t_rcvbuf t' = []
     \<and> tcp_stream t' = tcp_stream t @ (case GetRedirectCfg 0 cfgs of None \<Rightarrow> [] | Some cfg \<Rightarrow> redirect cfg host)"
proof -
  have "recv_loop (OnHandleMessage cfgs host) [c] t = Some ([], snd (OnHandleMessage cfgs host t [c]))"
    using assms(2) by (subst recv_loop.simps) (simp add: OnHandleMessage_def recv_loop.simps)
  then show ?thesis
    using assms by (simp add: OnReceive_I_def OnHandleMessage_def tcp_stream_def split: option.split)
      (metis SendMessage_stream(1) tcp_stream_def append.assoc)
qed

text \<open>Every piece of a request that a host sends, of up to 16 kbytes, is answered with one redirection
  to the portal that names the host, in order and behind everything sent before; the receive loop
  returns and leaves nothing in its buffer.\<close>

theorem transport_redirects:
  assumes "t_rcvbuf t = []" "\<forall>c\<in>set cs. c \<noteq> [] \<and> length c \<le> 16384" "GetRedirectCfg 0 cfgs = Some cfg"
  shows "\<exists>t'. transport_input cfgs host cs t = Some (Inr t') \<and> t_rcvbuf t' = []
           \<and> tcp_stream t' = tcp_stream t @ concat (replicate (length cs) (redirect cfg host))"
  using assms(1,2)
proof (induction cs arbitrary: t)
  case (Cons c cs)
  then obtain t1 where t1: "OnReceive_I cfgs host c t = Some (Inr t1)" "t_rcvbuf t1 = []" "tcp_stream t1 = tcp_stream t @ redirect cfg host"
    using OnReceive_I_redirects [of t c cfgs host] assms(3) by auto
  then show ?case using Cons.IH [OF t1(2)] Cons.prems by auto
qed simp

definition demo_transport :: CTCPTransport where
  "demo_transport = \<lparr>t_sndbuf = [], t_rcvbuf = [], t_results = (\<lambda>i. if even i then Written 7 else WouldBlock), t_count = 0, t_written = []\<rparr>"

definition demo_portal_cfg :: PortalServerCfg where
  "demo_portal_cfg = \<lparr>pc_ip_address = 0, pc_version = 1, pc_server_id = 0, pc_port = 0, pc_key = [],
     pc_url = text_bytes ''http://p'' @ [0], pc_tail = []\<rparr>"

theorem transport_redirects_witness:
  "\<exists>t'. transport_input [demo_portal_cfg] 0x0A000001 [text_bytes ''GET / HTTP/1.0'', crlf] demo_transport = Some (Inr t')
     \<and> t_rcvbuf t' = [] \<and> tcp_stream t' = tcp_stream demo_transport @ concat (replicate (length [text_bytes ''GET / HTTP/1.0'', crlf]) (redirect demo_portal_cfg 0x0A000001))"
proof (rule transport_redirects)
  show "t_rcvbuf demo_transport = []" by (simp add: demo_transport_def)
  show "\<forall>c\<in>set [text_bytes ''GET / HTTP/1.0'', crlf]. c \<noteq> [] \<and> length c \<le> 16384" by (simp add: text_bytes_def crlf_def)
  show "GetRedirectCfg 0 [demo_portal_cfg] = Some demo_portal_cfg" by (simp add: GetRedirectCfg_def demo_portal_cfg_def)
qed

end
