(* ===== verification/Bras_Managers.thy ===== *)
theory Bras_Managers
  imports Pppoe_Server Portal_Transport
begin

text \<open>
  The session manager (\<^verbatim>\<open>src/src/UserMgr/CSessionManagerTest.cpp\<close>, \<^verbatim>\<open>CUser.cpp\<close>) and the authentication manager
  (\<^verbatim>\<open>src/src/AuthMgr/CAuthMgerTest.cpp\<close>) that the servers are linked with: the table of subscribers by
  address, which the calls of the PPPoE server fill, and the pool of addresses. The order in which an
  \<^verbatim>\<open>unordered_map\<close> is walked is the parameter \<open>iter\<close>; functions that end without a return statement
  give the parameter \<open>junk\<close>. The reading of an address by ACE is the parameter \<open>inet\<close>.
\<close>

section \<open>Subscribers\<close>

record CUser =
  cu_session :: nat
  cu_mac :: "byte list"
  cu_usertype :: u8
  cu_authtype :: u8
  cu_username :: "byte list"
  cu_userip :: u32
  cu_primarydns :: u32
  cu_secondarydns :: u32

text \<open>The name is cut at 31 bytes.\<close>

definition DateFrom :: "pppoe_user \<Rightarrow> CUser" where
  "DateFrom u = \<lparr>cu_session = su_session u, cu_mac = su_mac u, cu_usertype = su_user_type u, cu_authtype = auth_type u,
     cu_username = (strncpy (replicate 32 0) (user_name u) 32)[31 := 0], cu_userip = user_ip u,
     cu_primarydns = primary_dns u, cu_secondarydns = secondary_dns u\<rparr>"

type_synonym session_mgr = "u32 \<rightharpoonup> CUser"

definition sm_AddUser :: "CUser \<Rightarrow> session_mgr \<Rightarrow> session_mgr" where
  "sm_AddUser user m = m(cu_userip user \<mapsto> user)"

definition sm_DeleteUser :: "u32 \<Rightarrow> session_mgr \<Rightarrow> session_mgr" where
  "sm_DeleteUser ip m = m(ip := None)"

definition FindUserIp :: "(session_mgr \<Rightarrow> u32 list) \<Rightarrow> u32 \<Rightarrow> nat \<Rightarrow> session_mgr \<Rightarrow> u32" where
  "FindUserIp iter junk sessionid m =
     (case find (\<lambda>ip. case m ip of None \<Rightarrow> False | Some u \<Rightarrow> cu_session u = sessionid) (iter m) of
        None \<Rightarrow> junk
      | Some ip \<Rightarrow> (case m ip of None \<Rightarrow> junk | Some u \<Rightarrow> cu_userip u))"

definition addUserRequest :: "pppoe_user \<Rightarrow> session_mgr \<Rightarrow> session_mgr" where
  "addUserRequest u m = sm_AddUser (DateFrom u) m"

definition deleteUserRequest :: "(session_mgr \<Rightarrow> u32 list) \<Rightarrow> u32 \<Rightarrow> Session_Offline \<Rightarrow> session_mgr \<Rightarrow> session_mgr" where
  "deleteUserRequest iter junk s m = sm_DeleteUser (FindUserIp iter junk (so_session s) m) m"

definition modifyUserRequest :: "pppoe_user \<Rightarrow> session_mgr \<Rightarrow> session_mgr" where
  "modifyUserRequest u m = (if m (user_ip u) = None then m else m(user_ip u \<mapsto> DateFrom u))"

text \<open>The calls of the PPPoE server, in their order.\<close>

fun session_mgr_call :: "(session_mgr \<Rightarrow> u32 list) \<Rightarrow> u32 \<Rightarrow> pppoe_call \<Rightarrow> session_mgr \<Rightarrow> session_mgr" where
  "session_mgr_call iter junk (AddUserRequest u) m = addUserRequest u m"
| "session_mgr_call iter junk (DeleteUserRequest s) m = deleteUserRequest iter junk s m"
| "session_mgr_call iter junk _ m = m"

section \<open>The pool of addresses\<close>

definition AuthMgr_InIt :: "nat \<Rightarrow> nat \<Rightarrow> byte list list \<Rightarrow> byte list list" where
  "AuthMgr_InIt startip endip pool = pool @ map (\<lambda>i. text_bytes ''100.1.1.'' @ decimal i) [startip..<endip + 1]"

text \<open>An empty pool makes the code construct a string from a null pointer: \<open>None\<close>.\<close>

definition AuthMgr_AllocIp :: "byte list list \<Rightarrow> (byte list \<times> byte list list) option" where
  "AuthMgr_AllocIp pool = (case pool of [] \<Rightarrow> None | ip # rest \<Rightarrow> Some (ip, rest))"

definition AuthMgr_FreeIp :: "byte list \<Rightarrow> byte list list \<Rightarrow> byte list list" where
  "AuthMgr_FreeIp ip pool = (if ip \<noteq> [] then pool @ [ip] else pool)"

text \<open>Every request is accepted at once with the next address of the pool.\<close>

definition AuthMgr_AuthRequest ::
  "(byte list \<Rightarrow> u32) \<Rightarrow> pppoe_auth \<Rightarrow> byte list list \<Rightarrow> (Auth_Response \<times> byte list list) option" where
  "AuthMgr_AuthRequest inet r pool =
     (case AuthMgr_AllocIp pool of
        None \<Rightarrow> None
      | Some (ip, rest) \<Rightarrow>
          Some (\<lparr>resp_session = ar_session r, resp_mac = ar_mac r, authResult = 0, authResultDesc = replicate 32 0,
                  subscriberIP = inet ip, primaryDNS = inet (text_bytes ''200.1.1.1''),
                  secondaryDNS = inet (text_bytes ''200.1.1.100'')\<rparr>, rest))"

section \<open>The table of subscribers\<close>

text \<open>The subscribers that the calls have registered and not deleted, oldest first.\<close>

fun registered_step :: "pppoe_call \<Rightarrow> pppoe_user list \<Rightarrow> pppoe_user list" where
  "registered_step (AddUserRequest u) us = us @ [u]"
| "registered_step (DeleteUserRequest s) us = filter (\<lambda>u. su_session u \<noteq> so_session s) us"
| "registered_step _ us = us"

text \<open>A sequence of calls in which no session identifier and no address is registered twice, and only
  registered sessions are deleted.\<close>

fun proper :: "pppoe_call list \<Rightarrow> pppoe_user list \<Rightarrow> bool" where
  "proper [] us = True"
| "proper (c # cs) us =
     ((case c of
         AddUserRequest u \<Rightarrow> su_session u \<notin> su_session ` set us \<and> user_ip u \<notin> user_ip ` set us
       | DeleteUserRequest s \<Rightarrow> so_session s \<in> su_session ` set us
       | _ \<Rightarrow> True) \<and> proper cs (registered_step c us))"

definition table_of :: "pppoe_user list \<Rightarrow> session_mgr" where
  "table_of us = map_of (map (\<lambda>u. (user_ip u, DateFrom u)) us)"

definition all_distinct :: "pppoe_user list \<Rightarrow> bool" where
  "all_distinct us \<longleftrightarrow> distinct (map su_session us) \<and> distinct (map user_ip us)"

lemma table_of_Some:
  "distinct (map user_ip us) \<Longrightarrow> table_of us ip = Some x \<longleftrightarrow> (\<exists>u\<in>set us. user_ip u = ip \<and> DateFrom u = x)"
  unfolding table_of_def by (subst map_of_eq_Some_iff) (auto simp: o_def)

lemma dom_table_of: "dom (table_of us) = user_ip ` set us"
  by (simp add: table_of_def dom_map_of_conv_image_fst image_image)

lemma table_of_add:
  assumes "user_ip u \<notin> user_ip ` set us"
  shows "addUserRequest u (table_of us) = table_of (us @ [u])"
proof -
  have "user_ip u \<notin> dom (table_of us)" using assms by (simp add: dom_table_of)
  then show ?thesis
    by (auto simp: addUserRequest_def sm_AddUser_def table_of_def DateFrom_def map_add_def fun_eq_iff domIff split: option.split)
qed

lemma FindUserIp_registered:
  assumes "\<And>m. set (iter m) = dom m" "all_distinct us" "u \<in> set us"
  shows "FindUserIp iter junk (su_session u) (table_of us) = user_ip u"
proof -
  let ?m = "table_of us" and ?p = "\<lambda>ip. case table_of us ip of None \<Rightarrow> False | Some x \<Rightarrow> cu_session x = su_session u"
  have d: "distinct (map su_session us)" "distinct (map user_ip us)" using assms(2) by (simp_all add: all_distinct_def)
  have only: "ip = user_ip u" if h: "?p ip" for ip
  proof -
    obtain x where x: "?m ip = Some x" "cu_session x = su_session u" using h by (auto split: option.splits)
    then obtain v where v: "v \<in> set us" "user_ip v = ip" "DateFrom v = x" using table_of_Some [OF d(2)] by blast
    then have "su_session v = su_session u" using x(2) by (auto simp: DateFrom_def)
    then show ?thesis using d(1) v assms(3) by (metis distinct_map inj_onD)
  qed
  have m: "?m (user_ip u) = Some (DateFrom u)" using table_of_Some [OF d(2)] assms(3) by blast
  then have "?p (user_ip u)" by (simp add: DateFrom_def)
  moreover have "user_ip u \<in> set (iter ?m)" using assms(1,3) by (simp add: dom_table_of)
  ultimately obtain ip where "find ?p (iter ?m) = Some ip" by (cases "find ?p (iter ?m)") (auto simp: find_None_iff)
  moreover from this have "?p ip" by (auto simp: find_Some_iff)
  ultimately show ?thesis using only m by (auto simp: FindUserIp_def DateFrom_def)
qed

lemma table_of_delete:
  assumes "\<And>m. set (iter m) = dom m" "all_distinct us" "so_session s \<in> su_session ` set us"
  shows "deleteUserRequest iter junk s (table_of us) = table_of (filter (\<lambda>u. su_session u \<noteq> so_session s) us)"
proof -
  obtain u where u: "u \<in> set us" "su_session u = so_session s" using assms(3) by force
  let ?vs = "filter (\<lambda>v. su_session v \<noteq> so_session s) us"
  have d: "distinct (map su_session us)" "distinct (map user_ip us)" using assms(2) by (simp_all add: all_distinct_def)
  then have d': "distinct (map user_ip ?vs)" by (simp add: distinct_map_filter)
  have "v \<in> set ?vs \<longleftrightarrow> v \<in> set us \<and> user_ip v \<noteq> user_ip u" for v
    using d u by (auto simp: distinct_map) (metis inj_onD)+
  then have "((table_of us)(user_ip u := None)) ip = Some x \<longleftrightarrow> table_of ?vs ip = Some x" for ip x
    using table_of_Some [OF d(2), of ip x] table_of_Some [OF d', of ip x] by auto
  then have "(table_of us)(user_ip u := None) = table_of ?vs"
    by (intro ext) (metis not_None_eq)
  then show ?thesis
    using FindUserIp_registered [OF assms(1,2) u(1), of junk] u(2) by (simp add: deleteUserRequest_def sm_DeleteUser_def)
qed

text \<open>The table after any proper sequence of calls has exactly the registered subscribers, by address.\<close>

lemma session_table_run:
  assumes "\<And>m. set (iter m) = dom m"
  shows "proper cs us \<Longrightarrow> all_distinct us \<Longrightarrow>
    fold (session_mgr_call iter junk) cs (table_of us) = table_of (fold registered_step cs us)"
proof (induction cs arbitrary: us)
  case (Cons c cs)
  show ?case
  proof (cases c)
    case (AddUserRequest u)
    then have "all_distinct (us @ [u])" using Cons.prems by (simp add: all_distinct_def)
    then show ?thesis
      using Cons AddUserRequest table_of_add [of u us] by simp
  next
    case (DeleteUserRequest s)
    then have "all_distinct (filter (\<lambda>u. su_session u \<noteq> so_session s) us)"
      using Cons.prems by (simp add: all_distinct_def distinct_map_filter)
    then show ?thesis
      using Cons DeleteUserRequest table_of_delete [OF assms Cons.prems(2), of s junk] by simp
  qed (use Cons in simp_all)
qed simp


definition demo_user :: "nat \<Rightarrow> u32 \<Rightarrow> pppoe_user" where
  "demo_user sid ip = \<lparr>auth_type = 0, user_name = [0x62], user_ip = ip, primary_dns = 0, secondary_dns = 0,
     su_session = sid, su_mac = [], su_user_type = 3\<rparr>"


text \<open>A request to delete a session that is not registered removes whoever has the address that the
  function happens to return.\<close>

theorem session_delete_unregistered:
  assumes "\<And>m. set (iter m) = dom m" "\<forall>u\<in>ran m. cu_session u \<noteq> so_session s"
  shows "deleteUserRequest iter junk s m = m(junk := None)"
proof -
  have "find (\<lambda>ip. case m ip of None \<Rightarrow> False | Some u \<Rightarrow> cu_session u = so_session s) (iter m) = None"
    using assms by (auto simp: find_None_iff ran_def split: option.split)
  then show ?thesis by (simp add: deleteUserRequest_def FindUserIp_def sm_DeleteUser_def)
qed

section \<open>The pool\<close>

text \<open>A sequence of requests, with their answers.\<close>

fun serve :: "(byte list \<Rightarrow> u32) \<Rightarrow> pppoe_auth list \<Rightarrow> byte list list \<Rightarrow> (Auth_Response list \<times> byte list list) option" where
  "serve inet [] pool = Some ([], pool)"
| "serve inet (r # rs) pool =
     (case AuthMgr_AuthRequest inet r pool of
        None \<Rightarrow> None
      | Some (a, pool') \<Rightarrow> (case serve inet rs pool' of None \<Rightarrow> None | Some (as, p) \<Rightarrow> Some (a # as, p)))"

lemma serve_pool:
  "(serve inet rs pool = None \<longleftrightarrow> length pool < length rs)
   \<and> (\<forall>as p. serve inet rs pool = Some (as, p) \<longrightarrow> map subscriberIP as = map inet (take (length rs) pool) \<and> p = drop (length rs) pool)"
proof (induction rs arbitrary: pool)
  case (Cons r rs)
  show ?case
  proof (cases pool)
    case (Cons ip rest)
    then show ?thesis
      using Cons.IH [of rest] by (auto simp: AuthMgr_AuthRequest_def AuthMgr_AllocIp_def split: option.splits)
  qed (simp add: AuthMgr_AuthRequest_def AuthMgr_AllocIp_def)
qed simp

text \<open>The authentication manager gives the addresses 100.1.1.0 to 100.1.1.255 to the first 256 requests,
  one each and in this order, and fails at the next one: nothing returns an address to the pool.\<close>

theorem auth_pool_exhausted:
  "(serve inet rs (AuthMgr_InIt 0 255 []) = None \<longleftrightarrow> 256 < length rs)
   \<and> (\<forall>as p i. serve inet rs (AuthMgr_InIt 0 255 []) = Some (as, p) \<and> i < length rs \<longrightarrow>
        subscriberIP (as ! i) = inet (text_bytes ''100.1.1.'' @ decimal i))"
proof -
  let ?pool = "AuthMgr_InIt 0 255 []"
  have l: "length ?pool = 256" by (simp add: AuthMgr_InIt_def)
  have n: "?pool ! i = text_bytes ''100.1.1.'' @ decimal i" if "i < 256" for i
    using that by (simp only: AuthMgr_InIt_def append_Nil) (simp add: nth_map nth_upt del: upt_Suc)
  have "subscriberIP (as ! i) = inet (text_bytes ''100.1.1.'' @ decimal i)"
    if h: "serve inet rs ?pool = Some (as, p)" "i < length rs" for as p i
  proof -
    have k: "length rs \<le> 256" using serve_pool [of inet rs ?pool] h(1) l by auto
    have m: "map subscriberIP as = map inet (take (length rs) ?pool)" using serve_pool [of inet rs ?pool] h(1) by blast
    have "length as = length rs" using arg_cong [OF m, of length] k l by simp
    then have "subscriberIP (as ! i) = map inet (take (length rs) ?pool) ! i" using m h(2) by (metis nth_map)
    then show ?thesis using h(2) k l n [of i] by simp
  qed
  then show ?thesis using serve_pool [of inet rs ?pool] l by auto
qed

end
